(* ===== verification/Prelude.thy ===== *)
theory Prelude
  imports
    Main
    "HOL-Library.Word"
    "HOL-Library.List_Lexorder"
    "HOL-Library.Finite_Map"
    "HOL-Library.Multiset"
begin

text \<open>
  What every theory of the development shares: the outcome of a fallible Rust function, machine
  integers and their little-endian bytes, fixed-size byte arrays \<open>[u8; N]\<close>, the operations of
  \<open>HashMap\<close> and \<open>Vec\<close> the sources use, and decimal formatting.

  \<^item> A Rust function of type \<open>Result<T, E>\<close> yields \<open>Ok\<close> or \<open>Err\<close>; a panic (an index out of
    range, \<open>unwrap\<close> of \<open>None\<close>, a division by zero) is the third outcome \<open>Panic\<close>. A function
    that cannot fail in Rust but may panic has the same type and never yields \<open>Err\<close>.
  \<^item> \<open>u8\<close>, \<open>u32\<close>, \<open>u64\<close> are words of that width. The release profile of the workspace does not
    enable overflow checks, so arithmetic wraps, as it does on words. \<open>usize\<close> is \<open>nat\<close> where
    it is a length or an index, the conversion \<open>as usize\<close> of a \<open>u64\<close> is \<open>unat\<close> (64-bit
    targets).
  \<^item> \<open>HashMap\<close> and \<open>HashSet\<close> are \<open>fmap\<close> and \<open>fset\<close>: finite, and with no order of their own.
    What Rust collects from such a map in an unspecified order is a multiset.
\<close>

section \<open>Fact collections\<close>

named_theorems outcome_simps \<open>equations of the outcome type and its sequencing\<close>
named_theorems byte_simps \<open>lengths and values of encodings\<close>
named_theorems hashmap_simps \<open>lookups in hash maps after an update\<close>

section \<open>Outcomes\<close>

datatype ('a, 'e) result = Ok (ok_value: 'a) | Err (err_value: 'e) | Panic string

text \<open>The question mark operator: go on with the value, hand an error or a panic on.\<close>

fun rbind :: "('a, 'e) result \<Rightarrow> ('a \<Rightarrow> ('b, 'e) result) \<Rightarrow> ('b, 'e) result" where
  "rbind (Ok x) f = f x"
| "rbind (Err e) f = Err e"
| "rbind (Panic m) f = Panic m"

fun map_err :: "('e \<Rightarrow> 'f) \<Rightarrow> ('a, 'e) result \<Rightarrow> ('a, 'f) result" where
  "map_err f (Ok x) = Ok x"
| "map_err f (Err e) = Err (f e)"
| "map_err f (Panic m) = Panic m"

fun is_ok :: "('a, 'e) result \<Rightarrow> bool" where
  "is_ok (Ok x) = True"
| "is_ok (Err e) = False"
| "is_ok (Panic m) = False"

fun is_err :: "('a, 'e) result \<Rightarrow> bool" where
  "is_err (Ok x) = False"
| "is_err (Err e) = True"
| "is_err (Panic m) = False"

fun is_panic :: "('a, 'e) result \<Rightarrow> bool" where
  "is_panic (Ok x) = False"
| "is_panic (Err e) = False"
| "is_panic (Panic m) = True"

text \<open>\<open>for x in xs { check(x)?; }\<close>\<close>

fun for_each :: "('a \<Rightarrow> (unit, 'e) result) \<Rightarrow> 'a list \<Rightarrow> (unit, 'e) result" where
  "for_each f [] = Ok ()"
| "for_each f (x # xs) = rbind (f x) (\<lambda>_. for_each f xs)"

text \<open>\<open>for x in xs { ys.push(f(x)?); }\<close>\<close>

fun for_collect :: "('a \<Rightarrow> ('b, 'e) result) \<Rightarrow> 'a list \<Rightarrow> ('b list, 'e) result" where
  "for_collect f [] = Ok []"
| "for_collect f (x # xs) = rbind (f x) (\<lambda>y. rbind (for_collect f xs) (\<lambda>ys. Ok (y # ys)))"

text \<open>\<open>v[i]\<close> on a \<open>Vec\<close> or a slice, and \<open>v.get(i)\<close>.\<close>

definition vec_index :: "'a list \<Rightarrow> nat \<Rightarrow> ('a, 'e) result" where
  "vec_index xs i = (if i < length xs then Ok (xs ! i) else Panic ''index out of bounds'')"

definition vec_get :: "'a list \<Rightarrow> nat \<Rightarrow> 'a option" where
  "vec_get xs i = (if i < length xs then Some (xs ! i) else None)"

text \<open>\<open>v.last()\<close>\<close>

definition vec_last :: "'a list \<Rightarrow> 'a option" where
  "vec_last xs = (if xs = [] then None else Some (last xs))"

lemma rbind_eq_Ok [outcome_simps]: "rbind m f = Ok y \<longleftrightarrow> (\<exists>x. m = Ok x \<and> f x = Ok y)"
  by (cases m) auto

lemma rbind_eq_Err [outcome_simps]:
  "rbind m f = Err e \<longleftrightarrow> m = Err e \<or> (\<exists>x. m = Ok x \<and> f x = Err e)"
  by (cases m) auto

lemma rbind_eq_Panic [outcome_simps]:
  "rbind m f = Panic s \<longleftrightarrow> m = Panic s \<or> (\<exists>x. m = Ok x \<and> f x = Panic s)"
  by (cases m) auto

lemma map_err_eq_Ok [outcome_simps]: "map_err f m = Ok x \<longleftrightarrow> m = Ok x"
  by (cases m) auto

lemma rbind_is_panic: "is_panic (rbind m f) \<longleftrightarrow> is_panic m \<or> (\<exists>x. m = Ok x \<and> is_panic (f x))"
  by (cases m) auto

lemma is_ok_iff [outcome_simps]: "is_ok r \<longleftrightarrow> (\<exists>x. r = Ok x)"
  by (cases r) auto

lemma is_err_iff [outcome_simps]: "is_err r \<longleftrightarrow> (\<exists>e. r = Err e)"
  by (cases r) auto

lemma is_panic_iff [outcome_simps]: "is_panic r \<longleftrightarrow> (\<exists>s. r = Panic s)"
  by (cases r) auto

lemma for_each_eq_Ok [outcome_simps]: "for_each f xs = Ok u \<longleftrightarrow> (\<forall>x \<in> set xs. f x = Ok ())"
  by (induction xs) (auto simp: outcome_simps)

lemma for_each_append: "for_each f (xs @ ys) = rbind (for_each f xs) (\<lambda>_. for_each f ys)"
proof (induction xs)
  case (Cons x xs)
  then show ?case by (cases "f x") auto
qed simp

lemma for_each_eq_ErrD: "for_each f xs = Err e \<Longrightarrow> \<exists>x \<in> set xs. f x = Err e"
  by (induction xs) (auto simp: outcome_simps)

lemma for_each_no_panic: "(\<And>x. x \<in> set xs \<Longrightarrow> \<not> is_panic (f x)) \<Longrightarrow> \<not> is_panic (for_each f xs)"
  by (induction xs) (auto simp: rbind_is_panic)

lemma for_collect_eq_Ok [outcome_simps]: "for_collect f xs = Ok ys \<longleftrightarrow> list_all2 (\<lambda>x y. f x = Ok y) xs ys"
  by (induction xs arbitrary: ys) (auto simp: outcome_simps list_all2_Cons1)

lemma for_collect_total: "(\<And>x. x \<in> set xs \<Longrightarrow> f x = Ok (g x)) \<Longrightarrow> for_collect f xs = Ok (map g xs)"
  by (induction xs) auto

lemma vec_index_in [simp]: "i < length xs \<Longrightarrow> vec_index xs i = Ok (xs ! i)"
  by (simp add: vec_index_def)

lemma vec_index_out: "length xs \<le> i \<Longrightarrow> is_panic (vec_index xs i)"
  by (simp add: vec_index_def)

lemma vec_index_eq_Ok [outcome_simps]: "vec_index xs i = Ok x \<longleftrightarrow> i < length xs \<and> xs ! i = x"
  by (auto simp: vec_index_def)

lemma vec_get_eq_Some: "vec_get xs i = Some x \<longleftrightarrow> i < length xs \<and> xs ! i = x"
  by (auto simp: vec_get_def)

section \<open>Machine integers and their bytes\<close>

type_synonym u8 = "8 word"
type_synonym u32 = "32 word"
type_synonym u64 = "64 word"
type_synonym u128 = "128 word"

definition saturating_sub :: "'a::len word \<Rightarrow> 'a word \<Rightarrow> 'a word" where
  "saturating_sub a b = (if a < b then 0 else a - b)"

text \<open>\<open>w.to_le_bytes()\<close>: the least significant byte first.\<close>

definition to_le_bytes :: "'a::len word \<Rightarrow> u8 list" where
  "to_le_bytes w = map (\<lambda>i. ucast (drop_bit (8 * i) w)) [0..<LENGTH('a) div 8]"

lemma unat_saturating_sub: "unat (saturating_sub a b) = unat a - unat b"
  by (simp add: saturating_sub_def unat_sub_if_size word_less_nat_alt)

lemma length_to_le_bytes [byte_simps]: "length (to_le_bytes (w :: 'a::len word)) = LENGTH('a) div 8"
  by (simp add: to_le_bytes_def)

lemma to_le_bytes_nth_bit:
  assumes "n < LENGTH('a::len)" and "8 dvd LENGTH('a)"
  shows "bit (to_le_bytes (w :: 'a word) ! (n div 8)) (n mod 8) \<longleftrightarrow> bit w n"
proof -
  have "n div 8 < LENGTH('a) div 8"
    using assms by (auto elim!: dvdE)
  then have "to_le_bytes w ! (n div 8) = ucast (drop_bit (8 * (n div 8)) w)"
    by (simp add: to_le_bytes_def)
  then show ?thesis
    by (simp add: bit_unsigned_iff bit_drop_bit_eq)
qed

lemma to_le_bytes_inject:
  assumes "8 dvd LENGTH('a::len)"
  shows "to_le_bytes (v :: 'a word) = to_le_bytes w \<longleftrightarrow> v = w"
proof
  assume eq: "to_le_bytes v = to_le_bytes w"
  show "v = w"
  proof (rule bit_word_eqI)
    fix n assume "n < LENGTH('a)"
    with assms eq show "bit v n \<longleftrightarrow> bit w n"
      by (metis to_le_bytes_nth_bit)
  qed
qed simp

text \<open>\<open>u64::from_le_bytes(..)\<close> and its siblings.\<close>

definition from_le_bytes :: "u8 list \<Rightarrow> 'a::len word" where
  "from_le_bytes bs = of_nat (\<Sum>i < length bs. unat (bs ! i) * 256 ^ i)"

lemma sum_base_digits: "(\<Sum>i < n. (x div 256 ^ i mod 256) * 256 ^ i) = x mod (256 :: nat) ^ n"
proof (induction n)
  case (Suc n)
  have "x mod 256 ^ Suc n = 256 ^ n * (x div 256 ^ n mod 256) + x mod 256 ^ n"
    by (metis mod_mult2_eq power_Suc2)
  with Suc show ?case by (simp add: mult.commute)
qed simp

lemma to_le_bytes_digit:
  assumes "i < LENGTH('a::len) div 8"
  shows "unat (to_le_bytes (w :: 'a word) ! i) = unat w div 256 ^ i mod 256"
proof -
  have "(2 :: nat) ^ (8 * i) = 256 ^ i" by (simp add: power_mult)
  with assms show ?thesis
    by (simp add: to_le_bytes_def unsigned_ucast_eq unsigned_drop_bit_eq)
       (simp add: take_bit_eq_mod drop_bit_eq_div)
qed

lemma from_to_le_bytes [byte_simps]:
  assumes "8 dvd LENGTH('a::len)"
  shows "from_le_bytes (to_le_bytes (w :: 'a word)) = w"
proof -
  have "(256 :: nat) ^ (LENGTH('a) div 8) = 2 ^ (8 * (LENGTH('a) div 8))" by (simp add: power_mult)
  then have size: "(256 :: nat) ^ (LENGTH('a) div 8) = 2 ^ LENGTH('a)" using assms by simp
  have "(\<Sum>i < LENGTH('a) div 8. unat (to_le_bytes w ! i) * 256 ^ i) =
        (\<Sum>i < LENGTH('a) div 8. (unat w div 256 ^ i mod 256) * 256 ^ i)"
    by (intro sum.cong) (simp_all add: to_le_bytes_digit)
  also have "\<dots> = unat w" unfolding sum_base_digits size by (simp add: unat_of_nat flip: unat_word_ariths)
  finally show ?thesis by (simp add: from_le_bytes_def length_to_le_bytes)
qed

text \<open>\<open>to_be_bytes\<close> and \<open>from_be_bytes\<close>: the most significant byte first.\<close>

definition to_be_bytes :: "'a::len word \<Rightarrow> u8 list" where
  "to_be_bytes w = rev (to_le_bytes w)"

definition from_be_bytes :: "u8 list \<Rightarrow> 'a::len word" where
  "from_be_bytes bs = from_le_bytes (rev bs)"

lemma length_to_be_bytes [simp, byte_simps]: "length (to_be_bytes (w :: 'a::len word)) = LENGTH('a) div 8"
  by (simp add: to_be_bytes_def length_to_le_bytes)

lemma from_to_be_bytes: "8 dvd LENGTH('a::len) \<Longrightarrow> from_be_bytes (to_be_bytes (w :: 'a word)) = w"
  by (simp add: to_be_bytes_def from_be_bytes_def from_to_le_bytes)

text \<open>\<open>s.as_bytes()\<close>\<close>

definition str_bytes :: "string \<Rightarrow> u8 list" where
  "str_bytes s = map (\<lambda>c. of_nat (of_char c)) s"

lemma str_bytes_append [simp]: "str_bytes (s @ t) = str_bytes s @ str_bytes t"
  by (simp add: str_bytes_def)

lemma length_str_bytes [simp]: "length (str_bytes s) = length s"
  by (simp add: str_bytes_def)

lemma str_bytes_inject [simp]: "str_bytes s = str_bytes t \<longleftrightarrow> s = t"
proof -
  have "inj (\<lambda>c :: char. of_nat (of_char c) :: u8)"
  proof (rule injI)
    fix c d :: char
    assume "(of_nat (of_char c) :: u8) = of_nat (of_char d)"
    then have "unat (of_nat (of_char c) :: u8) = unat (of_nat (of_char d) :: u8)" by simp
    then have "(of_char c :: nat) mod 256 = of_char d mod 256" unfolding unat_of_nat by simp
    then show "c = d" by (simp add: of_char_mod_256)
  qed
  then show ?thesis unfolding str_bytes_def by (simp add: inj_map_eq_map)
qed

section \<open>Fixed-size byte arrays\<close>

text \<open>\<open>[u8; N]\<close>. The length is part of the type, as it is in Rust.\<close>

typedef (overloaded) 'n bytes = "{bs :: u8 list. length bs = LENGTH('n::len)}"
  morphisms bytes_list mk_bytes
proof
  show "replicate LENGTH('n) 0 \<in> {bs :: u8 list. length bs = LENGTH('n)}" by simp
qed

text \<open>\<open>[b; N]\<close>, and \<open>arr.copy_from_slice(&bs)\<close>, which panics unless the lengths agree.\<close>

definition bytes_fill :: "u8 \<Rightarrow> 'n::len bytes" where
  "bytes_fill b = mk_bytes (replicate LENGTH('n) b)"

definition copy_from_slice :: "u8 list \<Rightarrow> ('n::len bytes, 'e) result" where
  "copy_from_slice bs =
     (if length bs = LENGTH('n) then Ok (mk_bytes bs)
      else Panic ''copy_from_slice: source slice length does not match destination'')"

lemma length_bytes_list [simp, byte_simps]: "length (bytes_list (b :: 'n::len bytes)) = LENGTH('n)"
  using bytes_list [of b] by simp

lemma bytes_list_inject' [simp]: "bytes_list a = bytes_list b \<longleftrightarrow> a = b"
  by (rule bytes_list_inject)

lemma bytes_list_fill [byte_simps]: "bytes_list (bytes_fill b :: 'n::len bytes) = replicate LENGTH('n) b"
  by (simp add: bytes_fill_def mk_bytes_inverse)

lemma bytes32_nonempty [simp]: "bytes_list (b :: 32 bytes) \<noteq> []"
  using length_bytes_list [of b] by fastforce

lemma bytes_fill_inject [simp]: "(bytes_fill a :: 'n::len bytes) = bytes_fill b \<longleftrightarrow> a = b"
proof
  assume "(bytes_fill a :: 'n bytes) = bytes_fill b"
  then have "replicate LENGTH('n) a = replicate LENGTH('n) b"
    by (metis bytes_list_fill)
  then show "a = b"
    by (simp add: replicate_eq_replicate)
qed simp

lemma copy_from_slice_bytes [simp]: "copy_from_slice (bytes_list b) = Ok b"
  by (simp add: copy_from_slice_def bytes_list_inverse)

lemma copy_from_slice_eq_Ok [outcome_simps]:
  "copy_from_slice bs = Ok b \<longleftrightarrow> bytes_list b = bs"
  by (auto simp: copy_from_slice_def bytes_list_inverse mk_bytes_inverse)

instantiation bytes :: (len) equal
begin

definition equal_bytes :: "'a bytes \<Rightarrow> 'a bytes \<Rightarrow> bool" where
  "equal_bytes a b \<longleftrightarrow> bytes_list a = bytes_list b"

instance by standard (simp add: equal_bytes_def)

end

text \<open>Arrays compare lexicographically, bytes as unsigned numbers (\<open>Ord for [u8; N]\<close>).\<close>

instantiation bytes :: (len) linorder
begin

definition less_eq_bytes :: "'a bytes \<Rightarrow> 'a bytes \<Rightarrow> bool" where
  "less_eq_bytes a b \<longleftrightarrow> bytes_list a \<le> bytes_list b"

definition less_bytes :: "'a bytes \<Rightarrow> 'a bytes \<Rightarrow> bool" where
  "less_bytes a b \<longleftrightarrow> bytes_list a < bytes_list b"

instance
proof
  fix x y z :: "'a bytes"
  show "x < y \<longleftrightarrow> x \<le> y \<and> \<not> y \<le> x"
    unfolding less_eq_bytes_def less_bytes_def by (rule less_le_not_le)
  show "x \<le> x"
    unfolding less_eq_bytes_def by (rule order_refl)
  show "x \<le> y \<Longrightarrow> y \<le> z \<Longrightarrow> x \<le> z"
    unfolding less_eq_bytes_def by (rule order_trans)
  show "x \<le> y \<Longrightarrow> y \<le> x \<Longrightarrow> x = y"
    unfolding less_eq_bytes_def by (metis antisym bytes_list_inject')
  show "x \<le> y \<or> y \<le> x"
    unfolding less_eq_bytes_def by (rule linear)
qed

end

section \<open>Hash maps\<close>

type_synonym ('k, 'v) hashmap = "('k, 'v) fmap"

text \<open>
  \<open>m.get(k)\<close> is \<open>fmlookup\<close>, \<open>m.insert(k, v)\<close> is \<open>fmupd\<close>, \<open>m.remove(k)\<close> is \<open>fmdrop\<close>;
  \<open>contains_key\<close>, \<open>len\<close>, \<open>values\<close>, \<open>retain\<close> and the update through \<open>get_mut\<close> are:
\<close>

definition hm_contains_key :: "('k, 'v) hashmap \<Rightarrow> 'k \<Rightarrow> bool" where
  "hm_contains_key m k \<longleftrightarrow> fmlookup m k \<noteq> None"

definition hm_len :: "('k, 'v) hashmap \<Rightarrow> nat" where
  "hm_len m = fcard (fmdom m)"

definition hm_values :: "('k, 'v) hashmap \<Rightarrow> 'v multiset" where
  "hm_values m = image_mset (\<lambda>k. the (fmlookup m k)) (mset_set (fset (fmdom m)))"

definition hm_retain :: "('k \<Rightarrow> 'v \<Rightarrow> bool) \<Rightarrow> ('k, 'v) hashmap \<Rightarrow> ('k, 'v) hashmap" where
  "hm_retain P m = fmfilter (\<lambda>k. case fmlookup m k of None \<Rightarrow> False | Some v \<Rightarrow> P k v) m"

definition hm_update :: "'k \<Rightarrow> ('v \<Rightarrow> 'v) \<Rightarrow> ('k, 'v) hashmap \<Rightarrow> ('k, 'v) hashmap" where
  "hm_update k f m = (case fmlookup m k of None \<Rightarrow> m | Some v \<Rightarrow> fmupd k (f v) m)"

text \<open>Walking a hash map meets each key once.\<close>

definition walks :: "(('k, 'v) hashmap \<Rightarrow> 'k list) \<Rightarrow> bool" where
  "walks iteration \<longleftrightarrow> (\<forall>m. set (iteration m) = fset (fmdom m) \<and> distinct (iteration m))"

text \<open>\<open>for k in ks { m.insert(k, v); }\<close> and \<open>for k in ks { m.remove(k); }\<close>\<close>

definition hm_insert_all :: "'k list \<Rightarrow> 'v \<Rightarrow> ('k, 'v) hashmap \<Rightarrow> ('k, 'v) hashmap" where
  "hm_insert_all ks v m = fold (\<lambda>k. fmupd k v) ks m"

definition hm_remove_all :: "'k list \<Rightarrow> ('k, 'v) hashmap \<Rightarrow> ('k, 'v) hashmap" where
  "hm_remove_all ks m = fold fmdrop ks m"

lemma hm_contains_key_dom: "hm_contains_key m k \<longleftrightarrow> k |\<in>| fmdom m"
  by (simp add: hm_contains_key_def fmlookup_dom_iff)

lemma hm_contains_key_upd [simp]: "hm_contains_key (fmupd k v m) j \<longleftrightarrow> j = k \<or> hm_contains_key m j"
  by (simp add: hm_contains_key_def)

lemma hm_contains_key_drop [simp]: "hm_contains_key (fmdrop k m) j \<longleftrightarrow> j \<noteq> k \<and> hm_contains_key m j"
  by (simp add: hm_contains_key_def)

lemma hm_contains_key_empty [simp]: "\<not> hm_contains_key fmempty k"
  by (simp add: hm_contains_key_def)

lemma hm_len_empty [simp]: "hm_len fmempty = 0"
  by (simp add: hm_len_def)

lemma hm_len_upd [simp]:
  "hm_len (fmupd k v m) = (if hm_contains_key m k then hm_len m else Suc (hm_len m))"
  by (simp add: hm_len_def hm_contains_key_dom fcard_finsert_if finsert_absorb)

lemma hm_values_empty [simp]: "hm_values fmempty = {#}"
  by (simp add: hm_values_def)

lemma hm_values_upd_new:
  assumes "\<not> hm_contains_key m k"
  shows "hm_values (fmupd k v m) = add_mset v (hm_values m)"
proof -
  from assms have new: "k \<notin> fset (fmdom m)"
    by (simp add: hm_contains_key_dom)
  have "image_mset (\<lambda>j. the (fmlookup (fmupd k v m) j)) (mset_set (fset (fmdom m))) =
        image_mset (\<lambda>j. the (fmlookup m j)) (mset_set (fset (fmdom m)))"
    using new by (intro image_mset_cong) auto
  with new show ?thesis
    by (simp add: hm_values_def)
qed

lemma size_hm_values [simp]: "size (hm_values m) = hm_len m"
  by (simp add: hm_values_def hm_len_def fcard.rep_eq)

lemma in_hm_values: "v \<in># hm_values m \<longleftrightarrow> (\<exists>k. fmlookup m k = Some v)"
  by (force simp: hm_values_def fmlookup_dom_iff image_iff)

lemma fmlookup_retain [simp, hashmap_simps]:
  "fmlookup (hm_retain P m) k =
     (case fmlookup m k of None \<Rightarrow> None | Some v \<Rightarrow> if P k v then Some v else None)"
  by (auto simp: hm_retain_def split: option.splits)

lemma fmlookup_hm_update [simp, hashmap_simps]:
  "fmlookup (hm_update k f m) j = (if j = k then map_option f (fmlookup m k) else fmlookup m j)"
  by (auto simp: hm_update_def split: option.splits)

lemma fmlookup_insert_all [simp, hashmap_simps]:
  "fmlookup (hm_insert_all ks v m) k = (if k \<in> set ks then Some v else fmlookup m k)"
  by (induction ks arbitrary: m) (auto simp: hm_insert_all_def)

lemma fmlookup_remove_all [simp, hashmap_simps]:
  "fmlookup (hm_remove_all ks m) k = (if k \<in> set ks then None else fmlookup m k)"
  by (induction ks arbitrary: m) (auto simp: hm_remove_all_def)

lemma hm_len_mono: "(\<And>k. hm_contains_key m k \<Longrightarrow> hm_contains_key n k) \<Longrightarrow> hm_len m \<le> hm_len n"
  unfolding hm_len_def hm_contains_key_dom by (rule fcard_mono) auto

section \<open>Decimal numerals\<close>

text \<open>\<open>Display\<close> of an unsigned integer.\<close>

definition digit_char :: "nat \<Rightarrow> char" where
  "digit_char d = char_of (48 + d)"

function show_nat :: "nat \<Rightarrow> string" where
  "show_nat n = (if n < 10 then [digit_char n] else show_nat (n div 10) @ [digit_char (n mod 10)])"
  by pat_completeness auto
termination
  by (relation "measure id") auto

declare show_nat.simps [simp del]

lemma digit_char_inject: "a < 10 \<Longrightarrow> b < 10 \<Longrightarrow> digit_char a = digit_char b \<longleftrightarrow> a = b"
proof -
  assume "a < 10" "b < 10"
  then have "of_char (digit_char a) = (48 + a :: nat)" "of_char (digit_char b) = (48 + b :: nat)"
    by (simp_all add: digit_char_def of_char_of)
  then show ?thesis
    by (metis add_left_cancel)
qed

lemma show_nat_nonempty [simp]: "show_nat n \<noteq> []" "[] \<noteq> show_nat n"
  by (subst show_nat.simps; simp)+

lemma show_nat_inject: "show_nat m = show_nat n \<longleftrightarrow> m = n"
proof
  show "show_nat m = show_nat n \<Longrightarrow> m = n"
  proof (induction m arbitrary: n rule: show_nat.induct)
    case (1 m)
    note unf = "1.prems" [unfolded show_nat.simps [of m] show_nat.simps [of n]]
    show ?case
    proof (cases "m < 10")
      case True
      with unf show ?thesis
        by (auto simp: digit_char_inject split: if_splits)
    next
      case False
      with unf have "\<not> n < 10"
        by (auto split: if_splits)
      with False unf have "show_nat (m div 10) = show_nat (n div 10)" "m mod 10 = n mod 10"
        by (auto simp: digit_char_inject)
      with False "1.IH" have "m div 10 = n div 10" by blast
      with \<open>m mod 10 = n mod 10\<close> show ?thesis
        by (metis div_mult_mod_eq)
    qed
  qed
qed simp

section \<open>Invariants of transition systems\<close>

text \<open>
  A component whose state is changed by a set of operations: what holds at the start and is kept by
  every step holds in every state reached. A component with such an invariant interprets the locale.
\<close>

locale invariant_system =
  fixes start :: "'s \<Rightarrow> bool"
    and step :: "'s \<Rightarrow> 's \<Rightarrow> bool"
    and invar :: "'s \<Rightarrow> bool"
  assumes invar_start: "start s \<Longrightarrow> invar s"
    and invar_step: "invar s \<Longrightarrow> step s t \<Longrightarrow> invar t"
begin

lemma invar_steps: "step\<^sup>*\<^sup>* s t \<Longrightarrow> invar s \<Longrightarrow> invar t"
  by (induction rule: rtranclp_induct) (auto intro: invar_step)

lemma reachable_invar: "start s \<Longrightarrow> step\<^sup>*\<^sup>* s t \<Longrightarrow> invar t"
  using invar_start invar_steps by blast

end

section \<open>Methods that change a state\<close>

text \<open>The question mark operator in a function that also changes a state.\<close>

fun and_then :: "'s \<times> ('a, 'e) result \<Rightarrow> ('s \<Rightarrow> 'a \<Rightarrow> 's \<times> ('b, 'e) result) \<Rightarrow> 's \<times> ('b, 'e) result" where
  "and_then (s, Ok x) f = f s x"
| "and_then (s, Err e) f = (s, Err e)"
| "and_then (s, Panic m) f = (s, Panic m)"

lemma and_then_eq_Ok [outcome_simps]:
  "and_then m f = (t, Ok y) \<longleftrightarrow> (\<exists>s x. m = (s, Ok x) \<and> f s x = (t, Ok y))"
  by (cases "(m, f)" rule: and_then.cases) auto

lemma and_then_eq_pair:
  "and_then m f = (t, r) \<longleftrightarrow>
     (\<exists>s x. m = (s, Ok x) \<and> f s x = (t, r)) \<or> (\<exists>e. m = (t, Err e) \<and> r = Err e) \<or> (\<exists>p. m = (t, Panic p) \<and> r = Panic p)"
  by (cases "(m, f)" rule: and_then.cases) auto

lemma and_then_cong: "(\<And>s x. m = (s, Ok x) \<Longrightarrow> f s x = g s x) \<Longrightarrow> and_then m f = and_then m g"
  by (cases "(m, f)" rule: and_then.cases) auto

lemma and_then_assoc: "and_then (and_then m f) g = and_then m (\<lambda>s x. and_then (f s x) g)"
  by (cases "(m, f)" rule: and_then.cases) auto

lemma unat_of_nat_u32: "n < 2 ^ 32 \<Longrightarrow> unat (of_nat n :: u32) = n"
  by (simp add: unat_of_nat)

end
