(* ===== verification/Common_Types.thy ===== *)
theory Common_Types
  imports Prelude
begin

text \<open>
  The crate \<open>common\<close>: the identifier types of \<open>types.rs\<close> (newtypes over byte arrays, with their
  hexadecimal forms), the error type of \<open>errors.rs\<close>, and the record of what the crate takes from
  third-party packages. Blake2b (\<open>blake2\<close>) and the hexadecimal codec (\<open>hex\<close>) are fields of
  that record, an argument \<open>E\<close> of every definition that uses them; the law the code relies on
  is \<open>hex_laws\<close>. The locale \<open>hex_newtype\<close> states what an identifier's \<open>to_hex\<close> and \<open>from_hex\<close>
  promise, and is interpreted for each of the six types.
\<close>

section \<open>Third-party functions\<close>

text \<open>\<open>hex::FromHexError\<close>; \<open>from_hex\<close> itself raises only \<open>InvalidStringLength\<close>.\<close>

datatype FromHexError = InvalidHexCharacter char nat | OddLength | InvalidStringLength

text \<open>Its \<open>Display\<close>.\<close>

fun show_hex_error :: "FromHexError \<Rightarrow> string" where
  "show_hex_error (InvalidHexCharacter c i) =
     ''Invalid character '' @ [CHR 0x27, c, CHR 0x27] @ '' at position '' @ show_nat i"
| "show_hex_error OddLength = ''Odd number of digits''"
| "show_hex_error InvalidStringLength = ''Invalid string length''"

record externals =
  blake2b_256 :: "u8 list \<Rightarrow> 32 bytes"
  hex_encode :: "u8 list \<Rightarrow> string"
  hex_decode :: "string \<Rightarrow> (u8 list, FromHexError) result"

text \<open>
  The documented behaviour of the \<open>hex\<close> package: decoding inverts encoding, and decoding any
  string yields a value or an error.
\<close>

definition hex_laws :: "'z externals_scheme \<Rightarrow> bool" where
  "hex_laws E \<longleftrightarrow>
     (\<forall>bs. hex_decode E (hex_encode E bs) = Ok bs) \<and> (\<forall>s. \<not> is_panic (hex_decode E s))"

section \<open>Identifier types\<close>

type_synonym BlockHeight = u64
type_synonym Timestamp = u64
type_synonym Hash = "32 bytes"

datatype Address = Address (address_bytes: "32 bytes")
datatype Signature = Signature (signature_bytes: "64 bytes")
datatype PublicKey = PublicKey (public_key_bytes: "32 bytes")
datatype TxId = TxId (tx_id_bytes: Hash)
datatype BlockHash = BlockHash (block_hash_bytes: Hash)
datatype ElectionId = ElectionId (election_id_bytes: "16 bytes")

text \<open>\<open>hex::decode(s)?\<close>, the length check and the copy into the array.\<close>

definition array_from_hex :: "'z externals_scheme \<Rightarrow> string \<Rightarrow> ('n::len bytes, FromHexError) result" where
  "array_from_hex E s =
     rbind (hex_decode E s) (\<lambda>bs.
       if length bs \<noteq> LENGTH('n) then Err InvalidStringLength else copy_from_slice bs)"

definition Address_to_hex :: "'z externals_scheme \<Rightarrow> Address \<Rightarrow> string" where
  "Address_to_hex E a = hex_encode E (bytes_list (address_bytes a))"

definition Address_from_hex :: "'z externals_scheme \<Rightarrow> string \<Rightarrow> (Address, FromHexError) result" where
  "Address_from_hex E s = rbind (array_from_hex E s) (\<lambda>arr. Ok (Address arr))"

definition Signature_to_hex :: "'z externals_scheme \<Rightarrow> Signature \<Rightarrow> string" where
  "Signature_to_hex E a = hex_encode E (bytes_list (signature_bytes a))"

definition Signature_from_hex :: "'z externals_scheme \<Rightarrow> string \<Rightarrow> (Signature, FromHexError) result" where
  "Signature_from_hex E s = rbind (array_from_hex E s) (\<lambda>arr. Ok (Signature arr))"

definition PublicKey_to_hex :: "'z externals_scheme \<Rightarrow> PublicKey \<Rightarrow> string" where
  "PublicKey_to_hex E a = hex_encode E (bytes_list (public_key_bytes a))"

definition PublicKey_from_hex :: "'z externals_scheme \<Rightarrow> string \<Rightarrow> (PublicKey, FromHexError) result" where
  "PublicKey_from_hex E s = rbind (array_from_hex E s) (\<lambda>arr. Ok (PublicKey arr))"

definition PublicKey_to_address :: "'z externals_scheme \<Rightarrow> PublicKey \<Rightarrow> Address" where
  "PublicKey_to_address E pk = Address (blake2b_256 E (bytes_list (public_key_bytes pk)))"

definition TxId_to_hex :: "'z externals_scheme \<Rightarrow> TxId \<Rightarrow> string" where
  "TxId_to_hex E a = hex_encode E (bytes_list (tx_id_bytes a))"

definition TxId_from_hex :: "'z externals_scheme \<Rightarrow> string \<Rightarrow> (TxId, FromHexError) result" where
  "TxId_from_hex E s = rbind (array_from_hex E s) (\<lambda>arr. Ok (TxId arr))"

definition BlockHash_to_hex :: "'z externals_scheme \<Rightarrow> BlockHash \<Rightarrow> string" where
  "BlockHash_to_hex E a = hex_encode E (bytes_list (block_hash_bytes a))"

definition BlockHash_from_hex :: "'z externals_scheme \<Rightarrow> string \<Rightarrow> (BlockHash, FromHexError) result" where
  "BlockHash_from_hex E s = rbind (array_from_hex E s) (\<lambda>arr. Ok (BlockHash arr))"

definition BlockHash_zero :: BlockHash where
  "BlockHash_zero = BlockHash (bytes_fill 0)"

definition ElectionId_to_hex :: "'z externals_scheme \<Rightarrow> ElectionId \<Rightarrow> string" where
  "ElectionId_to_hex E a = hex_encode E (bytes_list (election_id_bytes a))"

definition ElectionId_from_hex :: "'z externals_scheme \<Rightarrow> string \<Rightarrow> (ElectionId, FromHexError) result" where
  "ElectionId_from_hex E s = rbind (array_from_hex E s) (\<lambda>arr. Ok (ElectionId arr))"

text \<open>Public keys compare by their bytes (\<open>a.as_bytes().cmp(b.as_bytes())\<close>).\<close>

instantiation PublicKey :: linorder
begin

definition less_eq_PublicKey :: "PublicKey \<Rightarrow> PublicKey \<Rightarrow> bool" where
  "less_eq_PublicKey a b \<longleftrightarrow> public_key_bytes a \<le> public_key_bytes b"

definition less_PublicKey :: "PublicKey \<Rightarrow> PublicKey \<Rightarrow> bool" where
  "less_PublicKey a b \<longleftrightarrow> public_key_bytes a < public_key_bytes b"

instance
  by standard (auto simp: less_eq_PublicKey_def less_PublicKey_def PublicKey.expand)

end

section \<open>Errors\<close>

datatype (plugins only: code size) VotingError =
  \<comment> \<open>blockchain\<close>
    InvalidBlock string
  | InvalidBlockHash string string
  | InvalidPreviousHash string
  | BlockHeightMismatch u64 u64
  | GenesisError string
  \<comment> \<open>transactions\<close>
  | InvalidTransaction string
  | InvalidSignature
  | DuplicateTransaction string
  | InvalidVote string
  \<comment> \<open>cryptography\<close>
  | CryptoError string
  | KeyGenerationError string
  | SignatureVerificationFailed
  | HashError string
  | InvalidPublicKey
  | InvalidPrivateKey
  \<comment> \<open>storage\<close>
  | StorageError string
  | DatabaseError string
  | SerializationError string
  | DeserializationError string
  | BlockNotFound string
  | TransactionNotFound string
  \<comment> \<open>network\<close>
  | NetworkError string
  | PeerConnectionError string
  | SyncError string
  | InvalidMessage string
  | PeerTimeout string
  \<comment> \<open>consensus\<close>
  | ConsensusError string
  | InvalidValidator string
  | InsufficientValidators
  | FinalityNotReached
  \<comment> \<open>node\<close>
  | NodeNotInitialized
  | ConfigError string
  | NodeAlreadyRunning
  | NodeNotRunning
  \<comment> \<open>voting\<close>
  | VoterNotEligible string
  | ElectionNotFound string
  | ElectionNotActive
  | ElectionClosed
  | AlreadyVoted
  | InvalidBallot string
  | InvalidCandidate string
  \<comment> \<open>RPC\<close>
  | RpcError string
  | InvalidRpcRequest string
  | RpcTimeout
  \<comment> \<open>general\<close>
  | InternalError string
  | NotImplemented string
  | InvalidInput string
  | OperationFailed string
  | PermissionDenied string
  | IoError string
  | ParseError string
  | InvalidHex FromHexError
  \<comment> \<open>analytics\<close>
  | InsufficientData string
  | ConfigurationError string

type_synonym 'a outcome = "('a, VotingError) result"

section \<open>The contract of the hexadecimal forms\<close>

locale hex_newtype =
  fixes wrap :: "'n::len bytes \<Rightarrow> 'a"
    and unwrap :: "'a \<Rightarrow> 'n bytes"
    and to_hex :: "'z externals_scheme \<Rightarrow> 'a \<Rightarrow> string"
    and from_hex :: "'z externals_scheme \<Rightarrow> string \<Rightarrow> ('a, FromHexError) result"
  assumes wrap_unwrap: "wrap (unwrap x) = x"
    and unwrap_wrap: "unwrap (wrap b) = b"
    and to_hex: "to_hex E x = hex_encode E (bytes_list (unwrap x))"
    and from_hex: "from_hex E s = rbind (array_from_hex E s) (\<lambda>arr. Ok (wrap arr))"
begin

lemma from_hex_to_hex: "hex_laws E \<Longrightarrow> from_hex E (to_hex E x) = Ok x"
  by (simp add: from_hex to_hex array_from_hex_def hex_laws_def wrap_unwrap)

lemma to_hex_inject: "hex_laws E \<Longrightarrow> to_hex E x = to_hex E y \<Longrightarrow> x = y"
  by (metis from_hex_to_hex result.inject(1))

lemma from_hex_Ok:
  "from_hex E s = Ok x \<longleftrightarrow> hex_decode E s = Ok (bytes_list (unwrap x))"
proof
  assume "from_hex E s = Ok x"
  then obtain arr bs where "hex_decode E s = Ok bs" "bytes_list arr = bs" "x = wrap arr"
    by (auto simp: from_hex array_from_hex_def outcome_simps split: if_splits)
  then show "hex_decode E s = Ok (bytes_list (unwrap x))"
    by (simp add: unwrap_wrap)
next
  assume "hex_decode E s = Ok (bytes_list (unwrap x))"
  then show "from_hex E s = Ok x"
    by (simp add: from_hex array_from_hex_def wrap_unwrap)
qed

lemma from_hex_no_panic: "hex_laws E \<Longrightarrow> \<not> is_panic (from_hex E s)"
  by (auto simp: from_hex array_from_hex_def hex_laws_def rbind_is_panic copy_from_slice_def
      split: if_splits)

end

interpretation address: hex_newtype Address address_bytes Address_to_hex Address_from_hex
  by unfold_locales (simp_all add: Address_to_hex_def Address_from_hex_def)

interpretation signature: hex_newtype Signature signature_bytes Signature_to_hex Signature_from_hex
  by unfold_locales (simp_all add: Signature_to_hex_def Signature_from_hex_def)

interpretation public_key: hex_newtype PublicKey public_key_bytes PublicKey_to_hex PublicKey_from_hex
  by unfold_locales (simp_all add: PublicKey_to_hex_def PublicKey_from_hex_def)

interpretation tx_id: hex_newtype TxId tx_id_bytes TxId_to_hex TxId_from_hex
  by unfold_locales (simp_all add: TxId_to_hex_def TxId_from_hex_def)

interpretation block_hash: hex_newtype BlockHash block_hash_bytes BlockHash_to_hex BlockHash_from_hex
  by unfold_locales (simp_all add: BlockHash_to_hex_def BlockHash_from_hex_def)

interpretation election_id: hex_newtype ElectionId election_id_bytes ElectionId_to_hex ElectionId_from_hex
  by unfold_locales (simp_all add: ElectionId_to_hex_def ElectionId_from_hex_def)

section \<open>A concrete instance\<close>

text \<open>
  An instance of the third-party functions at which the hypotheses of the development hold and its
  definitions evaluate: the hexadecimal codec in lower case, and a checksum in place of Blake2b.
\<close>

definition sample_hexdigit :: "nat \<Rightarrow> char" where
  "sample_hexdigit d = char_of (if d < 10 then 48 + d else 87 + d)"

definition sample_hexvalue :: "char \<Rightarrow> nat option" where
  "sample_hexvalue c =
     (let n = of_char c in
      if 48 \<le> n \<and> n < 58 then Some (n - 48) else if 97 \<le> n \<and> n < 103 then Some (n - 87) else None)"

definition sample_hex_encode :: "u8 list \<Rightarrow> string" where
  "sample_hex_encode bs =
     concat (map (\<lambda>b. [sample_hexdigit (unat b div 16), sample_hexdigit (unat b mod 16)]) bs)"

fun sample_hex_decode :: "string \<Rightarrow> (u8 list, FromHexError) result" where
  "sample_hex_decode [] = Ok []"
| "sample_hex_decode [c] = Err OddLength"
| "sample_hex_decode (c # d # s) =
     (case (sample_hexvalue c, sample_hexvalue d) of
        (Some h, Some l) \<Rightarrow> rbind (sample_hex_decode s) (\<lambda>bs. Ok (of_nat (16 * h + l) # bs))
      | _ \<Rightarrow> Err (InvalidHexCharacter c 0))"

definition sample_externals :: externals where
  "sample_externals =
     \<lparr>blake2b_256 = (\<lambda>bs. bytes_fill (sum_list bs)), hex_encode = sample_hex_encode,
      hex_decode = sample_hex_decode\<rparr>"

lemma sample_hexvalue_digit: "d < 16 \<Longrightarrow> sample_hexvalue (sample_hexdigit d) = Some d"
  by (auto simp: sample_hexvalue_def sample_hexdigit_def Let_def of_char_of)

lemma sample_hex_decode_encode: "sample_hex_decode (sample_hex_encode bs) = Ok bs"
proof (induction bs)
  case (Cons b bs)
  have "unat b < 256" using unsigned_less [of b] by simp
  then have "unat b div 16 < 16" by (simp add: less_mult_imp_div_less)
  with Cons show ?case
    by (simp add: sample_hex_encode_def sample_hexvalue_digit)
qed (simp add: sample_hex_encode_def)

lemma sample_hex_decode_no_panic: "\<not> is_panic (sample_hex_decode s)"
  by (induction s rule: sample_hex_decode.induct) (auto simp: rbind_is_panic split: option.splits)

lemma sample_hex_laws: "hex_laws sample_externals"
  by (simp add: hex_laws_def sample_externals_def sample_hex_decode_encode sample_hex_decode_no_panic)

end
