(* ===== verification/Registries.thy ===== *)
theory Registries
  imports Common_Types
begin

text \<open>
  Two interfaces that several components of the voting crate share.

  \<^item> \<open>once_only\<close>: a component that accepts a key at most once (a voter's mark, a ballot, a vote).
    Whatever calls are made, those that carry no key included, at most one call per key succeeds.
    \<open>counted_once\<close> extends it with a count of the keys held.
  \<^item> \<open>indexed_store\<close>: a vector of items with a hash map from keys to positions. The map agrees
    with the vector, so that a lookup is a search.
\<close>

section \<open>Sequences of calls\<close>

text \<open>The state after a sequence of calls, and the calls with their outcomes.\<close>

fun run_calls :: "('s \<Rightarrow> 'c \<Rightarrow> 's \<times> 'a outcome) \<Rightarrow> 's \<Rightarrow> 'c list \<Rightarrow> 's \<times> ('c \<times> 'a outcome) list" where
  "run_calls f s [] = (s, [])"
| "run_calls f s (c # cs) =
     (let (s1, r) = f s c; (s2, rs) = run_calls f s1 cs in (s2, (c, r) # rs))"

text \<open>How many calls with a given key succeeded.\<close>

definition successes :: "('c \<Rightarrow> 'k option) \<Rightarrow> 'k \<Rightarrow> ('c \<times> 'a outcome) list \<Rightarrow> nat" where
  "successes key k rs = length (filter (\<lambda>(c, r). key c = Some k \<and> is_ok r) rs)"

lemma successes_simps [simp]:
  "successes key k [] = 0"
  "successes key k ((c, r) # rs) = 
     (if key c = Some k \<and> is_ok r then Suc (successes key k rs) else successes key k rs)"
  by (simp_all add: successes_def)

text \<open>How many calls that carry a key succeeded.\<close>

definition accepted :: "('c \<Rightarrow> 'k option) \<Rightarrow> ('c \<times> 'a outcome) list \<Rightarrow> nat" where
  "accepted key rs = length (filter (\<lambda>(c, r). key c \<noteq> None \<and> is_ok r) rs)"

lemma accepted_simps [simp]:
  "accepted key [] = 0"
  "accepted key ((c, r) # rs) = (if key c \<noteq> None \<and> is_ok r then Suc (accepted key rs) else accepted key rs)"
  by (simp_all add: accepted_def)

section \<open>At most once per key\<close>

locale once_only =
  fixes call :: "'s \<Rightarrow> 'c \<Rightarrow> 's \<times> 'a outcome"
    and key :: "'c \<Rightarrow> 'k option"
    and has :: "'s \<Rightarrow> 'k \<Rightarrow> bool"
  assumes success: "call s c = (t, Ok x) \<Longrightarrow> key c = Some k \<Longrightarrow> \<not> has s k \<and> has t k"
    and keeps: "call s c = (t, r) \<Longrightarrow> has s k \<Longrightarrow> has t k"
begin

lemma run_keeps: "has s k \<Longrightarrow> has (fst (run_calls call s cs)) k"
proof (induction cs arbitrary: s)
  case (Cons c cs)
  obtain t r where t: "call s c = (t, r)" by (cases "call s c")
  from Cons.IH [OF keeps [OF t Cons.prems]] show ?case by (auto simp: t Let_def split: prod.splits)
qed simp

lemma none_after: "has s k \<Longrightarrow> successes key k (snd (run_calls call s cs)) = 0"
proof (induction cs arbitrary: s)
  case (Cons c cs)
  obtain t r where t: "call s c = (t, r)" by (cases "call s c")
  have "\<not> (key c = Some k \<and> is_ok r)" using success [of s c t _ k] t Cons.prems by (auto simp: is_ok_iff)
  with Cons.IH [of t] keeps [OF t Cons.prems] show ?case
    by (auto simp: t Let_def split: prod.splits)
qed simp

lemma at_most_once: "successes key k (snd (run_calls call s cs)) \<le> 1"
proof (induction cs arbitrary: s)
  case (Cons c cs)
  obtain t r where t: "call s c = (t, r)" by (cases "call s c")
  show ?case
  proof (cases "key c = Some k \<and> is_ok r")
    case True
    then have "has t k" using success [of s c t _ k] t by (auto simp: is_ok_iff)
    from none_after [OF this, of cs] True show ?thesis by (auto simp: t Let_def split: prod.splits)
  next
    case False
    with Cons.IH [of t] show ?thesis by (auto simp: t Let_def split: prod.splits)
  qed
qed simp

text \<open>The keys held afterwards are those held before and those of the calls that succeeded.\<close>

lemma has_run_iff:
  assumes only: "\<And>s c t r k. call s c = (t, r) \<Longrightarrow> has t k \<Longrightarrow> has s k \<or> (key c = Some k \<and> is_ok r)"
  shows "has (fst (run_calls call s cs)) k \<longleftrightarrow> has s k \<or> 0 < successes key k (snd (run_calls call s cs))"
proof (induction cs arbitrary: s)
  case (Cons c cs)
  obtain t r where t: "call s c = (t, r)" by (cases "call s c")
  have "has t k \<longleftrightarrow> has s k \<or> (key c = Some k \<and> is_ok r)"
    using only [OF t] keeps [OF t] success [of s c t _ k] t by (auto simp: is_ok_iff)
  with Cons.IH [of t] show ?case by (auto simp: t Let_def split: prod.splits)
qed simp

end

text \<open>A component that also counts the keys it has accepted.\<close>

locale counted_once = once_only call key has
  for call :: "'s \<Rightarrow> 'c \<Rightarrow> 's \<times> 'a outcome" and key :: "'c \<Rightarrow> 'k option" and has :: "'s \<Rightarrow> 'k \<Rightarrow> bool" +
  fixes held :: "'s \<Rightarrow> nat"
  assumes held_call: "call s c = (t, r) \<Longrightarrow> held t = held s + accepted key [(c, r)]"
    and has_call: "call s c = (t, r) \<Longrightarrow> has t k \<Longrightarrow> has s k \<or> (key c = Some k \<and> is_ok r)"
begin

lemma held_run: "held (fst (run_calls call s cs)) = held s + accepted key (snd (run_calls call s cs))"
proof (induction cs arbitrary: s)
  case (Cons c cs)
  obtain t r where t: "call s c = (t, r)" by (cases "call s c")
  from Cons.IH [of t] held_call [OF t] show ?case by (auto simp: t Let_def split: prod.splits)
qed simp

lemma has_run:
  "has (fst (run_calls call s cs)) k \<longleftrightarrow> has s k \<or> 0 < successes key k (snd (run_calls call s cs))"
  by (rule has_run_iff) (rule has_call)

end

section \<open>A vector with an index\<close>

text \<open>The index maps a key to a position exactly if the item there has that key.\<close>

definition index_wf :: "('v \<Rightarrow> 'k) \<Rightarrow> 'v list \<Rightarrow> ('k, nat) hashmap \<Rightarrow> bool" where
  "index_wf key xs m \<longleftrightarrow> (\<forall>k i. fmlookup m k = Some i \<longleftrightarrow> i < length xs \<and> key (xs ! i) = k)"

lemma index_wf_empty: "index_wf key [] fmempty"
  by (simp add: index_wf_def)

lemma index_wf_contains:
  assumes "index_wf key xs m"
  shows "hm_contains_key m k \<longleftrightarrow> k \<in> key ` set xs"
proof -
  have "hm_contains_key m k \<longleftrightarrow> (\<exists>i. fmlookup m k = Some i)" by (simp add: hm_contains_key_def)
  also have "\<dots> \<longleftrightarrow> (\<exists>i < length xs. key (xs ! i) = k)" using assms by (simp add: index_wf_def)
  also have "\<dots> \<longleftrightarrow> k \<in> key ` set xs" by (metis (no_types, lifting) image_iff in_set_conv_nth)
  finally show ?thesis .
qed

lemma index_wf_snoc:
  assumes "index_wf key xs m" and "\<not> hm_contains_key m (key x)"
  shows "index_wf key (xs @ [x]) (fmupd (key x) (length xs) m)"
proof -
  have new: "key (xs ! i) \<noteq> key x" if "i < length xs" for i
    using assms that by (auto simp: index_wf_def hm_contains_key_def)
  then show ?thesis
    using assms(1) by (auto simp: index_wf_def nth_append less_Suc_eq split: if_splits)
qed

lemma index_wf_update:
  assumes "index_wf key xs m" and "i < length xs" and "key y = key (xs ! i)"
  shows "index_wf key (xs[i := y]) m"
  using assms by (auto simp: index_wf_def nth_list_update)

lemma index_wf_distinct: "index_wf key xs m \<Longrightarrow> distinct (map key xs)"
  unfolding distinct_conv_nth index_wf_def by (metis length_map nth_map option.inject)

text \<open>\<open>index.get(&k).and_then(|&i| items.get(i))\<close>\<close>

definition index_get :: "'v list \<Rightarrow> ('k, nat) hashmap \<Rightarrow> 'k \<Rightarrow> 'v option" where
  "index_get xs m k = (case fmlookup m k of None \<Rightarrow> None | Some i \<Rightarrow> vec_get xs i)"

lemma find_unique_key:
  assumes "i < length xs" and "distinct (map key xs)" and "key (xs ! i) = k"
  shows "List.find (\<lambda>x. key x = k) xs = Some (xs ! i)"
proof -
  have "key (xs ! j) \<noteq> k" if "j < i" for j
    using that assms by (auto simp: distinct_conv_nth)
  with assms show ?thesis unfolding find_Some_iff by blast
qed

lemma index_get_find:
  assumes "index_wf key xs m"
  shows "index_get xs m k = List.find (\<lambda>x. key x = k) xs"
proof (cases "fmlookup m k")
  case None
  then have "\<forall>x \<in> set xs. key x \<noteq> k"
    using index_wf_contains [OF assms, of k] by (auto simp: hm_contains_key_def)
  then have "List.find (\<lambda>x. key x = k) xs = None" unfolding find_None_iff by blast
  with None show ?thesis by (simp add: index_get_def)
next
  case (Some i)
  then have i: "i < length xs" "key (xs ! i) = k" using assms by (auto simp: index_wf_def)
  with find_unique_key [OF i(1) index_wf_distinct [OF assms] i(2)] Some show ?thesis
    by (simp add: index_get_def vec_get_def)
qed

locale indexed_store =
  fixes items :: "'s \<Rightarrow> 'v list"
    and index :: "'s \<Rightarrow> ('k, nat) hashmap"
    and key :: "'v \<Rightarrow> 'k"
    and insert_item :: "'s \<Rightarrow> 'v \<Rightarrow> 's \<times> unit outcome"
  assumes insert_known: "hm_contains_key (index s) (key v) \<Longrightarrow> \<exists>e. insert_item s v = (s, Err e)"
    and insert_new: "\<not> hm_contains_key (index s) (key v) \<Longrightarrow>
       \<exists>t. insert_item s v = (t, Ok ()) \<and> items t = items s @ [v] \<and>
           index t = fmupd (key v) (length (items s)) (index s)"
begin

lemma insert_wf:
  assumes "index_wf key (items s) (index s)" and "insert_item s v = (t, r)"
  shows "index_wf key (items t) (index t)"
  using assms insert_known [of s v] insert_new [of s v] index_wf_snoc [OF assms(1), of v]
  by (cases "hm_contains_key (index s) (key v)") auto

lemma insert_outcome:
  assumes "index_wf key (items s) (index s)" and "insert_item s v = (t, r)"
  shows "if key v \<in> key ` set (items s) then t = s \<and> is_err r else r = Ok () \<and> items t = items s @ [v]"
  using assms insert_known [of s v] insert_new [of s v] index_wf_contains [OF assms(1)]
  by (auto split: if_splits)

text \<open>Storing an item for each of several calls: the store holds the first item per key.\<close>

lemma fold_insert_wf:
  "index_wf key (items s) (index s) \<Longrightarrow>
   index_wf key (items (fold (\<lambda>v s. fst (insert_item s v)) vs s)) (index (fold (\<lambda>v s. fst (insert_item s v)) vs s))"
proof (induction vs arbitrary: s)
  case (Cons v vs)
  from insert_wf [OF Cons.prems prod.collapse [symmetric]] Cons.IH show ?case by simp
qed simp

end

sublocale indexed_store \<subseteq> once_only insert_item "\<lambda>v. Some (key v)" "\<lambda>s k. hm_contains_key (index s) k"
proof unfold_locales
  fix s c t x k assume "insert_item s c = (t, Ok x)" "Some (key c) = Some k"
  then show "\<not> hm_contains_key (index s) k \<and> hm_contains_key (index t) k"
    using insert_known [of s c] insert_new [of s c] by (cases "hm_contains_key (index s) (key c)") auto
next
  fix s c t r k assume "insert_item s c = (t, r)" "hm_contains_key (index s) k"
  then show "hm_contains_key (index t) k"
    using insert_known [of s c] insert_new [of s c] by (cases "hm_contains_key (index s) (key c)") auto
qed

end
