(* ===== verification/Float64.thy ===== *)
theory Float64
  imports Complex_Main "HOL-Library.Log_Nat"
begin

text \<open>
  The IEEE binary64 arithmetic that the sources use on ratios and thresholds. A finite value is the
  rational number it denotes, the two infinities and NaN are constructors. Every operation computes
  the exact result and rounds it to the nearest representable number, ties to even, with 53 bits of
  precision, gradual underflow below \<open>2 ^ (-1022)\<close> and overflow to infinity. The sign of zero is
  not represented: no source reads it.
\<close>

section \<open>Rounding\<close>

datatype f64 = Fin rat | PosInf | NegInf | NaN

definition pow2 :: "int \<Rightarrow> rat" where
  "pow2 e = (if 0 \<le> e then 2 ^ nat e else 1 / 2 ^ nat (- e))"

text \<open>The exponent of the leading bit of a non-zero rational.\<close>

definition exponent :: "rat \<Rightarrow> int" where
  "exponent x =
     (let (p, q) = quotient_of \<bar>x\<bar>; e = bitlen p - bitlen q in if pow2 e \<le> \<bar>x\<bar> then e else e - 1)"

text \<open>To the nearest integer, ties to even.\<close>

definition round_even :: "rat \<Rightarrow> int" where
  "round_even y =
     (let n = \<lfloor>y\<rfloor>; d = y - of_int n in
      if d < 1 / 2 then n else if 1 / 2 < d then n + 1 else if even n then n else n + 1)"

definition quantum :: "rat \<Rightarrow> rat" where
  "quantum x = pow2 (max (exponent x - 52) (- 1074))"

definition round_rat :: "rat \<Rightarrow> rat" where
  "round_rat x = (if x = 0 then 0 else of_int (round_even (x / quantum x)) * quantum x)"

definition round64 :: "rat \<Rightarrow> f64" where
  "round64 x =
     (let r = round_rat x in if r \<ge> pow2 1024 then PosInf else if r \<le> - pow2 1024 then NegInf else Fin r)"

section \<open>Operations\<close>

text \<open>\<open>n as f64\<close>, a decimal literal, \<open>x.ceil()\<close>, and the saturating cast \<open>x as usize\<close>.\<close>

definition f64_of_nat :: "nat \<Rightarrow> f64" where
  "f64_of_nat n = round64 (of_nat n)"

definition f64_lit :: "rat \<Rightarrow> f64" where
  "f64_lit x = round64 x"

fun f64_ceil :: "f64 \<Rightarrow> f64" where
  "f64_ceil (Fin x) = Fin (of_int \<lceil>x\<rceil>)"
| "f64_ceil x = x"

fun f64_to_usize :: "f64 \<Rightarrow> nat" where
  "f64_to_usize (Fin x) = (if x < 0 then 0 else min (nat \<lfloor>x\<rfloor>) (2 ^ 64 - 1))"
| "f64_to_usize PosInf = 2 ^ 64 - 1"
| "f64_to_usize NegInf = 0"
| "f64_to_usize NaN = 0"

text \<open>The infinity with the sign of a non-zero rational.\<close>

definition signed_inf :: "rat \<Rightarrow> f64" where
  "signed_inf x = (if x = 0 then NaN else if 0 < x then PosInf else NegInf)"

fun f64_sign :: "f64 \<Rightarrow> rat" where
  "f64_sign (Fin x) = sgn x"
| "f64_sign PosInf = 1"
| "f64_sign NegInf = - 1"
| "f64_sign NaN = 0"

fun f64_mul :: "f64 \<Rightarrow> f64 \<Rightarrow> f64" where
  "f64_mul (Fin x) (Fin y) = round64 (x * y)"
| "f64_mul NaN y = NaN"
| "f64_mul x NaN = NaN"
| "f64_mul x y = signed_inf (f64_sign x * f64_sign y)"

text \<open>Division by zero is an infinity, \<open>0 / 0\<close> and the quotient of infinities are NaN; a zero
  divisor counts as positive.\<close>

fun f64_div :: "f64 \<Rightarrow> f64 \<Rightarrow> f64" where
  "f64_div (Fin x) (Fin y) = (if y = 0 then signed_inf x else round64 (x / y))"
| "f64_div NaN y = NaN"
| "f64_div x NaN = NaN"
| "f64_div (Fin x) y = Fin 0"
| "f64_div x (Fin y) = (if y = 0 then x else signed_inf (f64_sign x * sgn y))"
| "f64_div x y = NaN"

text \<open>Comparisons are false when an operand is NaN.\<close>

fun f64_add :: "f64 \<Rightarrow> f64 \<Rightarrow> f64" where
  "f64_add (Fin x) (Fin y) = round64 (x + y)"
| "f64_add NaN _ = NaN"
| "f64_add _ NaN = NaN"
| "f64_add PosInf NegInf = NaN"
| "f64_add NegInf PosInf = NaN"
| "f64_add PosInf _ = PosInf"
| "f64_add NegInf _ = NegInf"
| "f64_add (Fin _) PosInf = PosInf"
| "f64_add (Fin _) NegInf = NegInf"

fun f64_neg :: "f64 \<Rightarrow> f64" where
  "f64_neg (Fin x) = Fin (- x)"
| "f64_neg PosInf = NegInf"
| "f64_neg NegInf = PosInf"
| "f64_neg NaN = NaN"

definition f64_sub :: "f64 \<Rightarrow> f64 \<Rightarrow> f64" where
  "f64_sub x y = f64_add x (f64_neg y)"

fun f64_le :: "f64 \<Rightarrow> f64 \<Rightarrow> bool" where
  "f64_le (Fin x) (Fin y) \<longleftrightarrow> x \<le> y"
| "f64_le NaN y \<longleftrightarrow> False"
| "f64_le x NaN \<longleftrightarrow> False"
| "f64_le NegInf y \<longleftrightarrow> True"
| "f64_le x PosInf \<longleftrightarrow> True"
| "f64_le x y \<longleftrightarrow> False"

fun f64_lt :: "f64 \<Rightarrow> f64 \<Rightarrow> bool" where
  "f64_lt (Fin x) (Fin y) \<longleftrightarrow> x < y"
| "f64_lt NaN y \<longleftrightarrow> False"
| "f64_lt x NaN \<longleftrightarrow> False"
| "f64_lt PosInf y \<longleftrightarrow> False"
| "f64_lt x NegInf \<longleftrightarrow> False"
| "f64_lt x y \<longleftrightarrow> True"

text \<open>\<open>x.min(y)\<close> ignores a NaN.\<close>

definition f64_min :: "f64 \<Rightarrow> f64 \<Rightarrow> f64" where
  "f64_min x y = (if x = NaN then y else if y = NaN then x else if f64_le x y then x else y)"

section \<open>Facts\<close>

lemma pow2_powi: "pow2 e = 2 powi e"
  by (auto simp: pow2_def power_int_def field_simps)

lemma pow2_pos [simp]: "0 < pow2 e"
  by (simp add: pow2_def)

lemma pow2_add: "pow2 (a + b) = pow2 a * pow2 b"
  by (simp add: pow2_powi power_int_add)

lemma pow2_mono: "a \<le> b \<Longrightarrow> pow2 a \<le> pow2 b"
  by (simp add: pow2_powi power_int_increasing)

lemma pow2_less: "a < b \<Longrightarrow> pow2 a < pow2 b"
  by (simp add: pow2_powi power_int_strict_increasing)

lemma bitlen_pow2: "0 < p \<Longrightarrow> pow2 (bitlen p - 1) \<le> of_int p \<and> of_int p < pow2 (bitlen p)"
proof -
  assume p: "0 < p"
  then have b: "2 ^ nat (bitlen p - 1) \<le> p" "p < 2 ^ nat (bitlen p)" "0 < bitlen p"
    using bitlen_bounds [of p] by (simp_all, cases "0 < bitlen p") simp_all
  then have "(2 ^ nat (bitlen p - 1) :: rat) \<le> of_int p" "(of_int p :: rat) < 2 ^ nat (bitlen p)"
    by (metis of_int_le_iff of_int_numeral of_int_power)
       (metis b(2) of_int_less_iff of_int_numeral of_int_power)
  with b(3) show ?thesis by (simp add: pow2_def)
qed

lemma exponent_bounds:
  assumes "x \<noteq> 0"
  shows "pow2 (exponent x) \<le> \<bar>x\<bar> \<and> \<bar>x\<bar> < pow2 (exponent x + 1)"
proof -
  obtain p q where pq: "quotient_of \<bar>x\<bar> = (p, q)" by (cases "quotient_of \<bar>x\<bar>")
  then have q: "0 < q" and x: "\<bar>x\<bar> = of_int p / of_int q"
    by (simp_all add: quotient_of_denom_pos quotient_of_div)
  with assms have p: "0 < p"
    by (metis abs_eq_0 abs_ge_zero antisym_conv2 divide_eq_0_iff of_int_0_less_iff of_int_pos
        zero_less_divide_iff not_less_iff_gr_or_eq)
  let ?e = "bitlen p - bitlen q"
  note bp = bitlen_pow2 [OF p] and bq = bitlen_pow2 [OF q]
  have "\<bar>x\<bar> < pow2 (?e + 1)"
  proof -
    have "of_int p < pow2 (?e + 1) * pow2 (bitlen q - 1)"
      using bp by (simp flip: pow2_add)
    also have "\<dots> \<le> pow2 (?e + 1) * of_int q"
      using bq by (intro mult_left_mono) (simp_all add: less_imp_le)
    finally show ?thesis using q by (simp add: x divide_less_eq)
  qed
  moreover have "pow2 (?e - 1) \<le> \<bar>x\<bar>"
  proof -
    have "pow2 (?e - 1) * of_int q \<le> pow2 (?e - 1) * pow2 (bitlen q)"
      using bq by (intro mult_left_mono) (simp_all add: less_imp_le)
    also have "\<dots> = pow2 (bitlen p - 1)"
      by (simp flip: pow2_add)
    also have "\<dots> \<le> of_int p" using bp by simp
    finally show ?thesis using q by (simp add: x le_divide_eq)
  qed
  ultimately show ?thesis
    by (auto simp: exponent_def pq Let_def)
qed

lemma round_even_error: "\<bar>of_int (round_even y) - y\<bar> \<le> 1 / 2"
proof -
  have "of_int \<lfloor>y\<rfloor> \<le> y" "y < of_int \<lfloor>y\<rfloor> + 1"
    using floor_correct [of y] by simp_all
  then show ?thesis
    by (auto simp: round_even_def Let_def abs_le_iff)
qed

lemma round_even_int [simp]: "round_even (of_int n) = n"
  by (simp add: round_even_def Let_def)

lemma quantum_pos [simp]: "0 < quantum x"
  by (simp add: quantum_def)

lemma quantum_nonzero [simp]: "quantum x \<noteq> 0"
  by (rule less_imp_neq [OF quantum_pos, symmetric])

lemma round_rat_error: "\<bar>round_rat x - x\<bar> \<le> quantum x / 2"
proof (cases "x = 0")
  case False
  have "\<bar>round_rat x - x\<bar> = \<bar>of_int (round_even (x / quantum x)) - x / quantum x\<bar> * quantum x"
  proof -
    have "round_rat x - x = (of_int (round_even (x / quantum x)) - x / quantum x) * quantum x"
      using False by (simp add: round_rat_def field_simps)
    then show ?thesis by (simp add: abs_mult abs_of_pos [OF quantum_pos])
  qed
  also have "\<dots> \<le> 1 / 2 * quantum x"
    using round_even_error by (intro mult_right_mono) (simp_all add: less_imp_le)
  finally show ?thesis by simp
qed (simp add: round_rat_def less_imp_le)

text \<open>In the normal range the relative error is at most \<open>2 ^ (-53)\<close>.\<close>

lemma round_rat_relative:
  assumes "pow2 (- 1022) \<le> \<bar>x\<bar>"
  shows "\<bar>round_rat x - x\<bar> \<le> \<bar>x\<bar> / 2 ^ 53"
proof -
  have x: "x \<noteq> 0" using less_le_trans [OF pow2_pos assms] by simp
  have "- 1022 \<le> exponent x"
  proof (rule ccontr)
    assume "\<not> - 1022 \<le> exponent x"
    then have "pow2 (exponent x + 1) \<le> pow2 (- 1022)" by (intro pow2_mono) simp
    with exponent_bounds [OF x] assms show False by simp
  qed
  then have "max (exponent x - 52) (- 1074) = exponent x + - 52" by simp
  then have "quantum x = pow2 (exponent x) / 2 ^ 52"
    by (simp only: quantum_def pow2_add) (simp add: pow2_def [of "- 52"])
  then have "quantum x / 2 \<le> \<bar>x\<bar> / 2 ^ 53"
    using exponent_bounds [OF x] by (simp add: divide_le_eq)
  with round_rat_error [of x] show ?thesis by linarith
qed

text \<open>Integers up to \<open>2 ^ 53\<close> are represented exactly.\<close>

lemma round_rat_exact: "x / quantum x = of_int m \<Longrightarrow> round_rat x = x"
  by (auto simp: round_rat_def) (simp add: field_simps)

lemma quantum_int:
  assumes "n \<noteq> 0" and "\<bar>n\<bar> \<le> 2 ^ 53"
  shows "\<exists>k. -1 \<le> k \<and> quantum (of_int n) = pow2 (- k) \<and> (k = -1 \<longrightarrow> \<bar>n\<bar> = 2 ^ 53)"
proof -
  let ?x = "of_int n :: rat"
  have x: "?x \<noteq> 0" "1 \<le> \<bar>?x\<bar>" "\<bar>?x\<bar> \<le> 2 ^ 53"
    using assms by (simp_all add: of_int_abs [symmetric] del: of_int_abs)
  note b = exponent_bounds [OF x(1)]
  have lo: "0 \<le> exponent ?x"
  proof (rule ccontr)
    assume "\<not> 0 \<le> exponent ?x"
    then have "pow2 (exponent ?x + 1) \<le> pow2 0" by (intro pow2_mono) simp
    with b x(2) show False by (simp add: pow2_def [of 0])
  qed
  have hi: "exponent ?x \<le> 53"
  proof (rule ccontr)
    assume "\<not> exponent ?x \<le> 53"
    then have "pow2 53 < pow2 (exponent ?x)" by (intro pow2_less) simp
    with b x(3) show False by (simp add: pow2_def [of 53])
  qed
  have "\<bar>n\<bar> = 2 ^ 53" if "exponent ?x = 53"
  proof -
    from that b have "2 ^ 53 \<le> \<bar>?x\<bar>" by (simp add: pow2_def)
    with x(3) have "\<bar>?x\<bar> = of_int (2 ^ 53)" by simp
    then show ?thesis by (metis of_int_abs of_int_eq_iff)
  qed
  with lo hi show ?thesis
    by (intro exI [of _ "52 - exponent ?x"]) (simp add: quantum_def)
qed

lemma round_rat_int:
  assumes "\<bar>n\<bar> \<le> 2 ^ 53"
  shows "round_rat (of_int n) = of_int n"
proof (cases "n = 0")
  case False
  with assms obtain k where k: "-1 \<le> k" "quantum (of_int n) = pow2 (- k)" "k = -1 \<longrightarrow> \<bar>n\<bar> = 2 ^ 53"
    using quantum_int by blast
  show ?thesis
  proof (cases "k = -1")
    case True
    with k have "of_int n / quantum (of_int n) = of_int (n div 2)"
    proof -
      from True k(3) have "even \<bar>n\<bar>" by simp
      then have "2 * (n div 2) = n" by simp
      then have "(of_int n :: rat) = 2 * of_int (n div 2)"
        by (metis of_int_mult of_int_numeral)
      with k(2) True show ?thesis by (simp add: pow2_def)
    qed
    then show ?thesis by (rule round_rat_exact)
  next
    case False
    with k have "of_int n / quantum (of_int n) = of_int (n * 2 ^ nat k)"
      by (simp add: pow2_def)
    then show ?thesis by (rule round_rat_exact)
  qed
qed (simp add: round_rat_def)

lemma round64_Fin: "\<bar>round_rat x\<bar> < pow2 1024 \<Longrightarrow> round64 x = Fin (round_rat x)"
  by (auto simp: round64_def Let_def abs_less_iff)

lemma f64_of_nat_exact: "n \<le> 2 ^ 53 \<Longrightarrow> f64_of_nat n = Fin (of_nat n)"
proof -
  assume n: "n \<le> 2 ^ 53"
  then have "\<bar>int n\<bar> \<le> 2 ^ 53" by (simp add: nat_le_iff)
  then have r: "round_rat (of_nat n) = of_nat n"
    using round_rat_int [of "int n"] by simp
  have "(of_nat n :: rat) \<le> of_nat (2 ^ 53)" using n by (simp only: of_nat_le_iff)
  also have "\<dots> = pow2 53" by (simp add: pow2_def)
  also have "pow2 53 < pow2 1024" by (rule pow2_less) simp
  finally show ?thesis using r by (simp add: f64_of_nat_def round64_Fin)
qed

text \<open>Rounding does not pass an integer that is represented exactly.\<close>

lemma round_even_le: "y \<le> of_int m \<Longrightarrow> round_even y \<le> m"
proof -
  assume y: "y \<le> of_int m"
  then have "\<lfloor>y\<rfloor> \<le> m" by (simp add: floor_le_iff)
  moreover have "y = of_int m" if "\<lfloor>y\<rfloor> = m" using that y floor_correct [of y] by simp
  ultimately show ?thesis by (cases "\<lfloor>y\<rfloor> = m") (auto simp: round_even_def Let_def)
qed

lemma round_even_nonneg: "0 \<le> y \<Longrightarrow> 0 \<le> round_even y"
proof -
  assume "0 \<le> y"
  then have "0 \<le> \<lfloor>y\<rfloor>" by simp
  then show ?thesis by (simp add: round_even_def Let_def)
qed

lemma round_rat_nonneg: "0 \<le> x \<Longrightarrow> 0 \<le> round_rat x"
  using round_even_nonneg [of "x / quantum x"] by (simp add: round_rat_def less_imp_le)

lemma round_rat_le_int:
  assumes "0 \<le> x" and "x \<le> of_int m" and "m \<le> 2 ^ 53"
  shows "round_rat x \<le> of_int m"
proof (cases "x = 0 \<or> x = of_int m")
  case True
  have "0 \<le> m" using assms(1,2) by (metis of_int_0_le_iff order_trans)
  with True assms show ?thesis by (auto simp: round_rat_int) (simp add: round_rat_def)
next
  case False
  with assms have x: "x \<noteq> 0" "0 < x" "x < of_int m" by auto
  have "(of_int m :: rat) \<le> of_int (2 ^ 53)" using assms(3) by (simp only: of_int_le_iff)
  then have "x < pow2 53" using x(3) by (simp add: pow2_def)
  have "exponent x \<le> 52"
  proof (rule ccontr)
    assume "\<not> exponent x \<le> 52"
    then have "pow2 53 \<le> pow2 (exponent x)" by (intro pow2_mono) simp
    with exponent_bounds [OF x(1)] x(2) \<open>x < pow2 53\<close> show False by simp
  qed
  then obtain k :: nat where k: "quantum x = pow2 (- int k)"
    by (metis (no_types, lifting) add.inverse_inverse diff_le_0_iff_le max.cobounded2 max_def
        neg_0_le_iff_le neg_numeral_le_zero nonneg_int_cases quantum_def)
  then have q: "quantum x = 1 / 2 ^ k" by (simp add: pow2_def)
  have "x / quantum x \<le> of_int (m * 2 ^ k)"
    using x(3) by (simp add: q mult_right_mono less_imp_le)
  then have "of_int (round_even (x / quantum x)) \<le> (of_int (m * 2 ^ k) :: rat)"
    by (simp only: of_int_le_iff round_even_le)
  then have "of_int (round_even (x / quantum x)) * quantum x \<le> of_int (m * 2 ^ k) * quantum x"
    by (intro mult_right_mono) (simp_all add: less_imp_le)
  then show ?thesis using x(1) by (simp add: round_rat_def q)
qed

text \<open>A product in the normal range, between the exact value's neighbours.\<close>

lemma relative_error_bounds:
  "\<bar>r - z\<bar> \<le> z / 2 ^ 53 \<Longrightarrow> z * (1 - 1 / 2 ^ 53) \<le> r \<and> r \<le> z * (1 + 1 / 2 ^ 53)" for r z :: rat
  by (cases "z \<le> r") (simp_all add: field_simps)

lemma f64_mul_bounds:
  assumes "pow2 (- 1022) \<le> x * y" and "x * y \<le> pow2 1000"
  shows "\<exists>p. f64_mul (Fin x) (Fin y) = Fin p \<and>
             x * y * (1 - 1 / 2 ^ 53) \<le> p \<and> p \<le> x * y * (1 + 1 / 2 ^ 53)"
proof -
  let ?z = "x * y"
  have z: "0 < ?z" using less_le_trans [OF pow2_pos assms(1)] .
  then have err: "\<bar>round_rat ?z - ?z\<bar> \<le> ?z / 2 ^ 53"
    using round_rat_relative [of ?z] assms(1) by simp
  have lo: "?z * (1 - 1 / 2 ^ 53) \<le> round_rat ?z" and hi: "round_rat ?z \<le> ?z * (1 + 1 / 2 ^ 53)"
    using relative_error_bounds [OF err] by blast+
  have "?z * (1 + 1 / 2 ^ 53) \<le> pow2 1000 * 2"
    using assms(2) z by (intro mult_mono) (simp_all add: less_imp_le)
  also have "\<dots> = pow2 1001" using pow2_add [of 1000 1] by (simp add: pow2_def [of 1])
  also have "\<dots> < pow2 1024" by (rule pow2_less) simp
  finally have "round_rat ?z < pow2 1024" using hi by simp
  moreover have "0 \<le> ?z * (1 - 1 / 2 ^ 53)" using z by simp
  with lo have "0 \<le> round_rat ?z" by simp
  ultimately have "f64_mul (Fin x) (Fin y) = Fin (round_rat ?z)"
    by (simp add: round64_Fin)
  with lo hi show ?thesis by blast
qed

lemma f64_lit_bounds:
  assumes "pow2 (- 1022) \<le> x" and "x \<le> pow2 1000"
  shows "\<exists>p. f64_lit x = Fin p \<and> x * (1 - 1 / 2 ^ 53) \<le> p \<and> p \<le> x * (1 + 1 / 2 ^ 53)"
  using f64_mul_bounds [of x 1] assms by (simp add: f64_lit_def)

end
