(* ===== verification/Common_Utils.thy ===== *)
theory Common_Utils
  imports Common_Types Float64
begin

text \<open>
  The pure functions of \<open>common/src/utils.rs\<close>: hashing, truncated display of strings, ratios, range
  checks and the retry loop. The clock (\<open>current_timestamp\<close>) and the random generator are
  arguments of the definitions that read them.
\<close>

section \<open>Hashing\<close>

text \<open>
  \<open>hash_multiple\<close> feeds the pieces to one hasher in order; the digest of a sequence of
  \<open>update\<close> calls is the digest of the concatenation, as the \<open>Digest\<close> interface documents.
\<close>

definition hash_data :: "'z externals_scheme \<Rightarrow> u8 list \<Rightarrow> Hash" where
  "hash_data E bs = blake2b_256 E bs"

definition hash_multiple :: "'z externals_scheme \<Rightarrow> u8 list list \<Rightarrow> Hash" where
  "hash_multiple E pieces = blake2b_256 E (concat pieces)"

section \<open>Strings\<close>

text \<open>
  A Rust string is a sequence of Unicode scalar values; \<open>s.len()\<close> is the length of its UTF-8
  encoding and \<open>s.chars()\<close> the sequence itself. \<open>ustr\<close> embeds an ASCII literal.
\<close>

type_synonym rust_str = "nat list"

definition utf8_width :: "nat \<Rightarrow> nat" where
  "utf8_width c = (if c < 128 then 1 else if c < 2048 then 2 else if c < 65536 then 3 else 4)"

definition str_len :: "rust_str \<Rightarrow> nat" where
  "str_len s = sum_list (map utf8_width s)"

definition ustr :: "string \<Rightarrow> rust_str" where
  "ustr s = map of_char s"

definition truncate_string :: "rust_str \<Rightarrow> nat \<Rightarrow> rust_str" where
  "truncate_string s max_len =
     (if str_len s \<le> max_len then s
      else if max_len < 3 then take max_len s
      else take (max_len - 3) s @ ustr ''...'')"

definition format_hash_short :: "'z externals_scheme \<Rightarrow> Hash \<Rightarrow> rust_str" where
  "format_hash_short E h = truncate_string (ustr (hex_encode E (bytes_list h))) 8"

definition bytes_to_hex :: "'z externals_scheme \<Rightarrow> u8 list \<Rightarrow> string" where
  "bytes_to_hex E bs = hex_encode E bs"

definition hex_to_bytes :: "'z externals_scheme \<Rightarrow> string \<Rightarrow> (u8 list, FromHexError) result" where
  "hex_to_bytes E s = hex_decode E s"

section \<open>Ratios, ranges and retries\<close>

definition calculate_percentage :: "nat \<Rightarrow> nat \<Rightarrow> f64" where
  "calculate_percentage part whole =
     (if whole = 0 then Fin 0 else f64_div (f64_of_nat part) (f64_of_nat whole))"

definition meets_threshold :: "nat \<Rightarrow> nat \<Rightarrow> f64 \<Rightarrow> bool" where
  "meets_threshold part whole threshold = f64_le threshold (calculate_percentage part whole)"

definition validate_range :: "'a::linorder \<Rightarrow> 'a \<Rightarrow> 'a \<Rightarrow> bool" where
  "validate_range v lo hi \<longleftrightarrow> lo \<le> v \<and> v \<le> hi"

text \<open>
  \<open>retry_with_backoff\<close>: \<open>op n\<close> is what the operation yields when it is called for the \<open>n\<close>-th
  time. The second component lists the delays slept, in order. The last error is unwrapped at
  the end, which panics when no attempt was made.
\<close>

function retry_loop ::
  "(nat \<Rightarrow> ('a, 'e) result) \<Rightarrow> nat \<Rightarrow> nat \<Rightarrow> u64 \<Rightarrow> 'e option \<Rightarrow> u64 list \<Rightarrow> ('a, 'e) result \<times> u64 list" where
  "retry_loop op max_retries attempt delay last_error slept =
     (if attempt < max_retries then
        case op attempt of
          Ok r \<Rightarrow> (Ok r, slept)
        | Panic m \<Rightarrow> (Panic m, slept)
        | Err e \<Rightarrow>
            if attempt < max_retries - 1
            then retry_loop op max_retries (Suc attempt) (delay * 2) (Some e) (slept @ [delay])
            else retry_loop op max_retries (Suc attempt) delay (Some e) slept
      else case last_error of None \<Rightarrow> (Panic ''called Option::unwrap() on a None value'', slept)
           | Some e \<Rightarrow> (Err e, slept))"
  by pat_completeness auto
termination
  by (relation "measure (\<lambda>(op, m, a, _). m - a)") auto

definition retry_with_backoff ::
  "(nat \<Rightarrow> ('a, 'e) result) \<Rightarrow> nat \<Rightarrow> u64 \<Rightarrow> ('a, 'e) result \<times> u64 list" where
  "retry_with_backoff op max_retries initial_delay_ms =
     retry_loop op max_retries 0 initial_delay_ms None []"

declare retry_loop.simps [simp del]

section \<open>Facts\<close>

lemma str_len_ge_length: "length s \<le> str_len s"
  by (induction s) (auto simp: str_len_def utf8_width_def)

lemma str_len_append [simp]: "str_len (s @ t) = str_len s + str_len t"
  by (simp add: str_len_def)

lemma truncate_string_chars: "length (truncate_string s n) \<le> n"
  using str_len_ge_length [of s] by (auto simp: truncate_string_def ustr_def)

lemma truncate_string_id: "str_len s \<le> n \<Longrightarrow> truncate_string s n = s"
  by (simp add: truncate_string_def)

text \<open>What the loop does from attempt \<open>a\<close> on, when attempts \<open>a\<close> to \<open>a + k - 1\<close> fail.\<close>

lemma retry_loop_failures:
  assumes "\<And>i. a \<le> i \<Longrightarrow> i < a + k \<Longrightarrow> op i = Err (err i)" and "a + k < m"
  shows "retry_loop op m a d e0 sl =
         retry_loop op m (a + k) (d * 2 ^ k) (if k = 0 then e0 else Some (err (a + k - 1)))
           (sl @ map (\<lambda>i. d * 2 ^ i) [0..<k])"
  using assms
proof (induction k)
  case (Suc k)
  have "retry_loop op m a d e0 sl =
        retry_loop op m (a + k) (d * 2 ^ k) (if k = 0 then e0 else Some (err (a + k - 1)))
          (sl @ map (\<lambda>i. d * 2 ^ i) [0..<k])"
    using Suc by simp
  also have "\<dots> = retry_loop op m (a + Suc k) (d * 2 ^ Suc k) (Some (err (a + k)))
          (sl @ map (\<lambda>i. d * 2 ^ i) [0..<Suc k])"
    using Suc.prems less_diff_conv [of "a + k" m 1]
    by (subst retry_loop.simps) (simp add: mult.commute mult.left_commute)
  finally show ?case by simp
qed simp

lemma retry_loop_success:
  assumes "op a = Ok r" and "a < m"
  shows "retry_loop op m a d e sl = (Ok r, sl)"
  using assms by (subst retry_loop.simps) simp

lemma retry_loop_last_failure:
  assumes "op a = Err e" and "Suc a = m"
  shows "retry_loop op m a d e0 sl = (Err e, sl)"
  using assms by (subst retry_loop.simps, subst retry_loop.simps) auto

text \<open>A ratio of counts that are represented exactly lies between 0 and 1, as the comment says.\<close>

lemma calculate_percentage_range:
  assumes "part \<le> whole" and "whole \<le> 2 ^ 53"
  shows "\<exists>x. calculate_percentage part whole = Fin x \<and> 0 \<le> x \<and> x \<le> 1"
proof (cases "whole = 0")
  case False
  let ?x = "round_rat (of_nat part / of_nat whole)"
  have ratio: "0 \<le> (of_nat part / of_nat whole :: rat)" "(of_nat part / of_nat whole :: rat) \<le> of_int 1"
    using assms(1) False by (simp_all add: divide_le_eq)
  have x: "0 \<le> ?x" "?x \<le> 1"
    using round_rat_nonneg [OF ratio(1)] round_rat_le_int [OF ratio] by simp_all
  have "(1 :: rat) < pow2 1024" using pow2_less [of 0 1024] by (simp add: pow2_def [of 0])
  with x have "round64 (of_nat part / of_nat whole) = Fin ?x" by (intro round64_Fin) simp
  with False assms x show ?thesis by (simp add: calculate_percentage_def f64_of_nat_exact)
qed (simp add: calculate_percentage_def)

end
