(* ===== verification/Crypto.thy ===== *)
theory Crypto
  imports Common_Utils
begin

text \<open>
  \<open>crypto/src/hash.rs\<close> and the key types of \<open>crypto/src/keys.rs\<close>. The primitives come from third-party packages (\<open>blake2\<close>, \<open>sha3\<close>, \<open>hmac\<close>, \<open>ed25519-dalek\<close>,
  \<open>chacha20poly1305\<close>); they are fields of \<open>crypto_externals\<close>, and \<open>signature_laws\<close> and
  \<open>aead_laws\<close> state what their documentation promises. Random values (seeds, nonces, blinding
  factors) are arguments.
\<close>

section \<open>Third-party primitives\<close>

record crypto_externals = externals +
  blake2b_512 :: "u8 list \<Rightarrow> 64 bytes"
  blake2s_256 :: "u8 list \<Rightarrow> 32 bytes"
  sha3_256 :: "u8 list \<Rightarrow> 32 bytes"
  sha3_512 :: "u8 list \<Rightarrow> 64 bytes"
  hmac_sha256 :: "u8 list \<Rightarrow> u8 list \<Rightarrow> 32 bytes"
  ed25519_public :: "32 bytes \<Rightarrow> 32 bytes"
  ed25519_sign :: "32 bytes \<Rightarrow> u8 list \<Rightarrow> 64 bytes"
  ed25519_key_check :: "32 bytes \<Rightarrow> (unit, string) result"
  ed25519_verify :: "32 bytes \<Rightarrow> u8 list \<Rightarrow> 64 bytes \<Rightarrow> bool"
  aead_encrypt :: "32 bytes \<Rightarrow> 12 bytes \<Rightarrow> u8 list \<Rightarrow> u8 list \<Rightarrow> (u8 list, string) result"
  aead_decrypt :: "32 bytes \<Rightarrow> 12 bytes \<Rightarrow> u8 list \<Rightarrow> u8 list \<Rightarrow> (u8 list, string) result"

text \<open>A signature made with a secret key verifies under its public key, which is well formed.\<close>

definition signature_laws :: "'z crypto_externals_scheme \<Rightarrow> bool" where
  "signature_laws E \<longleftrightarrow>
     (\<forall>sk. ed25519_key_check E (ed25519_public E sk) = Ok ()) \<and>
     (\<forall>sk msg. ed25519_verify E (ed25519_public E sk) msg (ed25519_sign E sk msg))"

text \<open>
  Decryption with the same key, nonce and associated data inverts encryption, and a ciphertext
  carries a tag of 16 bytes.
\<close>

definition aead_laws :: "'z crypto_externals_scheme \<Rightarrow> bool" where
  "aead_laws E \<longleftrightarrow>
     (\<forall>k n a m c. aead_encrypt E k n a m = Ok c \<longrightarrow>
        aead_decrypt E k n a c = Ok m \<and> length c = length m + 16)"

section \<open>Hashing\<close>

definition hash_blake2b :: "'z crypto_externals_scheme \<Rightarrow> u8 list \<Rightarrow> Hash" where
  "hash_blake2b E data = blake2b_256 E data"

definition hash_blake2b_multiple :: "'z crypto_externals_scheme \<Rightarrow> u8 list list \<Rightarrow> Hash" where
  "hash_blake2b_multiple E data_pieces = blake2b_256 E (concat data_pieces)"

definition hash_blake2b_512 :: "'z crypto_externals_scheme \<Rightarrow> u8 list \<Rightarrow> 64 bytes" where
  "hash_blake2b_512 E data = blake2b_512 E data"

definition hash_sha3_256 :: "'z crypto_externals_scheme \<Rightarrow> u8 list \<Rightarrow> Hash" where
  "hash_sha3_256 E data = sha3_256 E data"

definition hash_sha3_256_multiple :: "'z crypto_externals_scheme \<Rightarrow> u8 list list \<Rightarrow> Hash" where
  "hash_sha3_256_multiple E data_pieces = sha3_256 E (concat data_pieces)"

definition hash_sha3_512 :: "'z crypto_externals_scheme \<Rightarrow> u8 list \<Rightarrow> 64 bytes" where
  "hash_sha3_512 E data = sha3_512 E data"

datatype HashAlgorithm = Blake2b256 | Blake2b512 | Sha3_256 | Sha3_512

fun output_size :: "HashAlgorithm \<Rightarrow> nat" where
  "output_size Blake2b256 = 32"
| "output_size Blake2b512 = 64"
| "output_size Sha3_256 = 32"
| "output_size Sha3_512 = 64"

fun HashAlgorithm_hash :: "'z crypto_externals_scheme \<Rightarrow> HashAlgorithm \<Rightarrow> u8 list \<Rightarrow> u8 list" where
  "HashAlgorithm_hash E Blake2b256 data = bytes_list (hash_blake2b E data)"
| "HashAlgorithm_hash E Blake2b512 data = bytes_list (hash_blake2b_512 E data)"
| "HashAlgorithm_hash E Sha3_256 data = bytes_list (hash_sha3_256 E data)"
| "HashAlgorithm_hash E Sha3_512 data = bytes_list (hash_sha3_512 E data)"

text \<open>A hasher of the packages is the input it has absorbed. The field \<open>blake2b_256\<close> is a \<open>Blake2s256\<close>.\<close>

record IncrementalHasher =
  ih_algorithm :: HashAlgorithm
  ih_blake2b_256 :: "u8 list option"
  ih_blake2b_512 :: "u8 list option"
  ih_sha3_256 :: "u8 list option"
  ih_sha3_512 :: "u8 list option"

definition IncrementalHasher_new :: "HashAlgorithm \<Rightarrow> IncrementalHasher" where
  "IncrementalHasher_new algorithm =
     (let (b256, b512, s256, s512) =
        (case algorithm of
           Blake2b256 \<Rightarrow> (Some [], None, None, None)
         | Blake2b512 \<Rightarrow> (None, Some [], None, None)
         | Sha3_256 \<Rightarrow> (None, None, Some [], None)
         | Sha3_512 \<Rightarrow> (None, None, None, Some []))
      in \<lparr>ih_algorithm = algorithm, ih_blake2b_256 = b256, ih_blake2b_512 = b512,
          ih_sha3_256 = s256, ih_sha3_512 = s512\<rparr>)"

definition IncrementalHasher_update :: "u8 list \<Rightarrow> IncrementalHasher \<Rightarrow> IncrementalHasher" where
  "IncrementalHasher_update data h =
     (case ih_algorithm h of
        Blake2b256 \<Rightarrow> h\<lparr>ih_blake2b_256 := map_option (\<lambda>x. x @ data) (ih_blake2b_256 h)\<rparr>
      | Blake2b512 \<Rightarrow> h\<lparr>ih_blake2b_512 := map_option (\<lambda>x. x @ data) (ih_blake2b_512 h)\<rparr>
      | Sha3_256 \<Rightarrow> h\<lparr>ih_sha3_256 := map_option (\<lambda>x. x @ data) (ih_sha3_256 h)\<rparr>
      | Sha3_512 \<Rightarrow> h\<lparr>ih_sha3_512 := map_option (\<lambda>x. x @ data) (ih_sha3_512 h)\<rparr>)"

text \<open>\<open>o.expect(msg)\<close>\<close>

definition expect :: "string \<Rightarrow> 'a option \<Rightarrow> 'a outcome" where
  "expect msg opt = (case opt of None \<Rightarrow> Panic msg | Some x \<Rightarrow> Ok x)"

definition IncrementalHasher_finalize ::
  "'z crypto_externals_scheme \<Rightarrow> IncrementalHasher \<Rightarrow> u8 list outcome" where
  "IncrementalHasher_finalize E h =
     (case ih_algorithm h of
        Blake2b256 \<Rightarrow> rbind (expect ''Blake2b-256 hasher not initialized'' (ih_blake2b_256 h))
                        (\<lambda>x. Ok (bytes_list (blake2s_256 E x)))
      | Blake2b512 \<Rightarrow> rbind (expect ''Blake2b-512 hasher not initialized'' (ih_blake2b_512 h))
                        (\<lambda>x. Ok (bytes_list (blake2b_512 E x)))
      | Sha3_256 \<Rightarrow> rbind (expect ''SHA3-256 hasher not initialized'' (ih_sha3_256 h))
                        (\<lambda>x. Ok (bytes_list (sha3_256 E x)))
      | Sha3_512 \<Rightarrow> rbind (expect ''SHA3-512 hasher not initialized'' (ih_sha3_512 h))
                        (\<lambda>x. Ok (bytes_list (sha3_512 E x))))"

definition finalize_fixed :: "'z crypto_externals_scheme \<Rightarrow> IncrementalHasher \<Rightarrow> Hash outcome" where
  "finalize_fixed E h =
     rbind (IncrementalHasher_finalize E h) (\<lambda>result.
       if length result \<noteq> 32 then Panic ''Hash output is not 32 bytes'' else copy_from_slice result)"

definition hmac_blake2b :: "'z crypto_externals_scheme \<Rightarrow> u8 list \<Rightarrow> u8 list \<Rightarrow> Hash" where
  "hmac_blake2b E key data = hmac_sha256 E key data"

definition hmac_blake2b_verify ::
  "'z crypto_externals_scheme \<Rightarrow> u8 list \<Rightarrow> u8 list \<Rightarrow> Hash \<Rightarrow> unit outcome" where
  "hmac_blake2b_verify E key data tag =
     (if hmac_sha256 E key data = tag then Ok () else Err (CryptoError ''HMAC verification failed''))"

definition double_hash_blake2b :: "'z crypto_externals_scheme \<Rightarrow> u8 list \<Rightarrow> Hash" where
  "double_hash_blake2b E data =
     (let first_hash = hash_blake2b E data in hash_blake2b E (bytes_list first_hash))"

definition combine_hashes :: "'z crypto_externals_scheme \<Rightarrow> Hash \<Rightarrow> Hash \<Rightarrow> Hash" where
  "combine_hashes E left right = hash_blake2b_multiple E [bytes_list left, bytes_list right]"

section \<open>Keys\<close>

datatype PrivateKey = PrivateKey (private_key_bytes: "32 bytes")
datatype CryptoPublicKey = CryptoPublicKey (cpk_bytes: "32 bytes")

record KeyPair =
  kp_private :: PrivateKey
  kp_public :: CryptoPublicKey

text \<open>\<open>hex::decode\<close>, the length check and the copy, with the crate's own errors.\<close>

definition decode_hex :: "'z externals_scheme \<Rightarrow> string \<Rightarrow> u8 list outcome" where
  "decode_hex E s = map_err (\<lambda>e. CryptoError (''Invalid hex: '' @ show_hex_error e)) (hex_decode E s)"

definition key_from_hex :: "'z externals_scheme \<Rightarrow> string \<Rightarrow> 32 bytes outcome" where
  "key_from_hex E s =
     rbind (decode_hex E s) (\<lambda>bytes.
       if length bytes \<noteq> 32
       then Err (CryptoError (''Invalid key length: expected 32, got '' @ show_nat (length bytes)))
       else copy_from_slice bytes)"

definition PrivateKey_to_hex :: "'z externals_scheme \<Rightarrow> PrivateKey \<Rightarrow> string" where
  "PrivateKey_to_hex E k = hex_encode E (bytes_list (private_key_bytes k))"

definition PrivateKey_from_hex :: "'z externals_scheme \<Rightarrow> string \<Rightarrow> PrivateKey outcome" where
  "PrivateKey_from_hex E s = rbind (key_from_hex E s) (\<lambda>key_bytes. Ok (PrivateKey key_bytes))"

definition cpk_to_common :: "CryptoPublicKey \<Rightarrow> PublicKey" where
  "cpk_to_common k = PublicKey (cpk_bytes k)"

definition cpk_from_common :: "PublicKey \<Rightarrow> CryptoPublicKey" where
  "cpk_from_common k = CryptoPublicKey (public_key_bytes k)"

definition to_verifying_key :: "'z crypto_externals_scheme \<Rightarrow> CryptoPublicKey \<Rightarrow> unit outcome" where
  "to_verifying_key E k =
     map_err (\<lambda>e. CryptoError (''Invalid public key: '' @ e)) (ed25519_key_check E (cpk_bytes k))"

definition cpk_to_hex :: "'z externals_scheme \<Rightarrow> CryptoPublicKey \<Rightarrow> string" where
  "cpk_to_hex E k = hex_encode E (bytes_list (cpk_bytes k))"

definition cpk_from_hex :: "'z externals_scheme \<Rightarrow> string \<Rightarrow> CryptoPublicKey outcome" where
  "cpk_from_hex E s = rbind (key_from_hex E s) (\<lambda>key_bytes. Ok (CryptoPublicKey key_bytes))"

definition cpk_verify :: "'z crypto_externals_scheme \<Rightarrow> CryptoPublicKey \<Rightarrow> unit outcome" where
  "cpk_verify E k = rbind (to_verifying_key E k) (\<lambda>_. Ok ())"

definition cpk_to_address :: "'z crypto_externals_scheme \<Rightarrow> CryptoPublicKey \<Rightarrow> Address" where
  "cpk_to_address E k = Address (hash_blake2b E (bytes_list (cpk_bytes k)))"

text \<open>\<open>seed\<close> is what the generator draws.\<close>

definition KeyPair_generate :: "'z crypto_externals_scheme \<Rightarrow> 32 bytes \<Rightarrow> KeyPair" where
  "KeyPair_generate E seed =
     \<lparr>kp_private = PrivateKey seed, kp_public = CryptoPublicKey (ed25519_public E seed)\<rparr>"

definition from_private_key :: "'z crypto_externals_scheme \<Rightarrow> PrivateKey \<Rightarrow> KeyPair outcome" where
  "from_private_key E private =
     Ok \<lparr>kp_private = private, kp_public = CryptoPublicKey (ed25519_public E (private_key_bytes private))\<rparr>"

definition KeyPair_from_bytes :: "'z crypto_externals_scheme \<Rightarrow> 32 bytes \<Rightarrow> KeyPair outcome" where
  "KeyPair_from_bytes E private_bytes = from_private_key E (PrivateKey private_bytes)"

definition sign_message :: "'z crypto_externals_scheme \<Rightarrow> KeyPair \<Rightarrow> u8 list \<Rightarrow> 64 bytes outcome" where
  "sign_message E kp message = Ok (ed25519_sign E (private_key_bytes (kp_private kp)) message)"

definition derive_child :: "'z crypto_externals_scheme \<Rightarrow> PrivateKey \<Rightarrow> u32 \<Rightarrow> PrivateKey outcome" where
  "derive_child E master index =
     Ok (PrivateKey (blake2b_256 E (bytes_list (private_key_bytes master) @ to_le_bytes index)))"

definition derive_children :: "'z crypto_externals_scheme \<Rightarrow> PrivateKey \<Rightarrow> u32 \<Rightarrow> PrivateKey list outcome" where
  "derive_children E master n = for_collect (\<lambda>i. derive_child E master (of_nat i)) [0..<unat n]"

section \<open>Facts\<close>

lemma hash_blake2b_multiple_append [simp]:
  "hash_blake2b_multiple E [xs] = hash_blake2b E xs"
  by (simp add: hash_blake2b_multiple_def hash_blake2b_def)

text \<open>
  Feeding the pieces one by one gives the digest of their concatenation, except that the algorithm
  named Blake2b-256 is computed with Blake2s-256 here and with Blake2b-256 by \<open>HashAlgorithm::hash\<close>.
\<close>

lemma incremental_hash:
  "IncrementalHasher_finalize E (fold IncrementalHasher_update pieces (IncrementalHasher_new a)) =
     Ok (if a = Blake2b256 then bytes_list (blake2s_256 E (concat pieces))
         else HashAlgorithm_hash E a (concat pieces))"
proof -
  have "fold IncrementalHasher_update pieces
          \<lparr>ih_algorithm = a, ih_blake2b_256 = w, ih_blake2b_512 = x, ih_sha3_256 = y, ih_sha3_512 = z\<rparr> =
        \<lparr>ih_algorithm = a,
         ih_blake2b_256 = (if a = Blake2b256 then map_option (\<lambda>s. s @ concat pieces) w else w),
         ih_blake2b_512 = (if a = Blake2b512 then map_option (\<lambda>s. s @ concat pieces) x else x),
         ih_sha3_256 = (if a = Sha3_256 then map_option (\<lambda>s. s @ concat pieces) y else y),
         ih_sha3_512 = (if a = Sha3_512 then map_option (\<lambda>s. s @ concat pieces) z else z)\<rparr>" for w x y z
    by (induction pieces arbitrary: w x y z)
       (cases a; simp add: IncrementalHasher_update_def option.map_comp comp_def option.map_ident)+
  then show ?thesis
    by (cases a)
       (simp_all add: IncrementalHasher_new_def IncrementalHasher_finalize_def expect_def
         hash_blake2b_512_def hash_sha3_256_def hash_sha3_512_def)
qed

lemma length_HashAlgorithm_hash: "length (HashAlgorithm_hash E a data) = output_size a"
  by (cases a) simp_all

text \<open>A key pair whose public half belongs to its private half, as all constructors make it.\<close>

definition keypair_wf :: "'z crypto_externals_scheme \<Rightarrow> KeyPair \<Rightarrow> bool" where
  "keypair_wf E kp \<longleftrightarrow> cpk_bytes (kp_public kp) = ed25519_public E (private_key_bytes (kp_private kp))"

lemma keypair_wf_generate [simp]: "keypair_wf E (KeyPair_generate E seed)"
  by (simp add: keypair_wf_def KeyPair_generate_def)

lemma keypair_wf_from_private_key: "from_private_key E k = Ok kp \<Longrightarrow> keypair_wf E kp"
  by (auto simp: keypair_wf_def from_private_key_def)

lemma cpk_common_inverse [simp]: "cpk_from_common (cpk_to_common k) = k" "cpk_to_common (cpk_from_common p) = p"
  by (simp_all add: cpk_from_common_def cpk_to_common_def)

text \<open>The two definitions of the address of a public key agree.\<close>

lemma cpk_to_address_common: "cpk_to_address E k = PublicKey_to_address E (cpk_to_common k)"
  by (simp add: cpk_to_address_def PublicKey_to_address_def cpk_to_common_def hash_blake2b_def)

lemma key_from_hex_encode: "hex_laws E \<Longrightarrow> key_from_hex E (hex_encode E (bytes_list b)) = Ok b"
  by (simp add: key_from_hex_def decode_hex_def hex_laws_def)

section \<open>A concrete instance\<close>

text \<open>A keyed checksum as signature and a cipher that appends a zero tag.\<close>

definition sample_crypto :: crypto_externals where
  "sample_crypto =
     \<lparr>blake2b_256 = (\<lambda>bs. bytes_fill (sum_list bs)), hex_encode = sample_hex_encode,
      hex_decode = sample_hex_decode,
      blake2b_512 = (\<lambda>bs. bytes_fill (sum_list bs)), blake2s_256 = (\<lambda>bs. bytes_fill (1 + sum_list bs)),
      sha3_256 = (\<lambda>bs. bytes_fill (2 + sum_list bs)), sha3_512 = (\<lambda>bs. bytes_fill (2 + sum_list bs)),
      hmac_sha256 = (\<lambda>k bs. bytes_fill (sum_list k + sum_list bs)),
      ed25519_public = (\<lambda>sk. sk),
      ed25519_sign = (\<lambda>sk msg. bytes_fill (hd (bytes_list sk) + sum_list msg)),
      ed25519_key_check = (\<lambda>pk. Ok ()),
      ed25519_verify = (\<lambda>pk msg sig. sig = bytes_fill (hd (bytes_list pk) + sum_list msg)),
      aead_encrypt = (\<lambda>k n a m. Ok (m @ replicate 16 0)),
      aead_decrypt = (\<lambda>k n a c. Ok (take (length c - 16) c))\<rparr>"

lemma sample_signature_laws: "signature_laws sample_crypto"
  by (simp add: signature_laws_def sample_crypto_def)

lemma sample_aead_laws: "aead_laws sample_crypto"
  by (simp add: aead_laws_def sample_crypto_def)

end
