(* ===== verification/Signatures.thy ===== *)
theory Signatures
  imports Crypto
begin

text \<open>
  \<open>crypto/src/signatures.rs\<close>: signing and verification over Ed25519, signed messages and
  multi-signatures. The locale \<open>signature_scheme\<close> is the contract that the voting crate relies on,
  interpreted on \<open>sign\<close> and \<open>verify\<close>.
\<close>

section \<open>Operations\<close>

datatype CryptoSignature = CryptoSignature (csig_bytes: "64 bytes")

definition csig_to_common :: "CryptoSignature \<Rightarrow> Signature" where
  "csig_to_common s = Signature (csig_bytes s)"

definition csig_from_common :: "Signature \<Rightarrow> CryptoSignature" where
  "csig_from_common s = CryptoSignature (signature_bytes s)"

definition csig_to_hex :: "'z externals_scheme \<Rightarrow> CryptoSignature \<Rightarrow> string" where
  "csig_to_hex E s = hex_encode E (bytes_list (csig_bytes s))"

definition csig_from_hex :: "'z externals_scheme \<Rightarrow> string \<Rightarrow> CryptoSignature outcome" where
  "csig_from_hex E s =
     rbind (decode_hex E s) (\<lambda>bytes.
       if length bytes \<noteq> 64
       then Err (CryptoError (''Invalid signature length: expected 64, got '' @ show_nat (length bytes)))
       else rbind (copy_from_slice bytes) (\<lambda>arr. Ok (CryptoSignature arr)))"

definition sign :: "'z crypto_externals_scheme \<Rightarrow> u8 list \<Rightarrow> KeyPair \<Rightarrow> CryptoSignature outcome" where
  "sign E message keypair =
     Ok (CryptoSignature (ed25519_sign E (private_key_bytes (kp_private keypair)) message))"

definition verify :: "'z crypto_externals_scheme \<Rightarrow> u8 list \<Rightarrow> CryptoSignature \<Rightarrow> CryptoPublicKey \<Rightarrow> unit outcome" where
  "verify E message signature public_key =
     rbind (map_err (\<lambda>e. CryptoError (''Invalid public key: '' @ e)) (ed25519_key_check E (cpk_bytes public_key))) (\<lambda>_.
       if ed25519_verify E (cpk_bytes public_key) message (csig_bytes signature) then Ok ()
       else Err SignatureVerificationFailed)"

definition sign_with_private :: "'z crypto_externals_scheme \<Rightarrow> u8 list \<Rightarrow> 32 bytes \<Rightarrow> CryptoSignature outcome" where
  "sign_with_private E message private_key = Ok (CryptoSignature (ed25519_sign E private_key message))"

text \<open>\<open>ser\<close> is the \<open>bincode\<close> encoding of the payload's type.\<close>

definition sign_data ::
  "'z crypto_externals_scheme \<Rightarrow> ('t \<Rightarrow> (u8 list, string) result) \<Rightarrow> 't \<Rightarrow> KeyPair \<Rightarrow> CryptoSignature outcome" where
  "sign_data E ser data keypair =
     rbind (map_err (\<lambda>e. SerializationError (''Serialization failed: '' @ e)) (ser data)) (\<lambda>serialized.
       sign E serialized keypair)"

definition verify_data ::
  "'z crypto_externals_scheme \<Rightarrow> ('t \<Rightarrow> (u8 list, string) result) \<Rightarrow> 't \<Rightarrow> CryptoSignature \<Rightarrow> CryptoPublicKey \<Rightarrow>
   unit outcome" where
  "verify_data E ser data signature public_key =
     rbind (map_err (\<lambda>e. SerializationError (''Serialization failed: '' @ e)) (ser data)) (\<lambda>serialized.
       verify E serialized signature public_key)"

record 't SignedMessage =
  sm_payload :: 't
  sm_signature :: CryptoSignature
  sm_signer :: CryptoPublicKey

definition SignedMessage_new ::
  "'z crypto_externals_scheme \<Rightarrow> ('t \<Rightarrow> (u8 list, string) result) \<Rightarrow> 't \<Rightarrow> KeyPair \<Rightarrow> 't SignedMessage outcome" where
  "SignedMessage_new E ser payload keypair =
     rbind (sign_data E ser payload keypair) (\<lambda>signature.
       Ok \<lparr>sm_payload = payload, sm_signature = signature, sm_signer = kp_public keypair\<rparr>)"

definition SignedMessage_verify ::
  "'z crypto_externals_scheme \<Rightarrow> ('t \<Rightarrow> (u8 list, string) result) \<Rightarrow> 't SignedMessage \<Rightarrow> unit outcome" where
  "SignedMessage_verify E ser m = verify_data E ser (sm_payload m) (sm_signature m) (sm_signer m)"

definition into_payload ::
  "'z crypto_externals_scheme \<Rightarrow> ('t \<Rightarrow> (u8 list, string) result) \<Rightarrow> 't SignedMessage \<Rightarrow> 't outcome" where
  "into_payload E ser m = rbind (SignedMessage_verify E ser m) (\<lambda>_. Ok (sm_payload m))"

definition verify_batch ::
  "'z crypto_externals_scheme \<Rightarrow> (u8 list \<times> CryptoSignature \<times> CryptoPublicKey) list \<Rightarrow> unit outcome" where
  "verify_batch E items = for_each (\<lambda>(message, signature, public_key). verify E message signature public_key) items"

record MultiSignature =
  ms_threshold :: nat
  ms_signatures :: "(CryptoPublicKey \<times> CryptoSignature) list"

definition MultiSignature_new :: "nat \<Rightarrow> MultiSignature" where
  "MultiSignature_new threshold = \<lparr>ms_threshold = threshold, ms_signatures = []\<rparr>"

definition MultiSignature_add_signature ::
  "CryptoPublicKey \<Rightarrow> CryptoSignature \<Rightarrow> MultiSignature \<Rightarrow> MultiSignature" where
  "MultiSignature_add_signature public_key signature m =
     m\<lparr>ms_signatures := ms_signatures m @ [(public_key, signature)]\<rparr>"

definition MultiSignature_verify :: "'z crypto_externals_scheme \<Rightarrow> MultiSignature \<Rightarrow> u8 list \<Rightarrow> unit outcome" where
  "MultiSignature_verify E m message =
     (if length (ms_signatures m) < ms_threshold m
      then Err (CryptoError (''Need '' @ show_nat (ms_threshold m) @ '' signatures, got ''
                             @ show_nat (length (ms_signatures m))))
      else for_each (\<lambda>(public_key, signature). verify E message signature public_key) (ms_signatures m))"

definition is_threshold_met :: "'z crypto_externals_scheme \<Rightarrow> MultiSignature \<Rightarrow> u8 list \<Rightarrow> bool" where
  "is_threshold_met E m message =
     (if length (ms_signatures m) < ms_threshold m then False
      else is_ok (MultiSignature_verify E m message))"

definition sign_hash :: "'z crypto_externals_scheme \<Rightarrow> 32 bytes \<Rightarrow> KeyPair \<Rightarrow> CryptoSignature outcome" where
  "sign_hash E hash keypair = sign E (bytes_list hash) keypair"

definition verify_hash :: "'z crypto_externals_scheme \<Rightarrow> 32 bytes \<Rightarrow> CryptoSignature \<Rightarrow> CryptoPublicKey \<Rightarrow> unit outcome" where
  "verify_hash E hash signature public_key = verify E (bytes_list hash) signature public_key"

datatype SigVerificationResult = Valid | Invalid

definition verify_detailed ::
  "'z crypto_externals_scheme \<Rightarrow> u8 list \<Rightarrow> CryptoSignature \<Rightarrow> CryptoPublicKey \<Rightarrow> SigVerificationResult" where
  "verify_detailed E message signature public_key =
     (case verify E message signature public_key of Ok _ \<Rightarrow> Valid | _ \<Rightarrow> Invalid)"

section \<open>The contract\<close>

text \<open>What a signer and a verifier promise each other; \<open>legit\<close> says that a key pair belongs together.\<close>

locale signature_scheme =
  fixes legit :: "'k \<Rightarrow> bool"
    and make :: "u8 list \<Rightarrow> 'k \<Rightarrow> 's outcome"
    and check :: "u8 list \<Rightarrow> 's \<Rightarrow> 'p \<Rightarrow> unit outcome"
    and public :: "'k \<Rightarrow> 'p"
  assumes make_total: "legit k \<Longrightarrow> \<exists>s. make msg k = Ok s"
    and check_make: "legit k \<Longrightarrow> make msg k = Ok s \<Longrightarrow> check msg s (public k) = Ok ()"
begin

lemma make_then_check:
  "legit k \<Longrightarrow> rbind (make msg k) (\<lambda>s. check msg s (public k)) = Ok ()"
  unfolding rbind_eq_Ok using make_total check_make by blast

text \<open>The encoded payload is what is signed.\<close>

lemma encoded_check:
  assumes "legit k" and "ser data = Ok bs" and "rbind (ser data) (\<lambda>bs. make bs k) = Ok s"
  shows "rbind (ser data) (\<lambda>bs. check bs s (public k)) = Ok ()"
  using assms check_make by simp

end

lemma sign_verify:
  assumes "signature_laws E" and "keypair_wf E kp" and "sign E msg kp = Ok s"
  shows "verify E msg s (kp_public kp) = Ok ()"
  using assms by (auto simp: sign_def verify_def signature_laws_def keypair_wf_def)

interpretation ed25519: signature_scheme "\<lambda>kp. signature_laws E \<and> keypair_wf E kp" "sign E" "verify E" kp_public
  for E :: "'z crypto_externals_scheme"
  by unfold_locales (auto simp: sign_def intro: sign_verify)

section \<open>Facts\<close>

lemma csig_common_inverse [simp]: "csig_from_common (csig_to_common s) = s"
  by (simp add: csig_from_common_def csig_to_common_def)

lemma csig_hex_roundtrip: "hex_laws E \<Longrightarrow> csig_from_hex E (csig_to_hex E s) = Ok s"
  by (simp add: csig_from_hex_def csig_to_hex_def decode_hex_def hex_laws_def)

lemma verify_not_panic:
  assumes "\<not> is_panic (ed25519_key_check E (cpk_bytes pk))"
  shows "\<not> is_panic (verify E msg s pk)"
  using assms by (cases "ed25519_key_check E (cpk_bytes pk)") (simp_all add: verify_def)

lemma SignedMessage_roundtrip:
  assumes "signature_laws E" and "keypair_wf E kp" and "SignedMessage_new E ser x kp = Ok m"
  shows "into_payload E ser m = Ok x"
  using assms ed25519.check_make [of E kp]
  by (auto simp: SignedMessage_new_def sign_data_def into_payload_def SignedMessage_verify_def
      verify_data_def outcome_simps)

text \<open>One signer can meet any threshold of a multi-signature: repeated keys are not detected.\<close>

lemma repeated_signer_meets_threshold:
  assumes "signature_laws E" and "keypair_wf E kp" and "sign E msg kp = Ok s"
  shows "is_threshold_met E ((MultiSignature_add_signature (kp_public kp) s ^^ n) (MultiSignature_new n)) msg"
proof -
  have "ms_signatures ((MultiSignature_add_signature (kp_public kp) s ^^ k) m) =
          ms_signatures m @ replicate k (kp_public kp, s)"
       "ms_threshold ((MultiSignature_add_signature (kp_public kp) s ^^ k) m) = ms_threshold m" for k m
    by (induction k) (simp_all add: MultiSignature_add_signature_def replicate_append_same)
  then show ?thesis
    using sign_verify [OF assms]
    by (auto simp: is_threshold_met_def MultiSignature_verify_def MultiSignature_new_def outcome_simps)
qed

end
