(* ===== verification/Encryption.thy ===== *)
theory Encryption
  imports Crypto
begin

unbundle bit_operations_syntax

text \<open>
  \<open>crypto/src/encryption.rs\<close>: ChaCha20-Poly1305 with and without associated data, and the byte form
  of encrypted data; from \<open>crypto/src/zkp/mod.rs\<close> the hash commitments, the simplified Schnorr
  proof, the batch verifier and the constant-time comparison. Nonces and blinding factors are
  arguments. The locale \<open>sealed_box\<close> is the contract of the encryption functions.
\<close>

section \<open>Encrypted data\<close>

record EncryptedData =
  ed_nonce :: "12 bytes"
  ed_ciphertext :: "u8 list"
  ed_associated_data :: "u8 list option"

definition EncryptedData_new :: "12 bytes \<Rightarrow> u8 list \<Rightarrow> EncryptedData" where
  "EncryptedData_new nonce ciphertext =
     \<lparr>ed_nonce = nonce, ed_ciphertext = ciphertext, ed_associated_data = None\<rparr>"

definition with_associated_data :: "12 bytes \<Rightarrow> u8 list \<Rightarrow> u8 list \<Rightarrow> EncryptedData" where
  "with_associated_data nonce ciphertext associated_data =
     \<lparr>ed_nonce = nonce, ed_ciphertext = ciphertext, ed_associated_data = Some associated_data\<rparr>"

definition EncryptedData_size :: "EncryptedData \<Rightarrow> nat" where
  "EncryptedData_size d =
     12 + length (ed_ciphertext d) + (case ed_associated_data d of None \<Rightarrow> 0 | Some ad \<Rightarrow> length ad)"

definition EncryptedData_to_bytes :: "EncryptedData \<Rightarrow> u8 list" where
  "EncryptedData_to_bytes d = bytes_list (ed_nonce d) @ ed_ciphertext d"

definition EncryptedData_from_bytes :: "u8 list \<Rightarrow> EncryptedData outcome" where
  "EncryptedData_from_bytes bytes =
     (if length bytes < 12 + 16 then Err (CryptoError ''Encrypted data too short'')
      else rbind (copy_from_slice (take 12 bytes)) (\<lambda>nonce. Ok (EncryptedData_new nonce (drop 12 bytes))))"

definition EncryptedData_to_hex :: "'z externals_scheme \<Rightarrow> EncryptedData \<Rightarrow> string" where
  "EncryptedData_to_hex E d = hex_encode E (EncryptedData_to_bytes d)"

definition EncryptedData_from_hex :: "'z externals_scheme \<Rightarrow> string \<Rightarrow> EncryptedData outcome" where
  "EncryptedData_from_hex E s = rbind (decode_hex E s) EncryptedData_from_bytes"

datatype EncryptionKey = EncryptionKey (encryption_key_bytes: "32 bytes")

definition EncryptionKey_to_hex :: "'z externals_scheme \<Rightarrow> EncryptionKey \<Rightarrow> string" where
  "EncryptionKey_to_hex E k = hex_encode E (bytes_list (encryption_key_bytes k))"

definition EncryptionKey_from_hex :: "'z externals_scheme \<Rightarrow> string \<Rightarrow> EncryptionKey outcome" where
  "EncryptionKey_from_hex E s = rbind (key_from_hex E s) (\<lambda>key. Ok (EncryptionKey key))"

definition encrypt ::
  "'z crypto_externals_scheme \<Rightarrow> 12 bytes \<Rightarrow> u8 list \<Rightarrow> EncryptionKey \<Rightarrow> EncryptedData outcome" where
  "encrypt E nonce plaintext key =
     rbind (map_err (\<lambda>e. CryptoError (''Encryption failed: '' @ e))
              (aead_encrypt E (encryption_key_bytes key) nonce [] plaintext))
       (\<lambda>ciphertext. Ok (EncryptedData_new nonce ciphertext))"

definition decrypt :: "'z crypto_externals_scheme \<Rightarrow> EncryptedData \<Rightarrow> EncryptionKey \<Rightarrow> u8 list outcome" where
  "decrypt E encrypted key =
     map_err (\<lambda>e. CryptoError (''Decryption failed: '' @ e))
       (aead_decrypt E (encryption_key_bytes key) (ed_nonce encrypted) [] (ed_ciphertext encrypted))"

definition encrypt_with_aad ::
  "'z crypto_externals_scheme \<Rightarrow> 12 bytes \<Rightarrow> u8 list \<Rightarrow> u8 list \<Rightarrow> EncryptionKey \<Rightarrow> EncryptedData outcome" where
  "encrypt_with_aad E nonce plaintext associated_data key =
     rbind (map_err (\<lambda>e. CryptoError (''Encryption failed: '' @ e))
              (aead_encrypt E (encryption_key_bytes key) nonce associated_data plaintext))
       (\<lambda>ciphertext. Ok (with_associated_data nonce ciphertext associated_data))"

definition decrypt_with_aad :: "'z crypto_externals_scheme \<Rightarrow> EncryptedData \<Rightarrow> EncryptionKey \<Rightarrow> u8 list outcome" where
  "decrypt_with_aad E encrypted key =
     (let aad = (case ed_associated_data encrypted of None \<Rightarrow> [] | Some v \<Rightarrow> v) in
      map_err (\<lambda>e. CryptoError (''Decryption failed: '' @ e))
        (aead_decrypt E (encryption_key_bytes key) (ed_nonce encrypted) aad (ed_ciphertext encrypted)))"

text \<open>The in-place variants return the new buffer.\<close>

definition encrypt_in_place ::
  "'z crypto_externals_scheme \<Rightarrow> 12 bytes \<Rightarrow> u8 list \<Rightarrow> EncryptionKey \<Rightarrow> (u8 list \<times> 12 bytes) outcome" where
  "encrypt_in_place E nonce buffer key =
     rbind (map_err (\<lambda>e. CryptoError (''In-place encryption failed: '' @ e))
              (aead_encrypt E (encryption_key_bytes key) nonce [] buffer))
       (\<lambda>buffer. Ok (buffer, nonce))"

definition decrypt_in_place ::
  "'z crypto_externals_scheme \<Rightarrow> u8 list \<Rightarrow> 12 bytes \<Rightarrow> EncryptionKey \<Rightarrow> u8 list outcome" where
  "decrypt_in_place E buffer nonce key =
     map_err (\<lambda>e. CryptoError (''In-place decryption failed: '' @ e))
       (aead_decrypt E (encryption_key_bytes key) nonce [] buffer)"

record StreamCipher =
  sc_key :: EncryptionKey
  sc_nonce :: "12 bytes"

definition StreamCipher_new :: "12 bytes \<Rightarrow> EncryptionKey \<Rightarrow> StreamCipher" where
  "StreamCipher_new nonce key = \<lparr>sc_key = key, sc_nonce = nonce\<rparr>"

definition encrypt_chunk :: "'z crypto_externals_scheme \<Rightarrow> StreamCipher \<Rightarrow> u8 list \<Rightarrow> u8 list outcome" where
  "encrypt_chunk E c chunk =
     map_err (\<lambda>e. CryptoError (''Stream encryption failed: '' @ e))
       (aead_encrypt E (encryption_key_bytes (sc_key c)) (sc_nonce c) [] chunk)"

definition decrypt_chunk :: "'z crypto_externals_scheme \<Rightarrow> StreamCipher \<Rightarrow> u8 list \<Rightarrow> u8 list outcome" where
  "decrypt_chunk E c chunk =
     map_err (\<lambda>e. CryptoError (''Stream decryption failed: '' @ e))
       (aead_decrypt E (encryption_key_bytes (sc_key c)) (sc_nonce c) [] chunk)"

section \<open>Commitments and proofs\<close>

record Commitment =
  cm_value :: "u8 list"
  cm_randomness :: "u8 list option"

definition Commitment_new :: "'z crypto_externals_scheme \<Rightarrow> u8 list \<Rightarrow> u8 list \<Rightarrow> Commitment" where
  "Commitment_new E v randomness =
     \<lparr>cm_value = bytes_list (hash_blake2b_multiple E [v, randomness]), cm_randomness = Some randomness\<rparr>"

definition Commitment_from_value :: "u8 list \<Rightarrow> Commitment" where
  "Commitment_from_value v = \<lparr>cm_value = v, cm_randomness = None\<rparr>"

definition Commitment_open :: "'z crypto_externals_scheme \<Rightarrow> Commitment \<Rightarrow> u8 list \<Rightarrow> bool outcome" where
  "Commitment_open E c v =
     (case cm_randomness c of
        None \<Rightarrow> Err (CryptoError ''No randomness available'')
      | Some randomness \<Rightarrow> Ok (cm_value c = cm_value (Commitment_new E v randomness)))"

definition verify_opening :: "'z crypto_externals_scheme \<Rightarrow> u8 list \<Rightarrow> u8 list \<Rightarrow> u8 list \<Rightarrow> bool" where
  "verify_opening E commitment v randomness \<longleftrightarrow>
     bytes_list (hash_blake2b_multiple E [v, randomness]) = commitment"

record SchnorrProof =
  sp_challenge :: "u8 list"
  sp_response :: "u8 list"

definition SchnorrProof_verify :: "SchnorrProof \<Rightarrow> u8 list \<Rightarrow> bool outcome" where
  "SchnorrProof_verify p public_value = (if sp_challenge p = [] \<or> sp_response p = [] then Ok False else Ok True)"

datatype ProofType = BallotValidity | RangeProof | EligibilityProofType | CommitmentProof | DecryptionProof

record ZkProof =
  zk_proof_type :: ProofType
  zk_proof_data :: "u8 list"
  zk_public_inputs :: "u8 list"

definition ZkProof_size :: "ZkProof \<Rightarrow> nat" where
  "ZkProof_size p = length (zk_proof_data p) + length (zk_public_inputs p)"

record BatchVerifier =
  bv_proofs :: "ZkProof list"
  bv_max_batch_size :: nat

definition BatchVerifier_new :: "nat \<Rightarrow> BatchVerifier" where
  "BatchVerifier_new max_batch_size = \<lparr>bv_proofs = [], bv_max_batch_size = max_batch_size\<rparr>"

definition add_proof :: "BatchVerifier \<Rightarrow> ZkProof \<Rightarrow> BatchVerifier \<times> unit outcome" where
  "add_proof b proof =
     (if bv_max_batch_size b \<le> length (bv_proofs b) then (b, Err (CryptoError ''Batch is full''))
      else (b\<lparr>bv_proofs := bv_proofs b @ [proof]\<rparr>, Ok ()))"

definition BatchVerifier_verify_batch :: "BatchVerifier \<Rightarrow> bool list outcome" where
  "BatchVerifier_verify_batch b = Ok (map (\<lambda>p. zk_proof_data p \<noteq> []) (bv_proofs b))"

definition BatchVerifier_clear :: "BatchVerifier \<Rightarrow> BatchVerifier" where
  "BatchVerifier_clear b = b\<lparr>bv_proofs := []\<rparr>"

definition fiat_shamir_challenge :: "'z crypto_externals_scheme \<Rightarrow> u8 list list \<Rightarrow> u8 list" where
  "fiat_shamir_challenge E vs = bytes_list (hash_blake2b_multiple E vs)"

definition constant_time_eq :: "u8 list \<Rightarrow> u8 list \<Rightarrow> bool" where
  "constant_time_eq a b =
     (if length a \<noteq> length b then False
      else fold (\<lambda>(byte_a, byte_b) result. result OR (byte_a XOR byte_b)) (zip a b) 0 = 0)"

section \<open>The contract of encryption\<close>

locale sealed_box =
  fixes legit :: bool
    and seal :: "'n \<Rightarrow> u8 list \<Rightarrow> 'k \<Rightarrow> 'c outcome"
    and unseal :: "'c \<Rightarrow> 'k \<Rightarrow> u8 list outcome"
  assumes unseal_seal: "legit \<Longrightarrow> seal n m k = Ok c \<Longrightarrow> unseal c k = Ok m"
begin

lemma seal_inject: "legit \<Longrightarrow> seal n m k = Ok c \<Longrightarrow> seal n' m' k = Ok c \<Longrightarrow> m = m'"
  by (metis result.inject(1) unseal_seal)

lemma seal_then_unseal: "legit \<Longrightarrow> is_ok (seal n m k) \<Longrightarrow> rbind (seal n m k) (\<lambda>c. unseal c k) = Ok m"
  using unseal_seal by (auto simp: outcome_simps)

end

interpretation plain_box: sealed_box "aead_laws E" "encrypt E" "decrypt E" for E :: "'z crypto_externals_scheme"
  by unfold_locales
     (auto simp: encrypt_def decrypt_def EncryptedData_new_def aead_laws_def outcome_simps)

interpretation aad_box: sealed_box "aead_laws E" "\<lambda>(n, a) m k. encrypt_with_aad E n m a k" "decrypt_with_aad E"
  for E :: "'z crypto_externals_scheme"
  by unfold_locales
     (auto simp: encrypt_with_aad_def decrypt_with_aad_def with_associated_data_def aead_laws_def outcome_simps Let_def)

interpretation in_place_box: sealed_box "aead_laws E" "encrypt_in_place E" "\<lambda>(b, n) k. decrypt_in_place E b n k"
  for E :: "'z crypto_externals_scheme"
  by unfold_locales (auto simp: encrypt_in_place_def decrypt_in_place_def aead_laws_def outcome_simps)

section \<open>Facts\<close>

lemma EncryptedData_bytes_roundtrip:
  assumes "ed_associated_data d = None" and "16 \<le> length (ed_ciphertext d)"
  shows "EncryptedData_from_bytes (EncryptedData_to_bytes d) = Ok d"
  using assms by (simp add: EncryptedData_from_bytes_def EncryptedData_to_bytes_def EncryptedData_new_def)

text \<open>Associated data is not part of the byte form.\<close>

lemma EncryptedData_bytes_forget:
  assumes "16 \<le> length (ed_ciphertext d)"
  shows "EncryptedData_from_bytes (EncryptedData_to_bytes d) = Ok (d\<lparr>ed_associated_data := None\<rparr>)"
  using assms by (simp add: EncryptedData_from_bytes_def EncryptedData_to_bytes_def EncryptedData_new_def)

lemma stream_roundtrip:
  "aead_laws E \<Longrightarrow> encrypt_chunk E c m = Ok ct \<Longrightarrow> decrypt_chunk E c ct = Ok m"
  by (auto simp: encrypt_chunk_def decrypt_chunk_def aead_laws_def outcome_simps)

lemma Commitment_open_new: "Commitment_open E (Commitment_new E v r) v = Ok True"
  by (simp add: Commitment_open_def Commitment_new_def)

lemma word_xor_eq_0: "x XOR y = 0 \<longleftrightarrow> x = (y :: u8)"
proof
  assume "x XOR y = 0"
  then have "(x XOR y) XOR y = y" by simp
  then show "x = y" by (simp add: xor.assoc)
qed simp

lemma fold_or_xor:
  "length a = length b \<Longrightarrow>
   fold (\<lambda>(x, y) r. r OR (x XOR y)) (zip a b) (acc :: u8) = 0 \<longleftrightarrow> acc = 0 \<and> a = b"
proof (induction a b arbitrary: acc rule: list_induct2)
  case (Cons x xs y ys)
  have "acc OR (x XOR y) = 0 \<longleftrightarrow> acc = 0 \<and> x = y"
    unfolding or_eq_0_iff word_xor_eq_0 ..
  with Cons.IH [of "acc OR (x XOR y)"] show ?case by auto
qed simp

lemma constant_time_eq_iff [simp]: "constant_time_eq a b \<longleftrightarrow> a = b"
  by (auto simp: constant_time_eq_def fold_or_xor)

section \<open>Properties\<close>

text \<open>
  Encryption round trips, through storage as well: what \<open>encrypt\<close> produces decrypts to the
  plaintext under the same key, also after it was written out with \<open>to_bytes\<close> and read back with
  \<open>from_bytes\<close>, provided the cipher keeps its documented promise.
\<close>

theorem encrypt_bytes_decrypt:
  assumes "aead_laws E" and "encrypt E nonce plaintext key = Ok d"
  shows "rbind (EncryptedData_from_bytes (EncryptedData_to_bytes d)) (\<lambda>d'. decrypt E d' key) = Ok plaintext"
proof -
  have "ed_associated_data d = None" "16 \<le> length (ed_ciphertext d)"
    using assms by (auto simp: encrypt_def EncryptedData_new_def aead_laws_def outcome_simps)
  then show ?thesis
    using plain_box.unseal_seal [OF assms] by (simp add: EncryptedData_bytes_roundtrip)
qed

theorem encrypt_bytes_decrypt_witness:
  "rbind (EncryptedData_from_bytes (EncryptedData_to_bytes (EncryptedData_new (bytes_fill 7) ([1, 2, 3] @ replicate 16 0))))
     (\<lambda>d'. decrypt sample_crypto d' (EncryptionKey (bytes_fill 9))) = Ok [1, 2, 3]"
  by (rule encrypt_bytes_decrypt [OF sample_aead_laws, where nonce = "bytes_fill 7"])
     (simp add: encrypt_def sample_crypto_def)

end
