(* ===== verification/Voter.thy ===== *)
theory Voter
  imports Registries Signatures Encryption
begin

text \<open>
  \<open>voting/src/voter.rs\<close>: voters, their credentials and registrations, and the registry. A string is
  the sequence of its UTF-8 bytes. The registry is an \<open>indexed_store\<close>, and both a voter and the
  registry accept a vote per election \<open>once_only\<close>. \<open>get_voter_mut\<close> lends out a voter; what the
  sources do with the loan are the methods of \<open>Voter\<close>, the operations of \<open>registry_call\<close>.
\<close>

section \<open>Data\<close>

datatype VoterId = VoterId (voter_id_bytes: "32 bytes")

datatype VoterStatus = Unregistered | Registered | Verified | Suspended string | Revoked

record VoterCredentials =
  vc_voter_id :: VoterId
  vc_jurisdiction :: string
  vc_issued_at :: Timestamp
  vc_expires_at :: "Timestamp option"
  vc_credential_hash :: "u8 list"

record Voter =
  vo_id :: VoterId
  vo_public_key :: PublicKey
  vo_address :: Address
  vo_status :: VoterStatus
  vo_credentials :: "VoterCredentials option"
  vo_registered_at :: Timestamp
  vo_elections_voted :: "ElectionId fset"

record VoterRegistration =
  vreg_voter_id :: VoterId
  vreg_public_key :: PublicKey
  vreg_credentials :: VoterCredentials
  vreg_signature :: Signature
  vreg_timestamp :: Timestamp

record VoterRegistry =
  vry_voters :: "Voter list"
  vry_voter_index :: "(VoterId, nat) hashmap"

section \<open>Operations\<close>

definition VoterId_from_address :: "Address \<Rightarrow> VoterId" where
  "VoterId_from_address address = VoterId (address_bytes address)"

definition VoterId_to_hex :: "'z externals_scheme \<Rightarrow> VoterId \<Rightarrow> string" where
  "VoterId_to_hex E v = hex_encode E (bytes_list (voter_id_bytes v))"

definition VoterId_from_hex :: "'z externals_scheme \<Rightarrow> string \<Rightarrow> VoterId outcome" where
  "VoterId_from_hex E s =
     rbind (decode_hex E s) (\<lambda>bytes.
       if length bytes \<noteq> 32 then Err (CryptoError ''Invalid voter ID length'')
       else rbind (copy_from_slice bytes) (\<lambda>i. Ok (VoterId i)))"

definition Voter_new :: "'z crypto_externals_scheme \<Rightarrow> Timestamp \<Rightarrow> KeyPair \<Rightarrow> Voter" where
  "Voter_new E now keypair =
     (let public_key = kp_public keypair;
          address = cpk_to_address E public_key
      in \<lparr>vo_id = VoterId_from_address address, vo_public_key = cpk_to_common public_key,
          vo_address = address, vo_status = Unregistered, vo_credentials = None,
          vo_registered_at = now, vo_elections_voted = {||}\<rparr>)"

definition with_credentials :: "'z crypto_externals_scheme \<Rightarrow> Timestamp \<Rightarrow> KeyPair \<Rightarrow> VoterCredentials \<Rightarrow> Voter" where
  "with_credentials E now keypair credentials =
     (Voter_new E now keypair)\<lparr>vo_credentials := Some credentials, vo_status := Registered\<rparr>"

definition Voter_register :: "Voter \<Rightarrow> VoterCredentials \<Rightarrow> Voter \<times> unit outcome" where
  "Voter_register v credentials =
     (if vo_status v = Registered then (v, Err (InvalidInput ''Voter already registered''))
      else (v\<lparr>vo_credentials := Some credentials, vo_status := Registered\<rparr>, Ok ()))"

definition Voter_is_registered :: "Voter \<Rightarrow> bool" where
  "Voter_is_registered v \<longleftrightarrow> vo_status v = Registered \<or> vo_status v = Verified"

definition Voter_has_voted :: "Voter \<Rightarrow> ElectionId \<Rightarrow> bool" where
  "Voter_has_voted v election_id \<longleftrightarrow> election_id |\<in>| vo_elections_voted v"

definition Voter_is_eligible :: "Voter \<Rightarrow> ElectionId \<Rightarrow> bool" where
  "Voter_is_eligible v election_id \<longleftrightarrow> Voter_is_registered v \<and> \<not> Voter_has_voted v election_id"

definition Voter_mark_voted :: "Voter \<Rightarrow> ElectionId \<Rightarrow> Voter \<times> unit outcome" where
  "Voter_mark_voted v election_id =
     (if Voter_has_voted v election_id then (v, Err AlreadyVoted)
      else (v\<lparr>vo_elections_voted := finsert election_id (vo_elections_voted v)\<rparr>, Ok ()))"

definition Voter_revoke :: "Voter \<Rightarrow> Voter" where
  "Voter_revoke v = v\<lparr>vo_status := Revoked\<rparr>"

definition Voter_verify :: "Voter \<Rightarrow> Voter" where
  "Voter_verify v = (if vo_status v = Registered then v\<lparr>vo_status := Verified\<rparr> else v)"

definition Voter_suspend :: "Voter \<Rightarrow> string \<Rightarrow> Voter" where
  "Voter_suspend v reason = v\<lparr>vo_status := Suspended reason\<rparr>"

definition credentials_compute_hash ::
  "'z crypto_externals_scheme \<Rightarrow> VoterId \<Rightarrow> string \<Rightarrow> Timestamp \<Rightarrow> u8 list" where
  "credentials_compute_hash E voter_id jurisdiction issued_at =
     bytes_list (hash_blake2b_multiple E
       [bytes_list (voter_id_bytes voter_id), str_bytes jurisdiction, to_le_bytes issued_at])"

definition VoterCredentials_new ::
  "'z crypto_externals_scheme \<Rightarrow> Timestamp \<Rightarrow> VoterId \<Rightarrow> string \<Rightarrow> VoterCredentials" where
  "VoterCredentials_new E now voter_id jurisdiction =
     \<lparr>vc_voter_id = voter_id, vc_jurisdiction = jurisdiction, vc_issued_at = now, vc_expires_at = None,
      vc_credential_hash = credentials_compute_hash E voter_id jurisdiction now\<rparr>"

definition with_expiration ::
  "'z crypto_externals_scheme \<Rightarrow> Timestamp \<Rightarrow> VoterId \<Rightarrow> string \<Rightarrow> Timestamp \<Rightarrow> VoterCredentials" where
  "with_expiration E now voter_id jurisdiction expires_at =
     (VoterCredentials_new E now voter_id jurisdiction)\<lparr>vc_expires_at := Some expires_at\<rparr>"

definition credentials_is_valid :: "VoterCredentials \<Rightarrow> Timestamp \<Rightarrow> bool" where
  "credentials_is_valid c current_time =
     (case vc_expires_at c of None \<Rightarrow> True | Some expires_at \<Rightarrow> current_time < expires_at)"

definition credentials_is_expired :: "VoterCredentials \<Rightarrow> Timestamp \<Rightarrow> bool" where
  "credentials_is_expired c current_time \<longleftrightarrow> \<not> credentials_is_valid c current_time"

definition credentials_verify_hash :: "'z crypto_externals_scheme \<Rightarrow> VoterCredentials \<Rightarrow> bool" where
  "credentials_verify_hash E c =
     (let computed = credentials_compute_hash E (vc_voter_id c) (vc_jurisdiction c) (vc_issued_at c)
      in constant_time_eq computed (vc_credential_hash c))"

definition registration_compute_message ::
  "'z crypto_externals_scheme \<Rightarrow> VoterId \<Rightarrow> PublicKey \<Rightarrow> VoterCredentials \<Rightarrow> Timestamp \<Rightarrow> u8 list" where
  "registration_compute_message E voter_id public_key credentials timestamp =
     bytes_list (hash_blake2b_multiple E
       [bytes_list (voter_id_bytes voter_id), bytes_list (public_key_bytes public_key),
        vc_credential_hash credentials, to_le_bytes timestamp])"

definition VoterRegistration_create ::
  "'z crypto_externals_scheme \<Rightarrow> Timestamp \<Rightarrow> Voter \<Rightarrow> KeyPair \<Rightarrow> VoterRegistration outcome" where
  "VoterRegistration_create E now voter keypair =
     (case vo_credentials voter of
        None \<Rightarrow> Err (InvalidInput ''Voter has no credentials'')
      | Some credentials \<Rightarrow>
          (let message = registration_compute_message E (vo_id voter) (vo_public_key voter) credentials now in
           rbind (sign E message keypair) (\<lambda>signature.
             Ok \<lparr>vreg_voter_id = vo_id voter, vreg_public_key = vo_public_key voter,
                 vreg_credentials = credentials, vreg_signature = csig_to_common signature,
                 vreg_timestamp = now\<rparr>)))"

definition VoterRegistration_verify :: "'z crypto_externals_scheme \<Rightarrow> VoterRegistration \<Rightarrow> unit outcome" where
  "VoterRegistration_verify E r =
     (if \<not> credentials_verify_hash E (vreg_credentials r)
      then Err (InvalidInput ''Invalid credential hash'')
      else
        let message = registration_compute_message E (vreg_voter_id r) (vreg_public_key r)
                        (vreg_credentials r) (vreg_timestamp r)
        in rbind (verify E message (csig_from_common (vreg_signature r)) (cpk_from_common (vreg_public_key r)))
             (\<lambda>_. Ok ()))"

definition VoterRegistry_new :: VoterRegistry where
  "VoterRegistry_new = \<lparr>vry_voters = [], vry_voter_index = fmempty\<rparr>"

definition register_voter :: "VoterRegistry \<Rightarrow> Voter \<Rightarrow> VoterRegistry \<times> unit outcome" where
  "register_voter r voter =
     (if hm_contains_key (vry_voter_index r) (vo_id voter)
      then (r, Err (InvalidInput ''Voter already exists in registry''))
      else (let index = length (vry_voters r) in
            (r\<lparr>vry_voter_index := fmupd (vo_id voter) index (vry_voter_index r),
               vry_voters := vry_voters r @ [voter]\<rparr>, Ok ())))"

definition get_voter :: "VoterRegistry \<Rightarrow> VoterId \<Rightarrow> Voter option" where
  "get_voter r voter_id = index_get (vry_voters r) (vry_voter_index r) voter_id"

text \<open>\<open>get_voter_mut(..).ok_or_else(..)?\<close> followed by a method call on the voter.\<close>

definition with_voter_mut ::
  "VoterRegistry \<Rightarrow> VoterId \<Rightarrow> (Voter \<Rightarrow> Voter \<times> unit outcome) \<Rightarrow> VoterRegistry \<times> unit outcome" where
  "with_voter_mut r voter_id f =
     (case fmlookup (vry_voter_index r) voter_id of
        None \<Rightarrow> (r, Err (VoterNotEligible ''Voter not found''))
      | Some i \<Rightarrow>
          if i < length (vry_voters r)
          then (let (v, res) = f (vry_voters r ! i) in (r\<lparr>vry_voters := (vry_voters r)[i := v]\<rparr>, res))
          else (r, Err (VoterNotEligible ''Voter not found'')))"

definition registry_is_registered :: "VoterRegistry \<Rightarrow> VoterId \<Rightarrow> bool" where
  "registry_is_registered r voter_id =
     (case get_voter r voter_id of None \<Rightarrow> False | Some v \<Rightarrow> Voter_is_registered v)"

definition registry_is_eligible :: "VoterRegistry \<Rightarrow> VoterId \<Rightarrow> ElectionId \<Rightarrow> bool" where
  "registry_is_eligible r voter_id election_id =
     (case get_voter r voter_id of None \<Rightarrow> False | Some v \<Rightarrow> Voter_is_eligible v election_id)"

definition registry_mark_voted :: "VoterRegistry \<Rightarrow> VoterId \<Rightarrow> ElectionId \<Rightarrow> VoterRegistry \<times> unit outcome" where
  "registry_mark_voted r voter_id election_id =
     with_voter_mut r voter_id (\<lambda>voter. Voter_mark_voted voter election_id)"

definition voter_count :: "VoterRegistry \<Rightarrow> nat" where
  "voter_count r = length (vry_voters r)"

definition registered_count :: "VoterRegistry \<Rightarrow> nat" where
  "registered_count r = length (filter Voter_is_registered (vry_voters r))"

definition voters_by_status :: "VoterRegistry \<Rightarrow> VoterStatus \<Rightarrow> Voter list" where
  "voters_by_status r status = filter (\<lambda>v. vo_status v = status) (vry_voters r)"

section \<open>Interfaces\<close>

text \<open>One call on the registry: a registration, a mark, or a method of a voter it lends out.\<close>

datatype RegistryCall =
    RegisterVoter Voter
  | MarkVoted VoterId ElectionId
  | RegisterCredentials VoterId VoterCredentials
  | RevokeVoter VoterId
  | VerifyVoter VoterId
  | SuspendVoter VoterId string

fun registry_call :: "VoterRegistry \<Rightarrow> RegistryCall \<Rightarrow> VoterRegistry \<times> unit outcome" where
  "registry_call r (RegisterVoter v) = register_voter r v"
| "registry_call r (MarkVoted i e) = registry_mark_voted r i e"
| "registry_call r (RegisterCredentials i c) = with_voter_mut r i (\<lambda>v. Voter_register v c)"
| "registry_call r (RevokeVoter i) = with_voter_mut r i (\<lambda>v. (Voter_revoke v, Ok ()))"
| "registry_call r (VerifyVoter i) = with_voter_mut r i (\<lambda>v. (Voter_verify v, Ok ()))"
| "registry_call r (SuspendVoter i reason) = with_voter_mut r i (\<lambda>v. (Voter_suspend v reason, Ok ()))"

fun mark_key :: "RegistryCall \<Rightarrow> (VoterId \<times> ElectionId) option" where
  "mark_key (MarkVoted i e) = Some (i, e)"
| "mark_key _ = None"

definition registry_has_voted :: "VoterRegistry \<Rightarrow> VoterId \<times> ElectionId \<Rightarrow> bool" where
  "registry_has_voted r = (\<lambda>(i, e). \<exists>v. get_voter r i = Some v \<and> Voter_has_voted v e)"

interpretation voter_store: indexed_store vry_voters vry_voter_index vo_id register_voter
  by unfold_locales (simp_all add: register_voter_def Let_def)

interpretation voter_once: once_only Voter_mark_voted Some Voter_has_voted
  by unfold_locales (auto simp: Voter_mark_voted_def Voter_has_voted_def split: if_splits)

text \<open>What the methods of a voter keep: the identity and the elections voted in.\<close>

definition voter_grows :: "(Voter \<Rightarrow> Voter \<times> 'a) \<Rightarrow> bool" where
  "voter_grows f \<longleftrightarrow>
     (\<forall>v. vo_id (fst (f v)) = vo_id v \<and> vo_elections_voted v |\<subseteq>| vo_elections_voted (fst (f v)))"

lemma voter_grows_methods:
  "voter_grows (\<lambda>v. Voter_mark_voted v e)" "voter_grows (\<lambda>v. Voter_register v c)"
  "voter_grows (\<lambda>v. (Voter_revoke v, x))" "voter_grows (\<lambda>v. (Voter_verify v, x))"
  "voter_grows (\<lambda>v. (Voter_suspend v s, x))"
  by (auto simp: voter_grows_def Voter_mark_voted_def Voter_register_def Voter_revoke_def Voter_verify_def
      Voter_suspend_def)

lemma with_voter_mut_cases:
  assumes "with_voter_mut r k f = (r', res)"
  obtains i where "fmlookup (vry_voter_index r) k = Some i" "i < length (vry_voters r)"
      "r' = r\<lparr>vry_voters := (vry_voters r)[i := fst (f (vry_voters r ! i))]\<rparr>" "res = snd (f (vry_voters r ! i))"
    | "r' = r" "res = Err (VoterNotEligible ''Voter not found'')"
  using assms by (auto simp: with_voter_mut_def split: option.splits if_splits prod.splits)

lemma with_voter_mut_get:
  assumes "with_voter_mut r k f = (r', res)" and "get_voter r j = Some v" and "voter_grows f"
  shows "\<exists>v'. get_voter r' j = Some v' \<and> vo_elections_voted v |\<subseteq>| vo_elections_voted v'"
  using assms(1)
proof (cases rule: with_voter_mut_cases)
  case (1 i)
  obtain n where n: "fmlookup (vry_voter_index r) j = Some n" "n < length (vry_voters r)" "vry_voters r ! n = v"
    using assms(2) by (auto simp: get_voter_def index_get_def vec_get_def split: option.splits if_splits)
  then have "get_voter r' j = Some (if n = i then fst (f v) else v)"
    using 1 by (auto simp: get_voter_def index_get_def vec_get_def nth_list_update)
  with assms(3) show ?thesis by (auto simp: voter_grows_def)
qed (use assms(2) in auto)

lemma register_voter_get:
  assumes "register_voter r w = (r', res)" and "get_voter r j = Some v"
  shows "get_voter r' j = Some v"
  using assms
  by (auto simp: register_voter_def get_voter_def index_get_def vec_get_def Let_def nth_append hm_contains_key_def
      split: option.splits if_splits)

lemma registry_call_keeps:
  assumes "registry_call r c = (r', res)" and "registry_has_voted r k"
  shows "registry_has_voted r' k"
proof -
  obtain i e v where k: "k = (i, e)" "get_voter r i = Some v" "e |\<in>| vo_elections_voted v"
    using assms(2) by (auto simp: registry_has_voted_def Voter_has_voted_def)
  have "\<exists>v'. get_voter r' i = Some v' \<and> vo_elections_voted v |\<subseteq>| vo_elections_voted v'"
    using assms(1) k(2)
    by (cases c)
       (auto simp: registry_mark_voted_def dest: register_voter_get
         intro: with_voter_mut_get voter_grows_methods)
  with k show ?thesis by (auto simp: registry_has_voted_def Voter_has_voted_def)
qed

lemma registry_mark_success:
  assumes "registry_mark_voted r i e = (r', Ok ())"
  shows "\<not> registry_has_voted r (i, e) \<and> registry_has_voted r' (i, e)"
  using assms
  by (auto simp: registry_mark_voted_def with_voter_mut_def registry_has_voted_def get_voter_def index_get_def
      vec_get_def Voter_mark_voted_def Voter_has_voted_def split: option.splits if_splits prod.splits)

interpretation registry_once: once_only registry_call mark_key registry_has_voted
proof unfold_locales
  fix s c t x k assume "registry_call s c = (t, Ok x)" "mark_key c = Some k"
  then show "\<not> registry_has_voted s k \<and> registry_has_voted t k"
    using registry_mark_success by (cases c) auto
qed (rule registry_call_keeps)

text \<open>The index of the registry stays right under every call.\<close>

lemma registry_call_wf:
  assumes "index_wf vo_id (vry_voters r) (vry_voter_index r)" and "registry_call r c = (r', res)"
  shows "index_wf vo_id (vry_voters r') (vry_voter_index r')"
proof -
  have mut: "index_wf vo_id (vry_voters s) (vry_voter_index s)"
    if "with_voter_mut r i f = (s, x)" "voter_grows f" for i f s x
    using that(1)
  proof (cases rule: with_voter_mut_cases)
    case (1 n)
    with index_wf_update [OF assms(1) 1(2), of "fst (f (vry_voters r ! n))"] that(2) show ?thesis
      by (simp add: voter_grows_def)
  qed (use assms(1) in simp)
  from assms(2) show ?thesis
    by (cases c)
       (auto simp: registry_mark_voted_def intro: voter_store.insert_wf [OF assms(1)] mut voter_grows_methods)
qed

lemma registry_run_wf:
  "index_wf vo_id (vry_voters r) (vry_voter_index r) \<Longrightarrow>
   index_wf vo_id (vry_voters (fst (run_calls registry_call r cs))) (vry_voter_index (fst (run_calls registry_call r cs)))"
proof (induction cs arbitrary: r)
  case (Cons c cs)
  obtain s x where s: "registry_call r c = (s, x)" by (cases "registry_call r c")
  from Cons.IH [OF registry_call_wf [OF Cons.prems s]] show ?case by (auto simp: s Let_def split: prod.splits)
qed simp

section \<open>Facts\<close>

lemma VoterId_hex_roundtrip: "hex_laws E \<Longrightarrow> VoterId_from_hex E (VoterId_to_hex E v) = Ok v"
  by (simp add: VoterId_from_hex_def VoterId_to_hex_def decode_hex_def hex_laws_def)

lemma credentials_new_verify [simp]:
  "credentials_verify_hash E (VoterCredentials_new E now i j)"
  "credentials_verify_hash E (with_expiration E now i j t)"
  by (simp_all add: credentials_verify_hash_def VoterCredentials_new_def with_expiration_def Let_def)

text \<open>The expiry date is not part of the credential hash: moving it keeps the credentials verified.\<close>

lemma expiry_not_hashed: "credentials_verify_hash E (c\<lparr>vc_expires_at := t\<rparr>) = credentials_verify_hash E c"
  by (simp add: credentials_verify_hash_def)

text \<open>Only the status \<open>Registered\<close> stops a registration, so a revoked voter can register again.\<close>

lemma revoked_voter_registers_again:
  "\<exists>v'. Voter_register (Voter_revoke v) c = (v', Ok ()) \<and> Voter_is_registered v'"
  by (simp add: Voter_register_def Voter_revoke_def Voter_is_registered_def)

lemma Voter_new_fields:
  "vo_public_key (with_credentials E now kp c) = cpk_to_common (kp_public kp)"
  "vo_id (with_credentials E now kp c) =
     VoterId_from_address (PublicKey_to_address E (vo_public_key (with_credentials E now kp c)))"
  "vo_credentials (with_credentials E now kp c) = Some c"
  by (simp_all add: with_credentials_def Voter_new_def Let_def cpk_to_address_common)

section \<open>Properties\<close>

text \<open>
  The voter registry is right whatever is called on it, starting empty (registrations, marks,
  revocations, verifications, suspensions, in any order and with any outcome): no identifier is
  registered twice, \<open>get_voter\<close> yields what a search for the identifier finds, and for each voter
  and election at most one call of \<open>mark_voted\<close> succeeds.
\<close>

theorem voter_registry_correct:
  "distinct (map vo_id (vry_voters (fst (run_calls registry_call VoterRegistry_new calls)))) \<and>
   get_voter (fst (run_calls registry_call VoterRegistry_new calls)) i =
     List.find (\<lambda>v. vo_id v = i) (vry_voters (fst (run_calls registry_call VoterRegistry_new calls))) \<and>
   successes mark_key (i, e) (snd (run_calls registry_call VoterRegistry_new calls)) \<le> 1"
proof -
  let ?r = "fst (run_calls registry_call VoterRegistry_new calls)"
  have wf: "index_wf vo_id (vry_voters ?r) (vry_voter_index ?r)"
    by (rule registry_run_wf) (simp add: VoterRegistry_new_def index_wf_empty)
  then show ?thesis
    using index_get_find [OF wf] index_wf_distinct [OF wf] registry_once.at_most_once
    by (simp add: get_voter_def)
qed

text \<open>
  A registration that \<open>VoterRegistration::create\<close> makes is accepted by \<open>verify\<close>, if the voter
  carries the public key of the key pair and credentials with a right hash.
\<close>

theorem voter_registration_roundtrip:
  assumes "signature_laws E" and "keypair_wf E kp"
    and "vo_public_key v = cpk_to_common (kp_public kp)"
    and "vo_credentials v = Some c" and "credentials_verify_hash E c"
  shows "\<exists>r. VoterRegistration_create E now v kp = Ok r \<and> VoterRegistration_verify E r = Ok ()"
proof -
  let ?msg = "registration_compute_message E (vo_id v) (vo_public_key v) c now"
  obtain s where s: "sign E ?msg kp = Ok s" by (simp add: sign_def)
  then have "verify E ?msg s (kp_public kp) = Ok ()"
    using assms(1,2) by (intro ed25519.check_make) simp_all
  with s assms(3-5) show ?thesis
    by (simp add: VoterRegistration_create_def VoterRegistration_verify_def Let_def)
qed

definition sample_keypair :: "u8 \<Rightarrow> KeyPair" where
  "sample_keypair b = KeyPair_generate sample_crypto (bytes_fill b)"

definition sample_voter :: "u8 \<Rightarrow> Voter" where
  "sample_voter b =
     with_credentials sample_crypto 10 (sample_keypair b)
       (VoterCredentials_new sample_crypto 10 (VoterId (bytes_fill b)) ''CA'')"

lemma sample_keypair_wf [simp]: "keypair_wf sample_crypto (sample_keypair b)"
  by (simp add: sample_keypair_def)

lemma sample_voter_fields [simp]:
  "vo_public_key (sample_voter b) = cpk_to_common (kp_public (sample_keypair b))"
  by (simp add: sample_voter_def Voter_new_fields)

theorem voter_registration_roundtrip_witness:
  "\<exists>r. VoterRegistration_create sample_crypto 20 (sample_voter 5) (sample_keypair 5) = Ok r \<and>
       VoterRegistration_verify sample_crypto r = Ok ()"
  by (rule voter_registration_roundtrip [OF sample_signature_laws,
        where c = "VoterCredentials_new sample_crypto 10 (VoterId (bytes_fill 5)) ''CA''"])
     (simp_all add: sample_voter_def Voter_new_fields)

end
