(* ===== verification/Ballot.thy ===== *)
theory Ballot
  imports Voter
begin

text \<open>
  \<open>voting/src/ballot.rs\<close>: ballots and their rules, cast ballots (encrypted, committed and signed),
  the ballot box and the builder. The \<open>bincode\<close> encoding of a ballot is a third-party function,
  and random values and the clock are arguments. \<open>CastBallot::to_private_ballot\<close>, which belongs to
  the private ballots of the crypto crate, is not modelled.
\<close>

section \<open>Data\<close>

datatype BallotId = BallotId (ballot_id_bytes: "32 bytes")

datatype BallotType =
    SingleChoice
  | MultipleChoice (max_choices: nat)
  | RankedChoice (max_ranks: nat)
  | Approval
  | WriteIn

record BallotChoice =
  bch_candidate_id :: string
  bch_rank :: "u32 option"
  bch_write_in_name :: "string option"

record Ballot =
  bal_ballot_id :: BallotId
  bal_election_id :: ElectionId
  bal_ballot_type :: BallotType
  bal_choices :: "BallotChoice list"
  bal_timestamp :: Timestamp
  bal_version :: u32

record CastBallot =
  cb_ballot_id :: BallotId
  cb_election_id :: ElectionId
  cb_voter_id :: VoterId
  cb_encrypted_ballot :: EncryptedData
  cb_ballot_commitment :: "u8 list"
  cb_voter_signature :: Signature
  cb_cast_at :: Timestamp
  cb_transaction_id :: "TxId option"

record BallotBox =
  bbx_ballots :: "CastBallot list"
  bbx_ballot_index :: "(BallotId, nat) hashmap"

record BallotBuilder =
  bb_election_id :: ElectionId
  bb_ballot_type :: BallotType
  bb_choices :: "BallotChoice list"

record voting_externals = crypto_externals +
  bincode_ballot :: "Ballot \<Rightarrow> (u8 list, string) result"
  unbincode_ballot :: "u8 list \<Rightarrow> (Ballot, string) result"

text \<open>Decoding inverts encoding.\<close>

definition ballot_codec_laws :: "'z voting_externals_scheme \<Rightarrow> bool" where
  "ballot_codec_laws E \<longleftrightarrow>
     (\<forall>b bs. bincode_ballot E b = Ok bs \<longrightarrow> unbincode_ballot E bs = Ok b)"

section \<open>Ballots\<close>

definition Ballot_new :: "BallotId \<Rightarrow> Timestamp \<Rightarrow> ElectionId \<Rightarrow> BallotType \<Rightarrow> Ballot" where
  "Ballot_new generated now election_id ballot_type =
     \<lparr>bal_ballot_id = generated, bal_election_id = election_id, bal_ballot_type = ballot_type,
      bal_choices = [], bal_timestamp = now, bal_version = 1\<rparr>"

definition add_choice_check :: "BallotType \<Rightarrow> BallotChoice list \<Rightarrow> unit outcome" where
  "add_choice_check ballot_type choices =
     (case ballot_type of
        SingleChoice \<Rightarrow>
          if choices \<noteq> [] then Err (InvalidBallot ''Single choice ballot can only have one choice'') else Ok ()
      | MultipleChoice mx \<Rightarrow>
          if mx \<le> length choices then Err (InvalidBallot (''Cannot exceed '' @ show_nat mx @ '' choices'')) else Ok ()
      | RankedChoice mx \<Rightarrow>
          if mx \<le> length choices then Err (InvalidBallot (''Cannot exceed '' @ show_nat mx @ '' ranks'')) else Ok ()
      | Approval \<Rightarrow> Ok ()
      | WriteIn \<Rightarrow> Ok ())"

definition add_choice :: "Ballot \<Rightarrow> BallotChoice \<Rightarrow> Ballot \<times> unit outcome" where
  "add_choice b choice =
     (case add_choice_check (bal_ballot_type b) (bal_choices b) of
        Ok _ \<Rightarrow> (b\<lparr>bal_choices := bal_choices b @ [choice]\<rparr>, Ok ())
      | Err e \<Rightarrow> (b, Err e)
      | Panic m \<Rightarrow> (b, Panic m))"

definition check_rank :: "nat \<times> BallotChoice \<Rightarrow> unit outcome" where
  "check_rank = (\<lambda>(i, choice).
     case bch_rank choice of
       Some rank \<Rightarrow> if unat rank \<noteq> i + 1 then Err (InvalidBallot ''Ranks must be sequential'') else Ok ()
     | None \<Rightarrow> Err (InvalidBallot ''Ranked choice ballot must have ranks''))"

definition Ballot_validate :: "Ballot \<Rightarrow> unit outcome" where
  "Ballot_validate b =
     (let choices = bal_choices b in
      if choices = [] then Err (InvalidBallot ''Ballot must have at least one choice'')
      else case bal_ballot_type b of
        SingleChoice \<Rightarrow>
          if length choices \<noteq> 1 then Err (InvalidBallot ''Single choice ballot must have exactly one choice'') else Ok ()
      | MultipleChoice mx \<Rightarrow>
          if mx < length choices
          then Err (InvalidBallot (''Too many choices: '' @ show_nat (length choices) @ '' (max '' @ show_nat mx @ '')''))
          else Ok ()
      | RankedChoice mx \<Rightarrow>
          if mx < length choices then Err (InvalidBallot ''Too many ranks'')
          else for_each check_rank (enumerate 0 choices)
      | Approval \<Rightarrow> Ok ()
      | WriteIn \<Rightarrow> Ok ())"

definition Ballot_serialize :: "'z voting_externals_scheme \<Rightarrow> Ballot \<Rightarrow> u8 list outcome" where
  "Ballot_serialize E b =
     (case bincode_ballot E b of
        Ok bs \<Rightarrow> Ok bs
      | Err e \<Rightarrow> Panic (''Failed to serialize ballot: '' @ e)
      | Panic m \<Rightarrow> Panic m)"

definition Ballot_deserialize :: "'z voting_externals_scheme \<Rightarrow> u8 list \<Rightarrow> Ballot outcome" where
  "Ballot_deserialize E data =
     map_err (\<lambda>e. SerializationError (''Failed to deserialize: '' @ e)) (unbincode_ballot E data)"

definition BallotId_to_hex :: "'z externals_scheme \<Rightarrow> BallotId \<Rightarrow> string" where
  "BallotId_to_hex E b = hex_encode E (bytes_list (ballot_id_bytes b))"

definition BallotId_from_hex :: "'z externals_scheme \<Rightarrow> string \<Rightarrow> BallotId outcome" where
  "BallotId_from_hex E s =
     rbind (decode_hex E s) (\<lambda>bytes.
       if length bytes \<noteq> 32 then Err (CryptoError ''Invalid ballot ID length'')
       else rbind (copy_from_slice bytes) (\<lambda>i. Ok (BallotId i)))"

definition BallotChoice_new :: "string \<Rightarrow> BallotChoice" where
  "BallotChoice_new candidate_id =
     \<lparr>bch_candidate_id = candidate_id, bch_rank = None, bch_write_in_name = None\<rparr>"

definition BallotChoice_with_rank :: "string \<Rightarrow> u32 \<Rightarrow> BallotChoice" where
  "BallotChoice_with_rank candidate_id rank =
     \<lparr>bch_candidate_id = candidate_id, bch_rank = Some rank, bch_write_in_name = None\<rparr>"

definition BallotChoice_write_in :: "string \<Rightarrow> BallotChoice" where
  "BallotChoice_write_in name =
     \<lparr>bch_candidate_id = ''write_in'', bch_rank = None, bch_write_in_name = Some name\<rparr>"

section \<open>Cast ballots\<close>

definition cast_compute_message ::
  "'z crypto_externals_scheme \<Rightarrow> BallotId \<Rightarrow> ElectionId \<Rightarrow> VoterId \<Rightarrow> EncryptedData \<Rightarrow> u8 list \<Rightarrow> u8 list" where
  "cast_compute_message E ballot_id election_id voter_id encrypted_ballot ballot_commitment =
     bytes_list (hash_blake2b_multiple E
       [bytes_list (ballot_id_bytes ballot_id), bytes_list (election_id_bytes election_id),
        bytes_list (voter_id_bytes voter_id), EncryptedData_to_bytes encrypted_ballot, ballot_commitment])"

text \<open>\<open>nonce\<close>, \<open>randomness\<close> and \<open>now\<close> are what the generators and the clock yield.\<close>

definition CastBallot_create ::
  "'z voting_externals_scheme \<Rightarrow> 12 bytes \<Rightarrow> u8 list \<Rightarrow> Timestamp \<Rightarrow> Ballot \<Rightarrow> VoterId \<Rightarrow> EncryptionKey \<Rightarrow> KeyPair \<Rightarrow>
   CastBallot outcome" where
  "CastBallot_create E nonce randomness now ballot voter_id election_key voter_keypair =
     rbind (Ballot_serialize E ballot) (\<lambda>ballot_data.
     rbind (encrypt E nonce ballot_data election_key) (\<lambda>encrypted_ballot.
       let ballot_commitment = cm_value (Commitment_new E ballot_data randomness);
           message = cast_compute_message E (bal_ballot_id ballot) (bal_election_id ballot) voter_id
                       encrypted_ballot ballot_commitment
       in rbind (sign E message voter_keypair) (\<lambda>voter_signature.
            Ok \<lparr>cb_ballot_id = bal_ballot_id ballot, cb_election_id = bal_election_id ballot,
                cb_voter_id = voter_id, cb_encrypted_ballot = encrypted_ballot,
                cb_ballot_commitment = ballot_commitment,
                cb_voter_signature = csig_to_common voter_signature, cb_cast_at = now,
                cb_transaction_id = None\<rparr>)))"

definition CastBallot_verify :: "'z crypto_externals_scheme \<Rightarrow> CastBallot \<Rightarrow> PublicKey \<Rightarrow> unit outcome" where
  "CastBallot_verify E c voter_public_key =
     (let message = cast_compute_message E (cb_ballot_id c) (cb_election_id c) (cb_voter_id c)
                      (cb_encrypted_ballot c) (cb_ballot_commitment c)
      in rbind (verify E message (csig_from_common (cb_voter_signature c)) (cpk_from_common voter_public_key))
           (\<lambda>_. Ok ()))"

definition set_transaction_id :: "CastBallot \<Rightarrow> TxId \<Rightarrow> CastBallot" where
  "set_transaction_id c i = c\<lparr>cb_transaction_id := Some i\<rparr>"

section \<open>The ballot box and the builder\<close>

definition BallotBox_new :: BallotBox where
  "BallotBox_new = \<lparr>bbx_ballots = [], bbx_ballot_index = fmempty\<rparr>"

definition add_ballot :: "BallotBox \<Rightarrow> CastBallot \<Rightarrow> BallotBox \<times> unit outcome" where
  "add_ballot b ballot =
     (if hm_contains_key (bbx_ballot_index b) (cb_ballot_id ballot)
      then (b, Err (InvalidBallot ''Ballot already exists''))
      else (let index = length (bbx_ballots b) in
            (b\<lparr>bbx_ballot_index := fmupd (cb_ballot_id ballot) index (bbx_ballot_index b),
               bbx_ballots := bbx_ballots b @ [ballot]\<rparr>, Ok ())))"

definition get_ballot :: "BallotBox \<Rightarrow> BallotId \<Rightarrow> CastBallot option" where
  "get_ballot b ballot_id = index_get (bbx_ballots b) (bbx_ballot_index b) ballot_id"

definition ballot_count :: "BallotBox \<Rightarrow> nat" where
  "ballot_count b = length (bbx_ballots b)"

definition ballots_for_election :: "BallotBox \<Rightarrow> ElectionId \<Rightarrow> CastBallot list" where
  "ballots_for_election b election_id = filter (\<lambda>c. cb_election_id c = election_id) (bbx_ballots b)"

definition contains_ballot :: "BallotBox \<Rightarrow> BallotId \<Rightarrow> bool" where
  "contains_ballot b ballot_id = hm_contains_key (bbx_ballot_index b) ballot_id"

definition BallotBuilder_new :: "ElectionId \<Rightarrow> BallotType \<Rightarrow> BallotBuilder" where
  "BallotBuilder_new election_id ballot_type =
     \<lparr>bb_election_id = election_id, bb_ballot_type = ballot_type, bb_choices = []\<rparr>"

definition bb_add_choice :: "string \<Rightarrow> BallotBuilder \<Rightarrow> BallotBuilder" where
  "bb_add_choice candidate_id b = b\<lparr>bb_choices := bb_choices b @ [BallotChoice_new candidate_id]\<rparr>"

definition bb_add_ranked_choice :: "string \<Rightarrow> u32 \<Rightarrow> BallotBuilder \<Rightarrow> BallotBuilder" where
  "bb_add_ranked_choice candidate_id rank b =
     b\<lparr>bb_choices := bb_choices b @ [BallotChoice_with_rank candidate_id rank]\<rparr>"

definition bb_add_write_in :: "string \<Rightarrow> BallotBuilder \<Rightarrow> BallotBuilder" where
  "bb_add_write_in name b = b\<lparr>bb_choices := bb_choices b @ [BallotChoice_write_in name]\<rparr>"

text \<open>\<open>for choice in choices { ballot.add_choice(choice)?; }\<close>\<close>

fun add_choices :: "Ballot \<Rightarrow> BallotChoice list \<Rightarrow> Ballot outcome" where
  "add_choices b [] = Ok b"
| "add_choices b (c # cs) = (case add_choice b c of (b', r) \<Rightarrow> rbind r (\<lambda>_. add_choices b' cs))"

definition bb_build :: "BallotId \<Rightarrow> Timestamp \<Rightarrow> BallotBuilder \<Rightarrow> Ballot outcome" where
  "bb_build generated now b =
     rbind (add_choices (Ballot_new generated now (bb_election_id b) (bb_ballot_type b)) (bb_choices b)) (\<lambda>ballot.
     rbind (Ballot_validate ballot) (\<lambda>_. Ok ballot))"

section \<open>Facts\<close>

text \<open>The rules of a ballot type.\<close>

fun choices_allowed :: "BallotType \<Rightarrow> BallotChoice list \<Rightarrow> bool" where
  "choices_allowed SingleChoice cs \<longleftrightarrow> length cs = 1"
| "choices_allowed (MultipleChoice mx) cs \<longleftrightarrow> cs \<noteq> [] \<and> length cs \<le> mx"
| "choices_allowed (RankedChoice mx) cs \<longleftrightarrow>
     cs \<noteq> [] \<and> length cs \<le> mx \<and> (\<forall>i < length cs. \<exists>r. bch_rank (cs ! i) = Some r \<and> unat r = i + 1)"
| "choices_allowed Approval cs \<longleftrightarrow> cs \<noteq> []"
| "choices_allowed WriteIn cs \<longleftrightarrow> cs \<noteq> []"

lemma check_rank_Ok: "check_rank (i, c) = Ok () \<longleftrightarrow> (\<exists>r. bch_rank c = Some r \<and> unat r = i + 1)"
  by (auto simp: check_rank_def split: option.splits)

lemma set_enumerate_0: "set (enumerate 0 cs) = {(i, cs ! i) | i. i < length cs}"
proof -
  have "i < length cs \<Longrightarrow> \<exists>j. i = [0..<length cs] ! j \<and> cs ! i = cs ! j \<and> j < length cs" for i
    by (rule exI [where x = i]) simp
  then show ?thesis by (auto simp: enumerate_eq_zip set_zip)
qed

lemma for_each_check_rank:
  "for_each check_rank (enumerate 0 cs) = Ok () \<longleftrightarrow>
     (\<forall>i < length cs. \<exists>r. bch_rank (cs ! i) = Some r \<and> unat r = i + 1)"
  unfolding for_each_eq_Ok set_enumerate_0 using check_rank_Ok by blast

lemma Ballot_validate_Ok: "Ballot_validate b = Ok () \<longleftrightarrow> choices_allowed (bal_ballot_type b) (bal_choices b)"
  by (cases "bal_ballot_type b") (auto simp: Ballot_validate_def Let_def for_each_check_rank)

text \<open>How many choices \<open>add_choice\<close> lets in.\<close>

fun room :: "BallotType \<Rightarrow> nat \<Rightarrow> bool" where
  "room SingleChoice n \<longleftrightarrow> n \<le> 1"
| "room (MultipleChoice mx) n \<longleftrightarrow> n \<le> mx"
| "room (RankedChoice mx) n \<longleftrightarrow> n \<le> mx"
| "room _ n \<longleftrightarrow> True"

lemma add_choice_Ok:
  "add_choice b c = (b', Ok ()) \<longleftrightarrow>
     room (bal_ballot_type b) (length (bal_choices b) + 1) \<and> b' = b\<lparr>bal_choices := bal_choices b @ [c]\<rparr>"
  by (cases "bal_ballot_type b") (auto simp: add_choice_def add_choice_check_def Suc_le_eq)

lemma add_choice_not_Ok: "add_choice b c = (b', r) \<Longrightarrow> r \<noteq> Ok () \<Longrightarrow> \<not> room (bal_ballot_type b) (length (bal_choices b) + 1)"
  by (metis add_choice_Ok prod.inject)

lemma room_mono: "room ty n \<Longrightarrow> m \<le> n \<Longrightarrow> room ty m"
  by (cases ty) auto

lemma add_choices_Ok:
  "add_choices b cs = Ok b' \<longleftrightarrow>
     (cs \<noteq> [] \<longrightarrow> room (bal_ballot_type b) (length (bal_choices b) + length cs)) \<and>
     b' = b\<lparr>bal_choices := bal_choices b @ cs\<rparr>"
proof (induction cs arbitrary: b)
  case (Cons c cs)
  obtain b1 r where r: "add_choice b c = (b1, r)" by (cases "add_choice b c")
  show ?case
  proof (cases "r = Ok ()")
    case True
    with r have b1: "b1 = b\<lparr>bal_choices := bal_choices b @ [c]\<rparr>" "room (bal_ballot_type b) (length (bal_choices b) + 1)"
      by (simp_all add: add_choice_Ok)
    with Cons.IH [of b1] r True show ?thesis by (cases cs) auto
  next
    case False
    have "length (bal_choices b) + 1 \<le> length (bal_choices b) + length (c # cs)" by simp
    with add_choice_not_Ok [OF r False] room_mono
    have "\<not> room (bal_ballot_type b) (length (bal_choices b) + length (c # cs))" by blast
    with r False show ?thesis by (cases r) auto
  qed
qed auto

lemma choices_allowed_room: "choices_allowed ty cs \<Longrightarrow> room ty (length cs)"
  by (cases ty) auto

interpretation ballot_store: indexed_store bbx_ballots bbx_ballot_index cb_ballot_id add_ballot
  by unfold_locales (simp_all add: add_ballot_def Let_def)

lemma BallotId_hex_roundtrip: "hex_laws E \<Longrightarrow> BallotId_from_hex E (BallotId_to_hex E b) = Ok b"
  by (simp add: BallotId_from_hex_def BallotId_to_hex_def decode_hex_def hex_laws_def)

lemma cast_ballot_facts:
  assumes "signature_laws E" and "aead_laws E" and "ballot_codec_laws E" and "keypair_wf E kp"
    and "CastBallot_create E nonce randomness now ballot voter_id key kp = Ok c"
  shows "CastBallot_verify E c (cpk_to_common (kp_public kp)) = Ok () \<and>
    rbind (decrypt E (cb_encrypted_ballot c) key) (Ballot_deserialize E) = Ok ballot \<and>
    (\<exists>data. Ballot_serialize E ballot = Ok data \<and> verify_opening E (cb_ballot_commitment c) data randomness) \<and>
    cb_ballot_id c = bal_ballot_id ballot \<and> cb_election_id c = bal_election_id ballot \<and> cb_voter_id c = voter_id"
proof -
  obtain data enc sig where d: "Ballot_serialize E ballot = Ok data" "encrypt E nonce data key = Ok enc"
      "sign E (cast_compute_message E (bal_ballot_id ballot) (bal_election_id ballot) voter_id enc
         (cm_value (Commitment_new E data randomness))) kp = Ok sig"
    and c: "c = \<lparr>cb_ballot_id = bal_ballot_id ballot, cb_election_id = bal_election_id ballot,
                cb_voter_id = voter_id, cb_encrypted_ballot = enc,
                cb_ballot_commitment = cm_value (Commitment_new E data randomness),
                cb_voter_signature = csig_to_common sig, cb_cast_at = now, cb_transaction_id = None\<rparr>"
    using assms(5) unfolding CastBallot_create_def by (auto simp: outcome_simps Let_def)
  have "bincode_ballot E ballot = Ok data" using d(1) by (simp add: Ballot_serialize_def split: result.splits)
  with assms(3) have "Ballot_deserialize E data = Ok ballot"
    by (simp add: ballot_codec_laws_def Ballot_deserialize_def)
  moreover have "verify E (cast_compute_message E (bal_ballot_id ballot) (bal_election_id ballot) voter_id enc
         (cm_value (Commitment_new E data randomness))) sig (kp_public kp) = Ok ()"
    using assms(1,4) d(3) by (intro ed25519.check_make) simp_all
  moreover have "verify_opening E (cm_value (Commitment_new E data randomness)) data randomness"
    by (simp add: verify_opening_def Commitment_new_def)
  ultimately show ?thesis
    using d plain_box.unseal_seal [OF assms(2) d(2)] by (simp add: c CastBallot_verify_def Let_def)
qed

section \<open>Properties\<close>

text \<open>
  The builder makes exactly the ballots the rules of their type allow: \<open>build\<close> succeeds if and
  only if the choices collected obey the rule of the ballot type (one choice; at most so many; ranks
  1, 2, 3 and so on in order; at least one), and the ballot carries those choices in that order.
\<close>

theorem ballot_build_iff:
  "bb_build generated now b = Ok ballot \<longleftrightarrow>
     choices_allowed (bb_ballot_type b) (bb_choices b) \<and>
     ballot = (Ballot_new generated now (bb_election_id b) (bb_ballot_type b))\<lparr>bal_choices := bb_choices b\<rparr>"
proof -
  have "cs \<noteq> [] \<and> room ty (length cs)" if "choices_allowed ty cs" for ty cs
    using that choices_allowed_room by (cases ty) auto
  then show ?thesis
    by (auto simp: bb_build_def outcome_simps add_choices_Ok Ballot_validate_Ok Ballot_new_def)
qed

text \<open>
  C10: A cast ballot keeps what the voter chose: what \<open>CastBallot::create\<close> produces passes
  \<open>verify\<close> under the voter's public key, the holder of the election key gets the very ballot back
  by decryption and decoding, and the commitment opens to the encoded ballot.
\<close>

theorem cast_ballot_roundtrip:
  assumes "signature_laws E" and "aead_laws E" and "ballot_codec_laws E" and "keypair_wf E kp"
    and "CastBallot_create E nonce randomness now ballot voter_id key kp = Ok c"
  shows "CastBallot_verify E c (cpk_to_common (kp_public kp)) = Ok () \<and>
    rbind (decrypt E (cb_encrypted_ballot c) key) (Ballot_deserialize E) = Ok ballot \<and>
    (\<exists>data. Ballot_serialize E ballot = Ok data \<and> verify_opening E (cb_ballot_commitment c) data randomness) \<and>
    cb_ballot_id c = bal_ballot_id ballot \<and> cb_election_id c = bal_election_id ballot \<and> cb_voter_id c = voter_id"
  using assms by (rule cast_ballot_facts)

text \<open>A ballot, and a codec that knows it, to try the theorems on.\<close>

definition sample_ballot :: Ballot where
  "sample_ballot =
     (Ballot_new (BallotId (bytes_fill 3)) 100 (ElectionId (bytes_fill 1)) SingleChoice)
       \<lparr>bal_choices := [BallotChoice_new ''alice'']\<rparr>"

definition sample_voting :: voting_externals where
  "sample_voting = crypto_externals.extend sample_crypto
     (voting_externals.fields
       (\<lambda>b. if b = sample_ballot then Ok [42] else Err ''unknown'')
       (\<lambda>bs. if bs = [42] then Ok sample_ballot else Err ''unknown''))"

lemma sample_voting_laws [simp]:
  "signature_laws sample_voting" "aead_laws sample_voting" "ballot_codec_laws sample_voting"
  "keypair_wf sample_voting (sample_keypair b)"
  by (simp_all add: signature_laws_def aead_laws_def ballot_codec_laws_def keypair_wf_def sample_voting_def
      sample_crypto_def voting_externals.defs crypto_externals.defs sample_keypair_def KeyPair_generate_def)

definition sample_cast :: "CastBallot outcome" where
  "sample_cast = CastBallot_create sample_voting (bytes_fill 4) [8, 9] 150 sample_ballot (VoterId (bytes_fill 5))
     (EncryptionKey (bytes_fill 6)) (sample_keypair 5)"

lemma sample_cast_Ok: "sample_cast = Ok (ok_value sample_cast)"
  by (simp add: sample_cast_def CastBallot_create_def Ballot_serialize_def encrypt_def sign_def Let_def
      sample_voting_def sample_crypto_def voting_externals.defs crypto_externals.defs)

theorem cast_ballot_roundtrip_witness:
  "CastBallot_verify sample_voting (ok_value sample_cast) (cpk_to_common (kp_public (sample_keypair 5))) = Ok () \<and>
   rbind (decrypt sample_voting (cb_encrypted_ballot (ok_value sample_cast)) (EncryptionKey (bytes_fill 6)))
     (Ballot_deserialize sample_voting) = Ok sample_ballot"
  using cast_ballot_roundtrip [of sample_voting "sample_keypair 5" "bytes_fill 4" "[8, 9]" 150 sample_ballot
      "VoterId (bytes_fill 5)" "EncryptionKey (bytes_fill 6)" "ok_value sample_cast"] sample_cast_Ok
  by (simp add: sample_cast_def)

end
