(* ===== verification/Eligibility.thy ===== *)
theory Eligibility
  imports Ballot
begin

text \<open>
  \<open>voting/src/eligibility.rs\<close>: the eligibility checker and its requirements, eligibility proofs, the
  eligibility registry and the tracker of provisional ballots. Constructors of \<open>EligibilityStatus\<close>
  and \<open>ProvisionalStatus\<close> carry a prefix, since other types have constructors of the same name.
\<close>

section \<open>Data\<close>

datatype EligibilityStatus =
    StEligible | StNotRegistered | StNotEligible | StAlreadyVoted | StCredentialsExpired | StNoCredentials
  | StWrongJurisdiction | StAgeVerificationRequired | StCitizenshipRequired | StProvisionalOnly

record EligibilityRequirements =
  rq_require_registration :: bool
  rq_require_jurisdiction_match :: bool
  rq_jurisdiction :: "string option"
  rq_require_age_verification :: bool
  rq_minimum_age :: "u32 option"
  rq_require_citizenship :: bool
  rq_require_id_verification :: bool
  rq_allow_provisional :: bool

record EligibilityProof =
  ep_voter_id :: VoterId
  ep_election_id :: ElectionId
  ep_proof_commitment :: "u8 list"
  ep_schnorr_proof :: SchnorrProof
  ep_proof_signature :: Signature
  ep_issued_at :: Timestamp

record EligibilityChecker =
  ec_election_id :: ElectionId
  ec_requirements :: EligibilityRequirements
  ec_eligible_voters :: "VoterId fset"
  ec_verified_proofs :: "(VoterId, EligibilityProof) hashmap"

record EligibilityRecord =
  erc_voter_id :: VoterId
  erc_election_id :: ElectionId
  erc_jurisdiction :: string
  erc_registered_at :: Timestamp
  erc_status :: EligibilityStatus

record EligibilityRegistry =
  ery_election_id :: ElectionId
  ery_eligible_voters :: "(VoterId, EligibilityRecord) hashmap"

datatype ProvisionalStatus = PvPending | PvApproved | PvRejected string

record ProvisionalVote =
  pv_voter_id :: VoterId
  pv_ballot_id :: BallotId
  pv_election_id :: ElectionId
  pv_cast_at :: Timestamp
  pv_status :: ProvisionalStatus
  pv_reason :: string

record ProvisionalBallotTracker =
  pbt_provisional_votes :: "(VoterId, ProvisionalVote) hashmap"

section \<open>Requirements\<close>

definition EligibilityRequirements_default :: EligibilityRequirements where
  "EligibilityRequirements_default =
     \<lparr>rq_require_registration = True, rq_require_jurisdiction_match = True, rq_jurisdiction = None,
      rq_require_age_verification = False, rq_minimum_age = Some 18, rq_require_citizenship = True,
      rq_require_id_verification = True, rq_allow_provisional = False\<rparr>"

definition with_jurisdiction :: "string \<Rightarrow> EligibilityRequirements \<Rightarrow> EligibilityRequirements" where
  "with_jurisdiction jurisdiction r = r\<lparr>rq_jurisdiction := Some jurisdiction\<rparr>"

definition with_minimum_age :: "u32 \<Rightarrow> EligibilityRequirements \<Rightarrow> EligibilityRequirements" where
  "with_minimum_age age r = r\<lparr>rq_minimum_age := Some age, rq_require_age_verification := True\<rparr>"

definition allow_provisional_voting :: "EligibilityRequirements \<Rightarrow> EligibilityRequirements" where
  "allow_provisional_voting r = r\<lparr>rq_allow_provisional := True\<rparr>"

fun show_status :: "EligibilityStatus \<Rightarrow> string" where
  "show_status StEligible = ''eligible''"
| "show_status StNotRegistered = ''not_registered''"
| "show_status StNotEligible = ''not_eligible''"
| "show_status StAlreadyVoted = ''already_voted''"
| "show_status StCredentialsExpired = ''credentials_expired''"
| "show_status StNoCredentials = ''no_credentials''"
| "show_status StWrongJurisdiction = ''wrong_jurisdiction''"
| "show_status StAgeVerificationRequired = ''age_verification_required''"
| "show_status StCitizenshipRequired = ''citizenship_required''"
| "show_status StProvisionalOnly = ''provisional_only''"

section \<open>Eligibility proofs\<close>

definition eligibility_compute_message ::
  "'z crypto_externals_scheme \<Rightarrow> VoterId \<Rightarrow> ElectionId \<Rightarrow> u8 list \<Rightarrow> Timestamp \<Rightarrow> u8 list" where
  "eligibility_compute_message E voter_id election_id proof_commitment issued_at =
     bytes_list (hash_blake2b_multiple E
       [bytes_list (voter_id_bytes voter_id), bytes_list (election_id_bytes election_id), proof_commitment,
        to_le_bytes issued_at])"

text \<open>\<open>issued_at\<close>, \<open>randomness\<close> and \<open>challenge\<close> are what the clock and the generators yield.\<close>

definition EligibilityProof_generate ::
  "'z crypto_externals_scheme \<Rightarrow> Timestamp \<Rightarrow> u8 list \<Rightarrow> u8 list \<Rightarrow> VoterId \<Rightarrow> ElectionId \<Rightarrow> KeyPair \<Rightarrow>
   EligibilityProof outcome" where
  "EligibilityProof_generate E issued_at randomness challenge voter_id election_id voter_keypair =
     (let commitment = Commitment_new E (bytes_list (voter_id_bytes voter_id)) randomness;
          proof_commitment = cm_value commitment;
          response = bytes_list (hash_blake2b_multiple E [randomness, challenge]);
          schnorr_proof = \<lparr>sp_challenge = challenge, sp_response = response\<rparr>;
          message = eligibility_compute_message E voter_id election_id proof_commitment issued_at
      in rbind (sign E message voter_keypair) (\<lambda>proof_signature.
           Ok \<lparr>ep_voter_id = voter_id, ep_election_id = election_id, ep_proof_commitment = proof_commitment,
               ep_schnorr_proof = schnorr_proof, ep_proof_signature = csig_to_common proof_signature,
               ep_issued_at = issued_at\<rparr>))"

definition EligibilityProof_verify :: "'z crypto_externals_scheme \<Rightarrow> EligibilityProof \<Rightarrow> PublicKey \<Rightarrow> unit outcome" where
  "EligibilityProof_verify E p voter_public_key =
     (let message = eligibility_compute_message E (ep_voter_id p) (ep_election_id p) (ep_proof_commitment p)
                      (ep_issued_at p)
      in rbind (verify E message (csig_from_common (ep_proof_signature p)) (cpk_from_common voter_public_key)) (\<lambda>_.
         rbind (SchnorrProof_verify (ep_schnorr_proof p) (ep_proof_commitment p)) (\<lambda>_. Ok ())))"

definition proof_is_expired :: "Timestamp \<Rightarrow> EligibilityProof \<Rightarrow> u64 \<Rightarrow> bool" where
  "proof_is_expired current_time p expiration_seconds \<longleftrightarrow> ep_issued_at p + expiration_seconds < current_time"

section \<open>The checker\<close>

definition EligibilityChecker_new :: "ElectionId \<Rightarrow> EligibilityRequirements \<Rightarrow> EligibilityChecker" where
  "EligibilityChecker_new election_id requirements =
     \<lparr>ec_election_id = election_id, ec_requirements = requirements, ec_eligible_voters = {||},
      ec_verified_proofs = fmempty\<rparr>"

definition add_eligible_voter :: "VoterId \<Rightarrow> EligibilityChecker \<Rightarrow> EligibilityChecker" where
  "add_eligible_voter voter_id c = c\<lparr>ec_eligible_voters := finsert voter_id (ec_eligible_voters c)\<rparr>"

definition add_eligible_voters :: "VoterId list \<Rightarrow> EligibilityChecker \<Rightarrow> EligibilityChecker" where
  "add_eligible_voters voter_ids c = fold add_eligible_voter voter_ids c"

definition check_eligibility :: "EligibilityChecker \<Rightarrow> Voter \<Rightarrow> Timestamp \<Rightarrow> EligibilityStatus outcome" where
  "check_eligibility c voter current_time =
     (if \<not> Voter_is_registered voter then Ok StNotRegistered
      else if Voter_has_voted voter (ec_election_id c) then Ok StAlreadyVoted
      else if vo_id voter |\<notin>| ec_eligible_voters c then Ok StNotEligible
      else case vo_credentials voter of
        None \<Rightarrow> Ok StNoCredentials
      | Some credentials \<Rightarrow>
          if \<not> credentials_is_valid credentials current_time then Ok StCredentialsExpired
          else if rq_require_jurisdiction_match (ec_requirements c) \<and>
            (case rq_jurisdiction (ec_requirements c) of
               None \<Rightarrow> False
             | Some required_jurisdiction \<Rightarrow> vc_jurisdiction credentials \<noteq> required_jurisdiction)
          then Ok StWrongJurisdiction
          else if rq_require_age_verification (ec_requirements c) then Ok StAgeVerificationRequired
          else Ok StEligible)"

definition verify_eligibility_proof ::
  "'z crypto_externals_scheme \<Rightarrow> EligibilityChecker \<Rightarrow> EligibilityProof \<Rightarrow> PublicKey \<Rightarrow>
   EligibilityChecker \<times> bool outcome" where
  "verify_eligibility_proof E c p voter_public_key =
     (if ep_election_id p \<noteq> ec_election_id c then (c, Ok False)
      else case EligibilityProof_verify E p voter_public_key of
        Err e \<Rightarrow> (c, Err e)
      | Panic m \<Rightarrow> (c, Panic m)
      | Ok _ \<Rightarrow>
          if ep_voter_id p |\<notin>| ec_eligible_voters c then (c, Ok False)
          else (c\<lparr>ec_verified_proofs := fmupd (ep_voter_id p) p (ec_verified_proofs c)\<rparr>, Ok True))"

definition checker_is_eligible :: "EligibilityChecker \<Rightarrow> VoterId \<Rightarrow> bool" where
  "checker_is_eligible c voter_id \<longleftrightarrow> voter_id |\<in>| ec_eligible_voters c"

definition has_verified_proof :: "EligibilityChecker \<Rightarrow> VoterId \<Rightarrow> bool" where
  "has_verified_proof c voter_id = hm_contains_key (ec_verified_proofs c) voter_id"

definition eligible_count :: "EligibilityChecker \<Rightarrow> nat" where
  "eligible_count c = fcard (ec_eligible_voters c)"

definition verified_count :: "EligibilityChecker \<Rightarrow> nat" where
  "verified_count c = hm_len (ec_verified_proofs c)"

section \<open>The eligibility registry\<close>

definition EligibilityRegistry_new :: "ElectionId \<Rightarrow> EligibilityRegistry" where
  "EligibilityRegistry_new election_id = \<lparr>ery_election_id = election_id, ery_eligible_voters = fmempty\<rparr>"

definition register_eligible_voter ::
  "Timestamp \<Rightarrow> EligibilityRegistry \<Rightarrow> VoterId \<Rightarrow> string \<Rightarrow> EligibilityRegistry \<times> unit outcome" where
  "register_eligible_voter now r voter_id jurisdiction =
     (if hm_contains_key (ery_eligible_voters r) voter_id
      then (r, Err (InvalidInput ''Voter already registered as eligible''))
      else (r\<lparr>ery_eligible_voters := fmupd voter_id
                \<lparr>erc_voter_id = voter_id, erc_election_id = ery_election_id r, erc_jurisdiction = jurisdiction,
                 erc_registered_at = now, erc_status = StEligible\<rparr> (ery_eligible_voters r)\<rparr>, Ok ()))"

definition revoke_eligibility :: "EligibilityRegistry \<Rightarrow> VoterId \<Rightarrow> EligibilityRegistry \<times> unit outcome" where
  "revoke_eligibility r voter_id =
     (case fmlookup (ery_eligible_voters r) voter_id of
        None \<Rightarrow> (r, Err (VoterNotEligible ''Voter not found''))
      | Some record \<Rightarrow>
          (r\<lparr>ery_eligible_voters := fmupd voter_id (record\<lparr>erc_status := StNotEligible\<rparr>) (ery_eligible_voters r)\<rparr>,
           Ok ()))"

definition eligibility_mark_voted :: "EligibilityRegistry \<Rightarrow> VoterId \<Rightarrow> EligibilityRegistry \<times> unit outcome" where
  "eligibility_mark_voted r voter_id =
     (case fmlookup (ery_eligible_voters r) voter_id of
        None \<Rightarrow> (r, Err (VoterNotEligible ''Voter not found''))
      | Some record \<Rightarrow>
          if erc_status record = StAlreadyVoted then (r, Err AlreadyVoted)
          else (r\<lparr>ery_eligible_voters := fmupd voter_id (record\<lparr>erc_status := StAlreadyVoted\<rparr>) (ery_eligible_voters r)\<rparr>,
                Ok ()))"

definition get_record :: "EligibilityRegistry \<Rightarrow> VoterId \<Rightarrow> EligibilityRecord option" where
  "get_record r voter_id = fmlookup (ery_eligible_voters r) voter_id"

definition eligibility_is_eligible :: "EligibilityRegistry \<Rightarrow> VoterId \<Rightarrow> bool" where
  "eligibility_is_eligible r voter_id =
     (case get_record r voter_id of None \<Rightarrow> False | Some rec \<Rightarrow> erc_status rec = StEligible)"

definition eligibility_has_voted :: "EligibilityRegistry \<Rightarrow> VoterId \<Rightarrow> bool" where
  "eligibility_has_voted r voter_id =
     (case get_record r voter_id of None \<Rightarrow> False | Some rec \<Rightarrow> erc_status rec = StAlreadyVoted)"

definition eligible_voters_by_jurisdiction :: "EligibilityRegistry \<Rightarrow> string \<Rightarrow> EligibilityRecord multiset" where
  "eligible_voters_by_jurisdiction r jurisdiction =
     filter_mset (\<lambda>rec. erc_jurisdiction rec = jurisdiction \<and> erc_status rec = StEligible)
       (hm_values (ery_eligible_voters r))"

definition total_eligible :: "EligibilityRegistry \<Rightarrow> nat" where
  "total_eligible r = size (filter_mset (\<lambda>rec. erc_status rec = StEligible) (hm_values (ery_eligible_voters r)))"

definition total_voted :: "EligibilityRegistry \<Rightarrow> nat" where
  "total_voted r = size (filter_mset (\<lambda>rec. erc_status rec = StAlreadyVoted) (hm_values (ery_eligible_voters r)))"

definition eligibility_turnout_percentage :: "EligibilityRegistry \<Rightarrow> f64" where
  "eligibility_turnout_percentage r =
     (let eligible = total_eligible r; voted = total_voted r
      in if eligible = 0 then Fin 0
         else f64_mul (f64_div (f64_of_nat voted) (f64_of_nat eligible)) (f64_lit 100))"

section \<open>Provisional ballots\<close>

definition ProvisionalBallotTracker_new :: ProvisionalBallotTracker where
  "ProvisionalBallotTracker_new = \<lparr>pbt_provisional_votes = fmempty\<rparr>"

definition add_provisional_vote ::
  "ProvisionalBallotTracker \<Rightarrow> ProvisionalVote \<Rightarrow> ProvisionalBallotTracker \<times> unit outcome" where
  "add_provisional_vote t vote =
     (if hm_contains_key (pbt_provisional_votes t) (pv_voter_id vote) then (t, Err AlreadyVoted)
      else (t\<lparr>pbt_provisional_votes := fmupd (pv_voter_id vote) vote (pbt_provisional_votes t)\<rparr>, Ok ()))"

text \<open>\<open>get_mut(voter_id).ok_or_else(..)?\<close> and the new status.\<close>

definition set_provisional_status ::
  "ProvisionalBallotTracker \<Rightarrow> VoterId \<Rightarrow> ProvisionalStatus \<Rightarrow> ProvisionalBallotTracker \<times> unit outcome" where
  "set_provisional_status t voter_id status =
     (case fmlookup (pbt_provisional_votes t) voter_id of
        None \<Rightarrow> (t, Err (VoterNotEligible ''Provisional vote not found''))
      | Some vote \<Rightarrow>
          (t\<lparr>pbt_provisional_votes := fmupd voter_id (vote\<lparr>pv_status := status\<rparr>) (pbt_provisional_votes t)\<rparr>, Ok ()))"

definition approve_provisional ::
  "ProvisionalBallotTracker \<Rightarrow> VoterId \<Rightarrow> ProvisionalBallotTracker \<times> unit outcome" where
  "approve_provisional t voter_id = set_provisional_status t voter_id PvApproved"

definition reject_provisional ::
  "ProvisionalBallotTracker \<Rightarrow> VoterId \<Rightarrow> string \<Rightarrow> ProvisionalBallotTracker \<times> unit outcome" where
  "reject_provisional t voter_id reason = set_provisional_status t voter_id (PvRejected reason)"

definition get_provisional_vote :: "ProvisionalBallotTracker \<Rightarrow> VoterId \<Rightarrow> ProvisionalVote option" where
  "get_provisional_vote t voter_id = fmlookup (pbt_provisional_votes t) voter_id"

definition count_status :: "(ProvisionalStatus \<Rightarrow> bool) \<Rightarrow> ProvisionalBallotTracker \<Rightarrow> nat" where
  "count_status P t = size (filter_mset (\<lambda>v. P (pv_status v)) (hm_values (pbt_provisional_votes t)))"

definition pending_count :: "ProvisionalBallotTracker \<Rightarrow> nat" where
  "pending_count t = count_status (\<lambda>s. s = PvPending) t"

definition approved_count :: "ProvisionalBallotTracker \<Rightarrow> nat" where
  "approved_count t = count_status (\<lambda>s. s = PvApproved) t"

definition rejected_count :: "ProvisionalBallotTracker \<Rightarrow> nat" where
  "rejected_count t = count_status (\<lambda>s. case s of PvRejected reason \<Rightarrow> True | _ \<Rightarrow> False) t"

section \<open>Facts\<close>

lemma add_eligible_voters_set:
  "ec_eligible_voters (add_eligible_voters is c) = fset_of_list is |\<union>| ec_eligible_voters c"
  unfolding add_eligible_voters_def by (induction "is" arbitrary: c) (auto simp: add_eligible_voter_def)

text \<open>The result of the Schnorr check is discarded: a proof with an empty response still verifies.\<close>

lemma eligibility_schnorr_ignored:
  "EligibilityProof_verify E (p\<lparr>ep_schnorr_proof := sp\<rparr>) pk = EligibilityProof_verify E p pk"
  by (simp add: EligibilityProof_verify_def SchnorrProof_verify_def Let_def)

lemma check_eligibility_no_error: "is_ok (check_eligibility c v t)"
  by (simp add: check_eligibility_def split: option.split)

subsection \<open>The registry\<close>

datatype EligibilityCall =
    RegisterEligible Timestamp VoterId string
  | RevokeEligibility VoterId
  | MarkEligibleVoted VoterId

fun eligibility_call :: "EligibilityRegistry \<Rightarrow> EligibilityCall \<Rightarrow> EligibilityRegistry \<times> unit outcome" where
  "eligibility_call r (RegisterEligible now i j) = register_eligible_voter now r i j"
| "eligibility_call r (RevokeEligibility i) = revoke_eligibility r i"
| "eligibility_call r (MarkEligibleVoted i) = eligibility_mark_voted r i"

fun marks :: "EligibilityCall \<Rightarrow> VoterId option" where
  "marks (MarkEligibleVoted i) = Some i"
| "marks _ = None"

fun revokes :: "EligibilityCall \<Rightarrow> VoterId option" where
  "revokes (RevokeEligibility i) = Some i"
| "revokes _ = None"

lemmas eligibility_call_defs =
  register_eligible_voter_def revoke_eligibility_def eligibility_mark_voted_def eligibility_has_voted_def get_record_def
  hm_contains_key_def

text \<open>A call that succeeds in marking finds the voter unmarked, and only a revocation removes the mark.\<close>

lemma eligibility_call_mark:
  assumes "eligibility_call r c = (r', res)" and "marks c = Some i" and "is_ok res"
  shows "\<not> eligibility_has_voted r i" "eligibility_has_voted r' i"
  using assms by (cases c; auto simp: eligibility_call_defs split: option.splits if_splits)+

lemma eligibility_call_keeps:
  assumes "eligibility_call r c = (r', res)" and "eligibility_has_voted r i" and "\<not> (revokes c = Some i \<and> is_ok res)"
  shows "eligibility_has_voted r' i"
  using assms by (cases c) (auto simp: eligibility_call_defs split: option.splits if_splits)

lemma marks_bound:
  "successes marks i (snd (run_calls eligibility_call r calls)) + (if eligibility_has_voted r i then 1 else 0) \<le>
     Suc (successes revokes i (snd (run_calls eligibility_call r calls)))"
proof (induction calls arbitrary: r)
  case (Cons c calls)
  obtain r' res where c: "eligibility_call r c = (r', res)" by (cases "eligibility_call r c")
  show ?case
  proof (cases "marks c = Some i \<and> is_ok res")
    case True
    then have "\<not> eligibility_has_voted r i" "eligibility_has_voted r' i" "revokes c = None"
      using eligibility_call_mark [OF c] by (cases c; auto)+
    with Cons.IH [of r'] True show ?thesis by (auto simp: c Let_def split: prod.splits)
  next
    case False
    then show ?thesis
      using Cons.IH [of r'] eligibility_call_keeps [OF c, of i]
      by (cases "revokes c = Some i \<and> is_ok res") (auto simp: c Let_def split: prod.splits if_splits)
  qed
qed simp

text \<open>A revocation forgets the vote: after it the voter is marked again.\<close>

lemma revoked_voter_marked_again:
  "map snd (snd (run_calls eligibility_call (EligibilityRegistry_new e)
     [RegisterEligible t i j, MarkEligibleVoted i, RevokeEligibility i, MarkEligibleVoted i])) =
   [Ok (), Ok (), Ok (), Ok ()]"
  by (simp add: eligibility_call_defs EligibilityRegistry_new_def)

text \<open>The turnout divides by the voters who have not voted: when all have, it is reported as zero.\<close>

lemma full_turnout_is_zero:
  assumes "\<And>i rec. get_record r i = Some rec \<Longrightarrow> erc_status rec = StAlreadyVoted"
  shows "eligibility_turnout_percentage r = Fin 0"
proof -
  have "total_eligible r = 0"
    using assms by (fastforce simp: total_eligible_def filter_mset_eq_mempty_iff in_hm_values get_record_def)
  then show ?thesis by (simp add: eligibility_turnout_percentage_def)
qed

subsection \<open>Provisional ballots\<close>

datatype ProvisionalCall =
    AddProvisional ProvisionalVote
  | ApproveProvisional VoterId
  | RejectProvisional VoterId string

fun provisional_call ::
  "ProvisionalBallotTracker \<Rightarrow> ProvisionalCall \<Rightarrow> ProvisionalBallotTracker \<times> unit outcome" where
  "provisional_call t (AddProvisional v) = add_provisional_vote t v"
| "provisional_call t (ApproveProvisional i) = approve_provisional t i"
| "provisional_call t (RejectProvisional i reason) = reject_provisional t i reason"

fun adds :: "ProvisionalCall \<Rightarrow> VoterId option" where
  "adds (AddProvisional v) = Some (pv_voter_id v)"
| "adds _ = None"

definition has_provisional :: "ProvisionalBallotTracker \<Rightarrow> VoterId \<Rightarrow> bool" where
  "has_provisional t i = hm_contains_key (pbt_provisional_votes t) i"

lemmas provisional_call_defs =
  add_provisional_vote_def approve_provisional_def reject_provisional_def set_provisional_status_def has_provisional_def

interpretation provisional: counted_once provisional_call adds has_provisional "\<lambda>t. hm_len (pbt_provisional_votes t)"
proof unfold_locales
  fix s c t x k assume "provisional_call s c = (t, Ok x)" "adds c = Some k"
  then show "\<not> has_provisional s k \<and> has_provisional t k"
    by (cases c) (auto simp: provisional_call_defs split: if_splits)
next
  fix s c t r k assume "provisional_call s c = (t, r)" "has_provisional s k"
  then show "has_provisional t k"
    by (cases c) (auto simp: provisional_call_defs split: if_splits option.splits)
next
  fix s c t r assume "provisional_call s c = (t, r)"
  then show "hm_len (pbt_provisional_votes t) = hm_len (pbt_provisional_votes s) + accepted adds [(c, r)]"
    by (cases c) (auto simp: provisional_call_defs hm_contains_key_def split: if_splits option.splits)
next
  fix s c t r k assume "provisional_call s c = (t, r)" "has_provisional t k"
  then show "has_provisional s k \<or> (adds c = Some k \<and> is_ok r)"
    by (cases c) (auto simp: provisional_call_defs hm_contains_key_def split: if_splits option.splits)
qed

lemma size_filter_partition:
  "size (filter_mset (\<lambda>v. f v = PvPending) M) + size (filter_mset (\<lambda>v. f v = PvApproved) M) +
   size (filter_mset (\<lambda>v. case f v of PvRejected reason \<Rightarrow> True | _ \<Rightarrow> False) M) = size M"
  by (induction M) (auto split: ProvisionalStatus.splits)

lemma provisional_partition: "pending_count t + approved_count t + rejected_count t = hm_len (pbt_provisional_votes t)"
  using size_filter_partition [of pv_status "hm_values (pbt_provisional_votes t)"]
  by (simp add: pending_count_def approved_count_def rejected_count_def count_status_def)

section \<open>Properties\<close>

text \<open>
  Who may vote. \<open>check_eligibility\<close> always gives a verdict, and the verdict is \<open>Eligible\<close> for
  exactly the voters who are registered, have not voted in the election, are on its list, hold
  credentials that are valid at the time and, where the election demands it, of its jurisdiction,
  provided the election does not ask for a verification of age (which the checker cannot perform).
\<close>

theorem check_eligibility_correct:
  "(\<exists>verdict. check_eligibility c voter now = Ok verdict) \<and>
   (check_eligibility c voter now = Ok StEligible \<longleftrightarrow>
     Voter_is_registered voter \<and> \<not> Voter_has_voted voter (ec_election_id c) \<and>
     vo_id voter |\<in>| ec_eligible_voters c \<and>
     (\<exists>credentials. vo_credentials voter = Some credentials \<and> credentials_is_valid credentials now \<and>
        (rq_require_jurisdiction_match (ec_requirements c) \<longrightarrow>
           rq_jurisdiction (ec_requirements c) \<in> {None, Some (vc_jurisdiction credentials)})) \<and>
     \<not> rq_require_age_verification (ec_requirements c))"
  by (auto simp: check_eligibility_def split: option.splits)

text \<open>
  How often the eligibility registry lets a voter be marked as having voted. In any sequence of
  calls (registrations, revocations, marks) on a new registry, the marks of a voter that succeed
  outnumber the revocations of that voter that succeed by at most one. So without a revocation a
  voter is marked once; each revocation, which overwrites the mark, allows one more.
\<close>

theorem eligibility_marks_bounded:
  "successes marks i (snd (run_calls eligibility_call (EligibilityRegistry_new e) calls)) \<le>
     1 + successes revokes i (snd (run_calls eligibility_call (EligibilityRegistry_new e) calls))"
  using marks_bound [of i "EligibilityRegistry_new e" calls] by simp

text \<open>
  A voter casts at most one provisional ballot, whatever is approved or rejected in between, and
  the pending, approved and rejected ballots together are the ballots accepted.
\<close>

theorem provisional_ballots_correct:
  "successes adds i (snd (run_calls provisional_call ProvisionalBallotTracker_new calls)) \<le> 1 \<and>
   pending_count (fst (run_calls provisional_call ProvisionalBallotTracker_new calls)) +
     approved_count (fst (run_calls provisional_call ProvisionalBallotTracker_new calls)) +
     rejected_count (fst (run_calls provisional_call ProvisionalBallotTracker_new calls)) =
   accepted adds (snd (run_calls provisional_call ProvisionalBallotTracker_new calls))"
  unfolding provisional_partition provisional.held_run
  using provisional.at_most_once by (simp add: ProvisionalBallotTracker_new_def)

text \<open>
  A proof of eligibility that a voter generates for an election passes the checker of that
  election exactly if the voter is on its list, and only then it is kept.
\<close>

theorem eligibility_proof_accepted:
  assumes "signature_laws E" and "keypair_wf E kp"
    and "EligibilityProof_generate E now randomness challenge i (ec_election_id c) kp = Ok p"
  shows "verify_eligibility_proof E c p (cpk_to_common (kp_public kp)) =
    (if checker_is_eligible c i then c\<lparr>ec_verified_proofs := fmupd i p (ec_verified_proofs c)\<rparr> else c,
     Ok (checker_is_eligible c i))"
proof -
  let ?cm = "cm_value (Commitment_new E (bytes_list (voter_id_bytes i)) randomness)"
  let ?msg = "eligibility_compute_message E i (ec_election_id c) ?cm now"
  obtain sig where sig: "sign E ?msg kp = Ok sig"
    and p: "ep_voter_id p = i" "ep_election_id p = ec_election_id c" "ep_proof_commitment p = ?cm"
      "ep_proof_signature p = csig_to_common sig" "ep_issued_at p = now"
    using assms(3) by (auto simp: EligibilityProof_generate_def Let_def outcome_simps)
  have "verify E ?msg sig (kp_public kp) = Ok ()"
    using assms(1,2) sig by (intro ed25519.check_make) simp_all
  then have "EligibilityProof_verify E p (cpk_to_common (kp_public kp)) = Ok ()"
    by (simp add: EligibilityProof_verify_def p SchnorrProof_verify_def)
  then show ?thesis by (simp add: verify_eligibility_proof_def checker_is_eligible_def p)
qed

definition sample_checker :: EligibilityChecker where
  "sample_checker = add_eligible_voter (vo_id (sample_voter 5))
     (EligibilityChecker_new (ElectionId (bytes_fill 1)) (with_jurisdiction ''CA'' EligibilityRequirements_default))"

definition sample_proof :: "EligibilityProof outcome" where
  "sample_proof = EligibilityProof_generate sample_voting 120 [1] [2] (vo_id (sample_voter 5))
     (ec_election_id sample_checker) (sample_keypair 5)"

theorem check_eligibility_correct_witness:
  "check_eligibility sample_checker (sample_voter 5) 50 = Ok StEligible"
  using check_eligibility_correct [of sample_checker "sample_voter 5" 50]
  by (simp add: sample_checker_def add_eligible_voter_def EligibilityChecker_new_def with_jurisdiction_def
      EligibilityRequirements_default_def sample_voter_def with_credentials_def Voter_new_def Let_def
      Voter_is_registered_def Voter_has_voted_def VoterCredentials_new_def credentials_is_valid_def)

lemma sample_proof_Ok: "sample_proof = Ok (ok_value sample_proof)"
  by (simp add: sample_proof_def EligibilityProof_generate_def sign_def Let_def)

theorem eligibility_proof_accepted_witness:
  "snd (verify_eligibility_proof sample_voting sample_checker (ok_value sample_proof)
     (cpk_to_common (kp_public (sample_keypair 5)))) = Ok True"
  using eligibility_proof_accepted [OF sample_voting_laws(1,4) sample_proof_Ok [unfolded sample_proof_def]]
  by (simp add: sample_proof_def [symmetric] checker_is_eligible_def)
     (simp add: sample_checker_def add_eligible_voter_def)

end
