(* ===== verification/Threshold.thy ===== *)
theory Threshold
  imports Signatures Registries Float64
begin

text \<open>
  \<open>crypto/src/threshold.rs\<close>: threshold schemes, partial and threshold signatures, the aggregator and
  the simplified key generation. The aggregator is a \<open>counted_once\<close> component. The order in which
  \<open>into_values\<close> walks its hash map is an argument of \<open>finalize\<close>.
\<close>

section \<open>Data\<close>

record ThresholdScheme =
  ts_total_participants :: nat
  ts_threshold :: nat
  ts_participants :: "CryptoPublicKey list"

record PartialSignature =
  ps_signer :: CryptoPublicKey
  ps_signature :: CryptoSignature
  ps_participant_index :: nat

record ThresholdSignature =
  tsg_scheme :: ThresholdScheme
  tsg_partial_signatures :: "PartialSignature list"
  tsg_message_hash :: "32 bytes"

record ThresholdAggregator =
  ta_scheme :: ThresholdScheme
  ta_message :: "u8 list"
  ta_message_hash :: "32 bytes"
  ta_signatures :: "(CryptoPublicKey, PartialSignature) hashmap"

record DistributedKeyGen =
  dkg_scheme :: ThresholdScheme
  dkg_shares :: "PrivateKey list"

section \<open>The scheme\<close>

definition ThresholdScheme_new :: "nat \<Rightarrow> CryptoPublicKey list \<Rightarrow> ThresholdScheme outcome" where
  "ThresholdScheme_new threshold participants =
     (let total_participants = length participants in
      if threshold = 0 then Err (CryptoError ''Threshold must be at least 1'')
      else if total_participants < threshold
      then Err (CryptoError (''Threshold '' @ show_nat threshold @ '' cannot exceed total participants ''
                             @ show_nat total_participants))
      else if total_participants = 0 then Err (CryptoError ''Must have at least one participant'')
      else if fcard (fset_of_list participants) \<noteq> length participants
      then Err (CryptoError ''Duplicate participants not allowed'')
      else Ok \<lparr>ts_total_participants = total_participants, ts_threshold = threshold,
               ts_participants = participants\<rparr>)"

definition is_participant :: "ThresholdScheme \<Rightarrow> CryptoPublicKey \<Rightarrow> bool" where
  "is_participant s public_key \<longleftrightarrow> public_key \<in> set (ts_participants s)"

text \<open>\<open>iter().position(..)\<close>\<close>

fun position :: "('a \<Rightarrow> bool) \<Rightarrow> 'a list \<Rightarrow> nat option" where
  "position P [] = None"
| "position P (x # xs) = (if P x then Some 0 else map_option Suc (position P xs))"

definition participant_index :: "ThresholdScheme \<Rightarrow> CryptoPublicKey \<Rightarrow> nat option" where
  "participant_index s public_key = position (\<lambda>pk. pk = public_key) (ts_participants s)"

definition scheme_is_threshold_met :: "ThresholdScheme \<Rightarrow> nat \<Rightarrow> bool" where
  "scheme_is_threshold_met s signature_count \<longleftrightarrow> ts_threshold s \<le> signature_count"

definition threshold_fraction :: "ThresholdScheme \<Rightarrow> f64" where
  "threshold_fraction s = f64_div (f64_of_nat (ts_threshold s)) (f64_of_nat (ts_total_participants s))"

section \<open>Threshold signatures\<close>

definition PartialSignature_verify :: "'z crypto_externals_scheme \<Rightarrow> PartialSignature \<Rightarrow> u8 list \<Rightarrow> unit outcome" where
  "PartialSignature_verify E p message = verify E message (ps_signature p) (ps_signer p)"

definition ThresholdSignature_new :: "ThresholdScheme \<Rightarrow> 32 bytes \<Rightarrow> ThresholdSignature" where
  "ThresholdSignature_new s message_hash =
     \<lparr>tsg_scheme = s, tsg_partial_signatures = [], tsg_message_hash = message_hash\<rparr>"

definition tsg_is_complete :: "ThresholdSignature \<Rightarrow> bool" where
  "tsg_is_complete t = scheme_is_threshold_met (tsg_scheme t) (length (tsg_partial_signatures t))"

definition has_signed :: "ThresholdSignature \<Rightarrow> CryptoPublicKey \<Rightarrow> bool" where
  "has_signed t public_key \<longleftrightarrow> list_ex (\<lambda>ps. ps_signer ps = public_key) (tsg_partial_signatures t)"

definition add_partial_signature ::
  "'z crypto_externals_scheme \<Rightarrow> ThresholdSignature \<Rightarrow> PartialSignature \<Rightarrow> ThresholdSignature \<times> bool outcome" where
  "add_partial_signature E t partial_sig =
     (if \<not> is_participant (tsg_scheme t) (ps_signer partial_sig)
      then (t, Err (InvalidValidator ''Signer not in threshold scheme''))
      else if list_ex (\<lambda>ps. ps_signer ps = ps_signer partial_sig) (tsg_partial_signatures t)
      then (t, Err (CryptoError ''Duplicate signature from same participant''))
      else case PartialSignature_verify E partial_sig (bytes_list (tsg_message_hash t)) of
        Err e \<Rightarrow> (t, Err e)
      | Panic m \<Rightarrow> (t, Panic m)
      | Ok _ \<Rightarrow>
          (let t' = t\<lparr>tsg_partial_signatures := tsg_partial_signatures t @ [partial_sig]\<rparr>
           in (t', Ok (tsg_is_complete t'))))"

definition ThresholdSignature_verify :: "'z crypto_externals_scheme \<Rightarrow> ThresholdSignature \<Rightarrow> unit outcome" where
  "ThresholdSignature_verify E t =
     (if \<not> tsg_is_complete t then Err InsufficientValidators
      else for_each (\<lambda>ps. PartialSignature_verify E ps (bytes_list (tsg_message_hash t))) (tsg_partial_signatures t))"

definition tsg_signers :: "ThresholdSignature \<Rightarrow> CryptoPublicKey list" where
  "tsg_signers t = map ps_signer (tsg_partial_signatures t)"

section \<open>The aggregator\<close>

definition ThresholdAggregator_new ::
  "'z crypto_externals_scheme \<Rightarrow> ThresholdScheme \<Rightarrow> u8 list \<Rightarrow> ThresholdAggregator" where
  "ThresholdAggregator_new E s message =
     \<lparr>ta_scheme = s, ta_message = message, ta_message_hash = hash_blake2b E message, ta_signatures = fmempty\<rparr>"

definition ta_is_complete :: "ThresholdAggregator \<Rightarrow> bool" where
  "ta_is_complete a = scheme_is_threshold_met (ta_scheme a) (hm_len (ta_signatures a))"

definition ta_signature_count :: "ThresholdAggregator \<Rightarrow> nat" where
  "ta_signature_count a = hm_len (ta_signatures a)"

definition ta_add_signature ::
  "'z crypto_externals_scheme \<Rightarrow> ThresholdAggregator \<Rightarrow> CryptoPublicKey \<Rightarrow> CryptoSignature \<Rightarrow>
   ThresholdAggregator \<times> bool outcome" where
  "ta_add_signature E a signer signature =
     (case participant_index (ta_scheme a) signer of
        None \<Rightarrow> (a, Err (InvalidValidator ''Signer not in threshold scheme''))
      | Some index \<Rightarrow>
          if hm_contains_key (ta_signatures a) signer
          then (a, Err (CryptoError ''Duplicate signature from participant''))
          else case verify E (bytes_list (ta_message_hash a)) signature signer of
            Err e \<Rightarrow> (a, Err e)
          | Panic m \<Rightarrow> (a, Panic m)
          | Ok _ \<Rightarrow>
              (let partial_sig = \<lparr>ps_signer = signer, ps_signature = signature,
                                  ps_participant_index = index\<rparr>;
                   a' = a\<lparr>ta_signatures := fmupd signer partial_sig (ta_signatures a)\<rparr>
               in (a', Ok (ta_is_complete a'))))"

text \<open>\<open>values\<close> is what \<open>signatures.into_values()\<close> yields.\<close>

definition ta_finalize :: "PartialSignature list \<Rightarrow> ThresholdAggregator \<Rightarrow> ThresholdSignature outcome" where
  "ta_finalize values a =
     (if \<not> ta_is_complete a then Err InsufficientValidators
      else Ok ((ThresholdSignature_new (ta_scheme a) (ta_message_hash a))\<lparr>tsg_partial_signatures := values\<rparr>))"

definition ta_progress :: "ThresholdAggregator \<Rightarrow> nat \<times> nat" where
  "ta_progress a = (ta_signature_count a, ts_threshold (ta_scheme a))"

section \<open>Key generation\<close>

text \<open>One seed per participant is what the random generator yields.\<close>

definition DistributedKeyGen_generate ::
  "'z crypto_externals_scheme \<Rightarrow> 32 bytes list \<Rightarrow> nat \<Rightarrow> DistributedKeyGen outcome" where
  "DistributedKeyGen_generate E seeds threshold =
     (let total_participants = length seeds in
      if total_participants < threshold then Err (CryptoError ''Threshold exceeds total participants'')
      else let keypairs = map (KeyPair_generate E) seeds;
               shares = map kp_private keypairs;
               participants = map kp_public keypairs
           in rbind (ThresholdScheme_new threshold participants) (\<lambda>s.
                Ok \<lparr>dkg_scheme = s, dkg_shares = shares\<rparr>))"

definition get_share :: "DistributedKeyGen \<Rightarrow> nat \<Rightarrow> PrivateKey option" where
  "get_share d index = vec_get (dkg_shares d) index"

section \<open>Facts\<close>

lemma position_Some: "position P xs = Some i \<Longrightarrow> i < length xs \<and> P (xs ! i)"
  by (induction xs arbitrary: i) (auto split: if_splits)

lemma position_None [simp]: "position P xs = None \<longleftrightarrow> (\<forall>x \<in> set xs. \<not> P x)"
  by (induction xs) auto

lemma participant_index_iff: "participant_index s pk \<noteq> None \<longleftrightarrow> is_participant s pk"
  by (auto simp: participant_index_def is_participant_def)

lemma ThresholdScheme_new_Ok:
  "ThresholdScheme_new t ps = Ok s \<longleftrightarrow>
     1 \<le> t \<and> t \<le> length ps \<and> distinct ps \<and>
     s = \<lparr>ts_total_participants = length ps, ts_threshold = t, ts_participants = ps\<rparr>"
  by (auto simp: ThresholdScheme_new_def Let_def fcard.rep_eq fset_of_list.rep_eq card_distinct distinct_card)

definition agg_call :: "'z crypto_externals_scheme \<Rightarrow> ThresholdAggregator \<Rightarrow> CryptoPublicKey \<times> CryptoSignature \<Rightarrow>
   ThresholdAggregator \<times> bool outcome" where
  "agg_call E a = (\<lambda>(signer, signature). ta_add_signature E a signer signature)"

definition agg_key :: "CryptoPublicKey \<times> CryptoSignature \<Rightarrow> CryptoPublicKey option" where
  "agg_key c = Some (fst c)"

definition agg_has :: "ThresholdAggregator \<Rightarrow> CryptoPublicKey \<Rightarrow> bool" where
  "agg_has a pk = hm_contains_key (ta_signatures a) pk"

lemma agg_call_cases:
  assumes "agg_call E a (pk, s) = (a', r)"
  obtains (added) i where "participant_index (ta_scheme a) pk = Some i" "\<not> agg_has a pk"
      "verify E (bytes_list (ta_message_hash a)) s pk = Ok ()"
      "a' = a\<lparr>ta_signatures := fmupd pk \<lparr>ps_signer = pk, ps_signature = s, ps_participant_index = i\<rparr> (ta_signatures a)\<rparr>"
      "r = Ok (ta_is_complete a')"
    | (refused) "a' = a" "\<not> is_ok r"
  using assms
  by (auto simp: agg_call_def ta_add_signature_def agg_has_def Let_def split: option.splits if_splits result.splits)

interpretation aggregator: counted_once "agg_call E" agg_key agg_has ta_signature_count for E :: "'z crypto_externals_scheme"
proof unfold_locales
  fix s t x k and c :: "CryptoPublicKey \<times> CryptoSignature"
  assume "agg_call E s c = (t, Ok x)" "agg_key c = Some k"
  then show "\<not> agg_has s k \<and> agg_has t k"
    by (cases c) (auto simp: agg_has_def agg_key_def elim!: agg_call_cases)
next
  fix s t r k and c :: "CryptoPublicKey \<times> CryptoSignature"
  assume "agg_call E s c = (t, r)" "agg_has s k"
  then show "agg_has t k" by (cases c) (auto simp: agg_has_def elim!: agg_call_cases)
next
  fix s t r and c :: "CryptoPublicKey \<times> CryptoSignature"
  assume "agg_call E s c = (t, r)"
  then show "ta_signature_count t = ta_signature_count s + accepted agg_key [(c, r)]"
    by (cases c) (auto simp: ta_signature_count_def agg_has_def agg_key_def elim!: agg_call_cases)
next
  fix s t r k and c :: "CryptoPublicKey \<times> CryptoSignature"
  assume "agg_call E s c = (t, r)" "agg_has t k"
  then show "agg_has s k \<or> (agg_key c = Some k \<and> is_ok r)"
    by (cases c) (auto simp: agg_has_def agg_key_def elim!: agg_call_cases)
qed

text \<open>The invariant: every signature kept is filed under its signer, a participant, and verifies.\<close>

definition agg_wf :: "'z crypto_externals_scheme \<Rightarrow> ThresholdScheme \<Rightarrow> 32 bytes \<Rightarrow> ThresholdAggregator \<Rightarrow> bool" where
  "agg_wf E s h a \<longleftrightarrow>
     ta_scheme a = s \<and> ta_message_hash a = h \<and>
     (\<forall>pk p. fmlookup (ta_signatures a) pk = Some p \<longrightarrow>
        ps_signer p = pk \<and> participant_index s pk = Some (ps_participant_index p) \<and>
        PartialSignature_verify E p (bytes_list h) = Ok ())"

lemma agg_call_wf: "agg_wf E s h a \<Longrightarrow> agg_call E a (pk, x) = (a', r) \<Longrightarrow> agg_wf E s h a'"
  by (erule agg_call_cases) (auto simp: agg_wf_def PartialSignature_verify_def)

lemma agg_run_wf: "agg_wf E s h a \<Longrightarrow> agg_wf E s h (fst (run_calls (agg_call E) a cs))"
proof (induction cs arbitrary: a)
  case (Cons c cs)
  obtain pk x a' r where c: "c = (pk, x)" "agg_call E a (pk, x) = (a', r)" by (cases c; cases "agg_call E a c") auto
  from Cons.IH [OF agg_call_wf [OF Cons.prems c(2)]] show ?case by (auto simp: c Let_def split: prod.splits)
qed simp

lemma agg_values_signers:
  assumes "agg_wf E s h a"
  shows "image_mset ps_signer (hm_values (ta_signatures a)) = mset_set (fset (fmdom (ta_signatures a)))"
proof -
  have "image_mset (\<lambda>k. ps_signer (the (fmlookup (ta_signatures a) k))) (mset_set (fset (fmdom (ta_signatures a)))) =
        image_mset (\<lambda>k. k) (mset_set (fset (fmdom (ta_signatures a))))"
    using assms by (intro image_mset_cong) (auto simp: agg_wf_def fmlookup_dom_iff)
  then show ?thesis by (simp add: hm_values_def image_mset.compositionality comp_def)
qed

text \<open>
  \<open>ThresholdSignature::verify\<close> looks neither at the scheme nor for repetition: a signature that was
  not made by the aggregator can repeat one signer as often as the threshold asks.
\<close>

lemma repeated_signer_threshold_signature:
  assumes "signature_laws E" and "keypair_wf E kp" and "sign E (bytes_list h) kp = Ok s"
  shows "ThresholdSignature_verify E
    \<lparr>tsg_scheme = scheme,
     tsg_partial_signatures = replicate (ts_threshold scheme)
       \<lparr>ps_signer = kp_public kp, ps_signature = s, ps_participant_index = i\<rparr>,
     tsg_message_hash = h\<rparr> = Ok ()"
  using sign_verify [OF assms]
  by (simp add: ThresholdSignature_verify_def tsg_is_complete_def scheme_is_threshold_met_def outcome_simps
      PartialSignature_verify_def)

section \<open>Properties\<close>

text \<open>
  C31: A threshold signature is backed by enough participants. Whatever signatures are handed to an
  aggregator (valid or not, repeated or not, of participants or not), \<open>finalize\<close> succeeds exactly
  if the number accepted reaches the threshold, and the signature it yields verifies and is signed
  by at least as many participants as the threshold asks, all different and each at most once.
\<close>

theorem threshold_signature_backed:
  assumes "ThresholdScheme_new threshold participants = Ok scheme"
    and "run_calls (agg_call E) (ThresholdAggregator_new E scheme message) calls = (a, results)"
    and "mset values = hm_values (ta_signatures a)"
  shows "((\<exists>sig. ta_finalize values a = Ok sig) \<longleftrightarrow> threshold \<le> accepted agg_key results) \<and>
    (\<forall>sig. ta_finalize values a = Ok sig \<longrightarrow>
       ThresholdSignature_verify E sig = Ok () \<and> distinct (tsg_signers sig) \<and>
       set (tsg_signers sig) \<subseteq> set participants \<and> threshold \<le> length (tsg_signers sig))"
proof -
  have a: "a = fst (run_calls (agg_call E) (ThresholdAggregator_new E scheme message) calls)"
    "results = snd (run_calls (agg_call E) (ThresholdAggregator_new E scheme message) calls)"
    using assms(2) by simp_all
  have scheme: "ts_threshold scheme = threshold" "ts_participants scheme = participants"
    using assms(1) by (simp_all add: ThresholdScheme_new_Ok)
  have "agg_wf E scheme (hash_blake2b E message) (ThresholdAggregator_new E scheme message)"
    by (simp add: agg_wf_def ThresholdAggregator_new_def)
  then have wf: "agg_wf E scheme (hash_blake2b E message) a" unfolding a(1) by (rule agg_run_wf)
  have count: "hm_len (ta_signatures a) = accepted agg_key results"
    using aggregator.held_run [of E "ThresholdAggregator_new E scheme message" calls, folded a]
    by (simp add: ta_signature_count_def ThresholdAggregator_new_def)
  have len: "length values = hm_len (ta_signatures a)"
    using arg_cong [OF assms(3), of size] by simp
  have signers: "mset (map ps_signer values) = mset_set (fset (fmdom (ta_signatures a)))"
    using agg_values_signers [OF wf] assms(3) by simp
  have "set (map ps_signer values) = fset (fmdom (ta_signatures a))"
    using arg_cong [OF signers, of set_mset] by simp
  then have "card (set (map ps_signer values)) = length (map ps_signer values)"
    using arg_cong [OF signers, of size] by simp
  then have "distinct (map ps_signer values)" by (rule card_distinct)
  moreover have "set (map ps_signer values) \<subseteq> set participants"
    using wf arg_cong [OF signers, of set_mset] scheme(2) participant_index_iff [of scheme]
    by (fastforce simp: agg_wf_def fmlookup_dom_iff is_participant_def)
  moreover have "PartialSignature_verify E p (bytes_list (hash_blake2b E message)) = Ok ()" if "p \<in> set values" for p
    using that wf arg_cong [OF assms(3), of set_mset] by (auto simp: agg_wf_def in_hm_values)
  ultimately show ?thesis
    using wf len count
    by (auto simp: ta_finalize_def ta_is_complete_def scheme_is_threshold_met_def agg_wf_def scheme ThresholdSignature_new_def
        ThresholdSignature_verify_def tsg_is_complete_def tsg_signers_def outcome_simps)
qed

text \<open>Two of three participants sign, one of them twice.\<close>

definition sample_signer :: "u8 \<Rightarrow> KeyPair" where
  "sample_signer b = KeyPair_generate sample_crypto (bytes_fill b)"

definition sample_scheme :: ThresholdScheme where
  "sample_scheme = \<lparr>ts_total_participants = 3, ts_threshold = 2,
     ts_participants = map (\<lambda>b. kp_public (sample_signer b)) [1, 2, 3]\<rparr>"

definition sample_signature :: "u8 \<Rightarrow> CryptoSignature" where
  "sample_signature b = ok_value (sign sample_crypto (bytes_list (hash_blake2b sample_crypto [9])) (sample_signer b))"

definition sample_partial :: "u8 \<Rightarrow> nat \<Rightarrow> PartialSignature" where
  "sample_partial b i = \<lparr>ps_signer = kp_public (sample_signer b), ps_signature = sample_signature b, ps_participant_index = i\<rparr>"

lemma sample_signer_public: "kp_public (sample_signer a) = kp_public (sample_signer b) \<longleftrightarrow> a = b"
  by (simp add: sample_signer_def KeyPair_generate_def sample_crypto_def)

lemma sample_signature_verify:
  "verify sample_crypto (bytes_list (hash_blake2b sample_crypto [9])) (sample_signature b) (kp_public (sample_signer b)) = Ok ()"
  by (rule sign_verify [OF sample_signature_laws]) (simp_all add: sample_signer_def sample_signature_def sign_def)

lemma sample_scheme_new:
  "ThresholdScheme_new 2 (map (\<lambda>b. kp_public (sample_signer b)) [1, 2, 3]) = Ok sample_scheme"
  unfolding ThresholdScheme_new_Ok sample_scheme_def by (simp add: sample_signer_public)

lemma sample_run:
  "run_calls (agg_call sample_crypto) (ThresholdAggregator_new sample_crypto sample_scheme [9])
     (map (\<lambda>b. (kp_public (sample_signer b), sample_signature b)) [2, 2, 1]) =
   (\<lparr>ta_scheme = sample_scheme, ta_message = [9], ta_message_hash = hash_blake2b sample_crypto [9],
     ta_signatures = fmupd (kp_public (sample_signer 1)) (sample_partial 1 0)
       (fmupd (kp_public (sample_signer 2)) (sample_partial 2 1) fmempty)\<rparr>,
    [((kp_public (sample_signer 2), sample_signature 2), Ok False),
     ((kp_public (sample_signer 2), sample_signature 2), Err (CryptoError ''Duplicate signature from participant'')),
     ((kp_public (sample_signer 1), sample_signature 1), Ok True)])"
  by (simp add: agg_call_def ta_add_signature_def ThresholdAggregator_new_def participant_index_def sample_scheme_def
      sample_signer_public sample_signature_verify Let_def sample_partial_def ta_is_complete_def
      scheme_is_threshold_met_def)

theorem threshold_signature_backed_witness:
  "\<exists>a sig. fst (run_calls (agg_call sample_crypto) (ThresholdAggregator_new sample_crypto sample_scheme [9])
        (map (\<lambda>b. (kp_public (sample_signer b), sample_signature b)) [2, 2, 1])) = a \<and>
      ta_finalize [sample_partial 1 0, sample_partial 2 1] a = Ok sig \<and> ThresholdSignature_verify sample_crypto sig = Ok ()"
proof -
  obtain a results where run: "run_calls (agg_call sample_crypto) (ThresholdAggregator_new sample_crypto sample_scheme [9])
      (map (\<lambda>b. (kp_public (sample_signer b), sample_signature b)) [2, 2, 1]) = (a, results)"
    by (cases "run_calls (agg_call sample_crypto) (ThresholdAggregator_new sample_crypto sample_scheme [9])
      (map (\<lambda>b. (kp_public (sample_signer b), sample_signature b)) [2, 2, 1])") simp
  then have "mset [sample_partial 1 0, sample_partial 2 1] = hm_values (ta_signatures a)"
    and "2 \<le> accepted agg_key results"
    unfolding sample_run by (auto simp: hm_values_upd_new sample_signer_public agg_key_def)
  with threshold_signature_backed [OF sample_scheme_new run, of "[sample_partial 1 0, sample_partial 2 1]"] run
  show ?thesis by auto
qed

end
