(* ===== verification/Election.thy ===== *)
theory Election
  imports Common_Utils
begin

text \<open>
  \<open>voting/src/lib.rs\<close>: elections, candidates and the tally. \<open>max_by_key\<close> returns the last of
  several maximal elements, \<open>sort_by\<close> is stable. A string is the sequence of its UTF-8 bytes.
\<close>

section \<open>Data\<close>

record Candidate =
  cand_id :: string
  cand_name :: string
  cand_party :: "string option"
  cand_description :: "string option"
  cand_metadata :: "string option"

record ElectionConfig =
  cfg_allow_write_in :: bool
  cfg_require_registration :: bool
  cfg_ballot_secrecy :: bool
  cfg_receipt_free :: bool
  cfg_max_votes_per_voter :: u32
  cfg_ranked_choice :: bool
  cfg_min_voters :: "u64 option"
  cfg_max_voters :: "u64 option"

record Election =
  el_id :: ElectionId
  el_title :: string
  el_description :: string
  el_candidates :: "Candidate list"
  el_start_time :: Timestamp
  el_end_time :: Timestamp
  el_authority_key :: PublicKey
  el_config :: ElectionConfig

record CandidateTally =
  ct_candidate_id :: string
  ct_vote_count :: u64

record ElectionResults =
  er_election_id :: ElectionId
  er_total_votes :: u64
  er_candidate_tallies :: "CandidateTally list"
  er_tallied_at :: Timestamp
  er_is_final :: bool

section \<open>Operations\<close>

definition ElectionConfig_default :: ElectionConfig where
  "ElectionConfig_default =
     \<lparr>cfg_allow_write_in = False, cfg_require_registration = True, cfg_ballot_secrecy = True,
      cfg_receipt_free = True, cfg_max_votes_per_voter = 1, cfg_ranked_choice = False,
      cfg_min_voters = None, cfg_max_voters = None\<rparr>"

definition Election_new ::
  "ElectionId \<Rightarrow> string \<Rightarrow> string \<Rightarrow> Candidate list \<Rightarrow> Timestamp \<Rightarrow> Timestamp \<Rightarrow> PublicKey \<Rightarrow> Election" where
  "Election_new i title description candidates start_time end_time authority_key =
     \<lparr>el_id = i, el_title = title, el_description = description, el_candidates = candidates,
      el_start_time = start_time, el_end_time = end_time, el_authority_key = authority_key,
      el_config = ElectionConfig_default\<rparr>"

definition Election_is_active :: "Election \<Rightarrow> Timestamp \<Rightarrow> bool" where
  "Election_is_active e current_time \<longleftrightarrow> el_start_time e \<le> current_time \<and> current_time \<le> el_end_time e"

definition has_started :: "Election \<Rightarrow> Timestamp \<Rightarrow> bool" where
  "has_started e current_time \<longleftrightarrow> el_start_time e \<le> current_time"

definition has_ended :: "Election \<Rightarrow> Timestamp \<Rightarrow> bool" where
  "has_ended e current_time \<longleftrightarrow> el_end_time e < current_time"

definition get_candidate :: "Election \<Rightarrow> string \<Rightarrow> Candidate option" where
  "get_candidate e candidate_id = List.find (\<lambda>c. cand_id c = candidate_id) (el_candidates e)"

definition Election_validate :: "Election \<Rightarrow> unit outcome" where
  "Election_validate e =
     (if el_title e = [] then Err (InvalidInput ''Election title cannot be empty'')
      else if el_candidates e = [] then Err (InvalidInput ''Election must have at least one candidate'')
      else if el_end_time e \<le> el_start_time e
      then Err (InvalidInput ''Election end time must be after start time'')
      else Ok ())"

definition Candidate_new :: "string \<Rightarrow> string \<Rightarrow> Candidate" where
  "Candidate_new i name =
     \<lparr>cand_id = i, cand_name = name, cand_party = None, cand_description = None, cand_metadata = None\<rparr>"

definition Candidate_with_party :: "string \<Rightarrow> string \<Rightarrow> string \<Rightarrow> Candidate" where
  "Candidate_with_party i name party =
     \<lparr>cand_id = i, cand_name = name, cand_party = Some party, cand_description = None, cand_metadata = None\<rparr>"

definition ElectionResults_new :: "Timestamp \<Rightarrow> ElectionId \<Rightarrow> ElectionResults" where
  "ElectionResults_new now election_id =
     \<lparr>er_election_id = election_id, er_total_votes = 0, er_candidate_tallies = [], er_tallied_at = now,
      er_is_final = False\<rparr>"

text \<open>The tally found by \<open>iter_mut().find(..)\<close> is incremented, or a new one is pushed.\<close>

fun bump_tally :: "string \<Rightarrow> CandidateTally list \<Rightarrow> CandidateTally list" where
  "bump_tally c [] = [\<lparr>ct_candidate_id = c, ct_vote_count = 1\<rparr>]"
| "bump_tally c (t # ts) =
     (if ct_candidate_id t = c then t\<lparr>ct_vote_count := ct_vote_count t + 1\<rparr> # ts else t # bump_tally c ts)"

definition add_vote :: "string \<Rightarrow> ElectionResults \<Rightarrow> ElectionResults" where
  "add_vote candidate_id r =
     r\<lparr>er_total_votes := er_total_votes r + 1,
       er_candidate_tallies := bump_tally candidate_id (er_candidate_tallies r)\<rparr>"

text \<open>\<open>iter().max_by_key(f)\<close>\<close>

fun max_by_key :: "('a \<Rightarrow> 'b::linorder) \<Rightarrow> 'a list \<Rightarrow> 'a option" where
  "max_by_key f [] = None"
| "max_by_key f (x # xs) = Some (fold (\<lambda>y best. if f best \<le> f y then y else best) xs x)"

definition get_winner :: "ElectionResults \<Rightarrow> CandidateTally option" where
  "get_winner r = max_by_key ct_vote_count (er_candidate_tallies r)"

definition sort_by_votes :: "ElectionResults \<Rightarrow> ElectionResults" where
  "sort_by_votes r =
     r\<lparr>er_candidate_tallies := sort_key (\<lambda>t. - int (unat (ct_vote_count t))) (er_candidate_tallies r)\<rparr>"

section \<open>Facts\<close>

lemma phases_exclusive:
  "Election_is_active e t \<longleftrightarrow> has_started e t \<and> \<not> has_ended e t"
  by (auto simp: Election_is_active_def has_started_def has_ended_def)

lemma fold_max_by_key:
  fixes f :: "'a \<Rightarrow> 'b::linorder"
  shows "fold (\<lambda>y best. if f best \<le> f y then y else best) xs x \<in> insert x (set xs) \<and>
   (\<forall>y \<in> insert x (set xs). f y \<le> f (fold (\<lambda>y best. if f best \<le> f y then y else best) xs x))"
proof (induction xs arbitrary: x)
  case (Cons z xs)
  show ?case
  proof (cases "f x \<le> f z")
    case True
    with Cons.IH [of z] show ?thesis by (auto intro: order_trans [OF True])
  next
    case False
    then have "f z \<le> f x" by simp
    with Cons.IH [of x] False show ?thesis by (auto intro: order_trans [OF \<open>f z \<le> f x\<close>])
  qed
qed simp

lemma max_by_key_Some:
  assumes "max_by_key f xs = Some m"
  shows "m \<in> set xs \<and> (\<forall>x \<in> set xs. f x \<le> f m)"
proof (cases xs)
  case (Cons y ys)
  with assms fold_max_by_key [of f ys y] show ?thesis by simp
qed (use assms in simp)

lemma max_by_key_None [simp]: "max_by_key f xs = None \<longleftrightarrow> xs = []"
  by (cases xs) simp_all

text \<open>The count recorded for a candidate.\<close>

definition tally_of :: "CandidateTally list \<Rightarrow> string \<Rightarrow> u64" where
  "tally_of ts c =
     (case List.find (\<lambda>t. ct_candidate_id t = c) ts of None \<Rightarrow> 0 | Some t \<Rightarrow> ct_vote_count t)"

lemma tally_of_bump: "tally_of (bump_tally c ts) d = tally_of ts d + (if d = c then 1 else 0)"
  by (induction ts) (auto simp: tally_of_def)

lemma set_bump: "ct_candidate_id ` set (bump_tally c ts) = insert c (ct_candidate_id ` set ts)"
  by (induction ts) auto

lemma distinct_bump: "distinct (map ct_candidate_id ts) \<Longrightarrow> distinct (map ct_candidate_id (bump_tally c ts))"
proof (induction ts)
  case (Cons t ts)
  have "ct_candidate_id t \<notin> set (map ct_candidate_id (bump_tally c ts))"
    if "ct_candidate_id t \<noteq> c" using that Cons.prems set_bump [of c ts] by auto
  with Cons show ?case by auto
qed simp

lemma fold_add_vote:
  "er_total_votes (fold add_vote votes r) = er_total_votes r + of_nat (length votes) \<and>
   tally_of (er_candidate_tallies (fold add_vote votes r)) c =
     tally_of (er_candidate_tallies r) c + of_nat (count_list votes c) \<and>
   ct_candidate_id ` set (er_candidate_tallies (fold add_vote votes r)) =
     ct_candidate_id ` set (er_candidate_tallies r) \<union> set votes \<and>
   (distinct (map ct_candidate_id (er_candidate_tallies r)) \<longrightarrow>
    distinct (map ct_candidate_id (er_candidate_tallies (fold add_vote votes r))))"
proof (induction votes arbitrary: r)
  case (Cons v votes)
  have r: "er_total_votes (add_vote v r) = er_total_votes r + 1"
    "er_candidate_tallies (add_vote v r) = bump_tally v (er_candidate_tallies r)"
    by (simp_all add: add_vote_def)
  from Cons.IH [of "add_vote v r"] show ?case
    by (auto simp: r tally_of_bump set_bump distinct_bump algebra_simps)
qed simp

text \<open>Every entry of a tally with distinct candidates is the count recorded for its candidate.\<close>

lemma tally_of_member:
  "distinct (map ct_candidate_id ts) \<Longrightarrow> t \<in> set ts \<Longrightarrow> tally_of ts (ct_candidate_id t) = ct_vote_count t"
proof (induction ts)
  case (Cons u ts)
  then show ?case by (cases "t = u") (auto simp: tally_of_def)
qed simp

lemma tally_entry:
  assumes "length votes < 2 ^ 64"
    and "t \<in> set (er_candidate_tallies (fold add_vote votes (ElectionResults_new now e)))"
  shows "unat (ct_vote_count t) = count_list votes (ct_candidate_id t)"
proof -
  let ?r = "fold add_vote votes (ElectionResults_new now e)"
  have "distinct (map ct_candidate_id (er_candidate_tallies ?r))"
    using fold_add_vote [of votes "ElectionResults_new now e"] by (simp add: ElectionResults_new_def)
  then have "ct_vote_count t = tally_of (er_candidate_tallies ?r) (ct_candidate_id t)"
    using tally_of_member assms(2) by metis
  also have "\<dots> = of_nat (count_list votes (ct_candidate_id t))"
    using fold_add_vote [of votes "ElectionResults_new now e"] by (simp add: ElectionResults_new_def tally_of_def)
  finally show ?thesis
    using assms(1) count_le_length [of votes "ct_candidate_id t"] by (simp add: unat_of_nat)
qed

section \<open>Properties\<close>

text \<open>
  C6: The tally counts every vote once: after fewer than \<open>2 ^ 64\<close> votes were added to new results, the
  total is the number of votes, exactly the candidates that received a vote are listed, each once,
  and each with the number of its votes.
\<close>

theorem tally_correct:
  assumes "length votes < 2 ^ 64" and "r = fold add_vote votes (ElectionResults_new now e)"
  shows "unat (er_total_votes r) = length votes \<and>
         ct_candidate_id ` set (er_candidate_tallies r) = set votes \<and>
         distinct (map ct_candidate_id (er_candidate_tallies r)) \<and>
         (\<forall>t \<in> set (er_candidate_tallies r). unat (ct_vote_count t) = count_list votes (ct_candidate_id t))"
proof -
  have "er_total_votes r = of_nat (length votes)"
    "ct_candidate_id ` set (er_candidate_tallies r) = set votes"
    "distinct (map ct_candidate_id (er_candidate_tallies r))"
    using fold_add_vote [of votes "ElectionResults_new now e"]
    by (simp_all add: assms(2) ElectionResults_new_def)
  then show ?thesis
    using assms(1) tally_entry [OF assms(1)] by (simp add: assms(2) unat_of_nat)
qed

theorem tally_correct_witness:
  "unat (er_total_votes (fold add_vote [''a'', ''b'', ''a''] (ElectionResults_new 5 (ElectionId (bytes_fill 1))))) = 3"
  using tally_correct [of "[''a'', ''b'', ''a'']"
      "fold add_vote [''a'', ''b'', ''a''] (ElectionResults_new 5 (ElectionId (bytes_fill 1)))" 5
      "ElectionId (bytes_fill 1)"] by simp

text \<open>
  C9: The winner has the most votes: after at least one and fewer than \<open>2 ^ 64\<close> votes \<open>get_winner\<close>
  names a candidate who received at least as many votes as anyone, and sorting the tallies keeps
  them all and puts them in descending order.
\<close>

theorem winner_correct:
  assumes "votes \<noteq> []" and "length votes < 2 ^ 64"
    and "r = fold add_vote votes (ElectionResults_new now e)"
  shows "(\<exists>w. get_winner r = Some w \<and> ct_candidate_id w \<in> set votes \<and>
            (\<forall>c. count_list votes c \<le> count_list votes (ct_candidate_id w))) \<and>
         mset (er_candidate_tallies (sort_by_votes r)) = mset (er_candidate_tallies r) \<and>
         sorted_wrt (\<lambda>s t. ct_vote_count t \<le> ct_vote_count s) (er_candidate_tallies (sort_by_votes r))"
proof -
  have ids: "ct_candidate_id ` set (er_candidate_tallies r) = set votes"
    using fold_add_vote [of votes "ElectionResults_new now e"] by (simp add: assms(3) ElectionResults_new_def)
  with assms(1) obtain w where w: "get_winner r = Some w"
    by (cases "get_winner r") (auto simp: get_winner_def)
  then have member: "w \<in> set (er_candidate_tallies r)"
    and best: "\<And>t. t \<in> set (er_candidate_tallies r) \<Longrightarrow> ct_vote_count t \<le> ct_vote_count w"
    using max_by_key_Some [of ct_vote_count "er_candidate_tallies r" w] by (simp_all add: get_winner_def)
  have entry: "unat (ct_vote_count t) = count_list votes (ct_candidate_id t)"
    if "t \<in> set (er_candidate_tallies r)" for t
    using tally_entry [OF assms(2)] that by (simp add: assms(3))
  have "count_list votes c \<le> count_list votes (ct_candidate_id w)" for c
  proof (cases "c \<in> set votes")
    case True
    then obtain t where t: "t \<in> set (er_candidate_tallies r)" "ct_candidate_id t = c"
      unfolding ids [symmetric] by blast
    with best [OF t(1)] entry [OF t(1)] entry [OF member] show ?thesis by (simp add: word_le_nat_alt)
  qed simp
  moreover have "ct_candidate_id w \<in> set votes" using member ids by blast
  moreover have "sorted_wrt (\<lambda>s t. ct_vote_count t \<le> ct_vote_count s) (er_candidate_tallies (sort_by_votes r))"
  proof -
    have "sorted_wrt (\<lambda>s t. - int (unat (ct_vote_count s)) \<le> - int (unat (ct_vote_count t)))
            (er_candidate_tallies (sort_by_votes r))"
      using sorted_sort_key [of "\<lambda>t. - int (unat (ct_vote_count t))" "er_candidate_tallies r"]
      by (simp add: sort_by_votes_def sorted_wrt_map)
    then show ?thesis by (simp add: word_le_def)
  qed
  ultimately show ?thesis using w by (simp add: sort_by_votes_def)
qed

theorem winner_correct_witness:
  "\<exists>w. get_winner (fold add_vote [''a'', ''b'', ''a''] (ElectionResults_new 5 (ElectionId (bytes_fill 1)))) = Some w \<and>
       ct_candidate_id w \<in> set [''a'', ''b'', ''a''] \<and>
       count_list [''a'', ''b'', ''a''] ''a'' \<le> count_list [''a'', ''b'', ''a''] (ct_candidate_id w)"
proof -
  let ?votes = "[''a'', ''b'', ''a'']"
  have "?votes \<noteq> []" "length ?votes < 2 ^ 64" by simp_all
  from winner_correct [OF this refl, of 5 "ElectionId (bytes_fill 1)"] show ?thesis by blast
qed

end
