(* ===== verification/Vote_Casting.thy ===== *)
theory Vote_Casting
  imports Ballot Election
begin

text \<open>
  \<open>voting/src/vote_casting.rs\<close>: the vote caster, submissions and receipts, the voting session and
  the statistics. The caster is an interpretation of \<open>once_only\<close>, and the session a step relation.

  What a call reads from the clock and from the generators is the record \<open>Draws\<close>. The order in
  which a hash map is iterated is an argument, \<open>iteration\<close>.
\<close>

section \<open>Data\<close>

datatype ReceiptId = ReceiptId (receipt_id_bytes: "32 bytes")

record VoteRecord =
  vr_voter_id :: VoterId
  vr_cast_ballot :: CastBallot
  vr_cast_at :: Timestamp

record VoteSubmission =
  vs_voter_id :: VoterId
  vs_cast_ballot :: CastBallot
  vs_submission_signature :: Signature
  vs_submitted_at :: Timestamp

record VoteReceipt =
  vrc_receipt_id :: ReceiptId
  vrc_ballot_id :: BallotId
  vrc_election_id :: ElectionId
  vrc_voter_id :: VoterId
  vrc_cast_at :: Timestamp
  vrc_confirmation_code :: string

record VoteCaster =
  vca_election :: Election
  vca_votes_cast :: "(VoterId, VoteRecord) hashmap"
  vca_voter_registry :: "VoterId fset"

datatype SessionState = Started | BallotFilled | Submitted | Cancelled

record VotingSession =
  ses_election_id :: ElectionId
  ses_voter :: Voter
  ses_ballot :: "Ballot option"
  ses_state :: SessionState
  ses_started_at :: Timestamp

record VoteCastingStats =
  vst_total_votes :: nat
  vst_votes_per_hour :: "(u64, nat) hashmap"
  vst_average_casting_time_ms :: u64
  vst_peak_hour :: "u64 option"

record Draws =
  d_now :: Timestamp
  d_cast_now :: Timestamp
  d_submit_now :: Timestamp
  d_nonce :: "12 bytes"
  d_randomness :: "u8 list"
  d_receipt :: "32 bytes"

section \<open>Receipts and submissions\<close>

definition ReceiptId_to_hex :: "'z externals_scheme \<Rightarrow> ReceiptId \<Rightarrow> string" where
  "ReceiptId_to_hex E i = hex_encode E (bytes_list (receipt_id_bytes i))"

definition generate_confirmation_code :: "'z crypto_externals_scheme \<Rightarrow> ReceiptId \<Rightarrow> BallotId \<Rightarrow> string" where
  "generate_confirmation_code E receipt_id ballot_id =
     (let hash = hash_blake2b_multiple E
            [bytes_list (receipt_id_bytes receipt_id), bytes_list (ballot_id_bytes ballot_id)]
      in hex_encode E (take 8 (bytes_list hash)))"

definition VoteReceipt_new ::
  "'z crypto_externals_scheme \<Rightarrow> 32 bytes \<Rightarrow> BallotId \<Rightarrow> ElectionId \<Rightarrow> VoterId \<Rightarrow> Timestamp \<Rightarrow> VoteReceipt" where
  "VoteReceipt_new E generated ballot_id election_id voter_id cast_at =
     (let receipt_id = ReceiptId generated
      in \<lparr>vrc_receipt_id = receipt_id, vrc_ballot_id = ballot_id, vrc_election_id = election_id,
          vrc_voter_id = voter_id, vrc_cast_at = cast_at,
          vrc_confirmation_code = generate_confirmation_code E receipt_id ballot_id\<rparr>)"

definition verify_confirmation_code :: "'z crypto_externals_scheme \<Rightarrow> VoteReceipt \<Rightarrow> bool" where
  "verify_confirmation_code E r =
     constant_time_eq (str_bytes (vrc_confirmation_code r))
       (str_bytes (generate_confirmation_code E (vrc_receipt_id r) (vrc_ballot_id r)))"

definition submission_compute_message ::
  "'z crypto_externals_scheme \<Rightarrow> VoterId \<Rightarrow> CastBallot \<Rightarrow> Timestamp \<Rightarrow> u8 list" where
  "submission_compute_message E voter_id cast_ballot submitted_at =
     bytes_list (hash_blake2b_multiple E
       [bytes_list (voter_id_bytes voter_id), bytes_list (ballot_id_bytes (cb_ballot_id cast_ballot)),
        bytes_list (election_id_bytes (cb_election_id cast_ballot)), to_le_bytes submitted_at])"

definition VoteSubmission_create ::
  "'z crypto_externals_scheme \<Rightarrow> Timestamp \<Rightarrow> VoterId \<Rightarrow> CastBallot \<Rightarrow> KeyPair \<Rightarrow> VoteSubmission outcome" where
  "VoteSubmission_create E submitted_at voter_id cast_ballot voter_keypair =
     rbind (sign E (submission_compute_message E voter_id cast_ballot submitted_at) voter_keypair) (\<lambda>s.
       Ok \<lparr>vs_voter_id = voter_id, vs_cast_ballot = cast_ballot,
           vs_submission_signature = csig_to_common s, vs_submitted_at = submitted_at\<rparr>)"

definition VoteSubmission_verify :: "'z crypto_externals_scheme \<Rightarrow> VoteSubmission \<Rightarrow> PublicKey \<Rightarrow> unit outcome" where
  "VoteSubmission_verify E s voter_public_key =
     rbind (CastBallot_verify E (vs_cast_ballot s) voter_public_key) (\<lambda>_.
     rbind (verify E (submission_compute_message E (vs_voter_id s) (vs_cast_ballot s) (vs_submitted_at s))
              (csig_from_common (vs_submission_signature s)) (cpk_from_common voter_public_key)) (\<lambda>_.
       Ok ()))"

section \<open>The vote caster\<close>

definition VoteCaster_new :: "Election \<Rightarrow> VoteCaster" where
  "VoteCaster_new election =
     \<lparr>vca_election = election, vca_votes_cast = fmempty, vca_voter_registry = {||}\<rparr>"

definition caster_register_voter :: "VoteCaster \<Rightarrow> VoterId \<Rightarrow> VoteCaster" where
  "caster_register_voter c voter_id = c\<lparr>vca_voter_registry := finsert voter_id (vca_voter_registry c)\<rparr>"

definition cast_vote ::
  "'z voting_externals_scheme \<Rightarrow> Draws \<Rightarrow> VoteCaster \<Rightarrow> Voter \<Rightarrow> Ballot \<Rightarrow> KeyPair \<Rightarrow> EncryptionKey \<Rightarrow>
   VoteCaster \<times> VoteReceipt outcome" where
  "cast_vote E d c voter ballot voter_keypair election_key =
     (if vo_id voter |\<notin>| vca_voter_registry c then (c, Err (VoterNotEligible ''Voter not registered''))
      else if hm_contains_key (vca_votes_cast c) (vo_id voter) then (c, Err AlreadyVoted)
      else let current_time = d_now d in
        if \<not> Election_is_active (vca_election c) current_time then (c, Err ElectionNotActive)
        else if bal_election_id ballot \<noteq> el_id (vca_election c)
        then (c, Err (InvalidBallot ''Ballot election ID mismatch''))
        else case rbind (Ballot_validate ballot) (\<lambda>_.
                    CastBallot_create E (d_nonce d) (d_randomness d) (d_cast_now d) ballot (vo_id voter)
                      election_key voter_keypair) of
               Err e \<Rightarrow> (c, Err e)
             | Panic m \<Rightarrow> (c, Panic m)
             | Ok cast_ballot \<Rightarrow>
                 (c\<lparr>vca_votes_cast := fmupd (vo_id voter)
                      \<lparr>vr_voter_id = vo_id voter, vr_cast_ballot = cast_ballot, vr_cast_at = current_time\<rparr>
                      (vca_votes_cast c)\<rparr>,
                  Ok (VoteReceipt_new E (d_receipt d) (cb_ballot_id cast_ballot) (el_id (vca_election c))
                        (vo_id voter) current_time)))"

definition submit_vote ::
  "'z voting_externals_scheme \<Rightarrow> Draws \<Rightarrow> VoteCaster \<Rightarrow> VoteSubmission \<Rightarrow> PublicKey \<Rightarrow>
   VoteCaster \<times> VoteReceipt outcome" where
  "submit_vote E d c submission voter_public_key =
     (if vs_voter_id submission |\<notin>| vca_voter_registry c
      then (c, Err (VoterNotEligible ''Voter not registered''))
      else if hm_contains_key (vca_votes_cast c) (vs_voter_id submission) then (c, Err AlreadyVoted)
      else let current_time = d_now d in
        if \<not> Election_is_active (vca_election c) current_time then (c, Err ElectionNotActive)
        else case VoteSubmission_verify E submission voter_public_key of
               Err e \<Rightarrow> (c, Err e)
             | Panic m \<Rightarrow> (c, Panic m)
             | Ok _ \<Rightarrow>
                 (c\<lparr>vca_votes_cast := fmupd (vs_voter_id submission)
                      \<lparr>vr_voter_id = vs_voter_id submission, vr_cast_ballot = vs_cast_ballot submission,
                       vr_cast_at = current_time\<rparr> (vca_votes_cast c)\<rparr>,
                  Ok (VoteReceipt_new E (d_receipt d) (cb_ballot_id (vs_cast_ballot submission))
                        (el_id (vca_election c)) (vs_voter_id submission) current_time)))"

definition caster_has_voted :: "VoteCaster \<Rightarrow> VoterId \<Rightarrow> bool" where
  "caster_has_voted c voter_id = hm_contains_key (vca_votes_cast c) voter_id"

definition vote_count :: "VoteCaster \<Rightarrow> nat" where
  "vote_count c = hm_len (vca_votes_cast c)"

definition get_vote_record :: "VoteCaster \<Rightarrow> VoterId \<Rightarrow> VoteRecord option" where
  "get_vote_record c voter_id = fmlookup (vca_votes_cast c) voter_id"

definition all_cast_ballots :: "VoteCaster \<Rightarrow> CastBallot multiset" where
  "all_cast_ballots c = image_mset vr_cast_ballot (hm_values (vca_votes_cast c))"

definition registered_voters :: "VoteCaster \<Rightarrow> nat" where
  "registered_voters c = fcard (vca_voter_registry c)"

definition caster_turnout_percentage :: "VoteCaster \<Rightarrow> f64" where
  "caster_turnout_percentage c =
     (if vca_voter_registry c = {||} then Fin 0
      else f64_mul (f64_div (f64_of_nat (hm_len (vca_votes_cast c))) (f64_of_nat (fcard (vca_voter_registry c))))
             (f64_lit 100))"

section \<open>The voting session\<close>

definition VotingSession_new :: "Timestamp \<Rightarrow> ElectionId \<Rightarrow> Voter \<Rightarrow> VotingSession" where
  "VotingSession_new now election_id voter =
     \<lparr>ses_election_id = election_id, ses_voter = voter, ses_ballot = None, ses_state = Started,
      ses_started_at = now\<rparr>"

definition set_ballot :: "VotingSession \<Rightarrow> Ballot \<Rightarrow> VotingSession \<times> unit outcome" where
  "set_ballot s ballot =
     (if ses_state s \<noteq> Started then (s, Err (InvalidInput ''Session not in correct state''))
      else if bal_election_id ballot \<noteq> ses_election_id s
      then (s, Err (InvalidBallot ''Ballot election mismatch''))
      else (s\<lparr>ses_ballot := Some ballot, ses_state := BallotFilled\<rparr>, Ok ()))"

definition session_submit ::
  "'z voting_externals_scheme \<Rightarrow> Draws \<Rightarrow> VotingSession \<Rightarrow> KeyPair \<Rightarrow> EncryptionKey \<Rightarrow>
   (VoteSubmission \<times> VoteReceipt) outcome" where
  "session_submit E d s voter_keypair election_key =
     (if ses_state s \<noteq> BallotFilled then Err (InvalidInput ''Session not ready for submission'')
      else case ses_ballot s of
        None \<Rightarrow> Err (InvalidInput ''No ballot in session'')
      | Some ballot \<Rightarrow>
          rbind (CastBallot_create E (d_nonce d) (d_randomness d) (d_cast_now d) ballot (vo_id (ses_voter s))
                   election_key voter_keypair) (\<lambda>cast_ballot.
          rbind (VoteSubmission_create E (d_submit_now d) (vo_id (ses_voter s)) cast_ballot voter_keypair) (\<lambda>submission.
            Ok (submission,
                VoteReceipt_new E (d_receipt d) (bal_ballot_id ballot) (ses_election_id s) (vo_id (ses_voter s))
                  (d_now d)))))"

definition session_cancel :: "VotingSession \<Rightarrow> VotingSession" where
  "session_cancel s = s\<lparr>ses_state := Cancelled\<rparr>"

section \<open>Statistics\<close>

definition count_hour :: "VoteRecord \<Rightarrow> (u64, nat) hashmap \<Rightarrow> (u64, nat) hashmap" where
  "count_hour record m =
     (let hour = vr_cast_at record div 3600
      in fmupd hour ((case fmlookup m hour of None \<Rightarrow> 0 | Some n \<Rightarrow> n) + 1) m)"

definition from_records :: "((u64, nat) hashmap \<Rightarrow> (u64 \<times> nat) list) \<Rightarrow> VoteRecord list \<Rightarrow> VoteCastingStats" where
  "from_records iteration records =
     (let votes_per_hour = fold count_hour records fmempty
      in \<lparr>vst_total_votes = length records, vst_votes_per_hour = votes_per_hour,
          vst_average_casting_time_ms = 0,
          vst_peak_hour = map_option fst (max_by_key snd (iteration votes_per_hour))\<rparr>)"

definition votes_in_hour :: "VoteCastingStats \<Rightarrow> u64 \<Rightarrow> nat" where
  "votes_in_hour s hour = (case fmlookup (vst_votes_per_hour s) hour of None \<Rightarrow> 0 | Some n \<Rightarrow> n)"

section \<open>The caster accepts one vote per voter\<close>

text \<open>A call on the caster, with what it yields.\<close>

datatype CasterCall =
    CasterRegister VoterId
  | CasterCast Draws Voter Ballot KeyPair EncryptionKey
  | CasterSubmit Draws VoteSubmission PublicKey

definition some_receipt :: "VoteCaster \<times> VoteReceipt outcome \<Rightarrow> VoteCaster \<times> VoteReceipt option outcome" where
  "some_receipt = (\<lambda>(c, r). (c, rbind r (\<lambda>x. Ok (Some x))))"

fun caster_call ::
  "'z voting_externals_scheme \<Rightarrow> VoteCaster \<Rightarrow> CasterCall \<Rightarrow> VoteCaster \<times> VoteReceipt option outcome" where
  "caster_call E c (CasterRegister i) = (caster_register_voter c i, Ok None)"
| "caster_call E c (CasterCast d v b kp k) = some_receipt (cast_vote E d c v b kp k)"
| "caster_call E c (CasterSubmit d s pk) = some_receipt (submit_vote E d c s pk)"

fun vote_key :: "CasterCall \<Rightarrow> VoterId option" where
  "vote_key (CasterRegister i) = None"
| "vote_key (CasterCast d v b kp k) = Some (vo_id v)"
| "vote_key (CasterSubmit d s pk) = Some (vs_voter_id s)"

text \<open>What an accepted vote does to the caster.\<close>

definition records_vote :: "VoteCaster \<Rightarrow> VoterId \<Rightarrow> VoteRecord \<Rightarrow> VoteReceipt \<Rightarrow> VoteCaster \<Rightarrow> bool" where
  "records_vote c i rec receipt c' \<longleftrightarrow>
     i |\<in>| vca_voter_registry c \<and> \<not> caster_has_voted c i \<and> Election_is_active (vca_election c) (vr_cast_at rec) \<and>
     vr_voter_id rec = i \<and> vrc_voter_id receipt = i \<and> vrc_election_id receipt = el_id (vca_election c) \<and>
     vrc_ballot_id receipt = cb_ballot_id (vr_cast_ballot rec) \<and>
     c' = c\<lparr>vca_votes_cast := fmupd i rec (vca_votes_cast c)\<rparr>"

lemma cast_vote_cases:
  assumes "cast_vote E d c v b kp k = (c', r)"
  shows "(\<exists>rec receipt. r = Ok receipt \<and> records_vote c (vo_id v) rec receipt c') \<or> (c' = c \<and> \<not> is_ok r)"
  using assms
  by (auto simp: cast_vote_def records_vote_def caster_has_voted_def Let_def VoteReceipt_new_def
      split: if_splits result.splits intro!: exI)

lemma submit_vote_cases:
  assumes "submit_vote E d c s pk = (c', r)"
  shows "(\<exists>rec receipt. r = Ok receipt \<and> records_vote c (vs_voter_id s) rec receipt c') \<or> (c' = c \<and> \<not> is_ok r)"
  using assms
  by (auto simp: submit_vote_def records_vote_def caster_has_voted_def Let_def VoteReceipt_new_def
      split: if_splits result.splits intro!: exI)

lemma caster_call_cases:
  assumes "caster_call E c k = (c', r)"
  obtains (register) i where "vote_key k = None" "c' = caster_register_voter c i"
    | (vote) i rec receipt where "vote_key k = Some i" "r = Ok (Some receipt)" "records_vote c i rec receipt c'"
    | (refused) i where "vote_key k = Some i" "c' = c" "\<not> is_ok r"
proof (cases k)
  case (CasterRegister i)
  with assms show ?thesis by (intro register) auto
next
  case (CasterCast d v b kp ek)
  with assms show ?thesis
    using cast_vote_cases [of E d c v b kp ek] vote refused
    by (cases "cast_vote E d c v b kp ek") (fastforce simp: some_receipt_def outcome_simps)
next
  case (CasterSubmit d s pk)
  with assms show ?thesis
    using submit_vote_cases [of E d c s pk] vote refused
    by (cases "submit_vote E d c s pk") (fastforce simp: some_receipt_def outcome_simps)
qed

lemmas caster_call_simps = records_vote_def caster_has_voted_def caster_register_voter_def

interpretation caster: counted_once "caster_call E" vote_key caster_has_voted vote_count for E :: "'z voting_externals_scheme"
proof unfold_locales
  fix s c t x k assume "caster_call E s c = (t, Ok x)" "vote_key c = Some k"
  then show "\<not> caster_has_voted s k \<and> caster_has_voted t k"
    by (cases rule: caster_call_cases) (auto simp: caster_call_simps)
next
  fix s c t r k assume "caster_call E s c = (t, r)" "caster_has_voted s k"
  then show "caster_has_voted t k"
    by (cases rule: caster_call_cases) (auto simp: caster_call_simps)
next
  fix s c t r assume "caster_call E s c = (t, r)"
  then show "vote_count t = vote_count s + accepted vote_key [(c, r)]"
    by (cases rule: caster_call_cases) (auto simp: vote_count_def caster_call_simps)
next
  fix s c t r k assume "caster_call E s c = (t, r)" "caster_has_voted t k"
  then show "caster_has_voted s k \<or> (vote_key c = Some k \<and> is_ok r)"
    by (cases rule: caster_call_cases) (auto simp: caster_call_simps)
qed

text \<open>What holds of every caster: its votes come from registered voters in the time of the election.\<close>

definition caster_wf :: "VoteCaster \<Rightarrow> bool" where
  "caster_wf c \<longleftrightarrow>
     (\<forall>i rec. get_vote_record c i = Some rec \<longrightarrow>
        vr_voter_id rec = i \<and> i |\<in>| vca_voter_registry c \<and> Election_is_active (vca_election c) (vr_cast_at rec))"

definition caster_step :: "'z voting_externals_scheme \<Rightarrow> VoteCaster \<Rightarrow> VoteCaster \<Rightarrow> bool" where
  "caster_step E c c' \<longleftrightarrow> (\<exists>k. fst (caster_call E c k) = c')"

lemma caster_step_wf:
  assumes "caster_wf c" and "caster_step E c c'"
  shows "caster_wf c'"
proof -
  obtain k r where "caster_call E c k = (c', r)" using assms(2) unfolding caster_step_def by (metis prod.collapse)
  then show ?thesis
    using assms(1)
    by (cases rule: caster_call_cases)
       (auto simp: caster_wf_def get_vote_record_def caster_register_voter_def records_vote_def)
qed

interpretation caster_system: invariant_system "\<lambda>c. \<exists>e. c = VoteCaster_new e" "caster_step E" caster_wf
  for E :: "'z voting_externals_scheme"
proof unfold_locales
  fix s assume "\<exists>e. s = VoteCaster_new e"
  then show "caster_wf s" by (auto simp: caster_wf_def VoteCaster_new_def get_vote_record_def)
qed (rule caster_step_wf)

lemma run_calls_steps: "(caster_step E)\<^sup>*\<^sup>* c (fst (run_calls (caster_call E) c ks))"
proof (induction ks arbitrary: c)
  case (Cons k ks)
  obtain c' r where c': "caster_call E c k = (c', r)" by (cases "caster_call E c k")
  then have "caster_step E c c'" by (auto simp: caster_step_def intro: exI [of _ k])
  with Cons.IH [of c'] show ?case by (auto simp: c' Let_def split: prod.splits intro: converse_rtranclp_into_rtranclp)
qed simp

text \<open>The record of a vote never changes.\<close>

lemma vote_record_kept_step:
  assumes "caster_call E c k = (c', r)" and "get_vote_record c i = Some rec"
  shows "get_vote_record c' i = Some rec"
  using assms
  by (cases rule: caster_call_cases)
     (auto simp: get_vote_record_def caster_call_simps hm_contains_key_def)

lemma vote_record_kept:
  "get_vote_record c i = Some rec \<Longrightarrow> get_vote_record (fst (run_calls (caster_call E) c ks)) i = Some rec"
proof (induction ks arbitrary: c)
  case (Cons k ks)
  obtain c' r where c': "caster_call E c k = (c', r)" by (cases "caster_call E c k")
  from Cons.IH [OF vote_record_kept_step [OF c' Cons.prems]] show ?case by (auto simp: c' Let_def split: prod.splits)
qed simp

section \<open>The session as a state machine\<close>

inductive session_step :: "VotingSession \<Rightarrow> VotingSession \<Rightarrow> bool" where
  fill: "set_ballot s b = (t, r) \<Longrightarrow> session_step s t"
| cancel: "session_step s (session_cancel s)"

definition session_wf :: "VotingSession \<Rightarrow> bool" where
  "session_wf s \<longleftrightarrow>
     ses_state s \<noteq> Submitted \<and>
     (ses_state s = Started \<longrightarrow> ses_ballot s = None) \<and>
     (ses_state s = BallotFilled \<longrightarrow> ses_ballot s \<noteq> None) \<and>
     (\<forall>b. ses_ballot s = Some b \<longrightarrow> bal_election_id b = ses_election_id s)"

interpretation session: invariant_system "\<lambda>s. \<exists>now e v. s = VotingSession_new now e v" session_step session_wf
proof unfold_locales
  fix s assume "\<exists>now e v. s = VotingSession_new now e v"
  then show "session_wf s" by (auto simp: session_wf_def VotingSession_new_def)
next
  fix s t assume "session_wf s" "session_step s t"
  then show "session_wf t"
    by (auto simp: session_wf_def set_ballot_def session_cancel_def elim!: session_step.cases split: if_splits)
qed

text \<open>The state \<open>Submitted\<close> is never reached, and a filled session always has its ballot.\<close>

lemma session_reachable:
  assumes "session_step\<^sup>*\<^sup>* (VotingSession_new now e v) s"
  shows "ses_state s \<noteq> Submitted"
    and "ses_state s = BallotFilled \<Longrightarrow> \<exists>b. ses_ballot s = Some b \<and> bal_election_id b = ses_election_id s"
  using session.reachable_invar [OF _ assms] by (auto simp: session_wf_def)

section \<open>Facts\<close>

lemma VoteReceipt_new_verify [simp]: "verify_confirmation_code E (VoteReceipt_new E g b e v t)"
  by (simp add: verify_confirmation_code_def VoteReceipt_new_def Let_def)

lemma VoteSubmission_roundtrip:
  assumes "signature_laws E" and "keypair_wf E kp"
    and "CastBallot_verify E c (cpk_to_common (kp_public kp)) = Ok ()"
    and "VoteSubmission_create E now i c kp = Ok s"
  shows "VoteSubmission_verify E s (cpk_to_common (kp_public kp)) = Ok ()"
proof -
  obtain sig where sig: "sign E (submission_compute_message E i c now) kp = Ok sig"
    and s: "s = \<lparr>vs_voter_id = i, vs_cast_ballot = c, vs_submission_signature = csig_to_common sig,
                vs_submitted_at = now\<rparr>"
    using assms(4) by (auto simp: VoteSubmission_create_def outcome_simps)
  have "verify E (submission_compute_message E i c now) sig (kp_public kp) = Ok ()"
    using assms(1,2) sig by (intro ed25519.check_make) simp_all
  with assms(3) show ?thesis by (simp add: s VoteSubmission_verify_def)
qed

text \<open>
  A vote is accepted exactly under these conditions. The election of the cast ballot is not among
  them, nor is the voter the cast ballot names.
\<close>

lemma submit_vote_Ok_iff:
  "is_ok (snd (submit_vote E d c s pk)) \<longleftrightarrow>
     vs_voter_id s |\<in>| vca_voter_registry c \<and> \<not> caster_has_voted c (vs_voter_id s) \<and>
     Election_is_active (vca_election c) (d_now d) \<and> VoteSubmission_verify E s pk = Ok ()"
  by (auto simp: submit_vote_def caster_has_voted_def Let_def split: result.splits)

lemma submit_vote_ignores_election:
  "is_ok (snd (submit_vote E d (c\<lparr>vca_election := (vca_election c)\<lparr>el_id := e\<rparr>\<rparr>) s pk)) =
   is_ok (snd (submit_vote E d c s pk))"
  by (simp add: submit_vote_Ok_iff caster_has_voted_def Election_is_active_def)

lemma fmlookup_count_hour:
  "fmlookup (fold count_hour rs m) h =
     (let n = length (filter (\<lambda>r. vr_cast_at r div 3600 = h) rs)
      in if n = 0 then fmlookup m h else Some ((case fmlookup m h of None \<Rightarrow> 0 | Some k \<Rightarrow> k) + n))"
  by (induction rs arbitrary: m) (auto simp: count_hour_def Let_def split: option.splits)

lemma votes_in_hour_from_records:
  "votes_in_hour (from_records iteration rs) h = length (filter (\<lambda>r. vr_cast_at r div 3600 = h) rs)"
  by (simp add: votes_in_hour_def from_records_def fmlookup_count_hour Let_def)

text \<open>The peak hour is one in which at least as many votes were cast as in any other.\<close>

lemma peak_hour_from_records:
  assumes iteration: "\<And>m. set (iteration m) = {(k, v). fmlookup m k = Some v}"
    and "vst_peak_hour (from_records iteration rs) = Some h"
  shows "votes_in_hour (from_records iteration rs) h' \<le> votes_in_hour (from_records iteration rs) h"
proof -
  let ?m = "fold count_hour rs fmempty"
  obtain n where n: "max_by_key snd (iteration ?m) = Some (h, n)"
    using assms(2) by (auto simp: from_records_def Let_def)
  have "v \<le> n" if "fmlookup ?m k = Some v" for k v
    using max_by_key_Some [OF n] that iteration [of ?m] by fastforce
  moreover have "fmlookup ?m h = Some n"
    using max_by_key_Some [OF n] iteration [of ?m] by auto
  ultimately show ?thesis
    by (auto simp: votes_in_hour_def from_records_def Let_def split: option.split)
qed

section \<open>Properties\<close>

text \<open>
  C4: One voter, one vote. Whatever calls reach a vote caster (registrations, \<open>cast_vote\<close> and
  \<open>submit_vote\<close>, in any order, with any arguments and any outcome), each voter gets at most one
  receipt; \<open>has_voted\<close> is true of exactly those who got one; \<open>vote_count\<close> is the number of votes
  accepted; and each vote on record belongs to a registered voter, was cast while the election was
  active and is never replaced by a later call.
\<close>

theorem caster_one_vote_each:
  assumes "run_calls (caster_call E) (VoteCaster_new election) calls = (c, results)"
  shows "successes vote_key i results \<le> 1 \<and>
    (caster_has_voted c i \<longleftrightarrow> 0 < successes vote_key i results) \<and>
    vote_count c = accepted vote_key results \<and>
    (\<forall>rec. get_vote_record c i = Some rec \<longrightarrow>
       vr_voter_id rec = i \<and> i |\<in>| vca_voter_registry c \<and>
       Election_is_active (vca_election c) (vr_cast_at rec) \<and>
       get_vote_record (fst (run_calls (caster_call E) c later)) i = Some rec)"
proof -
  have c: "c = fst (run_calls (caster_call E) (VoteCaster_new election) calls)"
    "results = snd (run_calls (caster_call E) (VoteCaster_new election) calls)"
    using assms by simp_all
  have "caster_wf c" unfolding c(1) by (rule caster_system.reachable_invar [OF _ run_calls_steps]) blast
  moreover have "\<not> caster_has_voted (VoteCaster_new election) i" "vote_count (VoteCaster_new election) = 0"
    by (simp_all add: caster_has_voted_def VoteCaster_new_def vote_count_def)
  moreover have "successes vote_key i results \<le> 1" unfolding c(2) by (rule caster.at_most_once)
  ultimately show ?thesis
    using caster.held_run [of E "VoteCaster_new election" calls, folded c]
      caster.has_run [of E "VoteCaster_new election" calls i, folded c] vote_record_kept [of c i _ E later]
    by (simp add: caster_wf_def)
qed

text \<open>An election, and a voter who votes twice.\<close>

definition sample_election :: Election where
  "sample_election = Election_new (ElectionId (bytes_fill 1)) ''mayor'' [] [Candidate_new ''alice'' ''Alice''] 100 200
     (PublicKey (bytes_fill 2))"

definition sample_draws :: Draws where
  "sample_draws = \<lparr>d_now = 150, d_cast_now = 150, d_submit_now = 151, d_nonce = bytes_fill 4, d_randomness = [8, 9],
     d_receipt = bytes_fill 7\<rparr>"

definition sample_calls :: "CasterCall list" where
  "sample_calls =
     [CasterRegister (vo_id (sample_voter 5)),
      CasterCast sample_draws (sample_voter 5) sample_ballot (sample_keypair 5) (EncryptionKey (bytes_fill 6)),
      CasterCast sample_draws (sample_voter 5) sample_ballot (sample_keypair 5) (EncryptionKey (bytes_fill 6))]"

definition sample_caster :: VoteCaster where
  "sample_caster = fst (run_calls (caster_call sample_voting) (VoteCaster_new sample_election) sample_calls)"

lemma sample_create_Ok:
  "\<exists>c. CastBallot_create sample_voting n r t sample_ballot i k kp = Ok c"
  by (simp add: CastBallot_create_def Ballot_serialize_def encrypt_def sign_def Let_def
      sample_voting_def sample_crypto_def voting_externals.defs crypto_externals.defs)

lemma sample_ballot_valid: "Ballot_validate sample_ballot = Ok ()" "bal_election_id sample_ballot = ElectionId (bytes_fill 1)"
  by (simp_all add: sample_ballot_def Ballot_validate_def Ballot_new_def)

lemma sample_election_active: "Election_is_active sample_election 150" "el_id sample_election = ElectionId (bytes_fill 1)"
  by (simp_all add: sample_election_def Election_new_def Election_is_active_def)

lemma sample_caster_record: "\<exists>rec. get_vote_record sample_caster (vo_id (sample_voter 5)) = Some rec"
proof -
  obtain c where "CastBallot_create sample_voting (bytes_fill 4) [8, 9] 150 sample_ballot (vo_id (sample_voter 5))
      (EncryptionKey (bytes_fill 6)) (sample_keypair 5) = Ok c"
    using sample_create_Ok by blast
  then show ?thesis
    by (simp add: sample_caster_def sample_calls_def cast_vote_def some_receipt_def get_vote_record_def Let_def
        caster_register_voter_def VoteCaster_new_def sample_draws_def sample_ballot_valid sample_election_active)
qed

theorem caster_one_vote_each_witness:
  "\<exists>rec. get_vote_record sample_caster (vo_id (sample_voter 5)) = Some rec \<and>
     Election_is_active (vca_election sample_caster) (vr_cast_at rec) \<and>
     successes vote_key (vo_id (sample_voter 5))
       (snd (run_calls (caster_call sample_voting) (VoteCaster_new sample_election) sample_calls)) = 1 \<and>
     get_vote_record (fst (run_calls (caster_call sample_voting) sample_caster sample_calls)) (vo_id (sample_voter 5)) = Some rec"
proof -
  obtain rec where rec: "get_vote_record sample_caster (vo_id (sample_voter 5)) = Some rec"
    using sample_caster_record by blast
  then have voted: "caster_has_voted sample_caster (vo_id (sample_voter 5))"
    by (simp add: get_vote_record_def caster_has_voted_def hm_contains_key_def)
  have "run_calls (caster_call sample_voting) (VoteCaster_new sample_election) sample_calls =
      (sample_caster, snd (run_calls (caster_call sample_voting) (VoteCaster_new sample_election) sample_calls))"
    by (simp add: sample_caster_def)
  from caster_one_vote_each [OF this, of "vo_id (sample_voter 5)" sample_calls] rec voted show ?thesis by fastforce
qed

text \<open>
  C5: A vote travels safely from the voter's session to the ballot box. A session filled with a
  ballot yields on \<open>submit\<close> a submission that the caster accepts for a registered voter who has not
  voted, at any time in which the election is active. The caster then holds a record from which the
  election key recovers the very ballot the voter filled in, and both receipts name that ballot and
  carry a confirmation code that verifies.
\<close>

theorem session_vote_recorded:
  assumes laws: "signature_laws E" "aead_laws E" "ballot_codec_laws E" "keypair_wf E kp"
    and fill: "set_ballot (VotingSession_new t e voter) ballot = (s, Ok ())"
    and submit: "session_submit E d s kp key = Ok (submission, receipt)"
    and caster: "vo_id voter |\<in>| vca_voter_registry c" "\<not> caster_has_voted c (vo_id voter)"
      "Election_is_active (vca_election c) (d_now d')"
  shows "\<exists>c' receipt' rec.
    submit_vote E d' c submission (cpk_to_common (kp_public kp)) = (c', Ok receipt') \<and>
    get_vote_record c' (vo_id voter) = Some rec \<and>
    rbind (decrypt E (cb_encrypted_ballot (vr_cast_ballot rec)) key) (Ballot_deserialize E) = Ok ballot \<and>
    vrc_ballot_id receipt = bal_ballot_id ballot \<and> vrc_ballot_id receipt' = bal_ballot_id ballot \<and>
    verify_confirmation_code E receipt \<and> verify_confirmation_code E receipt'"
proof -
  have s: "ses_ballot s = Some ballot" "ses_voter s = voter" "ses_state s = BallotFilled"
    using fill by (auto simp: set_ballot_def VotingSession_new_def split: if_splits)
  obtain cb where cb: "CastBallot_create E (d_nonce d) (d_randomness d) (d_cast_now d) ballot (vo_id voter) key kp = Ok cb"
      "VoteSubmission_create E (d_submit_now d) (vo_id voter) cb kp = Ok submission"
    and receipt: "receipt = VoteReceipt_new E (d_receipt d) (bal_ballot_id ballot) (ses_election_id s) (vo_id voter) (d_now d)"
    using submit s by (auto simp: session_submit_def outcome_simps)
  have sub: "vs_voter_id submission = vo_id voter" "vs_cast_ballot submission = cb"
    using cb(2) by (auto simp: VoteSubmission_create_def outcome_simps)
  note cast = cast_ballot_facts [OF laws cb(1)]
  have "VoteSubmission_verify E submission (cpk_to_common (kp_public kp)) = Ok ()"
    by (rule VoteSubmission_roundtrip [OF laws(1,4) _ cb(2)]) (use cast in simp)
  then show ?thesis
    using caster cast
    by (simp add: submit_vote_def caster_has_voted_def sub receipt get_vote_record_def Let_def)
       (simp add: VoteReceipt_new_def Let_def)
qed

definition sample_session :: VotingSession where
  "sample_session = fst (set_ballot (VotingSession_new 140 (ElectionId (bytes_fill 1)) (sample_voter 5)) sample_ballot)"

definition sample_submission :: "(VoteSubmission \<times> VoteReceipt) outcome" where
  "sample_submission = session_submit sample_voting sample_draws sample_session (sample_keypair 5)
     (EncryptionKey (bytes_fill 6))"

lemma sample_session_filled:
  "set_ballot (VotingSession_new 140 (ElectionId (bytes_fill 1)) (sample_voter 5)) sample_ballot = (sample_session, Ok ())"
  by (simp add: sample_session_def set_ballot_def VotingSession_new_def sample_ballot_valid)

lemma sample_submission_Ok: "\<exists>s r. sample_submission = Ok (s, r)"
proof -
  obtain c where "CastBallot_create sample_voting (bytes_fill 4) [8, 9] 150 sample_ballot (vo_id (sample_voter 5))
      (EncryptionKey (bytes_fill 6)) (sample_keypair 5) = Ok c"
    using sample_create_Ok by blast
  then show ?thesis
    by (simp add: sample_submission_def session_submit_def sample_session_def set_ballot_def VotingSession_new_def
        sample_ballot_valid sample_draws_def VoteSubmission_create_def sign_def)
qed

theorem session_vote_recorded_witness:
  "\<exists>submission receipt c' receipt'.
     sample_submission = Ok (submission, receipt) \<and>
     submit_vote sample_voting sample_draws
       (caster_register_voter (VoteCaster_new sample_election) (vo_id (sample_voter 5))) submission
       (cpk_to_common (kp_public (sample_keypair 5))) = (c', Ok receipt') \<and>
     vrc_ballot_id receipt' = bal_ballot_id sample_ballot"
proof -
  obtain submission receipt where sub: "sample_submission = Ok (submission, receipt)"
    using sample_submission_Ok by blast
  have fill: "set_ballot (VotingSession_new 140 (ElectionId (bytes_fill 1)) (sample_voter 5)) sample_ballot = (sample_session, Ok ())"
    by (rule sample_session_filled)
  have "\<exists>c' receipt' rec.
      submit_vote sample_voting sample_draws
        (caster_register_voter (VoteCaster_new sample_election) (vo_id (sample_voter 5))) submission
        (cpk_to_common (kp_public (sample_keypair 5))) = (c', Ok receipt') \<and>
      get_vote_record c' (vo_id (sample_voter 5)) = Some rec \<and>
      rbind (decrypt sample_voting (cb_encrypted_ballot (vr_cast_ballot rec)) (EncryptionKey (bytes_fill 6)))
        (Ballot_deserialize sample_voting) = Ok sample_ballot \<and>
      vrc_ballot_id receipt = bal_ballot_id sample_ballot \<and> vrc_ballot_id receipt' = bal_ballot_id sample_ballot \<and>
      verify_confirmation_code sample_voting receipt \<and> verify_confirmation_code sample_voting receipt'"
    by (rule session_vote_recorded [OF sample_voting_laws fill sub [unfolded sample_submission_def]])
       (simp_all add: caster_register_voter_def VoteCaster_new_def caster_has_voted_def sample_draws_def
         sample_election_active)
  with sub show ?thesis by blast
qed

end
