(* ===== verification/Zkp.thy ===== *)
theory Zkp
  imports Signatures Encryption Float64
begin

text \<open>
  \<open>crypto/src/zkp/\<close>: private ballots and their validity proofs (\<open>ballot_privacy.rs\<close>), range proofs
  (\<open>range_proof.rs\<close>) and the statistics of \<open>mod.rs\<close>. The sources call these proofs simplified: they
  are hashes, and the facts below say what the checks establish and what they do not. Random values
  and the clock are arguments, and so is the \<open>bincode\<close> encoding of a proof.
\<close>

section \<open>Private ballots\<close>

record ProofMetadata =
  pm_proof_version :: u32
  pm_timestamp :: u64
  pm_security_parameter :: nat

record BallotValidityProof =
  bvp_challenge :: "u8 list"
  bvp_responses :: "u8 list list"
  bvp_proof_commitment :: "u8 list"
  bvp_metadata :: ProofMetadata

record PrivateBallot =
  pb_encrypted_vote :: EncryptedData
  pb_commitment :: "u8 list"
  pb_validity_proof :: BallotValidityProof
  pb_voter_signature :: CryptoSignature
  pb_election_id :: "16 bytes"

record BallotVerifier =
  bvr_election_key :: CryptoPublicKey
  bvr_valid_candidates :: "string list"
  bvr_election_id :: "16 bytes"

record ReceiptFreeBallot =
  rfb_ballot :: PrivateBallot
  rfb_randomization :: "u8 list"

record BlindedBallot =
  blb_blinded_data :: "u8 list"
  blb_blinding_factor :: "u8 list option"

record HomomorphicTally =
  ht_encrypted_tally :: "u8 list"
  ht_vote_count :: nat

text \<open>What one creation of a private ballot draws.\<close>

record BallotDraws =
  bd_nonce :: "12 bytes"
  bd_randomness :: "u8 list"
  bd_proof_randomness :: "u8 list"
  bd_timestamp :: u64

definition bvp_compute_challenge ::
  "'z crypto_externals_scheme \<Rightarrow> EncryptedData \<Rightarrow> u8 list \<Rightarrow> u8 list \<Rightarrow> 16 bytes \<Rightarrow> u8 list" where
  "bvp_compute_challenge E encrypted_vote commitment proof_commitment election_id =
     bytes_list (hash_blake2b_multiple E
       [EncryptedData_to_bytes encrypted_vote, commitment, proof_commitment, bytes_list election_id])"

definition BallotValidityProof_generate ::
  "'z crypto_externals_scheme \<Rightarrow> BallotDraws \<Rightarrow> u8 list \<Rightarrow> EncryptedData \<Rightarrow> Commitment \<Rightarrow> 16 bytes \<Rightarrow>
   BallotValidityProof outcome" where
  "BallotValidityProof_generate E d vote_data encrypted_vote commitment election_id =
     (let randomness = bd_proof_randomness d;
          proof_commitment = bytes_list (hash_blake2b_multiple E [vote_data, randomness]);
          challenge = bvp_compute_challenge E encrypted_vote (cm_value commitment) proof_commitment election_id;
          response1 = bytes_list (hash_blake2b_multiple E [vote_data, challenge]);
          response2 = bytes_list (hash_blake2b_multiple E [randomness, challenge]);
          metadata = \<lparr>pm_proof_version = 1, pm_timestamp = bd_timestamp d, pm_security_parameter = 128\<rparr>
      in Ok \<lparr>bvp_challenge = challenge, bvp_responses = [response1, response2],
             bvp_proof_commitment = proof_commitment, bvp_metadata = metadata\<rparr>)"

definition BallotValidityProof_verify ::
  "'z crypto_externals_scheme \<Rightarrow> BallotValidityProof \<Rightarrow> EncryptedData \<Rightarrow> u8 list \<Rightarrow> 16 bytes \<Rightarrow> unit outcome" where
  "BallotValidityProof_verify E p encrypted_vote commitment election_id =
     (let computed_challenge = bvp_compute_challenge E encrypted_vote commitment (bvp_proof_commitment p) election_id in
      if \<not> constant_time_eq (bvp_challenge p) computed_challenge
      then Err (CryptoError ''Ballot validity proof verification failed: challenge mismatch'')
      else if length (bvp_responses p) < 2 then Err (CryptoError ''Invalid proof: insufficient responses'')
      else Ok ())"

definition BallotValidityProof_size :: "BallotValidityProof \<Rightarrow> nat" where
  "BallotValidityProof_size p =
     length (bvp_challenge p) + sum_list (map length (bvp_responses p)) + length (bvp_proof_commitment p)"

definition bvp_to_zk_proof ::
  "(BallotValidityProof \<Rightarrow> (u8 list, string) result) \<Rightarrow> BallotValidityProof \<Rightarrow> ZkProof outcome" where
  "bvp_to_zk_proof ser p =
     (case ser p of
        Ok proof_data \<Rightarrow> Ok \<lparr>zk_proof_type = BallotValidity, zk_proof_data = proof_data, zk_public_inputs = bvp_challenge p\<rparr>
      | Err e \<Rightarrow> Panic (''Serialization failed: '' @ e)
      | Panic m \<Rightarrow> Panic m)"

definition compute_fingerprint ::
  "'z crypto_externals_scheme \<Rightarrow> EncryptedData \<Rightarrow> u8 list \<Rightarrow> 16 bytes \<Rightarrow> u8 list" where
  "compute_fingerprint E encrypted_vote commitment election_id =
     bytes_list (hash_blake2b_multiple E [EncryptedData_to_bytes encrypted_vote, commitment, bytes_list election_id])"

definition PrivateBallot_create ::
  "'z crypto_externals_scheme \<Rightarrow> BallotDraws \<Rightarrow> u8 list \<Rightarrow> EncryptionKey \<Rightarrow> 16 bytes \<Rightarrow> KeyPair \<Rightarrow> PrivateBallot outcome" where
  "PrivateBallot_create E d vote_data election_key election_id voter_key =
     rbind (encrypt E (bd_nonce d) vote_data election_key) (\<lambda>encrypted_vote.
       let commitment = Commitment_new E vote_data (bd_randomness d) in
       rbind (BallotValidityProof_generate E d vote_data encrypted_vote commitment election_id) (\<lambda>validity_proof.
         let ballot_fingerprint = compute_fingerprint E encrypted_vote (cm_value commitment) election_id in
         rbind (sign E ballot_fingerprint voter_key) (\<lambda>voter_signature.
           Ok \<lparr>pb_encrypted_vote = encrypted_vote, pb_commitment = cm_value commitment,
               pb_validity_proof = validity_proof, pb_voter_signature = voter_signature,
               pb_election_id = election_id\<rparr>)))"

definition PrivateBallot_verify :: "'z crypto_externals_scheme \<Rightarrow> PrivateBallot \<Rightarrow> CryptoPublicKey \<Rightarrow> unit outcome" where
  "PrivateBallot_verify E b voter_public_key =
     rbind (BallotValidityProof_verify E (pb_validity_proof b) (pb_encrypted_vote b) (pb_commitment b) (pb_election_id b)) (\<lambda>_.
       let ballot_fingerprint = compute_fingerprint E (pb_encrypted_vote b) (pb_commitment b) (pb_election_id b) in
       rbind (verify E ballot_fingerprint (pb_voter_signature b) voter_public_key) (\<lambda>_. Ok ()))"

definition PrivateBallot_size :: "PrivateBallot \<Rightarrow> nat" where
  "PrivateBallot_size b =
     EncryptedData_size (pb_encrypted_vote b) + length (pb_commitment b) + BallotValidityProof_size (pb_validity_proof b)"

definition BallotVerifier_new :: "CryptoPublicKey \<Rightarrow> string list \<Rightarrow> 16 bytes \<Rightarrow> BallotVerifier" where
  "BallotVerifier_new election_key valid_candidates election_id =
     \<lparr>bvr_election_key = election_key, bvr_valid_candidates = valid_candidates, bvr_election_id = election_id\<rparr>"

definition verify_ballot ::
  "'z crypto_externals_scheme \<Rightarrow> BallotVerifier \<Rightarrow> PrivateBallot \<Rightarrow> CryptoPublicKey \<Rightarrow> unit outcome" where
  "verify_ballot E v ballot voter_key =
     (if pb_election_id ballot \<noteq> bvr_election_id v then Err (InvalidBallot ''Election ID mismatch'')
      else rbind (PrivateBallot_verify E ballot voter_key) (\<lambda>_. Ok ()))"

definition BallotVerifier_verify_batch ::
  "'z crypto_externals_scheme \<Rightarrow> BallotVerifier \<Rightarrow> (PrivateBallot \<times> CryptoPublicKey) list \<Rightarrow> bool list outcome" where
  "BallotVerifier_verify_batch E v ballots =
     Ok (map (\<lambda>(ballot, voter_key). is_ok (verify_ballot E v ballot voter_key)) ballots)"

definition ReceiptFreeBallot_create ::
  "'z crypto_externals_scheme \<Rightarrow> u8 list \<Rightarrow> BallotDraws \<Rightarrow> u8 list \<Rightarrow> EncryptionKey \<Rightarrow> 16 bytes \<Rightarrow> KeyPair \<Rightarrow>
   ReceiptFreeBallot outcome" where
  "ReceiptFreeBallot_create E randomization d vote_data election_key election_id voter_key =
     (let mixed_vote = bytes_list (hash_blake2b_multiple E [vote_data, randomization])
      in rbind (PrivateBallot_create E d mixed_vote election_key election_id voter_key) (\<lambda>ballot.
           Ok \<lparr>rfb_ballot = ballot, rfb_randomization = randomization\<rparr>))"

definition ReceiptFreeBallot_verify :: "'z crypto_externals_scheme \<Rightarrow> ReceiptFreeBallot \<Rightarrow> CryptoPublicKey \<Rightarrow> unit outcome" where
  "ReceiptFreeBallot_verify E r voter_key = PrivateBallot_verify E (rfb_ballot r) voter_key"

definition BlindedBallot_blind :: "'z crypto_externals_scheme \<Rightarrow> u8 list \<Rightarrow> u8 list \<Rightarrow> BlindedBallot" where
  "BlindedBallot_blind E blinding_factor ballot_data =
     \<lparr>blb_blinded_data = bytes_list (hash_blake2b_multiple E [ballot_data, blinding_factor]),
      blb_blinding_factor = Some blinding_factor\<rparr>"

definition BlindedBallot_unblind :: "'z crypto_externals_scheme \<Rightarrow> BlindedBallot \<Rightarrow> u8 list \<Rightarrow> u8 list outcome" where
  "BlindedBallot_unblind E b authorized_signature =
     (case blb_blinding_factor b of
        None \<Rightarrow> Err (CryptoError ''No blinding factor'')
      | Some blinding_factor \<Rightarrow> Ok (bytes_list (hash_blake2b_multiple E [authorized_signature, blinding_factor])))"

definition HomomorphicTally_new :: HomomorphicTally where
  "HomomorphicTally_new = \<lparr>ht_encrypted_tally = [], ht_vote_count = 0\<rparr>"

definition HomomorphicTally_add_vote ::
  "'z crypto_externals_scheme \<Rightarrow> EncryptedData \<Rightarrow> HomomorphicTally \<Rightarrow> HomomorphicTally" where
  "HomomorphicTally_add_vote E encrypted_vote t =
     t\<lparr>ht_encrypted_tally :=
         (if ht_encrypted_tally t = [] then ed_ciphertext encrypted_vote
          else bytes_list (hash_blake2b_multiple E [ht_encrypted_tally t, ed_ciphertext encrypted_vote])),
       ht_vote_count := ht_vote_count t + 1\<rparr>"

section \<open>Range proofs\<close>

record RangeProof =
  rp_commitments :: "u8 list list"
  rp_challenges :: "u8 list list"
  rp_responses :: "u8 list list"
  rp_range_min :: u64
  rp_range_max :: u64

record AggregatedRangeProof =
  arp_proofs :: "RangeProof list"
  arp_total_commitment :: "u8 list"

record RangeProofVerifier =
  rpv_min_value :: u64
  rpv_max_value :: u64

record BulletproofStyle =
  bp_commitment :: "u8 list"
  bp_proof_a :: "u8 list"
  bp_proof_s :: "u8 list"
  bp_tau_x :: "u8 list"
  bp_mu :: "u8 list"
  bp_t_hat :: "u8 list"
  bp_inner_product_proof :: "u8 list"

record TallyRangeProof =
  trp_tally_commitment :: "u8 list"
  trp_range_proof :: RangeProof
  trp_max_voters :: u64

text \<open>\<open>64 - max_value.leading_zeros()\<close> is the number of binary digits.\<close>

fun bit_length :: "nat \<Rightarrow> nat" where
  "bit_length n = (if n = 0 then 0 else Suc (bit_length (n div 2)))"

declare bit_length.simps [simp del]

definition bits_needed :: "u64 \<Rightarrow> nat" where
  "bits_needed max_value = (if max_value = 0 then 1 else bit_length (unat max_value))"

definition to_bits :: "u64 \<Rightarrow> nat \<Rightarrow> u8 list" where
  "to_bits v num_bits = map (\<lambda>i. ucast (drop_bit i v AND 1)) [0..<num_bits]"

definition bit_randomness :: "'z crypto_externals_scheme \<Rightarrow> u8 list \<Rightarrow> nat \<Rightarrow> u8 list" where
  "bit_randomness E randomness i = bytes_list (hash_blake2b_multiple E [randomness, [of_nat i]])"

definition bit_commitment :: "'z crypto_externals_scheme \<Rightarrow> u8 list \<Rightarrow> nat \<times> u8 \<Rightarrow> u8 list" where
  "bit_commitment E randomness = (\<lambda>(i, b). cm_value (Commitment_new E [b] (bit_randomness E randomness i)))"

definition bit_challenge :: "'z crypto_externals_scheme \<Rightarrow> u8 list \<Rightarrow> u64 \<Rightarrow> nat \<times> u8 \<Rightarrow> u8 list" where
  "bit_challenge E randomness v = (\<lambda>(i, b).
     bytes_list (hash_blake2b_multiple E [bit_commitment E randomness (i, b), to_le_bytes v, [of_nat i]]))"

definition RangeProof_generate ::
  "'z crypto_externals_scheme \<Rightarrow> u64 \<Rightarrow> u64 \<Rightarrow> u64 \<Rightarrow> u8 list \<Rightarrow> RangeProof outcome" where
  "RangeProof_generate E v lo hi randomness =
     (if v < lo \<or> hi < v
      then Err (CryptoError (''Value '' @ show_nat (unat v) @ '' is not in range ['' @ show_nat (unat lo) @ '', ''
                             @ show_nat (unat hi) @ '']''))
      else let value_bits = enumerate 0 (to_bits v (bits_needed hi)) in
        Ok \<lparr>rp_commitments = map (bit_commitment E randomness) value_bits,
            rp_challenges = map (bit_challenge E randomness v) value_bits,
            rp_responses = map (\<lambda>ib. bytes_list (hash_blake2b_multiple E
               [bit_randomness E randomness (fst ib), bit_challenge E randomness v ib])) value_bits,
            rp_range_min = lo, rp_range_max = hi\<rparr>)"

definition RangeProof_verify :: "'z crypto_externals_scheme \<Rightarrow> RangeProof \<Rightarrow> u8 list \<Rightarrow> unit outcome" where
  "RangeProof_verify E p commitment =
     (if rp_commitments p = [] then Err (CryptoError ''Invalid range proof: no commitments'')
      else if length (rp_commitments p) \<noteq> length (rp_challenges p) \<or> length (rp_commitments p) \<noteq> length (rp_responses p)
      then Err (CryptoError ''Invalid range proof: mismatched lengths'')
      else if \<not> constant_time_eq (bytes_list (hash_blake2b_multiple E (rp_commitments p))) commitment
      then Err (CryptoError ''Range proof verification failed'')
      else Ok ())"

definition RangeProof_size :: "RangeProof \<Rightarrow> nat" where
  "RangeProof_size p =
     sum_list (map length (rp_commitments p)) + sum_list (map length (rp_challenges p)) +
     sum_list (map length (rp_responses p))"

definition rp_to_zk_proof :: "(RangeProof \<Rightarrow> (u8 list, string) result) \<Rightarrow> RangeProof \<Rightarrow> ZkProof outcome" where
  "rp_to_zk_proof ser p =
     (case ser p of
        Ok proof_data \<Rightarrow>
          Ok \<lparr>zk_proof_type = ProofType.RangeProof, zk_proof_data = proof_data, zk_public_inputs = concat (rp_commitments p)\<rparr>
      | Err e \<Rightarrow> Panic (''Serialization failed: '' @ e)
      | Panic m \<Rightarrow> Panic m)"

definition AggregatedRangeProof_new ::
  "'z crypto_externals_scheme \<Rightarrow> RangeProof list \<Rightarrow> AggregatedRangeProof outcome" where
  "AggregatedRangeProof_new E proofs =
     (if proofs = [] then Err (CryptoError ''Cannot create aggregated proof from empty list'')
      else Ok \<lparr>arp_proofs = proofs,
               arp_total_commitment = bytes_list (hash_blake2b_multiple E (concat (map rp_commitments proofs)))\<rparr>)"

definition AggregatedRangeProof_verify :: "'z crypto_externals_scheme \<Rightarrow> AggregatedRangeProof \<Rightarrow> unit outcome" where
  "AggregatedRangeProof_verify E a =
     for_each (\<lambda>proof. RangeProof_verify E proof (bytes_list (hash_blake2b_multiple E (rp_commitments proof)))) (arp_proofs a)"

definition AggregatedRangeProof_total_size :: "AggregatedRangeProof \<Rightarrow> nat" where
  "AggregatedRangeProof_total_size a = sum_list (map RangeProof_size (arp_proofs a)) + length (arp_total_commitment a)"

definition RangeProofVerifier_new :: "u64 \<Rightarrow> u64 \<Rightarrow> RangeProofVerifier outcome" where
  "RangeProofVerifier_new min_value max_value =
     (if max_value < min_value then Err (CryptoError ''Invalid range: min > max'')
      else Ok \<lparr>rpv_min_value = min_value, rpv_max_value = max_value\<rparr>)"

definition rpv_verify_proof ::
  "'z crypto_externals_scheme \<Rightarrow> RangeProofVerifier \<Rightarrow> RangeProof \<Rightarrow> u8 list \<Rightarrow> unit outcome" where
  "rpv_verify_proof E v proof commitment =
     (if rp_range_min proof \<noteq> rpv_min_value v \<or> rp_range_max proof \<noteq> rpv_max_value v
      then Err (CryptoError ''Range mismatch in proof'')
      else RangeProof_verify E proof commitment)"

definition rpv_batch_verify ::
  "'z crypto_externals_scheme \<Rightarrow> RangeProofVerifier \<Rightarrow> (RangeProof \<times> u8 list) list \<Rightarrow> bool list outcome" where
  "rpv_batch_verify E v proofs = Ok (map (\<lambda>(proof, commitment). is_ok (rpv_verify_proof E v proof commitment)) proofs)"

definition generate_simplified ::
  "'z crypto_externals_scheme \<Rightarrow> u8 list \<Rightarrow> u64 \<Rightarrow> u64 \<Rightarrow> u64 \<Rightarrow> BulletproofStyle outcome" where
  "generate_simplified E randomness v lo hi =
     (if v < lo \<or> hi < v then Err (CryptoError ''Value out of range'')
      else let commitment = Commitment_new E (to_le_bytes v) randomness;
               proof_a = bytes_list (hash_blake2b E (to_le_bytes v));
               proof_s = bytes_list (hash_blake2b E randomness);
               tau_x = bytes_list (hash_blake2b_multiple E [proof_a, proof_s]);
               mu = bytes_list (hash_blake2b_multiple E [tau_x, to_le_bytes v]);
               t_hat = bytes_list (hash_blake2b_multiple E [mu, randomness]);
               inner_product_proof = bytes_list (hash_blake2b_multiple E [proof_a, proof_s, tau_x, mu, t_hat])
           in Ok \<lparr>bp_commitment = cm_value commitment, bp_proof_a = proof_a, bp_proof_s = proof_s, bp_tau_x = tau_x,
                  bp_mu = mu, bp_t_hat = t_hat, bp_inner_product_proof = inner_product_proof\<rparr>)"

definition verify_simplified :: "'z crypto_externals_scheme \<Rightarrow> BulletproofStyle \<Rightarrow> unit outcome" where
  "verify_simplified E p =
     (if bp_commitment p = [] \<or> bp_proof_a p = [] \<or> bp_proof_s p = [] \<or> bp_tau_x p = [] \<or> bp_mu p = [] \<or>
         bp_t_hat p = [] \<or> bp_inner_product_proof p = []
      then Err (CryptoError ''Invalid bulletproof: missing components'')
      else let recomputed_inner = bytes_list (hash_blake2b_multiple E
                 [bp_proof_a p, bp_proof_s p, bp_tau_x p, bp_mu p, bp_t_hat p])
           in if \<not> constant_time_eq recomputed_inner (bp_inner_product_proof p)
              then Err (CryptoError ''Bulletproof verification failed'')
              else Ok ())"

definition BulletproofStyle_size :: "BulletproofStyle \<Rightarrow> nat" where
  "BulletproofStyle_size p =
     length (bp_commitment p) + length (bp_proof_a p) + length (bp_proof_s p) + length (bp_tau_x p) + length (bp_mu p) +
     length (bp_t_hat p) + length (bp_inner_product_proof p)"

definition TallyRangeProof_generate ::
  "'z crypto_externals_scheme \<Rightarrow> u64 \<Rightarrow> u64 \<Rightarrow> u8 list \<Rightarrow> TallyRangeProof outcome" where
  "TallyRangeProof_generate E tally max_voters randomness =
     (let commitment = Commitment_new E (to_le_bytes tally) randomness
      in rbind (RangeProof_generate E tally 0 max_voters randomness) (\<lambda>range_proof.
           Ok \<lparr>trp_tally_commitment = cm_value commitment, trp_range_proof = range_proof, trp_max_voters = max_voters\<rparr>))"

definition TallyRangeProof_verify :: "'z crypto_externals_scheme \<Rightarrow> TallyRangeProof \<Rightarrow> unit outcome" where
  "TallyRangeProof_verify E t =
     (if rp_range_max (trp_range_proof t) \<noteq> trp_max_voters t then Err (CryptoError ''Max voters mismatch'')
      else RangeProof_verify E (trp_range_proof t) (trp_tally_commitment t))"

section \<open>Statistics\<close>

record ProofParams =
  pp_security_bits :: nat
  pp_max_proof_size :: nat
  pp_optimize :: bool

definition ProofParams_default :: ProofParams where
  "ProofParams_default = \<lparr>pp_security_bits = 128, pp_max_proof_size = 10 * 1024, pp_optimize = True\<rparr>"

text \<open>\<open>avg_proof_size\<close> is a \<open>usize\<close> that is multiplied, so it is a word of 64 bits here.\<close>

record ProofStats =
  prs_proofs_generated :: u64
  prs_proofs_verified :: u64
  prs_verification_failures :: u64
  prs_avg_proof_size :: u64
  prs_avg_verification_time_ms :: u64

definition ProofStats_new :: ProofStats where
  "ProofStats_new =
     \<lparr>prs_proofs_generated = 0, prs_proofs_verified = 0, prs_verification_failures = 0, prs_avg_proof_size = 0,
      prs_avg_verification_time_ms = 0\<rparr>"

text \<open>A counter that wraps to zero makes the division panic.\<close>

definition record_generation :: "u64 \<Rightarrow> ProofStats \<Rightarrow> ProofStats \<times> unit outcome" where
  "record_generation proof_size s =
     (let n = prs_proofs_generated s + 1; s' = s\<lparr>prs_proofs_generated := n\<rparr> in
      if n = 0 then (s', Panic ''attempt to divide by zero'')
      else (s'\<lparr>prs_avg_proof_size := (prs_avg_proof_size s * (n - 1) + proof_size) div n\<rparr>, Ok ()))"

definition record_verification :: "bool \<Rightarrow> u64 \<Rightarrow> ProofStats \<Rightarrow> ProofStats \<times> unit outcome" where
  "record_verification success time_ms s =
     (let n = prs_proofs_verified s + 1;
          s' = s\<lparr>prs_proofs_verified := n,
                 prs_verification_failures := (if success then prs_verification_failures s else prs_verification_failures s + 1)\<rparr> in
      if n = 0 then (s', Panic ''attempt to divide by zero'')
      else (s'\<lparr>prs_avg_verification_time_ms := (prs_avg_verification_time_ms s * (n - 1) + time_ms) div n\<rparr>, Ok ()))"

definition proof_success_rate :: "ProofStats \<Rightarrow> f64" where
  "proof_success_rate s =
     (if prs_proofs_verified s = 0 then Fin 0
      else f64_div (f64_of_nat (unat (prs_proofs_verified s - prs_verification_failures s)))
             (f64_of_nat (unat (prs_proofs_verified s))))"

section \<open>Facts\<close>

lemma less_bit_length: "n < 2 ^ bit_length n"
proof (induction n rule: bit_length.induct)
  case (1 n)
  show ?case
  proof (cases "n = 0")
    case False
    with 1 have "n div 2 < 2 ^ bit_length (n div 2)" by blast
    with False show ?thesis by (subst bit_length.simps) auto
  qed (simp add: bit_length.simps)
qed

lemma bit_length_le: "n < 2 ^ k \<Longrightarrow> bit_length n \<le> k"
proof (induction n arbitrary: k rule: bit_length.induct)
  case (1 n)
  show ?case
  proof (cases "n = 0")
    case False
    with 1(2) obtain j where k: "k = Suc j" by (cases k) auto
    with 1(2) have "n div 2 < 2 ^ j" by auto
    with 1(1) False k show ?thesis by (subst bit_length.simps) auto
  qed (simp add: bit_length.simps)
qed

lemma bits_needed_bounds: "v \<le> hi \<Longrightarrow> unat v < 2 ^ bits_needed hi" "1 \<le> bits_needed hi" "bits_needed hi \<le> 64"
proof -
  have hi: "unat hi < 2 ^ bits_needed hi"
    using less_bit_length [of "unat hi"] by (auto simp: bits_needed_def)
  show "v \<le> hi \<Longrightarrow> unat v < 2 ^ bits_needed hi" using hi by (auto simp: word_le_nat_alt)
  have "unat hi < 2 ^ 64" using unsigned_less [of hi] by simp
  then show "bits_needed hi \<le> 64" using bit_length_le [of "unat hi" 64] by (auto simp: bits_needed_def)
  show "1 \<le> bits_needed hi"
  proof (cases "hi = 0")
    case False
    then have "0 < unat hi" by (simp add: unat_gt_0)
    then have "bit_length (unat hi) = Suc (bit_length (unat hi div 2))" by (subst bit_length.simps) simp
    with False show ?thesis by (simp add: bits_needed_def)
  qed (simp add: bits_needed_def)
qed

lemma unat_to_bits:
  assumes "i < n"
  shows "unat (to_bits v n ! i) = unat v div 2 ^ i mod 2"
proof -
  have "unat (drop_bit i v) = unat v div 2 ^ i"
    using take_bit_nat_eq_self [OF unsigned_less [of v]] by (simp add: unsigned_drop_bit_eq) (simp add: drop_bit_eq_div)
  then have "unat (drop_bit i v AND 1) = unat v div 2 ^ i mod 2"
    unfolding and_one_eq unat_mod_distrib by simp
  moreover have "unat (ucast w :: u8) = unat w mod 256" for w :: u64
    by (simp add: unsigned_ucast_eq) (simp add: take_bit_eq_mod)
  ultimately have "unat (ucast (drop_bit i v AND 1) :: u8) = unat v div 2 ^ i mod 2" by simp
  with assms show ?thesis by (simp add: to_bits_def)
qed

lemma length_concat_const: "\<forall>c \<in> set xs. length c = n \<Longrightarrow> length (concat xs) = n * length xs"
  by (induction xs) auto

lemma sum_binary_digits: "(\<Sum>i < n. (x div 2 ^ i mod 2) * 2 ^ i) = x mod (2 :: nat) ^ n"
proof (induction n)
  case (Suc n)
  have "x mod 2 ^ Suc n = 2 ^ n * (x div 2 ^ n mod 2) + x mod 2 ^ n" by (metis mod_mult2_eq power_Suc2)
  with Suc show ?case by (simp add: mult.commute)
qed simp

text \<open>The range a proof claims plays no part in its verification.\<close>

lemma RangeProof_verify_ignores_range:
  "RangeProof_verify E (p\<lparr>rp_range_min := lo, rp_range_max := hi\<rparr>) c = RangeProof_verify E p c"
  by (simp add: RangeProof_verify_def)

lemma RangeProof_generate_verify:
  assumes "RangeProof_generate E v lo hi r = Ok p"
  shows "RangeProof_verify E p (bytes_list (hash_blake2b_multiple E (rp_commitments p))) = Ok ()"
proof -
  have "to_bits v (bits_needed hi) \<noteq> []"
    using bits_needed_bounds(2) [of hi] by (simp add: to_bits_def)
  with assms show ?thesis
    by (auto simp: RangeProof_generate_def RangeProof_verify_def Let_def enumerate_eq_zip split: if_splits)
qed

lemma AggregatedRangeProof_verify_generated:
  assumes "AggregatedRangeProof_new E ps = Ok a" and "\<forall>p \<in> set ps. \<exists>v lo hi r. RangeProof_generate E v lo hi r = Ok p"
  shows "AggregatedRangeProof_verify E a = Ok ()"
  using assms RangeProof_generate_verify
  by (fastforce simp: AggregatedRangeProof_new_def AggregatedRangeProof_verify_def outcome_simps split: if_splits)

lemma generate_simplified_verify:
  "generate_simplified E r v lo hi = Ok p \<Longrightarrow> verify_simplified E p = Ok ()"
  by (auto simp: generate_simplified_def verify_simplified_def Let_def Commitment_new_def split: if_splits)

lemma PrivateBallot_facts:
  assumes "signature_laws E" and "keypair_wf E kp" and "PrivateBallot_create E d vote key eid kp = Ok b"
  obtains enc sig where "encrypt E (bd_nonce d) vote key = Ok enc" "pb_encrypted_vote b = enc"
    "pb_election_id b = eid" "pb_voter_signature b = sig"
    "sign E (compute_fingerprint E enc (pb_commitment b) eid) kp = Ok sig"
    "BallotValidityProof_verify E (pb_validity_proof b) enc (pb_commitment b) eid = Ok ()"
    "verify_opening E (pb_commitment b) vote (bd_randomness d)"
  using assms(3)
  by (auto simp: PrivateBallot_create_def outcome_simps Let_def BallotValidityProof_generate_def
      BallotValidityProof_verify_def verify_opening_def Commitment_new_def)

text \<open>What a receipt-free ballot encrypts is a digest: two votes can be told apart only by their hash.\<close>

lemma receipt_free_encrypts_digest:
  assumes "aead_laws E" and "ReceiptFreeBallot_create E rnd d vote key eid kp = Ok r"
  shows "decrypt E (pb_encrypted_vote (rfb_ballot r)) key = Ok (bytes_list (hash_blake2b_multiple E [vote, rnd]))"
  using assms(2) plain_box.unseal_seal [OF assms(1)]
  by (auto simp: ReceiptFreeBallot_create_def PrivateBallot_create_def outcome_simps Let_def)

section \<open>Properties\<close>

text \<open>
  A private ballot keeps the vote and proves itself. What \<open>PrivateBallot::create\<close> makes passes
  \<open>verify\<close> and the verifier of its election under the voter's key, is refused by the verifier of any
  other election, decrypts under the election key to the vote, and its commitment opens to the vote.
\<close>

theorem private_ballot_roundtrip:
  assumes "signature_laws E" and "aead_laws E" and "keypair_wf E kp"
    and "PrivateBallot_create E d vote key eid kp = Ok b"
  shows "(verify_ballot E v b (kp_public kp) = Ok () \<longleftrightarrow> bvr_election_id v = eid) \<and>
    PrivateBallot_verify E b (kp_public kp) = Ok () \<and>
    decrypt E (pb_encrypted_vote b) key = Ok vote \<and> verify_opening E (pb_commitment b) vote (bd_randomness d)"
proof -
  obtain enc sig where b: "encrypt E (bd_nonce d) vote key = Ok enc" "pb_encrypted_vote b = enc"
      "pb_election_id b = eid" "pb_voter_signature b = sig"
      "sign E (compute_fingerprint E enc (pb_commitment b) eid) kp = Ok sig"
      "BallotValidityProof_verify E (pb_validity_proof b) enc (pb_commitment b) eid = Ok ()"
      "verify_opening E (pb_commitment b) vote (bd_randomness d)"
    by (rule PrivateBallot_facts [OF assms(1,3,4)])
  have "verify E (compute_fingerprint E enc (pb_commitment b) eid) sig (kp_public kp) = Ok ()"
    using assms(1,3) b(5) by (intro ed25519.check_make) simp_all
  then have "PrivateBallot_verify E b (kp_public kp) = Ok ()" using b by (simp add: PrivateBallot_verify_def)
  then show ?thesis
    using b plain_box.unseal_seal [OF assms(2) b(1)] by (auto simp: verify_ballot_def)
qed

definition sample_private_ballot :: "PrivateBallot outcome" where
  "sample_private_ballot = PrivateBallot_create sample_crypto
     \<lparr>bd_nonce = bytes_fill 1, bd_randomness = [2], bd_proof_randomness = [3], bd_timestamp = 4\<rparr> [65]
     (EncryptionKey (bytes_fill 6)) (bytes_fill 7) (KeyPair_generate sample_crypto (bytes_fill 8))"

lemma sample_private_ballot_Ok: "sample_private_ballot = Ok (ok_value sample_private_ballot)"
  by (simp add: sample_private_ballot_def PrivateBallot_create_def BallotValidityProof_generate_def encrypt_def sign_def
      Let_def sample_crypto_def)

theorem private_ballot_roundtrip_witness:
  "PrivateBallot_verify sample_crypto (ok_value sample_private_ballot)
     (kp_public (KeyPair_generate sample_crypto (bytes_fill 8))) = Ok () \<and>
   decrypt sample_crypto (pb_encrypted_vote (ok_value sample_private_ballot)) (EncryptionKey (bytes_fill 6)) = Ok [65]"
  using private_ballot_roundtrip [OF sample_signature_laws sample_aead_laws keypair_wf_generate
      sample_private_ballot_Ok [unfolded sample_private_ballot_def]]
  by (simp add: sample_private_ballot_def)

text \<open>
  A range proof commits to the value bit by bit. For a value that is not above the upper bound
  the number of bits taken is between 1 and 64 and enough: the bits make up the value; a value
  outside the range gets an error and no proof.
\<close>

theorem range_proof_bits:
  assumes "RangeProof_generate E v lo hi randomness = Ok p"
  shows "lo \<le> v \<and> v \<le> hi \<and> length (rp_commitments p) = bits_needed hi \<and> 1 \<le> bits_needed hi \<and> bits_needed hi \<le> 64 \<and>
    (\<Sum>i < bits_needed hi. unat (to_bits v (bits_needed hi) ! i) * 2 ^ i) = unat v \<and>
    (\<forall>i < bits_needed hi. rp_commitments p ! i =
       cm_value (Commitment_new E [to_bits v (bits_needed hi) ! i] (bit_randomness E randomness i)))"
proof -
  have range: "lo \<le> v" "v \<le> hi" and p: "rp_commitments p = map (bit_commitment E randomness) (enumerate 0 (to_bits v (bits_needed hi)))"
    using assms by (auto simp: RangeProof_generate_def Let_def not_less split: if_splits)
  have "(\<Sum>i < bits_needed hi. unat (to_bits v (bits_needed hi) ! i) * 2 ^ i) =
        (\<Sum>i < bits_needed hi. (unat v div 2 ^ i mod 2) * 2 ^ i)"
    by (intro sum.cong) (simp_all add: unat_to_bits)
  also have "\<dots> = unat v" unfolding sum_binary_digits using bits_needed_bounds(1) [OF range(2)] by simp
  finally show ?thesis
    using range bits_needed_bounds(2,3) [of hi]
    by (simp add: p to_bits_def enumerate_eq_zip bit_commitment_def)
qed

definition sample_range_proof :: "RangeProof outcome" where
  "sample_range_proof = RangeProof_generate sample_crypto 1 0 1 (replicate 32 0)"

lemma sample_range_proof_Ok: "sample_range_proof = Ok (ok_value sample_range_proof)"
  by (simp add: sample_range_proof_def RangeProof_generate_def Let_def)

theorem range_proof_bits_witness:
  "length (rp_commitments (ok_value sample_range_proof)) = bits_needed 1 \<and>
   (\<Sum>i < bits_needed 1. unat (to_bits 1 (bits_needed 1) ! i) * 2 ^ i) = 1"
  using range_proof_bits [OF sample_range_proof_Ok [unfolded sample_range_proof_def]]
  by (simp add: sample_range_proof_def)

text \<open>
  The proof that a tally is in range never verifies. \<open>TallyRangeProof::verify\<close> compares the
  commitment to the tally with the hash of the commitments to its bits; for the 32 random bytes
  that \<open>generate\<close> is given the two are hashes of inputs of different length, so without a collision
  the proof that \<open>generate\<close> makes is refused.
\<close>

theorem tally_range_proof_refused:
  assumes "TallyRangeProof_generate E tally max_voters randomness = Ok t" and "length randomness = 32"
    and "inj_on (blake2b_256 E) {to_le_bytes tally @ randomness, concat (rp_commitments (trp_range_proof t))}"
  shows "TallyRangeProof_verify E t = Err (CryptoError ''Range proof verification failed'')"
proof -
  obtain p where p: "RangeProof_generate E tally 0 max_voters randomness = Ok p"
    and t: "t = \<lparr>trp_tally_commitment = bytes_list (blake2b_256 E (to_le_bytes tally @ randomness)),
                 trp_range_proof = p, trp_max_voters = max_voters\<rparr>"
    using assms(1) by (auto simp: TallyRangeProof_generate_def outcome_simps Commitment_new_def hash_blake2b_multiple_def)
  have lens: "\<forall>c \<in> set (rp_commitments p). length c = 32"
    and shape: "rp_commitments p \<noteq> []" "length (rp_commitments p) = length (rp_challenges p)"
      "length (rp_commitments p) = length (rp_responses p)" "rp_range_max p = max_voters"
    using p RangeProof_generate_verify [OF p]
    by (auto simp: RangeProof_generate_def RangeProof_verify_def Let_def bit_commitment_def Commitment_new_def split: if_splits)
  have "length (concat (rp_commitments p)) = 32 * length (rp_commitments p)"
    using lens by (rule length_concat_const)
  then have "length (concat (rp_commitments p)) mod 32 = 0" by simp
  moreover have "length (to_le_bytes tally @ randomness) mod 32 = 8" using assms(2) by (simp add: length_to_le_bytes)
  ultimately have "to_le_bytes tally @ randomness \<noteq> concat (rp_commitments p)" by (metis zero_neq_numeral)
  then have "blake2b_256 E (concat (rp_commitments p)) \<noteq> blake2b_256 E (to_le_bytes tally @ randomness)"
    using assms(3) by (auto simp: t inj_on_def)
  with shape show ?thesis
    by (simp add: t TallyRangeProof_verify_def RangeProof_verify_def hash_blake2b_multiple_def)
qed

definition sample_tally_proof :: "TallyRangeProof outcome" where
  "sample_tally_proof = TallyRangeProof_generate sample_crypto 1 1 (replicate 32 0)"

lemma sample_tally_proof_Ok: "sample_tally_proof = Ok (ok_value sample_tally_proof)"
  by (simp add: sample_tally_proof_def TallyRangeProof_generate_def RangeProof_generate_def Let_def)

lemma to_le_bytes_1: "to_le_bytes (1 :: u64) = [1, 0, 0, 0, 0, 0, 0, 0]"
  by code_simp

lemma bits_needed_1: "bits_needed 1 = 1"
  by (simp add: bits_needed_def bit_length.simps)

lemma sample_tally_proof_commitments:
  "rp_commitments (trp_range_proof (ok_value sample_tally_proof)) = [replicate 32 1]"
  by (simp add: sample_tally_proof_def TallyRangeProof_generate_def RangeProof_generate_def Let_def bits_needed_1
      to_bits_def bit_commitment_def bit_randomness_def Commitment_new_def hash_blake2b_multiple_def sample_crypto_def
      byte_simps sum_list_replicate)

theorem tally_range_proof_refused_witness:
  "TallyRangeProof_verify sample_crypto (ok_value sample_tally_proof) =
   Err (CryptoError ''Range proof verification failed'')"
  unfolding sample_tally_proof_def
proof (rule tally_range_proof_refused [OF sample_tally_proof_Ok [unfolded sample_tally_proof_def]])
  show "inj_on (blake2b_256 sample_crypto) {to_le_bytes (1 :: u64) @ replicate 32 0,
      concat (rp_commitments (trp_range_proof (ok_value (TallyRangeProof_generate sample_crypto 1 1 (replicate 32 0)))))}"
    unfolding sample_tally_proof_commitments [unfolded sample_tally_proof_def]
    by (auto simp: sample_crypto_def sum_list_replicate to_le_bytes_1)
qed simp

end
