(* ===== verification/Errors.thy ===== *)
theory Errors
  imports Common_Types
begin

text \<open>
  The messages of the errors, as the \<open>thiserror\<close> attributes of \<open>common/src/errors.rs\<close> give them: the
  \<open>Display\<close> of \<open>VotingError\<close>, which other components store and send. The text of an I/O error is
  the string the constructor carries.
\<close>

primrec VotingError_display :: "VotingError \<Rightarrow> string" where
  "VotingError_display (InvalidBlock s) = ''Invalid block: '' @ s"
| "VotingError_display (InvalidBlockHash expected actual) = ''Invalid block hash: expected '' @ expected @ '', got '' @ actual"
| "VotingError_display (InvalidPreviousHash s) = ''Invalid previous hash: '' @ s"
| "VotingError_display (BlockHeightMismatch expected actual) = ''Block height mismatch: expected '' @ show_nat (unat expected) @ '', got '' @ show_nat (unat actual)"
| "VotingError_display (GenesisError s) = ''Genesis block error: '' @ s"
| "VotingError_display (InvalidTransaction s) = ''Invalid transaction: '' @ s"
| "VotingError_display InvalidSignature = ''Invalid transaction signature''"
| "VotingError_display (DuplicateTransaction s) = ''Transaction already exists: '' @ s"
| "VotingError_display (InvalidVote s) = ''Invalid vote: '' @ s"
| "VotingError_display (CryptoError s) = ''Cryptographic error: '' @ s"
| "VotingError_display (KeyGenerationError s) = ''Key generation failed: '' @ s"
| "VotingError_display SignatureVerificationFailed = ''Signature verification failed''"
| "VotingError_display (HashError s) = ''Hash computation failed: '' @ s"
| "VotingError_display InvalidPublicKey = ''Invalid public key''"
| "VotingError_display InvalidPrivateKey = ''Invalid private key''"
| "VotingError_display (StorageError s) = ''Storage error: '' @ s"
| "VotingError_display (DatabaseError s) = ''Database error: '' @ s"
| "VotingError_display (SerializationError s) = ''Serialization error: '' @ s"
| "VotingError_display (DeserializationError s) = ''Deserialization error: '' @ s"
| "VotingError_display (BlockNotFound s) = ''Block not found: '' @ s"
| "VotingError_display (TransactionNotFound s) = ''Transaction not found: '' @ s"
| "VotingError_display (NetworkError s) = ''Network error: '' @ s"
| "VotingError_display (PeerConnectionError s) = ''Peer connection failed: '' @ s"
| "VotingError_display (SyncError s) = ''Failed to sync blockchain: '' @ s"
| "VotingError_display (InvalidMessage s) = ''Invalid peer message: '' @ s"
| "VotingError_display (PeerTimeout s) = ''Peer timeout: '' @ s"
| "VotingError_display (ConsensusError s) = ''Consensus error: '' @ s"
| "VotingError_display (InvalidValidator s) = ''Invalid validator: '' @ s"
| "VotingError_display InsufficientValidators = ''Insufficient validator signatures''"
| "VotingError_display FinalityNotReached = ''Block finality not reached''"
| "VotingError_display NodeNotInitialized = ''Node not initialized''"
| "VotingError_display (ConfigError s) = ''Node configuration error: '' @ s"
| "VotingError_display NodeAlreadyRunning = ''Node already running''"
| "VotingError_display NodeNotRunning = ''Node not running''"
| "VotingError_display (VoterNotEligible s) = ''Voter not eligible: '' @ s"
| "VotingError_display (ElectionNotFound s) = ''Election not found: '' @ s"
| "VotingError_display ElectionNotActive = ''Election not active''"
| "VotingError_display ElectionClosed = ''Election already closed''"
| "VotingError_display AlreadyVoted = ''Voter already voted''"
| "VotingError_display (InvalidBallot s) = ''Invalid ballot: '' @ s"
| "VotingError_display (InvalidCandidate s) = ''Invalid candidate: '' @ s"
| "VotingError_display (RpcError s) = ''RPC error: '' @ s"
| "VotingError_display (InvalidRpcRequest s) = ''Invalid RPC request: '' @ s"
| "VotingError_display RpcTimeout = ''RPC timeout''"
| "VotingError_display (InternalError s) = ''Internal error: '' @ s"
| "VotingError_display (NotImplemented s) = ''Not implemented: '' @ s"
| "VotingError_display (InvalidInput s) = ''Invalid input: '' @ s"
| "VotingError_display (OperationFailed s) = ''Operation failed: '' @ s"
| "VotingError_display (PermissionDenied s) = ''Permission denied: '' @ s"
| "VotingError_display (IoError s) = ''IO error: '' @ s"
| "VotingError_display (ParseError s) = ''Parse error: '' @ s"
| "VotingError_display (InvalidHex e) = ''Invalid hex string''"
| "VotingError_display (InsufficientData s) = ''Insufficient data: '' @ s"
| "VotingError_display (ConfigurationError s) = ''Configuration error: '' @ s"

text \<open>The two conversions, from \<open>serde_json::Error\<close> and \<open>bincode::Error\<close>, take the message of the error.\<close>

definition from_serde_json :: "string \<Rightarrow> VotingError" where
  "from_serde_json err = SerializationError err"

definition from_bincode :: "string \<Rightarrow> VotingError" where
  "from_bincode err = SerializationError err"

text \<open>No error has an empty message.\<close>

lemma VotingError_display_nonempty: "VotingError_display e \<noteq> []"
  by (cases e) simp_all

end
