(* ===== verification/Verification.thy ===== *)
theory Verification
  imports Vote_Casting Zkp Errors
begin

text \<open>
  \<open>voting/src/verification.rs\<close>: the verifier of submissions, ballots and voters, the integrity checks
  over the ballots of an election and the audit trail, with \<open>CastBallot::to_private_ballot\<close> of
  \<open>ballot.rs\<close>, which only the verifier calls. The clock and the random values are arguments.
\<close>

section \<open>Data\<close>

record VerificationResult =
  vres_voter_id :: VoterId
  vres_is_valid :: bool
  vres_errors :: "string list"
  vres_warnings :: "string list"
  vres_verified_at :: Timestamp

record VoteVerifier =
  vvf_election :: Election
  vvf_ballot_verifier :: "BallotVerifier option"

record IntegrityChecker =
  ic_election_id :: ElectionId

datatype IntegrityIssue =
    ElectionMismatch
  | EmptyBallot
  | MissingCommitment
  | MissingTransactionId
  | DuplicateBallot
  | DuplicateVoter
  | InvalidTimestamp
  | TimestampOrderViolation

record IntegrityReport =
  irep_election_id :: ElectionId
  irep_issues :: "IntegrityIssue list"
  irep_checked_at :: Timestamp

record AuditRecord =
  ar_voter_id :: VoterId
  ar_verification_result :: VerificationResult
  ar_verifier_id :: string
  ar_recorded_at :: Timestamp

record AuditTrail =
  at_verification_records :: "AuditRecord list"

text \<open>What the verification of one submission draws and reads from the clock.\<close>

record VerifyDraws =
  vd_verified_at :: Timestamp
  vd_key_seed :: "32 bytes"
  vd_election_key :: EncryptionKey
  vd_ballot :: BallotDraws
  vd_current_time :: Timestamp

section \<open>Results\<close>

definition VerificationResult_new :: "Timestamp \<Rightarrow> VoterId \<Rightarrow> VerificationResult" where
  "VerificationResult_new now voter_id =
     \<lparr>vres_voter_id = voter_id, vres_is_valid = False, vres_errors = [], vres_warnings = [], vres_verified_at = now\<rparr>"

definition mark_valid :: "VerificationResult \<Rightarrow> VerificationResult" where
  "mark_valid r = (if vres_errors r = [] then r\<lparr>vres_is_valid := True\<rparr> else r)"

definition add_error :: "string \<Rightarrow> VerificationResult \<Rightarrow> VerificationResult" where
  "add_error e r = r\<lparr>vres_errors := vres_errors r @ [e], vres_is_valid := False\<rparr>"

definition add_warning :: "string \<Rightarrow> VerificationResult \<Rightarrow> VerificationResult" where
  "add_warning w r = r\<lparr>vres_warnings := vres_warnings r @ [w]\<rparr>"

definition has_errors :: "VerificationResult \<Rightarrow> bool" where
  "has_errors r \<longleftrightarrow> vres_errors r \<noteq> []"

definition has_warnings :: "VerificationResult \<Rightarrow> bool" where
  "has_warnings r \<longleftrightarrow> vres_warnings r \<noteq> []"

definition error_count :: "VerificationResult \<Rightarrow> nat" where
  "error_count r = length (vres_errors r)"

definition warning_count :: "VerificationResult \<Rightarrow> nat" where
  "warning_count r = length (vres_warnings r)"

text \<open>\<open>v.join(", ")\<close>\<close>

fun join_comma :: "string list \<Rightarrow> string" where
  "join_comma [] = ''''"
| "join_comma [s] = s"
| "join_comma (s # t # ss) = s @ '', '' @ join_comma (t # ss)"

definition VerificationResult_display :: "VerificationResult \<Rightarrow> string" where
  "VerificationResult_display r =
     (if vres_is_valid r then ''Valid'' else ''Invalid'') @
     (if vres_errors r \<noteq> [] then '' - Errors: '' @ join_comma (vres_errors r) else '''') @
     (if vres_warnings r \<noteq> [] then '' - Warnings: '' @ join_comma (vres_warnings r) else '''')"

text \<open>\<open>if let Err(e) = r { h(e) } else { go on }\<close>\<close>

fun if_let_err :: "unit outcome \<Rightarrow> (VotingError \<Rightarrow> 'a outcome) \<Rightarrow> 'a outcome \<Rightarrow> 'a outcome" where
  "if_let_err (Ok u) h k = k"
| "if_let_err (Err e) h k = h e"
| "if_let_err (Panic m) h k = Panic m"

section \<open>The verifier\<close>

definition to_private_ballot ::
  "'z crypto_externals_scheme \<Rightarrow> EncryptionKey \<Rightarrow> BallotDraws \<Rightarrow> CastBallot \<Rightarrow> KeyPair \<Rightarrow> PrivateBallot outcome" where
  "to_private_ballot E election_key d cb voter_keypair =
     PrivateBallot_create E d (EncryptedData_to_bytes (cb_encrypted_ballot cb)) election_key
       (election_id_bytes (cb_election_id cb)) voter_keypair"

definition create_ballot_verifier :: "Election \<Rightarrow> BallotVerifier" where
  "create_ballot_verifier election =
     (let valid_candidates = map cand_id (el_candidates election)
      in BallotVerifier_new (cpk_from_common (el_authority_key election)) valid_candidates
           (election_id_bytes (el_id election)))"

definition VoteVerifier_new :: "Election \<Rightarrow> VoteVerifier" where
  "VoteVerifier_new election =
     \<lparr>vvf_election = election, vvf_ballot_verifier = Some (create_ballot_verifier election)\<rparr>"

text \<open>The end of \<open>verify_submission\<close>, after the ballot verifier has been asked.\<close>

definition finish_submission :: "Election \<Rightarrow> Timestamp \<Rightarrow> VerificationResult \<Rightarrow> VerificationResult outcome" where
  "finish_submission election current_time r =
     (let r = (if \<not> Election_is_active election current_time
               then add_warning ''Election is not currently active'' r else r)
      in Ok (mark_valid r))"

definition verify_submission ::
  "'z crypto_externals_scheme \<Rightarrow> VerifyDraws \<Rightarrow> VoteVerifier \<Rightarrow> VoteSubmission \<Rightarrow> PublicKey \<Rightarrow> VerificationResult outcome" where
  "verify_submission E d v submission voter_public_key =
     (let r = VerificationResult_new (vd_verified_at d) (vs_voter_id submission) in
      if cb_election_id (vs_cast_ballot submission) \<noteq> el_id (vvf_election v)
      then Ok (add_error ''Election ID mismatch'' r)
      else if_let_err (VoteSubmission_verify E submission voter_public_key)
        (\<lambda>e. Ok (add_error (''Signature verification failed: '' @ VotingError_display e) r))
        (case vvf_ballot_verifier v of
           None \<Rightarrow> finish_submission (vvf_election v) (vd_current_time d) r
         | Some verifier \<Rightarrow>
             rbind (to_private_ballot E (vd_election_key d) (vd_ballot d) (vs_cast_ballot submission)
                      (KeyPair_generate E (vd_key_seed d))) (\<lambda>private_ballot.
               if_let_err (verify_ballot E verifier private_ballot (cpk_from_common voter_public_key))
                 (\<lambda>e. Ok (add_error (''Ballot verification failed: '' @ VotingError_display e) r))
                 (finish_submission (vvf_election v) (vd_current_time d) r))))"

definition verify_cast_ballot ::
  "'z crypto_externals_scheme \<Rightarrow> Timestamp \<Rightarrow> VoteVerifier \<Rightarrow> CastBallot \<Rightarrow> PublicKey \<Rightarrow> VerificationResult outcome" where
  "verify_cast_ballot E now v cast_ballot voter_public_key =
     (let r = VerificationResult_new now (cb_voter_id cast_ballot) in
      if cb_election_id cast_ballot \<noteq> el_id (vvf_election v) then Ok (add_error ''Election ID mismatch'' r)
      else if_let_err (CastBallot_verify E cast_ballot voter_public_key)
        (\<lambda>e. Ok (add_error (''Ballot signature verification failed: '' @ VotingError_display e) r))
        (Ok (mark_valid r)))"

definition verify_voter_eligibility :: "Timestamp \<Rightarrow> VoteVerifier \<Rightarrow> Voter \<Rightarrow> Timestamp \<Rightarrow> VerificationResult outcome" where
  "verify_voter_eligibility now v voter current_time =
     (let r = VerificationResult_new now (vo_id voter);
          fail = (\<lambda>e. Ok (add_error e r)) in
      if \<not> Voter_is_registered voter then fail ''Voter is not registered''
      else case vo_credentials voter of
        None \<Rightarrow> fail ''Voter has no credentials''
      | Some credentials \<Rightarrow>
          if \<not> credentials_is_valid credentials current_time then fail ''Voter credentials have expired''
          else if Voter_has_voted voter (el_id (vvf_election v)) then fail ''Voter has already voted in this election''
          else Ok (mark_valid r))"

definition check_choice :: "Candidate list \<Rightarrow> BallotChoice \<Rightarrow> VerificationResult \<Rightarrow> VerificationResult" where
  "check_choice candidates choice r =
     (let candidate_exists = list_ex (\<lambda>c. cand_id c = bch_candidate_id choice) candidates
      in if \<not> candidate_exists \<and> bch_candidate_id choice \<noteq> ''write_in''
         then add_error (''Invalid candidate ID: '' @ bch_candidate_id choice) r else r)"

definition verify_ballot_structure :: "Timestamp \<Rightarrow> VoteVerifier \<Rightarrow> Ballot \<Rightarrow> VerificationResult outcome" where
  "verify_ballot_structure now v ballot =
     (let r = VerificationResult_new now (VoterId (bytes_fill 0)) in
      if bal_election_id ballot \<noteq> el_id (vvf_election v) then Ok (add_error ''Ballot election ID mismatch'' r)
      else if_let_err (Ballot_validate ballot)
        (\<lambda>e. Ok (add_error (''Ballot validation failed: '' @ VotingError_display e) r))
        (let r = fold (check_choice (el_candidates (vvf_election v))) (bal_choices ballot) r
         in Ok (if vres_errors r = [] then mark_valid r else r)))"

text \<open>Every submission comes with the draws its verification makes.\<close>

definition batch_verify_submissions ::
  "'z crypto_externals_scheme \<Rightarrow> VoteVerifier \<Rightarrow> (VerifyDraws \<times> VoteSubmission \<times> PublicKey) list \<Rightarrow>
   VerificationResult list outcome" where
  "batch_verify_submissions E v submissions =
     for_collect (\<lambda>(d, submission, public_key). verify_submission E d v submission public_key) submissions"

section \<open>Integrity checks\<close>

definition IntegrityReport_new :: "Timestamp \<Rightarrow> ElectionId \<Rightarrow> IntegrityReport" where
  "IntegrityReport_new now election_id = \<lparr>irep_election_id = election_id, irep_issues = [], irep_checked_at = now\<rparr>"

definition add_issue :: "IntegrityIssue \<Rightarrow> IntegrityReport \<Rightarrow> IntegrityReport" where
  "add_issue i r = r\<lparr>irep_issues := irep_issues r @ [i]\<rparr>"

definition irep_is_valid :: "IntegrityReport \<Rightarrow> bool" where
  "irep_is_valid r \<longleftrightarrow> irep_issues r = []"

definition issue_count :: "IntegrityReport \<Rightarrow> nat" where
  "issue_count r = length (irep_issues r)"

definition has_critical_issues :: "IntegrityReport \<Rightarrow> bool" where
  "has_critical_issues r \<longleftrightarrow> list_ex (\<lambda>i. i = DuplicateVoter) (irep_issues r)"

fun IntegrityIssue_display :: "IntegrityIssue \<Rightarrow> string" where
  "IntegrityIssue_display ElectionMismatch = ''Election ID mismatch''"
| "IntegrityIssue_display EmptyBallot = ''Empty ballot''"
| "IntegrityIssue_display MissingCommitment = ''Missing ballot commitment''"
| "IntegrityIssue_display MissingTransactionId = ''Missing transaction ID''"
| "IntegrityIssue_display DuplicateBallot = ''Duplicate ballot detected''"
| "IntegrityIssue_display DuplicateVoter = ''Duplicate voter detected''"
| "IntegrityIssue_display InvalidTimestamp = ''Invalid timestamp''"
| "IntegrityIssue_display TimestampOrderViolation = ''Timestamp order violation''"

definition IntegrityChecker_new :: "ElectionId \<Rightarrow> IntegrityChecker" where
  "IntegrityChecker_new election_id = \<lparr>ic_election_id = election_id\<rparr>"

definition issue_if :: "bool \<Rightarrow> IntegrityIssue \<Rightarrow> IntegrityReport \<Rightarrow> IntegrityReport" where
  "issue_if c i r = (if c then add_issue i r else r)"

definition check_ballot_integrity :: "Timestamp \<Rightarrow> IntegrityChecker \<Rightarrow> CastBallot \<Rightarrow> IntegrityReport outcome" where
  "check_ballot_integrity now c cb =
     (let r = IntegrityReport_new now (ic_election_id c);
          r = issue_if (cb_election_id cb \<noteq> ic_election_id c) ElectionMismatch r;
          r = issue_if (ed_ciphertext (cb_encrypted_ballot cb) = []) EmptyBallot r;
          r = issue_if (cb_ballot_commitment cb = []) MissingCommitment r;
          r = issue_if (cb_transaction_id cb = None) MissingTransactionId r
      in Ok r)"

text \<open>\<open>HashSet::insert\<close> says whether the element is new; one round of the loop of \<open>check_vote_chain\<close>.\<close>

definition vote_chain_round ::
  "ElectionId \<Rightarrow> CastBallot \<Rightarrow> IntegrityReport \<times> BallotId fset \<times> VoterId fset \<Rightarrow> IntegrityReport \<times> BallotId fset \<times> VoterId fset" where
  "vote_chain_round election_id b = (\<lambda>(r, ballot_ids, voter_ids).
     (let r = issue_if (cb_election_id b \<noteq> election_id) ElectionMismatch r;
          r = issue_if (cb_ballot_id b |\<in>| ballot_ids) DuplicateBallot r;
          r = issue_if (cb_voter_id b |\<in>| voter_ids) DuplicateVoter r
      in (r, finsert (cb_ballot_id b) ballot_ids, finsert (cb_voter_id b) voter_ids)))"

definition check_vote_chain :: "Timestamp \<Rightarrow> IntegrityChecker \<Rightarrow> CastBallot list \<Rightarrow> IntegrityReport outcome" where
  "check_vote_chain now c cast_ballots =
     Ok (fst (fold (vote_chain_round (ic_election_id c)) cast_ballots
               (IntegrityReport_new now (ic_election_id c), {||}, {||})))"

text \<open>\<open>sort_by_key\<close> is stable, \<open>windows(2)\<close> are the adjacent pairs; the loop stops at the first violation.\<close>

definition windows2 :: "'a list \<Rightarrow> ('a \<times> 'a) list" where
  "windows2 xs = zip xs (tl xs)"

definition verify_timestamps :: "Timestamp \<Rightarrow> IntegrityChecker \<Rightarrow> CastBallot list \<Rightarrow> IntegrityReport outcome" where
  "verify_timestamps now c cast_ballots =
     (let r = IntegrityReport_new now (ic_election_id c);
          r = fold (\<lambda>b. issue_if (cb_cast_at b = 0) InvalidTimestamp) cast_ballots r;
          sorted_ballots = sort_key cb_cast_at cast_ballots
      in Ok (issue_if (list_ex (\<lambda>(a, b). cb_cast_at b < cb_cast_at a) (windows2 sorted_ballots)) TimestampOrderViolation r))"

section \<open>The audit trail\<close>

definition AuditTrail_new :: AuditTrail where
  "AuditTrail_new = \<lparr>at_verification_records = []\<rparr>"

definition at_record_verification ::
  "Timestamp \<Rightarrow> VoterId \<Rightarrow> VerificationResult \<Rightarrow> string \<Rightarrow> AuditTrail \<Rightarrow> AuditTrail" where
  "at_record_verification now voter_id r verifier_id t =
     t\<lparr>at_verification_records := at_verification_records t @
         [\<lparr>ar_voter_id = voter_id, ar_verification_result = r, ar_verifier_id = verifier_id, ar_recorded_at = now\<rparr>]\<rparr>"

definition get_records :: "AuditTrail \<Rightarrow> VoterId \<Rightarrow> AuditRecord list" where
  "get_records t voter_id = filter (\<lambda>r. ar_voter_id r = voter_id) (at_verification_records t)"

definition total_verifications :: "AuditTrail \<Rightarrow> nat" where
  "total_verifications t = length (at_verification_records t)"

definition successful_verifications :: "AuditTrail \<Rightarrow> nat" where
  "successful_verifications t = length (filter (\<lambda>r. vres_is_valid (ar_verification_result r)) (at_verification_records t))"

definition failed_verifications :: "AuditTrail \<Rightarrow> nat" where
  "failed_verifications t = length (filter (\<lambda>r. \<not> vres_is_valid (ar_verification_result r)) (at_verification_records t))"

definition verification_rate :: "AuditTrail \<Rightarrow> f64" where
  "verification_rate t =
     (if at_verification_records t = [] then Fin 0
      else f64_mul (f64_div (f64_of_nat (successful_verifications t)) (f64_of_nat (length (at_verification_records t))))
             (Fin 100))"

section \<open>Facts\<close>

lemma if_let_err_eq_Ok [outcome_simps]:
  "if_let_err m h k = Ok x \<longleftrightarrow> m = Ok () \<and> k = Ok x \<or> (\<exists>e. m = Err e \<and> h e = Ok x)"
  by (cases m) auto

lemma if_let_err_total:
  "\<not> is_panic m \<Longrightarrow> \<exists>x. k = Ok x \<Longrightarrow> (\<And>e. \<exists>x. h e = Ok x) \<Longrightarrow> \<exists>x. if_let_err m h k = Ok x"
  by (cases m) auto

lemma verify_ballot_no_panic:
  assumes "\<not> is_panic (ed25519_key_check E (cpk_bytes k))"
  shows "\<not> is_panic (verify_ballot E v b k)"
proof -
  have "\<not> is_panic (verify E msg sig k)" for msg sig
    using assms by (cases "ed25519_key_check E (cpk_bytes k)") (auto simp: verify_def)
  then show ?thesis
    by (auto simp: verify_ballot_def PrivateBallot_verify_def BallotValidityProof_verify_def rbind_is_panic Let_def)
qed

lemmas result_defs = VerificationResult_new_def mark_valid_def add_error_def add_warning_def

lemma finish_submission_valid:
  "finish_submission e t (VerificationResult_new now i) = Ok r \<Longrightarrow> vres_is_valid r \<and> vres_errors r = []"
  by (auto simp: finish_submission_def result_defs Let_def)

definition known_choice :: "Candidate list \<Rightarrow> BallotChoice \<Rightarrow> bool" where
  "known_choice cs c \<longleftrightarrow> bch_candidate_id c \<in> insert ''write_in'' (cand_id ` set cs)"

lemma check_choice_apply:
  "check_choice cs c r = (if known_choice cs c then r else add_error (''Invalid candidate ID: '' @ bch_candidate_id c) r)"
  by (force simp: check_choice_def known_choice_def list_ex_iff)

lemma check_choices:
  "fold (check_choice cs) choices r =
     r\<lparr>vres_errors := vres_errors r @
          map (\<lambda>c. ''Invalid candidate ID: '' @ bch_candidate_id c) (filter (\<lambda>c. \<not> known_choice cs c) choices),
       vres_is_valid := vres_is_valid r \<and> list_all (known_choice cs) choices\<rparr>"
  by (induction choices arbitrary: r) (simp_all add: check_choice_apply add_error_def)

lemma irep_issues_if [simp]: "irep_issues (issue_if c i r) = irep_issues r @ (if c then [i] else [])"
  by (simp add: issue_if_def add_issue_def)

lemma vote_chain_round_apply:
  "vote_chain_round e b (r, B, V) =
     (issue_if (cb_voter_id b |\<in>| V) DuplicateVoter
        (issue_if (cb_ballot_id b |\<in>| B) DuplicateBallot (issue_if (cb_election_id b \<noteq> e) ElectionMismatch r)),
      finsert (cb_ballot_id b) B, finsert (cb_voter_id b) V)"
  by (simp add: vote_chain_round_def Let_def)

text \<open>The loop of \<open>check_vote_chain\<close> adds one issue per defect.\<close>

lemma vote_chain_rounds:
  "fold (vote_chain_round e) bs (r, B, V) = s \<Longrightarrow>
     count_list (irep_issues (fst s)) DuplicateVoter + card (fset V \<union> cb_voter_id ` set bs) =
       count_list (irep_issues r) DuplicateVoter + card (fset V) + length bs \<and>
     count_list (irep_issues (fst s)) DuplicateBallot + card (fset B \<union> cb_ballot_id ` set bs) =
       count_list (irep_issues r) DuplicateBallot + card (fset B) + length bs \<and>
     count_list (irep_issues (fst s)) ElectionMismatch =
       count_list (irep_issues r) ElectionMismatch + length (filter (\<lambda>b. cb_election_id b \<noteq> e) bs) \<and>
     set (irep_issues (fst s)) \<subseteq> set (irep_issues r) \<union> {ElectionMismatch, DuplicateBallot, DuplicateVoter}"
proof (induction bs arbitrary: r B V)
  case (Cons b bs)
  let ?r = "fst (vote_chain_round e b (r, B, V))"
  have "fold (vote_chain_round e) bs (?r, finsert (cb_ballot_id b) B, finsert (cb_voter_id b) V) = s"
    using Cons.prems by (simp add: vote_chain_round_apply)
  note IH = Cons.IH [OF this]
  have "count_list (irep_issues ?r) DuplicateVoter = count_list (irep_issues r) DuplicateVoter + of_bool (cb_voter_id b |\<in>| V)"
    "count_list (irep_issues ?r) DuplicateBallot = count_list (irep_issues r) DuplicateBallot + of_bool (cb_ballot_id b |\<in>| B)"
    "count_list (irep_issues ?r) ElectionMismatch = count_list (irep_issues r) ElectionMismatch + of_bool (cb_election_id b \<noteq> e)"
    "set (irep_issues ?r) \<subseteq> set (irep_issues r) \<union> {ElectionMismatch, DuplicateBallot, DuplicateVoter}"
    by (auto simp: vote_chain_round_apply)
  moreover have "card (insert x (fset X)) + of_bool (x |\<in>| X) = Suc (card (fset X))" for x and X :: "'x fset"
    by (simp add: card_insert_if)
  note this [of "cb_voter_id b" V] this [of "cb_ballot_id b" B]
  ultimately show ?case using IH by simp blast
qed auto

lemma windows2_sorted: "sorted (map f xs) \<Longrightarrow> list_all (\<lambda>(a, b). f a \<le> f b) (windows2 xs)"
  by (induction xs rule: induct_list012) (auto simp: windows2_def)

text \<open>The pairs that are compared come from a sorted list: the order violation is never reported.\<close>

lemma verify_timestamps_no_violation:
  assumes "verify_timestamps now c bs = Ok r"
  shows "TimestampOrderViolation \<notin> set (irep_issues r)"
proof -
  have "\<not> list_ex (\<lambda>(a, b). cb_cast_at b < cb_cast_at a) (windows2 (sort_key cb_cast_at bs))"
    using windows2_sorted [of cb_cast_at "sort_key cb_cast_at bs"] by (fastforce simp: list_all_iff list_ex_iff)
  moreover have "set (irep_issues (fold (\<lambda>b. issue_if (cb_cast_at b = 0) InvalidTimestamp) bs q)) \<subseteq>
      insert InvalidTimestamp (set (irep_issues q))" for q
    by (induction bs arbitrary: q) fastforce+
  ultimately show ?thesis using assms by (fastforce simp: verify_timestamps_def Let_def IntegrityReport_new_def)
qed

lemma check_ballot_integrity_valid:
  "check_ballot_integrity now c cb = Ok r \<Longrightarrow> irep_is_valid r \<longleftrightarrow>
     cb_election_id cb = ic_election_id c \<and> ed_ciphertext (cb_encrypted_ballot cb) \<noteq> [] \<and>
     cb_ballot_commitment cb \<noteq> [] \<and> cb_transaction_id cb \<noteq> None"
  by (auto simp: check_ballot_integrity_def irep_is_valid_def IntegrityReport_new_def Let_def split: if_splits)

lemma Ballot_validate_no_panic: "\<not> is_panic (Ballot_validate b)"
  by (cases "bal_ballot_type b")
     (auto simp: Ballot_validate_def Let_def check_rank_def intro!: for_each_no_panic split: option.splits if_splits)

text \<open>
  What \<open>cast_vote\<close> alone brings into a caster: ballots of its election that name the voter under whom
  they are recorded. (\<open>submit_vote\<close> checks neither.)
\<close>

fun is_cast_or_register :: "CasterCall \<Rightarrow> bool" where
  "is_cast_or_register (CasterSubmit d s pk) = False"
| "is_cast_or_register k = True"

definition own_ballots :: "VoteCaster \<Rightarrow> bool" where
  "own_ballots c \<longleftrightarrow> (\<forall>i rec. get_vote_record c i = Some rec \<longrightarrow>
     cb_voter_id (vr_cast_ballot rec) = i \<and> cb_election_id (vr_cast_ballot rec) = el_id (vca_election c))"

lemma CastBallot_create_fields:
  "CastBallot_create E n rnd now b i k kp = Ok cb \<Longrightarrow> cb_voter_id cb = i \<and> cb_election_id cb = bal_election_id b"
  by (auto simp: CastBallot_create_def outcome_simps Let_def)

lemma caster_call_own_ballots:
  assumes "is_cast_or_register k" and "own_ballots c"
  shows "own_ballots (fst (caster_call E c k)) \<and> vca_election (fst (caster_call E c k)) = vca_election c"
proof (cases k)
  case (CasterCast d v b kp ek)
  let ?c = "fst (cast_vote E d c v b kp ek)"
  have "?c = c \<or> (\<exists>cb t. cb_voter_id cb = vo_id v \<and> cb_election_id cb = el_id (vca_election c) \<and>
      ?c = c\<lparr>vca_votes_cast := fmupd (vo_id v) \<lparr>vr_voter_id = vo_id v, vr_cast_ballot = cb, vr_cast_at = t\<rparr> (vca_votes_cast c)\<rparr>)"
  proof (cases "rbind (Ballot_validate b) (\<lambda>_. CastBallot_create E (d_nonce d) (d_randomness d) (d_cast_now d) b (vo_id v) ek kp)")
    case (Ok cb)
    then have "cb_voter_id cb = vo_id v" "cb_election_id cb = bal_election_id b"
      by (auto simp: outcome_simps dest: CastBallot_create_fields)
    with Ok show ?thesis by (auto simp: cast_vote_def Let_def)
  qed (simp_all add: cast_vote_def Let_def)
  with assms(2) show ?thesis
    by (auto simp: CasterCast some_receipt_def own_ballots_def get_vote_record_def case_prod_beta split: if_splits)
qed (use assms in \<open>auto simp: own_ballots_def get_vote_record_def caster_register_voter_def\<close>)

lemma run_own_ballots:
  "list_all is_cast_or_register ks \<Longrightarrow> own_ballots c \<Longrightarrow>
     own_ballots (fst (run_calls (caster_call E) c ks)) \<and>
     vca_election (fst (run_calls (caster_call E) c ks)) = vca_election c"
proof (induction ks arbitrary: c)
  case (Cons k ks)
  obtain c' r where c': "caster_call E c k = (c', r)" by (cases "caster_call E c k")
  have "own_ballots c' \<and> vca_election c' = vca_election c"
    using caster_call_own_ballots [of k c E] Cons.prems c' by simp
  with Cons.IH [of c'] Cons.prems(1) show ?case by (simp add: c' Let_def case_prod_beta)
qed simp

lemma own_ballots_mset:
  assumes "own_ballots c"
  shows "image_mset cb_voter_id (all_cast_ballots c) = mset_set (fset (fmdom (vca_votes_cast c)))"
proof -
  have "image_mset cb_voter_id (all_cast_ballots c) = image_mset (\<lambda>i. i) (mset_set (fset (fmdom (vca_votes_cast c))))"
    unfolding all_cast_ballots_def hm_values_def multiset.map_comp
    using assms by (intro image_mset_cong) (auto simp: own_ballots_def get_vote_record_def fmlookup_dom_iff)
  then show ?thesis by simp
qed

lemma audit_counts: "successful_verifications t + failed_verifications t = total_verifications t"
  by (simp add: successful_verifications_def failed_verifications_def total_verifications_def
      sum_length_filter_compl)

section \<open>Properties\<close>

text \<open>
  C28: The integrity check of the votes counts the defects exactly. Its report on a list of ballots
  has one duplicate-voter issue for every ballot beyond the first of its voter, one
  duplicate-ballot issue for every repeated ballot id and one mismatch for every ballot of another
  election; it is valid exactly when all ballots are of the election and no voter and no ballot id
  occurs twice, and critical exactly when a voter occurs twice.
\<close>

theorem vote_chain_report:
  "\<exists>r. check_vote_chain now c bs = Ok r \<and>
     count_list (irep_issues r) DuplicateVoter + card (cb_voter_id ` set bs) = length bs \<and>
     count_list (irep_issues r) DuplicateBallot + card (cb_ballot_id ` set bs) = length bs \<and>
     count_list (irep_issues r) ElectionMismatch = length (filter (\<lambda>b. cb_election_id b \<noteq> ic_election_id c) bs) \<and>
     (irep_is_valid r \<longleftrightarrow> list_all (\<lambda>b. cb_election_id b = ic_election_id c) bs \<and>
        distinct (map cb_voter_id bs) \<and> distinct (map cb_ballot_id bs)) \<and>
     (has_critical_issues r \<longleftrightarrow> \<not> distinct (map cb_voter_id bs))"
proof -
  define r where "r = fst (fold (vote_chain_round (ic_election_id c)) bs
               (IntegrityReport_new now (ic_election_id c), {||}, {||}))"
  have rounds: "count_list (irep_issues r) DuplicateVoter + card (cb_voter_id ` set bs) = length bs"
    "count_list (irep_issues r) DuplicateBallot + card (cb_ballot_id ` set bs) = length bs"
    "count_list (irep_issues r) ElectionMismatch = length (filter (\<lambda>b. cb_election_id b \<noteq> ic_election_id c) bs)"
    "set (irep_issues r) \<subseteq> {ElectionMismatch, DuplicateBallot, DuplicateVoter}"
    using vote_chain_rounds [OF refl, of "ic_election_id c" bs "IntegrityReport_new now (ic_election_id c)" "{||}" "{||}"]
    by (simp_all add: r_def IntegrityReport_new_def)
  have distinct: "distinct (map f bs) \<longleftrightarrow> card (f ` set bs) = length bs" for f :: "CastBallot \<Rightarrow> 'k"
    using card_distinct [of "map f bs"] distinct_card [of "map f bs"] by auto
  have absent: "count_list (irep_issues r) i = 0 \<longleftrightarrow> i \<notin> set (irep_issues r)" for i by (rule count_list_0_iff)
  have matching: "list_all (\<lambda>b. cb_election_id b = ic_election_id c) bs \<longleftrightarrow> ElectionMismatch \<notin> set (irep_issues r)"
    unfolding absent [symmetric] rounds(3) by (simp add: list_all_iff filter_empty_conv)
  have "distinct (map cb_voter_id bs) \<longleftrightarrow> DuplicateVoter \<notin> set (irep_issues r)"
    unfolding absent [symmetric] distinct using rounds(1) by arith
  moreover have "distinct (map cb_ballot_id bs) \<longleftrightarrow> DuplicateBallot \<notin> set (irep_issues r)"
    unfolding absent [symmetric] distinct using rounds(2) by arith
  moreover have "irep_is_valid r \<longleftrightarrow> (\<forall>i. i \<notin> set (irep_issues r))"
    by (simp add: irep_is_valid_def flip: set_empty)
  ultimately have "irep_is_valid r \<longleftrightarrow> list_all (\<lambda>b. cb_election_id b = ic_election_id c) bs \<and>
        distinct (map cb_voter_id bs) \<and> distinct (map cb_ballot_id bs)"
    and "has_critical_issues r \<longleftrightarrow> \<not> distinct (map cb_voter_id bs)"
    using rounds(4) matching unfolding has_critical_issues_def list_ex_iff by blast+
  moreover have "check_vote_chain now c bs = Ok r" by (simp add: check_vote_chain_def r_def)
  ultimately show ?thesis using rounds by blast
qed

text \<open>
  The three checks that do not look at a private ballot decide what they say. A ballot has a
  valid structure exactly when it is for the election, passes its own validation and names only
  candidates of the election or a write-in; a voter is eligible exactly when registered, with
  credentials that have not expired and without a vote in the election; a cast ballot is valid
  exactly when it is for the election and its signature verifies under the voter's key. The two
  checks without cryptography always return a result.
\<close>

theorem verification_verdicts:
  "(\<exists>r. verify_ballot_structure now v ballot = Ok r \<and>
      (vres_is_valid r \<longleftrightarrow> bal_election_id ballot = el_id (vvf_election v) \<and> Ballot_validate ballot = Ok () \<and>
         list_all (\<lambda>c. bch_candidate_id c = ''write_in'' \<or>
           list_ex (\<lambda>k. cand_id k = bch_candidate_id c) (el_candidates (vvf_election v))) (bal_choices ballot))) \<and>
   (\<exists>r. verify_voter_eligibility now v voter current_time = Ok r \<and>
      (vres_is_valid r \<longleftrightarrow> Voter_is_eligible voter (el_id (vvf_election v)) \<and>
         (\<exists>c. vo_credentials voter = Some c \<and> credentials_is_valid c current_time))) \<and>
   ((\<exists>r. verify_cast_ballot E now v cb key = Ok r \<and> vres_is_valid r) \<longleftrightarrow>
      cb_election_id cb = el_id (vvf_election v) \<and> CastBallot_verify E cb key = Ok ())"
proof (intro conjI)
  have known: "known_choice cs = (\<lambda>c. bch_candidate_id c = ''write_in'' \<or> list_ex (\<lambda>k. cand_id k = bch_candidate_id c) cs)"
    for cs by (force simp: known_choice_def list_ex_iff fun_eq_iff)
  have no_panic: "\<not> is_panic (Ballot_validate ballot)" by (rule Ballot_validate_no_panic)
  show "\<exists>r. verify_ballot_structure now v ballot = Ok r \<and>
      (vres_is_valid r \<longleftrightarrow> bal_election_id ballot = el_id (vvf_election v) \<and> Ballot_validate ballot = Ok () \<and>
         list_all (\<lambda>c. bch_candidate_id c = ''write_in'' \<or>
           list_ex (\<lambda>k. cand_id k = bch_candidate_id c) (el_candidates (vvf_election v))) (bal_choices ballot))"
    using no_panic unfolding known [symmetric]
    by (cases "Ballot_validate ballot")
       (auto simp: verify_ballot_structure_def result_defs check_choices Let_def list_all_iff filter_empty_conv)
  show "\<exists>r. verify_voter_eligibility now v voter current_time = Ok r \<and>
      (vres_is_valid r \<longleftrightarrow> Voter_is_eligible voter (el_id (vvf_election v)) \<and>
         (\<exists>c. vo_credentials voter = Some c \<and> credentials_is_valid c current_time))"
    by (auto simp: verify_voter_eligibility_def Voter_is_eligible_def result_defs Let_def split: option.splits)
  show "(\<exists>r. verify_cast_ballot E now v cb key = Ok r \<and> vres_is_valid r) \<longleftrightarrow>
      cb_election_id cb = el_id (vvf_election v) \<and> CastBallot_verify E cb key = Ok ()"
    by (auto simp: verify_cast_ballot_def result_defs Let_def outcome_simps)
qed

text \<open>
  No submission is ever found valid. \<open>verify_submission\<close> signs the private ballot it checks with
  a key it has just generated and then asks for a signature under the voter's key. Where a
  signature of the fresh key does not verify under the voter's key and encryption succeeds, a
  genuine submission for the election gets exactly that error, and every other one some error.
\<close>

theorem verify_submission_rejects:
  assumes "\<forall>msg. \<not> ed25519_verify E (public_key_bytes key) msg (ed25519_sign E (vd_key_seed d) msg)"
    and "verify_submission E d (VoteVerifier_new election) s key = Ok r"
  shows "\<not> vres_is_valid r \<and>
    (VoteSubmission_verify E s key = Ok () \<and> cb_election_id (vs_cast_ballot s) = el_id election \<longrightarrow>
       vres_errors r = [''Ballot verification failed: Signature verification failed''])"
proof (cases "VoteSubmission_verify E s key = Ok () \<and> cb_election_id (vs_cast_ballot s) = el_id election")
  case False
  then show ?thesis
    using assms(2) by (auto simp: verify_submission_def VoteVerifier_new_def result_defs Let_def outcome_simps split: if_splits)
next
  case True
  let ?kp = "KeyPair_generate E (vd_key_seed d)"
  obtain b where b: "to_private_ballot E (vd_election_key d) (vd_ballot d) (vs_cast_ballot s) ?kp = Ok b"
    using assms(2) True by (auto simp: verify_submission_def VoteVerifier_new_def Let_def outcome_simps)
  have "ed25519_key_check E (public_key_bytes key) = Ok ()"
    using True by (auto simp: VoteSubmission_verify_def CastBallot_verify_def verify_def cpk_from_common_def outcome_simps Let_def)
  then have "verify_ballot E (create_ballot_verifier election) b (cpk_from_common key) = Err SignatureVerificationFailed"
    using b True assms(1)
    by (auto simp: verify_ballot_def create_ballot_verifier_def BallotVerifier_new_def to_private_ballot_def
        PrivateBallot_create_def PrivateBallot_verify_def BallotValidityProof_generate_def BallotValidityProof_verify_def
        verify_def sign_def KeyPair_generate_def cpk_from_common_def outcome_simps Let_def)
  with assms(2) True b show ?thesis
    by (auto simp: verify_submission_def VoteVerifier_new_def result_defs Let_def)
qed

definition sample_verify_draws :: VerifyDraws where
  "sample_verify_draws =
     \<lparr>vd_verified_at = 1, vd_key_seed = bytes_fill 9, vd_election_key = EncryptionKey (bytes_fill 6),
      vd_ballot = \<lparr>bd_nonce = bytes_fill 1, bd_randomness = [2], bd_proof_randomness = [3], bd_timestamp = 4\<rparr>,
      vd_current_time = 150\<rparr>"

definition sample_genuine :: "VoteSubmission outcome" where
  "sample_genuine = VoteSubmission_create sample_voting 160 (VoterId (bytes_fill 5)) (ok_value sample_cast) (sample_keypair 5)"

lemma sample_genuine_verify:
  "VoteSubmission_verify sample_voting (ok_value sample_genuine) (cpk_to_common (kp_public (sample_keypair 5))) = Ok ()"
  by (simp add: sample_genuine_def VoteSubmission_create_def VoteSubmission_verify_def CastBallot_verify_def sample_cast_def
      CastBallot_create_def Ballot_serialize_def encrypt_def sign_def verify_def Let_def sample_keypair_def KeyPair_generate_def
      sample_voting_def sample_crypto_def voting_externals.defs crypto_externals.defs)

lemma sample_genuine_election: "cb_election_id (vs_cast_ballot (ok_value sample_genuine)) = el_id sample_election"
  using CastBallot_create_fields [OF sample_cast_Ok [unfolded sample_cast_def]]
  by (simp add: sample_genuine_def VoteSubmission_create_def sign_def sample_cast_def sample_ballot_valid sample_election_active)

lemma sample_to_private_ballot: "\<exists>b. to_private_ballot sample_voting k d cb kp = Ok b"
  by (simp add: to_private_ballot_def PrivateBallot_create_def BallotValidityProof_generate_def encrypt_def sign_def Let_def
      sample_voting_def sample_crypto_def voting_externals.defs crypto_externals.defs)

theorem verify_submission_rejects_witness:
  "\<exists>r. verify_submission sample_voting sample_verify_draws (VoteVerifier_new sample_election) (ok_value sample_genuine)
         (cpk_to_common (kp_public (sample_keypair 5))) = Ok r \<and>
     vres_errors r = [''Ballot verification failed: Signature verification failed'']"
proof -
  let ?key = "cpk_to_common (kp_public (sample_keypair 5))"
  obtain b where b: "to_private_ballot sample_voting (vd_election_key sample_verify_draws) (vd_ballot sample_verify_draws)
      (vs_cast_ballot (ok_value sample_genuine)) (KeyPair_generate sample_voting (vd_key_seed sample_verify_draws)) = Ok b"
    using sample_to_private_ballot by blast
  have foreign: "\<forall>msg. \<not> ed25519_verify sample_voting (public_key_bytes ?key) msg
      (ed25519_sign sample_voting (vd_key_seed sample_verify_draws) msg)"
    by (simp add: sample_verify_draws_def sample_voting_def sample_crypto_def voting_externals.defs crypto_externals.defs
        sample_keypair_def KeyPair_generate_def cpk_to_common_def byte_simps)
  have "\<not> is_panic (verify_ballot sample_voting v b k)" for v k
    by (rule verify_ballot_no_panic) (simp add: sample_voting_def sample_crypto_def voting_externals.defs crypto_externals.defs)
  then have "\<exists>r. verify_submission sample_voting sample_verify_draws (VoteVerifier_new sample_election)
      (ok_value sample_genuine) ?key = Ok r"
    using b sample_genuine_verify sample_genuine_election
    by (simp add: verify_submission_def VoteVerifier_new_def Let_def)
       (rule if_let_err_total; simp add: finish_submission_def Let_def)
  then obtain r where r: "verify_submission sample_voting sample_verify_draws (VoteVerifier_new sample_election)
      (ok_value sample_genuine) ?key = Ok r" ..
  with verify_submission_rejects [OF foreign r] sample_genuine_verify sample_genuine_election show ?thesis by blast
qed

text \<open>
  C27: The ballots of a caster that only casts pass the audit. Whatever sequence of registrations
  and \<open>cast_vote\<close> calls a new caster has seen, the integrity check over its ballots, in whatever
  order they are listed, reports neither a ballot of another election nor a voter who voted twice.
\<close>

theorem cast_votes_pass_audit:
  assumes "list_all is_cast_or_register ks" and "caster = fst (run_calls (caster_call E) (VoteCaster_new election) ks)"
    and "mset bs = all_cast_ballots caster"
    and "check_vote_chain now (IntegrityChecker_new (el_id election)) bs = Ok r"
  shows "\<not> has_critical_issues r \<and> ElectionMismatch \<notin> set (irep_issues r)"
proof -
  have "own_ballots (VoteCaster_new election)" by (simp add: own_ballots_def VoteCaster_new_def get_vote_record_def)
  then have own: "own_ballots caster" "vca_election caster = election"
    using run_own_ballots [OF assms(1), of "VoteCaster_new election" E] by (auto simp: assms(2) VoteCaster_new_def)
  have "mset (map cb_voter_id bs) = mset_set (fset (fmdom (vca_votes_cast caster)))"
    using own_ballots_mset [OF own(1)] by (simp add: assms(3))
  then have voters: "distinct (map cb_voter_id bs)"
    unfolding distinct_count_atmost_1 by (metis count_eq_zero_iff count_mset_set(1) count_mset_set(3) finite_fset set_mset_mset)
  have "cb_election_id b = el_id election" if "b \<in> set bs" for b
  proof -
    have "b \<in># all_cast_ballots caster" using that by (simp flip: assms(3))
    with own show ?thesis by (auto simp: all_cast_ballots_def in_hm_values own_ballots_def get_vote_record_def)
  qed
  then have elections: "filter (\<lambda>b. cb_election_id b \<noteq> el_id election) bs = []" by (simp add: filter_empty_conv)
  have "card (cb_voter_id ` set bs) = length bs" using distinct_card [OF voters] by simp
  then show ?thesis
    using vote_chain_rounds [OF refl, of "el_id election" bs "IntegrityReport_new now (el_id election)" "{||}" "{||}"]
      elections assms(4)
    by (auto simp: check_vote_chain_def IntegrityChecker_new_def IntegrityReport_new_def has_critical_issues_def
        list_ex_iff count_list_0_iff)
qed

theorem cast_votes_pass_audit_witness:
  "\<exists>bs r. mset bs = all_cast_ballots sample_caster \<and>
     check_vote_chain 300 (IntegrityChecker_new (el_id sample_election)) bs = Ok r \<and>
     \<not> has_critical_issues r \<and> ElectionMismatch \<notin> set (irep_issues r)"
proof -
  obtain bs where bs: "mset bs = all_cast_ballots sample_caster" using ex_mset by blast
  obtain r where r: "check_vote_chain 300 (IntegrityChecker_new (el_id sample_election)) bs = Ok r"
    by (simp add: check_vote_chain_def)
  have "list_all is_cast_or_register sample_calls" by (simp add: sample_calls_def)
  from cast_votes_pass_audit [OF this sample_caster_def bs r] bs r show ?thesis by blast
qed

end
