(* ===== verification/Anonymity.thy ===== *)
theory Anonymity
  imports Vote_Casting
begin

text \<open>
  \<open>voting/src/anonymity.rs\<close>: anonymous votes, the layer that gives voters anonymous ids, the
  anonymizer, the mix network, blind and ring signatures. Random values and the clock are arguments;
  the shuffle of the \<open>rand\<close> package is the argument \<open>shuffled\<close>, of which the package promises that
  it permutes the slice.
\<close>

section \<open>Anonymous ids and votes\<close>

datatype AnonymousId = AnonymousId (anonymous_id_bytes: "32 bytes")

record AnonymityProof =
  ap_proof_commitment :: "u8 list"
  ap_proof_response :: "u8 list"
  ap_timestamp :: Timestamp

record AnonymousVote =
  av_anonymous_id :: AnonymousId
  av_election_id :: ElectionId
  av_encrypted_ballot :: EncryptedData
  av_anonymity_proof :: AnonymityProof
  av_cast_at :: Timestamp

definition AnonymousId_from_voter_id :: "'z crypto_externals_scheme \<Rightarrow> VoterId \<Rightarrow> u8 list \<Rightarrow> AnonymousId" where
  "AnonymousId_from_voter_id E voter_id salt =
     AnonymousId (hash_blake2b_multiple E [bytes_list (voter_id_bytes voter_id), salt])"

definition AnonymousId_to_hex :: "'z externals_scheme \<Rightarrow> AnonymousId \<Rightarrow> string" where
  "AnonymousId_to_hex E a = hex_encode E (bytes_list (anonymous_id_bytes a))"

definition AnonymousId_from_hex :: "'z externals_scheme \<Rightarrow> string \<Rightarrow> AnonymousId outcome" where
  "AnonymousId_from_hex E hex_str =
     rbind (decode_hex E hex_str) (\<lambda>bytes.
       if length bytes \<noteq> 32 then Err (CryptoError ''Invalid anonymous ID length'')
       else rbind (copy_from_slice bytes) (\<lambda>i. Ok (AnonymousId i)))"

definition anonymity_challenge :: "'z crypto_externals_scheme \<Rightarrow> AnonymousId \<Rightarrow> ElectionId \<Rightarrow> u8 list \<Rightarrow> u8 list" where
  "anonymity_challenge E anonymous_id election_id proof_commitment =
     bytes_list (hash_blake2b_multiple E
       [bytes_list (anonymous_id_bytes anonymous_id), bytes_list (election_id_bytes election_id), proof_commitment])"

definition AnonymityProof_generate ::
  "'z crypto_externals_scheme \<Rightarrow> u8 list \<Rightarrow> Timestamp \<Rightarrow> AnonymousId \<Rightarrow> ElectionId \<Rightarrow> AnonymityProof outcome" where
  "AnonymityProof_generate E randomness now anonymous_id election_id =
     (let commitment = Commitment_new E (bytes_list (anonymous_id_bytes anonymous_id)) randomness;
          proof_commitment = cm_value commitment;
          challenge = anonymity_challenge E anonymous_id election_id proof_commitment
      in Ok \<lparr>ap_proof_commitment = proof_commitment,
             ap_proof_response = bytes_list (hash_blake2b_multiple E [randomness, challenge]), ap_timestamp = now\<rparr>)"

text \<open>The challenge and the expected response are computed and not used.\<close>

definition AnonymityProof_verify ::
  "'z crypto_externals_scheme \<Rightarrow> AnonymityProof \<Rightarrow> AnonymousId \<Rightarrow> ElectionId \<Rightarrow> unit outcome" where
  "AnonymityProof_verify E p anonymous_id election_id =
     (if ap_proof_commitment p = [] \<or> ap_proof_response p = [] then Err (CryptoError ''Invalid anonymity proof'')
      else let challenge = anonymity_challenge E anonymous_id election_id (ap_proof_commitment p);
               expected_response = hash_blake2b E challenge
           in if length (ap_proof_response p) \<noteq> 32 then Err (CryptoError ''Invalid proof response length'')
              else Ok ())"

text \<open>The arguments \<open>nonce\<close>, \<open>fresh_id\<close> and \<open>randomness\<close> are what the creation draws.\<close>

definition AnonymousVote_create ::
  "'z voting_externals_scheme \<Rightarrow> 12 bytes \<Rightarrow> 32 bytes \<Rightarrow> u8 list \<Rightarrow> Timestamp \<Rightarrow> Timestamp \<Rightarrow> Ballot \<Rightarrow> ElectionId \<Rightarrow>
   EncryptionKey \<Rightarrow> AnonymousVote outcome" where
  "AnonymousVote_create E nonce fresh_id randomness proof_now now ballot election_id election_key =
     rbind (Ballot_serialize E ballot) (\<lambda>ballot_data.
     rbind (encrypt E nonce ballot_data election_key) (\<lambda>encrypted_ballot.
       let anonymous_id = AnonymousId fresh_id in
       rbind (AnonymityProof_generate E randomness proof_now anonymous_id election_id) (\<lambda>anonymity_proof.
         Ok \<lparr>av_anonymous_id = anonymous_id, av_election_id = election_id, av_encrypted_ballot = encrypted_ballot,
             av_anonymity_proof = anonymity_proof, av_cast_at = now\<rparr>)))"

definition AnonymousVote_verify :: "'z crypto_externals_scheme \<Rightarrow> AnonymousVote \<Rightarrow> unit outcome" where
  "AnonymousVote_verify E v = AnonymityProof_verify E (av_anonymity_proof v) (av_anonymous_id v) (av_election_id v)"

definition is_linkable_to :: "AnonymousVote \<Rightarrow> AnonymousVote \<Rightarrow> bool" where
  "is_linkable_to v other = False"

section \<open>The anonymity layer\<close>

record MixingInfo =
  mi_original_voter_id :: VoterId
  mi_anonymous_id :: AnonymousId
  mi_salt :: "u8 list"
  mi_mixed_at :: Timestamp
  mi_mixing_round :: nat

record AnonymityLayer =
  al_election_id :: ElectionId
  al_mixing_rounds :: nat
  al_voter_mappings :: "(VoterId, AnonymousId) hashmap"
  al_anonymous_mappings :: "(AnonymousId, MixingInfo) hashmap"

definition AnonymityLayer_new :: "ElectionId \<Rightarrow> nat \<Rightarrow> AnonymityLayer" where
  "AnonymityLayer_new election_id mixing_rounds =
     \<lparr>al_election_id = election_id, al_mixing_rounds = mixing_rounds, al_voter_mappings = fmempty,
      al_anonymous_mappings = fmempty\<rparr>"

definition anonymize_voter ::
  "'z crypto_externals_scheme \<Rightarrow> 32 bytes \<Rightarrow> Timestamp \<Rightarrow> AnonymityLayer \<Rightarrow> VoterId \<Rightarrow> AnonymityLayer \<times> AnonymousId outcome" where
  "anonymize_voter E salt now l voter_id =
     (case fmlookup (al_voter_mappings l) voter_id of
        Some anonymous_id \<Rightarrow> (l, Ok anonymous_id)
      | None \<Rightarrow>
          let anonymous_id = AnonymousId_from_voter_id E voter_id (bytes_list salt);
              mixing_info = \<lparr>mi_original_voter_id = voter_id, mi_anonymous_id = anonymous_id,
                             mi_salt = bytes_list salt, mi_mixed_at = now, mi_mixing_round = 0\<rparr>
          in (l\<lparr>al_voter_mappings := fmupd voter_id anonymous_id (al_voter_mappings l),
                al_anonymous_mappings := fmupd anonymous_id mixing_info (al_anonymous_mappings l)\<rparr>, Ok anonymous_id))"

definition get_anonymous_id :: "AnonymityLayer \<Rightarrow> VoterId \<Rightarrow> AnonymousId option" where
  "get_anonymous_id l voter_id = fmlookup (al_voter_mappings l) voter_id"

definition is_anonymized :: "AnonymityLayer \<Rightarrow> VoterId \<Rightarrow> bool" where
  "is_anonymized l voter_id = hm_contains_key (al_voter_mappings l) voter_id"

definition anonymized_count :: "AnonymityLayer \<Rightarrow> nat" where
  "anonymized_count l = hm_len (al_voter_mappings l)"

section \<open>The anonymizer and the mix network\<close>

record VoterAnonymizer =
  van_anonymization_keys :: "EncryptionKey list"
  van_current_round :: nat

text \<open>\<open>generated i\<close> is the key that round \<open>i\<close> of the loop generates.\<close>

definition VoterAnonymizer_new :: "(nat \<Rightarrow> EncryptionKey) \<Rightarrow> nat \<Rightarrow> VoterAnonymizer" where
  "VoterAnonymizer_new generated num_rounds =
     \<lparr>van_anonymization_keys = map generated [0..<num_rounds], van_current_round = 0\<rparr>"

definition anonymize_ballot ::
  "'z voting_externals_scheme \<Rightarrow> 12 bytes \<Rightarrow> VoterAnonymizer \<Rightarrow> Ballot \<Rightarrow> VoterAnonymizer \<times> EncryptedData outcome" where
  "anonymize_ballot E nonce a ballot =
     (if length (van_anonymization_keys a) \<le> van_current_round a
      then (a, Err (CryptoError ''All anonymization rounds completed''))
      else case rbind (Ballot_serialize E ballot) (\<lambda>ballot_data.
                rbind (vec_index (van_anonymization_keys a) (van_current_round a)) (\<lambda>key.
                  encrypt E nonce ballot_data key)) of
             Ok encrypted \<Rightarrow> (a\<lparr>van_current_round := van_current_round a + 1\<rparr>, Ok encrypted)
           | Err e \<Rightarrow> (a, Err e)
           | Panic m \<Rightarrow> (a, Panic m))"

definition total_rounds :: "VoterAnonymizer \<Rightarrow> nat" where
  "total_rounds a = length (van_anonymization_keys a)"

definition anonymizer_reset :: "VoterAnonymizer \<Rightarrow> VoterAnonymizer" where
  "anonymizer_reset a = a\<lparr>van_current_round := 0\<rparr>"

record MixNode =
  mxn_node_id :: nat
  mxn_public_key :: "u8 list"

record ShuffledVote =
  sv_vote_id :: "32 bytes"
  sv_encrypted_data :: EncryptedData
  sv_shuffle_proof :: "u8 list"
  sv_mixed_at :: Timestamp

record MixNetwork =
  mxw_election_id :: ElectionId
  mxw_mix_nodes :: "MixNode list"
  mxw_shuffled_votes :: "ShuffledVote list"

definition MixNode_new :: "32 bytes \<Rightarrow> nat \<Rightarrow> MixNode" where
  "MixNode_new random_hash node_id = \<lparr>mxn_node_id = node_id, mxn_public_key = bytes_list random_hash\<rparr>"

definition MixNetwork_new :: "(nat \<Rightarrow> 32 bytes) \<Rightarrow> ElectionId \<Rightarrow> nat \<Rightarrow> MixNetwork" where
  "MixNetwork_new random_hash election_id num_nodes =
     \<lparr>mxw_election_id = election_id, mxw_mix_nodes = map (\<lambda>i. MixNode_new (random_hash i) i) [0..<num_nodes],
      mxw_shuffled_votes = []\<rparr>"

definition mix_add_vote :: "32 bytes \<Rightarrow> Timestamp \<Rightarrow> MixNetwork \<Rightarrow> EncryptedData \<Rightarrow> MixNetwork \<times> unit outcome" where
  "mix_add_vote vote_id now m encrypted_ballot =
     (m\<lparr>mxw_shuffled_votes := mxw_shuffled_votes m @
          [\<lparr>sv_vote_id = vote_id, sv_encrypted_data = encrypted_ballot, sv_shuffle_proof = [], sv_mixed_at = now\<rparr>]\<rparr>, Ok ())"

definition mix_shuffle :: "(ShuffledVote list \<Rightarrow> ShuffledVote list) \<Rightarrow> MixNetwork \<Rightarrow> MixNetwork \<times> unit outcome" where
  "mix_shuffle shuffled m = (m\<lparr>mxw_shuffled_votes := shuffled (mxw_shuffled_votes m)\<rparr>, Ok ())"

definition mix_vote_count :: "MixNetwork \<Rightarrow> nat" where
  "mix_vote_count m = length (mxw_shuffled_votes m)"

definition mix_node_count :: "MixNetwork \<Rightarrow> nat" where
  "mix_node_count m = length (mxw_mix_nodes m)"

section \<open>Blind and ring signatures\<close>

record BlindSignature =
  bs_blinded_message :: "u8 list"
  bs_signature :: Signature
  bs_blinding_factor :: "u8 list option"

record RingSignature =
  rs_ring_members :: "PublicKey list"
  rs_signature :: Signature
  rs_key_image :: "u8 list"

definition BlindSignature_blind :: "'z crypto_externals_scheme \<Rightarrow> u8 list \<Rightarrow> u8 list \<Rightarrow> BlindSignature" where
  "BlindSignature_blind E blinding_factor message =
     \<lparr>bs_blinded_message = bytes_list (hash_blake2b_multiple E [message, blinding_factor]),
      bs_signature = Signature (bytes_fill 0), bs_blinding_factor = Some blinding_factor\<rparr>"

definition BlindSignature_sign ::
  "'z crypto_externals_scheme \<Rightarrow> BlindSignature \<Rightarrow> KeyPair \<Rightarrow> BlindSignature \<times> unit outcome" where
  "BlindSignature_sign E b keypair =
     (case sign E (bs_blinded_message b) keypair of
        Ok s \<Rightarrow> (b\<lparr>bs_signature := csig_to_common s\<rparr>, Ok ())
      | Err e \<Rightarrow> (b, Err e)
      | Panic m \<Rightarrow> (b, Panic m))"

definition BlindSignature_unblind :: "'z crypto_externals_scheme \<Rightarrow> BlindSignature \<Rightarrow> u8 list outcome" where
  "BlindSignature_unblind E b =
     (case bs_blinding_factor b of
        None \<Rightarrow> Err (CryptoError ''No blinding factor'')
      | Some blinding_factor \<Rightarrow>
          Ok (bytes_list (hash_blake2b_multiple E [bytes_list (signature_bytes (bs_signature b)), blinding_factor])))"

definition verify_unblinded :: "BlindSignature \<Rightarrow> u8 list \<Rightarrow> PublicKey \<Rightarrow> unit outcome" where
  "verify_unblinded b unblinded_signature public_key =
     (if unblinded_signature = [] then Err (CryptoError ''Empty unblinded signature'') else Ok ())"

definition RingSignature_sign ::
  "'z crypto_externals_scheme \<Rightarrow> u8 list \<Rightarrow> KeyPair \<Rightarrow> PublicKey list \<Rightarrow> RingSignature outcome" where
  "RingSignature_sign E message signer_keypair ring_members =
     (if ring_members = [] then Err (CryptoError ''Ring must have at least one member'')
      else rbind (sign E message signer_keypair) (\<lambda>s.
        Ok \<lparr>rs_ring_members = ring_members, rs_signature = csig_to_common s,
            rs_key_image = bytes_list (hash_blake2b E (bytes_list (cpk_bytes (kp_public signer_keypair))))\<rparr>))"

definition RingSignature_verify :: "'z crypto_externals_scheme \<Rightarrow> RingSignature \<Rightarrow> u8 list \<Rightarrow> bool outcome" where
  "RingSignature_verify E r message =
     (if rs_ring_members r = [] then Ok False
      else Ok (list_ex (\<lambda>public_key.
             is_ok (verify E message (csig_from_common (rs_signature r)) (cpk_from_common public_key))) (rs_ring_members r)))"

definition ring_size :: "RingSignature \<Rightarrow> nat" where
  "ring_size r = length (rs_ring_members r)"

section \<open>Metrics\<close>

record AnonymityMetrics =
  am_total_anonymized :: nat
  am_mixing_rounds_completed :: nat
  am_anonymity_set_size :: nat
  am_unlinkability_score :: f64

definition AnonymityMetrics_new :: AnonymityMetrics where
  "AnonymityMetrics_new =
     \<lparr>am_total_anonymized = 0, am_mixing_rounds_completed = 0, am_anonymity_set_size = 0, am_unlinkability_score = Fin 0\<rparr>"

definition calculate_unlinkability_score :: "AnonymityMetrics \<Rightarrow> nat \<Rightarrow> nat \<Rightarrow> AnonymityMetrics" where
  "calculate_unlinkability_score m votes voters =
     (if voters = 0 then m\<lparr>am_unlinkability_score := Fin 0\<rparr>
      else m\<lparr>am_unlinkability_score := f64_min (f64_div (f64_of_nat votes) (f64_of_nat voters)) (Fin 1)\<rparr>)"

definition update_anonymity_set_size :: "AnonymityMetrics \<Rightarrow> nat \<Rightarrow> AnonymityMetrics" where
  "update_anonymity_set_size m n = m\<lparr>am_anonymity_set_size := n\<rparr>"

section \<open>Facts\<close>

text \<open>An anonymity proof is accepted for every id and every election, whoever made it.\<close>

lemma AnonymityProof_verify_any:
  "AnonymityProof_verify E p a e = Ok () \<longleftrightarrow> ap_proof_commitment p \<noteq> [] \<and> length (ap_proof_response p) = 32"
  by (auto simp: AnonymityProof_verify_def)

text \<open>An unblinded signature is accepted under every key, whatever it is, unless it is empty.\<close>

lemma verify_unblinded_any: "verify_unblinded b s k = Ok () \<longleftrightarrow> s \<noteq> []"
  by (simp add: verify_unblinded_def)

lemma AnonymousId_hex_roundtrip: "hex_laws E \<Longrightarrow> AnonymousId_from_hex E (AnonymousId_to_hex E a) = Ok a"
  by (simp add: AnonymousId_from_hex_def AnonymousId_to_hex_def decode_hex_def hex_laws_def)

lemma AnonymousVote_roundtrip:
  assumes "aead_laws E" and "ballot_codec_laws E"
    and "AnonymousVote_create E nonce i rnd pnow now ballot eid key = Ok v"
  shows "AnonymousVote_verify E v = Ok ()"
    and "rbind (decrypt E (av_encrypted_ballot v) key) (Ballot_deserialize E) = Ok ballot"
proof -
  obtain data enc where d: "Ballot_serialize E ballot = Ok data" "encrypt E nonce data key = Ok enc"
    and v: "av_encrypted_ballot v = enc" "av_anonymity_proof v = ok_value (AnonymityProof_generate E rnd pnow (AnonymousId i) eid)"
    using assms(3) by (auto simp: AnonymousVote_create_def AnonymityProof_generate_def outcome_simps Let_def)
  show "AnonymousVote_verify E v = Ok ()"
    by (simp add: AnonymousVote_verify_def AnonymityProof_verify_any v AnonymityProof_generate_def Commitment_new_def Let_def
        byte_simps)
  have "bincode_ballot E ballot = Ok data" using d(1) by (simp add: Ballot_serialize_def split: result.splits)
  with assms(2) have "Ballot_deserialize E data = Ok ballot" by (simp add: ballot_codec_laws_def Ballot_deserialize_def)
  then show "rbind (decrypt E (av_encrypted_ballot v) key) (Ballot_deserialize E) = Ok ballot"
    using plain_box.unseal_seal [OF assms(1) d(2)] by (simp add: v)
qed

lemma anonymize_ballot_rounds:
  assumes "anonymize_ballot E nonce a ballot = (a', r)" and "van_current_round a \<le> total_rounds a"
  shows "van_current_round a' \<le> total_rounds a' \<and> total_rounds a' = total_rounds a \<and>
    van_current_round a' = van_current_round a + (if is_ok r then 1 else 0)"
proof -
  define q where "q = rbind (Ballot_serialize E ballot) (\<lambda>ballot_data.
      rbind (vec_index (van_anonymization_keys a) (van_current_round a)) (\<lambda>key. encrypt E nonce ballot_data key))"
  have "(a', r) = (if total_rounds a \<le> van_current_round a then (a, Err (CryptoError ''All anonymization rounds completed''))
      else case q of Ok encrypted \<Rightarrow> (a\<lparr>van_current_round := van_current_round a + 1\<rparr>, Ok encrypted)
        | Err e \<Rightarrow> (a, Err e) | Panic m \<Rightarrow> (a, Panic m))"
    using assms(1) unfolding anonymize_ballot_def q_def total_rounds_def by (rule sym)
  with assms(2) show ?thesis by (cases q) (auto simp: total_rounds_def split: if_splits)
qed

lemma mix_votes_kept:
  assumes "\<And>xs. mset (shuffled xs) = mset xs"
  shows "mset (mxw_shuffled_votes (fst (mix_shuffle shuffled m))) = mset (mxw_shuffled_votes m)"
    and "mix_vote_count (fst (mix_shuffle shuffled m)) = mix_vote_count m"
  using assms [of "mxw_shuffled_votes m"] mset_eq_length by (auto simp: mix_shuffle_def mix_vote_count_def)

section \<open>The layer over sequences of calls\<close>

definition layer_call ::
  "'z crypto_externals_scheme \<Rightarrow> AnonymityLayer \<Rightarrow> VoterId \<times> 32 bytes \<times> Timestamp \<Rightarrow> AnonymityLayer \<times> AnonymousId outcome" where
  "layer_call E l = (\<lambda>(voter_id, salt, now). anonymize_voter E salt now l voter_id)"

lemma layer_call_apply [simp]: "layer_call E l (i, salt, now) = anonymize_voter E salt now l i"
  by (simp add: layer_call_def)

lemma anonymize_voter_effect:
  assumes "anonymize_voter E salt now l i = (l', r)"
  shows "r = Ok (the (get_anonymous_id l' i))" "is_anonymized l' i"
    and "get_anonymous_id l j = Some a \<Longrightarrow> get_anonymous_id l' j = Some a"
    and "get_anonymous_id l' j = Some a \<Longrightarrow>
      get_anonymous_id l j = Some a \<or> (j = i \<and> a = AnonymousId_from_voter_id E i (bytes_list salt))"
    and "fset (fmdom (al_voter_mappings l')) = insert i (fset (fmdom (al_voter_mappings l)))"
  using assms
  by (auto simp: anonymize_voter_def get_anonymous_id_def is_anonymized_def hm_contains_key_def Let_def
      split: option.splits if_splits intro: fmdomI)

lemma run_layer:
  "run_calls (layer_call E) l cs = (l', rs) \<Longrightarrow>
     fset (fmdom (al_voter_mappings l')) = fst ` set cs \<union> fset (fmdom (al_voter_mappings l)) \<and>
     (\<forall>i a. get_anonymous_id l i = Some a \<longrightarrow> get_anonymous_id l' i = Some a) \<and>
     list_all (\<lambda>((i, salt, now), r). r = Ok (the (get_anonymous_id l' i))) rs \<and>
     (\<forall>i a. get_anonymous_id l' i = Some a \<longrightarrow> get_anonymous_id l i = Some a \<or>
        (\<exists>salt now. (i, salt, now) \<in> set cs \<and> a = AnonymousId_from_voter_id E i (bytes_list salt)))"
proof (induction cs arbitrary: l l' rs)
  case (Cons c cs)
  obtain j salt now where c: "c = (j, salt, now)" by (cases c) auto
  obtain l1 r where l1: "anonymize_voter E salt now l j = (l1, r)" by fastforce
  obtain rs' where run: "run_calls (layer_call E) l1 cs = (l', rs')" and rs: "rs = (c, r) # rs'"
    using Cons.prems l1 by (auto simp: c Let_def split: prod.splits)
  note eff = anonymize_voter_effect [OF l1] and IH = Cons.IH [OF run]
  obtain a where a: "get_anonymous_id l1 j = Some a"
    using eff(2) by (auto simp: is_anonymized_def hm_contains_key_def get_anonymous_id_def)
  with IH have "get_anonymous_id l' j = Some a" by blast
  with eff(1) a have "r = Ok (the (get_anonymous_id l' j))" by simp
  moreover have "fset (fmdom (al_voter_mappings l')) = fst ` set (c # cs) \<union> fset (fmdom (al_voter_mappings l))"
    using IH eff(5) by (simp add: c)
  moreover have "\<forall>i a. get_anonymous_id l' i = Some a \<longrightarrow> get_anonymous_id l i = Some a \<or>
        (\<exists>salt now. (i, salt, now) \<in> set (c # cs) \<and> a = AnonymousId_from_voter_id E i (bytes_list salt))"
  proof (intro allI impI)
    fix i a assume "get_anonymous_id l' i = Some a"
    with IH have "get_anonymous_id l1 i = Some a \<or>
        (\<exists>salt now. (i, salt, now) \<in> set cs \<and> a = AnonymousId_from_voter_id E i (bytes_list salt))" by blast
    then show "get_anonymous_id l i = Some a \<or>
        (\<exists>salt now. (i, salt, now) \<in> set (c # cs) \<and> a = AnonymousId_from_voter_id E i (bytes_list salt))"
      using eff(4) [of i a] by (auto simp: c)
  qed
  ultimately show ?case using IH eff(3) by (simp add: rs c)
qed simp

section \<open>Properties\<close>

text \<open>
  A voter has one anonymous id. Whatever sequence of \<open>anonymize_voter\<close> calls an anonymity layer
  has answered, every call for a voter returned the same id, the one the layer still holds; the id
  is a salted hash of the voter's own id with a salt drawn in a call for that voter, no one is
  anonymized without a call, and the count is the number of different voters.
\<close>

theorem anonymous_id_stable:
  "list_all (\<lambda>((i, salt, now), r). r = Ok (the (get_anonymous_id (fst (run_calls (layer_call E) (AnonymityLayer_new e n) cs)) i)))
     (snd (run_calls (layer_call E) (AnonymityLayer_new e n) cs)) \<and>
   anonymized_count (fst (run_calls (layer_call E) (AnonymityLayer_new e n) cs)) = card (fst ` set cs) \<and>
   (is_anonymized (fst (run_calls (layer_call E) (AnonymityLayer_new e n) cs)) i \<longleftrightarrow>
      (\<exists>salt now. (i, salt, now) \<in> set cs \<and>
         get_anonymous_id (fst (run_calls (layer_call E) (AnonymityLayer_new e n) cs)) i =
           Some (AnonymousId_from_voter_id E i (bytes_list salt))))"
proof -
  obtain l rs where l: "run_calls (layer_call E) (AnonymityLayer_new e n) cs = (l, rs)" by fastforce
  note run = run_layer [OF this]
  have "fset (fmdom (al_voter_mappings l)) = fst ` set cs" using run by (simp add: AnonymityLayer_new_def)
  then have "anonymized_count l = card (fst ` set cs)" by (simp add: anonymized_count_def hm_len_def fcard.rep_eq)
  moreover have "is_anonymized l i \<longleftrightarrow> (\<exists>salt now. (i, salt, now) \<in> set cs \<and>
      get_anonymous_id l i = Some (AnonymousId_from_voter_id E i (bytes_list salt)))"
    using run by (auto simp: is_anonymized_def hm_contains_key_def AnonymityLayer_new_def get_anonymous_id_def)
  ultimately show ?thesis using run l by simp
qed

text \<open>
  A ring signature is accepted exactly for the ring it can be checked against. What
  \<open>RingSignature::sign\<close> makes verifies when the signer is a member of the ring; in any ring a
  signature verifies exactly when some member's key verifies it as an ordinary signature, so the
  check names the signer; and signing for an empty ring is an error.
\<close>

theorem ring_signature_members:
  assumes "signature_laws E" and "keypair_wf E kp"
  shows "(cpk_to_common (kp_public kp) \<in> set ring \<longrightarrow>
      (\<exists>r. RingSignature_sign E msg kp ring = Ok r \<and> RingSignature_verify E r msg = Ok True)) \<and>
    (RingSignature_verify E r' msg = Ok True \<longleftrightarrow>
      (\<exists>k \<in> set (rs_ring_members r'). verify E msg (csig_from_common (rs_signature r')) (cpk_from_common k) = Ok ())) \<and>
    RingSignature_sign E msg kp [] = Err (CryptoError ''Ring must have at least one member'')"
proof -
  have accept: "RingSignature_verify E r msg = Ok True \<longleftrightarrow>
      (\<exists>k \<in> set (rs_ring_members r). verify E msg (csig_from_common (rs_signature r)) (cpk_from_common k) = Ok ())" for r
    by (auto simp: RingSignature_verify_def list_ex_iff outcome_simps)
  have "\<exists>r. RingSignature_sign E msg kp ring = Ok r \<and> RingSignature_verify E r msg = Ok True"
    if member: "cpk_to_common (kp_public kp) \<in> set ring"
  proof -
    obtain s where s: "sign E msg kp = Ok s" by (simp add: sign_def)
    then have "verify E msg s (kp_public kp) = Ok ()" using assms by (intro ed25519.check_make) simp_all
    with s member show ?thesis
      by (intro exI [of _ "ok_value (RingSignature_sign E msg kp ring)"] conjI)
         (auto simp: accept RingSignature_sign_def intro!: bexI [OF _ member])
  qed
  then show ?thesis by (auto simp: accept RingSignature_sign_def)
qed

theorem ring_signature_members_witness:
  "\<exists>r. RingSignature_sign sample_voting [1, 2] (sample_keypair 5)
         [PublicKey (bytes_fill 3), cpk_to_common (kp_public (sample_keypair 5))] = Ok r \<and>
       RingSignature_verify sample_voting r [1, 2] = Ok True"
  using ring_signature_members [OF sample_voting_laws(1,4), of 5
      "[PublicKey (bytes_fill 3), cpk_to_common (kp_public (sample_keypair 5))]" "[1, 2]"
      "ok_value (RingSignature_sign sample_voting [1, 2] (sample_keypair 5) [])", THEN conjunct1]
  by (rule mp) simp

end
