(* ===== verification/Signature_Serde.thy ===== *)
theory Signature_Serde
  imports Signatures
begin

text \<open>
  The hand-written \<open>serde\<close> implementations of the two signature types, \<open>common/src/types.rs\<close> and \<open>crypto/src/signatures.rs\<close>. A
  deserializer hands the visitor either a slice of bytes or a sequence whose elements may fail to parse; its errors are
  made by the two constructors of \<open>serde_errors\<close>.
\<close>

record 'e serde_errors =
  se_custom :: "string \<Rightarrow> 'e"
  se_invalid_length :: "nat \<Rightarrow> string \<Rightarrow> 'e"

datatype 'e visited = VisitBytes "u8 list" | VisitSeq "(u8, 'e) result list"

section \<open>Visitors\<close>

text \<open>\<open>for i in 0..n { arr[i] = seq.next_element()?.ok_or_else(...)?; }\<close>: what follows the last element read is left to the format.\<close>

fun read_elements :: "'e serde_errors \<Rightarrow> string \<Rightarrow> nat \<Rightarrow> nat \<Rightarrow> (u8, 'e) result list \<Rightarrow> (u8 list, 'e) result" where
  "read_elements E expecting i 0 seq = Ok []"
| "read_elements E expecting i (Suc n) [] = Err (se_invalid_length E i expecting)"
| "read_elements E expecting i (Suc n) (x # seq) = rbind x (\<lambda>b. rbind (read_elements E expecting (Suc i) n seq) (\<lambda>bs. Ok (b # bs)))"

definition visit_bytes :: "'e serde_errors \<Rightarrow> nat \<Rightarrow> u8 list \<Rightarrow> (u8 list, 'e) result" where
  "visit_bytes E n v =
     (if length v \<noteq> n then Err (se_custom E (''expected '' @ show_nat n @ '' bytes, got '' @ show_nat (length v))) else Ok v)"

definition visit_seq :: "'e serde_errors \<Rightarrow> string \<Rightarrow> nat \<Rightarrow> (u8, 'e) result list \<Rightarrow> (u8 list, 'e) result" where
  "visit_seq E expecting n seq = read_elements E expecting 0 n seq"

fun visit :: "'e serde_errors \<Rightarrow> string \<Rightarrow> nat \<Rightarrow> 'e visited \<Rightarrow> (u8 list, 'e) result" where
  "visit E expecting n (VisitBytes v) = visit_bytes E n v"
| "visit E expecting n (VisitSeq seq) = visit_seq E expecting n seq"

section \<open>The two types\<close>

definition Signature_serialize :: "(u8 list \<Rightarrow> 'o) \<Rightarrow> Signature \<Rightarrow> 'o" where
  "Signature_serialize serialize_bytes s = serialize_bytes (bytes_list (signature_bytes s))"

definition Signature_deserialize :: "'e serde_errors \<Rightarrow> 'e visited \<Rightarrow> (Signature, 'e) result" where
  "Signature_deserialize E input = rbind (visit E ''a 64-byte array'' 64 input) (\<lambda>bs. rbind (copy_from_slice bs) (\<lambda>arr. Ok (Signature arr)))"

definition csig_serialize :: "(u8 list \<Rightarrow> 'o) \<Rightarrow> CryptoSignature \<Rightarrow> 'o" where
  "csig_serialize serialize_bytes s = serialize_bytes (bytes_list (csig_bytes s))"

definition csig_deserialize :: "'e serde_errors \<Rightarrow> 'e visited \<Rightarrow> (CryptoSignature, 'e) result" where
  "csig_deserialize E input =
     rbind (visit E ''a 64-byte signature'' 64 input) (\<lambda>bs. rbind (copy_from_slice bs) (\<lambda>arr. Ok (CryptoSignature arr)))"

section \<open>What is read\<close>

lemma read_elements_total: "n \<le> length bs \<Longrightarrow> read_elements E expecting i n (map Ok bs @ rest) = Ok (take n bs)"
  by (induction n arbitrary: i bs) (auto simp: Suc_le_length_iff)

lemma read_elements_short: "length bs < n \<Longrightarrow> read_elements E expecting i n (map Ok bs) = Err (se_invalid_length E (i + length bs) expecting)"
  by (induction bs arbitrary: i n) (auto simp: less_Suc_eq_0_disj Suc_less_eq2 gr0_conv_Suc)

lemma read_elements_Ok: "read_elements E expecting i n seq = Ok bs \<Longrightarrow> length bs = n \<and> map Ok bs = take n seq"
  by (induction E expecting i n seq arbitrary: bs rule: read_elements.induct) (auto simp: outcome_simps)

text \<open>
  A sequence type whose elements past the 64th are ignored: \<open>visit\<close> answers the same for all of them.
\<close>

lemma visit_seq_prefix: "64 \<le> length bs \<Longrightarrow> visit E expecting 64 (VisitSeq (map Ok bs @ rest)) = Ok (take 64 bs)"
  by (simp add: visit_seq_def read_elements_total)

text \<open>What either implementation writes is read back, whether the format hands it over as bytes or as a sequence.\<close>

lemma signature_serde_roundtrip:
  assumes "handed = VisitBytes \<or> handed = VisitSeq \<circ> map Ok"
  shows "Signature_deserialize E (Signature_serialize handed s) = Ok s \<and> csig_deserialize E (csig_serialize handed c) = Ok c"
proof -
  have "visit E expecting 64 (handed (bytes_list b)) = Ok (bytes_list b)" for expecting and b :: "64 bytes"
    using assms read_elements_total [of 64 "bytes_list b" E expecting 0 "[]"] by (auto simp: visit_bytes_def visit_seq_def)
  then show ?thesis
    by (cases s; cases c) (simp add: Signature_deserialize_def Signature_serialize_def csig_deserialize_def csig_serialize_def)
qed

text \<open>A sequence that is too short is refused with the index of the missing element, a slice of another length with both lengths.\<close>

lemma signature_serde_short:
  "length bs < 64 \<Longrightarrow> Signature_deserialize E (VisitSeq (map Ok bs)) = Err (se_invalid_length E (length bs) ''a 64-byte array'')"
  "length bs \<noteq> 64 \<Longrightarrow> Signature_deserialize E (VisitBytes bs) = Err (se_custom E (''expected '' @ show_nat 64 @ '' bytes, got '' @ show_nat (length bs)))"
  by (simp_all add: Signature_deserialize_def visit_seq_def read_elements_short visit_bytes_def)

end
