(* ===== verification/Transaction.thy ===== *)
theory Transaction
  imports Common_Utils
begin

text \<open>
  \<open>blockchain-core/src/transaction.rs\<close>: the transaction types, the identifier that hashes a
  transaction's contents, and the structural validation. The \<open>bincode\<close> encoding of a payload is
  a third-party function, a field of \<open>tx_externals\<close>; it may fail, and \<open>serialize_for_hashing\<close>
  panics when it does (\<open>expect\<close>). The clock and the random nonce of \<open>Transaction::new\<close> are
  arguments.
\<close>

section \<open>Data\<close>

record VoteTransaction =
  vt_election_id :: ElectionId
  vt_encrypted_vote :: "u8 list"
  vt_validity_proof :: "u8 list option"
  vt_voter_signature :: Signature

record ValidatorMetadata =
  vm_name :: string
  vm_organization :: "string option"
  vm_contact :: "string option"

record ValidatorRegistration =
  vr_validator_key :: PublicKey
  vr_metadata :: ValidatorMetadata
  vr_authorizing_signature :: Signature

record ValidatorRemoval =
  vx_validator_key :: PublicKey
  vx_reason :: string
  vx_authorizing_signature :: Signature

record TxCandidate =
  tc_id :: string
  tc_name :: string
  tc_party :: "string option"
  tc_metadata :: "string option"

record ElectionCreation =
  ec_election_id :: ElectionId
  ec_name :: string
  ec_description :: string
  ec_candidates :: "TxCandidate list"
  ec_start_time :: Timestamp
  ec_end_time :: Timestamp
  ec_authority_signature :: Signature

record ElectionClosure =
  ex_election_id :: ElectionId
  ex_results :: "u8 list"
  ex_authority_signature :: Signature

datatype TransactionType =
    Vote VoteTransaction
  | TxValidatorRegistration ValidatorRegistration
  | TxValidatorRemoval ValidatorRemoval
  | TxElectionCreation ElectionCreation
  | TxElectionClosure ElectionClosure

record Transaction =
  tx_id :: TxId
  tx_type :: TransactionType
  tx_timestamp :: Timestamp
  tx_nonce :: u64

record tx_externals = externals +
  bincode_tx_type :: "TransactionType \<Rightarrow> (u8 list, string) result"
  bincode_tx :: "Transaction \<Rightarrow> (u8 list, string) result"

section \<open>The identifier\<close>

definition serialize_for_hashing :: "'z tx_externals_scheme \<Rightarrow> Transaction \<Rightarrow> u8 list outcome" where
  "serialize_for_hashing E tx =
     (let header = to_le_bytes (tx_timestamp tx) @ to_le_bytes (tx_nonce tx) in
      case bincode_tx_type E (tx_type tx) of
        Ok type_data \<Rightarrow> Ok (header @ type_data)
      | Err e \<Rightarrow> Panic (''Failed to serialize transaction type: '' @ e)
      | Panic m \<Rightarrow> Panic m)"

definition calculate_id :: "'z tx_externals_scheme \<Rightarrow> Transaction \<Rightarrow> TxId outcome" where
  "calculate_id E tx = rbind (serialize_for_hashing E tx) (\<lambda>data. Ok (TxId (hash_data E data)))"

definition Transaction_new_with_params ::
  "'z tx_externals_scheme \<Rightarrow> TransactionType \<Rightarrow> Timestamp \<Rightarrow> u64 \<Rightarrow> Transaction outcome" where
  "Transaction_new_with_params E ty timestamp nonce =
     (let tx = \<lparr>tx_id = TxId (bytes_fill 0), tx_type = ty, tx_timestamp = timestamp, tx_nonce = nonce\<rparr> in
      rbind (calculate_id E tx) (\<lambda>i. Ok (tx\<lparr>tx_id := i\<rparr>)))"

definition Transaction_new ::
  "'z tx_externals_scheme \<Rightarrow> Timestamp \<Rightarrow> u64 \<Rightarrow> TransactionType \<Rightarrow> Transaction outcome" where
  "Transaction_new E now nonce ty =
     (let tx = \<lparr>tx_id = TxId (bytes_fill 0), tx_type = ty, tx_timestamp = now, tx_nonce = nonce\<rparr> in
      rbind (calculate_id E tx) (\<lambda>i. Ok (tx\<lparr>tx_id := i\<rparr>)))"

section \<open>Validation\<close>

definition validate_vote :: "VoteTransaction \<Rightarrow> unit outcome" where
  "validate_vote vote =
     (if vt_encrypted_vote vote = [] then Err (InvalidVote ''Vote data is empty'')
      else if 1024 * 1024 < length (vt_encrypted_vote vote) then Err (InvalidVote ''Vote data too large'')
      else Ok ())"

definition validate_validator_registration :: "ValidatorRegistration \<Rightarrow> unit outcome" where
  "validate_validator_registration reg =
     (if vm_name (vr_metadata reg) = [] then Err (InvalidTransaction ''Validator name cannot be empty'')
      else Ok ())"

definition validate_validator_removal :: "ValidatorRemoval \<Rightarrow> unit outcome" where
  "validate_validator_removal removal =
     (if vx_reason removal = [] then Err (InvalidTransaction ''Removal reason cannot be empty'')
      else Ok ())"

definition validate_election_creation :: "ElectionCreation \<Rightarrow> unit outcome" where
  "validate_election_creation creation =
     (if ec_name creation = [] then Err (InvalidTransaction ''Election name cannot be empty'')
      else if ec_candidates creation = []
      then Err (InvalidTransaction ''Election must have at least one candidate'')
      else if ec_end_time creation \<le> ec_start_time creation
      then Err (InvalidTransaction ''Election end time must be after start time'')
      else Ok ())"

definition validate_election_closure :: "ElectionClosure \<Rightarrow> unit outcome" where
  "validate_election_closure closure =
     (if ex_results closure = [] then Err (InvalidTransaction ''Election results cannot be empty'')
      else Ok ())"

fun validate_payload :: "TransactionType \<Rightarrow> unit outcome" where
  "validate_payload (Vote vote) = validate_vote vote"
| "validate_payload (TxValidatorRegistration reg) = validate_validator_registration reg"
| "validate_payload (TxValidatorRemoval removal) = validate_validator_removal removal"
| "validate_payload (TxElectionCreation creation) = validate_election_creation creation"
| "validate_payload (TxElectionClosure closure) = validate_election_closure closure"

definition Transaction_validate :: "'z tx_externals_scheme \<Rightarrow> Transaction \<Rightarrow> unit outcome" where
  "Transaction_validate E tx =
     rbind (calculate_id E tx) (\<lambda>calculated_id.
       if tx_id tx \<noteq> calculated_id then Err (InvalidTransaction ''Transaction ID mismatch'')
       else validate_payload (tx_type tx))"

section \<open>Accessors\<close>

definition Transaction_size :: "'z tx_externals_scheme \<Rightarrow> Transaction \<Rightarrow> nat" where
  "Transaction_size E tx = (case bincode_tx E tx of Ok data \<Rightarrow> length data | _ \<Rightarrow> 0)"

fun is_vote_type :: "TransactionType \<Rightarrow> bool" where
  "is_vote_type (Vote _) = True"
| "is_vote_type _ = False"

definition is_vote :: "Transaction \<Rightarrow> bool" where
  "is_vote tx = is_vote_type (tx_type tx)"

fun type_election_id :: "TransactionType \<Rightarrow> ElectionId option" where
  "type_election_id (Vote vote) = Some (vt_election_id vote)"
| "type_election_id (TxElectionCreation creation) = Some (ec_election_id creation)"
| "type_election_id (TxElectionClosure closure) = Some (ex_election_id closure)"
| "type_election_id _ = None"

definition get_election_id :: "Transaction \<Rightarrow> ElectionId option" where
  "get_election_id tx = type_election_id (tx_type tx)"

fun type_name :: "TransactionType \<Rightarrow> string" where
  "type_name (Vote _) = ''Vote''"
| "type_name (TxValidatorRegistration _) = ''ValidatorRegistration''"
| "type_name (TxValidatorRemoval _) = ''ValidatorRemoval''"
| "type_name (TxElectionCreation _) = ''ElectionCreation''"
| "type_name (TxElectionClosure _) = ''ElectionClosure''"

definition transaction_type_name :: "Transaction \<Rightarrow> string" where
  "transaction_type_name tx = type_name (tx_type tx)"

section \<open>Facts\<close>

text \<open>A payload that passes its structural checks.\<close>

fun payload_wf :: "TransactionType \<Rightarrow> bool" where
  "payload_wf (Vote v) \<longleftrightarrow> vt_encrypted_vote v \<noteq> [] \<and> length (vt_encrypted_vote v) \<le> 1024 * 1024"
| "payload_wf (TxValidatorRegistration r) \<longleftrightarrow> vm_name (vr_metadata r) \<noteq> []"
| "payload_wf (TxValidatorRemoval r) \<longleftrightarrow> vx_reason r \<noteq> []"
| "payload_wf (TxElectionCreation c) \<longleftrightarrow>
     ec_name c \<noteq> [] \<and> ec_candidates c \<noteq> [] \<and> ec_start_time c < ec_end_time c"
| "payload_wf (TxElectionClosure c) \<longleftrightarrow> ex_results c \<noteq> []"

lemmas payload_check_defs =
  validate_vote_def validate_validator_registration_def validate_validator_removal_def
  validate_election_creation_def validate_election_closure_def

lemma validate_payload_Ok: "validate_payload ty = Ok u \<longleftrightarrow> payload_wf ty"
  by (cases ty) (auto simp: payload_check_defs not_le)

lemma validate_payload_no_panic: "\<not> is_panic (validate_payload ty)"
  by (cases ty) (auto simp: payload_check_defs)

lemma tx_id_unit_update [simp]: "tx\<lparr>tx_id := tx_id tx\<rparr> = tx"
  by simp

text \<open>The identifier is a function of the other fields.\<close>

lemma calculate_id_cong:
  "tx_type a = tx_type b \<Longrightarrow> tx_timestamp a = tx_timestamp b \<Longrightarrow> tx_nonce a = tx_nonce b \<Longrightarrow>
   calculate_id E a = calculate_id E b"
  by (simp add: calculate_id_def serialize_for_hashing_def)

lemma calculate_id_Ok:
  "calculate_id E tx = Ok i \<longleftrightarrow>
     (\<exists>data. serialize_for_hashing E tx = Ok data \<and> i = TxId (blake2b_256 E data))"
  by (auto simp: calculate_id_def hash_data_def outcome_simps)

lemma serialize_for_hashing_Ok:
  "serialize_for_hashing E tx = Ok data \<longleftrightarrow>
     (\<exists>payload. bincode_tx_type E (tx_type tx) = Ok payload \<and>
        data = to_le_bytes (tx_timestamp tx) @ to_le_bytes (tx_nonce tx) @ payload)"
  by (auto simp: serialize_for_hashing_def Let_def split: result.splits)

lemma calculate_id_not_Err: "calculate_id E tx \<noteq> Err e"
  by (auto simp: calculate_id_def serialize_for_hashing_def Let_def outcome_simps split: result.splits)

lemma Transaction_validate_Ok:
  "Transaction_validate E tx = Ok u \<longleftrightarrow> calculate_id E tx = Ok (tx_id tx) \<and> payload_wf (tx_type tx)"
  by (auto simp: Transaction_validate_def outcome_simps validate_payload_Ok split: if_splits)

lemma new_with_params_Ok:
  "Transaction_new_with_params E ty ts n = Ok tx \<longleftrightarrow>
     calculate_id E tx = Ok (tx_id tx) \<and> tx_type tx = ty \<and> tx_timestamp tx = ts \<and> tx_nonce tx = n"
proof -
  let ?blank = "\<lparr>tx_id = TxId (bytes_fill 0), tx_type = ty, tx_timestamp = ts, tx_nonce = n\<rparr>"
  have "calculate_id E (?blank\<lparr>tx_id := i\<rparr>) = calculate_id E ?blank" for i
    by (rule calculate_id_cong) simp_all
  then show ?thesis
    by (cases tx) (auto simp: Transaction_new_with_params_def Let_def outcome_simps, metis)
qed

lemma serialize_for_hashing_inject:
  assumes "serialize_for_hashing E a = Ok data" and "serialize_for_hashing E b = Ok data"
  shows "tx_timestamp a = tx_timestamp b \<and> tx_nonce a = tx_nonce b \<and>
         bincode_tx_type E (tx_type a) = bincode_tx_type E (tx_type b)"
  using assms
  by (auto simp: serialize_for_hashing_Ok append_eq_append_conv byte_simps to_le_bytes_inject)

lemma Transaction_new_eq: "Transaction_new E now nonce ty = Transaction_new_with_params E ty now nonce"
  by (simp add: Transaction_new_def Transaction_new_with_params_def)

lemma new_with_params_validate:
  "Transaction_new_with_params E ty ts n = Ok tx \<Longrightarrow> Transaction_validate E tx = validate_payload ty"
  by (simp add: new_with_params_Ok Transaction_validate_def)

section \<open>A concrete instance\<close>

fun sample_bincode :: "TransactionType \<Rightarrow> (u8 list, string) result" where
  "sample_bincode (Vote v) = Ok (0 # vt_encrypted_vote v)"
| "sample_bincode (TxValidatorRegistration r) = Ok (1 # bytes_list (public_key_bytes (vr_validator_key r)))"
| "sample_bincode (TxValidatorRemoval r) = Ok (2 # bytes_list (public_key_bytes (vx_validator_key r)))"
| "sample_bincode (TxElectionCreation c) = Ok (3 # bytes_list (election_id_bytes (ec_election_id c)))"
| "sample_bincode (TxElectionClosure c) = Ok (4 # ex_results c)"

definition sample_env :: tx_externals where
  "sample_env =
     \<lparr>blake2b_256 = (\<lambda>bs. bytes_fill (sum_list bs)), hex_encode = sample_hex_encode,
      hex_decode = sample_hex_decode, bincode_tx_type = sample_bincode,
      bincode_tx = (\<lambda>tx. sample_bincode (tx_type tx))\<rparr>"

definition sample_vote :: "u8 list \<Rightarrow> TransactionType" where
  "sample_vote ballot =
     Vote \<lparr>vt_election_id = ElectionId (bytes_fill 1), vt_encrypted_vote = ballot,
           vt_validity_proof = None, vt_voter_signature = Signature (bytes_fill 0)\<rparr>"

definition sample_tx :: "u8 list \<Rightarrow> u64 \<Rightarrow> Transaction" where
  "sample_tx ballot n = ok_value (Transaction_new_with_params sample_env (sample_vote ballot) 1000 n)"

lemma sample_tx_new:
  "Transaction_new_with_params sample_env (sample_vote ballot) 1000 n = Ok (sample_tx ballot n)"
  by (simp add: sample_tx_def Transaction_new_with_params_def calculate_id_def serialize_for_hashing_def
      sample_env_def sample_vote_def Let_def)

lemma sample_tx_fields [simp]:
  "tx_type (sample_tx ballot n) = sample_vote ballot" "tx_timestamp (sample_tx ballot n) = 1000"
  "tx_nonce (sample_tx ballot n) = n"
  using sample_tx_new [of ballot n] by (simp_all add: new_with_params_Ok)

lemma sample_tx_valid:
  "ballot \<noteq> [] \<Longrightarrow> length ballot \<le> 1048576 \<Longrightarrow> Transaction_validate sample_env (sample_tx ballot n) = Ok ()"
  using new_with_params_validate [OF sample_tx_new]
  by (simp add: sample_vote_def validate_vote_def)

section \<open>Properties\<close>

text \<open>
  \<open>Transaction::validate\<close> accepts exactly the transactions whose identifier is the Blake2b digest
  of timestamp, nonce (little endian) and encoded payload, and whose payload is well formed: vote
  data of one byte to one mebibyte, a validator name, a removal reason, an election with a name, a
  candidate and an end after its start, non-empty results.
\<close>

theorem transaction_validate_iff:
  "Transaction_validate E tx = Ok () \<longleftrightarrow>
     (\<exists>payload. bincode_tx_type E (tx_type tx) = Ok payload \<and>
        tx_id tx = TxId (blake2b_256 E (to_le_bytes (tx_timestamp tx) @ to_le_bytes (tx_nonce tx) @ payload))) \<and>
     payload_wf (tx_type tx)"
  by (auto simp: Transaction_validate_Ok calculate_id_Ok serialize_for_hashing_Ok)

text \<open>
  The identifier binds the transaction: two transactions that validate and have the same
  identifier are equal, provided Blake2b does not collide on their two hashing inputs and the encoder
  does not identify their two payloads.
\<close>

theorem transaction_id_binding:
  assumes "Transaction_validate E a = Ok ()" and "Transaction_validate E b = Ok ()"
    and "inj_on (blake2b_256 E) {d. serialize_for_hashing E a = Ok d \<or> serialize_for_hashing E b = Ok d}"
    and "inj_on (bincode_tx_type E) {tx_type a, tx_type b}"
    and "tx_id a = tx_id b"
  shows "a = b"
proof -
  from assms(1,2) obtain da db where d: "serialize_for_hashing E a = Ok da" "serialize_for_hashing E b = Ok db"
      "tx_id a = TxId (blake2b_256 E da)" "tx_id b = TxId (blake2b_256 E db)"
    by (auto simp: Transaction_validate_Ok calculate_id_Ok)
  with assms(3,5) have "da = db"
    by (auto dest: inj_onD)
  with d have "tx_timestamp a = tx_timestamp b \<and> tx_nonce a = tx_nonce b \<and>
               bincode_tx_type E (tx_type a) = bincode_tx_type E (tx_type b)"
    by (intro serialize_for_hashing_inject) auto
  with assms(4,5) show ?thesis
    by (auto dest: inj_onD)
qed

theorem transaction_id_binding_witness:
  "tx_id (sample_tx [1, 2] 7) \<noteq> tx_id (sample_tx [1, 3] 7)"
proof
  let ?a = "sample_tx [1, 2] 7" and ?b = "sample_tx [1, 3] 7"
  assume "tx_id ?a = tx_id ?b"
  moreover have "inj_on (blake2b_256 sample_env)
      {d. serialize_for_hashing sample_env ?a = Ok d \<or> serialize_for_hashing sample_env ?b = Ok d}"
    by (auto simp: inj_on_def serialize_for_hashing_Ok sample_env_def sample_vote_def)
  moreover have "inj_on (bincode_tx_type sample_env) {tx_type ?a, tx_type ?b}"
    by (auto simp: sample_env_def sample_vote_def)
  ultimately have "?a = ?b"
    by (intro transaction_id_binding [OF sample_tx_valid sample_tx_valid]) simp_all
  then have "sample_vote [1, 2] = sample_vote [1, 3]"
    by (metis sample_tx_fields(1))
  then show False by (simp add: sample_vote_def)
qed

end
