(* ===== verification/Merkle.thy ===== *)
theory Merkle
  imports Common_Utils
begin

text \<open>
  \<open>blockchain-core/src/merkle.rs\<close>: the tree of hashes over a list of leaves, its proofs and their
  verification. The two loops that build the tree are the recursions \<open>build_next_level_loop\<close>
  (index \<open>i\<close> over a level) and \<open>build_tree_loop\<close> (one level after another). Indexing and
  \<open>unwrap\<close> are modelled with their panics, and \<open>MerkleTree_new_eq\<close> and
  \<open>generate_proof_path\<close> show that they never happen on a tree the code has built.

  Blake2b is a parameter. That two different inputs have different digests cannot hold for all
  byte strings, so the security statements assume it of the inputs that the trees or proofs at
  hand really hash: \<open>tree_inputs\<close> and \<open>proof_inputs\<close> list them.
\<close>

section \<open>Data\<close>

record MerkleTree =
  mt_root :: BlockHash
  mt_leaves :: "BlockHash list"
  mt_levels :: "BlockHash list list"

record ProofNode =
  pn_hash :: BlockHash
  pn_is_left :: bool

record MerkleProof =
  mp_leaf_hash :: BlockHash
  mp_leaf_index :: nat
  mp_proof :: "ProofNode list"
  mp_root :: BlockHash

section \<open>Operations\<close>

abbreviation hash_bytes :: "BlockHash \<Rightarrow> u8 list" where
  "hash_bytes h \<equiv> bytes_list (block_hash_bytes h)"

definition hash_pair :: "'z externals_scheme \<Rightarrow> BlockHash \<Rightarrow> BlockHash \<Rightarrow> BlockHash" where
  "hash_pair E left right = BlockHash (hash_multiple E [hash_bytes left, hash_bytes right])"

function build_next_level_loop ::
  "'z externals_scheme \<Rightarrow> BlockHash list \<Rightarrow> nat \<Rightarrow> BlockHash list \<Rightarrow> BlockHash list" where
  "build_next_level_loop E level i next_level =
     (if i < length level then
        if i + 1 < length level
        then build_next_level_loop E level (i + 2) (next_level @ [hash_pair E (level ! i) (level ! (i + 1))])
        else build_next_level_loop E level (i + 1) (next_level @ [hash_pair E (level ! i) (level ! i)])
      else next_level)"
  by pat_completeness auto
termination
  by (relation "measure (\<lambda>(E, level, i, _). length level - i)") auto

declare build_next_level_loop.simps [simp del]

definition build_next_level :: "'z externals_scheme \<Rightarrow> BlockHash list \<Rightarrow> BlockHash list" where
  "build_next_level E level = build_next_level_loop E level 0 []"

text \<open>The same level by recursion on the list: the reference for the loop.\<close>

fun pair_up :: "('a \<Rightarrow> 'a \<Rightarrow> 'b) \<Rightarrow> 'a list \<Rightarrow> 'b list" where
  "pair_up f [] = []"
| "pair_up f [x] = [f x x]"
| "pair_up f (x # y # zs) = f x y # pair_up f zs"

lemma build_next_level_loop_eq:
  "build_next_level_loop E level i acc = acc @ pair_up (hash_pair E) (drop i level)"
proof (induction E level i acc rule: build_next_level_loop.induct)
  case (1 E level i acc)
  consider "length level \<le> i" | "i < length level" "\<not> i + 1 < length level" | "i + 1 < length level"
    by linarith
  then show ?case
  proof cases
    case 1
    then show ?thesis by (subst build_next_level_loop.simps) simp
  next
    case 2
    then have "drop i level = [level ! i]"
      by (metis Cons_nth_drop_Suc Suc_eq_plus1 drop_all not_le)
    with 2 "1.IH"(2) show ?thesis
      by (subst build_next_level_loop.simps) simp
  next
    case 3
    then have "drop i level = level ! i # level ! (i + 1) # drop (i + 2) level"
      by (metis Cons_nth_drop_Suc Suc_eq_plus1 add_2_eq_Suc' add_lessD1)
    with 3 "1.IH"(1) show ?thesis
      by (subst build_next_level_loop.simps) simp
  qed
qed

lemma build_next_level_eq: "build_next_level E level = pair_up (hash_pair E) level"
  by (simp add: build_next_level_def build_next_level_loop_eq)

lemma length_pair_up: "length (pair_up f xs) = (length xs + 1) div 2"
  by (induction f xs rule: pair_up.induct) auto

lemma length_build_next_level: "length (build_next_level E level) = (length level + 1) div 2"
  by (simp add: build_next_level_eq length_pair_up)

function build_tree_loop ::
  "'z externals_scheme \<Rightarrow> BlockHash list \<Rightarrow> BlockHash list list \<Rightarrow> BlockHash list list" where
  "build_tree_loop E current_level levels =
     (if length current_level > 1 then
        build_tree_loop E (build_next_level E current_level) (levels @ [build_next_level E current_level])
      else levels)"
  by pat_completeness auto
termination
  by (relation "measure (\<lambda>(E, c, _). length c)") (auto simp: length_build_next_level)

declare build_tree_loop.simps [simp del]

definition build_tree :: "'z externals_scheme \<Rightarrow> BlockHash list \<Rightarrow> BlockHash list list" where
  "build_tree E current_level = build_tree_loop E current_level [current_level]"

definition MerkleTree_new :: "'z externals_scheme \<Rightarrow> BlockHash list \<Rightarrow> MerkleTree outcome" where
  "MerkleTree_new E hashes =
     (if hashes = [] then Ok \<lparr>mt_root = BlockHash_zero, mt_leaves = [], mt_levels = []\<rparr>
      else
        let leaves = hashes; levels = build_tree E hashes in
        case vec_last levels of
          None \<Rightarrow> Panic ''called Option::unwrap() on a None value''
        | Some level \<Rightarrow> rbind (vec_index level 0) (\<lambda>root.
            Ok \<lparr>mt_root = root, mt_leaves = leaves, mt_levels = levels\<rparr>))"

definition leaf_count :: "MerkleTree \<Rightarrow> nat" where
  "leaf_count t = length (mt_leaves t)"

definition MerkleTree_depth :: "MerkleTree \<Rightarrow> nat" where
  "MerkleTree_depth t = length (mt_levels t)"

definition MerkleTree_is_empty :: "MerkleTree \<Rightarrow> bool" where
  "MerkleTree_is_empty t \<longleftrightarrow> mt_leaves t = []"

text \<open>The loop of \<open>generate_proof\<close> over all levels but the last, with the running index.\<close>

fun proof_path :: "BlockHash list list \<Rightarrow> nat \<Rightarrow> ProofNode list outcome" where
  "proof_path [] current_index = Ok []"
| "proof_path (level # levels) current_index =
     (let sibling_index = (if current_index mod 2 = 0 then current_index + 1 else current_index - 1) in
      rbind (if sibling_index < length level then vec_index level sibling_index
             else vec_index level current_index) (\<lambda>sibling_hash.
      rbind (proof_path levels (current_index div 2)) (\<lambda>rest.
      Ok (\<lparr>pn_hash = sibling_hash, pn_is_left = (current_index mod 2 = 1)\<rparr> # rest))))"

definition generate_proof :: "MerkleTree \<Rightarrow> nat \<Rightarrow> MerkleProof option outcome" where
  "generate_proof t leaf_index =
     (if length (mt_leaves t) \<le> leaf_index then Ok None
      else if mt_levels t = [] then Panic ''range end index out of range''
      else rbind (proof_path (butlast (mt_levels t)) leaf_index) (\<lambda>proof_hashes.
           Ok (Some \<lparr>mp_leaf_hash = mt_leaves t ! leaf_index, mp_leaf_index = leaf_index,
                     mp_proof = proof_hashes, mp_root = mt_root t\<rparr>)))"

definition proof_step :: "'z externals_scheme \<Rightarrow> ProofNode \<Rightarrow> BlockHash \<Rightarrow> BlockHash" where
  "proof_step E node current_hash =
     (if pn_is_left node then hash_pair E (pn_hash node) current_hash
      else hash_pair E current_hash (pn_hash node))"

definition verify_proof :: "'z externals_scheme \<Rightarrow> MerkleProof \<Rightarrow> bool" where
  "verify_proof E p \<longleftrightarrow> fold (proof_step E) (mp_proof p) (mp_leaf_hash p) = mp_root p"

definition MerkleProof_size :: "MerkleProof \<Rightarrow> nat" where
  "MerkleProof_size p = length (mp_proof p)"

section \<open>The levels and the root\<close>

text \<open>The levels by recursion on the leaves, and the root.\<close>

function levels_of :: "'z externals_scheme \<Rightarrow> BlockHash list \<Rightarrow> BlockHash list list" where
  "levels_of E xs = xs # (if length xs > 1 then levels_of E (build_next_level E xs) else [])"
  by pat_completeness auto
termination
  by (relation "measure (\<lambda>(E, xs). length xs)") (auto simp: length_build_next_level)

declare levels_of.simps [simp del]

definition merkle_root :: "'z externals_scheme \<Rightarrow> BlockHash list \<Rightarrow> BlockHash" where
  "merkle_root E xs = (if xs = [] then BlockHash_zero else hd (last (levels_of E xs)))"

lemma levels_of_short: "length xs \<le> 1 \<Longrightarrow> levels_of E xs = [xs]"
  by (subst levels_of.simps) simp

lemma levels_of_long: "1 < length xs \<Longrightarrow> levels_of E xs = xs # levels_of E (build_next_level E xs)"
  by (subst levels_of.simps) simp

lemma levels_of_nonempty [simp]: "levels_of E xs \<noteq> []"
  by (subst levels_of.simps) simp

lemma build_next_level_eq_Nil [simp]: "build_next_level E xs = [] \<longleftrightarrow> xs = []"
  using length_build_next_level [of E xs] by (cases xs) auto

lemma merkle_root_singleton: "merkle_root E [x] = x"
  by (simp add: merkle_root_def levels_of_short)

lemma merkle_root_next: "1 < length xs \<Longrightarrow> merkle_root E xs = merkle_root E (build_next_level E xs)"
  by (auto simp: merkle_root_def levels_of_long)

lemma merkle_root_short: "length xs = 1 \<Longrightarrow> xs = [merkle_root E xs]"
  by (cases xs) (auto simp: merkle_root_singleton)

lemma build_tree_loop_eq: "build_tree_loop E xs (ls @ [xs]) = ls @ levels_of E xs"
proof (induction E xs arbitrary: ls rule: levels_of.induct)
  case (1 E xs)
  show ?case
  proof (cases "length xs > 1")
    case True
    with "1.IH" [of "ls @ [xs]"] show ?thesis
      by (subst build_tree_loop.simps) (simp add: levels_of_long)
  next
    case False
    then show ?thesis by (subst build_tree_loop.simps) (simp add: levels_of_short)
  qed
qed

lemma build_tree_eq: "build_tree E xs = levels_of E xs"
  using build_tree_loop_eq [of E xs "[]"] by (simp add: build_tree_def)

lemma length_last_levels_of: "xs \<noteq> [] \<Longrightarrow> length (last (levels_of E xs)) = 1"
proof (induction E xs rule: levels_of.induct)
  case (1 E xs)
  show ?case
  proof (cases "length xs > 1")
    case True
    with 1 show ?thesis by (simp add: levels_of_long)
  next
    case False
    with "1.prems" show ?thesis by (simp add: levels_of_short Suc_leI antisym)
  qed
qed

text \<open>Building a tree never panics; the record it builds has the levels and the root above.\<close>

lemma MerkleTree_new_eq:
  "MerkleTree_new E xs =
     Ok \<lparr>mt_root = merkle_root E xs, mt_leaves = xs,
         mt_levels = (if xs = [] then [] else levels_of E xs)\<rparr>"
proof (cases "xs = []")
  case False
  then have "length (last (levels_of E xs)) = 1" by (rule length_last_levels_of)
  with False show ?thesis
    by (cases "last (levels_of E xs)")
       (auto simp: MerkleTree_new_def build_tree_eq vec_last_def merkle_root_def vec_index_def Let_def)
qed (simp add: MerkleTree_new_def merkle_root_def)

lemma pair_up_nth:
  "i < (length xs + 1) div 2 \<Longrightarrow>
   pair_up f xs ! i = f (xs ! (2 * i)) (if 2 * i + 1 < length xs then xs ! (2 * i + 1) else xs ! (2 * i))"
proof (induction f xs arbitrary: i rule: pair_up.induct)
  case (3 f x y zs)
  then show ?case by (cases i) auto
qed auto

lemma set_pair_up: "h \<in> set (pair_up f xs) \<Longrightarrow> \<exists>a \<in> set xs. \<exists>b \<in> set xs. h = f a b"
  by (induction f xs rule: pair_up.induct) auto

section \<open>Proofs of the tree's own leaves\<close>

text \<open>
  The path of leaf \<open>i\<close> exists at every level, and folding it from the leaf ends in the root: the
  pair hashed at each step is the one that \<open>build_next_level\<close> hashed.
\<close>

lemma proof_step_sibling:
  assumes "i < length xs" and "1 < length xs"
  defines "sib \<equiv> (if i mod 2 = 0 then i + 1 else i - 1)"
  shows "proof_step E \<lparr>pn_hash = (if sib < length xs then xs ! sib else xs ! i), pn_is_left = (i mod 2 = 1)\<rparr>
           (xs ! i) = build_next_level E xs ! (i div 2)"
proof -
  have i2: "i div 2 < (length xs + 1) div 2"
    using assms(1) by linarith
  show ?thesis
  proof (cases "even i")
    case True
    with i2 assms show ?thesis
      by (auto simp: build_next_level_eq pair_up_nth proof_step_def sib_def elim!: evenE)
  next
    case False
    with i2 assms show ?thesis
      by (auto simp: build_next_level_eq pair_up_nth proof_step_def sib_def elim!: oddE)
  qed
qed

lemma generate_proof_path:
  "i < length xs \<Longrightarrow>
   \<exists>ps. proof_path (butlast (levels_of E xs)) i = Ok ps \<and>
        length ps = length (levels_of E xs) - 1 \<and>
        fold (proof_step E) ps (xs ! i) = merkle_root E xs"
proof (induction E xs arbitrary: i rule: levels_of.induct)
  case (1 E xs)
  show ?case
  proof (cases "length xs > 1")
    case True
    let ?next = "build_next_level E xs"
    have "i div 2 < length ?next"
      using "1.prems" by (simp add: length_build_next_level)
    with "1.IH" True obtain ps where ps: "proof_path (butlast (levels_of E ?next)) (i div 2) = Ok ps"
        "length ps = length (levels_of E ?next) - 1"
        "fold (proof_step E) ps (?next ! (i div 2)) = merkle_root E ?next"
      by blast
    let ?sib = "if i mod 2 = 0 then i + 1 else i - 1"
    let ?node = "\<lparr>pn_hash = (if ?sib < length xs then xs ! ?sib else xs ! i), pn_is_left = (i mod 2 = 1)\<rparr>"
    have "proof_path (butlast (levels_of E xs)) i = Ok (?node # ps)"
      using True "1.prems" ps(1) by (simp add: levels_of_long Let_def)
    moreover have "fold (proof_step E) (?node # ps) (xs ! i) = merkle_root E xs"
      using proof_step_sibling [OF "1.prems" True, of E] ps(3) merkle_root_next [OF True, of E] by simp
    moreover have "length (?node # ps) = length (levels_of E xs) - 1"
      using ps(2) True by (simp add: levels_of_long Suc_diff_le Suc_leI)
    ultimately show ?thesis by blast
  next
    case False
    with "1.prems" have "length xs = 1" by simp
    with "1.prems" show ?thesis
      by (auto simp: levels_of_short merkle_root_singleton length_Suc_conv)
  qed
qed

text \<open>The depth of the tree is the binary logarithm of the number of leaves, rounded up, plus one.\<close>

lemma length_levels_of:
  "xs \<noteq> [] \<Longrightarrow> length xs \<le> 2 ^ (length (levels_of E xs) - 1) \<and>
                2 ^ (length (levels_of E xs) - 1) < 2 * length xs"
proof (induction E xs rule: levels_of.induct)
  case (1 E xs)
  show ?case
  proof (cases "length xs > 1")
    case True
    obtain n where n: "length (levels_of E (build_next_level E xs)) = Suc n"
      by (metis length_0_conv levels_of_nonempty not0_implies_Suc)
    have bounds: "(length xs + 1) div 2 \<le> 2 ^ n" "2 ^ n < 2 * ((length xs + 1) div 2)"
      using 1 True n by (auto simp: length_build_next_level)
    moreover have "length (levels_of E xs) - 1 = Suc n"
      using True n by (simp add: levels_of_long)
    moreover have "(2::nat) ^ n < length xs"
    proof (cases n)
      case (Suc k)
      with bounds(2) show ?thesis by simp
    qed (use True in simp)
    ultimately show ?thesis by simp
  next
    case False
    with "1.prems" show ?thesis by (cases xs) (auto simp: levels_of_short)
  qed
qed

section \<open>What a root commits to\<close>

text \<open>The byte strings hashed when the tree over \<open>xs\<close> is built, and when a proof is checked.\<close>

definition pair_input :: "BlockHash \<Rightarrow> BlockHash \<Rightarrow> u8 list" where
  "pair_input a b = hash_bytes a @ hash_bytes b"

function tree_inputs :: "'z externals_scheme \<Rightarrow> BlockHash list \<Rightarrow> u8 list list" where
  "tree_inputs E xs =
     (if length xs > 1 then pair_up pair_input xs @ tree_inputs E (build_next_level E xs) else [])"
  by pat_completeness auto
termination
  by (relation "measure (\<lambda>(E, xs). length xs)") (auto simp: length_build_next_level)

declare tree_inputs.simps [simp del]

fun proof_inputs :: "'z externals_scheme \<Rightarrow> ProofNode list \<Rightarrow> BlockHash \<Rightarrow> u8 list list" where
  "proof_inputs E [] h = []"
| "proof_inputs E (p # ps) h =
     (if pn_is_left p then pair_input (pn_hash p) h else pair_input h (pn_hash p))
       # proof_inputs E ps (proof_step E p h)"

definition no_collision :: "'z externals_scheme \<Rightarrow> u8 list set \<Rightarrow> bool" where
  "no_collision E A \<longleftrightarrow> inj_on (blake2b_256 E) A"

lemma tree_inputs_long:
  "1 < length xs \<Longrightarrow> tree_inputs E xs = pair_up pair_input xs @ tree_inputs E (build_next_level E xs)"
  by (subst tree_inputs.simps) simp

lemma pair_input_inject: "pair_input a b = pair_input c d \<longleftrightarrow> a = c \<and> b = d"
  by (auto simp: pair_input_def append_eq_append_conv BlockHash.expand)

lemma hash_pair_input: "hash_pair E a b = BlockHash (blake2b_256 E (pair_input a b))"
  by (simp add: hash_pair_def hash_multiple_def pair_input_def)

lemma no_collision_subset: "no_collision E B \<Longrightarrow> A \<subseteq> B \<Longrightarrow> no_collision E A"
  unfolding no_collision_def by (rule inj_on_subset)

lemma hash_pair_inject:
  assumes "no_collision E A" "pair_input a b \<in> A" "pair_input c d \<in> A"
    and "hash_pair E a b = hash_pair E c d"
  shows "a = c \<and> b = d"
  using assms by (auto simp: no_collision_def hash_pair_input pair_input_inject dest: inj_onD)

lemma pair_up_hash_inject:
  assumes "no_collision E A" and "length xs = length ys"
    and "set (pair_up pair_input xs) \<subseteq> A" and "set (pair_up pair_input ys) \<subseteq> A"
    and "pair_up (hash_pair E) xs = pair_up (hash_pair E) ys"
  shows "xs = ys"
  using assms(2-5)
proof (induction pair_input xs arbitrary: ys rule: pair_up.induct)
  case 2
  then show ?case
    by (cases ys) (auto dest: hash_pair_inject [OF assms(1), rotated 2])
next
  case (3 x y zs)
  then obtain x' y' zs' where ys: "ys = x' # y' # zs'"
    by (metis length_Suc_conv)
  with 3 have "hash_pair E x y = hash_pair E x' y'" and "zs = zs'" by auto
  moreover from 3 ys have "x = x' \<and> y = y'"
    by (intro hash_pair_inject [OF assms(1)]) auto
  ultimately show ?case using ys by simp
qed simp

lemma step_in_pairs:
  assumes "no_collision E (A \<union> set (proof_inputs E (p # qs) h))"
    and "proof_step E p h \<in> set (pair_up (hash_pair E) xs)"
    and "set (pair_up pair_input xs) \<subseteq> A"
  shows "h \<in> set xs"
  using assms(2,3)
proof (induction pair_input xs rule: pair_up.induct)
  case (2 x)
  then show ?case
    by (auto simp: proof_step_def split: if_splits dest!: hash_pair_inject [OF assms(1), rotated 2])
next
  case (3 x y zs)
  then show ?case
    by (auto simp: proof_step_def split: if_splits dest!: hash_pair_inject [OF assms(1), rotated 2])
qed simp

lemma merkle_root_inject:
  "length xs = length ys \<Longrightarrow> no_collision E (set (tree_inputs E xs) \<union> set (tree_inputs E ys)) \<Longrightarrow>
   merkle_root E xs = merkle_root E ys \<Longrightarrow> xs = ys"
proof (induction E xs arbitrary: ys rule: levels_of.induct)
  case (1 E xs)
  show ?case
  proof (cases "length xs > 1")
    case True
    with "1.prems"(1) have len: "1 < length ys" by simp
    let ?A = "set (tree_inputs E xs) \<union> set (tree_inputs E ys)"
    have sub: "set (tree_inputs E (build_next_level E xs)) \<subseteq> ?A"
      "set (tree_inputs E (build_next_level E ys)) \<subseteq> ?A"
      "set (pair_up pair_input xs) \<subseteq> ?A" "set (pair_up pair_input ys) \<subseteq> ?A"
      using True len by (auto simp: tree_inputs_long)
    have "build_next_level E xs = build_next_level E ys"
    proof (rule "1.IH" [OF True])
      show "length (build_next_level E xs) = length (build_next_level E ys)"
        using "1.prems"(1) by (simp add: length_build_next_level)
      show "no_collision E (set (tree_inputs E (build_next_level E xs)) \<union>
                            set (tree_inputs E (build_next_level E ys)))"
        using "1.prems"(2) sub by (auto intro: no_collision_subset)
      show "merkle_root E (build_next_level E xs) = merkle_root E (build_next_level E ys)"
        using "1.prems"(3) merkle_root_next [OF True, of E] merkle_root_next [OF len, of E] by simp
    qed
    then show ?thesis
      using pair_up_hash_inject [OF "1.prems"(2,1) sub(3,4)] by (simp add: build_next_level_eq)
  next
    case False
    then consider "xs = []" "ys = []" | "length xs = 1" "length ys = 1"
      using "1.prems"(1) by (cases xs) auto
    then show ?thesis
    proof cases
      case 2
      then show ?thesis using "1.prems"(3) merkle_root_short by metis
    qed simp
  qed
qed

text \<open>
  A verified path of the tree's depth starts at a leaf: going down from the root, every hash on the
  path is one of the tree's, because its preimage is.
\<close>

lemma verified_path_starts_at_leaf:
  "xs \<noteq> [] \<Longrightarrow> length ps = length (levels_of E xs) - 1 \<Longrightarrow>
   no_collision E (set (tree_inputs E xs) \<union> set (proof_inputs E ps h)) \<Longrightarrow>
   fold (proof_step E) ps h = merkle_root E xs \<Longrightarrow> h \<in> set xs"
proof (induction E xs arbitrary: ps h rule: levels_of.induct)
  case (1 E xs)
  show ?case
  proof (cases "length xs > 1")
    case True
    let ?next = "build_next_level E xs"
    from True "1.prems"(2) obtain p qs where ps: "ps = p # qs" "length qs = length (levels_of E ?next) - 1"
      by (cases ps) (auto simp: levels_of_long)
    have "proof_step E p h \<in> set ?next"
    proof (rule "1.IH" [OF True _ ps(2)])
      show "?next \<noteq> []" using "1.prems"(1) by simp
      show "no_collision E (set (tree_inputs E ?next) \<union> set (proof_inputs E qs (proof_step E p h)))"
        using "1.prems"(3) True ps(1) by (auto simp: tree_inputs_long intro: no_collision_subset)
      show "fold (proof_step E) qs (proof_step E p h) = merkle_root E ?next"
        using "1.prems"(4) ps(1) merkle_root_next [OF True, of E] by simp
    qed
    then have "proof_step E p h \<in> set (pair_up (hash_pair E) xs)"
      by (simp add: build_next_level_eq)
    moreover have "set (pair_up pair_input xs) \<subseteq> set (tree_inputs E xs)"
      using True by (auto simp: tree_inputs_long)
    ultimately show ?thesis
      using step_in_pairs [OF "1.prems"(3) [unfolded ps(1)]] by blast
  next
    case False
    with "1.prems" have "length xs = 1" "ps = []"
      by (auto simp: levels_of_short Suc_leI antisym)
    then show ?thesis
      using "1.prems"(4) merkle_root_short [of xs E] by (metis fold_simps(1) list.set_intros(1))
  qed
qed

section \<open>Odd levels\<close>

lemma pair_up_odd_last: "odd (length xs) \<Longrightarrow> pair_up f (xs @ [last xs]) = pair_up f xs"
  by (induction f xs rule: pair_up.induct) auto

text \<open>
  An inner node passes for a leaf when the length of the path is not compared with the depth of
  the tree, as \<open>verify_proof\<close> does not.
\<close>

lemma verify_proof_accepts_inner_node:
  assumes "1 < length xs" and "i < length (build_next_level E xs)"
  shows "\<exists>p. verify_proof E p \<and> mp_root p = merkle_root E xs \<and>
             mp_leaf_hash p = build_next_level E xs ! i"
proof -
  from generate_proof_path [OF assms(2), of E] obtain ps
    where "fold (proof_step E) ps (build_next_level E xs ! i) = merkle_root E xs"
    using merkle_root_next [OF assms(1), of E] by auto
  then show ?thesis
    by (intro exI [of _ "\<lparr>mp_leaf_hash = build_next_level E xs ! i, mp_leaf_index = i,
                          mp_proof = ps, mp_root = merkle_root E xs\<rparr>"])
       (simp add: verify_proof_def)
qed

section \<open>Properties\<close>

text \<open>
  C29: For every index of a leaf of a tree the code builds, and only for those, \<open>generate_proof\<close> returns a
  proof. It carries the leaf, its index and the root, is as long as the tree is deep, and \<open>verify_proof\<close>
  accepts it. For an index past the leaves the answer is \<open>None\<close>. There is no panic.
\<close>

theorem merkle_proof_complete:
  assumes "MerkleTree_new E xs = Ok t"
  shows "if i < length xs
    then \<exists>p. generate_proof t i = Ok (Some p) \<and> verify_proof E p \<and>
             mp_leaf_hash p = xs ! i \<and> mp_leaf_index p = i \<and> mp_root p = mt_root t \<and>
             MerkleProof_size p = MerkleTree_depth t - 1
    else generate_proof t i = Ok None"
proof -
  from assms have t: "t = \<lparr>mt_root = merkle_root E xs, mt_leaves = xs, mt_levels = (if xs = [] then [] else levels_of E xs)\<rparr>"
    by (simp add: MerkleTree_new_eq)
  show ?thesis
  proof (cases "i < length xs")
    case True
    then have "xs \<noteq> []" by auto
    with True t generate_proof_path [OF True, of E] show ?thesis
      by (auto simp: generate_proof_def verify_proof_def MerkleProof_size_def MerkleTree_depth_def)
  qed (simp add: t generate_proof_def)
qed

definition sample_leaf :: "u8 \<Rightarrow> BlockHash" where
  "sample_leaf b = BlockHash (bytes_fill b)"

definition sample_tree :: "BlockHash list \<Rightarrow> MerkleTree" where
  "sample_tree xs = ok_value (MerkleTree_new sample_externals xs)"

lemma sample_tree_new: "MerkleTree_new sample_externals xs = Ok (sample_tree xs)"
  by (simp add: sample_tree_def MerkleTree_new_eq)

theorem merkle_proof_complete_witness:
  "(\<exists>p. generate_proof (sample_tree [sample_leaf 1, sample_leaf 2, sample_leaf 3]) 2 = Ok (Some p) \<and>
       verify_proof sample_externals p \<and> mp_leaf_hash p = sample_leaf 3) \<and>
   generate_proof (sample_tree [sample_leaf 1, sample_leaf 2, sample_leaf 3]) 3 = Ok None"
  using merkle_proof_complete [OF sample_tree_new, of 2 "[sample_leaf 1, sample_leaf 2, sample_leaf 3]"]
    merkle_proof_complete [OF sample_tree_new, of 3 "[sample_leaf 1, sample_leaf 2, sample_leaf 3]"]
  by auto

text \<open>
  C30: The root binds the leaves: two trees over equally many leaves with the same root have the same
  leaves in the same order, provided Blake2b does not collide on the inputs hashed for the two trees.
\<close>

theorem merkle_root_binding:
  assumes "MerkleTree_new E xs = Ok t" and "MerkleTree_new E ys = Ok u"
    and "length xs = length ys"
    and "no_collision E (set (tree_inputs E xs) \<union> set (tree_inputs E ys))"
    and "mt_root t = mt_root u"
  shows "xs = ys"
  using assms by (intro merkle_root_inject) (auto simp: MerkleTree_new_eq)

lemma tree_inputs_pair: "tree_inputs E [a, b] = [pair_input a b]"
  by (simp add: tree_inputs_long build_next_level_eq) (simp add: tree_inputs.simps)

lemma sample_pair_digest:
  "blake2b_256 sample_externals (pair_input (sample_leaf a) (sample_leaf b)) = bytes_fill (32 * a + 32 * b)"
  by (simp add: sample_externals_def pair_input_def sample_leaf_def byte_simps sum_list_replicate)

theorem merkle_root_binding_witness:
  "mt_root (sample_tree [sample_leaf 1, sample_leaf 2]) \<noteq> mt_root (sample_tree [sample_leaf 1, sample_leaf 4])"
proof
  let ?xs = "[sample_leaf 1, sample_leaf 2]" and ?ys = "[sample_leaf 1, sample_leaf 4]"
  assume eq: "mt_root (sample_tree ?xs) = mt_root (sample_tree ?ys)"
  have "no_collision sample_externals (set (tree_inputs sample_externals ?xs) \<union> set (tree_inputs sample_externals ?ys))"
    by (auto simp: no_collision_def tree_inputs_pair sample_pair_digest)
  with eq have "?xs = ?ys"
    by (intro merkle_root_binding [OF sample_tree_new sample_tree_new]) simp_all
  then show False by (simp add: sample_leaf_def)
qed

text \<open>
  A proof that verifies against the root of a tree and is as long as the tree is deep proves
  membership: its leaf hash is one of the tree's leaves, provided Blake2b does not collide on the
  inputs of the tree and of the proof.
\<close>

theorem merkle_proof_sound:
  assumes "MerkleTree_new E xs = Ok t" and "xs \<noteq> []"
    and "verify_proof E p" and "mp_root p = mt_root t"
    and "MerkleProof_size p = MerkleTree_depth t - 1"
    and "no_collision E (set (tree_inputs E xs) \<union> set (proof_inputs E (mp_proof p) (mp_leaf_hash p)))"
  shows "mp_leaf_hash p \<in> set (mt_leaves t)"
  using assms
  by (auto simp: MerkleTree_new_eq verify_proof_def MerkleProof_size_def MerkleTree_depth_def
      intro: verified_path_starts_at_leaf)

definition sample_proof :: MerkleProof where
  "sample_proof =
     \<lparr>mp_leaf_hash = sample_leaf 2, mp_leaf_index = 1,
      mp_proof = [\<lparr>pn_hash = sample_leaf 1, pn_is_left = True\<rparr>], mp_root = sample_leaf 96\<rparr>"

theorem merkle_proof_sound_witness:
  "mp_leaf_hash sample_proof \<in> set (mt_leaves (sample_tree [sample_leaf 1, sample_leaf 2]))"
proof (rule merkle_proof_sound [OF sample_tree_new])
  let ?xs = "[sample_leaf 1, sample_leaf 2]"
  have tree: "sample_tree ?xs = \<lparr>mt_root = sample_leaf 96, mt_leaves = ?xs, mt_levels = [?xs, [sample_leaf 96]]\<rparr>"
    by (simp add: sample_tree_def MerkleTree_new_eq merkle_root_def levels_of_long levels_of_short
        build_next_level_eq hash_pair_input sample_pair_digest)
       (simp add: sample_leaf_def)
  show "verify_proof sample_externals sample_proof"
    by (simp add: verify_proof_def sample_proof_def proof_step_def hash_pair_input sample_pair_digest)
       (simp add: sample_leaf_def)
  show "mp_root sample_proof = mt_root (sample_tree ?xs)"
    and "MerkleProof_size sample_proof = MerkleTree_depth (sample_tree ?xs) - 1"
    by (simp_all add: tree sample_proof_def MerkleProof_size_def MerkleTree_depth_def)
  show "no_collision sample_externals
          (set (tree_inputs sample_externals ?xs) \<union>
           set (proof_inputs sample_externals (mp_proof sample_proof) (mp_leaf_hash sample_proof)))"
    by (simp add: no_collision_def tree_inputs_pair sample_proof_def)
qed simp

text \<open>
  The root does not bind the number of leaves: repeating the last leaf of an odd list of at least
  three leaves gives a tree with the same root, whatever the hash function is.
\<close>

theorem merkle_root_odd_duplicate:
  assumes "odd (length xs)" and "1 < length xs"
    and "MerkleTree_new E xs = Ok t" and "MerkleTree_new E (xs @ [last xs]) = Ok u"
  shows "mt_root u = mt_root t \<and> leaf_count u = leaf_count t + 1"
proof -
  have "build_next_level E (xs @ [last xs]) = build_next_level E xs"
    using assms(1) by (simp add: build_next_level_eq pair_up_odd_last)
  then have "merkle_root E (xs @ [last xs]) = merkle_root E xs"
    using assms(2) merkle_root_next [of xs E] merkle_root_next [of "xs @ [last xs]" E] by fastforce
  with assms(3,4) show ?thesis by (auto simp: MerkleTree_new_eq leaf_count_def)
qed

theorem merkle_root_odd_duplicate_witness:
  "mt_root (sample_tree [sample_leaf 1, sample_leaf 2, sample_leaf 3, sample_leaf 3]) =
   mt_root (sample_tree [sample_leaf 1, sample_leaf 2, sample_leaf 3])"
  using merkle_root_odd_duplicate [of "[sample_leaf 1, sample_leaf 2, sample_leaf 3]" sample_externals,
      OF _ _ sample_tree_new, OF _ _ sample_tree_new]
  by simp

end
