(* ===== verification/Block.thy ===== *)
theory Block
  imports Transaction Merkle
begin

text \<open>
  \<open>blockchain-core/src/block.rs\<close>: blocks, their headers, the header hash, and the validation of a
  block alone (\<open>Block_validate\<close>) and against its predecessor (\<open>validate_chain_link\<close>). The
  creation time that \<open>Block::new\<close> reads from the clock is an argument.
\<close>

section \<open>Data\<close>

record BlockHeader =
  hdr_height :: BlockHeight
  hdr_timestamp :: Timestamp
  hdr_previous_hash :: BlockHash
  hdr_transactions_root :: BlockHash
  hdr_hash :: BlockHash
  hdr_validator :: PublicKey
  hdr_transaction_count :: u32

record ValidatorSignature =
  vs_validator :: PublicKey
  vs_signature :: Signature

record Block =
  blk_header :: BlockHeader
  blk_transactions :: "Transaction list"
  blk_signatures :: "ValidatorSignature list"

section \<open>Operations\<close>

definition header_bytes :: "BlockHeader \<Rightarrow> u8 list" where
  "header_bytes h =
     to_le_bytes (hdr_height h) @ to_le_bytes (hdr_timestamp h) @
     hash_bytes (hdr_previous_hash h) @ hash_bytes (hdr_transactions_root h) @
     bytes_list (public_key_bytes (hdr_validator h)) @ to_le_bytes (hdr_transaction_count h)"

definition calculate_hash :: "'z externals_scheme \<Rightarrow> BlockHeader \<Rightarrow> BlockHash" where
  "calculate_hash E h = BlockHash (hash_data E (header_bytes h))"

definition calculate_transactions_root ::
  "'z externals_scheme \<Rightarrow> Transaction list \<Rightarrow> BlockHash outcome" where
  "calculate_transactions_root E txs =
     (if txs = [] then Ok BlockHash_zero
      else
        let tx_hashes = map (\<lambda>tx. BlockHash (tx_id_bytes (tx_id tx))) txs in
        rbind (MerkleTree_new E tx_hashes) (\<lambda>merkle_tree. Ok (mt_root merkle_tree)))"

definition Block_new ::
  "'z externals_scheme \<Rightarrow> Timestamp \<Rightarrow> BlockHeight \<Rightarrow> BlockHash \<Rightarrow> Transaction list \<Rightarrow> PublicKey \<Rightarrow> Block outcome" where
  "Block_new E now height previous_hash transactions validator =
     rbind (calculate_transactions_root E transactions) (\<lambda>transactions_root.
       let header = \<lparr>hdr_height = height, hdr_timestamp = now, hdr_previous_hash = previous_hash,
                     hdr_transactions_root = transactions_root, hdr_hash = BlockHash_zero,
                     hdr_validator = validator,
                     hdr_transaction_count = of_nat (length transactions)\<rparr>;
           header = header\<lparr>hdr_hash := calculate_hash E header\<rparr>
       in Ok \<lparr>blk_header = header, blk_transactions = transactions, blk_signatures = []\<rparr>)"

definition Block_hash :: "Block \<Rightarrow> BlockHash" where
  "Block_hash b = hdr_hash (blk_header b)"

definition Block_height :: "Block \<Rightarrow> BlockHeight" where
  "Block_height b = hdr_height (blk_header b)"

definition Block_previous_hash :: "Block \<Rightarrow> BlockHash" where
  "Block_previous_hash b = hdr_previous_hash (blk_header b)"

definition Block_timestamp :: "Block \<Rightarrow> Timestamp" where
  "Block_timestamp b = hdr_timestamp (blk_header b)"

definition add_signature :: "Block \<Rightarrow> PublicKey \<Rightarrow> Signature \<Rightarrow> Block" where
  "add_signature b validator signature =
     b\<lparr>blk_signatures := blk_signatures b @ [\<lparr>vs_validator = validator, vs_signature = signature\<rparr>]\<rparr>"

definition has_signature_from :: "Block \<Rightarrow> PublicKey \<Rightarrow> bool" where
  "has_signature_from b validator \<longleftrightarrow> (\<exists>sig \<in> set (blk_signatures b). vs_validator sig = validator)"

definition signature_count :: "Block \<Rightarrow> nat" where
  "signature_count b = length (blk_signatures b)"

definition Block_validate :: "'z tx_externals_scheme \<Rightarrow> Block \<Rightarrow> unit outcome" where
  "Block_validate E b =
     (let h = blk_header b; calculated_hash = calculate_hash E h in
      if hdr_hash h \<noteq> calculated_hash
      then Err (InvalidBlockHash (BlockHash_to_hex E calculated_hash) (BlockHash_to_hex E (hdr_hash h)))
      else if hdr_transaction_count h \<noteq> of_nat (length (blk_transactions b))
      then Err (InvalidBlock (''Transaction count mismatch: header says '' @ show_nat (unat (hdr_transaction_count h))
                              @ '', actual is '' @ show_nat (length (blk_transactions b))))
      else rbind (calculate_transactions_root E (blk_transactions b)) (\<lambda>calculated_root.
        if hdr_transactions_root h \<noteq> calculated_root
        then Err (InvalidBlock ''Transactions merkle root mismatch'')
        else for_each (Transaction_validate E) (blk_transactions b)))"

definition validate_chain_link :: "'z externals_scheme \<Rightarrow> Block \<Rightarrow> Block \<Rightarrow> unit outcome" where
  "validate_chain_link E b previous_block =
     (let h = blk_header b; p = blk_header previous_block in
      if hdr_height h \<noteq> hdr_height p + 1
      then Err (BlockHeightMismatch (hdr_height p + 1) (hdr_height h))
      else if hdr_previous_hash h \<noteq> Block_hash previous_block
      then Err (InvalidPreviousHash (''Expected '' @ BlockHash_to_hex E (Block_hash previous_block)
                                     @ '', got '' @ BlockHash_to_hex E (hdr_previous_hash h)))
      else if hdr_timestamp h < hdr_timestamp p
      then Err (InvalidBlock ''Block timestamp is before previous block'')
      else Ok ())"

definition Block_get_transaction :: "Block \<Rightarrow> TxId \<Rightarrow> Transaction option" where
  "Block_get_transaction b i = List.find (\<lambda>tx. tx_id tx = i) (blk_transactions b)"

definition Block_contains_transaction :: "Block \<Rightarrow> TxId \<Rightarrow> bool" where
  "Block_contains_transaction b i \<longleftrightarrow> Block_get_transaction b i \<noteq> None"

section \<open>Facts\<close>

definition tx_leaves :: "Transaction list \<Rightarrow> BlockHash list" where
  "tx_leaves txs = map (\<lambda>tx. BlockHash (tx_id_bytes (tx_id tx))) txs"

lemma tx_leaves_inject: "tx_leaves xs = tx_leaves ys \<longleftrightarrow> map tx_id xs = map tx_id ys"
proof -
  have "tx_leaves zs = map (\<lambda>i. BlockHash (tx_id_bytes i)) (map tx_id zs)" for zs
    by (simp add: tx_leaves_def)
  moreover have "inj (\<lambda>i. BlockHash (tx_id_bytes i))"
    by (auto simp: inj_def TxId.expand)
  ultimately show ?thesis by (metis inj_map_eq_map)
qed

lemma calculate_transactions_root_eq [simp]:
  "calculate_transactions_root E txs = Ok (merkle_root E (tx_leaves txs))"
  by (auto simp: calculate_transactions_root_def MerkleTree_new_eq tx_leaves_def merkle_root_def Let_def)

lemma header_bytes_inject:
  assumes "header_bytes h = header_bytes k"
  shows "hdr_height h = hdr_height k \<and> hdr_timestamp h = hdr_timestamp k \<and>
         hdr_previous_hash h = hdr_previous_hash k \<and> hdr_transactions_root h = hdr_transactions_root k \<and>
         hdr_validator h = hdr_validator k \<and> hdr_transaction_count h = hdr_transaction_count k"
  using assms
  by (simp add: header_bytes_def append_eq_append_conv byte_simps to_le_bytes_inject
      BlockHash.expand PublicKey.expand)

lemma header_bytes_hash_irrelevant [simp]: "header_bytes (h\<lparr>hdr_hash := x\<rparr>) = header_bytes h"
  by (simp add: header_bytes_def)

lemma calculate_hash_hash_irrelevant [simp]: "calculate_hash E (h\<lparr>hdr_hash := x\<rparr>) = calculate_hash E h"
  by (simp add: calculate_hash_def)

lemma calculate_hash_inject:
  assumes "inj_on (blake2b_256 E) {header_bytes h, header_bytes k}"
    and "calculate_hash E h = calculate_hash E k"
  shows "header_bytes h = header_bytes k"
  using assms by (auto simp: calculate_hash_def hash_data_def dest: inj_onD)

lemma Block_validate_Ok:
  "Block_validate E b = Ok u \<longleftrightarrow>
     hdr_hash (blk_header b) = calculate_hash E (blk_header b) \<and>
     hdr_transaction_count (blk_header b) = of_nat (length (blk_transactions b)) \<and>
     hdr_transactions_root (blk_header b) = merkle_root E (tx_leaves (blk_transactions b)) \<and>
     (\<forall>tx \<in> set (blk_transactions b). Transaction_validate E tx = Ok ())"
  by (auto simp: Block_validate_def Let_def outcome_simps)

lemma valid_same_hash_same_header:
  assumes "Block_validate E a = Ok ()" and "Block_validate E b = Ok ()"
    and "Block_hash a = Block_hash b"
    and "inj_on (blake2b_256 E) {header_bytes (blk_header a), header_bytes (blk_header b)}"
  shows "blk_header a = blk_header b"
proof -
  have "header_bytes (blk_header a) = header_bytes (blk_header b)"
    using assms(1-3) by (intro calculate_hash_inject [OF assms(4)]) (simp add: Block_validate_Ok Block_hash_def)
  from header_bytes_inject [OF this] assms(3) show ?thesis by (simp add: Block_hash_def)
qed

lemma validate_chain_link_Ok:
  "validate_chain_link E b p = Ok u \<longleftrightarrow>
     Block_height b = Block_height p + 1 \<and> Block_previous_hash b = Block_hash p \<and>
     Block_timestamp p \<le> Block_timestamp b"
  by (auto simp: validate_chain_link_def Let_def Block_height_def Block_previous_hash_def
      Block_timestamp_def)

lemma validate_chain_link_no_panic: "\<not> is_panic (validate_chain_link E b p)"
  by (auto simp: validate_chain_link_def Let_def)

lemma Block_new_fields:
  assumes "Block_new E now height prev txs v = Ok b"
  shows "Block_height b = height" "Block_timestamp b = now" "Block_previous_hash b = prev"
    "blk_transactions b = txs" "hdr_validator (blk_header b) = v" "blk_signatures b = []"
    "hdr_hash (blk_header b) = calculate_hash E (blk_header b)"
    "hdr_transactions_root (blk_header b) = merkle_root E (tx_leaves txs)"
    "hdr_transaction_count (blk_header b) = of_nat (length txs)"
  using assms
  by (auto simp: Block_new_def Let_def Block_height_def Block_timestamp_def Block_previous_hash_def
      calculate_hash_def header_bytes_def)

lemma Block_new_total: "\<exists>b. Block_new E now height prev txs v = Ok b"
  by (simp add: Block_new_def Let_def)

lemma Block_get_transaction_Some:
  "Block_get_transaction b i = Some tx \<Longrightarrow> tx \<in> set (blk_transactions b) \<and> tx_id tx = i"
  by (auto simp: Block_get_transaction_def find_Some_iff)

lemma Block_contains_transaction_iff:
  "Block_contains_transaction b i \<longleftrightarrow> i \<in> tx_id ` set (blk_transactions b)"
  by (auto simp: Block_contains_transaction_def Block_get_transaction_def find_None_iff)

lemma has_signature_from_add_signature:
  "has_signature_from (add_signature b v s) w \<longleftrightarrow> w = v \<or> has_signature_from b w"
  by (auto simp: has_signature_from_def add_signature_def)

lemma signature_count_add_signature: "signature_count (add_signature b v s) = Suc (signature_count b)"
  by (simp add: signature_count_def add_signature_def)

text \<open>The header hash does not cover the signatures, so signing keeps a block valid.\<close>

lemma Block_validate_add_signature: "Block_validate E (add_signature b v s) = Block_validate E b"
  by (simp add: Block_validate_def add_signature_def Let_def)

section \<open>Properties\<close>

text \<open>
  A block that \<open>Block::new\<close> builds on top of a predecessor (height one more, its hash as previous
  hash, a clock that has not gone back) from valid transactions passes \<open>validate\<close> and
  \<open>validate_chain_link\<close>.
\<close>

theorem block_new_valid:
  assumes "Block_new E now (Block_height p + 1) (Block_hash p) txs v = Ok b"
    and "\<forall>tx \<in> set txs. Transaction_validate E tx = Ok ()"
    and "Block_timestamp p \<le> now"
  shows "Block_validate E b = Ok () \<and> validate_chain_link E b p = Ok ()"
  using Block_new_fields [OF assms(1)] assms(2,3)
  by (simp add: Block_validate_Ok validate_chain_link_Ok)

definition sample_genesis :: Block where
  "sample_genesis = ok_value (Block_new sample_env 1000 0 BlockHash_zero [] (PublicKey (bytes_fill 1)))"

definition sample_block :: "Block \<Rightarrow> Transaction list \<Rightarrow> Block" where
  "sample_block p txs =
     ok_value (Block_new sample_env (Block_timestamp p) (Block_height p + 1) (Block_hash p) txs
                 (PublicKey (bytes_fill 1)))"

lemma sample_block_new:
  "Block_new sample_env (Block_timestamp p) (Block_height p + 1) (Block_hash p) txs (PublicKey (bytes_fill 1)) =
   Ok (sample_block p txs)"
  using Block_new_total by (metis sample_block_def result.sel(1))

lemma sample_genesis_new:
  "Block_new sample_env 1000 0 BlockHash_zero [] (PublicKey (bytes_fill 1)) = Ok sample_genesis"
  using Block_new_total by (metis sample_genesis_def result.sel(1))

theorem block_new_valid_witness:
  "Block_validate sample_env (sample_block sample_genesis [sample_tx [1, 2] 7]) = Ok () \<and>
   validate_chain_link sample_env (sample_block sample_genesis [sample_tx [1, 2] 7]) sample_genesis = Ok ()"
  by (rule block_new_valid [OF sample_block_new]) (simp_all add: sample_tx_valid)

text \<open>
  The header hash binds the contents: two blocks that pass \<open>validate\<close> and have the same hash, each
  with fewer than \<open>2 ^ 32\<close> transactions, have equal headers and carry transactions with the same
  identifiers in the same order, provided Blake2b does not collide on the inputs hashed for the two
  headers and the two transaction trees.
\<close>

theorem block_hash_binding:
  assumes "Block_validate E a = Ok ()" and "Block_validate E b = Ok ()"
    and "Block_hash a = Block_hash b"
    and "length (blk_transactions a) < 2 ^ 32" and "length (blk_transactions b) < 2 ^ 32"
    and "inj_on (blake2b_256 E) {header_bytes (blk_header a), header_bytes (blk_header b)}"
    and "no_collision E (set (tree_inputs E (tx_leaves (blk_transactions a))) \<union>
                         set (tree_inputs E (tx_leaves (blk_transactions b))))"
  shows "blk_header a = blk_header b \<and> map tx_id (blk_transactions a) = map tx_id (blk_transactions b)"
proof -
  have header: "blk_header a = blk_header b"
    by (rule valid_same_hash_same_header [OF assms(1-3,6)])
  have "length (blk_transactions a) = length (blk_transactions b)"
  proof -
    have "(of_nat (length (blk_transactions a)) :: u32) = of_nat (length (blk_transactions b))"
      using header assms(1,2) by (simp add: Block_validate_Ok)
    then show ?thesis
      using assms(4,5) by (simp add: of_nat_inverse word_of_nat_eq_iff take_bit_nat_eq_self)
  qed
  moreover have "merkle_root E (tx_leaves (blk_transactions a)) = merkle_root E (tx_leaves (blk_transactions b))"
    using header assms(1,2) by (simp add: Block_validate_Ok)
  ultimately show ?thesis
    using header merkle_root_inject [OF _ assms(7)] by (simp add: tx_leaves_inject) (simp add: tx_leaves_def)
qed

theorem block_hash_binding_witness:
  "blk_header (add_signature (sample_block sample_genesis [sample_tx [1, 2] 7])
                 (PublicKey (bytes_fill 2)) (Signature (bytes_fill 3))) =
   blk_header (sample_block sample_genesis [sample_tx [1, 2] 7])"
proof -
  let ?b = "sample_block sample_genesis [sample_tx [1, 2] 7]"
  let ?a = "add_signature ?b (PublicKey (bytes_fill 2)) (Signature (bytes_fill 3))"
  note b = Block_new_fields [OF sample_block_new [of sample_genesis "[sample_tx [1, 2] 7]"]]
  have valid: "Block_validate sample_env ?b = Ok ()"
    using b by (simp add: Block_validate_Ok sample_tx_valid)
  have "blk_header ?a = blk_header ?b \<and> map tx_id (blk_transactions ?a) = map tx_id (blk_transactions ?b)"
  proof (rule block_hash_binding)
    show "Block_validate sample_env ?a = Ok ()" "Block_validate sample_env ?b = Ok ()"
      using valid by (simp_all add: Block_validate_add_signature)
    show "no_collision sample_env (set (tree_inputs sample_env (tx_leaves (blk_transactions ?a))) \<union>
                                   set (tree_inputs sample_env (tx_leaves (blk_transactions ?b))))"
      by (simp add: add_signature_def b(4) tx_leaves_def tree_inputs.simps no_collision_def)
  qed (simp_all add: add_signature_def Block_hash_def b(4))
  then show ?thesis by blast
qed

end
