(* ===== verification/Protocol.thy ===== *)
theory Protocol
  imports Block Errors
begin

text \<open>
  \<open>network/src/protocol.rs\<close>: the messages of the network, their payloads and the handler. The
  \<open>bincode\<close> encoding of each payload type is a parameter, a pair of an encoder and a decoder; the
  clock and the random nonce of a message are arguments. Logging is not modelled.
\<close>

section \<open>Encodings\<close>

type_synonym 'a codec = "('a \<Rightarrow> (u8 list, string) result) \<times> (u8 list \<Rightarrow> ('a, string) result)"

text \<open>Decoding inverts encoding, and neither panics.\<close>

definition codec_laws :: "'a codec \<Rightarrow> bool" where
  "codec_laws c \<longleftrightarrow> (\<forall>x bs. fst c x = Ok bs \<longrightarrow> snd c bs = Ok x) \<and> (\<forall>x. \<not> is_panic (fst c x)) \<and> (\<forall>bs. \<not> is_panic (snd c bs))"

definition serialize :: "'a codec \<Rightarrow> 'a \<Rightarrow> u8 list outcome" where
  "serialize c x = map_err from_bincode (fst c x)"

section \<open>Data\<close>

datatype MessageType =
    Handshake | Ping | Pong | GetPeers | Peers | GetBlocks | Blocks | NewBlock | GetTransactions | Transactions
  | NewTransaction | GetStatus | Status | Disconnect

record Message =
  msg_type :: MessageType
  msg_payload :: "u8 list"
  msg_timestamp :: Timestamp
  msg_nonce :: u64

record HandshakeInfo =
  hs_protocol_version :: u32
  hs_network_id :: string
  hs_user_agent :: string
  hs_best_height :: BlockHeight
  hs_best_hash :: BlockHash
  hs_genesis_hash :: BlockHash
  hs_timestamp :: Timestamp

record PeerAddr =
  pad_addr :: string
  pad_last_seen :: Timestamp

record PeerList =
  pl_peers :: "PeerAddr list"

record BlockRequest =
  brq_start_height :: BlockHeight
  brq_end_height :: BlockHeight
  brq_max_blocks :: nat

record BlockResponse =
  brs_blocks :: "Block list"
  brs_start_height :: BlockHeight
  brs_end_height :: BlockHeight

record TransactionRequest =
  trq_tx_ids :: "32 bytes list"

record TransactionResponse =
  trs_transactions :: "Transaction list"

record StatusInfo =
  sti_best_height :: BlockHeight
  sti_best_hash :: BlockHash
  sti_peer_count :: nat
  sti_syncing :: bool
  sti_timestamp :: Timestamp

datatype DisconnectReason =
    ShuttingDown | ProtocolViolation | IncompatibleProtocol | TooManyPeers | Banned | Timeout | Error string

record ProtocolHandler =
  ph_network_id :: string
  ph_protocol_version :: u32

record network_codecs =
  handshake_codec :: "HandshakeInfo codec"
  peer_list_codec :: "PeerList codec"
  block_request_codec :: "BlockRequest codec"
  block_response_codec :: "BlockResponse codec"
  block_codec :: "Block codec"
  tx_request_codec :: "TransactionRequest codec"
  tx_response_codec :: "TransactionResponse codec"
  tx_codec :: "Transaction codec"
  status_codec :: "StatusInfo codec"
  disconnect_codec :: "DisconnectReason codec"
  message_codec :: "Message codec"

section \<open>Messages\<close>

text \<open>\<open>stamp\<close> is the timestamp and the nonce that \<open>Message::new\<close> takes.\<close>

type_synonym stamp = "Timestamp \<times> u64"

definition Message_new :: "stamp \<Rightarrow> MessageType \<Rightarrow> u8 list \<Rightarrow> Message" where
  "Message_new st t payload = \<lparr>msg_type = t, msg_payload = payload, msg_timestamp = fst st, msg_nonce = snd st\<rparr>"

definition message_handshake :: "'z network_codecs_scheme \<Rightarrow> stamp \<Rightarrow> HandshakeInfo \<Rightarrow> Message outcome" where
  "message_handshake N st info = rbind (serialize (handshake_codec N) info) (\<lambda>payload. Ok (Message_new st Handshake payload))"

definition message_ping :: "stamp \<Rightarrow> Message" where
  "message_ping st = Message_new st Ping []"

definition message_pong :: "stamp \<Rightarrow> Message" where
  "message_pong st = Message_new st Pong []"

definition message_get_peers :: "stamp \<Rightarrow> Message" where
  "message_get_peers st = Message_new st GetPeers []"

definition message_peers :: "'z network_codecs_scheme \<Rightarrow> stamp \<Rightarrow> PeerList \<Rightarrow> Message outcome" where
  "message_peers N st peer_list = rbind (serialize (peer_list_codec N) peer_list) (\<lambda>payload. Ok (Message_new st Peers payload))"

definition message_get_blocks :: "'z network_codecs_scheme \<Rightarrow> stamp \<Rightarrow> BlockRequest \<Rightarrow> Message outcome" where
  "message_get_blocks N st request =
     rbind (serialize (block_request_codec N) request) (\<lambda>payload. Ok (Message_new st GetBlocks payload))"

definition message_blocks :: "'z network_codecs_scheme \<Rightarrow> stamp \<Rightarrow> BlockResponse \<Rightarrow> Message outcome" where
  "message_blocks N st response =
     rbind (serialize (block_response_codec N) response) (\<lambda>payload. Ok (Message_new st Blocks payload))"

definition message_new_block :: "'z network_codecs_scheme \<Rightarrow> stamp \<Rightarrow> Block \<Rightarrow> Message outcome" where
  "message_new_block N st block = rbind (serialize (block_codec N) block) (\<lambda>payload. Ok (Message_new st NewBlock payload))"

definition message_get_transactions :: "'z network_codecs_scheme \<Rightarrow> stamp \<Rightarrow> TransactionRequest \<Rightarrow> Message outcome" where
  "message_get_transactions N st request =
     rbind (serialize (tx_request_codec N) request) (\<lambda>payload. Ok (Message_new st GetTransactions payload))"

definition message_transactions :: "'z network_codecs_scheme \<Rightarrow> stamp \<Rightarrow> TransactionResponse \<Rightarrow> Message outcome" where
  "message_transactions N st response =
     rbind (serialize (tx_response_codec N) response) (\<lambda>payload. Ok (Message_new st Transactions payload))"

definition message_new_transaction :: "'z network_codecs_scheme \<Rightarrow> stamp \<Rightarrow> Transaction \<Rightarrow> Message outcome" where
  "message_new_transaction N st tx = rbind (serialize (tx_codec N) tx) (\<lambda>payload. Ok (Message_new st NewTransaction payload))"

definition message_get_status :: "stamp \<Rightarrow> Message" where
  "message_get_status st = Message_new st GetStatus []"

definition message_status :: "'z network_codecs_scheme \<Rightarrow> stamp \<Rightarrow> StatusInfo \<Rightarrow> Message outcome" where
  "message_status N st info = rbind (serialize (status_codec N) info) (\<lambda>payload. Ok (Message_new st Status payload))"

definition message_disconnect :: "'z network_codecs_scheme \<Rightarrow> stamp \<Rightarrow> DisconnectReason \<Rightarrow> Message outcome" where
  "message_disconnect N st reason =
     rbind (serialize (disconnect_codec N) reason) (\<lambda>payload. Ok (Message_new st Disconnect payload))"

definition decode_payload :: "'a codec \<Rightarrow> Message \<Rightarrow> 'a outcome" where
  "decode_payload c m = map_err DeserializationError (snd c (msg_payload m))"

definition Message_size :: "Message \<Rightarrow> nat" where
  "Message_size m = length (msg_payload m) + 24"

section \<open>The handler\<close>

definition ProtocolHandler_new :: "string \<Rightarrow> u32 \<Rightarrow> ProtocolHandler" where
  "ProtocolHandler_new network_id protocol_version =
     \<lparr>ph_network_id = network_id, ph_protocol_version = protocol_version\<rparr>"

definition handle_handshake :: "'z network_codecs_scheme \<Rightarrow> ProtocolHandler \<Rightarrow> Message \<Rightarrow> unit outcome" where
  "handle_handshake N h m =
     rbind (decode_payload (handshake_codec N) m) (\<lambda>handshake.
       if hs_network_id handshake \<noteq> ph_network_id h then Err (NetworkError ''Network ID mismatch'')
       else if hs_protocol_version handshake \<noteq> ph_protocol_version h then Err (NetworkError ''Protocol version mismatch'')
       else Ok ())"

text \<open>The other handlers decode their payload, where there is one, and log.\<close>

definition handle_decoded :: "'a codec \<Rightarrow> Message \<Rightarrow> unit outcome" where
  "handle_decoded c m = rbind (decode_payload c m) (\<lambda>_. Ok ())"

definition handle :: "'z network_codecs_scheme \<Rightarrow> ProtocolHandler \<Rightarrow> Message \<Rightarrow> unit outcome" where
  "handle N h m =
     (case msg_type m of
        Handshake \<Rightarrow> handle_handshake N h m
      | Ping \<Rightarrow> Ok ()
      | Pong \<Rightarrow> Ok ()
      | GetPeers \<Rightarrow> Ok ()
      | Peers \<Rightarrow> handle_decoded (peer_list_codec N) m
      | GetBlocks \<Rightarrow> handle_decoded (block_request_codec N) m
      | Blocks \<Rightarrow> handle_decoded (block_response_codec N) m
      | NewBlock \<Rightarrow> handle_decoded (block_codec N) m
      | GetTransactions \<Rightarrow> handle_decoded (tx_request_codec N) m
      | Transactions \<Rightarrow> handle_decoded (tx_response_codec N) m
      | NewTransaction \<Rightarrow> handle_decoded (tx_codec N) m
      | GetStatus \<Rightarrow> Ok ()
      | Status \<Rightarrow> handle_decoded (status_codec N) m
      | Disconnect \<Rightarrow> handle_decoded (disconnect_codec N) m)"

definition validate_message :: "Timestamp \<Rightarrow> Message \<Rightarrow> nat \<Rightarrow> unit outcome" where
  "validate_message now m max_size =
     (if max_size < Message_size m then Err (NetworkError ''Message exceeds maximum size'')
      else let age = saturating_sub now (msg_timestamp m) in
        if 300 < age then Err (NetworkError ''Message is too old'') else Ok ())"

section \<open>The interface of a payload\<close>

text \<open>A message constructor and the codec with which its receiver reads it.\<close>

locale payload_message =
  fixes make :: "'a \<Rightarrow> Message outcome"
    and c :: "'a codec"
    and t :: MessageType
    and st :: stamp
  assumes make_def: "make x = rbind (serialize c x) (\<lambda>payload. Ok (Message_new st t payload))"
begin

lemma make_Ok: "make x = Ok m \<longleftrightarrow> (\<exists>bs. fst c x = Ok bs \<and> m = Message_new st t bs)"
  by (auto simp: make_def serialize_def outcome_simps)

lemma decode_make: "codec_laws c \<Longrightarrow> make x = Ok m \<Longrightarrow> decode_payload c m = Ok x"
  by (auto simp: make_Ok decode_payload_def codec_laws_def Message_new_def)

lemma make_type: "make x = Ok m \<Longrightarrow> msg_type m = t"
  by (auto simp: make_Ok Message_new_def)

lemma handle_make: "codec_laws c \<Longrightarrow> make x = Ok m \<Longrightarrow> handle_decoded c m = Ok ()"
  by (simp add: handle_decoded_def decode_make)

lemma make_no_panic: "codec_laws c \<Longrightarrow> \<not> is_panic (make x)"
  by (cases "fst c x") (auto simp: make_def serialize_def codec_laws_def dest: spec [of _ x])

end

interpretation handshake: payload_message "message_handshake N st" "handshake_codec N" Handshake st
  for N :: "'z network_codecs_scheme" and st
  by unfold_locales (simp add: message_handshake_def)
interpretation peers: payload_message "message_peers N st" "peer_list_codec N" Peers st
  for N :: "'z network_codecs_scheme" and st
  by unfold_locales (simp add: message_peers_def)
interpretation get_blocks: payload_message "message_get_blocks N st" "block_request_codec N" GetBlocks st
  for N :: "'z network_codecs_scheme" and st
  by unfold_locales (simp add: message_get_blocks_def)
interpretation blocks: payload_message "message_blocks N st" "block_response_codec N" Blocks st
  for N :: "'z network_codecs_scheme" and st
  by unfold_locales (simp add: message_blocks_def)
interpretation new_block: payload_message "message_new_block N st" "block_codec N" NewBlock st
  for N :: "'z network_codecs_scheme" and st
  by unfold_locales (simp add: message_new_block_def)
interpretation get_transactions: payload_message "message_get_transactions N st" "tx_request_codec N" GetTransactions st
  for N :: "'z network_codecs_scheme" and st
  by unfold_locales (simp add: message_get_transactions_def)
interpretation transactions: payload_message "message_transactions N st" "tx_response_codec N" Transactions st
  for N :: "'z network_codecs_scheme" and st
  by unfold_locales (simp add: message_transactions_def)
interpretation new_transaction: payload_message "message_new_transaction N st" "tx_codec N" NewTransaction st
  for N :: "'z network_codecs_scheme" and st
  by unfold_locales (simp add: message_new_transaction_def)
interpretation status: payload_message "message_status N st" "status_codec N" Status st
  for N :: "'z network_codecs_scheme" and st
  by unfold_locales (simp add: message_status_def)
interpretation disconnect: payload_message "message_disconnect N st" "disconnect_codec N" Disconnect st
  for N :: "'z network_codecs_scheme" and st
  by unfold_locales (simp add: message_disconnect_def)

section \<open>Facts\<close>

text \<open>The handler refuses exactly what it cannot decode and the handshakes of other networks.\<close>

lemma handle_handshake_made:
  assumes "codec_laws (handshake_codec N)" and "message_handshake N st info = Ok m"
  shows "handle N h m = Ok () \<longleftrightarrow>
    hs_network_id info = ph_network_id h \<and> hs_protocol_version info = ph_protocol_version h"
  using handshake.decode_make [OF assms] handshake.make_type [OF assms(2)] by (simp add: handle_def handle_handshake_def)

lemma validate_message_iff:
  "validate_message now m max_size = Ok () \<longleftrightarrow>
     length (msg_payload m) + 24 \<le> max_size \<and> unat now \<le> unat (msg_timestamp m) + 300"
proof -
  have "300 < saturating_sub now (msg_timestamp m) \<longleftrightarrow> unat (msg_timestamp m) + 300 < unat now"
    unfolding word_less_nat_alt unat_saturating_sub by auto
  then show ?thesis by (auto simp: validate_message_def Message_size_def)
qed

text \<open>A message from the future is never too old.\<close>

lemma future_message_accepted:
  "now \<le> msg_timestamp m \<Longrightarrow> Message_size m \<le> max_size \<Longrightarrow> validate_message now m max_size = Ok ()"
  unfolding validate_message_iff by (simp add: Message_size_def word_le_nat_alt)

end
