(* ===== verification/Peer.thy ===== *)
theory Peer
  imports Protocol
begin

text \<open>
  \<open>network/src/peer.rs\<close>: peers, their message queue, reputations and the peer manager. Every
  \<open>async\<close> method takes one lock and is one step here. The channel of a peer keeps its receiver as
  long as the peer lives, so a send does not fail; the receiver of the disconnect channel is
  dropped at creation and its send, whose result the code ignores, has no effect. The clock and
  random ids are arguments. An \<open>i32\<close> is a word of 32 bits read as signed; its arithmetic wraps.
\<close>

section \<open>Data\<close>

text \<open>\<open>std::net::SocketAddr\<close>: an IPv4 address and port, or an IPv6 address, port, flow label and scope.\<close>

datatype SocketAddr = V4 "4 bytes" "16 word" | V6 "16 bytes" "16 word" u32 u32

datatype PeerId = PeerId (peer_id_bytes: "32 bytes")

datatype PeerStatus = Connecting | Connected | Disconnected | Banned

datatype ConnectionDirection = Inbound | Outbound

record PeerInfo =
  pi_id :: PeerId
  pi_addr :: SocketAddr
  pi_status :: PeerStatus
  pi_direction :: ConnectionDirection
  pi_connected_at :: Timestamp
  pi_last_seen :: Timestamp
  pi_protocol_version :: u32
  pi_network_id :: string
  pi_user_agent :: string
  pi_best_height :: u64

record PeerStats =
  pst_messages_sent :: u64
  pst_messages_received :: u64
  pst_bytes_sent :: u64
  pst_bytes_received :: u64
  pst_errors :: u64
  pst_last_error :: "string option"

record Peer =
  peer_info :: PeerInfo
  peer_stats :: PeerStats
  peer_queue :: "Message list"

type_synonym i32 = "32 word"

datatype Reputation = Reputation (reputation_score: i32)

record PeerManager =
  pmg_peers :: "Peer list"
  pmg_reputations :: "(PeerId, Reputation) hashmap"
  pmg_max_peers :: nat

section \<open>Identifiers and information\<close>

definition PeerId_to_hex :: "'z externals_scheme \<Rightarrow> PeerId \<Rightarrow> string" where
  "PeerId_to_hex E i = hex_encode E (bytes_list (peer_id_bytes i))"

definition PeerId_from_hex :: "'z externals_scheme \<Rightarrow> string \<Rightarrow> PeerId outcome" where
  "PeerId_from_hex E s =
     rbind (map_err (\<lambda>e. NetworkError (''Invalid hex: '' @ show_hex_error e)) (hex_decode E s)) (\<lambda>bytes.
       if length bytes \<noteq> 32 then Err (NetworkError ''Invalid peer ID length'')
       else rbind (copy_from_slice bytes) (\<lambda>i. Ok (PeerId i)))"

definition PeerId_display :: "'z externals_scheme \<Rightarrow> PeerId \<Rightarrow> string" where
  "PeerId_display E i = take 8 (PeerId_to_hex E i)"

definition uptime :: "Timestamp \<Rightarrow> PeerInfo \<Rightarrow> u64" where
  "uptime now i = saturating_sub now (pi_connected_at i)"

definition info_is_stale :: "Timestamp \<Rightarrow> PeerInfo \<Rightarrow> u64 \<Rightarrow> bool" where
  "info_is_stale now i stale_threshold \<longleftrightarrow> stale_threshold < saturating_sub now (pi_last_seen i)"

definition PeerStats_default :: PeerStats where
  "PeerStats_default =
     \<lparr>pst_messages_sent = 0, pst_messages_received = 0, pst_bytes_sent = 0, pst_bytes_received = 0, pst_errors = 0,
      pst_last_error = None\<rparr>"

section \<open>A peer\<close>

definition Peer_new :: "Timestamp \<Rightarrow> PeerId \<Rightarrow> SocketAddr \<Rightarrow> ConnectionDirection \<Rightarrow> u32 \<Rightarrow> string \<Rightarrow> Peer" where
  "Peer_new now i addr direction protocol_version network_id =
     \<lparr>peer_info = \<lparr>pi_id = i, pi_addr = addr, pi_status = Connecting, pi_direction = direction, pi_connected_at = now,
        pi_last_seen = now, pi_protocol_version = protocol_version, pi_network_id = network_id,
        pi_user_agent = ''voting-node/0.1.0'', pi_best_height = 0\<rparr>,
      peer_stats = PeerStats_default, peer_queue = []\<rparr>"

definition peer_id :: "Peer \<Rightarrow> PeerId" where
  "peer_id p = pi_id (peer_info p)"

definition peer_addr :: "Peer \<Rightarrow> SocketAddr" where
  "peer_addr p = pi_addr (peer_info p)"

definition is_connected :: "Peer \<Rightarrow> bool" where
  "is_connected p \<longleftrightarrow> pi_status (peer_info p) = Connected"

definition mark_connected :: "Timestamp \<Rightarrow> Peer \<Rightarrow> Peer" where
  "mark_connected now p = p\<lparr>peer_info := (peer_info p)\<lparr>pi_status := Connected, pi_last_seen := now\<rparr>\<rparr>"

definition mark_disconnected :: "Peer \<Rightarrow> Peer" where
  "mark_disconnected p = p\<lparr>peer_info := (peer_info p)\<lparr>pi_status := Disconnected\<rparr>\<rparr>"

definition update_last_seen :: "Timestamp \<Rightarrow> Peer \<Rightarrow> Peer" where
  "update_last_seen now p = p\<lparr>peer_info := (peer_info p)\<lparr>pi_last_seen := now\<rparr>\<rparr>"

definition update_best_height :: "u64 \<Rightarrow> Peer \<Rightarrow> Peer" where
  "update_best_height height p = p\<lparr>peer_info := (peer_info p)\<lparr>pi_best_height := height\<rparr>\<rparr>"

definition peer_send :: "Timestamp \<Rightarrow> Message \<Rightarrow> Peer \<Rightarrow> Peer \<times> unit outcome" where
  "peer_send now m p =
     (let p = p\<lparr>peer_queue := peer_queue p @ [m]\<rparr>;
          p = p\<lparr>peer_stats := (peer_stats p)\<lparr>pst_messages_sent := pst_messages_sent (peer_stats p) + 1\<rparr>\<rparr>
      in (update_last_seen now p, Ok ()))"

definition peer_receive :: "Timestamp \<Rightarrow> Peer \<Rightarrow> Peer \<times> Message option outcome" where
  "peer_receive now p =
     (case peer_queue p of
        [] \<Rightarrow> (p, Ok None)
      | m # q \<Rightarrow>
          let p = p\<lparr>peer_queue := q\<rparr>;
              p = p\<lparr>peer_stats := (peer_stats p)\<lparr>pst_messages_received := pst_messages_received (peer_stats p) + 1\<rparr>\<rparr>
          in (update_last_seen now p, Ok (Some m)))"

definition record_error :: "string \<Rightarrow> Peer \<Rightarrow> Peer" where
  "record_error e p =
     p\<lparr>peer_stats := (peer_stats p)\<lparr>pst_errors := pst_errors (peer_stats p) + 1, pst_last_error := Some e\<rparr>\<rparr>"

definition ban :: "Peer \<Rightarrow> Peer" where
  "ban p = p\<lparr>peer_info := (peer_info p)\<lparr>pi_status := Banned\<rparr>\<rparr>"

definition is_banned :: "Peer \<Rightarrow> bool" where
  "is_banned p \<longleftrightarrow> pi_status (peer_info p) = Banned"

definition peer_disconnect :: "Peer \<Rightarrow> Peer \<times> unit outcome" where
  "peer_disconnect p = (mark_disconnected p, Ok ())"

definition is_inbound :: "Peer \<Rightarrow> bool" where
  "is_inbound p \<longleftrightarrow> pi_direction (peer_info p) = Inbound"

definition is_outbound :: "Peer \<Rightarrow> bool" where
  "is_outbound p \<longleftrightarrow> pi_direction (peer_info p) = Outbound"

section \<open>Reputations\<close>

definition clamp_i32 :: "i32 \<Rightarrow> i32 \<Rightarrow> i32 \<Rightarrow> i32" where
  "clamp_i32 lo hi x = (if x <s lo then lo else if hi <s x then hi else x)"

text \<open>\<open>i32::abs\<close>: the least value is its own negation.\<close>

definition abs_i32 :: "i32 \<Rightarrow> i32" where
  "abs_i32 x = (if x <s 0 then - x else x)"

definition REPUTATION_MAX :: i32 where
  "REPUTATION_MAX = 100"

definition REPUTATION_MIN :: i32 where
  "REPUTATION_MIN = - 100"

definition Reputation_new :: "i32 \<Rightarrow> Reputation" where
  "Reputation_new score = Reputation (clamp_i32 REPUTATION_MIN REPUTATION_MAX score)"

definition Reputation_initial :: Reputation where
  "Reputation_initial = Reputation 0"

definition reputation_increase :: "i32 \<Rightarrow> Reputation \<Rightarrow> Reputation" where
  "reputation_increase amount r = Reputation (clamp_i32 REPUTATION_MIN REPUTATION_MAX (reputation_score r + amount))"

definition reputation_decrease :: "i32 \<Rightarrow> Reputation \<Rightarrow> Reputation" where
  "reputation_decrease amount r = Reputation (clamp_i32 REPUTATION_MIN REPUTATION_MAX (reputation_score r - amount))"

definition reputation_is_good :: "Reputation \<Rightarrow> bool" where
  "reputation_is_good r \<longleftrightarrow> 0 <s reputation_score r"

definition reputation_is_bad :: "Reputation \<Rightarrow> bool" where
  "reputation_is_bad r \<longleftrightarrow> reputation_score r <s 0"

definition reputation_should_ban :: "Reputation \<Rightarrow> bool" where
  "reputation_should_ban r \<longleftrightarrow> reputation_score r \<le>s REPUTATION_MIN"

section \<open>The manager\<close>

definition PeerManager_new :: "nat \<Rightarrow> PeerManager" where
  "PeerManager_new max_peers = \<lparr>pmg_peers = [], pmg_reputations = fmempty, pmg_max_peers = max_peers\<rparr>"

definition manager_add_peer :: "Peer \<Rightarrow> PeerManager \<Rightarrow> PeerManager \<times> unit outcome" where
  "manager_add_peer peer m =
     (if pmg_max_peers m \<le> length (pmg_peers m) then (m, Err (NetworkError ''Maximum peer count reached''))
      else (m\<lparr>pmg_peers := pmg_peers m @ [peer]\<rparr>, Ok ()))"

text \<open>\<open>position\<close> and \<open>remove\<close>: the first peer with the id goes.\<close>

fun remove_first :: "('a \<Rightarrow> bool) \<Rightarrow> 'a list \<Rightarrow> 'a list" where
  "remove_first P [] = []"
| "remove_first P (x # xs) = (if P x then xs else x # remove_first P xs)"

definition manager_remove_peer :: "PeerId \<Rightarrow> PeerManager \<Rightarrow> PeerManager \<times> unit outcome" where
  "manager_remove_peer i m = (m\<lparr>pmg_peers := remove_first (\<lambda>p. peer_id p = i) (pmg_peers m)\<rparr>, Ok ())"

definition manager_get_peer :: "PeerManager \<Rightarrow> PeerId \<Rightarrow> PeerInfo option" where
  "manager_get_peer m i = map_option peer_info (find (\<lambda>p. peer_id p = i) (pmg_peers m))"

definition peer_count :: "PeerManager \<Rightarrow> nat" where
  "peer_count m = length (pmg_peers m)"

definition get_all_peers :: "PeerManager \<Rightarrow> PeerInfo list" where
  "get_all_peers m = map peer_info (pmg_peers m)"

definition get_reputation :: "PeerManager \<Rightarrow> PeerId \<Rightarrow> Reputation" where
  "get_reputation m i = (case fmlookup (pmg_reputations m) i of Some r \<Rightarrow> r | None \<Rightarrow> Reputation_initial)"

definition update_reputation :: "PeerId \<Rightarrow> i32 \<Rightarrow> PeerManager \<Rightarrow> PeerManager" where
  "update_reputation i change m =
     (let r = get_reputation m i;
          r = (if 0 <s change then reputation_increase change r else reputation_decrease (abs_i32 change) r)
      in m\<lparr>pmg_reputations := fmupd i r (pmg_reputations m)\<rparr>)"

definition manager_should_ban :: "PeerManager \<Rightarrow> PeerId \<Rightarrow> bool" where
  "manager_should_ban m i = reputation_should_ban (get_reputation m i)"

section \<open>Facts\<close>

lemma PeerId_hex_roundtrip: "hex_laws E \<Longrightarrow> PeerId_from_hex E (PeerId_to_hex E i) = Ok i"
  by (simp add: PeerId_from_hex_def PeerId_to_hex_def hex_laws_def)

lemma sint_limits: "sint REPUTATION_MIN = - 100" "sint REPUTATION_MAX = 100"
  by (simp_all add: REPUTATION_MIN_def REPUTATION_MAX_def)

lemma sint_clamp: "sint (clamp_i32 REPUTATION_MIN REPUTATION_MAX x) = max (- 100) (min 100 (sint x))"
  by (auto simp: clamp_i32_def word_sless_alt sint_limits)

lemma sint_plus_i32:
  assumes "- (2 ^ 31) \<le> sint a + sint b" and "sint a + sint b < 2 ^ 31"
  shows "sint (a + b :: i32) = sint a + sint b"
  unfolding sint_word_ariths(1) using assms by (simp add: signed_take_bit_int_eq_self)

lemma sint_minus_i32:
  assumes "- (2 ^ 31) \<le> sint a - sint b" and "sint a - sint b < 2 ^ 31"
  shows "sint (a - b :: i32) = sint a - sint b"
  unfolding sint_word_ariths(2) using assms by (simp add: signed_take_bit_int_eq_self)

definition reputation_wf :: "Reputation \<Rightarrow> bool" where
  "reputation_wf r \<longleftrightarrow> - 100 \<le> sint (reputation_score r) \<and> sint (reputation_score r) \<le> 100"

lemma reputation_wf_intros [simp]:
  "reputation_wf (Reputation_new s)" "reputation_wf Reputation_initial"
  "reputation_wf (reputation_increase a r)" "reputation_wf (reputation_decrease a r)"
  by (simp_all add: reputation_wf_def Reputation_new_def Reputation_initial_def reputation_increase_def
      reputation_decrease_def sint_clamp)

lemma sint_abs_i32: "- (2 ^ 31) < sint x \<Longrightarrow> sint (abs_i32 x) = \<bar>sint x\<bar>"
  using sint_minus_i32 [of 0 x] sint_lt [of x] by (auto simp: abs_i32_def word_sless_alt)

lemma update_reputation_score:
  assumes "reputation_wf (get_reputation m i)" and "\<bar>sint change\<bar> < 2 ^ 31 - 100"
  shows "sint (reputation_score (get_reputation (update_reputation i change m) i)) =
    max (- 100) (min 100 (sint (reputation_score (get_reputation m i)) + sint change))"
proof -
  let ?s = "reputation_score (get_reputation m i)"
  have s: "- 100 \<le> sint ?s" "sint ?s \<le> 100" using assms(1) by (simp_all add: reputation_wf_def)
  have "sint (?s + change) = sint ?s + sint change" using s assms(2) by (intro sint_plus_i32) auto
  moreover have "sint (?s - abs_i32 change) = sint ?s - \<bar>sint change\<bar>"
    using s assms(2) sint_abs_i32 [of change] by (subst sint_minus_i32) auto
  ultimately show ?thesis
    by (auto simp: update_reputation_def get_reputation_def Let_def reputation_increase_def reputation_decrease_def
        sint_clamp word_sless_alt)
qed

text \<open>An increase that overflows turns a good reputation into the worst one.\<close>

lemma reputation_increase_overflow:
  "reputation_should_ban (reputation_increase 2147483647 (Reputation 1))"
  by (simp add: reputation_should_ban_def reputation_increase_def word_sle_eq sint_clamp sint_limits)

text \<open>What is sent to a peer object comes back from it: both ends of the queue are its own.\<close>

lemma peer_send_receive:
  assumes "peer_queue p = []"
  shows "snd (peer_receive t' (fst (peer_send t m p))) = Ok (Some m)"
  using assms by (simp add: peer_send_def peer_receive_def update_last_seen_def Let_def)

lemma peer_send_fields [simp]:
  "peer_id (fst (peer_send t m p)) = peer_id p" "is_connected (fst (peer_send t m p)) = is_connected p"
  "snd (peer_send t m p) = Ok ()" "peer_queue (fst (peer_send t m p)) = peer_queue p @ [m]"
  by (simp_all add: peer_send_def peer_id_def is_connected_def update_last_seen_def Let_def)

section \<open>The manager over all calls\<close>

inductive manager_step :: "PeerManager \<Rightarrow> PeerManager \<Rightarrow> bool" where
  add: "manager_add_peer p m = (m', r) \<Longrightarrow> manager_step m m'"
| remove: "manager_remove_peer i m = (m', r) \<Longrightarrow> manager_step m m'"
| reputation: "manager_step m (update_reputation i change m)"

inductive_cases manager_stepE: "manager_step m m'"

definition manager_wf :: "PeerManager \<Rightarrow> bool" where
  "manager_wf m \<longleftrightarrow> peer_count m \<le> pmg_max_peers m \<and> (\<forall>i. reputation_wf (get_reputation m i))"

lemma length_remove_first: "length (remove_first P xs) \<le> length xs"
  by (induction xs) auto

lemma set_remove_first: "set (remove_first P xs) \<subseteq> set xs"
  by (induction xs) auto

interpretation manager: invariant_system "\<lambda>m. \<exists>n. m = PeerManager_new n" manager_step manager_wf
proof unfold_locales
  fix m assume "\<exists>n. m = PeerManager_new n"
  then show "manager_wf m" by (auto simp: manager_wf_def PeerManager_new_def peer_count_def get_reputation_def)
next
  fix m m' assume wf: "manager_wf m" and step: "manager_step m m'"
  from step show "manager_wf m'"
  proof cases
    case (add p r)
    with wf show ?thesis
      by (auto simp: manager_wf_def manager_add_peer_def peer_count_def get_reputation_def split: if_splits)
  next
    case (remove i r)
    with wf length_remove_first [of "\<lambda>p. peer_id p = i" "pmg_peers m"] show ?thesis
      by (auto simp: manager_wf_def manager_remove_peer_def peer_count_def get_reputation_def intro: le_trans)
  next
    case (reputation i change)
    with wf show ?thesis by (auto simp: manager_wf_def update_reputation_def peer_count_def get_reputation_def Let_def)
  qed
qed

section \<open>Properties\<close>

text \<open>
  Reputations stay within their limits and changes below the overflow are exact. After any calls
  on a new peer manager there are at most the permitted number of peers and every reputation is
  between -100 and 100; a further change that is more than 100 away from the limits of \<open>i32\<close> adds
  to the score and clamps, leaves all other scores alone, and the peer is to be banned exactly when
  the score reaches the lower limit.
\<close>

theorem reputation_exact:
  assumes "manager_step\<^sup>*\<^sup>* (PeerManager_new n) m" and "\<bar>sint change\<bar> < 2 ^ 31 - 100"
  shows "peer_count m \<le> n \<and>
    (let score = (\<lambda>m i. sint (reputation_score (get_reputation m i)));
         new = max (- 100) (min 100 (score m i + sint change))
     in score m j \<in> {- 100..100} \<and> score (update_reputation i change m) i = new \<and>
        (j \<noteq> i \<longrightarrow> score (update_reputation i change m) j = score m j) \<and>
        (manager_should_ban (update_reputation i change m) i \<longleftrightarrow> new = - 100))"
proof -
  have wf: "manager_wf m" by (rule manager.reachable_invar [OF _ assms(1)]) blast
  have max: "pmg_max_peers m = n" using assms(1)
    by (induction rule: rtranclp_induct)
       (auto simp: PeerManager_new_def manager_add_peer_def manager_remove_peer_def update_reputation_def Let_def
         elim!: manager_stepE split: if_splits)
  have "score \<in> {- 100..100} \<Longrightarrow> score \<le> - 100 \<longleftrightarrow> score = - 100" for score :: int by auto
  with wf max update_reputation_score [of m i change] assms(2) show ?thesis
    by (auto simp: manager_wf_def reputation_wf_def manager_should_ban_def reputation_should_ban_def word_sle_eq sint_limits
        Let_def get_reputation_def update_reputation_def)
qed

theorem reputation_exact_witness:
  "manager_should_ban (update_reputation (PeerId (bytes_fill 1)) (- 200) (PeerManager_new 5)) (PeerId (bytes_fill 1))"
proof -
  have "\<bar>sint (- 200 :: i32)\<bar> < 2 ^ 31 - 100" by simp
  from reputation_exact [OF rtranclp.rtrancl_refl this, of 5 "PeerId (bytes_fill 1)" "PeerId (bytes_fill 2)"]
  show ?thesis by (simp add: Let_def PeerManager_new_def get_reputation_def Reputation_initial_def)
qed

section \<open>A concrete instance\<close>

definition sample_network :: network_codecs where
  "sample_network =
     \<lparr>handshake_codec = (\<lambda>x. Ok [1], \<lambda>bs. Err ''unknown''), peer_list_codec = (\<lambda>x. Ok [2], \<lambda>bs. Err ''unknown''),
      block_request_codec = (\<lambda>x. Ok [3], \<lambda>bs. Err ''unknown''), block_response_codec = (\<lambda>x. Ok [4], \<lambda>bs. Err ''unknown''),
      block_codec = (\<lambda>x. Ok [5], \<lambda>bs. Err ''unknown''), tx_request_codec = (\<lambda>x. Ok [6], \<lambda>bs. Err ''unknown''),
      tx_response_codec = (\<lambda>x. Ok [7], \<lambda>bs. Err ''unknown''), tx_codec = (\<lambda>x. Ok [8], \<lambda>bs. Err ''unknown''),
      status_codec = (\<lambda>x. Ok [9], \<lambda>bs. Err ''unknown''), disconnect_codec = (\<lambda>x. Ok [10], \<lambda>bs. Err ''unknown''),
      message_codec = (\<lambda>x. Ok [11], \<lambda>bs. Err ''unknown'')\<rparr>"

definition sample_peer :: "u8 \<Rightarrow> Peer" where
  "sample_peer b = mark_connected 10 (Peer_new 9 (PeerId (bytes_fill b)) (V4 (bytes_fill 127) 9000) Outbound 1 ''net'')"

end
