(* ===== verification/Validator_Set.thy ===== *)
theory Validator_Set
  imports Common_Types
begin

text \<open>
  \<open>blockchain-core/src/consensus/validator_set.rs\<close>: the authorised validators, kept three times: an
  ordered list, a map to their records and a set for membership. \<open>vset_wf\<close> says that the three
  agree. A method that takes \<open>&mut self\<close> and returns a \<open>Result\<close> yields the new state beside the
  outcome.
\<close>

section \<open>Data\<close>

record ValidatorInfo =
  vi_public_key :: PublicKey
  vi_added_at :: Timestamp
  vi_blocks_produced :: u64
  vi_blocks_validated :: u64
  vi_is_active :: bool

record ValidatorSet =
  vset_validators :: "PublicKey list"
  vset_map :: "(PublicKey, ValidatorInfo) hashmap"
  vset_set :: "PublicKey fset"

record ValidatorSetStats =
  vss_total_validators :: nat
  vss_active_validators :: nat
  vss_inactive_validators :: nat
  vss_total_blocks_produced :: u64
  vss_total_blocks_validated :: u64

section \<open>Operations\<close>

definition new_info :: "Timestamp \<Rightarrow> PublicKey \<Rightarrow> ValidatorInfo" where
  "new_info now validator =
     \<lparr>vi_public_key = validator, vi_added_at = now, vi_blocks_produced = 0, vi_blocks_validated = 0,
      vi_is_active = True\<rparr>"

definition ValidatorSet_new :: "Timestamp \<Rightarrow> PublicKey list \<Rightarrow> ValidatorSet" where
  "ValidatorSet_new now validators =
     (let (validator_map, validator_set) =
        fold (\<lambda>validator (m, s). (fmupd validator (new_info now validator) m, finsert validator s))
          validators (fmempty, {||})
      in \<lparr>vset_validators = validators, vset_map = validator_map, vset_set = validator_set\<rparr>)"

definition ValidatorSet_empty :: ValidatorSet where
  "ValidatorSet_empty = \<lparr>vset_validators = [], vset_map = fmempty, vset_set = {||}\<rparr>"

definition is_validator :: "ValidatorSet \<Rightarrow> PublicKey \<Rightarrow> bool" where
  "is_validator s validator \<longleftrightarrow> validator |\<in>| vset_set s"

definition add_validator ::
  "'z externals_scheme \<Rightarrow> Timestamp \<Rightarrow> ValidatorSet \<Rightarrow> PublicKey \<Rightarrow> ValidatorSet \<times> unit outcome" where
  "add_validator E now s validator =
     (if is_validator s validator
      then (s, Err (ConsensusError (''Validator '' @ PublicKey_to_hex E validator @ '' already exists'')))
      else (s\<lparr>vset_validators := vset_validators s @ [validator],
              vset_map := fmupd validator (new_info now validator) (vset_map s),
              vset_set := finsert validator (vset_set s)\<rparr>, Ok ()))"

definition not_found :: "'z externals_scheme \<Rightarrow> PublicKey \<Rightarrow> VotingError" where
  "not_found E validator = InvalidValidator (''Validator '' @ PublicKey_to_hex E validator @ '' not found'')"

definition remove_validator ::
  "'z externals_scheme \<Rightarrow> ValidatorSet \<Rightarrow> PublicKey \<Rightarrow> ValidatorSet \<times> unit outcome" where
  "remove_validator E s validator =
     (if \<not> is_validator s validator then (s, Err (not_found E validator))
      else (s\<lparr>vset_validators := filter (\<lambda>v. v \<noteq> validator) (vset_validators s),
              vset_map := fmdrop validator (vset_map s),
              vset_set := vset_set s |-| {|validator|}\<rparr>, Ok ()))"

definition validator_count :: "ValidatorSet \<Rightarrow> nat" where
  "validator_count s = length (vset_validators s)"

definition get_validator_by_index :: "ValidatorSet \<Rightarrow> nat \<Rightarrow> PublicKey option" where
  "get_validator_by_index s index = vec_get (vset_validators s) index"

definition get_validator_info :: "ValidatorSet \<Rightarrow> PublicKey \<Rightarrow> ValidatorInfo option" where
  "get_validator_info s validator = fmlookup (vset_map s) validator"

text \<open>\<open>get_validator_info_mut(v).ok_or_else(..)?\<close> followed by an update of the record.\<close>

definition modify_info ::
  "'z externals_scheme \<Rightarrow> (ValidatorInfo \<Rightarrow> ValidatorInfo) \<Rightarrow> ValidatorSet \<Rightarrow> PublicKey \<Rightarrow> ValidatorSet \<times> unit outcome" where
  "modify_info E f s validator =
     (case fmlookup (vset_map s) validator of
        None \<Rightarrow> (s, Err (not_found E validator))
      | Some info \<Rightarrow> (s\<lparr>vset_map := fmupd validator (f info) (vset_map s)\<rparr>, Ok ()))"

definition record_block_produced ::
  "'z externals_scheme \<Rightarrow> ValidatorSet \<Rightarrow> PublicKey \<Rightarrow> ValidatorSet \<times> unit outcome" where
  "record_block_produced E = modify_info E (\<lambda>info. info\<lparr>vi_blocks_produced := vi_blocks_produced info + 1\<rparr>)"

definition record_block_validated ::
  "'z externals_scheme \<Rightarrow> ValidatorSet \<Rightarrow> PublicKey \<Rightarrow> ValidatorSet \<times> unit outcome" where
  "record_block_validated E = modify_info E (\<lambda>info. info\<lparr>vi_blocks_validated := vi_blocks_validated info + 1\<rparr>)"

definition set_validator_active ::
  "'z externals_scheme \<Rightarrow> ValidatorSet \<Rightarrow> PublicKey \<Rightarrow> bool \<Rightarrow> ValidatorSet \<times> unit outcome" where
  "set_validator_active E s validator active = modify_info E (\<lambda>info. info\<lparr>vi_is_active := active\<rparr>) s validator"

definition active_validators :: "ValidatorSet \<Rightarrow> PublicKey list" where
  "active_validators s =
     filter (\<lambda>v. case fmlookup (vset_map s) v of None \<Rightarrow> False | Some info \<Rightarrow> vi_is_active info)
       (vset_validators s)"

definition active_validator_count :: "ValidatorSet \<Rightarrow> nat" where
  "active_validator_count s = length (active_validators s)"

definition total_blocks_produced :: "ValidatorSet \<Rightarrow> u64" where
  "total_blocks_produced s = sum_mset (image_mset vi_blocks_produced (hm_values (vset_map s)))"

definition total_blocks_validated :: "ValidatorSet \<Rightarrow> u64" where
  "total_blocks_validated s = sum_mset (image_mset vi_blocks_validated (hm_values (vset_map s)))"

definition ValidatorSet_get_stats :: "ValidatorSet \<Rightarrow> ValidatorSetStats" where
  "ValidatorSet_get_stats s =
     (let total_validators = validator_count s; active = active_validator_count s in
      \<lparr>vss_total_validators = total_validators, vss_active_validators = active,
       vss_inactive_validators = total_validators - active,
       vss_total_blocks_produced = total_blocks_produced s,
       vss_total_blocks_validated = total_blocks_validated s\<rparr>)"

section \<open>The invariant\<close>

definition vset_wf :: "ValidatorSet \<Rightarrow> bool" where
  "vset_wf s \<longleftrightarrow>
     fset (vset_set s) = set (vset_validators s) \<and> fmdom (vset_map s) = vset_set s \<and>
     (\<forall>v info. fmlookup (vset_map s) v = Some info \<longrightarrow> vi_public_key info = v)"

text \<open>One call of a method that changes the set, whatever its arguments and its outcome.\<close>

inductive vset_step :: "'z externals_scheme \<Rightarrow> ValidatorSet \<Rightarrow> ValidatorSet \<Rightarrow> bool" for E where
  add: "add_validator E now s v = (t, r) \<Longrightarrow> vset_step E s t"
| remove: "remove_validator E s v = (t, r) \<Longrightarrow> vset_step E s t"
| produced: "record_block_produced E s v = (t, r) \<Longrightarrow> vset_step E s t"
| validated: "record_block_validated E s v = (t, r) \<Longrightarrow> vset_step E s t"
| active: "set_validator_active E s v a = (t, r) \<Longrightarrow> vset_step E s t"

lemma vset_wf_is_validator:
  assumes "vset_wf s"
  shows "is_validator s v \<longleftrightarrow> v \<in> set (vset_validators s)"
    and "is_validator s v \<longleftrightarrow> get_validator_info s v \<noteq> None"
  using assms by (auto simp: vset_wf_def is_validator_def get_validator_info_def fmlookup_dom_iff)

lemma new_fold:
  "fold (\<lambda>v (m, s). (fmupd v (new_info now v) m, finsert v s)) vs (m, s) =
   (fold (\<lambda>v. fmupd v (new_info now v)) vs m, fold finsert vs s)"
  by (induction vs arbitrary: m s) auto

lemma fmlookup_fold_info:
  "fmlookup (fold (\<lambda>v. fmupd v (new_info now v)) vs m) k =
     (if k \<in> set vs then Some (new_info now k) else fmlookup m k)"
  by (induction vs arbitrary: m) auto

lemma fset_fold_finsert: "fset (fold finsert vs s) = set vs \<union> fset s"
  by (induction vs arbitrary: s) auto

lemma ValidatorSet_new_fields:
  "vset_validators (ValidatorSet_new now vs) = vs"
  "fset (vset_set (ValidatorSet_new now vs)) = set vs"
  "fmlookup (vset_map (ValidatorSet_new now vs)) k = (if k \<in> set vs then Some (new_info now k) else None)"
  by (simp_all add: ValidatorSet_new_def new_fold fmlookup_fold_info fset_fold_finsert)

lemma vset_wf_new: "vset_wf (ValidatorSet_new now vs)"
proof -
  let ?s = "ValidatorSet_new now vs"
  have "fmdom (vset_map ?s) = vset_set ?s"
    by (rule fset_eqI)
       (simp add: fmlookup_dom_iff ValidatorSet_new_fields split: if_splits)
  then show ?thesis
    by (auto simp: vset_wf_def ValidatorSet_new_fields new_info_def split: if_splits)
qed

lemma vset_wf_modify:
  assumes "vset_wf s" and "\<And>info. vi_public_key (f info) = vi_public_key info"
    and "modify_info E f s v = (t, r)"
  shows "vset_wf t"
  using assms
  by (auto simp: vset_wf_def modify_info_def fmlookup_dom_iff finsert_absorb split: option.splits if_splits)

lemma vset_wf_step: "vset_step E s t \<Longrightarrow> vset_wf s \<Longrightarrow> vset_wf t"
proof (induction rule: vset_step.induct)
  case (add now s v t r)
  then show ?case by (auto simp: add_validator_def vset_wf_def new_info_def split: if_splits)
next
  case (remove s v t r)
  then show ?case by (auto simp: remove_validator_def vset_wf_def split: if_splits)
next
  case (produced s v t r)
  then show ?case by (auto simp: record_block_produced_def intro: vset_wf_modify [rotated 2])
next
  case (validated s v t r)
  then show ?case by (auto simp: record_block_validated_def intro: vset_wf_modify [rotated 2])
next
  case (active s v a t r)
  then show ?case by (auto simp: set_validator_active_def intro: vset_wf_modify [rotated 2])
qed

interpretation vset: invariant_system "\<lambda>s. \<exists>now vs. s = ValidatorSet_new now vs" "vset_step E" vset_wf
  for E :: "'z externals_scheme"
  by unfold_locales (auto intro: vset_wf_new vset_wf_step)

lemma active_le_total: "active_validator_count s \<le> validator_count s"
  by (simp add: active_validator_count_def active_validators_def validator_count_def)

lemma add_then_remove:
  assumes "vset_wf s" and "\<not> is_validator s v"
  shows "fst (remove_validator E (fst (add_validator E now s v)) v) = s"
proof -
  have "v \<notin> set (vset_validators s)" "fmlookup (vset_map s) v = None" "v |\<notin>| vset_set s"
    using assms vset_wf_is_validator [OF assms(1)]
    by (simp_all add: is_validator_def get_validator_info_def)
  moreover from this have "fmdrop v (fmupd v i (vset_map s)) = vset_map s" for i
    by (intro fmap_ext) simp
  moreover have "filter (\<lambda>w. w \<noteq> v) (vset_validators s) = vset_validators s"
    using \<open>v \<notin> set (vset_validators s)\<close> by (auto simp: filter_id_conv)
  ultimately show ?thesis
    using assms(2) by (simp add: add_validator_def remove_validator_def is_validator_def)
qed

section \<open>Properties\<close>

text \<open>
  Whatever methods are called, in whatever order and with whatever outcomes, the three copies of a
  validator set that \<open>ValidatorSet::new\<close> created agree: a key is in the list exactly if it is in the
  set, exactly if it has a record, and the record carries that key. The inactive count of
  \<open>get_stats\<close> does not underflow.
\<close>

theorem validator_set_invariant:
  assumes "(vset_step E)\<^sup>*\<^sup>* (ValidatorSet_new now vs) s"
  shows "(is_validator s v \<longleftrightarrow> v \<in> set (vset_validators s)) \<and>
         (is_validator s v \<longleftrightarrow> get_validator_info s v \<noteq> None) \<and>
         (\<forall>info. get_validator_info s v = Some info \<longrightarrow> vi_public_key info = v) \<and>
         vss_active_validators (ValidatorSet_get_stats s) + vss_inactive_validators (ValidatorSet_get_stats s)
           = validator_count s"
proof -
  from vset.reachable_invar [OF _ assms] have "vset_wf s" by blast
  with active_le_total [of s] show ?thesis
    using vset_wf_is_validator [of s v]
    by (auto simp: vset_wf_def get_validator_info_def ValidatorSet_get_stats_def Let_def)
qed

definition sample_key :: "u8 \<Rightarrow> PublicKey" where
  "sample_key b = PublicKey (bytes_fill b)"

lemma sample_key_inject [simp]: "sample_key a = sample_key b \<longleftrightarrow> a = b"
  by (simp add: sample_key_def)

theorem validator_set_invariant_witness:
  "is_validator (fst (remove_validator sample_externals (fst (add_validator sample_externals 5
      (ValidatorSet_new 5 [sample_key 1, sample_key 2]) (sample_key 3))) (sample_key 1))) (sample_key 3)"
proof -
  let ?s0 = "ValidatorSet_new 5 [sample_key 1, sample_key 2]"
  let ?s1 = "fst (add_validator sample_externals 5 ?s0 (sample_key 3))"
  let ?s2 = "fst (remove_validator sample_externals ?s1 (sample_key 1))"
  have "vset_step sample_externals ?s0 ?s1" "vset_step sample_externals ?s1 ?s2"
    by (rule vset_step.intros, rule prod.collapse [symmetric])+
  then have "(vset_step sample_externals)\<^sup>*\<^sup>* ?s0 ?s2"
    by (meson converse_rtranclp_into_rtranclp rtranclp.rtrancl_refl)
  from validator_set_invariant [OF this, of "sample_key 3"] show ?thesis
    by (simp add: add_validator_def remove_validator_def is_validator_def ValidatorSet_new_def)
qed

end
