(* ===== verification/Finality.thy ===== *)
theory Finality
  imports Block Float64 Validator_Set
begin

text \<open>
  \<open>blockchain-core/src/consensus/finality.rs\<close>: the tracker that counts the distinct signers of each
  block and marks a block final when they reach the threshold. The threshold is an \<open>f64\<close>; the
  number of signatures required is computed in binary64 arithmetic (theory Float64), and
  \<open>required_supermajority\<close> bounds what rounding can do to it. The locale \<open>supermajority\<close> states
  what a quorum rule promises; the rules of the tracker and of proof of authority interpret it.
\<close>

section \<open>Data\<close>

record FinalityInfo =
  fi_block_hash :: BlockHash
  fi_height :: BlockHeight
  fi_signatures :: "PublicKey fset"
  fi_total_validators :: nat
  fi_is_finalized :: bool
  fi_finalized_at :: "Timestamp option"

record FinalityTracker =
  ft_threshold :: f64
  ft_finality_map :: "(BlockHash, FinalityInfo) hashmap"
  ft_highest_finalized_height :: BlockHeight
  ft_highest_finalized_hash :: BlockHash

datatype FinalityStatus = Finalized | Pending (pending_signatures: nat) (pending_required: nat)

record FinalityStats =
  fs_total_blocks :: nat
  fs_finalized_blocks :: nat
  fs_pending_blocks :: nat
  fs_highest_finalized_height :: BlockHeight
  fs_highest_finalized_hash :: BlockHash
  fs_threshold :: f64

section \<open>Operations\<close>

definition FinalityTracker_new :: "f64 \<Rightarrow> FinalityTracker" where
  "FinalityTracker_new threshold =
     \<lparr>ft_threshold = threshold, ft_finality_map = fmempty, ft_highest_finalized_height = 0,
      ft_highest_finalized_hash = BlockHash_zero\<rparr>"

definition calculate_required_signatures :: "f64 \<Rightarrow> nat \<Rightarrow> nat" where
  "calculate_required_signatures threshold total_validators =
     (if total_validators = 0 then 0
      else max (f64_to_usize (f64_ceil (f64_mul (f64_of_nat total_validators) threshold))) 1)"

definition check_finality ::
  "Timestamp \<Rightarrow> FinalityTracker \<Rightarrow> Block \<Rightarrow> nat \<Rightarrow> FinalityTracker \<times> FinalityStatus" where
  "check_finality now t block total_validators =
     (let block_hash = Block_hash block;
          required_signatures = calculate_required_signatures (ft_threshold t) total_validators;
          info = (case fmlookup (ft_finality_map t) block_hash of
                    Some info \<Rightarrow> info
                  | None \<Rightarrow> \<lparr>fi_block_hash = block_hash, fi_height = Block_height block,
                             fi_signatures = {||}, fi_total_validators = total_validators,
                             fi_is_finalized = False, fi_finalized_at = None\<rparr>);
          info = info\<lparr>fi_signatures :=
                   fold (\<lambda>sig. finsert (vs_validator sig)) (blk_signatures block) (fi_signatures info)\<rparr>
      in if required_signatures \<le> fcard (fi_signatures info) \<and> \<not> fi_is_finalized info then
           (let info = info\<lparr>fi_is_finalized := True, fi_finalized_at := Some now\<rparr>;
                t = t\<lparr>ft_finality_map := fmupd block_hash info (ft_finality_map t)\<rparr>;
                t = (if ft_highest_finalized_height t < Block_height block
                     then t\<lparr>ft_highest_finalized_height := Block_height block,
                            ft_highest_finalized_hash := block_hash\<rparr> else t)
            in (t, Finalized))
         else
           (let t = t\<lparr>ft_finality_map := fmupd block_hash info (ft_finality_map t)\<rparr>
            in if fi_is_finalized info then (t, Finalized)
               else (t, Pending (fcard (fi_signatures info)) required_signatures)))"

definition FinalityTracker_is_finalized :: "FinalityTracker \<Rightarrow> BlockHash \<Rightarrow> bool" where
  "FinalityTracker_is_finalized t h =
     (case fmlookup (ft_finality_map t) h of None \<Rightarrow> False | Some info \<Rightarrow> fi_is_finalized info)"

definition get_finality_info :: "FinalityTracker \<Rightarrow> BlockHash \<Rightarrow> FinalityInfo option" where
  "get_finality_info t h = fmlookup (ft_finality_map t) h"

definition get_finalized_blocks :: "FinalityTracker \<Rightarrow> FinalityInfo multiset" where
  "get_finalized_blocks t = filter_mset fi_is_finalized (hm_values (ft_finality_map t))"

definition get_pending_blocks :: "FinalityTracker \<Rightarrow> FinalityInfo multiset" where
  "get_pending_blocks t = filter_mset (\<lambda>info. \<not> fi_is_finalized info) (hm_values (ft_finality_map t))"

definition finalized_count :: "FinalityTracker \<Rightarrow> nat" where
  "finalized_count t = size (filter_mset fi_is_finalized (hm_values (ft_finality_map t)))"

definition pending_count :: "FinalityTracker \<Rightarrow> nat" where
  "pending_count t = size (filter_mset (\<lambda>info. \<not> fi_is_finalized info) (hm_values (ft_finality_map t)))"

definition prune_below_height :: "FinalityTracker \<Rightarrow> BlockHeight \<Rightarrow> FinalityTracker" where
  "prune_below_height t min_height =
     t\<lparr>ft_finality_map := hm_retain (\<lambda>_ info. min_height \<le> fi_height info) (ft_finality_map t)\<rparr>"

definition FinalityTracker_clear :: "FinalityTracker \<Rightarrow> FinalityTracker" where
  "FinalityTracker_clear t =
     t\<lparr>ft_finality_map := fmempty, ft_highest_finalized_height := 0,
       ft_highest_finalized_hash := BlockHash_zero\<rparr>"

definition FinalityTracker_get_stats :: "FinalityTracker \<Rightarrow> FinalityStats" where
  "FinalityTracker_get_stats t =
     \<lparr>fs_total_blocks = hm_len (ft_finality_map t), fs_finalized_blocks = finalized_count t,
      fs_pending_blocks = pending_count t,
      fs_highest_finalized_height = ft_highest_finalized_height t,
      fs_highest_finalized_hash = ft_highest_finalized_hash t, fs_threshold = ft_threshold t\<rparr>"

fun status_is_finalized :: "FinalityStatus \<Rightarrow> bool" where
  "status_is_finalized Finalized = True"
| "status_is_finalized (Pending _ _) = False"

fun status_signature_count :: "FinalityStatus \<Rightarrow> nat option" where
  "status_signature_count (Pending signatures _) = Some signatures"
| "status_signature_count Finalized = None"

fun status_required_count :: "FinalityStatus \<Rightarrow> nat option" where
  "status_required_count (Pending _ required) = Some required"
| "status_required_count Finalized = None"

section \<open>Quorums\<close>

text \<open>
  A rule that maps a number of validators to the number of signatures it asks for: more than two
  thirds, and not more than there are validators. Two quorums then share more than a third of the
  validators.
\<close>

locale supermajority =
  fixes required :: "nat \<Rightarrow> nat" and limit :: nat
  assumes two_thirds: "0 < n \<Longrightarrow> n \<le> limit \<Longrightarrow> 2 * n < 3 * required n"
    and attainable: "0 < n \<Longrightarrow> n \<le> limit \<Longrightarrow> required n \<le> n"
begin

lemma quorums_overlap:
  assumes "finite V" and "V \<noteq> {}" and "card V \<le> limit"
    and "A \<subseteq> V" and "required (card V) \<le> card A"
    and "B \<subseteq> V" and "required (card V) \<le> card B"
  shows "card V < 3 * card (A \<inter> B)"
proof -
  have fin: "finite A" "finite B" using assms by (auto intro: finite_subset)
  have "card (A \<union> B) \<le> card V" using assms by (intro card_mono) auto
  moreover have "card A + card B = card (A \<union> B) + card (A \<inter> B)"
    using fin by (rule card_Un_Int)
  moreover have "2 * card V < 3 * required (card V)"
    using assms(1-3) by (intro two_thirds) (simp_all add: card_gt_0_iff)
  ultimately show ?thesis using assms(5,7) by linarith
qed

lemma all_validators_suffice: "V \<noteq> {} \<Longrightarrow> finite V \<Longrightarrow> card V \<le> limit \<Longrightarrow> required (card V) \<le> card V"
  by (rule attainable) (simp_all add: card_gt_0_iff)

end

text \<open>The default threshold of the system.\<close>

definition two_thirds_threshold :: f64 where
  "two_thirds_threshold = f64_lit (67 / 100)"

text \<open>Binary64 rounding is far finer than the distance of the threshold from two thirds.\<close>

lemma two_thirds_threshold_value:
  "\<exists>t. two_thirds_threshold = Fin t \<and> 2 / 3 + 1 / 1000 \<le> t \<and> t \<le> 7 / 10"
proof -
  have "pow2 (- 1022) \<le> pow2 (- 1)" "pow2 0 \<le> pow2 1000"
    by (rule pow2_mono; simp)+
  then have "pow2 (- 1022) \<le> 67 / 100" "67 / 100 \<le> pow2 1000"
    by (simp_all add: pow2_def [of "- 1"] pow2_def [of 0])
  from f64_lit_bounds [OF this] show ?thesis
    by (auto simp: two_thirds_threshold_def)
qed

lemma f64_mul_two_thirds:
  assumes n: "1 \<le> n" "n \<le> 2 ^ 53" and t: "2 / 3 + 1 / 1000 \<le> t" "t \<le> 7 / 10"
  shows "\<exists>p. f64_mul (Fin n) (Fin t) = Fin p \<and> 2 / 3 * n < p \<and> p \<le> n"
proof -
  obtain z where z: "z = n * t" by blast
  have zlo: "n * (2 / 3 + 1 / 1000) \<le> z" and zhi: "z \<le> n * (7 / 10)"
    unfolding z using t n(1) by (intro mult_left_mono; simp)+
  have "pow2 (- 1022) \<le> pow2 (- 1)" "pow2 53 \<le> pow2 1000"
    by (rule pow2_mono; simp)+
  then have small: "pow2 (- 1022) \<le> 1 / 2" "2 ^ 53 \<le> pow2 1000"
    by (simp_all add: pow2_def [of "- 1"] pow2_def [of 53])
  have "1 / 2 \<le> z" "z \<le> 2 ^ 53" using zlo zhi n by (simp_all add: field_simps)
  with small have "pow2 (- 1022) \<le> z" "z \<le> pow2 1000" by (blast intro: order_trans)+
  then obtain p where p: "f64_mul (Fin n) (Fin t) = Fin p"
      "z * (1 - 1 / 2 ^ 53) \<le> p" "p \<le> z * (1 + 1 / 2 ^ 53)"
    unfolding z using f64_mul_bounds by blast
  have "2 / 3 * n < p" using p(2) zlo n(1) by (simp add: field_simps)
  moreover have "p \<le> n" using p(3) zhi n(1) by (simp add: field_simps)
  ultimately show ?thesis using p(1) by blast
qed

lemma required_supermajority:
  assumes "0 < n" and "n \<le> 2 ^ 53"
  shows "2 * n < 3 * calculate_required_signatures two_thirds_threshold n \<and>
         calculate_required_signatures two_thirds_threshold n \<le> n"
proof -
  obtain t where t: "two_thirds_threshold = Fin t" "2 / 3 + 1 / 1000 \<le> t" "t \<le> 7 / 10"
    using two_thirds_threshold_value by blast
  have n: "1 \<le> (of_nat n :: rat)" "(of_nat n :: rat) \<le> 2 ^ 53"
    using assms(1) of_nat_mono [OF assms(2), where 'a = rat] by simp_all
  obtain p where p: "f64_mul (Fin (of_nat n)) (Fin t) = Fin p" "2 / 3 * of_nat n < p" "p \<le> of_nat n"
    using f64_mul_two_thirds [OF n t(2,3)] by blast
  have pos: "0 < \<lceil>p\<rceil>" using p(2) n(1) by simp
  then have pos_nat: "Suc 0 \<le> nat \<lceil>p\<rceil>" by linarith
  have le: "\<lceil>p\<rceil> \<le> int n" using p(3) by (simp add: ceiling_le_iff)
  have "f64_to_usize (f64_ceil (f64_mul (f64_of_nat n) two_thirds_threshold)) = nat \<lceil>p\<rceil>"
    using p(1) pos le assms(2) by (simp add: f64_of_nat_exact t(1) min_def)
  then have "calculate_required_signatures two_thirds_threshold n = nat \<lceil>p\<rceil>"
    using assms(1) pos_nat by (simp add: calculate_required_signatures_def)
  moreover have "2 * int n < 3 * \<lceil>p\<rceil>"
  proof -
    have "of_int (2 * int n) < 3 * p" using p(2) by simp
    also have "\<dots> \<le> of_int (3 * \<lceil>p\<rceil>)" by simp
    finally show ?thesis by (simp only: of_int_less_iff)
  qed
  ultimately show ?thesis using le pos_nat by linarith
qed

interpretation tracker: supermajority "calculate_required_signatures two_thirds_threshold" "2 ^ 53"
  using required_supermajority by unfold_locales blast+

section \<open>What a sequence of calls does\<close>

text \<open>The signers of a block, and the tracker after a sequence of calls of \<open>check_finality\<close>.\<close>

definition block_signers :: "Block \<Rightarrow> PublicKey set" where
  "block_signers block = vs_validator ` set (blk_signatures block)"

definition signers_seen :: "BlockHash \<Rightarrow> (Timestamp \<times> Block) list \<Rightarrow> PublicKey set" where
  "signers_seen h calls = (\<Union>(now, block) \<in> set calls. if Block_hash block = h then block_signers block else {})"

definition check_all :: "nat \<Rightarrow> (Timestamp \<times> Block) list \<Rightarrow> FinalityTracker \<Rightarrow> FinalityTracker" where
  "check_all n calls t = fold (\<lambda>(now, block) t. fst (check_finality now t block n)) calls t"

lemma fset_fold_signers:
  "fset (fold (\<lambda>sig. finsert (vs_validator sig)) sigs s) = vs_validator ` set sigs \<union> fset s"
  by (induction sigs arbitrary: s) auto

lemma check_finality_threshold [simp]: "ft_threshold (fst (check_finality now t block n)) = ft_threshold t"
  by (simp add: check_finality_def Let_def)

lemma check_finality_other:
  "h \<noteq> Block_hash block \<Longrightarrow>
   fmlookup (ft_finality_map (fst (check_finality now t block n))) h = fmlookup (ft_finality_map t) h"
  by (simp add: check_finality_def Let_def)

lemma check_finality_known:
  assumes "fmlookup (ft_finality_map t) (Block_hash block) = Some info"
  shows "\<exists>i. fmlookup (ft_finality_map (fst (check_finality now t block n))) (Block_hash block) = Some i \<and>
             fset (fi_signatures i) = block_signers block \<union> fset (fi_signatures info) \<and>
             (fi_is_finalized i \<longleftrightarrow> fi_is_finalized info \<or>
                calculate_required_signatures (ft_threshold t) n \<le> fcard (fi_signatures i)) \<and>
             (fi_is_finalized info \<longrightarrow> fi_finalized_at i = fi_finalized_at info)"
  using assms by (auto simp: check_finality_def Let_def block_signers_def fset_fold_signers)

lemma check_finality_new:
  assumes "fmlookup (ft_finality_map t) (Block_hash block) = None"
  shows "\<exists>i. fmlookup (ft_finality_map (fst (check_finality now t block n))) (Block_hash block) = Some i \<and>
             fset (fi_signatures i) = block_signers block \<and>
             (fi_is_finalized i \<longleftrightarrow>
                calculate_required_signatures (ft_threshold t) n \<le> fcard (fi_signatures i))"
  using assms by (auto simp: check_finality_def Let_def block_signers_def fset_fold_signers)

lemma check_all_snoc [simp]:
  "check_all n (calls @ [(now, block)]) t = fst (check_finality now (check_all n calls t) block n)"
  by (simp add: check_all_def)

lemma check_all_threshold [simp]: "ft_threshold (check_all n calls t) = ft_threshold t"
  by (induction calls rule: rev_induct) (auto simp: check_all_def)

lemma signers_seen_simps [simp]:
  "signers_seen h [] = {}"
  "signers_seen h (calls @ [(now, block)]) =
     signers_seen h calls \<union> (if Block_hash block = h then block_signers block else {})"
  by (auto simp: signers_seen_def)

text \<open>The entry of a hash after any calls on a fresh tracker.\<close>

lemma check_all_lookup:
  "case fmlookup (ft_finality_map (check_all n calls (FinalityTracker_new threshold))) h of
     None \<Rightarrow> h \<notin> (Block_hash \<circ> snd) ` set calls
   | Some info \<Rightarrow> h \<in> (Block_hash \<circ> snd) ` set calls \<and>
       fset (fi_signatures info) = signers_seen h calls \<and>
       (fi_is_finalized info \<longleftrightarrow> calculate_required_signatures threshold n \<le> card (signers_seen h calls))"
    (is "?P calls")
proof (induction calls rule: rev_induct)
  case Nil
  then show ?case by (simp add: check_all_def FinalityTracker_new_def)
next
  case (snoc call calls)
  obtain now block where call: "call = (now, block)" by (cases call)
  let ?t = "check_all n calls (FinalityTracker_new threshold)"
  have thr: "ft_threshold ?t = threshold" by (simp add: FinalityTracker_new_def)
  have fin: "finite (signers_seen h calls)" if "fset A = signers_seen h calls" for A :: "PublicKey fset"
    using that by (metis finite_fset)
  show ?case
  proof (cases "Block_hash block = h")
    case False
    with snoc show ?thesis by (auto simp: call check_finality_other split: option.splits)
  next
    case h: True
    show ?thesis
    proof (cases "fmlookup (ft_finality_map ?t) h")
      case None
      then have unseen: "signers_seen h calls = {}"
        using snoc by (auto simp: signers_seen_def image_iff)
      from None h check_finality_new [of ?t block now n] thr unseen show ?thesis
        by (auto simp: call fcard.rep_eq)
    next
      case (Some info)
      with snoc have ih: "fset (fi_signatures info) = signers_seen h calls"
        "fi_is_finalized info \<longleftrightarrow> calculate_required_signatures threshold n \<le> card (signers_seen h calls)"
        by auto
      have "card (signers_seen h calls) \<le> card (block_signers block \<union> signers_seen h calls)"
        using fin [OF ih(1)] by (intro card_mono) (auto simp: block_signers_def)
      with Some h ih check_finality_known [of ?t block info now n] thr show ?thesis
        by (auto simp: call fcard.rep_eq Un_commute)
    qed
  qed
qed

lemma check_all_finalized:
  "FinalityTracker_is_finalized (check_all n calls (FinalityTracker_new threshold)) h \<longleftrightarrow>
     h \<in> (Block_hash \<circ> snd) ` set calls \<and>
     calculate_required_signatures threshold n \<le> card (signers_seen h calls)"
  using check_all_lookup [where n = n and calls = calls and threshold = threshold and h = h]
  by (auto simp: FinalityTracker_is_finalized_def split: option.splits)

lemma check_finality_keeps:
  assumes "get_finality_info t h = Some info" and "fi_is_finalized info"
  shows "\<exists>i. get_finality_info (fst (check_finality now t block n)) h = Some i \<and> fi_is_finalized i \<and>
             fi_finalized_at i = fi_finalized_at info \<and> fi_signatures info |\<subseteq>| fi_signatures i"
proof (cases "h = Block_hash block")
  case True
  with assms check_finality_known [of t block info now n] show ?thesis
    by (auto simp: get_finality_info_def less_eq_fset.rep_eq)
next
  case False
  with assms check_finality_other [of h block now t n] show ?thesis
    by (auto simp: get_finality_info_def)
qed

lemma check_finality_highest_mono:
  "ft_highest_finalized_height t \<le> ft_highest_finalized_height (fst (check_finality now t block n))"
  by (simp add: check_finality_def Let_def less_imp_le)

text \<open>All calls that change a tracker.\<close>

datatype FinalityCall = CheckFinality Timestamp Block nat | PruneBelow BlockHeight | ClearFinality

fun finality_call :: "FinalityCall \<Rightarrow> FinalityTracker \<Rightarrow> FinalityTracker" where
  "finality_call (CheckFinality now block n) t = fst (check_finality now t block n)"
| "finality_call (PruneBelow min_height) t = prune_below_height t min_height"
| "finality_call ClearFinality t = FinalityTracker_clear t"

text \<open>The calls that drop what is known of the blocks of a height.\<close>

fun drops_height :: "BlockHeight \<Rightarrow> FinalityCall \<Rightarrow> bool" where
  "drops_height h (CheckFinality _ _ _) = False"
| "drops_height h (PruneBelow min_height) = (h < min_height)"
| "drops_height h ClearFinality = True"

lemma check_finality_height:
  "get_finality_info t h = Some info \<Longrightarrow> get_finality_info (fst (check_finality now t block n)) h = Some i \<Longrightarrow> fi_height i = fi_height info"
  by (auto simp: get_finality_info_def check_finality_def Let_def split: if_splits)

lemma finality_call_keeps:
  assumes "get_finality_info t h = Some info" and "fi_is_finalized info" and "\<not> drops_height (fi_height info) c"
  shows "\<exists>i. get_finality_info (finality_call c t) h = Some i \<and> fi_is_finalized i \<and> fi_height i = fi_height info \<and>
             fi_finalized_at i = fi_finalized_at info \<and> fi_signatures info |\<subseteq>| fi_signatures i"
proof (cases c)
  case (CheckFinality now block n)
  then show ?thesis using check_finality_keeps [OF assms(1,2), of now block n] check_finality_height [OF assms(1)] by fastforce
next
  case (PruneBelow m)
  then show ?thesis using assms by (simp add: get_finality_info_def prune_below_height_def hm_retain_def not_less)
qed (use assms(3) in simp)

lemma finality_call_drops:
  assumes "get_finality_info t h = Some info" and "drops_height (fi_height info) c"
  shows "get_finality_info (finality_call c t) h = None"
  using assms by (cases c) (simp_all add: get_finality_info_def prune_below_height_def FinalityTracker_clear_def hm_retain_def)

lemma count_partition: "finalized_count t + pending_count t = hm_len (ft_finality_map t)"
  unfolding finalized_count_def pending_count_def
  by (metis multiset_partition size_hm_values size_union)

section \<open>Properties\<close>

text \<open>
  The tracker's rule is exact. After any sequence of \<open>check_finality\<close> calls on a fresh tracker,
  with any threshold, the block with hash \<open>h\<close> is final exactly if it was checked at all and the
  distinct validators that signed any of the copies checked reach the number of signatures required.
\<close>

theorem finality_exact:
  "FinalityTracker_is_finalized (check_all n calls (FinalityTracker_new threshold)) h \<longleftrightarrow>
     h \<in> (Block_hash \<circ> snd) ` set calls \<and>
     calculate_required_signatures threshold n \<le> card (signers_seen h calls)"
  by (rule check_all_finalized)

text \<open>
  C34: Finality is irrevocable as long as nobody drops the record. Whatever blocks are checked, with whatever
  validator counts, and whatever is pruned below the height of a final block, the block stays final
  with the time it had and keeps its signers, and the highest final height does not fall. Pruning above
  its height and clearing the tracker are the calls that drop the block: after one of them nothing is
  known of it.
\<close>

theorem finality_irrevocable:
  assumes "get_finality_info t h = Some info" and "fi_is_finalized info"
    and "\<forall>c \<in> set calls. \<not> drops_height (fi_height info) c"
  shows "(\<exists>i. get_finality_info (fold finality_call calls t) h = Some i \<and> fi_is_finalized i \<and>
              fi_finalized_at i = fi_finalized_at info \<and> fi_signatures info |\<subseteq>| fi_signatures i) \<and>
         ft_highest_finalized_height t \<le> ft_highest_finalized_height (fold finality_call calls t) \<and>
         (\<forall>c. drops_height (fi_height info) c \<longrightarrow> get_finality_info (fold finality_call (calls @ [c]) t) h = None)"
  using assms
proof (induction calls arbitrary: t info)
  case (Cons call calls)
  obtain i where i: "get_finality_info (finality_call call t) h = Some i" "fi_is_finalized i" "fi_height i = fi_height info"
      "fi_finalized_at i = fi_finalized_at info" "fi_signatures info |\<subseteq>| fi_signatures i"
    using finality_call_keeps [OF Cons.prems(1,2)] Cons.prems(3) by auto
  have "ft_highest_finalized_height t \<le> ft_highest_finalized_height (finality_call call t)"
    using Cons.prems(3) check_finality_highest_mono by (cases call) (auto simp: prune_below_height_def)
  with Cons.IH [OF i(1,2)] i(3-5) Cons.prems(3) show ?case by (auto intro: order_trans)
qed (auto simp: finality_call_drops)

definition sample_signed :: "u8 list \<Rightarrow> Block" where
  "sample_signed keys = fold (\<lambda>k b. add_signature b (sample_key k) (Signature (bytes_fill k))) keys sample_genesis"

lemma sample_signed_hash [simp]: "Block_hash (sample_signed keys) = Block_hash sample_genesis"
proof -
  have "Block_hash (fold (\<lambda>k b. add_signature b (sample_key k) (Signature (bytes_fill k))) keys b) = Block_hash b" for b
    by (induction keys arbitrary: b) (simp_all add: add_signature_def Block_hash_def)
  then show ?thesis by (simp add: sample_signed_def)
qed

lemma sample_signed_signers [simp]: "block_signers (sample_signed keys) = sample_key ` set keys"
proof -
  have "block_signers (fold (\<lambda>k b. add_signature b (sample_key k) (Signature (bytes_fill k))) keys b) =
        block_signers b \<union> sample_key ` set keys" for b
    by (induction keys arbitrary: b) (auto simp: add_signature_def block_signers_def)
  then show ?thesis
    by (simp add: sample_signed_def block_signers_def Block_new_fields(6) [OF sample_genesis_new])
qed

lemma sample_signed_final:
  "FinalityTracker_is_finalized
     (check_all 1 [(now, sample_signed [1])] (FinalityTracker_new two_thirds_threshold)) (Block_hash sample_genesis)"
  using tracker.attainable [of 1] by (simp add: check_all_finalized signers_seen_def)

theorem finality_irrevocable_witness:
  "FinalityTracker_is_finalized
     (fold finality_call [CheckFinality 30 (sample_signed []) 9, PruneBelow 0]
        (check_all 1 [(20, sample_signed [1])] (FinalityTracker_new two_thirds_threshold))) (Block_hash sample_genesis)"
proof -
  let ?t = "check_all 1 [(20, sample_signed [1])] (FinalityTracker_new two_thirds_threshold)"
  obtain info where "get_finality_info ?t (Block_hash sample_genesis) = Some info" "fi_is_finalized info"
    using sample_signed_final [of 20]
    by (auto simp: FinalityTracker_is_finalized_def get_finality_info_def split: option.splits)
  from finality_irrevocable [OF this, of "[CheckFinality 30 (sample_signed []) 9, PruneBelow 0]"] show ?thesis
    by (auto simp: FinalityTracker_is_finalized_def get_finality_info_def)
qed

text \<open>
  The tests \<open>test_calculate_required_signatures\<close> and \<open>test_finality_achieved\<close> expect 2 signatures of 3 validators to do. The code
  asks for all three, since \<open>3 * 0.67\<close> is rounded up.
\<close>

lemma three_validators_all_sign: "calculate_required_signatures two_thirds_threshold 3 = 3"
  using required_supermajority [of 3] by simp

text \<open>
  C8: Quorum intersection under the default threshold 0.67. Let two nodes track finality of the blocks
  they see, over the same set \<open>V\<close> of at most \<open>2 ^ 53\<close> validators, every signature being one of a
  validator in \<open>V\<close>. Then any two blocks they hold final were signed by more than a third of \<open>V\<close> in
  common, in spite of the floating-point arithmetic: fewer than a third of faulty validators cannot
  make two conflicting blocks final. Sets of three validators are left out: the tests want two
  signatures of three to do, which would leave exactly a third in common, and the code asks for three.
\<close>

theorem finality_quorum_overlap:
  assumes "finite V" and "V \<noteq> {}" and "card V \<noteq> 3" and "card V \<le> 2 ^ 53"
    and "signers_seen h1 calls1 \<subseteq> V" and "signers_seen h2 calls2 \<subseteq> V"
    and "FinalityTracker_is_finalized (check_all (card V) calls1 (FinalityTracker_new two_thirds_threshold)) h1"
    and "FinalityTracker_is_finalized (check_all (card V) calls2 (FinalityTracker_new two_thirds_threshold)) h2"
  shows "card V < 3 * card (signers_seen h1 calls1 \<inter> signers_seen h2 calls2)"
  using assms(7,8) by (intro tracker.quorums_overlap [OF assms(1,2,4) assms(5) _ assms(6)])
    (simp_all add: check_all_finalized)

lemma sample_four_signed_final:
  "FinalityTracker_is_finalized
     (check_all 4 [(now, sample_signed [1, 2]), (now, sample_signed [3, 4])] (FinalityTracker_new two_thirds_threshold)) (Block_hash sample_genesis)"
proof -
  have "sample_key ` {1, 2, 3, 4} = {sample_key 1, sample_key 2, sample_key 3, sample_key 4}" by simp
  then have "card {sample_key 1, sample_key 2, sample_key 3, sample_key 4} = 4" by (simp add: sample_key_def)
  then show ?thesis using tracker.attainable [of 4] by (simp add: check_all_finalized signers_seen_def insert_commute)
qed

theorem finality_quorum_overlap_witness:
  "4 < 3 * card (signers_seen (Block_hash sample_genesis) [(20, sample_signed [1, 2]), (20, sample_signed [3, 4])] \<inter>
                 signers_seen (Block_hash sample_genesis) [(25, sample_signed [1, 2]), (25, sample_signed [3, 4])])"
proof -
  let ?V = "{sample_key 1, sample_key 2, sample_key 3, sample_key 4}"
  have V: "card ?V = 4" "finite ?V" "?V \<noteq> {}" by (simp_all add: sample_key_def)
  have seen: "signers_seen (Block_hash sample_genesis) [(now, sample_signed [1, 2]), (now, sample_signed [3, 4])] \<subseteq> ?V" for now
    by (auto simp: signers_seen_def)
  show ?thesis
    using finality_quorum_overlap [OF V(2,3) _ _ seen seen, of 20 25] sample_four_signed_final [of 20] sample_four_signed_final [of 25]
    by (simp add: V(1))
qed

end
