(* ===== verification/Config.thy ===== *)
theory Config
  imports Peer Finality
begin

text \<open>
  \<open>common/src/config.rs\<close> and \<open>node/src/config.rs\<close>: the settings of a node, their defaults, builder and
  validation. The TOML package and the file system are arguments, and so is the table behind
  \<open>to_lowercase\<close>. Validation is characterised; the names of node types survive printing and parsing.
\<close>

section \<open>common/src/config.rs\<close>

datatype ConsensusAlgorithm = ProofOfAuthorityAlgorithm | ProofOfStakeAlgorithm

datatype LogLevel = Trace | Debug | Info | Warn | Error

datatype LogFormat = Json | Pretty

record CommonNetworkConfig =
  cnc_listen_addr :: SocketAddr
  cnc_bootstrap_peers :: "SocketAddr list"
  cnc_max_peers :: nat
  cnc_connection_timeout :: u64
  cnc_enable_discovery :: bool
  cnc_network_id :: string

record CommonStorageConfig =
  csc_data_dir :: string
  csc_blockchain_db_path :: string
  csc_state_db_path :: string
  csc_enable_compression :: bool
  csc_cache_size_mb :: nat
  csc_enable_pruning :: bool
  csc_pruning_days :: u64

record ConsensusConfig =
  coc_algorithm :: ConsensusAlgorithm
  coc_block_time :: u64
  coc_min_validators :: nat
  coc_finality_threshold :: f64
  coc_is_validator :: bool
  coc_validator_key_path :: "string option"

record CommonRpcConfig =
  crc_enabled :: bool
  crc_listen_addr :: SocketAddr
  crc_enable_cors :: bool
  crc_cors_origins :: "string list"
  crc_request_timeout :: u64
  crc_max_request_size :: nat
  crc_rate_limit :: nat

record LoggingConfig =
  lgc_level :: LogLevel
  lgc_format :: LogFormat
  lgc_log_to_file :: bool
  lgc_log_file_path :: string
  lgc_log_to_console :: bool
  lgc_enable_metrics :: bool
  lgc_metrics_addr :: "SocketAddr option"

record CommonNodeConfig =
  cno_network :: CommonNetworkConfig
  cno_storage :: CommonStorageConfig
  cno_consensus :: ConsensusConfig
  cno_rpc :: CommonRpcConfig
  cno_logging :: LoggingConfig

record CommonGenesisConfig =
  cge_timestamp :: u64
  cge_validators :: "string list"
  cge_chain_id :: string
  cge_network_name :: string

text \<open>\<open>0.0.0.0\<close> and \<open>127.0.0.1\<close>\<close>

definition unspecified_ip :: "4 bytes" where
  "unspecified_ip = mk_bytes [0, 0, 0, 0]"

definition localhost_ip :: "4 bytes" where
  "localhost_ip = mk_bytes [127, 0, 0, 1]"

definition CommonNetworkConfig_default :: CommonNetworkConfig where
  "CommonNetworkConfig_default =
     \<lparr>cnc_listen_addr = V4 unspecified_ip 9000, cnc_bootstrap_peers = [], cnc_max_peers = 50,
      cnc_connection_timeout = 30, cnc_enable_discovery = True, cnc_network_id = ''voting-mainnet''\<rparr>"

definition CommonStorageConfig_default :: CommonStorageConfig where
  "CommonStorageConfig_default =
     \<lparr>csc_data_dir = ''./data'', csc_blockchain_db_path = ''./data/blockchain'', csc_state_db_path = ''./data/state'',
      csc_enable_compression = True, csc_cache_size_mb = 128, csc_enable_pruning = False, csc_pruning_days = 365\<rparr>"

definition ConsensusConfig_default :: ConsensusConfig where
  "ConsensusConfig_default =
     \<lparr>coc_algorithm = ProofOfAuthorityAlgorithm, coc_block_time = 5, coc_min_validators = 3,
      coc_finality_threshold = f64_lit (67 / 100), coc_is_validator = False, coc_validator_key_path = None\<rparr>"

definition CommonRpcConfig_default :: CommonRpcConfig where
  "CommonRpcConfig_default =
     \<lparr>crc_enabled = True, crc_listen_addr = V4 localhost_ip 8545, crc_enable_cors = True, crc_cors_origins = [''*''],
      crc_request_timeout = 30, crc_max_request_size = 10 * 1024 * 1024, crc_rate_limit = 100\<rparr>"

definition LoggingConfig_default :: LoggingConfig where
  "LoggingConfig_default =
     \<lparr>lgc_level = Info, lgc_format = Pretty, lgc_log_to_file = True, lgc_log_file_path = ''./data/logs/node.log'',
      lgc_log_to_console = True, lgc_enable_metrics = True, lgc_metrics_addr = Some (V4 localhost_ip 9090)\<rparr>"

definition CommonNodeConfig_default :: CommonNodeConfig where
  "CommonNodeConfig_default =
     \<lparr>cno_network = CommonNetworkConfig_default, cno_storage = CommonStorageConfig_default,
      cno_consensus = ConsensusConfig_default, cno_rpc = CommonRpcConfig_default, cno_logging = LoggingConfig_default\<rparr>"

definition CommonGenesisConfig_default :: CommonGenesisConfig where
  "CommonGenesisConfig_default =
     \<lparr>cge_timestamp = 0, cge_validators = [], cge_chain_id = ''voting-chain-1'', cge_network_name = ''Voting Network Mainnet''\<rparr>"

definition config_from_file ::
  "(string \<Rightarrow> (string, string) result) \<Rightarrow> (string \<Rightarrow> (CommonNodeConfig, string) result) \<Rightarrow> string \<Rightarrow> (CommonNodeConfig, string) result" where
  "config_from_file read_to_string toml_from_str path =
     rbind (read_to_string path) (\<lambda>contents. rbind (toml_from_str contents) (\<lambda>config. Ok config))"

definition config_to_file ::
  "(CommonNodeConfig \<Rightarrow> (string, string) result) \<Rightarrow> (string \<Rightarrow> string \<Rightarrow> (unit, string) result) \<Rightarrow> CommonNodeConfig \<Rightarrow> string \<Rightarrow>
   (unit, string) result" where
  "config_to_file toml_to_string fs_write config path =
     rbind (toml_to_string config) (\<lambda>contents. rbind (fs_write path contents) (\<lambda>_. Ok ()))"

fun LogLevel_display :: "LogLevel \<Rightarrow> string" where
  "LogLevel_display Trace = ''trace''"
| "LogLevel_display Debug = ''debug''"
| "LogLevel_display Info = ''info''"
| "LogLevel_display Warn = ''warn''"
| "LogLevel_display Error = ''error''"

section \<open>node/src/config.rs\<close>

datatype NodeType = ValidatorType | FullType | LightType

fun NodeType_display :: "NodeType \<Rightarrow> string" where
  "NodeType_display ValidatorType = ''validator''"
| "NodeType_display FullType = ''full''"
| "NodeType_display LightType = ''light''"

definition NodeType_from_str :: "(string \<Rightarrow> string) \<Rightarrow> string \<Rightarrow> (NodeType, string) result" where
  "NodeType_from_str to_lowercase s =
     (let l = to_lowercase s in
      if l = ''validator'' then Ok ValidatorType
      else if l = ''full'' then Ok FullType
      else if l = ''light'' then Ok LightType
      else Err (''Unknown node type: '' @ s))"

record NodeConfig =
  ncf_node_type :: NodeType
  ncf_network :: CommonNetworkConfig
  ncf_storage :: CommonStorageConfig
  ncf_consensus :: ConsensusConfig
  ncf_genesis_path :: "string option"
  ncf_validator_key_path :: "string option"
  ncf_data_dir :: string
  ncf_enable_metrics :: bool
  ncf_metrics_addr :: "string option"
  ncf_enable_rpc :: bool
  ncf_rpc_addr :: "string option"
  ncf_log_level :: string
  ncf_log_to_file :: bool
  ncf_log_file_path :: "string option"

definition NodeConfig_default :: NodeConfig where
  "NodeConfig_default =
     \<lparr>ncf_node_type = FullType, ncf_network = CommonNetworkConfig_default, ncf_storage = CommonStorageConfig_default,
      ncf_consensus = ConsensusConfig_default, ncf_genesis_path = None, ncf_validator_key_path = None,
      ncf_data_dir = ''./data'', ncf_enable_metrics = True, ncf_metrics_addr = Some ''127.0.0.1:9090'',
      ncf_enable_rpc = True, ncf_rpc_addr = Some ''127.0.0.1:8545'', ncf_log_level = ''info'', ncf_log_to_file = False,
      ncf_log_file_path = None\<rparr>"

definition NodeConfig_validator :: NodeConfig where
  "NodeConfig_validator = NodeConfig_default\<lparr>ncf_node_type := ValidatorType\<rparr>"

definition NodeConfig_full_node :: NodeConfig where
  "NodeConfig_full_node = NodeConfig_default\<lparr>ncf_node_type := FullType\<rparr>"

definition NodeConfig_light_node :: NodeConfig where
  "NodeConfig_light_node =
     (let config = NodeConfig_default\<lparr>ncf_node_type := LightType\<rparr>
      in config\<lparr>ncf_storage := (ncf_storage config)\<lparr>csc_enable_pruning := True\<rparr>\<rparr>)"

definition with_data_dir :: "string \<Rightarrow> NodeConfig \<Rightarrow> NodeConfig" where
  "with_data_dir path c = c\<lparr>ncf_data_dir := path\<rparr>"

definition with_genesis :: "string \<Rightarrow> NodeConfig \<Rightarrow> NodeConfig" where
  "with_genesis path c = c\<lparr>ncf_genesis_path := Some path\<rparr>"

definition with_validator_key :: "string \<Rightarrow> NodeConfig \<Rightarrow> NodeConfig" where
  "with_validator_key path c = c\<lparr>ncf_validator_key_path := Some path\<rparr>"

definition with_metrics :: "bool \<Rightarrow> NodeConfig \<Rightarrow> NodeConfig" where
  "with_metrics enable c = c\<lparr>ncf_enable_metrics := enable\<rparr>"

definition with_rpc :: "bool \<Rightarrow> NodeConfig \<Rightarrow> NodeConfig" where
  "with_rpc enable c = c\<lparr>ncf_enable_rpc := enable\<rparr>"

definition with_log_level :: "string \<Rightarrow> NodeConfig \<Rightarrow> NodeConfig" where
  "with_log_level level c = c\<lparr>ncf_log_level := level\<rparr>"

definition NodeConfig_validate :: "NodeConfig \<Rightarrow> (unit, string) result" where
  "NodeConfig_validate c =
     (if ncf_node_type c = ValidatorType \<and> ncf_validator_key_path c = None
      then Err ''Validator nodes require a validator_key_path''
      else if ncf_genesis_path c = None then Err ''genesis_path is required''
      else if \<not> List.member [''trace'', ''debug'', ''info'', ''warn'', ''error''] (ncf_log_level c)
      then Err (''Invalid log level: '' @ ncf_log_level c)
      else Ok ())"

section \<open>The builder\<close>

record NodeConfigBuilder =
  ncb_config :: NodeConfig

definition NodeConfigBuilder_new :: "NodeType \<Rightarrow> NodeConfigBuilder" where
  "NodeConfigBuilder_new node_type =
     \<lparr>ncb_config = (case node_type of ValidatorType \<Rightarrow> NodeConfig_validator | FullType \<Rightarrow> NodeConfig_full_node
                       | LightType \<Rightarrow> NodeConfig_light_node)\<rparr>"

definition ncb_data_dir :: "string \<Rightarrow> NodeConfigBuilder \<Rightarrow> NodeConfigBuilder" where
  "ncb_data_dir path b = b\<lparr>ncb_config := (ncb_config b)\<lparr>ncf_data_dir := path\<rparr>\<rparr>"

definition ncb_genesis :: "string \<Rightarrow> NodeConfigBuilder \<Rightarrow> NodeConfigBuilder" where
  "ncb_genesis path b = b\<lparr>ncb_config := (ncb_config b)\<lparr>ncf_genesis_path := Some path\<rparr>\<rparr>"

definition ncb_validator_key :: "string \<Rightarrow> NodeConfigBuilder \<Rightarrow> NodeConfigBuilder" where
  "ncb_validator_key path b = b\<lparr>ncb_config := (ncb_config b)\<lparr>ncf_validator_key_path := Some path\<rparr>\<rparr>"

definition ncb_network :: "CommonNetworkConfig \<Rightarrow> NodeConfigBuilder \<Rightarrow> NodeConfigBuilder" where
  "ncb_network network b = b\<lparr>ncb_config := (ncb_config b)\<lparr>ncf_network := network\<rparr>\<rparr>"

definition ncb_storage :: "CommonStorageConfig \<Rightarrow> NodeConfigBuilder \<Rightarrow> NodeConfigBuilder" where
  "ncb_storage storage b = b\<lparr>ncb_config := (ncb_config b)\<lparr>ncf_storage := storage\<rparr>\<rparr>"

definition ncb_consensus :: "ConsensusConfig \<Rightarrow> NodeConfigBuilder \<Rightarrow> NodeConfigBuilder" where
  "ncb_consensus consensus b = b\<lparr>ncb_config := (ncb_config b)\<lparr>ncf_consensus := consensus\<rparr>\<rparr>"

definition ncb_metrics :: "bool \<Rightarrow> NodeConfigBuilder \<Rightarrow> NodeConfigBuilder" where
  "ncb_metrics enable b = b\<lparr>ncb_config := (ncb_config b)\<lparr>ncf_enable_metrics := enable\<rparr>\<rparr>"

definition ncb_metrics_addr :: "string \<Rightarrow> NodeConfigBuilder \<Rightarrow> NodeConfigBuilder" where
  "ncb_metrics_addr addr b = b\<lparr>ncb_config := (ncb_config b)\<lparr>ncf_metrics_addr := Some addr\<rparr>\<rparr>"

definition ncb_rpc :: "bool \<Rightarrow> NodeConfigBuilder \<Rightarrow> NodeConfigBuilder" where
  "ncb_rpc enable b = b\<lparr>ncb_config := (ncb_config b)\<lparr>ncf_enable_rpc := enable\<rparr>\<rparr>"

definition ncb_rpc_addr :: "string \<Rightarrow> NodeConfigBuilder \<Rightarrow> NodeConfigBuilder" where
  "ncb_rpc_addr addr b = b\<lparr>ncb_config := (ncb_config b)\<lparr>ncf_rpc_addr := Some addr\<rparr>\<rparr>"

definition ncb_log_level :: "string \<Rightarrow> NodeConfigBuilder \<Rightarrow> NodeConfigBuilder" where
  "ncb_log_level level b = b\<lparr>ncb_config := (ncb_config b)\<lparr>ncf_log_level := level\<rparr>\<rparr>"

definition ncb_build :: "NodeConfigBuilder \<Rightarrow> (NodeConfig, string) result" where
  "ncb_build b = rbind (NodeConfig_validate (ncb_config b)) (\<lambda>_. Ok (ncb_config b))"

section \<open>Facts\<close>

lemma NodeType_roundtrip:
  "to_lowercase (NodeType_display t) = NodeType_display t \<Longrightarrow> NodeType_from_str to_lowercase (NodeType_display t) = Ok t"
  by (cases t) (simp_all add: NodeType_from_str_def Let_def)

text \<open>A configuration that the builder returns is complete: a genesis, a key for a validator, a known log level.\<close>

lemma ncb_build_Ok:
  "ncb_build b = Ok c \<longleftrightarrow>
     c = ncb_config b \<and> ncf_genesis_path c \<noteq> None \<and>
     (ncf_node_type c = ValidatorType \<longrightarrow> ncf_validator_key_path c \<noteq> None) \<and>
     (\<exists>level. ncf_log_level c = LogLevel_display level)"
proof -
  have "List.member [''trace'', ''debug'', ''info'', ''warn'', ''error''] s \<longleftrightarrow> (\<exists>level. s = LogLevel_display level)" for s
  proof
    assume "List.member [''trace'', ''debug'', ''info'', ''warn'', ''error''] s"
    then have "s = LogLevel_display Trace \<or> s = LogLevel_display Debug \<or> s = LogLevel_display Info \<or>
        s = LogLevel_display Warn \<or> s = LogLevel_display Error"
      by auto
    then show "\<exists>level. s = LogLevel_display level" by blast
  next
    assume "\<exists>level. s = LogLevel_display level"
    then obtain level where "s = LogLevel_display level" ..
    then show "List.member [''trace'', ''debug'', ''info'', ''warn'', ''error''] s" by (cases level) simp_all
  qed
  then show ?thesis by (auto simp: ncb_build_def NodeConfig_validate_def outcome_simps)
qed

text \<open>Configurations fresh from the three presets are refused until a genesis is set.\<close>

lemma presets_need_genesis: "is_err (ncb_build (NodeConfigBuilder_new t))"
  by (cases t) (simp_all add: ncb_build_def NodeConfigBuilder_new_def NodeConfig_validate_def NodeConfig_validator_def
      NodeConfig_full_node_def NodeConfig_light_node_def NodeConfig_default_def Let_def)

end
