(* ===== verification/Proof_Of_Authority.thy ===== *)
theory Proof_Of_Authority
  imports Finality
begin

text \<open>
  \<open>blockchain-core/src/consensus/proof_of_authority.rs\<close>: round-robin block production. The producer
  of a height is found in the list of validators sorted by their bytes. The clock that
  \<open>can_produce_block\<close> and \<open>get_current_validator\<close> read is an argument. A time slot divides by
  the block time, so a block time of zero panics.
\<close>

section \<open>Data\<close>

record ProofOfAuthority =
  poa_validator_set :: ValidatorSet
  poa_block_time :: u64
  poa_current_round :: u64

section \<open>Operations\<close>

definition ProofOfAuthority_new :: "ValidatorSet \<Rightarrow> ProofOfAuthority" where
  "ProofOfAuthority_new validator_set =
     \<lparr>poa_validator_set = validator_set, poa_block_time = 5, poa_current_round = 0\<rparr>"

definition with_block_time :: "ValidatorSet \<Rightarrow> u64 \<Rightarrow> ProofOfAuthority" where
  "with_block_time validator_set block_time =
     \<lparr>poa_validator_set = validator_set, poa_block_time = block_time, poa_current_round = 0\<rparr>"

definition get_block_producer :: "ProofOfAuthority \<Rightarrow> u64 \<Rightarrow> PublicKey outcome" where
  "get_block_producer p block_height =
     (if validator_count (poa_validator_set p) = 0
      then Err (ConsensusError ''No validators available'')
      else
        let validators = vset_validators (poa_validator_set p);
            sorted_validators = sort validators;
            validator_index = unat block_height mod length sorted_validators
        in vec_index sorted_validators validator_index)"

text \<open>\<open>a / b\<close> on \<open>u64\<close>\<close>

definition checked_div :: "u64 \<Rightarrow> u64 \<Rightarrow> u64 outcome" where
  "checked_div a b = (if b = 0 then Panic ''attempt to divide by zero'' else Ok (a div b))"

definition get_validator_at_time :: "ProofOfAuthority \<Rightarrow> Timestamp \<Rightarrow> PublicKey outcome" where
  "get_validator_at_time p timestamp =
     (if validator_count (poa_validator_set p) = 0
      then Err (ConsensusError ''No validators available'')
      else rbind (checked_div timestamp (poa_block_time p)) (\<lambda>round.
        let validators = vset_validators (poa_validator_set p);
            sorted_validators = sort validators;
            validator_index = unat round mod length sorted_validators
        in vec_index sorted_validators validator_index))"

definition is_validator_turn_by_height :: "ProofOfAuthority \<Rightarrow> PublicKey \<Rightarrow> u64 \<Rightarrow> bool outcome" where
  "is_validator_turn_by_height p validator block_height =
     rbind (get_block_producer p block_height) (\<lambda>expected_validator. Ok (expected_validator = validator))"

definition is_validator_turn :: "ProofOfAuthority \<Rightarrow> PublicKey \<Rightarrow> Timestamp \<Rightarrow> bool outcome" where
  "is_validator_turn p validator timestamp =
     rbind (get_validator_at_time p timestamp) (\<lambda>expected_validator. Ok (expected_validator = validator))"

definition get_validator_time_slot :: "ProofOfAuthority \<Rightarrow> Timestamp \<Rightarrow> (Timestamp \<times> Timestamp) outcome" where
  "get_validator_time_slot p timestamp =
     rbind (checked_div timestamp (poa_block_time p)) (\<lambda>round.
       let slot_start = round * poa_block_time p;
           slot_end = slot_start + poa_block_time p
       in Ok (slot_start, slot_end))"

definition validate_block_timing :: "ProofOfAuthority \<Rightarrow> Block \<Rightarrow> unit outcome" where
  "validate_block_timing p block =
     rbind (get_validator_time_slot p (Block_timestamp block)) (\<lambda>(slot_start, slot_end).
       if Block_timestamp block < slot_start \<or> slot_end \<le> Block_timestamp block
       then Err (ConsensusError (''Block timestamp '' @ show_nat (unat (Block_timestamp block))
              @ '' is outside validator time slot ['' @ show_nat (unat slot_start) @ '', ''
              @ show_nat (unat slot_end) @ '')''))
       else Ok ())"

definition poa_validate_block :: "'z externals_scheme \<Rightarrow> ProofOfAuthority \<Rightarrow> Block \<Rightarrow> unit outcome" where
  "poa_validate_block E p block =
     (let validator = hdr_validator (blk_header block); height = hdr_height (blk_header block) in
      if \<not> is_validator (poa_validator_set p) validator
      then Err (InvalidValidator (''Validator '' @ PublicKey_to_hex E validator @ '' is not authorized''))
      else rbind (is_validator_turn_by_height p validator height) (\<lambda>turn.
        if \<not> turn then
          rbind (get_block_producer p height) (\<lambda>expected.
            Err (ConsensusError (''Wrong validator turn. Expected '' @ PublicKey_to_hex E expected
                 @ '', got '' @ PublicKey_to_hex E validator)))
        else rbind (validate_block_timing p block) (\<lambda>_. Ok ())))"

definition poa_can_produce_block :: "Timestamp \<Rightarrow> ProofOfAuthority \<Rightarrow> PublicKey \<Rightarrow> bool outcome" where
  "poa_can_produce_block current_time p validator =
     (if \<not> is_validator (poa_validator_set p) validator then Ok False
      else is_validator_turn p validator current_time)"

definition poa_get_current_validator :: "Timestamp \<Rightarrow> ProofOfAuthority \<Rightarrow> PublicKey outcome" where
  "poa_get_current_validator current_time p = get_validator_at_time p current_time"

definition poa_required_signatures :: "ProofOfAuthority \<Rightarrow> nat" where
  "poa_required_signatures p =
     (let count = validator_count (poa_validator_set p) in ((count * 2) div 3) + 1)"

definition poa_is_finalized :: "ProofOfAuthority \<Rightarrow> Block \<Rightarrow> bool" where
  "poa_is_finalized p block =
     (let required = poa_required_signatures p in required \<le> signature_count block)"

section \<open>Facts\<close>

text \<open>The validators of the mechanism, in the order of their bytes.\<close>

abbreviation turn_order :: "ProofOfAuthority \<Rightarrow> PublicKey list" where
  "turn_order p \<equiv> sort (vset_validators (poa_validator_set p))"

lemma get_block_producer_eq:
  assumes "vset_validators (poa_validator_set p) \<noteq> []"
  shows "get_block_producer p h = Ok (turn_order p ! (unat h mod length (turn_order p)))"
  using assms by (simp add: get_block_producer_def validator_count_def Let_def)

lemma get_block_producer_empty:
  "vset_validators (poa_validator_set p) = [] \<Longrightarrow>
   get_block_producer p h = Err (ConsensusError ''No validators available'')"
  by (simp add: get_block_producer_def validator_count_def)

lemma get_block_producer_member:
  assumes "get_block_producer p h = Ok v"
  shows "v \<in> set (vset_validators (poa_validator_set p))"
proof (cases "vset_validators (poa_validator_set p) = []")
  case False
  then have "unat h mod length (turn_order p) < length (turn_order p)" by simp
  then have "turn_order p ! (unat h mod length (turn_order p)) \<in> set (turn_order p)" by (rule nth_mem)
  with assms False show ?thesis by (simp add: get_block_producer_eq)
qed (use assms in \<open>simp add: get_block_producer_empty\<close>)

lemma sort_cong_mset: "mset xs = mset ys \<Longrightarrow> sort xs = sort (ys :: 'a::linorder list)"
  by (metis properties_for_sort sorted_sort mset_sort)

text \<open>Among \<open>n\<close> consecutive numbers exactly one has a given residue.\<close>

lemma unique_residue:
  assumes "j < (n :: nat)"
  shows "\<exists>!k. k < n \<and> (h + k) mod n = j"
proof -
  have "h mod n < n" using assms by simp
  then obtain c where c: "h mod n + c = n" by (metis less_imp_add_positive)
  show ?thesis
  proof (rule ex1I [of _ "(j + c) mod n"])
    have "(h + (j + c) mod n) mod n = (h mod n + (j + c)) mod n" by (simp add: mod_simps)
    also have "h mod n + (j + c) = j + n" using c by simp
    finally show "(j + c) mod n < n \<and> (h + (j + c) mod n) mod n = j" using assms by simp
  next
    fix k assume k: "k < n \<and> (h + k) mod n = j"
    then have "(j + c) mod n = ((h + k) mod n + c) mod n" by simp
    also have "\<dots> = (h mod n + (k + c)) mod n" by (simp add: mod_simps add.assoc)
    also have "h mod n + (k + c) = k + n" using c by simp
    finally show "k = (j + c) mod n" using k by simp
  qed
qed

text \<open>The slot of a timestamp is computed from that timestamp, so it contains it.\<close>

lemma validate_block_timing_vacuous:
  assumes "poa_block_time p \<noteq> 0"
    and "unat (Block_timestamp b) + unat (poa_block_time p) < 2 ^ 64"
  shows "validate_block_timing p b = Ok ()"
proof -
  let ?t = "Block_timestamp b" and ?d = "poa_block_time p"
  have pos: "0 < unat ?d" using assms(1) by (simp add: unat_gt_0)
  have le: "unat ?t div unat ?d * unat ?d \<le> unat ?t" by simp
  then have small: "unat ?t div unat ?d * unat ?d < 2 ^ 64"
    using assms(2) by (meson add_lessD1 le_less_trans)
  have start: "unat (?t div ?d * ?d) = unat ?t div unat ?d * unat ?d"
    using small by (subst unat_mult_lem [THEN iffD1]) (simp_all add: unat_div_distrib)
  have stop: "unat (?t div ?d * ?d + ?d) = unat ?t div unat ?d * unat ?d + unat ?d"
    using le_less_trans [OF add_right_mono [OF le] assms(2)]
    by (subst unat_add_lem [THEN iffD1]) (simp_all add: start)
  have "unat ?t < unat ?t div unat ?d * unat ?d + unat ?d"
    using pos by (simp add: dividend_less_div_times add.commute)
  with le show ?thesis
    using assms(1)
    by (simp add: validate_block_timing_def get_validator_time_slot_def checked_div_def Let_def
        word_less_nat_alt word_le_nat_alt start stop not_less)
qed

lemma zero_block_time_panics:
  assumes "poa_block_time p = 0"
    and "get_block_producer p (Block_height b) = Ok (hdr_validator (blk_header b))"
    and "is_validator (poa_validator_set p) (hdr_validator (blk_header b))"
  shows "poa_validate_block E p b = Panic ''attempt to divide by zero''"
  using assms
  by (simp add: poa_validate_block_def is_validator_turn_by_height_def validate_block_timing_def
      get_validator_time_slot_def checked_div_def Block_height_def Let_def)

interpretation poa: supermajority "\<lambda>count. (count * 2) div 3 + 1" limit for limit
  by unfold_locales presburger+

text \<open>Signatures are counted with repetition: one validator alone can make a block final.\<close>

lemma repeated_signature_finalizes:
  "poa_is_finalized p (((\<lambda>b. add_signature b v s) ^^ poa_required_signatures p) b)"
proof -
  have "signature_count (((\<lambda>b. add_signature b v s) ^^ n) b) = n + signature_count b" for n
    by (induction n) (simp_all add: signature_count_add_signature)
  then show ?thesis by (simp add: poa_is_finalized_def Let_def)
qed

section \<open>Properties\<close>

text \<open>
  Nodes agree on the producer. Two nodes that hold the same validators, in whatever order they
  were added, compute the same producer, or the same error, for every height.
\<close>

theorem producer_agreement:
  assumes "mset (vset_validators (poa_validator_set p)) = mset (vset_validators (poa_validator_set q))"
  shows "get_block_producer p h = get_block_producer q h"
proof -
  have "turn_order p = turn_order q" using assms by (rule sort_cong_mset)
  moreover have "length (vset_validators (poa_validator_set p)) = length (vset_validators (poa_validator_set q))"
    using assms by (rule mset_eq_length)
  ultimately show ?thesis by (simp add: get_block_producer_def validator_count_def Let_def)
qed

theorem producer_agreement_witness:
  "get_block_producer (ProofOfAuthority_new (ValidatorSet_new 0 [sample_key 2, sample_key 1])) 7 =
   get_block_producer (ProofOfAuthority_new (ValidatorSet_new 9 [sample_key 1, sample_key 2])) 7"
  by (rule producer_agreement) (simp add: ProofOfAuthority_new_def ValidatorSet_new_fields)

text \<open>
  C32: Turns are fair. With \<open>n\<close> distinct validators, every validator produces exactly one of any \<open>n\<close>
  consecutive blocks.
\<close>

theorem round_robin_fair:
  assumes "distinct (vset_validators (poa_validator_set p))"
    and "v \<in> set (vset_validators (poa_validator_set p))"
    and "n = validator_count (poa_validator_set p)"
    and "unat h + n \<le> 2 ^ 64"
  shows "\<exists>!k. k < n \<and> get_block_producer p (h + of_nat k) = Ok v"
proof -
  have ne: "vset_validators (poa_validator_set p) \<noteq> []" using assms(2) by auto
  have n: "length (turn_order p) = n" using assms(3) by (simp add: validator_count_def)
  obtain j where j: "j < n" "turn_order p ! j = v"
    using assms(2) n by (metis in_set_conv_nth set_sort)
  have dist: "distinct (turn_order p)" using assms(1) by simp
  have "get_block_producer p (h + of_nat k) = Ok v \<longleftrightarrow> (unat h + k) mod n = j" if "k < n" for k
  proof -
    have "unat (of_nat k :: u64) = k" using that assms(4) by (simp add: unat_of_nat)
    then have "unat (h + of_nat k) = unat h + k"
      using that assms(4) by (subst unat_add_lem [THEN iffD1]) simp_all
    then show ?thesis
      using j n nth_eq_iff_index_eq [OF dist, of "(unat h + k) mod n" j]
      by (auto simp: get_block_producer_eq [OF ne])
  qed
  with unique_residue [OF j(1), of "unat h"] show ?thesis by (metis (no_types, lifting))
qed

theorem round_robin_fair_witness:
  "\<exists>!k. k < 2 \<and> get_block_producer (ProofOfAuthority_new (ValidatorSet_new 0 [sample_key 2, sample_key 1]))
      (7 + of_nat k) = Ok (sample_key 2)"
  by (rule round_robin_fair)
     (simp_all add: ProofOfAuthority_new_def ValidatorSet_new_fields validator_count_def)

text \<open>
  Consensus validation accepts exactly the blocks of the producer of their height: over a
  well-formed validator set, with a positive block time and a timestamp far enough from \<open>2 ^ 64\<close>,
  \<open>validate_block\<close> returns \<open>Ok\<close> if and only if the block's validator is the producer of its
  height. The timestamp plays no part: the timing check compares it with a slot computed from the
  timestamp itself.
\<close>

theorem poa_validate_block_iff:
  assumes "vset_wf (poa_validator_set p)" and "poa_block_time p \<noteq> 0"
    and "unat (Block_timestamp b) + unat (poa_block_time p) < 2 ^ 64"
  shows "poa_validate_block E p b = Ok () \<longleftrightarrow>
         get_block_producer p (Block_height b) = Ok (hdr_validator (blk_header b))"
  using get_block_producer_member [of p "Block_height b" "hdr_validator (blk_header b)"]
    vset_wf_is_validator(1) [OF assms(1)] validate_block_timing_vacuous [OF assms(2,3)]
  by (auto simp: poa_validate_block_def is_validator_turn_by_height_def Block_height_def Let_def outcome_simps)

lemma sample_poa_fields:
  "vset_wf (poa_validator_set (ProofOfAuthority_new (ValidatorSet_new t ks)))"
  "poa_block_time (ProofOfAuthority_new s) = 5"
  "vset_validators (poa_validator_set (ProofOfAuthority_new (ValidatorSet_new t ks))) = ks"
  by (simp_all add: ProofOfAuthority_new_def vset_wf_new ValidatorSet_new_fields)

theorem poa_validate_block_iff_witness:
  "poa_validate_block sample_env (ProofOfAuthority_new (ValidatorSet_new 0 [sample_key 1])) sample_genesis = Ok ()"
  using poa_validate_block_iff [OF sample_poa_fields(1) [of 0 "[sample_key 1]"], of sample_genesis sample_env]
    Block_new_fields(1,2,5) [OF sample_genesis_new]
  by (simp add: sample_poa_fields get_block_producer_eq sample_key_def)

text \<open>
  Quorum intersection for proof of authority: if two blocks are final for a mechanism and each
  carries at most one signature per validator, all of them validators of the set, then more than a
  third of the validators signed both.
\<close>

theorem poa_quorum_overlap:
  assumes "distinct (vset_validators (poa_validator_set p))"
    and "vset_validators (poa_validator_set p) \<noteq> []"
    and "poa_is_finalized p a" and "distinct (map vs_validator (blk_signatures a))"
    and "block_signers a \<subseteq> set (vset_validators (poa_validator_set p))"
    and "poa_is_finalized p b" and "distinct (map vs_validator (blk_signatures b))"
    and "block_signers b \<subseteq> set (vset_validators (poa_validator_set p))"
  shows "validator_count (poa_validator_set p) < 3 * card (block_signers a \<inter> block_signers b)"
proof -
  let ?V = "set (vset_validators (poa_validator_set p))"
  have V: "card ?V = validator_count (poa_validator_set p)"
    using assms(1) by (simp add: validator_count_def distinct_card)
  have "signature_count x = card (block_signers x)" if "distinct (map vs_validator (blk_signatures x))" for x
    using distinct_card [OF that] by (simp add: signature_count_def block_signers_def)
  then have "card ?V * 2 div 3 + 1 \<le> card (block_signers a)" "card ?V * 2 div 3 + 1 \<le> card (block_signers b)"
    using assms(3,4,6,7) by (simp_all add: poa_is_finalized_def poa_required_signatures_def Let_def V)
  then have "card ?V < 3 * card (block_signers a \<inter> block_signers b)"
    using assms(2,5,8) by (intro poa.quorums_overlap [where limit = "card ?V"]) simp_all
  with V show ?thesis by simp
qed

theorem poa_quorum_overlap_witness:
  "1 < 3 * card (block_signers (sample_signed [1]) \<inter> block_signers (sample_signed [1]))"
proof -
  let ?p = "ProofOfAuthority_new (ValidatorSet_new 0 [sample_key 1])"
  have sigs: "map vs_validator (blk_signatures (sample_signed [1])) = [sample_key 1]"
    using Block_new_fields(6) [OF sample_genesis_new] by (simp add: sample_signed_def add_signature_def)
  moreover have "signature_count (sample_signed [1]) = 1"
    using arg_cong [OF sigs, of length] by (simp add: signature_count_def)
  ultimately show ?thesis
    using poa_quorum_overlap [of ?p "sample_signed [1]" "sample_signed [1]"]
    by (simp add: sample_poa_fields poa_is_finalized_def poa_required_signatures_def validator_count_def Let_def)
qed

end
