(* ===== verification/Database.thy ===== *)
theory Database
  imports Common_Types
begin

text \<open>
  \<open>storage/src/database.rs\<close>: the trait \<open>Database\<close>, a record of its methods, and its in-memory
  implementation. The contract of the trait is the locale \<open>key_value_database\<close>: a method that succeeds
  does what it would do to a map. The other backends are in \<open>Backends\<close>.

  The order in which a hash map is walked is the argument \<open>iteration\<close>.
\<close>

section \<open>The trait\<close>

type_synonym db_key = "u8 list"
type_synonym db_value = "u8 list"

datatype WriteOperation = Put (wo_key: db_key) (wo_value: db_value) | Delete (wo_key: db_key)

record DatabaseStats =
  dst_total_keys :: u64
  dst_total_size :: u64
  dst_read_count :: u64
  dst_write_count :: u64
  dst_delete_count :: u64

record 'd Database =
  db_get :: "'d \<Rightarrow> db_key \<Rightarrow> 'd \<times> db_value option outcome"
  db_put :: "'d \<Rightarrow> db_key \<Rightarrow> db_value \<Rightarrow> 'd \<times> unit outcome"
  db_delete :: "'d \<Rightarrow> db_key \<Rightarrow> 'd \<times> unit outcome"
  db_contains :: "'d \<Rightarrow> db_key \<Rightarrow> bool outcome"
  db_iter_prefix :: "'d \<Rightarrow> db_key \<Rightarrow> (db_key \<times> db_value) list outcome"
  db_keys_with_prefix :: "'d \<Rightarrow> db_key \<Rightarrow> db_key list outcome"
  db_write_batch :: "'d \<Rightarrow> WriteOperation list \<Rightarrow> 'd \<times> unit outcome"
  db_flush :: "'d \<Rightarrow> unit outcome"
  db_compact :: "'d \<Rightarrow> unit outcome"
  db_size :: "'d \<Rightarrow> u64"
  db_stats :: "'d \<Rightarrow> DatabaseStats"

text \<open>\<open>k.starts_with(p)\<close>\<close>

definition starts_with :: "'a list \<Rightarrow> 'a list \<Rightarrow> bool" where
  "starts_with k p \<longleftrightarrow> length p \<le> length k \<and> take (length p) k = p"

section \<open>The in-memory database\<close>

record MemoryDatabase =
  md_data :: "(db_key, db_value) hashmap"
  md_stats :: DatabaseStats

definition DatabaseStats_default :: DatabaseStats where
  "DatabaseStats_default =
     \<lparr>dst_total_keys = 0, dst_total_size = 0, dst_read_count = 0, dst_write_count = 0, dst_delete_count = 0\<rparr>"

definition MemoryDatabase_new :: MemoryDatabase where
  "MemoryDatabase_new = \<lparr>md_data = fmempty, md_stats = DatabaseStats_default\<rparr>"

definition mem_get :: "MemoryDatabase \<Rightarrow> db_key \<Rightarrow> MemoryDatabase \<times> db_value option outcome" where
  "mem_get d k =
     (d\<lparr>md_stats := (md_stats d)\<lparr>dst_read_count := dst_read_count (md_stats d) + 1\<rparr>\<rparr>, Ok (fmlookup (md_data d) k))"

definition mem_put :: "MemoryDatabase \<Rightarrow> db_key \<Rightarrow> db_value \<Rightarrow> MemoryDatabase \<times> unit outcome" where
  "mem_put d k v =
     (d\<lparr>md_stats := (md_stats d)\<lparr>dst_write_count := dst_write_count (md_stats d) + 1\<rparr>,
        md_data := fmupd k v (md_data d)\<rparr>, Ok ())"

definition mem_delete :: "MemoryDatabase \<Rightarrow> db_key \<Rightarrow> MemoryDatabase \<times> unit outcome" where
  "mem_delete d k =
     (d\<lparr>md_stats := (md_stats d)\<lparr>dst_delete_count := dst_delete_count (md_stats d) + 1\<rparr>,
        md_data := fmdrop k (md_data d)\<rparr>, Ok ())"

definition mem_contains :: "MemoryDatabase \<Rightarrow> db_key \<Rightarrow> bool outcome" where
  "mem_contains d k = Ok (hm_contains_key (md_data d) k)"

definition mem_keys_with_prefix ::
  "((db_key, db_value) hashmap \<Rightarrow> db_key list) \<Rightarrow> MemoryDatabase \<Rightarrow> db_key \<Rightarrow> db_key list outcome" where
  "mem_keys_with_prefix iteration d p = Ok (filter (\<lambda>k. starts_with k p) (iteration (md_data d)))"

definition mem_iter_prefix ::
  "((db_key, db_value) hashmap \<Rightarrow> db_key list) \<Rightarrow> MemoryDatabase \<Rightarrow> db_key \<Rightarrow> (db_key \<times> db_value) list outcome" where
  "mem_iter_prefix iteration d p =
     Ok (map (\<lambda>k. (k, the (fmlookup (md_data d) k)))
          (filter (\<lambda>k. starts_with k p) (iteration (md_data d))))"

fun apply_write :: "WriteOperation \<Rightarrow> (db_key, db_value) hashmap \<Rightarrow> (db_key, db_value) hashmap" where
  "apply_write (Put k v) m = fmupd k v m"
| "apply_write (Delete k) m = fmdrop k m"

definition mem_write_batch :: "MemoryDatabase \<Rightarrow> WriteOperation list \<Rightarrow> MemoryDatabase \<times> unit outcome" where
  "mem_write_batch d operations = (d\<lparr>md_data := fold apply_write operations (md_data d)\<rparr>, Ok ())"

definition mem_flush :: "MemoryDatabase \<Rightarrow> unit outcome" where
  "mem_flush d = Ok ()"

definition mem_compact :: "MemoryDatabase \<Rightarrow> unit outcome" where
  "mem_compact d = Ok ()"

definition mem_size :: "MemoryDatabase \<Rightarrow> u64" where
  "mem_size d = of_nat (\<Sum>k \<in> fset (fmdom (md_data d)). length k + length (the (fmlookup (md_data d) k)))"

definition mem_stats :: "MemoryDatabase \<Rightarrow> DatabaseStats" where
  "mem_stats d = (md_stats d)\<lparr>dst_total_keys := of_nat (hm_len (md_data d)), dst_total_size := mem_size d\<rparr>"

definition memory_database :: "((db_key, db_value) hashmap \<Rightarrow> db_key list) \<Rightarrow> MemoryDatabase Database" where
  "memory_database iteration =
     \<lparr>db_get = mem_get, db_put = mem_put, db_delete = mem_delete, db_contains = mem_contains,
      db_iter_prefix = mem_iter_prefix iteration, db_keys_with_prefix = mem_keys_with_prefix iteration,
      db_write_batch = mem_write_batch, db_flush = mem_flush, db_compact = mem_compact,
      db_size = mem_size, db_stats = mem_stats\<rparr>"

section \<open>The contract\<close>

locale key_value_database =
  fixes legit :: bool
    and D :: "'d Database"
    and content :: "'d \<Rightarrow> (db_key, db_value) hashmap"
  assumes get_Ok: "db_get D d k = (d', Ok found) \<Longrightarrow> found = fmlookup (content d) k"
    and get_content: "db_get D d k = (d', got) \<Longrightarrow> content d' = content d"
    and put_Ok: "db_put D d k v = (d', Ok u) \<Longrightarrow> content d' = fmupd k v (content d)"
    and delete_Ok: "db_delete D d k = (d', Ok u) \<Longrightarrow> content d' = fmdrop k (content d)"
    and contains_Ok: "db_contains D d k = Ok b \<Longrightarrow> b = hm_contains_key (content d) k"
    and keys_Ok: "legit \<Longrightarrow> db_keys_with_prefix D d p = Ok ks \<Longrightarrow>
       set ks = {k. hm_contains_key (content d) k \<and> starts_with k p} \<and> distinct ks"
    and batch_Ok: "db_write_batch D d ops = (d', Ok u) \<Longrightarrow> content d' = fold apply_write ops (content d)"
begin

lemma get_after_put:
  "db_put D d k v = (d', Ok u) \<Longrightarrow> db_get D d' j = (d'', Ok w) \<Longrightarrow> w = (if j = k then Some v else fmlookup (content d) j)"
  using get_Ok put_Ok by fastforce

lemma get_after_delete:
  "db_delete D d k = (d', Ok u) \<Longrightarrow> db_get D d' j = (d'', Ok w) \<Longrightarrow> w = (if j = k then None else fmlookup (content d) j)"
  using get_Ok delete_Ok by fastforce

text \<open>A batch does what its operations do one after the other.\<close>

lemma batch_append:
  assumes "db_write_batch D d (ops @ ops') = (d1, Ok ())"
    and "db_write_batch D d ops = (d2, Ok ())" and "db_write_batch D d2 ops' = (d3, Ok ())"
  shows "content d1 = content d3"
  using batch_Ok [OF assms(1)] batch_Ok [OF assms(2)] batch_Ok [OF assms(3)] by simp

end

text \<open>A database whose reads do not fail.\<close>

locale reliable_database = key_value_database +
  assumes get_total: "is_ok (snd (db_get D d k))"
    and keys_total: "is_ok (db_keys_with_prefix D d p)"
begin

lemma get_obtains:
  obtains d' where "db_get D d k = (d', Ok (fmlookup (content d) k))" "content d' = content d"
proof -
  obtain d' got where g: "db_get D d k = (d', got)" by (cases "db_get D d k")
  with get_total [of d k] get_Ok [of d k d'] get_content [OF g] that show ?thesis by (cases got) auto
qed

lemma keys_obtains:
  assumes legit
  obtains ks where "db_keys_with_prefix D d p = Ok ks" "distinct ks"
    "set ks = {k. hm_contains_key (content d) k \<and> starts_with k p}"
  using keys_total [of d p] keys_Ok [OF assms, of d p] that by (auto simp: is_ok_iff)

end

lemmas memory_defs =
  memory_database_def mem_get_def mem_put_def mem_delete_def mem_contains_def mem_keys_with_prefix_def
  mem_iter_prefix_def mem_write_batch_def

interpretation memory: reliable_database "walks iteration" "memory_database iteration" md_data
  for iteration :: "(db_key, db_value) hashmap \<Rightarrow> db_key list"
  by unfold_locales (auto simp: memory_defs walks_def hm_contains_key_dom)

text \<open>Nothing fails in memory.\<close>

lemma memory_never_fails:
  "is_ok (snd (mem_get d k))" "is_ok (snd (mem_put d k v))" "is_ok (snd (mem_delete d k))"
  "is_ok (mem_keys_with_prefix iteration d p)" "is_ok (snd (mem_write_batch d ops))"
  by (simp_all add: memory_defs)

text \<open>A walk in the order of the keys.\<close>

definition sorted_walk :: "(db_key, db_value) hashmap \<Rightarrow> db_key list" where
  "sorted_walk m = sorted_list_of_set (fset (fmdom m))"

lemma walks_sorted_walk [simp]: "walks sorted_walk"
  by (simp add: walks_def sorted_walk_def)

end
