(* ===== verification/Jurisdiction.thy ===== *)
theory Jurisdiction
  imports Common_Types "HOL-Library.Sublist"
begin

text \<open>
  \<open>storage/src/jurisdiction.rs\<close>, the levels and the paths of jurisdictions. Parsing inverts printing,
  and the ancestors of a path are its proper prefixes. The tree of jurisdictions, with its voting
  locations and distances, is in \<open>Jurisdiction_Tree\<close>.
\<close>

section \<open>Levels\<close>

datatype JurisdictionLevel = Federal | State | County | City | Tribal | Precinct | PollingPlace

fun parent_level :: "JurisdictionLevel \<Rightarrow> JurisdictionLevel option" where
  "parent_level Federal = None"
| "parent_level State = Some Federal"
| "parent_level County = Some State"
| "parent_level City = Some County"
| "parent_level Tribal = Some Federal"
| "parent_level Precinct = Some City"
| "parent_level PollingPlace = Some Precinct"

fun level_to_str :: "JurisdictionLevel \<Rightarrow> string" where
  "level_to_str Federal = ''federal''"
| "level_to_str State = ''state''"
| "level_to_str County = ''county''"
| "level_to_str City = ''city''"
| "level_to_str Tribal = ''tribal''"
| "level_to_str Precinct = ''precinct''"
| "level_to_str PollingPlace = ''polling_place''"

section \<open>Paths\<close>

datatype JurisdictionPath = JurisdictionPath (jp_components: "string list")

text \<open>\<open>s.split(sep)\<close>: one piece more than there are separators.\<close>

fun split_on :: "char \<Rightarrow> string \<Rightarrow> string list" where
  "split_on sep [] = [[]]"
| "split_on sep (c # cs) =
     (if c = sep then [] # split_on sep cs
      else (case split_on sep cs of [] \<Rightarrow> [[c]] | p # ps \<Rightarrow> (c # p) # ps))"

definition path_parse :: "string \<Rightarrow> JurisdictionPath outcome" where
  "path_parse path =
     (let components = filter (\<lambda>s. s \<noteq> []) (split_on CHR ''/'' path)
      in if components = [] then Err (InvalidInput ''Empty jurisdiction path'')
         else Ok (JurisdictionPath components))"

text \<open>\<open>components.join(sep)\<close>\<close>

fun join_with :: "string \<Rightarrow> string list \<Rightarrow> string" where
  "join_with sep [] = []"
| "join_with sep [p] = p"
| "join_with sep (p # q # ps) = p @ sep @ join_with sep (q # ps)"

definition path_to_string :: "JurisdictionPath \<Rightarrow> string" where
  "path_to_string p = join_with ''/'' (jp_components p)"

definition path_depth :: "JurisdictionPath \<Rightarrow> nat" where
  "path_depth p = length (jp_components p)"

definition path_parent :: "JurisdictionPath \<Rightarrow> JurisdictionPath option" where
  "path_parent p =
     (if length (jp_components p) \<le> 1 then None
      else Some (JurisdictionPath (take (length (jp_components p) - 1) (jp_components p))))"

definition path_child :: "JurisdictionPath \<Rightarrow> string \<Rightarrow> JurisdictionPath" where
  "path_child p component = JurisdictionPath (jp_components p @ [component])"

definition is_ancestor_of :: "JurisdictionPath \<Rightarrow> JurisdictionPath \<Rightarrow> bool" where
  "is_ancestor_of p other =
     (if path_depth other \<le> path_depth p then False
      else list_all (\<lambda>(a, b). a = b) (zip (jp_components p) (jp_components other)))"

section \<open>Facts\<close>

lemma split_on_nonempty [simp]: "split_on sep s \<noteq> []"
  by (induction s) (auto split: list.split)

lemma split_on_no_sep: "sep \<notin> set p \<Longrightarrow> split_on sep p = [p]"
  by (induction p) auto

lemma split_on_append_sep: "sep \<notin> set p \<Longrightarrow> split_on sep (p @ sep # s) = p # split_on sep s"
  by (induction p) auto

lemma split_on_join:
  assumes "ps \<noteq> []" and "\<forall>p \<in> set ps. sep \<notin> set p"
  shows "split_on sep (join_with [sep] ps) = ps"
  using assms by (induction "[sep]" ps rule: join_with.induct) (auto simp: split_on_no_sep split_on_append_sep)

lemma path_parse_to_string:
  assumes "jp_components p \<noteq> []" and "\<forall>c \<in> set (jp_components p). c \<noteq> [] \<and> CHR ''/'' \<notin> set c"
  shows "path_parse (path_to_string p) = Ok p"
proof -
  have "split_on CHR ''/'' (path_to_string p) = jp_components p"
    unfolding path_to_string_def using assms by (intro split_on_join) auto
  moreover have "filter (\<lambda>s. s \<noteq> []) (jp_components p) = jp_components p"
    using assms(2) by (simp add: filter_id_conv)
  ultimately show ?thesis using assms(1) by (simp add: path_parse_def)
qed

lemma list_all_zip_prefix:
  "length xs \<le> length ys \<Longrightarrow> list_all (\<lambda>(a, b). a = b) (zip xs ys) \<longleftrightarrow> prefix xs ys"
proof (induction xs arbitrary: ys)
  case (Cons x xs)
  then show ?case by (cases ys) auto
qed simp

lemma is_ancestor_of_iff: "is_ancestor_of p q \<longleftrightarrow> strict_prefix (jp_components p) (jp_components q)"
proof (cases "path_depth q \<le> path_depth p")
  case True
  then show ?thesis using prefix_length_less by (fastforce simp: is_ancestor_of_def path_depth_def)
next
  case False
  then show ?thesis by (auto simp: is_ancestor_of_def path_depth_def list_all_zip_prefix strict_prefix_def)
qed

lemma path_parent_child: "jp_components p \<noteq> [] \<Longrightarrow> path_parent (path_child p c) = Some p"
  by (cases p) (auto simp: path_parent_def path_child_def Suc_le_eq)

lemma parent_is_ancestor: "path_parent p = Some q \<Longrightarrow> is_ancestor_of q p"
  by (auto simp: is_ancestor_of_iff path_parent_def strict_prefix_def take_is_prefix split: if_splits)

end
