(* ===== verification/State_Store.thy ===== *)
theory State_Store
  imports Database Jurisdiction Registries
begin

text \<open>
  \<open>storage/src/state_store.rs\<close>: the store of the current state, a cache in memory over a
  \<open>Database\<close>. Operations change the cache first and the database after it, as the code does, so a
  failing database leaves the two apart. The encoding of an election is a third-party function.
\<close>

section \<open>Data\<close>

record CandidateInfo =
  ci_id :: string
  ci_name :: string
  ci_party :: "string option"
  ci_metadata :: "string option"

record ElectionState =
  es_id :: ElectionId
  es_name :: string
  es_description :: string
  es_jurisdiction_path :: JurisdictionPath
  es_candidates :: "CandidateInfo list"
  es_start_time :: Timestamp
  es_end_time :: Timestamp
  es_total_votes :: u64
  es_is_active :: bool
  es_is_finalized :: bool
  es_created_at_height :: BlockHeight
  es_closed_at_height :: "BlockHeight option"

record PendingTransaction =
  pt_tx_id :: TxId
  pt_data :: "u8 list"
  pt_added_at :: Timestamp
  pt_priority :: u32

datatype VoterIdentifier = VoterIdentifier (voter_identifier_bytes: "32 bytes")

record StateCache =
  sc_current_height :: BlockHeight
  sc_latest_block_hash :: BlockHash
  sc_active_validators :: "PublicKey fset"
  sc_active_elections :: "(ElectionId, ElectionState) hashmap"
  sc_tx_pool :: "(TxId, PendingTransaction) hashmap"
  sc_voter_participation :: "(ElectionId, VoterIdentifier fset) hashmap"

record 'd StateStore =
  ss_db :: 'd
  ss_cache :: StateCache

record StateStats =
  sst_current_height :: BlockHeight
  sst_latest_block_hash :: BlockHash
  sst_active_validators :: nat
  sst_active_elections :: nat
  sst_pending_transactions :: nat
  sst_total_votes_tracked :: nat

record storage_externals = externals +
  bincode_election :: "ElectionState \<Rightarrow> (u8 list, string) result"
  unbincode_election :: "u8 list \<Rightarrow> (ElectionState, string) result"

text \<open>Decoding inverts encoding.\<close>

definition election_codec_laws :: "'z storage_externals_scheme \<Rightarrow> bool" where
  "election_codec_laws E \<longleftrightarrow>
     (\<forall>e bs. bincode_election E e = Ok bs \<longrightarrow> unbincode_election E bs = Ok e)"

definition VoterIdentifier_from_signature :: "'z externals_scheme \<Rightarrow> Signature \<Rightarrow> VoterIdentifier" where
  "VoterIdentifier_from_signature E signature = VoterIdentifier (blake2b_256 E (bytes_list (signature_bytes signature)))"

section \<open>Keys\<close>

definition height_key :: db_key where
  "height_key = str_bytes ''state:current_height''"

definition hash_key :: db_key where
  "hash_key = str_bytes ''state:latest_block_hash''"

definition validator_prefix :: db_key where
  "validator_prefix = str_bytes ''state:validator:''"

definition election_prefix :: db_key where
  "election_prefix = str_bytes ''state:election:''"

definition validator_key :: "'z externals_scheme \<Rightarrow> PublicKey \<Rightarrow> db_key" where
  "validator_key E v = str_bytes (''state:validator:'' @ PublicKey_to_hex E v)"

definition election_key :: "'z externals_scheme \<Rightarrow> ElectionId \<Rightarrow> db_key" where
  "election_key E i = str_bytes (''state:election:'' @ ElectionId_to_hex E i)"

section \<open>Access to the database and to the cache\<close>

definition on_db :: "('d \<Rightarrow> 'd \<times> 'a outcome) \<Rightarrow> 'd StateStore \<Rightarrow> 'd StateStore \<times> 'a outcome" where
  "on_db f s = (let (d, r) = f (ss_db s) in (s\<lparr>ss_db := d\<rparr>, r))"

definition on_cache :: "(StateCache \<Rightarrow> StateCache) \<Rightarrow> 'd StateStore \<Rightarrow> 'd StateStore" where
  "on_cache f s = s\<lparr>ss_cache := f (ss_cache s)\<rparr>"

text \<open>\<open>common::utils::serialize(..)?\<close> and its inverse, with the conversion of the error.\<close>

definition serialize_election :: "'z storage_externals_scheme \<Rightarrow> ElectionState \<Rightarrow> u8 list outcome" where
  "serialize_election E e = map_err SerializationError (bincode_election E e)"

definition deserialize_election :: "'z storage_externals_scheme \<Rightarrow> u8 list \<Rightarrow> ElectionState outcome" where
  "deserialize_election E bs = map_err SerializationError (unbincode_election E bs)"

section \<open>Loading\<close>

definition load_height :: "'d Database \<Rightarrow> 'd StateStore \<Rightarrow> 'd StateStore \<times> unit outcome" where
  "load_height D s =
     and_then (on_db (\<lambda>d. db_get D d height_key) s) (\<lambda>s found.
       case found of
         None \<Rightarrow> (s, Ok ())
       | Some height_bytes \<Rightarrow>
           if length height_bytes \<noteq> 8 then (s, Err (StorageError ''Invalid height bytes''))
           else (on_cache (\<lambda>c. c\<lparr>sc_current_height := from_le_bytes height_bytes\<rparr>) s, Ok ()))"

definition load_hash :: "'d Database \<Rightarrow> 'd StateStore \<Rightarrow> 'd StateStore \<times> unit outcome" where
  "load_hash D s =
     and_then (on_db (\<lambda>d. db_get D d hash_key) s) (\<lambda>s found.
       case found of
         None \<Rightarrow> (s, Ok ())
       | Some hash_bytes \<Rightarrow>
           and_then (s, copy_from_slice hash_bytes) (\<lambda>s hash.
             (on_cache (\<lambda>c. c\<lparr>sc_latest_block_hash := BlockHash hash\<rparr>) s, Ok ())))"

fun load_validator_keys :: "db_key list \<Rightarrow> PublicKey fset \<Rightarrow> PublicKey fset" where
  "load_validator_keys [] vs = vs"
| "load_validator_keys (key # keys) vs =
     load_validator_keys keys
       (if length key = length validator_prefix + 32
        then finsert (PublicKey (mk_bytes (drop (length validator_prefix) key))) vs else vs)"

definition load_validators :: "'d Database \<Rightarrow> 'd StateStore \<Rightarrow> 'd StateStore \<times> unit outcome" where
  "load_validators D s =
     and_then (s, db_keys_with_prefix D (ss_db s) validator_prefix) (\<lambda>s keys.
       (on_cache (\<lambda>c. c\<lparr>sc_active_validators := load_validator_keys keys {||}\<rparr>) s, Ok ()))"

fun load_election_keys ::
  "'z storage_externals_scheme \<Rightarrow> 'd Database \<Rightarrow> db_key list \<Rightarrow> 'd StateStore \<Rightarrow> 'd StateStore \<times> unit outcome" where
  "load_election_keys E D [] s = (s, Ok ())"
| "load_election_keys E D (key # keys) s =
     and_then (on_db (\<lambda>d. db_get D d key) s) (\<lambda>s found.
       case found of
         None \<Rightarrow> load_election_keys E D keys s
       | Some v \<Rightarrow>
           and_then (s, deserialize_election E v) (\<lambda>s election.
             load_election_keys E D keys
               (if es_is_active election
                then on_cache (\<lambda>c. c\<lparr>sc_active_elections := fmupd (es_id election) election (sc_active_elections c)\<rparr>) s
                else s)))"

definition load_active_elections ::
  "'z storage_externals_scheme \<Rightarrow> 'd Database \<Rightarrow> 'd StateStore \<Rightarrow> 'd StateStore \<times> unit outcome" where
  "load_active_elections E D s =
     and_then (s, db_keys_with_prefix D (ss_db s) election_prefix) (\<lambda>s keys.
       load_election_keys E D keys (on_cache (\<lambda>c. c\<lparr>sc_active_elections := fmempty\<rparr>) s))"

definition load_state_from_db ::
  "'z storage_externals_scheme \<Rightarrow> 'd Database \<Rightarrow> 'd StateStore \<Rightarrow> 'd StateStore \<times> unit outcome" where
  "load_state_from_db E D s =
     and_then (load_height D s) (\<lambda>s _.
     and_then (load_hash D s) (\<lambda>s _.
     and_then (load_validators D s) (\<lambda>s _.
     and_then (load_active_elections E D s) (\<lambda>s _. (s, Ok ())))))"

definition empty_cache :: StateCache where
  "empty_cache =
     \<lparr>sc_current_height = 0, sc_latest_block_hash = BlockHash_zero, sc_active_validators = {||},
      sc_active_elections = fmempty, sc_tx_pool = fmempty, sc_voter_participation = fmempty\<rparr>"

text \<open>On an error the store is dropped and only the error returned.\<close>

definition StateStore_new :: "'z storage_externals_scheme \<Rightarrow> 'd Database \<Rightarrow> 'd \<Rightarrow> 'd StateStore \<times> unit outcome" where
  "StateStore_new E D db = load_state_from_db E D \<lparr>ss_db = db, ss_cache = empty_cache\<rparr>"

section \<open>The tip and the validators\<close>

definition get_current_height :: "'d StateStore \<Rightarrow> BlockHeight" where
  "get_current_height s = sc_current_height (ss_cache s)"

definition get_latest_block_hash :: "'d StateStore \<Rightarrow> BlockHash" where
  "get_latest_block_hash s = sc_latest_block_hash (ss_cache s)"

definition update_chain_tip ::
  "'d Database \<Rightarrow> 'd StateStore \<Rightarrow> BlockHeight \<Rightarrow> BlockHash \<Rightarrow> 'd StateStore \<times> unit outcome" where
  "update_chain_tip D s height block_hash =
     and_then (on_db (\<lambda>d. db_put D d height_key (to_le_bytes height))
       (on_cache (\<lambda>c. c\<lparr>sc_current_height := height, sc_latest_block_hash := block_hash\<rparr>) s)) (\<lambda>s _.
     and_then (on_db (\<lambda>d. db_put D d hash_key (bytes_list (block_hash_bytes block_hash))) s) (\<lambda>s _. (s, Ok ())))"

definition store_add_validator ::
  "'z externals_scheme \<Rightarrow> 'd Database \<Rightarrow> 'd StateStore \<Rightarrow> PublicKey \<Rightarrow> 'd StateStore \<times> unit outcome" where
  "store_add_validator E D s validator =
     and_then (on_db (\<lambda>d. db_put D d (validator_key E validator) [1])
       (on_cache (\<lambda>c. c\<lparr>sc_active_validators := finsert validator (sc_active_validators c)\<rparr>) s)) (\<lambda>s _. (s, Ok ()))"

definition store_remove_validator ::
  "'z externals_scheme \<Rightarrow> 'd Database \<Rightarrow> 'd StateStore \<Rightarrow> PublicKey \<Rightarrow> 'd StateStore \<times> unit outcome" where
  "store_remove_validator E D s validator =
     and_then (on_db (\<lambda>d. db_delete D d (validator_key E validator))
       (on_cache (\<lambda>c. c\<lparr>sc_active_validators := sc_active_validators c |-| {|validator|}\<rparr>) s)) (\<lambda>s _. (s, Ok ()))"

definition get_active_validators :: "'d StateStore \<Rightarrow> PublicKey fset" where
  "get_active_validators s = sc_active_validators (ss_cache s)"

definition is_validator_active :: "'d StateStore \<Rightarrow> PublicKey \<Rightarrow> bool" where
  "is_validator_active s validator \<longleftrightarrow> validator |\<in>| sc_active_validators (ss_cache s)"

definition store_validator_count :: "'d StateStore \<Rightarrow> nat" where
  "store_validator_count s = fcard (sc_active_validators (ss_cache s))"

section \<open>Elections\<close>

definition put_election ::
  "'z storage_externals_scheme \<Rightarrow> 'd Database \<Rightarrow> 'd StateStore \<Rightarrow> ElectionId \<Rightarrow> ElectionState \<Rightarrow>
   'd StateStore \<times> unit outcome" where
  "put_election E D s i election =
     and_then (s, serialize_election E election) (\<lambda>s data.
     and_then (on_db (\<lambda>d. db_put D d (election_key E i) data) s) (\<lambda>s _. (s, Ok ())))"

definition create_election ::
  "'z storage_externals_scheme \<Rightarrow> 'd Database \<Rightarrow> 'd StateStore \<Rightarrow> ElectionState \<Rightarrow> 'd StateStore \<times> unit outcome" where
  "create_election E D s election =
     put_election E D
       (on_cache (\<lambda>c. c\<lparr>sc_active_elections := fmupd (es_id election) election (sc_active_elections c),
                       sc_voter_participation := fmupd (es_id election) {||} (sc_voter_participation c)\<rparr>) s)
       (es_id election) election"

definition get_election ::
  "'z storage_externals_scheme \<Rightarrow> 'd Database \<Rightarrow> 'd StateStore \<Rightarrow> ElectionId \<Rightarrow>
   'd StateStore \<times> ElectionState option outcome" where
  "get_election E D s election_id =
     (case fmlookup (sc_active_elections (ss_cache s)) election_id of
        Some election \<Rightarrow> (s, Ok (Some election))
      | None \<Rightarrow>
          and_then (on_db (\<lambda>d. db_get D d (election_key E election_id)) s) (\<lambda>s found.
            case found of
              None \<Rightarrow> (s, Ok None)
            | Some data \<Rightarrow> and_then (s, deserialize_election E data) (\<lambda>s election. (s, Ok (Some election)))))"

text \<open>The two steps that \<open>close_election\<close> and \<open>increment_vote_count\<close> share: the change in the cache,
  then the same change to what \<open>get_election\<close> returns, which is written to the database.\<close>

definition change_election ::
  "'z storage_externals_scheme \<Rightarrow> 'd Database \<Rightarrow> (ElectionState \<Rightarrow> ElectionState) \<Rightarrow> 'd StateStore \<Rightarrow> ElectionId \<Rightarrow>
   'd StateStore \<times> unit outcome" where
  "change_election E D f s election_id =
     and_then (get_election E D
       (on_cache (\<lambda>c. c\<lparr>sc_active_elections := hm_update election_id f (sc_active_elections c)\<rparr>) s) election_id)
       (\<lambda>s found. case found of
          None \<Rightarrow> (s, Ok ())
        | Some election \<Rightarrow> put_election E D s election_id (f election))"

definition mark_closed :: "BlockHeight \<Rightarrow> ElectionState \<Rightarrow> ElectionState" where
  "mark_closed closed_at_height e =
     e\<lparr>es_is_active := False, es_is_finalized := True, es_closed_at_height := Some closed_at_height\<rparr>"

definition close_election ::
  "'z storage_externals_scheme \<Rightarrow> 'd Database \<Rightarrow> 'd StateStore \<Rightarrow> ElectionId \<Rightarrow> BlockHeight \<Rightarrow>
   'd StateStore \<times> unit outcome" where
  "close_election E D s election_id closed_at_height = change_election E D (mark_closed closed_at_height) s election_id"

definition one_more_vote :: "ElectionState \<Rightarrow> ElectionState" where
  "one_more_vote e = e\<lparr>es_total_votes := es_total_votes e + 1\<rparr>"

definition increment_vote_count ::
  "'z storage_externals_scheme \<Rightarrow> 'd Database \<Rightarrow> 'd StateStore \<Rightarrow> ElectionId \<Rightarrow> 'd StateStore \<times> unit outcome" where
  "increment_vote_count E D s election_id = change_election E D one_more_vote s election_id"

fun collect_elections ::
  "'z storage_externals_scheme \<Rightarrow> 'd Database \<Rightarrow> db_key list \<Rightarrow> 'd StateStore \<Rightarrow> 'd StateStore \<times> ElectionState list outcome" where
  "collect_elections E D [] s = (s, Ok [])"
| "collect_elections E D (key # keys) s =
     and_then (on_db (\<lambda>d. db_get D d key) s) (\<lambda>s found.
       case found of
         None \<Rightarrow> collect_elections E D keys s
       | Some data \<Rightarrow>
           and_then (s, deserialize_election E data) (\<lambda>s election.
           and_then (collect_elections E D keys s) (\<lambda>s elections. (s, Ok (election # elections)))))"

definition get_all_elections ::
  "'z storage_externals_scheme \<Rightarrow> 'd Database \<Rightarrow> 'd StateStore \<Rightarrow> 'd StateStore \<times> ElectionState list outcome" where
  "get_all_elections E D s =
     and_then (s, db_keys_with_prefix D (ss_db s) election_prefix) (\<lambda>s keys. collect_elections E D keys s)"

definition get_active_elections :: "'d StateStore \<Rightarrow> ElectionState multiset" where
  "get_active_elections s = hm_values (sc_active_elections (ss_cache s))"

definition is_election_active :: "'d StateStore \<Rightarrow> ElectionId \<Rightarrow> bool" where
  "is_election_active s election_id =
     (case fmlookup (sc_active_elections (ss_cache s)) election_id of None \<Rightarrow> False | Some e \<Rightarrow> es_is_active e)"

section \<open>Participation and the pool\<close>

definition record_voter_participation ::
  "'d StateStore \<Rightarrow> ElectionId \<Rightarrow> VoterIdentifier \<Rightarrow> 'd StateStore \<times> bool outcome" where
  "record_voter_participation s election_id voter_id =
     (case fmlookup (sc_voter_participation (ss_cache s)) election_id of
        None \<Rightarrow> (s, Ok False)
      | Some voters \<Rightarrow>
          (on_cache (\<lambda>c. c\<lparr>sc_voter_participation :=
               fmupd election_id (finsert voter_id voters) (sc_voter_participation c)\<rparr>) s,
           Ok (voter_id |\<notin>| voters)))"

definition has_voter_participated :: "'d StateStore \<Rightarrow> ElectionId \<Rightarrow> VoterIdentifier \<Rightarrow> bool" where
  "has_voter_participated s election_id voter_id =
     (case fmlookup (sc_voter_participation (ss_cache s)) election_id of None \<Rightarrow> False | Some voters \<Rightarrow> voter_id |\<in>| voters)"

definition add_pending_transaction :: "'d StateStore \<Rightarrow> PendingTransaction \<Rightarrow> 'd StateStore \<times> unit outcome" where
  "add_pending_transaction s tx =
     (on_cache (\<lambda>c. c\<lparr>sc_tx_pool := fmupd (pt_tx_id tx) tx (sc_tx_pool c)\<rparr>) s, Ok ())"

definition remove_pending_transaction :: "'d StateStore \<Rightarrow> TxId \<Rightarrow> 'd StateStore \<times> unit outcome" where
  "remove_pending_transaction s i = (on_cache (\<lambda>c. c\<lparr>sc_tx_pool := fmdrop i (sc_tx_pool c)\<rparr>) s, Ok ())"

definition get_pending_transaction :: "'d StateStore \<Rightarrow> TxId \<Rightarrow> PendingTransaction option" where
  "get_pending_transaction s i = fmlookup (sc_tx_pool (ss_cache s)) i"

definition get_pending_transactions :: "'d StateStore \<Rightarrow> PendingTransaction multiset" where
  "get_pending_transactions s = hm_values (sc_tx_pool (ss_cache s))"

definition prune_pending_transactions :: "'d StateStore \<Rightarrow> Timestamp \<Rightarrow> 'd StateStore \<times> nat outcome" where
  "prune_pending_transactions s cutoff_time =
     (let kept = hm_retain (\<lambda>_ tx. cutoff_time \<le> pt_added_at tx) (sc_tx_pool (ss_cache s));
          removed_count = size (filter_mset (\<lambda>tx. \<not> cutoff_time \<le> pt_added_at tx) (hm_values (sc_tx_pool (ss_cache s))))
      in (on_cache (\<lambda>c. c\<lparr>sc_tx_pool := kept\<rparr>) s, Ok removed_count))"

definition store_get_stats :: "'d StateStore \<Rightarrow> StateStats" where
  "store_get_stats s =
     (let cache = ss_cache s in
      \<lparr>sst_current_height = sc_current_height cache, sst_latest_block_hash = sc_latest_block_hash cache,
       sst_active_validators = fcard (sc_active_validators cache),
       sst_active_elections = hm_len (sc_active_elections cache),
       sst_pending_transactions = hm_len (sc_tx_pool cache),
       sst_total_votes_tracked = sum_mset (image_mset fcard (hm_values (sc_voter_participation cache)))\<rparr>)"

section \<open>The invariant\<close>

lemma key_distinct [simp]:
  "height_key \<noteq> hash_key" "hash_key \<noteq> height_key"
  "validator_key E v \<noteq> height_key" "validator_key E v \<noteq> hash_key"
  "height_key \<noteq> validator_key E v" "hash_key \<noteq> validator_key E v"
  "election_key E i \<noteq> height_key" "election_key E i \<noteq> hash_key"
  "height_key \<noteq> election_key E i" "hash_key \<noteq> election_key E i"
  "election_key E i \<noteq> validator_key E v" "validator_key E v \<noteq> election_key E i"
  unfolding height_key_def hash_key_def validator_key_def election_key_def str_bytes_inject by simp_all

lemma starts_with_str_bytes: "starts_with (str_bytes s) (str_bytes p) \<longleftrightarrow> starts_with s p"
  unfolding starts_with_def by (metis length_str_bytes str_bytes_def str_bytes_inject take_map)

lemma starts_with_election [simp]:
  "starts_with (election_key E i) election_prefix" "\<not> starts_with (validator_key E v) election_prefix"
  "\<not> starts_with height_key election_prefix" "\<not> starts_with hash_key election_prefix"
  unfolding election_key_def election_prefix_def validator_key_def height_key_def hash_key_def starts_with_str_bytes
  by (simp_all add: starts_with_def)

lemma election_key_inject: "hex_laws E \<Longrightarrow> election_key E i = election_key E j \<longleftrightarrow> i = j"
  unfolding election_key_def str_bytes_inject using election_id.to_hex_inject [of E i j] by auto

text \<open>Two states of an election that agree in everything but the number of votes.\<close>

definition same_but_votes :: "ElectionState \<Rightarrow> ElectionState \<Rightarrow> bool" where
  "same_but_votes e e' \<longleftrightarrow> e' = e\<lparr>es_total_votes := es_total_votes e'\<rparr>"

lemma same_but_votes_fields:
  "same_but_votes e e' \<Longrightarrow> es_is_active e' = es_is_active e \<and> es_id e' = es_id e"
  unfolding same_but_votes_def
  by (metis (no_types, lifting) ElectionState.select_convs(1,9) ElectionState.surjective ElectionState.update_convs(8))

text \<open>The database holds the tip of the cache, and exactly the elections of the cache.\<close>

definition store_wf :: "'z storage_externals_scheme \<Rightarrow> (db_key, db_value) hashmap \<Rightarrow> StateCache \<Rightarrow> bool" where
  "store_wf E m c \<longleftrightarrow>
     (case fmlookup m height_key of None \<Rightarrow> sc_current_height c = 0 | Some b \<Rightarrow> b = to_le_bytes (sc_current_height c)) \<and>
     (case fmlookup m hash_key of None \<Rightarrow> sc_latest_block_hash c = BlockHash_zero
        | Some b \<Rightarrow> b = bytes_list (block_hash_bytes (sc_latest_block_hash c))) \<and>
     (\<forall>k. hm_contains_key m k \<longrightarrow> starts_with k election_prefix \<longrightarrow>
        (\<exists>i. k = election_key E i \<and> hm_contains_key (sc_active_elections c) i)) \<and>
     (\<forall>i e. fmlookup (sc_active_elections c) i = Some e \<longrightarrow> es_id e = i \<and>
        (\<exists>v e'. fmlookup m (election_key E i) = Some v \<and> unbincode_election E v = Ok e' \<and> same_but_votes e e'))"

lemma same_but_votes_intros [simp]:
  "same_but_votes e e" "same_but_votes (one_more_vote e) (one_more_vote (one_more_vote e))"
  "mark_closed h (mark_closed h e) = mark_closed h e"
  by (cases e; simp add: same_but_votes_def one_more_vote_def mark_closed_def)+

lemma store_wf_empty: "store_wf E fmempty empty_cache"
  by (simp add: store_wf_def empty_cache_def)

lemma store_wf_put_election:
  assumes "hex_laws E" and "store_wf E m c" and "unbincode_election E bs = Ok e'" and "same_but_votes e e'" and "es_id e = i"
    and "\<And>j. j \<noteq> i \<Longrightarrow> fmlookup (sc_active_elections c') j = fmlookup (sc_active_elections c) j"
    and "fmlookup (sc_active_elections c') i = Some e"
    and "sc_current_height c' = sc_current_height c" and "sc_latest_block_hash c' = sc_latest_block_hash c"
  shows "store_wf E (fmupd (election_key E i) bs m) c'"
  using assms unfolding store_wf_def
  by (simp add: hm_contains_key_def election_key_inject) (metis option.distinct(1))

lemma store_wf_other:
  assumes "store_wf E m c" and "\<not> starts_with k election_prefix" and "k \<noteq> height_key" and "k \<noteq> hash_key"
  shows "store_wf E (fmupd k v m) c" "store_wf E (fmdrop k m) c"
proof -
  have "election_key E i \<noteq> k" for i using assms(2) by auto
  then show "store_wf E (fmupd k v m) c" "store_wf E (fmdrop k m) c"
    using assms by (auto simp: store_wf_def)
qed

lemma store_wf_cache_cong:
  "store_wf E m c \<Longrightarrow> sc_current_height c' = sc_current_height c \<Longrightarrow> sc_latest_block_hash c' = sc_latest_block_hash c \<Longrightarrow>
   sc_active_elections c' = sc_active_elections c \<Longrightarrow> store_wf E m c'"
  by (simp add: store_wf_def split: option.splits)

lemma on_db_eq: "on_db f s = (t, r) \<longleftrightarrow> (\<exists>d. f (ss_db s) = (d, r) \<and> t = s\<lparr>ss_db := d\<rparr>)"
  by (auto simp: on_db_def split: prod.splits)

lemma on_cache_sel [simp]: "ss_cache (on_cache f s) = f (ss_cache s)" "ss_db (on_cache f s) = ss_db s"
  by (simp_all add: on_cache_def)

section \<open>Calls and the invariant\<close>

datatype StoreCall =
    UpdateTip BlockHeight BlockHash
  | AddValidator PublicKey
  | RemoveValidator PublicKey
  | CreateElection ElectionState
  | CloseElection ElectionId BlockHeight
  | IncrementVotes ElectionId
  | RecordParticipation ElectionId VoterIdentifier
  | AddPending PendingTransaction
  | RemovePending TxId
  | PrunePending Timestamp

fun store_call ::
  "'z storage_externals_scheme \<Rightarrow> 'd Database \<Rightarrow> 'd StateStore \<Rightarrow> StoreCall \<Rightarrow> 'd StateStore \<times> unit outcome" where
  "store_call E D s (UpdateTip h b) = update_chain_tip D s h b"
| "store_call E D s (AddValidator v) = store_add_validator E D s v"
| "store_call E D s (RemoveValidator v) = store_remove_validator E D s v"
| "store_call E D s (CreateElection e) = create_election E D s e"
| "store_call E D s (CloseElection i h) = close_election E D s i h"
| "store_call E D s (IncrementVotes i) = increment_vote_count E D s i"
| "store_call E D s (RecordParticipation i v) = and_then (record_voter_participation s i v) (\<lambda>s _. (s, Ok ()))"
| "store_call E D s (AddPending tx) = add_pending_transaction s tx"
| "store_call E D s (RemovePending i) = remove_pending_transaction s i"
| "store_call E D s (PrunePending t) = and_then (prune_pending_transactions s t) (\<lambda>s _. (s, Ok ()))"

abbreviation db_wf ::
  "'z storage_externals_scheme \<Rightarrow> ('d \<Rightarrow> (db_key, db_value) hashmap) \<Rightarrow> 'd StateStore \<Rightarrow> bool" where
  "db_wf E content s \<equiv> store_wf E (content (ss_db s)) (ss_cache s)"

context key_value_database
begin

lemma put_election_Ok:
  assumes "put_election E D s i e = (t, Ok u)"
  obtains bs where "bincode_election E e = Ok bs" "ss_cache t = ss_cache s"
    "content (ss_db t) = fmupd (election_key E i) bs (content (ss_db s))"
  using assms
  by (auto simp: put_election_def outcome_simps on_db_eq serialize_election_def dest!: put_Ok)

lemma get_election_Ok:
  assumes "get_election E D s i = (t, Ok found)" and "db_wf E content s" and "hex_laws E"
  shows "ss_cache t = ss_cache s" "content (ss_db t) = content (ss_db s)"
    "found = fmlookup (sc_active_elections (ss_cache s)) i"
proof -
  show "ss_cache t = ss_cache s" "content (ss_db t) = content (ss_db s)"
    using assms(1)
    by (auto simp: get_election_def outcome_simps on_db_eq dest!: get_content split: option.splits)
  have "fmlookup (content (ss_db s)) (election_key E i) = None" if "fmlookup (sc_active_elections (ss_cache s)) i = None"
    using assms(2,3) that by (auto simp: store_wf_def hm_contains_key_def election_key_inject)
  then show "found = fmlookup (sc_active_elections (ss_cache s)) i"
    using assms(1)
    by (auto simp: get_election_def outcome_simps on_db_eq dest!: get_Ok split: option.splits)
qed

lemma change_election_wf:
  assumes laws: "hex_laws E" "election_codec_laws E" and wf: "db_wf E content s"
    and f: "\<And>e. es_id (f e) = es_id e" "\<And>e. same_but_votes (f e) (f (f e))"
    and call: "change_election E D f s i = (t, Ok u)"
  shows "db_wf E content t"
proof (cases "fmlookup (sc_active_elections (ss_cache s)) i")
  case None
  then have same: "on_cache (\<lambda>c. c\<lparr>sc_active_elections := hm_update i f (sc_active_elections c)\<rparr>) s = s"
    by (simp add: on_cache_def hm_update_def)
  obtain s' found where g: "get_election E D s i = (s', Ok found)"
    and t: "(case found of None \<Rightarrow> (s', Ok ()) | Some e \<Rightarrow> put_election E D s' i (f e)) = (t, Ok u)"
    using call unfolding change_election_def same outcome_simps by blast
  from get_election_Ok [OF g wf laws(1)] t None wf show ?thesis by simp
next
  case (Some e)
  let ?s = "on_cache (\<lambda>c. c\<lparr>sc_active_elections := hm_update i f (sc_active_elections c)\<rparr>) s"
  have id: "es_id e = i" using wf Some by (auto simp: store_wf_def)
  have "get_election E D ?s i = (?s, Ok (Some (f e)))"
    using Some by (simp add: get_election_def hm_update_def)
  with call have put: "put_election E D ?s i (f (f e)) = (t, Ok u)" by (simp add: change_election_def)
  from put show ?thesis
  proof (rule put_election_Ok)
    fix bs assume bs: "bincode_election E (f (f e)) = Ok bs" "ss_cache t = ss_cache ?s"
      "content (ss_db t) = fmupd (election_key E i) bs (content (ss_db ?s))"
    have dec: "unbincode_election E bs = Ok (f (f e))" using laws(2) bs(1) by (simp add: election_codec_laws_def)
    show ?thesis unfolding bs(2,3)
      by (simp, rule store_wf_put_election [OF laws(1) wf dec f(2)])
         (simp_all add: Some f(1) id hm_update_def)
  qed
qed

lemma create_election_wf:
  assumes laws: "hex_laws E" "election_codec_laws E" and wf: "db_wf E content s"
    and call: "create_election E D s e = (t, Ok u)"
  shows "db_wf E content t"
  using call unfolding create_election_def
proof (rule put_election_Ok)
  let ?s = "on_cache (\<lambda>c. c\<lparr>sc_active_elections := fmupd (es_id e) e (sc_active_elections c),
               sc_voter_participation := fmupd (es_id e) {||} (sc_voter_participation c)\<rparr>) s"
  fix bs assume bs: "bincode_election E e = Ok bs" "ss_cache t = ss_cache ?s"
    "content (ss_db t) = fmupd (election_key E (es_id e)) bs (content (ss_db ?s))"
  have dec: "unbincode_election E bs = Ok e" using laws(2) bs(1) by (simp add: election_codec_laws_def)
  show ?thesis unfolding bs(2,3)
    by (simp, rule store_wf_put_election [OF laws(1) wf dec]) simp_all
qed

lemma update_chain_tip_wf:
  assumes wf: "db_wf E content s" and call: "update_chain_tip D s h b = (t, Ok u)"
  shows "db_wf E content t"
proof -
  obtain d1 d2 where d: "db_put D (ss_db s) height_key (to_le_bytes h) = (d1, Ok ())"
      "db_put D d1 hash_key (bytes_list (block_hash_bytes b)) = (d2, Ok ())"
    and t: "t = s\<lparr>ss_cache := (ss_cache s)\<lparr>sc_current_height := h, sc_latest_block_hash := b\<rparr>, ss_db := d2\<rparr>"
    using call by (auto simp: update_chain_tip_def outcome_simps on_db_eq on_cache_def)
  have "content d2 = fmupd hash_key (bytes_list (block_hash_bytes b)) (fmupd height_key (to_le_bytes h) (content (ss_db s)))"
    using put_Ok [OF d(1)] put_Ok [OF d(2)] by simp
  with wf show ?thesis unfolding t store_wf_def by auto
qed

lemma store_call_wf:
  assumes laws: "hex_laws E" "election_codec_laws E" and wf: "db_wf E content s"
    and call: "store_call E D s c = (t, Ok u)"
  shows "db_wf E content t"
proof (cases c)
  case (UpdateTip h b)
  with call update_chain_tip_wf [OF wf] show ?thesis by simp
next
  case (AddValidator v)
  with call obtain d where d: "db_put D (ss_db s) (validator_key E v) [1] = (d, Ok ())"
    and t: "t = s\<lparr>ss_cache := (ss_cache s)\<lparr>sc_active_validators := finsert v (sc_active_validators (ss_cache s))\<rparr>, ss_db := d\<rparr>"
    by (auto simp: store_add_validator_def outcome_simps on_db_eq on_cache_def)
  from store_wf_other(1) [OF wf, of "validator_key E v" "[1]"] put_Ok [OF d] show ?thesis
    by (auto simp: t elim: store_wf_cache_cong)
next
  case (RemoveValidator v)
  with call obtain d where d: "db_delete D (ss_db s) (validator_key E v) = (d, Ok ())"
    and t: "t = s\<lparr>ss_cache := (ss_cache s)\<lparr>sc_active_validators := sc_active_validators (ss_cache s) |-| {|v|}\<rparr>, ss_db := d\<rparr>"
    by (auto simp: store_remove_validator_def outcome_simps on_db_eq on_cache_def)
  from store_wf_other(2) [OF wf, of "validator_key E v"] delete_Ok [OF d] show ?thesis
    by (auto simp: t elim: store_wf_cache_cong)
next
  case (CreateElection e)
  with call create_election_wf [OF laws wf] show ?thesis by simp
next
  case (CloseElection i h)
  with call change_election_wf [OF laws wf, of "mark_closed h"] show ?thesis
    by (simp add: close_election_def mark_closed_def)
next
  case (IncrementVotes i)
  with call change_election_wf [OF laws wf, of one_more_vote] show ?thesis
    by (simp add: increment_vote_count_def) (simp add: one_more_vote_def)
qed (use call wf in \<open>auto simp: record_voter_participation_def add_pending_transaction_def remove_pending_transaction_def
       prune_pending_transactions_def Let_def outcome_simps split: option.splits elim!: store_wf_cache_cong\<close>)

text \<open>A sequence of calls that all succeed.\<close>

lemma store_run_wf:
  assumes "hex_laws E" "election_codec_laws E"
  shows "db_wf E content s \<Longrightarrow> run_calls (store_call E D) s cs = (t, rs) \<Longrightarrow> \<forall>(c, r) \<in> set rs. is_ok r \<Longrightarrow>
    db_wf E content t"
proof (induction cs arbitrary: s rs)
  case (Cons c cs)
  obtain s1 r where s1: "store_call E D s c = (s1, r)" by (cases "store_call E D s c")
  obtain rs' where rs: "run_calls (store_call E D) s1 cs = (t, rs')" "rs = (c, r) # rs'"
    using Cons.prems(2) by (auto simp: s1 Let_def split: prod.splits)
  then have ok: "r = Ok ()" "\<forall>(c, r) \<in> set rs'. is_ok r" using Cons.prems(3) by (auto simp: is_ok_iff)
  from Cons.IH [OF store_call_wf [OF assms Cons.prems(1) s1 [unfolded ok(1)]] rs(1) ok(2)] show ?case .
qed simp

end

section \<open>Restarting\<close>

text \<open>What loading makes of the keys of the elections.\<close>

definition add_loaded ::
  "'z storage_externals_scheme \<Rightarrow> (db_key, db_value) hashmap \<Rightarrow> db_key \<Rightarrow> (ElectionId, ElectionState) hashmap \<Rightarrow>
   (ElectionId, ElectionState) hashmap" where
  "add_loaded E m k els =
     (case fmlookup m k of
        None \<Rightarrow> els
      | Some v \<Rightarrow> (case unbincode_election E v of Ok e \<Rightarrow> if es_is_active e then fmupd (es_id e) e els else els | _ \<Rightarrow> els))"

text \<open>The election stored under an identifier, if it is active.\<close>

definition stored_active ::
  "'z storage_externals_scheme \<Rightarrow> (db_key, db_value) hashmap \<Rightarrow> ElectionId \<Rightarrow> ElectionState option" where
  "stored_active E m i =
     (case fmlookup m (election_key E i) of
        None \<Rightarrow> None
      | Some v \<Rightarrow> (case unbincode_election E v of Ok e \<Rightarrow> if es_is_active e then Some e else None | _ \<Rightarrow> None))"

lemma store_wf_stored:
  assumes "store_wf E m c" and "hm_contains_key m k \<and> starts_with k election_prefix"
  shows "\<exists>i v e. k = election_key E i \<and> fmlookup m k = Some v \<and> unbincode_election E v = Ok e \<and> es_id e = i"
proof -
  obtain i el where "k = election_key E i" "fmlookup (sc_active_elections c) i = Some el"
    using assms by (auto simp: store_wf_def hm_contains_key_def)
  moreover obtain v e where "fmlookup m (election_key E i) = Some v" "unbincode_election E v = Ok e" "same_but_votes el e" "es_id el = i"
    using assms(1) calculation(2) unfolding store_wf_def by blast
  ultimately show ?thesis using same_but_votes_fields [of el e] by blast
qed

lemma fold_add_loaded:
  assumes "hex_laws E"
    and "\<And>k. k \<in> set ks \<Longrightarrow> \<exists>i v e. k = election_key E i \<and> fmlookup m k = Some v \<and> unbincode_election E v = Ok e \<and> es_id e = i"
  shows "fmlookup (fold (add_loaded E m) ks els) i =
    (if election_key E i \<in> set ks \<and> stored_active E m i \<noteq> None then stored_active E m i else fmlookup els i)"
  using assms(2)
proof (induction ks arbitrary: els)
  case (Cons k ks)
  obtain j v e where k: "k = election_key E j" "fmlookup m k = Some v" "unbincode_election E v = Ok e" "es_id e = j"
    using Cons.prems [of k] by auto
  have "add_loaded E m k els = (if es_is_active e then fmupd j e els else els)"
    using k by (simp add: add_loaded_def)
  moreover have "stored_active E m j = (if es_is_active e then Some e else None)"
    using k by (simp add: stored_active_def)
  moreover have "fmlookup (fold (add_loaded E m) ks (add_loaded E m k els)) i =
      (if election_key E i \<in> set ks \<and> stored_active E m i \<noteq> None then stored_active E m i
       else fmlookup (add_loaded E m k els) i)"
    using Cons.IH Cons.prems by simp
  ultimately show ?case using assms(1) k(1) by (auto simp: election_key_inject)
qed simp

context reliable_database
begin

lemma load_height_Ok:
  assumes wf: "store_wf E (content (ss_db s)) c" and "sc_current_height (ss_cache s) = 0"
  shows "\<exists>d. load_height D s = (s\<lparr>ss_db := d, ss_cache := (ss_cache s)\<lparr>sc_current_height := sc_current_height c\<rparr>\<rparr>, Ok ()) \<and>
    content d = content (ss_db s)"
proof -
  obtain d where d: "db_get D (ss_db s) height_key = (d, Ok (fmlookup (content (ss_db s)) height_key))" "content d = content (ss_db s)"
    by (rule get_obtains)
  with assms show ?thesis
    by (cases s, cases "ss_cache s")
       (auto simp: load_height_def on_db_def on_cache_def store_wf_def length_to_le_bytes from_to_le_bytes split: option.splits)
qed

lemma load_hash_Ok:
  assumes wf: "store_wf E (content (ss_db s)) c" and "sc_latest_block_hash (ss_cache s) = BlockHash_zero"
  shows "\<exists>d. load_hash D s = (s\<lparr>ss_db := d, ss_cache := (ss_cache s)\<lparr>sc_latest_block_hash := sc_latest_block_hash c\<rparr>\<rparr>, Ok ()) \<and>
    content d = content (ss_db s)"
proof -
  obtain d where d: "db_get D (ss_db s) hash_key = (d, Ok (fmlookup (content (ss_db s)) hash_key))" "content d = content (ss_db s)"
    by (rule get_obtains)
  with assms show ?thesis
    by (cases s, cases "ss_cache s")
       (auto simp: load_hash_def on_db_def on_cache_def store_wf_def split: option.splits)
qed

lemma load_election_keys_Ok:
  assumes "\<And>k. k \<in> set ks \<Longrightarrow> \<exists>v e. fmlookup (content (ss_db s)) k = Some v \<and> unbincode_election E v = Ok e"
  shows "\<exists>d. load_election_keys E D ks s =
      (s\<lparr>ss_db := d, ss_cache := (ss_cache s)\<lparr>sc_active_elections :=
          fold (add_loaded E (content (ss_db s))) ks (sc_active_elections (ss_cache s))\<rparr>\<rparr>, Ok ()) \<and>
    content d = content (ss_db s)"
  using assms
proof (induction ks arbitrary: s)
  case (Cons k ks)
  obtain v e where v: "fmlookup (content (ss_db s)) k = Some v" "unbincode_election E v = Ok e"
    using Cons.prems [of k] by auto
  obtain d where d: "db_get D (ss_db s) k = (d, Ok (fmlookup (content (ss_db s)) k))" "content d = content (ss_db s)"
    by (rule get_obtains)
  let ?s = "s\<lparr>ss_db := d, ss_cache := (ss_cache s)\<lparr>sc_active_elections :=
      add_loaded E (content (ss_db s)) k (sc_active_elections (ss_cache s))\<rparr>\<rparr>"
  have "load_election_keys E D (k # ks) s = load_election_keys E D ks ?s"
    using v d by (cases s, cases "ss_cache s") (simp add: on_db_def on_cache_def deserialize_election_def add_loaded_def)
  moreover have "\<exists>v e. fmlookup (content (ss_db ?s)) k' = Some v \<and> unbincode_election E v = Ok e" if "k' \<in> set ks" for k'
    using Cons.prems [of k'] that d(2) by simp
  ultimately show ?case using Cons.IH [of ?s] d(2) by simp
next
  case Nil
  show ?case by (rule exI [of _ "ss_db s"]) simp
qed

lemma restart:
  assumes legit and laws: "hex_laws E" and wf: "store_wf E (content db) c"
  obtains t ks where "StateStore_new E D db = (t, Ok ())"
    "sc_current_height (ss_cache t) = sc_current_height c" "sc_latest_block_hash (ss_cache t) = sc_latest_block_hash c"
    "sc_active_validators (ss_cache t) = load_validator_keys ks {||}"
    "set ks = {k. hm_contains_key (content db) k \<and> starts_with k validator_prefix}"
    "\<And>i. fmlookup (sc_active_elections (ss_cache t)) i = stored_active E (content db) i"
    "sc_voter_participation (ss_cache t) = fmempty" "content (ss_db t) = content db"
proof -
  let ?s = "\<lparr>ss_db = db, ss_cache = empty_cache\<rparr>"
  obtain d1 where d1: "load_height D ?s =
      (\<lparr>ss_db = d1, ss_cache = empty_cache\<lparr>sc_current_height := sc_current_height c\<rparr>\<rparr>, Ok ())" "content d1 = content db"
    using load_height_Ok [of E ?s c] wf by (auto simp: empty_cache_def)
  let ?s1 = "\<lparr>ss_db = d1, ss_cache = empty_cache\<lparr>sc_current_height := sc_current_height c\<rparr>\<rparr>"
  let ?c2 = "empty_cache\<lparr>sc_current_height := sc_current_height c, sc_latest_block_hash := sc_latest_block_hash c\<rparr>"
  obtain d2 where d2: "load_hash D ?s1 = (\<lparr>ss_db = d2, ss_cache = ?c2\<rparr>, Ok ())" "content d2 = content db"
    using load_hash_Ok [of E ?s1 c] wf d1(2) by (auto simp: empty_cache_def)
  obtain vks where vks: "db_keys_with_prefix D d2 validator_prefix = Ok vks"
      "set vks = {k. hm_contains_key (content db) k \<and> starts_with k validator_prefix}"
    using keys_obtains [OF assms(1), of d2 validator_prefix] d2(2) by metis
  let ?c3 = "?c2\<lparr>sc_active_validators := load_validator_keys vks {||}\<rparr>"
  have d3: "load_validators D \<lparr>ss_db = d2, ss_cache = ?c2\<rparr> = (\<lparr>ss_db = d2, ss_cache = ?c3\<rparr>, Ok ())"
    using vks(1) by (simp add: load_validators_def on_cache_def)
  obtain eks where eks: "db_keys_with_prefix D d2 election_prefix = Ok eks"
      "set eks = {k. hm_contains_key (content db) k \<and> starts_with k election_prefix}"
    using keys_obtains [OF assms(1), of d2 election_prefix] d2(2) by metis
  have stored: "\<exists>i v e. k = election_key E i \<and> fmlookup (content db) k = Some v \<and> unbincode_election E v = Ok e \<and> es_id e = i"
    if k: "k \<in> set eks" for k
    using k eks(2) by (intro store_wf_stored [OF wf]) simp
  let ?s3 = "\<lparr>ss_db = d2, ss_cache = ?c3\<lparr>sc_active_elections := fmempty\<rparr>\<rparr>"
  obtain d4 where d4: "load_election_keys E D eks ?s3 =
      (\<lparr>ss_db = d4, ss_cache = ?c3\<lparr>sc_active_elections := fold (add_loaded E (content db)) eks fmempty\<rparr>\<rparr>, Ok ())"
      "content d4 = content db"
    using load_election_keys_Ok [of eks ?s3 E] stored d2(2) by fastforce
  have "load_active_elections E D \<lparr>ss_db = d2, ss_cache = ?c3\<rparr> =
      (\<lparr>ss_db = d4, ss_cache = ?c3\<lparr>sc_active_elections := fold (add_loaded E (content db)) eks fmempty\<rparr>\<rparr>, Ok ())"
    using eks(1) d4(1) by (simp add: load_active_elections_def on_cache_def)
  then have new: "StateStore_new E D db =
      (\<lparr>ss_db = d4, ss_cache = ?c3\<lparr>sc_active_elections := fold (add_loaded E (content db)) eks fmempty\<rparr>\<rparr>, Ok ())"
    using d1(1) d2(1) d3 by (simp add: StateStore_new_def load_state_from_db_def)
  have "fmlookup (fold (add_loaded E (content db)) eks fmempty) i = stored_active E (content db) i" for i
  proof -
    have "fmlookup (fold (add_loaded E (content db)) eks fmempty) i =
        (if election_key E i \<in> set eks \<and> stored_active E (content db) i \<noteq> None then stored_active E (content db) i else None)"
      using fold_add_loaded [OF laws, of eks "content db" fmempty i] stored by simp
    then show ?thesis by (auto simp: eks(2) stored_active_def hm_contains_key_def split: option.splits)
  qed
  with new vks(2) d4(2) show ?thesis by (intro that) (auto simp: empty_cache_def)
qed

end

lemma stored_active_wf:
  assumes "hex_laws E" and "store_wf E m c"
  shows "(case stored_active E m i of None \<Rightarrow> False | Some e \<Rightarrow> es_is_active e) \<longleftrightarrow>
    (case fmlookup (sc_active_elections c) i of None \<Rightarrow> False | Some e \<Rightarrow> es_is_active e)"
proof (cases "fmlookup (sc_active_elections c) i")
  case None
  then have "fmlookup m (election_key E i) = None"
    using assms by (auto simp: store_wf_def hm_contains_key_def election_key_inject)
  with None show ?thesis by (simp add: stored_active_def)
next
  case (Some e)
  then obtain v e' where "fmlookup m (election_key E i) = Some v" "unbincode_election E v = Ok e'" "same_but_votes e e'"
    using assms(2) unfolding store_wf_def by blast
  with Some same_but_votes_fields [of e e'] show ?thesis by (simp add: stored_active_def)
qed

text \<open>A new store over an empty database is empty.\<close>

lemma memory_store_new:
  assumes "walks iteration" and "hex_laws E"
  obtains s where "StateStore_new E (memory_database iteration) MemoryDatabase_new = (s, Ok ())" "db_wf E md_data s"
proof -
  have empty: "md_data MemoryDatabase_new = fmempty" by (simp add: MemoryDatabase_new_def)
  obtain s where s: "StateStore_new E (memory_database iteration) MemoryDatabase_new = (s, Ok ())"
      "sc_current_height (ss_cache s) = 0" "sc_latest_block_hash (ss_cache s) = BlockHash_zero"
      "\<And>i. fmlookup (sc_active_elections (ss_cache s)) i = None" "md_data (ss_db s) = fmempty"
    using memory.restart [OF assms, of MemoryDatabase_new empty_cache] store_wf_empty [of E]
    by (auto simp: empty stored_active_def empty_cache_def)
  then have "db_wf E md_data s" by (simp add: store_wf_def)
  with s(1) show ?thesis by (rule that)
qed

text \<open>
  Validators do not survive a restart: they are written under the hexadecimal form of their key, of
  64 characters, while loading takes only keys with 32 bytes after the prefix.
\<close>

lemma load_validator_keys_none:
  "(\<And>k. k \<in> set ks \<Longrightarrow> length k \<noteq> length validator_prefix + 32) \<Longrightarrow> load_validator_keys ks vs = vs"
  by (induction ks arbitrary: vs) auto

lemma restart_forgets_validators:
  assumes "walks iteration" and "hex_laws E" and "\<And>bs. length (hex_encode E bs) = 2 * length bs"
    and "StateStore_new E (memory_database iteration) (MemoryDatabase_new\<lparr>md_data := fmupd (validator_key E v) [1] fmempty\<rparr>) = (t, Ok ())"
  shows "\<not> is_validator_active t v"
proof -
  let ?db = "MemoryDatabase_new\<lparr>md_data := fmupd (validator_key E v) [1] fmempty\<rparr>"
  have "store_wf E (md_data ?db) empty_cache" by (simp add: store_wf_other store_wf_empty)
  then obtain t' ks where t': "StateStore_new E (memory_database iteration) ?db = (t', Ok ())"
      "sc_active_validators (ss_cache t') = load_validator_keys ks {||}"
      "set ks = {k. hm_contains_key (md_data ?db) k \<and> starts_with k validator_prefix}"
    by (rule memory.restart [OF assms(1,2)])
  have "t' = t" using t'(1) assms(4) by simp
  with t'(2,3) have ks: "sc_active_validators (ss_cache t) = load_validator_keys ks {||}" "set ks \<subseteq> {validator_key E v}"
    by (simp, auto)
  have "length (validator_key E v) = length validator_prefix + 64"
    using assms(3) by (simp add: validator_key_def validator_prefix_def PublicKey_to_hex_def)
  with ks have "sc_active_validators (ss_cache t) = {||}" by (subst ks(1), intro load_validator_keys_none) auto
  then show ?thesis by (simp add: is_validator_active_def)
qed

text \<open>
  A vote is counted twice in the database: the cache is changed first, and what is then read back
  from the cache is changed once more and written.
\<close>

lemma increment_persists_two_votes:
  assumes "fmlookup (sc_active_elections (ss_cache s)) i = Some e"
    and "increment_vote_count E (memory_database iteration) s i = (t, Ok u)" and "election_codec_laws E"
  shows "fmlookup (sc_active_elections (ss_cache t)) i = Some (e\<lparr>es_total_votes := es_total_votes e + 1\<rparr>)"
    and "\<exists>v. fmlookup (md_data (ss_db t)) (election_key E i) = Some v \<and>
           unbincode_election E v = Ok (e\<lparr>es_total_votes := es_total_votes e + 2\<rparr>)"
  using assms
  by (auto simp: increment_vote_count_def change_election_def get_election_def hm_update_def one_more_vote_def
      put_election_def outcome_simps serialize_election_def on_db_eq memory_database_def mem_put_def election_codec_laws_def)

text \<open>The answers of two lookups of an election, equal but for the number of votes.\<close>

definition same_election :: "ElectionState option outcome \<Rightarrow> ElectionState option outcome \<Rightarrow> bool" where
  "same_election r r' \<longleftrightarrow>
     (case r of Ok (Some e) \<Rightarrow> (\<exists>e'. r' = Ok (Some e') \<and> same_but_votes e e') | _ \<Rightarrow> r' = r)"

lemma restart_get_election:
  assumes "hex_laws E" and "store_wf E (md_data (ss_db s)) (ss_cache s)"
    and "\<And>i. fmlookup (sc_active_elections (ss_cache t)) i = stored_active E (md_data (ss_db s)) i"
    and "md_data (ss_db t) = md_data (ss_db s)"
  shows "same_election (snd (get_election E (memory_database iteration) s i)) (snd (get_election E (memory_database iteration) t i))"
proof (cases "fmlookup (sc_active_elections (ss_cache s)) i")
  case None
  then have "fmlookup (md_data (ss_db s)) (election_key E i) = None"
    using assms(1,2) by (auto simp: store_wf_def hm_contains_key_def election_key_inject)
  with None assms(3,4) show ?thesis
    by (simp add: get_election_def stored_active_def same_election_def on_db_def memory_database_def mem_get_def Let_def split_beta)
next
  case (Some e)
  then obtain v e' where "fmlookup (md_data (ss_db s)) (election_key E i) = Some v" "unbincode_election E v = Ok e'" "same_but_votes e e'"
    using assms(2) unfolding store_wf_def by blast
  with Some assms(3,4) show ?thesis
    by (simp add: get_election_def stored_active_def same_election_def on_db_def memory_database_def mem_get_def deserialize_election_def
        Let_def split_beta)
qed

section \<open>Properties\<close>

text \<open>
  C19: What survives a restart on the database in memory. After any sequence of successful calls (new tips,
  validators, elections created and closed, votes counted, participation, the pool) on a store over an
  empty database, a new store opened on the same database loads without error or panic. It has the
  same height and newest block hash, answers \<open>is_election_active\<close> as before for every election, and
  \<open>get_election\<close> as before but for the number of votes, which the database counts twice. Who has voted is lost.
\<close>

theorem state_store_restart:
  assumes "walks iteration" and "hex_laws E" and "election_codec_laws E"
    and "StateStore_new E (memory_database iteration) MemoryDatabase_new = (s0, Ok ())"
    and "run_calls (store_call E (memory_database iteration)) s0 calls = (s, results)"
    and "\<forall>(c, r) \<in> set results. is_ok r"
  shows "\<exists>t. StateStore_new E (memory_database iteration) (ss_db s) = (t, Ok ()) \<and>
    get_current_height t = get_current_height s \<and> get_latest_block_hash t = get_latest_block_hash s \<and>
    (\<forall>i. is_election_active t i = is_election_active s i) \<and>
    (\<forall>i. same_election (snd (get_election E (memory_database iteration) s i)) (snd (get_election E (memory_database iteration) t i))) \<and>
    (\<forall>i v. \<not> has_voter_participated t i v)"
proof -
  have "db_wf E md_data s0" using memory_store_new [OF assms(1,2)] assms(4) by (metis prod.inject)
  then have wf: "db_wf E md_data s" using memory.store_run_wf [OF assms(2,3) _ assms(5,6)] by blast
  obtain t ks where t: "StateStore_new E (memory_database iteration) (ss_db s) = (t, Ok ())"
      "sc_current_height (ss_cache t) = sc_current_height (ss_cache s)"
      "sc_latest_block_hash (ss_cache t) = sc_latest_block_hash (ss_cache s)"
      "sc_active_validators (ss_cache t) = load_validator_keys ks {||}"
      "set ks = {k. hm_contains_key (md_data (ss_db s)) k \<and> starts_with k validator_prefix}"
      "\<And>i. fmlookup (sc_active_elections (ss_cache t)) i = stored_active E (md_data (ss_db s)) i"
      "sc_voter_participation (ss_cache t) = fmempty" "md_data (ss_db t) = md_data (ss_db s)"
    by (rule memory.restart [OF assms(1,2) wf]) blast
  have "is_election_active t i = is_election_active s i" for i
    using stored_active_wf [OF assms(2) wf] t(6) by (simp add: is_election_active_def)
  moreover have "same_election (snd (get_election E (memory_database iteration) s i)) (snd (get_election E (memory_database iteration) t i))" for i
    using wf by (intro restart_get_election [OF assms(2) _ t(6,8)])
  moreover have "\<not> has_voter_participated t i v" for i v using t(7) by (simp add: has_voter_participated_def)
  ultimately show ?thesis using t(1-3) by (auto simp: get_current_height_def get_latest_block_hash_def)
qed

definition sample_election_state :: ElectionState where
  "sample_election_state =
     \<lparr>es_id = ElectionId (bytes_fill 1), es_name = ''mayor'', es_description = [], es_jurisdiction_path = JurisdictionPath [''US''],
      es_candidates = [], es_start_time = 1, es_end_time = 9, es_total_votes = 0, es_is_active = True,
      es_is_finalized = False, es_created_at_height = 0, es_closed_at_height = None\<rparr>"

definition sample_storage :: storage_externals where
  "sample_storage = externals.extend sample_externals (storage_externals.fields
     (\<lambda>e. if e = sample_election_state then Ok [42] else Err ''unknown'')
     (\<lambda>bs. if bs = [42] then Ok sample_election_state else Err ''unknown''))"

lemma sample_storage_laws: "hex_laws sample_storage" "election_codec_laws sample_storage"
  using sample_hex_laws
  by (simp_all add: hex_laws_def election_codec_laws_def sample_storage_def sample_externals_def externals.defs
      storage_externals.defs)

definition sample_store_calls :: "StoreCall list" where
  "sample_store_calls = [UpdateTip 7 (BlockHash (bytes_fill 3)), CreateElection sample_election_state, AddValidator (PublicKey (bytes_fill 4))]"

definition sample_store0 :: "MemoryDatabase StateStore" where
  "sample_store0 = fst (StateStore_new sample_storage (memory_database sorted_walk) MemoryDatabase_new)"

definition sample_store :: "MemoryDatabase StateStore" where
  "sample_store = fst (run_calls (store_call sample_storage (memory_database sorted_walk)) sample_store0 sample_store_calls)"

theorem state_store_restart_witness:
  "\<exists>t. StateStore_new sample_storage (memory_database sorted_walk) (ss_db sample_store) = (t, Ok ()) \<and>
    get_current_height t = 7 \<and> is_election_active t (ElectionId (bytes_fill 1))"
proof -
  have new: "StateStore_new sample_storage (memory_database sorted_walk) MemoryDatabase_new = (sample_store0, Ok ())"
    using memory_store_new [OF walks_sorted_walk sample_storage_laws(1)] by (metis fst_conv sample_store0_def)
  let ?run = "run_calls (store_call sample_storage (memory_database sorted_walk)) sample_store0 sample_store_calls"
  have ok: "\<forall>(c, r) \<in> set (snd ?run). is_ok r"
    and facts: "get_current_height (fst ?run) = 7" "is_election_active (fst ?run) (ElectionId (bytes_fill 1))"
    by (simp_all add: sample_store_calls_def update_chain_tip_def create_election_def put_election_def store_add_validator_def
        on_db_def on_cache_def memory_database_def mem_put_def serialize_election_def sample_storage_def
        externals.defs storage_externals.defs get_current_height_def is_election_active_def Let_def sample_election_state_def)
  have run: "?run = (sample_store, snd ?run)" by (simp add: sample_store_def)
  show ?thesis
    using state_store_restart [OF walks_sorted_walk sample_storage_laws new run ok] facts [folded sample_store_def] by auto
qed

end
