(* ===== verification/Consensus_Engine.thy ===== *)
theory Consensus_Engine
  imports Proof_Of_Authority
begin

text \<open>
  \<open>blockchain-core/src/consensus/mod.rs\<close>: the trait \<open>Consensus\<close> as the locale
  \<open>consensus_mechanism\<close>, interpreted by proof of authority, and the engine that combines a mechanism,
  a validator set and a finality tracker. The only constructor, \<open>new_poa\<close>, puts proof of authority
  in the boxed trait object. The mechanism holds its own copy of the validator set.
\<close>

section \<open>Data\<close>

record ConsensusEngine =
  ce_mechanism :: ProofOfAuthority
  ce_validator_set :: ValidatorSet
  ce_finality_tracker :: FinalityTracker

section \<open>Operations\<close>

definition new_poa :: "Timestamp \<Rightarrow> PublicKey list \<Rightarrow> f64 \<Rightarrow> ConsensusEngine outcome" where
  "new_poa now validators finality_threshold =
     (if validators = [] then Err (ConsensusError ''Validator set cannot be empty'')
      else
        let validator_set = ValidatorSet_new now validators;
            finality_tracker = FinalityTracker_new finality_threshold;
            mechanism = ProofOfAuthority_new validator_set
        in Ok \<lparr>ce_mechanism = mechanism, ce_validator_set = validator_set,
               ce_finality_tracker = finality_tracker\<rparr>)"

definition engine_validate_block :: "'z externals_scheme \<Rightarrow> ConsensusEngine \<Rightarrow> Block \<Rightarrow> unit outcome" where
  "engine_validate_block E e block =
     rbind (poa_validate_block E (ce_mechanism e) block) (\<lambda>_.
       if \<not> is_validator (ce_validator_set e) (hdr_validator (blk_header block))
       then Err (InvalidValidator (''Unknown validator: '' @ PublicKey_to_hex E (hdr_validator (blk_header block))))
       else for_each (\<lambda>sig.
              if \<not> is_validator (ce_validator_set e) (vs_validator sig)
              then Err (InvalidValidator (''Unknown validator signature: '' @ PublicKey_to_hex E (vs_validator sig)))
              else Ok ()) (blk_signatures block))"

definition engine_check_finality ::
  "Timestamp \<Rightarrow> ConsensusEngine \<Rightarrow> Block \<Rightarrow> ConsensusEngine \<times> FinalityStatus outcome" where
  "engine_check_finality now e block =
     (let (t, status) = check_finality now (ce_finality_tracker e) block (validator_count (ce_validator_set e))
      in (e\<lparr>ce_finality_tracker := t\<rparr>, Ok status))"

definition engine_add_validator ::
  "'z externals_scheme \<Rightarrow> Timestamp \<Rightarrow> ConsensusEngine \<Rightarrow> PublicKey \<Rightarrow> ConsensusEngine \<times> unit outcome" where
  "engine_add_validator E now e validator =
     (let (s, r) = add_validator E now (ce_validator_set e) validator in (e\<lparr>ce_validator_set := s\<rparr>, r))"

definition engine_remove_validator ::
  "'z externals_scheme \<Rightarrow> ConsensusEngine \<Rightarrow> PublicKey \<Rightarrow> ConsensusEngine \<times> unit outcome" where
  "engine_remove_validator E e validator =
     (let (s, r) = remove_validator E (ce_validator_set e) validator in (e\<lparr>ce_validator_set := s\<rparr>, r))"

definition engine_get_current_validator :: "Timestamp \<Rightarrow> ConsensusEngine \<Rightarrow> PublicKey outcome" where
  "engine_get_current_validator now e = poa_get_current_validator now (ce_mechanism e)"

definition engine_can_produce_block :: "Timestamp \<Rightarrow> ConsensusEngine \<Rightarrow> PublicKey \<Rightarrow> bool outcome" where
  "engine_can_produce_block now e validator = poa_can_produce_block now (ce_mechanism e) validator"

definition engine_required_signatures :: "ConsensusEngine \<Rightarrow> nat" where
  "engine_required_signatures e = poa_required_signatures (ce_mechanism e)"

text \<open>
  One call that changes the engine; \<open>validator_set_mut\<close> lends out the validator set, so any change
  of the set through its own methods is a step too.
\<close>

inductive engine_step :: "'z externals_scheme \<Rightarrow> ConsensusEngine \<Rightarrow> ConsensusEngine \<Rightarrow> bool" for E where
  check: "engine_check_finality now e block = (e', r) \<Longrightarrow> engine_step E e e'"
| add: "engine_add_validator E now e v = (e', r) \<Longrightarrow> engine_step E e e'"
| remove: "engine_remove_validator E e v = (e', r) \<Longrightarrow> engine_step E e e'"
| lend: "vset_step E (ce_validator_set e) s \<Longrightarrow> engine_step E e (e\<lparr>ce_validator_set := s\<rparr>)"

section \<open>The trait\<close>

locale consensus_mechanism =
  fixes authorised :: "'m \<Rightarrow> PublicKey \<Rightarrow> bool"
    and validate :: "'m \<Rightarrow> Block \<Rightarrow> unit outcome"
    and is_final :: "'m \<Rightarrow> Block \<Rightarrow> bool"
    and required :: "'m \<Rightarrow> nat"
  assumes validate_authorised: "validate m b = Ok () \<Longrightarrow> authorised m (hdr_validator (blk_header b))"
    and validate_one_producer:
      "validate m a = Ok () \<Longrightarrow> validate m b = Ok () \<Longrightarrow> Block_height a = Block_height b \<Longrightarrow>
       hdr_validator (blk_header a) = hdr_validator (blk_header b)"
    and is_final_iff: "is_final m b \<longleftrightarrow> required m \<le> signature_count b"
begin

lemma unauthorised_rejected: "\<not> authorised m (hdr_validator (blk_header b)) \<Longrightarrow> validate m b \<noteq> Ok ()"
  using validate_authorised by blast

text \<open>A chain of accepted blocks, one per height, has one possible sequence of producers.\<close>

lemma same_producers:
  assumes "\<And>b. b \<in> set as \<union> set bs \<Longrightarrow> validate m b = Ok ()"
    and "map Block_height as = map Block_height bs"
  shows "map (\<lambda>b. hdr_validator (blk_header b)) as = map (\<lambda>b. hdr_validator (blk_header b)) bs"
proof (rule nth_equalityI)
  show len: "length (map (\<lambda>b. hdr_validator (blk_header b)) as) = length (map (\<lambda>b. hdr_validator (blk_header b)) bs)"
    using map_eq_imp_length_eq [OF assms(2)] by simp
  fix i assume "i < length (map (\<lambda>b. hdr_validator (blk_header b)) as)"
  then have i: "i < length as" "i < length bs" using len by simp_all
  moreover have "Block_height (as ! i) = Block_height (bs ! i)"
    using arg_cong [OF assms(2), of "\<lambda>xs. xs ! i"] i by simp
  ultimately show "map (\<lambda>b. hdr_validator (blk_header b)) as ! i = map (\<lambda>b. hdr_validator (blk_header b)) bs ! i"
    using validate_one_producer [of m "as ! i" "bs ! i"] assms(1) by simp
qed

lemma signing_keeps_final: "is_final m b \<Longrightarrow> is_final m (add_signature b v s)"
  by (simp add: is_final_iff signature_count_add_signature)

end

lemma poa_validate_block_Ok_producer:
  assumes "poa_validate_block E p b = Ok ()"
  shows "is_validator (poa_validator_set p) (hdr_validator (blk_header b)) \<and>
         get_block_producer p (Block_height b) = Ok (hdr_validator (blk_header b))"
  using assms
  by (auto simp: poa_validate_block_def is_validator_turn_by_height_def Block_height_def Let_def outcome_simps
      split: if_splits)

interpretation poa_mechanism: consensus_mechanism "\<lambda>p. is_validator (poa_validator_set p)"
  "poa_validate_block E" poa_is_finalized poa_required_signatures for E :: "'z externals_scheme"
proof unfold_locales
  fix m a b assume "poa_validate_block E m a = Ok ()" "poa_validate_block E m b = Ok ()"
    "Block_height a = Block_height b"
  then show "hdr_validator (blk_header a) = hdr_validator (blk_header b)"
    by (auto dest!: poa_validate_block_Ok_producer)
qed (auto simp: poa_validate_block_Ok_producer poa_is_finalized_def Let_def)

section \<open>Facts\<close>

lemma engine_validate_block_Ok:
  "engine_validate_block E e b = Ok () \<longleftrightarrow>
     poa_validate_block E (ce_mechanism e) b = Ok () \<and>
     is_validator (ce_validator_set e) (hdr_validator (blk_header b)) \<and>
     (\<forall>v \<in> block_signers b. is_validator (ce_validator_set e) v)"
  by (auto simp: engine_validate_block_def block_signers_def outcome_simps)

lemma new_poa_Ok:
  "new_poa now vs t = Ok e \<longleftrightarrow> vs \<noteq> [] \<and>
     e = \<lparr>ce_mechanism = ProofOfAuthority_new (ValidatorSet_new now vs),
          ce_validator_set = ValidatorSet_new now vs, ce_finality_tracker = FinalityTracker_new t\<rparr>"
  by (auto simp: new_poa_def Let_def)

lemma engine_step_mechanism: "engine_step E e e' \<Longrightarrow> ce_mechanism e' = ce_mechanism e"
  by (induction rule: engine_step.induct)
     (auto simp: engine_check_finality_def engine_add_validator_def engine_remove_validator_def split: prod.splits)

lemma engine_steps_mechanism: "(engine_step E)\<^sup>*\<^sup>* e e' \<Longrightarrow> ce_mechanism e' = ce_mechanism e"
  by (induction rule: rtranclp_induct) (auto dest: engine_step_mechanism)

lemma engine_step_vset_wf: "engine_step E e e' \<Longrightarrow> vset_wf (ce_validator_set e) \<Longrightarrow> vset_wf (ce_validator_set e')"
proof (induction rule: engine_step.induct)
  case (add now e v e' r)
  then show ?case
    by (auto simp: engine_add_validator_def split: prod.splits
        intro: vset_wf_step [OF vset_step.add])
next
  case (remove e v e' r)
  then show ?case
    by (auto simp: engine_remove_validator_def split: prod.splits intro: vset_wf_step [OF vset_step.remove])
qed (auto simp: engine_check_finality_def intro: vset_wf_step split: prod.splits)

interpretation engine: invariant_system "\<lambda>e. \<exists>now vs t. new_poa now vs t = Ok e" "engine_step E"
  "\<lambda>e. vset_wf (ce_validator_set e) \<and> vset_wf (poa_validator_set (ce_mechanism e))"
  for E :: "'z externals_scheme"
  by unfold_locales
     (auto simp: new_poa_Ok sample_poa_fields(1) vset_wf_new engine_step_mechanism intro: engine_step_vset_wf)

text \<open>A validator added to the engine is not known to its mechanism.\<close>

lemma added_validator_rejected:
  assumes "new_poa now vs t = Ok e" and "engine_add_validator E later e v = (e', Ok ())"
    and "hdr_validator (blk_header b) = v"
  shows "is_validator (ce_validator_set e') v \<and> engine_validate_block E e' b \<noteq> Ok ()"
proof -
  have "\<not> is_validator (ce_validator_set e) v" "is_validator (ce_validator_set e') v"
    using assms(2) by (auto simp: engine_add_validator_def add_validator_def is_validator_def split: if_splits)
  moreover have "ce_mechanism e' = ce_mechanism e"
    using assms(2) by (intro engine_step_mechanism [where E = E]) (rule engine_step.add)
  ultimately show ?thesis
    using assms(1,3) poa_mechanism.unauthorised_rejected [of "ce_mechanism e" b E]
    by (auto simp: engine_validate_block_Ok new_poa_Ok ProofOfAuthority_new_def)
qed

section \<open>Properties\<close>

text \<open>
  C13: One producer per height, for ever. Let an engine created by \<open>new_poa\<close> go through any changes
  (finality checks, validators added and removed, changes through \<open>validator_set_mut\<close>). Two blocks
  of the same height accepted at any two moments name the same validator, that validator is one of
  those the engine was created with (and not one added since: \<open>added_validator_rejected\<close>), and every
  signer of an accepted block is a validator of the engine at that moment.
\<close>

theorem engine_one_producer:
  assumes "new_poa now vs t = Ok e0"
    and "(engine_step E)\<^sup>*\<^sup>* e0 e1" and "(engine_step E)\<^sup>*\<^sup>* e0 e2"
    and "engine_validate_block E e1 a = Ok ()" and "engine_validate_block E e2 b = Ok ()"
    and "Block_height a = Block_height b"
  shows "hdr_validator (blk_header a) = hdr_validator (blk_header b) \<and>
         hdr_validator (blk_header a) \<in> set vs \<and>
         block_signers a \<subseteq> set (vset_validators (ce_validator_set e1))"
proof -
  have mech: "ce_mechanism e1 = ce_mechanism e0" "ce_mechanism e2 = ce_mechanism e0"
    using assms(2,3) by (simp_all add: engine_steps_mechanism)
  have ok: "poa_validate_block E (ce_mechanism e0) a = Ok ()" "poa_validate_block E (ce_mechanism e0) b = Ok ()"
    using assms(4,5) mech by (simp_all add: engine_validate_block_Ok)
  have "vset_wf (ce_validator_set e1)"
    using engine.reachable_invar [OF _ assms(2)] assms(1) by blast
  with assms(4) have "block_signers a \<subseteq> set (vset_validators (ce_validator_set e1))"
    by (auto simp: engine_validate_block_Ok vset_wf_is_validator(1))
  moreover have "hdr_validator (blk_header a) \<in> set vs"
    using get_block_producer_member [of "ce_mechanism e0" "Block_height a"]
      poa_validate_block_Ok_producer [OF ok(1)] assms(1)
    by (auto simp: new_poa_Ok sample_poa_fields)
  ultimately show ?thesis
    using poa_mechanism.validate_one_producer [OF ok assms(6)] by blast
qed

theorem engine_one_producer_witness:
  "\<exists>e0 e2 a b. new_poa 0 [sample_key 1] two_thirds_threshold = Ok e0 \<and> engine_add_validator sample_env 1 e0 (sample_key 2) = (e2, Ok ()) \<and>
     a \<noteq> b \<and> engine_validate_block sample_env e0 a = Ok () \<and> engine_validate_block sample_env e2 b = Ok () \<and>
     hdr_validator (blk_header a) = hdr_validator (blk_header b) \<and> hdr_validator (blk_header a) \<in> {sample_key 1}"
proof -
  let ?e = "ok_value (new_poa 0 [sample_key 1] two_thirds_threshold)"
  have e: "new_poa 0 [sample_key 1] two_thirds_threshold = Ok ?e" by (simp add: new_poa_def Let_def)
  obtain e2 where e2: "engine_add_validator sample_env 1 ?e (sample_key 2) = (e2, Ok ())"
    by (simp add: engine_add_validator_def add_validator_def new_poa_def Let_def is_validator_def ValidatorSet_new_fields sample_key_def)
  have step: "engine_step sample_env ?e e2" using e2 by (rule engine_step.add)
  then have steps: "(engine_step sample_env)\<^sup>*\<^sup>* ?e e2" by blast
  obtain a b where a: "Block_new sample_env 5 3 BlockHash_zero [] (sample_key 1) = Ok a"
    and b: "Block_new sample_env 9 3 BlockHash_zero [] (sample_key 1) = Ok b"
    using Block_new_total by blast
  note fa = Block_new_fields [OF a] and fb = Block_new_fields [OF b]
  have poa: "poa_validate_block sample_env (ce_mechanism ?e) c = Ok ()"
    if "Block_height c = 3" "hdr_validator (blk_header c) = sample_key 1" "unat (Block_timestamp c) < 100" for c
    using that validate_block_timing_vacuous [of "ce_mechanism ?e" c]
    by (simp add: new_poa_def Let_def poa_validate_block_def is_validator_turn_by_height_def
        get_block_producer_eq sample_poa_fields sample_key_def is_validator_def
        ValidatorSet_new_fields ProofOfAuthority_new_def)
  have known: "is_validator (ce_validator_set ?e) (sample_key 1)" "is_validator (ce_validator_set e2) (sample_key 1)"
    using e2 by (auto simp: engine_add_validator_def add_validator_def new_poa_def Let_def is_validator_def ValidatorSet_new_fields
        sample_key_def)
  have va: "engine_validate_block sample_env ?e a = Ok ()"
    using poa [of a] fa known by (simp add: engine_validate_block_Ok block_signers_def)
  have vb: "engine_validate_block sample_env e2 b = Ok ()"
    using poa [of b] fb known engine_step_mechanism [OF step] by (simp add: engine_validate_block_Ok block_signers_def)
  have "Block_height a = Block_height b" using fa(1) fb(1) by simp
  note one = engine_one_producer [OF e rtranclp.rtrancl_refl steps va vb this]
  have "a \<noteq> b" using fa(2) fb(2) by auto
  with e e2 va vb one show ?thesis by auto
qed

end
