(* ===== verification/Genesis.thy ===== *)
theory Genesis
  imports Consensus_Engine
begin

text \<open>
  \<open>blockchain-core/src/genesis.rs\<close>: the genesis configuration, its validation, the genesis block
  made from it, and the builder. The clock that \<open>Block::new\<close> and \<open>build\<close> read is an argument;
  reading and writing a JSON file go through the functions \<open>read_to_string\<close>, \<open>from_str\<close>,
  \<open>to_string_pretty\<close> and \<open>fs_write\<close>, arguments of \<open>from_file\<close> and \<open>to_file\<close>.
\<close>

section \<open>Data\<close>

record GenesisConfig =
  gc_block_time :: u64
  gc_consensus_threshold :: f64
  gc_max_block_size :: nat
  gc_max_transactions_per_block :: u32

record GenesisBlock =
  gb_validators :: "PublicKey list"
  gb_timestamp :: Timestamp
  gb_chain_id :: string
  gb_network_name :: string
  gb_config :: GenesisConfig

record GenesisBuilder =
  bld_validators :: "PublicKey list"
  bld_timestamp :: "Timestamp option"
  bld_chain_id :: "string option"
  bld_network_name :: "string option"
  bld_config :: GenesisConfig

section \<open>Operations\<close>

definition GenesisConfig_default :: GenesisConfig where
  "GenesisConfig_default =
     \<lparr>gc_block_time = 5, gc_consensus_threshold = two_thirds_threshold,
      gc_max_block_size = 1024 * 1024, gc_max_transactions_per_block = 1000\<rparr>"

definition GenesisBlock_new :: "PublicKey list \<Rightarrow> Timestamp \<Rightarrow> GenesisBlock" where
  "GenesisBlock_new validators timestamp =
     \<lparr>gb_validators = validators, gb_timestamp = timestamp, gb_chain_id = ''voting-chain-1'',
      gb_network_name = ''Voting Network Mainnet'', gb_config = GenesisConfig_default\<rparr>"

definition GenesisBlock_with_config ::
  "PublicKey list \<Rightarrow> Timestamp \<Rightarrow> string \<Rightarrow> string \<Rightarrow> GenesisConfig \<Rightarrow> GenesisBlock" where
  "GenesisBlock_with_config validators timestamp chain_id network_name config =
     \<lparr>gb_validators = validators, gb_timestamp = timestamp, gb_chain_id = chain_id,
      gb_network_name = network_name, gb_config = config\<rparr>"

definition genesis_transaction ::
  "'z tx_externals_scheme \<Rightarrow> Timestamp \<Rightarrow> nat \<times> PublicKey \<Rightarrow> Transaction outcome" where
  "genesis_transaction E timestamp = (\<lambda>(i, validator_key).
     let metadata = \<lparr>vm_name = ''Genesis Validator '' @ show_nat (i + 1), vm_organization = Some ''Genesis'',
                     vm_contact = None\<rparr>;
         registration = \<lparr>vr_validator_key = validator_key, vr_metadata = metadata,
                         vr_authorizing_signature = Signature (bytes_fill 0)\<rparr>
     in Transaction_new_with_params E (TxValidatorRegistration registration) timestamp (of_nat i))"

definition create_block :: "'z tx_externals_scheme \<Rightarrow> Timestamp \<Rightarrow> GenesisBlock \<Rightarrow> Block outcome" where
  "create_block E now g =
     (if gb_validators g = [] then Err (GenesisError ''Genesis must have at least one validator'')
      else
        rbind (for_collect (genesis_transaction E (gb_timestamp g)) (enumerate 0 (gb_validators g))) (\<lambda>transactions.
        rbind (vec_index (gb_validators g) 0) (\<lambda>genesis_validator.
        rbind (Block_new E now 0 BlockHash_zero transactions genesis_validator) (\<lambda>block.
          let header = (blk_header block)\<lparr>hdr_timestamp := gb_timestamp g\<rparr>;
              header = header\<lparr>hdr_hash := calculate_hash E header\<rparr>
          in Ok (block\<lparr>blk_header := header\<rparr>)))))"

definition GenesisBlock_validate :: "GenesisBlock \<Rightarrow> unit outcome" where
  "GenesisBlock_validate g =
     (let c = gb_config g in
      if gb_validators g = [] then Err (GenesisError ''Must have at least one validator'')
      else if gb_chain_id g = [] then Err (GenesisError ''Chain ID cannot be empty'')
      else if gb_network_name g = [] then Err (GenesisError ''Network name cannot be empty'')
      else if gc_block_time c = 0 then Err (GenesisError ''Block time must be greater than 0'')
      else if f64_le (gc_consensus_threshold c) (Fin 0) \<or> f64_lt (Fin 1) (gc_consensus_threshold c)
      then Err (GenesisError ''Consensus threshold must be between 0 and 1'')
      else if gc_max_block_size c = 0 then Err (GenesisError ''Max block size must be greater than 0'')
      else if gc_max_transactions_per_block c = 0
      then Err (GenesisError ''Max transactions per block must be greater than 0'')
      else Ok ())"

definition GenesisBlock_calculate_hash :: "'z tx_externals_scheme \<Rightarrow> Timestamp \<Rightarrow> GenesisBlock \<Rightarrow> BlockHash outcome" where
  "GenesisBlock_calculate_hash E now g = rbind (create_block E now g) (\<lambda>block. Ok (Block_hash block))"

definition from_file ::
  "(string \<Rightarrow> (string, string) result) \<Rightarrow> (string \<Rightarrow> (GenesisBlock, string) result) \<Rightarrow> string \<Rightarrow> GenesisBlock outcome" where
  "from_file read_to_string from_str path =
     rbind (map_err (\<lambda>e. GenesisError (''Failed to read file: '' @ e)) (read_to_string path)) (\<lambda>contents.
     rbind (map_err (\<lambda>e. GenesisError (''Failed to parse JSON: '' @ e)) (from_str contents)) (\<lambda>genesis.
     rbind (GenesisBlock_validate genesis) (\<lambda>_. Ok genesis)))"

definition to_file ::
  "(GenesisBlock \<Rightarrow> (string, string) result) \<Rightarrow> (string \<Rightarrow> string \<Rightarrow> (unit, string) result) \<Rightarrow>
   GenesisBlock \<Rightarrow> string \<Rightarrow> unit outcome" where
  "to_file to_string_pretty fs_write g path =
     rbind (GenesisBlock_validate g) (\<lambda>_.
     rbind (map_err (\<lambda>e. GenesisError (''Failed to serialize: '' @ e)) (to_string_pretty g)) (\<lambda>json.
     rbind (map_err (\<lambda>e. GenesisError (''Failed to write file: '' @ e)) (fs_write path json)) (\<lambda>_. Ok ())))"

definition GenesisBuilder_new :: GenesisBuilder where
  "GenesisBuilder_new =
     \<lparr>bld_validators = [], bld_timestamp = None, bld_chain_id = None, bld_network_name = None,
      bld_config = GenesisConfig_default\<rparr>"

definition builder_add_validator :: "PublicKey \<Rightarrow> GenesisBuilder \<Rightarrow> GenesisBuilder" where
  "builder_add_validator v b = b\<lparr>bld_validators := bld_validators b @ [v]\<rparr>"

definition builder_add_validators :: "PublicKey list \<Rightarrow> GenesisBuilder \<Rightarrow> GenesisBuilder" where
  "builder_add_validators vs b = b\<lparr>bld_validators := bld_validators b @ vs\<rparr>"

definition builder_timestamp :: "Timestamp \<Rightarrow> GenesisBuilder \<Rightarrow> GenesisBuilder" where
  "builder_timestamp t b = b\<lparr>bld_timestamp := Some t\<rparr>"

definition builder_chain_id :: "string \<Rightarrow> GenesisBuilder \<Rightarrow> GenesisBuilder" where
  "builder_chain_id s b = b\<lparr>bld_chain_id := Some s\<rparr>"

definition builder_network_name :: "string \<Rightarrow> GenesisBuilder \<Rightarrow> GenesisBuilder" where
  "builder_network_name s b = b\<lparr>bld_network_name := Some s\<rparr>"

definition builder_block_time :: "u64 \<Rightarrow> GenesisBuilder \<Rightarrow> GenesisBuilder" where
  "builder_block_time seconds b = b\<lparr>bld_config := (bld_config b)\<lparr>gc_block_time := seconds\<rparr>\<rparr>"

definition builder_consensus_threshold :: "f64 \<Rightarrow> GenesisBuilder \<Rightarrow> GenesisBuilder" where
  "builder_consensus_threshold t b = b\<lparr>bld_config := (bld_config b)\<lparr>gc_consensus_threshold := t\<rparr>\<rparr>"

definition builder_max_block_size :: "nat \<Rightarrow> GenesisBuilder \<Rightarrow> GenesisBuilder" where
  "builder_max_block_size n b = b\<lparr>bld_config := (bld_config b)\<lparr>gc_max_block_size := n\<rparr>\<rparr>"

definition builder_max_transactions_per_block :: "u32 \<Rightarrow> GenesisBuilder \<Rightarrow> GenesisBuilder" where
  "builder_max_transactions_per_block n b =
     b\<lparr>bld_config := (bld_config b)\<lparr>gc_max_transactions_per_block := n\<rparr>\<rparr>"

definition builder_build :: "Timestamp \<Rightarrow> GenesisBuilder \<Rightarrow> GenesisBlock" where
  "builder_build now b =
     \<lparr>gb_validators = bld_validators b,
      gb_timestamp = (case bld_timestamp b of None \<Rightarrow> now | Some t \<Rightarrow> t),
      gb_chain_id = (case bld_chain_id b of None \<Rightarrow> ''voting-chain-1'' | Some s \<Rightarrow> s),
      gb_network_name = (case bld_network_name b of None \<Rightarrow> ''Voting Network'' | Some s \<Rightarrow> s),
      gb_config = bld_config b\<rparr>"

section \<open>Facts\<close>

text \<open>The encoder of the payload never fails, as is documented for types made of plain data.\<close>

definition bincode_total :: "'z tx_externals_scheme \<Rightarrow> bool" where
  "bincode_total E \<longleftrightarrow> (\<forall>ty. is_ok (bincode_tx_type E ty))"

text \<open>The key that a registration transaction registers.\<close>

fun registered_key :: "TransactionType \<Rightarrow> PublicKey option" where
  "registered_key (TxValidatorRegistration r) = Some (vr_validator_key r)"
| "registered_key _ = None"

lemma new_with_params_total:
  assumes "bincode_total E"
  shows "\<exists>tx. Transaction_new_with_params E ty ts n = Ok tx"
  using assms
  by (auto simp: bincode_total_def outcome_simps Transaction_new_with_params_def calculate_id_def
      serialize_for_hashing_def Let_def split: result.splits) (metis result.distinct(1,3))+

lemma genesis_transaction_Ok:
  assumes "genesis_transaction E ts (i, v) = Ok tx"
  shows "Transaction_validate E tx = Ok () \<and> registered_key (tx_type tx) = Some v \<and>
         tx_timestamp tx = ts \<and> tx_nonce tx = of_nat i"
  using assms
  by (auto simp: genesis_transaction_def Let_def new_with_params_Ok Transaction_validate_Ok)

text \<open>The clock does not matter: the timestamp is overwritten before the hash is taken.\<close>

definition genesis_block_of :: "'z tx_externals_scheme \<Rightarrow> GenesisBlock \<Rightarrow> Transaction list \<Rightarrow> Block" where
  "genesis_block_of E g txs = ok_value (Block_new E (gb_timestamp g) 0 BlockHash_zero txs (hd (gb_validators g)))"

lemma genesis_block_of_new:
  "Block_new E (gb_timestamp g) 0 BlockHash_zero txs (hd (gb_validators g)) = Ok (genesis_block_of E g txs)"
  using Block_new_total by (metis genesis_block_of_def result.sel(1))

lemma create_block_Ok:
  "create_block E now g = Ok b \<longleftrightarrow>
     gb_validators g \<noteq> [] \<and>
     (\<exists>txs. for_collect (genesis_transaction E (gb_timestamp g)) (enumerate 0 (gb_validators g)) = Ok txs \<and>
            b = genesis_block_of E g txs)"
  by (auto simp: create_block_def genesis_block_of_def Block_new_def outcome_simps Let_def hd_conv_nth
      calculate_hash_def header_bytes_def)

lemma create_block_total:
  assumes "gb_validators g \<noteq> []" and "bincode_total E"
  shows "\<exists>b. create_block E now g = Ok b"
proof -
  have "\<exists>f. \<forall>x. genesis_transaction E (gb_timestamp g) x = Ok (f x)"
    using new_with_params_total [OF assms(2)]
    by (intro choice) (auto simp: genesis_transaction_def Let_def split: prod.splits)
  then obtain f where "\<And>x. genesis_transaction E (gb_timestamp g) x = Ok (f x)" by blast
  with for_collect_total show ?thesis
    using assms(1) by (metis create_block_Ok)
qed

lemma create_block_valid:
  assumes "create_block E now g = Ok b"
  shows "Block_validate E b = Ok () \<and> Block_height b = 0 \<and> Block_previous_hash b = BlockHash_zero \<and>
         Block_timestamp b = gb_timestamp g \<and> blk_signatures b = [] \<and>
         map (\<lambda>tx. registered_key (tx_type tx)) (blk_transactions b) = map Some (gb_validators g)"
proof -
  obtain txs where txs: "list_all2 (\<lambda>x y. genesis_transaction E (gb_timestamp g) x = Ok y)
      (enumerate 0 (gb_validators g)) txs" and b: "b = genesis_block_of E g txs"
    using assms by (auto simp: create_block_Ok outcome_simps)
  note fields = Block_new_fields [OF genesis_block_of_new [of E g txs], folded b]
  have len: "length txs = length (gb_validators g)"
    using list_all2_lengthD [OF txs] by simp
  have each: "Transaction_validate E (txs ! i) = Ok () \<and>
      registered_key (tx_type (txs ! i)) = Some (gb_validators g ! i)" if "i < length txs" for i
  proof -
    have "genesis_transaction E (gb_timestamp g) (i, gb_validators g ! i) = Ok (txs ! i)"
      using list_all2_nthD2 [OF txs that] that len by (simp add: nth_enumerate_eq)
    from genesis_transaction_Ok [OF this] show ?thesis by blast
  qed
  have "\<forall>tx \<in> set txs. Transaction_validate E tx = Ok ()"
    using each by (auto simp: in_set_conv_nth)
  moreover have "map (\<lambda>tx. registered_key (tx_type tx)) txs = map Some (gb_validators g)"
    using each len by (intro nth_equalityI) auto
  ultimately show ?thesis
    using fields by (simp add: Block_validate_Ok)
qed

lemma GenesisBlock_validate_Ok:
  "GenesisBlock_validate g = Ok () \<longleftrightarrow>
     gb_validators g \<noteq> [] \<and> gb_chain_id g \<noteq> [] \<and> gb_network_name g \<noteq> [] \<and>
     gc_block_time (gb_config g) \<noteq> 0 \<and>
     \<not> f64_le (gc_consensus_threshold (gb_config g)) (Fin 0) \<and>
     \<not> f64_lt (Fin 1) (gc_consensus_threshold (gb_config g)) \<and>
     gc_max_block_size (gb_config g) \<noteq> 0 \<and> gc_max_transactions_per_block (gb_config g) \<noteq> 0"
  by (simp add: GenesisBlock_validate_def Let_def)

text \<open>Neither comparison holds of NaN, so a NaN threshold passes, and then one signature is enough.\<close>

lemma nan_threshold_accepted:
  assumes "GenesisBlock_validate g = Ok ()" and "0 < n"
  shows "GenesisBlock_validate (g\<lparr>gb_config := (gb_config g)\<lparr>gc_consensus_threshold := NaN\<rparr>\<rparr>) = Ok () \<and>
         calculate_required_signatures NaN n = 1"
proof -
  have "f64_mul x NaN = NaN" for x by (cases x) simp_all
  with assms show ?thesis
    by (simp add: GenesisBlock_validate_Ok calculate_required_signatures_def)
qed

lemma required_attainable:
  assumes "\<not> f64_le t (Fin 0)" and "\<not> f64_lt (Fin 1) t" and "0 < n" and "n \<le> 2 ^ 53"
  shows "1 \<le> calculate_required_signatures t n \<and> calculate_required_signatures t n \<le> n"
proof (cases t)
  case (Fin x)
  let ?p = "round_rat (of_nat n * x)"
  have x: "0 \<le> x" "x \<le> 1" using assms(1,2) Fin by simp_all
  have "?p \<le> of_int (int n)"
    using x assms(4) mult_left_mono [OF x(2), of "of_nat n"] by (intro round_rat_le_int) simp_all
  then have hi: "\<lceil>?p\<rceil> \<le> int n" by (simp add: ceiling_le_iff)
  have lo: "0 \<le> ?p" using x(1) by (intro round_rat_nonneg) simp
  have "(of_nat n :: rat) \<le> of_nat (2 ^ 53)" using assms(4) by (simp only: of_nat_le_iff)
  also have "\<dots> = pow2 53" by (simp add: pow2_def)
  also have "pow2 53 < pow2 1024" by (rule pow2_less) simp
  finally have "round64 (of_nat n * x) = Fin ?p"
    using \<open>?p \<le> of_int (int n)\<close> lo by (intro round64_Fin) simp
  then have "f64_to_usize (f64_ceil (f64_mul (f64_of_nat n) t)) = min (nat \<lceil>?p\<rceil>) (2 ^ 64 - 1)"
    using lo by (simp add: Fin f64_of_nat_exact [OF assms(4)])
  with hi assms(3) show ?thesis by (simp add: calculate_required_signatures_def)
next
  case NaN
  have "f64_mul y NaN = NaN" for y by (cases y) simp_all
  with NaN assms(3) show ?thesis by (simp add: calculate_required_signatures_def)
qed (use assms in simp_all)

section \<open>Properties\<close>

text \<open>
  From any non-empty list of validators, \<open>create_block\<close> yields a genesis block, the same one
  whatever the clock shows, so that all nodes derive the same genesis hash. The block passes
  \<open>validate\<close>, has height zero, the zero previous hash and the configured timestamp, and its
  transactions register exactly the configured validators, in their order.
\<close>

theorem genesis_create_block:
  assumes "gb_validators g \<noteq> []" and "bincode_total E"
  shows "\<exists>b. (\<forall>now. create_block E now g = Ok b) \<and> Block_validate E b = Ok () \<and>
             Block_height b = 0 \<and> Block_previous_hash b = BlockHash_zero \<and>
             Block_timestamp b = gb_timestamp g \<and>
             map (\<lambda>tx. registered_key (tx_type tx)) (blk_transactions b) = map Some (gb_validators g)"
proof -
  obtain b where b: "create_block E 0 g = Ok b" using create_block_total [OF assms] by blast
  then have "\<forall>now. create_block E now g = Ok b" by (simp add: create_block_Ok)
  with create_block_valid [OF b] show ?thesis by blast
qed

lemma sample_bincode_total: "bincode_total sample_env"
proof -
  have "is_ok (sample_bincode ty)" for ty by (cases ty) simp_all
  then show ?thesis by (simp add: bincode_total_def sample_env_def)
qed

theorem genesis_create_block_witness:
  "\<exists>b. create_block sample_env 7 (GenesisBlock_new [sample_key 1, sample_key 2] 1000) = Ok b \<and>
       Block_validate sample_env b = Ok () \<and> Block_timestamp b = 1000"
  using genesis_create_block [of "GenesisBlock_new [sample_key 1, sample_key 2] 1000" sample_env]
    sample_bincode_total by (auto simp: GenesisBlock_new_def)

text \<open>
  A validated genesis can always reach finality: for every threshold that \<open>validate\<close> accepts and
  up to \<open>2 ^ 53\<close> validators, the number of signatures required is at least one and at most the
  number of validators, whatever the rounding of the product does.
\<close>

theorem genesis_threshold_attainable:
  assumes "GenesisBlock_validate g = Ok ()" and "length (gb_validators g) \<le> 2 ^ 53"
  shows "1 \<le> calculate_required_signatures (gc_consensus_threshold (gb_config g)) (length (gb_validators g)) \<and>
         calculate_required_signatures (gc_consensus_threshold (gb_config g)) (length (gb_validators g))
           \<le> length (gb_validators g)"
  using assms by (intro required_attainable) (simp_all add: GenesisBlock_validate_Ok)

theorem genesis_threshold_attainable_witness:
  "calculate_required_signatures two_thirds_threshold (Suc (Suc 0)) \<le> Suc (Suc 0)"
proof -
  let ?g = "GenesisBlock_new [sample_key 1, sample_key 2] 1000"
  obtain t where t: "two_thirds_threshold = Fin t" "2 / 3 + 1 / 1000 \<le> t" "t \<le> 7 / 10"
    using two_thirds_threshold_value by blast
  have "\<not> f64_le two_thirds_threshold (Fin 0)" "\<not> f64_lt (Fin 1) two_thirds_threshold"
    unfolding t(1) using t(2,3) by simp_all
  then have "GenesisBlock_validate ?g = Ok ()"
    by (simp add: GenesisBlock_validate_Ok GenesisBlock_new_def GenesisConfig_default_def)
  from genesis_threshold_attainable [OF this] show ?thesis
    by (simp add: GenesisBlock_new_def GenesisConfig_default_def)
qed

end
