(* ===== verification/Chain.thy ===== *)
theory Chain
  imports Genesis "HOL-Library.Sublist"
begin

text \<open>
  \<open>blockchain-core/src/chain.rs\<close>: the chain of blocks with its two indices. A lookup that indexes
  the vector of blocks may panic, so lookups yield outcomes; that they do not panic on the chains
  the code builds is part of the properties. \<open>chain_wf\<close> is the invariant of the chains that
  \<open>new\<close> and \<open>add_block\<close> build; heights are words and may wrap, so it states heights modulo
  \<open>2 ^ 64\<close>, and only lookups need a chain shorter than that.
\<close>

section \<open>Data\<close>

record Blockchain =
  bc_blocks :: "Block list"
  bc_hash_to_height :: "(BlockHash, BlockHeight) hashmap"
  bc_tx_to_block :: "(TxId, BlockHeight) hashmap"
  bc_height :: BlockHeight
  bc_genesis_hash :: BlockHash

record ChainValidatorInfo =
  cvi_address :: Address
  cvi_public_key :: PublicKey
  cvi_stake :: u64
  cvi_is_active :: bool
  cvi_registered_at_height :: BlockHeight
  cvi_blocks_produced :: u64
  cvi_last_block_height :: "BlockHeight option"

record BlockchainStats =
  bs_height :: BlockHeight
  bs_total_blocks :: u64
  bs_total_transactions :: nat
  bs_avg_tx_per_block :: f64
  bs_genesis_hash :: BlockHash
  bs_latest_block_hash :: BlockHash
  bs_latest_block_timestamp :: Timestamp

section \<open>Operations\<close>

definition Blockchain_new :: "'z tx_externals_scheme \<Rightarrow> Timestamp \<Rightarrow> GenesisBlock \<Rightarrow> Blockchain outcome" where
  "Blockchain_new E now genesis =
     rbind (create_block E now genesis) (\<lambda>genesis_block.
       let genesis_hash = Block_hash genesis_block;
           hash_to_height = fmupd genesis_hash 0 fmempty;
           tx_to_block = hm_insert_all (map tx_id (blk_transactions genesis_block)) 0 fmempty
       in Ok \<lparr>bc_blocks = [genesis_block], bc_hash_to_height = hash_to_height, bc_tx_to_block = tx_to_block,
              bc_height = 0, bc_genesis_hash = genesis_hash\<rparr>)"

definition latest_block :: "Blockchain \<Rightarrow> Block outcome" where
  "latest_block c =
     (case vec_last (bc_blocks c) of
        None \<Rightarrow> Panic ''Blockchain must have at least genesis block''
      | Some block \<Rightarrow> Ok block)"

definition get_block_by_height :: "Blockchain \<Rightarrow> BlockHeight \<Rightarrow> Block option outcome" where
  "get_block_by_height c height =
     (if height \<le> bc_height c
      then rbind (vec_index (bc_blocks c) (unat height)) (\<lambda>block. Ok (Some block))
      else Ok None)"

definition get_block_by_hash :: "Blockchain \<Rightarrow> BlockHash \<Rightarrow> Block option outcome" where
  "get_block_by_hash c hash =
     (case fmlookup (bc_hash_to_height c) hash of
        None \<Rightarrow> Ok None
      | Some height \<Rightarrow> get_block_by_height c height)"

definition get_transaction :: "Blockchain \<Rightarrow> TxId \<Rightarrow> Transaction option outcome" where
  "get_transaction c i =
     (case fmlookup (bc_tx_to_block c) i of
        None \<Rightarrow> Ok None
      | Some height \<Rightarrow>
          rbind (get_block_by_height c height) (\<lambda>found.
            case found of None \<Rightarrow> Ok None | Some block \<Rightarrow> Ok (Block_get_transaction block i)))"

definition get_transaction_block_height :: "Blockchain \<Rightarrow> TxId \<Rightarrow> BlockHeight option" where
  "get_transaction_block_height c i = fmlookup (bc_tx_to_block c) i"

definition contains_transaction :: "Blockchain \<Rightarrow> TxId \<Rightarrow> bool" where
  "contains_transaction c i = hm_contains_key (bc_tx_to_block c) i"

text \<open>The three checks of \<open>add_block\<close>, then the update.\<close>

definition check_block :: "'z tx_externals_scheme \<Rightarrow> Blockchain \<Rightarrow> Block \<Rightarrow> unit outcome" where
  "check_block E c block =
     rbind (Block_validate E block) (\<lambda>_.
     rbind (latest_block c) (\<lambda>latest.
     rbind (validate_chain_link E block latest) (\<lambda>_.
       for_each (\<lambda>tx. if contains_transaction c (tx_id tx)
                      then Err (DuplicateTransaction (TxId_to_hex E (tx_id tx))) else Ok ())
         (blk_transactions block))))"

definition append_block :: "Blockchain \<Rightarrow> Block \<Rightarrow> Blockchain" where
  "append_block c block =
     (let block_height = Block_height block; block_hash = Block_hash block in
      c\<lparr>bc_hash_to_height := fmupd block_hash block_height (bc_hash_to_height c),
        bc_tx_to_block := hm_insert_all (map tx_id (blk_transactions block)) block_height (bc_tx_to_block c),
        bc_blocks := bc_blocks c @ [block],
        bc_height := block_height\<rparr>)"

definition add_block :: "'z tx_externals_scheme \<Rightarrow> Blockchain \<Rightarrow> Block \<Rightarrow> Blockchain \<times> unit outcome" where
  "add_block E c block =
     (case check_block E c block of
        Ok _ \<Rightarrow> (append_block c block, Ok ())
      | Err e \<Rightarrow> (c, Err e)
      | Panic m \<Rightarrow> (c, Panic m))"

definition chain_verify :: "'z tx_externals_scheme \<Rightarrow> Blockchain \<Rightarrow> unit outcome" where
  "chain_verify E c =
     (if bc_blocks c = [] then Err (InvalidBlock ''Blockchain is empty'')
      else rbind (vec_index (bc_blocks c) 0) (\<lambda>genesis.
        if Block_height genesis \<noteq> 0 then Err (GenesisError ''Genesis height must be 0'')
        else if Block_previous_hash genesis \<noteq> BlockHash_zero
        then Err (GenesisError ''Genesis must have zero previous hash'')
        else rbind (Block_validate E genesis) (\<lambda>_.
          for_each (\<lambda>i.
            rbind (vec_index (bc_blocks c) i) (\<lambda>current.
            rbind (vec_index (bc_blocks c) (i - 1)) (\<lambda>previous.
            rbind (Block_validate E current) (\<lambda>_. validate_chain_link E current previous))))
            [1..<length (bc_blocks c)])))"

text \<open>\<open>&v[start..=end]\<close>\<close>

definition slice_inclusive :: "'a list \<Rightarrow> nat \<Rightarrow> nat \<Rightarrow> ('a list, 'e) result" where
  "slice_inclusive xs start stop =
     (if start \<le> stop + 1 \<and> stop < length xs then Ok (take (stop + 1 - start) (drop start xs))
      else Panic ''range end index out of range for slice'')"

definition get_blocks_range :: "Blockchain \<Rightarrow> BlockHeight \<Rightarrow> BlockHeight \<Rightarrow> Block list outcome" where
  "get_blocks_range c start stop =
     (if stop < start \<or> bc_height c < stop then Ok []
      else slice_inclusive (bc_blocks c) (unat start) (unat stop))"

definition get_blocks_by_validator :: "Blockchain \<Rightarrow> PublicKey \<Rightarrow> Block list" where
  "get_blocks_by_validator c validator =
     filter (\<lambda>block. hdr_validator (blk_header block) = validator) (bc_blocks c)"

definition get_all_transactions :: "Blockchain \<Rightarrow> Transaction list" where
  "get_all_transactions c = concat (map blk_transactions (bc_blocks c))"

definition get_transactions_in_range :: "Blockchain \<Rightarrow> BlockHeight \<Rightarrow> BlockHeight \<Rightarrow> Transaction list outcome" where
  "get_transactions_in_range c start stop =
     rbind (get_blocks_range c start stop) (\<lambda>blocks. Ok (concat (map blk_transactions blocks)))"

definition transaction_count :: "Blockchain \<Rightarrow> nat" where
  "transaction_count c = hm_len (bc_tx_to_block c)"

text \<open>The placeholders, which the sources mark as not implemented.\<close>

definition chain_validator_count :: "Blockchain \<Rightarrow> nat" where
  "chain_validator_count c = 0"

definition chain_active_validator_count :: "Blockchain \<Rightarrow> nat" where
  "chain_active_validator_count c = 0"

definition active_election_count :: "Blockchain \<Rightarrow> nat" where
  "active_election_count c = 0"

definition get_validator_set_at_height :: "Blockchain \<Rightarrow> BlockHeight \<Rightarrow> ChainValidatorInfo list outcome" where
  "get_validator_set_at_height c height = Ok []"

definition get_validator_by_address :: "Blockchain \<Rightarrow> string \<Rightarrow> ChainValidatorInfo option" where
  "get_validator_by_address c address = None"

definition Blockchain_get_stats :: "Blockchain \<Rightarrow> BlockchainStats outcome" where
  "Blockchain_get_stats c =
     (let total_blocks = of_nat (length (bc_blocks c));
          total_transactions = transaction_count c;
          avg_tx_per_block = (if 0 < total_blocks
            then f64_div (f64_of_nat total_transactions) (f64_of_nat (unat total_blocks)) else Fin 0)
      in rbind (latest_block c) (\<lambda>latest.
         Ok \<lparr>bs_height = bc_height c, bs_total_blocks = total_blocks,
             bs_total_transactions = total_transactions, bs_avg_tx_per_block = avg_tx_per_block,
             bs_genesis_hash = bc_genesis_hash c, bs_latest_block_hash = Block_hash latest,
             bs_latest_block_timestamp = Block_timestamp latest\<rparr>))"

text \<open>The loop of \<open>prune_old_blocks\<close> over the blocks after the genesis.\<close>

definition prune_block ::
  "Timestamp \<Rightarrow> Block \<Rightarrow> Block list \<times> (BlockHash, BlockHeight) hashmap \<times> (TxId, BlockHeight) hashmap \<times> nat \<Rightarrow>
   Block list \<times> (BlockHash, BlockHeight) hashmap \<times> (TxId, BlockHeight) hashmap \<times> nat" where
  "prune_block before_timestamp block = (\<lambda>(new_blocks, hash_to_height, tx_to_block, pruned_count).
     if before_timestamp \<le> Block_timestamp block
     then (new_blocks @ [block], hash_to_height, tx_to_block, pruned_count)
     else (new_blocks, fmdrop (Block_hash block) hash_to_height,
           hm_remove_all (map tx_id (blk_transactions block)) tx_to_block, pruned_count + 1))"

definition prune_old_blocks :: "Blockchain \<Rightarrow> Timestamp \<Rightarrow> Blockchain \<times> nat outcome" where
  "prune_old_blocks c before_timestamp =
     (case vec_index (bc_blocks c) 0 of
        Ok genesis \<Rightarrow>
          (let (new_blocks, hash_to_height, tx_to_block, pruned_count) =
                 fold (prune_block before_timestamp) (drop 1 (bc_blocks c))
                   ([genesis], bc_hash_to_height c, bc_tx_to_block c, 0)
           in (c\<lparr>bc_blocks := new_blocks, bc_hash_to_height := hash_to_height,
                 bc_tx_to_block := tx_to_block\<rparr>, Ok pruned_count))
      | Err e \<Rightarrow> (c, Err e)
      | Panic m \<Rightarrow> (c, Panic m))"

definition get_block_at_height :: "Blockchain \<Rightarrow> BlockHeight \<Rightarrow> Block outcome" where
  "get_block_at_height c height =
     (case List.find (\<lambda>b. hdr_height (blk_header b) = height) (bc_blocks c) of
        None \<Rightarrow> Err (BlockNotFound (show_nat (unat height)))
      | Some block \<Rightarrow> Ok block)"

definition get_best_block :: "Blockchain \<Rightarrow> Block outcome" where
  "get_best_block c =
     (case vec_last (bc_blocks c) of
        None \<Rightarrow> Err (BlockNotFound ''No blocks in chain'')
      | Some block \<Rightarrow> Ok block)"

section \<open>The invariant\<close>

text \<open>Every block but the first follows its predecessor.\<close>

definition chain_linked :: "Block list \<Rightarrow> bool" where
  "chain_linked bs \<longleftrightarrow>
     (\<forall>i. 0 < i \<and> i < length bs \<longrightarrow>
        Block_previous_hash (bs ! i) = Block_hash (bs ! (i - 1)) \<and>
        Block_timestamp (bs ! (i - 1)) \<le> Block_timestamp (bs ! i))"

definition tx_ids :: "Block \<Rightarrow> TxId set" where
  "tx_ids b = tx_id ` set (blk_transactions b)"

definition blocks_wf :: "'z tx_externals_scheme \<Rightarrow> Block list \<Rightarrow> bool" where
  "blocks_wf E bs \<longleftrightarrow>
     bs \<noteq> [] \<and> Block_previous_hash (hd bs) = BlockHash_zero \<and>
     (\<forall>b \<in> set bs. Block_validate E b = Ok ()) \<and>
     (\<forall>i < length bs. Block_height (bs ! i) = of_nat i) \<and>
     chain_linked bs"

text \<open>No transaction is in two blocks, and the two indices describe the blocks.\<close>

definition tx_once :: "Block list \<Rightarrow> bool" where
  "tx_once bs \<longleftrightarrow>
     (\<forall>i < length bs. \<forall>j < length bs. tx_ids (bs ! i) \<inter> tx_ids (bs ! j) \<noteq> {} \<longrightarrow> i = j)"

definition hash_index :: "Block list \<Rightarrow> (BlockHash, BlockHeight) hashmap \<Rightarrow> bool" where
  "hash_index bs m \<longleftrightarrow>
     (\<forall>b \<in> set bs. hm_contains_key m (Block_hash b)) \<and>
     (\<forall>h k. fmlookup m h = Some k \<longrightarrow> (\<exists>i < length bs. k = of_nat i \<and> Block_hash (bs ! i) = h))"

definition tx_index :: "Block list \<Rightarrow> (TxId, BlockHeight) hashmap \<Rightarrow> bool" where
  "tx_index bs m \<longleftrightarrow>
     (\<forall>t k. fmlookup m t = Some k \<longleftrightarrow> (\<exists>i < length bs. k = of_nat i \<and> t \<in> tx_ids (bs ! i)))"

definition chain_wf :: "'z tx_externals_scheme \<Rightarrow> Blockchain \<Rightarrow> bool" where
  "chain_wf E c \<longleftrightarrow>
     blocks_wf E (bc_blocks c) \<and> tx_once (bc_blocks c) \<and>
     hash_index (bc_blocks c) (bc_hash_to_height c) \<and> tx_index (bc_blocks c) (bc_tx_to_block c) \<and>
     bc_height c = of_nat (length (bc_blocks c) - 1) \<and>
     bc_genesis_hash c = Block_hash (hd (bc_blocks c))"

inductive chain_step :: "'z tx_externals_scheme \<Rightarrow> Blockchain \<Rightarrow> Blockchain \<Rightarrow> bool" for E where
  add: "add_block E c b = (c', r) \<Longrightarrow> chain_step E c c'"

inductive_cases chain_stepE: "chain_step E c c'"

lemma latest_block_Ok: "latest_block c = Ok b \<longleftrightarrow> bc_blocks c \<noteq> [] \<and> b = last (bc_blocks c)"
  by (auto simp: latest_block_def vec_last_def)

lemma check_block_Ok:
  "check_block E c b = Ok () \<longleftrightarrow>
     bc_blocks c \<noteq> [] \<and> Block_validate E b = Ok () \<and>
     Block_height b = Block_height (last (bc_blocks c)) + 1 \<and>
     Block_previous_hash b = Block_hash (last (bc_blocks c)) \<and>
     Block_timestamp (last (bc_blocks c)) \<le> Block_timestamp b \<and>
     (\<forall>t \<in> tx_ids b. \<not> contains_transaction c t)"
  by (auto simp: check_block_def outcome_simps latest_block_Ok validate_chain_link_Ok tx_ids_def)

lemma add_block_cases:
  assumes "add_block E c b = (c', r)"
  shows "(r = Ok () \<and> check_block E c b = Ok () \<and> c' = append_block c b) \<or> (r \<noteq> Ok () \<and> c' = c)"
  using assms by (auto simp: add_block_def split: result.splits)

lemma append_block_fields [simp]:
  "bc_blocks (append_block c b) = bc_blocks c @ [b]"
  "bc_height (append_block c b) = Block_height b"
  "bc_genesis_hash (append_block c b) = bc_genesis_hash c"
  "bc_hash_to_height (append_block c b) = fmupd (Block_hash b) (Block_height b) (bc_hash_to_height c)"
  "bc_tx_to_block (append_block c b) =
     hm_insert_all (map tx_id (blk_transactions b)) (Block_height b) (bc_tx_to_block c)"
  by (simp_all add: append_block_def Let_def)

lemma chain_linked_snoc:
  assumes "chain_linked bs" and "bs \<noteq> []"
    and "Block_previous_hash b = Block_hash (last bs)" and "Block_timestamp (last bs) \<le> Block_timestamp b"
  shows "chain_linked (bs @ [b])"
proof -
  have "Block_previous_hash ((bs @ [b]) ! i) = Block_hash ((bs @ [b]) ! (i - 1)) \<and>
        Block_timestamp ((bs @ [b]) ! (i - 1)) \<le> Block_timestamp ((bs @ [b]) ! i)"
    if i: "0 < i" "i < length (bs @ [b])" for i
  proof (cases "i < length bs")
    case True
    then have "i - 1 < length bs" by simp
    with True i assms(1) show ?thesis by (simp add: chain_linked_def nth_append)
  next
    case False
    with i have "i = length bs" by simp
    with assms(2-4) show ?thesis by (simp add: nth_append last_conv_nth)
  qed
  then show ?thesis by (simp add: chain_linked_def)
qed

lemma blocks_wf_last_height:
  assumes "blocks_wf E bs"
  shows "Block_height (last bs) + 1 = of_nat (length bs)"
proof -
  have "Block_height (last bs) = of_nat (length bs - 1)" "bs \<noteq> []"
    using assms by (simp_all add: blocks_wf_def last_conv_nth)
  then show ?thesis by (metis One_nat_def Suc_pred length_greater_0_conv of_nat_Suc add.commute)
qed

lemma blocks_wf_snoc:
  assumes "blocks_wf E bs" and "Block_validate E b = Ok ()" and "Block_height b = of_nat (length bs)"
    and "Block_previous_hash b = Block_hash (last bs)" and "Block_timestamp (last bs) \<le> Block_timestamp b"
  shows "blocks_wf E (bs @ [b])"
proof -
  have "\<forall>i < length (bs @ [b]). Block_height ((bs @ [b]) ! i) = of_nat i"
    using assms(1,3) by (simp add: blocks_wf_def All_less_Suc nth_append)
  moreover have "chain_linked (bs @ [b])"
    using assms by (intro chain_linked_snoc) (simp_all add: blocks_wf_def)
  ultimately show ?thesis using assms(1,2) by (auto simp: blocks_wf_def)
qed

lemma tx_once_snoc:
  assumes "tx_once bs" and "\<And>i. i < length bs \<Longrightarrow> tx_ids (bs ! i) \<inter> tx_ids b = {}"
  shows "tx_once (bs @ [b])"
  using assms by (auto simp: tx_once_def less_Suc_eq nth_append)

lemma hash_index_snoc:
  assumes "hash_index bs m" and "Block_height b = of_nat (length bs)"
  shows "hash_index (bs @ [b]) (fmupd (Block_hash b) (Block_height b) m)"
proof -
  have "\<exists>i < length (bs @ [b]). k = of_nat i \<and> Block_hash ((bs @ [b]) ! i) = h"
    if "fmlookup (fmupd (Block_hash b) (Block_height b) m) h = Some k" for h k
  proof (cases "Block_hash b = h")
    case True
    with that assms(2) show ?thesis by (auto intro!: exI [of _ "length bs"])
  next
    case False
    with that have "fmlookup m h = Some k" by simp
    with assms(1) obtain i where "i < length bs" "k = of_nat i" "Block_hash (bs ! i) = h"
      unfolding hash_index_def by blast
    then show ?thesis by (auto intro!: exI [of _ i] simp: nth_append)
  qed
  with assms(1) show ?thesis by (auto simp: hash_index_def)
qed

lemma tx_index_snoc:
  assumes "tx_index bs m" and "Block_height b = of_nat (length bs)"
    and "\<And>i. i < length bs \<Longrightarrow> tx_ids (bs ! i) \<inter> tx_ids b = {}"
  shows "tx_index (bs @ [b]) (hm_insert_all (map tx_id (blk_transactions b)) (Block_height b) m)"
proof -
  have ex: "(\<exists>i < length (bs @ [b]). k = of_nat i \<and> t \<in> tx_ids ((bs @ [b]) ! i)) \<longleftrightarrow>
            (k = of_nat (length bs) \<and> t \<in> tx_ids b) \<or> (\<exists>i < length bs. k = of_nat i \<and> t \<in> tx_ids (bs ! i))" for k t
    by (simp add: Ex_less_Suc nth_append cong: conj_cong)
  have "fmlookup (hm_insert_all (map tx_id (blk_transactions b)) (Block_height b) m) t = Some k \<longleftrightarrow>
        (k = of_nat (length bs) \<and> t \<in> tx_ids b) \<or> (\<exists>i < length bs. k = of_nat i \<and> t \<in> tx_ids (bs ! i))" for t k
  proof (cases "t \<in> tx_ids b")
    case True
    then have "\<not> (\<exists>i < length bs. k = of_nat i \<and> t \<in> tx_ids (bs ! i))" using assms(3) by blast
    with True show ?thesis by (auto simp: tx_ids_def assms(2))
  next
    case False
    then have "fmlookup (hm_insert_all (map tx_id (blk_transactions b)) (Block_height b) m) t = fmlookup m t"
      by (simp add: tx_ids_def)
    with False assms(1) show ?thesis by (simp add: tx_index_def)
  qed
  then show ?thesis unfolding tx_index_def ex by blast
qed

lemma chain_wf_tx_fresh:
  assumes "tx_index bs m" and "\<not> hm_contains_key m t" and "i < length bs"
  shows "t \<notin> tx_ids (bs ! i)"
  using assms by (auto simp: tx_index_def hm_contains_key_def)

lemma chain_wf_append:
  assumes wf: "chain_wf E c" and ok: "check_block E c b = Ok ()"
  shows "chain_wf E (append_block c b)"
proof -
  have h: "Block_height b = of_nat (length (bc_blocks c))"
    using wf ok blocks_wf_last_height [of E "bc_blocks c"] by (simp add: check_block_Ok chain_wf_def)
  have fresh: "tx_ids (bc_blocks c ! i) \<inter> tx_ids b = {}" if "i < length (bc_blocks c)" for i
    using that wf ok chain_wf_tx_fresh [of "bc_blocks c" "bc_tx_to_block c"]
    by (auto simp: check_block_Ok contains_transaction_def chain_wf_def)
  have "hd (bc_blocks c @ [b]) = hd (bc_blocks c)"
    using ok by (simp add: check_block_Ok)
  moreover have "blocks_wf E (bc_blocks c @ [b])"
    using wf ok h by (intro blocks_wf_snoc) (auto simp: chain_wf_def check_block_Ok)
  moreover have "tx_once (bc_blocks c @ [b])"
    using wf by (intro tx_once_snoc fresh) (simp add: chain_wf_def)
  moreover have "hash_index (bc_blocks c @ [b]) (bc_hash_to_height (append_block c b))"
    using wf hash_index_snoc [OF _ h] by (simp add: chain_wf_def)
  moreover have "tx_index (bc_blocks c @ [b]) (bc_tx_to_block (append_block c b))"
    using wf tx_index_snoc [OF _ h fresh] by (simp add: chain_wf_def)
  ultimately show ?thesis
    using wf h by (simp add: chain_wf_def)
qed

lemma Blockchain_new_Ok:
  "Blockchain_new E now g = Ok c \<longleftrightarrow>
     (\<exists>b. create_block E now g = Ok b \<and>
        c = \<lparr>bc_blocks = [b], bc_hash_to_height = fmupd (Block_hash b) 0 fmempty,
             bc_tx_to_block = hm_insert_all (map tx_id (blk_transactions b)) 0 fmempty,
             bc_height = 0, bc_genesis_hash = Block_hash b\<rparr>)"
  by (auto simp: Blockchain_new_def Let_def outcome_simps)

lemma chain_wf_new:
  assumes "Blockchain_new E now g = Ok c"
  shows "chain_wf E c"
proof -
  obtain b where b: "create_block E now g = Ok b" and c: "bc_blocks c = [b]"
      "bc_hash_to_height c = fmupd (Block_hash b) 0 fmempty"
      "bc_tx_to_block c = hm_insert_all (map tx_id (blk_transactions b)) 0 fmempty"
      "bc_height c = 0" "bc_genesis_hash c = Block_hash b"
    using assms by (auto simp: Blockchain_new_Ok)
  from create_block_valid [OF b] show ?thesis
    by (auto simp: chain_wf_def blocks_wf_def tx_once_def hash_index_def tx_index_def c chain_linked_def
        tx_ids_def split: if_splits)
qed

lemma chain_wf_step: "chain_step E c c' \<Longrightarrow> chain_wf E c \<Longrightarrow> chain_wf E c'"
  by (elim chain_stepE) (auto dest!: add_block_cases intro: chain_wf_append)

interpretation chain: invariant_system "\<lambda>c. \<exists>now g. Blockchain_new E now g = Ok c" "chain_step E" "chain_wf E"
  for E :: "'z tx_externals_scheme"
  by unfold_locales (auto intro: chain_wf_new chain_wf_step)

section \<open>Lookups\<close>

lemma unat_of_nat_small: "i < 2 ^ 64 \<Longrightarrow> unat (of_nat i :: u64) = i"
  by (simp add: unat_of_nat)

lemma get_block_by_height_eq:
  assumes "chain_wf E c" and "length (bc_blocks c) \<le> 2 ^ 64"
  shows "get_block_by_height c k = Ok (vec_get (bc_blocks c) (unat k))"
proof -
  have ne: "0 < length (bc_blocks c)" using assms(1) by (simp add: chain_wf_def blocks_wf_def)
  then have "unat (bc_height c) = length (bc_blocks c) - 1"
    using assms by (simp add: chain_wf_def unat_of_nat)
  then have "k \<le> bc_height c \<longleftrightarrow> unat k < length (bc_blocks c)"
    using ne unfolding word_le_nat_alt by linarith
  then show ?thesis by (simp add: get_block_by_height_def vec_get_def)
qed

lemma find_heights:
  assumes "\<forall>i < length bs. Block_height (bs ! i) = of_nat i" and "length bs \<le> 2 ^ 64"
  shows "List.find (\<lambda>b. Block_height b = k) bs = vec_get bs (unat k)"
proof (cases "unat k < length bs")
  case True
  have "Block_height (bs ! j) \<noteq> k" if "j < unat k" for j
  proof -
    have "unat (Block_height (bs ! j)) = j"
      using that True assms unat_of_nat_small [of j] by simp
    with that show ?thesis by auto
  qed
  moreover have "Block_height (bs ! unat k) = k" using True assms(1) by simp
  ultimately have "List.find (\<lambda>b. Block_height b = k) bs = Some (bs ! unat k)"
    unfolding find_Some_iff using True by blast
  with True show ?thesis by (simp add: vec_get_def)
next
  case False
  have "Block_height b \<noteq> k" if "b \<in> set bs" for b
  proof -
    obtain i where i: "i < length bs" "b = bs ! i" using \<open>b \<in> set bs\<close> by (auto simp: in_set_conv_nth)
    then have "unat (Block_height b) = i" using assms unat_of_nat_small [of i] by simp
    with i False show ?thesis by auto
  qed
  then have "List.find (\<lambda>b. Block_height b = k) bs = None" by (auto simp: find_None_iff)
  with False show ?thesis by (simp add: vec_get_def)
qed

lemma get_block_by_hash_cases:
  assumes "chain_wf E c" and "length (bc_blocks c) \<le> 2 ^ 64"
  shows "(\<exists>b \<in> set (bc_blocks c). Block_hash b = h \<and> get_block_by_hash c h = Ok (Some b)) \<or>
         ((\<forall>b \<in> set (bc_blocks c). Block_hash b \<noteq> h) \<and> get_block_by_hash c h = Ok None)"
proof (cases "fmlookup (bc_hash_to_height c) h")
  case None
  then have "\<forall>b \<in> set (bc_blocks c). Block_hash b \<noteq> h"
    using assms(1) by (auto simp: chain_wf_def hash_index_def hm_contains_key_def)
  with None show ?thesis by (simp add: get_block_by_hash_def)
next
  case (Some k)
  then obtain i where i: "i < length (bc_blocks c)" "k = of_nat i" "Block_hash (bc_blocks c ! i) = h"
    using assms(1) unfolding chain_wf_def hash_index_def by blast
  then have "unat k = i" using assms(2) unat_of_nat_small [of i] by simp
  with i Some have "get_block_by_hash c h = Ok (Some (bc_blocks c ! i))"
    by (simp add: get_block_by_hash_def get_block_by_height_eq [OF assms] vec_get_def)
  with i show ?thesis by auto
qed

lemma find_append: "List.find P (xs @ ys) = (case List.find P xs of None \<Rightarrow> List.find P ys | Some x \<Rightarrow> Some x)"
  by (induction xs) auto

lemma find_concat_only:
  assumes "i < length xss" and "\<And>j x. j < length xss \<Longrightarrow> j \<noteq> i \<Longrightarrow> x \<in> set (xss ! j) \<Longrightarrow> \<not> P x"
  shows "List.find P (concat xss) = List.find P (xss ! i)"
  using assms
proof (induction xss arbitrary: i)
  case (Cons xs xss)
  show ?case
  proof (cases i)
    case 0
    then have "\<not> P x" if "x \<in> set (concat xss)" for x
      using that Cons.prems(2) [of "Suc j" for j] by (auto simp: in_set_conv_nth [of _ xss])
    then have "List.find P (concat xss) = None" unfolding find_None_iff by blast
    with 0 show ?thesis by (simp add: find_append split: option.splits)
  next
    case (Suc k)
    then have "List.find P xs = None" using Cons.prems(2) [of 0] by (auto simp: find_None_iff)
    moreover have "List.find P (concat xss) = List.find P (xss ! k)"
    proof (rule Cons.IH)
      show "k < length xss" using Cons.prems(1) Suc by simp
      show "\<not> P x" if "j < length xss" "j \<noteq> k" "x \<in> set (xss ! j)" for j x
        using Cons.prems(2) [of "Suc j" x] that Suc by simp
    qed
    ultimately show ?thesis by (simp add: Suc find_append)
  qed
qed simp

lemma get_transaction_eq:
  assumes "chain_wf E c" and "length (bc_blocks c) \<le> 2 ^ 64"
  shows "get_transaction c t = Ok (List.find (\<lambda>tx. tx_id tx = t) (get_all_transactions c))"
proof (cases "fmlookup (bc_tx_to_block c) t")
  case None
  then have none: "t \<notin> tx_ids (bc_blocks c ! i)" if "i < length (bc_blocks c)" for i
    using that chain_wf_tx_fresh [of "bc_blocks c" "bc_tx_to_block c" t i] assms(1)
    by (simp add: chain_wf_def hm_contains_key_def)
  have "List.find (\<lambda>tx. tx_id tx = t) (get_all_transactions c) = None"
    using none
    by (auto simp: find_None_iff get_all_transactions_def in_set_conv_nth [of _ "bc_blocks c"] tx_ids_def image_iff)
       blast
  with None show ?thesis by (simp add: get_transaction_def)
next
  case (Some k)
  then obtain i where i: "i < length (bc_blocks c)" "k = of_nat i" "t \<in> tx_ids (bc_blocks c ! i)"
    using assms(1) unfolding chain_wf_def tx_index_def by blast
  then have "unat k = i" using assms(2) unat_of_nat_small [of i] by simp
  then have "get_transaction c t = Ok (Block_get_transaction (bc_blocks c ! i) t)"
    using i Some by (simp add: get_transaction_def get_block_by_height_eq [OF assms] vec_get_def)
  moreover have only: "tx_id tx \<noteq> t"
    if "j < length (bc_blocks c)" "j \<noteq> i" "tx \<in> set (blk_transactions (bc_blocks c ! j))" for j tx
    using that i assms(1) by (auto simp: chain_wf_def tx_once_def tx_ids_def)
  then have "List.find (\<lambda>tx. tx_id tx = t) (concat (map blk_transactions (bc_blocks c))) =
             List.find (\<lambda>tx. tx_id tx = t) (map blk_transactions (bc_blocks c) ! i)"
    using i(1) by (intro find_concat_only) auto
  ultimately show ?thesis using i(1) by (simp add: get_all_transactions_def Block_get_transaction_def)
qed

lemma chain_verify_Ok: "chain_wf E c \<Longrightarrow> chain_verify E c = Ok ()"
proof -
  assume wf: "chain_wf E c"
  then have bs: "bc_blocks c \<noteq> []" "Block_previous_hash (bc_blocks c ! 0) = BlockHash_zero"
      "Block_height (bc_blocks c ! 0) = 0" "\<forall>b \<in> set (bc_blocks c). Block_validate E b = Ok ()"
    by (auto simp: chain_wf_def blocks_wf_def hd_conv_nth)
  have "validate_chain_link E (bc_blocks c ! i) (bc_blocks c ! (i - 1)) = Ok ()"
    if "0 < i" "i < length (bc_blocks c)" for i
  proof -
    have "Block_height (bc_blocks c ! i) = of_nat i" "Block_height (bc_blocks c ! (i - 1)) = of_nat (i - 1)"
      using that wf by (simp_all add: chain_wf_def blocks_wf_def)
    then have "Block_height (bc_blocks c ! i) = Block_height (bc_blocks c ! (i - 1)) + 1"
      using \<open>0 < i\<close> by (metis Suc_pred' of_nat_Suc add.commute)
    with that wf show ?thesis
      by (simp add: validate_chain_link_Ok chain_wf_def blocks_wf_def chain_linked_def)
  qed
  with bs show ?thesis by (auto simp: chain_verify_def outcome_simps)
qed

section \<open>Growth\<close>

lemma chain_step_prefix:
  "chain_step E c c' \<Longrightarrow> prefix (bc_blocks c) (bc_blocks c') \<and> bc_genesis_hash c' = bc_genesis_hash c"
  by (elim chain_stepE) (auto dest!: add_block_cases)

lemma chain_steps_prefix:
  "(chain_step E)\<^sup>*\<^sup>* c c' \<Longrightarrow> prefix (bc_blocks c) (bc_blocks c') \<and> bc_genesis_hash c' = bc_genesis_hash c"
  by (induction rule: rtranclp_induct) (auto dest: chain_step_prefix intro: prefix_order.trans)

lemma Block_validate_no_panic: "bincode_total E \<Longrightarrow> \<not> is_panic (Block_validate E b)"
proof -
  assume "bincode_total E"
  have "\<not> is_panic (Transaction_validate E tx)" for tx
  proof -
    obtain payload where "bincode_tx_type E (tx_type tx) = Ok payload"
      using \<open>bincode_total E\<close> by (auto simp: bincode_total_def outcome_simps)
    then show ?thesis
      using validate_payload_no_panic
      by (simp add: Transaction_validate_def calculate_id_def serialize_for_hashing_def)
  qed
  then have "\<not> is_panic (for_each (Transaction_validate E) (blk_transactions b))"
    by (intro for_each_no_panic)
  then show ?thesis by (auto simp: Block_validate_def Let_def)
qed

lemma check_block_no_panic:
  assumes "bincode_total E" and "bc_blocks c \<noteq> []"
  shows "\<not> is_panic (check_block E c b)"
proof -
  have "\<not> is_panic (for_each (\<lambda>tx. if contains_transaction c (tx_id tx)
           then Err (DuplicateTransaction (TxId_to_hex E (tx_id tx))) else Ok ()) (blk_transactions b))"
    by (rule for_each_no_panic) simp
  moreover have "\<not> is_panic (latest_block c)"
    using assms(2) by (simp add: latest_block_def vec_last_def)
  ultimately show ?thesis
    using Block_validate_no_panic [OF assms(1)] validate_chain_link_no_panic [of E]
    by (simp add: check_block_def rbind_is_panic)
qed

section \<open>Pruning\<close>

lemma prune_fold:
  "fold (prune_block t) bs (new, hm, tm, n) =
     (new @ filter (\<lambda>b. t \<le> Block_timestamp b) bs,
      hm_remove_all (map Block_hash (filter (\<lambda>b. \<not> t \<le> Block_timestamp b) bs)) hm,
      hm_remove_all (concat (map (\<lambda>b. map tx_id (blk_transactions b)) (filter (\<lambda>b. \<not> t \<le> Block_timestamp b) bs))) tm,
      n + length (filter (\<lambda>b. \<not> t \<le> Block_timestamp b) bs))"
  by (induction bs arbitrary: new hm tm n) (simp_all add: prune_block_def hm_remove_all_def)

text \<open>The blocks that pruning keeps and drops.\<close>

definition kept_blocks :: "Blockchain \<Rightarrow> Timestamp \<Rightarrow> Block list" where
  "kept_blocks c t = hd (bc_blocks c) # filter (\<lambda>b. t \<le> Block_timestamp b) (tl (bc_blocks c))"

definition dropped_blocks :: "Blockchain \<Rightarrow> Timestamp \<Rightarrow> Block list" where
  "dropped_blocks c t = filter (\<lambda>b. \<not> t \<le> Block_timestamp b) (tl (bc_blocks c))"

lemma prune_old_blocks_eq:
  assumes "bc_blocks c \<noteq> []"
  shows "prune_old_blocks c t =
     (c\<lparr>bc_blocks := kept_blocks c t,
        bc_hash_to_height := hm_remove_all (map Block_hash (dropped_blocks c t)) (bc_hash_to_height c),
        bc_tx_to_block := hm_remove_all (concat (map (\<lambda>b. map tx_id (blk_transactions b)) (dropped_blocks c t)))
                            (bc_tx_to_block c)\<rparr>,
      Ok (length (dropped_blocks c t)))"
  using assms
  by (simp add: prune_old_blocks_def prune_fold kept_blocks_def dropped_blocks_def hd_conv_nth drop_Suc)

lemma length_kept_dropped:
  "bc_blocks c \<noteq> [] \<Longrightarrow> length (kept_blocks c t) + length (dropped_blocks c t) = length (bc_blocks c)"
  unfolding kept_blocks_def dropped_blocks_def
  using sum_length_filter_compl [of "\<lambda>b. t \<le> Block_timestamp b" "tl (bc_blocks c)"] by simp

lemma set_kept_dropped:
  "bc_blocks c \<noteq> [] \<Longrightarrow> set (bc_blocks c) = set (kept_blocks c t) \<union> set (dropped_blocks c t)"
  by (cases "bc_blocks c") (auto simp: kept_blocks_def dropped_blocks_def)

text \<open>A kept and a dropped block have no transaction in common, as they stand at different places.\<close>

lemma in_set_tl_nth: "x \<in> set (tl xs) \<Longrightarrow> \<exists>i. 0 < i \<and> i < length xs \<and> xs ! i = x"
proof (cases xs)
  case (Cons y ys)
  assume "x \<in> set (tl xs)"
  with Cons obtain j where "j < length ys" "ys ! j = x" by (auto simp: in_set_conv_nth)
  with Cons show ?thesis by (intro exI [of _ "Suc j"]) simp
qed simp

lemma nth_dropped:
  assumes "b \<in> set (dropped_blocks c t)"
  shows "\<exists>i. 0 < i \<and> i < length (bc_blocks c) \<and> bc_blocks c ! i = b \<and> Block_timestamp b < t"
  using assms in_set_tl_nth [of b "bc_blocks c"] by (auto simp: dropped_blocks_def)

lemma nth_kept:
  assumes "b \<in> set (kept_blocks c t)" and "bc_blocks c \<noteq> []"
  shows "\<exists>i < length (bc_blocks c). bc_blocks c ! i = b \<and> (i = 0 \<or> t \<le> Block_timestamp b)"
  using assms in_set_tl_nth [of b "bc_blocks c"] by (auto simp: kept_blocks_def hd_conv_nth)

lemma kept_dropped_disjoint:
  assumes "chain_wf E c" and "a \<in> set (kept_blocks c t)" and "b \<in> set (dropped_blocks c t)"
  shows "tx_ids a \<inter> tx_ids b = {}"
proof -
  have ne: "bc_blocks c \<noteq> []" using assms(1) by (simp add: chain_wf_def blocks_wf_def)
  obtain i where i: "i < length (bc_blocks c)" "bc_blocks c ! i = a" "i = 0 \<or> t \<le> Block_timestamp a"
    using nth_kept [OF assms(2) ne] by blast
  obtain j where j: "0 < j" "j < length (bc_blocks c)" "bc_blocks c ! j = b" "Block_timestamp b < t"
    using nth_dropped [OF assms(3)] by blast
  have "i \<noteq> j" using i j by auto
  with i j assms(1) show ?thesis by (auto simp: chain_wf_def tx_once_def)
qed

lemma chain_wf_contains:
  assumes "chain_wf E c"
  shows "contains_transaction c t \<longleftrightarrow> (\<exists>b \<in> set (bc_blocks c). t \<in> tx_ids b)"
proof -
  have "contains_transaction c t \<longleftrightarrow> (\<exists>i < length (bc_blocks c). t \<in> tx_ids (bc_blocks c ! i))"
    using assms unfolding contains_transaction_def hm_contains_key_def chain_wf_def tx_index_def by auto
  then show ?thesis by (metis in_set_conv_nth)
qed

text \<open>
  Pruning keeps the height while the vector of blocks becomes shorter, so that looking up the
  newest height panics.
\<close>

lemma prune_then_lookup_panics:
  assumes "chain_wf E c" and "length (bc_blocks c) \<le> 2 ^ 64"
    and "prune_old_blocks c t = (c', Ok n)" and "0 < n"
  shows "is_panic (get_block_by_height c' (bc_height c'))"
proof -
  have ne: "bc_blocks c \<noteq> []" using assms(1) by (simp add: chain_wf_def blocks_wf_def)
  then have c': "bc_blocks c' = kept_blocks c t" "bc_height c' = of_nat (length (bc_blocks c) - 1)"
      "n = length (dropped_blocks c t)"
    using assms(1,3) by (auto simp: prune_old_blocks_eq chain_wf_def)
  have "unat (bc_height c') = length (bc_blocks c) - 1"
    unfolding c'(2) using ne assms(2) by (intro unat_of_nat_small) (cases "bc_blocks c"; simp)
  moreover have "length (bc_blocks c') \<le> length (bc_blocks c) - 1"
    unfolding c'(1) using length_kept_dropped [OF ne, of t] assms(4) c'(3) by linarith
  ultimately show ?thesis
    by (simp add: get_block_by_height_def rbind_is_panic vec_index_def)
qed

text \<open>Duplicates are looked for in the chain only, so a block may hold one transaction twice.\<close>

lemma duplicate_in_block_accepted:
  assumes "bc_blocks c \<noteq> []" and "Transaction_validate E tx = Ok ()" and "\<not> contains_transaction c (tx_id tx)"
    and "Block_timestamp (last (bc_blocks c)) \<le> now"
    and "Block_new E now (Block_height (last (bc_blocks c)) + 1) (Block_hash (last (bc_blocks c))) [tx, tx] v = Ok b"
  shows "add_block E c b = (append_block c b, Ok ())"
proof -
  have "check_block E c b = Ok ()"
    using assms Block_new_fields [OF assms(5)] by (auto simp: check_block_Ok Block_validate_Ok tx_ids_def)
  then show ?thesis by (simp add: add_block_def)
qed

section \<open>Equal tips\<close>

lemma blocks_wf_tip_binding:
  assumes "blocks_wf E as" and "blocks_wf E bs" and "length as = length bs"
    and "inj_on (blake2b_256 E) ((header_bytes \<circ> blk_header) ` (set as \<union> set bs))"
    and "Block_hash (last as) = Block_hash (last bs)"
    and "k < length as"
  shows "blk_header (as ! (length as - 1 - k)) = blk_header (bs ! (length as - 1 - k))"
proof -
  have same: "blk_header (as ! i) = blk_header (bs ! i)"
    if "i < length as" "Block_hash (as ! i) = Block_hash (bs ! i)" for i
  proof (rule valid_same_hash_same_header)
    have in_set: "as ! i \<in> set as" "bs ! i \<in> set bs" using that assms(3) by simp_all
    then show "Block_validate E (as ! i) = Ok ()" "Block_validate E (bs ! i) = Ok ()"
      using assms(1,2) by (simp_all add: blocks_wf_def)
    show "inj_on (blake2b_256 E) {header_bytes (blk_header (as ! i)), header_bytes (blk_header (bs ! i))}"
      using in_set by (intro inj_on_subset [OF assms(4)]) auto
  qed fact
  from assms(6) show ?thesis
  proof (induction k)
    case 0
    have "as \<noteq> []" "bs \<noteq> []" using assms(1,2) by (simp_all add: blocks_wf_def)
    with same [of "length as - 1"] assms(3,5) show ?case by (simp add: last_conv_nth)
  next
    case (Suc k)
    let ?i = "length as - 1 - k"
    have i: "0 < ?i" "?i < length as" "length as - 1 - Suc k = ?i - 1" using Suc.prems by auto
    have "Block_previous_hash (as ! ?i) = Block_previous_hash (bs ! ?i)"
      using Suc by (simp add: Block_previous_hash_def)
    then have "Block_hash (as ! (?i - 1)) = Block_hash (bs ! (?i - 1))"
      using i(1,2) assms(1-3) unfolding blocks_wf_def chain_linked_def by (metis (no_types, lifting))
    then show ?case unfolding i(3) using i(2) by (intro same) simp_all
  qed
qed

section \<open>Properties\<close>

text \<open>A chain that \<open>new\<close> created and calls of \<open>add_block\<close>, accepted or not, have grown.\<close>

definition reachable_chain :: "'z tx_externals_scheme \<Rightarrow> Blockchain \<Rightarrow> bool" where
  "reachable_chain E c \<longleftrightarrow> (\<exists>now g c0. Blockchain_new E now g = Ok c0 \<and> (chain_step E)\<^sup>*\<^sup>* c0 c)"

lemma reachable_chain_wf: "reachable_chain E c \<Longrightarrow> chain_wf E c"
  unfolding reachable_chain_def using chain.reachable_invar by blast

lemma reachable_chain_steps: "reachable_chain E c \<Longrightarrow> (chain_step E)\<^sup>*\<^sup>* c c' \<Longrightarrow> reachable_chain E c'"
  unfolding reachable_chain_def by (meson rtranclp_trans)

definition sample_chain :: Blockchain where
  "sample_chain = ok_value (Blockchain_new sample_env 0 (GenesisBlock_new [sample_key 1] 1000))"

definition sample_chain2 :: Blockchain where
  "sample_chain2 = append_block sample_chain (sample_block (last (bc_blocks sample_chain)) [])"

lemma sample_chain_new: "Blockchain_new sample_env 0 (GenesisBlock_new [sample_key 1] 1000) = Ok sample_chain"
proof -
  obtain b where "create_block sample_env 0 (GenesisBlock_new [sample_key 1] 1000) = Ok b"
    using create_block_total [of "GenesisBlock_new [sample_key 1] 1000" sample_env] sample_bincode_total
    by (auto simp: GenesisBlock_new_def)
  then show ?thesis by (simp add: sample_chain_def Blockchain_new_def Let_def)
qed

lemma sample_chain_reachable: "reachable_chain sample_env sample_chain"
  unfolding reachable_chain_def using sample_chain_new by blast

lemma sample_chain_blocks: "\<exists>b. bc_blocks sample_chain = [b]"
proof -
  obtain b where "create_block sample_env 0 (GenesisBlock_new [sample_key 1] 1000) = Ok b"
    using sample_chain_new by (auto simp: Blockchain_new_Ok)
  then show ?thesis by (simp add: sample_chain_def Blockchain_new_def Let_def)
qed

lemma sample_chain_length [simp]: "length (bc_blocks sample_chain) = Suc 0"
  using sample_chain_blocks by auto

lemma sample_chain_add:
  "add_block sample_env sample_chain (sample_block (last (bc_blocks sample_chain)) []) = (sample_chain2, Ok ())"
proof -
  let ?b = "sample_block (last (bc_blocks sample_chain)) []"
  note fields = Block_new_fields [OF sample_block_new [of "last (bc_blocks sample_chain)" "[]"]]
  have "bc_blocks sample_chain \<noteq> []" using sample_chain_blocks by auto
  with fields have "check_block sample_env sample_chain ?b = Ok ()"
    by (simp add: check_block_Ok Block_validate_Ok tx_ids_def)
  then show ?thesis by (simp add: add_block_def sample_chain2_def)
qed

lemma sample_chain2_step: "chain_step sample_env sample_chain sample_chain2"
  using sample_chain_add by (rule chain_step.add)

lemma sample_chain2_reachable: "reachable_chain sample_env sample_chain2"
  using reachable_chain_steps [OF sample_chain_reachable] sample_chain2_step by blast

lemma sample_chain2_length [simp]: "length (bc_blocks sample_chain2) = 2"
  by (simp add: sample_chain2_def)

text \<open>
  C1: Every chain the program builds passes its own integrity check: whatever blocks are offered to
  \<open>add_block\<close>, valid or not, \<open>verify\<close> returns \<open>Ok\<close> afterwards.
\<close>

theorem chain_verify_reachable:
  assumes "reachable_chain E c"
  shows "chain_verify E c = Ok ()"
  using assms by (intro chain_verify_Ok reachable_chain_wf)

theorem chain_verify_reachable_witness: "chain_verify sample_env sample_chain2 = Ok ()"
  using chain_verify_reachable sample_chain2_reachable by blast

text \<open>
  C2: \<open>add_block\<close> accepts exactly the blocks that are valid, follow the newest block (height, hash,
  time) and repeat no transaction of the chain. An accepted block is appended; a refused one leaves
  the chain as it was, and the refusal is an error, never a panic.
\<close>

theorem chain_add_block:
  assumes "reachable_chain E c" and "bincode_total E" and "add_block E c b = (c', r)"
  shows "(r = Ok () \<longleftrightarrow>
            Block_validate E b = Ok () \<and>
            Block_height b = of_nat (length (bc_blocks c)) \<and>
            Block_previous_hash b = Block_hash (last (bc_blocks c)) \<and>
            Block_timestamp (last (bc_blocks c)) \<le> Block_timestamp b \<and>
            (\<forall>t \<in> tx_ids b. \<not> contains_transaction c t)) \<and>
         (r = Ok () \<longrightarrow> bc_blocks c' = bc_blocks c @ [b]) \<and>
         (r \<noteq> Ok () \<longrightarrow> c' = c \<and> is_err r)"
proof -
  have wf: "blocks_wf E (bc_blocks c)" using reachable_chain_wf [OF assms(1)] by (simp add: chain_wf_def)
  then have ne: "bc_blocks c \<noteq> []" by (simp add: blocks_wf_def)
  have r: "r = check_block E c b"
    using assms(3) by (auto simp: add_block_def split: result.splits)
  then have ok: "r = Ok () \<longleftrightarrow> check_block E c b = Ok ()" by simp
  moreover have "is_err r" if "r \<noteq> Ok ()"
    using that check_block_no_panic [OF assms(2) ne, of b] unfolding r
    by (cases "check_block E c b") simp_all
  ultimately show ?thesis
    using add_block_cases [OF assms(3)] blocks_wf_last_height [OF wf] ne by (auto simp: check_block_Ok)
qed

theorem chain_add_block_witness:
  "bc_blocks sample_chain2 = bc_blocks sample_chain @ [sample_block (last (bc_blocks sample_chain)) []]"
  using chain_add_block [OF sample_chain_reachable sample_bincode_total sample_chain_add] by simp

text \<open>
  The chain is append-only: whatever blocks are offered later, the blocks of the chain stay where
  they are, and the genesis hash stays the hash of the first block.
\<close>

theorem chain_append_only:
  assumes "reachable_chain E c" and "(chain_step E)\<^sup>*\<^sup>* c c'"
  shows "prefix (bc_blocks c) (bc_blocks c') \<and> bc_genesis_hash c' = Block_hash (hd (bc_blocks c))"
  using chain_steps_prefix [OF assms(2)] reachable_chain_wf [OF assms(1)] by (simp add: chain_wf_def)

theorem chain_append_only_witness: "prefix (bc_blocks sample_chain) (bc_blocks sample_chain2)"
  using chain_append_only [OF sample_chain_reachable] sample_chain2_step by blast

text \<open>
  Lookups by height and by hash are right on a chain of at most \<open>2 ^ 64\<close> blocks: the block at a
  height is the one at that place of the vector, or none beyond the end, and the search
  \<open>get_block_at_height\<close> agrees with it; a lookup by hash yields a block with that hash, or none
  exactly if no block has it. None of them panics.
\<close>

theorem chain_block_lookup:
  assumes "reachable_chain E c" and "length (bc_blocks c) \<le> 2 ^ 64"
  shows "get_block_by_height c k = Ok (vec_get (bc_blocks c) (unat k)) \<and>
         get_block_at_height c k =
           (case vec_get (bc_blocks c) (unat k) of
              None \<Rightarrow> Err (BlockNotFound (show_nat (unat k))) | Some b \<Rightarrow> Ok b) \<and>
         ((\<exists>b \<in> set (bc_blocks c). Block_hash b = h \<and> get_block_by_hash c h = Ok (Some b)) \<or>
          ((\<forall>b \<in> set (bc_blocks c). Block_hash b \<noteq> h) \<and> get_block_by_hash c h = Ok None))"
proof -
  note wf = reachable_chain_wf [OF assms(1)]
  have "List.find (\<lambda>b. hdr_height (blk_header b) = k) (bc_blocks c) = vec_get (bc_blocks c) (unat k)"
    using find_heights [of "bc_blocks c" k] wf assms(2)
    by (simp add: chain_wf_def blocks_wf_def Block_height_def)
  then show ?thesis
    using get_block_by_height_eq [OF wf assms(2)] get_block_by_hash_cases [OF wf assms(2)]
    by (simp add: get_block_at_height_def)
qed

theorem chain_block_lookup_witness: "get_block_by_height sample_chain2 2 = Ok None"
  using chain_block_lookup [OF sample_chain2_reachable, of 2 BlockHash_zero] by (simp add: vec_get_def)

text \<open>
  C7: The transaction index is right: on a chain of at most \<open>2 ^ 64\<close> blocks \<open>get_transaction\<close> yields
  what a linear search through all transactions of the chain finds, and never panics; and no
  transaction identifier occurs in two blocks.
\<close>

theorem chain_transaction_lookup:
  assumes "reachable_chain E c" and "length (bc_blocks c) \<le> 2 ^ 64"
  shows "get_transaction c t = Ok (List.find (\<lambda>tx. tx_id tx = t) (get_all_transactions c)) \<and>
         (i < length (bc_blocks c) \<and> j < length (bc_blocks c) \<and>
          t \<in> tx_ids (bc_blocks c ! i) \<and> t \<in> tx_ids (bc_blocks c ! j) \<longrightarrow> i = j)"
  using get_transaction_eq [OF reachable_chain_wf [OF assms(1)] assms(2)] reachable_chain_wf [OF assms(1)]
  by (auto simp: chain_wf_def tx_once_def)

theorem chain_transaction_lookup_witness:
  "get_transaction sample_chain2 (tx_id (sample_tx [1, 2] 7)) =
   Ok (List.find (\<lambda>tx. tx_id tx = tx_id (sample_tx [1, 2] 7)) (get_all_transactions sample_chain2))"
  using chain_transaction_lookup [OF sample_chain2_reachable, of "tx_id (sample_tx [1, 2] 7)" 0 0] by simp

text \<open>
  C3: The newest hash fixes the history: two chains of at most \<open>2 ^ 64\<close> blocks whose newest blocks have
  the same hash have the same length and the same header at every height, provided Blake2b does not
  collide on the headers of the two chains.
\<close>

theorem chain_tip_binding:
  assumes "reachable_chain E c" and "reachable_chain E d"
    and "length (bc_blocks c) \<le> 2 ^ 64" and "length (bc_blocks d) \<le> 2 ^ 64"
    and "inj_on (blake2b_256 E) ((header_bytes \<circ> blk_header) ` (set (bc_blocks c) \<union> set (bc_blocks d)))"
    and "Block_hash (last (bc_blocks c)) = Block_hash (last (bc_blocks d))"
  shows "map blk_header (bc_blocks c) = map blk_header (bc_blocks d)"
proof -
  let ?as = "bc_blocks c" and ?bs = "bc_blocks d"
  have wf: "blocks_wf E ?as" "blocks_wf E ?bs"
    using reachable_chain_wf assms(1,2) unfolding chain_wf_def by blast+
  then have ne: "?as \<noteq> []" "?bs \<noteq> []" by (simp_all add: blocks_wf_def)
  have tip: "blk_header (last ?as) = blk_header (last ?bs)"
  proof (rule valid_same_hash_same_header)
    show "Block_validate E (last ?as) = Ok ()" "Block_validate E (last ?bs) = Ok ()"
      using wf ne by (simp_all add: blocks_wf_def)
    show "inj_on (blake2b_256 E) {header_bytes (blk_header (last ?as)), header_bytes (blk_header (last ?bs))}"
      using ne by (intro inj_on_subset [OF assms(5)]) auto
  qed (rule assms(6))
  have height: "unat (Block_height (last xs)) = length xs - 1" if "blocks_wf E xs" "length xs \<le> 2 ^ 64" for xs
  proof -
    have "xs \<noteq> []" using that(1) by (simp add: blocks_wf_def)
    moreover from this have "Block_height (last xs) = of_nat (length xs - 1)"
      using that(1) by (simp add: blocks_wf_def last_conv_nth)
    ultimately show ?thesis
      using that(2) unat_of_nat_small [of "length xs - 1"] by (cases xs) simp_all
  qed
  have "length ?as - 1 = length ?bs - 1"
    using height [OF wf(1) assms(3)] height [OF wf(2) assms(4)] tip by (simp add: Block_height_def)
  then have len: "length ?as = length ?bs" using ne by (cases ?as; cases ?bs) simp_all
  have "blk_header (?as ! i) = blk_header (?bs ! i)" if "i < length ?as" for i
    using blocks_wf_tip_binding [OF wf len assms(5,6), of "length ?as - 1 - i"] that by simp
  with len show ?thesis by (intro nth_equalityI) simp_all
qed

text \<open>Two chains that differ in the signatures of their second block.\<close>

definition sample_later :: Block where
  "sample_later = ok_value (Block_new sample_env 1001 1 (Block_hash (last (bc_blocks sample_chain))) [] (sample_key 1))"

definition sample_fork :: "Block \<Rightarrow> Blockchain" where
  "sample_fork b = append_block sample_chain b"

definition sample_later_signed :: Block where
  "sample_later_signed = add_signature sample_later (sample_key 1) (Signature (bytes_fill 9))"

lemma sample_later_fields: "Block_new sample_env 1001 1 (Block_hash (last (bc_blocks sample_chain))) [] (sample_key 1) = Ok sample_later"
  using Block_new_total by (metis sample_later_def result.sel(1))

lemma sample_chain_genesis:
  "\<exists>tx g. bc_blocks sample_chain = [g] \<and> genesis_transaction sample_env 1000 (0, sample_key 1) = Ok tx \<and>
     Block_new sample_env 1000 0 BlockHash_zero [tx] (sample_key 1) = Ok g"
proof -
  obtain g where g: "create_block sample_env 0 (GenesisBlock_new [sample_key 1] 1000) = Ok g"
    using sample_chain_new by (auto simp: Blockchain_new_Ok)
  then have blocks: "bc_blocks sample_chain = [g]" by (simp add: sample_chain_def Blockchain_new_def Let_def)
  obtain tx where "genesis_transaction sample_env 1000 (0, sample_key 1) = Ok tx"
      "g = genesis_block_of sample_env (GenesisBlock_new [sample_key 1] 1000) [tx]"
    using g by (auto simp: create_block_Ok GenesisBlock_new_def outcome_simps list_all2_Cons1)
  with blocks genesis_block_of_new [of sample_env "GenesisBlock_new [sample_key 1] 1000" "[tx]"] show ?thesis
    by (simp add: GenesisBlock_new_def)
qed

lemma sample_fork_reachable: "b \<in> {sample_later, sample_later_signed} \<Longrightarrow> reachable_chain sample_env (sample_fork b)"
proof -
  obtain tx g where g: "bc_blocks sample_chain = [g]" "Block_new sample_env 1000 0 BlockHash_zero [tx] (sample_key 1) = Ok g"
    using sample_chain_genesis by blast
  note fields = Block_new_fields [OF sample_later_fields]
  have "check_block sample_env sample_chain sample_later = Ok ()"
    using Block_new_fields [OF g(2)] fields by (simp add: check_block_Ok g(1) Block_validate_Ok tx_ids_def)
  then have "check_block sample_env sample_chain sample_later_signed = Ok ()"
    by (simp add: check_block_Ok sample_later_signed_def add_signature_def Block_validate_Ok Block_previous_hash_def
        Block_timestamp_def Block_height_def tx_ids_def)
  with \<open>check_block sample_env sample_chain sample_later = Ok ()\<close>
  have "add_block sample_env sample_chain b = (sample_fork b, Ok ())" if "b \<in> {sample_later, sample_later_signed}"
    using that by (auto simp: add_block_def sample_fork_def)
  then show "b \<in> {sample_later, sample_later_signed} \<Longrightarrow> reachable_chain sample_env (sample_fork b)"
    using reachable_chain_steps [OF sample_chain_reachable] chain_step.add by blast
qed

lemma odd_byte: "(1 :: u8) + 32 * x \<noteq> 32 * y"
proof
  assume "(1 :: u8) + 32 * x = 32 * y"
  then have "8 * (1 + 32 * x) = 8 * (32 * y)" by simp
  then have "8 + 256 * x = 256 * y" by (simp add: distrib_left flip: mult.assoc)
  moreover have "256 * z = 0" for z :: u8
  proof -
    have "(256 :: u8) = 0" by simp
    then show ?thesis by (simp only: mult_zero_left)
  qed
  ultimately show False by (simp only: add_0_right) simp
qed

lemma sample_le_bytes:
  "sum_list (to_le_bytes (0 :: u64)) = 0" "sum_list (to_le_bytes (1 :: u64)) = 1" "sum_list (to_le_bytes (1000 :: u64)) = 235"
  "sum_list (to_le_bytes (1001 :: u64)) = 236" "sum_list (to_le_bytes (0 :: u32)) = 0" "sum_list (to_le_bytes (1 :: u32)) = 1"
  by code_simp+

lemma sample_headers_apart:
  assumes "bc_blocks sample_chain = [g]"
  shows "blake2b_256 sample_env (header_bytes (blk_header g)) \<noteq> blake2b_256 sample_env (header_bytes (blk_header sample_later))"
proof -
  obtain tx where tx: "genesis_transaction sample_env 1000 (0, sample_key 1) = Ok tx"
    and g: "Block_new sample_env 1000 0 BlockHash_zero [tx] (sample_key 1) = Ok g"
    using sample_chain_genesis assms by auto
  obtain x where x: "tx_id_bytes (tx_id tx) = bytes_fill x"
    using tx by (auto simp: genesis_transaction_def Let_def Transaction_new_with_params_def calculate_id_def outcome_simps hash_data_def sample_env_def)
  obtain y where y: "Block_hash g = BlockHash (bytes_fill y)"
    using Block_new_fields(7) [OF g] by (simp add: Block_hash_def calculate_hash_def hash_data_def sample_env_def)
  have "sum_list (header_bytes (blk_header g)) = 12 + 32 * x"
    using Block_new_fields [OF g]
    by (simp add: header_bytes_def Block_height_def Block_timestamp_def Block_previous_hash_def BlockHash_zero_def
        tx_leaves_def merkle_root_singleton x byte_simps sum_list_replicate sample_key_def sample_le_bytes)
  moreover have "sum_list (header_bytes (blk_header sample_later)) = 12 + 1 + 32 * y"
    using Block_new_fields [OF sample_later_fields] assms
    by (simp add: header_bytes_def Block_height_def Block_timestamp_def Block_previous_hash_def
        tx_leaves_def merkle_root_def BlockHash_zero_def y byte_simps sum_list_replicate sample_key_def sample_le_bytes)
  ultimately show ?thesis using odd_byte [of y x] by (simp add: sample_env_def add.assoc)
qed

theorem chain_tip_binding_witness:
  "bc_blocks (sample_fork sample_later) \<noteq> bc_blocks (sample_fork sample_later_signed) \<and> length (bc_blocks (sample_fork sample_later)) = 2 \<and>
   map blk_header (bc_blocks (sample_fork sample_later)) = map blk_header (bc_blocks (sample_fork sample_later_signed))"
proof (intro conjI)
  obtain g where g: "bc_blocks sample_chain = [g]" using sample_chain_blocks by blast
  have blocks: "bc_blocks (sample_fork b) = [g, b]" for b by (simp add: sample_fork_def g)
  then show "length (bc_blocks (sample_fork sample_later)) = 2" by simp
  have "blk_signatures sample_later \<noteq> blk_signatures sample_later_signed" by (simp add: sample_later_signed_def add_signature_def)
  then show "bc_blocks (sample_fork sample_later) \<noteq> bc_blocks (sample_fork sample_later_signed)" by (auto simp: blocks)
  have same: "blk_header sample_later_signed = blk_header sample_later" by (simp add: sample_later_signed_def add_signature_def)
  have "inj_on (blake2b_256 sample_env)
      ((header_bytes \<circ> blk_header) ` (set (bc_blocks (sample_fork sample_later)) \<union> set (bc_blocks (sample_fork sample_later_signed))))"
    using sample_headers_apart [OF g] by (auto simp: blocks same inj_on_def)
  then show "map blk_header (bc_blocks (sample_fork sample_later)) = map blk_header (bc_blocks (sample_fork sample_later_signed))"
    by (intro chain_tip_binding [OF sample_fork_reachable sample_fork_reachable]) (simp_all add: blocks same Block_hash_def)
qed

text \<open>
  \<open>prune_old_blocks\<close> keeps the genesis and the blocks not older than the given time, in their
  order, reports how many it removed, and forgets exactly the transactions of the removed blocks.
\<close>

theorem chain_prune:
  assumes "reachable_chain E c" and "prune_old_blocks c t = (c', r)"
  shows "bc_blocks c' = hd (bc_blocks c) # filter (\<lambda>b. t \<le> Block_timestamp b) (tl (bc_blocks c)) \<and>
         r = Ok (length (bc_blocks c) - length (bc_blocks c')) \<and>
         (contains_transaction c' x \<longleftrightarrow> (\<exists>b \<in> set (bc_blocks c'). x \<in> tx_ids b))"
proof -
  have wf: "chain_wf E c" by (rule reachable_chain_wf [OF assms(1)])
  then have ne: "bc_blocks c \<noteq> []" by (simp add: chain_wf_def blocks_wf_def)
  note eq = assms(2) [unfolded prune_old_blocks_eq [OF ne], symmetric]
  have "contains_transaction c' x \<longleftrightarrow>
        contains_transaction c x \<and> (\<forall>b \<in> set (dropped_blocks c t). x \<notin> tx_ids b)"
    using eq by (auto simp: contains_transaction_def hm_contains_key_def tx_ids_def image_iff)
  also have "\<dots> \<longleftrightarrow> (\<exists>b \<in> set (kept_blocks c t). x \<in> tx_ids b)"
    unfolding chain_wf_contains [OF wf] set_kept_dropped [OF ne, of t]
    using kept_dropped_disjoint [OF wf] by blast
  finally show ?thesis
    using eq length_kept_dropped [OF ne, of t] by (auto simp: kept_blocks_def)
qed

theorem chain_prune_witness:
  "snd (prune_old_blocks sample_chain 2000) = Ok 0"
proof -
  obtain b where b: "bc_blocks sample_chain = [b]" using sample_chain_blocks by blast
  from chain_prune [OF sample_chain_reachable prod.collapse [symmetric], of 2000 "TxId (bytes_fill 0)"] b
  show ?thesis by simp
qed

end
