(* ===== verification/Blockchain_Store.thy ===== *)
theory Blockchain_Store
  imports Chain Database
begin

text \<open>
  \<open>storage/src/blockchain_store.rs\<close>: blocks, the locations of transactions and the metadata of the
  chain in a \<open>Database\<close>. The store of a chain answers every query as the chain in memory does, also
  after it is opened again, and the chain can be loaded back when its genesis has one validator.
  The encodings of blocks, locations and metadata are third-party functions.
\<close>

section \<open>Data\<close>

record ChainMetadata =
  cm_chain_height :: BlockHeight
  cm_genesis_hash :: BlockHash
  cm_latest_block_hash :: BlockHash
  cm_latest_block_timestamp :: Timestamp
  cm_total_transactions :: u64
  cm_last_updated :: Timestamp

record TxLocation =
  tl_block_height :: BlockHeight
  tl_block_hash :: BlockHash

record 'd BlockchainStore =
  bst_db :: 'd
  bst_metadata :: ChainMetadata

record block_store_externals = tx_externals +
  bincode_block :: "Block \<Rightarrow> (u8 list, string) result"
  unbincode_block :: "u8 list \<Rightarrow> (Block, string) result"
  bincode_location :: "TxLocation \<Rightarrow> (u8 list, string) result"
  unbincode_location :: "u8 list \<Rightarrow> (TxLocation, string) result"
  bincode_metadata :: "ChainMetadata \<Rightarrow> (u8 list, string) result"
  unbincode_metadata :: "u8 list \<Rightarrow> (ChainMetadata, string) result"

text \<open>Decoding inverts encoding.\<close>

definition block_store_codec_laws :: "'z block_store_externals_scheme \<Rightarrow> bool" where
  "block_store_codec_laws E \<longleftrightarrow>
     (\<forall>b bs. bincode_block E b = Ok bs \<longrightarrow> unbincode_block E bs = Ok b) \<and>
     (\<forall>l bs. bincode_location E l = Ok bs \<longrightarrow> unbincode_location E bs = Ok l) \<and>
     (\<forall>m bs. bincode_metadata E m = Ok bs \<longrightarrow> unbincode_metadata E bs = Ok m)"

definition ChainMetadata_default :: "Timestamp \<Rightarrow> ChainMetadata" where
  "ChainMetadata_default now =
     \<lparr>cm_chain_height = 0, cm_genesis_hash = BlockHash_zero, cm_latest_block_hash = BlockHash_zero,
      cm_latest_block_timestamp = 0, cm_total_transactions = 0, cm_last_updated = now\<rparr>"

section \<open>Keys\<close>

definition block_height_key :: "BlockHeight \<Rightarrow> db_key" where
  "block_height_key height = str_bytes ''block:height:'' @ to_le_bytes height"

definition block_hash_key :: "BlockHash \<Rightarrow> db_key" where
  "block_hash_key hash = str_bytes ''block:hash:'' @ bytes_list (block_hash_bytes hash)"

definition tx_key :: "TxId \<Rightarrow> db_key" where
  "tx_key i = str_bytes ''tx:'' @ bytes_list (tx_id_bytes i)"

definition metadata_key :: db_key where
  "metadata_key = str_bytes ''meta:chain''"

section \<open>Access to the database\<close>

definition via_db :: "('d \<Rightarrow> 'd \<times> 'a outcome) \<Rightarrow> 'd BlockchainStore \<Rightarrow> 'd BlockchainStore \<times> 'a outcome" where
  "via_db f s = (let (d, r) = f (bst_db s) in (s\<lparr>bst_db := d\<rparr>, r))"

definition on_metadata :: "(ChainMetadata \<Rightarrow> ChainMetadata) \<Rightarrow> 'd BlockchainStore \<Rightarrow> 'd BlockchainStore" where
  "on_metadata f s = s\<lparr>bst_metadata := f (bst_metadata s)\<rparr>"

text \<open>What \<open>get_block_by_height\<close>, \<open>get_block_by_hash\<close> and \<open>load_metadata\<close> share: the value under a key, decoded.\<close>

definition read_decoded ::
  "'d Database \<Rightarrow> (u8 list \<Rightarrow> ('a, string) result) \<Rightarrow> string \<Rightarrow> 'd \<Rightarrow> db_key \<Rightarrow> 'd \<times> 'a option outcome" where
  "read_decoded D decode what d key =
     and_then (db_get D d key) (\<lambda>d found.
       case found of
         Some data \<Rightarrow>
           and_then (d, map_err (\<lambda>e. DeserializationError (what @ '' deserialization failed: '' @ e)) (decode data))
             (\<lambda>d x. (d, Ok (Some x)))
       | None \<Rightarrow> (d, Ok None))"

section \<open>Opening\<close>

definition load_metadata ::
  "'z block_store_externals_scheme \<Rightarrow> 'd Database \<Rightarrow> Timestamp \<Rightarrow> 'd \<Rightarrow> 'd \<times> ChainMetadata outcome" where
  "load_metadata E D now db =
     and_then (read_decoded D (unbincode_metadata E) ''Metadata'' db metadata_key) (\<lambda>d found.
       (d, Ok (case found of Some metadata \<Rightarrow> metadata | None \<Rightarrow> ChainMetadata_default now)))"

definition BlockchainStore_new ::
  "'z block_store_externals_scheme \<Rightarrow> 'd Database \<Rightarrow> Timestamp \<Rightarrow> 'd \<Rightarrow> 'd BlockchainStore outcome" where
  "BlockchainStore_new E D now db =
     (let (d, r) = load_metadata E D now db
      in rbind r (\<lambda>metadata. Ok \<lparr>bst_db = d, bst_metadata = metadata\<rparr>))"

definition BlockchainStore_new_memory :: "Timestamp \<Rightarrow> MemoryDatabase BlockchainStore" where
  "BlockchainStore_new_memory now = \<lparr>bst_db = MemoryDatabase_new, bst_metadata = ChainMetadata_default now\<rparr>"

definition save_metadata ::
  "'z block_store_externals_scheme \<Rightarrow> 'd Database \<Rightarrow> 'd BlockchainStore \<Rightarrow> 'd BlockchainStore \<times> unit outcome" where
  "save_metadata E D s =
     and_then (s, map_err (\<lambda>e. SerializationError (''Metadata serialization failed: '' @ e))
                    (bincode_metadata E (bst_metadata s))) (\<lambda>s data.
       via_db (\<lambda>d. db_put D d metadata_key data) s)"

section \<open>Blocks\<close>

fun index_transactions ::
  "'z block_store_externals_scheme \<Rightarrow> 'd Database \<Rightarrow> TxLocation \<Rightarrow> Transaction list \<Rightarrow> 'd BlockchainStore \<Rightarrow>
   'd BlockchainStore \<times> unit outcome" where
  "index_transactions E D tx_location [] s = (s, Ok ())"
| "index_transactions E D tx_location (tx # txs) s =
     and_then (s, map_err (\<lambda>e. SerializationError (''TX location serialization failed: '' @ e))
                    (bincode_location E tx_location)) (\<lambda>s data.
     and_then (via_db (\<lambda>d. db_put D d (tx_key (tx_id tx)) data) s) (\<lambda>s _.
       index_transactions E D tx_location txs s))"

definition store_block ::
  "'z block_store_externals_scheme \<Rightarrow> 'd Database \<Rightarrow> 'd BlockchainStore \<Rightarrow> Block \<Rightarrow> 'd BlockchainStore \<times> unit outcome" where
  "store_block E D s block =
     (let height = Block_height block; hash = Block_hash block in
      and_then (s, map_err (\<lambda>e. SerializationError (''Block serialization failed: '' @ e)) (bincode_block E block)) (\<lambda>s block_data.
      and_then (via_db (\<lambda>d. db_put D d (block_height_key height) block_data) s) (\<lambda>s _.
      and_then (via_db (\<lambda>d. db_put D d (block_hash_key hash) block_data) s) (\<lambda>s _.
      and_then (index_transactions E D \<lparr>tl_block_height = height, tl_block_hash = hash\<rparr> (blk_transactions block) s) (\<lambda>s _.
        if cm_chain_height (bst_metadata s) < height
        then save_metadata E D (on_metadata (\<lambda>m. m\<lparr>cm_chain_height := height, cm_latest_block_hash := hash,
               cm_latest_block_timestamp := Block_timestamp block\<rparr>) s)
        else (s, Ok ()))))))"

definition stored_block_by_height ::
  "'z block_store_externals_scheme \<Rightarrow> 'd Database \<Rightarrow> 'd BlockchainStore \<Rightarrow> BlockHeight \<Rightarrow>
   'd BlockchainStore \<times> Block option outcome" where
  "stored_block_by_height E D s height =
     via_db (\<lambda>d. read_decoded D (unbincode_block E) ''Block'' d (block_height_key height)) s"

definition stored_block_by_hash ::
  "'z block_store_externals_scheme \<Rightarrow> 'd Database \<Rightarrow> 'd BlockchainStore \<Rightarrow> BlockHash \<Rightarrow>
   'd BlockchainStore \<times> Block option outcome" where
  "stored_block_by_hash E D s hash =
     via_db (\<lambda>d. read_decoded D (unbincode_block E) ''Block'' d (block_hash_key hash)) s"

definition stored_transaction ::
  "'z block_store_externals_scheme \<Rightarrow> 'd Database \<Rightarrow> 'd BlockchainStore \<Rightarrow> TxId \<Rightarrow>
   'd BlockchainStore \<times> Transaction option outcome" where
  "stored_transaction E D s i =
     and_then (via_db (\<lambda>d. read_decoded D (unbincode_location E) ''TX location'' d (tx_key i)) s) (\<lambda>s found.
       case found of
         Some tx_location \<Rightarrow>
           and_then (stored_block_by_height E D s (tl_block_height tx_location)) (\<lambda>s found.
             case found of
               Some block \<Rightarrow> (s, Ok (List.find (\<lambda>t. tx_id t = i) (blk_transactions block)))
             | None \<Rightarrow> (s, Ok None))
       | None \<Rightarrow> (s, Ok None))"

definition stored_contains_transaction :: "'d Database \<Rightarrow> 'd BlockchainStore \<Rightarrow> TxId \<Rightarrow> bool outcome" where
  "stored_contains_transaction D s i = db_contains D (bst_db s) (tx_key i)"

definition get_latest_block ::
  "'z block_store_externals_scheme \<Rightarrow> 'd Database \<Rightarrow> 'd BlockchainStore \<Rightarrow> 'd BlockchainStore \<times> Block option outcome" where
  "get_latest_block E D s =
     (if cm_chain_height (bst_metadata s) = 0 \<and> cm_latest_block_hash (bst_metadata s) = BlockHash_zero
      then (s, Ok None)
      else stored_block_by_height E D s (cm_chain_height (bst_metadata s)))"

text \<open>\<open>start..=end\<close>\<close>

definition heights_inclusive :: "BlockHeight \<Rightarrow> BlockHeight \<Rightarrow> BlockHeight list" where
  "heights_inclusive start finish = map of_nat [unat start ..< Suc (unat finish)]"

fun collect_blocks ::
  "'z block_store_externals_scheme \<Rightarrow> 'd Database \<Rightarrow> BlockHeight list \<Rightarrow> 'd BlockchainStore \<Rightarrow>
   'd BlockchainStore \<times> Block list outcome" where
  "collect_blocks E D [] s = (s, Ok [])"
| "collect_blocks E D (height # heights) s =
     and_then (stored_block_by_height E D s height) (\<lambda>s found.
     and_then (collect_blocks E D heights s) (\<lambda>s blocks.
       (s, Ok (case found of Some block \<Rightarrow> block # blocks | None \<Rightarrow> blocks))))"

definition stored_blocks_range ::
  "'z block_store_externals_scheme \<Rightarrow> 'd Database \<Rightarrow> 'd BlockchainStore \<Rightarrow> BlockHeight \<Rightarrow> BlockHeight \<Rightarrow>
   'd BlockchainStore \<times> Block list outcome" where
  "stored_blocks_range E D s start finish = collect_blocks E D (heights_inclusive start finish) s"

section \<open>Metadata\<close>

definition chain_height :: "'d BlockchainStore \<Rightarrow> BlockHeight" where
  "chain_height s = cm_chain_height (bst_metadata s)"

definition genesis_hash :: "'d BlockchainStore \<Rightarrow> BlockHash" where
  "genesis_hash s = cm_genesis_hash (bst_metadata s)"

definition set_genesis_hash ::
  "'z block_store_externals_scheme \<Rightarrow> 'd Database \<Rightarrow> 'd BlockchainStore \<Rightarrow> BlockHash \<Rightarrow> 'd BlockchainStore \<times> unit outcome" where
  "set_genesis_hash E D s hash = save_metadata E D (on_metadata (\<lambda>m. m\<lparr>cm_genesis_hash := hash\<rparr>) s)"

definition block_count :: "'d BlockchainStore \<Rightarrow> u64" where
  "block_count s = cm_chain_height (bst_metadata s) + 1"

definition stored_transaction_count :: "'d BlockchainStore \<Rightarrow> u64" where
  "stored_transaction_count s = cm_total_transactions (bst_metadata s)"

definition increment_tx_count ::
  "'z block_store_externals_scheme \<Rightarrow> 'd Database \<Rightarrow> 'd BlockchainStore \<Rightarrow> u64 \<Rightarrow> 'd BlockchainStore \<times> unit outcome" where
  "increment_tx_count E D s n =
     save_metadata E D (on_metadata (\<lambda>m. m\<lparr>cm_total_transactions := cm_total_transactions m + n\<rparr>) s)"

section \<open>Whole chains\<close>

fun store_heights ::
  "'z block_store_externals_scheme \<Rightarrow> 'd Database \<Rightarrow> Blockchain \<Rightarrow> BlockHeight list \<Rightarrow> 'd BlockchainStore \<Rightarrow>
   'd BlockchainStore \<times> unit outcome" where
  "store_heights E D blockchain [] s = (s, Ok ())"
| "store_heights E D blockchain (height # heights) s =
     and_then (s, get_block_by_height blockchain height) (\<lambda>s found.
     and_then (case found of Some block \<Rightarrow> store_block E D s block | None \<Rightarrow> (s, Ok ())) (\<lambda>s _.
       store_heights E D blockchain heights s))"

definition store_blockchain ::
  "'z block_store_externals_scheme \<Rightarrow> 'd Database \<Rightarrow> 'd BlockchainStore \<Rightarrow> Blockchain \<Rightarrow> 'd BlockchainStore \<times> unit outcome" where
  "store_blockchain E D s blockchain =
     and_then (s, Blockchain_get_stats blockchain) (\<lambda>s stats.
     and_then (store_heights E D blockchain (heights_inclusive 0 (bs_height stats)) s) (\<lambda>s _.
       save_metadata E D (on_metadata (\<lambda>m. m\<lparr>cm_genesis_hash := bs_genesis_hash stats,
          cm_total_transactions := of_nat (bs_total_transactions stats)\<rparr>) s)))"

fun load_heights ::
  "'z block_store_externals_scheme \<Rightarrow> 'd Database \<Rightarrow> BlockHeight list \<Rightarrow> Blockchain \<Rightarrow> 'd BlockchainStore \<Rightarrow>
   'd BlockchainStore \<times> Blockchain outcome" where
  "load_heights E D [] blockchain s = (s, Ok blockchain)"
| "load_heights E D (height # heights) blockchain s =
     and_then (stored_block_by_height E D s height) (\<lambda>s found.
       case found of
         Some block \<Rightarrow>
           (let (blockchain, r) = add_block E blockchain block
            in and_then (s, r) (\<lambda>s _. load_heights E D heights blockchain s))
       | None \<Rightarrow> load_heights E D heights blockchain s)"

definition load_blockchain ::
  "'z block_store_externals_scheme \<Rightarrow> 'd Database \<Rightarrow> Timestamp \<Rightarrow> 'd BlockchainStore \<Rightarrow> 'd BlockchainStore \<times> Blockchain outcome" where
  "load_blockchain E D now s =
     (if cm_chain_height (bst_metadata s) = 0 \<and> cm_genesis_hash (bst_metadata s) = BlockHash_zero
      then (s, Err (InvalidInput ''No blockchain data in storage''))
      else
        and_then (stored_block_by_height E D s 0) (\<lambda>s found.
          case found of
            None \<Rightarrow> (s, Err (BlockNotFound ''Genesis block not found''))
          | Some genesis_block \<Rightarrow>
              and_then (s, Blockchain_new E now
                 (GenesisBlock_new [hdr_validator (blk_header genesis_block)] (Block_timestamp genesis_block))) (\<lambda>s blockchain.
              load_heights E D (heights_inclusive 1 (cm_chain_height (bst_metadata s))) blockchain s)))"

section \<open>Pruning and upkeep\<close>

definition prune_operations :: "Block \<Rightarrow> BlockHeight \<Rightarrow> WriteOperation list" where
  "prune_operations block height =
     [Delete (block_height_key height), Delete (block_hash_key (Block_hash block))] @
     map (\<lambda>tx. Delete (tx_key (tx_id tx))) (blk_transactions block)"

fun prune_heights ::
  "'z block_store_externals_scheme \<Rightarrow> 'd Database \<Rightarrow> Timestamp \<Rightarrow> BlockHeight list \<Rightarrow> nat \<times> WriteOperation list \<Rightarrow>
   'd BlockchainStore \<Rightarrow> 'd BlockchainStore \<times> (nat \<times> WriteOperation list) outcome" where
  "prune_heights E D cutoff [] acc s = (s, Ok acc)"
| "prune_heights E D cutoff (height # heights) acc s =
     and_then (stored_block_by_height E D s height) (\<lambda>s found.
       prune_heights E D cutoff heights
         (case found of
            Some block \<Rightarrow>
              if Block_timestamp block < cutoff \<and> height \<noteq> 0
              then (fst acc + 1, snd acc @ prune_operations block height) else acc
          | None \<Rightarrow> acc) s)"

definition prune_before ::
  "'z block_store_externals_scheme \<Rightarrow> 'd Database \<Rightarrow> 'd BlockchainStore \<Rightarrow> Timestamp \<Rightarrow> 'd BlockchainStore \<times> nat outcome" where
  "prune_before E D s cutoff =
     and_then (prune_heights E D cutoff (heights_inclusive 1 (cm_chain_height (bst_metadata s))) (0, []) s) (\<lambda>s acc.
       if snd acc \<noteq> [] then and_then (via_db (\<lambda>d. db_write_batch D d (snd acc)) s) (\<lambda>s _. (s, Ok (fst acc)))
       else (s, Ok (fst acc)))"

definition store_compact :: "'d Database \<Rightarrow> 'd BlockchainStore \<Rightarrow> unit outcome" where
  "store_compact D s = db_compact D (bst_db s)"

definition store_flush :: "'d Database \<Rightarrow> 'd BlockchainStore \<Rightarrow> unit outcome" where
  "store_flush D s = db_flush D (bst_db s)"

definition store_size :: "'d Database \<Rightarrow> 'd BlockchainStore \<Rightarrow> u64" where
  "store_size D s = db_size D (bst_db s)"

section \<open>Keys and decoded values\<close>

lemma length_keys:
  "length (block_height_key h) = 21" "length (block_hash_key g) = 43" "length (tx_key i) = 35" "length metadata_key = 10"
  by (simp_all add: block_height_key_def block_hash_key_def tx_key_def metadata_key_def length_to_le_bytes)

lemma keys_apart [simp]:
  "block_height_key h \<noteq> block_hash_key g" "block_height_key h \<noteq> tx_key i" "block_height_key h \<noteq> metadata_key"
  "block_hash_key g \<noteq> block_height_key h" "block_hash_key g \<noteq> tx_key i" "block_hash_key g \<noteq> metadata_key"
  "tx_key i \<noteq> block_height_key h" "tx_key i \<noteq> block_hash_key g" "tx_key i \<noteq> metadata_key"
  "metadata_key \<noteq> block_height_key h" "metadata_key \<noteq> block_hash_key g" "metadata_key \<noteq> tx_key i"
  by (auto dest!: arg_cong [where f = length] simp: length_keys)

lemma keys_inject [simp]:
  "block_height_key h = block_height_key h' \<longleftrightarrow> h = h'"
  "block_hash_key g = block_hash_key g' \<longleftrightarrow> g = g'"
  "tx_key i = tx_key i' \<longleftrightarrow> i = i'"
  by (auto simp: block_height_key_def block_hash_key_def tx_key_def to_le_bytes_inject bytes_list_inject'
      intro: BlockHash.expand TxId.expand)

text \<open>A value found under a key, and what it decodes to.\<close>

definition decodes :: "('v \<Rightarrow> ('a, string) result) \<Rightarrow> 'v option \<Rightarrow> 'a option \<Rightarrow> bool" where
  "decodes decode found x \<longleftrightarrow> (case found of None \<Rightarrow> x = None | Some v \<Rightarrow> (\<exists>y. x = Some y \<and> decode v = Ok y))"

lemma decodes_simps [simp]:
  "decodes decode None x \<longleftrightarrow> x = None" "decodes decode (Some v) x \<longleftrightarrow> (\<exists>y. x = Some y \<and> decode v = Ok y)"
  by (simp_all add: decodes_def)

lemma via_db_eq: "via_db f s = (t, r) \<longleftrightarrow> (\<exists>d. f (bst_db s) = (d, r) \<and> t = s\<lparr>bst_db := d\<rparr>)"
  by (auto simp: via_db_def split: prod.splits)

lemma on_metadata_sel [simp]:
  "bst_metadata (on_metadata f s) = f (bst_metadata s)" "bst_db (on_metadata f s) = bst_db s"
  by (simp_all add: on_metadata_def)

section \<open>The contents of a store\<close>

text \<open>The newest block that contains a transaction decides its location.\<close>

definition location_in :: "Block list \<Rightarrow> TxId \<Rightarrow> TxLocation option" where
  "location_in bs i =
     map_option (\<lambda>b. \<lparr>tl_block_height = Block_height b, tl_block_hash = Block_hash b\<rparr>)
       (List.find (\<lambda>b. i \<in> tx_ids b) (rev bs))"

definition blocks_stored :: "'z block_store_externals_scheme \<Rightarrow> (db_key, db_value) hashmap \<Rightarrow> Block list \<Rightarrow> bool" where
  "blocks_stored E m bs \<longleftrightarrow>
     (\<forall>h. decodes (unbincode_block E) (fmlookup m (block_height_key h)) (vec_get bs (unat h))) \<and>
     (\<forall>g. decodes (unbincode_block E) (fmlookup m (block_hash_key g)) (List.find (\<lambda>b. Block_hash b = g) (rev bs))) \<and>
     (\<forall>i. decodes (unbincode_location E) (fmlookup m (tx_key i)) (location_in bs i))"

lemma blocks_stored_cong:
  "blocks_stored E m bs \<Longrightarrow> (\<And>k. k \<noteq> metadata_key \<Longrightarrow> fmlookup m' k = fmlookup m k) \<Longrightarrow> blocks_stored E m' bs"
  by (simp add: blocks_stored_def)

lemma blocks_stored_empty: "blocks_stored E fmempty []"
  by (simp add: blocks_stored_def vec_get_def location_in_def)

text \<open>The contents after the writes of one block.\<close>

definition with_block :: "db_value \<Rightarrow> db_value \<Rightarrow> Block \<Rightarrow> (db_key, db_value) hashmap \<Rightarrow> (db_key, db_value) hashmap" where
  "with_block data place b m =
     fold (\<lambda>tx. fmupd (tx_key (tx_id tx)) place) (blk_transactions b)
       (fmupd (block_hash_key (Block_hash b)) data (fmupd (block_height_key (Block_height b)) data m))"

lemma fmlookup_fold_tx:
  "fmlookup (fold (\<lambda>tx. fmupd (tx_key (tx_id tx)) v) txs m) k =
     (if \<exists>tx \<in> set txs. k = tx_key (tx_id tx) then Some v else fmlookup m k)"
  by (induction txs arbitrary: m) auto

lemma fmlookup_with_block:
  "fmlookup (with_block data place b m) (block_height_key h) =
     (if h = Block_height b then Some data else fmlookup m (block_height_key h))"
  "fmlookup (with_block data place b m) (block_hash_key g) =
     (if g = Block_hash b then Some data else fmlookup m (block_hash_key g))"
  "fmlookup (with_block data place b m) (tx_key i) = (if i \<in> tx_ids b then Some place else fmlookup m (tx_key i))"
  by (auto simp: with_block_def fmlookup_fold_tx tx_ids_def)

lemma vec_get_snoc:
  "length bs < 2 ^ 64 \<Longrightarrow> vec_get (bs @ [b]) (unat (h :: u64)) = (if h = of_nat (length bs) then Some b else vec_get bs (unat h))"
proof -
  assume small: "length bs < 2 ^ 64"
  have "h = of_nat (length bs) \<longleftrightarrow> unat h = length bs"
    using unat_of_nat_small [OF small] by (metis word_unat_eq_iff)
  then show ?thesis by (auto simp: vec_get_def nth_append less_Suc_eq)
qed

lemma blocks_stored_snoc:
  assumes "blocks_stored E m bs" and "Block_height b = of_nat (length bs)" and "length bs < 2 ^ 64"
    and "unbincode_block E data = Ok b"
    and "blk_transactions b \<noteq> [] \<Longrightarrow>
      unbincode_location E place = Ok \<lparr>tl_block_height = Block_height b, tl_block_hash = Block_hash b\<rparr>"
  shows "blocks_stored E (with_block data place b m) (bs @ [b])"
  unfolding blocks_stored_def fmlookup_with_block vec_get_snoc [OF assms(3)]
  using assms by (auto simp: blocks_stored_def location_in_def tx_ids_def)

section \<open>Writes\<close>

text \<open>The metadata after one block.\<close>

definition after_block :: "Block \<Rightarrow> ChainMetadata \<Rightarrow> ChainMetadata" where
  "after_block b m =
     (if cm_chain_height m < Block_height b
      then m\<lparr>cm_chain_height := Block_height b, cm_latest_block_hash := Block_hash b,
             cm_latest_block_timestamp := Block_timestamp b\<rparr> else m)"

context key_value_database
begin

lemma save_metadata_Ok:
  assumes "save_metadata E D s = (t, Ok u)"
  shows "bst_metadata t = bst_metadata s \<and>
    (\<exists>data. bincode_metadata E (bst_metadata s) = Ok data \<and> content (bst_db t) = fmupd metadata_key data (content (bst_db s)))"
  using assms by (auto simp: save_metadata_def outcome_simps via_db_eq dest!: put_Ok)

lemma index_transactions_Ok:
  assumes "index_transactions E D l txs s = (t, Ok u)"
  shows "bst_metadata t = bst_metadata s \<and>
    (\<exists>place. (txs \<noteq> [] \<longrightarrow> bincode_location E l = Ok place) \<and>
      content (bst_db t) = fold (\<lambda>tx. fmupd (tx_key (tx_id tx)) place) txs (content (bst_db s)))"
  using assms
proof (induction txs arbitrary: s)
  case (Cons tx txs)
  then obtain place d where p: "bincode_location E l = Ok place" "db_put D (bst_db s) (tx_key (tx_id tx)) place = (d, Ok ())"
      "index_transactions E D l txs (s\<lparr>bst_db := d\<rparr>) = (t, Ok u)"
    by (auto simp: outcome_simps via_db_eq)
  from Cons.IH [OF p(3)] p(1) put_Ok [OF p(2)] show ?case by (cases "txs = []") auto
qed auto

lemma store_block_Ok:
  assumes "store_block E D s b = (t, Ok u)"
  shows "bst_metadata t = after_block b (bst_metadata s)"
    and "\<exists>data place. bincode_block E b = Ok data \<and>
      (blk_transactions b \<noteq> [] \<longrightarrow>
        bincode_location E \<lparr>tl_block_height = Block_height b, tl_block_hash = Block_hash b\<rparr> = Ok place) \<and>
      (\<forall>k. k \<noteq> metadata_key \<longrightarrow> fmlookup (content (bst_db t)) k = fmlookup (with_block data place b (content (bst_db s))) k)"
proof -
  obtain data d1 d2 s3 where 1: "bincode_block E b = Ok data"
      "db_put D (bst_db s) (block_height_key (Block_height b)) data = (d1, Ok ())"
      "db_put D d1 (block_hash_key (Block_hash b)) data = (d2, Ok ())"
      "index_transactions E D \<lparr>tl_block_height = Block_height b, tl_block_hash = Block_hash b\<rparr> (blk_transactions b)
         (s\<lparr>bst_db := d2\<rparr>) = (s3, Ok ())"
    and 2: "(if cm_chain_height (bst_metadata s3) < Block_height b
        then save_metadata E D (on_metadata (\<lambda>m. m\<lparr>cm_chain_height := Block_height b, cm_latest_block_hash := Block_hash b,
               cm_latest_block_timestamp := Block_timestamp b\<rparr>) s3)
        else (s3, Ok ())) = (t, Ok u)"
    using assms by (auto simp: store_block_def outcome_simps via_db_eq Let_def)
  obtain place where 3: "blk_transactions b \<noteq> [] \<longrightarrow>
        bincode_location E \<lparr>tl_block_height = Block_height b, tl_block_hash = Block_hash b\<rparr> = Ok place"
      "content (bst_db s3) = with_block data place b (content (bst_db s))" "bst_metadata s3 = bst_metadata s"
    using index_transactions_Ok [OF 1(4)] put_Ok [OF 1(2)] put_Ok [OF 1(3)] by (auto simp: with_block_def)
  show "bst_metadata t = after_block b (bst_metadata s)"
    using 2 3(3) by (auto simp: after_block_def dest!: save_metadata_Ok split: if_splits)
  have "\<forall>k. k \<noteq> metadata_key \<longrightarrow> fmlookup (content (bst_db t)) k = fmlookup (content (bst_db s3)) k"
    using 2 by (auto dest!: save_metadata_Ok split: if_splits)
  with 1(1) 3 show "\<exists>data place. bincode_block E b = Ok data \<and>
      (blk_transactions b \<noteq> [] \<longrightarrow>
        bincode_location E \<lparr>tl_block_height = Block_height b, tl_block_hash = Block_hash b\<rparr> = Ok place) \<and>
      (\<forall>k. k \<noteq> metadata_key \<longrightarrow> fmlookup (content (bst_db t)) k = fmlookup (with_block data place b (content (bst_db s))) k)"
    by auto
qed

lemma store_block_stored:
  assumes "block_store_codec_laws E" and "store_block E D s b = (t, Ok u)"
    and "blocks_stored E (content (bst_db s)) bs" and "Block_height b = of_nat (length bs)" and "length bs < 2 ^ 64"
  shows "blocks_stored E (content (bst_db t)) (bs @ [b])"
proof -
  obtain data place where p: "bincode_block E b = Ok data"
      "blk_transactions b \<noteq> [] \<longrightarrow>
        bincode_location E \<lparr>tl_block_height = Block_height b, tl_block_hash = Block_hash b\<rparr> = Ok place"
      "\<And>k. k \<noteq> metadata_key \<Longrightarrow> fmlookup (content (bst_db t)) k = fmlookup (with_block data place b (content (bst_db s))) k"
    using store_block_Ok(2) [OF assms(2)] by blast
  have "blocks_stored E (with_block data place b (content (bst_db s))) (bs @ [b])"
    using assms(1) p(1,2) by (intro blocks_stored_snoc assms(3-5)) (auto simp: block_store_codec_laws_def)
  then show ?thesis using p(3) by (rule blocks_stored_cong)
qed

text \<open>The metadata after the blocks at the positions from \<open>i\<close> on.\<close>

lemma store_heights_stored:
  assumes "block_store_codec_laws E" and "length bs \<le> 2 ^ 64"
    and "\<And>i. i < length bs \<Longrightarrow> get_block_by_height c (of_nat i) = Ok (Some (bs ! i)) \<and> Block_height (bs ! i) = of_nat i"
    and "store_heights E D c (map of_nat [i ..< length bs]) s = (t, Ok u)" and "i \<le> length bs"
    and "blocks_stored E (content (bst_db s)) (take i bs)"
  shows "blocks_stored E (content (bst_db t)) bs \<and> bst_metadata t = fold after_block (drop i bs) (bst_metadata s)"
  using assms(4-6)
proof (induction "length bs - i" arbitrary: i s)
  case (Suc n)
  then have i: "i < length bs" by simp
  then have "[i ..< length bs] = i # [Suc i ..< length bs]" by (simp add: upt_conv_Cons)
  with Suc.prems(1) assms(3) [OF i] obtain s1 where s1: "store_block E D s (bs ! i) = (s1, Ok ())"
      "store_heights E D c (map of_nat [Suc i ..< length bs]) s1 = (t, Ok u)"
    by (auto simp: outcome_simps)
  have "blocks_stored E (content (bst_db s1)) (take i bs @ [bs ! i])"
    using assms(2) assms(3) [OF i] i by (intro store_block_stored [OF assms(1) s1(1) Suc.prems(3)]) auto
  then have "blocks_stored E (content (bst_db s1)) (take (Suc i) bs)" using i by (simp add: take_Suc_conv_app_nth)
  with Suc.hyps(1) [of "Suc i" s1] Suc.hyps(2) s1(2) i show ?case
    by (simp add: store_block_Ok(1) [OF s1(1)] Cons_nth_drop_Suc [symmetric])
qed auto

end

section \<open>Reads\<close>

text \<open>A read may change what the database counts, never what it holds.\<close>

context reliable_database
begin

definition same_data :: "'a BlockchainStore \<Rightarrow> 'a BlockchainStore \<Rightarrow> bool" where
  "same_data s t \<longleftrightarrow> bst_metadata t = bst_metadata s \<and> content (bst_db t) = content (bst_db s)"

lemma read_decoded_Ok:
  assumes "decodes decode (fmlookup (content d) k) x"
  obtains d' where "read_decoded D decode what d k = (d', Ok x)" "content d' = content d"
proof -
  obtain d' where d': "db_get D d k = (d', Ok (fmlookup (content d) k))" "content d' = content d" by (rule get_obtains)
  with assms have "read_decoded D decode what d k = (d', Ok x)"
    by (auto simp: read_decoded_def decodes_def split: option.splits)
  then show ?thesis using d'(2) by (rule that)
qed

lemma via_db_read:
  assumes "decodes decode (fmlookup (content (bst_db s)) k) x"
  obtains t where "via_db (\<lambda>d. read_decoded D decode what d k) s = (t, Ok x)" "same_data s t"
proof -
  obtain d' where "read_decoded D decode what (bst_db s) k = (d', Ok x)" "content d' = content (bst_db s)"
    using assms by (rule read_decoded_Ok)
  then show ?thesis by (intro that [of "s\<lparr>bst_db := d'\<rparr>"]) (simp_all add: via_db_def same_data_def)
qed

lemma stored_block_by_height_Ok:
  assumes "blocks_stored E (content (bst_db s)) bs"
  obtains t where "stored_block_by_height E D s h = (t, Ok (vec_get bs (unat h)))" "same_data s t"
  using assms unfolding stored_block_by_height_def blocks_stored_def by (metis via_db_read)

lemma stored_block_by_hash_Ok:
  assumes "blocks_stored E (content (bst_db s)) bs"
  obtains t where "stored_block_by_hash E D s g = (t, Ok (List.find (\<lambda>b. Block_hash b = g) (rev bs)))" "same_data s t"
  using assms unfolding stored_block_by_hash_def blocks_stored_def by (metis via_db_read)

lemma stored_transaction_Ok:
  assumes "blocks_stored E (content (bst_db s)) bs"
  shows "snd (stored_transaction E D s i) =
    Ok (case location_in bs i of None \<Rightarrow> None | Some l \<Rightarrow>
          (case vec_get bs (unat (tl_block_height l)) of None \<Rightarrow> None
           | Some b \<Rightarrow> List.find (\<lambda>t. tx_id t = i) (blk_transactions b)))"
proof -
  have "decodes (unbincode_location E) (fmlookup (content (bst_db s)) (tx_key i)) (location_in bs i)"
    using assms by (simp add: blocks_stored_def)
  then obtain t where t: "via_db (\<lambda>d. read_decoded D (unbincode_location E) ''TX location'' d (tx_key i)) s = (t, Ok (location_in bs i))"
      "same_data s t"
    by (rule via_db_read)
  show ?thesis
  proof (cases "location_in bs i")
    case None
    with t(1) show ?thesis by (simp add: stored_transaction_def)
  next
    case (Some l)
    have "blocks_stored E (content (bst_db t)) bs" using assms t(2) by (simp add: same_data_def)
    then obtain t' where "stored_block_by_height E D t (tl_block_height l) = (t', Ok (vec_get bs (unat (tl_block_height l))))"
      by (rule stored_block_by_height_Ok)
    with t(1) Some show ?thesis by (simp add: stored_transaction_def split: option.splits)
  qed
qed

lemma reopen:
  assumes "decodes (unbincode_metadata E) (fmlookup (content db) metadata_key) (Some m)"
  obtains t where "BlockchainStore_new E D now db = Ok t" "bst_metadata t = m" "content (bst_db t) = content db"
proof -
  obtain d' where "read_decoded D (unbincode_metadata E) ''Metadata'' db metadata_key = (d', Ok (Some m))" "content d' = content db"
    using assms by (rule read_decoded_Ok)
  then show ?thesis
    by (intro that [of "\<lparr>bst_db = d', bst_metadata = m\<rparr>"]) (simp_all add: BlockchainStore_new_def load_metadata_def)
qed

end

section \<open>A stored chain\<close>

lemma after_blocks:
  assumes "\<And>i. i < length bs \<Longrightarrow> Block_height (bs ! i) = of_nat i" and "length bs \<le> 2 ^ 64" and "cm_chain_height m = 0"
  shows "cm_chain_height (fold after_block bs m) = of_nat (length bs - 1) \<and>
    (1 < length bs \<longrightarrow> cm_latest_block_hash (fold after_block bs m) = Block_hash (last bs))"
  using assms(1,2)
proof (induction bs rule: rev_induct)
  case (snoc b bs)
  have IH: "cm_chain_height (fold after_block bs m) = of_nat (length bs - 1)"
  proof (rule snoc.IH [THEN conjunct1])
    show "Block_height (bs ! i) = of_nat i" if "i < length bs" for i
      using snoc.prems(1) [of i] that by (simp add: nth_append)
    show "length bs \<le> 2 ^ 64" using snoc.prems(2) by simp
  qed
  have b: "Block_height b = of_nat (length bs)" using snoc.prems(1) [of "length bs"] by simp
  have "of_nat (length bs - 1) < (of_nat (length bs) :: u64)" if "bs \<noteq> []"
    using snoc.prems(2) that by (simp add: word_less_nat_alt unat_of_nat_small)
  with IH b show ?case by (cases "bs = []") (auto simp: after_block_def [of b "fold after_block bs m"] after_block_def [of b m])
qed (simp add: assms(3))

lemma location_height:
  assumes "chain_wf E c"
  shows "map_option tl_block_height (location_in (bc_blocks c) i) = fmlookup (bc_tx_to_block c) i"
proof -
  let ?bs = "bc_blocks c"
  have tx: "\<And>k. fmlookup (bc_tx_to_block c) i = Some k \<longleftrightarrow> (\<exists>j < length ?bs. k = of_nat j \<and> i \<in> tx_ids (?bs ! j))"
    and h: "\<And>j. j < length ?bs \<Longrightarrow> Block_height (?bs ! j) = of_nat j"
    using assms by (auto simp: chain_wf_def tx_index_def blocks_wf_def)
  show ?thesis
  proof (cases "List.find (\<lambda>b. i \<in> tx_ids b) (rev ?bs)")
    case None
    then have "fmlookup (bc_tx_to_block c) i = None"
      unfolding find_None_iff using tx by (metis nth_mem option.exhaust set_rev)
    with None show ?thesis by (simp add: location_in_def)
  next
    case (Some b)
    then have "b \<in> set (rev ?bs) \<and> i \<in> tx_ids b" unfolding find_Some_iff by (metis nth_mem)
    then have "b \<in> set ?bs" "i \<in> tx_ids b" by simp_all
    then obtain j where j: "j < length ?bs" "b = ?bs ! j" by (auto simp: in_set_conv_nth)
    with \<open>i \<in> tx_ids b\<close> have "fmlookup (bc_tx_to_block c) i = Some (of_nat j)" by (auto simp: tx)
    with Some j h show ?thesis by (simp add: location_in_def)
  qed
qed

context reliable_database
begin

lemma stored_transaction_chain:
  assumes "chain_wf E c" and "length (bc_blocks c) \<le> 2 ^ 64" and "blocks_stored E (content (bst_db s)) (bc_blocks c)"
  shows "snd (stored_transaction E D s i) = get_transaction c i"
  unfolding stored_transaction_Ok [OF assms(3)] get_transaction_def get_block_by_height_eq [OF assms(1,2)]
    location_height [OF assms(1), symmetric]
  by (auto simp: Block_get_transaction_def split: option.splits)

lemma store_blockchain_stored:
  assumes wf: "chain_wf E c" and small: "length (bc_blocks c) \<le> 2 ^ 64" and laws: "block_store_codec_laws E"
    and s0: "blocks_stored E (content (bst_db s0)) []" "cm_chain_height (bst_metadata s0) = 0"
    and call: "store_blockchain E D s0 c = (s, Ok u)"
  shows "blocks_stored E (content (bst_db s)) (bc_blocks c)"
    and "decodes (unbincode_metadata E) (fmlookup (content (bst_db s)) metadata_key) (Some (bst_metadata s))"
    and "cm_chain_height (bst_metadata s) = bc_height c" "cm_genesis_hash (bst_metadata s) = bc_genesis_hash c"
      "cm_total_transactions (bst_metadata s) = of_nat (transaction_count c)"
proof -
  let ?bs = "bc_blocks c"
  have ne: "0 < length ?bs" and h: "\<And>i. i < length ?bs \<Longrightarrow> Block_height (?bs ! i) = of_nat i"
    and top: "bc_height c = of_nat (length ?bs - 1)"
    using wf by (auto simp: chain_wf_def blocks_wf_def)
  have "heights_inclusive 0 (bc_height c) = map of_nat [0 ..< length ?bs]"
    using ne small by (simp add: heights_inclusive_def top unat_of_nat_small del: upt_Suc)
  then obtain s1 where s1: "store_heights E D c (map of_nat [0 ..< length ?bs]) s0 = (s1, Ok ())"
    and s: "save_metadata E D (on_metadata (\<lambda>m. m\<lparr>cm_genesis_hash := bc_genesis_hash c,
          cm_total_transactions := of_nat (transaction_count c)\<rparr>) s1) = (s, Ok u)"
    using call by (auto simp: store_blockchain_def outcome_simps Blockchain_get_stats_def Let_def)
  have "get_block_by_height c (of_nat i) = Ok (Some (?bs ! i)) \<and> Block_height (?bs ! i) = of_nat i" if "i < length ?bs" for i
    using that small h by (simp add: get_block_by_height_eq [OF wf small] unat_of_nat_small vec_get_def)
  from store_heights_stored [OF laws small this s1] s0
  have 1: "blocks_stored E (content (bst_db s1)) ?bs" "bst_metadata s1 = fold after_block ?bs (bst_metadata s0)"
    by simp_all
  from 1(1) show "blocks_stored E (content (bst_db s)) ?bs"
    by (rule blocks_stored_cong) (use save_metadata_Ok [OF s] in auto)
  show "decodes (unbincode_metadata E) (fmlookup (content (bst_db s)) metadata_key) (Some (bst_metadata s))"
    using save_metadata_Ok [OF s] laws by (auto simp: block_store_codec_laws_def)
  show "cm_chain_height (bst_metadata s) = bc_height c" "cm_genesis_hash (bst_metadata s) = bc_genesis_hash c"
    "cm_total_transactions (bst_metadata s) = of_nat (transaction_count c)"
    using save_metadata_Ok [OF s] 1(2) after_blocks [OF h small s0(2)] top by simp_all
qed

end

section \<open>Loading a chain\<close>

text \<open>Blocks added one after the other, up to the first that is refused.\<close>

fun add_blocks :: "'z tx_externals_scheme \<Rightarrow> Blockchain \<Rightarrow> Block list \<Rightarrow> Blockchain outcome" where
  "add_blocks E c [] = Ok c"
| "add_blocks E c (b # bs) = (let (c', r) = add_block E c b in rbind r (\<lambda>_. add_blocks E c' bs))"

lemma add_blocks_snoc: "add_blocks E c bs = Ok c' \<Longrightarrow> add_blocks E c (bs @ [b]) = (let (c'', r) = add_block E c' b in rbind r (\<lambda>_. Ok c''))"
  by (induction bs arbitrary: c) (auto simp: outcome_simps split: prod.splits)

lemma chain_steps_replay:
  assumes "(chain_step E)\<^sup>*\<^sup>* c0 c"
  shows "\<exists>bs. bc_blocks c = bc_blocks c0 @ bs \<and> add_blocks E c0 bs = Ok c"
  using assms
proof (induction rule: rtranclp_induct)
  case (step c c')
  then obtain bs where bs: "bc_blocks c = bc_blocks c0 @ bs" "add_blocks E c0 bs = Ok c" by blast
  from step.hyps(2) obtain b r where a: "add_block E c b = (c', r)" by (rule chain_stepE)
  show ?case
  proof (cases "r = Ok ()")
    case True
    with add_block_cases [OF a] have "c' = append_block c b" by blast
    with a bs True show ?thesis by (intro exI [of _ "bs @ [b]"]) (simp add: add_blocks_snoc)
  next
    case False
    with add_block_cases [OF a] bs show ?thesis by blast
  qed
qed auto

text \<open>The genesis block depends on the validators and the time of the configuration alone.\<close>

lemma Blockchain_new_cong:
  assumes "gb_validators g = gb_validators g'" and "gb_timestamp g = gb_timestamp g'"
  shows "Blockchain_new E now g = Ok c \<longleftrightarrow> Blockchain_new E now' g' = Ok c"
  using assms by (simp add: Blockchain_new_Ok create_block_Ok genesis_block_of_def)

lemma Blockchain_new_genesis:
  assumes "Blockchain_new E now g = Ok c"
  obtains b where "bc_blocks c = [b]" "Block_timestamp b = gb_timestamp g" "hdr_validator (blk_header b) = hd (gb_validators g)"
  using assms that
  by (auto simp: Blockchain_new_Ok create_block_Ok genesis_block_of_def Block_new_def Let_def Block_timestamp_def)

context reliable_database
begin

lemma load_heights_replay:
  assumes "length bs \<le> 2 ^ 64" and "i \<le> length bs" and "blocks_stored E (content (bst_db s)) bs"
  shows "snd (load_heights E D (map of_nat [i ..< length bs]) c s) = add_blocks E c (drop i bs)"
  using assms(2,3)
proof (induction "length bs - i" arbitrary: i c s)
  case (Suc n)
  then have i: "i < length bs" by simp
  obtain t where t: "stored_block_by_height E D s (of_nat i) = (t, Ok (Some (bs ! i)))" "same_data s t"
    using stored_block_by_height_Ok [OF Suc.prems(2), of "of_nat i"] i assms(1)
    by (auto simp: unat_of_nat_small vec_get_def)
  obtain c' r where c': "add_block E c (bs ! i) = (c', r)" by (cases "add_block E c (bs ! i)")
  have "blocks_stored E (content (bst_db t)) bs" using Suc.prems(2) t(2) by (simp add: same_data_def)
  then have "snd (load_heights E D (map of_nat [Suc i ..< length bs]) c' t) = add_blocks E c' (drop (Suc i) bs)"
    using Suc.hyps(2) i by (intro Suc.hyps(1)) simp_all
  with i t(1) c' show ?case
    by (cases r) (simp_all add: upt_conv_Cons Cons_nth_drop_Suc [symmetric] del: upt_Suc)
qed simp

lemma load_stored:
  assumes "blocks_stored E (content (bst_db s)) bs" and "length bs \<le> 2 ^ 64" and "bs \<noteq> []"
    and "cm_chain_height (bst_metadata s) = of_nat (length bs - 1)"
    and "1 < length bs \<or> cm_genesis_hash (bst_metadata s) \<noteq> BlockHash_zero"
  shows "snd (load_blockchain E D now s) =
    rbind (Blockchain_new E now (GenesisBlock_new [hdr_validator (blk_header (hd bs))] (Block_timestamp (hd bs))))
      (\<lambda>c. add_blocks E c (tl bs))"
proof -
  obtain t where t: "stored_block_by_height E D s 0 = (t, Ok (Some (hd bs)))" "same_data s t"
    using stored_block_by_height_Ok [OF assms(1), of 0] assms(3) by (auto simp: vec_get_def hd_conv_nth)
  have hs: "heights_inclusive 1 (cm_chain_height (bst_metadata t)) = map of_nat [1 ..< length bs]"
    using assms(2-4) t(2) by (simp add: same_data_def heights_inclusive_def unat_of_nat_small del: upt_Suc)
  have "length bs - 1 < 2 ^ 64" using assms(2,3) by (cases bs) simp_all
  then have "cm_chain_height (bst_metadata s) = 0 \<longleftrightarrow> length bs = 1"
    using assms(3,4) by (cases bs) (simp_all add: word_unat_eq_iff unat_of_nat_small)
  then have guard: "\<not> (cm_chain_height (bst_metadata s) = 0 \<and> cm_genesis_hash (bst_metadata s) = BlockHash_zero)"
    using assms(5) by auto
  have "blocks_stored E (content (bst_db t)) bs" using assms(1) t(2) by (simp add: same_data_def)
  from load_heights_replay [OF assms(2) _ this, of 1] assms(3)
  have replay: "snd (load_heights E D (map of_nat [1 ..< length bs]) c t) = add_blocks E c (tl bs)" for c
    by (simp add: drop_Suc Suc_le_eq)
  show ?thesis
    using guard t(1) replay
    by (cases "Blockchain_new E now (GenesisBlock_new [hdr_validator (blk_header (hd bs))] (Block_timestamp (hd bs)))")
       (auto simp: load_blockchain_def hs)
qed

end

text \<open>
  Only the first validator of the genesis is kept, so a chain whose genesis had several validators
  is refused when it is loaded, or comes back with another genesis.
\<close>

lemma other_genesis_refused:
  assumes "Blockchain_new E now g = Ok c" and "1 < length bs" and "bc_genesis_hash c \<noteq> Block_hash (hd bs)"
    and "Block_previous_hash (bs ! 1) = Block_hash (hd bs)"
  shows "\<not> is_ok (add_blocks E c (tl bs))"
proof -
  obtain b where b: "bc_blocks c = [b]" "bc_genesis_hash c = Block_hash b" using assms(1) by (auto simp: Blockchain_new_Ok)
  obtain b0 b1 rest where bs: "bs = b0 # b1 # rest" using assms(2) by (cases bs rule: remdups_adj.cases) auto
  have "check_block E c b1 \<noteq> Ok ()" using assms(3,4) b by (auto simp: bs check_block_Ok)
  then show ?thesis by (auto simp: bs add_block_def is_ok_iff outcome_simps split: result.splits prod.splits)
qed

text \<open>
  The metadata of a stored genesis block stays as it was, because its height is not above the
  initial 0, so the newest block is then reported as absent.
\<close>

lemma genesis_not_latest:
  assumes "Block_height b = 0" and "store_block E (memory_database iteration) (BlockchainStore_new_memory now) b = (s, Ok u)"
  shows "get_latest_block E (memory_database iteration) s = (s, Ok None)"
  using memory.store_block_Ok(1) [OF assms(2)] assms(1)
  by (simp add: after_block_def BlockchainStore_new_memory_def ChainMetadata_default_def get_latest_block_def)

section \<open>Pruning\<close>

definition prunable :: "Timestamp \<Rightarrow> Block list \<Rightarrow> BlockHeight \<Rightarrow> bool" where
  "prunable cutoff bs h \<longleftrightarrow> h \<noteq> 0 \<and> (\<exists>b. vec_get bs (unat h) = Some b \<and> Block_timestamp b < cutoff)"

definition prune_list :: "Timestamp \<Rightarrow> Block list \<Rightarrow> BlockHeight list \<Rightarrow> WriteOperation list" where
  "prune_list cutoff bs hs = concat (map (\<lambda>h. prune_operations (bs ! unat h) h) (filter (prunable cutoff bs) hs))"

lemma fmlookup_deletes:
  "\<forall>w \<in> set ops. \<exists>k. w = Delete k \<Longrightarrow>
   fmlookup (fold apply_write ops m) k = (if Delete k \<in> set ops then None else fmlookup m k)"
  by (induction ops arbitrary: m) (auto split: if_splits)

lemma prune_list_deletes: "\<forall>w \<in> set (prune_list cutoff bs hs). \<exists>k. w = Delete k"
  by (auto simp: prune_list_def prune_operations_def)

lemma prune_list_height:
  "Delete (block_height_key h) \<in> set (prune_list cutoff bs hs) \<longleftrightarrow> h \<in> set hs \<and> prunable cutoff bs h"
  by (auto simp: prune_list_def prune_operations_def)

context reliable_database
begin

lemma prune_heights_Ok:
  assumes "blocks_stored E (content (bst_db s)) bs"
  shows "\<exists>t. prune_heights E D cutoff hs (n, ops) s =
      (t, Ok (n + length (filter (prunable cutoff bs) hs), ops @ prune_list cutoff bs hs)) \<and> same_data s t"
  using assms
proof (induction hs arbitrary: n ops s)
  case Nil
  show ?case by (simp add: prune_list_def same_data_def)
next
  case (Cons h hs)
  obtain t where t: "stored_block_by_height E D s h = (t, Ok (vec_get bs (unat h)))" "same_data s t"
    using Cons.prems by (rule stored_block_by_height_Ok)
  then have "blocks_stored E (content (bst_db t)) bs" using Cons.prems by (simp add: same_data_def)
  note IH = Cons.IH [OF this]
  show ?case
  proof (cases "prunable cutoff bs h")
    case True
    then have "vec_get bs (unat h) = Some (bs ! unat h)" "Block_timestamp (bs ! unat h) < cutoff" "h \<noteq> 0"
      by (auto simp: prunable_def vec_get_def split: if_splits)
    with t True IH [of "n + 1" "ops @ prune_operations (bs ! unat h) h"] show ?thesis
      by (auto simp: prune_list_def same_data_def)
  next
    case False
    then have "(case vec_get bs (unat h) of
        Some block \<Rightarrow> if Block_timestamp block < cutoff \<and> h \<noteq> 0 then (fst (n, ops) + 1, snd (n, ops) @ prune_operations block h) else (n, ops)
      | None \<Rightarrow> (n, ops)) = (n, ops)"
      by (auto simp: prunable_def split: option.splits)
    with t False IH [of n ops] show ?thesis by (auto simp: prune_list_def same_data_def)
  qed
qed

end

text \<open>
  Pruning a stored chain removes the blocks after the genesis that are older than the cutoff, and
  counts them. The height in the metadata stays, so loading goes on to expect all blocks.
\<close>

lemma prune_before_reads:
  assumes "blocks_stored E (md_data (bst_db s)) bs" and "length bs \<le> 2 ^ 64" and "bs \<noteq> []"
    and "cm_chain_height (bst_metadata s) = of_nat (length bs - 1)"
  obtains t where "prune_before E (memory_database iteration) s cutoff =
      (t, Ok (length (filter (prunable cutoff bs) (heights_inclusive 1 (of_nat (length bs - 1))))))"
    "bst_metadata t = bst_metadata s"
    "\<And>h. snd (stored_block_by_height E (memory_database iteration) t h) =
       Ok (if prunable cutoff bs h then None else vec_get bs (unat h))"
proof -
  let ?M = "memory_database iteration" and ?hs = "heights_inclusive 1 (of_nat (length bs - 1))"
  let ?ops = "prune_list cutoff bs ?hs"
  obtain s1 where s1: "prune_heights E ?M cutoff ?hs (0, []) s = (s1, Ok (length (filter (prunable cutoff bs) ?hs), ?ops))"
      "memory.same_data s s1"
    using memory.prune_heights_Ok [OF assms(1), of iteration cutoff ?hs 0 "[]"] by auto
  define t where "t = (if ?ops \<noteq> [] then s1\<lparr>bst_db := fst (mem_write_batch (bst_db s1) ?ops)\<rparr> else s1)"
  have call: "prune_before E ?M s cutoff = (t, Ok (length (filter (prunable cutoff bs) ?hs)))"
    using s1(1) by (simp add: prune_before_def assms(4) t_def via_db_def memory_defs)
  have m: "fmlookup (md_data (bst_db t)) k = (if Delete k \<in> set ?ops then None else fmlookup (md_data (bst_db s)) k)" for k
    using s1(2) by (simp add: t_def memory.same_data_def mem_write_batch_def fmlookup_deletes [OF prune_list_deletes])
  have in_range: "h \<in> set ?hs" if "prunable cutoff bs h" for h
  proof -
    have "unat h < length bs" "unat h \<noteq> 0" using that by (auto simp: prunable_def vec_get_def unat_eq_0 split: if_splits)
    moreover have "unat (of_nat (length bs - 1) :: u64) = length bs - 1"
      using assms(2,3) by (intro unat_of_nat_small) (cases bs, simp_all)
    ultimately have "unat h \<in> {1 ..< Suc (unat (of_nat (length bs - 1) :: u64))}" by auto
    then show ?thesis unfolding heights_inclusive_def by (auto simp: image_iff simp del: upt_Suc intro!: bexI [of _ "unat h"])
  qed
  have "snd (stored_block_by_height E ?M t h) = Ok (if prunable cutoff bs h then None else vec_get bs (unat h))" for h
  proof -
    have "decodes (unbincode_block E) (fmlookup (md_data (bst_db t)) (block_height_key h))
        (if prunable cutoff bs h then None else vec_get bs (unat h))"
      using assms(1) in_range [of h] by (auto simp: m prune_list_height blocks_stored_def)
    then obtain u where "via_db (\<lambda>d. read_decoded ?M (unbincode_block E) ''Block'' d (block_height_key h)) t =
        (u, Ok (if prunable cutoff bs h then None else vec_get bs (unat h)))"
      by (rule memory.via_db_read)
    then show ?thesis by (simp add: stored_block_by_height_def)
  qed
  moreover have "bst_metadata t = bst_metadata s" using s1(2) by (simp add: t_def memory.same_data_def)
  ultimately show ?thesis using call by (intro that)
qed

lemma new_memory_empty:
  "blocks_stored E (md_data (bst_db (BlockchainStore_new_memory now))) []"
  "cm_chain_height (bst_metadata (BlockchainStore_new_memory now)) = 0"
  by (simp_all add: BlockchainStore_new_memory_def MemoryDatabase_new_def blocks_stored_empty ChainMetadata_default_def)

section \<open>Properties\<close>

text \<open>
  C20: A stored chain is read back as it is. A chain built by the program, written to an empty store
  and opened again later, answers every query as the chain in memory: the block at every height,
  every transaction, and whether a transaction is known; the block with a hash is the newest of the
  chain with that hash; height, number of blocks, number of transactions and genesis hash are those
  of the chain, and with more than the genesis the newest block is the last one.
\<close>

theorem blockchain_store_reads:
  assumes "reachable_chain E c" and "length (bc_blocks c) \<le> 2 ^ 64" and "block_store_codec_laws E"
    and "store_blockchain E (memory_database iteration) (BlockchainStore_new_memory now) c = (s, Ok ())"
  shows "\<exists>t. BlockchainStore_new E (memory_database iteration) later (bst_db s) = Ok t \<and>
    (\<forall>h. snd (stored_block_by_height E (memory_database iteration) t h) = get_block_by_height c h) \<and>
    (\<forall>i. snd (stored_transaction E (memory_database iteration) t i) = get_transaction c i) \<and>
    (\<forall>i. stored_contains_transaction (memory_database iteration) t i = Ok (contains_transaction c i)) \<and>
    (\<forall>g. snd (stored_block_by_hash E (memory_database iteration) t g) =
           Ok (List.find (\<lambda>b. Block_hash b = g) (rev (bc_blocks c)))) \<and>
    chain_height t = bc_height c \<and> block_count t = of_nat (length (bc_blocks c)) \<and>
    stored_transaction_count t = of_nat (transaction_count c) \<and> genesis_hash t = bc_genesis_hash c \<and>
    (1 < length (bc_blocks c) \<longrightarrow>
       snd (get_latest_block E (memory_database iteration) t) = Ok (Some (last (bc_blocks c))))"
proof -
  let ?M = "memory_database iteration" and ?bs = "bc_blocks c"
  have wf: "chain_wf E c" using assms(1) by (rule reachable_chain_wf)
  then have ne: "?bs \<noteq> []" and top: "bc_height c = of_nat (length ?bs - 1)" by (auto simp: chain_wf_def blocks_wf_def)
  note stored = memory.store_blockchain_stored [OF wf assms(2,3) new_memory_empty assms(4)]
  obtain t where t: "BlockchainStore_new E ?M later (bst_db s) = Ok t" "bst_metadata t = bst_metadata s"
      "md_data (bst_db t) = md_data (bst_db s)"
    using memory.reopen [OF stored(2)] by blast
  have bs: "blocks_stored E (md_data (bst_db t)) ?bs" using stored(1) t(3) by simp
  have height: "snd (stored_block_by_height E ?M t h) = get_block_by_height c h" for h
    using memory.stored_block_by_height_Ok [OF bs, of iteration h] get_block_by_height_eq [OF wf assms(2), of h] by force
  have hash: "snd (stored_block_by_hash E ?M t g) = Ok (List.find (\<lambda>b. Block_hash b = g) (rev ?bs))" for g
    using memory.stored_block_by_hash_Ok [OF bs, of iteration g] by force
  have contains: "stored_contains_transaction ?M t i = Ok (contains_transaction c i)" for i
  proof -
    have "decodes (unbincode_location E) (fmlookup (md_data (bst_db t)) (tx_key i)) (location_in ?bs i)"
      using bs by (simp add: blocks_stored_def)
    then have "hm_contains_key (md_data (bst_db t)) (tx_key i) \<longleftrightarrow> hm_contains_key (bc_tx_to_block c) i"
      by (auto simp: hm_contains_key_def decodes_def location_height [OF wf, symmetric] split: option.splits)
    then show ?thesis by (simp add: stored_contains_transaction_def memory_defs contains_transaction_def)
  qed
  have meta: "cm_chain_height (bst_metadata t) = bc_height c" "cm_genesis_hash (bst_metadata t) = bc_genesis_hash c"
    "cm_total_transactions (bst_metadata t) = of_nat (transaction_count c)"
    using stored(3-5) t(2) by simp_all
  have last: "snd (get_latest_block E ?M t) = Ok (Some (last ?bs))" if "1 < length ?bs"
  proof -
    have u: "unat (bc_height c) = length ?bs - 1" using assms(2) ne by (simp add: top unat_of_nat_small)
    then have "bc_height c \<noteq> 0" using that by auto
    with u ne show ?thesis
      by (simp add: get_latest_block_def meta(1) height get_block_by_height_eq [OF wf assms(2)] vec_get_def last_conv_nth)
  qed
  have "block_count t = of_nat (length ?bs)" using ne by (cases ?bs) (simp_all add: block_count_def meta(1) top)
  with t(1) height hash contains meta last memory.stored_transaction_chain [OF wf assms(2) bs, of iteration] show ?thesis
    by (auto simp: chain_height_def genesis_hash_def stored_transaction_count_def)
qed

text \<open>
  C21: Storing and loading is a round trip. A chain that grew from a genesis with one validator,
  written to an empty store, is loaded again as the same chain: the same blocks, the same indices,
  the same height and genesis.
\<close>

theorem blockchain_store_reload:
  assumes "Blockchain_new E now g = Ok c0" and "gb_validators g = [v]" and "(chain_step E)\<^sup>*\<^sup>* c0 c"
    and "length (bc_blocks c) \<le> 2 ^ 64" and "1 < length (bc_blocks c) \<or> bc_genesis_hash c \<noteq> BlockHash_zero"
    and "block_store_codec_laws E"
    and "store_blockchain E (memory_database iteration) (BlockchainStore_new_memory now) c = (s, Ok ())"
  shows "snd (load_blockchain E (memory_database iteration) later s) = Ok c"
proof -
  have wf: "chain_wf E c" using assms(1,3) chain.reachable_invar by blast
  then have ne: "bc_blocks c \<noteq> []" and top: "bc_height c = of_nat (length (bc_blocks c) - 1)"
    by (auto simp: chain_wf_def blocks_wf_def)
  note stored = memory.store_blockchain_stored [OF wf assms(4,6) new_memory_empty assms(7)]
  obtain b where b: "bc_blocks c0 = [b]" "Block_timestamp b = gb_timestamp g" "hdr_validator (blk_header b) = v"
    using Blockchain_new_genesis [OF assms(1)] assms(2) by auto
  obtain bs where bs: "bc_blocks c = b # bs" "add_blocks E c0 bs = Ok c"
    using chain_steps_replay [OF assms(3)] b(1) by auto
  have "Blockchain_new E later (GenesisBlock_new [v] (gb_timestamp g)) = Ok c0"
    using Blockchain_new_cong [of g "GenesisBlock_new [v] (gb_timestamp g)" E now c0 later] assms(1,2)
    by (simp add: GenesisBlock_new_def)
  with bs b(2,3) memory.load_stored [OF stored(1) assms(4) ne, of iteration later]
    stored(3,4) top assms(5) show ?thesis
    by simp
qed

section \<open>A sample store\<close>

text \<open>A codec for locations and metadata, and for the blocks of a chain of two blocks.\<close>

definition sample_metadata_bytes :: "ChainMetadata \<Rightarrow> u8 list" where
  "sample_metadata_bytes m =
     to_le_bytes (cm_chain_height m) @ to_le_bytes (cm_latest_block_timestamp m) @ to_le_bytes (cm_total_transactions m) @
     to_le_bytes (cm_last_updated m) @ bytes_list (block_hash_bytes (cm_genesis_hash m)) @
     bytes_list (block_hash_bytes (cm_latest_block_hash m))"

definition sample_metadata_parse :: "u8 list \<Rightarrow> ChainMetadata" where
  "sample_metadata_parse bs =
     \<lparr>cm_chain_height = from_le_bytes (take 8 bs), cm_genesis_hash = BlockHash (mk_bytes (take 32 (drop 32 bs))),
      cm_latest_block_hash = BlockHash (mk_bytes (drop 64 bs)), cm_latest_block_timestamp = from_le_bytes (take 8 (drop 8 bs)),
      cm_total_transactions = from_le_bytes (take 8 (drop 16 bs)), cm_last_updated = from_le_bytes (take 8 (drop 24 bs))\<rparr>"

lemma sample_metadata_parse_bytes: "sample_metadata_parse (sample_metadata_bytes m) = m"
  by (simp add: sample_metadata_parse_def sample_metadata_bytes_def length_to_le_bytes from_to_le_bytes bytes_list_inverse)

definition sample_block_env :: block_store_externals where
  "sample_block_env = tx_externals.extend sample_env (block_store_externals.fields
     (\<lambda>b. if b = hd (bc_blocks sample_chain2) then Ok [1] else if b = last (bc_blocks sample_chain2) then Ok [2] else Err ''unknown'')
     (\<lambda>bs. if bs = [1] then Ok (hd (bc_blocks sample_chain2)) else Ok (last (bc_blocks sample_chain2)))
     (\<lambda>l. Ok (to_le_bytes (tl_block_height l) @ bytes_list (block_hash_bytes (tl_block_hash l))))
     (\<lambda>bs. Ok \<lparr>tl_block_height = from_le_bytes (take 8 bs), tl_block_hash = BlockHash (mk_bytes (drop 8 bs))\<rparr>)
     (\<lambda>m. Ok (sample_metadata_bytes m)) (\<lambda>bs. Ok (sample_metadata_parse bs)))"

lemma sample_block_env_sel:
  "blake2b_256 sample_block_env = blake2b_256 sample_env" "bincode_tx_type sample_block_env = bincode_tx_type sample_env"
  "hex_encode sample_block_env = hex_encode sample_env"
  by (simp_all add: sample_block_env_def tx_externals.defs)

lemma sample_block_laws: "block_store_codec_laws sample_block_env"
  by (auto simp: block_store_codec_laws_def sample_block_env_def tx_externals.defs block_store_externals.defs
      sample_metadata_parse_bytes length_to_le_bytes from_to_le_bytes bytes_list_inverse)

lemma sample_stored_new: "Blockchain_new sample_block_env 0 (GenesisBlock_new [sample_key 1] 1000) = Ok sample_chain"
proof -
  have "genesis_transaction sample_block_env t x = genesis_transaction sample_env t x" for t x
    by (simp add: genesis_transaction_def Transaction_new_with_params_def calculate_id_def serialize_for_hashing_def
        hash_data_def sample_block_env_sel)
  then have "genesis_transaction sample_block_env = genesis_transaction sample_env" by blast
  then have "create_block sample_block_env 0 (GenesisBlock_new [sample_key 1] 1000) =
      create_block sample_env 0 (GenesisBlock_new [sample_key 1] 1000)"
    by (cases "genesis_transaction sample_env 1000 (0, sample_key 1)")
       (simp_all add: create_block_def GenesisBlock_new_def Block_new_def calculate_hash_def hash_data_def tx_leaves_def
         merkle_root_singleton sample_block_env_sel)
  then show ?thesis using sample_chain_new by (simp add: Blockchain_new_def)
qed

lemma sample_block_step: "chain_step sample_block_env sample_chain sample_chain2"
proof -
  let ?b = "sample_block (last (bc_blocks sample_chain)) []"
  have "check_block sample_env sample_chain ?b = Ok ()" using add_block_cases [OF sample_chain_add] by blast
  moreover have "blk_transactions ?b = []" using Block_new_fields [OF sample_block_new] by simp
  moreover have "merkle_root sample_block_env [] = merkle_root sample_env []"
    by (simp add: merkle_root_def levels_of_short)
  ultimately have "check_block sample_block_env sample_chain ?b = Ok ()"
    by (simp add: check_block_Ok Block_validate_Ok tx_leaves_def calculate_hash_def hash_data_def sample_block_env_sel)
  then have "add_block sample_block_env sample_chain ?b = (sample_chain2, Ok ())"
    by (simp add: add_block_def sample_chain2_def)
  then show ?thesis by (rule chain_step.add)
qed

text \<open>In memory a chain is stored without error when its blocks can be encoded.\<close>

lemma index_transactions_memory:
  "is_ok (bincode_location E l) \<Longrightarrow> \<exists>t. index_transactions E (memory_database iteration) l txs s = (t, Ok ())"
  by (induction txs arbitrary: s) (auto simp: is_ok_iff via_db_def memory_defs)

lemma save_metadata_memory:
  "is_ok (bincode_metadata E (bst_metadata s)) \<Longrightarrow> \<exists>t. save_metadata E (memory_database iteration) s = (t, Ok ())"
  by (auto simp: save_metadata_def is_ok_iff via_db_def memory_defs)

lemma store_block_memory:
  assumes "is_ok (bincode_block E b)" and "\<And>l. is_ok (bincode_location E l)" and "\<And>m. is_ok (bincode_metadata E m)"
  shows "\<exists>t. store_block E (memory_database iteration) s b = (t, Ok ())"
proof -
  obtain data where data: "bincode_block E b = Ok data" using assms(1) by (auto simp: is_ok_iff)
  let ?put = "\<lambda>k s. s\<lparr>bst_db := fst (mem_put (bst_db s) k data)\<rparr>"
  obtain t where "index_transactions E (memory_database iteration) \<lparr>tl_block_height = Block_height b, tl_block_hash = Block_hash b\<rparr>
      (blk_transactions b) (?put (block_hash_key (Block_hash b)) (?put (block_height_key (Block_height b)) s)) = (t, Ok ())"
    using index_transactions_memory [OF assms(2)] by blast
  with save_metadata_memory [OF assms(3)] data show ?thesis
    by (simp add: store_block_def via_db_def memory_database_def mem_put_def Let_def)
qed

lemma store_heights_memory:
  assumes "\<And>h. h \<in> set hs \<Longrightarrow> \<exists>b. get_block_by_height c h = Ok (Some b) \<and> is_ok (bincode_block E b)"
    and "\<And>l. is_ok (bincode_location E l)" and "\<And>m. is_ok (bincode_metadata E m)"
  shows "\<exists>t. store_heights E (memory_database iteration) c hs s = (t, Ok ())"
  using assms(1)
proof (induction hs arbitrary: s)
  case (Cons h hs)
  obtain b where b: "get_block_by_height c h = Ok (Some b)" "is_ok (bincode_block E b)" using Cons.prems [of h] by auto
  obtain t where "store_block E (memory_database iteration) s b = (t, Ok ())"
    using store_block_memory [OF b(2) assms(2,3)] by blast
  with b(1) Cons.IH [of t] Cons.prems show ?case by simp
qed simp

lemma sample_block_store:
  "\<exists>s. store_blockchain sample_block_env (memory_database sorted_walk) (BlockchainStore_new_memory 0) sample_chain2 = (s, Ok ())"
proof -
  let ?E = sample_block_env and ?M = "memory_database sorted_walk"
  have enc: "\<And>l. is_ok (bincode_location ?E l)" "\<And>m. is_ok (bincode_metadata ?E m)"
    "\<And>b. b \<in> {hd (bc_blocks sample_chain2), last (bc_blocks sample_chain2)} \<Longrightarrow> is_ok (bincode_block ?E b)"
    by (auto simp: sample_block_env_def tx_externals.defs block_store_externals.defs)
  have blocks: "get_block_by_height sample_chain2 h = Ok (vec_get (bc_blocks sample_chain2) (unat h))" for h
    by (rule get_block_by_height_eq [OF reachable_chain_wf [OF sample_chain2_reachable]]) simp
  have two: "bc_blocks sample_chain2 = [hd (bc_blocks sample_chain2), last (bc_blocks sample_chain2)]"
    using sample_chain2_length by (cases "bc_blocks sample_chain2" rule: remdups_adj.cases) auto
  have "bc_height sample_chain2 = 1"
    using reachable_chain_wf [OF sample_chain2_reachable] by (simp add: chain_wf_def)
  then have hs: "heights_inclusive 0 (bc_height sample_chain2) = [0, 1]" by (simp add: heights_inclusive_def upt_rec)
  have "\<exists>b. get_block_by_height sample_chain2 h = Ok (Some b) \<and> is_ok (bincode_block ?E b)" if "h \<in> set [0, 1]" for h
  proof -
    have "vec_get (bc_blocks sample_chain2) (unat h) = Some (if h = 0 then hd (bc_blocks sample_chain2) else last (bc_blocks sample_chain2))"
      using that by (subst two) (auto simp: vec_get_def)
    with enc(3) show ?thesis unfolding blocks by simp
  qed
  from store_heights_memory [OF this enc(1,2)]
  obtain t where t: "store_heights ?E ?M sample_chain2 [0, 1] (BlockchainStore_new_memory 0) = (t, Ok ())" by blast
  have "bc_blocks sample_chain2 \<noteq> []" using two by auto
  with t hs save_metadata_memory [OF enc(2)] show ?thesis
    by (auto simp: store_blockchain_def Blockchain_get_stats_def latest_block_def vec_last_def Let_def)
qed

theorem blockchain_store_reads_witness:
  "\<exists>s t. store_blockchain sample_block_env (memory_database sorted_walk) (BlockchainStore_new_memory 0) sample_chain2 = (s, Ok ()) \<and>
     BlockchainStore_new sample_block_env (memory_database sorted_walk) 9 (bst_db s) = Ok t \<and>
     block_count t = 2 \<and>
     snd (get_latest_block sample_block_env (memory_database sorted_walk) t) = Ok (Some (last (bc_blocks sample_chain2)))"
proof -
  obtain s where s: "store_blockchain sample_block_env (memory_database sorted_walk) (BlockchainStore_new_memory 0) sample_chain2 = (s, Ok ())"
    using sample_block_store by blast
  have "reachable_chain sample_block_env sample_chain2"
    unfolding reachable_chain_def using sample_stored_new sample_block_step by blast
  from blockchain_store_reads [OF this _ sample_block_laws s, of 9] s show ?thesis by auto
qed

theorem blockchain_store_reload_witness:
  "\<exists>s. store_blockchain sample_block_env (memory_database sorted_walk) (BlockchainStore_new_memory 0) sample_chain2 = (s, Ok ()) \<and>
     snd (load_blockchain sample_block_env (memory_database sorted_walk) 9 s) = Ok sample_chain2"
proof -
  obtain s where s: "store_blockchain sample_block_env (memory_database sorted_walk) (BlockchainStore_new_memory 0) sample_chain2 = (s, Ok ())"
    using sample_block_store by blast
  have "snd (load_blockchain sample_block_env (memory_database sorted_walk) 9 s) = Ok sample_chain2"
    by (rule blockchain_store_reload [OF sample_stored_new _ _ _ _ sample_block_laws s, of "sample_key 1"])
       (use sample_block_step in \<open>auto simp: GenesisBlock_new_def\<close>)
  with s show ?thesis by blast
qed

end
