(* ===== verification/Cache.thy ===== *)
theory Cache
  imports Common_Types Float64 Registries
begin

text \<open>
  \<open>storage/src/cache.rs\<close>: four caches with least-recently-used eviction, of the third-party package
  \<open>lru\<close>, behind one interface. A cache of the package is a record of its methods; its documented
  behaviour is \<open>lru_laws\<close>, stated through the list of its entries, the most recently used first.
  Whatever was called, a lookup yields the newest value put under the key or nothing, and no cache
  outgrows its capacity. The order in which the methods take the locks is modelled at the end.
\<close>

section \<open>The cache of the package\<close>

record ('c, 'k, 'v) Lru =
  lru_new :: "nat \<Rightarrow> 'c"
  lru_put :: "'c \<Rightarrow> 'k \<Rightarrow> 'v \<Rightarrow> 'c"
  lru_get :: "'c \<Rightarrow> 'k \<Rightarrow> 'c \<times> 'v option"
  lru_pop :: "'c \<Rightarrow> 'k \<Rightarrow> 'c \<times> 'v option"
  lru_clear :: "'c \<Rightarrow> 'c"
  lru_len :: "'c \<Rightarrow> nat"
  lru_cap :: "'c \<Rightarrow> nat"
  lru_contains :: "'c \<Rightarrow> 'k \<Rightarrow> bool"
  lru_peek :: "'c \<Rightarrow> 'k \<Rightarrow> 'v option"
  lru_resize :: "'c \<Rightarrow> nat \<Rightarrow> 'c"

definition drop_key :: "'k \<Rightarrow> ('k \<times> 'v) list \<Rightarrow> ('k \<times> 'v) list" where
  "drop_key k es = filter (\<lambda>e. fst e \<noteq> k) es"

text \<open>
  \<open>view\<close> is the list of the entries: \<open>get\<close> and \<open>put\<close> move an entry to the front, \<open>put\<close> and \<open>resize\<close>
  discard what is past the capacity, the others do not reorder.
\<close>

definition lru_laws :: "('c, 'k, 'v) Lru \<Rightarrow> ('c \<Rightarrow> ('k \<times> 'v) list) \<Rightarrow> bool" where
  "lru_laws L view \<longleftrightarrow>
     (\<forall>n. view (lru_new L n) = [] \<and> lru_cap L (lru_new L n) = n) \<and>
     (\<forall>c k v. view (lru_put L c k v) = take (lru_cap L c) ((k, v) # drop_key k (view c)) \<and> lru_cap L (lru_put L c k v) = lru_cap L c) \<and>
     (\<forall>c k. snd (lru_get L c k) = map_of (view c) k \<and> lru_cap L (fst (lru_get L c k)) = lru_cap L c \<and>
        view (fst (lru_get L c k)) =
          (case map_of (view c) k of None \<Rightarrow> view c | Some v \<Rightarrow> (k, v) # drop_key k (view c))) \<and>
     (\<forall>c k. snd (lru_pop L c k) = map_of (view c) k \<and> lru_cap L (fst (lru_pop L c k)) = lru_cap L c \<and>
        view (fst (lru_pop L c k)) = drop_key k (view c)) \<and>
     (\<forall>c. view (lru_clear L c) = [] \<and> lru_cap L (lru_clear L c) = lru_cap L c \<and> lru_len L c = length (view c)) \<and>
     (\<forall>c k. lru_contains L c k = (map_of (view c) k \<noteq> None) \<and> lru_peek L c k = map_of (view c) k) \<and>
     (\<forall>c n. view (lru_resize L c n) = take n (view c) \<and> lru_cap L (lru_resize L c n) = n)"

section \<open>Cache\<close>

type_synonym 'c block_lru = "('c, BlockHash, u8 list) Lru"
type_synonym 'c height_lru = "('c, BlockHeight, BlockHash) Lru"
type_synonym 'c tx_lru = "('c, TxId, u8 list) Lru"
type_synonym 'c state_lru = "('c, u8 list, u8 list) Lru"

record ('b, 'h, 't, 's) Cache =
  ca_block_cache :: 'b
  ca_height_cache :: 'h
  ca_tx_cache :: 't
  ca_state_cache :: 's

record ('b, 'h, 't, 's) cache_lrus =
  cl_block :: "'b block_lru"
  cl_height :: "'h height_lru"
  cl_tx :: "'t tx_lru"
  cl_state :: "'s state_lru"

record CacheStats =
  cst_block_count :: nat
  cst_block_capacity :: nat
  cst_height_count :: nat
  cst_height_capacity :: nat
  cst_tx_count :: nat
  cst_tx_capacity :: nat
  cst_state_count :: nat
  cst_state_capacity :: nat

definition Cache_new ::
  "('b, 'h, 't, 's) cache_lrus \<Rightarrow> nat \<Rightarrow> nat \<Rightarrow> nat \<Rightarrow> ('b, 'h, 't, 's) Cache outcome" where
  "Cache_new L block_capacity tx_capacity state_capacity =
     (if block_capacity = 0 then Err (StorageError ''Block cache capacity must be > 0'')
      else if tx_capacity = 0 then Err (StorageError ''TX cache capacity must be > 0'')
      else if state_capacity = 0 then Err (StorageError ''State cache capacity must be > 0'')
      else Ok \<lparr>ca_block_cache = lru_new (cl_block L) block_capacity, ca_height_cache = lru_new (cl_height L) block_capacity,
               ca_tx_cache = lru_new (cl_tx L) tx_capacity, ca_state_cache = lru_new (cl_state L) state_capacity\<rparr>)"

definition Cache_with_defaults :: "('b, 'h, 't, 's) cache_lrus \<Rightarrow> ('b, 'h, 't, 's) Cache outcome" where
  "Cache_with_defaults L =
     (case Cache_new L 1000 5000 2000 of Ok c \<Rightarrow> Ok c
      | Err e \<Rightarrow> Panic ''Failed to create cache with defaults'' | Panic m \<Rightarrow> Panic m)"

definition put_block ::
  "('b, 'h, 't, 's) cache_lrus \<Rightarrow> ('b, 'h, 't, 's) Cache \<Rightarrow> BlockHash \<Rightarrow> BlockHeight \<Rightarrow> u8 list \<Rightarrow> ('b, 'h, 't, 's) Cache" where
  "put_block L c hash height data =
     c\<lparr>ca_block_cache := lru_put (cl_block L) (ca_block_cache c) hash data,
       ca_height_cache := lru_put (cl_height L) (ca_height_cache c) height hash\<rparr>"

definition get_block ::
  "('b, 'h, 't, 's) cache_lrus \<Rightarrow> ('b, 'h, 't, 's) Cache \<Rightarrow> BlockHash \<Rightarrow> ('b, 'h, 't, 's) Cache \<times> u8 list option" where
  "get_block L c hash =
     (let (b, found) = lru_get (cl_block L) (ca_block_cache c) hash in (c\<lparr>ca_block_cache := b\<rparr>, found))"

definition get_block_hash_by_height ::
  "('b, 'h, 't, 's) cache_lrus \<Rightarrow> ('b, 'h, 't, 's) Cache \<Rightarrow> BlockHeight \<Rightarrow> ('b, 'h, 't, 's) Cache \<times> BlockHash option" where
  "get_block_hash_by_height L c height =
     (let (h, found) = lru_get (cl_height L) (ca_height_cache c) height in (c\<lparr>ca_height_cache := h\<rparr>, found))"

definition cached_block_by_height ::
  "('b, 'h, 't, 's) cache_lrus \<Rightarrow> ('b, 'h, 't, 's) Cache \<Rightarrow> BlockHeight \<Rightarrow> ('b, 'h, 't, 's) Cache \<times> u8 list option" where
  "cached_block_by_height L c height =
     (let (c, found) = get_block_hash_by_height L c height
      in case found of None \<Rightarrow> (c, None) | Some hash \<Rightarrow> get_block L c hash)"

definition put_transaction ::
  "('b, 'h, 't, 's) cache_lrus \<Rightarrow> ('b, 'h, 't, 's) Cache \<Rightarrow> TxId \<Rightarrow> u8 list \<Rightarrow> ('b, 'h, 't, 's) Cache" where
  "put_transaction L c i data = c\<lparr>ca_tx_cache := lru_put (cl_tx L) (ca_tx_cache c) i data\<rparr>"

definition cached_transaction ::
  "('b, 'h, 't, 's) cache_lrus \<Rightarrow> ('b, 'h, 't, 's) Cache \<Rightarrow> TxId \<Rightarrow> ('b, 'h, 't, 's) Cache \<times> u8 list option" where
  "cached_transaction L c i =
     (let (t, found) = lru_get (cl_tx L) (ca_tx_cache c) i in (c\<lparr>ca_tx_cache := t\<rparr>, found))"

definition put_state ::
  "('b, 'h, 't, 's) cache_lrus \<Rightarrow> ('b, 'h, 't, 's) Cache \<Rightarrow> u8 list \<Rightarrow> u8 list \<Rightarrow> ('b, 'h, 't, 's) Cache" where
  "put_state L c k v = c\<lparr>ca_state_cache := lru_put (cl_state L) (ca_state_cache c) k v\<rparr>"

definition get_state ::
  "('b, 'h, 't, 's) cache_lrus \<Rightarrow> ('b, 'h, 't, 's) Cache \<Rightarrow> u8 list \<Rightarrow> ('b, 'h, 't, 's) Cache \<times> u8 list option" where
  "get_state L c k = (let (s, found) = lru_get (cl_state L) (ca_state_cache c) k in (c\<lparr>ca_state_cache := s\<rparr>, found))"

definition remove_block :: "('b, 'h, 't, 's) cache_lrus \<Rightarrow> ('b, 'h, 't, 's) Cache \<Rightarrow> BlockHash \<Rightarrow> ('b, 'h, 't, 's) Cache" where
  "remove_block L c hash = c\<lparr>ca_block_cache := fst (lru_pop (cl_block L) (ca_block_cache c) hash)\<rparr>"

definition remove_block_by_height ::
  "('b, 'h, 't, 's) cache_lrus \<Rightarrow> ('b, 'h, 't, 's) Cache \<Rightarrow> BlockHeight \<Rightarrow> ('b, 'h, 't, 's) Cache" where
  "remove_block_by_height L c height =
     (let (h, found) = lru_pop (cl_height L) (ca_height_cache c) height;
          c = c\<lparr>ca_height_cache := h\<rparr>
      in case found of None \<Rightarrow> c
         | Some hash \<Rightarrow> c\<lparr>ca_block_cache := fst (lru_pop (cl_block L) (ca_block_cache c) hash)\<rparr>)"

definition remove_transaction :: "('b, 'h, 't, 's) cache_lrus \<Rightarrow> ('b, 'h, 't, 's) Cache \<Rightarrow> TxId \<Rightarrow> ('b, 'h, 't, 's) Cache" where
  "remove_transaction L c i = c\<lparr>ca_tx_cache := fst (lru_pop (cl_tx L) (ca_tx_cache c) i)\<rparr>"

definition remove_state :: "('b, 'h, 't, 's) cache_lrus \<Rightarrow> ('b, 'h, 't, 's) Cache \<Rightarrow> u8 list \<Rightarrow> ('b, 'h, 't, 's) Cache" where
  "remove_state L c k = c\<lparr>ca_state_cache := fst (lru_pop (cl_state L) (ca_state_cache c) k)\<rparr>"

definition clear_blocks :: "('b, 'h, 't, 's) cache_lrus \<Rightarrow> ('b, 'h, 't, 's) Cache \<Rightarrow> ('b, 'h, 't, 's) Cache" where
  "clear_blocks L c =
     c\<lparr>ca_block_cache := lru_clear (cl_block L) (ca_block_cache c), ca_height_cache := lru_clear (cl_height L) (ca_height_cache c)\<rparr>"

definition clear_transactions :: "('b, 'h, 't, 's) cache_lrus \<Rightarrow> ('b, 'h, 't, 's) Cache \<Rightarrow> ('b, 'h, 't, 's) Cache" where
  "clear_transactions L c = c\<lparr>ca_tx_cache := lru_clear (cl_tx L) (ca_tx_cache c)\<rparr>"

definition clear_state :: "('b, 'h, 't, 's) cache_lrus \<Rightarrow> ('b, 'h, 't, 's) Cache \<Rightarrow> ('b, 'h, 't, 's) Cache" where
  "clear_state L c = c\<lparr>ca_state_cache := lru_clear (cl_state L) (ca_state_cache c)\<rparr>"

definition clear_all :: "('b, 'h, 't, 's) cache_lrus \<Rightarrow> ('b, 'h, 't, 's) Cache \<Rightarrow> ('b, 'h, 't, 's) Cache" where
  "clear_all L c =
     c\<lparr>ca_block_cache := lru_clear (cl_block L) (ca_block_cache c), ca_height_cache := lru_clear (cl_height L) (ca_height_cache c),
       ca_tx_cache := lru_clear (cl_tx L) (ca_tx_cache c), ca_state_cache := lru_clear (cl_state L) (ca_state_cache c)\<rparr>"

definition Cache_get_stats :: "('b, 'h, 't, 's) cache_lrus \<Rightarrow> ('b, 'h, 't, 's) Cache \<Rightarrow> CacheStats" where
  "Cache_get_stats L c =
     \<lparr>cst_block_count = lru_len (cl_block L) (ca_block_cache c), cst_block_capacity = lru_cap (cl_block L) (ca_block_cache c),
      cst_height_count = lru_len (cl_height L) (ca_height_cache c), cst_height_capacity = lru_cap (cl_height L) (ca_height_cache c),
      cst_tx_count = lru_len (cl_tx L) (ca_tx_cache c), cst_tx_capacity = lru_cap (cl_tx L) (ca_tx_cache c),
      cst_state_count = lru_len (cl_state L) (ca_state_cache c), cst_state_capacity = lru_cap (cl_state L) (ca_state_cache c)\<rparr>"

definition calculate_hit_rate :: "u64 \<Rightarrow> u64 \<Rightarrow> f64" where
  "calculate_hit_rate hits misses =
     (let total = hits + misses in
      if total = 0 then Fin 0 else f64_div (f64_of_nat (unat hits)) (f64_of_nat (unat total)))"

definition contains_block :: "('b, 'h, 't, 's) cache_lrus \<Rightarrow> ('b, 'h, 't, 's) Cache \<Rightarrow> BlockHash \<Rightarrow> bool" where
  "contains_block L c hash = lru_contains (cl_block L) (ca_block_cache c) hash"

definition cache_contains_transaction :: "('b, 'h, 't, 's) cache_lrus \<Rightarrow> ('b, 'h, 't, 's) Cache \<Rightarrow> TxId \<Rightarrow> bool" where
  "cache_contains_transaction L c i = lru_contains (cl_tx L) (ca_tx_cache c) i"

definition contains_state :: "('b, 'h, 't, 's) cache_lrus \<Rightarrow> ('b, 'h, 't, 's) Cache \<Rightarrow> u8 list \<Rightarrow> bool" where
  "contains_state L c k = lru_contains (cl_state L) (ca_state_cache c) k"

definition peek_block :: "('b, 'h, 't, 's) cache_lrus \<Rightarrow> ('b, 'h, 't, 's) Cache \<Rightarrow> BlockHash \<Rightarrow> u8 list option" where
  "peek_block L c hash = lru_peek (cl_block L) (ca_block_cache c) hash"

definition peek_transaction :: "('b, 'h, 't, 's) cache_lrus \<Rightarrow> ('b, 'h, 't, 's) Cache \<Rightarrow> TxId \<Rightarrow> u8 list option" where
  "peek_transaction L c i = lru_peek (cl_tx L) (ca_tx_cache c) i"

definition peek_state :: "('b, 'h, 't, 's) cache_lrus \<Rightarrow> ('b, 'h, 't, 's) Cache \<Rightarrow> u8 list \<Rightarrow> u8 list option" where
  "peek_state L c k = lru_peek (cl_state L) (ca_state_cache c) k"

definition resize_block_cache ::
  "('b, 'h, 't, 's) cache_lrus \<Rightarrow> ('b, 'h, 't, 's) Cache \<Rightarrow> nat \<Rightarrow> ('b, 'h, 't, 's) Cache \<times> unit outcome" where
  "resize_block_cache L c new_capacity =
     (if new_capacity = 0 then (c, Err (StorageError ''Capacity must be > 0''))
      else (c\<lparr>ca_block_cache := lru_resize (cl_block L) (ca_block_cache c) new_capacity,
              ca_height_cache := lru_resize (cl_height L) (ca_height_cache c) new_capacity\<rparr>, Ok ()))"

definition resize_tx_cache ::
  "('b, 'h, 't, 's) cache_lrus \<Rightarrow> ('b, 'h, 't, 's) Cache \<Rightarrow> nat \<Rightarrow> ('b, 'h, 't, 's) Cache \<times> unit outcome" where
  "resize_tx_cache L c new_capacity =
     (if new_capacity = 0 then (c, Err (StorageError ''Capacity must be > 0''))
      else (c\<lparr>ca_tx_cache := lru_resize (cl_tx L) (ca_tx_cache c) new_capacity\<rparr>, Ok ()))"

definition resize_state_cache ::
  "('b, 'h, 't, 's) cache_lrus \<Rightarrow> ('b, 'h, 't, 's) Cache \<Rightarrow> nat \<Rightarrow> ('b, 'h, 't, 's) Cache \<times> unit outcome" where
  "resize_state_cache L c new_capacity =
     (if new_capacity = 0 then (c, Err (StorageError ''Capacity must be > 0''))
      else (c\<lparr>ca_state_cache := lru_resize (cl_state L) (ca_state_cache c) new_capacity\<rparr>, Ok ()))"

section \<open>Statistics\<close>

definition usage_percent :: "nat \<Rightarrow> nat \<Rightarrow> f64" where
  "usage_percent used capacity =
     (if capacity = 0 then Fin 0 else f64_mul (f64_div (f64_of_nat used) (f64_of_nat capacity)) (Fin 100))"

definition block_usage_percent :: "CacheStats \<Rightarrow> f64" where
  "block_usage_percent s = usage_percent (cst_block_count s) (cst_block_capacity s)"

definition tx_usage_percent :: "CacheStats \<Rightarrow> f64" where
  "tx_usage_percent s = usage_percent (cst_tx_count s) (cst_tx_capacity s)"

definition state_usage_percent :: "CacheStats \<Rightarrow> f64" where
  "state_usage_percent s = usage_percent (cst_state_count s) (cst_state_capacity s)"

definition total_items :: "CacheStats \<Rightarrow> nat" where
  "total_items s = cst_block_count s + cst_tx_count s + cst_state_count s"

definition total_capacity :: "CacheStats \<Rightarrow> nat" where
  "total_capacity s = cst_block_capacity s + cst_tx_capacity s + cst_state_capacity s"

section \<open>Calls, and the contents without eviction\<close>

datatype CacheCall =
    PutBlock BlockHash BlockHeight "u8 list" | GetBlock BlockHash | GetBlockByHeight BlockHeight
  | PutTx TxId "u8 list" | GetTx TxId | PutState "u8 list" "u8 list" | GetState "u8 list"
  | RemoveBlock BlockHash | RemoveBlockByHeight BlockHeight | RemoveTx TxId | RemoveState "u8 list"
  | ClearAll | ClearBlocks | ClearTx | ClearState
  | ResizeBlocks nat | ResizeTx nat | ResizeState nat

fun cache_call :: "('b, 'h, 't, 's) cache_lrus \<Rightarrow> CacheCall \<Rightarrow> ('b, 'h, 't, 's) Cache \<Rightarrow> ('b, 'h, 't, 's) Cache" where
  "cache_call L (PutBlock g h d) c = put_block L c g h d"
| "cache_call L (GetBlock g) c = fst (get_block L c g)"
| "cache_call L (GetBlockByHeight h) c = fst (cached_block_by_height L c h)"
| "cache_call L (PutTx i d) c = put_transaction L c i d"
| "cache_call L (GetTx i) c = fst (cached_transaction L c i)"
| "cache_call L (PutState k v) c = put_state L c k v"
| "cache_call L (GetState k) c = fst (get_state L c k)"
| "cache_call L (RemoveBlock g) c = remove_block L c g"
| "cache_call L (RemoveBlockByHeight h) c = remove_block_by_height L c h"
| "cache_call L (RemoveTx i) c = remove_transaction L c i"
| "cache_call L (RemoveState k) c = remove_state L c k"
| "cache_call L ClearAll c = clear_all L c"
| "cache_call L ClearBlocks c = clear_blocks L c"
| "cache_call L ClearTx c = clear_transactions L c"
| "cache_call L ClearState c = clear_state L c"
| "cache_call L (ResizeBlocks n) c = fst (resize_block_cache L c n)"
| "cache_call L (ResizeTx n) c = fst (resize_tx_cache L c n)"
| "cache_call L (ResizeState n) c = fst (resize_state_cache L c n)"

text \<open>
  What the caches would hold if nothing were ever evicted: the newest value put under every key. A removal by
  height takes the block that the height leads to; when the entry of the height has been evicted, the code
  removes no block.
\<close>

record CacheSpec =
  csp_block :: "BlockHash \<rightharpoonup> u8 list"
  csp_height :: "BlockHeight \<rightharpoonup> BlockHash"
  csp_tx :: "TxId \<rightharpoonup> u8 list"
  csp_state :: "u8 list \<rightharpoonup> u8 list"

definition empty_spec :: CacheSpec where
  "empty_spec = \<lparr>csp_block = Map.empty, csp_height = Map.empty, csp_tx = Map.empty, csp_state = Map.empty\<rparr>"

fun spec_call :: "('b, 'h, 't, 's) cache_lrus \<Rightarrow> ('b, 'h, 't, 's) Cache \<Rightarrow> CacheCall \<Rightarrow> CacheSpec \<Rightarrow> CacheSpec" where
  "spec_call L c (PutBlock g h d) p = p\<lparr>csp_block := (csp_block p)(g \<mapsto> d), csp_height := (csp_height p)(h \<mapsto> g)\<rparr>"
| "spec_call L c (PutTx i d) p = p\<lparr>csp_tx := (csp_tx p)(i \<mapsto> d)\<rparr>"
| "spec_call L c (PutState k v) p = p\<lparr>csp_state := (csp_state p)(k \<mapsto> v)\<rparr>"
| "spec_call L c (RemoveBlock g) p = p\<lparr>csp_block := (csp_block p)(g := None)\<rparr>"
| "spec_call L c (RemoveBlockByHeight h) p =
     p\<lparr>csp_height := (csp_height p)(h := None),
       csp_block := (case lru_peek (cl_height L) (ca_height_cache c) h of None \<Rightarrow> csp_block p | Some g \<Rightarrow> (csp_block p)(g := None))\<rparr>"
| "spec_call L c (RemoveTx i) p = p\<lparr>csp_tx := (csp_tx p)(i := None)\<rparr>"
| "spec_call L c (RemoveState k) p = p\<lparr>csp_state := (csp_state p)(k := None)\<rparr>"
| "spec_call L c ClearAll p = empty_spec"
| "spec_call L c ClearBlocks p = p\<lparr>csp_block := Map.empty, csp_height := Map.empty\<rparr>"
| "spec_call L c ClearTx p = p\<lparr>csp_tx := Map.empty\<rparr>"
| "spec_call L c ClearState p = p\<lparr>csp_state := Map.empty\<rparr>"
| "spec_call L c _ p = p"

text \<open>A call on the caches and on their specification.\<close>

definition both_call ::
  "('b, 'h, 't, 's) cache_lrus \<Rightarrow> CacheCall \<Rightarrow> ('b, 'h, 't, 's) Cache \<times> CacheSpec \<Rightarrow> ('b, 'h, 't, 's) Cache \<times> CacheSpec" where
  "both_call L a = (\<lambda>(c, p). (cache_call L a c, spec_call L c a p))"

section \<open>One cache\<close>

text \<open>Every entry is one of \<open>m\<close>, each key is there once, and the capacity is positive and not exceeded.\<close>

definition lru_within :: "('c, 'k, 'v) Lru \<Rightarrow> ('c \<Rightarrow> ('k \<times> 'v) list) \<Rightarrow> 'c \<Rightarrow> ('k \<rightharpoonup> 'v) \<Rightarrow> bool" where
  "lru_within L view c m \<longleftrightarrow>
     (\<forall>(k, v) \<in> set (view c). m k = Some v) \<and> distinct (map fst (view c)) \<and>
     length (view c) \<le> lru_cap L c \<and> 0 < lru_cap L c"

lemma drop_key_facts [simp]:
  "fst ` set (drop_key k es) = fst ` set es - {k}" "distinct (map fst es) \<Longrightarrow> distinct (map fst (drop_key k es))"
  "e \<in> set (drop_key k es) \<longleftrightarrow> e \<in> set es \<and> fst e \<noteq> k"
  by (force simp: drop_key_def distinct_map_filter)+

lemma length_drop_key: "length (drop_key k es) \<le> length es"
  by (simp add: drop_key_def)

lemma length_drop_key_less: "k \<in> fst ` set es \<Longrightarrow> length (drop_key k es) < length es"
  unfolding drop_key_def by (induction es) (auto intro: le_imp_less_Suc)

lemma lru_within_take:
  assumes "\<forall>(k, v) \<in> set es. m k = Some v" and "distinct (map fst es)" and "view c = take (lru_cap L c) es" and "0 < lru_cap L c"
  shows "lru_within L view c m"
  using assms by (auto simp: lru_within_def take_map [symmetric] distinct_take dest: in_set_takeD)

lemma within_new: "lru_laws L view \<Longrightarrow> 0 < n \<Longrightarrow> lru_within L view (lru_new L n) m"
  by (simp add: lru_laws_def lru_within_def)

lemma within_put: "lru_laws L view \<Longrightarrow> lru_within L view c m \<Longrightarrow> lru_within L view (lru_put L c k v) (m(k \<mapsto> v))"
  by (intro lru_within_take [where es = "(k, v) # drop_key k (view c)"]) (auto simp: lru_laws_def lru_within_def)

lemma within_pop:
  "lru_laws L view \<Longrightarrow> lru_within L view c m \<Longrightarrow> lru_within L view (fst (lru_pop L c k)) (m(k := None))"
  "lru_laws L view \<Longrightarrow> lru_within L view c m \<Longrightarrow> lru_within L view (fst (lru_pop L c k)) m"
  using le_trans [OF length_drop_key] by (auto simp: lru_laws_def lru_within_def)

lemma within_clear: "lru_laws L view \<Longrightarrow> lru_within L view c m \<Longrightarrow> lru_within L view (lru_clear L c) m'"
  by (simp add: lru_laws_def lru_within_def)

lemma within_resize: "lru_laws L view \<Longrightarrow> lru_within L view c m \<Longrightarrow> 0 < n \<Longrightarrow> lru_within L view (lru_resize L c n) m"
  by (intro lru_within_take [where es = "view c"]) (auto simp: lru_laws_def lru_within_def)

lemma within_get:
  assumes laws: "lru_laws L view" and "lru_within L view c m"
  shows "lru_within L view (fst (lru_get L c k)) m"
proof (cases "map_of (view c) k")
  case None
  with assms show ?thesis by (simp add: lru_laws_def lru_within_def)
next
  case (Some v)
  then have "(k, v) \<in> set (view c)" by (rule map_of_SomeD)
  moreover from this have "length (drop_key k (view c)) < length (view c)" by (intro length_drop_key_less) force
  ultimately show ?thesis using Some assms by (auto simp: lru_laws_def lru_within_def)
qed

lemma within_lookup:
  assumes "lru_laws L view" and "lru_within L view c m"
  shows "snd (lru_get L c k) = Some v \<Longrightarrow> m k = Some v" "lru_peek L c k = Some v \<Longrightarrow> m k = Some v"
    "lru_len L c \<le> lru_cap L c"
  using assms map_of_SomeD [of "view c" k v] by (auto simp: lru_laws_def lru_within_def)

lemma lru_get_after_put: "lru_laws L view \<Longrightarrow> lru_within L view c m \<Longrightarrow> snd (lru_get L (lru_put L c k v) k) = Some v"
  by (cases "lru_cap L c") (auto simp: lru_laws_def lru_within_def)

lemmas within_intros = within_put within_pop within_clear within_resize within_get

section \<open>All four\<close>

record ('b, 'h, 't, 's) cache_views =
  cv_block :: "'b \<Rightarrow> (BlockHash \<times> u8 list) list"
  cv_height :: "'h \<Rightarrow> (BlockHeight \<times> BlockHash) list"
  cv_tx :: "'t \<Rightarrow> (TxId \<times> u8 list) list"
  cv_state :: "'s \<Rightarrow> (u8 list \<times> u8 list) list"

definition cache_laws :: "('b, 'h, 't, 's) cache_lrus \<Rightarrow> ('b, 'h, 't, 's) cache_views \<Rightarrow> bool" where
  "cache_laws L V \<longleftrightarrow>
     lru_laws (cl_block L) (cv_block V) \<and> lru_laws (cl_height L) (cv_height V) \<and>
     lru_laws (cl_tx L) (cv_tx V) \<and> lru_laws (cl_state L) (cv_state V)"

definition cache_within ::
  "('b, 'h, 't, 's) cache_lrus \<Rightarrow> ('b, 'h, 't, 's) cache_views \<Rightarrow> ('b, 'h, 't, 's) Cache \<Rightarrow> CacheSpec \<Rightarrow> bool" where
  "cache_within L V c p \<longleftrightarrow>
     lru_within (cl_block L) (cv_block V) (ca_block_cache c) (csp_block p) \<and>
     lru_within (cl_height L) (cv_height V) (ca_height_cache c) (csp_height p) \<and>
     lru_within (cl_tx L) (cv_tx V) (ca_tx_cache c) (csp_tx p) \<and>
     lru_within (cl_state L) (cv_state V) (ca_state_cache c) (csp_state p)"

lemmas cache_defs =
  put_block_def get_block_def get_block_hash_by_height_def cached_block_by_height_def put_transaction_def
  cached_transaction_def put_state_def get_state_def remove_block_def remove_block_by_height_def remove_transaction_def
  remove_state_def clear_all_def clear_blocks_def clear_transactions_def clear_state_def resize_block_cache_def
  resize_tx_cache_def resize_state_cache_def

lemma cache_call_within:
  assumes "cache_laws L V" and "cache_within L V c p"
  shows "cache_within L V (cache_call L a c) (spec_call L c a p)"
proof (cases "\<exists>h. a = RemoveBlockByHeight h")
  case True
  then obtain h where a: "a = RemoveBlockByHeight h" by blast
  have "snd (lru_pop (cl_height L) (ca_height_cache c) h) = lru_peek (cl_height L) (ca_height_cache c) h"
    using assms(1) by (simp add: cache_laws_def lru_laws_def)
  then show ?thesis using assms
    by (auto simp: a cache_laws_def cache_within_def cache_defs Let_def split_beta split: option.split intro: within_intros)
next
  case False
  then show ?thesis using assms
    by (cases a) (auto simp: cache_laws_def cache_within_def cache_defs empty_spec_def Let_def split_beta
      split: option.split intro: within_intros)
qed

lemma both_run_within:
  "cache_laws L V \<Longrightarrow> cache_within L V (fst x) (snd x) \<Longrightarrow>
   cache_within L V (fst (fold (both_call L) as x)) (snd (fold (both_call L) as x))"
proof (induction as arbitrary: x)
  case (Cons a as)
  show ?case using Cons.IH [OF Cons.prems(1), of "both_call L a x"] cache_call_within [OF Cons.prems] by (simp add: both_call_def split_beta)
qed simp

lemma fst_both_run: "fst (fold (both_call L) as x) = fold (cache_call L) as (fst x)"
  by (induction as arbitrary: x) (auto simp: both_call_def split_beta)

lemma cache_new_within:
  "cache_laws L V \<Longrightarrow> Cache_new L nb nt ns = Ok c \<Longrightarrow> cache_within L V c empty_spec"
  by (auto simp: Cache_new_def cache_laws_def cache_within_def within_new split: if_splits)

section \<open>Properties\<close>

text \<open>
  C23: The caches never serve stale data and never outgrow their capacity. After any sequence of
  calls, what a lookup of a block, a block at a height, a transaction or a piece of state finds is
  the newest value put under that key and not removed since, be it by its hash or by a height still on record; each
  of the four counts is within its capacity; and a block just put is found by its hash and by its height.
\<close>

theorem cache_sound:
  assumes "cache_laws L V" and "Cache_new L nb nt ns = Ok c0"
    and "fold (both_call L) calls (c0, empty_spec) = (c, p)"
  shows "c = fold (cache_call L) calls c0 \<and>
    (\<forall>g d. snd (get_block L c g) = Some d \<longrightarrow> csp_block p g = Some d) \<and>
    (\<forall>h d. snd (cached_block_by_height L c h) = Some d \<longrightarrow> (\<exists>g. csp_height p h = Some g \<and> csp_block p g = Some d)) \<and>
    (\<forall>i d. snd (cached_transaction L c i) = Some d \<longrightarrow> csp_tx p i = Some d) \<and>
    (\<forall>k v. snd (get_state L c k) = Some v \<longrightarrow> csp_state p k = Some v) \<and>
    cst_block_count (Cache_get_stats L c) \<le> cst_block_capacity (Cache_get_stats L c) \<and>
    cst_height_count (Cache_get_stats L c) \<le> cst_height_capacity (Cache_get_stats L c) \<and>
    cst_tx_count (Cache_get_stats L c) \<le> cst_tx_capacity (Cache_get_stats L c) \<and>
    cst_state_count (Cache_get_stats L c) \<le> cst_state_capacity (Cache_get_stats L c) \<and>
    (\<forall>g h d. snd (get_block L (put_block L c g h d) g) = Some d \<and>
             snd (cached_block_by_height L (put_block L c g h d) h) = Some d)"
proof -
  have within: "cache_within L V c p"
    using both_run_within [OF assms(1), of "(c0, empty_spec)" calls] cache_new_within [OF assms(1,2)] assms(3) by simp
  then have w: "lru_within (cl_block L) (cv_block V) (ca_block_cache c) (csp_block p)"
      "lru_within (cl_height L) (cv_height V) (ca_height_cache c) (csp_height p)"
      "lru_within (cl_tx L) (cv_tx V) (ca_tx_cache c) (csp_tx p)"
      "lru_within (cl_state L) (cv_state V) (ca_state_cache c) (csp_state p)"
    by (simp_all add: cache_within_def)
  have l: "lru_laws (cl_block L) (cv_block V)" "lru_laws (cl_height L) (cv_height V)"
      "lru_laws (cl_tx L) (cv_tx V)" "lru_laws (cl_state L) (cv_state V)"
    using assms(1) by (simp_all add: cache_laws_def)
  note look = within_lookup [OF l(1) w(1)] within_lookup [OF l(2) w(2)] within_lookup [OF l(3) w(3)] within_lookup [OF l(4) w(4)]
  have "c = fold (cache_call L) calls c0" using fst_both_run [of L calls "(c0, empty_spec)"] assms(3) by simp
  moreover have "\<exists>g. csp_height p h = Some g \<and> csp_block p g = Some d" if "snd (cached_block_by_height L c h) = Some d" for h d
    using that look(1,4) by (auto simp: cache_defs split_beta Let_def split: option.splits)
  ultimately show ?thesis
    using look lru_get_after_put [OF l(1) w(1)] lru_get_after_put [OF l(2) w(2)]
    by (auto simp: cache_defs split_beta Let_def Cache_get_stats_def)
qed

text \<open>A cache of the package as the list of its entries.\<close>

definition list_lru :: "(nat \<times> ('k \<times> 'v) list, 'k, 'v) Lru" where
  "list_lru =
     \<lparr>lru_new = (\<lambda>n. (n, [])),
      lru_put = (\<lambda>c k v. (fst c, take (fst c) ((k, v) # drop_key k (snd c)))),
      lru_get = (\<lambda>c k. case map_of (snd c) k of None \<Rightarrow> (c, None) | Some v \<Rightarrow> ((fst c, (k, v) # drop_key k (snd c)), Some v)),
      lru_pop = (\<lambda>c k. ((fst c, drop_key k (snd c)), map_of (snd c) k)),
      lru_clear = (\<lambda>c. (fst c, [])), lru_len = (\<lambda>c. length (snd c)), lru_cap = fst,
      lru_contains = (\<lambda>c k. map_of (snd c) k \<noteq> None), lru_peek = (\<lambda>c k. map_of (snd c) k),
      lru_resize = (\<lambda>c n. (n, take n (snd c)))\<rparr>"

lemma list_lru_laws: "lru_laws list_lru snd"
  by (auto simp: lru_laws_def list_lru_def split: option.splits)

definition sample_lrus ::
  "(nat \<times> (BlockHash \<times> u8 list) list, nat \<times> (BlockHeight \<times> BlockHash) list, nat \<times> (TxId \<times> u8 list) list,
    nat \<times> (u8 list \<times> u8 list) list) cache_lrus" where
  "sample_lrus = \<lparr>cl_block = list_lru, cl_height = list_lru, cl_tx = list_lru, cl_state = list_lru\<rparr>"

definition sample_cache_calls :: "CacheCall list" where
  "sample_cache_calls =
     [PutBlock (BlockHash (bytes_fill 1)) 4 [7], RemoveBlockByHeight 4, PutBlock (BlockHash (bytes_fill 2)) 5 [8], GetBlockByHeight 4]"

theorem cache_sound_witness:
  "\<exists>c0 c p. Cache_new sample_lrus 2 1 1 = Ok c0 \<and> fold (both_call sample_lrus) sample_cache_calls (c0, empty_spec) = (c, p) \<and>
     snd (cached_block_by_height sample_lrus c 5) = Some [8] \<and>
     csp_block p (BlockHash (bytes_fill 2)) = Some [8] \<and> snd (get_block sample_lrus c (BlockHash (bytes_fill 1))) = None"
proof -
  let ?c0 = "\<lparr>ca_block_cache = (2, []), ca_height_cache = (2, []), ca_tx_cache = (1, []), ca_state_cache = (1, [])\<rparr>"
  have new: "Cache_new sample_lrus 2 1 1 = Ok ?c0" by (simp add: Cache_new_def sample_lrus_def list_lru_def)
  have laws: "cache_laws sample_lrus \<lparr>cv_block = snd, cv_height = snd, cv_tx = snd, cv_state = snd\<rparr>"
    by (simp add: cache_laws_def sample_lrus_def list_lru_laws)
  obtain c p where run: "fold (both_call sample_lrus) sample_cache_calls (?c0, empty_spec) = (c, p)" by fastforce
  note sound = cache_sound [OF laws new run]
  have get: "snd (cached_block_by_height sample_lrus c 5) = Some [8]"
    unfolding conjunct1 [OF sound] by (simp add: sample_cache_calls_def sample_lrus_def list_lru_def cache_defs Let_def drop_key_def)
  have spec: "csp_height p 5 = Some (BlockHash (bytes_fill 2))" "csp_block p (BlockHash (bytes_fill 1)) = None"
    using run by (auto simp: sample_cache_calls_def both_call_def sample_lrus_def list_lru_def cache_defs Let_def drop_key_def empty_spec_def)
  then have "csp_block p (BlockHash (bytes_fill 2)) = Some [8]" using conjunct1 [OF conjunct2 [OF conjunct2 [OF sound]]] get by (metis option.inject)
  moreover have "snd (get_block sample_lrus c (BlockHash (bytes_fill 1))) = None"
    using conjunct1 [OF conjunct2 [OF sound]] spec(2) by (metis not_None_eq)
  ultimately show ?thesis using new run get by blast
qed

text \<open>
  A height can be evicted while its block, which was read since, is not. Removing that height then leaves the
  block in the cache.
\<close>

lemma evicted_height_keeps_block:
  "ca_block_cache (fold (cache_call sample_lrus)
     [PutBlock (BlockHash (bytes_fill 1)) 4 [7], PutBlock (BlockHash (bytes_fill 2)) 5 [8], GetBlock (BlockHash (bytes_fill 1)),
      PutBlock (BlockHash (bytes_fill 3)) 6 [9], RemoveBlockByHeight 4]
     \<lparr>ca_block_cache = (2, []), ca_height_cache = (2, []), ca_tx_cache = (1, []), ca_state_cache = (1, [])\<rparr>) =
   (2, [(BlockHash (bytes_fill 3), [9]), (BlockHash (bytes_fill 1), [7])])"
  by (simp add: sample_lrus_def list_lru_def put_block_def get_block_def remove_block_by_height_def drop_key_def)

section \<open>Locks\<close>

text \<open>
  The locks a call takes and frees. \<open>put_block\<close> takes the lock of the blocks and then that of the
  heights; \<open>remove_block_by_height\<close> still holds the lock of the heights, a temporary of its \<open>if let\<close>,
  when it takes that of the blocks.
\<close>

datatype CacheLock = BlockLock | HeightLock

datatype LockAction = Acquire CacheLock | Release CacheLock

definition put_block_locks :: "LockAction list" where
  "put_block_locks = [Acquire BlockLock, Acquire HeightLock, Release HeightLock, Release BlockLock]"

definition remove_block_by_height_locks :: "bool \<Rightarrow> LockAction list" where
  "remove_block_by_height_locks found =
     Acquire HeightLock # (if found then [Acquire BlockLock, Release BlockLock] else []) @ [Release HeightLock]"

text \<open>Two threads, each with what it has still to do, and the locks that are taken.\<close>

inductive lock_step :: "(LockAction list \<times> LockAction list) \<times> CacheLock set \<Rightarrow> (LockAction list \<times> LockAction list) \<times> CacheLock set \<Rightarrow> bool" where
  acquire1: "l \<notin> held \<Longrightarrow> lock_step ((Acquire l # xs, ys), held) ((xs, ys), insert l held)"
| acquire2: "l \<notin> held \<Longrightarrow> lock_step ((xs, Acquire l # ys), held) ((xs, ys), insert l held)"
| release1: "lock_step ((Release l # xs, ys), held) ((xs, ys), held - {l})"
| release2: "lock_step ((xs, Release l # ys), held) ((xs, ys), held - {l})"

inductive_cases lock_stepE: "lock_step s t"

text \<open>A thread that puts a block and one that removes a block by its height can block each other for ever.\<close>

lemma cache_deadlock:
  "\<exists>s. lock_step\<^sup>*\<^sup>* ((put_block_locks, remove_block_by_height_locks True), {}) s \<and>
     (\<nexists>t. lock_step s t) \<and> fst (fst s) \<noteq> [] \<and> snd (fst s) \<noteq> []"
proof -
  let ?xs = "[Acquire HeightLock, Release HeightLock, Release BlockLock]"
  let ?ys = "[Acquire BlockLock, Release BlockLock, Release HeightLock]"
  have "lock_step ((put_block_locks, remove_block_by_height_locks True), {}) ((?xs, remove_block_by_height_locks True), {BlockLock})"
    unfolding put_block_locks_def using acquire1 [of BlockLock "{}"] by simp
  moreover have "lock_step ((?xs, remove_block_by_height_locks True), {BlockLock}) ((?xs, ?ys), {HeightLock, BlockLock})"
    unfolding remove_block_by_height_locks_def using acquire2 [of HeightLock "{BlockLock}" ?xs ?ys] by simp
  ultimately have "lock_step\<^sup>*\<^sup>* ((put_block_locks, remove_block_by_height_locks True), {}) ((?xs, ?ys), {HeightLock, BlockLock})"
    by (meson converse_rtranclp_into_rtranclp rtranclp.rtrancl_refl)
  moreover have "\<not> lock_step ((?xs, ?ys), {HeightLock, BlockLock}) t" for t
    by (auto elim: lock_stepE)
  ultimately show ?thesis by (intro exI [of _ "((?xs, ?ys), {HeightLock, BlockLock})"]) simp
qed

end
