(* ===== verification/Snapshot.thy ===== *)
theory Snapshot
  imports Common_Utils Database Float64
begin

text \<open>
  \<open>storage/src/snapshot.rs\<close>: files that hold all blocks and the state. The files are a finite map
  from paths to bytes; opening or removing a file that is missing is an error, other device errors
  are not modelled. Restoring a snapshot feeds the restorer exactly what the provider gave, in the
  same order. The JSON form of the metadata is a third-party function, the provider and the
  restorer are the two traits of the file, and the order of a directory listing is an argument.
\<close>

section \<open>Data\<close>

record SnapshotMetadata =
  sm_version :: u32
  sm_block_height :: BlockHeight
  sm_block_hash :: BlockHash
  sm_created_at :: Timestamp
  sm_size_bytes :: u64
  sm_block_count :: u64
  sm_transaction_count :: u64
  sm_checksum :: "32 bytes"
  sm_chain_id :: string

text \<open>A path of the snapshot directory: the file name with its extension split off.\<close>

record FilePath =
  fp_dir :: string
  fp_stem :: string
  fp_extension :: string

record SnapshotManager =
  smg_snapshot_dir :: string
  smg_version :: u32

record SnapshotInfo =
  si_metadata :: SnapshotMetadata
  si_snapshot_path :: FilePath
  si_metadata_path :: FilePath

record SnapshotDataProvider =
  sp_blocks :: "u8 list list outcome"
  sp_transaction_count :: "u8 list \<Rightarrow> u64 outcome"
  sp_state :: "u8 list outcome"

record 'r SnapshotDataRestorer =
  sr_restore_block :: "'r \<Rightarrow> u8 list \<Rightarrow> 'r \<times> unit outcome"
  sr_restore_state :: "'r \<Rightarrow> u8 list \<Rightarrow> 'r \<times> unit outcome"

type_synonym files = "(FilePath, u8 list) hashmap"

record snapshot_externals = externals +
  json_metadata :: "SnapshotMetadata \<Rightarrow> (u8 list, string) result"
  unjson_metadata :: "u8 list \<Rightarrow> (SnapshotMetadata, string) result"

text \<open>Parsing inverts printing.\<close>

definition snapshot_codec_laws :: "'z snapshot_externals_scheme \<Rightarrow> bool" where
  "snapshot_codec_laws E \<longleftrightarrow> (\<forall>m bs. json_metadata E m = Ok bs \<longrightarrow> unjson_metadata E bs = Ok m)"

section \<open>Files\<close>

definition open_file :: "files \<Rightarrow> FilePath \<Rightarrow> u8 list outcome" where
  "open_file fs path =
     (case fmlookup fs path of None \<Rightarrow> Err (IoError ''No such file or directory (os error 2)'') | Some bs \<Rightarrow> Ok bs)"

definition remove_file :: "files \<Rightarrow> FilePath \<Rightarrow> files \<times> unit outcome" where
  "remove_file fs path =
     (if hm_contains_key fs path then (fmdrop path fs, Ok ()) else (fs, Err (IoError ''No such file or directory (os error 2)'')))"

definition read_bytes :: "nat \<Rightarrow> u8 list \<Rightarrow> (u8 list \<times> u8 list) outcome" where
  "read_bytes n bs = (if n \<le> length bs then Ok (take n bs, drop n bs) else Err (IoError ''failed to fill whole buffer''))"

definition CURRENT_VERSION :: u32 where
  "CURRENT_VERSION = 1"

definition SnapshotManager_new :: "string \<Rightarrow> SnapshotManager outcome" where
  "SnapshotManager_new snapshot_dir = Ok \<lparr>smg_snapshot_dir = snapshot_dir, smg_version = CURRENT_VERSION\<rparr>"

section \<open>Writing\<close>

fun write_blocks :: "SnapshotDataProvider \<Rightarrow> u8 list list \<Rightarrow> u8 list \<Rightarrow> u64 \<Rightarrow> u8 list \<times> u64 outcome" where
  "write_blocks p [] out total_tx_count = (out, Ok total_tx_count)"
| "write_blocks p (block_data # blocks) out total_tx_count =
     (let out = out @ to_le_bytes (of_nat (length block_data) :: u32) @ block_data
      in and_then (out, sp_transaction_count p block_data) (\<lambda>out tx_count.
           write_blocks p blocks out (total_tx_count + tx_count)))"

text \<open>The bytes written, also on an error, and the two counts.\<close>

definition write_snapshot_data :: "SnapshotManager \<Rightarrow> SnapshotDataProvider \<Rightarrow> u8 list \<times> (u64 \<times> u64) outcome" where
  "write_snapshot_data m p =
     and_then (to_le_bytes (smg_version m), sp_blocks p) (\<lambda>out blocks.
       let block_count = of_nat (length blocks) :: u64 in
       and_then (write_blocks p blocks (out @ to_le_bytes block_count) 0) (\<lambda>out total_tx_count.
       and_then (out, sp_state p) (\<lambda>out state_data.
         (out @ to_le_bytes (of_nat (length state_data) :: u32) @ state_data, Ok (block_count, total_tx_count)))))"

definition calculate_checksum :: "'z externals_scheme \<Rightarrow> files \<Rightarrow> FilePath \<Rightarrow> 32 bytes outcome" where
  "calculate_checksum E fs path = rbind (open_file fs path) (\<lambda>buffer. Ok (hash_data E buffer))"

definition save_snapshot_metadata ::
  "'z snapshot_externals_scheme \<Rightarrow> files \<Rightarrow> FilePath \<Rightarrow> SnapshotMetadata \<Rightarrow> files \<times> unit outcome" where
  "save_snapshot_metadata E fs path metadata =
     and_then (fmupd path [] fs, map_err SerializationError (json_metadata E metadata)) (\<lambda>fs json. (fmupd path json fs, Ok ()))"

definition load_snapshot_metadata :: "'z snapshot_externals_scheme \<Rightarrow> files \<Rightarrow> FilePath \<Rightarrow> SnapshotMetadata outcome" where
  "load_snapshot_metadata E fs path =
     rbind (open_file fs path) (\<lambda>bs. map_err SerializationError (unjson_metadata E bs))"

definition snapshot_path_of :: "SnapshotManager \<Rightarrow> BlockHeight \<Rightarrow> Timestamp \<Rightarrow> FilePath" where
  "snapshot_path_of m block_height timestamp =
     \<lparr>fp_dir = smg_snapshot_dir m,
      fp_stem = ''snapshot_'' @ show_nat (unat block_height) @ ''_'' @ show_nat (unat timestamp),
      fp_extension = ''snapshot''\<rparr>"

definition create_snapshot ::
  "'z snapshot_externals_scheme \<Rightarrow> Timestamp \<Rightarrow> SnapshotManager \<Rightarrow> files \<Rightarrow> BlockHeight \<Rightarrow> BlockHash \<Rightarrow> string \<Rightarrow>
   SnapshotDataProvider \<Rightarrow> files \<times> SnapshotMetadata outcome" where
  "create_snapshot E now m fs block_height block_hash chain_id p =
     (let snapshot_path = snapshot_path_of m block_height now;
          metadata_path = snapshot_path\<lparr>fp_extension := ''meta''\<rparr>;
          (out, r) = write_snapshot_data m p;
          fs = fmupd snapshot_path out fs
      in and_then (fs, r) (\<lambda>fs (block_count, tx_count).
         and_then (fs, open_file fs snapshot_path) (\<lambda>fs content.
         and_then (fs, calculate_checksum E fs snapshot_path) (\<lambda>fs checksum.
           let metadata = \<lparr>sm_version = smg_version m, sm_block_height = block_height, sm_block_hash = block_hash,
                 sm_created_at = now, sm_size_bytes = of_nat (length content), sm_block_count = block_count,
                 sm_transaction_count = tx_count, sm_checksum = checksum, sm_chain_id = chain_id\<rparr>
           in and_then (save_snapshot_metadata E fs metadata_path metadata) (\<lambda>fs _. (fs, Ok metadata))))))"

section \<open>Reading\<close>

text \<open>A length of four bytes and that many bytes.\<close>

definition read_chunk :: "u8 list \<Rightarrow> (u8 list \<times> u8 list) outcome" where
  "read_chunk bs =
     rbind (read_bytes 4 bs) (\<lambda>(len_bytes, bs). read_bytes (unat (from_le_bytes len_bytes :: u32)) bs)"

fun read_blocks :: "'r SnapshotDataRestorer \<Rightarrow> nat \<Rightarrow> u8 list \<Rightarrow> 'r \<Rightarrow> 'r \<times> u8 list outcome" where
  "read_blocks R 0 bs r = (r, Ok bs)"
| "read_blocks R (Suc n) bs r =
     and_then (r, read_chunk bs) (\<lambda>r (block_data, bs).
     and_then (sr_restore_block R r block_data) (\<lambda>r _. read_blocks R n bs r))"

definition read_snapshot_data :: "SnapshotManager \<Rightarrow> 'r SnapshotDataRestorer \<Rightarrow> u8 list \<Rightarrow> 'r \<Rightarrow> 'r \<times> unit outcome" where
  "read_snapshot_data m R bs r =
     and_then (r, read_bytes 4 bs) (\<lambda>r (version_bytes, bs).
       let version = from_le_bytes version_bytes :: u32 in
       if version \<noteq> smg_version m
       then (r, Err (StorageError (''Snapshot version mismatch: expected '' @ show_nat (unat (smg_version m)) @ '', got '' @
              show_nat (unat version))))
       else
         and_then (r, read_bytes 8 bs) (\<lambda>r (block_count_bytes, bs).
         and_then (read_blocks R (unat (from_le_bytes block_count_bytes :: u64)) bs r) (\<lambda>r bs.
         and_then (r, read_chunk bs) (\<lambda>r (state_data, bs). sr_restore_state R r state_data))))"

definition restore_snapshot ::
  "'z snapshot_externals_scheme \<Rightarrow> SnapshotManager \<Rightarrow> files \<Rightarrow> FilePath \<Rightarrow> 'r SnapshotDataRestorer \<Rightarrow> 'r \<Rightarrow>
   'r \<times> SnapshotMetadata outcome" where
  "restore_snapshot E m fs snapshot_path R r =
     and_then (r, load_snapshot_metadata E fs (snapshot_path\<lparr>fp_extension := ''meta''\<rparr>)) (\<lambda>r metadata.
     and_then (r, calculate_checksum E fs snapshot_path) (\<lambda>r checksum.
       if checksum \<noteq> sm_checksum metadata then (r, Err (StorageError ''Snapshot checksum verification failed''))
       else
         and_then (r, open_file fs snapshot_path) (\<lambda>r bs.
         and_then (read_snapshot_data m R bs r) (\<lambda>r _. (r, Ok metadata)))))"

section \<open>The directory\<close>

definition list_snapshots ::
  "'z snapshot_externals_scheme \<Rightarrow> (files \<Rightarrow> FilePath list) \<Rightarrow> SnapshotManager \<Rightarrow> files \<Rightarrow> SnapshotInfo list outcome" where
  "list_snapshots E read_dir m fs =
     Ok (sort_key (\<lambda>i. - int (unat (sm_block_height (si_metadata i))))
       (concat (map (\<lambda>path.
          if fp_dir path = smg_snapshot_dir m \<and> fp_extension path = ''meta''
          then (case load_snapshot_metadata E fs path of
                  Ok metadata \<Rightarrow>
                    (let snapshot_path = path\<lparr>fp_extension := ''snapshot''\<rparr> in
                     if hm_contains_key fs snapshot_path
                     then [\<lparr>si_metadata = metadata, si_snapshot_path = snapshot_path, si_metadata_path = path\<rparr>] else [])
                | _ \<Rightarrow> [])
          else []) (read_dir fs))))"

definition get_latest_snapshot ::
  "'z snapshot_externals_scheme \<Rightarrow> (files \<Rightarrow> FilePath list) \<Rightarrow> SnapshotManager \<Rightarrow> files \<Rightarrow> SnapshotInfo option outcome" where
  "get_latest_snapshot E read_dir m fs =
     rbind (list_snapshots E read_dir m fs) (\<lambda>snapshots. Ok (case snapshots of [] \<Rightarrow> None | i # _ \<Rightarrow> Some i))"

definition delete_snapshot :: "files \<Rightarrow> SnapshotInfo \<Rightarrow> files \<times> unit outcome" where
  "delete_snapshot fs info =
     and_then (remove_file fs (si_snapshot_path info)) (\<lambda>fs _. remove_file fs (si_metadata_path info))"

fun delete_snapshots :: "SnapshotInfo list \<Rightarrow> files \<Rightarrow> files \<times> unit outcome" where
  "delete_snapshots [] fs = (fs, Ok ())"
| "delete_snapshots (i # is) fs = and_then (delete_snapshot fs i) (\<lambda>fs _. delete_snapshots is fs)"

definition prune_old_snapshots ::
  "'z snapshot_externals_scheme \<Rightarrow> (files \<Rightarrow> FilePath list) \<Rightarrow> SnapshotManager \<Rightarrow> files \<Rightarrow> nat \<Rightarrow> files \<times> nat outcome" where
  "prune_old_snapshots E read_dir m fs keep_count =
     and_then (fs, list_snapshots E read_dir m fs) (\<lambda>fs snapshots.
       if length snapshots \<le> keep_count then (fs, Ok 0)
       else let to_delete = drop keep_count snapshots
            in and_then (delete_snapshots to_delete fs) (\<lambda>fs _. (fs, Ok (length to_delete))))"

definition prune_snapshots_before ::
  "'z snapshot_externals_scheme \<Rightarrow> (files \<Rightarrow> FilePath list) \<Rightarrow> SnapshotManager \<Rightarrow> files \<Rightarrow> Timestamp \<Rightarrow> files \<times> nat outcome" where
  "prune_snapshots_before E read_dir m fs before_timestamp =
     and_then (fs, list_snapshots E read_dir m fs) (\<lambda>fs snapshots.
       let old = filter (\<lambda>i. sm_created_at (si_metadata i) < before_timestamp) snapshots
       in and_then (delete_snapshots old fs) (\<lambda>fs _. (fs, Ok (length old))))"

definition verify_snapshot :: "'z externals_scheme \<Rightarrow> files \<Rightarrow> SnapshotInfo \<Rightarrow> bool outcome" where
  "verify_snapshot E fs info =
     rbind (calculate_checksum E fs (si_snapshot_path info)) (\<lambda>checksum. Ok (checksum = sm_checksum (si_metadata info)))"

definition size_mb :: "SnapshotInfo \<Rightarrow> f64" where
  "size_mb info = f64_div (f64_of_nat (unat (sm_size_bytes (si_metadata info)))) (f64_lit (1024 * 1024))"

section \<open>What is written is read\<close>

lemma read_bytes_append: "length a = n \<Longrightarrow> read_bytes n (a @ b) = Ok (a, b)"
  by (auto simp: read_bytes_def)

lemma read_chunk_append:
  "length data < 2 ^ 32 \<Longrightarrow> read_chunk (to_le_bytes (of_nat (length data) :: u32) @ data @ rest) = Ok (data, rest)"
  by (simp add: read_chunk_def read_bytes_append length_to_le_bytes from_to_le_bytes unat_of_nat_u32)

definition chunks :: "u8 list list \<Rightarrow> u8 list" where
  "chunks blocks = concat (map (\<lambda>b. to_le_bytes (of_nat (length b) :: u32) @ b) blocks)"

lemma write_blocks_Ok: "write_blocks p blocks out n = (out', Ok k) \<Longrightarrow> out' = out @ chunks blocks"
proof (induction blocks arbitrary: out n)
  case (Cons b blocks)
  then obtain x where "write_blocks p blocks (out @ to_le_bytes (of_nat (length b) :: u32) @ b) (n + x) = (out', Ok k)"
    by (auto simp: Let_def outcome_simps)
  from Cons.IH [OF this] show ?case by (simp add: chunks_def)
qed (simp add: chunks_def)

lemma write_snapshot_data_Ok:
  assumes "write_snapshot_data m p = (out, Ok counts)"
  obtains blocks state where "sp_blocks p = Ok blocks" "sp_state p = Ok state" "fst counts = of_nat (length blocks)"
    "out = to_le_bytes (smg_version m) @ to_le_bytes (of_nat (length blocks) :: u64) @ chunks blocks @
       to_le_bytes (of_nat (length state) :: u32) @ state"
  using assms by (auto simp: write_snapshot_data_def outcome_simps Let_def dest!: write_blocks_Ok)

text \<open>All blocks in turn, up to the first error.\<close>

fun restore_blocks :: "'r SnapshotDataRestorer \<Rightarrow> u8 list list \<Rightarrow> 'r \<Rightarrow> 'r \<times> unit outcome" where
  "restore_blocks R [] r = (r, Ok ())"
| "restore_blocks R (b # bs) r = and_then (sr_restore_block R r b) (\<lambda>r _. restore_blocks R bs r)"

lemma read_blocks_chunks:
  "\<forall>b \<in> set blocks. length b < 2 ^ 32 \<Longrightarrow>
   read_blocks R (length blocks) (chunks blocks @ rest) r = and_then (restore_blocks R blocks r) (\<lambda>r _. (r, Ok rest))"
  by (induction blocks arbitrary: r) (auto simp: chunks_def read_chunk_append and_then_assoc intro!: and_then_cong)

lemma read_written:
  assumes "\<forall>b \<in> set blocks. length b < 2 ^ 32" and "length blocks < 2 ^ 64" and "length state < 2 ^ 32"
  shows "read_snapshot_data m R (to_le_bytes (smg_version m) @ to_le_bytes (of_nat (length blocks) :: u64) @ chunks blocks @
       to_le_bytes (of_nat (length state) :: u32) @ state) r =
    and_then (restore_blocks R blocks r) (\<lambda>r _. sr_restore_state R r state)"
proof -
  have "unat (of_nat (length blocks) :: u64) = length blocks" using assms(2) by (simp add: unat_of_nat)
  then show ?thesis
    using read_chunk_append [OF assms(3), of "[]"] read_blocks_chunks [OF assms(1), of R _ r]
    by (simp add: read_snapshot_data_def read_bytes_append length_to_le_bytes from_to_le_bytes and_then_assoc)
qed

text \<open>Restoring succeeds only if the file has the checksum of the metadata.\<close>

lemma restore_checks:
  "restore_snapshot E m fs path R r = (r', Ok metadata) \<Longrightarrow> \<exists>bs. fmlookup fs path = Some bs \<and> hash_data E bs = sm_checksum metadata"
  by (auto simp: restore_snapshot_def outcome_simps calculate_checksum_def open_file_def split: if_splits option.splits)

lemma latest_is_highest:
  assumes "list_snapshots E read_dir m fs = Ok is" and "get_latest_snapshot E read_dir m fs = Ok (Some i)" and "j \<in> set is"
  shows "sm_block_height (si_metadata j) \<le> sm_block_height (si_metadata i)"
proof -
  let ?key = "\<lambda>i. - int (unat (sm_block_height (si_metadata i)))"
  have "sorted (map ?key is)" using assms(1) by (auto simp: list_snapshots_def)
  moreover obtain rest where "is = i # rest" using assms(1,2) by (auto simp: get_latest_snapshot_def split: list.splits)
  ultimately have "?key i \<le> ?key j" using assms(3) by auto
  then show ?thesis by (simp add: word_le_def)
qed

section \<open>Properties\<close>

text \<open>
  C22: A snapshot restores what it was made of. If a snapshot is created and then restored, and no
  piece is longer than its length field can say, the restorer is called with the provider's blocks
  in order and then with the provider's state, nothing else, its errors are passed on, and on
  success the metadata of the creation are returned, with the right size, counts and checksum.
\<close>

theorem snapshot_roundtrip:
  assumes "snapshot_codec_laws E" and "create_snapshot E now m fs height hash chain_id p = (fs', Ok metadata)"
    and "sp_blocks p = Ok blocks" and "sp_state p = Ok state"
    and "\<forall>b \<in> set blocks. length b < 2 ^ 32" and "length blocks < 2 ^ 64" and "length state < 2 ^ 32"
  shows "restore_snapshot E m fs' (snapshot_path_of m height now) R r =
      and_then (restore_blocks R blocks r) (\<lambda>r _. and_then (sr_restore_state R r state) (\<lambda>r _. (r, Ok metadata))) \<and>
    sm_block_count metadata = of_nat (length blocks) \<and> sm_block_height metadata = height \<and>
    (\<exists>bs. fmlookup fs' (snapshot_path_of m height now) = Some bs \<and>
       sm_checksum metadata = hash_data E bs \<and> sm_size_bytes metadata = of_nat (length bs))"
proof -
  let ?path = "snapshot_path_of m height now"
  let ?meta = "?path\<lparr>fp_extension := ''meta''\<rparr>"
  have differ: "?meta \<noteq> ?path" "?path \<noteq> ?meta" by (simp_all add: snapshot_path_of_def)
  obtain out written where out_r: "write_snapshot_data m p = (out, written)" by (cases "write_snapshot_data m p")
  obtain counts json where w: "write_snapshot_data m p = (out, Ok counts)" "json_metadata E metadata = Ok json"
      "fs' = fmupd ?meta json (fmupd ?meta [] (fmupd ?path out fs))"
      "sm_checksum metadata = hash_data E out" "sm_size_bytes metadata = of_nat (length out)" "sm_block_height metadata = height"
      "sm_block_count metadata = fst counts"
    using assms(2) out_r
    by (auto simp: create_snapshot_def Let_def outcome_simps save_snapshot_metadata_def calculate_checksum_def open_file_def)
  obtain bs' st' where out: "sp_blocks p = Ok bs'" "sp_state p = Ok st'" "fst counts = of_nat (length bs')"
      "out = to_le_bytes (smg_version m) @ to_le_bytes (of_nat (length bs') :: u64) @ chunks bs' @
         to_le_bytes (of_nat (length st') :: u32) @ st'"
    using w(1) by (rule write_snapshot_data_Ok)
  have same: "bs' = blocks" "st' = state" using out(1,2) assms(3,4) by simp_all
  have files: "fmlookup fs' ?path = Some out" "fmlookup fs' ?meta = Some json" using differ by (simp_all add: w(3))
  have "unjson_metadata E json = Ok metadata" using assms(1) w(2) by (simp add: snapshot_codec_laws_def)
  with files w(4) have "restore_snapshot E m fs' ?path R r = and_then (read_snapshot_data m R out r) (\<lambda>r _. (r, Ok metadata))"
    by (simp add: restore_snapshot_def load_snapshot_metadata_def calculate_checksum_def open_file_def)
  also have "\<dots> = and_then (restore_blocks R blocks r) (\<lambda>r _. and_then (sr_restore_state R r state) (\<lambda>r _. (r, Ok metadata)))"
    unfolding out(4) same read_written [OF assms(5-7)] by (rule and_then_assoc)
  finally show ?thesis using files w out(3) same by auto
qed

definition sample_provider :: SnapshotDataProvider where
  "sample_provider = \<lparr>sp_blocks = Ok [[1, 2], [3]], sp_transaction_count = (\<lambda>b. Ok 1), sp_state = Ok [9]\<rparr>"

definition collecting_restorer :: "(u8 list list \<times> u8 list) SnapshotDataRestorer" where
  "collecting_restorer =
     \<lparr>sr_restore_block = (\<lambda>r b. ((fst r @ [b], snd r), Ok ())), sr_restore_state = (\<lambda>r s. ((fst r, s), Ok ()))\<rparr>"

definition sample_snapshot_metadata :: SnapshotMetadata where
  "sample_snapshot_metadata =
     \<lparr>sm_version = 1, sm_block_height = 1, sm_block_hash = BlockHash_zero, sm_created_at = 7, sm_size_bytes = 28,
      sm_block_count = 2, sm_transaction_count = 2,
      sm_checksum = hash_data sample_externals (fst (write_snapshot_data \<lparr>smg_snapshot_dir = ''d'', smg_version = 1\<rparr> sample_provider)),
      sm_chain_id = ''c''\<rparr>"

definition sample_snapshot_env :: snapshot_externals where
  "sample_snapshot_env = externals.extend sample_externals (snapshot_externals.fields
     (\<lambda>m. if m = sample_snapshot_metadata then Ok [5] else Err ''unknown'') (\<lambda>bs. Ok sample_snapshot_metadata))"

theorem snapshot_roundtrip_witness:
  "\<exists>fs'. create_snapshot sample_snapshot_env 7 \<lparr>smg_snapshot_dir = ''d'', smg_version = 1\<rparr> fmempty 1 BlockHash_zero ''c'' sample_provider =
       (fs', Ok sample_snapshot_metadata) \<and>
     restore_snapshot sample_snapshot_env \<lparr>smg_snapshot_dir = ''d'', smg_version = 1\<rparr> fs'
       (snapshot_path_of \<lparr>smg_snapshot_dir = ''d'', smg_version = 1\<rparr> 1 7) collecting_restorer ([], []) =
       (([[1, 2], [3]], [9]), Ok sample_snapshot_metadata)"
proof -
  let ?m = "\<lparr>smg_snapshot_dir = ''d'', smg_version = 1\<rparr>"
  have laws: "snapshot_codec_laws sample_snapshot_env"
    by (simp add: snapshot_codec_laws_def sample_snapshot_env_def externals.defs snapshot_externals.defs)
  obtain fs' where made: "create_snapshot sample_snapshot_env 7 ?m fmempty 1 BlockHash_zero ''c'' sample_provider =
      (fs', Ok sample_snapshot_metadata)"
    by (simp add: create_snapshot_def Let_def write_snapshot_data_def sample_provider_def open_file_def calculate_checksum_def
        save_snapshot_metadata_def length_to_le_bytes sample_snapshot_env_def externals.defs snapshot_externals.defs
        sample_snapshot_metadata_def hash_data_def)
  have parts: "sp_blocks sample_provider = Ok [[1, 2], [3]]" "sp_state sample_provider = Ok [9]"
    by (simp_all add: sample_provider_def)
  have "restore_snapshot sample_snapshot_env ?m fs' (snapshot_path_of ?m 1 7) collecting_restorer ([], []) =
      (([[1, 2], [3]], [9]), Ok sample_snapshot_metadata)"
    using snapshot_roundtrip [OF laws made parts, of collecting_restorer "([], [])"]
    by (simp add: collecting_restorer_def)
  with made show ?thesis by blast
qed

end
