(* ===== verification/Jurisdiction_Tree.thy ===== *)
theory Jurisdiction_Tree
  imports Jurisdiction Float64 "HOL-Library.List_Lexorder" "HOL-Library.Char_ord"
begin

text \<open>
  \<open>storage/src/jurisdiction.rs\<close>, the jurisdictions with their voting locations and the tree of them.
  The order in which a hash map is walked is the argument \<open>iteration\<close>, the Unicode table behind
  \<open>to_lowercase\<close> and the trigonometric functions, whose precision the language leaves open, are
  parameters. The descendants of a jurisdiction are computed exactly, and in finite time, when no
  jurisdiction is its own ancestor; a cycle, which \<open>add_jurisdiction\<close> admits, makes the search run for ever.
\<close>

section \<open>Locations\<close>

record GeoCoordinates =
  geo_latitude :: f64
  geo_longitude :: f64
  geo_altitude :: "f64 option"

record PostalAddress =
  ad_street_address :: string
  ad_street_address_2 :: "string option"
  ad_city :: string
  ad_state :: string
  ad_zip_code :: string
  ad_county :: "string option"

datatype LocationType = PollingPlaceType | EarlyVotingCenter | DropBox | MobileUnit | ElectionOffice

record LocationMetadata =
  lm_registered_voters :: u64
  lm_is_accessible :: bool
  lm_hours :: "string option"
  lm_contact_phone :: "string option"
  lm_notes :: "string option"

record LocationStats =
  ls_votes_cast :: u64
  ls_turnout_percentage :: f64
  ls_avg_wait_time :: "u32 option"
  ls_peak_hour :: "u32 option"
  ls_anomaly_flags :: "string list"
  ls_last_updated :: Timestamp

record VotingLocation =
  vl_id :: string
  vl_name :: string
  vl_address :: PostalAddress
  vl_coordinates :: GeoCoordinates
  vl_location_type :: LocationType
  vl_metadata :: LocationMetadata
  vl_stats :: LocationStats

definition LocationMetadata_default :: LocationMetadata where
  "LocationMetadata_default =
     \<lparr>lm_registered_voters = 0, lm_is_accessible = True, lm_hours = None, lm_contact_phone = None, lm_notes = None\<rparr>"

definition LocationStats_default :: LocationStats where
  "LocationStats_default =
     \<lparr>ls_votes_cast = 0, ls_turnout_percentage = Fin 0, ls_avg_wait_time = None, ls_peak_hour = None,
      ls_anomaly_flags = [], ls_last_updated = 0\<rparr>"

definition VotingLocation_new :: "string \<Rightarrow> string \<Rightarrow> PostalAddress \<Rightarrow> GeoCoordinates \<Rightarrow> VotingLocation" where
  "VotingLocation_new i name address coordinates =
     \<lparr>vl_id = i, vl_name = name, vl_address = address, vl_coordinates = coordinates,
      vl_location_type = PollingPlaceType, vl_metadata = LocationMetadata_default, vl_stats = LocationStats_default\<rparr>"

definition Address_display :: "PostalAddress \<Rightarrow> string" where
  "Address_display a = ad_street_address a @ '', '' @ ad_city a @ '', '' @ ad_state a @ '' '' @ ad_zip_code a"

definition GeoCoordinates_new :: "f64 \<Rightarrow> f64 \<Rightarrow> GeoCoordinates" where
  "GeoCoordinates_new latitude longitude = \<lparr>geo_latitude = latitude, geo_longitude = longitude, geo_altitude = None\<rparr>"

text \<open>The functions of the standard library whose results are not specified to the last bit.\<close>

record float_functions =
  ff_to_radians :: "f64 \<Rightarrow> f64"
  ff_sin :: "f64 \<Rightarrow> f64"
  ff_cos :: "f64 \<Rightarrow> f64"
  ff_sqrt :: "f64 \<Rightarrow> f64"
  ff_atan2 :: "f64 \<Rightarrow> f64 \<Rightarrow> f64"
  ff_powi2 :: "f64 \<Rightarrow> f64"

definition distance_to :: "float_functions \<Rightarrow> GeoCoordinates \<Rightarrow> GeoCoordinates \<Rightarrow> f64" where
  "distance_to F p q =
     (let earth_radius = f64_lit 6371000;
          lat1 = ff_to_radians F (geo_latitude p);
          lat2 = ff_to_radians F (geo_latitude q);
          delta_lat = ff_to_radians F (f64_sub (geo_latitude q) (geo_latitude p));
          delta_lon = ff_to_radians F (f64_sub (geo_longitude q) (geo_longitude p));
          a = f64_add (ff_powi2 F (ff_sin F (f64_div delta_lat (f64_lit 2))))
                (f64_mul (f64_mul (ff_cos F lat1) (ff_cos F lat2)) (ff_powi2 F (ff_sin F (f64_div delta_lon (f64_lit 2)))));
          c = f64_mul (f64_lit 2) (ff_atan2 F (ff_sqrt F a) (ff_sqrt F (f64_sub (f64_lit 1) a)))
      in f64_mul earth_radius c)"

definition location_distance_to :: "float_functions \<Rightarrow> VotingLocation \<Rightarrow> VotingLocation \<Rightarrow> f64" where
  "location_distance_to F l other = distance_to F (vl_coordinates l) (vl_coordinates other)"

section \<open>Jurisdictions\<close>

record JurisdictionMetadata =
  jm_population :: "u64 option"
  jm_registered_voters :: u64
  jm_area_sq_miles :: "f64 option"
  jm_timezone :: "string option"

record Jurisdiction =
  j_id :: string
  j_name :: string
  j_level :: JurisdictionLevel
  j_parent_id :: "string option"
  j_fips_code :: "string option"
  j_state_code :: "string option"
  j_county_code :: "string option"
  j_precinct_number :: "string option"
  j_voting_locations :: "VotingLocation list"
  j_metadata :: JurisdictionMetadata

definition JurisdictionMetadata_default :: JurisdictionMetadata where
  "JurisdictionMetadata_default =
     \<lparr>jm_population = None, jm_registered_voters = 0, jm_area_sq_miles = None, jm_timezone = None\<rparr>"

definition Jurisdiction_new :: "string \<Rightarrow> string \<Rightarrow> JurisdictionLevel \<Rightarrow> Jurisdiction" where
  "Jurisdiction_new i name level =
     \<lparr>j_id = i, j_name = name, j_level = level, j_parent_id = None, j_fips_code = None, j_state_code = None,
      j_county_code = None, j_precinct_number = None, j_voting_locations = [], j_metadata = JurisdictionMetadata_default\<rparr>"

definition with_parent :: "Jurisdiction \<Rightarrow> string \<Rightarrow> Jurisdiction" where
  "with_parent j parent_id = j\<lparr>j_parent_id := Some parent_id\<rparr>"

definition with_fips :: "Jurisdiction \<Rightarrow> string \<Rightarrow> Jurisdiction" where
  "with_fips j fips = j\<lparr>j_fips_code := Some fips\<rparr>"

definition with_state_code :: "Jurisdiction \<Rightarrow> string \<Rightarrow> Jurisdiction" where
  "with_state_code j code = j\<lparr>j_state_code := Some code\<rparr>"

definition add_voting_location :: "Jurisdiction \<Rightarrow> VotingLocation \<Rightarrow> Jurisdiction" where
  "add_voting_location j location = j\<lparr>j_voting_locations := j_voting_locations j @ [location]\<rparr>"

definition location_count :: "Jurisdiction \<Rightarrow> nat" where
  "location_count j = length (j_voting_locations j)"

definition get_location :: "Jurisdiction \<Rightarrow> string \<Rightarrow> VotingLocation option" where
  "get_location j location_id = List.find (\<lambda>loc. vl_id loc = location_id) (j_voting_locations j)"

section \<open>The tree\<close>

record JurisdictionTree =
  jt_jurisdictions :: "(string, Jurisdiction) hashmap"
  jt_path_index :: "(JurisdictionPath, string) hashmap"

type_synonym jurisdiction_walk = "(string, Jurisdiction) hashmap \<Rightarrow> string list"

definition JurisdictionTree_new :: JurisdictionTree where
  "JurisdictionTree_new = \<lparr>jt_jurisdictions = fmempty, jt_path_index = fmempty\<rparr>"

text \<open>The loop of \<open>build_path\<close> goes from the jurisdiction towards the root, for ever along a cycle.\<close>

partial_function (option) build_path_loop :: "JurisdictionTree \<Rightarrow> string option \<Rightarrow> string list \<Rightarrow> string list option" where
  "build_path_loop t current_id components =
     (case current_id of
        None \<Rightarrow> Some components
      | Some i \<Rightarrow>
          build_path_loop t (case fmlookup (jt_jurisdictions t) i of None \<Rightarrow> None | Some j \<Rightarrow> j_parent_id j) (i # components))"

definition build_path :: "JurisdictionTree \<Rightarrow> Jurisdiction \<Rightarrow> JurisdictionPath option" where
  "build_path t j = map_option JurisdictionPath (build_path_loop t (Some (j_id j)) [])"

definition add_jurisdiction :: "JurisdictionTree \<Rightarrow> Jurisdiction \<Rightarrow> (JurisdictionTree \<times> unit outcome) option" where
  "add_jurisdiction t j =
     (if hm_contains_key (jt_jurisdictions t) (j_id j)
      then Some (t, Err (InvalidInput ''Jurisdiction already exists''))
      else map_option (\<lambda>path.
        (t\<lparr>jt_path_index := fmupd path (j_id j) (jt_path_index t),
           jt_jurisdictions := fmupd (j_id j) j (jt_jurisdictions t)\<rparr>, Ok ())) (build_path t j))"

definition get_jurisdiction :: "JurisdictionTree \<Rightarrow> string \<Rightarrow> Jurisdiction option" where
  "get_jurisdiction t i = fmlookup (jt_jurisdictions t) i"

definition get_by_path :: "JurisdictionTree \<Rightarrow> JurisdictionPath \<Rightarrow> Jurisdiction option" where
  "get_by_path t path =
     (case fmlookup (jt_path_index t) path of None \<Rightarrow> None | Some i \<Rightarrow> fmlookup (jt_jurisdictions t) i)"

definition all_jurisdictions :: "jurisdiction_walk \<Rightarrow> JurisdictionTree \<Rightarrow> Jurisdiction list" where
  "all_jurisdictions iteration t =
     map (\<lambda>i. the (fmlookup (jt_jurisdictions t) i)) (iteration (jt_jurisdictions t))"

definition get_children :: "jurisdiction_walk \<Rightarrow> JurisdictionTree \<Rightarrow> string \<Rightarrow> Jurisdiction list" where
  "get_children iteration t parent_id =
     filter (\<lambda>j. j_parent_id j = Some parent_id) (all_jurisdictions iteration t)"

partial_function (option) descendants_loop ::
  "jurisdiction_walk \<Rightarrow> JurisdictionTree \<Rightarrow> string list \<Rightarrow> Jurisdiction list \<Rightarrow> Jurisdiction list option" where
  "descendants_loop iteration t queue descendants =
     (if queue = [] then Some descendants
      else let children = get_children iteration t (last queue)
           in descendants_loop iteration t (butlast queue @ map j_id children) (descendants @ children))"

definition get_all_descendants :: "jurisdiction_walk \<Rightarrow> JurisdictionTree \<Rightarrow> string \<Rightarrow> Jurisdiction list option" where
  "get_all_descendants iteration t parent_id = descendants_loop iteration t [parent_id] []"

definition get_all_locations :: "jurisdiction_walk \<Rightarrow> JurisdictionTree \<Rightarrow> string \<Rightarrow> VotingLocation list option" where
  "get_all_locations iteration t jurisdiction_id =
     map_option (\<lambda>descendants.
       (case get_jurisdiction t jurisdiction_id of None \<Rightarrow> [] | Some j \<Rightarrow> j_voting_locations j) @
       concat (map j_voting_locations descendants)) (get_all_descendants iteration t jurisdiction_id)"

text \<open>\<open>haystack.contains(needle)\<close>\<close>

fun str_contains :: "string \<Rightarrow> string \<Rightarrow> bool" where
  "str_contains [] needle = (needle = [])"
| "str_contains (c # cs) needle = (take (length needle) (c # cs) = needle \<or> str_contains cs needle)"

definition find_location_by_address ::
  "(string \<Rightarrow> string) \<Rightarrow> jurisdiction_walk \<Rightarrow> JurisdictionTree \<Rightarrow> string \<Rightarrow> VotingLocation list" where
  "find_location_by_address to_lowercase iteration t address =
     filter (\<lambda>l. str_contains (to_lowercase (Address_display (vl_address l))) (to_lowercase address))
       (concat (map j_voting_locations (all_jurisdictions iteration t)))"

definition find_locations_near ::
  "float_functions \<Rightarrow> jurisdiction_walk \<Rightarrow> JurisdictionTree \<Rightarrow> GeoCoordinates \<Rightarrow> f64 \<Rightarrow> VotingLocation list" where
  "find_locations_near F iteration t coords radius_meters =
     filter (\<lambda>l. f64_le (distance_to F (vl_coordinates l) coords) radius_meters)
       (concat (map j_voting_locations (all_jurisdictions iteration t)))"

definition jurisdiction_count :: "JurisdictionTree \<Rightarrow> nat" where
  "jurisdiction_count t = hm_len (jt_jurisdictions t)"

definition total_locations :: "jurisdiction_walk \<Rightarrow> JurisdictionTree \<Rightarrow> nat" where
  "total_locations iteration t = sum_list (map (\<lambda>j. length (j_voting_locations j)) (all_jurisdictions iteration t))"

section \<open>The order of the tree\<close>

text \<open>From a parent to its children.\<close>

definition below :: "JurisdictionTree \<Rightarrow> (string \<times> string) set" where
  "below t = {(p, i). \<exists>j. fmlookup (jt_jurisdictions t) i = Some j \<and> j_parent_id j = Some p}"

definition tree_wf :: "JurisdictionTree \<Rightarrow> bool" where
  "tree_wf t \<longleftrightarrow>
     (\<forall>i j. fmlookup (jt_jurisdictions t) i = Some j \<longrightarrow> j_id j = i) \<and>
     (\<forall>path i. fmlookup (jt_path_index t) path = Some i \<longleftrightarrow>
        path = JurisdictionPath [i] \<and> hm_contains_key (jt_jurisdictions t) i)"

definition descendant_ids :: "JurisdictionTree \<Rightarrow> string \<Rightarrow> string set" where
  "descendant_ids t i = {k. (i, k) \<in> (below t)\<^sup>+}"

lemma build_path_fresh:
  "\<not> hm_contains_key (jt_jurisdictions t) (j_id j) \<Longrightarrow> build_path t j = Some (JurisdictionPath [j_id j])"
  by (simp add: build_path_def hm_contains_key_def build_path_loop.simps)

lemma add_jurisdiction_eq:
  "add_jurisdiction t j =
     Some (if hm_contains_key (jt_jurisdictions t) (j_id j) then (t, Err (InvalidInput ''Jurisdiction already exists''))
       else (t\<lparr>jt_path_index := fmupd (JurisdictionPath [j_id j]) (j_id j) (jt_path_index t),
               jt_jurisdictions := fmupd (j_id j) j (jt_jurisdictions t)\<rparr>, Ok ()))"
  by (simp add: add_jurisdiction_def build_path_fresh)

lemma tree_wf_new: "tree_wf JurisdictionTree_new"
  by (simp add: tree_wf_def JurisdictionTree_new_def)

lemma tree_wf_add: "tree_wf t \<Longrightarrow> add_jurisdiction t j = Some (t', r) \<Longrightarrow> tree_wf t'"
  by (auto simp: add_jurisdiction_eq tree_wf_def split: if_splits)

text \<open>Every path of the index has one component, so a longer path never finds anything.\<close>

lemma long_path_finds_nothing: "tree_wf t \<Longrightarrow> length (jp_components path) \<noteq> 1 \<Longrightarrow> get_by_path t path = None"
  by (auto simp: get_by_path_def tree_wf_def split: option.splits)

lemma finite_below: "finite (below t)"
proof (rule finite_subset)
  let ?f = "\<lambda>i. (the (j_parent_id (the (fmlookup (jt_jurisdictions t) i))), i)"
  show "below t \<subseteq> ?f ` fset (fmdom (jt_jurisdictions t))" by (force simp: below_def intro: fmdomI)
qed simp

lemma finite_descendant_ids: "finite (descendant_ids t i)"
proof (rule finite_subset)
  show "descendant_ids t i \<subseteq> Range (below t)" by (auto simp: descendant_ids_def elim: tranclE)
qed (simp add: finite_below finite_Range)

text \<open>A child has one parent, so the descendants of different children are different.\<close>

lemma below_parent_unique: "(a, i) \<in> below t \<Longrightarrow> (b, i) \<in> below t \<Longrightarrow> a = b"
  by (auto simp: below_def)

lemma below_comparable:
  assumes "(a, k) \<in> (below t)\<^sup>*" and "(b, k) \<in> (below t)\<^sup>*"
  shows "(a, b) \<in> (below t)\<^sup>* \<or> (b, a) \<in> (below t)\<^sup>*"
  using assms
proof (induction arbitrary: b rule: rtrancl_induct)
  case (step y z)
  from step.prems show ?case
  proof (cases rule: rtranclE)
    case base
    with step.hyps show ?thesis by auto
  next
    case (step w)
    with step.hyps below_parent_unique have "w = y" by blast
    with step show ?thesis using \<open>\<And>b. (b, y) \<in> (below t)\<^sup>* \<Longrightarrow> _\<close> by blast
  qed
qed auto

lemma children_facts:
  assumes "walks iteration" and "tree_wf t"
  shows "set (map j_id (get_children iteration t p)) = {i. (p, i) \<in> below t}"
    and "distinct (map j_id (get_children iteration t p))"
    and "j \<in> set (get_children iteration t p) \<Longrightarrow> get_jurisdiction t (j_id j) = Some j"
proof -
  let ?m = "jt_jurisdictions t"
  have ids: "set (iteration ?m) = fset (fmdom ?m)" "distinct (iteration ?m)"
    using assms(1) by (auto simp: walks_def)
  have id: "j_id (the (fmlookup ?m i)) = i" "fmlookup ?m i = Some (the (fmlookup ?m i))" if "i \<in> fset (fmdom ?m)" for i
    using that assms(2) by (auto simp: tree_wf_def fmlookup_dom_iff)
  then have "map j_id (all_jurisdictions iteration t) = iteration ?m"
    using ids(1) by (auto simp: all_jurisdictions_def intro: map_idI)
  with ids(2) show "distinct (map j_id (get_children iteration t p))"
    by (metis distinct_map_filter get_children_def)
  have "j \<in> set (get_children iteration t p) \<longleftrightarrow> fmlookup ?m (j_id j) = Some j \<and> j_parent_id j = Some p" for j
    using ids(1) id by (auto simp: get_children_def all_jurisdictions_def image_iff intro!: bexI [of _ "j_id j"] fmdomI)
  with assms(2) show "set (map j_id (get_children iteration t p)) = {i. (p, i) \<in> below t}"
    and "j \<in> set (get_children iteration t p) \<Longrightarrow> get_jurisdiction t (j_id j) = Some j"
    by (auto simp: below_def tree_wf_def get_jurisdiction_def image_iff)
qed

lemma siblings_disjoint:
  assumes "acyclic (below t)" and "(p, a) \<in> below t" and "(p, b) \<in> below t" and "a \<noteq> b"
  shows "insert a (descendant_ids t a) \<inter> insert b (descendant_ids t b) = {}"
proof -
  have no: "(x, y) \<notin> (below t)\<^sup>*" if x: "(p, x) \<in> below t" and y: "(p, y) \<in> below t" and "x \<noteq> y" for x y
  proof
    assume "(x, y) \<in> (below t)\<^sup>*"
    then obtain w where w: "(x, w) \<in> (below t)\<^sup>*" "(w, y) \<in> below t" using \<open>x \<noteq> y\<close> by (auto elim: rtranclE)
    then have "w = p" using y below_parent_unique by blast
    with w(1) x have "(p, p) \<in> (below t)\<^sup>+" by (meson rtrancl_into_trancl2)
    with assms(1) show False by (simp add: acyclic_def)
  qed
  have "k \<notin> insert b (descendant_ids t b)" if "k \<in> insert a (descendant_ids t a)" for k
  proof
    assume "k \<in> insert b (descendant_ids t b)"
    with that have "(a, k) \<in> (below t)\<^sup>*" "(b, k) \<in> (below t)\<^sup>*" by (auto simp: descendant_ids_def)
    then have "(a, b) \<in> (below t)\<^sup>* \<or> (b, a) \<in> (below t)\<^sup>*" by (rule below_comparable)
    with no assms(2-4) show False by metis
  qed
  then show ?thesis by blast
qed

text \<open>The descendants are the children with theirs, each once.\<close>

lemma mset_descendants:
  assumes "acyclic (below t)" and "distinct cs" and "set cs \<subseteq> {c. (p, c) \<in> below t}"
  shows "mset_set (\<Union>c \<in> set cs. insert c (descendant_ids t c)) = mset cs + (\<Sum>c \<leftarrow> cs. mset_set (descendant_ids t c))"
  using assms(2,3)
proof (induction cs)
  case (Cons c cs)
  have "insert c (descendant_ids t c) \<inter> (\<Union>c \<in> set cs. insert c (descendant_ids t c)) = {}"
    using Cons.prems siblings_disjoint [OF assms(1)] by fastforce
  moreover have "c \<notin> descendant_ids t c" using assms(1) by (simp add: descendant_ids_def acyclic_def)
  ultimately show ?case
    using Cons by (simp add: mset_set_Union finite_descendant_ids del: Un_insert_left)
qed simp

lemma descendants_children:
  assumes "walks iteration" and "tree_wf t" and "acyclic (below t)" and cs_def: "cs = map j_id (get_children iteration t p)"
  shows "mset_set (descendant_ids t p) = mset cs + (\<Sum>c \<leftarrow> cs. mset_set (descendant_ids t c))"
proof -
  have cs: "set cs = {c. (p, c) \<in> below t}" "distinct cs"
    unfolding cs_def using children_facts(1,2) [OF assms(1,2)] by blast+
  have "descendant_ids t p = (\<Union>c \<in> set cs. insert c (descendant_ids t c))"
    by (auto simp: descendant_ids_def cs(1) elim: converse_tranclE intro: trancl_into_trancl2)
  with mset_descendants [OF assms(3) cs(2), of p] cs(1) show ?thesis by simp
qed

lemma size_weights: "(\<Sum>c \<leftarrow> cs. Suc (size (M c))) = size (mset cs + (\<Sum>c \<leftarrow> cs. M c))"
  by (induction cs) simp_all

lemma descendants_loop_returns:
  assumes "walks iteration" and "tree_wf t" and "acyclic (below t)"
  shows "\<exists>ds. descendants_loop iteration t queue acc = Some (acc @ ds) \<and>
    mset (map j_id ds) = (\<Sum>i \<leftarrow> queue. mset_set (descendant_ids t i)) \<and>
    (\<forall>j \<in> set ds. get_jurisdiction t (j_id j) = Some j)"
proof (induction "\<Sum>i \<leftarrow> queue. Suc (size (mset_set (descendant_ids t i)))" arbitrary: queue acc rule: less_induct)
  case less
  show ?case
  proof (cases queue rule: rev_cases)
    case Nil
    then show ?thesis by (simp add: descendants_loop.simps)
  next
    case (snoc q p)
    let ?js = "get_children iteration t p"
    let ?q = "q @ map j_id ?js"
    note split = descendants_children [OF assms refl, of p]
    have "(\<Sum>i \<leftarrow> map j_id ?js. Suc (size (mset_set (descendant_ids t i)))) = size (mset_set (descendant_ids t p))"
      unfolding split by (rule size_weights)
    then have "(\<Sum>i \<leftarrow> ?q. Suc (size (mset_set (descendant_ids t i)))) < (\<Sum>i \<leftarrow> queue. Suc (size (mset_set (descendant_ids t i))))"
      by (simp add: snoc)
    then obtain ds where ds: "descendants_loop iteration t ?q (acc @ ?js) = Some ((acc @ ?js) @ ds)"
        "mset (map j_id ds) = (\<Sum>i \<leftarrow> ?q. mset_set (descendant_ids t i))"
        "\<forall>j \<in> set ds. get_jurisdiction t (j_id j) = Some j"
      using less by blast
    have "descendants_loop iteration t queue acc = Some (acc @ ?js @ ds)"
      by (subst descendants_loop.simps) (simp add: snoc ds(1))
    moreover have "mset (map j_id (?js @ ds)) = (\<Sum>i \<leftarrow> queue. mset_set (descendant_ids t i))"
      using ds(2) split by (simp add: snoc ac_simps)
    moreover have "\<forall>j \<in> set (?js @ ds). get_jurisdiction t (j_id j) = Some j"
      using ds(3) children_facts(3) [OF assms(1,2)] by auto
    ultimately show ?thesis by blast
  qed
qed

text \<open>Along a cycle of parents the search does not return.\<close>

lemma descendants_loop_cycle:
  assumes "walks iteration" and "tree_wf t" and "descendants_loop iteration t queue acc = Some ds"
  shows "\<forall>i \<in> set queue. (i, i) \<notin> (below t)\<^sup>+"
proof -
  let ?P = "\<lambda>iter t' queue acc ds. iter = iteration \<longrightarrow> t' = t \<longrightarrow> (\<forall>i \<in> set queue. (i, i) \<notin> (below t)\<^sup>+)"
  have "?P iteration t queue acc ds"
  proof (rule descendants_loop.raw_induct [where P = ?P, OF _ assms(3)])
    fix f iter t' q a r
    assume IH: "\<And>iter t' q a r. f iter t' q a = Some r \<Longrightarrow> iter = iteration \<longrightarrow> t' = t \<longrightarrow> (\<forall>i \<in> set q. (i, i) \<notin> (below t)\<^sup>+)"
      and eq: "(if q = [] then Some a else let children = get_children iter t' (last q)
            in f iter t' (butlast q @ map j_id children) (a @ children)) = Some r"
    show "iter = iteration \<longrightarrow> t' = t \<longrightarrow> (\<forall>i \<in> set q. (i, i) \<notin> (below t)\<^sup>+)"
    proof (cases q rule: rev_cases)
      case (snoc q' p)
      show ?thesis
      proof (intro impI)
        assume "iter = iteration" "t' = t"
        with IH eq snoc have no: "\<forall>i \<in> set (q' @ map j_id (get_children iteration t p)). (i, i) \<notin> (below t)\<^sup>+"
          by (simp add: Let_def)
        have "(p, p) \<notin> (below t)\<^sup>+"
        proof
          assume "(p, p) \<in> (below t)\<^sup>+"
          then obtain c where c: "(p, c) \<in> below t" "(c, p) \<in> (below t)\<^sup>*" by (meson tranclD)
          then have "(c, c) \<in> (below t)\<^sup>+" by (meson rtrancl_into_trancl1)
          moreover have "c \<in> set (map j_id (get_children iteration t p))"
            using c(1) children_facts(1) [OF assms(1,2)] by auto
          ultimately show False using no by auto
        qed
        with no snoc show "\<forall>i \<in> set q. (i, i) \<notin> (below t)\<^sup>+" by auto
      qed
    qed simp
  qed
  then show ?thesis by simp
qed

lemma cycle_runs_for_ever:
  "walks iteration \<Longrightarrow> tree_wf t \<Longrightarrow> (i, i) \<in> (below t)\<^sup>+ \<Longrightarrow> get_all_descendants iteration t i = None"
  using descendants_loop_cycle [of iteration t "[i]" "[]"]
  by (cases "descendants_loop iteration t [i] []") (auto simp: get_all_descendants_def)

section \<open>Trees built top down\<close>

definition add_all :: "Jurisdiction list \<Rightarrow> JurisdictionTree \<Rightarrow> JurisdictionTree" where
  "add_all js t = fold (\<lambda>j t. fst (the (add_jurisdiction t j))) js t"

lemma tree_wf_add_all: "tree_wf t \<Longrightarrow> tree_wf (add_all js t)"
  unfolding add_all_def
proof (induction js arbitrary: t)
  case (Cons j js)
  obtain t' r where "add_jurisdiction t j = Some (t', r)" by (simp add: add_jurisdiction_eq prod_eq_iff)
  with Cons.IH [OF tree_wf_add [OF Cons.prems this]] show ?case by simp
qed simp

text \<open>Every jurisdiction is added after its parent, if it has one, and under a new identifier.\<close>

fun top_down :: "string set \<Rightarrow> Jurisdiction list \<Rightarrow> bool" where
  "top_down known [] \<longleftrightarrow> True"
| "top_down known (j # js) \<longleftrightarrow>
     j_id j \<notin> known \<and> (case j_parent_id j of None \<Rightarrow> True | Some p \<Rightarrow> p \<in> known) \<and> top_down (insert (j_id j) known) js"

lemma top_down_acyclic:
  assumes "top_down (fset (fmdom (jt_jurisdictions t))) js" and "acyclic (below t)" and "Domain (below t) \<subseteq> fset (fmdom (jt_jurisdictions t))"
  shows "acyclic (below (add_all js t))"
  using assms
proof (induction js arbitrary: t)
  case (Cons j js)
  let ?t = "fst (the (add_jurisdiction t j))"
  have new: "\<not> hm_contains_key (jt_jurisdictions t) (j_id j)" using Cons.prems(1) by (simp add: hm_contains_key_dom)
  then have m: "jt_jurisdictions ?t = fmupd (j_id j) j (jt_jurisdictions t)" by (simp add: add_jurisdiction_eq)
  have out: "j_id j \<notin> Domain (below t)" "j_id j \<notin> Range (below t)"
    using Cons.prems(1,3) by (auto simp: below_def fmdomI)
  have below: "below ?t = below t \<union> (case j_parent_id j of None \<Rightarrow> {} | Some p \<Rightarrow> {(p, j_id j)})"
    using new by (auto simp: below_def m hm_contains_key_def split: option.splits if_splits)
  have "acyclic (below ?t)"
  proof (cases "j_parent_id j")
    case (Some p)
    have "p \<noteq> j_id j" using Some Cons.prems(1) by auto
    moreover have "(j_id j, p) \<notin> (below t)\<^sup>*" using out(1) \<open>p \<noteq> j_id j\<close> by (metis Domain.DomainI converse_rtranclE)
    ultimately show ?thesis using below Some Cons.prems(2) by (simp add: acyclic_insert)
  qed (use below Cons.prems(2) in simp)
  moreover have "Domain (below ?t) \<subseteq> fset (fmdom (jt_jurisdictions ?t))"
    using Cons.prems(1,3) by (auto simp: below m split: option.splits)
  moreover have "top_down (fset (fmdom (jt_jurisdictions ?t))) js" using Cons.prems(1) by (simp add: m)
  ultimately show ?case using Cons.IH by (simp add: add_all_def)
qed (simp add: add_all_def)

section \<open>Properties\<close>

text \<open>
  C24: The search for descendants ends and is exact. In a tree whose jurisdictions were added after
  their parents, \<open>get_all_descendants\<close> returns, and what it returns are exactly the jurisdictions
  of the tree below the given one, each once, in whatever order the hash map is walked;
  \<open>get_all_locations\<close> returns the locations of the jurisdiction and of all of these.
\<close>

theorem descendants_exact:
  assumes "walks iteration" and "top_down {} js" and "t = add_all js JurisdictionTree_new"
  shows "\<exists>ds. get_all_descendants iteration t i = Some ds \<and> distinct (map j_id ds) \<and>
    (\<forall>j. j \<in> set ds \<longleftrightarrow> get_jurisdiction t (j_id j) = Some j \<and> (i, j_id j) \<in> (below t)\<^sup>+) \<and>
    get_all_locations iteration t i =
      Some ((case get_jurisdiction t i of None \<Rightarrow> [] | Some j \<Rightarrow> j_voting_locations j) @ concat (map j_voting_locations ds))"
proof -
  have empty: "jt_jurisdictions JurisdictionTree_new = fmempty" "below JurisdictionTree_new = {}"
    by (auto simp: JurisdictionTree_new_def below_def)
  have wf: "tree_wf t" unfolding assms(3) by (intro tree_wf_add_all tree_wf_new)
  have "acyclic (below t)" unfolding assms(3) using assms(2) by (intro top_down_acyclic) (simp_all add: empty acyclic_def)
  then obtain ds where ds: "get_all_descendants iteration t i = Some ds" "mset (map j_id ds) = mset_set (descendant_ids t i)"
      "\<forall>j \<in> set ds. get_jurisdiction t (j_id j) = Some j"
    using descendants_loop_returns [OF assms(1) wf, of "[i]" "[]"] by (auto simp: get_all_descendants_def)
  have ids: "set (map j_id ds) = descendant_ids t i"
    using arg_cong [OF ds(2), of set_mset] finite_descendant_ids [of t i] by simp
  have "distinct (map j_id ds)"
    unfolding distinct_count_atmost_1 using ds(2) finite_descendant_ids [of t i] ids by (simp add: count_mset_set')
  moreover have "j \<in> set ds \<longleftrightarrow> get_jurisdiction t (j_id j) = Some j \<and> (i, j_id j) \<in> (below t)\<^sup>+" for j
  proof
    assume "j \<in> set ds"
    then have "j_id j \<in> descendant_ids t i" using ids by auto
    with \<open>j \<in> set ds\<close> ds(3) show "get_jurisdiction t (j_id j) = Some j \<and> (i, j_id j) \<in> (below t)\<^sup>+"
      by (simp add: descendant_ids_def)
  next
    assume j: "get_jurisdiction t (j_id j) = Some j \<and> (i, j_id j) \<in> (below t)\<^sup>+"
    then have "j_id j \<in> set (map j_id ds)" unfolding ids by (simp add: descendant_ids_def)
    then obtain j' where "j' \<in> set ds" "j_id j' = j_id j" by auto
    with j ds(3) show "j \<in> set ds" by force
  qed
  ultimately show ?thesis using ds(1) by (simp add: get_all_locations_def)
qed

definition sample_walk :: "(string, Jurisdiction) hashmap \<Rightarrow> string list" where
  "sample_walk m = sorted_list_of_set (fset (fmdom m))"

definition sample_jurisdictions :: "Jurisdiction list" where
  "sample_jurisdictions =
     [Jurisdiction_new ''US'' ''United States'' Federal, with_parent (Jurisdiction_new ''CA'' ''California'' State) ''US'',
      with_parent (Jurisdiction_new ''CA-LA'' ''Los Angeles'' County) ''CA'']"

theorem descendants_exact_witness:
  "\<exists>ds. get_all_descendants sample_walk (add_all sample_jurisdictions JurisdictionTree_new) ''US'' = Some ds \<and>
     with_parent (Jurisdiction_new ''CA-LA'' ''Los Angeles'' County) ''CA'' \<in> set ds"
proof -
  let ?t = "add_all sample_jurisdictions JurisdictionTree_new"
  let ?la = "with_parent (Jurisdiction_new ''CA-LA'' ''Los Angeles'' County) ''CA''"
  have walk: "walks sample_walk" by (simp add: walks_def sample_walk_def)
  have "top_down {} sample_jurisdictions"
    by (simp add: sample_jurisdictions_def Jurisdiction_new_def with_parent_def)
  from descendants_exact [OF walk this refl, of "''US''"] obtain ds where
    ds: "get_all_descendants sample_walk ?t ''US'' = Some ds"
      "\<And>j. j \<in> set ds \<longleftrightarrow> get_jurisdiction ?t (j_id j) = Some j \<and> (''US'', j_id j) \<in> (below ?t)\<^sup>+"
    by blast
  have "(''US'', ''CA'') \<in> below ?t" "(''CA'', ''CA-LA'') \<in> below ?t" "get_jurisdiction ?t ''CA-LA'' = Some ?la"
    by (simp_all add: below_def get_jurisdiction_def add_all_def sample_jurisdictions_def add_jurisdiction_eq
        JurisdictionTree_new_def Jurisdiction_new_def with_parent_def hm_contains_key_def)
  then have "?la \<in> set ds"
    unfolding ds(2) by (auto simp: with_parent_def Jurisdiction_new_def intro: trancl_into_trancl)
  with ds(1) show ?thesis by blast
qed

end
