(* ===== verification/Storage_Manager.thy ===== *)
theory Storage_Manager
  imports State_Store Blockchain_Store Cache Snapshot Jurisdiction_Tree
begin

text \<open>
  \<open>storage/src/lib.rs\<close>: the storage manager, which owns the two stores, the cache, the snapshots and
  the tree of jurisdictions. Opening a database at a path is the argument \<open>open_db\<close>, as the backends
  are third-party libraries.
\<close>

section \<open>Data\<close>

datatype SyncMode = Immediate | Normal | Off

record StorageConfig =
  sgc_data_dir :: string
  sgc_blockchain_path :: string
  sgc_state_path :: string
  sgc_block_cache_capacity :: nat
  sgc_tx_cache_capacity :: nat
  sgc_state_cache_capacity :: nat
  sgc_enable_compression :: bool
  sgc_enable_pruning :: bool
  sgc_pruning_retention_days :: u64
  sgc_max_db_size :: "nat option"
  sgc_sync_mode :: SyncMode

record ('d, 'b, 'h, 't, 's) StorageManager =
  sgm_config :: StorageConfig
  sgm_blockchain_store :: "'d BlockchainStore"
  sgm_state_store :: "'d StateStore"
  sgm_cache :: "('b, 'h, 't, 's) Cache"
  sgm_snapshot_manager :: SnapshotManager
  sgm_jurisdiction_tree :: JurisdictionTree

record AggregatedResults =
  agr_jurisdiction :: JurisdictionPath
  agr_election_id :: ElectionId
  agr_total_votes :: u64
  agr_timestamp :: Timestamp

record JurisdictionValidation =
  jv_jurisdiction :: JurisdictionPath
  jv_elections_count :: nat
  jv_validated_elections :: nat
  jv_total_votes :: u64
  jv_validation_timestamp :: Timestamp

record StorageStats =
  sgs_blockchain_size :: u64
  sgs_state_size :: u64
  sgs_cache_stats :: CacheStats
  sgs_total_blocks :: u64
  sgs_total_transactions :: u64
  sgs_total_elections :: u64
  sgs_total_voters :: u64

record PruneStats =
  prs_pruned_blocks :: u64
  prs_pruned_transactions :: u64
  prs_pruned_state :: u64
  prs_bytes_freed :: u64

definition StorageConfig_default :: StorageConfig where
  "StorageConfig_default =
     \<lparr>sgc_data_dir = ''./data'', sgc_blockchain_path = ''./data/blockchain'', sgc_state_path = ''./data/state'',
      sgc_block_cache_capacity = 1000, sgc_tx_cache_capacity = 5000, sgc_state_cache_capacity = 2000,
      sgc_enable_compression = True, sgc_enable_pruning = False, sgc_pruning_retention_days = 365,
      sgc_max_db_size = None, sgc_sync_mode = Normal\<rparr>"

section \<open>Operations\<close>

definition StorageManager_new ::
  "'z block_store_externals_scheme \<Rightarrow> 'y storage_externals_scheme \<Rightarrow> 'd Database \<Rightarrow> ('b, 'h, 't, 's) cache_lrus \<Rightarrow>
   (string \<Rightarrow> 'd outcome) \<Rightarrow> Timestamp \<Rightarrow> StorageConfig \<Rightarrow> ('d, 'b, 'h, 't, 's) StorageManager outcome" where
  "StorageManager_new B E D L open_db now config =
     rbind (open_db (sgc_blockchain_path config)) (\<lambda>blockchain_db.
     rbind (open_db (sgc_state_path config)) (\<lambda>state_db.
     rbind (BlockchainStore_new B D now blockchain_db) (\<lambda>blockchain_store.
     (let (state_store, r) = StateStore_new E D state_db in
     rbind r (\<lambda>_.
     rbind (Cache_new L (sgc_block_cache_capacity config) (sgc_tx_cache_capacity config) (sgc_state_cache_capacity config)) (\<lambda>cache.
     rbind (SnapshotManager_new (sgc_data_dir config @ ''/snapshots'')) (\<lambda>snapshot_manager.
       Ok \<lparr>sgm_config = config, sgm_blockchain_store = blockchain_store, sgm_state_store = state_store, sgm_cache = cache,
           sgm_snapshot_manager = snapshot_manager, sgm_jurisdiction_tree = JurisdictionTree_new\<rparr>)))))))"

definition on_state ::
  "('d StateStore \<Rightarrow> 'd StateStore \<times> 'a outcome) \<Rightarrow> ('d, 'b, 'h, 't, 's) StorageManager \<Rightarrow>
   ('d, 'b, 'h, 't, 's) StorageManager \<times> 'a outcome" where
  "on_state f m = (let (s, r) = f (sgm_state_store m) in (m\<lparr>sgm_state_store := s\<rparr>, r))"

definition on_blockchain ::
  "('d BlockchainStore \<Rightarrow> 'd BlockchainStore \<times> 'a outcome) \<Rightarrow> ('d, 'b, 'h, 't, 's) StorageManager \<Rightarrow>
   ('d, 'b, 'h, 't, 's) StorageManager \<times> 'a outcome" where
  "on_blockchain f m = (let (s, r) = f (sgm_blockchain_store m) in (m\<lparr>sgm_blockchain_store := s\<rparr>, r))"

definition query_elections_by_jurisdiction ::
  "'y storage_externals_scheme \<Rightarrow> 'd Database \<Rightarrow> ('d, 'b, 'h, 't, 's) StorageManager \<Rightarrow> string \<Rightarrow>
   ('d, 'b, 'h, 't, 's) StorageManager \<times> ElectionId list outcome" where
  "query_elections_by_jurisdiction E D m jurisdiction_path =
     and_then (m, path_parse jurisdiction_path) (\<lambda>m path.
     and_then (on_state (get_all_elections E D) m) (\<lambda>m elections. (m, Ok (map es_id elections))))"

definition aggregate_results ::
  "'y storage_externals_scheme \<Rightarrow> 'd Database \<Rightarrow> Timestamp \<Rightarrow> ('d, 'b, 'h, 't, 's) StorageManager \<Rightarrow> string \<Rightarrow> ElectionId \<Rightarrow>
   ('d, 'b, 'h, 't, 's) StorageManager \<times> AggregatedResults outcome" where
  "aggregate_results E D now m jurisdiction_path election_id =
     and_then (m, path_parse jurisdiction_path) (\<lambda>m path.
     and_then (on_state (\<lambda>s. get_election E D s election_id) m) (\<lambda>m election.
       (m, Ok \<lparr>agr_jurisdiction = path, agr_election_id = election_id,
               agr_total_votes = (case election of None \<Rightarrow> 0 | Some e \<Rightarrow> es_total_votes e), agr_timestamp = now\<rparr>)))"

fun validate_elections ::
  "'y storage_externals_scheme \<Rightarrow> 'd Database \<Rightarrow> ElectionId list \<Rightarrow> u64 \<times> nat \<Rightarrow> ('d, 'b, 'h, 't, 's) StorageManager \<Rightarrow>
   ('d, 'b, 'h, 't, 's) StorageManager \<times> (u64 \<times> nat) outcome" where
  "validate_elections E D [] acc m = (m, Ok acc)"
| "validate_elections E D (i # is) acc m =
     and_then (on_state (\<lambda>s. get_election E D s i) m) (\<lambda>m found.
       validate_elections E D is
         (case found of None \<Rightarrow> acc | Some e \<Rightarrow> (fst acc + es_total_votes e, snd acc + 1)) m)"

definition validate_jurisdiction ::
  "'y storage_externals_scheme \<Rightarrow> 'd Database \<Rightarrow> Timestamp \<Rightarrow> ('d, 'b, 'h, 't, 's) StorageManager \<Rightarrow> string \<Rightarrow>
   ('d, 'b, 'h, 't, 's) StorageManager \<times> JurisdictionValidation outcome" where
  "validate_jurisdiction E D now m jurisdiction_path =
     and_then (m, path_parse jurisdiction_path) (\<lambda>m path.
     and_then (query_elections_by_jurisdiction E D m jurisdiction_path) (\<lambda>m elections.
     and_then (validate_elections E D elections (0, 0) m) (\<lambda>m (total_votes, validated_elections).
       (m, Ok \<lparr>jv_jurisdiction = path, jv_elections_count = length elections, jv_validated_elections = validated_elections,
               jv_total_votes = total_votes, jv_validation_timestamp = now\<rparr>))))"

definition manager_create_snapshot :: "('d, 'b, 'h, 't, 's) StorageManager \<Rightarrow> string \<Rightarrow> unit outcome" where
  "manager_create_snapshot m name = Err (NotImplemented ''Snapshots not yet implemented'')"

definition manager_restore_snapshot :: "('d, 'b, 'h, 't, 's) StorageManager \<Rightarrow> string \<Rightarrow> unit outcome" where
  "manager_restore_snapshot m snapshot_path = Err (NotImplemented ''Snapshots not yet implemented'')"

definition StorageManager_stats ::
  "'d Database \<Rightarrow> ('b, 'h, 't, 's) cache_lrus \<Rightarrow> ('d, 'b, 'h, 't, 's) StorageManager \<Rightarrow> StorageStats" where
  "StorageManager_stats D L m =
     \<lparr>sgs_blockchain_size = store_size D (sgm_blockchain_store m), sgs_state_size = 0,
      sgs_cache_stats = Cache_get_stats L (sgm_cache m), sgs_total_blocks = block_count (sgm_blockchain_store m),
      sgs_total_transactions = stored_transaction_count (sgm_blockchain_store m), sgs_total_elections = 0, sgs_total_voters = 0\<rparr>"

definition manager_compact :: "'d Database \<Rightarrow> ('d, 'b, 'h, 't, 's) StorageManager \<Rightarrow> unit outcome" where
  "manager_compact D m = rbind (store_compact D (sgm_blockchain_store m)) (\<lambda>_. Ok ())"

definition prune_cutoff :: "Timestamp \<Rightarrow> StorageConfig \<Rightarrow> Timestamp" where
  "prune_cutoff now config = now - sgc_pruning_retention_days config * 24 * 3600"

definition manager_prune ::
  "'z block_store_externals_scheme \<Rightarrow> 'd Database \<Rightarrow> Timestamp \<Rightarrow> ('d, 'b, 'h, 't, 's) StorageManager \<Rightarrow>
   ('d, 'b, 'h, 't, 's) StorageManager \<times> PruneStats outcome" where
  "manager_prune B D now m =
     (if \<not> sgc_enable_pruning (sgm_config m) then (m, Err (InvalidInput ''Pruning is not enabled''))
      else and_then (on_blockchain (\<lambda>s. prune_before B D s (prune_cutoff now (sgm_config m))) m) (\<lambda>m pruned_blocks.
        (m, Ok \<lparr>prs_pruned_blocks = of_nat pruned_blocks, prs_pruned_transactions = 0, prs_pruned_state = 0, prs_bytes_freed = 0\<rparr>)))"

definition manager_flush :: "'d Database \<Rightarrow> ('d, 'b, 'h, 't, 's) StorageManager \<Rightarrow> unit outcome" where
  "manager_flush D m = rbind (store_flush D (sgm_blockchain_store m)) (\<lambda>_. Ok ())"

definition manager_close :: "'d Database \<Rightarrow> ('d, 'b, 'h, 't, 's) StorageManager \<Rightarrow> unit outcome" where
  "manager_close D m = rbind (manager_flush D m) (\<lambda>_. Ok ())"

section \<open>Facts\<close>

lemma on_state_eq: "on_state f m = (t, r) \<longleftrightarrow> (\<exists>s. f (sgm_state_store m) = (s, r) \<and> t = m\<lparr>sgm_state_store := s\<rparr>)"
  by (auto simp: on_state_def split: prod.splits)

text \<open>The query by jurisdiction ignores the jurisdiction: every path that parses gives all elections.\<close>

lemma query_ignores_jurisdiction:
  assumes "path_parse p = Ok path" and "path_parse q = Ok path'"
  shows "query_elections_by_jurisdiction E D m p = query_elections_by_jurisdiction E D m q"
  using assms by (simp add: query_elections_by_jurisdiction_def)

text \<open>
  With a retention longer than the time since the epoch the cutoff wraps around to a time in the
  far future, and pruning removes every block but the genesis.
\<close>

lemma cutoff_wraps:
  assumes "unat (sgc_pruning_retention_days config) * 86400 < 2 ^ 64" and "unat now < unat (sgc_pruning_retention_days config) * 86400"
  shows "now < prune_cutoff now config"
proof -
  let ?d = "sgc_pruning_retention_days config"
  have "unat (?d * 86400) = unat ?d * 86400" using assms(1) by (simp add: unat_word_ariths)
  then have "now < ?d * 86400" using assms(2) by (simp add: word_less_nat_alt)
  then have "unat (now - ?d * 86400) = unat now + 2 ^ 64 - unat (?d * 86400)"
    by (simp add: unat_sub_if' word_less_nat_alt)
  moreover have "unat (?d * 86400) < 2 ^ 64" using unsigned_less [of "?d * 86400"] by simp
  ultimately have "now < now - ?d * 86400" by (simp add: word_less_nat_alt)
  then show ?thesis by (simp add: prune_cutoff_def mult.assoc)
qed

text \<open>A validation never validates more elections than it counts.\<close>

lemma validate_elections_count:
  assumes "validate_elections E D is acc m = (t, Ok (votes, n))"
  shows "n \<le> snd acc + length is"
  using assms
proof (induction "is" arbitrary: acc m)
  case (Cons i "is")
  from Cons.prems show ?case by (auto simp: outcome_simps dest!: Cons.IH split: option.splits)
qed simp

lemma pruning_needs_consent:
  "\<not> sgc_enable_pruning (sgm_config m) \<Longrightarrow> manager_prune B D now m = (m, Err (InvalidInput ''Pruning is not enabled''))"
  by (simp add: manager_prune_def)

end
