(* ===== verification/Gossip.thy ===== *)
theory Gossip
  imports Peer Float64
begin

text \<open>
  \<open>network/src/gossip.rs\<close>: which messages a node has seen, to which peers it forwards one, and the
  cleanup of old entries. The peers are shared objects: the targets of a message are positions in
  the list of peers, and a send changes the peer at its position. The shuffle of the \<open>rand\<close> package,
  the clock and the stamps of the messages are fields of \<open>GossipDraws\<close>. Each method is one step; the
  cleanup runs in a loop of its own, whose body is modelled.
\<close>

section \<open>Data\<close>

datatype GossipId = GossipId "32 bytes"

record BlockAnnouncement =
  ba_height :: u64
  ba_hash :: BlockHash
  ba_timestamp :: Timestamp
  ba_transaction_count :: u32

record TransactionAnnouncement =
  ta_tx_id :: TxId
  ta_timestamp :: Timestamp
  ta_size :: nat

datatype GossipMessage =
    GossipBlock Block
  | GossipTransaction Transaction
  | GossipBlockAnnouncement BlockAnnouncement
  | GossipTransactionAnnouncement TransactionAnnouncement

record GossipEntry =
  ge_id :: GossipId
  ge_first_seen :: Timestamp
  ge_propagated_to :: "PeerId fset"

record GossipProtocol =
  gp_fanout :: nat
  gp_seen_messages :: "(GossipId, GossipEntry) hashmap"
  gp_message_ttl :: u64
  gp_running :: bool

record GossipStats =
  gs_seen_messages :: nat
  gs_total_propagations :: nat
  gs_average_fanout :: f64

record gossip_codecs = network_codecs +
  block_announcement_codec :: "BlockAnnouncement codec"
  tx_announcement_codec :: "TransactionAnnouncement codec"

record GossipDraws =
  gd_now :: Timestamp
  gd_shuffle :: "nat list \<Rightarrow> nat list"
  gd_stamp :: "nat \<Rightarrow> stamp"
  gd_sent_at :: "nat \<Rightarrow> Timestamp"

text \<open>\<open>SliceRandom::shuffle\<close> permutes the slice.\<close>

definition shuffle_laws :: "GossipDraws \<Rightarrow> bool" where
  "shuffle_laws d \<longleftrightarrow> (\<forall>xs. mset (gd_shuffle d xs) = mset xs)"

section \<open>Entries\<close>

definition from_block_hash :: "BlockHash \<Rightarrow> GossipId" where
  "from_block_hash h = GossipId (block_hash_bytes h)"

definition from_tx_id :: "TxId \<Rightarrow> GossipId" where
  "from_tx_id i = GossipId (tx_id_bytes i)"

definition GossipEntry_new :: "Timestamp \<Rightarrow> GossipId \<Rightarrow> GossipEntry" where
  "GossipEntry_new now i = \<lparr>ge_id = i, ge_first_seen = now, ge_propagated_to = {||}\<rparr>"

definition entry_add_peer :: "PeerId \<Rightarrow> GossipEntry \<Rightarrow> GossipEntry" where
  "entry_add_peer p e = e\<lparr>ge_propagated_to := finsert p (ge_propagated_to e)\<rparr>"

definition has_peer :: "GossipEntry \<Rightarrow> PeerId \<Rightarrow> bool" where
  "has_peer e p \<longleftrightarrow> p |\<in>| ge_propagated_to e"

definition entry_is_stale :: "Timestamp \<Rightarrow> GossipEntry \<Rightarrow> u64 \<Rightarrow> bool" where
  "entry_is_stale now e ttl \<longleftrightarrow> ttl < saturating_sub now (ge_first_seen e)"

section \<open>The protocol\<close>

definition GossipProtocol_new :: "nat \<Rightarrow> GossipProtocol" where
  "GossipProtocol_new fanout =
     \<lparr>gp_fanout = fanout, gp_seen_messages = fmempty, gp_message_ttl = 300, gp_running = False\<rparr>"

definition with_ttl :: "u64 \<Rightarrow> GossipProtocol \<Rightarrow> GossipProtocol" where
  "with_ttl ttl g = g\<lparr>gp_message_ttl := ttl\<rparr>"

definition gossip_start :: "GossipProtocol \<Rightarrow> GossipProtocol \<times> unit outcome" where
  "gossip_start g =
     (if gp_running g then (g, Err (NetworkError ''Gossip already running'')) else (g\<lparr>gp_running := True\<rparr>, Ok ()))"

definition gossip_stop :: "GossipProtocol \<Rightarrow> GossipProtocol \<times> unit outcome" where
  "gossip_stop g = (g\<lparr>gp_running := False\<rparr>, Ok ())"

text \<open>The stale ids are collected, counted and removed.\<close>

definition stale_ids :: "Timestamp \<Rightarrow> GossipProtocol \<Rightarrow> GossipId fset" where
  "stale_ids now g = ffilter (\<lambda>i. case fmlookup (gp_seen_messages g) i of
     None \<Rightarrow> False | Some e \<Rightarrow> entry_is_stale now e (gp_message_ttl g)) (fmdom (gp_seen_messages g))"

definition cleanup_stale_entries :: "Timestamp \<Rightarrow> GossipProtocol \<Rightarrow> GossipProtocol \<times> nat outcome" where
  "cleanup_stale_entries now g =
     (g\<lparr>gp_seen_messages := fmdrop_fset (stale_ids now g) (gp_seen_messages g)\<rparr>, Ok (fcard (stale_ids now g)))"

fun get_message_id :: "GossipMessage \<Rightarrow> GossipId" where
  "get_message_id (GossipBlock block) = from_block_hash (Block_hash block)"
| "get_message_id (GossipTransaction tx) = from_tx_id (tx_id tx)"
| "get_message_id (GossipBlockAnnouncement ann) = from_block_hash (ba_hash ann)"
| "get_message_id (GossipTransactionAnnouncement ann) = from_tx_id (ta_tx_id ann)"

definition has_seen :: "GossipProtocol \<Rightarrow> GossipId \<Rightarrow> bool" where
  "has_seen g i = hm_contains_key (gp_seen_messages g) i"

text \<open>\<open>entry(id).or_insert_with(...)\<close>\<close>

definition mark_seen :: "Timestamp \<Rightarrow> GossipId \<Rightarrow> GossipProtocol \<Rightarrow> GossipProtocol" where
  "mark_seen now i g =
     (if hm_contains_key (gp_seen_messages g) i then g
      else g\<lparr>gp_seen_messages := fmupd i (GossipEntry_new now i) (gp_seen_messages g)\<rparr>)"

definition mark_propagated_to :: "GossipId \<Rightarrow> PeerId \<Rightarrow> GossipProtocol \<Rightarrow> GossipProtocol" where
  "mark_propagated_to i p g = g\<lparr>gp_seen_messages := hm_update i (entry_add_peer p) (gp_seen_messages g)\<rparr>"

definition select_gossip_targets :: "GossipDraws \<Rightarrow> GossipProtocol \<Rightarrow> Peer list \<Rightarrow> GossipId \<Rightarrow> nat list" where
  "select_gossip_targets d g peers i =
     (let candidates = filter (\<lambda>k. is_connected (peers ! k) \<and>
            \<not> (case fmlookup (gp_seen_messages g) i of None \<Rightarrow> False | Some e \<Rightarrow> has_peer e (peer_id (peers ! k))))
          [0..<length peers]
      in take (gp_fanout g) (gd_shuffle d candidates))"

fun encode_gossip_message :: "'z gossip_codecs_scheme \<Rightarrow> stamp \<Rightarrow> GossipMessage \<Rightarrow> Message outcome" where
  "encode_gossip_message N st (GossipBlock block) = message_new_block N st block"
| "encode_gossip_message N st (GossipTransaction tx) = message_new_transaction N st tx"
| "encode_gossip_message N st (GossipBlockAnnouncement ann) =
     rbind (serialize (block_announcement_codec N) ann) (\<lambda>payload. Ok (Message_new st NewBlock payload))"
| "encode_gossip_message N st (GossipTransactionAnnouncement ann) =
     rbind (serialize (tx_announcement_codec N) ann) (\<lambda>payload. Ok (Message_new st NewTransaction payload))"

definition send_to_peer ::
  "'z gossip_codecs_scheme \<Rightarrow> stamp \<Rightarrow> Timestamp \<Rightarrow> Peer \<Rightarrow> GossipMessage \<Rightarrow> Peer \<times> unit outcome" where
  "send_to_peer N st now peer message =
     (case encode_gossip_message N st message of
        Ok protocol_message \<Rightarrow> peer_send now protocol_message peer
      | Err e \<Rightarrow> (peer, Err e)
      | Panic m \<Rightarrow> (peer, Panic m))"

text \<open>The loop of \<open>gossip\<close> over the targets, with the count of the messages sent.\<close>

fun send_to_targets ::
  "'z gossip_codecs_scheme \<Rightarrow> GossipDraws \<Rightarrow> GossipMessage \<Rightarrow> nat list \<Rightarrow> GossipProtocol \<Rightarrow> Peer list \<Rightarrow> nat \<Rightarrow>
   GossipProtocol \<times> Peer list \<times> nat outcome" where
  "send_to_targets N d message [] g peers sent = (g, peers, Ok sent)"
| "send_to_targets N d message (k # ks) g peers sent =
     (case send_to_peer N (gd_stamp d k) (gd_sent_at d k) (peers ! k) message of
        (peer, Ok _) \<Rightarrow>
          send_to_targets N d message ks (mark_propagated_to (get_message_id message) (peer_id peer) g) (peers[k := peer]) (sent + 1)
      | (peer, Err e) \<Rightarrow> send_to_targets N d message ks g (peers[k := peer]) sent
      | (peer, Panic m) \<Rightarrow> (g, peers[k := peer], Panic m))"

definition gossip ::
  "'z gossip_codecs_scheme \<Rightarrow> GossipDraws \<Rightarrow> GossipMessage \<Rightarrow> GossipProtocol \<Rightarrow> Peer list \<Rightarrow>
   GossipProtocol \<times> Peer list \<times> nat outcome" where
  "gossip N d message g peers =
     (let i = get_message_id message in
      if has_seen g i then (g, peers, Ok 0)
      else let g = mark_seen (gd_now d) i g
           in send_to_targets N d message (select_gossip_targets d g peers i) g peers 0)"

definition handle_received_message ::
  "'z gossip_codecs_scheme \<Rightarrow> GossipDraws \<Rightarrow> GossipMessage \<Rightarrow> PeerId \<Rightarrow> GossipProtocol \<Rightarrow> Peer list \<Rightarrow>
   GossipProtocol \<times> Peer list \<times> unit outcome" where
  "handle_received_message N d message from_peer g peers =
     (let i = get_message_id message in
      if \<not> has_seen g i
      then case gossip N d message (mark_seen (gd_now d) i g) peers of
             (g, peers, Ok _) \<Rightarrow> (mark_propagated_to i from_peer g, peers, Ok ())
           | (g, peers, Err e) \<Rightarrow> (g, peers, Err e)
           | (g, peers, Panic m) \<Rightarrow> (g, peers, Panic m)
      else (mark_propagated_to i from_peer g, peers, Ok ()))"

definition gossip_get_stats :: "GossipProtocol \<Rightarrow> GossipStats" where
  "gossip_get_stats g =
     (let seen = gp_seen_messages g;
          total_propagations = sum_mset (image_mset (\<lambda>e. fcard (ge_propagated_to e)) (hm_values seen))
      in \<lparr>gs_seen_messages = hm_len seen, gs_total_propagations = total_propagations,
          gs_average_fanout = (if hm_len seen \<noteq> 0
             then f64_div (f64_of_nat total_propagations) (f64_of_nat (hm_len seen)) else Fin 0)\<rparr>)"

definition gossip_clear :: "GossipProtocol \<Rightarrow> GossipProtocol" where
  "gossip_clear g = g\<lparr>gp_seen_messages := fmempty\<rparr>"

section \<open>Facts\<close>

lemma has_seen_mark [simp]: "has_seen (mark_seen now i g) j \<longleftrightarrow> j = i \<or> has_seen g j"
  by (auto simp: has_seen_def mark_seen_def)

lemma has_seen_propagated [simp]: "has_seen (mark_propagated_to i p g) j \<longleftrightarrow> has_seen g j"
  by (auto simp: has_seen_def mark_propagated_to_def hm_contains_key_def hm_update_def split: option.splits)

text \<open>A message that has been seen is not sent again.\<close>

lemma gossip_seen: "has_seen g (get_message_id m) \<Longrightarrow> gossip N d m g peers = (g, peers, Ok 0)"
  by (simp add: gossip_def)

lemma gossip_marks: "has_seen (fst (gossip N d m g peers)) (get_message_id m)"
proof -
  have "has_seen g i \<Longrightarrow> has_seen (fst (send_to_targets N d m ks g peers n)) i" for ks g peers n i
    by (induction ks arbitrary: g peers n) (auto split: prod.splits result.splits)
  then show ?thesis by (simp add: gossip_def Let_def)
qed

text \<open>
  A received message is marked as seen before \<open>gossip\<close> is called, which then takes it for a message
  it has already sent: nothing is forwarded.
\<close>

lemma received_not_relayed:
  "fst (snd (handle_received_message N d m from g peers)) = peers \<and> snd (snd (handle_received_message N d m from g peers)) = Ok ()"
  by (auto simp: handle_received_message_def gossip_seen Let_def)

lemma cleanup_keeps:
  assumes "cleanup_stale_entries now g = (g', r)"
  shows "fmlookup (gp_seen_messages g') i = Some e \<longleftrightarrow>
      fmlookup (gp_seen_messages g) i = Some e \<and> \<not> entry_is_stale now e (gp_message_ttl g)"
    and "r = Ok (gs_seen_messages (gossip_get_stats g) - gs_seen_messages (gossip_get_stats g'))"
proof -
  let ?S = "stale_ids now g"
  have g': "gp_seen_messages g' = fmdrop_fset ?S (gp_seen_messages g)" and r: "r = Ok (fcard ?S)"
    using assms by (auto simp: cleanup_stale_entries_def)
  show "fmlookup (gp_seen_messages g') i = Some e \<longleftrightarrow>
      fmlookup (gp_seen_messages g) i = Some e \<and> \<not> entry_is_stale now e (gp_message_ttl g)"
    by (auto simp: g' stale_ids_def fmlookup_dom_iff)
  have "?S |\<subseteq>| fmdom (gp_seen_messages g)" by (auto simp: stale_ids_def)
  then have "fcard (fmdom (gp_seen_messages g) |-| ?S) = fcard (fmdom (gp_seen_messages g)) - fcard ?S"
      and "fcard ?S \<le> fcard (fmdom (gp_seen_messages g))"
    by (auto simp: fcard_funion_fsubset fcard_mono)
  then show "r = Ok (gs_seen_messages (gossip_get_stats g) - gs_seen_messages (gossip_get_stats g'))"
    by (simp add: r g' gossip_get_stats_def hm_len_def Let_def)
qed

text \<open>What the loop does to distinct targets when the message can be encoded.\<close>

lemma send_to_targets_effect:
  assumes "distinct ks" and "set ks \<subseteq> {..<length peers}"
    and "\<And>k. encode_gossip_message N (gd_stamp d k) m = Ok (msg k)"
    and "fmlookup (gp_seen_messages g) (get_message_id m) = Some e"
  shows "\<exists>g' peers'. send_to_targets N d m ks g peers n = (g', peers', Ok (n + length ks)) \<and> length peers' = length peers \<and>
    (\<forall>k < length peers. peers' ! k = (if k \<in> set ks then fst (peer_send (gd_sent_at d k) (msg k) (peers ! k)) else peers ! k)) \<and>
    fmlookup (gp_seen_messages g') (get_message_id m) =
      Some (e\<lparr>ge_propagated_to := ge_propagated_to e |\<union>| fset_of_list (map (\<lambda>k. peer_id (peers ! k)) ks)\<rparr>)"
  using assms(1,2,4)
proof (induction ks arbitrary: g peers n e)
  case (Cons k ks)
  let ?p = "fst (peer_send (gd_sent_at d k) (msg k) (peers ! k))"
  let ?g = "mark_propagated_to (get_message_id m) (peer_id (peers ! k)) g"
  let ?e = "entry_add_peer (peer_id (peers ! k)) e"
  have send: "send_to_peer N (gd_stamp d k) (gd_sent_at d k) (peers ! k) m = (?p, Ok ())"
    by (simp add: send_to_peer_def assms(3) prod_eq_iff)
  have entry: "fmlookup (gp_seen_messages ?g) (get_message_id m) = Some ?e"
    using Cons.prems(3) by (simp add: mark_propagated_to_def hm_update_def)
  have other: "map (\<lambda>j. peer_id (peers[k := ?p] ! j)) ks = map (\<lambda>j. peer_id (peers ! j)) ks"
    using Cons.prems(1) by (intro map_cong refl) (metis distinct.simps(2) nth_list_update_neq)
  obtain g' peers' where ind: "send_to_targets N d m ks ?g (peers[k := ?p]) (n + 1) = (g', peers', Ok (n + 1 + length ks))"
      "length peers' = length peers"
      "\<forall>j < length peers. peers' ! j =
         (if j \<in> set ks then fst (peer_send (gd_sent_at d j) (msg j) (peers[k := ?p] ! j)) else peers[k := ?p] ! j)"
      "fmlookup (gp_seen_messages g') (get_message_id m) =
         Some (?e\<lparr>ge_propagated_to := ge_propagated_to ?e |\<union>| fset_of_list (map (\<lambda>j. peer_id (peers ! j)) ks)\<rparr>)"
    using Cons.IH [of "peers[k := ?p]" ?g ?e "n + 1"] Cons.prems entry other by auto
  then show ?case
    using Cons.prems send by (auto simp: entry_add_peer_def nth_list_update)
qed auto

section \<open>Properties\<close>

text \<open>
  A new message goes to a few connected peers, once each. When a message that has not been seen
  can be encoded, \<open>gossip\<close> queues it once at every one of the selected peers and touches no other
  peer; the selected peers are different, connected, and as many as the fanout allows; their ids
  are recorded with the message; and a second call with the same message sends nothing and changes
  nothing.
\<close>

theorem gossip_fanout:
  assumes "shuffle_laws d" and "\<not> has_seen g (get_message_id m)"
    and "\<forall>k. encode_gossip_message N (gd_stamp d k) m = Ok (msg k)"
  shows "\<exists>g' peers' targets.
    gossip N d m g peers = (g', peers', Ok (card targets)) \<and>
    targets \<subseteq> {k. k < length peers \<and> is_connected (peers ! k)} \<and>
    card targets = min (gp_fanout g) (card {k. k < length peers \<and> is_connected (peers ! k)}) \<and>
    length peers' = length peers \<and>
    (\<forall>k < length peers. peers' ! k =
       (if k \<in> targets then fst (peer_send (gd_sent_at d k) (msg k) (peers ! k)) else peers ! k)) \<and>
    (\<exists>e. fmlookup (gp_seen_messages g') (get_message_id m) = Some e \<and>
       fset (ge_propagated_to e) = (\<lambda>k. peer_id (peers ! k)) ` targets) \<and>
    gossip N d' m g' peers' = (g', peers', Ok 0)"
proof -
  let ?i = "get_message_id m"
  let ?g = "mark_seen (gd_now d) ?i g"
  define cands where "cands = filter (\<lambda>k. is_connected (peers ! k)) [0..<length peers]"
  define ks where "ks = take (gp_fanout g) (gd_shuffle d cands)"
  have entry: "fmlookup (gp_seen_messages ?g) ?i = Some (GossipEntry_new (gd_now d) ?i)"
    using assms(2) by (simp add: mark_seen_def has_seen_def)
  have fan: "gp_fanout ?g = gp_fanout g" by (simp add: mark_seen_def)
  have sel: "select_gossip_targets d ?g peers ?i = ks"
    by (simp add: select_gossip_targets_def ks_def cands_def entry fan GossipEntry_new_def has_peer_def)
  have perm: "mset (gd_shuffle d cands) = mset cands" using assms(1) by (simp add: shuffle_laws_def)
  have cands: "distinct cands" "set cands = {k. k < length peers \<and> is_connected (peers ! k)}" by (auto simp: cands_def)
  have "distinct (gd_shuffle d cands)" "set (gd_shuffle d cands) = set cands" "length (gd_shuffle d cands) = length cands"
    using perm cands(1) mset_eq_imp_distinct_iff mset_eq_setD mset_eq_length by blast+
  then have ks: "distinct ks" "set ks \<subseteq> set cands" "length ks = min (gp_fanout g) (length cands)"
    by (auto simp: ks_def dest: in_set_takeD)
  have card: "card (set ks) = length ks" "length cands = card {k. k < length peers \<and> is_connected (peers ! k)}"
    using ks(1) cands distinct_card by fastforce+
  obtain g' peers' where run: "send_to_targets N d m ks ?g peers 0 = (g', peers', Ok (length ks))" "length peers' = length peers"
      "\<forall>k < length peers. peers' ! k =
         (if k \<in> set ks then fst (peer_send (gd_sent_at d k) (msg k) (peers ! k)) else peers ! k)"
      "fmlookup (gp_seen_messages g') ?i = Some (GossipEntry_new (gd_now d) ?i
         \<lparr>ge_propagated_to := fset_of_list (map (\<lambda>k. peer_id (peers ! k)) ks)\<rparr>)"
    using send_to_targets_effect [of ks peers N d m msg ?g "GossipEntry_new (gd_now d) ?i" 0] ks(1,2) cands(2) assms(3) entry
    by (auto simp: GossipEntry_new_def)
  have "gossip N d m g peers = (g', peers', Ok (card (set ks)))"
    using assms(2) run(1) sel card(1) by (simp add: gossip_def Let_def)
  moreover have "gossip N d' m g' peers' = (g', peers', Ok 0)"
    using run(4) by (intro gossip_seen) (simp add: has_seen_def hm_contains_key_def)
  ultimately show ?thesis
    using run ks cands(2) card by (intro exI [of _ g'] exI [of _ peers'] exI [of _ "set ks"]) (auto simp: fset_of_list.rep_eq)
qed

definition sample_codecs :: gossip_codecs where
  "sample_codecs = network_codecs.extend sample_network
     (gossip_codecs.fields (\<lambda>x. Ok [12], \<lambda>bs. Err ''unknown'') (\<lambda>x. Ok [13], \<lambda>bs. Err ''unknown''))"

definition sample_gossip_draws :: GossipDraws where
  "sample_gossip_draws = \<lparr>gd_now = 50, gd_shuffle = rev, gd_stamp = (\<lambda>k. (60, of_nat k)), gd_sent_at = (\<lambda>k. 61)\<rparr>"

definition sample_announcement :: GossipMessage where
  "sample_announcement = GossipTransactionAnnouncement \<lparr>ta_tx_id = TxId (bytes_fill 3), ta_timestamp = 40, ta_size = 100\<rparr>"

theorem gossip_fanout_witness:
  "\<exists>g' peers' (targets :: nat set).
     gossip sample_codecs sample_gossip_draws sample_announcement (GossipProtocol_new 1) [sample_peer 1, sample_peer 2] =
       (g', peers', Ok (card targets)) \<and> card targets = 1"
proof -
  let ?peers = "[sample_peer 1, sample_peer 2]"
  have both: "{k. k < length ?peers \<and> is_connected (?peers ! k)} = {0, 1}"
    by (auto simp: less_Suc_eq sample_peer_def mark_connected_def is_connected_def)
  have shuffle: "shuffle_laws sample_gossip_draws" by (simp add: shuffle_laws_def sample_gossip_draws_def)
  have unseen: "\<not> has_seen (GossipProtocol_new 1) (get_message_id sample_announcement)"
    by (simp add: has_seen_def GossipProtocol_new_def)
  have enc: "\<forall>k. encode_gossip_message sample_codecs (gd_stamp sample_gossip_draws k) sample_announcement =
      Ok (Message_new (60, of_nat k) NewTransaction [13])"
    by (simp add: sample_announcement_def sample_codecs_def sample_gossip_draws_def serialize_def gossip_codecs.defs network_codecs.defs)
  obtain g' peers' and targets :: "nat set" where run:
      "gossip sample_codecs sample_gossip_draws sample_announcement (GossipProtocol_new 1) ?peers = (g', peers', Ok (card targets))"
      "card targets = min (gp_fanout (GossipProtocol_new 1)) (card {k. k < length ?peers \<and> is_connected (?peers ! k)})"
    using gossip_fanout [OF shuffle unseen enc, of ?peers sample_gossip_draws]
    by blast
  have "card targets = 1" using run(2) unfolding both by (simp add: GossipProtocol_new_def)
  with run(1) show ?thesis by blast
qed

end
