(* ===== verification/Sync.thy ===== *)
theory Sync
  imports Peer Float64
begin

text \<open>
  \<open>network/src/sync.rs\<close>: requesting ranges of blocks in batches, collecting the responses and the
  status. The loop of \<open>request_blocks\<close> need not end, so it is a partial function and not returning
  is the value \<open>None\<close>. Which connected peer a request goes to, the stamps of the messages and the
  clock are fields of \<open>SyncDraws\<close>, by the height at which the batch starts. \<open>usize\<close> has 64 bits.
\<close>

section \<open>Data\<close>

datatype SyncState = Idle | Syncing | Catching | Synced | Failed

record SyncStatus =
  sst_state :: SyncState
  sst_current_height :: BlockHeight
  sst_target_height :: BlockHeight
  sst_start_height :: BlockHeight
  sst_synced_blocks :: u64
  sst_pending_requests :: nat
  sst_active_peers :: nat
  sst_sync_speed :: f64
  sst_started_at :: "Timestamp option"
  sst_estimated_completion :: "Timestamp option"

record SyncRequest =
  srq_request_id :: u64
  srq_peer_id :: PeerId
  srq_start_height :: BlockHeight
  srq_end_height :: BlockHeight
  srq_requested_at :: Timestamp
  srq_timeout :: u64

record BlockSync =
  bsy_batch_size :: u64
  bsy_state :: SyncState
  bsy_current_height :: BlockHeight
  bsy_target_height :: BlockHeight
  bsy_start_height :: BlockHeight
  bsy_pending_requests :: "(u64, SyncRequest) hashmap"
  bsy_received_blocks :: "Block list"
  bsy_next_request_id :: u64
  bsy_request_timeout :: u64
  bsy_running :: bool
  bsy_sync_start_time :: "Timestamp option"
  bsy_synced_blocks :: u64

record SyncDraws =
  sd_now :: Timestamp
  sd_choose :: "BlockHeight \<Rightarrow> nat \<Rightarrow> nat"
  sd_stamp :: "BlockHeight \<Rightarrow> stamp"
  sd_sent_at :: "BlockHeight \<Rightarrow> Timestamp"
  sd_requested_at :: "BlockHeight \<Rightarrow> Timestamp"

text \<open>\<open>SliceRandom::choose\<close> picks an element of the slice.\<close>

definition choose_laws :: "SyncDraws \<Rightarrow> bool" where
  "choose_laws d \<longleftrightarrow> (\<forall>h n. 0 < n \<longrightarrow> sd_choose d h n < n)"

section \<open>Status\<close>

definition progress_percent :: "SyncStatus \<Rightarrow> f64" where
  "progress_percent s =
     (if sst_target_height s \<le> sst_start_height s then Fin 100
      else let total_blocks = sst_target_height s - sst_start_height s;
               done_blocks = saturating_sub (sst_current_height s) (sst_start_height s)
           in f64_mul (f64_div (f64_of_nat (unat done_blocks)) (f64_of_nat (unat total_blocks))) (Fin 100))"

definition remaining_blocks :: "SyncStatus \<Rightarrow> u64" where
  "remaining_blocks s = saturating_sub (sst_target_height s) (sst_current_height s)"

definition status_is_syncing :: "SyncStatus \<Rightarrow> bool" where
  "status_is_syncing s \<longleftrightarrow> sst_state s = Syncing \<or> sst_state s = Catching"

definition SyncRequest_new ::
  "Timestamp \<Rightarrow> u64 \<Rightarrow> PeerId \<Rightarrow> BlockHeight \<Rightarrow> BlockHeight \<Rightarrow> u64 \<Rightarrow> SyncRequest" where
  "SyncRequest_new now request_id peer start_height end_height timeout =
     \<lparr>srq_request_id = request_id, srq_peer_id = peer, srq_start_height = start_height, srq_end_height = end_height,
      srq_requested_at = now, srq_timeout = timeout\<rparr>"

definition is_timed_out :: "Timestamp \<Rightarrow> SyncRequest \<Rightarrow> bool" where
  "is_timed_out now r \<longleftrightarrow> srq_timeout r < saturating_sub now (srq_requested_at r)"

section \<open>The state machine\<close>

definition BlockSync_new :: "u64 \<Rightarrow> BlockSync" where
  "BlockSync_new batch_size =
     \<lparr>bsy_batch_size = batch_size, bsy_state = Idle, bsy_current_height = 0, bsy_target_height = 0, bsy_start_height = 0,
      bsy_pending_requests = fmempty, bsy_received_blocks = [], bsy_next_request_id = 0, bsy_request_timeout = 30,
      bsy_running = False, bsy_sync_start_time = None, bsy_synced_blocks = 0\<rparr>"

definition with_timeout :: "u64 \<Rightarrow> BlockSync \<Rightarrow> BlockSync" where
  "with_timeout timeout s = s\<lparr>bsy_request_timeout := timeout\<rparr>"

definition sync_start :: "BlockSync \<Rightarrow> BlockSync \<times> unit outcome" where
  "sync_start s =
     (if bsy_running s then (s, Err (NetworkError ''Sync already running'')) else (s\<lparr>bsy_running := True\<rparr>, Ok ()))"

definition sync_stop :: "BlockSync \<Rightarrow> BlockSync \<times> unit outcome" where
  "sync_stop s = (s\<lparr>bsy_running := False\<rparr>, Ok ())"

definition complete_sync :: "BlockSync \<Rightarrow> BlockSync \<times> unit outcome" where
  "complete_sync s = (s\<lparr>bsy_state := Synced\<rparr>, Ok ())"

definition process_syncing :: "BlockSync \<Rightarrow> BlockSync \<times> unit outcome" where
  "process_syncing s = (if bsy_target_height s \<le> bsy_current_height s then complete_sync s else (s, Ok ()))"

definition process_catching :: "BlockSync \<Rightarrow> BlockSync \<times> unit outcome" where
  "process_catching s = (s, Ok ())"

definition process_sync :: "BlockSync \<Rightarrow> BlockSync \<times> unit outcome" where
  "process_sync s =
     (case bsy_state s of Syncing \<Rightarrow> process_syncing s | Catching \<Rightarrow> process_catching s | _ \<Rightarrow> (s, Ok ()))"

definition check_timeouts :: "Timestamp \<Rightarrow> BlockSync \<Rightarrow> BlockSync \<times> unit outcome" where
  "check_timeouts now s =
     (s\<lparr>bsy_pending_requests := hm_retain (\<lambda>_ r. \<not> is_timed_out now r) (bsy_pending_requests s)\<rparr>, Ok ())"

section \<open>Requests\<close>

text \<open>The position of the chosen peer among all peers.\<close>

definition select_sync_peer :: "SyncDraws \<Rightarrow> BlockHeight \<Rightarrow> Peer list \<Rightarrow> nat outcome" where
  "select_sync_peer d h peers =
     (let connected_peers = filter (\<lambda>k. is_connected (peers ! k)) [0..<length peers] in
      if connected_peers = [] then Err (NetworkError ''No peers available'')
      else Ok (connected_peers ! sd_choose d h (length connected_peers)))"

definition next_request_id :: "BlockSync \<Rightarrow> BlockSync \<times> u64" where
  "next_request_id s = (s\<lparr>bsy_next_request_id := bsy_next_request_id s + 1\<rparr>, bsy_next_request_id s)"

definition request_block_batch ::
  "'z network_codecs_scheme \<Rightarrow> SyncDraws \<Rightarrow> BlockHeight \<Rightarrow> BlockHeight \<Rightarrow> BlockSync \<Rightarrow> Peer list \<Rightarrow>
   BlockSync \<times> Peer list \<times> unit outcome" where
  "request_block_batch N d start_h end_h s peers =
     (case select_sync_peer d start_h peers of
        Err e \<Rightarrow> (s, peers, Err e)
      | Panic m \<Rightarrow> (s, peers, Panic m)
      | Ok k \<Rightarrow>
          let (s, request_id) = next_request_id s;
              request = \<lparr>brq_start_height = start_h, brq_end_height = end_h, brq_max_blocks = unat (bsy_batch_size s)\<rparr>
          in case message_get_blocks N (sd_stamp d start_h) request of
               Err e \<Rightarrow> (s, peers, Err e)
             | Panic m \<Rightarrow> (s, peers, Panic m)
             | Ok message \<Rightarrow>
                 let peer = fst (peer_send (sd_sent_at d start_h) message (peers ! k));
                     sync_request = SyncRequest_new (sd_requested_at d start_h) request_id (peer_id peer) start_h end_h
                       (bsy_request_timeout s)
                 in (s\<lparr>bsy_pending_requests := fmupd request_id sync_request (bsy_pending_requests s)\<rparr>,
                     peers[k := peer], Ok ()))"

text \<open>\<open>while current < end_height\<close>; an error of a batch is logged and the next one is requested.\<close>

partial_function (option) request_loop ::
  "'z network_codecs_scheme \<Rightarrow> SyncDraws \<Rightarrow> BlockHeight \<Rightarrow> BlockHeight \<Rightarrow> BlockSync \<Rightarrow> Peer list \<Rightarrow>
   (BlockSync \<times> Peer list \<times> unit outcome) option" where
  "request_loop N d end_h current s peers =
     (if current < end_h
      then let batch_end = min (current + bsy_batch_size s) end_h;
               res = request_block_batch N d current batch_end s peers
           in if is_panic (snd (snd res)) then Some res
              else request_loop N d end_h batch_end (fst res) (fst (snd res))
      else Some (s, peers, Ok ()))"

definition request_blocks ::
  "'z network_codecs_scheme \<Rightarrow> SyncDraws \<Rightarrow> BlockHeight \<Rightarrow> BlockHeight \<Rightarrow> BlockSync \<Rightarrow> Peer list \<Rightarrow>
   (BlockSync \<times> Peer list \<times> unit outcome) option" where
  "request_blocks N d start_h end_h s peers =
     (if end_h \<le> start_h then Some (s, peers, Err (NetworkError ''Invalid block range''))
      else request_loop N d end_h start_h
             (s\<lparr>bsy_state := Syncing, bsy_current_height := start_h, bsy_target_height := end_h, bsy_start_height := start_h,
                bsy_sync_start_time := Some (sd_now d)\<rparr>) peers)"

section \<open>Responses\<close>

definition handle_block_response :: "BlockResponse \<Rightarrow> BlockSync \<Rightarrow> BlockSync \<times> unit outcome" where
  "handle_block_response response s =
     (let blocks = bsy_received_blocks s @ brs_blocks response
      in (s\<lparr>bsy_received_blocks := blocks,
            bsy_synced_blocks := bsy_synced_blocks s + of_nat (length blocks),
            bsy_current_height := (case vec_last blocks of Some b \<Rightarrow> Block_height b | None \<Rightarrow> bsy_current_height s)\<rparr>, Ok ()))"

definition get_next_block :: "BlockSync \<Rightarrow> BlockSync \<times> Block option" where
  "get_next_block s =
     (case bsy_received_blocks s of [] \<Rightarrow> (s, None) | b # bs \<Rightarrow> (s\<lparr>bsy_received_blocks := bs\<rparr>, Some b))"

definition pending_block_count :: "BlockSync \<Rightarrow> nat" where
  "pending_block_count s = length (bsy_received_blocks s)"

text \<open>The clock is read twice.\<close>

definition sync_status :: "Timestamp \<Rightarrow> Timestamp \<Rightarrow> BlockSync \<Rightarrow> SyncStatus" where
  "sync_status now now' s =
     (let sync_speed = (case bsy_sync_start_time s of
            None \<Rightarrow> Fin 0
          | Some started \<Rightarrow>
              let elapsed = saturating_sub now started in
              if 0 < elapsed then f64_div (f64_of_nat (unat (bsy_synced_blocks s))) (f64_of_nat (unat elapsed)) else Fin 0);
          estimated_completion =
            (if f64_lt (Fin 0) sync_speed
             then let remaining = saturating_sub (bsy_target_height s) (bsy_current_height s);
                      time_remaining = of_nat (f64_to_usize (f64_div (f64_of_nat (unat remaining)) sync_speed))
                  in Some (now' + time_remaining)
             else None)
      in \<lparr>sst_state = bsy_state s, sst_current_height = bsy_current_height s, sst_target_height = bsy_target_height s,
          sst_start_height = bsy_start_height s, sst_synced_blocks = bsy_synced_blocks s,
          sst_pending_requests = hm_len (bsy_pending_requests s), sst_active_peers = 0, sst_sync_speed = sync_speed,
          sst_started_at = bsy_sync_start_time s, sst_estimated_completion = estimated_completion\<rparr>)"

definition set_state :: "SyncState \<Rightarrow> BlockSync \<Rightarrow> BlockSync" where
  "set_state st s = s\<lparr>bsy_state := st\<rparr>"

definition sync_is_syncing :: "Timestamp \<Rightarrow> Timestamp \<Rightarrow> BlockSync \<Rightarrow> bool" where
  "sync_is_syncing now now' s = status_is_syncing (sync_status now now' s)"

section \<open>Facts\<close>

lemma request_block_batch_keeps:
  "bsy_batch_size (fst (request_block_batch N d a b s peers)) = bsy_batch_size s"
  by (auto simp: request_block_batch_def next_request_id_def Let_def split: result.splits)

lemma request_block_batch_no_panic:
  assumes "\<And>x. \<not> is_panic (fst (block_request_codec N) x)"
  shows "\<not> is_panic (snd (snd (request_block_batch N d a b s peers)))"
proof -
  have "message_get_blocks N st x \<noteq> Panic msg" for st x msg
    using assms [of x] by (cases "fst (block_request_codec N) x") (auto simp: message_get_blocks_def serialize_def)
  moreover have "select_sync_peer d h peers \<noteq> Panic msg" for h msg by (simp add: select_sync_peer_def Let_def)
  ultimately show ?thesis
    by (auto simp: request_block_batch_def next_request_id_def Let_def split: result.splits)
qed

text \<open>A batch size of zero makes no progress: the loop does not return.\<close>

lemma request_loop_zero:
  assumes "\<And>x. \<not> is_panic (fst (block_request_codec N) x)" and "bsy_batch_size s = 0" and "current < end_h"
  shows "request_loop N d end_h current s peers = None"
proof -
  let ?P = "\<lambda>N d end_h current s peers y.
    (\<forall>x. \<not> is_panic (fst (block_request_codec N) x)) \<longrightarrow> bsy_batch_size s = 0 \<longrightarrow> \<not> current < end_h"
  have "?P N d end_h current s peers y" if "request_loop N d end_h current s peers = Some y" for y
    using _ that
  proof (rule request_loop.raw_induct [where P = ?P])
    fix f N d end_h current s peers y
    assume IH: "\<And>N d end_h current s peers y. f N d end_h current s peers = Some y \<Longrightarrow> ?P N d end_h current s peers y"
      and body: "(if current < end_h
        then let batch_end = min (current + bsy_batch_size s) end_h;
                 res = request_block_batch N d current batch_end s peers
             in if is_panic (snd (snd res)) then Some res else f N d end_h batch_end (fst res) (fst (snd res))
        else Some (s, peers, Ok ())) = Some y"
    show "?P N d end_h current s peers y"
    proof (intro impI notI)
      assume total: "\<forall>x. \<not> is_panic (fst (block_request_codec N) x)" and zero: "bsy_batch_size s = 0" and less: "current < end_h"
      let ?res = "request_block_batch N d current current s peers"
      have "min (current + bsy_batch_size s) end_h = current" using less zero by simp
      moreover have "\<not> is_panic (snd (snd ?res))" using total by (intro request_block_batch_no_panic) blast
      ultimately have "f N d end_h current (fst ?res) (fst (snd ?res)) = Some y" using body less by (simp add: Let_def)
      from IH [OF this] total zero less show False by (simp add: request_block_batch_keeps)
    qed
  qed
  with assms show ?thesis by (cases "request_loop N d end_h current s peers") blast+
qed

text \<open>What one batch does when there is a connected peer and the request can be encoded.\<close>

lemma request_block_batch_Ok:
  assumes "choose_laws d" and "\<exists>p \<in> set peers. is_connected p"
    and "\<And>st x. \<exists>m. message_get_blocks N st x = Ok m"
  obtains r peers' where "request_block_batch N d a b s peers =
      (s\<lparr>bsy_next_request_id := bsy_next_request_id s + 1,
         bsy_pending_requests := fmupd (bsy_next_request_id s) r (bsy_pending_requests s)\<rparr>, peers', Ok ())"
    "srq_start_height r = a" "srq_end_height r = b" "\<exists>p \<in> set peers'. is_connected p"
proof -
  define ks where "ks = filter (\<lambda>k. is_connected (peers ! k)) [0..<length peers]"
  obtain p where "p \<in> set peers" "is_connected p" using assms(2) by blast
  then obtain j where "j < length peers" "is_connected (peers ! j)" by (auto simp: in_set_conv_nth)
  then have "ks \<noteq> []" by (auto simp: ks_def filter_empty_conv)
  define k where "k = ks ! sd_choose d a (length ks)"
  have "sd_choose d a (length ks) < length ks" using assms(1) \<open>ks \<noteq> []\<close> by (simp add: choose_laws_def)
  then have "k \<in> set ks" by (simp add: k_def)
  then have k: "k < length peers" "is_connected (peers ! k)" by (auto simp: ks_def)
  have sel: "select_sync_peer d a peers = Ok k"
    using \<open>ks \<noteq> []\<close> by (simp add: select_sync_peer_def ks_def k_def Let_def)
  let ?rq = "\<lparr>brq_start_height = a, brq_end_height = b, brq_max_blocks = unat (bsy_batch_size s)\<rparr>"
  obtain m where m: "message_get_blocks N (sd_stamp d a) ?rq = Ok m" using assms(3) by blast
  let ?p = "fst (peer_send (sd_sent_at d a) m (peers ! k))"
  have "?p \<in> set (peers[k := ?p])" using k(1) by (simp add: set_update_memI)
  then have conn: "\<exists>p \<in> set (peers[k := ?p]). is_connected p" using k(2) by (intro bexI) simp_all
  show ?thesis
    by (rule that [OF _ _ _ conn, of "SyncRequest_new (sd_requested_at d a) (bsy_next_request_id s) (peer_id ?p) a b
          (bsy_request_timeout s)"])
       (simp_all add: request_block_batch_def sel m next_request_id_def SyncRequest_new_def Let_def)
qed

lemma next_batch_end:
  fixes current end_h batch :: u64
  assumes "0 < batch" and "unat end_h + unat batch < 2 ^ 64" and "current < end_h"
  shows "current < min (current + batch) end_h" and "unat (min (current + batch) end_h) \<le> unat current + unat batch"
proof -
  have "unat current + unat batch < 2 ^ 64" using assms(2,3) by (simp add: word_less_nat_alt)
  then have sum: "unat (current + batch) = unat current + unat batch" by (subst unat_plus_if_size) (simp add: word_size)
  have "0 < unat batch" using assms(1) by (simp add: word_less_nat_alt)
  with sum assms(3) show "current < min (current + batch) end_h" by (simp add: min_def word_less_nat_alt)
  show "unat (min (current + batch) end_h) \<le> unat current + unat batch"
    using sum by (auto simp: min_def word_le_nat_alt)
qed

lemma of_nat_add_distinct:
  fixes a :: u64
  assumes "Suc j < 2 ^ 64"
  shows "a + 1 + of_nat j \<noteq> a"
proof
  assume "a + 1 + of_nat j = a"
  then have "(of_nat (Suc j) :: u64) = 0" by (simp add: add.assoc add.commute)
  then have "unat (of_nat (Suc j) :: u64) = 0" by (simp only: unat_0)
  with assms show False unfolding unat_of_nat by simp
qed

text \<open>The requests that the loop leaves behind cover the heights without gap or overlap.\<close>

definition tiles :: "SyncRequest list \<Rightarrow> BlockHeight \<Rightarrow> BlockHeight \<Rightarrow> u64 \<Rightarrow> bool" where
  "tiles reqs start_h end_h batch \<longleftrightarrow>
     concat (map (\<lambda>r. [unat (srq_start_height r)..<unat (srq_end_height r)]) reqs) = [unat start_h..<unat end_h] \<and>
     list_all (\<lambda>r. srq_start_height r < srq_end_height r \<and>
       unat (srq_end_height r) \<le> unat (srq_start_height r) + unat batch) reqs"

lemma tiles_Cons:
  assumes "tiles reqs mid end_h batch" and "srq_start_height r = a" and "srq_end_height r = mid" and "a < mid"
    and "mid \<le> end_h" and "unat mid \<le> unat a + unat batch"
  shows "tiles (r # reqs) a end_h batch"
proof -
  have "[unat a..<unat end_h] = [unat a..<unat mid] @ [unat mid..<unat end_h]"
    using assms(4,5) by (metis le_Suc_ex less_imp_le upt_add_eq_append word_le_nat_alt word_less_nat_alt)
  with assms show ?thesis by (simp add: tiles_def)
qed

lemma tiles_length: "tiles reqs a e b \<Longrightarrow> length reqs \<le> unat e - unat a"
proof -
  assume t: "tiles reqs a e b"
  have "length reqs \<le> length (concat (map (\<lambda>r. [unat (srq_start_height r)..<unat (srq_end_height r)]) reqs))"
    if "list_all (\<lambda>r. srq_start_height r < srq_end_height r) reqs"
    using that by (induction reqs) (auto simp: word_less_nat_alt)
  with t show ?thesis by (simp add: tiles_def list_all_iff)
qed

lemma request_loop_covers:
  assumes "choose_laws d" and "\<And>st x. \<exists>m. message_get_blocks N st x = Ok m"
    and "0 < bsy_batch_size s" and "unat end_h + unat (bsy_batch_size s) < 2 ^ 64"
    and "\<exists>p \<in> set peers. is_connected p" and "current \<le> end_h"
  shows "\<exists>s' peers' reqs. request_loop N d end_h current s peers = Some (s', peers', Ok ()) \<and>
    tiles reqs current end_h (bsy_batch_size s) \<and>
    (\<forall>j < length reqs. fmlookup (bsy_pending_requests s') (bsy_next_request_id s + of_nat j) = Some (reqs ! j)) \<and>
    (\<forall>i. (\<forall>j < length reqs. i \<noteq> bsy_next_request_id s + of_nat j) \<longrightarrow>
       fmlookup (bsy_pending_requests s') i = fmlookup (bsy_pending_requests s) i) \<and>
    bsy_state s' = bsy_state s \<and> bsy_current_height s' = bsy_current_height s \<and> bsy_target_height s' = bsy_target_height s"
  using assms(3-6)
proof (induction "unat end_h - unat current" arbitrary: current s peers rule: less_induct)
  case less
  show ?case
  proof (cases "current < end_h")
    case False
    with less.prems(4) have "current = end_h" by simp
    then show ?thesis by (intro exI [of _ s] exI [of _ peers] exI [of _ "[]"]) (simp add: request_loop.simps tiles_def)
  next
    case True
    define mid where "mid = min (current + bsy_batch_size s) end_h"
    note mid = next_batch_end [OF less.prems(1,2) True, folded mid_def]
    have mid_end: "mid \<le> end_h" by (simp add: mid_def)
    obtain r peers1 where one: "request_block_batch N d current mid s peers =
        (s\<lparr>bsy_next_request_id := bsy_next_request_id s + 1,
           bsy_pending_requests := fmupd (bsy_next_request_id s) r (bsy_pending_requests s)\<rparr>, peers1, Ok ())"
        (is "_ = (?s, _, _)")
      and r: "srq_start_height r = current" "srq_end_height r = mid" and conn: "\<exists>p \<in> set peers1. is_connected p"
      by (rule request_block_batch_Ok [OF assms(1) less.prems(3) assms(2)])
    have "unat end_h - unat mid < unat end_h - unat current"
      using mid(1) mid_end True by (simp add: word_less_nat_alt word_le_nat_alt)
    from less.hyps [OF this, of ?s peers1] less.prems(1,2) conn mid_end obtain s' peers' reqs where
        rest: "request_loop N d end_h mid ?s peers1 = Some (s', peers', Ok ())" "tiles reqs mid end_h (bsy_batch_size s)"
          "\<forall>j < length reqs. fmlookup (bsy_pending_requests s') (bsy_next_request_id s + 1 + of_nat j) = Some (reqs ! j)"
          "\<forall>i. (\<forall>j < length reqs. i \<noteq> bsy_next_request_id s + 1 + of_nat j) \<longrightarrow>
             fmlookup (bsy_pending_requests s') i = (if i = bsy_next_request_id s then Some r else fmlookup (bsy_pending_requests s) i)"
          "bsy_state s' = bsy_state s" "bsy_current_height s' = bsy_current_height s" "bsy_target_height s' = bsy_target_height s"
      by auto
    have "unat mid < 2 ^ 64" "unat end_h < 2 ^ 64" using unsigned_less [of end_h] unsigned_less [of mid] by simp_all
    then have "length reqs < 2 ^ 64 - 1"
      using tiles_length [OF rest(2)] mid(1) by (simp add: word_less_nat_alt)
    have "\<forall>j < length reqs. bsy_next_request_id s \<noteq> bsy_next_request_id s + 1 + of_nat j"
    proof (intro allI impI)
      fix j assume "j < length reqs"
      with \<open>length reqs < 2 ^ 64 - 1\<close> have "Suc j < 2 ^ 64" by simp
      then show "bsy_next_request_id s \<noteq> bsy_next_request_id s + 1 + of_nat j" using of_nat_add_distinct by metis
    qed
    with rest(4) have first: "fmlookup (bsy_pending_requests s') (bsy_next_request_id s) = Some r" by simp
    have "request_loop N d end_h current s peers = Some (s', peers', Ok ())"
      using True rest(1) one by (subst request_loop.simps) (simp add: Let_def flip: mid_def)
    moreover have "tiles (r # reqs) current end_h (bsy_batch_size s)"
      using tiles_Cons [OF rest(2) r mid(1) mid_end] mid(2) by simp
    moreover have "fmlookup (bsy_pending_requests s') (bsy_next_request_id s + of_nat j) = Some ((r # reqs) ! j)"
      if "j < length (r # reqs)" for j
      using that first rest(3) by (cases j) (auto simp: add.assoc)
    moreover have "fmlookup (bsy_pending_requests s') i = fmlookup (bsy_pending_requests s) i"
      if "\<forall>j < length (r # reqs). i \<noteq> bsy_next_request_id s + of_nat j" for i
    proof -
      have "i \<noteq> bsy_next_request_id s" using that by (auto dest: spec [of _ 0])
      moreover have "\<forall>j < length reqs. i \<noteq> bsy_next_request_id s + 1 + of_nat j"
        using that by (auto simp: add.assoc dest: spec [of _ "Suc _"])
      ultimately show ?thesis using rest(4) by simp
    qed
    ultimately show ?thesis using rest(5-7) by blast
  qed
qed

text \<open>Without a connected peer every batch fails, and the loop goes through the range without a request.\<close>

lemma request_loop_no_peer:
  assumes "0 < bsy_batch_size s" and "unat end_h + unat (bsy_batch_size s) < 2 ^ 64" and "\<forall>p \<in> set peers. \<not> is_connected p"
  shows "request_loop N d end_h current s peers = Some (s, peers, Ok ())"
proof (induction "unat end_h - unat current" arbitrary: current rule: less_induct)
  case less
  show ?case
  proof (cases "current < end_h")
    case True
    define mid where "mid = min (current + bsy_batch_size s) end_h"
    have "select_sync_peer d h peers = Err (NetworkError ''No peers available'')" for h
      using assms(3) by (auto simp: select_sync_peer_def Let_def filter_empty_conv)
    then have "request_block_batch N d current mid s peers = (s, peers, Err (NetworkError ''No peers available''))"
      by (simp add: request_block_batch_def)
    moreover have "unat end_h - unat mid < unat end_h - unat current"
      using next_batch_end(1) [OF assms(1,2) True] True by (simp add: mid_def word_less_nat_alt word_le_nat_alt)
    then have "request_loop N d end_h mid s peers = Some (s, peers, Ok ())" by (rule less.hyps)
    ultimately show ?thesis using True by (subst request_loop.simps) (simp add: Let_def flip: mid_def)
  qed (simp add: request_loop.simps)
qed

section \<open>Properties\<close>

text \<open>
  C25: What \<open>request_blocks\<close> does, for requests that can be encoded and a range whose end plus a batch does not
  overflow. An empty range is an error and changes nothing. With a batch size of zero, which \<open>new\<close> accepts, the
  call never returns. Without a connected peer it returns without an error and leaves no request. Otherwise
  it returns; the requests it leaves pending, under consecutive ids, cover the heights of the range in
  order without gap or overlap and each asks for at least one and at most a batch of blocks; and the
  state is syncing towards the end of the range.
\<close>

theorem request_blocks_covers:
  assumes "choose_laws d" and "\<forall>st x. \<exists>m. message_get_blocks N st x = Ok m"
    and "unat end_h + unat (bsy_batch_size s) < 2 ^ 64"
  shows "if end_h \<le> start_h then request_blocks N d start_h end_h s peers = Some (s, peers, Err (NetworkError ''Invalid block range''))
    else if bsy_batch_size s = 0 then request_blocks N d start_h end_h s peers = None
    else if \<forall>p \<in> set peers. \<not> is_connected p
    then \<exists>s'. request_blocks N d start_h end_h s peers = Some (s', peers, Ok ()) \<and> bsy_pending_requests s' = bsy_pending_requests s
    else \<exists>s' peers' reqs. request_blocks N d start_h end_h s peers = Some (s', peers', Ok ()) \<and>
      concat (map (\<lambda>r. [unat (srq_start_height r)..<unat (srq_end_height r)]) reqs) = [unat start_h..<unat end_h] \<and>
      list_all (\<lambda>r. srq_start_height r < srq_end_height r \<and>
        unat (srq_end_height r) \<le> unat (srq_start_height r) + unat (bsy_batch_size s)) reqs \<and>
      (\<forall>j < length reqs. fmlookup (bsy_pending_requests s') (bsy_next_request_id s + of_nat j) = Some (reqs ! j)) \<and>
      bsy_state s' = Syncing \<and> bsy_current_height s' = start_h \<and> bsy_target_height s' = end_h"
proof (cases "start_h < end_h")
  case True
  let ?s = "s\<lparr>bsy_state := Syncing, bsy_current_height := start_h, bsy_target_height := end_h, bsy_start_height := start_h,
                bsy_sync_start_time := Some (sd_now d)\<rparr>"
  have eq: "request_blocks N d start_h end_h s peers = request_loop N d end_h start_h ?s peers"
    using True unfolding request_blocks_def by (simp flip: not_less)
  have "\<not> is_panic (fst (block_request_codec N) x)" for x
    using assms(2) [rule_format, of undefined x]
    by (cases "fst (block_request_codec N) x") (auto simp: message_get_blocks_def serialize_def)
  then have zero: "request_blocks N d start_h end_h s peers = None" if "bsy_batch_size s = 0"
    using request_loop_zero [of N ?s start_h end_h d peers] True that by (simp add: eq)
  have alone: "request_blocks N d start_h end_h s peers = Some (?s, peers, Ok ())"
    if "0 < bsy_batch_size s" "\<forall>p \<in> set peers. \<not> is_connected p"
    using request_loop_no_peer [of ?s end_h peers N d start_h] that assms(3) by (simp add: eq)
  have "\<exists>s' peers' reqs. request_blocks N d start_h end_h s peers = Some (s', peers', Ok ()) \<and>
      tiles reqs start_h end_h (bsy_batch_size s) \<and>
      (\<forall>j < length reqs. fmlookup (bsy_pending_requests s') (bsy_next_request_id s + of_nat j) = Some (reqs ! j)) \<and>
      bsy_state s' = Syncing \<and> bsy_current_height s' = start_h \<and> bsy_target_height s' = end_h"
    if "0 < bsy_batch_size s" "\<exists>p \<in> set peers. is_connected p"
    using request_loop_covers [OF assms(1) _ _ _ that(2) less_imp_le [OF True], of N ?s] assms(2,3) that(1) by (auto simp: eq)
  with True zero alone show ?thesis unfolding tiles_def by (auto simp: word_gt_0)
qed (simp add: request_blocks_def not_less)

definition sample_sync_draws :: SyncDraws where
  "sample_sync_draws =
     \<lparr>sd_now = 50, sd_choose = (\<lambda>h n. 0), sd_stamp = (\<lambda>h. (51, h)), sd_sent_at = (\<lambda>h. 51), sd_requested_at = (\<lambda>h. 52)\<rparr>"

theorem request_blocks_covers_witness:
  "\<exists>s' peers' (reqs :: SyncRequest list). request_blocks sample_network sample_sync_draws 5 105 (BlockSync_new 10) [sample_peer 1] =
       Some (s', peers', Ok ()) \<and>
     concat (map (\<lambda>r. [unat (srq_start_height r)..<unat (srq_end_height r)]) reqs) = [5..<105]"
proof -
  have laws: "choose_laws sample_sync_draws" by (simp add: choose_laws_def sample_sync_draws_def)
  have enc: "\<forall>st x. \<exists>m. message_get_blocks sample_network st x = Ok m"
    by (simp add: message_get_blocks_def sample_network_def serialize_def)
  have conn: "is_connected (sample_peer 1)" by (simp add: sample_peer_def mark_connected_def is_connected_def)
  have pos: "bsy_batch_size (BlockSync_new 10) \<noteq> 0"
    and bound: "unat (105 :: u64) + unat (bsy_batch_size (BlockSync_new 10)) < 2 ^ 64"
    by (simp_all add: BlockSync_new_def)
  from request_blocks_covers [OF laws enc bound, of 5 "[sample_peer 1]"] pos conn show ?thesis by auto
qed

text \<open>
  A response adds the whole queue to the count of synced blocks and not the blocks that came: two
  responses of one block each count three.
\<close>

lemma synced_blocks_overcount:
  assumes "handle_block_response (r :: BlockResponse) s = (s1, Ok ())" and "handle_block_response r' s1 = (s2, Ok ())"
    and "length (brs_blocks r) = 1" and "length (brs_blocks r') = 1" and "bsy_received_blocks s = []"
  shows "bsy_synced_blocks s2 = bsy_synced_blocks s + 3"
  using assms by (auto simp: handle_block_response_def Let_def)

text \<open>A response does not remove the request it answers: only the timeout does.\<close>

lemma response_keeps_pending:
  "bsy_pending_requests (fst (handle_block_response r s)) = bsy_pending_requests s"
  by (simp add: handle_block_response_def Let_def)

lemma process_sync_completes:
  "bsy_state (fst (process_sync s)) = Synced \<longleftrightarrow>
     bsy_state s = Synced \<or> bsy_state s = Syncing \<and> bsy_target_height s \<le> bsy_current_height s"
  by (auto simp: process_sync_def process_syncing_def process_catching_def complete_sync_def split: SyncState.splits)

end
