(* ===== verification/Discovery.thy ===== *)
theory Discovery
  imports Peer
begin

text \<open>
  \<open>network/src/discovery.rs\<close>: the addresses a node knows and those it is connected to. The order in
  which a hash map is iterated is the argument \<open>iteration\<close>, the clock is an argument, and the body of
  the periodic task is a step.
\<close>

section \<open>Data\<close>

record DiscoveryConfig =
  dc_bootstrap_peers :: "SocketAddr list"
  dc_discovery_interval :: u64
  dc_max_peers :: nat
  dc_max_peers_per_query :: nat
  dc_advertisement_interval :: u64
  dc_stale_threshold :: u64

datatype PeerSource = Bootstrap | FromPeer | Manual

record DiscoveredPeer =
  dp_addr :: SocketAddr
  dp_discovered_at :: Timestamp
  dp_last_seen :: Timestamp
  dp_source :: PeerSource

record PeerDiscovery =
  pd_config :: DiscoveryConfig
  pd_discovered_peers :: "(SocketAddr, DiscoveredPeer) hashmap"
  pd_connected_peers :: "SocketAddr fset"
  pd_running :: bool

record DiscoveryStats =
  ds_discovered_peers :: nat
  ds_connected_peers :: nat
  ds_bootstrap_peers :: nat
  ds_peer_discovered :: nat
  ds_manual_peers :: nat

section \<open>Operations\<close>

definition DiscoveryConfig_default :: DiscoveryConfig where
  "DiscoveryConfig_default =
     \<lparr>dc_bootstrap_peers = [], dc_discovery_interval = 60, dc_max_peers = 50, dc_max_peers_per_query = 10,
      dc_advertisement_interval = 300, dc_stale_threshold = 600\<rparr>"

definition DiscoveredPeer_new :: "Timestamp \<Rightarrow> SocketAddr \<Rightarrow> PeerSource \<Rightarrow> DiscoveredPeer" where
  "DiscoveredPeer_new now addr source = \<lparr>dp_addr = addr, dp_discovered_at = now, dp_last_seen = now, dp_source = source\<rparr>"

definition dp_update_last_seen :: "Timestamp \<Rightarrow> DiscoveredPeer \<Rightarrow> DiscoveredPeer" where
  "dp_update_last_seen now p = p\<lparr>dp_last_seen := now\<rparr>"

definition dp_is_stale :: "Timestamp \<Rightarrow> DiscoveredPeer \<Rightarrow> u64 \<Rightarrow> bool" where
  "dp_is_stale now p threshold \<longleftrightarrow> threshold < saturating_sub now (dp_last_seen p)"

definition PeerDiscovery_new :: "Timestamp \<Rightarrow> DiscoveryConfig \<Rightarrow> PeerDiscovery" where
  "PeerDiscovery_new now config =
     \<lparr>pd_config = config,
      pd_discovered_peers = fold (\<lambda>addr. fmupd addr (DiscoveredPeer_new now addr Bootstrap)) (dc_bootstrap_peers config) fmempty,
      pd_connected_peers = {||}, pd_running = False\<rparr>"

definition discovery_start :: "PeerDiscovery \<Rightarrow> PeerDiscovery \<times> unit outcome" where
  "discovery_start d =
     (if pd_running d then (d, Err (NetworkError ''Discovery already running'')) else (d\<lparr>pd_running := True\<rparr>, Ok ()))"

definition discovery_stop :: "PeerDiscovery \<Rightarrow> PeerDiscovery \<times> unit outcome" where
  "discovery_stop d = (d\<lparr>pd_running := False\<rparr>, Ok ())"

definition get_discovery_candidates ::
  "((SocketAddr, DiscoveredPeer) hashmap \<Rightarrow> SocketAddr list) \<Rightarrow> Timestamp \<Rightarrow> PeerDiscovery \<Rightarrow> nat \<Rightarrow> SocketAddr list" where
  "get_discovery_candidates iteration now d wanted =
     take wanted (filter (\<lambda>addr. addr |\<notin>| pd_connected_peers d \<and>
       (case fmlookup (pd_discovered_peers d) addr of
          Some peer \<Rightarrow> \<not> dp_is_stale now peer (dc_stale_threshold (pd_config d)) | None \<Rightarrow> False))
       (iteration (pd_discovered_peers d)))"

text \<open>The candidates are only logged.\<close>

definition discover_peers ::
  "((SocketAddr, DiscoveredPeer) hashmap \<Rightarrow> SocketAddr list) \<Rightarrow> Timestamp \<Rightarrow> PeerDiscovery \<Rightarrow> PeerDiscovery \<times> unit outcome" where
  "discover_peers iteration now d =
     (let connected_count = fcard (pd_connected_peers d) in
      if dc_max_peers (pd_config d) \<le> connected_count then (d, Ok ())
      else let needed = dc_max_peers (pd_config d) - connected_count;
               candidates = get_discovery_candidates iteration now d needed
           in (d, Ok ()))"

definition discovery_add_peer :: "Timestamp \<Rightarrow> SocketAddr \<Rightarrow> PeerSource \<Rightarrow> PeerDiscovery \<Rightarrow> PeerDiscovery \<times> unit outcome" where
  "discovery_add_peer now addr source d =
     (if dc_max_peers (pd_config d) * 2 \<le> hm_len (pd_discovered_peers d)
      then (d, Err (NetworkError ''Discovered peers limit reached''))
      else (d\<lparr>pd_discovered_peers :=
              (case fmlookup (pd_discovered_peers d) addr of
                 Some peer \<Rightarrow> fmupd addr (dp_update_last_seen now peer) (pd_discovered_peers d)
               | None \<Rightarrow> fmupd addr (DiscoveredPeer_new now addr source) (pd_discovered_peers d))\<rparr>, Ok ()))"

text \<open>Each address comes with the time at which its turn in the loop comes.\<close>

fun add_peers_loop :: "(Timestamp \<times> SocketAddr) list \<Rightarrow> PeerSource \<Rightarrow> PeerDiscovery \<Rightarrow> nat \<Rightarrow> PeerDiscovery \<times> nat" where
  "add_peers_loop [] source d n = (d, n)"
| "add_peers_loop ((now, addr) # rest) source d n =
     (let (d, r) = discovery_add_peer now addr source d
      in add_peers_loop rest source d (if is_ok r then n + 1 else n))"

definition add_peers :: "(Timestamp \<times> SocketAddr) list \<Rightarrow> PeerSource \<Rightarrow> PeerDiscovery \<Rightarrow> PeerDiscovery \<times> nat outcome" where
  "add_peers peers source d = (let (d, n) = add_peers_loop peers source d 0 in (d, Ok n))"

definition discovery_mark_connected :: "Timestamp \<Rightarrow> SocketAddr \<Rightarrow> PeerDiscovery \<Rightarrow> PeerDiscovery \<times> unit outcome" where
  "discovery_mark_connected now addr d =
     (d\<lparr>pd_connected_peers := finsert addr (pd_connected_peers d),
        pd_discovered_peers := hm_update addr (dp_update_last_seen now) (pd_discovered_peers d)\<rparr>, Ok ())"

definition discovery_mark_disconnected :: "SocketAddr \<Rightarrow> PeerDiscovery \<Rightarrow> PeerDiscovery \<times> unit outcome" where
  "discovery_mark_disconnected addr d = (d\<lparr>pd_connected_peers := pd_connected_peers d |-| {|addr|}\<rparr>, Ok ())"

definition discovery_remove_peer :: "SocketAddr \<Rightarrow> PeerDiscovery \<Rightarrow> PeerDiscovery \<times> unit outcome" where
  "discovery_remove_peer addr d =
     (d\<lparr>pd_discovered_peers := fmdrop addr (pd_discovered_peers d),
        pd_connected_peers := pd_connected_peers d |-| {|addr|}\<rparr>, Ok ())"

text \<open>The stale addresses are collected, counted and removed.\<close>

definition clean_stale_peers :: "Timestamp \<Rightarrow> PeerDiscovery \<Rightarrow> PeerDiscovery \<times> nat outcome" where
  "clean_stale_peers now d =
     (let threshold = dc_stale_threshold (pd_config d);
          kept = hm_retain (\<lambda>_ p. \<not> dp_is_stale now p threshold) (pd_discovered_peers d)
      in (d\<lparr>pd_discovered_peers := kept\<rparr>, Ok (hm_len (pd_discovered_peers d) - hm_len kept)))"

definition get_discovered_peers :: "PeerDiscovery \<Rightarrow> DiscoveredPeer multiset" where
  "get_discovered_peers d = hm_values (pd_discovered_peers d)"

definition connected_count :: "PeerDiscovery \<Rightarrow> nat" where
  "connected_count d = fcard (pd_connected_peers d)"

definition discovered_count :: "PeerDiscovery \<Rightarrow> nat" where
  "discovered_count d = hm_len (pd_discovered_peers d)"

definition request_peers :: "PeerId \<Rightarrow> SocketAddr list outcome" where
  "request_peers i = Ok []"

definition handle_peer_list :: "(Timestamp \<times> SocketAddr) list \<Rightarrow> PeerDiscovery \<Rightarrow> PeerDiscovery \<times> unit outcome" where
  "handle_peer_list peers d = (fst (add_peers peers FromPeer d), Ok ())"

definition discovery_get_stats :: "PeerDiscovery \<Rightarrow> DiscoveryStats" where
  "discovery_get_stats d =
     (let values_of = (\<lambda>s. size (filter_mset (\<lambda>p. dp_source p = s) (hm_values (pd_discovered_peers d))))
      in \<lparr>ds_discovered_peers = hm_len (pd_discovered_peers d), ds_connected_peers = fcard (pd_connected_peers d),
          ds_bootstrap_peers = values_of Bootstrap, ds_peer_discovered = values_of FromPeer, ds_manual_peers = values_of Manual\<rparr>)"

section \<open>The node's knowledge over all calls\<close>

inductive discovery_step :: "PeerDiscovery \<Rightarrow> PeerDiscovery \<Rightarrow> bool" where
  add: "discovery_step d (fst (discovery_add_peer now addr source d))"
| add_list: "discovery_step d (fst (add_peers peers source d))"
| connected: "discovery_step d (fst (discovery_mark_connected now addr d))"
| disconnected: "discovery_step d (fst (discovery_mark_disconnected addr d))"
| remove: "discovery_step d (fst (discovery_remove_peer addr d))"
| clean: "discovery_step d (fst (clean_stale_peers now d))"

definition discovery_wf :: "PeerDiscovery \<Rightarrow> bool" where
  "discovery_wf d \<longleftrightarrow>
     discovered_count d \<le> max (dc_max_peers (pd_config d) * 2) (card (set (dc_bootstrap_peers (pd_config d)))) \<and>
     (\<forall>addr p. fmlookup (pd_discovered_peers d) addr = Some p \<longrightarrow> dp_addr p = addr)"

lemma discovery_wf_add: "discovery_wf d \<Longrightarrow> discovery_wf (fst (discovery_add_peer now addr source d))"
  by (auto simp: discovery_wf_def discovery_add_peer_def discovered_count_def DiscoveredPeer_new_def dp_update_last_seen_def
      hm_contains_key_def split: option.splits if_splits)

lemma add_peers_loop_wf: "discovery_wf d \<Longrightarrow> discovery_wf (fst (add_peers_loop ps source d n))"
proof (induction ps source d n rule: add_peers_loop.induct)
  case (2 now addr rest source d n)
  obtain d1 r where d1: "discovery_add_peer now addr source d = (d1, r)" by fastforce
  then have "discovery_wf d1" using discovery_wf_add [OF "2.prems", of now addr source] by simp
  with "2.IH" [OF d1 [symmetric]] show ?case by (simp add: d1)
qed simp

lemma new_discovered:
  "fmlookup (fold (\<lambda>addr. fmupd addr (DiscoveredPeer_new now addr Bootstrap)) as m) a =
     (if a \<in> set as then Some (DiscoveredPeer_new now a Bootstrap) else fmlookup m a)"
  by (induction as arbitrary: m) auto

interpretation discovery: invariant_system "\<lambda>d. \<exists>now config. d = PeerDiscovery_new now config" discovery_step discovery_wf
proof unfold_locales
  fix d assume "\<exists>now config. d = PeerDiscovery_new now config"
  then obtain now config where d: "d = PeerDiscovery_new now config" by blast
  have "fset (fmdom (pd_discovered_peers d)) = set (dc_bootstrap_peers config)"
    by (auto simp: d PeerDiscovery_new_def fmlookup_dom_iff new_discovered split: if_splits)
  then have "discovered_count d = card (set (dc_bootstrap_peers config))"
    by (simp add: discovered_count_def hm_len_def fcard.rep_eq)
  moreover have "dp_addr p = addr" if "fmlookup (pd_discovered_peers d) addr = Some p" for addr p
    using that by (auto simp: d PeerDiscovery_new_def new_discovered split: if_splits) (simp add: DiscoveredPeer_new_def)
  ultimately show "discovery_wf d" by (simp add: discovery_wf_def) (simp add: d PeerDiscovery_new_def)
next
  fix d d' assume wf: "discovery_wf d" and "discovery_step d d'"
  from this(2) show "discovery_wf d'"
  proof cases
    case (add now addr source)
    with wf show ?thesis by (simp add: discovery_wf_add)
  next
    case (add_list peers source)
    with wf add_peers_loop_wf [of d peers source 0] show ?thesis by (simp add: add_peers_def case_prod_beta)
  next
    case (connected now addr)
    have "hm_len (hm_update addr f m) = hm_len m" for f and m :: "(SocketAddr, DiscoveredPeer) hashmap"
      by (simp add: hm_update_def hm_contains_key_def split: option.splits)
    with wf connected show ?thesis
      by (auto simp: discovery_wf_def discovery_mark_connected_def discovered_count_def dp_update_last_seen_def split: if_splits)
  next
    case (disconnected addr)
    with wf show ?thesis by (simp add: discovery_wf_def discovery_mark_disconnected_def discovered_count_def)
  next
    case (remove addr)
    have "hm_len (fmdrop addr (pd_discovered_peers d)) \<le> hm_len (pd_discovered_peers d)" by (rule hm_len_mono) simp
    with wf remove show ?thesis
      by (auto simp: discovery_wf_def discovery_remove_peer_def discovered_count_def split: if_splits)
  next
    case (clean now)
    let ?kept = "hm_retain (\<lambda>_ p. \<not> dp_is_stale now p (dc_stale_threshold (pd_config d))) (pd_discovered_peers d)"
    have "hm_len ?kept \<le> hm_len (pd_discovered_peers d)"
      by (rule hm_len_mono) (auto simp: hm_contains_key_def split: option.splits)
    with wf clean show ?thesis
      by (auto simp: discovery_wf_def clean_stale_peers_def discovered_count_def Let_def split: option.splits if_splits)
  qed
qed

lemma config_kept: "discovery_step\<^sup>*\<^sup>* d d' \<Longrightarrow> pd_config d' = pd_config d"
proof (induction rule: rtranclp_induct)
  case (step d' d'')
  have loop: "pd_config (fst (add_peers_loop ps source e n)) = pd_config e" for ps source e n
    by (induction ps source e n rule: add_peers_loop.induct)
       (auto simp: discovery_add_peer_def Let_def split: prod.splits if_splits)
  from step(2) have "pd_config d'' = pd_config d'"
    by cases (auto simp: discovery_add_peer_def add_peers_def case_prod_beta loop discovery_mark_connected_def
        discovery_mark_disconnected_def discovery_remove_peer_def clean_stale_peers_def Let_def)
  with step.IH show ?case by simp
qed simp

section \<open>Facts\<close>

text \<open>At the limit a known peer is not refreshed either: it grows stale while it keeps announcing itself.\<close>

lemma known_peer_not_refreshed:
  assumes "dc_max_peers (pd_config d) * 2 \<le> discovered_count d" and "fmlookup (pd_discovered_peers d) addr = Some p"
  shows "discovery_add_peer now addr source d = (d, Err (NetworkError ''Discovered peers limit reached''))"
  using assms by (simp add: discovery_add_peer_def discovered_count_def)

section \<open>Properties\<close>

text \<open>
  What a node knows of its neighbours stays bounded. After any calls on a discovery made from a
  configuration, the number of known addresses is at most twice the permitted number of peers or
  the number of bootstrap peers, each entry is filed under its own address, and the candidates for
  a connection are different known addresses that are neither connected nor stale, at most as many
  as asked for and, if fewer, then all there are.
\<close>

theorem discovery_bounded:
  assumes "discovery_step\<^sup>*\<^sup>* (PeerDiscovery_new now config) d" and "walks iteration"
  shows "discovered_count d \<le> max (dc_max_peers config * 2) (card (set (dc_bootstrap_peers config))) \<and>
    (\<forall>addr p. fmlookup (pd_discovered_peers d) addr = Some p \<longrightarrow> dp_addr p = addr) \<and>
    (let fresh = {addr. \<exists>p. fmlookup (pd_discovered_peers d) addr = Some p \<and> addr |\<notin>| pd_connected_peers d \<and>
                     \<not> dp_is_stale t p (dc_stale_threshold config)};
         candidates = get_discovery_candidates iteration t d n
     in distinct candidates \<and> set candidates \<subseteq> fresh \<and> length candidates = min n (card fresh))"
proof -
  have wf: "discovery_wf d" by (rule discovery.reachable_invar [OF _ assms(1)]) blast
  have config: "pd_config d = config" using config_kept [OF assms(1)] by (simp add: PeerDiscovery_new_def)
  define all where "all = filter (\<lambda>addr. addr |\<notin>| pd_connected_peers d \<and>
       (case fmlookup (pd_discovered_peers d) addr of
          Some peer \<Rightarrow> \<not> dp_is_stale t peer (dc_stale_threshold (pd_config d)) | None \<Rightarrow> False))
       (iteration (pd_discovered_peers d))"
  let ?fresh = "{addr. \<exists>p. fmlookup (pd_discovered_peers d) addr = Some p \<and> addr |\<notin>| pd_connected_peers d \<and>
                     \<not> dp_is_stale t p (dc_stale_threshold config)}"
  have walk: "set (iteration (pd_discovered_peers d)) = fset (fmdom (pd_discovered_peers d))"
      "distinct (iteration (pd_discovered_peers d))"
    using assms(2) by (simp_all add: walks_def)
  have "set all = ?fresh" by (auto simp: all_def walk config fmlookup_dom_iff split: option.splits)
  moreover have "distinct all" using walk by (simp add: all_def)
  ultimately have card: "length all = card ?fresh" using distinct_card [of all] by simp
  have cand: "get_discovery_candidates iteration t d n = take n all" by (simp add: get_discovery_candidates_def all_def)
  show ?thesis
    using wf card \<open>set all = ?fresh\<close> \<open>distinct all\<close> set_take_subset [of n all]
    by (auto simp: discovery_wf_def config cand Let_def)
qed

definition sample_discovery_config :: DiscoveryConfig where
  "sample_discovery_config = DiscoveryConfig_default
     \<lparr>dc_bootstrap_peers := [V4 (bytes_fill 1) 9000, V4 (bytes_fill 2) 9000], dc_max_peers := 0\<rparr>"

text \<open>A walk exists: the keys of a finite map can be listed.\<close>

lemma walks_exists: "\<exists>iteration :: ('k, 'v) hashmap \<Rightarrow> 'k list. walks iteration"
proof -
  have "\<exists>ks. set ks = fset (fmdom m) \<and> distinct ks" for m :: "('k, 'v) hashmap"
    using finite_distinct_list [OF finite_fset [of "fmdom m"]] by blast
  then show ?thesis unfolding walks_def by metis
qed

theorem discovery_bounded_witness:
  "discovered_count (fst (discovery_add_peer 20 (V4 (bytes_fill 3) 9000) Manual (PeerDiscovery_new 10 sample_discovery_config))) \<le> 2"
proof -
  obtain iteration :: "(SocketAddr, DiscoveredPeer) hashmap \<Rightarrow> SocketAddr list" where walk: "walks iteration"
    using walks_exists by blast
  have "discovery_step\<^sup>*\<^sup>* (PeerDiscovery_new 10 sample_discovery_config)
      (fst (discovery_add_peer 20 (V4 (bytes_fill 3) 9000) Manual (PeerDiscovery_new 10 sample_discovery_config)))"
    by (rule r_into_rtranclp) (rule discovery_step.add)
  from discovery_bounded [OF this walk, THEN conjunct1] show ?thesis
    by (simp add: sample_discovery_config_def card_insert_if)
qed

end
