(* ===== verification/Transport.thy ===== *)
theory Transport
  imports Peer
begin

text \<open>
  \<open>network/src/transport.rs\<close>: the framing of messages on a connection and the bookkeeping of
  connections. A TCP stream is a queue of bytes in each direction: what one end writes the other
  end reads in order, and a read that finds too few bytes times out. Binding, accepting and the
  tasks around them are input and output of the system and are not modelled.
\<close>

section \<open>Data\<close>

record TransportConfig =
  tc_listen_addr :: SocketAddr
  tc_connection_timeout :: u64
  tc_max_message_size :: nat
  tc_rate_limit :: u32

text \<open>\<open>0.0.0.0:9000\<close>\<close>

definition TransportConfig_default :: TransportConfig where
  "TransportConfig_default =
     \<lparr>tc_listen_addr = V4 (bytes_fill 0) 9000, tc_connection_timeout = 30, tc_max_message_size = 10 * 1024 * 1024,
      tc_rate_limit = 100\<rparr>"

record Connection =
  cn_incoming :: "u8 list"
  cn_outgoing :: "u8 list"
  cn_addr :: SocketAddr
  cn_direction :: ConnectionDirection
  cn_timeout :: u64
  cn_max_message_size :: nat

record Transport =
  tr_config :: TransportConfig
  tr_connections :: "Connection list"

record TransportStats =
  ts_total_connections :: nat
  ts_inbound_connections :: nat
  ts_outbound_connections :: nat
  ts_bytes_sent :: u64
  ts_bytes_received :: u64

record MessageFrame =
  mf_version :: u8
  mf_flags :: u8
  mf_payload_length :: u32
  mf_payload :: "u8 list"

section \<open>Connections\<close>

definition Connection_new :: "SocketAddr \<Rightarrow> ConnectionDirection \<Rightarrow> u64 \<Rightarrow> nat \<Rightarrow> Connection" where
  "Connection_new addr direction timeout max_message_size =
     \<lparr>cn_incoming = [], cn_outgoing = [], cn_addr = addr, cn_direction = direction, cn_timeout = timeout,
      cn_max_message_size = max_message_size\<rparr>"

definition encode_message :: "'z network_codecs_scheme \<Rightarrow> Message \<Rightarrow> u8 list outcome" where
  "encode_message N m = map_err SerializationError (fst (message_codec N) m)"

definition decode_message :: "'z network_codecs_scheme \<Rightarrow> u8 list \<Rightarrow> Message outcome" where
  "decode_message N data = map_err DeserializationError (snd (message_codec N) data)"

definition send_message :: "'z network_codecs_scheme \<Rightarrow> Message \<Rightarrow> Connection \<Rightarrow> Connection \<times> unit outcome" where
  "send_message N m c =
     (case encode_message N m of
        Err e \<Rightarrow> (c, Err e)
      | Panic msg \<Rightarrow> (c, Panic msg)
      | Ok data \<Rightarrow>
          if cn_max_message_size c < length data then (c, Err (NetworkError ''Message exceeds maximum size''))
          else let len_bytes = to_be_bytes (of_nat (length data) :: u32)
               in (c\<lparr>cn_outgoing := cn_outgoing c @ len_bytes @ data\<rparr>, Ok ()))"

text \<open>\<open>read_exact\<close> with a timeout: the bytes, or the error of a timeout.\<close>

definition read_exact :: "nat \<Rightarrow> Connection \<Rightarrow> Connection \<times> u8 list outcome" where
  "read_exact n c =
     (if n \<le> length (cn_incoming c) then (c\<lparr>cn_incoming := drop n (cn_incoming c)\<rparr>, Ok (take n (cn_incoming c)))
      else (c\<lparr>cn_incoming := []\<rparr>, Err (NetworkError ''Read timeout'')))"

definition receive_message :: "'z network_codecs_scheme \<Rightarrow> Connection \<Rightarrow> Connection \<times> Message outcome" where
  "receive_message N c =
     (case read_exact 4 c of
        (c, Err e) \<Rightarrow> (c, Err e)
      | (c, Panic m) \<Rightarrow> (c, Panic m)
      | (c, Ok len_bytes) \<Rightarrow>
          let len = unat (from_be_bytes len_bytes :: u32) in
          if cn_max_message_size c < len then (c, Err (NetworkError ''Message exceeds maximum size''))
          else case read_exact len c of
                 (c, Err e) \<Rightarrow> (c, Err e)
               | (c, Panic m) \<Rightarrow> (c, Panic m)
               | (c, Ok data) \<Rightarrow> (c, decode_message N data))"

section \<open>The transport\<close>

definition Transport_new :: "TransportConfig \<Rightarrow> Transport outcome" where
  "Transport_new config = Ok \<lparr>tr_config = config, tr_connections = []\<rparr>"

definition handle_inbound_connection :: "SocketAddr \<Rightarrow> Transport \<Rightarrow> Transport \<times> unit outcome" where
  "handle_inbound_connection addr t =
     (let connection = Connection_new addr Inbound (tc_connection_timeout (tr_config t)) (tc_max_message_size (tr_config t))
      in (t\<lparr>tr_connections := tr_connections t @ [connection]\<rparr>, Ok ()))"

text \<open>\<open>dialled\<close> is what the attempt to open the stream yields, a timeout or a system error included.\<close>

definition transport_connect ::
  "unit outcome \<Rightarrow> PeerId \<Rightarrow> Timestamp \<Rightarrow> Timestamp \<Rightarrow> SocketAddr \<Rightarrow> Transport \<Rightarrow> Transport \<times> Peer outcome" where
  "transport_connect dialled fresh_id now now' addr t =
     (case dialled of
        Err e \<Rightarrow> (t, Err e)
      | Panic m \<Rightarrow> (t, Panic m)
      | Ok _ \<Rightarrow>
          let connection = Connection_new addr Outbound (tc_connection_timeout (tr_config t)) (tc_max_message_size (tr_config t));
              peer = Peer_new now fresh_id addr Outbound 1 ''voting-network''
          in (t\<lparr>tr_connections := tr_connections t @ [connection]\<rparr>, Ok (mark_connected now' peer)))"

definition transport_stop :: "Transport \<Rightarrow> Transport \<times> unit outcome" where
  "transport_stop t = (t\<lparr>tr_connections := []\<rparr>, Ok ())"

definition connection_count :: "Transport \<Rightarrow> nat" where
  "connection_count t = length (tr_connections t)"

definition transport_get_stats :: "Transport \<Rightarrow> TransportStats" where
  "transport_get_stats t =
     (let inbound = length (filter (\<lambda>c. cn_direction c = Inbound) (tr_connections t));
          outbound = length (tr_connections t) - inbound
      in \<lparr>ts_total_connections = length (tr_connections t), ts_inbound_connections = inbound,
          ts_outbound_connections = outbound, ts_bytes_sent = 0, ts_bytes_received = 0\<rparr>)"

section \<open>Frames\<close>

definition FRAME_VERSION :: u8 where
  "FRAME_VERSION = 1"

definition MessageFrame_new :: "u8 list \<Rightarrow> MessageFrame" where
  "MessageFrame_new payload =
     \<lparr>mf_version = FRAME_VERSION, mf_flags = 0, mf_payload_length = of_nat (length payload), mf_payload = payload\<rparr>"

definition frame_encode :: "MessageFrame \<Rightarrow> u8 list" where
  "frame_encode f = [mf_version f, mf_flags f] @ to_be_bytes (mf_payload_length f) @ mf_payload f"

definition frame_decode :: "u8 list \<Rightarrow> MessageFrame outcome" where
  "frame_decode data =
     (if length data < 6 then Err (NetworkError ''Frame too short'')
      else if data ! 0 \<noteq> FRAME_VERSION then Err (NetworkError ''Unsupported protocol version'')
      else let flags = data ! 1;
               payload_length = from_be_bytes [data ! 2, data ! 3, data ! 4, data ! 5] :: u32
           in if length data < 6 + unat payload_length then Err (NetworkError ''Incomplete frame'')
              else Ok \<lparr>mf_version = data ! 0, mf_flags = flags, mf_payload_length = payload_length,
                       mf_payload = take (unat payload_length) (drop 6 data)\<rparr>)"

section \<open>Facts\<close>

lemma frame_header:
  "length (to_be_bytes (w :: u32)) = 4" "from_be_bytes (to_be_bytes (w :: u32)) = w"
  by (simp_all add: from_to_be_bytes)

lemma stats_total:
  "ts_inbound_connections (transport_get_stats t) + ts_outbound_connections (transport_get_stats t) = connection_count t"
  by (simp add: transport_get_stats_def connection_count_def Let_def)

lemma read_exact_append:
  "cn_incoming c = a @ b \<Longrightarrow> length a = n \<Longrightarrow> read_exact n c = (c\<lparr>cn_incoming := b\<rparr>, Ok a)"
  by (auto simp: read_exact_def)

text \<open>One message on the wire, followed by anything.\<close>

lemma receive_sent:
  assumes "codec_laws (message_codec N)" and "fst (message_codec N) m = Ok data"
    and "length data \<le> cn_max_message_size c" and "length data < 2 ^ 32"
    and "cn_incoming c = to_be_bytes (of_nat (length data) :: u32) @ data @ rest"
  shows "receive_message N c = (c\<lparr>cn_incoming := rest\<rparr>, Ok m)"
proof -
  let ?hd = "to_be_bytes (of_nat (length data) :: u32)"
  have "read_exact 4 c = (c\<lparr>cn_incoming := data @ rest\<rparr>, Ok ?hd)"
    using assms(5) by (rule read_exact_append) (simp add: frame_header)
  moreover have "read_exact (length data) (c\<lparr>cn_incoming := data @ rest\<rparr>) = (c\<lparr>cn_incoming := rest\<rparr>, Ok data)"
    using read_exact_append [of "c\<lparr>cn_incoming := data @ rest\<rparr>" data rest "length data"] by simp
  moreover have "decode_message N data = Ok m" using assms(1,2) by (simp add: decode_message_def codec_laws_def)
  ultimately show ?thesis
    using assms(3,4) by (simp add: receive_message_def frame_header unat_of_nat_u32 Let_def)
qed

definition send_all :: "'z network_codecs_scheme \<Rightarrow> Message list \<Rightarrow> Connection \<Rightarrow> Connection" where
  "send_all N ms c = fold (\<lambda>m c. fst (send_message N m c)) ms c"

fun receive_all :: "'z network_codecs_scheme \<Rightarrow> nat \<Rightarrow> Connection \<Rightarrow> Connection \<times> Message outcome list" where
  "receive_all N 0 c = (c, [])"
| "receive_all N (Suc n) c =
     (let (c, r) = receive_message N c; (c, rs) = receive_all N n c in (c, r # rs))"

text \<open>The bytes of a list of messages.\<close>

definition wire :: "'z network_codecs_scheme \<Rightarrow> Message list \<Rightarrow> u8 list" where
  "wire N ms = concat (map (\<lambda>m. let data = ok_value (fst (message_codec N) m)
                                 in to_be_bytes (of_nat (length data) :: u32) @ data) ms)"

definition fits :: "'z network_codecs_scheme \<Rightarrow> nat \<Rightarrow> Message \<Rightarrow> bool" where
  "fits N n m \<longleftrightarrow> (\<exists>data. fst (message_codec N) m = Ok data \<and> length data \<le> n)"

lemma send_all_wire:
  "list_all (fits N (cn_max_message_size c)) ms \<Longrightarrow>
     cn_outgoing (send_all N ms c) = cn_outgoing c @ wire N ms"
proof (induction ms arbitrary: c)
  case (Cons m ms)
  then obtain data where d: "fst (message_codec N) m = Ok data" "length data \<le> cn_max_message_size c"
    by (auto simp: fits_def)
  let ?c = "fst (send_message N m c)"
  have c: "?c = c\<lparr>cn_outgoing := cn_outgoing c @ to_be_bytes (of_nat (length data) :: u32) @ data\<rparr>"
    using d by (simp add: send_message_def encode_message_def Let_def not_less)
  have "cn_outgoing (send_all N ms ?c) = cn_outgoing ?c @ wire N ms" by (rule Cons.IH) (use Cons.prems c in simp)
  with d c show ?case by (simp add: send_all_def wire_def Let_def)
qed (simp add: send_all_def wire_def)

lemma receive_all_wire:
  assumes "codec_laws (message_codec N)" and "list_all (fits N (cn_max_message_size c)) ms"
    and "cn_max_message_size c < 2 ^ 32" and "cn_incoming c = wire N ms @ rest"
  shows "receive_all N (length ms) c = (c\<lparr>cn_incoming := rest\<rparr>, map Ok ms)"
  using assms(2-4)
proof (induction ms arbitrary: c)
  case (Cons m ms)
  then obtain data where d: "fst (message_codec N) m = Ok data" "length data \<le> cn_max_message_size c"
    by (auto simp: fits_def)
  have "receive_message N c = (c\<lparr>cn_incoming := wire N ms @ rest\<rparr>, Ok m)"
    using Cons.prems d by (intro receive_sent [OF assms(1) d(1)]) (simp_all add: wire_def Let_def)
  with Cons.IH [of "c\<lparr>cn_incoming := wire N ms @ rest\<rparr>"] Cons.prems show ?case by (simp add: Let_def)
qed (simp add: wire_def)

text \<open>A payload of four gibibytes or more gets a length field that wraps: the frame decodes to another payload.\<close>

lemma frame_length_wraps:
  assumes "length payload = 2 ^ 32"
  shows "frame_decode (frame_encode (MessageFrame_new payload)) =
    Ok \<lparr>mf_version = FRAME_VERSION, mf_flags = 0, mf_payload_length = 0, mf_payload = []\<rparr>"
proof -
  have zero: "(of_nat (length payload) :: u32) = 0" using assms by simp
  have hd: "to_be_bytes (0 :: u32) = [0, 0, 0, 0]" by (simp add: to_be_bytes_def to_le_bytes_def upt_rec)
  moreover have "from_be_bytes [0, 0, 0, 0] = (0 :: u32)" using from_to_be_bytes [of "0 :: u32"] hd by simp
  ultimately show ?thesis by (simp add: frame_decode_def frame_encode_def MessageFrame_new_def zero FRAME_VERSION_def)
qed

section \<open>Properties\<close>

text \<open>
  C26: Messages arrive as they were sent. When decoding inverts encoding and every message of a list
  fits the limit of both ends, which is below the four gibibytes a length field can express, then
  the bytes that sending the list puts on a connection are read at the other end as exactly these
  messages, in order, and nothing is left over.
\<close>

theorem messages_arrive:
  assumes "codec_laws (message_codec N)" and "list_all (fits N (cn_max_message_size c)) ms"
    and "cn_max_message_size c \<le> cn_max_message_size c'" and "cn_max_message_size c' < 2 ^ 32"
    and "cn_outgoing c = []"
  shows "receive_all N (length ms) (c'\<lparr>cn_incoming := cn_outgoing (send_all N ms c)\<rparr>) = (c'\<lparr>cn_incoming := []\<rparr>, map Ok ms)"
proof -
  have "list_all (fits N (cn_max_message_size c')) ms"
    using assms(2,3) by (fastforce simp: list_all_iff fits_def)
  with receive_all_wire [OF assms(1), of "c'\<lparr>cn_incoming := wire N ms\<rparr>" ms "[]"] assms(4)
  show ?thesis by (simp add: send_all_wire [OF assms(2)] assms(5))
qed

definition sample_wire :: network_codecs where
  "sample_wire = sample_network\<lparr>message_codec :=
     (\<lambda>m. if m = message_ping (1, 2) then Ok [42] else Err ''unknown'',
      \<lambda>bs. if bs = [42] then Ok (message_ping (1, 2)) else Err ''unknown'')\<rparr>"

definition sample_connection :: Connection where
  "sample_connection = Connection_new (V4 (bytes_fill 127) 9000) Outbound 30 1000"

theorem messages_arrive_witness:
  "receive_all sample_wire 2 (sample_connection\<lparr>cn_incoming :=
       cn_outgoing (send_all sample_wire [message_ping (1, 2), message_ping (1, 2)] sample_connection)\<rparr>) =
   (sample_connection\<lparr>cn_incoming := []\<rparr>, [Ok (message_ping (1, 2)), Ok (message_ping (1, 2))])"
proof -
  have "codec_laws (message_codec sample_wire)" by (auto simp: codec_laws_def sample_wire_def)
  moreover have "list_all (fits sample_wire (cn_max_message_size sample_connection)) [message_ping (1, 2), message_ping (1, 2)]"
    by (simp add: fits_def sample_wire_def sample_connection_def Connection_new_def)
  moreover have "cn_max_message_size sample_connection < 2 ^ 32" "cn_outgoing sample_connection = []"
    by (simp_all add: sample_connection_def Connection_new_def)
  ultimately have "receive_all sample_wire (length [message_ping (1, 2), message_ping (1, 2)])
      (sample_connection\<lparr>cn_incoming :=
        cn_outgoing (send_all sample_wire [message_ping (1, 2), message_ping (1, 2)] sample_connection)\<rparr>) =
      (sample_connection\<lparr>cn_incoming := []\<rparr>, map Ok [message_ping (1, 2), message_ping (1, 2)])"
    by (intro messages_arrive) simp_all
  then show ?thesis by (simp add: numeral_2_eq_2)
qed

text \<open>
  A frame carries its payload. Decoding inverts encoding for every payload below four gibibytes,
  whatever follows the frame; and no byte string makes \<open>decode\<close> panic: shorter than the header, of
  another version or shorter than announced gives the error that says so.
\<close>

theorem frame_roundtrip:
  "(length payload < 2 ^ 32 \<longrightarrow> frame_decode (frame_encode (MessageFrame_new payload) @ rest) = Ok (MessageFrame_new payload)) \<and>
   (frame_decode data = Err (NetworkError ''Frame too short'') \<longleftrightarrow> length data < 6) \<and>
   (frame_decode data = Err (NetworkError ''Unsupported protocol version'') \<longleftrightarrow> 6 \<le> length data \<and> data ! 0 \<noteq> 1) \<and>
   (frame_decode data = Err (NetworkError ''Incomplete frame'') \<longleftrightarrow> 6 \<le> length data \<and> data ! 0 = 1 \<and>
      length data < 6 + unat (from_be_bytes (take 4 (drop 2 data)) :: u32)) \<and>
   (is_ok (frame_decode data) \<or> is_err (frame_decode data))"
proof -
  have header: "[data ! 2, data ! 3, data ! 4, data ! 5] = take 4 (drop 2 data)" if "6 \<le> length data" for data :: "u8 list"
  proof -
    have "take 4 (drop 2 data) = map (\<lambda>i. data ! (2 + i)) [0..<4]" using that by (intro nth_equalityI) auto
    then show ?thesis by (simp add: upt_rec numeral_eq_Suc)
  qed
  have "frame_decode (frame_encode (MessageFrame_new payload) @ rest) = Ok (MessageFrame_new payload)"
    if small: "length payload < 2 ^ 32"
  proof -
    let ?w = "of_nat (length payload) :: u32"
    let ?data = "frame_encode (MessageFrame_new payload) @ rest"
    have data: "?data = 1 # 0 # to_be_bytes ?w @ payload @ rest"
      by (simp add: frame_encode_def MessageFrame_new_def FRAME_VERSION_def)
    have long: "6 \<le> length ?data" by (simp add: data)
    have "take 4 (drop 2 ?data) = to_be_bytes ?w" "drop 6 ?data = payload @ rest" by (simp_all add: data)
    then have "from_be_bytes (take 4 (drop 2 ?data)) = ?w" "take (unat ?w) (drop 6 ?data) = payload"
      using unat_of_nat_u32 [OF small] by (simp_all add: frame_header)
    moreover have "?data ! 0 = 1" "?data ! 1 = 0" "\<not> length ?data < 6 + unat ?w"
      using unat_of_nat_u32 [OF small] by (simp_all add: data)
    ultimately show ?thesis
      using long by (simp only: frame_decode_def header [OF long] Let_def)
        (simp add: MessageFrame_new_def FRAME_VERSION_def not_less)
  qed
  then show ?thesis
    by (auto simp: frame_decode_def FRAME_VERSION_def Let_def header [symmetric])
qed

theorem frame_roundtrip_witness:
  "frame_decode (frame_encode (MessageFrame_new [7, 8, 9]) @ [1]) = Ok (MessageFrame_new [7, 8, 9])"
  using frame_roundtrip [of "[7, 8, 9]" "[1]" "[]"] by simp

end
