(* ===== verification/Network_Manager.thy ===== *)
theory Network_Manager
  imports Gossip Sync Discovery Transport
begin

text \<open>
  \<open>network/src/lib.rs\<close>: the manager that owns the transport, the peers and the protocols, and hands
  the peers to them. What the system does when an address is dialled is the argument \<open>dialled\<close>; the
  state of the listener is not modelled, so that \<open>start\<close> takes the outcome of binding it.
\<close>

section \<open>Data\<close>

record NetworkConfig =
  nc_listen_addr :: SocketAddr
  nc_bootstrap_peers :: "SocketAddr list"
  nc_max_peers :: nat
  nc_max_inbound :: nat
  nc_max_outbound :: nat
  nc_connection_timeout :: u64
  nc_enable_discovery :: bool
  nc_discovery_interval :: u64
  nc_network_id :: string
  nc_protocol_version :: u32
  nc_enable_gossip :: bool
  nc_gossip_fanout :: nat
  nc_sync_batch_size :: u64
  nc_max_message_size :: nat
  nc_rate_limit :: u32

record NetworkManager =
  nm_config :: NetworkConfig
  nm_transport :: Transport
  nm_peers :: "Peer list"
  nm_discovery :: PeerDiscovery
  nm_gossip :: GossipProtocol
  nm_sync :: BlockSync
  nm_protocol :: ProtocolHandler

record NetworkStats =
  ns_peer_count :: nat
  ns_inbound_count :: nat
  ns_outbound_count :: nat
  ns_messages_sent :: u64
  ns_messages_received :: u64
  ns_bytes_sent :: u64
  ns_bytes_received :: u64

definition NetworkConfig_default :: NetworkConfig where
  "NetworkConfig_default =
     \<lparr>nc_listen_addr = V4 (bytes_fill 0) 9000, nc_bootstrap_peers = [], nc_max_peers = 50, nc_max_inbound = 25,
      nc_max_outbound = 25, nc_connection_timeout = 30, nc_enable_discovery = True, nc_discovery_interval = 60,
      nc_network_id = ''voting-mainnet'', nc_protocol_version = 1, nc_enable_gossip = True, nc_gossip_fanout = 4,
      nc_sync_batch_size = 100, nc_max_message_size = 10 * 1024 * 1024, nc_rate_limit = 100\<rparr>"

section \<open>Operations\<close>

definition NetworkManager_new :: "Timestamp \<Rightarrow> NetworkConfig \<Rightarrow> NetworkManager outcome" where
  "NetworkManager_new now config =
     (let transport_config = \<lparr>tc_listen_addr = nc_listen_addr config, tc_connection_timeout = nc_connection_timeout config,
            tc_max_message_size = nc_max_message_size config, tc_rate_limit = nc_rate_limit config\<rparr>
      in rbind (Transport_new transport_config) (\<lambda>transport.
           let discovery_config = \<lparr>dc_bootstrap_peers = nc_bootstrap_peers config,
                 dc_discovery_interval = nc_discovery_interval config, dc_max_peers = nc_max_peers config,
                 dc_max_peers_per_query = 20, dc_advertisement_interval = 300, dc_stale_threshold = 3600\<rparr>
           in Ok \<lparr>nm_config = config, nm_transport = transport, nm_peers = [],
                  nm_discovery = PeerDiscovery_new now discovery_config,
                  nm_gossip = GossipProtocol_new (nc_gossip_fanout config),
                  nm_sync = BlockSync_new (nc_sync_batch_size config),
                  nm_protocol = ProtocolHandler_new (nc_network_id config) (nc_protocol_version config)\<rparr>))"

text \<open>What one connection attempt draws and what the system answers.\<close>

record Dial =
  dl_outcome :: "unit outcome"
  dl_fresh_id :: PeerId
  dl_now :: Timestamp
  dl_now' :: Timestamp

definition connect_peer :: "Dial \<Rightarrow> SocketAddr \<Rightarrow> NetworkManager \<Rightarrow> NetworkManager \<times> PeerId outcome" where
  "connect_peer dial addr m =
     (if nc_max_peers (nm_config m) \<le> length (nm_peers m) then (m, Err (NetworkError ''Maximum peer count reached''))
      else case transport_connect (dl_outcome dial) (dl_fresh_id dial) (dl_now dial) (dl_now' dial) addr (nm_transport m) of
             (t, Err e) \<Rightarrow> (m\<lparr>nm_transport := t\<rparr>, Err e)
           | (t, Panic msg) \<Rightarrow> (m\<lparr>nm_transport := t\<rparr>, Panic msg)
           | (t, Ok peer) \<Rightarrow> (m\<lparr>nm_transport := t, nm_peers := nm_peers m @ [peer]\<rparr>, Ok (peer_id peer)))"

fun connect_bootstrap :: "(SocketAddr \<Rightarrow> Dial) \<Rightarrow> SocketAddr list \<Rightarrow> NetworkManager \<Rightarrow> NetworkManager \<times> unit outcome" where
  "connect_bootstrap dial [] m = (m, Ok ())"
| "connect_bootstrap dial (addr # rest) m =
     (case connect_peer (dial addr) addr m of
        (m, Ok _) \<Rightarrow> connect_bootstrap dial rest m
      | (m, Err e) \<Rightarrow> (m, Err e)
      | (m, Panic msg) \<Rightarrow> (m, Panic msg))"

definition on_discovery :: "(PeerDiscovery \<Rightarrow> PeerDiscovery \<times> unit outcome) \<Rightarrow> NetworkManager \<Rightarrow> NetworkManager \<times> unit outcome" where
  "on_discovery f m = (case f (nm_discovery m) of (d, r) \<Rightarrow> (m\<lparr>nm_discovery := d\<rparr>, r))"

definition on_gossip :: "(GossipProtocol \<Rightarrow> GossipProtocol \<times> unit outcome) \<Rightarrow> NetworkManager \<Rightarrow> NetworkManager \<times> unit outcome" where
  "on_gossip f m = (case f (nm_gossip m) of (g, r) \<Rightarrow> (m\<lparr>nm_gossip := g\<rparr>, r))"

definition on_sync :: "(BlockSync \<Rightarrow> BlockSync \<times> unit outcome) \<Rightarrow> NetworkManager \<Rightarrow> NetworkManager \<times> unit outcome" where
  "on_sync f m = (case f (nm_sync m) of (s, r) \<Rightarrow> (m\<lparr>nm_sync := s\<rparr>, r))"

definition on_transport :: "(Transport \<Rightarrow> Transport \<times> unit outcome) \<Rightarrow> NetworkManager \<Rightarrow> NetworkManager \<times> unit outcome" where
  "on_transport f m = (case f (nm_transport m) of (t, r) \<Rightarrow> (m\<lparr>nm_transport := t\<rparr>, r))"

definition network_start ::
  "unit outcome \<Rightarrow> (SocketAddr \<Rightarrow> Dial) \<Rightarrow> NetworkManager \<Rightarrow> NetworkManager \<times> unit outcome" where
  "network_start bound dial m =
     and_then (m, bound) (\<lambda>m _.
     and_then (if nc_enable_discovery (nm_config m) then on_discovery discovery_start m else (m, Ok ())) (\<lambda>m _.
     and_then (if nc_enable_gossip (nm_config m) then on_gossip gossip_start m else (m, Ok ())) (\<lambda>m _.
     and_then (on_sync sync_start m) (\<lambda>m _.
       connect_bootstrap dial (nc_bootstrap_peers (nm_config m)) m))))"

definition network_stop :: "NetworkManager \<Rightarrow> NetworkManager \<times> unit outcome" where
  "network_stop m =
     and_then (on_sync sync_stop m) (\<lambda>m _.
     and_then (on_gossip gossip_stop m) (\<lambda>m _.
     and_then (on_discovery discovery_stop m) (\<lambda>m _.
     and_then (on_transport transport_stop m) (\<lambda>m _. (m\<lparr>nm_peers := []\<rparr>, Ok ())))))"

definition disconnect_peer :: "PeerId \<Rightarrow> NetworkManager \<Rightarrow> NetworkManager \<times> unit outcome" where
  "disconnect_peer i m = (m\<lparr>nm_peers := remove_first (\<lambda>p. peer_id p = i) (nm_peers m)\<rparr>, Ok ())"

definition network_get_peers :: "NetworkManager \<Rightarrow> PeerInfo list" where
  "network_get_peers m = map peer_info (nm_peers m)"

definition network_peer_count :: "NetworkManager \<Rightarrow> nat" where
  "network_peer_count m = length (nm_peers m)"

text \<open>Sending to a peer cannot fail; the count is the number of connected peers.\<close>

definition broadcast :: "(nat \<Rightarrow> Timestamp) \<Rightarrow> Message \<Rightarrow> NetworkManager \<Rightarrow> NetworkManager \<times> nat outcome" where
  "broadcast sent_at message m =
     (m\<lparr>nm_peers := map (\<lambda>(k, p). if is_connected p then fst (peer_send (sent_at k) message p) else p) (enumerate 0 (nm_peers m))\<rparr>,
      Ok (length (filter (\<lambda>(k, p). is_connected p \<and> is_ok (snd (peer_send (sent_at k) message p))) (enumerate 0 (nm_peers m)))))"

fun send_first :: "Timestamp \<Rightarrow> PeerId \<Rightarrow> Message \<Rightarrow> Peer list \<Rightarrow> Peer list \<times> unit outcome" where
  "send_first now i message [] = ([], Err (NetworkError ''Peer not found''))"
| "send_first now i message (p # ps) =
     (if peer_id p = i then (case peer_send now message p of (p, r) \<Rightarrow> (p # ps, r))
      else case send_first now i message ps of (ps, r) \<Rightarrow> (p # ps, r))"

definition network_send_to_peer :: "Timestamp \<Rightarrow> PeerId \<Rightarrow> Message \<Rightarrow> NetworkManager \<Rightarrow> NetworkManager \<times> unit outcome" where
  "network_send_to_peer now i message m =
     (case send_first now i message (nm_peers m) of (ps, r) \<Rightarrow> (m\<lparr>nm_peers := ps\<rparr>, r))"

definition network_gossip ::
  "'z gossip_codecs_scheme \<Rightarrow> GossipDraws \<Rightarrow> GossipMessage \<Rightarrow> NetworkManager \<Rightarrow> NetworkManager \<times> nat outcome" where
  "network_gossip N d message m =
     (case gossip N d message (nm_gossip m) (nm_peers m) of (g, peers, r) \<Rightarrow> (m\<lparr>nm_gossip := g, nm_peers := peers\<rparr>, r))"

definition sync_blocks ::
  "'z network_codecs_scheme \<Rightarrow> SyncDraws \<Rightarrow> BlockHeight \<Rightarrow> BlockHeight \<Rightarrow> NetworkManager \<Rightarrow>
   (NetworkManager \<times> unit outcome) option" where
  "sync_blocks N d start_h end_h m =
     map_option (\<lambda>(s, peers, r). (m\<lparr>nm_sync := s, nm_peers := peers\<rparr>, r))
       (request_blocks N d start_h end_h (nm_sync m) (nm_peers m))"

definition network_sync_status :: "Timestamp \<Rightarrow> Timestamp \<Rightarrow> NetworkManager \<Rightarrow> SyncStatus" where
  "network_sync_status now now' m = sync_status now now' (nm_sync m)"

definition handle_message :: "'z network_codecs_scheme \<Rightarrow> Message \<Rightarrow> NetworkManager \<Rightarrow> unit outcome" where
  "handle_message N message m = handle N (nm_protocol m) message"

definition network_get_stats :: "NetworkManager \<Rightarrow> NetworkStats" where
  "network_get_stats m =
     \<lparr>ns_peer_count = 0, ns_inbound_count = 0, ns_outbound_count = 0, ns_messages_sent = 0, ns_messages_received = 0,
      ns_bytes_sent = 0, ns_bytes_received = 0\<rparr>"

section \<open>Facts\<close>

text \<open>The statistics are constant zeros, whatever the network does.\<close>

lemma network_stats_constant: "network_get_stats m = network_get_stats m'"
  by (simp add: network_get_stats_def)

lemma connect_peer_cases:
  assumes "connect_peer dial addr m = (m', r)"
  shows "nm_config m' = nm_config m" and "length (nm_peers m) \<le> nc_max_peers (nm_config m) \<Longrightarrow> length (nm_peers m') \<le> nc_max_peers (nm_config m')"
    and "is_ok r \<longleftrightarrow> nm_peers m' \<noteq> nm_peers m"
    and "is_ok r \<Longrightarrow> \<exists>p. nm_peers m' = nm_peers m @ [p] \<and> is_connected p \<and> peer_addr p = addr \<and> r = Ok (peer_id p)"
  using assms
  by (auto simp: connect_peer_def transport_connect_def Let_def mark_connected_def is_connected_def peer_addr_def Peer_new_def
      peer_id_def split: if_splits result.splits prod.splits)

text \<open>Stopping leaves no peer, no connection and nothing running.\<close>

lemma network_stop_state:
  assumes "network_stop m = (m', r)"
  shows "r = Ok ()" "nm_peers m' = []" "connection_count (nm_transport m') = 0"
    "\<not> bsy_running (nm_sync m')" "\<not> gp_running (nm_gossip m')" "\<not> pd_running (nm_discovery m')"
  using assms
  by (auto simp: network_stop_def on_sync_def on_gossip_def on_discovery_def on_transport_def sync_stop_def gossip_stop_def
      discovery_stop_def transport_stop_def connection_count_def)

lemma broadcast_effect:
  assumes "broadcast sent_at message m = (m', r)"
  shows "r = Ok (length (filter is_connected (nm_peers m)))" and "length (nm_peers m') = length (nm_peers m)"
    and "k < length (nm_peers m) \<Longrightarrow> peer_queue (nm_peers m' ! k) =
      peer_queue (nm_peers m ! k) @ (if is_connected (nm_peers m ! k) then [message] else [])"
proof -
  have "length (filter (\<lambda>(k, p). is_connected p) (enumerate n ps)) = length (filter is_connected ps)" for n and ps :: "Peer list"
    by (induction ps arbitrary: n) (auto simp: enumerate_simps)
  with assms show "r = Ok (length (filter is_connected (nm_peers m)))" by (auto simp: broadcast_def split_def cong: filter_cong)
  show "length (nm_peers m') = length (nm_peers m)" using assms by (auto simp: broadcast_def)
  show "k < length (nm_peers m) \<Longrightarrow> peer_queue (nm_peers m' ! k) =
      peer_queue (nm_peers m ! k) @ (if is_connected (nm_peers m ! k) then [message] else [])"
    using assms by (auto simp: broadcast_def nth_enumerate_eq)
qed

end
