(* ===== verification/Node.thy ===== *)
theory Node
  imports Config Proof_Of_Authority Crypto Storage_Manager Network_Manager
begin

text \<open>
  \<open>node/src/lib.rs\<close>: what the three kinds of node share, that is status, statistics, components and
  the conversion of the settings. What a node takes from outside is one record, \<open>node_externals\<close>:
  the parameters of the crates below, reading files, parsing and opening. A method on \<open>&self\<close> with
  locks inside is a function on the state of the node.
\<close>

section \<open>The outside\<close>

record ('d, 'b, 'h, 't, 's) node_externals =
  nx_chain :: block_store_externals
  nx_storage :: storage_externals
  nx_crypto :: crypto_externals
  nx_codecs :: network_codecs
  nx_database :: "'d Database"
  nx_lrus :: "('b, 'h, 't, 's) cache_lrus"
  nx_open_db :: "string \<Rightarrow> 'd outcome"
  nx_read_to_string :: "string \<Rightarrow> (string, string) result"
  nx_genesis_from_str :: "string \<Rightarrow> (GenesisBlock, string) result"
  nx_load_key :: "string \<Rightarrow> KeyPair outcome"
  nx_parse_addr :: "string \<Rightarrow> (SocketAddr, string) result"

text \<open>The readings of the clock while a node starts.\<close>

record StartClock =
  ck_chain :: Timestamp
  ck_storage :: Timestamp
  ck_network :: Timestamp
  ck_validators :: Timestamp
  ck_started :: Timestamp

section \<open>Data\<close>

record NodeStatus =
  nst_node_type :: NodeType
  nst_is_running :: bool
  nst_is_syncing :: bool
  nst_current_height :: BlockHeight
  nst_best_hash :: BlockHash
  nst_peer_count :: nat
  nst_uptime :: u64
  nst_started_at :: "Timestamp option"

record NodeStats =
  nss_blocks_processed :: u64
  nss_transactions_processed :: u64
  nss_votes_verified :: u64
  nss_blocks_produced :: u64
  nss_blocks_validated :: u64
  nss_network_messages_sent :: u64
  nss_network_messages_received :: u64

record ('d, 'b, 'h, 't, 's) NodeComponents =
  nco_blockchain :: Blockchain
  nco_storage :: "('d, 'b, 'h, 't, 's) StorageManager"
  nco_network :: NetworkManager

definition NodeStats_default :: NodeStats where
  "NodeStats_default =
     \<lparr>nss_blocks_processed = 0, nss_transactions_processed = 0, nss_votes_verified = 0, nss_blocks_produced = 0,
      nss_blocks_validated = 0, nss_network_messages_sent = 0, nss_network_messages_received = 0\<rparr>"

definition best_hash_of :: "Blockchain \<Rightarrow> BlockHash" where
  "best_hash_of c = (case get_best_block c of Ok b \<Rightarrow> Block_hash b | _ \<Rightarrow> BlockHash_zero)"

definition components_current_height :: "('d, 'b, 'h, 't, 's) NodeComponents \<Rightarrow> BlockHeight" where
  "components_current_height c = bc_height (nco_blockchain c)"

definition components_best_hash :: "('d, 'b, 'h, 't, 's) NodeComponents \<Rightarrow> BlockHash" where
  "components_best_hash c = best_hash_of (nco_blockchain c)"

section \<open>Starting the components\<close>

definition storage_config_of :: "NodeConfig \<Rightarrow> StorageConfig" where
  "storage_config_of config =
     \<lparr>sgc_data_dir = csc_data_dir (ncf_storage config), sgc_blockchain_path = csc_blockchain_db_path (ncf_storage config),
      sgc_state_path = csc_state_db_path (ncf_storage config), sgc_block_cache_capacity = 1000, sgc_tx_cache_capacity = 10000,
      sgc_state_cache_capacity = 5000, sgc_enable_compression = csc_enable_compression (ncf_storage config),
      sgc_enable_pruning = csc_enable_pruning (ncf_storage config),
      sgc_pruning_retention_days = csc_pruning_days (ncf_storage config),
      sgc_max_db_size = Some (1024 * 1024 * 1024 * 100), sgc_sync_mode = Normal\<rparr>"

definition network_config_of :: "NodeConfig \<Rightarrow> NetworkConfig" where
  "network_config_of config =
     NetworkConfig_default\<lparr>nc_bootstrap_peers := cnc_bootstrap_peers (ncf_network config),
       nc_max_inbound := cnc_max_peers (ncf_network config) div 2, nc_max_outbound := cnc_max_peers (ncf_network config) div 2,
       nc_connection_timeout := cnc_connection_timeout (ncf_network config),
       nc_enable_discovery := cnc_enable_discovery (ncf_network config),
       nc_listen_addr := cnc_listen_addr (ncf_network config), nc_network_id := cnc_network_id (ncf_network config)\<rparr>"

definition read_genesis :: "('d, 'b, 'h, 't, 's) node_externals \<Rightarrow> NodeConfig \<Rightarrow> GenesisBlock outcome" where
  "read_genesis X config =
     (case ncf_genesis_path config of
        None \<Rightarrow> Err (ConfigError ''Genesis path required'')
      | Some genesis_path \<Rightarrow> from_file (nx_read_to_string X) (nx_genesis_from_str X) genesis_path)"

text \<open>The chain, the storage and the network of a full node or a validator.\<close>

definition make_components ::
  "('d, 'b, 'h, 't, 's) node_externals \<Rightarrow> StartClock \<Rightarrow> NodeConfig \<Rightarrow> GenesisBlock \<Rightarrow>
   ('d, 'b, 'h, 't, 's) NodeComponents outcome" where
  "make_components X clock config genesis =
     rbind (Blockchain_new (nx_chain X) (ck_chain clock) genesis) (\<lambda>blockchain.
     rbind (StorageManager_new (nx_chain X) (nx_storage X) (nx_database X) (nx_lrus X) (nx_open_db X) (ck_storage clock)
        (storage_config_of config)) (\<lambda>storage.
     rbind (NetworkManager_new (ck_network clock) (network_config_of config)) (\<lambda>network.
       Ok \<lparr>nco_blockchain = blockchain, nco_storage = storage, nco_network = network\<rparr>)))"

definition uptime_of :: "Timestamp \<Rightarrow> Timestamp option \<Rightarrow> u64" where
  "uptime_of now started_at = (case started_at of Some start \<Rightarrow> saturating_sub now start | None \<Rightarrow> 0)"

text \<open>The status of a full node or a validator: of the components if there are any.\<close>

definition components_status ::
  "Timestamp \<Rightarrow> Timestamp \<Rightarrow> Timestamp \<Rightarrow> NodeType \<Rightarrow> bool \<Rightarrow> Timestamp option \<Rightarrow>
   ('d, 'b, 'h, 't, 's) NodeComponents option \<Rightarrow> NodeStatus" where
  "components_status now1 now2 now t running started_at components =
     (let (current_height, best_hash, peer_count, is_syncing) =
        (case components of
           Some c \<Rightarrow> (bc_height (nco_blockchain c), best_hash_of (nco_blockchain c), network_peer_count (nco_network c),
             status_is_syncing (network_sync_status now1 now2 (nco_network c)))
         | None \<Rightarrow> (0, BlockHash_zero, 0, False))
      in \<lparr>nst_node_type = t, nst_is_running = running, nst_is_syncing = is_syncing, nst_current_height = current_height,
          nst_best_hash = best_hash, nst_peer_count = peer_count, nst_uptime = uptime_of now started_at,
          nst_started_at = started_at\<rparr>)"

section \<open>Facts\<close>

lemma make_components_chain:
  "make_components X clock config genesis = Ok c \<Longrightarrow> Blockchain_new (nx_chain X) (ck_chain clock) genesis = Ok (nco_blockchain c)"
  by (auto simp: make_components_def outcome_simps)

lemma read_genesis_valid: "read_genesis X config = Ok g \<Longrightarrow> GenesisBlock_validate g = Ok ()"
  by (auto simp: read_genesis_def from_file_def outcome_simps split: option.splits)

text \<open>The best hash of a chain with blocks is the hash of the last one.\<close>

lemma best_hash_last: "bc_blocks c \<noteq> [] \<Longrightarrow> best_hash_of c = Block_hash (last (bc_blocks c))"
  by (simp add: best_hash_of_def get_best_block_def vec_last_def)

section \<open>The contract of a node\<close>

text \<open>
  The trait \<open>Node\<close>, as far as starting and stopping goes: a node that runs cannot be started, one that
  does not run cannot be stopped, and each leaves the node running or not accordingly.
\<close>

locale node_lifecycle =
  fixes running :: "'n \<Rightarrow> bool"
    and start :: "'n \<Rightarrow> 'n \<times> unit outcome"
    and stop :: "'n \<Rightarrow> 'n \<times> unit outcome"
  assumes start_running: "running n \<Longrightarrow> start n = (n, Err NodeAlreadyRunning)"
    and start_Ok: "start n = (n', Ok ()) \<Longrightarrow> running n'"
    and start_failed: "start n = (n', r) \<Longrightarrow> r \<noteq> Ok () \<Longrightarrow> running n' = running n"
    and stop_stopped: "\<not> running n \<Longrightarrow> stop n = (n, Err NodeNotRunning)"
    and stop_stops: "running n \<Longrightarrow> stop n = (n', r) \<Longrightarrow> \<not> running n' \<and> r = Ok ()"
begin

lemma stop_after_start: "start n = (n1, Ok ()) \<Longrightarrow> stop n1 = (n2, r) \<Longrightarrow> r = Ok () \<and> \<not> running n2"
  using start_Ok stop_stops by blast

lemma start_twice: "start n = (n1, Ok ()) \<Longrightarrow> start n1 = (n1, Err NodeAlreadyRunning)"
  using start_Ok start_running by blast

lemma stop_twice: "running n \<Longrightarrow> stop n = (n1, r) \<Longrightarrow> stop n1 = (n1, Err NodeNotRunning)"
  using stop_stops stop_stopped by blast

end

section \<open>A sample outside\<close>

text \<open>Every file holds the same genesis, every database is empty and in memory.\<close>

type_synonym sample_block_lru = "nat \<times> (BlockHash \<times> u8 list) list"
type_synonym sample_height_lru = "nat \<times> (BlockHeight \<times> BlockHash) list"
type_synonym sample_tx_lru = "nat \<times> (TxId \<times> u8 list) list"
type_synonym sample_state_lru = "nat \<times> (u8 list \<times> u8 list) list"

definition sample_node_env ::
  "(MemoryDatabase, sample_block_lru, sample_height_lru, sample_tx_lru, sample_state_lru) node_externals" where
  "sample_node_env =
     \<lparr>nx_chain = sample_block_env, nx_storage = sample_storage, nx_crypto = sample_crypto, nx_codecs = sample_network,
      nx_database = memory_database sorted_walk, nx_lrus = sample_lrus, nx_open_db = (\<lambda>path. Ok MemoryDatabase_new),
      nx_read_to_string = Ok, nx_genesis_from_str = (\<lambda>text. Ok (GenesisBlock_new [sample_key 1] 1000)),
      nx_load_key = (\<lambda>path. Ok (KeyPair_generate sample_crypto (bytes_fill 1))),
      nx_parse_addr = (\<lambda>text. Ok (V4 (bytes_fill 0) 9000))\<rparr>"

definition sample_clock :: StartClock where
  "sample_clock = \<lparr>ck_chain = 0, ck_storage = 0, ck_network = 0, ck_validators = 0, ck_started = 0\<rparr>"

definition sample_node_config :: NodeConfig where
  "sample_node_config = NodeConfig_default\<lparr>ncf_genesis_path := Some ''genesis.json'', ncf_validator_key_path := Some ''key''\<rparr>"

lemma sample_storage_new:
  "\<exists>s. StorageManager_new sample_block_env sample_storage (memory_database sorted_walk) sample_lrus (\<lambda>path. Ok MemoryDatabase_new) 0
     (storage_config_of config) = Ok s"
proof -
  obtain t where t: "StateStore_new sample_storage (memory_database sorted_walk) MemoryDatabase_new = (t, Ok ())"
    using memory_store_new [OF walks_sorted_walk sample_storage_laws(1)] by metis
  obtain b where b: "BlockchainStore_new sample_block_env (memory_database sorted_walk) 0 MemoryDatabase_new = Ok b"
    by (simp add: BlockchainStore_new_def load_metadata_def read_decoded_def memory_database_def mem_get_def MemoryDatabase_new_def)
  show ?thesis by (simp add: StorageManager_new_def b t Cache_new_def SnapshotManager_new_def storage_config_of_def)
qed

lemma sample_make_components:
  "\<exists>c. make_components sample_node_env sample_clock config (GenesisBlock_new [sample_key 1] 1000) = Ok c \<and>
     nco_blockchain c = sample_chain"
  using sample_stored_new sample_storage_new [of config]
  by (auto simp: make_components_def sample_node_env_def sample_clock_def NetworkManager_new_def Transport_new_def Let_def)

lemma sample_read_genesis: "read_genesis sample_node_env sample_node_config = Ok (GenesisBlock_new [sample_key 1] 1000)"
proof -
  obtain t where t: "two_thirds_threshold = Fin t" "2 / 3 + 1 / 1000 \<le> t" "t \<le> 7 / 10"
    using two_thirds_threshold_value by blast
  have "GenesisBlock_validate (GenesisBlock_new [sample_key 1] 1000) = Ok ()"
    unfolding GenesisBlock_validate_Ok GenesisBlock_new_def GenesisConfig_default_def t(1) using t(2,3) by simp
  then show ?thesis by (simp add: read_genesis_def sample_node_config_def from_file_def sample_node_env_def)
qed

definition sample_dial :: "SocketAddr \<Rightarrow> Dial" where
  "sample_dial addr = \<lparr>dl_outcome = Ok (), dl_fresh_id = PeerId (bytes_fill 0), dl_now = 0, dl_now' = 0\<rparr>"

lemma sample_network_start:
  assumes "make_components sample_node_env sample_clock sample_node_config g = Ok c"
  shows "\<exists>m. network_start (Ok ()) sample_dial (nco_network c) = (m, Ok ())"
  using assms
  by (auto simp: make_components_def outcome_simps NetworkManager_new_def network_start_def network_config_of_def
      sample_node_config_def NodeConfig_default_def CommonNetworkConfig_default_def NetworkConfig_default_def Transport_new_def
      on_discovery_def discovery_start_def on_gossip_def gossip_start_def on_sync_def sync_start_def Let_def
      PeerDiscovery_new_def GossipProtocol_new_def BlockSync_new_def)

end
