(* ===== verification/Full_Node.thy ===== *)
theory Full_Node
  imports Node
begin

text \<open>
  \<open>node/src/full_node.rs\<close>: the node that keeps the whole chain. \<open>full_step\<close> is one call on the node;
  the invariant ties its chain to the chains of \<open>Chain\<close>.
\<close>

section \<open>Data\<close>

record ('d, 'b, 'h, 't, 's) FullNode =
  fn_config :: NodeConfig
  fn_components :: "('d, 'b, 'h, 't, 's) NodeComponents option"
  fn_running :: bool
  fn_started_at :: "Timestamp option"
  fn_stats :: NodeStats
  fn_pending_transactions :: "TxId fset"

section \<open>Operations\<close>

definition FullNode_new :: "NodeConfig \<Rightarrow> ('d, 'b, 'h, 't, 's) FullNode outcome" where
  "FullNode_new config =
     Ok \<lparr>fn_config = config, fn_components = None, fn_running = False, fn_started_at = None,
         fn_stats = NodeStats_default, fn_pending_transactions = {||}\<rparr>"

definition full_initialize ::
  "('d, 'b, 'h, 't, 's) node_externals \<Rightarrow> StartClock \<Rightarrow> ('d, 'b, 'h, 't, 's) FullNode \<Rightarrow>
   ('d, 'b, 'h, 't, 's) FullNode \<times> unit outcome" where
  "full_initialize X clock n =
     (case rbind (read_genesis X (fn_config n)) (make_components X clock (fn_config n)) of
        Ok components \<Rightarrow> (n\<lparr>fn_components := Some components\<rparr>, Ok ())
      | Err e \<Rightarrow> (n, Err e)
      | Panic m \<Rightarrow> (n, Panic m))"

text \<open>A call on the network of the components, which are there.\<close>

definition full_on_network ::
  "(NetworkManager \<Rightarrow> NetworkManager \<times> 'r outcome) \<Rightarrow> ('d, 'b, 'h, 't, 's) NodeComponents \<Rightarrow>
   ('d, 'b, 'h, 't, 's) FullNode \<Rightarrow> ('d, 'b, 'h, 't, 's) FullNode \<times> 'r outcome" where
  "full_on_network f components n =
     (case f (nco_network components) of (m, r) \<Rightarrow> (n\<lparr>fn_components := Some (components\<lparr>nco_network := m\<rparr>)\<rparr>, r))"

definition sync_with_network :: "Timestamp \<Rightarrow> Timestamp \<Rightarrow> ('d, 'b, 'h, 't, 's) FullNode \<Rightarrow> unit outcome" where
  "sync_with_network now now' n =
     (case fn_components n of
        None \<Rightarrow> Ok ()
      | Some components \<Rightarrow> if status_is_syncing (network_sync_status now now' (nco_network components)) then Ok () else Ok ())"

definition process_block ::
  "('d, 'b, 'h, 't, 's) node_externals \<Rightarrow> Block \<Rightarrow> ('d, 'b, 'h, 't, 's) FullNode \<Rightarrow>
   ('d, 'b, 'h, 't, 's) FullNode \<times> unit outcome" where
  "process_block X block n =
     (case fn_components n of
        None \<Rightarrow> (n, Err NodeNotInitialized)
      | Some components \<Rightarrow>
          and_then (case add_block (nx_chain X) (nco_blockchain components) block of
               (chain, r) \<Rightarrow> (n\<lparr>fn_components := Some (components\<lparr>nco_blockchain := chain\<rparr>)\<rparr>, r)) (\<lambda>n _.
            (n\<lparr>fn_pending_transactions := fold (\<lambda>tx s. s |-| {|tx_id tx|}) (blk_transactions block) (fn_pending_transactions n),
               fn_stats := (fn_stats n)\<lparr>nss_blocks_processed := nss_blocks_processed (fn_stats n) + 1,
                 nss_transactions_processed := nss_transactions_processed (fn_stats n) + of_nat (length (blk_transactions block))\<rparr>\<rparr>,
             Ok ())))"

definition submit_transaction ::
  "('d, 'b, 'h, 't, 's) node_externals \<Rightarrow> stamp \<Rightarrow> (nat \<Rightarrow> Timestamp) \<Rightarrow> Transaction \<Rightarrow> ('d, 'b, 'h, 't, 's) FullNode \<Rightarrow>
   ('d, 'b, 'h, 't, 's) FullNode \<times> unit outcome" where
  "submit_transaction X st sent_at tx n =
     (case fn_components n of
        None \<Rightarrow> (n, Err NodeNotInitialized)
      | Some components \<Rightarrow>
          and_then (n, Transaction_validate (nx_chain X) tx) (\<lambda>n _.
          and_then (n\<lparr>fn_pending_transactions := finsert (tx_id tx) (fn_pending_transactions n)\<rparr>,
            message_new_transaction (nx_codecs X) st tx) (\<lambda>n message.
          and_then (full_on_network (broadcast sent_at message) components n) (\<lambda>n _. (n, Ok ())))))"

text \<open>The loop over the heights of the chain and the transactions of each block.\<close>

fun find_at_heights :: "Blockchain \<Rightarrow> TxId \<Rightarrow> BlockHeight list \<Rightarrow> Transaction option" where
  "find_at_heights c i [] = None"
| "find_at_heights c i (height # rest) =
     (case get_block_at_height c height of
        Ok block \<Rightarrow> (case List.find (\<lambda>tx. tx_id tx = i) (blk_transactions block) of
            Some tx \<Rightarrow> Some tx
          | None \<Rightarrow> find_at_heights c i rest)
      | _ \<Rightarrow> find_at_heights c i rest)"

definition full_get_transaction :: "TxId \<Rightarrow> ('d, 'b, 'h, 't, 's) FullNode \<Rightarrow> Transaction option outcome" where
  "full_get_transaction i n =
     (case fn_components n of
        None \<Rightarrow> Ok None
      | Some components \<Rightarrow>
          Ok (find_at_heights (nco_blockchain components) i
            (map of_nat [0..<unat (bc_height (nco_blockchain components)) + 1])))"

definition full_get_block :: "BlockHeight \<Rightarrow> ('d, 'b, 'h, 't, 's) FullNode \<Rightarrow> Block option outcome" where
  "full_get_block height n =
     (case fn_components n of
        None \<Rightarrow> Ok None
      | Some components \<Rightarrow>
          (case get_block_at_height (nco_blockchain components) height of
             Ok block \<Rightarrow> Ok (Some block)
           | Err _ \<Rightarrow> Ok None
           | Panic m \<Rightarrow> Panic m))"

definition pending_transaction_count :: "('d, 'b, 'h, 't, 's) FullNode \<Rightarrow> nat" where
  "pending_transaction_count n = fcard (fn_pending_transactions n)"

definition full_start ::
  "('d, 'b, 'h, 't, 's) node_externals \<Rightarrow> StartClock \<Rightarrow> unit outcome \<Rightarrow> (SocketAddr \<Rightarrow> Dial) \<Rightarrow>
   ('d, 'b, 'h, 't, 's) FullNode \<Rightarrow> ('d, 'b, 'h, 't, 's) FullNode \<times> unit outcome" where
  "full_start X clock bound dial n =
     (if fn_running n then (n, Err NodeAlreadyRunning)
      else and_then (full_initialize X clock n) (\<lambda>n _.
        case fn_components n of
          None \<Rightarrow> (n, Err NodeNotInitialized)
        | Some components \<Rightarrow>
            and_then (full_on_network (network_start bound dial) components n) (\<lambda>n _.
              (n\<lparr>fn_running := True, fn_started_at := Some (ck_started clock)\<rparr>, Ok ()))))"

definition full_stop :: "('d, 'b, 'h, 't, 's) FullNode \<Rightarrow> ('d, 'b, 'h, 't, 's) FullNode \<times> unit outcome" where
  "full_stop n =
     (if \<not> fn_running n then (n, Err NodeNotRunning)
      else let n = n\<lparr>fn_running := False\<rparr> in
        and_then (case fn_components n of None \<Rightarrow> (n, Ok ()) | Some components \<Rightarrow> full_on_network network_stop components n)
          (\<lambda>n _. (n, Ok ())))"

definition full_status :: "Timestamp \<Rightarrow> Timestamp \<Rightarrow> Timestamp \<Rightarrow> ('d, 'b, 'h, 't, 's) FullNode \<Rightarrow> NodeStatus" where
  "full_status now1 now2 now n = components_status now1 now2 now FullType (fn_running n) (fn_started_at n) (fn_components n)"

definition full_current_height :: "('d, 'b, 'h, 't, 's) FullNode \<Rightarrow> BlockHeight" where
  "full_current_height n = (case fn_components n of Some c \<Rightarrow> components_current_height c | None \<Rightarrow> 0)"

definition full_best_hash :: "('d, 'b, 'h, 't, 's) FullNode \<Rightarrow> BlockHash" where
  "full_best_hash n = (case fn_components n of Some c \<Rightarrow> components_best_hash c | None \<Rightarrow> BlockHash_zero)"

section \<open>Starting and stopping\<close>

lemma full_on_network_pair:
  "full_on_network f c n = (n', r) \<longleftrightarrow>
     (\<exists>m. f (nco_network c) = (m, r) \<and> n' = n\<lparr>fn_components := Some (c\<lparr>nco_network := m\<rparr>)\<rparr>)"
  by (auto simp: full_on_network_def split: prod.splits)

lemmas full_pairs = full_start_def full_stop_def full_on_network_pair and_then_eq_pair

interpretation full: node_lifecycle fn_running "full_start X clock bound dial" full_stop
  for X :: "('d, 'b, 'h, 't, 's) node_externals" and clock bound dial
proof
  show "full_start X clock bound dial n = (n, Err NodeAlreadyRunning)" if "fn_running n" for n :: "('d, 'b, 'h, 't, 's) FullNode"
    using that by (simp add: full_start_def)
  show "fn_running n'" if "full_start X clock bound dial n = (n', Ok ())" for n n' :: "('d, 'b, 'h, 't, 's) FullNode"
    using that by (auto simp: full_start_def outcome_simps split: if_splits option.splits)
  show "fn_running n' = fn_running n" if "full_start X clock bound dial n = (n', r)" and "r \<noteq> Ok ()"
    for n n' :: "('d, 'b, 'h, 't, 's) FullNode" and r
    using that by (auto simp: full_pairs full_initialize_def split: if_splits option.splits result.splits)
  show "full_stop n = (n, Err NodeNotRunning)" if "\<not> fn_running n" for n :: "('d, 'b, 'h, 't, 's) FullNode"
    using that by (simp add: full_stop_def)
  show "\<not> fn_running n' \<and> r = Ok ()" if "fn_running n" "full_stop n = (n', r)" for n n' :: "('d, 'b, 'h, 't, 's) FullNode" and r
    using that by (auto simp: full_pairs Let_def dest: network_stop_state(1) split: if_splits option.splits)
qed

section \<open>The invariant\<close>

inductive full_step ::
  "('d, 'b, 'h, 't, 's) node_externals \<Rightarrow> ('d, 'b, 'h, 't, 's) FullNode \<Rightarrow> ('d, 'b, 'h, 't, 's) FullNode \<Rightarrow> bool" for X where
  start: "full_start X clock bound dial n = (n', r) \<Longrightarrow> full_step X n n'"
| stop: "full_stop n = (n', r) \<Longrightarrow> full_step X n n'"
| block: "process_block X block n = (n', r) \<Longrightarrow> full_step X n n'"
| submit: "submit_transaction X st sent_at tx n = (n', r) \<Longrightarrow> full_step X n n'"

definition full_wf :: "('d, 'b, 'h, 't, 's) node_externals \<Rightarrow> ('d, 'b, 'h, 't, 's) FullNode \<Rightarrow> bool" where
  "full_wf X n \<longleftrightarrow>
     (fn_running n \<longrightarrow> fn_components n \<noteq> None) \<and>
     (\<forall>c. fn_components n = Some c \<longrightarrow> reachable_chain (nx_chain X) (nco_blockchain c))"

lemma full_wf_new: "FullNode_new config = Ok n \<Longrightarrow> full_wf X n"
  by (auto simp: FullNode_new_def full_wf_def)

lemma full_on_network_wf:
  assumes "full_on_network f c n = (n', r)" and "full_wf X n" and "fn_components n = Some c"
  shows "full_wf X n'" and "fn_components n' \<noteq> None"
  using assms by (auto simp: full_on_network_def full_wf_def split: prod.splits)

lemma full_initialize_wf:
  assumes "full_initialize X clock n = (n', r)" and "full_wf X n"
  shows "full_wf X n'"
proof (cases "\<exists>c. rbind (read_genesis X (fn_config n)) (make_components X clock (fn_config n)) = Ok c")
  case True
  then obtain c g where c: "rbind (read_genesis X (fn_config n)) (make_components X clock (fn_config n)) = Ok c"
    and "make_components X clock (fn_config n) g = Ok c"
    by (auto simp: outcome_simps)
  then have "Blockchain_new (nx_chain X) (ck_chain clock) g = Ok (nco_blockchain c)" by (intro make_components_chain)
  then have "reachable_chain (nx_chain X) (nco_blockchain c)" unfolding reachable_chain_def by blast
  then show ?thesis using assms c by (auto simp: full_initialize_def full_wf_def)
next
  case False
  then have "n' = n" using assms(1) by (auto simp: full_initialize_def split: result.splits)
  with assms(2) show ?thesis by simp
qed

lemma full_start_wf:
  assumes "full_start X clock bound dial n = (n', r)" and "full_wf X n"
  shows "full_wf X n'"
proof -
  have started: "full_wf X (n\<lparr>fn_running := True, fn_started_at := t\<rparr>)" if "full_wf X n" "fn_components n \<noteq> None" for n t
    using that by (simp add: full_wf_def)
  show ?thesis
    using assms
    by (auto simp: full_start_def and_then_eq_pair intro!: started intro: full_on_network_wf dest!: full_initialize_wf
        split: if_splits option.splits) (use full_on_network_wf in blast)+
qed

lemma full_stop_wf:
  assumes "full_stop n = (n', r)" and "full_wf X n"
  shows "full_wf X n'"
proof -
  have "full_wf X (n\<lparr>fn_running := False\<rparr>)" using assms(2) by (simp add: full_wf_def)
  with assms show ?thesis
    by (auto simp: full_stop_def and_then_eq_pair Let_def dest: full_on_network_wf(1) split: if_splits option.splits)
qed

lemma add_block_reachable:
  assumes "add_block E c b = (c', r)" and "reachable_chain E c"
  shows "reachable_chain E c'"
  using reachable_chain_steps [OF assms(2)] chain_step.add [OF assms(1)] by blast

lemma process_block_wf:
  assumes "process_block X block n = (n', r)" and "full_wf X n"
  shows "full_wf X n'"
  using assms
  by (auto simp: process_block_def and_then_eq_pair full_wf_def dest!: add_block_reachable split: option.splits prod.splits)

lemma submit_transaction_wf:
  assumes "submit_transaction X st sent_at tx n = (n', r)" and "full_wf X n"
  shows "full_wf X n'"
proof -
  have "full_wf X (n\<lparr>fn_pending_transactions := ps\<rparr>)" for ps using assms(2) by (simp add: full_wf_def)
  with assms show ?thesis
    by (auto simp: submit_transaction_def and_then_eq_pair intro: full_on_network_wf(1) split: option.splits)
qed

lemma full_wf_step: "full_step X n n' \<Longrightarrow> full_wf X n \<Longrightarrow> full_wf X n'"
  by (erule full_step.cases) (auto dest: full_start_wf full_stop_wf process_block_wf submit_transaction_wf)

text \<open>The full nodes the program reaches.\<close>

definition reachable_full :: "('d, 'b, 'h, 't, 's) node_externals \<Rightarrow> ('d, 'b, 'h, 't, 's) FullNode \<Rightarrow> bool" where
  "reachable_full X n \<longleftrightarrow> (\<exists>config n0. FullNode_new config = Ok n0 \<and> (full_step X)\<^sup>*\<^sup>* n0 n)"

lemma reachable_full_wf: "reachable_full X n \<Longrightarrow> full_wf X n"
  unfolding reachable_full_def by (auto elim: rtranclp_induct intro: full_wf_new full_wf_step)

section \<open>Looking up\<close>

lemma get_block_at_height_eq:
  assumes "chain_wf E c" and "length (bc_blocks c) \<le> 2 ^ 64"
  shows "get_block_at_height c k =
    (case vec_get (bc_blocks c) (unat k) of None \<Rightarrow> Err (BlockNotFound (show_nat (unat k))) | Some b \<Rightarrow> Ok b)"
  using assms find_heights [of "bc_blocks c" k]
  by (simp add: get_block_at_height_def chain_wf_def blocks_wf_def Block_height_def)

lemma find_at_heights_eq:
  assumes "\<And>h. h \<in> set hs \<Longrightarrow> get_block_at_height c h = Ok (f h)"
  shows "find_at_heights c i hs = List.find (\<lambda>tx. tx_id tx = i) (concat (map (\<lambda>h. blk_transactions (f h)) hs))"
  using assms by (induction hs) (auto simp: find_append split: option.splits)

lemma find_at_heights_all:
  assumes "chain_wf E c" and "length (bc_blocks c) \<le> 2 ^ 64"
  shows "find_at_heights c i (map of_nat [0..<unat (bc_height c) + 1]) =
    List.find (\<lambda>tx. tx_id tx = i) (get_all_transactions c)"
proof -
  let ?n = "length (bc_blocks c)"
  have ne: "0 < ?n" using assms(1) by (simp add: chain_wf_def blocks_wf_def)
  have h: "unat (bc_height c) + 1 = ?n"
    using assms ne unat_of_nat_small [of "?n - 1"] by (simp add: chain_wf_def del: of_nat_diff)
  have small: "unat (of_nat k :: u64) = k" if "k < ?n" for k
    using that assms(2) by (intro unat_of_nat_small) simp
  have "get_block_at_height c (of_nat k) = Ok (bc_blocks c ! unat (of_nat k :: u64))" if "k < ?n" for k
    using that by (simp add: get_block_at_height_eq [OF assms] vec_get_def small)
  then have "find_at_heights c i (map of_nat [0..<?n]) =
      List.find (\<lambda>tx. tx_id tx = i) (concat (map (\<lambda>h. blk_transactions (bc_blocks c ! unat h)) (map (of_nat :: nat \<Rightarrow> u64) [0..<?n])))"
    by (subst find_at_heights_eq [where f = "\<lambda>h :: u64. bc_blocks c ! unat h"]) auto
  also have "map (\<lambda>h. blk_transactions (bc_blocks c ! unat h)) (map (of_nat :: nat \<Rightarrow> u64) [0..<?n]) =
      map blk_transactions (bc_blocks c)"
    by (rule nth_equalityI) (simp_all add: small)
  finally show ?thesis unfolding h get_all_transactions_def .
qed

section \<open>Facts about the code\<close>

text \<open>A start builds the chain anew from the genesis file: what the node had before is gone.\<close>

lemma full_start_fresh:
  assumes "full_start X clock bound dial n = (n', Ok ())" and "fn_components n' = Some c"
  shows "length (bc_blocks (nco_blockchain c)) = 1"
proof -
  obtain c0 g where "make_components X clock (fn_config n) g = Ok c0" and "nco_blockchain c = nco_blockchain c0"
    using assms
    by (auto simp: full_pairs full_initialize_def outcome_simps split: if_splits option.splits result.splits)
  then have "Blockchain_new (nx_chain X) (ck_chain clock) g = Ok (nco_blockchain c)" by (simp add: make_components_chain)
  then show ?thesis by (auto simp: Blockchain_new_Ok)
qed

text \<open>A confirmed transaction can be submitted again, and is pending from then on.\<close>

lemma confirmed_becomes_pending:
  assumes "fn_components n = Some c" and "Transaction_validate (nx_chain X) tx = Ok ()"
    and "submit_transaction X st sent_at tx n = (n', r)"
  shows "tx_id tx |\<in>| fn_pending_transactions n'"
  using assms by (auto simp: submit_transaction_def full_on_network_pair and_then_eq_pair)

section \<open>Properties\<close>

text \<open>
  A full node finds what its chain holds: whatever calls it has served, its chain passes its own
  integrity check, its scan for a transaction, block by block, yields what the index of the chain
  yields, and its search for a block yields what the index by height yields.
\<close>

theorem full_node_lookup:
  assumes "reachable_full X n" and "fn_components n = Some c" and "length (bc_blocks (nco_blockchain c)) \<le> 2 ^ 64"
  shows "chain_verify (nx_chain X) (nco_blockchain c) = Ok () \<and>
    full_get_transaction i n = get_transaction (nco_blockchain c) i \<and>
    full_get_block h n = get_block_by_height (nco_blockchain c) h"
proof -
  have wf: "chain_wf (nx_chain X) (nco_blockchain c)"
    using reachable_full_wf [OF assms(1)] assms(2) by (auto simp: full_wf_def intro: reachable_chain_wf)
  show ?thesis
    using assms(2) chain_verify_Ok [OF wf] find_at_heights_all [OF wf assms(3), of i] get_transaction_eq [OF wf assms(3), of i]
      get_block_at_height_eq [OF wf assms(3), of h] get_block_by_height_eq [OF wf assms(3), of h]
    by (simp add: full_get_transaction_def full_get_block_def split: option.splits)
qed

type_synonym sample_full =
  "(MemoryDatabase, sample_block_lru, sample_height_lru, sample_tx_lru, sample_state_lru) FullNode"

lemma sample_full_start:
  obtains n :: "sample_full" and c
    where "reachable_full sample_node_env n" "fn_components n = Some c" "nco_blockchain c = sample_chain"
proof -
  obtain c where c: "make_components sample_node_env sample_clock sample_node_config (GenesisBlock_new [sample_key 1] 1000) = Ok c"
      "nco_blockchain c = sample_chain"
    using sample_make_components by blast
  obtain m where m: "network_start (Ok ()) sample_dial (nco_network c) = (m, Ok ())"
    using sample_network_start [OF c(1)] by blast
  let ?init = "ok_value (FullNode_new sample_node_config)"
  let ?n = "?init\<lparr>fn_components := Some (c\<lparr>nco_network := m\<rparr>), fn_running := True, fn_started_at := Some (ck_started sample_clock)\<rparr>"
  have "full_start sample_node_env sample_clock (Ok ()) sample_dial ?init = (?n, Ok ())"
    by (simp add: full_start_def FullNode_new_def full_initialize_def sample_read_genesis c(1) full_on_network_def m)
  then have "full_step sample_node_env ?init ?n" by (rule full_step.start)
  moreover have "FullNode_new sample_node_config = Ok ?init" by (simp add: FullNode_new_def)
  ultimately have "reachable_full sample_node_env ?n" unfolding reachable_full_def by blast
  then show ?thesis by (rule that [of _ "c\<lparr>nco_network := m\<rparr>"]) (simp_all add: c(2))
qed

theorem full_node_lookup_witness:
  "\<exists>n :: sample_full.
     reachable_full sample_node_env n \<and> full_get_block 0 n = Ok (Some (hd (bc_blocks sample_chain)))"
proof -
  obtain n :: "sample_full" and c
    where n: "reachable_full sample_node_env n" "fn_components n = Some c" "nco_blockchain c = sample_chain"
    by (rule sample_full_start)
  obtain b where b: "bc_blocks sample_chain = [b]" using sample_chain_blocks by blast
  have "full_get_block 0 n = get_block_by_height sample_chain 0"
    using full_node_lookup [OF n(1,2), of undefined 0] by (simp add: n(3))
  moreover have "get_block_by_height sample_chain 0 = Ok (Some b)" using b by (simp add: get_block_by_height_def vec_index_def)
  ultimately show ?thesis using n(1) b by auto
qed

end
