(* ===== verification/Validator_Node.thy ===== *)
theory Validator_Node
  imports Full_Node
begin

text \<open>
  \<open>node/src/validator.rs\<close>: the node that produces blocks in its turn and validates those of the
  others. One tick of \<open>block_production_loop\<close> is \<open>production_tick\<close>; the delays between the ticks and
  the log are not modelled, nor is the server that \<open>start\<close> spawns for the RPC.
\<close>

section \<open>Data\<close>

record ('d, 'b, 'h, 't, 's) ValidatorNode =
  vn_config :: NodeConfig
  vn_validator_key :: KeyPair
  vn_components :: "('d, 'b, 'h, 't, 's) NodeComponents option"
  vn_consensus :: "ProofOfAuthority option"
  vn_running :: bool
  vn_started_at :: "Timestamp option"
  vn_stats :: NodeStats

section \<open>Operations\<close>

definition ValidatorNode_new ::
  "('d, 'b, 'h, 't, 's) node_externals \<Rightarrow> NodeConfig \<Rightarrow> ('d, 'b, 'h, 't, 's) ValidatorNode outcome" where
  "ValidatorNode_new X config =
     (case ncf_validator_key_path config of
        None \<Rightarrow> Err (ConfigError ''Validator key path required'')
      | Some key_path \<Rightarrow>
          rbind (nx_load_key X key_path) (\<lambda>validator_key.
            Ok \<lparr>vn_config = config, vn_validator_key = validator_key, vn_components = None, vn_consensus = None,
                vn_running = False, vn_started_at = None, vn_stats = NodeStats_default\<rparr>))"

definition validator_public_key :: "('d, 'b, 'h, 't, 's) ValidatorNode \<Rightarrow> PublicKey" where
  "validator_public_key n = PublicKey (cpk_bytes (kp_public (vn_validator_key n)))"

text \<open>The set-up before the components and the consensus are stored; the schedule of the first ten blocks is computed for the log.\<close>

definition validator_setup ::
  "('d, 'b, 'h, 't, 's) node_externals \<Rightarrow> StartClock \<Rightarrow> ('d, 'b, 'h, 't, 's) ValidatorNode \<Rightarrow>
   (('d, 'b, 'h, 't, 's) NodeComponents \<times> ProofOfAuthority) outcome" where
  "validator_setup X clock n =
     rbind (read_genesis X (vn_config n)) (\<lambda>genesis.
     rbind (make_components X clock (vn_config n) genesis) (\<lambda>components.
       let consensus = ProofOfAuthority_new (ValidatorSet_new (ck_validators clock) (gb_validators genesis)) in
       if \<not> is_validator (poa_validator_set consensus) (validator_public_key n)
       then Err (InvalidValidator ''Unauthorized validator'')
       else rbind (for_each (\<lambda>height. rbind (get_block_producer consensus height) (\<lambda>_. Ok ())) (map of_nat [1..<11])) (\<lambda>_.
         Ok (components, consensus))))"

definition validator_initialize ::
  "('d, 'b, 'h, 't, 's) node_externals \<Rightarrow> StartClock \<Rightarrow> ('d, 'b, 'h, 't, 's) ValidatorNode \<Rightarrow>
   ('d, 'b, 'h, 't, 's) ValidatorNode \<times> unit outcome" where
  "validator_initialize X clock n =
     (case validator_setup X clock n of
        Ok (components, consensus) \<Rightarrow> (n\<lparr>vn_components := Some components, vn_consensus := Some consensus\<rparr>, Ok ())
      | Err e \<Rightarrow> (n, Err e)
      | Panic m \<Rightarrow> (n, Panic m))"

definition validator_on_network ::
  "(NetworkManager \<Rightarrow> NetworkManager \<times> 'r outcome) \<Rightarrow> ('d, 'b, 'h, 't, 's) NodeComponents \<Rightarrow>
   ('d, 'b, 'h, 't, 's) ValidatorNode \<Rightarrow> ('d, 'b, 'h, 't, 's) ValidatorNode \<times> 'r outcome" where
  "validator_on_network f components n =
     (case f (nco_network components) of (m, r) \<Rightarrow> (n\<lparr>vn_components := Some (components\<lparr>nco_network := m\<rparr>)\<rparr>, r))"

text \<open>\<open>add_block\<close> on the chain of the components; the components afterwards are the result.\<close>

definition validator_add_block ::
  "('d, 'b, 'h, 't, 's) node_externals \<Rightarrow> Block \<Rightarrow> ('d, 'b, 'h, 't, 's) NodeComponents \<Rightarrow> ('d, 'b, 'h, 't, 's) ValidatorNode \<Rightarrow>
   ('d, 'b, 'h, 't, 's) ValidatorNode \<times> ('d, 'b, 'h, 't, 's) NodeComponents outcome" where
  "validator_add_block X block components n =
     (case add_block (nx_chain X) (nco_blockchain components) block of
        (chain, r) \<Rightarrow> let components = components\<lparr>nco_blockchain := chain\<rparr>
                      in (n\<lparr>vn_components := Some components\<rparr>, rbind r (\<lambda>_. Ok components)))"

definition produce_block ::
  "('d, 'b, 'h, 't, 's) node_externals \<Rightarrow> Timestamp \<Rightarrow> stamp \<Rightarrow> (nat \<Rightarrow> Timestamp) \<Rightarrow>
   ('d, 'b, 'h, 't, 's) ValidatorNode \<Rightarrow> ('d, 'b, 'h, 't, 's) ValidatorNode \<times> unit outcome" where
  "produce_block X now st sent_at n =
     (case vn_components n of
        None \<Rightarrow> (n, Err NodeNotInitialized)
      | Some components \<Rightarrow>
     (case vn_consensus n of
        None \<Rightarrow> (n, Err NodeNotInitialized)
      | Some consensus \<Rightarrow>
          let our_pubkey = validator_public_key n in
          if \<not> is_validator (poa_validator_set consensus) our_pubkey
          then (n, Err (InvalidValidator ''Unauthorized validator''))
          else
            let blockchain = nco_blockchain components; next_height = bc_height blockchain + 1 in
            and_then (n, get_best_block blockchain) (\<lambda>n best.
            and_then (n, get_block_producer consensus next_height) (\<lambda>n expected_producer.
            if expected_producer \<noteq> our_pubkey then (n, Ok ())
            else
              and_then (n, Block_new (nx_chain X) now next_height (hdr_hash (blk_header best)) [] our_pubkey) (\<lambda>n block.
              and_then (n, sign_message (nx_crypto X) (vn_validator_key n) (bytes_list (block_hash_bytes (Block_hash block))))
                (\<lambda>n signature.
              let block = add_signature block our_pubkey (Signature signature) in
              and_then (n, poa_validate_block (nx_chain X) consensus block) (\<lambda>n _.
              and_then (validator_add_block X block components n) (\<lambda>n components.
              and_then (n, message_new_block (nx_codecs X) st block) (\<lambda>n message.
              and_then (validator_on_network (broadcast sent_at message) components n) (\<lambda>n _.
                (n\<lparr>vn_stats := (vn_stats n)\<lparr>nss_blocks_produced := nss_blocks_produced (vn_stats n) + 1,
                     nss_blocks_validated := nss_blocks_validated (vn_stats n) + 1\<rparr>\<rparr>, Ok ())))))))))))"

definition handle_new_block ::
  "('d, 'b, 'h, 't, 's) node_externals \<Rightarrow> Block \<Rightarrow> ('d, 'b, 'h, 't, 's) ValidatorNode \<Rightarrow>
   ('d, 'b, 'h, 't, 's) ValidatorNode \<times> unit outcome" where
  "handle_new_block X block n =
     (case vn_components n of
        None \<Rightarrow> (n, Err NodeNotInitialized)
      | Some components \<Rightarrow>
     (case vn_consensus n of
        None \<Rightarrow> (n, Err NodeNotInitialized)
      | Some consensus \<Rightarrow>
          if \<not> is_validator (poa_validator_set consensus) (hdr_validator (blk_header block))
          then (n, Err (InvalidValidator ''Unauthorized validator''))
          else
            and_then (n, poa_validate_block (nx_chain X) consensus block) (\<lambda>n _.
            and_then (validator_add_block X block components n) (\<lambda>n _.
              (n\<lparr>vn_stats := (vn_stats n)\<lparr>nss_blocks_validated := nss_blocks_validated (vn_stats n) + 1\<rparr>\<rparr>, Ok ())))))"

text \<open>One tick of the loop: nothing when the loop ends; an error is logged and dropped.\<close>

definition production_tick ::
  "('d, 'b, 'h, 't, 's) node_externals \<Rightarrow> Timestamp \<Rightarrow> stamp \<Rightarrow> (nat \<Rightarrow> Timestamp) \<Rightarrow>
   ('d, 'b, 'h, 't, 's) ValidatorNode \<Rightarrow> ('d, 'b, 'h, 't, 's) ValidatorNode option" where
  "production_tick X now st sent_at n = (if \<not> vn_running n then None else Some (fst (produce_block X now st sent_at n)))"

definition node_is_validator :: "('d, 'b, 'h, 't, 's) ValidatorNode \<Rightarrow> bool" where
  "node_is_validator n =
     (case vn_consensus n of
        Some consensus \<Rightarrow> is_validator (poa_validator_set consensus) (validator_public_key n)
      | None \<Rightarrow> False)"

definition rpc_address :: "('d, 'b, 'h, 't, 's) node_externals \<Rightarrow> NodeConfig \<Rightarrow> unit outcome" where
  "rpc_address X config =
     (if ncf_enable_rpc config
      then case ncf_rpc_addr config of
             None \<Rightarrow> Err (ConfigError ''RPC address required'')
           | Some addr \<Rightarrow>
               rbind (map_err (\<lambda>e. ConfigError (''Invalid RPC address: '' @ e)) (nx_parse_addr X addr)) (\<lambda>_. Ok ())
      else Ok ())"

definition validator_start ::
  "('d, 'b, 'h, 't, 's) node_externals \<Rightarrow> StartClock \<Rightarrow> unit outcome \<Rightarrow> (SocketAddr \<Rightarrow> Dial) \<Rightarrow>
   ('d, 'b, 'h, 't, 's) ValidatorNode \<Rightarrow> ('d, 'b, 'h, 't, 's) ValidatorNode \<times> unit outcome" where
  "validator_start X clock bound dial n =
     (if vn_running n then (n, Err NodeAlreadyRunning)
      else and_then (validator_initialize X clock n) (\<lambda>n _.
        case vn_components n of
          None \<Rightarrow> (n, Err NodeNotInitialized)
        | Some components \<Rightarrow>
            and_then (validator_on_network (network_start bound dial) components n) (\<lambda>n _.
            and_then (n, rpc_address X (vn_config n)) (\<lambda>n _.
              (n\<lparr>vn_running := True, vn_started_at := Some (ck_started clock)\<rparr>, Ok ())))))"

definition validator_stop :: "('d, 'b, 'h, 't, 's) ValidatorNode \<Rightarrow> ('d, 'b, 'h, 't, 's) ValidatorNode \<times> unit outcome" where
  "validator_stop n =
     (if \<not> vn_running n then (n, Err NodeNotRunning)
      else let n = n\<lparr>vn_running := False\<rparr> in
        and_then (case vn_components n of None \<Rightarrow> (n, Ok ()) | Some components \<Rightarrow> validator_on_network network_stop components n)
          (\<lambda>n _. (n, Ok ())))"

definition validator_status :: "Timestamp \<Rightarrow> Timestamp \<Rightarrow> Timestamp \<Rightarrow> ('d, 'b, 'h, 't, 's) ValidatorNode \<Rightarrow> NodeStatus" where
  "validator_status now1 now2 now n =
     components_status now1 now2 now ValidatorType (vn_running n) (vn_started_at n) (vn_components n)"

definition validator_current_height :: "('d, 'b, 'h, 't, 's) ValidatorNode \<Rightarrow> BlockHeight" where
  "validator_current_height n = (case vn_components n of Some c \<Rightarrow> components_current_height c | None \<Rightarrow> 0)"

definition validator_best_hash :: "('d, 'b, 'h, 't, 's) ValidatorNode \<Rightarrow> BlockHash" where
  "validator_best_hash n = (case vn_components n of Some c \<Rightarrow> components_best_hash c | None \<Rightarrow> BlockHash_zero)"

section \<open>Starting and stopping\<close>

lemma validator_on_network_pair:
  "validator_on_network f c n = (n', r) \<longleftrightarrow>
     (\<exists>m. f (nco_network c) = (m, r) \<and> n' = n\<lparr>vn_components := Some (c\<lparr>nco_network := m\<rparr>)\<rparr>)"
  by (auto simp: validator_on_network_def split: prod.splits)

lemmas validator_pairs = validator_start_def validator_stop_def validator_on_network_pair and_then_eq_pair

interpretation validator: node_lifecycle vn_running "validator_start X clock bound dial" validator_stop
  for X :: "('d, 'b, 'h, 't, 's) node_externals" and clock bound dial
proof
  show "validator_start X clock bound dial n = (n, Err NodeAlreadyRunning)" if "vn_running n"
    for n :: "('d, 'b, 'h, 't, 's) ValidatorNode"
    using that by (simp add: validator_start_def)
  show "vn_running n'" if "validator_start X clock bound dial n = (n', Ok ())" for n n' :: "('d, 'b, 'h, 't, 's) ValidatorNode"
    using that by (auto simp: validator_start_def outcome_simps split: if_splits option.splits)
  show "vn_running n' = vn_running n" if "validator_start X clock bound dial n = (n', r)" and "r \<noteq> Ok ()"
    for n n' :: "('d, 'b, 'h, 't, 's) ValidatorNode" and r
    using that by (auto simp: validator_pairs validator_initialize_def split: if_splits option.splits result.splits)
  show "validator_stop n = (n, Err NodeNotRunning)" if "\<not> vn_running n" for n :: "('d, 'b, 'h, 't, 's) ValidatorNode"
    using that by (simp add: validator_stop_def)
  show "\<not> vn_running n' \<and> r = Ok ()" if "vn_running n" "validator_stop n = (n', r)"
    for n n' :: "('d, 'b, 'h, 't, 's) ValidatorNode" and r
    using that by (auto simp: validator_pairs Let_def dest: network_stop_state(1) split: if_splits option.splits)
qed

section \<open>The invariant\<close>

inductive validator_step ::
  "('d, 'b, 'h, 't, 's) node_externals \<Rightarrow> ('d, 'b, 'h, 't, 's) ValidatorNode \<Rightarrow> ('d, 'b, 'h, 't, 's) ValidatorNode \<Rightarrow> bool"
  for X where
  start: "validator_start X clock bound dial n = (n', r) \<Longrightarrow> validator_step X n n'"
| stop: "validator_stop n = (n', r) \<Longrightarrow> validator_step X n n'"
| tick: "production_tick X now st sent_at n = Some n' \<Longrightarrow> validator_step X n n'"
| block: "handle_new_block X block n = (n', r) \<Longrightarrow> validator_step X n n'"

text \<open>Every block after the genesis is by the producer of its height.\<close>

definition scheduled :: "ProofOfAuthority \<Rightarrow> Block list \<Rightarrow> bool" where
  "scheduled p bs \<longleftrightarrow> (\<forall>b \<in> set (tl bs). get_block_producer p (Block_height b) = Ok (hdr_validator (blk_header b)))"

definition validator_state_wf ::
  "('d, 'b, 'h, 't, 's) node_externals \<Rightarrow> PublicKey \<Rightarrow> ('d, 'b, 'h, 't, 's) NodeComponents \<Rightarrow> ProofOfAuthority \<Rightarrow> bool" where
  "validator_state_wf X key c p \<longleftrightarrow>
     reachable_chain (nx_chain X) (nco_blockchain c) \<and> scheduled p (bc_blocks (nco_blockchain c)) \<and>
     vset_wf (poa_validator_set p) \<and> poa_block_time p = 5 \<and> is_validator (poa_validator_set p) key"

definition validator_wf :: "('d, 'b, 'h, 't, 's) node_externals \<Rightarrow> ('d, 'b, 'h, 't, 's) ValidatorNode \<Rightarrow> bool" where
  "validator_wf X n \<longleftrightarrow>
     (vn_running n \<longrightarrow> vn_components n \<noteq> None) \<and>
     (case (vn_components n, vn_consensus n) of
        (None, None) \<Rightarrow> True
      | (Some c, Some p) \<Rightarrow> validator_state_wf X (validator_public_key n) c p
      | _ \<Rightarrow> False)"

lemma validator_wf_new: "ValidatorNode_new X config = Ok n \<Longrightarrow> validator_wf X n"
  by (auto simp: ValidatorNode_new_def validator_wf_def outcome_simps split: option.splits)

lemma validator_public_key_same [simp]:
  "validator_public_key (n\<lparr>vn_components := c\<rparr>) = validator_public_key n"
  "validator_public_key (n\<lparr>vn_consensus := p\<rparr>) = validator_public_key n"
  "validator_public_key (n\<lparr>vn_running := b\<rparr>) = validator_public_key n"
  "validator_public_key (n\<lparr>vn_started_at := t\<rparr>) = validator_public_key n"
  "validator_public_key (n\<lparr>vn_stats := s\<rparr>) = validator_public_key n"
  by (simp_all add: validator_public_key_def)

lemma validator_on_network_wf:
  assumes "validator_on_network f c n = (n', r)" and "validator_wf X n" and "vn_components n = Some c'"
    and "nco_blockchain c = nco_blockchain c'"
  shows "validator_wf X n'" and "vn_components n' \<noteq> None" and "vn_consensus n' = vn_consensus n"
  using assms by (auto simp: validator_on_network_pair validator_wf_def validator_state_wf_def split: option.splits)

lemma validator_setup_wf:
  assumes "validator_setup X clock n = Ok (c, p)"
  shows "validator_state_wf X (validator_public_key n) c p" and "length (bc_blocks (nco_blockchain c)) = 1"
proof -
  obtain g where g: "make_components X clock (vn_config n) g = Ok c"
    "p = ProofOfAuthority_new (ValidatorSet_new (ck_validators clock) (gb_validators g))"
    "is_validator (poa_validator_set p) (validator_public_key n)"
    using assms by (auto simp: validator_setup_def outcome_simps Let_def split: if_splits)
  have new: "Blockchain_new (nx_chain X) (ck_chain clock) g = Ok (nco_blockchain c)"
    using make_components_chain [OF g(1)] .
  then show one: "length (bc_blocks (nco_blockchain c)) = 1" by (auto simp: Blockchain_new_Ok)
  have "reachable_chain (nx_chain X) (nco_blockchain c)" unfolding reachable_chain_def using new by blast
  moreover have "scheduled p (bc_blocks (nco_blockchain c))"
    using one by (auto simp: scheduled_def length_Suc_conv)
  ultimately show "validator_state_wf X (validator_public_key n) c p"
    using g(2,3) by (simp add: validator_state_wf_def sample_poa_fields)
qed

lemma validator_initialize_wf:
  assumes "validator_initialize X clock n = (n', r)" and "validator_wf X n"
  shows "validator_wf X n'"
  using assms validator_setup_wf(1) [of X clock n]
  by (auto simp: validator_initialize_def validator_wf_def split: result.splits prod.splits)

lemma validator_start_wf:
  assumes "validator_start X clock bound dial n = (n', r)" and "validator_wf X n"
  shows "validator_wf X n'"
proof (cases "\<exists>s c. validator_initialize X clock n = (s, Ok ()) \<and> vn_components s = Some c \<and> \<not> vn_running n")
  case True
  then obtain s c where s: "validator_initialize X clock n = (s, Ok ())" "vn_components s = Some c" "\<not> vn_running n" by blast
  obtain t q where t: "validator_on_network (network_start bound dial) c s = (t, q)" by fastforce
  have wf: "validator_wf X t" "vn_components t \<noteq> None"
    using validator_on_network_wf [OF t validator_initialize_wf [OF s(1) assms(2)] s(2)] by simp_all
  then have "validator_wf X (t\<lparr>vn_running := True, vn_started_at := u\<rparr>)" for u by (simp add: validator_wf_def split: option.splits)
  with wf show ?thesis using assms(1) s t by (auto simp: validator_start_def and_then_eq_pair)
next
  case False
  then have "\<exists>q. n' = fst (validator_initialize X clock n) \<or> n' = n"
    using assms(1) by (auto simp: validator_start_def and_then_eq_pair split: if_splits option.splits)
  then show ?thesis using validator_initialize_wf [OF surjective_pairing assms(2)] assms(2) by auto
qed

lemma validator_stop_wf:
  assumes "validator_stop n = (n', r)" and "validator_wf X n"
  shows "validator_wf X n'"
proof -
  have "validator_wf X (n\<lparr>vn_running := False\<rparr>)" using assms(2) by (simp add: validator_wf_def split: option.splits)
  with assms show ?thesis
    by (auto simp: validator_stop_def and_then_eq_pair Let_def intro: validator_on_network_wf(1) split: if_splits option.splits)
qed

lemma poa_validate_block_producer:
  assumes "poa_validate_block E p b = Ok ()"
  shows "get_block_producer p (Block_height b) = Ok (hdr_validator (blk_header b))"
  using assms
  by (auto simp: poa_validate_block_def is_validator_turn_by_height_def Block_height_def Let_def outcome_simps split: if_splits)

lemma scheduled_snoc:
  "bs \<noteq> [] \<Longrightarrow> scheduled p (bs @ [b]) \<longleftrightarrow>
     scheduled p bs \<and> get_block_producer p (Block_height b) = Ok (hdr_validator (blk_header b))"
  by (auto simp: scheduled_def)

lemma validator_add_block_pair:
  "validator_add_block X b c n = (n', r) \<longleftrightarrow>
     (\<exists>chain q. add_block (nx_chain X) (nco_blockchain c) b = (chain, q) \<and>
        n' = n\<lparr>vn_components := Some (c\<lparr>nco_blockchain := chain\<rparr>)\<rparr> \<and> r = rbind q (\<lambda>_. Ok (c\<lparr>nco_blockchain := chain\<rparr>)))"
  by (auto simp: validator_add_block_def Let_def split: prod.splits)

lemma validator_add_block_wf:
  assumes "validator_add_block X b c n = (n', r)" and "validator_wf X n"
    and "vn_components n = Some c" and "vn_consensus n = Some p" and "poa_validate_block (nx_chain X) p b = Ok ()"
  shows "validator_wf X n'" and "vn_consensus n' = Some p" and "r = Ok c' \<Longrightarrow> vn_components n' = Some c'"
proof -
  obtain chain q where q: "add_block (nx_chain X) (nco_blockchain c) b = (chain, q)"
    "n' = n\<lparr>vn_components := Some (c\<lparr>nco_blockchain := chain\<rparr>)\<rparr>" "r = rbind q (\<lambda>_. Ok (c\<lparr>nco_blockchain := chain\<rparr>))"
    using assms(1) unfolding validator_add_block_pair by blast
  have wf: "validator_state_wf X (validator_public_key n) c p" using assms(2-4) by (simp add: validator_wf_def)
  then have "reachable_chain (nx_chain X) chain" using add_block_reachable [OF q(1)] by (simp add: validator_state_wf_def)
  moreover have "scheduled p (bc_blocks chain)"
    using wf add_block_cases [OF q(1)] poa_validate_block_producer [OF assms(5)]
    by (auto simp: validator_state_wf_def scheduled_snoc check_block_Ok)
  ultimately show "validator_wf X n'" using wf assms(4) q(2) by (simp add: validator_wf_def validator_state_wf_def)
  show "vn_consensus n' = Some p" using assms(4) q(2) by simp
  show "vn_components n' = Some c'" if "r = Ok c'" using that q(2,3) by (simp add: outcome_simps)
qed

lemma validator_stats_wf: "validator_wf X (n\<lparr>vn_stats := s\<rparr>) \<longleftrightarrow> validator_wf X n"
  by (simp add: validator_wf_def split: option.splits)

lemma produce_block_wf:
  assumes "produce_block X now st sent_at n = (n', r)" and "validator_wf X n"
  shows "validator_wf X n'"
proof (cases "\<exists>c p. vn_components n = Some c \<and> vn_consensus n = Some p")
  case True
  then obtain c p where cp: "vn_components n = Some c" "vn_consensus n = Some p" by blast
  have sent: "validator_wf X m'"
    if "validator_add_block X b c n = (m, Ok c')" "poa_validate_block (nx_chain X) p b = Ok ()"
      "validator_on_network f c' m = (m', q)" for b m c' m' f and q :: "nat outcome"
    using validator_add_block_wf [OF that(1) assms(2) cp that(2)] validator_on_network_wf(1) [OF that(3)] by blast
  have add: "validator_wf X m"
    if "validator_add_block X b c n = (m, q)" "poa_validate_block (nx_chain X) p b = Ok ()" for b m q
    using validator_add_block_wf(1) [OF that(1) assms(2) cp that(2)] .
  show ?thesis
    using assms cp
    by (auto simp: produce_block_def and_then_eq_pair Let_def validator_stats_wf split: if_splits dest: sent add)
next
  case False
  then have "n' = n" using assms(1) by (auto simp: produce_block_def split: option.splits)
  with assms(2) show ?thesis by simp
qed

lemma handle_new_block_wf:
  assumes "handle_new_block X b n = (n', r)" and "validator_wf X n"
  shows "validator_wf X n'"
  using assms
  by (auto simp: handle_new_block_def and_then_eq_pair validator_stats_wf split: if_splits option.splits
      dest: validator_add_block_wf(1))

lemma validator_wf_step: "validator_step X n n' \<Longrightarrow> validator_wf X n \<Longrightarrow> validator_wf X n'"
  by (erule validator_step.cases)
     (auto simp: production_tick_def split: if_splits
       dest: validator_start_wf validator_stop_wf handle_new_block_wf produce_block_wf [OF surjective_pairing])

definition reachable_validator ::
  "('d, 'b, 'h, 't, 's) node_externals \<Rightarrow> ('d, 'b, 'h, 't, 's) ValidatorNode \<Rightarrow> bool" where
  "reachable_validator X n \<longleftrightarrow> (\<exists>config n0. ValidatorNode_new X config = Ok n0 \<and> (validator_step X)\<^sup>*\<^sup>* n0 n)"

lemma reachable_validator_wf: "reachable_validator X n \<Longrightarrow> validator_wf X n"
  unfolding reachable_validator_def by (auto elim: rtranclp_induct intro: validator_wf_new validator_wf_step)

section \<open>Facts about the code\<close>

text \<open>The signatures of a block play no part in whether a validator takes it.\<close>

lemma signatures_not_checked:
  "snd (handle_new_block X (b\<lparr>blk_signatures := sigs\<rparr>) n) = snd (handle_new_block X b n)"
proof -
  have "Block_validate (nx_chain X) (b\<lparr>blk_signatures := sigs\<rparr>) = Block_validate (nx_chain X) b"
    by (simp add: Block_validate_def Let_def)
  then have check: "check_block (nx_chain X) c (b\<lparr>blk_signatures := sigs\<rparr>) = check_block (nx_chain X) c b" for c
    by (simp add: check_block_def validate_chain_link_def Block_previous_hash_def Block_timestamp_def Block_height_def)
  have stamp: "Block_timestamp (b\<lparr>blk_signatures := sigs\<rparr>) = Block_timestamp b" by (simp add: Block_timestamp_def)
  have header: "blk_header (b\<lparr>blk_signatures := sigs\<rparr>) = blk_header b" by simp
  have timing: "validate_block_timing p (b\<lparr>blk_signatures := sigs\<rparr>) = validate_block_timing p b" for p
    unfolding validate_block_timing_def stamp ..
  have poa: "poa_validate_block (nx_chain X) p (b\<lparr>blk_signatures := sigs\<rparr>) = poa_validate_block (nx_chain X) p b" for p
    unfolding poa_validate_block_def timing header ..
  show ?thesis
  proof (cases "vn_components n"; cases "vn_consensus n")
    fix c p assume cp: "vn_components n = Some c" "vn_consensus n = Some p"
    show ?thesis
      by (cases "poa_validate_block (nx_chain X) p b"; cases "check_block (nx_chain X) (nco_blockchain c) b")
         (simp_all add: cp handle_new_block_def poa validator_add_block_def add_block_def check Let_def)
  qed (simp_all add: handle_new_block_def)
qed

text \<open>A start builds the chain anew from the genesis file.\<close>

lemma validator_start_fresh:
  assumes "validator_start X clock bound dial n = (n', Ok ())" and "vn_components n' = Some c"
  shows "length (bc_blocks (nco_blockchain c)) = 1"
  using assms validator_setup_wf(2) [of X clock n]
  by (auto simp: validator_pairs validator_initialize_def split: if_splits option.splits result.splits prod.splits)

section \<open>A round\<close>

text \<open>What a validator node holds.\<close>

definition node_blocks :: "('d, 'b, 'h, 't, 's) ValidatorNode \<Rightarrow> Block list" where
  "node_blocks n = (case vn_components n of None \<Rightarrow> [] | Some c \<Rightarrow> bc_blocks (nco_blockchain c))"

lemma reachable_poa_accepts:
  assumes "validator_state_wf X key c p" and "unat (Block_timestamp b) + 5 < 2 ^ 64"
    and "get_block_producer p (Block_height b) = Ok (hdr_validator (blk_header b))"
  shows "poa_validate_block E p b = Ok ()"
proof -
  have "poa_block_time p \<noteq> 0" and "unat (Block_timestamp b) + unat (poa_block_time p) < 2 ^ 64"
    using assms(1,2) by (simp_all add: validator_state_wf_def)
  moreover have "is_validator (poa_validator_set p) (hdr_validator (blk_header b))"
    using get_block_producer_member [OF assms(3)] vset_wf_is_validator(1) assms(1) by (auto simp: validator_state_wf_def)
  ultimately show ?thesis
    using validate_block_timing_vacuous [of p b] assms(3)
    by (simp add: poa_validate_block_def is_validator_turn_by_height_def Block_height_def Let_def)
qed

lemma handle_new_block_accepts:
  assumes "validator_wf X n" and "vn_components n = Some c" and "vn_consensus n = Some p"
    and "unat (Block_timestamp b) + 5 < 2 ^ 64"
    and "get_block_producer p (Block_height b) = Ok (hdr_validator (blk_header b))"
    and "check_block (nx_chain X) (nco_blockchain c) b = Ok ()"
  shows "\<exists>n'. handle_new_block X b n = (n', Ok ()) \<and> node_blocks n' = node_blocks n @ [b]"
proof -
  have wf: "validator_state_wf X (validator_public_key n) c p" using assms(1-3) by (simp add: validator_wf_def)
  have "is_validator (poa_validator_set p) (hdr_validator (blk_header b))"
    using get_block_producer_member [OF assms(5)] vset_wf_is_validator(1) wf by (auto simp: validator_state_wf_def)
  moreover have "poa_validate_block (nx_chain X) p b = Ok ()" using reachable_poa_accepts [OF wf assms(4,5)] .
  ultimately show ?thesis
    using assms(2,3,6) by (simp add: handle_new_block_def validator_add_block_def add_block_def node_blocks_def Let_def)
qed

lemma produce_block_turn:
  assumes "validator_wf X n" and "vn_components n = Some c" and "vn_consensus n = Some p"
    and "get_block_producer p (bc_height (nco_blockchain c) + 1) = Ok (validator_public_key n)"
    and "Block_timestamp (last (node_blocks n)) \<le> now" and "unat now + 5 < 2 ^ 64"
    and "\<forall>b. is_ok (serialize (block_codec (nx_codecs X)) b)"
  obtains n' b where "produce_block X now st sent_at n = (n', Ok ())" "node_blocks n' = node_blocks n @ [b]"
    "hdr_validator (blk_header b) = validator_public_key n" "has_signature_from b (validator_public_key n)"
    "Block_timestamp b = now" "Block_height b = bc_height (nco_blockchain c) + 1" "blk_transactions b = []"
    "check_block (nx_chain X) (nco_blockchain c) b = Ok ()"
proof -
  let ?E = "nx_chain X" and ?chain = "nco_blockchain c" and ?key = "validator_public_key n"
  have wf: "validator_state_wf X ?key c p" using assms(1-3) by (simp add: validator_wf_def)
  then have chain: "chain_wf ?E ?chain" by (auto simp: validator_state_wf_def intro: reachable_chain_wf)
  then have ne: "bc_blocks ?chain \<noteq> []" by (simp add: chain_wf_def blocks_wf_def)
  have height: "Block_height (last (bc_blocks ?chain)) = bc_height ?chain"
    using chain ne by (simp add: chain_wf_def blocks_wf_def last_conv_nth)
  let ?last = "last (bc_blocks ?chain)"
  obtain b0 where b0: "Block_new ?E now (bc_height ?chain + 1) (Block_hash ?last) [] ?key = Ok b0" using Block_new_total by blast
  obtain sig where sig: "sign_message (nx_crypto X) (vn_validator_key n) (bytes_list (block_hash_bytes (Block_hash b0))) = Ok sig"
    by (simp add: sign_message_def)
  define b where "b = add_signature b0 ?key (Signature sig)"
  note f = Block_new_fields [OF b0]
  have hdr: "blk_header b = blk_header b0" "blk_transactions b = []" by (simp_all add: b_def add_signature_def f(4))
  have fields: "Block_height b = bc_height ?chain + 1" "Block_timestamp b = now" "Block_previous_hash b = Block_hash ?last"
    using f(1-3) by (simp_all add: Block_height_def Block_timestamp_def Block_previous_hash_def hdr)
  have valid: "Block_validate ?E b = Ok ()"
    unfolding b_def Block_validate_add_signature using f by (simp add: Block_validate_Ok)
  have check: "check_block ?E ?chain b = Ok ()"
    using ne valid fields hdr(2) assms(2,5) height by (simp add: check_block_Ok tx_ids_def node_blocks_def)
  have producer: "get_block_producer p (Block_height b) = Ok (hdr_validator (blk_header b))"
    using assms(4) f(5) by (simp add: fields hdr)
  have poa: "poa_validate_block ?E p b = Ok ()"
    using reachable_poa_accepts [OF wf _ producer] assms(6) by (simp add: fields)
  obtain m where m: "message_new_block (nx_codecs X) st b = Ok m"
    using assms(7) [rule_format, of b] by (auto simp: message_new_block_def is_ok_iff)
  have best: "get_best_block ?chain = Ok ?last" using ne by (simp add: get_best_block_def vec_last_def)
  have "\<exists>n'. produce_block X now st sent_at n = (n', Ok ()) \<and> node_blocks n' = node_blocks n @ [b]"
    using wf assms(2,3,4) best sig poa check m b0 [unfolded Block_hash_def]
    by (simp add: produce_block_def validator_state_wf_def Let_def Block_hash_def validator_add_block_def add_block_def
        validator_on_network_def broadcast_def node_blocks_def flip: b_def)
  with that fields hdr check f(5) show ?thesis
    by (auto simp: b_def has_signature_from_add_signature)
qed

lemma produce_block_skip:
  assumes "validator_wf X n" and "vn_components n = Some c" and "vn_consensus n = Some p"
    and "get_block_producer p (bc_height (nco_blockchain c) + 1) = Ok v" and "v \<noteq> validator_public_key n"
  shows "produce_block X now st sent_at n = (n, Ok ())"
proof -
  have wf: "validator_state_wf X (validator_public_key n) c p" using assms(1-3) by (simp add: validator_wf_def)
  then have "bc_blocks (nco_blockchain c) \<noteq> []"
    using reachable_chain_wf by (auto simp: validator_state_wf_def chain_wf_def blocks_wf_def)
  then show ?thesis
    using wf assms by (simp add: produce_block_def validator_state_wf_def Let_def get_best_block_def vec_last_def)
qed

section \<open>A sample node\<close>

type_synonym sample_validator =
  "(MemoryDatabase, sample_block_lru, sample_height_lru, sample_tx_lru, sample_state_lru) ValidatorNode"

lemma sample_validator_start:
  obtains n :: sample_validator and p
    where "reachable_validator sample_node_env n" "vn_running n" "node_blocks n = bc_blocks sample_chain" "vn_consensus n = Some p"
      "vset_validators (poa_validator_set p) = [sample_key 1]" "validator_public_key n = sample_key 1"
      "ValidatorNode_new sample_node_env sample_node_config = Ok (ok_value (ValidatorNode_new sample_node_env sample_node_config))"
      "validator_start sample_node_env sample_clock (Ok ()) sample_dial (ok_value (ValidatorNode_new sample_node_env sample_node_config)) = (n, Ok ())"
proof -
  let ?g = "GenesisBlock_new [sample_key 1] 1000"
  obtain c where c: "make_components sample_node_env sample_clock sample_node_config ?g = Ok c" "nco_blockchain c = sample_chain"
    using sample_make_components by blast
  obtain m where m: "network_start (Ok ()) sample_dial (nco_network c) = (m, Ok ())"
    using sample_network_start [OF c(1)] by blast
  let ?p = "ProofOfAuthority_new (ValidatorSet_new (ck_validators sample_clock) [sample_key 1])"
  let ?init = "ok_value (ValidatorNode_new sample_node_env sample_node_config)"
  let ?n = "?init\<lparr>vn_components := Some (c\<lparr>nco_network := m\<rparr>), vn_consensus := Some ?p, vn_running := True,
      vn_started_at := Some (ck_started sample_clock)\<rparr>"
  have new: "ValidatorNode_new sample_node_env sample_node_config = Ok ?init"
    by (simp add: ValidatorNode_new_def sample_node_config_def sample_node_env_def)
  have init: "vn_config ?init = sample_node_config" "\<not> vn_running ?init" "validator_public_key ?init = sample_key 1"
    by (simp_all add: ValidatorNode_new_def sample_node_config_def sample_node_env_def validator_public_key_def KeyPair_generate_def
        sample_crypto_def sample_key_def)
  have gb: "gb_validators ?g = [sample_key 1]" by (simp add: GenesisBlock_new_def)
  have schedule: "for_each (\<lambda>height. rbind (get_block_producer ?p height) (\<lambda>_. Ok ())) (map of_nat [1..<11]) = Ok ()"
    by (simp add: for_each_eq_Ok get_block_producer_eq sample_poa_fields)
  have "is_validator (poa_validator_set ?p) (sample_key 1)"
    by (simp add: is_validator_def ProofOfAuthority_new_def ValidatorSet_new_def)
  then have "validator_setup sample_node_env sample_clock ?init = Ok (c, ?p)"
    using init c(1) schedule by (simp add: validator_setup_def sample_read_genesis Let_def gb)
  moreover have "rpc_address sample_node_env sample_node_config = Ok ()"
    by (simp add: rpc_address_def sample_node_env_def sample_node_config_def NodeConfig_default_def)
  ultimately have start: "validator_start sample_node_env sample_clock (Ok ()) sample_dial ?init = (?n, Ok ())"
    using init m by (simp add: validator_start_def validator_initialize_def validator_on_network_def)
  then have "reachable_validator sample_node_env ?n"
    unfolding reachable_validator_def using new validator_step.start by blast
  then show ?thesis
    using new start by (intro that [of ?n ?p]) (assumption | simp add: init node_blocks_def c(2) sample_poa_fields)+
qed

lemma sample_tip_time: "Block_timestamp (last (bc_blocks sample_chain)) \<le> 2000"
proof -
  obtain b where b: "create_block sample_env 0 (GenesisBlock_new [sample_key 1] 1000) = Ok b"
    using sample_chain_new unfolding Blockchain_new_Ok by blast
  then have c: "bc_blocks sample_chain = [b]" by (simp add: sample_chain_def Blockchain_new_def Let_def)
  from b have "Block_timestamp b = 1000"
    by (auto simp: create_block_Ok Block_new_fields(2) [OF genesis_block_of_new]) (simp add: GenesisBlock_new_def)
  with c show ?thesis by simp
qed

lemma sample_codec_total: "\<forall>b. is_ok (serialize (block_codec (nx_codecs sample_node_env)) b)"
  by (simp add: sample_node_env_def sample_network_def serialize_def)

section \<open>Properties\<close>

text \<open>
  C12: The chain of a validator follows the schedule: whatever calls the node has served and whatever
  blocks it was offered, its chain passes its own integrity check, and block number \<open>i\<close> after the
  genesis names the validator whose turn it is, number \<open>i\<close> modulo the number of validators in the order
  of their keys.
\<close>

theorem validator_chain_scheduled:
  assumes "reachable_validator X n" and "vn_components n = Some c" and "vn_consensus n = Some p"
    and "length (bc_blocks (nco_blockchain c)) \<le> 2 ^ 64" and "0 < i" and "i < length (bc_blocks (nco_blockchain c))"
  shows "chain_verify (nx_chain X) (nco_blockchain c) = Ok () \<and>
    hdr_validator (blk_header (bc_blocks (nco_blockchain c) ! i)) = turn_order p ! (i mod length (turn_order p))"
proof -
  let ?bs = "bc_blocks (nco_blockchain c)"
  have wf: "validator_state_wf X (validator_public_key n) c p"
    using reachable_validator_wf [OF assms(1)] assms(2,3) by (simp add: validator_wf_def)
  then have chain: "chain_wf (nx_chain X) (nco_blockchain c)"
    and sched: "scheduled p ?bs" and ne: "vset_validators (poa_validator_set p) \<noteq> []"
    using vset_wf_is_validator(1) [of "poa_validator_set p"] by (auto simp: validator_state_wf_def intro: reachable_chain_wf)
  have "?bs ! i \<in> set (tl ?bs)"
    using assms(5,6) nth_mem [of "i - 1" "tl ?bs"] by (simp add: nth_tl)
  then have "get_block_producer p (Block_height (?bs ! i)) = Ok (hdr_validator (blk_header (?bs ! i)))"
    using sched by (simp add: scheduled_def)
  moreover have "unat (Block_height (?bs ! i)) = i"
    using chain assms(4,6) unat_of_nat_small [of i] by (simp add: chain_wf_def blocks_wf_def)
  ultimately show ?thesis using chain_verify_Ok [OF chain] ne by (simp add: get_block_producer_eq)
qed

theorem validator_chain_scheduled_witness:
  "\<exists>(n :: sample_validator) c p. reachable_validator sample_node_env n \<and> vn_components n = Some c \<and>
     vn_consensus n = Some p \<and> length (bc_blocks (nco_blockchain c)) = 2 \<and>
     hdr_validator (blk_header (bc_blocks (nco_blockchain c) ! 1)) = turn_order p ! (1 mod length (turn_order p))"
proof -
  obtain n :: sample_validator and p where n: "reachable_validator sample_node_env n" "vn_running n"
      "node_blocks n = bc_blocks sample_chain" "vn_consensus n = Some p"
      "vset_validators (poa_validator_set p) = [sample_key 1]" "validator_public_key n = sample_key 1"
    by (rule sample_validator_start)
  have wf: "validator_wf sample_node_env n" using reachable_validator_wf [OF n(1)] .
  obtain c where c: "vn_components n = Some c" using wf n(4) by (auto simp: validator_wf_def split: option.splits)
  have turn: "get_block_producer p (bc_height (nco_blockchain c) + 1) = Ok (validator_public_key n)"
    using n(5,6) by (simp add: get_block_producer_eq)
  have tip: "Block_timestamp (last (node_blocks n)) \<le> 2000" "unat (2000 :: u64) + 5 < 2 ^ 64" using sample_tip_time n(3) by simp_all
  obtain n' b where
      made: "produce_block sample_node_env 2000 (0, 0) (\<lambda>k. 0) n = (n', Ok ())" "node_blocks n' = node_blocks n @ [b]"
    by (rule produce_block_turn [OF wf c n(4) turn tip sample_codec_total])
  then have "production_tick sample_node_env 2000 (0, 0) (\<lambda>k. 0) n = Some n'" using n(2) by (simp add: production_tick_def)
  then have reach: "reachable_validator sample_node_env n'"
    using n(1) validator_step.tick unfolding reachable_validator_def by (meson rtranclp.rtrancl_into_rtrancl)
  then have "validator_wf sample_node_env n'" by (rule reachable_validator_wf)
  moreover have blocks: "node_blocks n' = bc_blocks sample_chain @ [b]" using made(2) n(3) by simp
  ultimately obtain c' p' where c': "vn_components n' = Some c'" "vn_consensus n' = Some p'"
    by (auto simp: validator_wf_def node_blocks_def split: option.splits)
  with blocks have two: "length (bc_blocks (nco_blockchain c')) = 2" by (simp add: node_blocks_def)
  then have "hdr_validator (blk_header (bc_blocks (nco_blockchain c') ! 1)) = turn_order p' ! (1 mod length (turn_order p'))"
    using validator_chain_scheduled [OF reach c', of 1] by simp
  with reach c' two show ?thesis by blast
qed

text \<open>A node that shares the blocks \<open>bs\<close> and the validators \<open>vs\<close> with others: what their rounds depend on.\<close>

lemma shared_state:
  assumes "reachable_validator X n \<and> node_blocks n = bs \<and>
      (\<exists>p. vn_consensus n = Some p \<and> mset (vset_validators (poa_validator_set p)) = mset vs)"
  shows "\<exists>c p. validator_wf X n \<and> vn_components n = Some c \<and> vn_consensus n = Some p \<and>
      bc_blocks (nco_blockchain c) = bs \<and> bc_height (nco_blockchain c) = of_nat (length bs - 1) \<and>
      mset (vset_validators (poa_validator_set p)) = mset vs"
proof -
  obtain p where p: "vn_consensus n = Some p" "mset (vset_validators (poa_validator_set p)) = mset vs" and bs: "node_blocks n = bs"
    and wf: "validator_wf X n"
    using assms reachable_validator_wf [of X n] by auto
  then obtain c where c: "vn_components n = Some c" "reachable_chain (nx_chain X) (nco_blockchain c)"
    by (auto simp: validator_wf_def validator_state_wf_def split: option.splits)
  from reachable_chain_wf [OF c(2)] show ?thesis using p bs wf c(1) by (auto simp: node_blocks_def chain_wf_def)
qed

text \<open>The producer of a height depends on the validators only as a multiset.\<close>

lemma shared_producer:
  assumes "vs \<noteq> []"
  shows "\<exists>v \<in> set vs. \<forall>p. mset (vset_validators (poa_validator_set p)) = mset vs \<longrightarrow> get_block_producer p h = Ok v"
proof -
  define q where "q = ProofOfAuthority_new (ValidatorSet_new 0 vs)"
  have q: "vset_validators (poa_validator_set q) = vs" by (simp add: q_def sample_poa_fields)
  have "get_block_producer p h = get_block_producer q h" if "mset (vset_validators (poa_validator_set p)) = mset vs" for p
    using that sort_cong_mset [OF that] mset_eq_length [OF that] by (simp add: get_block_producer_def validator_count_def q Let_def)
  moreover obtain v where "get_block_producer q h = Ok v" using get_block_producer_eq [of q h] q assms by metis
  ultimately show ?thesis using get_block_producer_member [of q h v] q by auto
qed

text \<open>
  C11: The validators make progress together: take any nodes that hold the same blocks and the same
  validators, where every validator has a node. When the clock is not behind the newest block, one of
  the nodes produces a block in its turn and signs it, appends it to its chain and hands it to its
  peers, every other node appends it when it receives it, and a node with another key produces nothing.
  The nodes hold the same blocks again.
\<close>

theorem validator_round:
  assumes "\<forall>n \<in> set ns. reachable_validator X n \<and> node_blocks n = bs \<and>
      (\<exists>p. vn_consensus n = Some p \<and> mset (vset_validators (poa_validator_set p)) = mset vs)"
    and "validator_public_key ` set ns = set vs" and "ns \<noteq> []"
    and "Block_timestamp (last bs) \<le> now" and "unat now + 5 < 2 ^ 64"
    and "\<forall>b. is_ok (serialize (block_codec (nx_codecs X)) b)"
  shows "\<exists>n \<in> set ns. \<exists>n' b. produce_block X now st sent_at n = (n', Ok ()) \<and> node_blocks n' = bs @ [b] \<and>
      hdr_validator (blk_header b) = validator_public_key n \<and> has_signature_from b (validator_public_key n) \<and>
      (\<forall>m \<in> set ns. \<exists>m'. handle_new_block X b m = (m', Ok ()) \<and> node_blocks m' = bs @ [b]) \<and>
      (\<forall>m \<in> set ns. validator_public_key m \<noteq> validator_public_key n \<longrightarrow> produce_block X now st sent_at m = (m, Ok ()))"
proof -
  let ?h = "of_nat (length bs - 1) + 1 :: u64"
  have "vs \<noteq> []" using assms(2,3) by auto
  from shared_producer [OF this, of ?h] obtain v where vs: "v \<in> set vs"
    and v: "\<And>p. mset (vset_validators (poa_validator_set p)) = mset vs \<Longrightarrow> get_block_producer p ?h = Ok v"
    by blast
  have "v \<in> validator_public_key ` set ns" using vs assms(2) by simp
  then obtain n where n: "n \<in> set ns" "validator_public_key n = v" by blast
  obtain c p where cp: "validator_wf X n" "vn_components n = Some c" "vn_consensus n = Some p" "bc_blocks (nco_blockchain c) = bs"
      "bc_height (nco_blockchain c) = of_nat (length bs - 1)" "mset (vset_validators (poa_validator_set p)) = mset vs"
    using shared_state [of X n bs vs] assms(1) n(1) by blast
  have "get_block_producer p (bc_height (nco_blockchain c) + 1) = Ok (validator_public_key n)"
    using v [OF cp(6)] n(2) cp(5) by simp
  from produce_block_turn [OF cp(1-3) this _ assms(5,6), of st sent_at] obtain n' b where
      made: "produce_block X now st sent_at n = (n', Ok ())" "node_blocks n' = node_blocks n @ [b]"
        "hdr_validator (blk_header b) = validator_public_key n" "has_signature_from b (validator_public_key n)"
        "Block_timestamp b = now" "Block_height b = bc_height (nco_blockchain c) + 1" "blk_transactions b = []"
        "check_block (nx_chain X) (nco_blockchain c) b = Ok ()"
    using assms(4) cp(2,4) by (auto simp: node_blocks_def)
  have "\<exists>m'. handle_new_block X b m = (m', Ok ()) \<and> node_blocks m' = bs @ [b]" if m: "m \<in> set ns" for m
  proof -
    obtain d r where dr: "validator_wf X m" "vn_components m = Some d" "vn_consensus m = Some r" "bc_blocks (nco_blockchain d) = bs"
        "mset (vset_validators (poa_validator_set r)) = mset vs"
      using shared_state [of X m bs vs] assms(1) m by blast
    have "check_block (nx_chain X) (nco_blockchain d) b = Ok ()"
      using made(7,8) cp(4) dr(4) by (simp add: check_block_Ok tx_ids_def)
    moreover have "get_block_producer r (Block_height b) = Ok (hdr_validator (blk_header b))"
      using v [OF dr(5)] cp(5) made(3,6) n(2) by simp
    ultimately show ?thesis
      using handle_new_block_accepts [OF dr(1-3)] made(5) assms(5) dr(2,4) by (auto simp: node_blocks_def)
  qed
  moreover have "produce_block X now st sent_at m = (m, Ok ())"
    if m: "m \<in> set ns" "validator_public_key m \<noteq> validator_public_key n" for m
  proof -
    obtain d r where dr: "validator_wf X m" "vn_components m = Some d" "vn_consensus m = Some r"
        "bc_height (nco_blockchain d) = of_nat (length bs - 1)" "mset (vset_validators (poa_validator_set r)) = mset vs"
      using shared_state [of X m bs vs] assms(1) m(1) by blast
    then have "get_block_producer r (bc_height (nco_blockchain d) + 1) = Ok v" using v [OF dr(5)] by simp
    from produce_block_skip [OF dr(1-3) this] show ?thesis using m(2) n(2) by simp
  qed
  moreover have "node_blocks n = bs" using cp(2,4) by (simp add: node_blocks_def)
  ultimately show ?thesis using n(1) made(1-4) by (intro bexI [of _ n] exI [of _ n'] exI [of _ b]) auto
qed

theorem validator_round_witness:
  "\<exists>(n :: sample_validator) n' b. produce_block sample_node_env 2000 (0, 0) (\<lambda>k. 0) n = (n', Ok ()) \<and>
     node_blocks n' = bc_blocks sample_chain @ [b]"
proof -
  obtain n :: sample_validator and p where n: "reachable_validator sample_node_env n" "vn_running n"
      "node_blocks n = bc_blocks sample_chain" "vn_consensus n = Some p"
      "vset_validators (poa_validator_set p) = [sample_key 1]" "validator_public_key n = sample_key 1"
    by (rule sample_validator_start)
  then have "\<forall>n \<in> set [n]. reachable_validator sample_node_env n \<and> node_blocks n = bc_blocks sample_chain \<and>
      (\<exists>p. vn_consensus n = Some p \<and> mset (vset_validators (poa_validator_set p)) = mset [sample_key 1])"
    by simp
  from validator_round [OF this _ _ sample_tip_time _ sample_codec_total, of "(0, 0)" "\<lambda>k. 0"] n(6) show ?thesis by auto
qed

end
