(* ===== verification/Light_Node.thy ===== *)
theory Light_Node
  imports Node
begin

text \<open>
  \<open>node/src/light_node.rs\<close>: the node that keeps headers and verifies single transactions by their
  Merkle proof. Only the facts at the end say what it achieves: it never receives a header.
\<close>

section \<open>Data\<close>

record LightHeader =
  lh_height :: BlockHeight
  lh_hash :: BlockHash
  lh_previous_hash :: BlockHash
  lh_transactions_root :: BlockHash
  lh_timestamp :: Timestamp
  lh_validator :: PublicKey

record VerifiedTransaction =
  vt_transaction :: Transaction
  vt_block_height :: BlockHeight
  vt_block_hash :: BlockHash
  vt_merkle_proof :: "BlockHash list"
  vt_verified_at :: Timestamp

record LightNode =
  ln_config :: NodeConfig
  ln_network :: "NetworkManager option"
  ln_block_headers :: "(BlockHeight, LightHeader) hashmap"
  ln_verified_transactions :: "(TxId, VerifiedTransaction) hashmap"
  ln_trusted_validators :: "PublicKey list"
  ln_running :: bool
  ln_started_at :: "Timestamp option"
  ln_stats :: NodeStats
  ln_current_height :: BlockHeight

section \<open>Headers\<close>

definition header_from_block :: "Block \<Rightarrow> LightHeader" where
  "header_from_block b =
     \<lparr>lh_height = hdr_height (blk_header b), lh_hash = hdr_hash (blk_header b), lh_previous_hash = hdr_previous_hash (blk_header b),
      lh_transactions_root = hdr_transactions_root (blk_header b), lh_timestamp = hdr_timestamp (blk_header b),
      lh_validator = hdr_validator (blk_header b)\<rparr>"

definition header_validate :: "'z externals_scheme \<Rightarrow> LightHeader \<Rightarrow> LightHeader option \<Rightarrow> unit outcome" where
  "header_validate E h previous =
     (case previous of
        None \<Rightarrow> Ok ()
      | Some prev \<Rightarrow>
          if lh_height h \<noteq> lh_height prev + 1 then Err (BlockHeightMismatch (lh_height prev + 1) (lh_height h))
          else if lh_previous_hash h \<noteq> lh_hash prev
          then Err (InvalidPreviousHash (''Expected '' @ BlockHash_to_hex E (lh_hash prev) @ '', got ''
                 @ BlockHash_to_hex E (lh_previous_hash h)))
          else Ok ())"

section \<open>Operations\<close>

definition LightNode_new :: "NodeConfig \<Rightarrow> LightNode outcome" where
  "LightNode_new config =
     Ok \<lparr>ln_config = config, ln_network = None, ln_block_headers = fmempty, ln_verified_transactions = fmempty,
         ln_trusted_validators = [], ln_running = False, ln_started_at = None, ln_stats = NodeStats_default,
         ln_current_height = 0\<rparr>"

text \<open>The header that \<open>initialize\<close> makes for the genesis: a block without transactions, at the time of the start.\<close>

definition light_genesis ::
  "('d, 'b, 'h, 't, 's) node_externals \<Rightarrow> StartClock \<Rightarrow> GenesisBlock \<Rightarrow> LightNode \<Rightarrow> LightNode \<times> unit outcome" where
  "light_genesis X clock genesis n =
     (let n = n\<lparr>ln_trusted_validators := ln_trusted_validators n @ gb_validators genesis\<rparr> in
      and_then (n, Block_new (nx_chain X) (ck_chain clock) 0 BlockHash_zero []
          (case gb_validators genesis of v # _ \<Rightarrow> v | [] \<Rightarrow> PublicKey (bytes_fill 0))) (\<lambda>n genesis_block.
        (n\<lparr>ln_block_headers := fmupd 0 (header_from_block genesis_block) (ln_block_headers n)\<rparr>, Ok ())))"

definition light_initialize ::
  "('d, 'b, 'h, 't, 's) node_externals \<Rightarrow> StartClock \<Rightarrow> LightNode \<Rightarrow> LightNode \<times> unit outcome" where
  "light_initialize X clock n =
     and_then (n, NetworkManager_new (ck_network clock) (network_config_of (ln_config n))) (\<lambda>n network.
     and_then (case ncf_genesis_path (ln_config n) of
         None \<Rightarrow> (n, Ok ())
       | Some genesis_path \<Rightarrow>
           and_then (n, from_file (nx_read_to_string X) (nx_genesis_from_str X) genesis_path) (\<lambda>n genesis.
             light_genesis X clock genesis n)) (\<lambda>n _.
       (n\<lparr>ln_network := Some network\<rparr>, Ok ())))"

definition sync_headers :: "LightNode \<Rightarrow> unit outcome" where
  "sync_headers n = (case ln_network n of None \<Rightarrow> Ok () | Some _ \<Rightarrow> Ok ())"

definition verify_transaction ::
  "('d, 'b, 'h, 't, 's) node_externals \<Rightarrow> Timestamp \<Rightarrow> Transaction \<Rightarrow> BlockHeight \<Rightarrow> MerkleProof \<Rightarrow> LightNode \<Rightarrow>
   LightNode \<times> bool outcome" where
  "verify_transaction X now tx block_height merkle_proof n =
     (case fmlookup (ln_block_headers n) block_height of
        None \<Rightarrow> (n, Err (BlockNotFound (show_nat (unat block_height))))
      | Some header \<Rightarrow>
          if \<not> verify_proof (nx_chain X) merkle_proof then (n, Ok False)
          else if mp_root merkle_proof \<noteq> lh_transactions_root header then (n, Ok False)
          else
            let verified = \<lparr>vt_transaction = tx, vt_block_height = block_height, vt_block_hash = lh_hash header,
                            vt_merkle_proof = [], vt_verified_at = now\<rparr>
            in (n\<lparr>ln_verified_transactions := fmupd (tx_id tx) verified (ln_verified_transactions n),
                  ln_stats := (ln_stats n)\<lparr>nss_transactions_processed := nss_transactions_processed (ln_stats n) + 1\<rparr>\<rparr>, Ok True))"

definition get_header :: "BlockHeight \<Rightarrow> LightNode \<Rightarrow> LightHeader option" where
  "get_header height n = fmlookup (ln_block_headers n) height"

definition get_verified_transaction :: "TxId \<Rightarrow> LightNode \<Rightarrow> VerifiedTransaction option" where
  "get_verified_transaction i n = fmlookup (ln_verified_transactions n) i"

definition header_count :: "LightNode \<Rightarrow> nat" where
  "header_count n = hm_len (ln_block_headers n)"

definition verified_transaction_count :: "LightNode \<Rightarrow> nat" where
  "verified_transaction_count n = hm_len (ln_verified_transactions n)"

definition add_trusted_validator :: "PublicKey \<Rightarrow> LightNode \<Rightarrow> LightNode" where
  "add_trusted_validator v n = n\<lparr>ln_trusted_validators := ln_trusted_validators n @ [v]\<rparr>"

definition remove_trusted_validator :: "PublicKey \<Rightarrow> LightNode \<Rightarrow> LightNode" where
  "remove_trusted_validator v n = n\<lparr>ln_trusted_validators := filter (\<lambda>w. w \<noteq> v) (ln_trusted_validators n)\<rparr>"

definition trusted_validator_count :: "LightNode \<Rightarrow> nat" where
  "trusted_validator_count n = length (ln_trusted_validators n)"

definition is_validator_trusted :: "PublicKey \<Rightarrow> LightNode \<Rightarrow> bool" where
  "is_validator_trusted v n = List.member (ln_trusted_validators n) v"

definition light_on_network ::
  "(NetworkManager \<Rightarrow> NetworkManager \<times> 'r outcome) \<Rightarrow> NetworkManager \<Rightarrow> LightNode \<Rightarrow> LightNode \<times> 'r outcome" where
  "light_on_network f network n = (case f network of (m, r) \<Rightarrow> (n\<lparr>ln_network := Some m\<rparr>, r))"

definition light_start ::
  "('d, 'b, 'h, 't, 's) node_externals \<Rightarrow> StartClock \<Rightarrow> unit outcome \<Rightarrow> (SocketAddr \<Rightarrow> Dial) \<Rightarrow> LightNode \<Rightarrow>
   LightNode \<times> unit outcome" where
  "light_start X clock bound dial n =
     (if ln_running n then (n, Err NodeAlreadyRunning)
      else and_then (light_initialize X clock n) (\<lambda>n _.
        case ln_network n of
          None \<Rightarrow> (n, Err NodeNotInitialized)
        | Some network \<Rightarrow>
            and_then (light_on_network (network_start bound dial) network n) (\<lambda>n _.
              (n\<lparr>ln_running := True, ln_started_at := Some (ck_started clock)\<rparr>, Ok ()))))"

definition light_stop :: "LightNode \<Rightarrow> LightNode \<times> unit outcome" where
  "light_stop n =
     (if \<not> ln_running n then (n, Err NodeNotRunning)
      else let n = n\<lparr>ln_running := False\<rparr> in
        and_then (case ln_network n of None \<Rightarrow> (n, Ok ()) | Some network \<Rightarrow> light_on_network network_stop network n)
          (\<lambda>n _. (n, Ok ())))"

definition light_best_hash :: "LightNode \<Rightarrow> BlockHash" where
  "light_best_hash n =
     (case fmlookup (ln_block_headers n) (ln_current_height n) of Some h \<Rightarrow> lh_hash h | None \<Rightarrow> BlockHash_zero)"

definition light_status :: "Timestamp \<Rightarrow> Timestamp \<Rightarrow> Timestamp \<Rightarrow> LightNode \<Rightarrow> NodeStatus" where
  "light_status now1 now2 now n =
     (let (peer_count, is_syncing) =
        (case ln_network n of
           Some net \<Rightarrow> (network_peer_count net, status_is_syncing (network_sync_status now1 now2 net))
         | None \<Rightarrow> (0, False))
      in \<lparr>nst_node_type = LightType, nst_is_running = ln_running n, nst_is_syncing = is_syncing,
          nst_current_height = ln_current_height n, nst_best_hash = light_best_hash n, nst_peer_count = peer_count,
          nst_uptime = uptime_of now (ln_started_at n), nst_started_at = ln_started_at n\<rparr>)"

section \<open>Starting and stopping\<close>

lemma light_on_network_pair:
  "light_on_network f c n = (n', r) \<longleftrightarrow> (\<exists>m. f c = (m, r) \<and> n' = n\<lparr>ln_network := Some m\<rparr>)"
  by (auto simp: light_on_network_def split: prod.splits)

lemma light_genesis_pair:
  "light_genesis X clock g n = (n', r) \<longleftrightarrow>
     r = Ok () \<and> (\<exists>b v. Block_new (nx_chain X) (ck_chain clock) 0 BlockHash_zero [] v = Ok b \<and>
       v = (case gb_validators g of v # _ \<Rightarrow> v | [] \<Rightarrow> PublicKey (bytes_fill 0)) \<and>
       n' = n\<lparr>ln_trusted_validators := ln_trusted_validators n @ gb_validators g,
              ln_block_headers := fmupd 0 (header_from_block b) (ln_block_headers n)\<rparr>)"
  by (auto simp: light_genesis_def and_then_eq_pair Let_def Block_new_def)

lemmas light_pairs = light_start_def light_stop_def light_on_network_pair light_initialize_def light_genesis_pair and_then_eq_pair

interpretation light: node_lifecycle ln_running "light_start X clock bound dial" light_stop
  for X :: "('d, 'b, 'h, 't, 's) node_externals" and clock bound dial
proof
  show "light_start X clock bound dial n = (n, Err NodeAlreadyRunning)" if "ln_running n" for n
    using that by (simp add: light_start_def)
  show "ln_running n'" if "light_start X clock bound dial n = (n', Ok ())" for n n'
    using that by (auto simp: light_start_def outcome_simps split: if_splits option.splits)
  show "ln_running n' = ln_running n" if "light_start X clock bound dial n = (n', r)" and "r \<noteq> Ok ()" for n n' r
    using that by (auto simp: light_pairs split: if_splits option.splits)
  show "light_stop n = (n, Err NodeNotRunning)" if "\<not> ln_running n" for n
    using that by (simp add: light_stop_def)
  show "\<not> ln_running n' \<and> r = Ok ()" if "ln_running n" "light_stop n = (n', r)" for n n' r
    using that by (auto simp: light_pairs Let_def dest: network_stop_state(1) split: if_splits option.splits)
qed

section \<open>The invariant\<close>

inductive light_step :: "('d, 'b, 'h, 't, 's) node_externals \<Rightarrow> LightNode \<Rightarrow> LightNode \<Rightarrow> bool" for X where
  start: "light_start X clock bound dial n = (n', r) \<Longrightarrow> light_step X n n'"
| stop: "light_stop n = (n', r) \<Longrightarrow> light_step X n n'"
| verify: "verify_transaction X now tx h p n = (n', q) \<Longrightarrow> light_step X n n'"
| trust: "light_step X n (add_trusted_validator v n)"
| untrust: "light_step X n (remove_trusted_validator v n)"

text \<open>The only header is one for height 0, with the root of no transactions, and every transaction that counts as verified is filed under it.\<close>

definition light_wf :: "('d, 'b, 'h, 't, 's) node_externals \<Rightarrow> LightNode \<Rightarrow> bool" where
  "light_wf X n \<longleftrightarrow>
     ln_current_height n = 0 \<and>
     (\<forall>k h. fmlookup (ln_block_headers n) k = Some h \<longrightarrow> k = 0 \<and> lh_transactions_root h = merkle_root (nx_chain X) []) \<and>
     (\<forall>i v. fmlookup (ln_verified_transactions n) i = Some v \<longrightarrow> vt_block_height v = 0)"

lemma light_wf_new: "LightNode_new config = Ok n \<Longrightarrow> light_wf X n"
  by (auto simp: LightNode_new_def light_wf_def)

lemma light_genesis_root:
  "Block_new E now 0 BlockHash_zero [] v = Ok b \<Longrightarrow> lh_transactions_root (header_from_block b) = merkle_root E []"
  by (drule Block_new_fields(8)) (simp add: header_from_block_def tx_leaves_def)

lemma light_wf_step: "light_step X n n' \<Longrightarrow> light_wf X n \<Longrightarrow> light_wf X n'"
proof (induction rule: light_step.induct)
  case (start clock bound dial n n' r)
  then show ?case
    by (auto simp: light_pairs light_wf_def light_genesis_root split: if_splits option.splits)
next
  case (stop n n' r)
  then show ?case by (auto simp: light_pairs light_wf_def Let_def split: if_splits option.splits)
next
  case (verify now tx h p n n' q)
  then show ?case by (auto simp: verify_transaction_def light_wf_def Let_def split: if_splits option.splits)
qed (simp_all add: light_wf_def add_trusted_validator_def remove_trusted_validator_def)

definition reachable_light :: "('d, 'b, 'h, 't, 's) node_externals \<Rightarrow> LightNode \<Rightarrow> bool" where
  "reachable_light X n \<longleftrightarrow> (\<exists>config n0. LightNode_new config = Ok n0 \<and> (light_step X)\<^sup>*\<^sup>* n0 n)"

lemma reachable_light_wf: "reachable_light X n \<Longrightarrow> light_wf X n"
  unfolding reachable_light_def by (auto elim: rtranclp_induct intro: light_wf_new light_wf_step)

section \<open>Facts about the code\<close>

text \<open>No block after the genesis can be checked: there is no header for it, ever.\<close>

lemma light_knows_no_block:
  assumes "reachable_light X n" and "h \<noteq> 0"
  shows "verify_transaction X now tx h p n = (n, Err (BlockNotFound (show_nat (unat h))))"
  using reachable_light_wf [OF assms(1)] assms(2) by (auto simp: light_wf_def verify_transaction_def split: option.splits)

text \<open>
  The proof is not tied to the transaction: the proof of nothing, whose leaf is the root itself, makes
  every transaction one of the genesis block.
\<close>

lemma light_accepts_any_transaction:
  assumes "reachable_light X n" and "fmlookup (ln_block_headers n) 0 = Some h"
  shows "\<exists>n'. verify_transaction X now tx 0
      \<lparr>mp_leaf_hash = merkle_root (nx_chain X) [], mp_leaf_index = 0, mp_proof = [], mp_root = merkle_root (nx_chain X) []\<rparr> n =
      (n', Ok True) \<and> (\<exists>v. get_verified_transaction (tx_id tx) n' = Some v \<and> vt_transaction v = tx)"
  using reachable_light_wf [OF assms(1)] assms(2)
  by (auto simp: light_wf_def verify_transaction_def verify_proof_def get_verified_transaction_def Let_def)

text \<open>Each start adds the validators of the genesis once more.\<close>

lemma light_restart_trust:
  assumes "light_start X clock bound dial n = (n', Ok ())" and "read_genesis X (ln_config n) = Ok g"
  shows "ln_trusted_validators n' = ln_trusted_validators n @ gb_validators g"
  using assms by (auto simp: light_pairs read_genesis_def split: if_splits option.splits)

section \<open>What a proof would show\<close>

text \<open>
  What a light node could conclude if it held the header of a valid block with transactions, which no
  reachable one does (\<open>light_knows_no_block\<close>), and if it checked that the leaf of a proof is the
  identifier of the transaction and its length the depth of the tree, which the code does not
  (\<open>light_accepts_any_transaction\<close>): a proof it accepts then shows that the block contains the
  transaction, provided Blake2b does not collide on the inputs of the tree and of the proof.
\<close>

lemma light_verification_sound:
  assumes "Block_validate (nx_chain X) b = Ok ()" and "blk_transactions b \<noteq> []"
    and "get_header h n = Some (header_from_block b)"
    and "verify_transaction X now tx h p n = (n', Ok True)"
    and "mp_leaf_hash p = BlockHash (tx_id_bytes (tx_id tx))"
    and "MerkleProof_size p = length (levels_of (nx_chain X) (tx_leaves (blk_transactions b))) - 1"
    and "no_collision (nx_chain X) (set (tree_inputs (nx_chain X) (tx_leaves (blk_transactions b))) \<union>
           set (proof_inputs (nx_chain X) (mp_proof p) (mp_leaf_hash p)))"
  shows "tx_id tx \<in> tx_ids b"
proof -
  have "verify_proof (nx_chain X) p" and root: "mp_root p = hdr_transactions_root (blk_header b)"
    using assms(3,4) by (auto simp: verify_transaction_def get_header_def header_from_block_def Let_def split: if_splits)
  moreover have "hdr_transactions_root (blk_header b) = merkle_root (nx_chain X) (tx_leaves (blk_transactions b))"
    using assms(1) by (simp add: Block_validate_Ok)
  moreover have "tx_leaves (blk_transactions b) \<noteq> []" using assms(2) by (simp add: tx_leaves_def)
  ultimately have "mp_leaf_hash p \<in> set (tx_leaves (blk_transactions b))"
    using assms(6,7) by (auto simp: verify_proof_def MerkleProof_size_def intro: verified_path_starts_at_leaf)
  then obtain t where "t \<in> set (blk_transactions b)" "BlockHash (tx_id_bytes (tx_id t)) = BlockHash (tx_id_bytes (tx_id tx))"
    using assms(5) by (auto simp: tx_leaves_def)
  then have "tx_id t = tx_id tx" by (simp add: TxId.expand)
  with \<open>t \<in> set (blk_transactions b)\<close> show ?thesis unfolding tx_ids_def by (metis imageI)
qed

end
