(* ===== verification/Node_Builder.thy ===== *)
theory Node_Builder
  imports Validator_Node Light_Node
begin

text \<open>
  \<open>node/src/lib.rs\<close>: the builder, which makes the node that the configuration asks for, and the calls of
  the trait \<open>Node\<close> on what it makes. A value of \<open>dyn_node\<close> is a boxed node.
\<close>

datatype ('d, 'b, 'h, 't, 's) dyn_node =
    DynValidator "('d, 'b, 'h, 't, 's) ValidatorNode"
  | DynFull "('d, 'b, 'h, 't, 's) FullNode"
  | DynLight LightNode

record NodeBuilder =
  nb_config :: NodeConfig

definition NodeBuilder_new :: "NodeConfig \<Rightarrow> NodeBuilder" where
  "NodeBuilder_new config = \<lparr>nb_config = config\<rparr>"

definition node_build ::
  "('d, 'b, 'h, 't, 's) node_externals \<Rightarrow> NodeBuilder \<Rightarrow> ('d, 'b, 'h, 't, 's) dyn_node outcome" where
  "node_build X builder =
     (case ncf_node_type (nb_config builder) of
        ValidatorType \<Rightarrow> rbind (ValidatorNode_new X (nb_config builder)) (\<lambda>node. Ok (DynValidator node))
      | FullType \<Rightarrow> rbind (FullNode_new (nb_config builder)) (\<lambda>node. Ok (DynFull node))
      | LightType \<Rightarrow> rbind (LightNode_new (nb_config builder)) (\<lambda>node. Ok (DynLight node)))"

fun node_start ::
  "('d, 'b, 'h, 't, 's) node_externals \<Rightarrow> StartClock \<Rightarrow> unit outcome \<Rightarrow> (SocketAddr \<Rightarrow> Dial) \<Rightarrow>
   ('d, 'b, 'h, 't, 's) dyn_node \<Rightarrow> ('d, 'b, 'h, 't, 's) dyn_node \<times> unit outcome" where
  "node_start X clock bound dial (DynValidator n) = map_prod DynValidator id (validator_start X clock bound dial n)"
| "node_start X clock bound dial (DynFull n) = map_prod DynFull id (full_start X clock bound dial n)"
| "node_start X clock bound dial (DynLight n) = map_prod DynLight id (light_start X clock bound dial n)"

fun node_stop :: "('d, 'b, 'h, 't, 's) dyn_node \<Rightarrow> ('d, 'b, 'h, 't, 's) dyn_node \<times> unit outcome" where
  "node_stop (DynValidator n) = map_prod DynValidator id (validator_stop n)"
| "node_stop (DynFull n) = map_prod DynFull id (full_stop n)"
| "node_stop (DynLight n) = map_prod DynLight id (light_stop n)"

fun node_is_running :: "('d, 'b, 'h, 't, 's) dyn_node \<Rightarrow> bool" where
  "node_is_running (DynValidator n) = vn_running n"
| "node_is_running (DynFull n) = fn_running n"
| "node_is_running (DynLight n) = ln_running n"

fun node_status :: "Timestamp \<Rightarrow> Timestamp \<Rightarrow> Timestamp \<Rightarrow> ('d, 'b, 'h, 't, 's) dyn_node \<Rightarrow> NodeStatus" where
  "node_status now1 now2 now (DynValidator n) = validator_status now1 now2 now n"
| "node_status now1 now2 now (DynFull n) = full_status now1 now2 now n"
| "node_status now1 now2 now (DynLight n) = light_status now1 now2 now n"

fun node_stats :: "('d, 'b, 'h, 't, 's) dyn_node \<Rightarrow> NodeStats" where
  "node_stats (DynValidator n) = vn_stats n"
| "node_stats (DynFull n) = fn_stats n"
| "node_stats (DynLight n) = ln_stats n"

fun node_current_height :: "('d, 'b, 'h, 't, 's) dyn_node \<Rightarrow> BlockHeight" where
  "node_current_height (DynValidator n) = validator_current_height n"
| "node_current_height (DynFull n) = full_current_height n"
| "node_current_height (DynLight n) = ln_current_height n"

fun node_best_hash :: "('d, 'b, 'h, 't, 's) dyn_node \<Rightarrow> BlockHash" where
  "node_best_hash (DynValidator n) = validator_best_hash n"
| "node_best_hash (DynFull n) = full_best_hash n"
| "node_best_hash (DynLight n) = light_best_hash n"

section \<open>The contract\<close>

text \<open>The boxed node keeps the contract because the node in the box does.\<close>

interpretation dyn: node_lifecycle node_is_running "node_start X clock bound dial" node_stop
  for X :: "('d, 'b, 'h, 't, 's) node_externals" and clock bound dial
proof
  fix n n' :: "('d, 'b, 'h, 't, 's) dyn_node" and r :: "unit outcome"
  show "node_start X clock bound dial n = (n, Err NodeAlreadyRunning)" if "node_is_running n"
    using that by (cases n) (simp_all add: validator.start_running full.start_running light.start_running)
  show "node_is_running n'" if "node_start X clock bound dial n = (n', Ok ())"
    using that by (cases n) (auto simp: map_prod_def split: prod.splits dest: validator.start_Ok full.start_Ok light.start_Ok)
  show "node_is_running n' = node_is_running n" if "node_start X clock bound dial n = (n', r)" "r \<noteq> Ok ()"
    using that
    by (cases n) (auto simp: map_prod_def split: prod.splits dest: validator.start_failed full.start_failed light.start_failed)
  show "node_stop n = (n, Err NodeNotRunning)" if "\<not> node_is_running n"
    using that by (cases n) (simp_all add: validator.stop_stopped full.stop_stopped light.stop_stopped)
  show "\<not> node_is_running n' \<and> r = Ok ()" if "node_is_running n" "node_stop n = (n', r)"
    using that
    by (cases n) (auto simp: map_prod_def split: prod.splits dest: validator.stop_stops full.stop_stops light.stop_stops)
qed

inductive node_step ::
  "('d, 'b, 'h, 't, 's) node_externals \<Rightarrow> ('d, 'b, 'h, 't, 's) dyn_node \<Rightarrow> ('d, 'b, 'h, 't, 's) dyn_node \<Rightarrow> bool" for X where
  start: "node_start X clock bound dial n = (n', r) \<Longrightarrow> node_step X n n'"
| stop: "node_stop n = (n', r) \<Longrightarrow> node_step X n n'"

fun dyn_type :: "('d, 'b, 'h, 't, 's) dyn_node \<Rightarrow> NodeType" where
  "dyn_type (DynValidator n) = ValidatorType"
| "dyn_type (DynFull n) = FullType"
| "dyn_type (DynLight n) = LightType"

lemma node_step_type: "node_step X n n' \<Longrightarrow> dyn_type n' = dyn_type n"
  by (erule node_step.cases; cases n) (auto simp: map_prod_def split: prod.splits)

lemma node_status_type: "nst_node_type (node_status now1 now2 now n) = dyn_type n"
  by (cases n) (auto simp: validator_status_def full_status_def light_status_def components_status_def split: option.splits)

lemma node_status_running: "nst_is_running (node_status now1 now2 now n) = node_is_running n"
  by (cases n) (auto simp: validator_status_def full_status_def light_status_def components_status_def split: option.splits)

section \<open>Properties\<close>

text \<open>
  C14: A node is of the kind that was asked for: whatever sequence of starts and stops follows, and
  whether they succeed or not, the status reports the type of the configuration; and it reports a
  running node exactly after a start that succeeded and no stop since, so that a second start and a
  second stop are refused.
\<close>

theorem node_build_type:
  assumes "node_build X (NodeBuilder_new config) = Ok n0" and "(node_step X)\<^sup>*\<^sup>* n0 n"
  shows "nst_node_type (node_status now1 now2 now n) = ncf_node_type config \<and>
    (node_start X clock bound dial n = (n', Ok ()) \<longrightarrow>
       nst_is_running (node_status now1 now2 now n') \<and> node_start X clock bound dial n' = (n', Err NodeAlreadyRunning)) \<and>
    (node_stop n = (n', Ok ()) \<longrightarrow>
       \<not> nst_is_running (node_status now1 now2 now n') \<and> node_stop n' = (n', Err NodeNotRunning))"
proof -
  have "dyn_type n0 = ncf_node_type config"
    using assms(1) by (auto simp: node_build_def NodeBuilder_new_def outcome_simps split: NodeType.splits)
  moreover have "dyn_type n = dyn_type n0"
    using assms(2) by (induction rule: rtranclp_induct) (auto dest: node_step_type)
  moreover have "node_is_running n' \<and> node_start X clock bound dial n' = (n', Err NodeAlreadyRunning)"
    if "node_start X clock bound dial n = (n', Ok ())"
    using dyn.start_Ok [OF that] dyn.start_twice [OF that] by simp
  moreover have "\<not> node_is_running n' \<and> node_stop n' = (n', Err NodeNotRunning)" if stop: "node_stop n = (n', Ok ())"
  proof (cases "node_is_running n")
    case True
    then show ?thesis using dyn.stop_stops [OF True stop] dyn.stop_twice [OF True stop] by simp
  next
    case False
    then show ?thesis using stop dyn.stop_stopped [OF False] by simp
  qed
  ultimately show ?thesis by (simp add: node_status_type node_status_running)
qed

theorem node_build_type_witness:
  "\<exists>n. node_build sample_node_env (NodeBuilder_new (NodeConfig_light_node)) = Ok n \<and>
     nst_node_type (node_status 1 2 3 n) = LightType \<and> node_stop n = (n, Err NodeNotRunning)"
proof -
  let ?n = "DynLight (ok_value (LightNode_new NodeConfig_light_node)) ::
    (MemoryDatabase, sample_block_lru, sample_height_lru, sample_tx_lru, sample_state_lru) dyn_node"
  have new: "node_build sample_node_env (NodeBuilder_new (NodeConfig_light_node)) = Ok ?n"
    by (simp add: node_build_def NodeBuilder_new_def LightNode_new_def NodeConfig_light_node_def)
  moreover have "nst_node_type (node_status 1 2 3 ?n) = LightType"
    using node_build_type [OF new rtranclp.rtrancl_refl] by (simp add: NodeConfig_light_node_def)
  moreover have "node_stop ?n = (?n, Err NodeNotRunning)"
    by (simp add: light_stop_def LightNode_new_def)
  ultimately show ?thesis by blast
qed

end
