(* ===== verification/Background_Loops.thy ===== *)
theory Background_Loops
  imports Node_Builder
begin

text \<open>
  The tasks that components spawn: \<open>sync_loop\<close>, \<open>cleanup_loop\<close>, \<open>discovery_loop\<close> and \<open>accept_loop\<close> of \<open>network\<close>, the loops of the
  three nodes. A state is a component together with the number of its tasks that have not ended. A round of a loop, from one
  tick to the next, is one step; ticks, calls of \<open>start\<close> and \<open>stop\<close> and all other calls interleave in any order. The locale
  \<open>background_service\<close> is what these components share: an invariant under which no round of a running component panics.
\<close>

section \<open>Rounds\<close>

datatype loop_fate = Goes_On | Ends

text \<open>
  \<open>loop { tick; if !running { break; } if let Err(e) = body { log } }\<close>: an error is logged and the loop goes on, a panic ends the
  task.
\<close>

definition loop_round :: "('s \<Rightarrow> bool) \<Rightarrow> ('s \<Rightarrow> 's \<times> 'r outcome) \<Rightarrow> 's \<Rightarrow> 's \<times> loop_fate" where
  "loop_round running body s =
     (if \<not> running s then (s, Ends)
      else case body s of (s', Panic m) \<Rightarrow> (s', Ends) | (s', _) \<Rightarrow> (s', Goes_On))"

text \<open>Two bodies in a row: the second runs after an error of the first, too.\<close>

definition logged_then :: "('s \<Rightarrow> 's \<times> 'r outcome) \<Rightarrow> ('s \<Rightarrow> 's \<times> 'q outcome) \<Rightarrow> 's \<Rightarrow> 's \<times> 'q outcome" where
  "logged_then body body' s = (case body s of (s', Panic m) \<Rightarrow> (s', Panic m) | (s', _) \<Rightarrow> body' s')"

definition sync_loop_round :: "Timestamp \<Rightarrow> BlockSync \<Rightarrow> BlockSync \<times> loop_fate" where
  "sync_loop_round now = loop_round bsy_running (logged_then process_sync (check_timeouts now))"

definition cleanup_loop_round :: "Timestamp \<Rightarrow> GossipProtocol \<Rightarrow> GossipProtocol \<times> loop_fate" where
  "cleanup_loop_round now = loop_round gp_running (cleanup_stale_entries now)"

definition discovery_loop_round ::
  "((SocketAddr, DiscoveredPeer) hashmap \<Rightarrow> SocketAddr list) \<times> Timestamp \<times> Timestamp \<Rightarrow> PeerDiscovery \<Rightarrow> PeerDiscovery \<times> loop_fate" where
  "discovery_loop_round = (\<lambda>(iteration, now, now'). loop_round pd_running (logged_then (discover_peers iteration now) (clean_stale_peers now')))"

definition node_sync_round :: "Timestamp \<times> Timestamp \<Rightarrow> ('d, 'b, 'h, 't, 's) FullNode \<Rightarrow> ('d, 'b, 'h, 't, 's) FullNode \<times> loop_fate" where
  "node_sync_round = (\<lambda>(now, now'). loop_round fn_running (\<lambda>n. (n, sync_with_network now now' n)))"

definition header_sync_round :: "LightNode \<Rightarrow> LightNode \<times> loop_fate" where
  "header_sync_round = loop_round ln_running (\<lambda>n. (n, sync_headers n))"

definition block_production_round ::
  "('d, 'b, 'h, 't, 's) node_externals \<Rightarrow> Timestamp \<times> stamp \<times> (nat \<Rightarrow> Timestamp) \<Rightarrow>
   ('d, 'b, 'h, 't, 's) ValidatorNode \<Rightarrow> ('d, 'b, 'h, 't, 's) ValidatorNode \<times> loop_fate" where
  "block_production_round X = (\<lambda>(now, st, sent_at). loop_round vn_running (produce_block X now st sent_at))"

section \<open>Components with tasks\<close>

text \<open>\<open>'a\<close> holds the arguments of a start, \<open>'e\<close> what a round reads from outside; \<open>sv_calls\<close> are the effects of all other calls.\<close>

record ('a, 'e, 's) service =
  sv_running :: "'s \<Rightarrow> bool"
  sv_start :: "'a \<Rightarrow> 's \<Rightarrow> 's \<times> unit outcome"
  sv_stop :: "'s \<Rightarrow> 's \<times> unit outcome"
  sv_round :: "'e \<Rightarrow> 's \<Rightarrow> 's \<times> loop_fate"
  sv_calls :: "'s \<Rightarrow> 's \<Rightarrow> bool"

text \<open>A start that succeeds spawns a task; \<open>stop\<close> only clears the flag; one of the tasks runs a round.\<close>

definition call_start :: "('a, 'e, 's) service \<Rightarrow> 'a \<Rightarrow> 's \<times> nat \<Rightarrow> 's \<times> nat" where
  "call_start S a = (\<lambda>(s, tasks). case sv_start S a s of (s', r) \<Rightarrow> (s', if r = Ok () then Suc tasks else tasks))"

definition call_stop :: "('a, 'e, 's) service \<Rightarrow> 's \<times> nat \<Rightarrow> 's \<times> nat" where
  "call_stop S = (\<lambda>(s, tasks). (fst (sv_stop S s), tasks))"

definition run_round :: "('a, 'e, 's) service \<Rightarrow> 'e \<Rightarrow> 's \<times> nat \<Rightarrow> 's \<times> nat" where
  "run_round S e = (\<lambda>(s, tasks).
     if tasks = 0 then (s, tasks)
     else case sv_round S e s of (s', Goes_On) \<Rightarrow> (s', tasks) | (s', Ends) \<Rightarrow> (s', tasks - 1))"

datatype task_label = Starts | Stops | Rounds | Calls

text \<open>
  The interleavings of starts, stops, rounds and other calls, all of them, whatever they return: a round that panics costs
  the component a task.
\<close>

inductive task_step :: "('a, 'e, 's) service \<Rightarrow> task_label \<Rightarrow> 's \<times> nat \<Rightarrow> 's \<times> nat \<Rightarrow> bool" for S where
  started: "task_step S Starts x (call_start S a x)"
| stopped: "task_step S Stops x (call_stop S x)"
| round: "task_step S Rounds x (run_round S e x)"
| called: "sv_calls S s s' \<Longrightarrow> task_step S Calls (s, tasks) (s', tasks)"

definition any_step :: "('a, 'e, 's) service \<Rightarrow> 's \<times> nat \<Rightarrow> 's \<times> nat \<Rightarrow> bool" where
  "any_step S x y \<longleftrightarrow> (\<exists>l. task_step S l x y)"

definition undisturbed :: "('a, 'e, 's) service \<Rightarrow> 's \<times> nat \<Rightarrow> 's \<times> nat \<Rightarrow> bool" where
  "undisturbed S x y \<longleftrightarrow> (\<exists>l. l \<noteq> Stops \<and> task_step S l x y)"

text \<open>
  What every component promises: who sets and clears the flag, an invariant \<open>wf\<close> that everything keeps, and that under it
  a round of a running component goes on.
\<close>

locale background_service =
  fixes S :: "('a, 'e, 's) service" and wf :: "'s \<Rightarrow> bool"
  assumes start_running: "sv_running S s \<Longrightarrow> sv_start S a s = (s', r) \<Longrightarrow> r \<noteq> Ok () \<and> sv_running S s'"
    and start_Ok: "sv_start S a s = (s', Ok ()) \<Longrightarrow> sv_running S s'"
    and start_failed: "sv_start S a s = (s', r) \<Longrightarrow> r \<noteq> Ok () \<Longrightarrow> sv_running S s' = sv_running S s"
    and stop_stops: "\<not> sv_running S (fst (sv_stop S s))"
    and round_stopped: "\<not> sv_running S s \<Longrightarrow> sv_round S e s = (s, Ends)"
    and round_running: "sv_running S s \<Longrightarrow> sv_running S (fst (sv_round S e s))"
    and calls_running: "sv_calls S s s' \<Longrightarrow> sv_running S s' = sv_running S s"
    and start_inv: "wf s \<Longrightarrow> wf (fst (sv_start S a s))"
    and stop_inv: "wf s \<Longrightarrow> wf (fst (sv_stop S s))"
    and round_inv: "wf s \<Longrightarrow> wf (fst (sv_round S e s))"
    and calls_inv: "sv_calls S s s' \<Longrightarrow> wf s \<Longrightarrow> wf s'"
    and round_goes_on: "wf s \<Longrightarrow> sv_running S s \<Longrightarrow> snd (sv_round S e s) = Goes_On"
begin

lemma fst_run_round: "fst (run_round S e (s, k)) = (if k = 0 then s else fst (sv_round S e s))"
  by (simp add: run_round_def split: prod.split loop_fate.split)

lemma step_inv: "task_step S l x y \<Longrightarrow> wf (fst x) \<Longrightarrow> wf (fst y)"
proof (induction rule: task_step.induct)
  case (started x a)
  then show ?case using start_inv [of "fst x" a] by (cases x) (auto simp: call_start_def split: prod.split)
next
  case (round x e)
  then show ?case using round_inv by (cases x) (simp add: fst_run_round)
qed (auto simp: call_stop_def stop_inv split: prod.split intro: calls_inv)

lemma steps_inv: "(any_step S)\<^sup>*\<^sup>* x y \<Longrightarrow> wf (fst x) \<Longrightarrow> wf (fst y)"
  by (induction rule: rtranclp_induct) (auto simp: any_step_def dest: step_inv)

text \<open>As long as the component runs and nobody stops it, no task ends, whichever start it is from, and none is added.\<close>

lemma undisturbed_step:
  assumes "l \<noteq> Stops" and "task_step S l (s, k) (s', k')" and "wf s" and "sv_running S s"
  shows "sv_running S s' \<and> k' = k"
  using assms(2)
proof (cases rule: task_step.cases)
  case (started a)
  then show ?thesis using start_running [OF assms(4), of a] by (auto simp: call_start_def split: prod.split_asm if_splits)
next
  case (round e)
  then show ?thesis
    using round_goes_on [OF assms(3,4), of e] round_running [OF assms(4), of e] assms(4)
    by (cases "sv_round S e s") (auto simp: run_round_def split: if_splits)
qed (use assms calls_running in auto)

lemma undisturbed_steps:
  assumes "(undisturbed S)\<^sup>*\<^sup>* (s, k) (s', k')" and "wf s" and "sv_running S s"
  shows "wf s' \<and> sv_running S s' \<and> k' = k"
  using assms(1)
proof (induction "(s', k')" arbitrary: s' k' rule: rtranclp_induct)
  case (step x)
  obtain t j where "x = (t, j)" by (cases x)
  with step undisturbed_step step_inv show ?case by (fastforce simp: undisturbed_def)
qed (use assms in simp)

text \<open>A running component has a task.\<close>

lemma step_keeps_task:
  assumes "task_step S l (s, k) (s', k')" and "wf s" and "sv_running S s \<longrightarrow> 1 \<le> k" and "sv_running S s'"
  shows "1 \<le> k'"
proof (cases "sv_running S s")
  case True
  then have "l \<noteq> Stops" using assms(1,4) stop_stops by (auto simp: call_stop_def elim: task_step.cases)
  then show ?thesis using undisturbed_step [OF _ assms(1,2) True] True assms(3) by simp
next
  case stopped: False
  from assms(1) show ?thesis
  proof (cases rule: task_step.cases)
    case (started a)
    then show ?thesis using stopped assms(4) start_failed [of a s s'] by (auto simp: call_start_def split: prod.split_asm if_splits)
  next
    case (round e)
    then show ?thesis using stopped assms(4) round_stopped [of s e] by (auto simp: run_round_def split: if_splits)
  qed (use stopped assms(4) stop_stops calls_running in \<open>auto simp: call_stop_def\<close>)
qed

lemma running_has_task:
  assumes "(any_step S)\<^sup>*\<^sup>* (s, 0) (s', k)" and "wf s" and "\<not> sv_running S s" and "sv_running S s'"
  shows "1 \<le> k"
  using assms(1,4)
proof (induction "(s', k)" arbitrary: s' k rule: rtranclp_induct)
  case (step x)
  obtain t j where x: "x = (t, j)" by (cases x)
  then have "wf t" using steps_inv [OF step(1)] assms(2) by simp
  with step x step_keeps_task show ?case by (fastforce simp: any_step_def)
qed (use assms(3) in simp)

text \<open>Once the flag is down, every task ends at its next round, which does nothing else.\<close>

lemma stopped_rounds: "\<not> sv_running S s \<Longrightarrow> fold (run_round S) es (s, k) = (s, k - length es)"
  by (induction es arbitrary: k) (auto simp: run_round_def round_stopped)

text \<open>So a start before the tasks of the last one have seen the stop revives them all.\<close>

lemma restart_adds_task:
  assumes "sv_start S a s = (s1, Ok ())" and "wf s" and "(undisturbed S)\<^sup>*\<^sup>* (call_start S a (s, k)) (s', k')"
  shows "k' = Suc k"
  using assms(1,3) undisturbed_steps [of s1 "Suc k"] start_Ok [OF assms(1)] start_inv [OF assms(2), of a]
  by (simp add: call_start_def)

end

section \<open>The components\<close>

text \<open>
  Of the components whose rounds never panic, whatever their state, another call may change anything but the flag. Of a validator
  node the other calls are blocks from the network and whatever changes the network; a call that only reads is the change of the
  network that leaves it as it is.
\<close>

definition same_flag :: "('s \<Rightarrow> bool) \<Rightarrow> 's \<Rightarrow> 's \<Rightarrow> bool" where
  "same_flag running s s' \<longleftrightarrow> running s' = running s"

inductive validator_calls ::
  "('d, 'b, 'h, 't, 's) node_externals \<Rightarrow> ('d, 'b, 'h, 't, 's) ValidatorNode \<Rightarrow> ('d, 'b, 'h, 't, 's) ValidatorNode \<Rightarrow> bool"
  for X where
  block_arrives: "handle_new_block X block n = (n', r) \<Longrightarrow> validator_calls X n n'"
| network_changes: "vn_components n = Some c \<Longrightarrow> validator_calls X n (n\<lparr>vn_components := Some (c\<lparr>nco_network := m\<rparr>)\<rparr>)"

definition sync_service :: "(unit, Timestamp, BlockSync) service" where
  "sync_service = \<lparr>sv_running = bsy_running, sv_start = (\<lambda>_. sync_start), sv_stop = sync_stop, sv_round = sync_loop_round, sv_calls = same_flag bsy_running\<rparr>"

definition gossip_service :: "(unit, Timestamp, GossipProtocol) service" where
  "gossip_service = \<lparr>sv_running = gp_running, sv_start = (\<lambda>_. gossip_start), sv_stop = gossip_stop, sv_round = cleanup_loop_round, sv_calls = same_flag gp_running\<rparr>"

definition discovery_service ::
  "(unit, ((SocketAddr, DiscoveredPeer) hashmap \<Rightarrow> SocketAddr list) \<times> Timestamp \<times> Timestamp, PeerDiscovery) service" where
  "discovery_service =
     \<lparr>sv_running = pd_running, sv_start = (\<lambda>_. discovery_start), sv_stop = discovery_stop, sv_round = discovery_loop_round, sv_calls = same_flag pd_running\<rparr>"

type_synonym start_args = "StartClock \<times> unit outcome \<times> (SocketAddr \<Rightarrow> Dial)"

definition full_service ::
  "('d, 'b, 'h, 't, 's) node_externals \<Rightarrow> (start_args, Timestamp \<times> Timestamp, ('d, 'b, 'h, 't, 's) FullNode) service" where
  "full_service X =
     \<lparr>sv_running = fn_running, sv_start = (\<lambda>(clock, bound, dial). full_start X clock bound dial), sv_stop = full_stop,
      sv_round = node_sync_round, sv_calls = same_flag fn_running\<rparr>"

definition light_service :: "('d, 'b, 'h, 't, 's) node_externals \<Rightarrow> (start_args, unit, LightNode) service" where
  "light_service X =
     \<lparr>sv_running = ln_running, sv_start = (\<lambda>(clock, bound, dial). light_start X clock bound dial), sv_stop = light_stop,
      sv_round = (\<lambda>_. header_sync_round), sv_calls = same_flag ln_running\<rparr>"

definition validator_service ::
  "('d, 'b, 'h, 't, 's) node_externals \<Rightarrow>
   (start_args, Timestamp \<times> stamp \<times> (nat \<Rightarrow> Timestamp), ('d, 'b, 'h, 't, 's) ValidatorNode) service" where
  "validator_service X =
     \<lparr>sv_running = vn_running, sv_start = (\<lambda>(clock, bound, dial). validator_start X clock bound dial), sv_stop = validator_stop,
      sv_round = block_production_round X, sv_calls = validator_calls X\<rparr>"

text \<open>A round obeys the laws if its body leaves the flag alone.\<close>

lemma loop_round_stopped: "\<not> running s \<Longrightarrow> loop_round running body s = (s, Ends)"
  by (simp add: loop_round_def)

lemma fst_loop_round: "fst (loop_round running body s) = (if running s then fst (body s) else s)"
  by (auto simp: loop_round_def split: prod.split result.split)

lemma fst_logged_then: "fst (logged_then body body' s) = (if is_panic (snd (body s)) then fst (body s) else fst (body' (fst (body s))))"
  by (auto simp: logged_then_def split: prod.split result.split)

lemma process_sync_running: "bsy_running (fst (process_sync s)) = bsy_running s"
  by (auto simp: process_sync_def process_syncing_def process_catching_def complete_sync_def split: SyncState.split)

lemma snd_loop_round: "running s \<Longrightarrow> snd (loop_round running body s) = (if is_panic (snd (body s)) then Ends else Goes_On)"
  by (auto simp: loop_round_def split: prod.split result.split)

lemma snd_logged_then:
  "is_panic (snd (logged_then body body' s)) \<longleftrightarrow> is_panic (snd (body s)) \<or> is_panic (snd (body' (fst (body s))))"
  by (auto simp: logged_then_def split: prod.split result.split)

lemmas loop_rounds = loop_round_stopped fst_loop_round snd_loop_round fst_logged_then snd_logged_then same_flag_def

lemma process_sync_no_panic: "\<not> is_panic (snd (process_sync s))"
  by (auto simp: process_sync_def process_syncing_def process_catching_def complete_sync_def split: SyncState.split)

interpretation sync_loops: background_service sync_service "\<lambda>_. True"
  by unfold_locales
    (auto simp: sync_service_def sync_start_def sync_stop_def sync_loop_round_def loop_rounds process_sync_running
      process_sync_no_panic check_timeouts_def split: if_splits)

interpretation gossip_loops: background_service gossip_service "\<lambda>_. True"
  by unfold_locales
    (auto simp: gossip_service_def gossip_start_def gossip_stop_def cleanup_loop_round_def loop_rounds cleanup_stale_entries_def
      split: if_splits)

interpretation discovery_loops: background_service discovery_service "\<lambda>_. True"
  by unfold_locales
    (auto simp: discovery_service_def discovery_start_def discovery_stop_def discovery_loop_round_def loop_rounds
      discover_peers_def clean_stale_peers_def Let_def split: if_splits)

text \<open>A node of the trait \<open>Node\<close> obeys the laws of its lifecycle.\<close>

lemma lifecycle_service:
  fixes wf :: "'s \<Rightarrow> bool" and S :: "('a, 'e, 's) service"
  assumes life: "\<And>a. node_lifecycle (sv_running S) (sv_start S a) (sv_stop S)"
    and laws: "\<And>s e. \<not> sv_running S s \<Longrightarrow> sv_round S e s = (s, Ends)" "\<And>s e. sv_running S s \<Longrightarrow> sv_running S (fst (sv_round S e s))"
      "\<And>s s'. sv_calls S s s' \<Longrightarrow> sv_running S s' = sv_running S s" "\<And>s a. wf s \<Longrightarrow> wf (fst (sv_start S a s))"
      "\<And>s. wf s \<Longrightarrow> wf (fst (sv_stop S s))" "\<And>s e. wf s \<Longrightarrow> wf (fst (sv_round S e s))"
      "\<And>s s'. sv_calls S s s' \<Longrightarrow> wf s \<Longrightarrow> wf s'" "\<And>s e. wf s \<Longrightarrow> sv_running S s \<Longrightarrow> snd (sv_round S e s) = Goes_On"
  shows "background_service S wf"
proof (rule background_service.intro)
  show "r \<noteq> Ok () \<and> sv_running S s'" if "sv_running S s" "sv_start S a s = (s', r)" for s a s' r
    using that node_lifecycle.start_running [OF life] by fastforce
  show "\<not> sv_running S (fst (sv_stop S s))" for s
    using node_lifecycle.stop_stopped [OF life] node_lifecycle.stop_stops [OF life]
    by (cases "sv_running S s") (metis fst_conv prod.collapse)+
qed (fact laws node_lifecycle.start_Ok [OF life] node_lifecycle.start_failed [OF life])+

lemma full_lifecycle: "node_lifecycle (sv_running (full_service X)) (sv_start (full_service X) a) (sv_stop (full_service X))"
  using full.node_lifecycle_axioms by (cases a) (simp add: full_service_def)

interpretation full_loops: background_service "full_service X" "\<lambda>_. True" for X :: "('d, 'b, 'h, 't, 's) node_externals"
  by (rule lifecycle_service [OF full_lifecycle]) (auto simp: full_service_def node_sync_round_def loop_rounds sync_with_network_def split: option.split)

lemma light_lifecycle: "node_lifecycle (sv_running (light_service X)) (sv_start (light_service X) a) (sv_stop (light_service X))"
  using light.node_lifecycle_axioms by (cases a) (simp add: light_service_def)

interpretation light_loops: background_service "light_service X" "\<lambda>_. True" for X :: "('d, 'b, 'h, 't, 's) node_externals"
  by (rule lifecycle_service [OF light_lifecycle]) (auto simp: light_service_def header_sync_round_def loop_rounds sync_headers_def split: option.split)

section \<open>Producing blocks does not panic\<close>

text \<open>Producing a block does not touch the flag.\<close>

lemma and_then_keeps: "P (fst m) \<Longrightarrow> (\<And>s x. m = (s, Ok x) \<Longrightarrow> P s \<Longrightarrow> P (fst (f s x))) \<Longrightarrow> P (fst (and_then m f))"
  by (cases "(m, f)" rule: and_then.cases) auto

lemma if_keeps: "P (fst x) \<Longrightarrow> P (fst y) \<Longrightarrow> P (fst (if c then x else y))"
  by simp

lemma produce_block_running: "vn_running (fst (produce_block X now st sent_at n)) = vn_running n"
proof -
  note keeps = and_then_keeps [where P = "\<lambda>m. vn_running m = vn_running n"] if_keeps [where P = "\<lambda>m. vn_running m = vn_running n"]
  show ?thesis
    unfolding produce_block_def Let_def
    by (cases "vn_components n"; cases "vn_consensus n"; simp only: option.case; (intro keeps)?)
      (simp_all add: validator_on_network_def validator_add_block_def Let_def split: prod.split)
qed

lemma handle_new_block_running: "vn_running (fst (handle_new_block X block n)) = vn_running n"
proof -
  note keeps = and_then_keeps [where P = "\<lambda>m. vn_running m = vn_running n"] if_keeps [where P = "\<lambda>m. vn_running m = vn_running n"]
  show ?thesis
    unfolding handle_new_block_def
    by (cases "vn_components n"; cases "vn_consensus n"; simp only: option.case; (intro keeps)?)
      (simp_all add: validator_add_block_def Let_def split: prod.split)
qed

text \<open>
  Nor does it panic on a node whose chain and validators are as the code makes them, if encoding a block does not: the chain has a
  last block, the turn is an index into the validators, the slots are 5 seconds long, and the new block has no transactions.
\<close>

definition encoding_returns :: "('d, 'b, 'h, 't, 's) node_externals \<Rightarrow> bool" where
  "encoding_returns X \<longleftrightarrow> (\<forall>block. \<not> is_panic (serialize (block_codec (nx_codecs X)) block))"

lemma and_then_no_panic:
  "\<not> is_panic (snd m) \<Longrightarrow> (\<And>s x. m = (s, Ok x) \<Longrightarrow> \<not> is_panic (snd (f s x))) \<Longrightarrow> \<not> is_panic (snd (and_then m f))"
  by (cases "(m, f)" rule: and_then.cases) auto

lemma if_no_panic:
  "(c \<Longrightarrow> \<not> is_panic (snd x)) \<Longrightarrow> (\<not> c \<Longrightarrow> \<not> is_panic (snd y)) \<Longrightarrow> \<not> is_panic (snd (if c then x else y))"
  by simp

lemma get_block_producer_no_panic: "\<not> is_panic (get_block_producer p h)"
  by (cases "vset_validators (poa_validator_set p) = []") (simp_all add: get_block_producer_eq get_block_producer_empty)

lemma poa_validate_block_no_panic: "poa_block_time p \<noteq> 0 \<Longrightarrow> \<not> is_panic (poa_validate_block E p b)"
  using get_block_producer_no_panic
  by (auto simp: poa_validate_block_def is_validator_turn_by_height_def validate_block_timing_def get_validator_time_slot_def
      checked_div_def Let_def rbind_is_panic)

lemma new_no_panic: "\<not> is_panic (Block_new E now h prev txs key)"
  using Block_new_total [of E now h prev txs key] by auto

lemma check_empty_no_panic:
  assumes "bc_blocks c \<noteq> []" and "blk_transactions b = []"
  shows "\<not> is_panic (check_block E c b)"
  using assms validate_chain_link_no_panic [of E b]
  by (simp add: check_block_def Block_validate_def Let_def latest_block_def vec_last_def rbind_is_panic)

lemma add_block_result: "snd (add_block E c b) = check_block E c b"
  by (simp add: add_block_def split: result.split)

lemma produce_block_no_panic:
  assumes "validator_wf X n" and "encoding_returns X"
  shows "\<not> is_panic (snd (produce_block X now st sent_at n))"
proof (cases "\<exists>c p. vn_components n = Some c \<and> vn_consensus n = Some p")
  case True
  then obtain c p where cp: "vn_components n = Some c" "vn_consensus n = Some p" by blast
  have wf: "validator_state_wf X (validator_public_key n) c p" using assms(1) cp by (simp add: validator_wf_def)
  then have ne: "bc_blocks (nco_blockchain c) \<noteq> []"
    using reachable_chain_wf by (auto simp: validator_state_wf_def chain_wf_def blocks_wf_def)
  then have best: "\<not> is_panic (get_best_block (nco_blockchain c))" by (simp add: get_best_block_def vec_last_def)
  have timing: "\<not> is_panic (poa_validate_block (nx_chain X) p b)" for b
    using wf by (intro poa_validate_block_no_panic) (simp add: validator_state_wf_def)
  have add: "\<not> is_panic (snd (validator_add_block X (add_signature b key sig) c m))"
    if "blk_transactions b = []" for b key sig m
  proof -
    have "blk_transactions (add_signature b key sig) = []" using that by (simp add: add_signature_def)
    then have "\<not> is_panic (check_block (nx_chain X) (nco_blockchain c) (add_signature b key sig))" by (rule check_empty_no_panic [OF ne])
    then show ?thesis by (auto simp: validator_add_block_def Let_def rbind_is_panic simp flip: add_block_result split: prod.split)
  qed
  have message: "\<not> is_panic (message_new_block (nx_codecs X) st b)" for b
    using assms(2) by (simp add: encoding_returns_def message_new_block_def rbind_is_panic)
  show ?thesis
    unfolding produce_block_def cp option.case Let_def
    by (intro and_then_no_panic if_no_panic)
      (auto simp: best new_no_panic timing add message get_block_producer_no_panic sign_message_def validator_on_network_def
        broadcast_def dest: Block_new_fields(4))
next
  case False
  then show ?thesis by (auto simp: produce_block_def split: option.splits)
qed

lemma validator_lifecycle:
  "node_lifecycle (sv_running (validator_service X)) (sv_start (validator_service X) a) (sv_stop (validator_service X))"
  using validator.node_lifecycle_axioms by (cases a) (simp add: validator_service_def)

lemma validator_calls_keep:
  assumes "validator_calls X n n'"
  shows "vn_running n' = vn_running n" and "validator_wf X n \<Longrightarrow> validator_wf X n'"
proof -
  show "vn_running n' = vn_running n" using assms by cases (metis fst_conv handle_new_block_running, simp)
  show "validator_wf X n'" if wf: "validator_wf X n"
    using assms
  proof cases
    case (block_arrives block r)
    then show ?thesis using handle_new_block_wf wf by blast
  next
    case (network_changes c m)
    then have "validator_on_network (\<lambda>_. (m, Ok ())) c n = (n', Ok ())" by (simp add: validator_on_network_def)
    then show ?thesis using validator_on_network_wf(1) [OF _ wf network_changes(2)] by blast
  qed
qed

lemma production_round_wf: "validator_wf X n \<Longrightarrow> validator_wf X (fst (block_production_round X e n))"
  by (cases e) (auto simp: block_production_round_def fst_loop_round intro: produce_block_wf [OF surjective_pairing])

interpretation validator_loops: background_service "validator_service X" "\<lambda>n. validator_wf X n \<and> encoding_returns X"
  for X :: "('d, 'b, 'h, 't, 's) node_externals"
proof (rule lifecycle_service [OF validator_lifecycle])
  fix n :: "('d, 'b, 'h, 't, 's) ValidatorNode" and e a
  assume wf: "validator_wf X n \<and> encoding_returns X"
  show "validator_wf X (fst (sv_start (validator_service X) a n)) \<and> encoding_returns X"
    using wf by (auto simp: validator_service_def split: prod.split intro: validator_start_wf [OF surjective_pairing])
  show "validator_wf X (fst (sv_stop (validator_service X) n)) \<and> encoding_returns X"
    using wf by (auto simp: validator_service_def intro: validator_stop_wf [OF surjective_pairing])
  show "validator_wf X (fst (sv_round (validator_service X) e n)) \<and> encoding_returns X"
    using wf production_round_wf [of X n e] by (auto simp: validator_service_def)
  show "snd (sv_round (validator_service X) e n) = Goes_On" if "sv_running (validator_service X) n"
    using that wf produce_block_no_panic [of X n] by (cases e) (simp add: validator_service_def block_production_round_def loop_rounds)
qed (auto simp: validator_service_def block_production_round_def loop_rounds produce_block_running dest: validator_calls_keep)

section \<open>Accepting connections\<close>

text \<open>
  The transport ends its task through a channel of its own for each start, not through a flag: \<open>start\<close> stores the sending half, the
  task owns the receiving one. Channels are numbered.
\<close>

record ListeningTransport =
  lt_transport :: Transport
  lt_listener :: bool
  lt_shutdown_tx :: "nat option"
  lt_channels :: nat
  lt_signalled :: "nat fset"
  lt_tasks :: "nat fset"

definition listening_new :: "TransportConfig \<Rightarrow> ListeningTransport outcome" where
  "listening_new config =
     rbind (Transport_new config) (\<lambda>t.
       Ok \<lparr>lt_transport = t, lt_listener = False, lt_shutdown_tx = None, lt_channels = 0, lt_signalled = {||}, lt_tasks = {||}\<rparr>)"

definition transport_start :: "(unit, string) result \<Rightarrow> ListeningTransport \<Rightarrow> ListeningTransport \<times> unit outcome" where
  "transport_start bound t =
     and_then (t, map_err (\<lambda>e. NetworkError (''Failed to bind listener: '' @ e)) bound) (\<lambda>t _.
       let channel = lt_channels t in
       (t\<lparr>lt_listener := True, lt_shutdown_tx := Some channel, lt_channels := channel + 1, lt_tasks := finsert channel (lt_tasks t)\<rparr>, Ok ()))"

definition transport_shutdown :: "ListeningTransport \<Rightarrow> ListeningTransport \<times> unit outcome" where
  "transport_shutdown t =
     (let t = (case lt_shutdown_tx t of
                 Some channel \<Rightarrow> t\<lparr>lt_shutdown_tx := None, lt_signalled := finsert channel (lt_signalled t)\<rparr>
               | None \<Rightarrow> t);
          t = t\<lparr>lt_listener := False\<rparr>
      in (t\<lparr>lt_transport := fst (transport_stop (lt_transport t))\<rparr>, Ok ()))"

text \<open>What \<open>accept\<close> within 100 milliseconds yields.\<close>

datatype accept_result = Accepted_From SocketAddr | Accept_Error string | Accept_Timeout

definition accept_round :: "nat \<Rightarrow> accept_result \<Rightarrow> ListeningTransport \<Rightarrow> ListeningTransport" where
  "accept_round channel accept_result t =
     (if channel |\<notin>| lt_tasks t then t
      else if channel |\<in>| lt_signalled t then t\<lparr>lt_tasks := lt_tasks t |-| {|channel|}\<rparr>
      else if \<not> lt_listener t then t
      else case accept_result of
             Accepted_From addr \<Rightarrow> t\<lparr>lt_transport := fst (handle_inbound_connection addr (lt_transport t))\<rparr>
           | Accept_Error e \<Rightarrow> t
           | Accept_Timeout \<Rightarrow> t)"

inductive transport_step :: "ListeningTransport \<Rightarrow> ListeningTransport \<Rightarrow> bool" where
  transport_starts: "bound = Ok () \<longrightarrow> \<not> lt_listener t \<Longrightarrow> transport_step t (fst (transport_start bound t))"
| transport_stops: "transport_step t (fst (transport_shutdown t))"
| transport_accepts: "transport_step t (accept_round channel r t)"
| transport_calls: "transport_step t (t\<lparr>lt_transport := u\<rparr>)"

text \<open>
  Binding an address fails while a listener holds it, so that a start does not succeed twice in a row. Then there is at most one
  task that has not been told to end, the one of the last start, and it is there exactly while the transport listens.
\<close>

definition listening_wf :: "ListeningTransport \<Rightarrow> bool" where
  "listening_wf t \<longleftrightarrow>
     (\<forall>channel. channel |\<in>| lt_tasks t \<and> channel |\<notin>| lt_signalled t \<longleftrightarrow> lt_shutdown_tx t = Some channel) \<and>
     (lt_listener t \<longleftrightarrow> lt_shutdown_tx t \<noteq> None) \<and>
     (\<forall>channel. channel |\<in>| lt_tasks t \<or> channel |\<in>| lt_signalled t \<longrightarrow> channel < lt_channels t)"

lemma accept_round_fields:
  "lt_tasks (accept_round c r t) = (if c |\<in>| lt_signalled t then lt_tasks t |-| {|c|} else lt_tasks t)"
  "lt_signalled (accept_round c r t) = lt_signalled t"
  "lt_shutdown_tx (accept_round c r t) = lt_shutdown_tx t"
  "lt_listener (accept_round c r t) = lt_listener t"
  "lt_channels (accept_round c r t) = lt_channels t"
  by (auto simp: accept_round_def split: accept_result.split)

lemma listening_wf_step: "transport_step t t' \<Longrightarrow> listening_wf t \<Longrightarrow> listening_wf t'"
proof (induction rule: transport_step.induct)
  case (transport_starts bound t)
  show ?case
  proof (cases "bound = Ok ()")
    case True
    have stopped: "\<not> lt_listener t" using transport_starts(1) True by simp
    have start: "fst (transport_start bound t) =
        t\<lparr>lt_listener := True, lt_shutdown_tx := Some (lt_channels t), lt_channels := lt_channels t + 1, lt_tasks := finsert (lt_channels t) (lt_tasks t)\<rparr>"
      using True by (simp add: transport_start_def Let_def)
    have covered: "c |\<in>| lt_tasks t \<Longrightarrow> c |\<in>| lt_signalled t" for c
      using transport_starts(2) stopped unfolding listening_wf_def by (metis option.distinct(1))
    have fresh: "lt_channels t |\<notin>| lt_signalled t" using transport_starts(2) unfolding listening_wf_def by (metis less_irrefl)
    show ?thesis
      unfolding listening_wf_def start using covered fresh transport_starts(2) by (auto simp: listening_wf_def intro: less_SucI)
  next
    case False
    then have "fst (transport_start bound t) = t" by (cases bound) (simp_all add: transport_start_def)
    with transport_starts(2) show ?thesis by simp
  qed
next
  case (transport_stops t)
  then show ?case
    by (cases "lt_shutdown_tx t") (simp_all add: listening_wf_def transport_shutdown_def Let_def, metis option.inject)
next
  case (transport_accepts t channel r)
  then show ?case
    unfolding listening_wf_def accept_round_fields by (cases "channel |\<in>| lt_signalled t") (simp_all, blast)
qed (simp add: listening_wf_def)

lemma accept_loop_single:
  assumes "listening_new config = Ok t0" and "transport_step\<^sup>*\<^sup>* t0 t"
  shows "channel |\<in>| lt_tasks t \<and> channel |\<notin>| lt_signalled t \<longleftrightarrow> lt_shutdown_tx t = Some channel"
proof -
  have "listening_wf t0" using assms(1) by (auto simp: listening_new_def Transport_new_def listening_wf_def)
  with assms(2) have "listening_wf t" by (induction rule: rtranclp_induct) (auto intro: listening_wf_step)
  then show ?thesis by (simp add: listening_wf_def)
qed

text \<open>A task that was told to end accepts nothing any more, even if the transport listens again.\<close>

lemma signalled_accepts_nothing:
  "channel |\<in>| lt_signalled t \<Longrightarrow> lt_transport (accept_round channel r t) = lt_transport t \<and> channel |\<notin>| lt_tasks (accept_round channel r t)"
  by (simp add: accept_round_def)

section \<open>What can go wrong\<close>

text \<open>A gossip that is stopped and started again between two ticks, a minute apart, has two cleaning tasks for good.\<close>

lemma restart_two_loops:
  assumes "(undisturbed gossip_service)\<^sup>*\<^sup>*
      (call_start gossip_service () (call_stop gossip_service (call_start gossip_service () (GossipProtocol_new fanout, 0)))) (g, k)"
  shows "k = 2"
proof -
  let ?g = "GossipProtocol_new fanout"
  have "call_stop gossip_service (call_start gossip_service () (?g, 0)) = (?g\<lparr>gp_running := False\<rparr>, 1)"
    by (simp add: call_stop_def call_start_def gossip_service_def gossip_start_def gossip_stop_def GossipProtocol_new_def)
  moreover have "sv_start gossip_service () (?g\<lparr>gp_running := False\<rparr>) = (?g\<lparr>gp_running := True\<rparr>, Ok ())"
    by (simp add: gossip_service_def gossip_start_def)
  ultimately show ?thesis using gossip_loops.restart_adds_task [of "()" "?g\<lparr>gp_running := False\<rparr>" "?g\<lparr>gp_running := True\<rparr>" 1 g k] assms by simp
qed

text \<open>Likewise a validator that is started again before its tasks have seen the stop: then several tasks produce blocks.\<close>

lemma production_restart:
  assumes "encoding_returns X" and "validator_wf X n" and "validator_start X clock bound dial n = (n1, Ok ())"
    and "(undisturbed (validator_service X))\<^sup>*\<^sup>* (call_start (validator_service X) (clock, bound, dial) (n, k)) (n2, k2)"
  shows "k2 = Suc k"
  using validator_loops.restart_adds_task [OF _ _ assms(4)] assms(1-3) by (simp add: validator_service_def)

text \<open>
  A start that fails because a bootstrap peer cannot be reached leaves the tasks of the network behind: the node is not running,
  so that a stop is refused, but its block synchronisation is.
\<close>

lemma network_start_failed:
  assumes "network_start (Ok ()) dial m = (m', Err e)" and "\<not> pd_running (nm_discovery m)" and "\<not> gp_running (nm_gossip m)"
    and "\<not> bsy_running (nm_sync m)"
  shows "bsy_running (nm_sync m')"
proof -
  have keeps: "nm_sync (fst (connect_bootstrap dial addrs m)) = nm_sync m" for addrs m
    by (induction addrs arbitrary: m) (auto simp: connect_peer_def split: prod.split result.split if_splits)
  let ?m = "m\<lparr>nm_discovery := (if nc_enable_discovery (nm_config m) then (nm_discovery m)\<lparr>pd_running := True\<rparr> else nm_discovery m),
      nm_gossip := (if nc_enable_gossip (nm_config m) then (nm_gossip m)\<lparr>gp_running := True\<rparr> else nm_gossip m),
      nm_sync := (nm_sync m)\<lparr>bsy_running := True\<rparr>\<rparr>"
  have "network_start (Ok ()) dial m = connect_bootstrap dial (nc_bootstrap_peers (nm_config m)) ?m"
    using assms(2-4)
    by (simp add: network_start_def on_discovery_def on_gossip_def on_sync_def discovery_start_def gossip_start_def sync_start_def)
  with assms(1) keeps [of "nc_bootstrap_peers (nm_config m)" ?m] show ?thesis by simp
qed

lemma failed_start_leaks:
  assumes "validator_initialize X clock n = (n1, Ok ())" and "vn_components n1 = Some c" and "\<not> vn_running n"
    and "network_start (Ok ()) dial (nco_network c) = (m, Err e)"
    and "\<not> pd_running (nm_discovery (nco_network c))" and "\<not> gp_running (nm_gossip (nco_network c))" and "\<not> bsy_running (nm_sync (nco_network c))"
  shows "\<exists>n' c'. validator_start X clock (Ok ()) dial n = (n', Err e) \<and> validator_stop n' = (n', Err NodeNotRunning) \<and>
     vn_components n' = Some c' \<and> bsy_running (nm_sync (nco_network c'))"
proof -
  have "\<not> vn_running n1" using assms(1,3) by (auto simp: validator_initialize_def split: result.splits prod.splits)
  with assms network_start_failed [OF assms(4-7)] show ?thesis
    by (simp add: validator_start_def validator_on_network_def validator_stop_def)
qed

section \<open>Properties\<close>

text \<open>
  C40: the block production of a validator node, after any interleaving of starts, stops, ticks of the production tasks, blocks from
  the network and changes of the network, if encoding a block does not panic. While the node runs it has a production task, and no
  tick ends one: producing a block never panics. As long as nobody stops the node, the tasks are neither lost nor added to. After a
  stop every task ends at its next tick, and none of these rounds produces a block or changes anything.
\<close>

theorem production_loops:
  assumes "encoding_returns X" and "ValidatorNode_new X config = Ok n0" and "(any_step (validator_service X))\<^sup>*\<^sup>* (n0, 0) (n, k)"
  shows "(vn_running n \<longrightarrow> 1 \<le> k \<and> snd (block_production_round X e n) = Goes_On) \<and>
    (vn_running n \<and> (undisturbed (validator_service X))\<^sup>*\<^sup>* (n, k) (n2, k2) \<longrightarrow> vn_running n2 \<and> k2 = k) \<and>
    (length es = k \<longrightarrow> fold (run_round (validator_service X)) es (call_stop (validator_service X) (n, k)) = (fst (validator_stop n), 0))"
proof (intro conjI impI)
  let ?S = "validator_service X"
  have fields: "sv_running ?S = vn_running" "sv_round ?S = block_production_round X" "sv_stop ?S = validator_stop"
    by (simp_all add: validator_service_def)
  have new: "validator_wf X n0 \<and> encoding_returns X" using validator_wf_new [OF assms(2)] assms(1) by blast
  then have wf: "validator_wf X n \<and> encoding_returns X" using validator_loops.steps_inv [OF assms(3)] by simp
  have "\<not> vn_running n0" using assms(2) by (auto simp: ValidatorNode_new_def outcome_simps split: option.splits)
  then show "1 \<le> k" if "vn_running n" using validator_loops.running_has_task [OF assms(3) new] that by (simp add: fields)
  show "snd (block_production_round X e n) = Goes_On" if "vn_running n"
    using validator_loops.round_goes_on [OF wf] that by (simp add: fields)
  show "vn_running n2" and "k2 = k" if "vn_running n \<and> (undisturbed ?S)\<^sup>*\<^sup>* (n, k) (n2, k2)"
    using that validator_loops.undisturbed_steps [of X n k n2 k2] wf by (simp_all add: fields)
  have "\<not> vn_running (fst (validator_stop n))" using validator_loops.stop_stops [of X n] by (simp add: fields)
  then show "fold (run_round ?S) es (call_stop ?S (n, k)) = (fst (validator_stop n), 0)" if "length es = k"
    using validator_loops.stopped_rounds [of X "fst (validator_stop n)" es k] that by (simp add: call_stop_def fields)
qed

theorem production_loops_witness:
  "\<exists>n0 n. ValidatorNode_new sample_node_env sample_node_config = Ok n0 \<and>
     validator_start sample_node_env sample_clock (Ok ()) sample_dial n0 = (n, Ok ()) \<and> vn_running n \<and>
     snd (block_production_round sample_node_env (0, (0, 0), \<lambda>_. 0) n) = Goes_On \<and>
     snd (run_round (validator_service sample_node_env) (0, (0, 0), \<lambda>_. 0) (n, 1)) = 1 \<and>
     fold (run_round (validator_service sample_node_env)) [(0, (0, 0), \<lambda>_. 0)] (call_stop (validator_service sample_node_env) (n, 1)) =
       (fst (validator_stop n), 0)"
proof -
  obtain n :: sample_validator where new: "ValidatorNode_new sample_node_env sample_node_config = Ok (ok_value (ValidatorNode_new sample_node_env sample_node_config))"
    and start: "validator_start sample_node_env sample_clock (Ok ()) sample_dial (ok_value (ValidatorNode_new sample_node_env sample_node_config)) = (n, Ok ())"
    by (rule sample_validator_start)
  let ?S = "validator_service sample_node_env" and ?n0 = "ok_value (ValidatorNode_new sample_node_env sample_node_config) :: sample_validator"
    and ?e = "(0, (0, 0), \<lambda>_. 0) :: Timestamp \<times> stamp \<times> (nat \<Rightarrow> Timestamp)"
  have codec: "encoding_returns sample_node_env" using sample_codec_total unfolding encoding_returns_def by (metis is_ok.simps(3) is_panic.elims(2))
  have called: "call_start ?S (sample_clock, Ok (), sample_dial) (?n0, 0) = (n, 1)"
    using start by (simp add: call_start_def validator_service_def)
  have "any_step ?S (?n0, 0) (n, 1)"
    unfolding any_step_def called [symmetric] by (rule exI) (rule started)
  then have "(any_step ?S)\<^sup>*\<^sup>* (?n0, 0) (n, 1)" by (rule r_into_rtranclp)
  note loops = production_loops [OF codec new this, where es = "[?e]" and e = ?e and ?n2.0 = "fst (run_round ?S ?e (n, 1))"
      and ?k2.0 = "snd (run_round ?S ?e (n, 1))"]
  have running: "vn_running n" by (rule validator.start_Ok [OF start])
  have "undisturbed ?S (n, 1) (run_round ?S ?e (n, 1))"
    unfolding undisturbed_def by (rule exI [of _ Rounds]) (simp add: task_step.round)
  then have "(undisturbed ?S)\<^sup>*\<^sup>* (n, 1) (fst (run_round ?S ?e (n, 1)), snd (run_round ?S ?e (n, 1)))" by auto
  with loops running have "snd (block_production_round sample_node_env ?e n) = Goes_On" "snd (run_round ?S ?e (n, 1)) = 1"
    by blast+
  moreover have "fold (run_round ?S) [?e] (call_stop ?S (n, 1)) = (fst (validator_stop n), 0)"
    by (rule loops [THEN conjunct2, THEN conjunct2, THEN mp]) simp
  ultimately show ?thesis using new start running by blast
qed

end
