(* ===== verification/Rpc_Types.thy ===== *)
theory Rpc_Types
  imports Float64 Common_Types
begin

text \<open>
  \<open>rpc/src/types.rs\<close>: the answers and the queries of the RPC interface. A JSON value is a value of the
  type \<open>'j\<close>, as the library that defines it is third party. The sizes that a client chooses and that
  the code adds are words, because the sum may wrap; other sizes are natural numbers.
\<close>

record NodeInfo =
  ni_version :: string
  ni_node_type :: string
  ni_public_key :: string
  ni_network_id :: string
  ni_height :: u64
  ni_latest_block_hash :: string
  ni_peer_count :: nat
  ni_syncing :: bool
  ni_uptime :: u64

record ChainInfo =
  ci_height :: u64
  ci_genesis_hash :: string
  ci_latest_block_hash :: string
  ci_latest_block_time :: Timestamp
  ci_total_transactions :: u64
  ci_total_votes :: u64
  ci_total_validators :: nat
  ci_active_validators :: nat
  ci_active_elections :: nat

record TransactionSummary =
  tsu_id :: string
  tsu_tx_type :: string
  tsu_block_height :: u64
  tsu_timestamp :: Timestamp

record RpcBlockResponse =
  br_height :: u64
  br_hash :: string
  br_previous_hash :: string
  br_timestamp :: Timestamp
  br_validator :: string
  br_transactions_root :: string
  br_transaction_count :: u32
  br_transactions :: "TransactionSummary list"
  br_signature :: string

record 'j RpcTransactionResponse =
  txr_id :: string
  txr_tx_type :: string
  txr_block_height :: u64
  txr_block_hash :: string
  txr_timestamp :: Timestamp
  txr_data :: "'j"
  txr_signature :: string

record VoteResponse =
  vor_tx_id :: string
  vor_election_id :: string
  vor_encrypted_vote :: string
  vor_timestamp :: Timestamp
  vor_block_height :: u64
  vor_zk_proof :: "string option"
  vor_verified :: bool

record RpcCandidate =
  rcd_id :: string
  rcd_name :: string
  rcd_party :: "string option"
  rcd_vote_count :: "u64 option"

record RpcJurisdictionInfo =
  rji_level :: string
  rji_name :: string
  rji_parent :: "string option"

record ElectionResponse =
  elr_id :: string
  elr_name :: string
  elr_description :: "string option"
  elr_start_time :: Timestamp
  elr_end_time :: Timestamp
  elr_vote_count :: u64
  elr_is_active :: bool
  elr_is_finalized :: bool
  elr_created_at_height :: u64
  elr_closed_at_height :: "u64 option"
  elr_candidates :: "RpcCandidate list"
  elr_jurisdiction :: "RpcJurisdictionInfo option"

record CandidateResult =
  cdr_candidate_id :: string
  cdr_candidate_name :: string
  cdr_votes :: u64
  cdr_percentage :: f64

record ElectionResultsResponse =
  err_election_id :: string
  err_total_votes :: u64
  err_results :: "CandidateResult list"
  err_finalized :: bool
  err_verification_proof :: "string option"

record ValidatorResponse =
  var_address :: string
  var_public_key :: string
  var_stake :: u64
  var_is_active :: bool
  var_registered_at_height :: u64
  var_blocks_produced :: u64
  var_last_block_height :: "u64 option"

record ValidatorSetResponse =
  vsr_height :: u64
  vsr_total_validators :: nat
  vsr_validators :: "ValidatorResponse list"

record VerifyVoteRequest =
  vvq_tx_id :: string
  vvq_zk_proof :: string
  vvq_voter_signature :: "string option"

record VerifyVoteResponse =
  vvr_valid :: bool
  vvr_details :: "string option"
  vvr_block_height :: "u64 option"
  vvr_election_id :: "string option"

record SubmitResponse =
  sur_tx_id :: string
  sur_accepted :: bool
  sur_error :: "string option"

record MempoolResponse =
  mpr_pending_count :: nat
  mpr_transactions :: "TransactionSummary list"

record RpcPeerInfo =
  rpi_peer_id :: string
  rpi_address :: string
  rpi_direction :: string
  rpi_height :: u64
  rpi_connected_duration :: u64

record PeersResponse =
  psr_total_peers :: nat
  psr_peers :: "RpcPeerInfo list"

record SyncStatusResponse =
  ssr_syncing :: bool
  ssr_current_height :: u64
  ssr_target_height :: u64
  ssr_progress :: f64
  ssr_estimated_time_remaining :: "u64 option"

record BlockQuery =
  bq_start_height :: "u64 option"
  bq_end_height :: "u64 option"
  bq_validator :: "string option"
  bq_min_timestamp :: "Timestamp option"
  bq_max_timestamp :: "Timestamp option"
  bq_limit :: "u64 option"
  bq_offset :: "u64 option"

record BlockSearchResponse =
  bsr_total :: u64
  bsr_blocks :: "RpcBlockResponse list"
  bsr_has_more :: bool

record TransactionQuery =
  tq_tx_type :: "string option"
  tq_start_height :: "u64 option"
  tq_end_height :: "u64 option"
  tq_election_id :: "string option"
  tq_min_timestamp :: "Timestamp option"
  tq_max_timestamp :: "Timestamp option"
  tq_limit :: "u64 option"
  tq_offset :: "u64 option"

record 'j TransactionSearchResponse =
  tsr_total :: u64
  tsr_transactions :: "'j RpcTransactionResponse list"
  tsr_has_more :: bool

record HealthResponse =
  hr_status :: string
  hr_database :: string
  hr_network :: string
  hr_consensus :: string
  hr_timestamp :: Timestamp

definition DEFAULT_QUERY_LIMIT :: u64 where
  "DEFAULT_QUERY_LIMIT = 20"

definition MAX_QUERY_LIMIT :: u64 where
  "MAX_QUERY_LIMIT = 100"

definition BlockQuery_default :: BlockQuery where
  "BlockQuery_default =
     \<lparr>bq_start_height = None, bq_end_height = None, bq_validator = None, bq_min_timestamp = None, bq_max_timestamp = None,
      bq_limit = Some DEFAULT_QUERY_LIMIT, bq_offset = None\<rparr>"

definition TransactionQuery_default :: TransactionQuery where
  "TransactionQuery_default =
     \<lparr>tq_tx_type = None, tq_start_height = None, tq_end_height = None, tq_election_id = None, tq_min_timestamp = None,
      tq_max_timestamp = None, tq_limit = Some DEFAULT_QUERY_LIMIT, tq_offset = None\<rparr>"

end
