(* ===== verification/Rpc.thy ===== *)
theory Rpc
  imports Rpc_Types Errors
begin

text \<open>
  \<open>rpc/src/lib.rs\<close>: requests, replies and errors of JSON-RPC, the interface of a service, the
  configuration and the rate limiter. An instant of the monotonic clock is a number of nanoseconds.
  A service is the record of what its methods answer at the time of a request.
\<close>

section \<open>The service\<close>

record 'j RpcService =
  svc_node_info :: "NodeInfo outcome"
  svc_chain_info :: "ChainInfo outcome"
  svc_get_block :: "string \<Rightarrow> RpcBlockResponse outcome"
  svc_get_block_by_height :: "u64 \<Rightarrow> RpcBlockResponse outcome"
  svc_get_transaction :: "string \<Rightarrow> 'j RpcTransactionResponse outcome"
  svc_get_vote :: "string \<Rightarrow> VoteResponse outcome"
  svc_get_election :: "string \<Rightarrow> ElectionResponse outcome"
  svc_get_election_results :: "string \<Rightarrow> ElectionResultsResponse outcome"
  svc_get_validators :: "u64 option \<Rightarrow> ValidatorSetResponse outcome"
  svc_get_validator :: "string \<Rightarrow> ValidatorResponse outcome"
  svc_verify_vote :: "VerifyVoteRequest \<Rightarrow> VerifyVoteResponse outcome"
  svc_submit_transaction :: "string \<Rightarrow> SubmitResponse outcome"
  svc_get_mempool :: "MempoolResponse outcome"
  svc_get_peers :: "PeersResponse outcome"
  svc_sync_status :: "SyncStatusResponse outcome"
  svc_search_blocks :: "BlockQuery \<Rightarrow> BlockSearchResponse outcome"
  svc_search_transactions :: "TransactionQuery \<Rightarrow> 'j TransactionSearchResponse outcome"
  svc_health :: "HealthResponse outcome"

section \<open>Configuration\<close>

definition RPC_VERSION :: string where
  "RPC_VERSION = ''1.0''"

record TlsConfig =
  tls_cert_path :: string
  tls_key_path :: string

record RpcConfig =
  rpc_listen_addr :: string
  rpc_port :: "16 word"
  rpc_enable_cors :: bool
  rpc_cors_origins :: "string list"
  rpc_request_timeout :: u64
  rpc_max_request_size :: nat
  rpc_enable_rate_limit :: bool
  rpc_rate_limit_per_second :: u32
  rpc_enable_auth :: bool
  rpc_api_key :: "string option"
  rpc_enable_metrics :: bool
  rpc_tls :: "TlsConfig option"

definition RpcConfig_default :: RpcConfig where
  "RpcConfig_default =
     \<lparr>rpc_listen_addr = ''127.0.0.1'', rpc_port = 8545, rpc_enable_cors = True, rpc_cors_origins = [''*''],
      rpc_request_timeout = 30, rpc_max_request_size = 1024 * 1024, rpc_enable_rate_limit = True,
      rpc_rate_limit_per_second = 100, rpc_enable_auth = False, rpc_api_key = None, rpc_enable_metrics = True, rpc_tls = None\<rparr>"

section \<open>Requests, replies and errors\<close>

datatype RequestId = IdString string | IdNumber "64 word" | IdNull

record 'j JsonRpcRequest =
  jrq_jsonrpc :: string
  jrq_method :: string
  jrq_params :: 'j
  jrq_id :: RequestId

record 'j JsonRpcError =
  jre_code :: "32 word"
  jre_message :: string
  jre_data :: "'j option"

record 'j JsonRpcResponse =
  jrs_jsonrpc :: string
  jrs_result :: "'j option"
  jrs_error :: "'j JsonRpcError option"
  jrs_id :: RequestId

definition custom_error :: "32 word \<Rightarrow> string \<Rightarrow> 'j JsonRpcError" where
  "custom_error code message = \<lparr>jre_code = code, jre_message = message, jre_data = None\<rparr>"

definition parse_error :: "string \<Rightarrow> 'j JsonRpcError" where
  "parse_error message = \<lparr>jre_code = - 32700, jre_message = message, jre_data = None\<rparr>"

definition invalid_request :: "string \<Rightarrow> 'j JsonRpcError" where
  "invalid_request message = \<lparr>jre_code = - 32600, jre_message = message, jre_data = None\<rparr>"

definition method_not_found :: "string \<Rightarrow> 'j JsonRpcError" where
  "method_not_found name = \<lparr>jre_code = - 32601, jre_message = ''Method not found: '' @ name, jre_data = None\<rparr>"

definition invalid_params :: "string \<Rightarrow> 'j JsonRpcError" where
  "invalid_params message = \<lparr>jre_code = - 32602, jre_message = message, jre_data = None\<rparr>"

definition internal_error :: "string \<Rightarrow> 'j JsonRpcError" where
  "internal_error message = \<lparr>jre_code = - 32603, jre_message = message, jre_data = None\<rparr>"

definition rpc_error_from :: "VotingError \<Rightarrow> 'j JsonRpcError" where
  "rpc_error_from e =
     (case e of
        InvalidTransaction _ \<Rightarrow> invalid_params (VotingError_display e)
      | BlockNotFound _ \<Rightarrow> custom_error (- 32001) (VotingError_display e)
      | TransactionNotFound _ \<Rightarrow> custom_error (- 32002) (VotingError_display e)
      | InvalidBlock _ \<Rightarrow> invalid_params (VotingError_display e)
      | ConsensusError _ \<Rightarrow> internal_error (VotingError_display e)
      | _ \<Rightarrow> internal_error (VotingError_display e))"

section \<open>The rate limiter\<close>

type_synonym instant = nat

definition as_secs_since :: "instant \<Rightarrow> instant \<Rightarrow> nat" where
  "as_secs_since now earlier = (now - earlier) div 1000000000"

record RateLimiter =
  rl_requests :: "(string, u32 \<times> instant) hashmap"
  rl_limit_per_second :: u32

definition RateLimiter_new :: "u32 \<Rightarrow> RateLimiter" where
  "RateLimiter_new limit_per_second = \<lparr>rl_requests = fmempty, rl_limit_per_second = limit_per_second\<rparr>"

definition is_allowed :: "instant \<Rightarrow> string \<Rightarrow> RateLimiter \<Rightarrow> RateLimiter \<times> bool" where
  "is_allowed now ip l =
     (case fmlookup (rl_requests l) ip of
        Some (cnt, timestamp) \<Rightarrow>
          if 1 \<le> as_secs_since now timestamp then (l\<lparr>rl_requests := fmupd ip (1, now) (rl_requests l)\<rparr>, True)
          else if cnt < rl_limit_per_second l then (l\<lparr>rl_requests := fmupd ip (cnt + 1, timestamp) (rl_requests l)\<rparr>, True)
          else (l, False)
      | None \<Rightarrow> (l\<lparr>rl_requests := fmupd ip (1, now) (rl_requests l)\<rparr>, True))"

definition limiter_cleanup :: "instant \<Rightarrow> RateLimiter \<Rightarrow> RateLimiter" where
  "limiter_cleanup now l =
     l\<lparr>rl_requests := hm_retain (\<lambda>ip (cnt, timestamp). as_secs_since now timestamp < 60) (rl_requests l)\<rparr>"

section \<open>What the rate limiter guarantees\<close>

datatype LimiterCall = Ask string instant | Clean instant

fun limiter_call :: "LimiterCall \<Rightarrow> RateLimiter \<Rightarrow> RateLimiter" where
  "limiter_call (Ask ip now) l = fst (is_allowed now ip l)"
| "limiter_call (Clean now) l = limiter_cleanup now l"

text \<open>How many requests of an address get through.\<close>

fun allowed :: "string \<Rightarrow> LimiterCall list \<Rightarrow> RateLimiter \<Rightarrow> nat" where
  "allowed ip [] l = 0"
| "allowed ip (Ask a now # cs) l =
     (if a = ip \<and> snd (is_allowed now a l) then 1 else 0) + allowed ip cs (limiter_call (Ask a now) l)"
| "allowed ip (Clean now # cs) l = allowed ip cs (limiter_call (Clean now) l)"

fun call_time :: "LimiterCall \<Rightarrow> instant" where
  "call_time (Ask ip now) = now"
| "call_time (Clean now) = now"

text \<open>The first request of a second always counts, so a limit of 0 acts as 1.\<close>

definition effective_limit :: "RateLimiter \<Rightarrow> nat" where
  "effective_limit l = max 1 (unat (rl_limit_per_second l))"

definition limiter_wf :: "RateLimiter \<Rightarrow> bool" where
  "limiter_wf l \<longleftrightarrow> (\<forall>ip cnt t. fmlookup (rl_requests l) ip = Some (cnt, t) \<longrightarrow> unat cnt \<le> effective_limit l)"

lemma limiter_limit [simp]:
  "rl_limit_per_second (fst (is_allowed now ip l)) = rl_limit_per_second l"
  "rl_limit_per_second (limiter_cleanup now l) = rl_limit_per_second l"
  "rl_limit_per_second (limiter_call c l) = rl_limit_per_second l"
  by (cases c; auto simp: is_allowed_def limiter_cleanup_def split: option.splits)+

lemma effective_limit_call [simp]: "effective_limit (limiter_call c l) = effective_limit l"
  by (simp add: effective_limit_def)

lemma limiter_wf_new: "limiter_wf (RateLimiter_new limit)"
  by (simp add: limiter_wf_def RateLimiter_new_def)

text \<open>What a window that starts at \<open>start\<close> can still let through: a count of this window runs to the limit, one of before may run to it and start again.\<close>

definition budget :: "instant \<Rightarrow> string \<Rightarrow> RateLimiter \<Rightarrow> nat" where
  "budget start ip l =
     (case fmlookup (rl_requests l) ip of
        None \<Rightarrow> effective_limit l
      | Some (cnt, t) \<Rightarrow> if start \<le> t then effective_limit l - unat cnt else 2 * effective_limit l - unat cnt)"

lemma as_secs_zero: "as_secs_since now t < 1 \<longleftrightarrow> now < t + 1000000000"
  by (auto simp: as_secs_since_def)

lemma unat_inc: "cnt < (m :: u32) \<Longrightarrow> unat (cnt + 1) = unat cnt + 1"
  using unsigned_less [of m, where 'a = nat] by (subst unat_add_lem [THEN iffD1]) (simp_all add: word_less_nat_alt)

lemma limiter_wf_call:
  assumes "limiter_wf l"
  shows "limiter_wf (limiter_call c l)"
proof (cases c)
  case (Ask ip now)
  have "unat (cnt + 1) \<le> effective_limit l" if "cnt < rl_limit_per_second l" for cnt
    using that unat_inc [OF that] by (simp add: effective_limit_def word_less_nat_alt)
  moreover have "1 \<le> effective_limit l" by (simp add: effective_limit_def)
  ultimately show ?thesis
    using assms Ask by (auto simp: limiter_wf_def is_allowed_def effective_limit_def split: option.splits)
next
  case (Clean now)
  then show ?thesis
    using assms by (auto simp: limiter_wf_def limiter_cleanup_def fmlookup_retain effective_limit_def split: option.splits if_splits)
qed

lemma budget_ask:
  assumes "limiter_wf l" and "start \<le> now" and "now < start + 1000000000"
  shows "(if snd (is_allowed now ip l) then 1 else 0) + budget start ip (fst (is_allowed now ip l)) \<le> budget start ip l"
proof (cases "fmlookup (rl_requests l) ip")
  case None
  then show ?thesis using assms(2) by (simp add: is_allowed_def budget_def effective_limit_def)
next
  case (Some e)
  obtain cnt t where e: "e = (cnt, t)" by fastforce
  have le: "unat cnt \<le> effective_limit l" using assms(1) Some e unfolding limiter_wf_def by blast
  have fresh: "as_secs_since now t < 1" if "start \<le> t" using that assms(3) unfolding as_secs_zero by linarith
  have inc: "unat (cnt + 1) = unat cnt + 1 \<and> unat cnt < effective_limit l" if "cnt < rl_limit_per_second l"
    using that unat_inc [OF that] by (simp add: effective_limit_def word_less_nat_alt)
  show ?thesis
    using assms(2) Some e le fresh inc
    by (auto simp: is_allowed_def budget_def effective_limit_def not_le)
qed

lemma budget_other:
  assumes "limiter_wf l" and "now < start + 1000000000" and "a \<noteq> ip"
  shows "budget start ip (fst (is_allowed now a l)) = budget start ip l"
  using assms(3) by (auto simp: is_allowed_def budget_def effective_limit_def split: option.splits)

lemma budget_clean:
  assumes "limiter_wf l" and "now < start + 1000000000"
  shows "budget start ip (limiter_cleanup now l) \<le> budget start ip l"
proof (cases "fmlookup (rl_requests l) ip")
  case None
  then show ?thesis by (simp add: limiter_cleanup_def budget_def fmlookup_retain effective_limit_def)
next
  case (Some e)
  obtain cnt t where e: "e = (cnt, t)" by fastforce
  have le: "unat cnt \<le> effective_limit l" using assms(1) Some e unfolding limiter_wf_def by blast
  have "as_secs_since now t < 1" if "start \<le> t" using that assms(2) unfolding as_secs_zero by linarith
  then show ?thesis
    using Some e le by (auto simp: limiter_cleanup_def budget_def fmlookup_retain effective_limit_def)
qed

lemma allowed_budget:
  assumes "limiter_wf l" and "\<forall>c \<in> set cs. start \<le> call_time c \<and> call_time c < start + 1000000000"
  shows "allowed ip cs l \<le> budget start ip l"
  using assms
proof (induction cs arbitrary: l)
  case (Cons c cs)
  have IH: "allowed ip cs (limiter_call c l) \<le> budget start ip (limiter_call c l)"
    using Cons.IH [OF limiter_wf_call [OF Cons.prems(1)]] Cons.prems(2) by simp
  show ?case
  proof (cases c)
    case (Ask a now)
    then have now: "start \<le> now" "now < start + 1000000000" using Cons.prems(2) by simp_all
    show ?thesis
    proof (cases "a = ip")
      case True
      with budget_ask [OF Cons.prems(1) now, of ip] IH Ask show ?thesis by simp
    next
      case False
      with budget_other [OF Cons.prems(1) now(2) False] IH Ask show ?thesis by simp
    qed
  next
    case (Clean now)
    then have "now < start + 1000000000" using Cons.prems(2) by simp
    from budget_clean [OF Cons.prems(1) this, of ip] IH Clean show ?thesis by simp
  qed
qed simp

lemma limiter_run:
  "limiter_wf (fold limiter_call cs (RateLimiter_new limit))"
  "effective_limit (fold limiter_call cs (RateLimiter_new limit)) = max 1 (unat limit)"
proof -
  have "limiter_wf (fold limiter_call cs l) \<and> effective_limit (fold limiter_call cs l) = effective_limit l" if "limiter_wf l" for l
    using that by (induction cs arbitrary: l) (simp_all add: limiter_wf_call)
  then show "limiter_wf (fold limiter_call cs (RateLimiter_new limit))"
    "effective_limit (fold limiter_call cs (RateLimiter_new limit)) = max 1 (unat limit)"
    using limiter_wf_new by (auto simp: effective_limit_def RateLimiter_new_def)
qed

text \<open>The count starts again one second after the first request counted, so that a second may see nearly twice the limit.\<close>

lemma burst_exceeds_limit:
  "allowed ''a'' [Ask ''a'' 900000000, Ask ''a'' 1000000000, Ask ''a'' 1100000000]
     (fold limiter_call [Ask ''a'' 0] (RateLimiter_new 2)) = 3"
  by (simp add: RateLimiter_new_def is_allowed_def as_secs_since_def)

lemma zero_limit_lets_through: "allowed ''a'' [Ask ''a'' 0] (RateLimiter_new 0) = 1"
  by (simp add: RateLimiter_new_def is_allowed_def)

section \<open>Properties\<close>

text \<open>
  C17: The rate limiter bounds every second: after any requests and cleanups, from however many
  addresses, the requests of one address that get through within any second are at most twice the
  limit (which is taken to be at least 1), and at most the limit if the address is not on record.
\<close>

theorem rate_limit_window:
  assumes "l = fold limiter_call before (RateLimiter_new limit)"
    and "\<forall>c \<in> set during. start \<le> call_time c \<and> call_time c < start + 1000000000"
  shows "allowed ip during l \<le> 2 * max 1 (unat limit) \<and>
    (fmlookup (rl_requests l) ip = None \<longrightarrow> allowed ip during l \<le> max 1 (unat limit))"
proof -
  have "allowed ip during l \<le> budget start ip l"
    using allowed_budget [OF _ assms(2)] limiter_run(1) assms(1) by simp
  moreover have "effective_limit l = max 1 (unat limit)" using limiter_run(2) assms(1) by simp
  ultimately show ?thesis by (auto simp: budget_def split: option.splits if_splits)
qed

theorem rate_limit_window_witness:
  "allowed ''a'' [Ask ''a'' 900000000, Ask ''a'' 1000000000, Ask ''a'' 1100000000]
     (fold limiter_call [Ask ''a'' 0] (RateLimiter_new 2)) \<le> 4"
  using rate_limit_window [OF refl, of "[Ask ''a'' 900000000, Ask ''a'' 1000000000, Ask ''a'' 1100000000]" 900000000
      "''a''" "[Ask ''a'' 0]" 2]
  by simp

end
