(* ===== verification/Rpc_Methods.thy ===== *)
theory Rpc_Methods
  imports Rpc Network_Manager State_Store Chain
begin

text \<open>
  \<open>rpc/src/methods\<close>: the dispatcher of requests and the queries on the chain, the network, the node
  and the elections. What \<open>serde_json\<close> does with values is the record \<open>rpc_json\<close>.
\<close>

section \<open>JSON\<close>

record 'j rpc_json =
  json_get :: "'j \<Rightarrow> string \<Rightarrow> 'j option"
  json_as_str :: "'j \<Rightarrow> string option"
  json_as_u64 :: "'j \<Rightarrow> u64 option"
  json_is_null :: "'j \<Rightarrow> bool"
  json_object_empty :: "'j \<Rightarrow> bool option"
  block_query_of :: "'j \<Rightarrow> (BlockQuery, string) result"
  transaction_query_of :: "'j \<Rightarrow> (TransactionQuery, string) result"
  verify_request_of :: "'j \<Rightarrow> (VerifyVoteRequest, string) result"
  json_node_info :: "NodeInfo \<Rightarrow> ('j, string) result"
  json_health :: "HealthResponse \<Rightarrow> ('j, string) result"
  json_sync_status :: "SyncStatusResponse \<Rightarrow> ('j, string) result"
  json_chain_info :: "ChainInfo \<Rightarrow> ('j, string) result"
  json_block :: "RpcBlockResponse \<Rightarrow> ('j, string) result"
  json_transaction :: "'j RpcTransactionResponse \<Rightarrow> ('j, string) result"
  json_blocks :: "BlockSearchResponse \<Rightarrow> ('j, string) result"
  json_transactions :: "'j TransactionSearchResponse \<Rightarrow> ('j, string) result"
  json_vote :: "VoteResponse \<Rightarrow> ('j, string) result"
  json_election :: "ElectionResponse \<Rightarrow> ('j, string) result"
  json_results :: "ElectionResultsResponse \<Rightarrow> ('j, string) result"
  json_submit :: "SubmitResponse \<Rightarrow> ('j, string) result"
  json_verify :: "VerifyVoteResponse \<Rightarrow> ('j, string) result"
  json_validators :: "ValidatorSetResponse \<Rightarrow> ('j, string) result"
  json_validator :: "ValidatorResponse \<Rightarrow> ('j, string) result"
  json_peers :: "PeersResponse \<Rightarrow> ('j, string) result"
  json_mempool :: "MempoolResponse \<Rightarrow> ('j, string) result"
  json_raw_transaction :: "Transaction \<Rightarrow> ('j, string) result"

section \<open>The dispatcher\<close>

definition extract_string_param :: "'j rpc_json \<Rightarrow> 'j \<Rightarrow> string \<Rightarrow> (string, 'j JsonRpcError) result" where
  "extract_string_param J params key =
     (case Option.bind (json_get J params key) (json_as_str J) of
        Some s \<Rightarrow> Ok s
      | None \<Rightarrow> Err (invalid_params (''Missing or invalid parameter: '' @ key)))"

definition extract_u64_param :: "'j rpc_json \<Rightarrow> 'j \<Rightarrow> string \<Rightarrow> (u64, 'j JsonRpcError) result" where
  "extract_u64_param J params key =
     (case Option.bind (json_get J params key) (json_as_u64 J) of
        Some n \<Rightarrow> Ok n
      | None \<Rightarrow> Err (invalid_params (''Missing or invalid parameter: '' @ key)))"

text \<open>\<open>self.service.m().await?\<close> and the conversion of what it answers.\<close>

definition handle_answer :: "('a \<Rightarrow> ('j, string) result) \<Rightarrow> 'a outcome \<Rightarrow> ('j, 'j JsonRpcError) result" where
  "handle_answer to_value r =
     rbind (map_err rpc_error_from r) (\<lambda>x. map_err (\<lambda>e. internal_error (''Serialization error: '' @ e)) (to_value x))"

definition handle_node_info :: "'j rpc_json \<Rightarrow> 'j RpcService \<Rightarrow> ('j, 'j JsonRpcError) result" where
  "handle_node_info J S = handle_answer (json_node_info J) (svc_node_info S)"

definition handle_health :: "'j rpc_json \<Rightarrow> 'j RpcService \<Rightarrow> ('j, 'j JsonRpcError) result" where
  "handle_health J S = handle_answer (json_health J) (svc_health S)"

definition handle_sync_status :: "'j rpc_json \<Rightarrow> 'j RpcService \<Rightarrow> ('j, 'j JsonRpcError) result" where
  "handle_sync_status J S = handle_answer (json_sync_status J) (svc_sync_status S)"

definition handle_chain_info :: "'j rpc_json \<Rightarrow> 'j RpcService \<Rightarrow> ('j, 'j JsonRpcError) result" where
  "handle_chain_info J S = handle_answer (json_chain_info J) (svc_chain_info S)"

definition handle_get_block :: "'j rpc_json \<Rightarrow> 'j RpcService \<Rightarrow> 'j \<Rightarrow> ('j, 'j JsonRpcError) result" where
  "handle_get_block J S params =
     rbind (extract_string_param J params ''hash'') (\<lambda>hash. handle_answer (json_block J) (svc_get_block S hash))"

definition handle_get_block_by_height :: "'j rpc_json \<Rightarrow> 'j RpcService \<Rightarrow> 'j \<Rightarrow> ('j, 'j JsonRpcError) result" where
  "handle_get_block_by_height J S params =
     rbind (extract_u64_param J params ''height'') (\<lambda>height. handle_answer (json_block J) (svc_get_block_by_height S height))"

definition handle_get_transaction :: "'j rpc_json \<Rightarrow> 'j RpcService \<Rightarrow> 'j \<Rightarrow> ('j, 'j JsonRpcError) result" where
  "handle_get_transaction J S params =
     rbind (extract_string_param J params ''hash'') (\<lambda>hash. handle_answer (json_transaction J) (svc_get_transaction S hash))"

definition handle_search_blocks :: "'j rpc_json \<Rightarrow> 'j RpcService \<Rightarrow> 'j \<Rightarrow> ('j, 'j JsonRpcError) result" where
  "handle_search_blocks J S params =
     rbind (map_err (\<lambda>e. invalid_params (''Invalid query: '' @ e)) (block_query_of J params)) (\<lambda>query.
       handle_answer (json_blocks J) (svc_search_blocks S query))"

definition handle_search_transactions :: "'j rpc_json \<Rightarrow> 'j RpcService \<Rightarrow> 'j \<Rightarrow> ('j, 'j JsonRpcError) result" where
  "handle_search_transactions J S params =
     rbind (map_err (\<lambda>e. invalid_params (''Invalid query: '' @ e)) (transaction_query_of J params)) (\<lambda>query.
       handle_answer (json_transactions J) (svc_search_transactions S query))"

definition handle_get_vote :: "'j rpc_json \<Rightarrow> 'j RpcService \<Rightarrow> 'j \<Rightarrow> ('j, 'j JsonRpcError) result" where
  "handle_get_vote J S params =
     rbind (extract_string_param J params ''tx_hash'') (\<lambda>tx_hash. handle_answer (json_vote J) (svc_get_vote S tx_hash))"

definition handle_get_election :: "'j rpc_json \<Rightarrow> 'j RpcService \<Rightarrow> 'j \<Rightarrow> ('j, 'j JsonRpcError) result" where
  "handle_get_election J S params =
     rbind (extract_string_param J params ''election_id'') (\<lambda>i. handle_answer (json_election J) (svc_get_election S i))"

definition handle_get_election_results :: "'j rpc_json \<Rightarrow> 'j RpcService \<Rightarrow> 'j \<Rightarrow> ('j, 'j JsonRpcError) result" where
  "handle_get_election_results J S params =
     rbind (extract_string_param J params ''election_id'') (\<lambda>i. handle_answer (json_results J) (svc_get_election_results S i))"

definition handle_submit_transaction :: "'j rpc_json \<Rightarrow> 'j RpcService \<Rightarrow> 'j \<Rightarrow> ('j, 'j JsonRpcError) result" where
  "handle_submit_transaction J S params =
     rbind (extract_string_param J params ''tx_hex'') (\<lambda>tx_hex. handle_answer (json_submit J) (svc_submit_transaction S tx_hex))"

definition handle_verify_vote :: "'j rpc_json \<Rightarrow> 'j RpcService \<Rightarrow> 'j \<Rightarrow> ('j, 'j JsonRpcError) result" where
  "handle_verify_vote J S params =
     rbind (map_err (\<lambda>e. invalid_params (''Invalid request: '' @ e)) (verify_request_of J params)) (\<lambda>request.
       handle_answer (json_verify J) (svc_verify_vote S request))"

definition handle_get_validators :: "'j rpc_json \<Rightarrow> 'j RpcService \<Rightarrow> 'j \<Rightarrow> ('j, 'j JsonRpcError) result" where
  "handle_get_validators J S params =
     rbind (if json_is_null J params \<or> json_object_empty J params \<noteq> Some False then Ok None
            else rbind (extract_u64_param J params ''height'') (\<lambda>height. Ok (Some height))) (\<lambda>height.
       handle_answer (json_validators J) (svc_get_validators S height))"

definition handle_get_validator :: "'j rpc_json \<Rightarrow> 'j RpcService \<Rightarrow> 'j \<Rightarrow> ('j, 'j JsonRpcError) result" where
  "handle_get_validator J S params =
     rbind (extract_string_param J params ''address'') (\<lambda>address. handle_answer (json_validator J) (svc_get_validator S address))"

definition handle_get_peers :: "'j rpc_json \<Rightarrow> 'j RpcService \<Rightarrow> ('j, 'j JsonRpcError) result" where
  "handle_get_peers J S = handle_answer (json_peers J) (svc_get_peers S)"

definition handle_get_mempool :: "'j rpc_json \<Rightarrow> 'j RpcService \<Rightarrow> ('j, 'j JsonRpcError) result" where
  "handle_get_mempool J S = handle_answer (json_mempool J) (svc_get_mempool S)"

definition dispatch :: "'j rpc_json \<Rightarrow> 'j RpcService \<Rightarrow> string \<Rightarrow> 'j \<Rightarrow> ('j, 'j JsonRpcError) result" where
  "dispatch J S name params =
     (if name = ''node_info'' then handle_node_info J S
      else if name = ''health'' then handle_health J S
      else if name = ''sync_status'' then handle_sync_status J S
      else if name = ''chain_info'' then handle_chain_info J S
      else if name = ''get_block'' then handle_get_block J S params
      else if name = ''get_block_by_height'' then handle_get_block_by_height J S params
      else if name = ''get_transaction'' then handle_get_transaction J S params
      else if name = ''search_blocks'' then handle_search_blocks J S params
      else if name = ''search_transactions'' then handle_search_transactions J S params
      else if name = ''get_vote'' then handle_get_vote J S params
      else if name = ''get_election'' then handle_get_election J S params
      else if name = ''get_election_results'' then handle_get_election_results J S params
      else if name = ''submit_transaction'' then handle_submit_transaction J S params
      else if name = ''verify_vote'' then handle_verify_vote J S params
      else if name = ''get_validators'' then handle_get_validators J S params
      else if name = ''get_validator'' then handle_get_validator J S params
      else if name = ''get_peers'' then handle_get_peers J S
      else if name = ''get_mempool'' then handle_get_mempool J S
      else Err (method_not_found name))"

definition handle_request :: "'j rpc_json \<Rightarrow> 'j RpcService \<Rightarrow> 'j JsonRpcRequest \<Rightarrow> 'j JsonRpcResponse outcome" where
  "handle_request J S request =
     (case dispatch J S (jrq_method request) (jrq_params request) of
        Ok value \<Rightarrow> Ok \<lparr>jrs_jsonrpc = ''2.0'', jrs_result = Some value, jrs_error = None, jrs_id = jrq_id request\<rparr>
      | Err error \<Rightarrow> Ok \<lparr>jrs_jsonrpc = ''2.0'', jrs_result = None, jrs_error = Some error, jrs_id = jrq_id request\<rparr>
      | Panic m \<Rightarrow> Panic m)"

end
