(* ===== verification/Rpc_Chain.thy ===== *)
theory Rpc_Chain
  imports Rpc_Methods
begin

text \<open>
  \<open>rpc/src/methods/blockchain.rs\<close>: the queries on the chain. A query walks over a range of heights;
  the two searches share the bookkeeping of the page, which is \<open>page_item\<close> here.
\<close>

section \<open>Answers\<close>

fun summary_type_name :: "TransactionType \<Rightarrow> string" where
  "summary_type_name (Vote _) = ''Vote''"
| "summary_type_name (TxValidatorRegistration _) = ''ValidatorRegistration''"
| "summary_type_name (TxElectionCreation _) = ''ElectionCreation''"
| "summary_type_name (TxElectionClosure _) = ''ElectionClosure''"
| "summary_type_name (TxValidatorRemoval _) = ''ValidatorRemoval''"

definition block_to_response :: "'z externals_scheme \<Rightarrow> Block \<Rightarrow> RpcBlockResponse outcome" where
  "block_to_response E block =
     (let transactions = map (\<lambda>tx. \<lparr>tsu_id = TxId_to_hex E (tx_id tx), tsu_tx_type = summary_type_name (tx_type tx),
            tsu_block_height = Block_height block, tsu_timestamp = tx_timestamp tx\<rparr>) (blk_transactions block)
      in Ok \<lparr>br_height = Block_height block, br_hash = BlockHash_to_hex E (Block_hash block),
             br_previous_hash = BlockHash_to_hex E (Block_previous_hash block),
             br_timestamp = hdr_timestamp (blk_header block),
             br_validator = PublicKey_to_hex E (hdr_validator (blk_header block)),
             br_transactions_root = BlockHash_to_hex E (hdr_transactions_root (blk_header block)),
             br_transaction_count = hdr_transaction_count (blk_header block), br_transactions = transactions,
             br_signature = (case blk_signatures block of s # _ \<Rightarrow> Signature_to_hex E (vs_signature s) | [] \<Rightarrow> [])\<rparr>)"

definition transaction_to_response ::
  "'z externals_scheme \<Rightarrow> 'j rpc_json \<Rightarrow> Transaction \<Rightarrow> Block \<Rightarrow> 'j RpcTransactionResponse outcome" where
  "transaction_to_response E J tx block =
     rbind (map_err (\<lambda>e. SerializationError (''Failed to serialize transaction: '' @ e)) (json_raw_transaction J tx)) (\<lambda>data.
       Ok \<lparr>txr_id = TxId_to_hex E (tx_id tx), txr_tx_type = transaction_type_name tx, txr_block_height = Block_height block,
           txr_block_hash = BlockHash_to_hex E (Block_hash block), txr_timestamp = tx_timestamp tx, txr_data = data,
           txr_signature = []\<rparr>)"

definition block_matches_query :: "'z externals_scheme \<Rightarrow> Block \<Rightarrow> BlockQuery \<Rightarrow> bool" where
  "block_matches_query E block query \<longleftrightarrow>
     (case bq_validator query of None \<Rightarrow> True | Some v \<Rightarrow> PublicKey_to_hex E (hdr_validator (blk_header block)) = v) \<and>
     (case bq_min_timestamp query of None \<Rightarrow> True | Some t \<Rightarrow> t \<le> hdr_timestamp (blk_header block)) \<and>
     (case bq_max_timestamp query of None \<Rightarrow> True | Some t \<Rightarrow> hdr_timestamp (blk_header block) \<le> t)"

fun type_of_election :: "'z externals_scheme \<Rightarrow> TransactionType \<Rightarrow> string \<Rightarrow> bool" where
  "type_of_election E (Vote vote_tx) i \<longleftrightarrow> ElectionId_to_hex E (vt_election_id vote_tx) = i"
| "type_of_election E (TxElectionCreation election_tx) i \<longleftrightarrow> ElectionId_to_hex E (ec_election_id election_tx) = i"
| "type_of_election E _ i \<longleftrightarrow> False"

definition transaction_matches_query :: "'z externals_scheme \<Rightarrow> Transaction \<Rightarrow> TransactionQuery \<Rightarrow> bool" where
  "transaction_matches_query E tx query \<longleftrightarrow>
     (case tq_tx_type query of None \<Rightarrow> True | Some t \<Rightarrow> transaction_type_name tx = t) \<and>
     (case tq_election_id query of None \<Rightarrow> True | Some i \<Rightarrow> type_of_election E (tx_type tx) i) \<and>
     (case tq_min_timestamp query of None \<Rightarrow> True | Some t \<Rightarrow> t \<le> tx_timestamp tx) \<and>
     (case tq_max_timestamp query of None \<Rightarrow> True | Some t \<Rightarrow> tx_timestamp tx \<le> t)"

section \<open>Walking over heights\<close>

text \<open>\<open>start..=stop\<close>\<close>

definition heights_inclusive :: "u64 \<Rightarrow> u64 \<Rightarrow> u64 list" where
  "heights_inclusive start stop = map of_nat [unat start..<unat stop + 1]"

text \<open>A loop over heights that visits the blocks there are.\<close>

fun visit_heights :: "Blockchain \<Rightarrow> (Block \<Rightarrow> 'a \<Rightarrow> 'a outcome) \<Rightarrow> u64 list \<Rightarrow> 'a \<Rightarrow> 'a outcome" where
  "visit_heights c f [] acc = Ok acc"
| "visit_heights c f (h # hs) acc =
     rbind (get_block_by_height c h) (\<lambda>found.
       case found of
         None \<Rightarrow> visit_heights c f hs acc
       | Some block \<Rightarrow> rbind (f block acc) (visit_heights c f hs))"

definition count_total_transactions :: "Blockchain \<Rightarrow> u64 outcome" where
  "count_total_transactions c =
     visit_heights c (\<lambda>block n. Ok (n + of_nat (length (blk_transactions block)))) (heights_inclusive 0 (bc_height c)) 0"

definition count_total_votes :: "Blockchain \<Rightarrow> u64 outcome" where
  "count_total_votes c =
     visit_heights c (\<lambda>block n. Ok (fold (\<lambda>tx n. if is_vote tx then n + 1 else n) (blk_transactions block) n))
       (heights_inclusive 0 (bc_height c)) 0"

text \<open>One item of a search: counted if it matches, answered if it is on the page.\<close>

definition page_item :: "('i \<Rightarrow> bool) \<Rightarrow> ('i \<Rightarrow> 'r outcome) \<Rightarrow> u64 \<Rightarrow> u64 \<Rightarrow> 'i \<Rightarrow> 'r list \<times> u64 \<Rightarrow> ('r list \<times> u64) outcome" where
  "page_item matches respond limit offset x = (\<lambda>(page, total).
     if matches x then
       let total = total + 1 in
       if offset < total \<and> length page < unat limit then rbind (respond x) (\<lambda>r. Ok (page @ [r], total)) else Ok (page, total)
     else Ok (page, total))"

fun page_items ::
  "('i \<Rightarrow> bool) \<Rightarrow> ('i \<Rightarrow> 'r outcome) \<Rightarrow> u64 \<Rightarrow> u64 \<Rightarrow> 'i list \<Rightarrow> 'r list \<times> u64 \<Rightarrow> ('r list \<times> u64) outcome" where
  "page_items matches respond limit offset [] acc = Ok acc"
| "page_items matches respond limit offset (x # xs) acc =
     rbind (page_item matches respond limit offset x acc) (page_items matches respond limit offset xs)"

section \<open>Queries\<close>

definition rpc_chain_info :: "'z externals_scheme \<Rightarrow> Blockchain \<Rightarrow> ChainInfo outcome" where
  "rpc_chain_info E c =
     rbind (latest_block c) (\<lambda>latest.
     rbind (count_total_transactions c) (\<lambda>total_transactions.
     rbind (count_total_votes c) (\<lambda>total_votes.
       Ok \<lparr>ci_height = bc_height c, ci_genesis_hash = BlockHash_to_hex E (bc_genesis_hash c),
           ci_latest_block_hash = BlockHash_to_hex E (Block_hash latest),
           ci_latest_block_time = hdr_timestamp (blk_header latest), ci_total_transactions = total_transactions,
           ci_total_votes = total_votes, ci_total_validators = chain_validator_count c,
           ci_active_validators = chain_active_validator_count c, ci_active_elections = active_election_count c\<rparr>)))"

definition rpc_get_block :: "'z externals_scheme \<Rightarrow> Blockchain \<Rightarrow> string \<Rightarrow> RpcBlockResponse outcome" where
  "rpc_get_block E c hash_str =
     rbind (map_err (\<lambda>_. InvalidBlock ''Invalid block hash'') (BlockHash_from_hex E hash_str)) (\<lambda>hash.
     rbind (get_block_by_hash c hash) (\<lambda>found.
       case found of None \<Rightarrow> Err (BlockNotFound hash_str) | Some block \<Rightarrow> block_to_response E block))"

definition rpc_get_block_by_height :: "'z externals_scheme \<Rightarrow> Blockchain \<Rightarrow> u64 \<Rightarrow> RpcBlockResponse outcome" where
  "rpc_get_block_by_height E c height =
     rbind (get_block_by_height c height) (\<lambda>found.
       case found of
         None \<Rightarrow> Err (BlockNotFound (''height '' @ show_nat (unat height)))
       | Some block \<Rightarrow> block_to_response E block)"

definition rpc_get_transaction ::
  "'z externals_scheme \<Rightarrow> 'j rpc_json \<Rightarrow> Blockchain \<Rightarrow> string \<Rightarrow> 'j RpcTransactionResponse outcome" where
  "rpc_get_transaction E J c hash_str =
     rbind (map_err (\<lambda>_. InvalidTransaction ''Invalid transaction hash'') (TxId_from_hex E hash_str)) (\<lambda>i.
     rbind (get_transaction c i) (\<lambda>found.
     case found of
       None \<Rightarrow> Err (TransactionNotFound hash_str)
     | Some tx \<Rightarrow>
         (case get_transaction_block_height c i of
            None \<Rightarrow> Err (TransactionNotFound hash_str)
          | Some block_height \<Rightarrow>
              rbind (get_block_by_height c block_height) (\<lambda>found.
                case found of
                  None \<Rightarrow> Panic ''called `Option::unwrap()` on a `None` value''
                | Some block \<Rightarrow> transaction_to_response E J tx block))))"

definition rpc_search_blocks :: "'z externals_scheme \<Rightarrow> Blockchain \<Rightarrow> BlockQuery \<Rightarrow> BlockSearchResponse outcome" where
  "rpc_search_blocks E c query =
     (let start_height = (case bq_start_height query of Some h \<Rightarrow> h | None \<Rightarrow> 0);
          end_height = (case bq_end_height query of Some h \<Rightarrow> h | None \<Rightarrow> bc_height c);
          limit = min (case bq_limit query of Some n \<Rightarrow> n | None \<Rightarrow> DEFAULT_QUERY_LIMIT) MAX_QUERY_LIMIT;
          offset = (case bq_offset query of Some n \<Rightarrow> n | None \<Rightarrow> 0)
      in rbind (visit_heights c (\<lambda>block. page_items (\<lambda>b. block_matches_query E b query) (block_to_response E) limit offset [block])
                  (heights_inclusive start_height end_height) ([], 0)) (\<lambda>(matching_blocks, total_matches).
           Ok \<lparr>bsr_total = total_matches, bsr_blocks = matching_blocks, bsr_has_more = offset + limit < total_matches\<rparr>))"

definition rpc_search_transactions ::
  "'z externals_scheme \<Rightarrow> 'j rpc_json \<Rightarrow> Blockchain \<Rightarrow> TransactionQuery \<Rightarrow> 'j TransactionSearchResponse outcome" where
  "rpc_search_transactions E J c query =
     (let start_height = (case tq_start_height query of Some h \<Rightarrow> h | None \<Rightarrow> 0);
          end_height = (case tq_end_height query of Some h \<Rightarrow> h | None \<Rightarrow> bc_height c);
          limit = min (case tq_limit query of Some n \<Rightarrow> n | None \<Rightarrow> DEFAULT_QUERY_LIMIT) MAX_QUERY_LIMIT;
          offset = (case tq_offset query of Some n \<Rightarrow> n | None \<Rightarrow> 0)
      in rbind (visit_heights c (\<lambda>block. page_items (\<lambda>tx. transaction_matches_query E tx query)
                   (\<lambda>tx. transaction_to_response E J tx block) limit offset (blk_transactions block))
                  (heights_inclusive start_height end_height) ([], 0)) (\<lambda>(matching_txs, total_matches).
           Ok \<lparr>tsr_total = total_matches, tsr_transactions = matching_txs, tsr_has_more = offset + limit < total_matches\<rparr>))"

section \<open>Facts about the loops\<close>

fun visit_blocks :: "(Block \<Rightarrow> 'a \<Rightarrow> 'a outcome) \<Rightarrow> Block list \<Rightarrow> 'a \<Rightarrow> 'a outcome" where
  "visit_blocks f [] acc = Ok acc"
| "visit_blocks f (b # bs) acc = rbind (f b acc) (visit_blocks f bs)"

text \<open>The blocks of a chain with the heights from \<open>start\<close> to \<open>stop\<close>.\<close>

definition blocks_between :: "Blockchain \<Rightarrow> u64 \<Rightarrow> u64 \<Rightarrow> Block list" where
  "blocks_between c start stop = take (unat stop + 1 - unat start) (drop (unat start) (bc_blocks c))"

lemma visit_heights_filter:
  assumes "chain_wf E c" and "length (bc_blocks c) \<le> 2 ^ 64" and "\<forall>k \<in> set ks. k < 2 ^ 64"
  shows "visit_heights c f (map of_nat ks) acc = visit_blocks f (List.map_filter (vec_get (bc_blocks c)) ks) acc"
  using assms(3)
proof (induction ks arbitrary: acc)
  case (Cons k ks)
  then have "get_block_by_height c (of_nat k) = Ok (vec_get (bc_blocks c) k)"
    using get_block_by_height_eq [OF assms(1,2), of "of_nat k"] unat_of_nat_small [of k] by simp
  moreover have "visit_heights c f (map of_nat ks) = visit_blocks f (List.map_filter (vec_get (bc_blocks c)) ks)"
    using Cons by (intro ext) simp
  ultimately show ?case by (cases "vec_get (bc_blocks c) k") (simp_all add: List.map_filter_simps)
qed (simp add: List.map_filter_simps)

lemma map_filter_upt: "List.map_filter (vec_get xs) [i..<j] = take (j - i) (drop i xs)"
proof (induction j)
  case (Suc j)
  show ?case
  proof (cases "i \<le> j")
    case True
    then have "List.map_filter (vec_get xs) [i..<Suc j] =
        take (j - i) (drop i xs) @ (case vec_get xs j of None \<Rightarrow> [] | Some x \<Rightarrow> [x])"
      using Suc by (auto simp: List.map_filter_def split: option.splits)
    also have "\<dots> = take (Suc j - i) (drop i xs)"
      using True by (cases "j < length xs") (simp_all add: vec_get_def Suc_diff_le take_Suc_conv_app_nth)
    finally show ?thesis .
  qed (simp add: List.map_filter_simps)
qed (simp add: List.map_filter_simps)

lemma visit_heights_eq:
  assumes "chain_wf E c" and "length (bc_blocks c) \<le> 2 ^ 64"
  shows "visit_heights c f (heights_inclusive start stop) acc = visit_blocks f (blocks_between c start stop) acc"
proof -
  have "\<forall>k \<in> set [unat start..<unat stop + 1]. k < 2 ^ 64" using unsigned_less [of stop] by auto
  from visit_heights_filter [OF assms this] show ?thesis
    by (simp add: heights_inclusive_def blocks_between_def map_filter_upt del: upt_Suc)
qed

lemma blocks_between_all:
  assumes "chain_wf E c" and "length (bc_blocks c) \<le> 2 ^ 64"
  shows "blocks_between c 0 (bc_height c) = bc_blocks c"
proof -
  have "0 < length (bc_blocks c)" using assms(1) by (simp add: chain_wf_def blocks_wf_def)
  then have "unat (bc_height c) + 1 = length (bc_blocks c)"
    using assms unat_of_nat_small [of "length (bc_blocks c) - 1"] by (simp add: chain_wf_def del: of_nat_diff)
  then show ?thesis by (simp add: blocks_between_def)
qed

text \<open>The state of a search that has met the answers \<open>rs\<close>.\<close>

definition page_of :: "u64 \<Rightarrow> u64 \<Rightarrow> 'r list \<Rightarrow> 'r list \<times> u64" where
  "page_of limit offset rs = (take (unat limit) (drop (unat offset) rs), of_nat (length rs))"

lemma page_item_hit:
  assumes "matches x" and "respond x = Ok r" and "length rs + 1 < 2 ^ 64"
  shows "page_item matches respond limit offset x (page_of limit offset rs) = Ok (page_of limit offset (rs @ [r]))"
proof -
  have "unat (of_nat (length rs) + 1 :: u64) = length rs + 1"
    using unat_of_nat_small [of "length rs + 1"] assms(3) by (simp add: add.commute)
  then have "offset < of_nat (length rs) + 1 \<longleftrightarrow> unat offset \<le> length rs" by (simp add: word_less_nat_alt less_Suc_eq_le)
  then show ?thesis
    using assms(1,2) by (auto simp: page_item_def page_of_def Let_def add.commute)
qed

lemma page_items_eq:
  assumes "\<forall>x \<in> set xs. matches x \<longrightarrow> respond x = Ok (g x)" and "length rs + length (filter matches xs) < 2 ^ 64"
  shows "page_items matches respond limit offset xs (page_of limit offset rs) =
    Ok (page_of limit offset (rs @ map g (filter matches xs)))"
  using assms
proof (induction xs arbitrary: rs)
  case (Cons x xs)
  show ?case
  proof (cases "matches x")
    case True
    then have "page_item matches respond limit offset x (page_of limit offset rs) = Ok (page_of limit offset (rs @ [g x]))"
      using Cons.prems by (intro page_item_hit) simp_all
    with Cons.IH [of "rs @ [g x]"] Cons.prems True show ?thesis by simp
  next
    case False
    then have "page_item matches respond limit offset x (page_of limit offset rs) = Ok (page_of limit offset rs)"
      by (simp add: page_item_def page_of_def)
    with Cons.IH [of rs] Cons.prems False show ?thesis by simp
  qed
qed simp

lemma visit_pages:
  assumes "\<forall>b \<in> set bs. \<forall>x \<in> set (items b). matches x \<longrightarrow> respond b x = Ok (g b x)"
    and "length rs + (\<Sum>b\<leftarrow>bs. length (filter matches (items b))) < 2 ^ 64"
  shows "visit_blocks (\<lambda>b. page_items matches (respond b) limit offset (items b)) bs (page_of limit offset rs) =
    Ok (page_of limit offset (rs @ concat (map (\<lambda>b. map (g b) (filter matches (items b))) bs)))"
  using assms
proof (induction bs arbitrary: rs)
  case (Cons b bs)
  have "page_items matches (respond b) limit offset (items b) (page_of limit offset rs) =
      Ok (page_of limit offset (rs @ map (g b) (filter matches (items b))))"
    using Cons.prems by (intro page_items_eq) simp_all
  with Cons.IH [of "rs @ map (g b) (filter matches (items b))"] Cons.prems show ?case by simp
qed simp

text \<open>What a query asks for.\<close>

definition query_page :: "u64 option \<Rightarrow> u64" where
  "query_page limit = min (case limit of Some n \<Rightarrow> n | None \<Rightarrow> DEFAULT_QUERY_LIMIT) MAX_QUERY_LIMIT"

lemma length_blocks_between: "length (blocks_between c start stop) \<le> length (bc_blocks c)"
  by (simp add: blocks_between_def)

lemma length_filter_concat: "length (concat (map (\<lambda>b. filter P (f b)) bs)) = (\<Sum>b\<leftarrow>bs. length (filter P (f b)))"
  by (simp add: length_concat comp_def)

lemma filter_singletons: "concat (map (\<lambda>b. map g (filter P [b])) bs) = map g (filter P bs)"
  by (induction bs) auto

lemma sum_singletons: "(\<Sum>b\<leftarrow>bs. length (filter P [b])) = length (filter P bs)"
  by (induction bs) auto

text \<open>The counts of \<open>chain_info\<close> are those of the transactions of the chain.\<close>

lemma visit_blocks_fold: "visit_blocks (\<lambda>b acc. Ok (f b acc)) bs acc = Ok (fold f bs acc)"
  by (induction bs arbitrary: acc) simp_all

lemma count_total_transactions_eq:
  assumes "chain_wf E c" and "length (bc_blocks c) \<le> 2 ^ 64"
  shows "count_total_transactions c = Ok (of_nat (length (get_all_transactions c)))"
proof -
  have "fold (\<lambda>block n. n + of_nat (length (blk_transactions block))) bs n =
      n + of_nat (length (concat (map blk_transactions bs)))" for bs and n :: u64
    by (induction bs arbitrary: n) (simp_all add: add.assoc)
  from this [of "bc_blocks c" 0] show ?thesis
    by (simp add: count_total_transactions_def visit_heights_eq [OF assms] blocks_between_all [OF assms] visit_blocks_fold
        get_all_transactions_def)
qed

lemma count_total_votes_eq:
  assumes "chain_wf E c" and "length (bc_blocks c) \<le> 2 ^ 64"
  shows "count_total_votes c = Ok (of_nat (length (filter is_vote (get_all_transactions c))))"
proof -
  have inner: "fold (\<lambda>tx n. if is_vote tx then n + 1 else n) txs n = n + of_nat (length (filter is_vote txs))" for txs and n :: u64
    by (induction txs arbitrary: n) (simp_all add: add.assoc)
  have "fold (\<lambda>block n. n + of_nat (length (filter is_vote (blk_transactions block)))) bs n =
      n + of_nat (length (filter is_vote (concat (map blk_transactions bs))))" for bs and n :: u64
    by (induction bs arbitrary: n) (simp_all add: add.assoc)
  from this [of "bc_blocks c" 0] show ?thesis
    by (simp add: count_total_votes_def visit_heights_eq [OF assms] blocks_between_all [OF assms] visit_blocks_fold inner
        get_all_transactions_def)
qed

text \<open>An offset close to the largest number makes the test for more results wrap: the page is empty and there seems to be more.\<close>

lemma has_more_wraps:
  assumes "reachable_chain E c" and "20 \<le> length (bc_blocks c)" and "length (bc_blocks c) < 2 ^ 64"
  shows "\<exists>r. rpc_search_blocks E c (BlockQuery_default\<lparr>bq_offset := Some 18446744073709551615\<rparr>) = Ok r \<and> bsr_blocks r = [] \<and> bsr_has_more r"
proof -
  let ?q = "BlockQuery_default\<lparr>bq_offset := Some 18446744073709551615\<rparr>"
  have wf: "chain_wf E c" using reachable_chain_wf [OF assms(1)] .
  have len: "length (bc_blocks c) \<le> 2 ^ 64" using assms(3) by simp
  have all: "block_matches_query E b ?q" for b by (simp add: block_matches_query_def BlockQuery_default_def)
  have resp: "block_to_response E b = Ok (ok_value (block_to_response E b))" for b by (simp add: block_to_response_def Let_def)
  have visit: "visit_blocks (\<lambda>b. page_items (\<lambda>b. block_matches_query E b ?q) (block_to_response E) 20 18446744073709551615 [b])
      (bc_blocks c) (page_of 20 18446744073709551615 []) = Ok (page_of 20 18446744073709551615 (map (\<lambda>b. ok_value (block_to_response E b)) (bc_blocks c)))"
    using visit_pages [of "bc_blocks c" "\<lambda>b. [b]" "\<lambda>b. block_matches_query E b ?q" "\<lambda>_. block_to_response E"
        "\<lambda>_ b. ok_value (block_to_response E b)" "[]" 20 18446744073709551615] assms(3) resp
    by (simp add: all filter_singletons sum_list_triv)
  have "unat (of_nat (length (bc_blocks c)) :: u64) = length (bc_blocks c)" using assms(3) by (rule unat_of_nat_small)
  then have "(18446744073709551615 + 20 :: u64) < of_nat (length (bc_blocks c))" using assms(2) by (simp add: word_less_nat_alt)
  then show ?thesis
    using visit assms(3)
    by (auto simp: rpc_search_blocks_def Let_def visit_heights_eq [OF wf len] blocks_between_all [OF wf len] BlockQuery_default_def
        DEFAULT_QUERY_LIMIT_def MAX_QUERY_LIMIT_def page_of_def)
qed

text \<open>A search for transactions answers with a page of the matches, too, when they can be serialised.\<close>

lemma search_transactions_page:
  assumes "chain_wf E c" and "length (bc_blocks c) \<le> 2 ^ 64" and "\<forall>tx. is_ok (json_raw_transaction J tx)"
    and "start = (case tq_start_height q of Some h \<Rightarrow> h | None \<Rightarrow> 0)"
    and "stop = (case tq_end_height q of Some h \<Rightarrow> h | None \<Rightarrow> bc_height c)"
    and "offset = (case tq_offset q of Some n \<Rightarrow> n | None \<Rightarrow> 0)"
    and "rs = concat (map (\<lambda>b. map (\<lambda>tx. ok_value (transaction_to_response E J tx b))
           (filter (\<lambda>tx. transaction_matches_query E tx q) (blk_transactions b))) (blocks_between c start stop))"
    and "length rs < 2 ^ 64"
  shows "\<exists>r. rpc_search_transactions E J c q = Ok r \<and> tsr_total r = of_nat (length rs) \<and>
    tsr_transactions r = take (unat (query_page (tq_limit q))) (drop (unat offset) rs)"
proof -
  let ?l = "query_page (tq_limit q)"
  have resp: "transaction_to_response E J tx b = Ok (ok_value (transaction_to_response E J tx b))" for tx b
    using assms(3) [rule_format, of tx] by (auto simp: transaction_to_response_def is_ok_iff)
  have "length rs = (\<Sum>b\<leftarrow>blocks_between c start stop. length (filter (\<lambda>tx. transaction_matches_query E tx q) (blk_transactions b)))"
    unfolding assms(7) by (simp add: length_concat comp_def)
  then have "visit_blocks (\<lambda>b. page_items (\<lambda>tx. transaction_matches_query E tx q) (\<lambda>tx. transaction_to_response E J tx b) ?l offset
      (blk_transactions b)) (blocks_between c start stop) (page_of ?l offset []) = Ok (page_of ?l offset rs)"
    using visit_pages [of "blocks_between c start stop" blk_transactions "\<lambda>tx. transaction_matches_query E tx q"
        "\<lambda>b tx. transaction_to_response E J tx b" "\<lambda>b tx. ok_value (transaction_to_response E J tx b)" "[]" ?l offset] assms(8) resp
    unfolding assms(7) by simp
  then show ?thesis
    by (simp add: rpc_search_transactions_def Let_def visit_heights_eq [OF assms(1,2)] page_of_def assms(4-6) query_page_def)
qed

text \<open>Every transaction of the chain is found under its identifier, with the block it is in.\<close>

lemma rpc_get_transaction_found:
  assumes "reachable_chain E c" and "length (bc_blocks c) \<le> 2 ^ 64" and "hex_laws E" and "\<forall>tx. is_ok (json_raw_transaction J tx)"
    and "i < length (bc_blocks c)" and "t \<in> tx_ids (bc_blocks c ! i)"
  shows "\<exists>r. rpc_get_transaction E J c (TxId_to_hex E t) = Ok r \<and> txr_id r = TxId_to_hex E t \<and>
    txr_block_height r = of_nat i \<and> txr_block_hash r = BlockHash_to_hex E (Block_hash (bc_blocks c ! i))"
proof -
  have wf: "chain_wf E c" using reachable_chain_wf [OF assms(1)] .
  have height: "fmlookup (bc_tx_to_block c) t = Some (of_nat i)"
    using wf assms(5,6) unfolding chain_wf_def tx_index_def by blast
  have small: "unat (of_nat i :: u64) = i" using assms(2,5) by (intro unat_of_nat_small) simp
  have block: "get_block_by_height c (of_nat i) = Ok (Some (bc_blocks c ! i))"
    using get_block_by_height_eq [OF wf assms(2), of "of_nat i"] assms(5) by (simp add: small vec_get_def)
  have "Block_get_transaction (bc_blocks c ! i) t \<noteq> None"
    using assms(6) by (auto simp: Block_get_transaction_def find_None_iff tx_ids_def)
  then obtain tx where tx: "Block_get_transaction (bc_blocks c ! i) t = Some tx" "tx_id tx = t"
    using Block_get_transaction_Some by (metis not_Some_eq)
  have "TxId_from_hex E (TxId_to_hex E t) = Ok t" using tx_id.from_hex_to_hex [OF assms(3)] by simp
  moreover have "Block_height (bc_blocks c ! i) = of_nat i" using wf assms(5) by (simp add: chain_wf_def blocks_wf_def)
  moreover obtain d where "json_raw_transaction J tx = Ok d" using assms(4) by (auto simp: is_ok_iff)
  ultimately show ?thesis
    using height block tx by (simp add: rpc_get_transaction_def get_transaction_def get_transaction_block_height_def transaction_to_response_def)
qed

section \<open>Properties\<close>

text \<open>
  C18: A search answers with exactly one page of the matches: on a reachable chain of fewer than
  \<open>2 ^ 64\<close> blocks it returns, the total is the number of blocks in the range of heights that match, the
  blocks are those matches from the offset on, in the order of the chain, as many as the limit (at
  most 100) allows, and unless offset and limit wrap, more results are announced exactly when some
  match lies behind the page.
\<close>

theorem search_blocks_page:
  assumes "reachable_chain E c" and "length (bc_blocks c) < 2 ^ 64"
    and "start = (case bq_start_height q of Some h \<Rightarrow> h | None \<Rightarrow> 0)"
    and "stop = (case bq_end_height q of Some h \<Rightarrow> h | None \<Rightarrow> bc_height c)"
    and "offset = (case bq_offset q of Some n \<Rightarrow> n | None \<Rightarrow> 0)"
    and "ms = filter (\<lambda>b. block_matches_query E b q) (blocks_between c start stop)"
  shows "\<exists>r. rpc_search_blocks E c q = Ok r \<and> bsr_total r = of_nat (length ms) \<and>
    list_all2 (\<lambda>b a. block_to_response E b = Ok a) (take (unat (query_page (bq_limit q))) (drop (unat offset) ms)) (bsr_blocks r) \<and>
    (unat offset + unat (query_page (bq_limit q)) < 2 ^ 64 \<longrightarrow>
       (bsr_has_more r \<longleftrightarrow> unat offset + unat (query_page (bq_limit q)) < length ms))"
proof -
  let ?l = "query_page (bq_limit q)" and ?g = "\<lambda>b. ok_value (block_to_response E b)"
  have wf: "chain_wf E c" using reachable_chain_wf [OF assms(1)] .
  have len: "length (bc_blocks c) \<le> 2 ^ 64" using assms(2) by simp
  have resp: "block_to_response E b = Ok (?g b)" for b by (simp add: block_to_response_def Let_def)
  have small: "length ms < 2 ^ 64"
    using assms(2) length_blocks_between [of c start stop] length_filter_le [of _ "blocks_between c start stop"] assms(6)
    by (meson le_less_trans le_trans)
  have "visit_blocks (\<lambda>b. page_items (\<lambda>b. block_matches_query E b q) (block_to_response E) ?l offset [b])
      (blocks_between c start stop) (page_of ?l offset []) = Ok (page_of ?l offset (map ?g ms))"
    using visit_pages [of "blocks_between c start stop" "\<lambda>b. [b]" "\<lambda>b. block_matches_query E b q" "\<lambda>_. block_to_response E"
        "\<lambda>_. ?g" "[]" ?l offset] small resp
    unfolding filter_singletons sum_singletons assms(6) by simp
  then have r: "rpc_search_blocks E c q = Ok \<lparr>bsr_total = of_nat (length ms), bsr_blocks = take (unat ?l) (drop (unat offset) (map ?g ms)),
      bsr_has_more = offset + ?l < of_nat (length ms)\<rparr>"
    by (simp add: rpc_search_blocks_def Let_def visit_heights_eq [OF wf len] page_of_def assms(3-5) query_page_def)
  have "offset + ?l < of_nat (length ms) \<longleftrightarrow> unat offset + unat ?l < length ms" if "unat offset + unat ?l < 2 ^ 64"
    using that unat_of_nat_small [OF small] unat_add_lem [of offset ?l] by (simp add: word_less_nat_alt)
  moreover have "list_all2 (\<lambda>b a. block_to_response E b = Ok a) xs (map ?g xs)" for xs
    using resp by (induction xs) simp_all
  ultimately show ?thesis using r by (simp add: take_map drop_map)
qed

theorem search_blocks_page_witness:
  "\<exists>r. rpc_search_blocks sample_env sample_chain2 BlockQuery_default = Ok r \<and> bsr_total r = 2 \<and> \<not> bsr_has_more r"
proof -
  let ?ms = "filter (\<lambda>b. block_matches_query sample_env b BlockQuery_default) (blocks_between sample_chain2 0 (bc_height sample_chain2))"
  have "?ms = bc_blocks sample_chain2"
    using blocks_between_all [OF reachable_chain_wf [OF sample_chain2_reachable]]
    by (simp add: block_matches_query_def BlockQuery_default_def)
  then show ?thesis
    using search_blocks_page [OF sample_chain2_reachable _ refl refl refl refl, of BlockQuery_default]
    by (auto simp: BlockQuery_default_def query_page_def DEFAULT_QUERY_LIMIT_def MAX_QUERY_LIMIT_def)
qed

end
