(* ===== verification/Rpc_Queries.thy ===== *)
theory Rpc_Queries
  imports Rpc_Chain
begin

text \<open>
  \<open>rpc/src/methods/network.rs\<close>, \<open>node.rs\<close> and \<open>validation.rs\<close>: the queries on peers, the node and
  elections. The text of an address is the argument \<open>addr_text\<close>. Then \<open>rpc/src/service.rs\<close>, the service
  of a validator node.
\<close>

section \<open>Network\<close>

definition peer_response :: "'z externals_scheme \<Rightarrow> (SocketAddr \<Rightarrow> string) \<Rightarrow> Timestamp \<Rightarrow> PeerInfo \<Rightarrow> RpcPeerInfo" where
  "peer_response E addr_text now peer =
     \<lparr>rpi_peer_id = PeerId_display E (pi_id peer), rpi_address = addr_text (pi_addr peer),
      rpi_direction = (case pi_direction peer of Inbound \<Rightarrow> ''inbound'' | Outbound \<Rightarrow> ''outbound''),
      rpi_height = pi_best_height peer, rpi_connected_duration = uptime now peer\<rparr>"

text \<open>The clock is read once per peer.\<close>

definition rpc_get_peers :: "'z externals_scheme \<Rightarrow> (SocketAddr \<Rightarrow> string) \<Rightarrow> (nat \<Rightarrow> Timestamp) \<Rightarrow> PeerManager \<Rightarrow> PeersResponse outcome" where
  "rpc_get_peers E addr_text now m =
     (let peers = get_all_peers m
      in Ok \<lparr>psr_total_peers = length peers, psr_peers = map (\<lambda>(k, peer). peer_response E addr_text (now k) peer) (enumerate 0 peers)\<rparr>)"

definition rpc_get_mempool :: "'z externals_scheme \<Rightarrow> MempoolResponse outcome" where
  "rpc_get_mempool E =
     (let pending_txs = [] :: Transaction list;
          transactions = map (\<lambda>tx. \<lparr>tsu_id = TxId_to_hex E (tx_id tx), tsu_tx_type = transaction_type_name tx,
            tsu_block_height = 0, tsu_timestamp = tx_timestamp tx\<rparr>) pending_txs
      in Ok \<lparr>mpr_pending_count = length pending_txs, mpr_transactions = transactions\<rparr>)"

definition rpc_submit_transaction ::
  "'z tx_externals_scheme \<Rightarrow> 'y network_codecs_scheme \<Rightarrow> stamp \<Rightarrow> (nat \<Rightarrow> Timestamp) \<Rightarrow> string \<Rightarrow> NetworkManager \<Rightarrow>
   NetworkManager \<times> SubmitResponse outcome" where
  "rpc_submit_transaction E N st sent_at tx_hex m =
     and_then (m, map_err (\<lambda>e. InvalidTransaction (''Invalid hex encoding: '' @ show_hex_error e)) (hex_decode E tx_hex)) (\<lambda>m tx_bytes.
     and_then (m, map_err from_bincode (snd (tx_codec N) tx_bytes)) (\<lambda>m tx.
     and_then (m, Transaction_validate E tx) (\<lambda>m _.
     and_then (m, message_new_transaction N st tx) (\<lambda>m message.
     and_then (broadcast sent_at message m) (\<lambda>m _.
       (m, Ok \<lparr>sur_tx_id = TxId_to_hex E (tx_id tx), sur_accepted = True, sur_error = None\<rparr>))))))"

section \<open>Node\<close>

record NodeMethods =
  nme_node_type :: string
  nme_version :: string
  nme_network_id :: string
  nme_public_key :: "string option"
  nme_chain :: Blockchain
  nme_network_manager :: NetworkManager
  nme_start_time :: instant

definition NodeMethods_new ::
  "instant \<Rightarrow> string \<Rightarrow> string \<Rightarrow> string \<Rightarrow> string option \<Rightarrow> Blockchain \<Rightarrow> NetworkManager \<Rightarrow> NodeMethods" where
  "NodeMethods_new now node_type version network_id public_key chain network_manager =
     \<lparr>nme_node_type = node_type, nme_version = version, nme_network_id = network_id, nme_public_key = public_key,
      nme_chain = chain, nme_network_manager = network_manager, nme_start_time = now\<rparr>"

text \<open>\<open>now1\<close> and \<open>now2\<close> are the readings of the clock inside \<open>sync_status\<close>.\<close>

definition methods_node_info :: "'z externals_scheme \<Rightarrow> instant \<Rightarrow> Timestamp \<Rightarrow> Timestamp \<Rightarrow> NodeMethods \<Rightarrow> NodeInfo outcome" where
  "methods_node_info E now now1 now2 n =
     rbind (latest_block (nme_chain n)) (\<lambda>latest.
       Ok \<lparr>ni_version = nme_version n, ni_node_type = nme_node_type n,
           ni_public_key = (case nme_public_key n of Some k \<Rightarrow> k | None \<Rightarrow> ''none''), ni_network_id = nme_network_id n,
           ni_height = bc_height (nme_chain n), ni_latest_block_hash = BlockHash_to_hex E (Block_hash latest),
           ni_peer_count = network_peer_count (nme_network_manager n),
           ni_syncing = status_is_syncing (network_sync_status now1 now2 (nme_network_manager n)),
           ni_uptime = of_nat (as_secs_since now (nme_start_time n))\<rparr>)"

definition methods_sync_status :: "Timestamp \<Rightarrow> Timestamp \<Rightarrow> Timestamp \<Rightarrow> NodeMethods \<Rightarrow> SyncStatusResponse outcome" where
  "methods_sync_status now1 now2 now n =
     (let sync_status = network_sync_status now1 now2 (nme_network_manager n)
      in Ok \<lparr>ssr_syncing = status_is_syncing sync_status, ssr_current_height = bc_height (nme_chain n),
             ssr_target_height = sst_target_height sync_status, ssr_progress = progress_percent sync_status,
             ssr_estimated_time_remaining =
               map_option (\<lambda>completion. saturating_sub completion now) (sst_estimated_completion sync_status)\<rparr>)"

definition check_database_health :: "NodeMethods \<Rightarrow> string" where
  "check_database_health n = ''ok''"

definition check_network_health :: "NodeMethods \<Rightarrow> string" where
  "check_network_health n =
     (let peer_count = network_peer_count (nme_network_manager n)
      in if peer_count = 0 then ''warning'' else if peer_count < 3 then ''degraded'' else ''ok'')"

definition check_consensus_health :: "Timestamp \<Rightarrow> Timestamp \<Rightarrow> NodeMethods \<Rightarrow> string" where
  "check_consensus_health now1 now2 n =
     (let blocks_behind = saturating_sub (sst_target_height (network_sync_status now1 now2 (nme_network_manager n))) (bc_height (nme_chain n))
      in if 1000 < blocks_behind then ''warning'' else if 100 < blocks_behind then ''degraded'' else ''ok'')"

definition methods_health :: "Timestamp \<Rightarrow> Timestamp \<Rightarrow> Timestamp \<Rightarrow> NodeMethods \<Rightarrow> HealthResponse outcome" where
  "methods_health now1 now2 now n =
     (let database_health = check_database_health n; network_health = check_network_health n;
          consensus_health = check_consensus_health now1 now2 n;
          overall_status =
            (if database_health = ''ok'' \<and> network_health = ''ok'' \<and> consensus_health = ''ok'' then ''ok''
             else if database_health = ''error'' \<or> network_health = ''error'' then ''error''
             else ''degraded'')
      in Ok \<lparr>hr_status = overall_status, hr_database = database_health, hr_network = network_health,
             hr_consensus = consensus_health, hr_timestamp = now\<rparr>)"

section \<open>Votes and elections\<close>

text \<open>The transaction that a request names, if it is a vote.\<close>

definition find_vote :: "'z externals_scheme \<Rightarrow> Blockchain \<Rightarrow> string \<Rightarrow> (TxId \<times> Transaction \<times> VoteTransaction) outcome" where
  "find_vote E c tx_hash =
     rbind (map_err (\<lambda>_. InvalidTransaction ''Invalid transaction hash'') (TxId_from_hex E tx_hash)) (\<lambda>i.
     rbind (get_transaction c i) (\<lambda>found.
       case found of
         None \<Rightarrow> Err (TransactionNotFound tx_hash)
       | Some tx \<Rightarrow> (case tx_type tx of Vote vote_tx \<Rightarrow> Ok (i, tx, vote_tx) | _ \<Rightarrow> Err (InvalidTransaction ''Transaction is not a vote''))))"

definition rpc_get_vote :: "'z externals_scheme \<Rightarrow> Blockchain \<Rightarrow> string \<Rightarrow> VoteResponse outcome" where
  "rpc_get_vote E c tx_hash =
     rbind (find_vote E c tx_hash) (\<lambda>(i, tx, vote_tx).
       case get_transaction_block_height c i of
         None \<Rightarrow> Err (TransactionNotFound (TxId_to_hex E i))
       | Some block_height \<Rightarrow>
           Ok \<lparr>vor_tx_id = TxId_to_hex E (tx_id tx), vor_election_id = ElectionId_to_hex E (vt_election_id vote_tx),
               vor_encrypted_vote = hex_encode E (vt_encrypted_vote vote_tx), vor_timestamp = tx_timestamp tx,
               vor_block_height = block_height, vor_zk_proof = map_option (hex_encode E) (vt_validity_proof vote_tx),
               vor_verified = True\<rparr>)"

definition rpc_verify_vote :: "'z externals_scheme \<Rightarrow> Blockchain \<Rightarrow> VerifyVoteRequest \<Rightarrow> VerifyVoteResponse outcome" where
  "rpc_verify_vote E c request =
     rbind (find_vote E c (vvq_tx_id request)) (\<lambda>(i, tx, vote_tx).
       let valid = (vt_validity_proof vote_tx \<noteq> None) in
       Ok \<lparr>vvr_valid = valid,
           vvr_details = (if valid then Some ''Vote proof verified successfully'' else Some ''Vote proof verification failed''),
           vvr_block_height = get_transaction_block_height c i,
           vvr_election_id = Some (ElectionId_to_hex E (vt_election_id vote_tx))\<rparr>)"

text \<open>The election that a request names.\<close>

definition find_election ::
  "'z storage_externals_scheme \<Rightarrow> 'd Database \<Rightarrow> 'd StateStore \<Rightarrow> string \<Rightarrow> 'd StateStore \<times> (ElectionId \<times> ElectionState) outcome" where
  "find_election E D s election_id =
     and_then (s, map_err (\<lambda>_. InvalidTransaction ''Invalid election ID'') (ElectionId_from_hex E election_id)) (\<lambda>s i.
     and_then (get_election E D s i) (\<lambda>s found.
       (s, case found of None \<Rightarrow> Err (ElectionNotFound election_id) | Some election \<Rightarrow> Ok (i, election))))"

definition rpc_get_election ::
  "'z storage_externals_scheme \<Rightarrow> 'd Database \<Rightarrow> 'd StateStore \<Rightarrow> string \<Rightarrow> 'd StateStore \<times> ElectionResponse outcome" where
  "rpc_get_election E D s election_id =
     and_then (find_election E D s election_id) (\<lambda>s (i, election).
       let parts = split_on CHR ''/'' (path_to_string (es_jurisdiction_path election));
           jurisdiction = Some \<lparr>rji_level = (case parts of p # _ \<Rightarrow> p | [] \<Rightarrow> []),
             rji_name = (case vec_get parts 1 of Some p \<Rightarrow> p | None \<Rightarrow> []), rji_parent = None\<rparr>;
           candidates = map (\<lambda>c. \<lparr>rcd_id = ci_id c, rcd_name = ci_name c, rcd_party = ci_party c, rcd_vote_count = None\<rparr>)
             (es_candidates election)
       in (s, Ok \<lparr>elr_id = ElectionId_to_hex E (es_id election), elr_name = es_name election,
                  elr_description = Some (es_description election), elr_start_time = es_start_time election,
                  elr_end_time = es_end_time election, elr_vote_count = 0, elr_is_active = es_is_active election,
                  elr_is_finalized = es_is_finalized election, elr_created_at_height = es_created_at_height election,
                  elr_closed_at_height = es_closed_at_height election, elr_candidates = candidates,
                  elr_jurisdiction = jurisdiction\<rparr>))"

definition decrypt_vote :: "u8 list \<Rightarrow> string outcome" where
  "decrypt_vote encrypted_vote = Ok ''candidate_1''"

fun count_votes :: "ElectionId \<Rightarrow> Transaction list \<Rightarrow> (string, u64) hashmap \<Rightarrow> (string, u64) hashmap outcome" where
  "count_votes i [] m = Ok m"
| "count_votes i (tx # txs) m =
     (case tx_type tx of
        Vote vote_tx \<Rightarrow>
          if vt_election_id vote_tx = i
          then rbind (decrypt_vote (vt_encrypted_vote vote_tx)) (\<lambda>candidate_id.
            count_votes i txs (fmupd candidate_id ((case fmlookup m candidate_id of Some n \<Rightarrow> n | None \<Rightarrow> 0) + 1) m))
          else count_votes i txs m
      | _ \<Rightarrow> count_votes i txs m)"

definition candidate_result :: "(string, u64) hashmap \<Rightarrow> u64 \<Rightarrow> CandidateInfo \<Rightarrow> CandidateResult" where
  "candidate_result vote_counts total_votes c =
     (let votes = (case fmlookup vote_counts (ci_id c) of Some n \<Rightarrow> n | None \<Rightarrow> 0);
          percentage = (if 0 < total_votes
            then f64_mul (f64_div (f64_of_nat (unat votes)) (f64_of_nat (unat total_votes))) (Fin 100) else Fin 0)
      in \<lparr>cdr_candidate_id = ci_id c, cdr_candidate_name = ci_name c, cdr_votes = votes, cdr_percentage = percentage\<rparr>)"

definition rpc_get_election_results ::
  "'z storage_externals_scheme \<Rightarrow> 'd Database \<Rightarrow> Blockchain \<Rightarrow> 'd StateStore \<Rightarrow> string \<Rightarrow>
   'd StateStore \<times> ElectionResultsResponse outcome" where
  "rpc_get_election_results E D c s election_id =
     and_then (find_election E D s election_id) (\<lambda>s (i, election).
       if \<not> es_is_finalized election then (s, Err (InvalidTransaction ''Election is not finalized yet''))
       else
         (s, rbind (visit_heights c (\<lambda>block. count_votes i (blk_transactions block))
                (heights_inclusive (es_created_at_height election)
                   (case es_closed_at_height election of Some h \<Rightarrow> h | None \<Rightarrow> bc_height c)) fmempty) (\<lambda>vote_counts.
               let total_votes = sum_mset (hm_values vote_counts);
                   results = map (candidate_result vote_counts total_votes) (es_candidates election)
               in Ok \<lparr>err_election_id = ElectionId_to_hex E i, err_total_votes = total_votes, err_results = results,
                      err_finalized = es_is_finalized election, err_verification_proof = None\<rparr>)))"

definition rpc_get_validators :: "Blockchain \<Rightarrow> u64 option \<Rightarrow> ValidatorSetResponse outcome" where
  "rpc_get_validators c height =
     (let query_height = (case height of Some h \<Rightarrow> h | None \<Rightarrow> bc_height c)
      in Ok \<lparr>vsr_height = query_height, vsr_total_validators = 0, vsr_validators = []\<rparr>)"

section \<open>The service of a validator node\<close>

record NodeRpcService =
  nrs_blockchain :: Blockchain
  nrs_network :: NetworkManager

definition service_block_response :: "'z externals_scheme \<Rightarrow> Block \<Rightarrow> RpcBlockResponse" where
  "service_block_response E block =
     \<lparr>br_height = hdr_height (blk_header block), br_hash = BlockHash_to_hex E (hdr_hash (blk_header block)),
      br_previous_hash = BlockHash_to_hex E (hdr_previous_hash (blk_header block)),
      br_timestamp = hdr_timestamp (blk_header block), br_validator = PublicKey_to_hex E (hdr_validator (blk_header block)),
      br_transactions_root = BlockHash_to_hex E (hdr_transactions_root (blk_header block)),
      br_transaction_count = of_nat (length (blk_transactions block)), br_transactions = [], br_signature = []\<rparr>"

definition service_node_info :: "'z externals_scheme \<Rightarrow> string \<Rightarrow> NodeRpcService \<Rightarrow> NodeInfo outcome" where
  "service_node_info E pkg_version s =
     rbind (get_best_block (nrs_blockchain s)) (\<lambda>latest_block.
       Ok \<lparr>ni_version = pkg_version, ni_node_type = ''validator'', ni_public_key = [], ni_network_id = ''testnet'',
           ni_height = bc_height (nrs_blockchain s), ni_latest_block_hash = BlockHash_to_hex E (hdr_hash (blk_header latest_block)),
           ni_peer_count = network_peer_count (nrs_network s), ni_syncing = False, ni_uptime = 0\<rparr>)"

definition service_chain_info :: "'z externals_scheme \<Rightarrow> NodeRpcService \<Rightarrow> ChainInfo outcome" where
  "service_chain_info E s =
     rbind (get_best_block (nrs_blockchain s)) (\<lambda>best_block.
     rbind (get_block_by_height (nrs_blockchain s) 0) (\<lambda>found.
       case found of
         None \<Rightarrow> Err (BlockNotFound ''Genesis block not found'')
       | Some genesis \<Rightarrow>
           Ok \<lparr>ci_height = bc_height (nrs_blockchain s), ci_genesis_hash = BlockHash_to_hex E (hdr_hash (blk_header genesis)),
               ci_latest_block_hash = BlockHash_to_hex E (hdr_hash (blk_header best_block)),
               ci_latest_block_time = hdr_timestamp (blk_header best_block), ci_total_transactions = 0, ci_total_votes = 0,
               ci_total_validators = 3, ci_active_validators = 3, ci_active_elections = 0\<rparr>))"

definition service_get_block_by_height :: "'z externals_scheme \<Rightarrow> NodeRpcService \<Rightarrow> u64 \<Rightarrow> RpcBlockResponse outcome" where
  "service_get_block_by_height E s height =
     rbind (get_block_by_height (nrs_blockchain s) height) (\<lambda>found.
       case found of
         None \<Rightarrow> Err (BlockNotFound (''Block at height '' @ show_nat (unat height) @ '' not found''))
       | Some block \<Rightarrow> Ok (service_block_response E block))"

definition node_rpc_service :: "'z externals_scheme \<Rightarrow> string \<Rightarrow> Timestamp \<Rightarrow> NodeRpcService \<Rightarrow> 'j RpcService" where
  "node_rpc_service E pkg_version now s =
     \<lparr>svc_node_info = service_node_info E pkg_version s,
      svc_chain_info = service_chain_info E s,
      svc_get_block = (\<lambda>hash. Err (NotImplemented ''get_block'')),
      svc_get_block_by_height = service_get_block_by_height E s,
      svc_get_transaction = (\<lambda>hash. Err (NotImplemented ''get_transaction'')),
      svc_get_vote = (\<lambda>tx_hash. Err (NotImplemented ''get_vote'')),
      svc_get_election = (\<lambda>election_id. Err (NotImplemented ''get_election'')),
      svc_get_election_results = (\<lambda>election_id. Err (NotImplemented ''get_election_results'')),
      svc_get_validators = (\<lambda>height. Err (NotImplemented ''get_validators'')),
      svc_get_validator = (\<lambda>address. Err (NotImplemented ''get_validator'')),
      svc_verify_vote = (\<lambda>request. Err (NotImplemented ''verify_vote'')),
      svc_submit_transaction = (\<lambda>tx_hex. Err (NotImplemented ''submit_transaction'')),
      svc_get_mempool = Ok \<lparr>mpr_pending_count = 0, mpr_transactions = []\<rparr>,
      svc_get_peers = Ok \<lparr>psr_total_peers = network_peer_count (nrs_network s), psr_peers = []\<rparr>,
      svc_sync_status = (let height = bc_height (nrs_blockchain s)
        in Ok \<lparr>ssr_syncing = False, ssr_current_height = height, ssr_target_height = height, ssr_progress = Fin 100,
               ssr_estimated_time_remaining = None\<rparr>),
      svc_search_blocks = (\<lambda>query. Err (NotImplemented ''search_blocks'')),
      svc_search_transactions = (\<lambda>query. Err (NotImplemented ''search_transactions'')),
      svc_health = Ok \<lparr>hr_status = ''healthy'', hr_database = ''ok'', hr_network = ''ok'', hr_consensus = ''ok'', hr_timestamp = now\<rparr>\<rparr>"

section \<open>Facts about the code\<close>

text \<open>The proof and the signature that a request brings play no part in the verification.\<close>

lemma rpc_verify_ignores_proof:
  "rpc_verify_vote E c (r\<lparr>vvq_zk_proof := proof_text, vvq_voter_signature := sig_text\<rparr>) = rpc_verify_vote E c r"
  by (simp add: rpc_verify_vote_def)

text \<open>All votes of an election are counted for the candidate called \<open>candidate_1\<close>.\<close>

lemma count_votes_others:
  assumes "count_votes i txs m = Ok m'" and "k \<noteq> ''candidate_1''"
  shows "fmlookup m' k = fmlookup m k"
  using assms(1)
  by (induction i txs m rule: count_votes.induct) (auto simp: decrypt_vote_def assms(2) split: TransactionType.splits if_splits)

lemma visit_blocks_others:
  assumes "visit_blocks (\<lambda>block. count_votes i (blk_transactions block)) bs m = Ok m'" and "k \<noteq> ''candidate_1''"
  shows "fmlookup m' k = fmlookup m k"
  using assms(1) by (induction bs arbitrary: m) (auto simp: outcome_simps count_votes_others [OF _ assms(2)])

lemma results_all_candidate_1:
  assumes "rpc_get_election_results E D c s election_id = (s', Ok r)" and "reachable_chain E' c" and "length (bc_blocks c) \<le> 2 ^ 64"
    and "x \<in> set (err_results r)" and "cdr_candidate_id x \<noteq> ''candidate_1''"
  shows "cdr_votes x = 0"
proof -
  obtain m start stop i candidates where
    m: "visit_heights c (\<lambda>block. count_votes i (blk_transactions block)) (heights_inclusive start stop) fmempty = Ok m"
    and "x \<in> candidate_result m (sum_mset (hm_values m)) ` set candidates"
    using assms(1,4)
    by (auto simp: rpc_get_election_results_def and_then_eq_Ok rbind_eq_Ok Let_def split: if_splits)
  moreover from m have "fmlookup m k = None" if "k \<noteq> ''candidate_1''" for k
    unfolding visit_heights_eq [OF reachable_chain_wf [OF assms(2)] assms(3)] using visit_blocks_others [OF _ that] by fastforce
  ultimately show ?thesis using assms(5) by (auto simp: candidate_result_def Let_def)
qed

text \<open>The health is never reported as an error, although the code provides for it.\<close>

lemma health_never_error: "methods_health now1 now2 now n = Ok r \<Longrightarrow> hr_status r \<noteq> ''error''"
  by (auto simp: methods_health_def check_database_health_def check_network_health_def Let_def split: if_splits)

section \<open>Replies\<close>

text \<open>The JSON library and the service return, with a value or an error.\<close>

definition json_returns :: "'j rpc_json \<Rightarrow> bool" where
  "json_returns J \<longleftrightarrow>
     (\<forall>x. \<not> is_panic (block_query_of J x)) \<and> (\<forall>x. \<not> is_panic (transaction_query_of J x)) \<and> (\<forall>x. \<not> is_panic (verify_request_of J x)) \<and>
     (\<forall>x. \<not> is_panic (json_node_info J x)) \<and> (\<forall>x. \<not> is_panic (json_health J x)) \<and> (\<forall>x. \<not> is_panic (json_sync_status J x)) \<and>
     (\<forall>x. \<not> is_panic (json_chain_info J x)) \<and> (\<forall>x. \<not> is_panic (json_block J x)) \<and> (\<forall>x. \<not> is_panic (json_transaction J x)) \<and>
     (\<forall>x. \<not> is_panic (json_blocks J x)) \<and> (\<forall>x. \<not> is_panic (json_transactions J x)) \<and> (\<forall>x. \<not> is_panic (json_vote J x)) \<and>
     (\<forall>x. \<not> is_panic (json_election J x)) \<and> (\<forall>x. \<not> is_panic (json_results J x)) \<and> (\<forall>x. \<not> is_panic (json_submit J x)) \<and>
     (\<forall>x. \<not> is_panic (json_verify J x)) \<and> (\<forall>x. \<not> is_panic (json_validators J x)) \<and> (\<forall>x. \<not> is_panic (json_validator J x)) \<and>
     (\<forall>x. \<not> is_panic (json_peers J x)) \<and> (\<forall>x. \<not> is_panic (json_mempool J x))"

definition service_returns :: "'j RpcService \<Rightarrow> bool" where
  "service_returns S \<longleftrightarrow>
     \<not> is_panic (svc_node_info S) \<and> \<not> is_panic (svc_chain_info S) \<and> (\<forall>x. \<not> is_panic (svc_get_block S x)) \<and>
     (\<forall>x. \<not> is_panic (svc_get_block_by_height S x)) \<and> (\<forall>x. \<not> is_panic (svc_get_transaction S x)) \<and>
     (\<forall>x. \<not> is_panic (svc_get_vote S x)) \<and> (\<forall>x. \<not> is_panic (svc_get_election S x)) \<and>
     (\<forall>x. \<not> is_panic (svc_get_election_results S x)) \<and> (\<forall>x. \<not> is_panic (svc_get_validators S x)) \<and>
     (\<forall>x. \<not> is_panic (svc_get_validator S x)) \<and> (\<forall>x. \<not> is_panic (svc_verify_vote S x)) \<and>
     (\<forall>x. \<not> is_panic (svc_submit_transaction S x)) \<and> \<not> is_panic (svc_get_mempool S) \<and> \<not> is_panic (svc_get_peers S) \<and>
     \<not> is_panic (svc_sync_status S) \<and> (\<forall>x. \<not> is_panic (svc_search_blocks S x)) \<and>
     (\<forall>x. \<not> is_panic (svc_search_transactions S x)) \<and> \<not> is_panic (svc_health S)"

definition rpc_method_names :: "string list" where
  "rpc_method_names =
     [''node_info'', ''health'', ''sync_status'', ''chain_info'', ''get_block'', ''get_block_by_height'', ''get_transaction'',
      ''search_blocks'', ''search_transactions'', ''get_vote'', ''get_election'', ''get_election_results'', ''submit_transaction'',
      ''verify_vote'', ''get_validators'', ''get_validator'', ''get_peers'', ''get_mempool'']"

lemma map_err_is_panic: "is_panic (map_err f r) \<longleftrightarrow> is_panic r"
  by (cases r) simp_all

lemma handle_answer_returns: "\<not> is_panic r \<Longrightarrow> (\<And>x. \<not> is_panic (f x)) \<Longrightarrow> \<not> is_panic (handle_answer f r)"
  by (simp add: handle_answer_def rbind_is_panic map_err_is_panic)

lemma extract_returns: "\<not> is_panic (extract_string_param J params key)" "\<not> is_panic (extract_u64_param J params key)"
  by (auto simp: extract_string_param_def extract_u64_param_def split: option.splits)

lemmas handler_defs = handle_node_info_def handle_health_def handle_sync_status_def handle_chain_info_def handle_get_block_def
  handle_get_block_by_height_def handle_get_transaction_def handle_search_blocks_def handle_search_transactions_def
  handle_get_vote_def handle_get_election_def handle_get_election_results_def handle_submit_transaction_def
  handle_verify_vote_def handle_get_validators_def handle_get_validator_def handle_get_peers_def handle_get_mempool_def

lemma dispatch_returns:
  assumes "json_returns J" and "service_returns S"
  shows "\<not> is_panic (dispatch J S name params)"
  using assms
  by (simp add: dispatch_def handler_defs json_returns_def service_returns_def rbind_is_panic map_err_is_panic extract_returns
      handle_answer_returns)

lemma dispatch_unknown: "name \<notin> set rpc_method_names \<Longrightarrow> dispatch J S name params = Err (method_not_found name)"
  by (simp add: dispatch_def rpc_method_names_def)

lemma node_service_returns:
  assumes "reachable_chain E' (nrs_blockchain s)" and "length (bc_blocks (nrs_blockchain s)) \<le> 2 ^ 64"
  shows "service_returns (node_rpc_service E v now s)"
proof -
  have wf: "chain_wf E' (nrs_blockchain s)" using reachable_chain_wf [OF assms(1)] .
  then have "bc_blocks (nrs_blockchain s) \<noteq> []" by (simp add: chain_wf_def blocks_wf_def)
  then show ?thesis
    by (simp add: service_returns_def node_rpc_service_def service_node_info_def service_chain_info_def service_get_block_by_height_def
        get_best_block_def vec_last_def get_block_by_height_eq [OF wf assms(2)] Let_def split: option.splits)
qed

section \<open>Properties\<close>

text \<open>
  C16: Every request is answered: on a reachable chain of at most \<open>2 ^ 64\<close> blocks the dispatcher, over
  the service of a validator node, replies to each request whatever its method and parameters, in
  version 2.0, with the identifier of the request and either a result or an error, never both; a method
  that is not among the 18 of the interface is refused with the code of an unknown method.
\<close>

theorem rpc_reply:
  assumes "reachable_chain E' (nrs_blockchain s)" and "length (bc_blocks (nrs_blockchain s)) \<le> 2 ^ 64" and "json_returns J"
  shows "\<exists>r. handle_request J (node_rpc_service E v now s) request = Ok r \<and> jrs_jsonrpc r = ''2.0'' \<and> jrs_id r = jrq_id request \<and>
    (jrs_result r = None \<longleftrightarrow> jrs_error r \<noteq> None) \<and>
    (jrq_method request \<notin> set rpc_method_names \<longrightarrow> (\<exists>e. jrs_error r = Some e \<and> jre_code e = - 32601))"
proof -
  have "\<not> is_panic (dispatch J (node_rpc_service E v now s) (jrq_method request) (jrq_params request))"
    using dispatch_returns [OF assms(3) node_service_returns [OF assms(1,2)]] .
  then show ?thesis
  proof (cases "jrq_method request \<in> set rpc_method_names")
    case True
    with \<open>\<not> is_panic _\<close> show ?thesis by (auto simp: handle_request_def split: result.splits)
  next
    case False
    then show ?thesis by (simp add: handle_request_def dispatch_unknown method_not_found_def)
  qed
qed

definition sample_json :: "string rpc_json" where
  "sample_json =
     \<lparr>json_get = (\<lambda>v key. None), json_as_str = Some, json_as_u64 = (\<lambda>v. None), json_is_null = (\<lambda>v. v = []),
      json_object_empty = (\<lambda>v. None), block_query_of = (\<lambda>v. Ok BlockQuery_default),
      transaction_query_of = (\<lambda>v. Err ''unknown''), verify_request_of = (\<lambda>v. Err ''unknown''),
      json_node_info = (\<lambda>x. Ok (ni_node_type x)), json_health = (\<lambda>x. Ok []), json_sync_status = (\<lambda>x. Ok []),
      json_chain_info = (\<lambda>x. Ok (ci_genesis_hash x)), json_block = (\<lambda>x. Ok (br_hash x)), json_transaction = (\<lambda>x. Ok []),
      json_blocks = (\<lambda>x. Ok []), json_transactions = (\<lambda>x. Ok []), json_vote = (\<lambda>x. Ok []), json_election = (\<lambda>x. Ok []),
      json_results = (\<lambda>x. Ok []), json_submit = (\<lambda>x. Ok []), json_verify = (\<lambda>x. Ok []), json_validators = (\<lambda>x. Ok []),
      json_validator = (\<lambda>x. Ok []), json_peers = (\<lambda>x. Ok []), json_mempool = (\<lambda>x. Ok []),
      json_raw_transaction = (\<lambda>x. Ok [])\<rparr>"

definition sample_rpc_service :: NodeRpcService where
  "sample_rpc_service =
     \<lparr>nrs_blockchain = sample_chain2, nrs_network = ok_value (NetworkManager_new 0 NetworkConfig_default)\<rparr>"

lemma sample_json_returns: "json_returns sample_json"
  by (simp add: json_returns_def sample_json_def)

theorem rpc_reply_witness:
  "\<exists>r. handle_request sample_json (node_rpc_service sample_env ''0.1.0'' 0 sample_rpc_service)
     \<lparr>jrq_jsonrpc = ''2.0'', jrq_method = ''get_balance'', jrq_params = [], jrq_id = IdNumber 7\<rparr> = Ok r \<and> jrs_id r = IdNumber 7 \<and>
     jrs_error r \<noteq> None"
  using rpc_reply [of sample_env sample_rpc_service sample_json sample_env "''0.1.0''" 0
      "\<lparr>jrq_jsonrpc = ''2.0'', jrq_method = ''get_balance'', jrq_params = [], jrq_id = IdNumber 7\<rparr>"]
  by (auto simp: sample_rpc_service_def sample_chain2_reachable sample_json_returns rpc_method_names_def)

end
