(* ===== verification/Rust_Strings.thy ===== *)
theory Rust_Strings
  imports Common_Utils Database
begin

text \<open>
  The strings of Rust's standard library that several crates use: UTF-8, white space, lines, searching,
  splitting and reading numbers. A string is a sequence of Unicode scalar values (\<open>rust_str\<close>).
\<close>

section \<open>Definitions\<close>

definition cont_byte :: "nat \<Rightarrow> bool" where
  "cont_byte b \<longleftrightarrow> 128 \<le> b \<and> b < 192"

definition second_of_three :: "nat \<Rightarrow> nat \<Rightarrow> bool" where
  "second_of_three b c \<longleftrightarrow> cont_byte c \<and> (b = 224 \<longrightarrow> 160 \<le> c) \<and> (b = 237 \<longrightarrow> c < 160)"

definition second_of_four :: "nat \<Rightarrow> nat \<Rightarrow> bool" where
  "second_of_four b c \<longleftrightarrow> cont_byte c \<and> (b = 240 \<longrightarrow> 144 \<le> c) \<and> (b = 244 \<longrightarrow> c < 144)"

function (sequential) utf8_decode :: "nat list \<Rightarrow> rust_str option" where
  "utf8_decode [] = Some []"
| "utf8_decode (b # bs) =
     (if b < 128 then map_option (\<lambda>s. b # s) (utf8_decode bs)
      else if 194 \<le> b \<and> b < 224 then
        (case bs of
           c # r \<Rightarrow> if cont_byte c then map_option (\<lambda>s. ((b - 192) * 64 + (c - 128)) # s) (utf8_decode r) else None
         | [] \<Rightarrow> None)
      else if 224 \<le> b \<and> b < 240 then
        (case bs of
           c # d # r \<Rightarrow>
             if second_of_three b c \<and> cont_byte d
             then map_option (\<lambda>s. ((b - 224) * 4096 + (c - 128) * 64 + (d - 128)) # s) (utf8_decode r) else None
         | _ \<Rightarrow> None)
      else if 240 \<le> b \<and> b < 245 then
        (case bs of
           c # d # e # r \<Rightarrow>
             if second_of_four b c \<and> cont_byte d \<and> cont_byte e
             then map_option (\<lambda>s. ((b - 240) * 262144 + (c - 128) * 4096 + (d - 128) * 64 + (e - 128)) # s) (utf8_decode r)
             else None
         | _ \<Rightarrow> None)
      else None)"
  by pat_completeness auto
termination by (relation "measure length") auto

definition utf8_char :: "nat \<Rightarrow> nat list" where
  "utf8_char c =
     (if c < 128 then [c]
      else if c < 2048 then [192 + c div 64, 128 + c mod 64]
      else if c < 65536 then [224 + c div 4096, 128 + c div 64 mod 64, 128 + c mod 64]
      else [240 + c div 262144, 128 + c div 4096 mod 64, 128 + c div 64 mod 64, 128 + c mod 64])"

definition utf8_encode :: "rust_str \<Rightarrow> nat list" where
  "utf8_encode s = concat (map utf8_char s)"

definition scalar_value :: "nat \<Rightarrow> bool" where
  "scalar_value c \<longleftrightarrow> c < 55296 \<or> (57344 \<le> c \<and> c < 1114112)"

definition from_utf8 :: "(u8 list \<Rightarrow> string) \<Rightarrow> u8 list \<Rightarrow> (rust_str, string) result" where
  "from_utf8 utf8_error data =
     (case utf8_decode (map unat data) of Some s \<Rightarrow> Ok s | None \<Rightarrow> Err (utf8_error data))"

definition is_whitespace :: "nat \<Rightarrow> bool" where
  "is_whitespace c \<longleftrightarrow>
     (9 \<le> c \<and> c \<le> 13) \<or> c = 32 \<or> c = 133 \<or> c = 160 \<or> c = 5760 \<or> (8192 \<le> c \<and> c \<le> 8202) \<or> c = 8232 \<or> c = 8233 \<or>
     c = 8239 \<or> c = 8287 \<or> c = 12288"

definition first_word :: "rust_str \<Rightarrow> rust_str option" where
  "first_word s =
     (let w = takeWhile (\<lambda>c. \<not> is_whitespace c) (dropWhile is_whitespace s) in if w = [] then None else Some w)"

definition str_trim :: "rust_str \<Rightarrow> rust_str" where
  "str_trim s = rev (dropWhile is_whitespace (rev (dropWhile is_whitespace s)))"

fun split_inclusive_nl :: "rust_str \<Rightarrow> rust_str list" where
  "split_inclusive_nl [] = []"
| "split_inclusive_nl (c # cs) =
     (if c = 10 then [c] # split_inclusive_nl cs
      else (case split_inclusive_nl cs of [] \<Rightarrow> [[c]] | l # ls \<Rightarrow> (c # l) # ls))"

definition strip_eol :: "rust_str \<Rightarrow> rust_str" where
  "strip_eol l =
     (if l \<noteq> [] \<and> last l = 10 then
        (let m = butlast l in if m \<noteq> [] \<and> last m = 13 then butlast m else m)
      else l)"

definition str_lines :: "rust_str \<Rightarrow> rust_str list" where
  "str_lines s = map strip_eol (split_inclusive_nl s)"

text \<open>\<open>s.find(pattern)\<close>: the characters before the first occurrence.\<close>

fun find_pattern :: "'a list \<Rightarrow> 'a list \<Rightarrow> 'a list option" where
  "find_pattern s p =
     (if starts_with s p then Some []
      else (case s of [] \<Rightarrow> None | c # cs \<Rightarrow> map_option (\<lambda>before. c # before) (find_pattern cs p)))"

definition splitn_2 :: "nat \<Rightarrow> rust_str \<Rightarrow> rust_str list" where
  "splitn_2 sep s =
     (let before = takeWhile (\<lambda>c. c \<noteq> sep) s
      in if length before < length s then [before, drop (length before + 1) s] else [s])"

declare find_pattern.simps [simp del]

text \<open>\<open>c.to_digit(10)\<close>\<close>

definition to_digit :: "char \<Rightarrow> nat option" where
  "to_digit c = (let n = of_char c in if 48 \<le> n \<and> n < 58 then Some (n - 48) else None)"

text \<open>
  \<open>s.parse()\<close> at an unsigned type with the values below \<open>bound\<close>: an optional plus sign and digits,
  with the texts of \<open>ParseIntError\<close>.
\<close>

fun parse_digits :: "nat \<Rightarrow> string \<Rightarrow> nat \<Rightarrow> (nat, string) result" where
  "parse_digits bound [] acc = Ok acc"
| "parse_digits bound (c # cs) acc =
     (case to_digit c of
        None \<Rightarrow> Err ''invalid digit found in string''
      | Some d \<Rightarrow>
          if acc * 10 + d < bound then parse_digits bound cs (acc * 10 + d)
          else Err ''number too large to fit in target type'')"

definition parse_unsigned :: "nat \<Rightarrow> string \<Rightarrow> (nat, string) result" where
  "parse_unsigned bound s =
     (if s = [] then Err ''cannot parse integer from empty string''
      else parse_digits bound (if hd s = CHR ''+'' \<and> tl s \<noteq> [] then tl s else s) 0)"

definition parse_u64 :: "string \<Rightarrow> u64 option" where
  "parse_u64 s = (case parse_unsigned (2 ^ 64) s of Ok n \<Rightarrow> Some (of_nat n) | _ \<Rightarrow> None)"

section \<open>UTF-8\<close>

lemma utf8_char_small [simp]: "c < 128 \<Longrightarrow> utf8_char c = [c]"
  by (simp add: utf8_char_def)

lemma length_utf8_char: "length (utf8_char c) = utf8_width c"
  by (simp add: utf8_char_def utf8_width_def)

lemma length_utf8_encode: "length (utf8_encode s) = str_len s"
  by (induction s) (simp_all add: utf8_encode_def str_len_def length_utf8_char)

lemma utf8_encode_append [simp]: "utf8_encode (s @ t) = utf8_encode s @ utf8_encode t"
  by (simp add: utf8_encode_def)

lemma base64_three: "c div 4096 * 4096 + c div 64 mod 64 * 64 + c mod 64 = (c :: nat)"
proof -
  have "c div 64 div 64 * 64 + c div 64 mod 64 = c div 64" "c div 64 * 64 + c mod 64 = c" by (rule div_mult_mod_eq)+
  moreover have "c div 4096 = c div 64 div 64" by (simp add: div_mult2_eq [symmetric])
  ultimately show ?thesis by linarith
qed

lemma base64_four: "c div 262144 * 262144 + c div 4096 mod 64 * 4096 + c div 64 mod 64 * 64 + c mod 64 = (c :: nat)"
proof -
  have "c div 4096 div 64 * 64 + c div 4096 mod 64 = c div 4096" by (rule div_mult_mod_eq)
  moreover have "c div 262144 = c div 4096 div 64" by (simp add: div_mult2_eq [symmetric])
  ultimately show ?thesis using base64_three [of c] by linarith
qed

lemma utf8_decode_two: "c < 2048 \<Longrightarrow> \<not> c < 128 \<Longrightarrow> utf8_decode (utf8_char c @ bs) = map_option (\<lambda>s. c # s) (utf8_decode bs)"
  by (simp add: utf8_char_def cont_byte_def div_le_mono [of 128 c 64, simplified] less_mult_imp_div_less [of c 32 64, simplified]
      add.commute [of "c mod 64"])

lemma utf8_decode_three:
  assumes "c < 65536" and "\<not> c < 2048" and "scalar_value c"
  shows "utf8_decode (utf8_char c @ bs) = map_option (\<lambda>s. c # s) (utf8_decode bs)"
proof -
  have split: "c div 4096 * 4096 + c div 64 mod 64 * 64 + c mod 64 = c" by (rule base64_three)
  have mods: "c div 64 mod 64 < 64" "c mod 64 < 64" by simp_all
  have small: "c div 4096 < 16" using assms(1) split by linarith
  have low: "32 \<le> c div 64 mod 64" if "c div 4096 = 0" using that assms(2) split mods by linarith
  have high: "c div 64 mod 64 < 32" if "c div 4096 = 13" using that assms(1,3) split mods unfolding scalar_value_def by linarith
  have "second_of_three (224 + c div 4096) (128 + c div 64 mod 64)"
    using low high by (auto simp: second_of_three_def cont_byte_def)
  then show ?thesis
    using assms(1,2) small split by (simp add: utf8_char_def cont_byte_def)
qed

lemma utf8_decode_four:
  assumes "\<not> c < 65536" and "scalar_value c"
  shows "utf8_decode (utf8_char c @ bs) = map_option (\<lambda>s. c # s) (utf8_decode bs)"
proof -
  have split: "c div 262144 * 262144 + c div 4096 mod 64 * 4096 + c div 64 mod 64 * 64 + c mod 64 = c" by (rule base64_four)
  have mods: "c div 4096 mod 64 < 64" "c div 64 mod 64 < 64" "c mod 64 < 64" by simp_all
  have small: "c div 262144 < 5" using assms(2) split mods unfolding scalar_value_def by linarith
  have low: "16 \<le> c div 4096 mod 64" if "c div 262144 = 0" using that assms(1) split mods by linarith
  have high: "c div 4096 mod 64 < 16" if "c div 262144 = 4" using that assms(2) split mods unfolding scalar_value_def by linarith
  have "second_of_four (240 + c div 262144) (128 + c div 4096 mod 64)"
    using low high by (auto simp: second_of_four_def cont_byte_def)
  then show ?thesis
    using assms(1) small split by (simp add: utf8_char_def cont_byte_def)
qed

lemma utf8_decode_char: "scalar_value c \<Longrightarrow> utf8_decode (utf8_char c @ bs) = map_option (\<lambda>s. c # s) (utf8_decode bs)"
proof (cases "c < 128")
  case True
  then show ?thesis by simp
next
  case False
  assume "scalar_value c"
  with False show ?thesis using utf8_decode_two utf8_decode_three utf8_decode_four by blast
qed

lemma utf8_decode_encode: "list_all scalar_value s \<Longrightarrow> utf8_decode (utf8_encode s) = Some s"
proof (induction s)
  case (Cons c s)
  then show ?case using utf8_decode_char [of c "utf8_encode s"] by (simp add: utf8_encode_def)
qed (simp add: utf8_encode_def)

text \<open>The bytes of a string.\<close>

definition utf8_bytes :: "rust_str \<Rightarrow> u8 list" where
  "utf8_bytes s = map of_nat (utf8_encode s)"

lemma utf8_char_byte: "scalar_value c \<Longrightarrow> b \<in> set (utf8_char c) \<Longrightarrow> b < 256"
proof -
  assume c: "scalar_value c" and b: "b \<in> set (utf8_char c)"
  have "c div 64 < 32" if "c < 2048" using that by (simp add: less_mult_imp_div_less)
  moreover have "c div 4096 < 16" if "c < 65536" using that by (simp add: less_mult_imp_div_less)
  moreover have "c div 262144 < 5" using c by (auto simp: scalar_value_def less_mult_imp_div_less)
  moreover have "x mod 64 < 64" for x :: nat by simp
  ultimately show "b < 256" using b
    by (fastforce simp: utf8_char_def split: if_splits)
qed

lemma from_utf8_bytes: "list_all scalar_value s \<Longrightarrow> from_utf8 utf8_error (utf8_bytes s) = Ok s"
proof -
  assume s: "list_all scalar_value s"
  have "b < 256" if "b \<in> set (utf8_encode s)" for b
    using that s utf8_char_byte by (auto simp: utf8_encode_def list_all_iff)
  then have "map unat (utf8_bytes s) = utf8_encode s"
    by (auto simp: utf8_bytes_def unat_of_nat intro: map_idI)
  then show ?thesis using utf8_decode_encode [OF s] by (simp add: from_utf8_def)
qed

section \<open>Searching and splitting\<close>

lemma starts_with_simps [simp]:
  "starts_with s []" "\<not> starts_with [] (p # ps)" "starts_with (c # cs) (p # ps) \<longleftrightarrow> c = p \<and> starts_with cs ps"
  "starts_with (p' @ s) p'"
  by (auto simp: starts_with_def)

lemma find_pattern_here: "find_pattern (p @ s) p = Some []"
  by (simp add: find_pattern.simps)

lemma find_pattern_skip:
  "q \<notin> set a \<Longrightarrow> find_pattern (a @ s) (q # p) = map_option (append a) (find_pattern s (q # p))"
proof (induction a)
  case (Cons c a)
  have "find_pattern (c # a @ s) (q # p) = map_option (Cons c) (find_pattern (a @ s) (q # p))"
    using Cons.prems by (subst find_pattern.simps) auto
  with Cons show ?case by (simp add: option.map_comp comp_def)
qed (cases "find_pattern s (q # p)"; simp)

lemma split_inclusive_nl_line: "10 \<notin> set l \<Longrightarrow> split_inclusive_nl (l @ 10 # s) = (l @ [10]) # split_inclusive_nl s"
  by (induction l) auto

lemma split_inclusive_nl_last: "10 \<notin> set l \<Longrightarrow> l \<noteq> [] \<Longrightarrow> split_inclusive_nl l = [l]"
proof (induction l)
  case (Cons c l)
  then show ?case by (cases "l = []") auto
qed simp

lemma first_word_word:
  assumes "w \<noteq> []" and "\<forall>c \<in> set w. \<not> is_whitespace c"
  shows "first_word (w @ 32 # s) = Some w"
proof -
  have "dropWhile is_whitespace (w @ 32 # s) = w @ 32 # s" using assms by (cases w) auto
  moreover have "takeWhile (\<lambda>c. \<not> is_whitespace c) (w @ 32 # s) = w"
    using assms(2) by (simp add: takeWhile_append2 is_whitespace_def [of 32])
  ultimately show ?thesis using assms(1) by (simp add: first_word_def)
qed

lemma utf8_bytes_append [simp]: "utf8_bytes (s @ t) = utf8_bytes s @ utf8_bytes t"
  by (simp add: utf8_bytes_def)

lemma length_utf8_bytes [simp]: "length (utf8_bytes s) = str_len s"
  by (simp add: utf8_bytes_def length_utf8_encode)

lemma drop_utf8_bytes: "drop (str_len s + str_len t) (utf8_bytes (s @ t @ u)) = utf8_bytes u"
  by simp

lemma split_at_first: "a \<notin> set u \<Longrightarrow> a \<notin> set v \<Longrightarrow> u @ a # x = v @ a # y \<Longrightarrow> u = v \<and> x = y"
  by (induction u arbitrary: v) (case_tac v; auto)+

section \<open>Numbers\<close>

lemma to_digit_char: "d < 10 \<Longrightarrow> to_digit (digit_char d) = Some d"
  by (simp add: to_digit_def digit_char_def of_char_of Let_def)

lemma parse_digits_append:
  "parse_digits bound (ds @ es) acc = rbind (parse_digits bound ds acc) (parse_digits bound es)"
  by (induction ds arbitrary: acc) (auto split: option.splits)

lemma parse_digits_show: "n < bound \<Longrightarrow> parse_digits bound (show_nat n) 0 = Ok n"
proof (induction n rule: show_nat.induct)
  case (1 n)
  show ?case
  proof (cases "n < 10")
    case True
    with 1 show ?thesis by (subst show_nat.simps) (simp add: to_digit_char)
  next
    case False
    have "n div 10 < bound" using 1(2) by (meson div_le_dividend le_less_trans)
    with 1 False show ?thesis by (subst show_nat.simps) (simp add: parse_digits_append to_digit_char)
  qed
qed

lemma show_nat_digits: "c \<in> set (show_nat n) \<Longrightarrow> to_digit c \<noteq> None"
proof (induction n rule: show_nat.induct)
  case (1 n)
  then show ?case by (subst (asm) (2) show_nat.simps) (auto simp: to_digit_char split: if_splits)
qed

lemma parse_unsigned_show: "n < bound \<Longrightarrow> parse_unsigned bound (show_nat n) = Ok n"
proof -
  assume "n < bound"
  moreover have "to_digit (CHR ''+'') = None" by (simp add: to_digit_def)
  ultimately show ?thesis
    using show_nat_digits [of "hd (show_nat n)" n] hd_in_set parse_digits_show [of n bound]
    by (auto simp: parse_unsigned_def)
qed

end
