(* ===== verification/Rpc_Server.thy ===== *)
theory Rpc_Server
  imports Rpc_Queries Rust_Strings
begin

text \<open>
  \<open>rpc/src/server.rs\<close>: the HTTP server of the JSON-RPC interface. A connection is one step: what the
  single read of the socket returns and what the writes answer are its inputs, the bytes sent and the
  rate limiter its outputs. \<open>str::from_utf8\<close> is the decoder of \<open>Rust_Strings\<close>. Lower-casing, the text of a UTF-8 error and \<open>serde_json\<close> are \<open>http_externals\<close>.
\<close>

section \<open>Requests\<close>

record 'j http_externals =
  hx_to_lowercase :: "rust_str \<Rightarrow> rust_str"
  hx_utf8_error :: "u8 list \<Rightarrow> string"
  hx_request_from_slice :: "u8 list \<Rightarrow> ('j JsonRpcRequest, string) result"
  hx_response_to_vec :: "'j JsonRpcResponse \<Rightarrow> (u8 list, string) result"

definition crlf :: string where
  "crlf = [CHR 0x0D, CHR 0x0A]"

definition parse_http_request :: "'j http_externals \<Rightarrow> u8 list \<Rightarrow> (rust_str \<times> u8 list) outcome" where
  "parse_http_request H data =
     rbind (map_err (\<lambda>e. NetworkError (''Invalid UTF-8: '' @ e)) (from_utf8 (hx_utf8_error H) data)) (\<lambda>request_str.
     rbind (case find_pattern request_str (ustr (crlf @ crlf)) of
              Some headers \<Rightarrow> Ok headers | None \<Rightarrow> Err (NetworkError ''Invalid HTTP request'')) (\<lambda>headers.
       let body_start = str_len headers + 4 in
       rbind (case str_lines headers of
                first_line # _ \<Rightarrow> Ok first_line | [] \<Rightarrow> Err (NetworkError ''Empty HTTP request'')) (\<lambda>first_line.
       rbind (case first_word first_line of
                Some w \<Rightarrow> Ok w | None \<Rightarrow> Err (NetworkError ''Invalid HTTP method'')) (\<lambda>name.
         Ok (name, drop body_start data)))))"

definition check_authorization :: "'j http_externals \<Rightarrow> u8 list \<Rightarrow> string \<Rightarrow> bool" where
  "check_authorization H request_data api_key =
     (case from_utf8 (hx_utf8_error H) request_data of
        Ok request_str \<Rightarrow>
          list_ex (\<lambda>line.
             starts_with (hx_to_lowercase H line) (ustr ''authorization:'') \<and>
             (let parts = splitn_2 58 line in
              length parts = 2 \<and>
              (let auth_value = str_trim (parts ! 1)
               in auth_value = ustr api_key \<or> auth_value = ustr (''Bearer '' @ api_key)))) (str_lines request_str)
      | _ \<Rightarrow> False)"

section \<open>Replies\<close>

definition create_error_response :: "RequestId \<Rightarrow> 'j JsonRpcError \<Rightarrow> 'j JsonRpcResponse" where
  "create_error_response i error = \<lparr>jrs_jsonrpc = ''2.0'', jrs_result = None, jrs_error = Some error, jrs_id = i\<rparr>"

text \<open>What the three writes of a reply answer.\<close>

record Sink =
  sink_headers :: "(unit, string) result"
  sink_body :: "(unit, string) result"
  sink_flush :: "(unit, string) result"

definition http_header :: "nat \<Rightarrow> string" where
  "http_header n =
     ''HTTP/1.1 200 OK'' @ crlf @ ''Content-Type: application/json'' @ crlf @ ''Content-Length: '' @ show_nat n @ crlf @
     ''Connection: close'' @ crlf @ crlf"

text \<open>The bytes that were written in full, and the outcome.\<close>

definition send_response :: "'j http_externals \<Rightarrow> Sink \<Rightarrow> 'j JsonRpcResponse \<Rightarrow> u8 list \<times> unit outcome" where
  "send_response H sink response =
     and_then ([], map_err (\<lambda>e. SerializationError (''Failed to serialize: '' @ e)) (hx_response_to_vec H response)) (\<lambda>sent json.
     and_then (sent, map_err (\<lambda>e. NetworkError (''Failed to write headers: '' @ e)) (sink_headers sink)) (\<lambda>sent _.
     let sent = sent @ str_bytes (http_header (length json)) in
     and_then (sent, map_err (\<lambda>e. NetworkError (''Failed to write body: '' @ e)) (sink_body sink)) (\<lambda>sent _.
     let sent = sent @ json in
     (sent, map_err (\<lambda>e. NetworkError (''Failed to flush: '' @ e)) (sink_flush sink)))))"

section \<open>Connections\<close>

datatype ReadOutcome = ReadTimeout | ReadFailed string | ReadBytes "u8 list"

definition read_request :: "ReadOutcome \<Rightarrow> u8 list outcome" where
  "read_request r =
     (case r of
        ReadTimeout \<Rightarrow> Err (NetworkError ''Request timeout'')
      | ReadFailed e \<Rightarrow> Err (NetworkError (''Failed to read request: '' @ e))
      | ReadBytes bs \<Rightarrow> Ok bs)"

text \<open>The authentication of \<open>handle_connection\<close>: a key is asked for only when one is configured.\<close>

definition auth_ok :: "'j http_externals \<Rightarrow> RpcConfig \<Rightarrow> u8 list \<Rightarrow> bool" where
  "auth_ok H config request_data =
     (\<not> rpc_enable_auth config \<or>
      (case rpc_api_key config of None \<Rightarrow> True | Some api_key \<Rightarrow> check_authorization H request_data api_key))"

text \<open>The reply to a request that was read, from the parsing of HTTP to the dispatcher.\<close>

definition connection_response ::
  "'j http_externals \<Rightarrow> 'j rpc_json \<Rightarrow> 'j RpcService \<Rightarrow> RpcConfig \<Rightarrow> u8 list \<Rightarrow> 'j JsonRpcResponse outcome" where
  "connection_response H J S config request_data =
     (case parse_http_request H request_data of
        Err e \<Rightarrow> Ok (create_error_response IdNull (parse_error ''Invalid HTTP request''))
      | Panic m \<Rightarrow> Panic m
      | Ok (name, body) \<Rightarrow>
          if name \<noteq> ustr ''POST'' then
            Ok (create_error_response IdNull (invalid_request ''Only POST method is supported''))
          else if \<not> auth_ok H config request_data then
            Ok (create_error_response IdNull (custom_error (- 32001) ''Unauthorized''))
          else
            (case hx_request_from_slice H body of
               Err e \<Rightarrow> Ok (create_error_response IdNull (parse_error ''Invalid JSON-RPC request''))
             | Panic m \<Rightarrow> Panic m
             | Ok rpc_request \<Rightarrow>
                 if jrq_jsonrpc rpc_request \<noteq> ''2.0'' then
                   Ok (create_error_response (jrq_id rpc_request) (invalid_request ''JSON-RPC version must be 2.0''))
                 else handle_request J S rpc_request))"

definition rate_check :: "instant \<Rightarrow> string \<Rightarrow> RateLimiter option \<Rightarrow> RateLimiter option \<times> bool" where
  "rate_check now peer_ip limiter =
     (case limiter of None \<Rightarrow> (None, True) | Some l \<Rightarrow> (let (l', allow) = is_allowed now peer_ip l in (Some l', allow)))"

definition handle_connection ::
  "'j http_externals \<Rightarrow> 'j rpc_json \<Rightarrow> 'j RpcService \<Rightarrow> RpcConfig \<Rightarrow> instant \<Rightarrow> string \<Rightarrow> ReadOutcome \<Rightarrow> Sink \<Rightarrow>
   RateLimiter option \<Rightarrow> RateLimiter option \<times> u8 list \<times> unit outcome" where
  "handle_connection H J S config now peer_ip read sink limiter =
     (let (limiter, allow) = rate_check now peer_ip limiter in
      if \<not> allow then
        (limiter, send_response H sink (create_error_response IdNull (custom_error (- 32000) ''Rate limit exceeded'')))
      else
        (limiter,
         and_then ([], read_request read) (\<lambda>sent request_data.
           if request_data = [] then (sent, Ok ())
           else and_then (sent, connection_response H J S config request_data) (\<lambda>sent response.
             send_response H sink response))))"

section \<open>The server\<close>

record 'j RpcServer =
  srv_config :: RpcConfig
  srv_service :: "'j RpcService"
  srv_rate_limiter :: "RateLimiter option"
  srv_shutdown :: bool

definition RpcServer_new :: "RpcConfig \<Rightarrow> 'j RpcService \<Rightarrow> 'j RpcServer" where
  "RpcServer_new config service =
     \<lparr>srv_config = config, srv_service = service,
      srv_rate_limiter = (if rpc_enable_rate_limit config then Some (RateLimiter_new (rpc_rate_limit_per_second config)) else None),
      srv_shutdown = False\<rparr>"

definition server_shutdown :: "'j RpcServer \<Rightarrow> 'j RpcServer" where
  "server_shutdown s = s\<lparr>srv_shutdown := True\<rparr>"

text \<open>Up to the loop: the address is parsed and bound.\<close>

definition server_listen ::
  "(string \<Rightarrow> ('a, string) result) \<Rightarrow> ('a \<Rightarrow> ('l, string) result) \<Rightarrow> 'j RpcServer \<Rightarrow> 'l outcome" where
  "server_listen parse_addr bind s =
     (let addr = rpc_listen_addr (srv_config s) @ '':'' @ show_nat (unat (rpc_port (srv_config s))) in
      rbind (map_err (\<lambda>e. NetworkError (''Invalid address: '' @ e)) (parse_addr addr)) (\<lambda>socket_addr.
        map_err (\<lambda>e. NetworkError (''Failed to bind: '' @ e)) (bind socket_addr)))"

text \<open>
  What happens to a listening server: \<open>accept\<close> fails or returns a connection, the task that cleans the
  rate limiter wakes up, or \<open>shutdown\<close> is called. The loop reads the flag before it waits in
  \<open>accept\<close>, so that it waits with the flag as it was; a connection is handled in a task of its own.
\<close>

datatype ServerEvent =
    AcceptFailed string
  | Accepted string instant ReadOutcome Sink
  | CleanupTick instant
  | ShutdownCalled

record 'j Listening =
  lst_server :: "'j RpcServer"
  lst_running :: bool

definition loop_head :: "'j Listening \<Rightarrow> 'j Listening" where
  "loop_head x = (if srv_shutdown (lst_server x) then x\<lparr>lst_running := False\<rparr> else x)"

definition server_start :: "'j RpcServer \<Rightarrow> 'j Listening" where
  "server_start s = loop_head \<lparr>lst_server = s, lst_running = True\<rparr>"

fun server_event :: "'j http_externals \<Rightarrow> 'j rpc_json \<Rightarrow> ServerEvent \<Rightarrow> 'j Listening \<Rightarrow> 'j Listening \<times> u8 list list" where
  "server_event H J (AcceptFailed e) x = (if lst_running x then loop_head x else x, [])"
| "server_event H J (Accepted peer_ip now read sink) x =
     (if lst_running x then
        let s = lst_server x;
            (limiter, sent, r) = handle_connection H J (srv_service s) (srv_config s) now peer_ip read sink (srv_rate_limiter s)
        in (loop_head (x\<lparr>lst_server := s\<lparr>srv_rate_limiter := limiter\<rparr>\<rparr>), [sent])
      else (x, []))"
| "server_event H J (CleanupTick now) x =
     (let s = lst_server x
      in (x\<lparr>lst_server := s\<lparr>srv_rate_limiter := map_option (limiter_cleanup now) (srv_rate_limiter s)\<rparr>\<rparr>, []))"
| "server_event H J ShutdownCalled x = (x\<lparr>lst_server := server_shutdown (lst_server x)\<rparr>, [])"

section \<open>Parsing\<close>

lemma crlf_pattern: "ustr (crlf @ crlf) = 13 # [10, 13, 10]"
  by (simp add: ustr_def crlf_def)

lemma find_pattern_line:
  assumes "13 \<notin> set h" and "h \<noteq> []"
  shows "find_pattern (ustr crlf @ h @ s) (ustr (crlf @ crlf)) =
    map_option (append (ustr crlf @ h)) (find_pattern s (ustr (crlf @ crlf)))"
proof -
  obtain c r where h: "h = c # r" "c \<noteq> 13" using assms by (cases h) auto
  have "find_pattern (13 # 10 # h @ s) (13 # [10, 13, 10]) = map_option (Cons 13) (find_pattern ((10 # h) @ s) (13 # [10, 13, 10]))"
    using h by (subst find_pattern.simps) auto
  also have "\<dots> = map_option (append (13 # 10 # h)) (find_pattern s (13 # [10, 13, 10]))"
    using assms(1) by (subst find_pattern_skip) (auto simp: option.map_comp comp_def intro!: option.map_cong)
  finally show ?thesis unfolding crlf_pattern by (simp add: ustr_def crlf_def)
qed

definition header_lines :: "rust_str list \<Rightarrow> rust_str" where
  "header_lines hs = concat (map (append (ustr crlf)) hs)"

lemma find_pattern_headers:
  "(\<forall>h \<in> set hs. h \<noteq> [] \<and> 13 \<notin> set h) \<Longrightarrow>
   find_pattern (header_lines hs @ ustr (crlf @ crlf) @ body) (ustr (crlf @ crlf)) = Some (header_lines hs)"
proof (induction hs)
  case (Cons h hs)
  then show ?case by (simp add: header_lines_def find_pattern_line)
qed (simp only: header_lines_def list.map concat.simps append_Nil find_pattern_here)

lemma str_lines_first:
  assumes "10 \<notin> set l" and "13 \<notin> set l" and "l \<noteq> []"
  shows "\<exists>ls. str_lines (l @ header_lines hs) = l # ls"
proof (cases hs)
  case Nil
  have "last l \<noteq> 10" using assms(1,3) last_in_set by metis
  with Nil show ?thesis using split_inclusive_nl_last [OF assms(1,3)] by (simp add: str_lines_def header_lines_def strip_eol_def)
next
  case (Cons h hs')
  have "l @ header_lines hs = (l @ [13]) @ 10 # h @ header_lines hs'" using Cons by (simp add: header_lines_def ustr_def crlf_def)
  then show ?thesis using split_inclusive_nl_line [of "l @ [13]"] assms(1) by (simp add: str_lines_def strip_eol_def butlast_append)
qed

lemma str_len_crlf: "str_len (ustr (crlf @ crlf)) = 4"
  by (simp add: ustr_def crlf_def str_len_def utf8_width_def)

lemma digits_no_cr: "CHR 0x0D \<notin> set (show_nat n)"
proof (induction n rule: show_nat.induct)
  case (1 n)
  have "CHR 0x0D \<noteq> digit_char d" if "d < 10" for d
  proof
    assume "CHR 0x0D = digit_char d"
    then have "of_char (CHR 0x0D) = (of_char (digit_char d) :: nat)" by (rule arg_cong)
    with that show False by (simp add: digit_char_def of_char_of)
  qed
  with 1 show ?case by (subst show_nat.simps) auto
qed

text \<open>The end of the header is found again in what was sent.\<close>

lemma http_header_inject: "str_bytes (http_header n) @ x = str_bytes (http_header m) @ y \<Longrightarrow> x = y"
proof -
  assume eq: "str_bytes (http_header n) @ x = str_bytes (http_header m) @ y"
  have "c = CHR 0x0D" if "of_nat (of_char c) = (13 :: u8)" for c
    using that str_bytes_inject [of "[c]" "[CHR 0x0D]"] unfolding str_bytes_def by simp
  then have cr: "13 \<notin> set (str_bytes (show_nat k))" for k
    using digits_no_cr [of k] unfolding str_bytes_def by fastforce
  obtain A B where H: "\<And>k. http_header k = A @ show_nat k @ CHR 0x0D # B"
  proof
    show "http_header k = (''HTTP/1.1 200 OK'' @ crlf @ ''Content-Type: application/json'' @ crlf @ ''Content-Length: '') @
      show_nat k @ CHR 0x0D # (CHR 0x0A # ''Connection: close'' @ crlf @ crlf)" for k by (simp add: http_header_def crlf_def)
  qed
  have "str_bytes (CHR 0x0D # B) = 13 # str_bytes B" by (simp add: str_bytes_def)
  then show "x = y"
    using split_at_first [OF cr [of n] cr [of m], of "str_bytes B @ x" "str_bytes B @ y"] eq unfolding H by simp
qed

section \<open>Access and shutdown\<close>

lemma connection_response_result:
  assumes "connection_response H J S config data = Ok r" and "jrs_result r \<noteq> None"
  obtains body request where "parse_http_request H data = Ok (ustr ''POST'', body)" "auth_ok H config data"
    "hx_request_from_slice H body = Ok request" "jrq_jsonrpc request = ''2.0''" "handle_request J S request = Ok r"
  using assms by (auto simp: connection_response_def create_error_response_def split: result.splits prod.splits if_splits)

lemma auth_ok_key: "auth_ok H config data \<Longrightarrow> rpc_enable_auth config \<Longrightarrow> rpc_api_key config = Some key \<Longrightarrow> check_authorization H data key"
  by (simp add: auth_ok_def)

lemma send_response_sent:
  "hx_response_to_vec H = Ok \<circ> enc \<Longrightarrow> send_response H sink r = (sent, Ok ()) \<Longrightarrow>
   sent = str_bytes (http_header (length (enc r))) @ enc r"
  by (auto simp: send_response_def Let_def and_then_eq_pair outcome_simps)

text \<open>Authentication that is switched on without a key lets every request through.\<close>

lemma auth_without_key: "auth_ok H (RpcConfig_default\<lparr>rpc_enable_auth := True\<rparr>) data"
  by (simp add: auth_ok_def RpcConfig_default_def)

text \<open>All lines are searched for the header, those of the body too.\<close>

lemma authorization_in_body:
  "check_authorization \<lparr>hx_to_lowercase = (\<lambda>s. map (\<lambda>c. if c = 65 then 97 else c) s), hx_utf8_error = (\<lambda>_. []),
     hx_request_from_slice = (\<lambda>_. Err []), hx_response_to_vec = (\<lambda>_. Err [])\<rparr>
     (str_bytes (''POST /'' @ crlf @ crlf @ ''Authorization: k'')) ''k''"
  by code_simp

fun server_run :: "'j http_externals \<Rightarrow> 'j rpc_json \<Rightarrow> ServerEvent list \<Rightarrow> 'j Listening \<Rightarrow> 'j Listening \<times> u8 list list" where
  "server_run H J [] x = (x, [])"
| "server_run H J (e # es) x =
     (let (y, out) = server_event H J e x; (z, outs) = server_run H J es y in (z, out @ outs))"

lemma stopped_serves_nothing: "\<not> lst_running x \<Longrightarrow> snd (server_run H J es x) = []"
proof (induction es arbitrary: x)
  case (Cons e es)
  then have "\<not> lst_running (fst (server_event H J e x)) \<and> snd (server_event H J e x) = []"
    by (cases e) (simp_all add: Let_def)
  with Cons.IH [of "fst (server_event H J e x)"] show ?case by (simp add: split_beta Let_def)
qed simp

lemma server_event_flag:
  "srv_shutdown (lst_server x) \<Longrightarrow> srv_shutdown (lst_server (fst (server_event H J e x)))"
  "srv_shutdown (lst_server x) \<Longrightarrow> snd (server_event H J e x) = [] \<or>
     (\<exists>sent. snd (server_event H J e x) = [sent]) \<and> \<not> lst_running (fst (server_event H J e x))"
  by (cases e; simp add: loop_head_def server_shutdown_def split_beta Let_def)+

text \<open>The call does not wake the loop, which waits in \<open>accept\<close> for one more connection.\<close>

lemma shutdown_waits: "lst_running (fst (server_event H J ShutdownCalled x)) = lst_running x"
  by simp

lemma shutdown_serves_one:
  "srv_shutdown (lst_server x) \<Longrightarrow> length (snd (server_run H J es x)) \<le> 1"
proof (induction es arbitrary: x)
  case (Cons e es)
  let ?y = "server_event H J e x"
  from server_event_flag(2) [OF Cons.prems, of H J e]
  have "length (snd ?y) + length (snd (server_run H J es (fst ?y))) \<le> 1"
    using Cons.IH [OF server_event_flag(1) [OF Cons.prems, of H J e]]
      stopped_serves_nothing [of "fst ?y" H J es] by auto
  then show ?case by (simp add: split_beta Let_def)
qed simp

section \<open>Properties\<close>

text \<open>
  The HTTP parser reads back a request: for a method that is a word, a target and any number of
  non-empty header lines, all without line breaks, and a body of any text, the bytes of the request in
  UTF-8 are parsed to that method and to exactly the bytes of the body, whatever non-ASCII characters
  stand before it.
\<close>

theorem http_request_roundtrip:
  assumes "name \<noteq> []" and "\<forall>c \<in> set name. \<not> is_whitespace c" and "13 \<notin> set target" and "10 \<notin> set target"
    and "\<forall>h \<in> set hs. h \<noteq> [] \<and> 13 \<notin> set h"
    and "list_all scalar_value (name @ target @ concat hs @ body)"
  shows "parse_http_request H (utf8_bytes ((name @ 32 # target) @ header_lines hs @ ustr (crlf @ crlf) @ body)) = Ok (name, utf8_bytes body)"
proof -
  let ?line = "name @ 32 # target"
  let ?data = "?line @ header_lines hs @ ustr (crlf @ crlf) @ body"
  have "is_whitespace 13" "is_whitespace 10" by (simp_all add: is_whitespace_def)
  with assms(2) have word: "13 \<notin> set name" "10 \<notin> set name" by blast+
  have breaks: "list_all scalar_value (ustr crlf)" by (simp add: ustr_def crlf_def scalar_value_def)
  then have "list_all scalar_value ?data"
    using assms(6) by (induction hs) (auto simp: header_lines_def ustr_def scalar_value_def)
  then have decoded: "from_utf8 (hx_utf8_error H) (utf8_bytes ?data) = Ok ?data" by (rule from_utf8_bytes)
  have found: "find_pattern ?data (ustr (crlf @ crlf)) = Some (?line @ header_lines hs)"
    using find_pattern_skip [of 13 ?line "header_lines hs @ ustr (crlf @ crlf) @ body" "[10, 13, 10]"]
      find_pattern_headers [OF assms(5), of body] word(1) assms(3)
    by (simp only: crlf_pattern append_assoc) simp
  obtain ls where lines: "str_lines (?line @ header_lines hs) = ?line # ls"
    using str_lines_first [of ?line hs] word assms(3,4) by auto
  have "first_word ?line = Some name" using first_word_word [OF assms(1,2)] .
  moreover have "drop (str_len (?line @ header_lines hs) + 4) (utf8_bytes ?data) = utf8_bytes body"
    using drop_utf8_bytes [of "?line @ header_lines hs" "ustr (crlf @ crlf)" body] by (simp add: str_len_crlf)
  ultimately show ?thesis
    unfolding parse_http_request_def decoded Let_def using found lines by simp
qed

theorem http_request_roundtrip_witness:
  "parse_http_request \<lparr>hx_to_lowercase = id, hx_utf8_error = (\<lambda>_. []), hx_request_from_slice = (\<lambda>_. Err []),
      hx_response_to_vec = (\<lambda>_. Err [])\<rparr>
     (utf8_bytes ((ustr ''POST'' @ 32 # ustr ''/rpc HTTP/1.1'') @ header_lines [ustr ''Host: localhost''] @ ustr (crlf @ crlf) @ [123, 8364, 125])) =
   Ok (ustr ''POST'', utf8_bytes [123, 8364, 125])"
  by (rule http_request_roundtrip) (simp_all add: ustr_def is_whitespace_def scalar_value_def)

text \<open>
  C15: What reaches the methods of the interface: a connection whose reply carries a result was within
  the rate limit, was read as a POST request with a JSON-RPC request of version 2.0 as its body, and,
  if a key is configured and authentication is on, one of its lines gives that key.
\<close>

theorem rpc_access_guarded:
  assumes "hx_response_to_vec H = Ok \<circ> enc" and "\<forall>r'. enc r' = enc r \<longrightarrow> r' = r" and "jrs_result r \<noteq> None"
    and "handle_connection H J S config now peer_ip (ReadBytes data) sink limiter = (limiter', sent, Ok ())"
    and "sent = str_bytes (http_header (length (enc r))) @ enc r"
  shows "snd (rate_check now peer_ip limiter) \<and>
    (\<exists>body request. parse_http_request H data = Ok (ustr ''POST'', body) \<and> hx_request_from_slice H body = Ok request \<and>
       jrq_jsonrpc request = ''2.0'' \<and> handle_request J S request = Ok r) \<and>
    (rpc_enable_auth config \<longrightarrow> (\<forall>key. rpc_api_key config = Some key \<longrightarrow> check_authorization H data key))"
proof -
  have same: "r' = r" if "send_response H sink r' = (sent, Ok ())" for r'
  proof -
    from trans [OF send_response_sent [OF assms(1) that, symmetric] assms(5)] have "enc r' = enc r" by (rule http_header_inject)
    with assms(2) show ?thesis by blast
  qed
  have allow: "snd (rate_check now peer_ip limiter)"
    using assms(3,4) same by (auto simp: handle_connection_def create_error_response_def split: prod.splits if_splits)
  have "sent \<noteq> []" using assms(5) by (simp add: str_bytes_def http_header_def)
  with assms(4) allow have "data \<noteq> []" by (auto simp: handle_connection_def read_request_def split: prod.splits)
  with assms(4) allow obtain r' where r': "connection_response H J S config data = Ok r'" "send_response H sink r' = (sent, Ok ())"
    by (auto simp: handle_connection_def read_request_def and_then_eq_pair split: prod.splits)
  with same have "connection_response H J S config data = Ok r" by simp
  from connection_response_result [OF this assms(3)] allow show ?thesis by (metis auth_ok_key)
qed

definition sample_reply :: "string JsonRpcResponse" where
  "sample_reply = \<lparr>jrs_jsonrpc = ''2.0'', jrs_result = Some [], jrs_error = None, jrs_id = IdNull\<rparr>"

definition sample_encoder :: "string JsonRpcResponse \<Rightarrow> u8 list" where
  "sample_encoder r = (if r = sample_reply then [91, 93] else [])"

definition sample_http :: "string http_externals" where
  "sample_http =
     \<lparr>hx_to_lowercase = map (\<lambda>c. if c = 65 then 97 else c), hx_utf8_error = (\<lambda>_. []),
      hx_request_from_slice = (\<lambda>_. Ok \<lparr>jrq_jsonrpc = ''2.0'', jrq_method = ''get_mempool'', jrq_params = [], jrq_id = IdNull\<rparr>),
      hx_response_to_vec = Ok \<circ> sample_encoder\<rparr>"

definition sample_post :: "u8 list" where
  "sample_post = str_bytes (''POST / HTTP/1.1'' @ crlf @ ''Authorization: Bearer k'' @ crlf @ crlf @ ''{}'')"

lemma sample_post_text:
  "from_utf8 (\<lambda>_. []) sample_post = Ok (ustr (''POST / HTTP/1.1'' @ crlf @ ''Authorization: Bearer k'' @ crlf @ crlf @ ''{}''))"
  by code_simp

lemma sample_post_parse:
  "parse_http_request sample_http sample_post = Ok (ustr ''POST'', str_bytes ''{}'')"
  unfolding parse_http_request_def sample_http_def http_externals.simps sample_post_text
  by (simp add: ustr_def crlf_def find_pattern.simps str_lines_def strip_eol_def first_word_def is_whitespace_def str_len_def utf8_width_def
      sample_post_def str_bytes_def)

lemma sample_post_auth: "check_authorization sample_http sample_post ''k''"
  by code_simp

lemma sample_connection:
  "handle_connection sample_http sample_json (node_rpc_service sample_env ''0.1.0'' 0 sample_rpc_service)
     (RpcConfig_default\<lparr>rpc_enable_auth := True, rpc_api_key := Some ''k''\<rparr>) 0 ''::1'' (ReadBytes sample_post)
     \<lparr>sink_headers = Ok (), sink_body = Ok (), sink_flush = Ok ()\<rparr> None =
   (None, str_bytes (http_header 2) @ [91, 93], Ok ())"
proof -
  have "sample_post \<noteq> []" by (simp add: sample_post_def str_bytes_def)
  then show ?thesis
    by (simp add: handle_connection_def rate_check_def read_request_def connection_response_def sample_post_parse auth_ok_def sample_post_auth)
      (simp add: sample_http_def handle_request_def dispatch_def handle_get_mempool_def handle_answer_def node_rpc_service_def sample_json_def
        send_response_def sample_encoder_def sample_reply_def numeral_2_eq_2)
qed

theorem rpc_access_guarded_witness:
  "check_authorization sample_http sample_post ''k'' \<and>
   handle_request sample_json (node_rpc_service sample_env ''0.1.0'' 0 sample_rpc_service)
     \<lparr>jrq_jsonrpc = ''2.0'', jrq_method = ''get_mempool'', jrq_params = [], jrq_id = IdNull\<rparr> = Ok sample_reply"
proof -
  have "hx_response_to_vec sample_http = Ok \<circ> sample_encoder"
    "\<forall>r'. sample_encoder r' = sample_encoder sample_reply \<longrightarrow> r' = sample_reply" "jrs_result sample_reply \<noteq> None"
    by (simp_all add: sample_http_def sample_encoder_def sample_reply_def)
  from rpc_access_guarded [OF this sample_connection] show ?thesis
    by (auto simp: sample_http_def sample_encoder_def numeral_2_eq_2)
qed

end
