(* ===== verification/Benford.thy ===== *)
theory Benford
  imports Rust_Strings Errors
begin

text \<open>
  \<open>analytics/src/benford.rs\<close>: the distribution of leading digits against Benford's law. The
  \<open>[T; 10]\<close> arrays are lists of length 10, the statistic is computed in binary64.
\<close>

section \<open>Numbers\<close>

fun f64_abs :: "f64 \<Rightarrow> f64" where
  "f64_abs (Fin x) = Fin \<bar>x\<bar>"
| "f64_abs NegInf = PosInf"
| "f64_abs x = x"

text \<open>\<open>format!("{:.n}", x)\<close>: the exact value rounded to \<open>n\<close> decimals, ties to even.\<close>

definition show_fixed_rat :: "nat \<Rightarrow> rat \<Rightarrow> string" where
  "show_fixed_rat n x =
     (let k = nat (round_even (x * 10 ^ n)); f = show_nat (k mod 10 ^ n)
      in show_nat (k div 10 ^ n) @ (if n = 0 then [] else ''.'' @ replicate (n - length f) CHR ''0'' @ f))"

fun show_fixed :: "nat \<Rightarrow> f64 \<Rightarrow> string" where
  "show_fixed n (Fin x) = (if x < 0 then ''-'' @ show_fixed_rat n (- x) else show_fixed_rat n x)"
| "show_fixed n PosInf = ''inf''"
| "show_fixed n NegInf = ''-inf''"
| "show_fixed n NaN = ''NaN''"

section \<open>The analyzer\<close>

definition BENFORD_FREQUENCIES :: "f64 list" where
  "BENFORD_FREQUENCIES =
     map f64_lit [0, 30103 / 100000, 17609 / 100000, 12494 / 100000, 9691 / 100000, 7918 / 100000, 6695 / 100000, 5799 / 100000,
       5115 / 100000, 4576 / 100000]"

record BenfordResult =
  bfr_total_values :: nat
  bfr_digit_counts :: "u64 list"
  bfr_observed_frequencies :: "f64 list"
  bfr_expected_frequencies :: "f64 list"
  bfr_chi_square_statistic :: f64
  bfr_p_value :: f64
  bfr_complies_with_benford :: bool
  bfr_degrees_of_freedom :: u8
  bfr_max_deviation :: f64

record DigitAnalysis =
  dga_digit :: nat
  dga_observed_count :: u64
  dga_observed_frequency :: f64
  dga_expected_frequency :: f64
  dga_deviation :: f64
  dga_percent_deviation :: f64

record DigitDistribution =
  dgd_position :: nat
  dgd_counts :: "u64 list"
  dgd_frequencies :: "f64 list"
  dgd_total_values :: nat

record BenfordReport =
  bfp_result :: BenfordResult
  bfp_digit_analysis :: "DigitAnalysis list"
  bfp_significance_level :: string
  bfp_interpretation :: string

definition near :: "f64 \<Rightarrow> f64 \<Rightarrow> bool" where
  "near a b = f64_lt (f64_abs (f64_sub a b)) (f64_lit (1 / 10000))"

definition get_critical_value :: "f64 \<Rightarrow> f64" where
  "get_critical_value alpha =
     (if near alpha (f64_lit (10 / 100)) then f64_lit (13362 / 1000)
      else if near alpha (f64_lit (5 / 100)) then f64_lit (15507 / 1000)
      else if near alpha (f64_lit (1 / 100)) then f64_lit (20090 / 1000)
      else if near alpha (f64_lit (1 / 1000)) then f64_lit (26125 / 1000)
      else f64_lit (15507 / 1000))"

function first_digit_loop :: "nat \<Rightarrow> nat" where
  "first_digit_loop v = (if 10 \<le> v then first_digit_loop (v div 10) else v)"
  by pat_completeness auto
termination
  by (relation "measure id") auto

declare first_digit_loop.simps [simp del]

definition extract_first_digit :: "u64 \<Rightarrow> nat" where
  "extract_first_digit v = (if v = 0 then 0 else first_digit_loop (unat v))"

definition count_digit :: "nat \<Rightarrow> u64 list \<Rightarrow> u64 list" where
  "count_digit d counts = counts[d := counts ! d + 1]"

definition count_first_digits :: "u64 list \<Rightarrow> u64 list" where
  "count_first_digits values =
     fold (\<lambda>v counts.
        if v = 0 then counts
        else (let first_digit = extract_first_digit v
              in if 0 < first_digit \<and> first_digit \<le> 9 then count_digit first_digit counts else counts))
       values (replicate 10 0)"

definition calculate_chi_square :: "u64 list \<Rightarrow> f64 \<Rightarrow> f64" where
  "calculate_chi_square observed n =
     fold (\<lambda>digit chi_square.
        let observed_count = f64_of_nat (unat (observed ! digit));
            expected_count = f64_mul (BENFORD_FREQUENCIES ! digit) n
        in if f64_lt (Fin 0) expected_count then
             let diff = f64_sub observed_count expected_count
             in f64_add chi_square (f64_div (f64_mul diff diff) expected_count)
           else chi_square)
       [1..<10] (Fin 0)"

definition estimate_p_value :: "f64 \<Rightarrow> f64" where
  "estimate_p_value chi_square =
     (if f64_lt chi_square (get_critical_value (f64_lit (10 / 100))) then f64_lit 1
      else if f64_lt chi_square (get_critical_value (f64_lit (5 / 100))) then f64_lit (75 / 1000)
      else if f64_lt chi_square (get_critical_value (f64_lit (1 / 100))) then f64_lit (3 / 100)
      else if f64_lt chi_square (get_critical_value (f64_lit (1 / 1000))) then f64_lit (5 / 1000)
      else f64_lit (5 / 10000))"

definition calculate_max_deviation :: "f64 list \<Rightarrow> f64" where
  "calculate_max_deviation observed =
     fold (\<lambda>digit max_deviation.
        let deviation = f64_abs (f64_sub (observed ! digit) (BENFORD_FREQUENCIES ! digit))
        in if f64_lt max_deviation deviation then deviation else max_deviation)
       [1..<10] (Fin 0)"

definition benford_analyze :: "u64 list \<Rightarrow> BenfordResult outcome" where
  "benford_analyze values =
     (if values = [] then Err (InsufficientData ''No values provided for Benford analysis'')
      else if length values < 30 then
        Err (InsufficientData (''Benford analysis requires at least 30 values, got '' @ show_nat (length values)))
      else
        (let digit_counts = count_first_digits values;
             total = f64_of_nat (length values);
             chi_square = calculate_chi_square digit_counts total;
             p_value = estimate_p_value chi_square;
             complies = f64_lt chi_square (get_critical_value (f64_lit (5 / 100)));
             observed_frequencies = Fin 0 # map (\<lambda>digit. f64_div (f64_of_nat (unat (digit_counts ! digit))) total) [1..<10]
         in Ok \<lparr>bfr_total_values = length values, bfr_digit_counts = digit_counts, bfr_observed_frequencies = observed_frequencies,
                bfr_expected_frequencies = BENFORD_FREQUENCIES, bfr_chi_square_statistic = chi_square, bfr_p_value = p_value,
                bfr_complies_with_benford = complies, bfr_degrees_of_freedom = 8,
                bfr_max_deviation = calculate_max_deviation observed_frequencies\<rparr>))"

definition extract_digit_at_position :: "u64 \<Rightarrow> nat \<Rightarrow> nat option" where
  "extract_digit_at_position v position =
     (let s = show_nat (unat v) in
      if length s \<le> position then None else Option.bind (vec_get (rev s) position) to_digit)"

definition analyze_by_position :: "u64 list \<Rightarrow> nat \<Rightarrow> DigitDistribution outcome" where
  "analyze_by_position values position =
     (if values = [] then Err (InsufficientData ''No values provided'')
      else
        (let (counts, valid_count) =
               fold (\<lambda>v (counts, valid_count).
                  case extract_digit_at_position v position of
                    Some digit \<Rightarrow> (count_digit digit counts, valid_count + 1)
                  | None \<Rightarrow> (counts, valid_count)) values (replicate 10 0, 0 :: nat);
             frequencies = (if 0 < valid_count then map (\<lambda>c. f64_div (f64_of_nat (unat c)) (f64_of_nat valid_count)) counts
                            else replicate 10 (Fin 0))
         in Ok \<lparr>dgd_position = position, dgd_counts = counts, dgd_frequencies = frequencies, dgd_total_values = valid_count\<rparr>))"

definition significance_level :: "f64 \<Rightarrow> string" where
  "significance_level chi_square =
     (if f64_lt chi_square (get_critical_value (f64_lit (10 / 100))) then ''Not significant (p > 0.10)''
      else if f64_lt chi_square (get_critical_value (f64_lit (5 / 100))) then ''Marginally significant (0.05 < p < 0.10)''
      else if f64_lt chi_square (get_critical_value (f64_lit (1 / 100))) then ''Significant (0.01 < p < 0.05)''
      else if f64_lt chi_square (get_critical_value (f64_lit (1 / 1000))) then ''Very significant (0.001 < p < 0.01)''
      else ''Highly significant (p < 0.001)'')"

definition interpret_result :: "BenfordResult \<Rightarrow> string" where
  "interpret_result r =
     (if bfr_complies_with_benford r then ''Data complies with Benford'' @ [CHR 0x27] @ ''s Law. No significant evidence of manipulation detected.''
      else ''Data deviates significantly from Benford'' @ [CHR 0x27] @ ''s Law (chi-square: '' @ show_fixed 2 (bfr_chi_square_statistic r) @
           '', p-value: '' @ show_fixed 4 (bfr_p_value r) @ ''). Maximum deviation: '' @ show_fixed 4 (bfr_max_deviation r) @
           ''. This may indicate data manipulation, but could also result from legitimate factors such as vote count ranges, jurisdictional boundaries, or other systematic effects.'')"

definition digit_analysis :: "BenfordResult \<Rightarrow> nat \<Rightarrow> DigitAnalysis" where
  "digit_analysis r digit =
     (let observed = bfr_observed_frequencies r ! digit;
          expected = BENFORD_FREQUENCIES ! digit;
          deviation = f64_sub observed expected;
          percent_deviation = (if f64_lt (Fin 0) expected then f64_mul (f64_div deviation expected) (f64_lit 100) else Fin 0)
      in \<lparr>dga_digit = digit, dga_observed_count = bfr_digit_counts r ! digit, dga_observed_frequency = observed,
          dga_expected_frequency = expected, dga_deviation = deviation, dga_percent_deviation = percent_deviation\<rparr>)"

definition benford_report :: "BenfordResult \<Rightarrow> BenfordReport" where
  "benford_report r =
     \<lparr>bfp_result = r, bfp_digit_analysis = map (digit_analysis r) [1..<10],
      bfp_significance_level = significance_level (bfr_chi_square_statistic r), bfp_interpretation = interpret_result r\<rparr>"

section \<open>Digits\<close>

lemma show_nat_step: "show_nat n = (if n < 10 then [] else show_nat (n div 10)) @ [digit_char (n mod 10)]"
  by (subst show_nat.simps) simp

text \<open>The leading digit is the first character of the decimal numeral.\<close>

lemma first_digit_loop_show: "first_digit_loop n < 10 \<and> hd (show_nat n) = digit_char (first_digit_loop n)"
proof (induction n rule: first_digit_loop.induct)
  case (1 n)
  then show ?case
    by (subst (1 2) first_digit_loop.simps, subst show_nat.simps) auto
qed

lemma first_digit_loop_pos: "0 < n \<Longrightarrow> 0 < first_digit_loop n"
proof (induction n rule: first_digit_loop.induct)
  case (1 n)
  then show ?case by (subst first_digit_loop.simps) auto
qed

lemma extract_first_digit_range: "v \<noteq> 0 \<Longrightarrow> 0 < extract_first_digit v \<and> extract_first_digit v \<le> 9"
  using first_digit_loop_pos [of "unat v"] first_digit_loop_show [of "unat v"]
  by (auto simp: extract_first_digit_def unat_gt_0)

lemma show_nat_digit: "p < length (show_nat n) \<Longrightarrow> rev (show_nat n) ! p = digit_char (n div 10 ^ p mod 10)"
proof (induction p arbitrary: n)
  case 0
  then show ?case by (subst show_nat_step) simp
next
  case (Suc p)
  then have "\<not> n < 10" by (cases "n < 10") (simp_all add: show_nat.simps)
  with Suc.prems have "p < length (show_nat (n div 10))" by (subst (asm) show_nat_step) simp
  from Suc.IH [OF this] \<open>\<not> n < 10\<close> show ?case
    by (subst show_nat_step) (simp add: div_mult2_eq)
qed

lemma digit_at_position: "p < length (show_nat (unat v)) \<Longrightarrow> extract_digit_at_position v p = Some (unat v div 10 ^ p mod 10)"
  by (simp add: extract_digit_at_position_def Let_def vec_get_def show_nat_digit to_digit_char)

section \<open>Counts\<close>

definition with_first_digit :: "nat \<Rightarrow> u64 list \<Rightarrow> nat" where
  "with_first_digit d values = length (filter (\<lambda>v. v \<noteq> 0 \<and> hd (show_nat (unat v)) = digit_char d) values)"

lemma with_first_digit_Cons:
  "with_first_digit d (v # vs) = (if v \<noteq> 0 \<and> hd (show_nat (unat v)) = digit_char d then 1 else 0) + with_first_digit d vs"
  by (simp add: with_first_digit_def)

lemma first_digit_eq: "d < 10 \<Longrightarrow> v \<noteq> 0 \<Longrightarrow> extract_first_digit v = d \<longleftrightarrow> hd (show_nat (unat v)) = digit_char d"
  using first_digit_loop_show [of "unat v"] digit_char_inject by (simp add: extract_first_digit_def)

lemma count_first_digits_nth:
  assumes "0 < d" and "d < 10"
  shows "count_first_digits vs ! d = of_nat (with_first_digit d vs)"
proof -
  let ?step = "\<lambda>v counts. if v = 0 then counts
        else (let first_digit = extract_first_digit v
              in if 0 < first_digit \<and> first_digit \<le> 9 then count_digit first_digit counts else counts)"
  have "fold ?step vs counts ! d = counts ! d + of_nat (with_first_digit d vs)" if "length counts = 10" for counts
    using that
  proof (induction vs arbitrary: counts)
    case (Cons v vs)
    have "length (?step v counts) = 10" using Cons.prems by (simp add: count_digit_def Let_def)
    moreover have "?step v counts ! d = counts ! d + (if v \<noteq> 0 \<and> hd (show_nat (unat v)) = digit_char d then 1 else 0)"
      using Cons.prems assms extract_first_digit_range [of v] first_digit_eq [OF assms(2), of v]
      by (auto simp: count_digit_def Let_def nth_list_update)
    ultimately show ?case using Cons.IH by (simp add: with_first_digit_Cons)
  qed (simp add: with_first_digit_def)
  then show ?thesis using assms(2) by (simp add: count_first_digits_def)
qed

lemma with_first_digit_le: "with_first_digit d vs \<le> length vs"
  by (simp add: with_first_digit_def)

lemma unat_count_first_digits:
  assumes "0 < d" and "d < 10" and "length vs < 2 ^ 64"
  shows "unat (count_first_digits vs ! d) = with_first_digit d vs"
  using le_less_trans [OF with_first_digit_le assms(3)] by (simp add: count_first_digits_nth [OF assms(1,2)] unat_of_nat)

lemma sum_first_digits: "(\<Sum>d \<in> {1..9}. with_first_digit d vs) = length (filter (\<lambda>v. v \<noteq> 0) vs)"
proof (induction vs)
  case (Cons v vs)
  have "(\<Sum>d \<in> {1..9}. if v \<noteq> 0 \<and> hd (show_nat (unat v)) = digit_char d then 1 else 0) = (if v \<noteq> 0 then 1 else 0 :: nat)"
  proof (cases "v = 0")
    case False
    have "hd (show_nat (unat v)) = digit_char d \<longleftrightarrow> d = extract_first_digit v" if "d \<in> {1..9}" for d
      using that first_digit_eq [of d v] False by auto
    with False have "(\<Sum>d \<in> {1..9}. if v \<noteq> 0 \<and> hd (show_nat (unat v)) = digit_char d then 1 else 0) =
        (\<Sum>d \<in> {1..9}. if d = extract_first_digit v then 1 else 0 :: nat)"
      by (intro sum.cong refl) simp
    also have "\<dots> = 1" using extract_first_digit_range [OF False] by simp
    finally show ?thesis using False by simp
  qed simp
  with Cons.IH show ?case by (simp add: with_first_digit_Cons sum.distrib del: sum.delta sum.delta')
qed (simp add: with_first_digit_def)

section \<open>Verdicts\<close>

lemma decimal_range: "1 / 10000 \<le> x \<Longrightarrow> x \<le> 1000 \<Longrightarrow> pow2 (- 1022) \<le> x \<and> x \<le> pow2 1000"
proof -
  assume x: "1 / 10000 \<le> x" "x \<le> 1000"
  have "pow2 (- 1022) \<le> pow2 (- 14)" "pow2 10 \<le> pow2 1000" by (intro pow2_mono; simp)+
  then show ?thesis using x by (simp add: pow2_def [of "- 14"] pow2_def [of 10])
qed

text \<open>A literal is within a relative \<open>2 ^ (-53)\<close> of its decimal value.\<close>

lemma decimal_lit:
  assumes "1 / 10000 \<le> x" and "x \<le> 1000"
  obtains p where "f64_lit x = Fin p" "x - x / 2 ^ 53 \<le> p" "p \<le> x + x / 2 ^ 53"
  using f64_lit_bounds [of x] decimal_range [OF assms] by (auto simp: field_simps)

lemma decimal_less:
  assumes "1 / 10000 \<le> x" and "x + 1 / 100000 \<le> y" and "y \<le> 1000"
  shows "f64_lt (f64_lit x) (f64_lit y)"
proof -
  obtain p where p: "f64_lit x = Fin p" "p \<le> x + x / 2 ^ 53" using decimal_lit [of x] assms by auto
  obtain q where q: "f64_lit y = Fin q" "y - y / 2 ^ 53 \<le> q" using decimal_lit [of y] assms by auto
  have "x / 2 ^ 53 \<le> 1000 / 2 ^ 53" "y / 2 ^ 53 \<le> 1000 / 2 ^ 53" using assms by (intro divide_right_mono; simp)+
  then have "p < q" using p(2) q(2) assms(2) by (simp add: field_simps)
  with p(1) q(1) show ?thesis by simp
qed

lemma near_same: "1 / 10000 \<le> x \<Longrightarrow> x \<le> 1000 \<Longrightarrow> near (f64_lit x) (f64_lit x)"
proof -
  assume x: "1 / 10000 \<le> x" "x \<le> 1000"
  obtain p where "f64_lit x = Fin p" using decimal_lit [OF x] by blast
  moreover obtain q where "f64_lit (1 / 10000) = Fin q" "1 / 10000 - 1 / 10000 / 2 ^ 53 \<le> q" using decimal_lit [of "1 / 10000"] by auto
  moreover have "round64 0 = Fin 0" using f64_of_nat_exact [of 0] by (simp add: f64_of_nat_def)
  ultimately show ?thesis by (simp add: near_def f64_sub_def)
qed

lemma not_near:
  assumes "1 / 10000 \<le> x" and "1 / 10000 \<le> y" and "x \<le> 1" and "y \<le> 1" and "1 / 1000 \<le> \<bar>x - y\<bar>"
  shows "\<not> near (f64_lit x) (f64_lit y)"
proof -
  obtain p where p: "f64_lit x = Fin p" "x - x / 2 ^ 53 \<le> p" "p \<le> x + x / 2 ^ 53" using decimal_lit [of x] assms by auto
  obtain q where q: "f64_lit y = Fin q" "y - y / 2 ^ 53 \<le> q" "q \<le> y + y / 2 ^ 53" using decimal_lit [of y] assms by auto
  obtain e where e: "f64_lit (1 / 10000) = Fin e" "e \<le> 1 / 10000 + 1 / 10000 / 2 ^ 53" using decimal_lit [of "1 / 10000"] by auto
  have small: "x / 2 ^ 53 \<le> 1 / 2 ^ 53" "y / 2 ^ 53 \<le> 1 / 2 ^ 53" using assms(3,4) by (intro divide_right_mono; simp)+
  have far: "9 / 10000 \<le> \<bar>p - q\<bar>" "\<bar>p - q\<bar> \<le> 2" using p q small assms by (auto simp: abs_if field_simps split: if_splits)
  then have "pow2 (- 1022) \<le> \<bar>p - q\<bar>" using decimal_range [of "\<bar>p - q\<bar>"] by simp
  from round_rat_relative [OF this] have r: "\<bar>round_rat (p - q) - (p - q)\<bar> \<le> \<bar>p - q\<bar> / 2 ^ 53" .
  have "\<bar>p - q\<bar> / 2 ^ 53 \<le> 2 / 2 ^ 53" using far(2) by (intro divide_right_mono) simp_all
  with r far have bounds: "8 / 10000 \<le> \<bar>round_rat (p - q)\<bar>" "\<bar>round_rat (p - q)\<bar> \<le> 3" by (auto simp: abs_if field_simps split: if_splits)
  have "(3 :: rat) < pow2 2" "pow2 2 \<le> pow2 1024" by (simp add: pow2_def, intro pow2_mono, simp)
  with bounds have "f64_sub (Fin p) (Fin q) = Fin (round_rat (p - q))" by (simp add: f64_sub_def round64_Fin)
  with p(1) q(1) e bounds(1) show ?thesis by (simp add: near_def)
qed

lemma critical_values:
  "get_critical_value (f64_lit (10 / 100)) = f64_lit (13362 / 1000)" "get_critical_value (f64_lit (5 / 100)) = f64_lit (15507 / 1000)"
  "get_critical_value (f64_lit (1 / 100)) = f64_lit (20090 / 1000)" "get_critical_value (f64_lit (1 / 1000)) = f64_lit (26125 / 1000)"
  by (simp_all add: get_critical_value_def near_same not_near)

lemma p_value_levels:
  "f64_lt (f64_lit (5 / 100)) (f64_lit 1)" "f64_lt (f64_lit (5 / 100)) (f64_lit (75 / 1000))"
  "f64_lt (f64_lit (3 / 100)) (f64_lit (5 / 100))" "f64_lt (f64_lit (5 / 1000)) (f64_lit (5 / 100))"
  "f64_lt (f64_lit (5 / 10000)) (f64_lit (5 / 100))" "f64_lt (f64_lit (13362 / 1000)) (f64_lit (15507 / 1000))"
  by (rule decimal_less; simp)+

lemma f64_lt_asym: "f64_lt x y \<Longrightarrow> \<not> f64_lt y x"
  by (cases x; cases y) auto

lemma f64_lt_trans: "f64_lt x y \<Longrightarrow> f64_lt y z \<Longrightarrow> f64_lt x z"
  by (cases x; cases y; cases z) auto

text \<open>Zeros have no leading digit but count in the total, against which the counts are compared.\<close>

lemma benford_analyze_Ok:
  assumes "30 \<le> length vs"
  obtains r where "benford_analyze vs = Ok r" "bfr_digit_counts r = count_first_digits vs" "bfr_total_values r = length vs"
    "bfr_complies_with_benford r = f64_lt (bfr_chi_square_statistic r) (get_critical_value (f64_lit (5 / 100)))"
    "bfr_p_value r = estimate_p_value (bfr_chi_square_statistic r)"
  using assms by (cases "vs = []") (simp_all add: benford_analyze_def Let_def)

lemma zeros_in_total:
  "\<exists>r. benford_analyze (replicate 30 0) = Ok r \<and> bfr_total_values r = 30 \<and> bfr_digit_counts r = replicate 10 0"
proof -
  have "count_first_digits (replicate 30 0) = replicate 10 0" by (simp add: count_first_digits_def numeral_eq_Suc)
  then show ?thesis using benford_analyze_Ok [of "replicate 30 0"] by (metis length_replicate order_refl)
qed

section \<open>Properties\<close>

text \<open>
  C35: The Benford analysis is sound: on at least 30 values the count of each digit from 1 to 9 is the
  number of values other than 0 whose decimal numeral begins with it, the counts add up to the number
  of values other than 0, and the verdict agrees with the estimated p-value: the data complies exactly
  if the p-value is above 0.05. Fewer values are refused.
\<close>

theorem benford_analysis:
  assumes "length values < 2 ^ 64"
  shows "(length values < 30 \<longrightarrow> is_err (benford_analyze values)) \<and>
    (30 \<le> length values \<longrightarrow> (\<exists>r. benford_analyze values = Ok r \<and>
      (\<forall>d \<in> {1..9}. unat (bfr_digit_counts r ! d) =
         length (filter (\<lambda>v. v \<noteq> 0 \<and> hd (show_nat (unat v)) = digit_char d) values)) \<and>
      (\<Sum>d \<in> {1..9}. unat (bfr_digit_counts r ! d)) = length (filter (\<lambda>v. v \<noteq> 0) values) \<and>
      (bfr_complies_with_benford r \<longleftrightarrow> f64_lt (f64_lit (5 / 100)) (bfr_p_value r))))"
proof -
  have counts: "unat (count_first_digits values ! d) = with_first_digit d values" if "d \<in> {1..9}" for d
    using that unat_count_first_digits [OF _ _ assms, of d] by simp
  then have sum: "(\<Sum>d \<in> {1..9}. unat (count_first_digits values ! d)) = length (filter (\<lambda>v. v \<noteq> 0) values)"
    using sum_first_digits [of "values"] by simp
  have verdict: "f64_lt chi (get_critical_value (f64_lit (5 / 100))) \<longleftrightarrow> f64_lt (f64_lit (5 / 100)) (estimate_p_value chi)" for chi
    unfolding estimate_p_value_def critical_values using f64_lt_trans [OF _ p_value_levels(6), of chi] p_value_levels
    by (auto dest: f64_lt_asym)
  show ?thesis
  proof (intro conjI impI)
    assume "30 \<le> length values"
    then obtain r where "benford_analyze values = Ok r" "bfr_digit_counts r = count_first_digits values"
      "bfr_complies_with_benford r = f64_lt (bfr_chi_square_statistic r) (get_critical_value (f64_lit (5 / 100)))"
      "bfr_p_value r = estimate_p_value (bfr_chi_square_statistic r)" by (rule benford_analyze_Ok)
    then show "\<exists>r. benford_analyze values = Ok r \<and>
      (\<forall>d \<in> {1..9}. unat (bfr_digit_counts r ! d) =
         length (filter (\<lambda>v. v \<noteq> 0 \<and> hd (show_nat (unat v)) = digit_char d) values)) \<and>
      (\<Sum>d \<in> {1..9}. unat (bfr_digit_counts r ! d)) = length (filter (\<lambda>v. v \<noteq> 0) values) \<and>
      (bfr_complies_with_benford r \<longleftrightarrow> f64_lt (f64_lit (5 / 100)) (bfr_p_value r))"
      using counts sum verdict by (simp add: with_first_digit_def)
  qed (simp add: benford_analyze_def)
qed

theorem benford_analysis_witness:
  "\<exists>r. benford_analyze (replicate 30 7) = Ok r \<and> unat (bfr_digit_counts r ! 7) = 30"
  using benford_analysis [of "replicate 30 7"] by (auto simp: show_nat.simps filter_replicate)

end
