(* ===== verification/Analytics.thy ===== *)
theory Analytics
  imports Benford
begin

text \<open>
  \<open>analytics/src/lib.rs\<close> with \<open>anomaly.rs\<close>, \<open>statistics.rs\<close>, \<open>audit.rs\<close>, \<open>metrics.rs\<close> and \<open>reports.rs\<close>: the engine that
  runs the analyses of an election. A signed 64-bit difference is a word, read with \<open>sint\<close>.
\<close>

section \<open>Votes and results\<close>

record VoteData =
  vd_tx_id :: string
  vd_timestamp :: u64
  vd_block_height :: u64
  vd_jurisdiction :: "string option"
  vd_coordinates :: "(f64 \<times> f64) option"
  vd_voter_hash :: "string option"
  vd_election_id :: string
  vd_registered_voters_in_jurisdiction :: "u64 option"

record AnomalyReport =
  anr_anomaly_type :: string
  anr_severity :: string
  anr_description :: string

datatype AnomalySeverity = SeverityLow | SeverityMedium | SeverityHigh | SeverityCritical

datatype AnomalyType = StatisticalAnomaly | TemporalAnomaly | GeographicAnomaly | BehavioralAnomaly

record VoteStatistics =
  vst_total_votes :: u64
  vst_mean :: f64
  vst_median :: f64
  vst_turnout_percentage :: f64

record TurnoutStatistics =
  tst_registered_voters :: u64
  tst_votes_cast :: u64
  tst_turnout_percentage :: f64

record IntegrityCheck =
  ick_passed :: bool
  ick_details :: string
  ick_integrity_percentage :: f64

record AnalyticsAuditReport =
  aar_timestamp :: u64
  aar_findings :: "string list"

record AnalyticsMetrics =
  ame_analyses_performed :: u64
  ame_anomalies_detected :: u64

datatype ReportFormat = ReportJson | ReportMarkdown | ReportHtml

record AnalysisResult =
  anl_election_id :: string
  anl_total_votes :: nat
  anl_anomalies :: "AnomalyReport list"
  anl_statistics :: VoteStatistics
  anl_integrity :: IntegrityCheck
  anl_timestamp :: u64

record ComparisonResult =
  cmp_current_election :: string
  cmp_baseline_election :: string
  cmp_vote_count_delta :: "64 word"
  cmp_anomaly_count_delta :: "64 word"
  cmp_turnout_delta :: f64
  cmp_integrity_delta :: f64
  cmp_timestamp :: u64

record TurnoutData =
  tnd_jurisdiction :: string
  tnd_vote_count :: u64
  tnd_registered_voters :: u64
  tnd_turnout_percentage :: f64

section \<open>The parts of the engine\<close>

record AnomalyDetector =
  ad_threshold :: f64

definition set_threshold :: "f64 \<Rightarrow> AnomalyDetector \<Rightarrow> AnomalyDetector" where
  "set_threshold threshold d = d\<lparr>ad_threshold := threshold\<rparr>"

definition detect_temporal_anomalies :: "AnomalyDetector \<Rightarrow> VoteData list \<Rightarrow> f64 \<Rightarrow> AnomalyReport list outcome" where
  "detect_temporal_anomalies d votes threshold = Ok []"

definition detect_geographic_anomalies :: "AnomalyDetector \<Rightarrow> VoteData list \<Rightarrow> f64 \<Rightarrow> AnomalyReport list outcome" where
  "detect_geographic_anomalies d votes threshold = Ok []"

definition detect_benford_violations :: "AnomalyDetector \<Rightarrow> VoteData list \<Rightarrow> f64 \<Rightarrow> AnomalyReport list outcome" where
  "detect_benford_violations d votes threshold = Ok []"

definition detect_timing_spikes :: "AnomalyDetector \<Rightarrow> VoteData list \<Rightarrow> f64 \<Rightarrow> AnomalyReport list outcome" where
  "detect_timing_spikes d votes threshold = Ok []"

definition detect_sequential_patterns :: "AnomalyDetector \<Rightarrow> VoteData list \<Rightarrow> f64 \<Rightarrow> AnomalyReport list outcome" where
  "detect_sequential_patterns d votes threshold = Ok []"

record StatisticsEngine =
  ste_min_sample_size :: nat

definition set_min_sample_size :: "nat \<Rightarrow> StatisticsEngine \<Rightarrow> StatisticsEngine" where
  "set_min_sample_size n e = e\<lparr>ste_min_sample_size := n\<rparr>"

definition generate_statistics :: "StatisticsEngine \<Rightarrow> VoteData list \<Rightarrow> VoteStatistics outcome" where
  "generate_statistics e votes =
     Ok \<lparr>vst_total_votes = 0, vst_mean = Fin 0, vst_median = Fin 0, vst_turnout_percentage = Fin 0\<rparr>"

definition check_integrity :: "string \<Rightarrow> VoteData list \<Rightarrow> IntegrityCheck outcome" where
  "check_integrity election_id votes =
     Ok \<lparr>ick_passed = True, ick_details = ''Integrity check passed'', ick_integrity_percentage = Fin 100\<rparr>"

definition AnalyticsMetrics_default :: AnalyticsMetrics where
  "AnalyticsMetrics_default = \<lparr>ame_analyses_performed = 0, ame_anomalies_detected = 0\<rparr>"

definition record_analysis :: "nat \<Rightarrow> nat \<Rightarrow> AnalyticsMetrics \<Rightarrow> AnalyticsMetrics" where
  "record_analysis vote_count anomaly_count m = m\<lparr>ame_analyses_performed := ame_analyses_performed m + 1\<rparr>"

definition generate_report :: "string \<Rightarrow> AnalysisResult \<Rightarrow> ReportFormat \<Rightarrow> string outcome" where
  "generate_report election_id analysis format = Ok ''Report generated''"

section \<open>The engine\<close>

record AnalyticsConfig =
  acf_anomaly_threshold :: f64
  acf_enable_benford_analysis :: bool
  acf_enable_geographic_analysis :: bool
  acf_enable_temporal_analysis :: bool
  acf_min_sample_size :: nat
  acf_confidence_level :: f64
  acf_enable_realtime :: bool
  acf_realtime_update_interval :: u64
  acf_max_report_history :: nat

definition AnalyticsConfig_default :: AnalyticsConfig where
  "AnalyticsConfig_default =
     \<lparr>acf_anomaly_threshold = f64_lit (5 / 2), acf_enable_benford_analysis = True, acf_enable_geographic_analysis = True,
      acf_enable_temporal_analysis = True, acf_min_sample_size = 30, acf_confidence_level = f64_lit (95 / 100),
      acf_enable_realtime = False, acf_realtime_update_interval = 60, acf_max_report_history = 100\<rparr>"

record AnalyticsEngine =
  ae_config :: AnalyticsConfig
  ae_anomaly_detector :: AnomalyDetector
  ae_statistics_engine :: StatisticsEngine
  ae_metrics :: AnalyticsMetrics

definition AnalyticsEngine_with_config :: "AnalyticsConfig \<Rightarrow> AnalyticsEngine" where
  "AnalyticsEngine_with_config config =
     \<lparr>ae_config = config, ae_anomaly_detector = \<lparr>ad_threshold = acf_anomaly_threshold config\<rparr>,
      ae_statistics_engine = \<lparr>ste_min_sample_size = acf_min_sample_size config\<rparr>, ae_metrics = AnalyticsMetrics_default\<rparr>"

definition AnalyticsEngine_new :: AnalyticsEngine where
  "AnalyticsEngine_new = AnalyticsEngine_with_config AnalyticsConfig_default"

definition enabled_anomalies :: "AnalyticsEngine \<Rightarrow> VoteData list \<Rightarrow> AnomalyReport list outcome" where
  "enabled_anomalies e votes =
     (let c = ae_config e; d = ae_anomaly_detector e; t = acf_anomaly_threshold c;
          run = (\<lambda>enabled detect. if enabled then detect d votes t else Ok [])
      in rbind (run (acf_enable_temporal_analysis c) detect_temporal_anomalies) (\<lambda>temporal.
         rbind (run (acf_enable_geographic_analysis c) detect_geographic_anomalies) (\<lambda>geographic.
         rbind (run (acf_enable_benford_analysis c) detect_benford_violations) (\<lambda>benford.
           Ok (temporal @ geographic @ benford)))))"

definition analyze_election ::
  "Timestamp \<Rightarrow> string \<Rightarrow> VoteData list \<Rightarrow> AnalyticsEngine \<Rightarrow> AnalyticsEngine \<times> AnalysisResult outcome" where
  "analyze_election now election_id votes e =
     (if length votes < acf_min_sample_size (ae_config e) then
        (e, Err (InsufficientData (''Need at least '' @ show_nat (acf_min_sample_size (ae_config e)) @ '' votes for analysis, got '' @
           show_nat (length votes))))
      else
        and_then (e, enabled_anomalies e votes) (\<lambda>e anomalies.
        and_then (e, generate_statistics (ae_statistics_engine e) votes) (\<lambda>e stats.
        and_then (e, check_integrity election_id votes) (\<lambda>e integrity.
          (e\<lparr>ae_metrics := record_analysis (length votes) (length anomalies) (ae_metrics e)\<rparr>,
           Ok \<lparr>anl_election_id = election_id, anl_total_votes = length votes, anl_anomalies = anomalies, anl_statistics = stats,
               anl_integrity = integrity, anl_timestamp = now\<rparr>)))))"

definition realtime_analysis :: "string \<Rightarrow> VoteData list \<Rightarrow> AnalyticsEngine \<Rightarrow> AnomalyReport list outcome" where
  "realtime_analysis election_id votes e =
     (if \<not> acf_enable_realtime (ae_config e) then Err (ConfigurationError ''Real-time analysis not enabled'')
      else
        rbind (detect_timing_spikes (ae_anomaly_detector e) votes (acf_anomaly_threshold (ae_config e))) (\<lambda>spikes.
        rbind (detect_sequential_patterns (ae_anomaly_detector e) votes (acf_anomaly_threshold (ae_config e))) (\<lambda>patterns.
          Ok (spikes @ patterns))))"

definition generate_audit_report :: "string \<Rightarrow> AnalysisResult \<Rightarrow> ReportFormat \<Rightarrow> string outcome" where
  "generate_audit_report election_id analysis format = generate_report election_id analysis format"

definition update_config :: "AnalyticsConfig \<Rightarrow> AnalyticsEngine \<Rightarrow> AnalyticsEngine" where
  "update_config config e =
     e\<lparr>ae_config := config, ae_anomaly_detector := set_threshold (acf_anomaly_threshold config) (ae_anomaly_detector e),
       ae_statistics_engine := set_min_sample_size (acf_min_sample_size config) (ae_statistics_engine e)\<rparr>"

definition compare_elections :: "Timestamp \<Rightarrow> AnalysisResult \<Rightarrow> AnalysisResult \<Rightarrow> ComparisonResult outcome" where
  "compare_elections now current baseline =
     Ok \<lparr>cmp_current_election = anl_election_id current, cmp_baseline_election = anl_election_id baseline,
         cmp_vote_count_delta = of_nat (anl_total_votes current) - of_nat (anl_total_votes baseline),
         cmp_anomaly_count_delta = of_nat (length (anl_anomalies current)) - of_nat (length (anl_anomalies baseline)),
         cmp_turnout_delta = f64_sub (vst_turnout_percentage (anl_statistics current)) (vst_turnout_percentage (anl_statistics baseline)),
         cmp_integrity_delta = f64_sub (ick_integrity_percentage (anl_integrity current)) (ick_integrity_percentage (anl_integrity baseline)),
         cmp_timestamp = now\<rparr>"

definition turnout_entry :: "VoteData \<Rightarrow> string \<Rightarrow> TurnoutData" where
  "turnout_entry vote jurisdiction =
     \<lparr>tnd_jurisdiction = jurisdiction, tnd_vote_count = 0,
      tnd_registered_voters = (case vd_registered_voters_in_jurisdiction vote of Some n \<Rightarrow> n | None \<Rightarrow> 0), tnd_turnout_percentage = Fin 0\<rparr>"

definition count_turnout :: "VoteData \<Rightarrow> (string, TurnoutData) hashmap \<Rightarrow> (string, TurnoutData) hashmap" where
  "count_turnout vote m =
     (case vd_jurisdiction vote of
        None \<Rightarrow> m
      | Some jurisdiction \<Rightarrow>
          let entry = (case fmlookup m jurisdiction of Some t \<Rightarrow> t | None \<Rightarrow> turnout_entry vote jurisdiction)
          in fmupd jurisdiction (entry\<lparr>tnd_vote_count := tnd_vote_count entry + 1\<rparr>) m)"

definition finish_turnout :: "TurnoutData \<Rightarrow> TurnoutData" where
  "finish_turnout t =
     (if 0 < tnd_registered_voters t
      then t\<lparr>tnd_turnout_percentage :=
             f64_mul (f64_div (f64_of_nat (unat (tnd_vote_count t))) (f64_of_nat (unat (tnd_registered_voters t)))) (f64_lit 100)\<rparr>
      else t)"

definition get_turnout_by_jurisdiction :: "VoteData list \<Rightarrow> (string, TurnoutData) hashmap outcome" where
  "get_turnout_by_jurisdiction votes = Ok (fmmap finish_turnout (fold count_turnout votes fmempty))"

section \<open>What the engine does\<close>

lemmas detector_defs = detect_temporal_anomalies_def detect_geographic_anomalies_def detect_benford_violations_def
  detect_timing_spikes_def detect_sequential_patterns_def

text \<open>No analysis ever reports an anomaly, and the integrity of every election is confirmed.\<close>

lemma analysis_finds_nothing:
  "snd (analyze_election now i votes e) = Ok r \<Longrightarrow>
   anl_anomalies r = [] \<and> vst_total_votes (anl_statistics r) = 0 \<and> ick_passed (anl_integrity r)"
  by (auto simp: analyze_election_def enabled_anomalies_def detector_defs generate_statistics_def check_integrity_def Let_def
      split: if_splits)

lemma anomalies_never_counted: "ame_anomalies_detected (ae_metrics (fst (analyze_election now i votes e))) = ame_anomalies_detected (ae_metrics e)"
  by (simp add: analyze_election_def enabled_anomalies_def detector_defs generate_statistics_def check_integrity_def record_analysis_def Let_def)

text \<open>The votes of a jurisdiction and its first vote.\<close>

definition votes_in :: "string \<Rightarrow> VoteData list \<Rightarrow> VoteData list" where
  "votes_in j votes = filter (\<lambda>v. vd_jurisdiction v = Some j) votes"

lemma fold_count_turnout:
  "fmlookup (fold count_turnout votes m) j =
     (case fmlookup m j of
        Some t \<Rightarrow> Some (t\<lparr>tnd_vote_count := tnd_vote_count t + of_nat (length (votes_in j votes))\<rparr>)
      | None \<Rightarrow>
          (case votes_in j votes of
             [] \<Rightarrow> None
           | v # vs \<Rightarrow> Some ((turnout_entry v j)\<lparr>tnd_vote_count := of_nat (length (votes_in j votes))\<rparr>)))"
proof (induction votes arbitrary: m)
  case (Cons v votes)
  show ?case
  proof (cases "vd_jurisdiction v = Some j")
    case True
    let ?entry = "case fmlookup m j of Some t \<Rightarrow> t | None \<Rightarrow> turnout_entry v j"
    have "fmlookup (count_turnout v m) j = Some (?entry\<lparr>tnd_vote_count := tnd_vote_count ?entry + 1\<rparr>)"
      using True by (simp add: count_turnout_def Let_def)
    with True show ?thesis
      by (cases "fmlookup m j") (simp_all add: Cons.IH votes_in_def turnout_entry_def algebra_simps)
  next
    case False
    then have "fmlookup (count_turnout v m) j = fmlookup m j" by (auto simp: count_turnout_def Let_def split: option.splits)
    moreover have "votes_in j (v # votes) = votes_in j votes" using False by (simp add: votes_in_def)
    ultimately show ?thesis by (simp only: fold_Cons comp_apply Cons.IH)
  qed
qed (simp add: votes_in_def split: option.splits)

section \<open>Properties\<close>

text \<open>
  The turnout by jurisdiction has an entry for exactly the jurisdictions that some vote names; it
  counts their votes, takes the number of registered voters from the first of them, 0 if that gives
  none, and the percentage is the quotient times 100 in binary64, 0 without registered voters.
\<close>

theorem turnout_by_jurisdiction:
  assumes "length votes < 2 ^ 64"
  shows "\<exists>m. get_turnout_by_jurisdiction votes = Ok m \<and>
    (\<forall>j. fmlookup m j = None \<longleftrightarrow> (\<forall>v \<in> set votes. vd_jurisdiction v \<noteq> Some j)) \<and>
    (\<forall>j t. fmlookup m j = Some t \<longrightarrow>
       (let vs = filter (\<lambda>v. vd_jurisdiction v = Some j) votes;
            n = (case vd_registered_voters_in_jurisdiction (hd vs) of Some n \<Rightarrow> unat n | None \<Rightarrow> 0)
        in tnd_jurisdiction t = j \<and> unat (tnd_vote_count t) = length vs \<and> unat (tnd_registered_voters t) = n \<and>
           tnd_turnout_percentage t =
             (if n = 0 then Fin 0 else f64_mul (f64_div (f64_of_nat (length vs)) (f64_of_nat n)) (f64_lit 100))))"
proof -
  let ?m = "fmmap finish_turnout (fold count_turnout votes fmempty)"
  have look: "fmlookup ?m j = (case votes_in j votes of [] \<Rightarrow> None
      | v # vs \<Rightarrow> Some (finish_turnout ((turnout_entry v j)\<lparr>tnd_vote_count := of_nat (length (votes_in j votes))\<rparr>)))" for j
    by (simp add: fold_count_turnout split: list.split)
  have small: "length (votes_in j votes) < 2 ^ 64" for j
    using assms length_filter_le [of _ votes] unfolding votes_in_def by (rule le_less_trans [rotated])
  have "fmlookup ?m j = None \<longleftrightarrow> (\<forall>v \<in> set votes. vd_jurisdiction v \<noteq> Some j)" for j
    unfolding look by (cases "votes_in j votes") (auto simp: votes_in_def filter_empty_conv dest: filter_eq_ConsD)
  moreover have "let vs = votes_in j votes; n = (case vd_registered_voters_in_jurisdiction (hd vs) of Some n \<Rightarrow> unat n | None \<Rightarrow> 0)
      in tnd_jurisdiction t = j \<and> unat (tnd_vote_count t) = length vs \<and> unat (tnd_registered_voters t) = n \<and>
         tnd_turnout_percentage t =
           (if n = 0 then Fin 0 else f64_mul (f64_div (f64_of_nat (length vs)) (f64_of_nat n)) (f64_lit 100))"
    if t: "fmlookup ?m j = Some t" for j t
  proof -
    obtain v vs where vs: "votes_in j votes = v # vs"
        "t = finish_turnout ((turnout_entry v j)\<lparr>tnd_vote_count := of_nat (length (votes_in j votes))\<rparr>)"
      using t unfolding look by (cases "votes_in j votes") simp_all
    have "unat (of_nat (length (votes_in j votes)) :: u64) = length (votes_in j votes)" using small [of j] by (simp add: unat_of_nat)
    with vs show ?thesis by (simp add: finish_turnout_def turnout_entry_def Let_def unat_gt_0 word_neq_0_conv [symmetric] unat_eq_zero split: option.splits)
  qed
  ultimately show ?thesis unfolding get_turnout_by_jurisdiction_def votes_in_def by blast
qed

theorem turnout_by_jurisdiction_witness:
  "\<exists>m t. get_turnout_by_jurisdiction
     [\<lparr>vd_tx_id = ''t'', vd_timestamp = 0, vd_block_height = 1, vd_jurisdiction = Some ''ward'', vd_coordinates = None, vd_voter_hash = None,
       vd_election_id = ''e'', vd_registered_voters_in_jurisdiction = Some 4\<rparr>] = Ok m \<and>
     fmlookup m ''ward'' = Some t \<and> unat (tnd_vote_count t) = 1 \<and> unat (tnd_registered_voters t) = 4"
proof -
  let ?v = "\<lparr>vd_tx_id = ''t'', vd_timestamp = 0, vd_block_height = 1, vd_jurisdiction = Some ''ward'', vd_coordinates = None,
    vd_voter_hash = None, vd_election_id = ''e'', vd_registered_voters_in_jurisdiction = Some 4\<rparr>"
  from turnout_by_jurisdiction [of "[?v]"] obtain m where m: "get_turnout_by_jurisdiction [?v] = Ok m"
    "\<forall>j. fmlookup m j = None \<longleftrightarrow> (\<forall>v \<in> set [?v]. vd_jurisdiction v \<noteq> Some j)"
    "\<forall>j t. fmlookup m j = Some t \<longrightarrow>
       (let vs = filter (\<lambda>v. vd_jurisdiction v = Some j) [?v];
            n = (case vd_registered_voters_in_jurisdiction (hd vs) of Some n \<Rightarrow> unat n | None \<Rightarrow> 0)
        in tnd_jurisdiction t = j \<and> unat (tnd_vote_count t) = length vs \<and> unat (tnd_registered_voters t) = n \<and>
           tnd_turnout_percentage t =
             (if n = 0 then Fin 0 else f64_mul (f64_div (f64_of_nat (length vs)) (f64_of_nat n)) (f64_lit 100)))" by auto
  from m(2) obtain t where t: "fmlookup m ''ward'' = Some t" by (cases "fmlookup m ''ward''") auto
  from m(3) [rule_format, OF t] m(1) t show ?thesis by (auto simp: Let_def)
qed

end
