(* ===== verification/Fraud_Detection.thy ===== *)
theory Fraud_Detection
  imports Benford Jurisdiction_Tree Verification
begin

text \<open>
  \<open>analytics/src/fraud_detection.rs\<close>: seven checks over a list of votes and the report that sums them up. The module is not
  declared in \<open>analytics/src/lib.rs\<close>; it is modelled as the file has it. The loops over hash maps visit the keys in an order of
  their own, one argument for each map; \<open>Display\<close> of a float and the trigonometric functions are arguments.
\<close>

section \<open>Votes and findings\<close>

datatype FraudType =
  DuplicateVote | MultipleVotes | VoteStuffing | TimestampManipulation | GeographicImpossibility | StatisticalOutlier |
  SequentialPattern | ExcessTurnout | UnusuallyHighTurnout

datatype RiskLevel = RiskLow | RiskMedium | RiskHigh

datatype FraudEvidence =
  DuplicateHash string
| MultipleVotesByVoter string nat "string list"
| VoteStuffingEvidence u64 nat "string list"
| SuspiciousTimestamp string string u64
| BlockTimestampMismatch string u64 u64
| ImpossibleTravel string f64 f64 f64
| StatisticalAnomalyEvidence string nat f64 f64 f64
| RegularPattern nat
| ExcessiveTurnout string nat u64 f64
| HighTurnout string f64

record FraudFinding =
  ff_finding_type :: FraudType
  ff_risk_level :: RiskLevel
  ff_description :: string
  ff_affected_votes :: "string list"
  ff_evidence :: FraudEvidence

record VoteRecord =
  vrc_tx_id :: string
  vrc_timestamp :: u64
  vrc_block_height :: u64
  vrc_voter_hash :: "string option"
  vrc_location :: "string option"
  vrc_coordinates :: "(f64 \<times> f64) option"
  vrc_registered_voters :: "u64 option"

record FraudReport =
  frp_total_votes :: nat
  frp_findings :: "FraudFinding list"
  frp_high_risk_count :: nat
  frp_medium_risk_count :: nat
  frp_low_risk_count :: nat
  frp_overall_risk :: RiskLevel
  frp_timestamp :: u64

record FraudDetectionConfig =
  fdc_outlier_threshold :: f64
  fdc_max_votes_per_second :: u64
  fdc_min_vote_interval :: u64
  fdc_max_geographic_velocity :: f64
  fdc_strict_duplicate_checking :: bool

record FraudDetector =
  fd_outlier_threshold :: f64
  fd_max_votes_per_second :: u64
  fd_min_vote_interval :: u64
  fd_max_geographic_velocity :: f64
  fd_strict_duplicate_checking :: bool

definition FraudDetectionConfig_default :: FraudDetectionConfig where
  "FraudDetectionConfig_default =
     \<lparr>fdc_outlier_threshold = f64_lit 3, fdc_max_votes_per_second = 100, fdc_min_vote_interval = 10,
      fdc_max_geographic_velocity = f64_lit 1000, fdc_strict_duplicate_checking = True\<rparr>"

definition FraudDetector_new :: FraudDetector where
  "FraudDetector_new =
     \<lparr>fd_outlier_threshold = f64_lit 3, fd_max_votes_per_second = 100, fd_min_vote_interval = 10,
      fd_max_geographic_velocity = f64_lit 1000, fd_strict_duplicate_checking = True\<rparr>"

definition FraudDetector_with_config :: "FraudDetectionConfig \<Rightarrow> FraudDetector" where
  "FraudDetector_with_config config =
     \<lparr>fd_outlier_threshold = fdc_outlier_threshold config, fd_max_votes_per_second = fdc_max_votes_per_second config,
      fd_min_vote_interval = fdc_min_vote_interval config, fd_max_geographic_velocity = fdc_max_geographic_velocity config,
      fd_strict_duplicate_checking = fdc_strict_duplicate_checking config\<rparr>"

text \<open>The orders in which the five loops over hash maps run.\<close>

record fraud_walks =
  fw_voters :: "(string, VoteRecord list) hashmap \<Rightarrow> string list"
  fw_seconds :: "(u64, VoteRecord list) hashmap \<Rightarrow> u64 list"
  fw_travellers :: "(string, VoteRecord list) hashmap \<Rightarrow> string list"
  fw_outlier_locations :: "(string, VoteRecord list) hashmap \<Rightarrow> string list"
  fw_turnout_locations :: "(string, VoteRecord list) hashmap \<Rightarrow> string list"

definition fair_walks :: "fraud_walks \<Rightarrow> bool" where
  "fair_walks W \<longleftrightarrow>
     walks (fw_voters W) \<and> walks (fw_seconds W) \<and> walks (fw_travellers W) \<and> walks (fw_outlier_locations W) \<and> walks (fw_turnout_locations W)"

record fraud_floats = float_functions +
  fx_display :: "f64 \<Rightarrow> string"

section \<open>The checks\<close>

text \<open>
  \<open>map.entry(key).or_insert_with(Vec::new).push(vote)\<close> for every vote that has a key, and \<open>for (key, votes) in map.iter()\<close>.
\<close>

definition push_group :: "('v \<Rightarrow> 'k option) \<Rightarrow> 'v \<Rightarrow> ('k, 'v list) hashmap \<Rightarrow> ('k, 'v list) hashmap" where
  "push_group key v m =
     (case key v of None \<Rightarrow> m | Some k \<Rightarrow> fmupd k ((case fmlookup m k of Some vs \<Rightarrow> vs | None \<Rightarrow> []) @ [v]) m)"

definition group_votes :: "('v \<Rightarrow> 'k option) \<Rightarrow> 'v list \<Rightarrow> ('k, 'v list) hashmap" where
  "group_votes key votes = fold (push_group key) votes fmempty"

definition walk_groups :: "(('k, 'v list) hashmap \<Rightarrow> 'k list) \<Rightarrow> ('k, 'v list) hashmap \<Rightarrow> ('k \<times> 'v list) list" where
  "walk_groups iteration m = map (\<lambda>k. (k, the (fmlookup m k))) (iteration m)"

definition tx_ids_of :: "VoteRecord list \<Rightarrow> string list" where
  "tx_ids_of votes = map vrc_tx_id votes"

definition duplicate_finding :: "VoteRecord \<Rightarrow> string \<Rightarrow> FraudFinding" where
  "duplicate_finding vote voter_hash =
     \<lparr>ff_finding_type = DuplicateVote, ff_risk_level = RiskHigh,
      ff_description = ''Duplicate vote detected for voter hash: '' @ voter_hash,
      ff_affected_votes = [vrc_tx_id vote], ff_evidence = DuplicateHash voter_hash\<rparr>"

definition duplicate_round :: "VoteRecord \<Rightarrow> string fset \<times> FraudFinding list \<Rightarrow> string fset \<times> FraudFinding list" where
  "duplicate_round vote = (\<lambda>(seen_hashes, findings).
     case vrc_voter_hash vote of
       None \<Rightarrow> (seen_hashes, findings)
     | Some voter_hash \<Rightarrow>
         (finsert voter_hash seen_hashes,
          if voter_hash |\<in>| seen_hashes then findings @ [duplicate_finding vote voter_hash] else findings))"

definition multiple_votes :: "string \<times> VoteRecord list \<Rightarrow> FraudFinding list" where
  "multiple_votes = (\<lambda>(voter_hash, vote_list).
     if 1 < length vote_list then
       [\<lparr>ff_finding_type = MultipleVotes, ff_risk_level = RiskHigh,
         ff_description = ''Voter '' @ voter_hash @ '' cast '' @ show_nat (length vote_list) @ '' votes'',
         ff_affected_votes = tx_ids_of vote_list,
         ff_evidence = MultipleVotesByVoter voter_hash (length vote_list) (tx_ids_of vote_list)\<rparr>]
     else [])"

definition detect_duplicates :: "fraud_walks \<Rightarrow> FraudDetector \<Rightarrow> VoteRecord list \<Rightarrow> FraudFinding list outcome" where
  "detect_duplicates W d votes =
     (let findings = snd (fold duplicate_round votes ({||}, []));
          voter_votes = group_votes vrc_voter_hash votes
      in Ok (findings @
             (if fd_strict_duplicate_checking d then concat (map multiple_votes (walk_groups (fw_voters W) voter_votes)) else [])))"

definition vote_second :: "VoteRecord \<Rightarrow> u64" where
  "vote_second v = vrc_timestamp v div 1000"

definition stuffed_second :: "FraudDetector \<Rightarrow> u64 \<times> VoteRecord list \<Rightarrow> FraudFinding list" where
  "stuffed_second d = (\<lambda>(second, vote_list).
     if fd_max_votes_per_second d < of_nat (length vote_list) then
       [\<lparr>ff_finding_type = VoteStuffing, ff_risk_level = RiskHigh,
         ff_description = ''Suspicious vote burst: '' @ show_nat (length vote_list) @ '' votes in 1 second at timestamp '' @ show_nat (unat second),
         ff_affected_votes = tx_ids_of vote_list,
         ff_evidence = VoteStuffingEvidence (second * 1000) (length vote_list) (tx_ids_of vote_list)\<rparr>]
     else [])"

definition detect_vote_stuffing :: "fraud_walks \<Rightarrow> FraudDetector \<Rightarrow> VoteRecord list \<Rightarrow> FraudFinding list outcome" where
  "detect_vote_stuffing W d votes =
     Ok (concat (map (stuffed_second d) (walk_groups (fw_seconds W) (group_votes (Some \<circ> vote_second) votes))))"

definition short_interval :: "FraudDetector \<Rightarrow> VoteRecord \<times> VoteRecord \<Rightarrow> FraudFinding list" where
  "short_interval d = (\<lambda>(a, b).
     let time_diff = saturating_sub (vrc_timestamp b) (vrc_timestamp a) in
     if time_diff < fd_min_vote_interval d then
       [\<lparr>ff_finding_type = TimestampManipulation, ff_risk_level = RiskMedium,
         ff_description = ''Suspiciously short interval between votes: '' @ show_nat (unat time_diff) @ '' ms'',
         ff_affected_votes = [vrc_tx_id a, vrc_tx_id b],
         ff_evidence = SuspiciousTimestamp (vrc_tx_id a) (vrc_tx_id b) time_diff\<rparr>]
     else [])"

definition block_time :: "VoteRecord \<Rightarrow> FraudFinding list" where
  "block_time vote =
     (if 0 < vrc_block_height vote \<and>
        (vrc_timestamp vote < vrc_block_height vote * 10000 \<or> (vrc_block_height vote + 1) * 10000 < vrc_timestamp vote)
      then [\<lparr>ff_finding_type = TimestampManipulation, ff_risk_level = RiskMedium,
              ff_description = ''Timestamp '' @ show_nat (unat (vrc_timestamp vote)) @ '' inconsistent with block height '' @
                show_nat (unat (vrc_block_height vote)),
              ff_affected_votes = [vrc_tx_id vote],
              ff_evidence = BlockTimestampMismatch (vrc_tx_id vote) (vrc_timestamp vote) (vrc_block_height vote)\<rparr>]
      else [])"

definition detect_timestamp_manipulation :: "FraudDetector \<Rightarrow> VoteRecord list \<Rightarrow> FraudFinding list outcome" where
  "detect_timestamp_manipulation d votes =
     (let sorted_votes = sort_key vrc_timestamp votes
      in Ok (concat (map (short_interval d) (windows2 sorted_votes)) @ concat (map block_time votes)))"

definition haversine_distance :: "'x float_functions_scheme \<Rightarrow> f64 \<times> f64 \<Rightarrow> f64 \<times> f64 \<Rightarrow> f64" where
  "haversine_distance F coord1 coord2 =
     (let earth_radius_km = f64_lit 6371;
          lat1_rad = ff_to_radians F (fst coord1);
          lat2_rad = ff_to_radians F (fst coord2);
          delta_lat = ff_to_radians F (f64_sub (fst coord2) (fst coord1));
          delta_lon = ff_to_radians F (f64_sub (snd coord2) (snd coord1));
          a = f64_add (ff_powi2 F (ff_sin F (f64_div delta_lat (f64_lit 2))))
                (f64_mul (f64_mul (ff_cos F lat1_rad) (ff_cos F lat2_rad)) (ff_powi2 F (ff_sin F (f64_div delta_lon (f64_lit 2)))));
          c = f64_mul (f64_lit 2) (ff_atan2 F (ff_sqrt F a) (ff_sqrt F (f64_sub (f64_lit 1) a)))
      in f64_mul earth_radius_km c)"

definition impossible_travel :: "fraud_floats \<Rightarrow> FraudDetector \<Rightarrow> string \<Rightarrow> VoteRecord \<times> VoteRecord \<Rightarrow> FraudFinding list" where
  "impossible_travel F d voter_hash = (\<lambda>(a, b).
     case (vrc_coordinates a, vrc_coordinates b) of
       (Some coords1, Some coords2) \<Rightarrow>
         (let distance_km = haversine_distance F coords1 coords2;
              time_diff_hours = f64_div (f64_of_nat (unat (vrc_timestamp b - vrc_timestamp a))) (f64_lit 3600000);
              velocity = f64_div distance_km time_diff_hours
          in if f64_lt (Fin 0) time_diff_hours \<and> f64_lt (fd_max_geographic_velocity d) velocity then
               [\<lparr>ff_finding_type = GeographicImpossibility, ff_risk_level = RiskHigh,
                 ff_description = ''Impossible travel: '' @ fx_display F distance_km @ '' km in '' @ show_fixed 2 time_diff_hours @
                   '' hours ('' @ show_fixed 0 velocity @ '' km/h) for voter '' @ voter_hash,
                 ff_affected_votes = [vrc_tx_id a, vrc_tx_id b],
                 ff_evidence = ImpossibleTravel voter_hash distance_km time_diff_hours velocity\<rparr>]
             else [])
     | _ \<Rightarrow> [])"

definition detect_geographic_impossibilities ::
  "fraud_walks \<Rightarrow> fraud_floats \<Rightarrow> FraudDetector \<Rightarrow> VoteRecord list \<Rightarrow> FraudFinding list outcome" where
  "detect_geographic_impossibilities W F d votes =
     Ok (concat (map (\<lambda>(voter_hash, vote_list).
            if 1 < length vote_list
            then concat (map (impossible_travel F d voter_hash) (windows2 (sort_key vrc_timestamp vote_list)))
            else [])
          (walk_groups (fw_travellers W) (group_votes vrc_voter_hash votes))))"

definition f64_sum :: "f64 list \<Rightarrow> f64" where
  "f64_sum xs = fold (\<lambda>x total_so_far. f64_add total_so_far x) xs (Fin 0)"

definition mean_of :: "f64 list \<Rightarrow> f64" where
  "mean_of xs = f64_div (f64_sum xs) (f64_of_nat (length xs))"

definition location_outlier :: "fraud_floats \<Rightarrow> FraudDetector \<Rightarrow> f64 \<Rightarrow> f64 \<Rightarrow> string \<times> VoteRecord list \<Rightarrow> FraudFinding list" where
  "location_outlier F d mean std_dev = (\<lambda>(location, vote_list).
     let count = f64_of_nat (length vote_list);
         z_score = (if f64_lt (Fin 0) std_dev then f64_div (f64_sub count mean) std_dev else Fin 0)
     in if f64_lt (fd_outlier_threshold d) (f64_abs z_score) then
          [\<lparr>ff_finding_type = StatisticalOutlier,
            ff_risk_level = (if f64_lt (f64_lit 4) (f64_abs z_score) then RiskHigh else RiskMedium),
            ff_description = ''Statistical outlier at '' @ location @ '': '' @ fx_display F count @ '' votes (z-score: '' @
              show_fixed 2 z_score @ '')'',
            ff_affected_votes = tx_ids_of vote_list,
            ff_evidence = StatisticalAnomalyEvidence location (f64_to_usize count) z_score mean std_dev\<rparr>]
        else [])"

definition detect_statistical_outliers ::
  "fraud_walks \<Rightarrow> fraud_floats \<Rightarrow> FraudDetector \<Rightarrow> VoteRecord list \<Rightarrow> FraudFinding list outcome" where
  "detect_statistical_outliers W F d votes =
     (let votes_by_location = group_votes vrc_location votes in
      if hm_len votes_by_location < 3 then Ok []
      else
        (let groups = walk_groups (fw_outlier_locations W) votes_by_location;
             counts = map (\<lambda>g. f64_of_nat (length (snd g))) groups;
             mean = mean_of counts;
             variance = mean_of (map (\<lambda>x. ff_powi2 F (f64_sub x mean)) counts);
             std_dev = ff_sqrt F variance
         in Ok (concat (map (location_outlier F d mean std_dev) groups))))"

definition windows :: "nat \<Rightarrow> 'a list \<Rightarrow> 'a list list" where
  "windows n xs = map (\<lambda>i. take n (drop i xs)) [0..<Suc (length xs) - n]"

definition regular_window :: "VoteRecord list \<Rightarrow> bool" where
  "regular_window w =
     (let diffs = map (\<lambda>(a, b). vrc_timestamp b - vrc_timestamp a) (windows2 w);
          avg_diff = f64_div (f64_of_nat (unat (sum_list diffs))) (f64_of_nat (length diffs));
          variance = mean_of (map (\<lambda>x. let diff = f64_sub (f64_of_nat (unat x)) avg_diff in f64_mul diff diff) diffs)
      in f64_lt variance (f64_lit 100) \<and> f64_lt avg_diff (f64_lit 1000))"

definition detect_sequential_patterns :: "VoteRecord list \<Rightarrow> FraudFinding list outcome" where
  "detect_sequential_patterns votes =
     (let sorted_votes = sort_key vrc_timestamp votes;
          (sequential_count, sequential_votes) =
            fold (\<lambda>w (n, ids). if regular_window w then (n + 1, ids @ tx_ids_of w) else (n, ids)) (windows 10 sorted_votes) (0 :: nat, [])
      in Ok (if 5 < sequential_count then
               [\<lparr>ff_finding_type = SequentialPattern, ff_risk_level = RiskMedium,
                 ff_description = ''Detected '' @ show_nat sequential_count @ '' groups of votes with suspiciously regular timing patterns'',
                 ff_affected_votes = sequential_votes, ff_evidence = RegularPattern sequential_count\<rparr>]
             else []))"

definition location_turnout :: "string \<times> VoteRecord list \<Rightarrow> FraudFinding list" where
  "location_turnout = (\<lambda>(location, vote_list).
     case vote_list of
       [] \<Rightarrow> []
     | first_vote # _ \<Rightarrow>
         (case vrc_registered_voters first_vote of
            None \<Rightarrow> []
          | Some registered \<Rightarrow>
              let turnout = f64_div (f64_of_nat (length vote_list)) (f64_of_nat (unat registered));
                  percent = f64_mul turnout (f64_lit 100)
              in if f64_lt (f64_lit 1) turnout then
                   [\<lparr>ff_finding_type = ExcessTurnout, ff_risk_level = RiskHigh,
                     ff_description = ''Turnout exceeds 100% at '' @ location @ '': '' @ show_nat (length vote_list) @ '' votes with '' @
                       show_nat (unat registered) @ '' registered ('' @ show_fixed 1 percent @ ''%)'',
                     ff_affected_votes = tx_ids_of vote_list,
                     ff_evidence = ExcessiveTurnout location (length vote_list) registered percent\<rparr>]
                 else if f64_lt (f64_lit (95 / 100)) turnout then
                   [\<lparr>ff_finding_type = UnusuallyHighTurnout, ff_risk_level = RiskLow,
                     ff_description = ''Unusually high turnout at '' @ location @ '': '' @ show_fixed 1 percent @ ''%'',
                     ff_affected_votes = [], ff_evidence = HighTurnout location percent\<rparr>]
                 else []))"

definition detect_turnout_anomalies :: "fraud_walks \<Rightarrow> VoteRecord list \<Rightarrow> FraudFinding list outcome" where
  "detect_turnout_anomalies W votes =
     Ok (concat (map location_turnout (walk_groups (fw_turnout_locations W) (group_votes vrc_location votes))))"

section \<open>The report\<close>

definition with_risk :: "RiskLevel \<Rightarrow> FraudFinding list \<Rightarrow> nat" where
  "with_risk level findings = length (filter (\<lambda>f. ff_risk_level f = level) findings)"

definition overall_risk :: "nat \<Rightarrow> nat \<Rightarrow> nat \<Rightarrow> RiskLevel" where
  "overall_risk high_risk medium_risk low_risk =
     (if 0 < high_risk then RiskHigh else if 5 < medium_risk then RiskHigh else if 0 < medium_risk then RiskMedium
      else if 10 < low_risk then RiskMedium else RiskLow)"

definition detect_fraud :: "fraud_walks \<Rightarrow> fraud_floats \<Rightarrow> u64 \<Rightarrow> FraudDetector \<Rightarrow> VoteRecord list \<Rightarrow> FraudReport outcome" where
  "detect_fraud W F now d votes =
     (if votes = [] then Err (InsufficientData ''No votes provided for fraud detection'')
      else
        rbind (detect_duplicates W d votes) (\<lambda>f1.
        rbind (detect_vote_stuffing W d votes) (\<lambda>f2.
        rbind (detect_timestamp_manipulation d votes) (\<lambda>f3.
        rbind (detect_geographic_impossibilities W F d votes) (\<lambda>f4.
        rbind (detect_statistical_outliers W F d votes) (\<lambda>f5.
        rbind (detect_sequential_patterns votes) (\<lambda>f6.
        rbind (detect_turnout_anomalies W votes) (\<lambda>f7.
          let findings = f1 @ f2 @ f3 @ f4 @ f5 @ f6 @ f7;
              high_risk = with_risk RiskHigh findings;
              medium_risk = with_risk RiskMedium findings;
              low_risk = with_risk RiskLow findings
          in Ok \<lparr>frp_total_votes = length votes, frp_findings = findings, frp_high_risk_count = high_risk,
                 frp_medium_risk_count = medium_risk, frp_low_risk_count = low_risk,
                 frp_overall_risk = overall_risk high_risk medium_risk low_risk, frp_timestamp = now\<rparr>))))))))"

section \<open>Groups\<close>

definition group_of :: "('v \<Rightarrow> 'k option) \<Rightarrow> 'k \<Rightarrow> 'v list \<Rightarrow> 'v list" where
  "group_of key k votes = filter (\<lambda>v. key v = Some k) votes"

lemma fold_push_group:
  "fmlookup (fold (push_group key) votes m) k =
     (if group_of key k votes = [] then fmlookup m k
      else Some ((case fmlookup m k of Some vs \<Rightarrow> vs | None \<Rightarrow> []) @ group_of key k votes))"
proof (induction votes arbitrary: m)
  case (Cons v votes)
  have "fmlookup (push_group key v m) k =
      (if key v = Some k then Some ((case fmlookup m k of Some vs \<Rightarrow> vs | None \<Rightarrow> []) @ [v]) else fmlookup m k)"
    by (auto simp: push_group_def split: option.split)
  then show ?case by (simp add: Cons.IH group_of_def)
qed (simp add: group_of_def)

lemma group_votes_lookup:
  "fmlookup (group_votes key votes) k = (if group_of key k votes = [] then None else Some (group_of key k votes))"
  by (simp add: group_votes_def fold_push_group)

lemma set_walk_groups:
  assumes "walks iteration"
  shows "set (walk_groups iteration (group_votes key votes)) = {(k, group_of key k votes) | k. group_of key k votes \<noteq> []}"
proof -
  have "set (iteration (group_votes key votes)) = {k. group_of key k votes \<noteq> []}"
    using assms by (auto simp: walks_def fmlookup_dom_iff group_votes_lookup split: if_splits)
  then show ?thesis by (auto simp: walk_groups_def group_votes_lookup image_iff)
qed

text \<open>A loop over the groups finds what it finds in some group, whatever the order.\<close>

lemma set_check_groups:
  assumes "walks iteration"
  shows "set (concat (map check (walk_groups iteration (group_votes key votes)))) =
         (\<Union>k \<in> {k. group_of key k votes \<noteq> []}. set (check (k, group_of key k votes)))"
  by (auto simp: set_walk_groups [OF assms])

lemma check_groups_Nil:
  assumes "walks iteration"
  shows "concat (map check (walk_groups iteration (group_votes key votes))) = [] \<longleftrightarrow>
         (\<forall>k. group_of key k votes \<noteq> [] \<longrightarrow> check (k, group_of key k votes) = [])"
  using set_check_groups [OF assms, of check key votes] by (auto simp flip: set_empty)

lemma mset_check_groups:
  assumes "walks iteration" and "walks iteration'"
  shows "mset (concat (map check (walk_groups iteration m))) = mset (concat (map check (walk_groups iteration' m)))"
proof -
  have "mset (iteration m) = mset (iteration' m)"
    using assms by (intro set_eq_iff_mset_eq_distinct [THEN iffD1]) (auto simp: walks_def)
  then have "mset (walk_groups iteration m) = mset (walk_groups iteration' m)" by (simp add: walk_groups_def)
  then show ?thesis by (simp add: mset_concat flip: sum_mset_sum_list)
qed

section \<open>What the checks find\<close>

text \<open>The repeated votes of the list, in order: those whose voter has voted before.\<close>

fun repeats :: "string set \<Rightarrow> VoteRecord list \<Rightarrow> (VoteRecord \<times> string) list" where
  "repeats seen [] = []"
| "repeats seen (v # vs) =
     (case vrc_voter_hash v of
        None \<Rightarrow> repeats seen vs
      | Some h \<Rightarrow> (if h \<in> seen then [(v, h)] else []) @ repeats (insert h seen) vs)"

lemma duplicate_rounds:
  "snd (fold duplicate_round votes (seen, findings)) = findings @ map (\<lambda>(v, h). duplicate_finding v h) (repeats (fset seen) votes)"
  by (induction votes arbitrary: seen findings) (simp_all add: duplicate_round_def split: option.split)

text \<open>A voter with \<open>n\<close> votes has \<open>n - 1\<close> repeated ones.\<close>

lemma length_repeats:
  "length (filter (\<lambda>r. snd r = h) (repeats seen votes)) =
     length (group_of vrc_voter_hash h votes) - (if h \<in> seen then 0 else 1)"
proof (induction votes arbitrary: seen)
  case (Cons v votes)
  have "Suc (length (group_of vrc_voter_hash h votes) - 1) = length (group_of vrc_voter_hash h votes)"
    if "group_of vrc_voter_hash h votes \<noteq> []" using that by simp
  then show ?case by (auto simp: Cons.IH group_of_def split: option.split)
qed (simp add: group_of_def)

lemma repeats_None_iff: "repeats {} votes = [] \<longleftrightarrow> (\<forall>h. length (group_of vrc_voter_hash h votes) \<le> 1)"
proof -
  have "repeats {} votes = [] \<longleftrightarrow> (\<forall>h. filter (\<lambda>r. snd r = h) (repeats {} votes) = [])"
    using list.set_sel(1) by (fastforce simp: filter_empty_conv)
  also have "\<dots> \<longleftrightarrow> (\<forall>h. length (filter (\<lambda>r. snd r = h) (repeats {} votes)) = 0)" by simp
  also have "\<dots> \<longleftrightarrow> (\<forall>h. length (group_of vrc_voter_hash h votes) \<le> 1)" unfolding length_repeats by auto
  finally show ?thesis .
qed

text \<open>Comparing a quotient of counts with 1 in binary64 is exact below \<open>2 ^ 53\<close>.\<close>

lemma f64_ratio_gt_one:
  assumes "0 < n" and "n + 1 < 2 ^ 53" and "m < 2 ^ 53"
  shows "f64_lt (f64_lit 1) (f64_div (f64_of_nat m) (f64_of_nat n)) \<longleftrightarrow> n < m"
proof -
  have one: "f64_lit 1 = Fin 1" using f64_of_nat_exact [of 1] by (simp add: f64_lit_def f64_of_nat_def)
  have quotient: "f64_div (f64_of_nat m) (f64_of_nat n) = round64 (of_nat m / of_nat n)"
    using assms f64_of_nat_exact [of m] f64_of_nat_exact [of n] by simp
  show ?thesis
  proof (cases "n < m")
    case True
    let ?x = "of_nat m / of_nat n :: rat"
    have x: "1 + 1 / of_nat n \<le> ?x" using True assms(1) by (simp add: field_simps flip: of_nat_Suc)
    then have "1 \<le> ?x" using assms(1) order_trans [of 1 "1 + 1 / of_nat n :: rat" ?x] by simp
    moreover have "pow2 (- 1022) \<le> pow2 0" by (rule pow2_mono) simp
    ultimately have "pow2 (- 1022) \<le> \<bar>?x\<bar>" by (simp add: pow2_def [of 0])
    from round_rat_relative [OF this] \<open>1 \<le> ?x\<close> have "?x * (1 - 1 / 2 ^ 53) \<le> round_rat ?x"
      using relative_error_bounds [of "round_rat ?x" ?x] by simp
    moreover have "1 < (1 + 1 / of_nat n) * (1 - 1 / 2 ^ 53 :: rat)"
    proof -
      have "of_nat (n + 1) < (2 ^ 53 :: rat)" using assms(2) by (metis of_nat_less_iff of_nat_numeral of_nat_power)
      then show ?thesis using assms(1) by (simp add: field_simps)
    qed
    moreover have "(1 + 1 / of_nat n) * (1 - 1 / 2 ^ 53) \<le> ?x * (1 - 1 / 2 ^ 53)" using x by (intro mult_right_mono) simp_all
    ultimately have "1 < round_rat ?x" by linarith
    then show ?thesis using True by (simp add: one quotient round64_def Let_def)
  next
    case False
    then have "round_rat (of_nat m / of_nat n) \<le> 1" using round_rat_le_int [of "of_nat m / of_nat n" 1] assms(1) by simp
    moreover have "pow2 0 < pow2 1024" by (rule pow2_less) simp
    ultimately show ?thesis using False by (simp add: one quotient round64_def Let_def pow2_def [of 0])
  qed
qed

text \<open>Votes that are pairwise apart: no interval of the given length holds two.\<close>

lemma sorted_apart:
  assumes "\<forall>(a, b) \<in> set (windows2 ys). f a + d \<le> f b"
  shows "sorted_wrt (\<lambda>a b. f a + d \<le> (f b :: nat)) ys"
  using assms
proof (induction ys rule: induct_list012)
  case (3 x y zs)
  then have "sorted_wrt (\<lambda>a b. f a + d \<le> f b) (y # zs)" and "f x + d \<le> f y" by (auto simp: windows2_def)
  then show ?case by fastforce
qed (simp_all add: windows2_def)

lemma sorted_wrt_none: "sorted_wrt R xs \<Longrightarrow> (\<And>x y. x \<in> set xs \<Longrightarrow> y \<in> set xs \<Longrightarrow> \<not> R x y) \<Longrightarrow> length xs \<le> 1"
  by (cases xs rule: remdups_adj.cases) auto

lemma apart_window:
  assumes "\<forall>(a, b) \<in> set (windows2 (sort_key g votes)). f a + d \<le> (f b :: nat)"
  shows "length (filter (\<lambda>v. t \<le> f v \<and> f v < t + d) votes) \<le> 1"
proof -
  let ?P = "\<lambda>v. t \<le> f v \<and> f v < t + d"
  have "sorted_wrt (\<lambda>a b. f a + d \<le> f b) (filter ?P (sort_key g votes))"
    by (rule sorted_wrt_filter [OF sorted_apart [OF assms]])
  moreover have "\<forall>v \<in> set (filter ?P (sort_key g votes)). ?P v" by simp
  ultimately have "length (filter ?P (sort_key g votes)) \<le> 1"
    by (elim sorted_wrt_none) (meson add_le_cancel_right leD le_trans)
  moreover have "mset (filter ?P (sort_key g votes)) = mset (filter ?P votes)" by (simp add: mset_filter)
  ultimately show ?thesis by (metis mset_eq_length)
qed

text \<open>With fewer than three locations no outlier is ever reported, whatever the counts are.\<close>

lemma two_locations_no_outlier:
  assumes "vrc_location ` set votes \<subseteq> {Some a, Some b, None}"
  shows "detect_statistical_outliers W F d votes = Ok []"
proof -
  have "fmdom (group_votes vrc_location votes) |\<subseteq>| {|a, b|}"
    using assms by (fastforce simp: fmlookup_dom_iff group_votes_lookup group_of_def filter_empty_conv image_subset_iff split: if_splits)
  then have "hm_len (group_votes vrc_location votes) \<le> fcard {|a, b|}" unfolding hm_len_def by (rule fcard_mono)
  also have "\<dots> < 3" by (cases "a = b") (simp_all add: fcard_finsert_if fcard_fempty)
  finally show ?thesis by (simp add: detect_statistical_outliers_def Let_def)
qed

section \<open>The verdict\<close>

lemma clean_findings:
  assumes "detect_fraud W F now d votes = Ok r" and "frp_overall_risk r = RiskLow"
  shows "\<forall>f \<in> set (frp_findings r). ff_risk_level f = RiskLow"
proof -
  have "with_risk RiskHigh (frp_findings r) = 0 \<and> with_risk RiskMedium (frp_findings r) = 0"
    using assms by (auto simp: detect_fraud_def outcome_simps Let_def overall_risk_def split: if_splits)
  then have "\<forall>f \<in> set (frp_findings r). ff_risk_level f \<noteq> RiskHigh \<and> ff_risk_level f \<noteq> RiskMedium"
    by (simp add: with_risk_def filter_empty_conv)
  then show ?thesis by (metis RiskLevel.exhaust)
qed

lemma findings_include:
  assumes "detect_fraud W F now d votes = Ok r"
  shows "set (frp_findings r) \<supseteq>
      (\<lambda>(v, h). duplicate_finding v h) ` set (repeats {} votes) \<union>
      set (concat (map (stuffed_second d) (walk_groups (fw_seconds W) (group_votes (Some \<circ> vote_second) votes)))) \<union>
      set (concat (map (short_interval d) (windows2 (sort_key vrc_timestamp votes)))) \<union> set (concat (map block_time votes)) \<union>
      set (concat (map location_turnout (walk_groups (fw_turnout_locations W) (group_votes vrc_location votes))))"
  using assms
  by (auto simp: detect_fraud_def outcome_simps Let_def duplicate_rounds detect_duplicates_def detect_vote_stuffing_def
      detect_timestamp_manipulation_def detect_turnout_anomalies_def split: if_splits)

text \<open>What the absence of a finding of more than low risk says, check by check.\<close>

lemma no_finding:
  "\<forall>f \<in> A. ff_risk_level f = RiskLow \<Longrightarrow> set fs \<subseteq> A \<Longrightarrow> \<forall>f \<in> set fs. ff_risk_level f \<noteq> RiskLow \<Longrightarrow> fs = []"
  by (cases fs) auto

lemma clean_checks:
  assumes "fair_walks W" and "detect_fraud W F now d votes = Ok r" and "frp_overall_risk r = RiskLow"
  shows "repeats {} votes = []"
    and "group_of (Some \<circ> vote_second) s votes \<noteq> [] \<Longrightarrow> stuffed_second d (s, group_of (Some \<circ> vote_second) s votes) = []"
    and "w \<in> set (windows2 (sort_key vrc_timestamp votes)) \<Longrightarrow> short_interval d w = []"
    and "v \<in> set votes \<Longrightarrow> block_time v = []"
    and "group_of vrc_location l votes \<noteq> [] \<Longrightarrow> f \<in> set (location_turnout (l, group_of vrc_location l votes)) \<Longrightarrow> ff_risk_level f = RiskLow"
proof -
  note none = no_finding [OF clean_findings [OF assms(2,3)]] and found = findings_include [OF assms(2)]
  have fair: "walks (fw_seconds W)" "walks (fw_turnout_locations W)" using assms(1) by (simp_all add: fair_walks_def)
  have "map (\<lambda>(v, h). duplicate_finding v h) (repeats {} votes) = []"
    by (rule none) (use found in \<open>auto simp: duplicate_finding_def\<close>)
  then show "repeats {} votes = []" by simp
  show "stuffed_second d (s, group_of (Some \<circ> vote_second) s votes) = []" if "group_of (Some \<circ> vote_second) s votes \<noteq> []"
  proof (rule none)
    show "set (stuffed_second d (s, group_of (Some \<circ> vote_second) s votes)) \<subseteq> set (frp_findings r)"
      using found that unfolding set_check_groups [OF fair(1)] by blast
  qed (auto simp: stuffed_second_def split: if_splits)
  show "short_interval d w = []" if "w \<in> set (windows2 (sort_key vrc_timestamp votes))"
  proof (rule none)
    show "set (short_interval d w) \<subseteq> set (frp_findings r)" using found that by auto
  qed (auto simp: short_interval_def Let_def split: prod.splits if_splits)
  show "block_time v = []" if "v \<in> set votes"
  proof (rule none)
    show "set (block_time v) \<subseteq> set (frp_findings r)" using found that by auto
  qed (auto simp: block_time_def split: if_splits)
  show "ff_risk_level f = RiskLow"
    if "group_of vrc_location l votes \<noteq> []" "f \<in> set (location_turnout (l, group_of vrc_location l votes))"
    using found that clean_findings [OF assms(2,3)] unfolding set_check_groups [OF fair(2)] by blast
qed

lemma excess_turnout_flagged:
  assumes "group_of vrc_location l votes = v # vs" and "vrc_registered_voters v = Some n"
    and "unat n + 1 < 2 ^ 53" and "length votes < 2 ^ 53" and "unat n < Suc (length vs)"
  shows "\<exists>f \<in> set (location_turnout (l, v # vs)). ff_risk_level f = RiskHigh"
proof -
  have "length (v # vs) \<le> length votes" unfolding assms(1) [symmetric] group_of_def by (rule length_filter_le)
  then have small: "Suc (length vs) < 2 ^ 53" using assms(4) by simp
  have "f64_lt (f64_lit 1) (f64_div (f64_of_nat (Suc (length vs))) (f64_of_nat (unat n)))"
  proof (cases "unat n = 0")
    case True
    then show ?thesis
      using small f64_of_nat_exact [of "Suc (length vs)"] f64_of_nat_exact [of 0] f64_of_nat_exact [of 1]
      by (simp add: f64_lit_def f64_of_nat_def signed_inf_def)
  next
    case False
    then show ?thesis using f64_ratio_gt_one [of "unat n"] assms(3,5) small by simp
  qed
  then show ?thesis using assms(2) by (simp add: location_turnout_def Let_def)
qed

text \<open>
  a clean report means a clean list. If the overall risk is low, then no voter hash occurs twice, no second has more than the
  allowed votes, no interval as long as the smallest allowed distance holds two votes, every vote in a block has a time that
  fits its height, and no location has more votes than its first vote says are registered there, although the turnout is
  compared in binary64.
\<close>

theorem fraud_report_clean:
  assumes "fair_walks W" and "length votes < 2 ^ 53" and "\<forall>v \<in> set votes. \<forall>n. vrc_registered_voters v = Some n \<longrightarrow> unat n + 1 < 2 ^ 53"
    and "detect_fraud W F now d votes = Ok r" and "frp_overall_risk r = RiskLow"
  shows "(\<forall>h. length (filter (\<lambda>v. vrc_voter_hash v = Some h) votes) \<le> 1) \<and>
    (\<forall>s. length (filter (\<lambda>v. vrc_timestamp v div 1000 = s) votes) \<le> unat (fd_max_votes_per_second d)) \<and>
    (\<forall>t. length (filter (\<lambda>v. t \<le> unat (vrc_timestamp v) \<and> unat (vrc_timestamp v) < t + unat (fd_min_vote_interval d)) votes) \<le> 1) \<and>
    (\<forall>v \<in> set votes. vrc_block_height v = 0 \<or>
       vrc_block_height v * 10000 \<le> vrc_timestamp v \<and> vrc_timestamp v \<le> (vrc_block_height v + 1) * 10000) \<and>
    (\<forall>l v vs n. filter (\<lambda>v. vrc_location v = Some l) votes = v # vs \<longrightarrow> vrc_registered_voters v = Some n \<longrightarrow>
       length (v # vs) \<le> unat n)"
proof (intro conjI allI ballI impI)
  note clean = clean_checks [OF assms(1,4,5)]
  show "length (filter (\<lambda>v. vrc_voter_hash v = Some h) votes) \<le> 1" for h
    using clean(1) by (simp add: repeats_None_iff group_of_def)
  show "length (filter (\<lambda>v. vrc_timestamp v div 1000 = s) votes) \<le> unat (fd_max_votes_per_second d)" for s
  proof (cases "group_of (Some \<circ> vote_second) s votes = []")
    case False
    have "length (group_of (Some \<circ> vote_second) s votes) < 2 ^ 64"
      unfolding group_of_def by (rule le_less_trans [OF length_filter_le]) (use assms(2) in simp)
    then have "unat (of_nat (length (group_of (Some \<circ> vote_second) s votes)) :: u64) = length (group_of (Some \<circ> vote_second) s votes)"
      by (simp add: unat_of_nat)
    moreover have "\<not> fd_max_votes_per_second d < of_nat (length (group_of (Some \<circ> vote_second) s votes))"
      using clean(2) [OF False] by (auto simp: stuffed_second_def split: if_splits)
    ultimately show ?thesis by (simp add: word_less_nat_alt group_of_def vote_second_def not_less)
  qed (simp add: group_of_def vote_second_def)
  have "unat (vrc_timestamp a) + unat (fd_min_vote_interval d) \<le> unat (vrc_timestamp b)"
    if "(a, b) \<in> set (windows2 (sort_key vrc_timestamp votes))" for a b
  proof -
    have "vrc_timestamp a \<le> vrc_timestamp b"
      using windows2_sorted [of vrc_timestamp "sort_key vrc_timestamp votes"] that by (auto simp: list_all_iff)
    with clean(3) [OF that] show ?thesis
      by (simp add: short_interval_def Let_def word_less_nat_alt word_le_nat_alt unat_saturating_sub split: if_splits)
  qed
  then show "length (filter (\<lambda>v. t \<le> unat (vrc_timestamp v) \<and> unat (vrc_timestamp v) < t + unat (fd_min_vote_interval d)) votes) \<le> 1" for t
    by (intro apart_window [of vrc_timestamp]) blast
  show "vrc_block_height v = 0 \<or> vrc_block_height v * 10000 \<le> vrc_timestamp v \<and> vrc_timestamp v \<le> (vrc_block_height v + 1) * 10000"
    if "v \<in> set votes" for v
    using clean(4) [OF that] by (auto simp: block_time_def word_gt_0 not_le split: if_splits)
  show "length (v # vs) \<le> unat n"
    if g: "filter (\<lambda>v. vrc_location v = Some l) votes = v # vs" "vrc_registered_voters v = Some n" for l v vs n
  proof (rule ccontr)
    have group: "group_of vrc_location l votes = v # vs" using g(1) by (simp add: group_of_def)
    have "v \<in> set votes" using g(1) by (metis filter_is_subset list.set_intros(1) subset_code(1))
    moreover assume "\<not> length (v # vs) \<le> unat n"
    ultimately obtain f where "f \<in> set (location_turnout (l, v # vs))" "ff_risk_level f = RiskHigh"
      using excess_turnout_flagged [OF group g(2)] assms(2,3) g(2) by auto
    with clean(5) [of l] group show False by force
  qed
qed

definition sample_fraud_walks :: fraud_walks where
  "sample_fraud_walks =
     \<lparr>fw_voters = (\<lambda>m. sorted_list_of_set (fset (fmdom m))), fw_seconds = (\<lambda>m. sorted_list_of_set (fset (fmdom m))),
      fw_travellers = (\<lambda>m. sorted_list_of_set (fset (fmdom m))), fw_outlier_locations = (\<lambda>m. sorted_list_of_set (fset (fmdom m))),
      fw_turnout_locations = (\<lambda>m. sorted_list_of_set (fset (fmdom m)))\<rparr>"

lemma sample_fraud_walks_fair: "fair_walks sample_fraud_walks"
  by (simp add: fair_walks_def sample_fraud_walks_def walks_def)

definition sample_fraud_floats :: fraud_floats where
  "sample_fraud_floats =
     \<lparr>ff_to_radians = id, ff_sin = id, ff_cos = id, ff_sqrt = id, ff_atan2 = (\<lambda>y x. y), ff_powi2 = (\<lambda>x. f64_mul x x), fx_display = show_fixed 0\<rparr>"

definition sample_vote :: "string \<Rightarrow> u64 \<Rightarrow> VoteRecord" where
  "sample_vote h t =
     \<lparr>vrc_tx_id = h, vrc_timestamp = t, vrc_block_height = 0, vrc_voter_hash = Some h, vrc_location = None, vrc_coordinates = None,
      vrc_registered_voters = None\<rparr>"

theorem fraud_report_clean_witness:
  "\<exists>r. detect_fraud sample_fraud_walks sample_fraud_floats 7 FraudDetector_new [sample_vote ''a'' 0, sample_vote ''b'' 20] = Ok r \<and>
     frp_overall_risk r = RiskLow \<and>
     length (filter (\<lambda>v. vrc_voter_hash v = Some ''a'') [sample_vote ''a'' 0, sample_vote ''b'' 20]) \<le> 1"
proof -
  let ?votes = "[sample_vote ''a'' 0, sample_vote ''b'' 20]"
  have fair: "walks (fw_voters sample_fraud_walks)" "walks (fw_seconds sample_fraud_walks)" "walks (fw_travellers sample_fraud_walks)"
      "walks (fw_turnout_locations sample_fraud_walks)" using sample_fraud_walks_fair by (simp_all add: fair_walks_def)
  note defs = FraudDetector_new_def sample_vote_def group_of_def
  have "repeats {} ?votes = []" by (simp add: sample_vote_def)
  moreover have "concat (map multiple_votes (walk_groups (fw_voters sample_fraud_walks) (group_votes vrc_voter_hash ?votes))) = []"
    unfolding check_groups_Nil [OF fair(1)] by (simp add: multiple_votes_def defs)
  ultimately have "detect_duplicates sample_fraud_walks FraudDetector_new ?votes = Ok []"
    by (simp only: detect_duplicates_def duplicate_rounds Let_def bot_fset.rep_eq list.map append_Nil if_cancel)
  moreover have "detect_vote_stuffing sample_fraud_walks FraudDetector_new ?votes = Ok []"
    unfolding detect_vote_stuffing_def result.inject check_groups_Nil [OF fair(2)] by (simp add: stuffed_second_def defs)
  moreover have "detect_timestamp_manipulation FraudDetector_new ?votes = Ok []"
    by (simp add: detect_timestamp_manipulation_def windows2_def short_interval_def block_time_def saturating_sub_def defs)
  moreover have "detect_geographic_impossibilities sample_fraud_walks sample_fraud_floats FraudDetector_new ?votes = Ok []"
    unfolding detect_geographic_impossibilities_def result.inject check_groups_Nil [OF fair(3)] by (simp add: defs)
  moreover have "detect_statistical_outliers sample_fraud_walks sample_fraud_floats FraudDetector_new ?votes = Ok []"
    by (rule two_locations_no_outlier [of _ "[]" "[]"]) (simp add: sample_vote_def)
  moreover have "detect_sequential_patterns ?votes = Ok []"
    by (simp add: detect_sequential_patterns_def windows_def)
  moreover have "detect_turnout_anomalies sample_fraud_walks ?votes = Ok []"
    unfolding detect_turnout_anomalies_def result.inject check_groups_Nil [OF fair(4)] by (simp add: defs)
  ultimately obtain r where "detect_fraud sample_fraud_walks sample_fraud_floats 7 FraudDetector_new ?votes = Ok r" "frp_overall_risk r = RiskLow"
    by (simp add: detect_fraud_def overall_risk_def with_risk_def)
  with fraud_report_clean [OF sample_fraud_walks_fair _ _ this] show ?thesis by (auto simp: sample_vote_def)
qed

section \<open>What the checks miss and invent\<close>

text \<open>
  Heights are compared with absolute times: a block is expected within ten seconds of ten seconds times its height after 1970. A vote
  of the year 2020 or later in one of the first hundred million blocks is reported, and six such votes make the risk high.
\<close>

lemma present_vote_flagged:
  assumes "0 < vrc_block_height v" and "vrc_block_height v \<le> 100000000" and "1577836800000 \<le> vrc_timestamp v"
  shows "length (block_time v) = 1"
proof -
  have "unat ((vrc_block_height v + 1) * 10000) = (unat (vrc_block_height v) + 1) * 10000"
    using assms(2) by (simp add: word_le_nat_alt unat_word_ariths)
  then have "(vrc_block_height v + 1) * 10000 < vrc_timestamp v"
    using assms(2,3) by (simp add: word_less_nat_alt word_le_nat_alt)
  then show ?thesis using assms(1) by (simp add: block_time_def)
qed

lemma present_votes_high_risk:
  assumes "\<forall>v \<in> set votes. 0 < vrc_block_height v \<and> vrc_block_height v \<le> 100000000 \<and> 1577836800000 \<le> vrc_timestamp v"
    and "5 < length votes" and "detect_fraud W F now d votes = Ok r"
  shows "frp_overall_risk r = RiskHigh"
proof -
  have "with_risk RiskMedium (concat (map block_time vs)) = length vs" if "set vs \<subseteq> set votes" for vs
    using that
  proof (induction vs)
    case (Cons v vs)
    have "length (block_time v) = 1" using Cons.prems assms(1) present_vote_flagged by auto
    then have "with_risk RiskMedium (block_time v) = 1" by (simp add: with_risk_def block_time_def split: if_splits)
    with Cons show ?case by (simp add: with_risk_def)
  qed (simp add: with_risk_def)
  then have "5 < with_risk RiskMedium (concat (map block_time votes))" using assms(2) by simp
  then have "5 < frp_medium_risk_count r"
    using assms(3) by (auto simp: detect_fraud_def detect_timestamp_manipulation_def outcome_simps Let_def with_risk_def split: if_splits)
  then show ?thesis
    using assms(3) by (auto simp: detect_fraud_def outcome_simps Let_def overall_risk_def split: if_splits)
qed

text \<open>Strict checking reports every double vote a second time.\<close>

lemma strict_reports_twice:
  assumes "walks (fw_voters W)" and "1 < length (group_of vrc_voter_hash h votes)" and "fd_strict_duplicate_checking d"
    and "detect_duplicates W d votes = Ok fs"
  shows "(\<exists>f \<in> set fs. ff_finding_type f = DuplicateVote \<and> ff_evidence f = DuplicateHash h) \<and>
         (\<exists>f \<in> set fs. ff_finding_type f = MultipleVotes \<and> ff_affected_votes f = tx_ids_of (group_of vrc_voter_hash h votes))"
proof
  have "filter (\<lambda>r. snd r = h) (repeats {} votes) \<noteq> []"
    using length_repeats [of h "{}" votes] assms(2) by fastforce
  then obtain v where "(v, h) \<in> set (repeats {} votes)" by (auto simp: filter_empty_conv)
  then have "duplicate_finding v h \<in> set fs" using assms(4) by (force simp: detect_duplicates_def duplicate_rounds)
  then show "\<exists>f \<in> set fs. ff_finding_type f = DuplicateVote \<and> ff_evidence f = DuplicateHash h"
    by (rule rev_bexI) (simp add: duplicate_finding_def)
  have "set (multiple_votes (h, group_of vrc_voter_hash h votes)) \<subseteq> set fs"
  proof -
    have "group_of vrc_voter_hash h votes \<noteq> []" using assms(2) by auto
    then have "set (multiple_votes (h, group_of vrc_voter_hash h votes)) \<subseteq>
        set (concat (map multiple_votes (walk_groups (fw_voters W) (group_votes vrc_voter_hash votes))))"
      unfolding set_check_groups [OF assms(1)] by blast
    then show ?thesis using assms(3,4) by (auto simp: detect_duplicates_def simp del: set_concat)
  qed
  then show "\<exists>f \<in> set fs. ff_finding_type f = MultipleVotes \<and> ff_affected_votes f = tx_ids_of (group_of vrc_voter_hash h votes)"
    using assms(2) by (simp add: multiple_votes_def) (erule rev_bexI, simp)
qed

text \<open>Two votes of a voter at the very same time are never impossible travel, however far apart.\<close>

lemma same_time_travel: "vrc_timestamp a = vrc_timestamp b \<Longrightarrow> impossible_travel F d voter_hash (a, b) = []"
proof -
  assume same: "vrc_timestamp a = vrc_timestamp b"
  have zero: "f64_of_nat 0 = Fin 0" "round64 0 = Fin 0" using f64_of_nat_exact [of 0] by (simp_all add: f64_of_nat_def)
  have "f64_div (Fin 0) (f64_lit 3600000) = Fin 0"
    using f64_of_nat_exact [of 3600000] zero by (simp add: f64_lit_def f64_of_nat_def)
  then show ?thesis by (simp add: impossible_travel_def same zero(1) split: option.split)
qed

end
