(* ===== verification/Entropy.thy ===== *)
theory Entropy
  imports Fraud_Detection
begin

text \<open>
  \<open>analytics/src/entropy.rs\<close>: Shannon entropies of values, of vote times, of locations and of sequences, in binary64. The module is not
  declared in \<open>analytics/src/lib.rs\<close>. The binary logarithm and the orders in which hash maps are walked are arguments.
\<close>

section \<open>Results\<close>

record EntropyAnalyzer =
  ena_min_entropy_threshold :: f64

record WindowEntropy =
  wne_window_index :: nat
  wne_start_time :: u64
  wne_end_time :: u64
  wne_vote_count :: u64
  wne_entropy :: f64

record TemporalEntropyResult =
  ter_overall_entropy :: f64
  ter_normalized_entropy :: f64
  ter_window_entropies :: "WindowEntropy list"
  ter_low_entropy_windows :: "nat list"
  ter_is_suspicious :: bool
  ter_interpretation :: string

record LocationEntropy =
  lce_location :: string
  lce_vote_count :: u64
  lce_percentage :: f64

record GeographicEntropyResult =
  ger_total_locations :: nat
  ger_entropy :: f64
  ger_normalized_entropy :: f64
  ger_expected_entropy :: f64
  ger_location_analysis :: "LocationEntropy list"
  ger_is_concentrated :: bool
  ger_concentration_ratio :: f64
  ger_interpretation :: string

record SequenceEntropyResult =
  ser_first_order_entropy :: f64
  ser_second_order_entropy :: f64
  ser_runs_entropy :: f64
  ser_average_entropy :: f64
  ser_is_predictable :: bool
  ser_interpretation :: string

record entropy_env =
  en_log2 :: "f64 \<Rightarrow> f64"
  en_walk :: "(u64, u64) hashmap \<Rightarrow> u64 list"
  en_locations :: "(string, u64) hashmap \<Rightarrow> string list"
  en_pairs :: "(u64 \<times> u64, u64) hashmap \<Rightarrow> (u64 \<times> u64) list"

definition EntropyAnalyzer_new :: EntropyAnalyzer where
  "EntropyAnalyzer_new = \<lparr>ena_min_entropy_threshold = f64_lit (7 / 10)\<rparr>"

definition EntropyAnalyzer_with_threshold :: "f64 \<Rightarrow> EntropyAnalyzer" where
  "EntropyAnalyzer_with_threshold threshold = \<lparr>ena_min_entropy_threshold = threshold\<rparr>"

definition set_entropy_threshold :: "f64 \<Rightarrow> EntropyAnalyzer \<Rightarrow> EntropyAnalyzer" where
  "set_entropy_threshold threshold a = a\<lparr>ena_min_entropy_threshold := threshold\<rparr>"

section \<open>Entropies\<close>

text \<open>\<open>*map.entry(value).or_insert(0) += 1\<close> for every value.\<close>

definition count_value :: "'k \<Rightarrow> ('k, u64) hashmap \<Rightarrow> ('k, u64) hashmap" where
  "count_value v m = fmupd v ((case fmlookup m v of Some n \<Rightarrow> n | None \<Rightarrow> 0) + 1) m"

definition build_frequency_map :: "'k list \<Rightarrow> ('k, u64) hashmap" where
  "build_frequency_map values = fold count_value values fmempty"

definition counts_of :: "(('k, u64) hashmap \<Rightarrow> 'k list) \<Rightarrow> ('k, u64) hashmap \<Rightarrow> u64 list" where
  "counts_of iteration m = map (\<lambda>k. the (fmlookup m k)) (iteration m)"

text \<open>\<open>entropy -= p * p.log2()\<close> over the counts.\<close>

definition entropy_of :: "(f64 \<Rightarrow> f64) \<Rightarrow> f64 \<Rightarrow> u64 list \<Rightarrow> f64" where
  "entropy_of log2 n counts =
     fold (\<lambda>count entropy.
        let probability = f64_div (f64_of_nat (unat count)) n
        in if f64_lt (Fin 0) probability then f64_sub entropy (f64_mul probability (log2 probability)) else entropy)
       counts (Fin 0)"

definition calculate_shannon_entropy :: "entropy_env \<Rightarrow> u64 list \<Rightarrow> f64 outcome" where
  "calculate_shannon_entropy N values =
     (if values = [] then Err (InsufficientData ''No values provided for entropy calculation'')
      else Ok (entropy_of (en_log2 N) (f64_of_nat (length values)) (counts_of (en_walk N) (build_frequency_map values))))"

definition calculate_normalized_entropy :: "entropy_env \<Rightarrow> u64 list \<Rightarrow> f64 outcome" where
  "calculate_normalized_entropy N values =
     (if values = [] then Err (InsufficientData ''No values provided'')
      else rbind (calculate_shannon_entropy N values) (\<lambda>shannon_entropy.
        let unique_values = f64_of_nat (hm_len (build_frequency_map values)) in
        if f64_le unique_values (f64_lit 1) then Ok (Fin 0)
        else Ok (f64_div shannon_entropy (en_log2 N unique_values))))"

section \<open>Times\<close>

definition window_index :: "u64 \<Rightarrow> u64 \<Rightarrow> u64 \<Rightarrow> u64 \<Rightarrow> nat" where
  "window_index min_time window_size num_windows timestamp = unat (min ((timestamp - min_time) div window_size) (num_windows - 1))"

definition count_windows :: "u64 \<Rightarrow> u64 \<Rightarrow> u64 \<Rightarrow> u64 list \<Rightarrow> u64 list" where
  "count_windows min_time window_size num_windows timestamps =
     fold (\<lambda>timestamp counts. let i = window_index min_time window_size num_windows timestamp in counts[i := counts ! i + 1])
       timestamps (replicate (unat num_windows) 0)"

definition window_entropy :: "entropy_env \<Rightarrow> u64 \<Rightarrow> u64 \<Rightarrow> u64 list \<Rightarrow> nat \<times> u64 \<Rightarrow> WindowEntropy list" where
  "window_entropy N min_time window_size timestamps = (\<lambda>(i, count).
     let start_time = min_time + of_nat i * window_size;
         end_time = start_time + window_size;
         votes_in_window = filter (\<lambda>t. start_time \<le> t \<and> t < end_time) timestamps
     in if 0 < count \<and> 2 \<le> length votes_in_window then
          [\<lparr>wne_window_index = i, wne_start_time = start_time, wne_end_time = end_time, wne_vote_count = count,
            wne_entropy = (case calculate_normalized_entropy N votes_in_window of Ok e \<Rightarrow> e | _ \<Rightarrow> Fin 0)\<rparr>]
        else [])"

definition analyze_temporal_entropy :: "entropy_env \<Rightarrow> EntropyAnalyzer \<Rightarrow> u64 list \<Rightarrow> u64 \<Rightarrow> TemporalEntropyResult outcome" where
  "analyze_temporal_entropy N a timestamps window_size =
     (if timestamps = [] then Err (InsufficientData ''No timestamps provided'')
      else
        (let sorted_timestamps = sort timestamps; min_time = hd sorted_timestamps; time_range = last sorted_timestamps - min_time in
         if time_range = 0 then
           Ok \<lparr>ter_overall_entropy = Fin 0, ter_normalized_entropy = Fin 0, ter_window_entropies = [], ter_low_entropy_windows = [],
               ter_is_suspicious = True, ter_interpretation = ''All votes at identical timestamp''\<rparr>
         else if window_size = 0 then Panic ''attempt to divide by zero''
         else
           (let num_windows = max (time_range div window_size) 1 in
            if 2 ^ 60 \<le> unat num_windows then Panic ''capacity overflow''
            else
              (let window_counts = count_windows min_time window_size num_windows sorted_timestamps in
               rbind (calculate_shannon_entropy N window_counts) (\<lambda>overall_entropy.
               rbind (calculate_normalized_entropy N window_counts) (\<lambda>normalized_entropy.
                 let window_entropies = concat (map (window_entropy N min_time window_size sorted_timestamps) (enumerate 0 window_counts));
                     low_entropy_windows = map wne_window_index
                       (filter (\<lambda>w. f64_lt (wne_entropy w) (ena_min_entropy_threshold a)) window_entropies);
                     is_suspicious = (f64_lt normalized_entropy (ena_min_entropy_threshold a) \<or> low_entropy_windows \<noteq> [])
                 in Ok \<lparr>ter_overall_entropy = overall_entropy, ter_normalized_entropy = normalized_entropy,
                        ter_window_entropies = window_entropies, ter_low_entropy_windows = low_entropy_windows,
                        ter_is_suspicious = is_suspicious,
                        ter_interpretation =
                          (if is_suspicious
                           then ''Low temporal entropy detected ('' @ show_fixed 3 normalized_entropy @
                             ''). Votes may be clustered or following predictable patterns.''
                           else ''Normal temporal entropy ('' @ show_fixed 3 normalized_entropy @ ''). Vote timing appears random.'')\<rparr>))))))"

section \<open>Locations\<close>

definition location_entry :: "f64 \<Rightarrow> (string, u64) hashmap \<Rightarrow> string \<Rightarrow> LocationEntropy" where
  "location_entry total_votes m location =
     (let count = the (fmlookup m location)
      in \<lparr>lce_location = location, lce_vote_count = count,
          lce_percentage = f64_mul (f64_div (f64_of_nat (unat count)) total_votes) (f64_lit 100)\<rparr>)"

definition analyze_geographic_entropy :: "entropy_env \<Rightarrow> string list \<Rightarrow> GeographicEntropyResult outcome" where
  "analyze_geographic_entropy N locations =
     (if locations = [] then Err (InsufficientData ''No locations provided'')
      else
        (let location_counts = build_frequency_map locations;
             counts = counts_of (en_locations N) location_counts in
         rbind (calculate_shannon_entropy N counts) (\<lambda>entropy.
         rbind (calculate_normalized_entropy N counts) (\<lambda>normalized_entropy.
           let unique_locations = hm_len location_counts;
               location_analysis = sort_key (\<lambda>l. - int (unat (lce_vote_count l)))
                 (map (location_entry (f64_of_nat (length locations)) location_counts) (en_locations N location_counts));
               concentration_ratio =
                 (if 0 < unique_locations then f64_div (lce_percentage (hd location_analysis)) (f64_lit 100) else Fin 0);
               is_concentrated = (f64_lt (f64_lit (1 / 2)) concentration_ratio \<or> f64_lt normalized_entropy (f64_lit (1 / 2)))
           in Ok \<lparr>ger_total_locations = unique_locations, ger_entropy = entropy, ger_normalized_entropy = normalized_entropy,
                  ger_expected_entropy = en_log2 N (f64_of_nat unique_locations), ger_location_analysis = location_analysis,
                  ger_is_concentrated = is_concentrated, ger_concentration_ratio = concentration_ratio,
                  ger_interpretation =
                    (if is_concentrated
                     then ''Geographic concentration detected. Top location has '' @ show_fixed 1 (lce_percentage (hd location_analysis)) @
                       ''% of votes (entropy: '' @ show_fixed 3 normalized_entropy @ '').''
                     else ''Votes well distributed across '' @ show_nat unique_locations @ '' locations (entropy: '' @
                       show_fixed 3 normalized_entropy @ '').'')\<rparr>))))"

section \<open>Sequences\<close>

definition calculate_first_order_entropy :: "entropy_env \<Rightarrow> u64 list \<Rightarrow> f64 outcome" where
  "calculate_first_order_entropy N sequence = calculate_normalized_entropy N sequence"

text \<open>\<open>((a << 32) | b) as u64\<close> of 128-bit numbers.\<close>

definition pair_code :: "u64 \<Rightarrow> u64 \<Rightarrow> u64" where
  "pair_code a b = ucast (or (push_bit 32 (ucast a :: 128 word)) (ucast b))"

definition calculate_second_order_entropy :: "entropy_env \<Rightarrow> u64 list \<Rightarrow> f64 outcome" where
  "calculate_second_order_entropy N sequence =
     (if length sequence < 2 then Ok (Fin 0)
      else calculate_normalized_entropy N (map (\<lambda>(a, b). pair_code a b) (windows2 sequence)))"

definition run_length_round :: "u64 \<Rightarrow> u64 \<times> u64 \<times> u64 list \<Rightarrow> u64 \<times> u64 \<times> u64 list" where
  "run_length_round v = (\<lambda>(current_value, current_length, runs).
     if v = current_value then (current_value, current_length + 1, runs) else (v, 1, runs @ [current_length]))"

definition run_lengths :: "u64 list \<Rightarrow> u64 list" where
  "run_lengths sequence =
     (case sequence of
        [] \<Rightarrow> []
      | v # rest \<Rightarrow> (case fold run_length_round rest (v, 1, []) of (_, current_length, runs) \<Rightarrow> runs @ [current_length]))"

definition calculate_runs_entropy :: "entropy_env \<Rightarrow> u64 list \<Rightarrow> f64 outcome" where
  "calculate_runs_entropy N sequence = (if sequence = [] then Ok (Fin 0) else calculate_normalized_entropy N (run_lengths sequence))"

definition analyze_sequence_entropy :: "entropy_env \<Rightarrow> EntropyAnalyzer \<Rightarrow> u64 list \<Rightarrow> SequenceEntropyResult outcome" where
  "analyze_sequence_entropy N a sequence =
     (if length sequence < 2 then Err (InsufficientData ''Sequence too short for analysis'')
      else
        rbind (calculate_first_order_entropy N sequence) (\<lambda>first_order_entropy.
        rbind (calculate_second_order_entropy N sequence) (\<lambda>second_order_entropy.
        rbind (calculate_runs_entropy N sequence) (\<lambda>runs_entropy.
          let avg_entropy = f64_div (f64_add (f64_add first_order_entropy second_order_entropy) runs_entropy) (f64_lit 3);
              is_predictable = f64_lt avg_entropy (ena_min_entropy_threshold a)
          in Ok \<lparr>ser_first_order_entropy = first_order_entropy, ser_second_order_entropy = second_order_entropy,
                 ser_runs_entropy = runs_entropy, ser_average_entropy = avg_entropy, ser_is_predictable = is_predictable,
                 ser_interpretation =
                   (if is_predictable
                    then ''Low sequence entropy ('' @ show_fixed 3 avg_entropy @ ''). Data may follow predictable patterns.''
                    else ''Normal sequence entropy ('' @ show_fixed 3 avg_entropy @ ''). Data appears random.'')\<rparr>))))"

definition calculate_mutual_information :: "entropy_env \<Rightarrow> u64 list \<Rightarrow> u64 list \<Rightarrow> f64 outcome" where
  "calculate_mutual_information N x_values y_values =
     (if length x_values \<noteq> length y_values then Err (InvalidInput ''Value arrays must have same length'')
      else if x_values = [] then Err (InsufficientData ''No values provided'')
      else
        rbind (calculate_shannon_entropy N x_values) (\<lambda>h_x.
        rbind (calculate_shannon_entropy N y_values) (\<lambda>h_y.
          let h_xy = entropy_of (en_log2 N) (f64_of_nat (length x_values)) (counts_of (en_pairs N) (build_frequency_map (zip x_values y_values)))
          in Ok (f64_sub (f64_add h_x h_y) h_xy))))"

section \<open>Counts\<close>

lemma fold_count_value:
  "fmlookup (fold count_value vs m) v =
     (if v \<in> set vs then Some ((case fmlookup m v of Some n \<Rightarrow> n | None \<Rightarrow> 0) + of_nat (count_list vs v)) else fmlookup m v)"
proof (induction vs arbitrary: m)
  case (Cons x vs)
  have "fmlookup (count_value x m) v = (if x = v then Some ((case fmlookup m v of Some n \<Rightarrow> n | None \<Rightarrow> 0) + 1) else fmlookup m v)"
    by (simp add: count_value_def)
  then show ?case by (auto simp: Cons.IH count_list_0_iff add.assoc add.commute)
qed simp

lemma frequency_lookup:
  "fmlookup (build_frequency_map values) v = (if v \<in> set values then Some (of_nat (count_list values v)) else None)"
  by (simp add: build_frequency_map_def fold_count_value)

lemma frequency_dom: "fset (fmdom (build_frequency_map values)) = set values"
  by (auto simp: fmlookup_dom_iff frequency_lookup split: if_splits)

lemma frequency_len: "hm_len (build_frequency_map values) = card (set values)"
  by (simp add: hm_len_def fcard.rep_eq frequency_dom)

text \<open>One different value: the normalized entropy is 0.\<close>

lemma normalized_constant:
  assumes "vs \<noteq> []" and "set vs = {c}"
  shows "calculate_normalized_entropy N vs = Ok (Fin 0)"
proof -
  have "f64_of_nat 1 = Fin 1" "f64_lit 1 = Fin 1" using f64_of_nat_exact [of 1] by (simp_all add: f64_lit_def f64_of_nat_def)
  then show ?thesis using assms by (simp add: calculate_normalized_entropy_def calculate_shannon_entropy_def frequency_len)
qed

text \<open>
  The entropy of the locations is computed from the numbers of votes as if they were values, so that it is 0 when all locations
  have equally many votes: a perfectly even distribution is reported as concentrated.
\<close>

lemma even_votes_concentrated:
  assumes "walks (en_locations N)" and "locations \<noteq> []" and "\<forall>l \<in> set locations. count_list locations l = n"
  shows "\<exists>r. analyze_geographic_entropy N locations = Ok r \<and> ger_normalized_entropy r = Fin 0 \<and> ger_is_concentrated r"
proof -
  let ?counts = "counts_of (en_locations N) (build_frequency_map locations)"
  have walk: "set (en_locations N (build_frequency_map locations)) = set locations"
    using assms(1) by (simp add: walks_def frequency_dom)
  then have "set ?counts = {of_nat n}" using assms(2,3) by (auto simp: counts_of_def frequency_lookup image_iff neq_Nil_conv)
  then have zero: "calculate_normalized_entropy N ?counts = Ok (Fin 0)" and "?counts \<noteq> []"
    using normalized_constant [of ?counts] by fastforce+
  then obtain e where e: "calculate_shannon_entropy N ?counts = Ok e" by (simp add: calculate_shannon_entropy_def)
  obtain p where p: "f64_lit (1 / 2) = Fin p" "1 / 2 - 1 / 2 / 2 ^ 53 \<le> p" using decimal_lit [of "1 / 2"] by auto
  have pos: "0 < p" by (rule less_le_trans [OF _ p(2)]) simp
  show ?thesis
    unfolding analyze_geographic_entropy_def Let_def e zero rbind.simps if_not_P [OF assms(2)]
    by (rule exI, rule conjI, rule refl) (simp only: GeographicEntropyResult.simps p(1) f64_lt.simps pos simp_thms)
qed

section \<open>Windows\<close>

lemma window_index_bound: "0 < num_windows \<Longrightarrow> window_index t0 w num_windows t < unat num_windows"
proof -
  assume "0 < num_windows"
  then have "unat (num_windows - 1) < unat num_windows" by (metis measure_unat less_irrefl)
  moreover have "min ((t - t0) div w) (num_windows - 1) \<le> num_windows - 1" by simp
  ultimately show ?thesis unfolding window_index_def by (simp add: word_le_nat_alt)
qed

text \<open>Every time is counted in exactly one window.\<close>

lemma bump_total:
  "i < length counts \<Longrightarrow> sum_list (map unat counts) + 1 < 2 ^ 64 \<Longrightarrow>
   sum_list (map unat (counts[i := counts ! i + (1 :: u64)])) = sum_list (map unat counts) + 1"
proof -
  assume i: "i < length counts" and small: "sum_list (map unat counts) + 1 < 2 ^ 64"
  have "unat (counts ! i) \<le> sum_list (map unat counts)" using elem_le_sum_list [of i "map unat counts"] i by simp
  then have "unat (counts ! i + 1) = unat (counts ! i) + 1" using small by (simp add: unat_word_ariths)
  then show ?thesis
    using i by (simp add: map_update sum_list_update elem_le_sum_list)
qed

lemma count_windows_total:
  assumes "0 < num_windows" and "length ts < 2 ^ 64"
  shows "sum_list (map unat (count_windows t0 w num_windows ts)) = length ts"
proof -
  let ?step = "\<lambda>t counts. let i = window_index t0 w num_windows t in counts[i := counts ! i + 1]"
  have "length counts = unat num_windows \<Longrightarrow> sum_list (map unat counts) + length ts < 2 ^ 64 \<Longrightarrow>
      sum_list (map unat (fold ?step ts counts)) = sum_list (map unat counts) + length ts" for counts :: "u64 list"
  proof (induction ts arbitrary: counts)
    case (Cons t ts)
    have i: "window_index t0 w num_windows t < length counts" using window_index_bound [OF assms(1)] Cons.prems(1) by simp
    have "sum_list (map unat (?step t counts)) = sum_list (map unat counts) + 1"
      unfolding Let_def using Cons.prems(2) by (intro bump_total [OF i]) simp
    then show ?case using Cons.IH [of "?step t counts"] Cons.prems by (simp add: Let_def)
  qed simp
  from this [of "replicate (unat num_windows) 0"] assms(2) show ?thesis by (simp add: count_windows_def sum_list_replicate)
qed

text \<open>A window of no length divides by zero.\<close>

lemma window_zero_panics:
  assumes "ts \<noteq> []" and "last (sort ts) - hd (sort ts) \<noteq> 0"
  shows "analyze_temporal_entropy N a ts 0 = Panic ''attempt to divide by zero''"
  using assms by (simp add: analyze_temporal_entropy_def Let_def)

section \<open>Runs\<close>

text \<open>The run lengths are those of the maximal blocks of equal values.\<close>

fun blocks :: "u64 \<Rightarrow> nat \<Rightarrow> u64 list \<Rightarrow> nat list" where
  "blocks c k [] = [k]"
| "blocks c k (v # vs) = (if v = c then blocks c (Suc k) vs else k # blocks v 1 vs)"

lemma fold_runs:
  "(case fold run_length_round vs (c, of_nat k, runs) of (_, l, rs) \<Rightarrow> rs @ [l]) = runs @ map of_nat (blocks c k vs)"
proof (induction vs arbitrary: c k runs)
  case (Cons v vs)
  show ?case using Cons.IH [of v "Suc k" runs] Cons.IH [of v 1 "runs @ [of_nat k]"] by (auto simp: run_length_round_def add.commute)
qed simp

lemma sum_blocks: "sum_list (blocks c k vs) = k + length vs"
  by (induction c k vs rule: blocks.induct) auto

lemma run_lengths_eq: "run_lengths (v # vs) = map of_nat (blocks v 1 vs)"
  using fold_runs [of vs v 1 "[]"] by (simp add: run_lengths_def)

lemma run_lengths_total:
  assumes "length s < 2 ^ 64"
  shows "sum_list (map unat (run_lengths s)) = length s"
proof (cases s)
  case (Cons v vs)
  have "k < 2 ^ 64" if "k \<in> set (blocks v 1 vs)" for k
    using member_le_sum_list [OF that] assms Cons by (simp add: sum_blocks)
  then have "map (unat \<circ> (of_nat :: nat \<Rightarrow> u64)) (blocks v 1 vs) = blocks v 1 vs"
    by (intro map_idI) (simp add: unat_of_nat)
  then show ?thesis using Cons by (simp add: run_lengths_eq sum_blocks)
qed (simp add: run_lengths_def)

text \<open>The code of a pair does not determine it: only the low 32 bits of the first value are kept.\<close>

lemma pair_code_collides: "pair_code (2 ^ 32) 5 = pair_code 0 5"
  by (simp add: pair_code_def)

end
