(* ===== verification/Patterns.thy ===== *)
theory Patterns
  imports Entropy
begin

text \<open>
  \<open>analytics/src/patterns.rs\<close>: eleven detectors over a list of votes, in four groups, and a risk score. The module is not declared in
  \<open>analytics/src/lib.rs\<close>. The square root and the orders in which hash maps are walked are arguments; differences of times are
  taken modulo \<open>2 ^ 64\<close>, as the code has them in the release profile.
\<close>

section \<open>Votes and patterns\<close>

datatype PatternType =
  Periodic | Burst | Cyclic | Repetitive | Automaton | IdenticalIntervals | GeographicCluster | TemporalCluster | VoterCluster |
  RapidVoting | Coordinated

datatype PatternSeverity = SeverityLow | SeverityMedium | SeverityHigh

datatype PatternEvidence =
  PeriodicTiming f64 f64 f64
| BurstActivity nat nat f64
| CyclicTiming u64 nat
| RepetitiveSequence nat nat
| AutomatonBehavior nat nat f64
| IdenticalIntervalsEvidence u64 nat
| GeographicClusterEvidence string nat f64
| TemporalClusterEvidence u64 nat
| VoterClusterEvidence nat
| RapidVotingEvidence nat u64
| CoordinatedVoting nat u64

record VotePattern =
  vp_tx_id :: string
  vp_timestamp :: u64
  vp_location :: "string option"
  vp_voter_hash :: "string option"

record DetectedPattern =
  dp_pattern_type :: PatternType
  dp_description :: string
  dp_confidence :: f64
  dp_severity :: PatternSeverity
  dp_occurrences :: nat
  dp_evidence :: PatternEvidence

record PatternAnalysisResult =
  par_temporal_patterns :: "DetectedPattern list"
  par_sequential_patterns :: "DetectedPattern list"
  par_clustering_patterns :: "DetectedPattern list"
  par_behavioral_patterns :: "DetectedPattern list"
  par_total_patterns :: nat
  par_risk_score :: f64
  par_timestamp :: u64

record PatternDetector =
  pd_min_pattern_size :: nat
  pd_similarity_threshold :: f64
  pd_min_occurrences :: nat

record pattern_env =
  pe_sqrt :: "f64 \<Rightarrow> f64"
  pe_sequences :: "(string list, u64) hashmap \<Rightarrow> string list list"
  pe_intervals :: "(u64, u64) hashmap \<Rightarrow> u64 list"
  pe_locations :: "(string, u64) hashmap \<Rightarrow> string list"
  pe_voters :: "(string, VotePattern list) hashmap \<Rightarrow> string list"

definition PatternDetector_new :: PatternDetector where
  "PatternDetector_new = \<lparr>pd_min_pattern_size = 3, pd_similarity_threshold = f64_lit (8 / 10), pd_min_occurrences = 3\<rparr>"

definition PatternDetector_with_settings :: "nat \<Rightarrow> f64 \<Rightarrow> nat \<Rightarrow> PatternDetector" where
  "PatternDetector_with_settings min_pattern_size similarity_threshold min_occurrences =
     \<lparr>pd_min_pattern_size = min_pattern_size, pd_similarity_threshold = similarity_threshold, pd_min_occurrences = min_occurrences\<rparr>"

section \<open>Temporal patterns\<close>

definition extract_time_intervals :: "u64 list \<Rightarrow> u64 list" where
  "extract_time_intervals timestamps = map (\<lambda>(a, b). b - a) (windows2 timestamps)"

definition spread :: "(f64 \<Rightarrow> f64) \<Rightarrow> f64 \<Rightarrow> f64 list \<Rightarrow> f64" where
  "spread square_root mean xs = square_root (mean_of (map (\<lambda>x. let diff = f64_sub x mean in f64_mul diff diff) xs))"

definition detect_periodic_intervals :: "pattern_env \<Rightarrow> PatternDetector \<Rightarrow> u64 list \<Rightarrow> DetectedPattern option" where
  "detect_periodic_intervals P d intervals =
     (if length intervals < pd_min_pattern_size d then None
      else
        (let mean_interval = f64_div (f64_of_nat (unat (sum_list intervals))) (f64_of_nat (length intervals));
             std_dev = spread (pe_sqrt P) mean_interval (map (\<lambda>i. f64_of_nat (unat i)) intervals);
             coefficient_of_variation = f64_div std_dev mean_interval
         in if f64_lt coefficient_of_variation (f64_lit (2 / 10)) then
              Some \<lparr>dp_pattern_type = Periodic,
                dp_description = ''Regular interval pattern detected: ~'' @ show_fixed 0 mean_interval @ ''ms between votes (CV: '' @
                  show_fixed 3 coefficient_of_variation @ '')'',
                dp_confidence = f64_sub (f64_lit 1) coefficient_of_variation,
                dp_severity = (if f64_lt coefficient_of_variation (f64_lit (1 / 10)) then SeverityHigh else SeverityMedium),
                dp_occurrences = length intervals,
                dp_evidence = PeriodicTiming mean_interval std_dev coefficient_of_variation\<rparr>
            else None))"

definition burst_pattern :: "f64 \<Rightarrow> f64 \<Rightarrow> nat \<times> u64 \<Rightarrow> DetectedPattern list" where
  "burst_pattern mean_count std_dev = (\<lambda>(idx, count).
     if f64_lt (f64_add mean_count (f64_mul (f64_lit 3) std_dev)) (f64_of_nat (unat count)) then
       (let z_score = f64_div (f64_sub (f64_of_nat (unat count)) mean_count) std_dev
        in [\<lparr>dp_pattern_type = Burst,
              dp_description = ''Vote burst detected: '' @ show_nat (unat count) @ '' votes in 1-minute window (z-score: '' @
                show_fixed 2 z_score @ '')'',
              dp_confidence = f64_min (f64_div z_score (f64_lit 10)) (f64_lit 1),
              dp_severity = (if f64_lt (f64_lit 5) z_score then SeverityHigh else SeverityMedium),
              dp_occurrences = unat count,
              dp_evidence = BurstActivity idx (unat count) z_score\<rparr>])
     else [])"

definition detect_burst_patterns :: "pattern_env \<Rightarrow> u64 list \<Rightarrow> DetectedPattern list" where
  "detect_burst_patterns P timestamps =
     (if timestamps = [] then []
      else
        (let min_time = hd timestamps; time_range = last timestamps - min_time in
         if time_range = 0 then []
         else
           (let num_windows = max (time_range div 60000) 1;
                window_counts = count_windows min_time 60000 num_windows timestamps;
                mean_count = f64_div (f64_of_nat (unat (sum_list window_counts))) (f64_of_nat (unat num_windows));
                std_dev = spread (pe_sqrt P) mean_count (map (\<lambda>c. f64_of_nat (unat c)) window_counts)
            in concat (map (burst_pattern mean_count std_dev) (enumerate 0 window_counts)))))"

text \<open>\<open>(i as i64 - cycle as i64).abs() < cycle as i64 / 10\<close>, where \<open>abs\<close> wraps around at the least number.\<close>

definition near_cycle :: "u64 \<Rightarrow> u64 \<Rightarrow> bool" where
  "near_cycle cycle_length i =
     (let diff = i - cycle_length
      in sint (if sint diff < 0 then - diff else diff) < sint cycle_length div 10)"

definition cyclic_pattern :: "PatternDetector \<Rightarrow> u64 list \<Rightarrow> u64 \<Rightarrow> DetectedPattern list" where
  "cyclic_pattern d intervals cycle_length =
     (let matches = length (filter (near_cycle cycle_length) intervals) in
      if pd_min_occurrences d \<le> matches then
        [\<lparr>dp_pattern_type = Cyclic,
          dp_description = ''Cyclic pattern detected: '' @ show_nat matches @ '' votes with ~'' @ show_nat (unat cycle_length) @ ''ms intervals'',
          dp_confidence = f64_div (f64_of_nat matches) (f64_of_nat (length intervals)),
          dp_severity = SeverityMedium, dp_occurrences = matches, dp_evidence = CyclicTiming cycle_length matches\<rparr>]
      else [])"

definition detect_cyclic_patterns :: "PatternDetector \<Rightarrow> u64 list \<Rightarrow> DetectedPattern list" where
  "detect_cyclic_patterns d timestamps =
     (if length timestamps < 10 then []
      else concat (map (cyclic_pattern d (extract_time_intervals timestamps)) [60000, 300000, 3600000]))"

definition detect_temporal_patterns :: "pattern_env \<Rightarrow> PatternDetector \<Rightarrow> VotePattern list \<Rightarrow> DetectedPattern list" where
  "detect_temporal_patterns P d votes =
     (let timestamps = sort (map vp_timestamp votes);
          intervals = extract_time_intervals timestamps
      in (case detect_periodic_intervals P d intervals of Some pattern \<Rightarrow> [pattern] | None \<Rightarrow> []) @
         detect_burst_patterns P timestamps @ detect_cyclic_patterns d timestamps)"

section \<open>Sequential patterns\<close>

definition vote_word :: "VotePattern \<Rightarrow> string" where
  "vote_word v = (case vp_location v of Some l \<Rightarrow> l | None \<Rightarrow> []) @ ''-'' @ show_nat (unat (vp_timestamp v mod 1000))"

definition repetitive_pattern :: "pattern_env \<Rightarrow> PatternDetector \<Rightarrow> VotePattern list \<Rightarrow> nat \<Rightarrow> DetectedPattern list" where
  "repetitive_pattern P d votes pattern_length =
     (let sequence_counts = build_frequency_map (windows pattern_length (map vote_word votes)) in
      case filter (\<lambda>count. pd_min_occurrences d \<le> unat count) (counts_of (pe_sequences P) sequence_counts) of
        [] \<Rightarrow> []
      | repetitions # _ \<Rightarrow>
          [\<lparr>dp_pattern_type = Repetitive,
            dp_description = ''Repetitive sequence detected: length '' @ show_nat pattern_length @ '' repeated '' @
              show_nat (unat repetitions) @ '' times'',
            dp_confidence = f64_min (f64_div (f64_of_nat (unat repetitions)) (f64_of_nat (length votes))) (f64_lit 1),
            dp_severity = (if 10 < unat repetitions then SeverityHigh else SeverityMedium),
            dp_occurrences = unat repetitions,
            dp_evidence = RepetitiveSequence pattern_length (unat repetitions)\<rparr>])"

definition detect_repetitive_sequences :: "pattern_env \<Rightarrow> PatternDetector \<Rightarrow> VotePattern list \<Rightarrow> DetectedPattern list" where
  "detect_repetitive_sequences P d votes =
     (if length votes < pd_min_pattern_size d * 2 mod 2 ^ 64 then []
      else concat (map (repetitive_pattern P d votes) [pd_min_pattern_size d..<Suc (length votes div 2)]))"

definition detect_automaton_behavior :: "VotePattern list \<Rightarrow> DetectedPattern list" where
  "detect_automaton_behavior votes =
     (if length votes < 10 then []
      else
        (let intervals = extract_time_intervals (map vp_timestamp votes);
             identical_intervals = length (filter (\<lambda>(a, b). a = b) (windows2 intervals));
             identical_ratio = f64_div (f64_of_nat identical_intervals) (f64_of_nat (length intervals))
         in if f64_lt (f64_lit (3 / 10)) identical_ratio then
              [\<lparr>dp_pattern_type = Automaton,
                dp_description = ''Automaton behavior detected: '' @ show_fixed 1 (f64_mul identical_ratio (f64_lit 100)) @
                  ''% of intervals are identical'',
                dp_confidence = identical_ratio, dp_severity = SeverityHigh, dp_occurrences = identical_intervals,
                dp_evidence = AutomatonBehavior identical_intervals (length intervals) identical_ratio\<rparr>]
            else []))"

definition identical_interval :: "PatternDetector \<Rightarrow> nat \<Rightarrow> (u64, u64) hashmap \<Rightarrow> u64 \<Rightarrow> DetectedPattern list" where
  "identical_interval d intervals_len interval_counts interval =
     (let count = unat (the (fmlookup interval_counts interval)) in
      if pd_min_occurrences d \<le> count \<and> 0 < interval then
        [\<lparr>dp_pattern_type = IdenticalIntervals,
          dp_description = ''Identical interval pattern: '' @ show_nat (unat interval) @ ''ms repeated '' @ show_nat count @ '' times'',
          dp_confidence = f64_div (f64_of_nat count) (f64_of_nat intervals_len),
          dp_severity = (if 5 < count then SeverityHigh else SeverityMedium), dp_occurrences = count,
          dp_evidence = IdenticalIntervalsEvidence interval count\<rparr>]
      else [])"

definition detect_identical_intervals :: "pattern_env \<Rightarrow> PatternDetector \<Rightarrow> VotePattern list \<Rightarrow> DetectedPattern list" where
  "detect_identical_intervals P d votes =
     (if length votes < 5 then []
      else
        (let intervals = extract_time_intervals (map vp_timestamp votes);
             interval_counts = build_frequency_map intervals
         in concat (map (identical_interval d (length intervals) interval_counts) (pe_intervals P interval_counts))))"

definition pd_detect_sequential_patterns :: "pattern_env \<Rightarrow> PatternDetector \<Rightarrow> VotePattern list \<Rightarrow> DetectedPattern list" where
  "pd_detect_sequential_patterns P d votes =
     detect_repetitive_sequences P d votes @ detect_automaton_behavior votes @ detect_identical_intervals P d votes"

section \<open>Clusters\<close>

definition geographic_cluster :: "nat \<Rightarrow> (string, u64) hashmap \<Rightarrow> string \<Rightarrow> DetectedPattern list" where
  "geographic_cluster total_votes location_counts location =
     (let count = unat (the (fmlookup location_counts location));
          ratio = f64_div (f64_of_nat count) (f64_of_nat total_votes)
      in if f64_lt (f64_lit (1 / 2)) ratio \<and> 10 \<le> count then
           [\<lparr>dp_pattern_type = GeographicCluster,
             dp_description = ''Geographic clustering: '' @ show_fixed 1 (f64_mul ratio (f64_lit 100)) @ ''% of votes from '' @ location,
             dp_confidence = ratio, dp_severity = (if f64_lt (f64_lit (8 / 10)) ratio then SeverityHigh else SeverityMedium),
             dp_occurrences = count,
             dp_evidence = GeographicClusterEvidence location count (f64_mul ratio (f64_lit 100))\<rparr>]
         else [])"

definition detect_geographic_clusters :: "pattern_env \<Rightarrow> VotePattern list \<Rightarrow> DetectedPattern list" where
  "detect_geographic_clusters P votes =
     (let location_counts = build_frequency_map (List.map_filter vp_location votes)
      in concat (map (geographic_cluster (length votes) location_counts) (pe_locations P location_counts)))"

definition cluster_pattern :: "u64 \<Rightarrow> nat \<Rightarrow> DetectedPattern" where
  "cluster_pattern start_timestamp cluster_size =
     \<lparr>dp_pattern_type = TemporalCluster,
      dp_description = ''Temporal cluster: '' @ show_nat cluster_size @ '' votes within 5 seconds'',
      dp_confidence = f64_lit (8 / 10), dp_severity = (if 20 < cluster_size then SeverityHigh else SeverityMedium),
      dp_occurrences = cluster_size, dp_evidence = TemporalClusterEvidence start_timestamp cluster_size\<rparr>"

definition cluster_round :: "u64 \<times> u64 \<Rightarrow> nat \<times> u64 \<times> DetectedPattern list \<Rightarrow> nat \<times> u64 \<times> DetectedPattern list" where
  "cluster_round = (\<lambda>(previous, t) (current_cluster_size, current_cluster_start, patterns).
     if t - previous \<le> 5000 then (current_cluster_size + 1, current_cluster_start, patterns)
     else (1, t, if 5 \<le> current_cluster_size then patterns @ [cluster_pattern current_cluster_start current_cluster_size] else patterns))"

definition detect_temporal_clusters :: "VotePattern list \<Rightarrow> DetectedPattern list" where
  "detect_temporal_clusters votes =
     (if length votes < 10 then []
      else
        (let times = map vp_timestamp (sort_key vp_timestamp votes)
         in snd (snd (fold cluster_round (windows2 times) (1, hd times, [])))))"

definition close_pairs :: "VotePattern list \<Rightarrow> nat" where
  "close_pairs votes =
     (if 1 < length votes
      then length (filter (\<lambda>(a, b). b - a \<le> 1000) (windows2 (sort (map vp_timestamp votes))))
      else 0)"

definition detect_voter_clusters :: "pattern_env \<Rightarrow> VotePattern list \<Rightarrow> DetectedPattern list" where
  "detect_voter_clusters P votes =
     (if length votes < 10 then []
      else
        (let coordinated_count = sum_list (map (close_pairs \<circ> snd) (walk_groups (pe_voters P) (group_votes vp_voter_hash votes)))
         in if 3 \<le> coordinated_count then
              [\<lparr>dp_pattern_type = VoterCluster,
                dp_description = ''Coordinated voting pattern: '' @ show_nat coordinated_count @ '' voter pairs within 1 second'',
                dp_confidence = f64_lit (7 / 10), dp_severity = SeverityMedium, dp_occurrences = coordinated_count,
                dp_evidence = VoterClusterEvidence coordinated_count\<rparr>]
            else []))"

definition pd_detect_clustering_patterns :: "pattern_env \<Rightarrow> VotePattern list \<Rightarrow> DetectedPattern list" where
  "pd_detect_clustering_patterns P votes =
     detect_geographic_clusters P votes @ detect_temporal_clusters votes @ detect_voter_clusters P votes"

section \<open>Behaviour\<close>

definition rapid_window :: "VotePattern list \<Rightarrow> bool" where
  "rapid_window w = (vp_timestamp (w ! 4) - vp_timestamp (w ! 0) < 100 * 4)"

definition detect_rapid_voting :: "VotePattern list \<Rightarrow> DetectedPattern list" where
  "detect_rapid_voting votes =
     (if length votes < 5 then []
      else
        (let rapid_sequences = length (filter rapid_window (windows 5 votes)) in
         if 3 \<le> rapid_sequences then
           [\<lparr>dp_pattern_type = RapidVoting,
             dp_description = ''Rapid voting detected: '' @ show_nat rapid_sequences @ '' sequences of 5 votes in <400ms'',
             dp_confidence = f64_lit (9 / 10), dp_severity = SeverityHigh, dp_occurrences = rapid_sequences,
             dp_evidence = RapidVotingEvidence rapid_sequences 100\<rparr>]
         else []))"

definition coordinated_window :: "VotePattern list \<Rightarrow> bool" where
  "coordinated_window w \<longleftrightarrow>
     vp_timestamp (w ! 4) - vp_timestamp (w ! 0) \<le> 5000 \<and> 3 \<le> card (set (List.map_filter vp_location w))"

definition detect_coordinated_voting :: "VotePattern list \<Rightarrow> DetectedPattern list" where
  "detect_coordinated_voting votes =
     (if length votes < 10 then []
      else
        (let coordinated_groups = length (filter coordinated_window (windows 5 (sort_key vp_timestamp votes))) in
         if 3 \<le> coordinated_groups then
           [\<lparr>dp_pattern_type = Coordinated,
             dp_description = ''Coordinated voting pattern: '' @ show_nat coordinated_groups @ '' groups with multi-location synchronization'',
             dp_confidence = f64_lit (8 / 10), dp_severity = SeverityHigh, dp_occurrences = coordinated_groups,
             dp_evidence = CoordinatedVoting coordinated_groups 5000\<rparr>]
         else []))"

definition pd_detect_behavioral_patterns :: "VotePattern list \<Rightarrow> DetectedPattern list" where
  "pd_detect_behavioral_patterns votes = detect_rapid_voting votes @ detect_coordinated_voting votes"

section \<open>The result\<close>

fun severity_weight :: "f64 \<Rightarrow> f64 \<Rightarrow> f64 \<Rightarrow> PatternSeverity \<Rightarrow> f64" where
  "severity_weight high medium low SeverityHigh = high"
| "severity_weight high medium low SeverityMedium = medium"
| "severity_weight high medium low SeverityLow = low"

definition add_scores :: "f64 \<Rightarrow> f64 \<Rightarrow> f64 \<Rightarrow> DetectedPattern list \<Rightarrow> f64 \<Rightarrow> f64" where
  "add_scores high medium low patterns score =
     fold (\<lambda>p score. f64_add score (f64_mul (severity_weight high medium low (dp_severity p)) (dp_confidence p))) patterns score"

definition calculate_pattern_risk_score ::
  "DetectedPattern list \<Rightarrow> DetectedPattern list \<Rightarrow> DetectedPattern list \<Rightarrow> DetectedPattern list \<Rightarrow> f64" where
  "calculate_pattern_risk_score temporal sequential clustering behavioral =
     (let score = add_scores (f64_lit 3) (f64_lit 2) (f64_lit 1) temporal (Fin 0);
          score = add_scores (f64_lit 4) (f64_lit (5 / 2)) (f64_lit 1) sequential score;
          score = add_scores (f64_lit 2) (f64_lit (3 / 2)) (f64_lit (1 / 2)) clustering score;
          score = add_scores (f64_lit 5) (f64_lit 3) (f64_lit 1) behavioral score
      in f64_min (f64_div score (f64_lit 10)) (f64_lit 10))"

definition detect_patterns :: "pattern_env \<Rightarrow> u64 \<Rightarrow> PatternDetector \<Rightarrow> VotePattern list \<Rightarrow> PatternAnalysisResult outcome" where
  "detect_patterns P now d votes =
     (if votes = [] then Err (InsufficientData ''No votes provided'')
      else
        (let temporal = detect_temporal_patterns P d votes;
             sequential = pd_detect_sequential_patterns P d votes;
             clustering = pd_detect_clustering_patterns P votes;
             behavioral = pd_detect_behavioral_patterns votes
         in Ok \<lparr>par_temporal_patterns = temporal, par_sequential_patterns = sequential, par_clustering_patterns = clustering,
                par_behavioral_patterns = behavioral,
                par_total_patterns = length temporal + length sequential + length clustering + length behavioral,
                par_risk_score = calculate_pattern_risk_score temporal sequential clustering behavioral, par_timestamp = now\<rparr>))"

section \<open>Intervals\<close>

text \<open>The intervals of sorted times add up to the time between the first and the last, without wrapping around.\<close>

lemma intervals_Cons: "extract_time_intervals (a # b # ts) = (b - a) # extract_time_intervals (b # ts)"
  by (simp add: extract_time_intervals_def windows2_def)

lemma intervals_sum: "ts \<noteq> [] \<Longrightarrow> sum_list (extract_time_intervals ts) = last ts - hd ts"
proof (induction ts rule: induct_list012)
  case (3 a b ts)
  then show ?case by (simp add: intervals_Cons)
qed (simp_all add: extract_time_intervals_def windows2_def)

lemma intervals_total:
  assumes "sorted ts" and "ts \<noteq> []"
  shows "sum_list (map unat (extract_time_intervals ts)) = unat (last ts) - unat (hd ts)"
  using assms
proof (induction ts rule: induct_list012)
  case (3 a b ts)
  then have "b \<le> last (b # ts)" by (cases ts) auto
  then show ?case using 3 by (simp add: intervals_Cons word_le_nat_alt unat_sub)
qed (simp_all add: extract_time_intervals_def windows2_def)

text \<open>Votes that are all cast in the same millisecond show no temporal pattern at all: the coefficient of variation is \<open>0 / 0\<close>.\<close>

lemma simultaneous_intervals: "extract_time_intervals (replicate (Suc n) t) = replicate n 0"
  by (induction n) (simp_all add: extract_time_intervals_def windows2_def)

lemma round64_zero: "round64 0 = Fin 0"
  using f64_of_nat_exact [of 0] by (simp add: f64_of_nat_def)

lemma f64_div_zero: "0 < n \<Longrightarrow> n < 2 ^ 53 \<Longrightarrow> f64_div (Fin 0) (f64_of_nat n) = Fin 0"
  using f64_of_nat_exact [of n] by (simp add: round64_zero)

lemma spread_zero: "0 < n \<Longrightarrow> n < 2 ^ 53 \<Longrightarrow> spread square_root (Fin 0) (replicate n (Fin 0)) = square_root (Fin 0)"
proof -
  have "f64_sum (replicate n (Fin 0)) = Fin 0" by (induction n) (simp_all add: f64_sum_def round64_zero)
  then show "0 < n \<Longrightarrow> n < 2 ^ 53 \<Longrightarrow> ?thesis" by (simp add: spread_def mean_of_def f64_div_zero f64_sub_def round64_zero)
qed

lemma simultaneous_no_temporal:
  assumes "\<forall>v \<in> set votes. vp_timestamp v = t" and "0 < pd_min_pattern_size d" and "0 < pd_min_occurrences d"
    and "pe_sqrt P (Fin 0) = Fin 0" and "length votes < 2 ^ 53"
  shows "detect_temporal_patterns P d votes = []"
proof (cases votes)
  case (Cons v vs)
  let ?n = "length vs"
  have ts: "sort (map vp_timestamp votes) = replicate (Suc ?n) t"
  proof (rule replicate_eqI)
    show "y = t" if "y \<in> set (sort (map vp_timestamp votes))" for y using that assms(1) by auto
  qed (simp add: Cons)
  have zero: "f64_of_nat 0 = Fin 0" using f64_of_nat_exact [of 0] by simp
  have "detect_periodic_intervals P d (replicate ?n 0) = None"
  proof (cases "?n < pd_min_pattern_size d")
    case False
    then have "0 < ?n" "?n < 2 ^ 53" using assms(2,5) Cons by (linarith, simp)
    then show ?thesis
      by (simp add: detect_periodic_intervals_def Let_def sum_list_replicate zero f64_div_zero spread_zero assms(4) signed_inf_def)
  qed (simp add: detect_periodic_intervals_def)
  moreover have "detect_burst_patterns P (replicate (Suc ?n) t) = []"
    by (simp add: detect_burst_patterns_def Let_def)
  moreover have "\<not> near_cycle c 0" if "c \<in> {60000, 300000, 3600000}" for c
    using that by (auto simp: near_cycle_def Let_def)
  ultimately show ?thesis
    using assms(3) unfolding detect_temporal_patterns_def ts simultaneous_intervals
    by (simp add: detect_cyclic_patterns_def cyclic_pattern_def simultaneous_intervals del: replicate.simps)
qed (simp add: detect_temporal_patterns_def extract_time_intervals_def windows2_def detect_periodic_intervals_def assms(2)
    detect_burst_patterns_def detect_cyclic_patterns_def)

section \<open>Temporal clusters\<close>

text \<open>The maximal runs of times that follow each other within five seconds.\<close>

fun runs_of :: "u64 \<Rightarrow> u64 list \<Rightarrow> u64 list \<Rightarrow> u64 list list" where
  "runs_of previous run [] = [run]"
| "runs_of previous run (t # ts) = (if t - previous \<le> 5000 then runs_of t (run @ [t]) ts else run # runs_of t [t] ts)"

definition run_patterns :: "u64 list list \<Rightarrow> DetectedPattern list" where
  "run_patterns rs = map (\<lambda>r. cluster_pattern (hd r) (length r)) (filter (\<lambda>r. 5 \<le> length r) rs)"

lemma runs_of_not_Nil [simp]: "runs_of p r ts \<noteq> []"
  by (induction p r ts rule: runs_of.induct) simp_all

lemma cluster_rounds:
  "run \<noteq> [] \<Longrightarrow>
   snd (snd (fold cluster_round (windows2 (previous # ts)) (length run, hd run, ps))) = ps @ run_patterns (butlast (runs_of previous run ts))"
proof (induction previous run ts arbitrary: ps rule: runs_of.induct)
  case (2 previous run t ts)
  have w: "windows2 (previous # t # ts) = (previous, t) # windows2 (t # ts)" by (simp add: windows2_def)
  show ?case
  proof (cases "t - previous \<le> 5000")
    case True
    then show ?thesis using "2.IH"(1) [OF True, of ps] "2.prems" by (simp add: w cluster_round_def)
  next
    case False
    have "cluster_round (previous, t) (length run, hd run, ps) = (length [t], hd [t], ps @ run_patterns [run])"
      using False by (simp add: cluster_round_def run_patterns_def)
    moreover have "butlast (runs_of previous run (t # ts)) = [run] @ butlast (runs_of t [t] ts)" using False by simp
    moreover have "run_patterns ([run] @ rs) = run_patterns [run] @ run_patterns rs" for rs by (simp add: run_patterns_def)
    ultimately show ?thesis using "2.IH"(2) [OF False, of "ps @ run_patterns [run]"]
      by (simp only: w fold_simps append_assoc list.distinct simp_thms)
  qed
qed (simp add: windows2_def run_patterns_def)

text \<open>Every run of five votes or more is reported, with its start and its size, but the last run never is.\<close>

lemma temporal_clusters_eq:
  assumes "10 \<le> length votes" and "sort (map vp_timestamp votes) = t # ts"
  shows "detect_temporal_clusters votes = run_patterns (butlast (runs_of t [t] ts))"
proof -
  have "map vp_timestamp (sort_key vp_timestamp votes) = sort (map vp_timestamp votes)"
    by (rule properties_for_sort [symmetric]) simp_all
  then show ?thesis using assms cluster_rounds [of "[t]" t ts "[]"] by (simp add: detect_temporal_clusters_def Let_def)
qed

lemma runs_of_close: "\<forall>(a, b) \<in> set (windows2 (p # ts)). b - a \<le> 5000 \<Longrightarrow> runs_of p run ts = [run @ ts]"
  by (induction p run ts rule: runs_of.induct) (simp_all add: windows2_def)

lemma one_cluster_unreported:
  assumes "\<forall>(a, b) \<in> set (windows2 (sort (map vp_timestamp votes))). b - a \<le> 5000"
  shows "detect_temporal_clusters votes = []"
proof (cases "10 \<le> length votes")
  case True
  then obtain t ts where ts: "sort (map vp_timestamp votes) = t # ts"
    by (metis length_map length_sort list.exhaust list.size(3) not_numeral_le_zero)
  then have "runs_of t [t] ts = [[t] @ ts]" using assms by (intro runs_of_close) simp
  then show ?thesis using temporal_clusters_eq [OF True ts] by (simp add: run_patterns_def)
qed (simp add: detect_temporal_clusters_def)

section \<open>Voters\<close>

text \<open>Only votes of the same voter count as coordinated: different voters never make a voter cluster, however they vote.\<close>

lemma distinct_count_list_le: "distinct xs \<Longrightarrow> count_list xs x \<le> Suc 0"
  by (induction xs) (auto simp: count_list_0_iff)

lemma length_group_of: "length (group_of key k votes) = count_list (List.map_filter key votes) k"
  by (induction votes) (simp_all add: group_of_def map_filter_simps split: option.split)

lemma different_voters_no_cluster:
  assumes "walks (pe_voters P)" and "distinct (List.map_filter vp_voter_hash votes)"
  shows "detect_voter_clusters P votes = []"
proof -
  have "length (group_of vp_voter_hash k votes) \<le> 1" for k
    using assms(2) by (simp add: length_group_of distinct_count_list_le)
  then have "close_pairs (snd g) = 0" if "g \<in> set (walk_groups (pe_voters P) (group_votes vp_voter_hash votes))" for g
    using that by (force simp: set_walk_groups [OF assms(1)] close_pairs_def dest: leD)
  then have "sum_list (map (close_pairs \<circ> snd) (walk_groups (pe_voters P) (group_votes vp_voter_hash votes))) = 0" by simp
  then show ?thesis by (simp only: detect_voter_clusters_def Let_def) simp
qed

text \<open>The number of close pairs does not depend on the order in which the map is walked.\<close>

lemma voter_clusters_order:
  assumes "walks (pe_voters P)" and "walks (pe_voters Q)"
  shows "detect_voter_clusters P votes = detect_voter_clusters Q votes"
proof -
  have "mset (walk_groups (pe_voters P) m) = mset (walk_groups (pe_voters Q) m)" for m
  proof -
    have "mset (pe_voters P m) = mset (pe_voters Q m)"
      using assms by (intro set_eq_iff_mset_eq_distinct [THEN iffD1]) (auto simp: walks_def)
    then show ?thesis by (simp add: walk_groups_def)
  qed
  then have "mset (map (close_pairs \<circ> snd) (walk_groups (pe_voters P) m)) = mset (map (close_pairs \<circ> snd) (walk_groups (pe_voters Q) m))" for m
    by simp
  then show ?thesis unfolding detect_voter_clusters_def by (metis (no_types, lifting) sum_mset_sum_list)
qed

section \<open>Order of the votes\<close>

text \<open>
  Differences of unsorted times wrap around: the detectors that do not sort report other intervals for the same votes in
  another order. Seven votes one millisecond apart are rapid in one order and not in the reverse one.
\<close>

definition vote_at :: "u64 \<Rightarrow> VotePattern" where
  "vote_at t = \<lparr>vp_tx_id = ''t'', vp_timestamp = t, vp_location = None, vp_voter_hash = None\<rparr>"

lemma rapid_depends_on_order:
  "length (detect_rapid_voting (map vote_at [0, 1, 2, 3, 4, 5, 6])) = 1"
  "detect_rapid_voting (map vote_at [6, 5, 4, 3, 2, 1, 0]) = []"
  by (simp_all add: detect_rapid_voting_def windows_def rapid_window_def vote_at_def upt_rec)

text \<open>The detectors that sort do not depend on the order.\<close>

lemma temporal_order: "mset votes = mset votes' \<Longrightarrow> detect_temporal_patterns P d votes = detect_temporal_patterns P d votes'"
proof -
  assume "mset votes = mset votes'"
  then have "mset (map vp_timestamp votes) = mset (map vp_timestamp votes')" by simp
  then have "sort (map vp_timestamp votes) = sort (map vp_timestamp votes')" by (metis mset_sort properties_for_sort sorted_sort)
  then show ?thesis by (simp add: detect_temporal_patterns_def)
qed

section \<open>The score\<close>

text \<open>The score of an analysis is at most 10, and it is 0 when nothing is found.\<close>

lemma f64_min_le: "f64_le y (Fin r) \<Longrightarrow> f64_le (f64_min x y) (Fin r)"
  by (cases x; cases y) (auto simp: f64_min_def)

lemma f64_ten: "f64_lit 10 = Fin 10"
  using f64_of_nat_exact [of 10] by (simp add: f64_lit_def f64_of_nat_def)

lemma risk_score_bound: "f64_le (calculate_pattern_risk_score a b c e) (Fin 10)"
  unfolding calculate_pattern_risk_score_def Let_def f64_ten by (rule f64_min_le) simp

lemma no_pattern_no_risk: "calculate_pattern_risk_score [] [] [] [] = Fin 0"
  by (simp add: calculate_pattern_risk_score_def add_scores_def f64_ten round64_zero f64_min_def)

lemma total_patterns:
  assumes "detect_patterns P now d votes = Ok r"
  shows "par_total_patterns r =
    length (par_temporal_patterns r @ par_sequential_patterns r @ par_clustering_patterns r @ par_behavioral_patterns r)"
  using assms by (auto simp: detect_patterns_def Let_def split: if_splits)

end
