(* ===== verification/Cli.thy ===== *)
theory Cli
  imports Rpc_Server Rpc_Chain Jurisdiction_Tree Benford
begin

text \<open>
  \<open>cli/src/commands\<close>: the client of the JSON-RPC interface and the commands that query and verify.
  A \<open>serde_json\<close> value is of a type \<open>'v\<close> with the accessors and constructors \<open>json_value\<close>; the
  HTTP client is a function that may change the state \<open>'s\<close> of the world. A command yields what it
  displays, without the frames around it.
\<close>

section \<open>The client\<close>

record 'v json_value =
  jv_index :: "'v \<Rightarrow> string \<Rightarrow> 'v"
  jv_get :: "'v \<Rightarrow> string \<Rightarrow> 'v option"
  jv_as_str :: "'v \<Rightarrow> string option"
  jv_as_u64 :: "'v \<Rightarrow> u64 option"
  jv_as_bool :: "'v \<Rightarrow> bool option"
  jv_as_f64 :: "'v \<Rightarrow> f64 option"
  jv_as_array :: "'v \<Rightarrow> 'v list option"
  jv_is_string :: "'v \<Rightarrow> bool"
  jv_object :: "(string \<times> 'v) list \<Rightarrow> 'v"
  jv_string :: "string \<Rightarrow> 'v"
  jv_u64 :: "u64 \<Rightarrow> 'v"

datatype 'v HttpReply = SendFailed string | BodyNotJson string | JsonBody 'v

type_synonym ('s, 'v) http_client = "'v \<Rightarrow> 's \<Rightarrow> 's \<times> 'v HttpReply"

definition unwrap_or :: "'a \<Rightarrow> 'a option \<Rightarrow> 'a" where
  "unwrap_or d x = (case x of Some v \<Rightarrow> v | None \<Rightarrow> d)"

definition rpc_request :: "'v json_value \<Rightarrow> string \<Rightarrow> 'v \<Rightarrow> 'v" where
  "rpc_request V name params =
     jv_object V [(''jsonrpc'', jv_string V ''2.0''), (''method'', jv_string V name), (''params'', params), (''id'', jv_u64 V 1)]"

definition rpc_call :: "'v json_value \<Rightarrow> ('s, 'v) http_client \<Rightarrow> string \<Rightarrow> 'v \<Rightarrow> 's \<Rightarrow> 's \<times> 'v outcome" where
  "rpc_call V C name params s =
     (case C (rpc_request V name params) s of
        (s, SendFailed e) \<Rightarrow> (s, Err (NetworkError (''RPC request failed: '' @ e)))
      | (s, BodyNotJson e) \<Rightarrow> (s, Err (NetworkError (''Failed to parse response: '' @ e)))
      | (s, JsonBody body) \<Rightarrow>
          (s, case jv_get V body ''error'' of
                Some error \<Rightarrow>
                  Err (NetworkError (''RPC error: '' @ unwrap_or ''Unknown error'' (jv_as_str V (jv_index V error ''message''))))
              | None \<Rightarrow>
                  (case jv_get V body ''result'' of Some r \<Rightarrow> Ok r | None \<Rightarrow> Err (NetworkError ''No result in response''))))"

definition call_no_params :: "'v json_value \<Rightarrow> ('s, 'v) http_client \<Rightarrow> string \<Rightarrow> 's \<Rightarrow> 's \<times> 'v outcome" where
  "call_no_params V C name = rpc_call V C name (jv_object V [])"

section \<open>Verification\<close>

definition receipt_matches :: "'v json_value \<Rightarrow> string \<Rightarrow> 'v \<Rightarrow> bool" where
  "receipt_matches V receipt_id tx =
     (case jv_as_str V (jv_index V tx ''id'') of
        Some i \<Rightarrow> str_contains i receipt_id \<or> str_contains receipt_id i
      | None \<Rightarrow> False)"

definition verify_receipt :: "'v json_value \<Rightarrow> ('s, 'v) http_client \<Rightarrow> string \<Rightarrow> 's \<Rightarrow> 's \<times> 'v outcome" where
  "verify_receipt V C receipt_id s =
     and_then (rpc_call V C ''search_transactions'' (jv_object V [(''tx_type'', jv_string V ''Vote''), (''limit'', jv_u64 V 1000)]) s)
       (\<lambda>s response.
         (s, case jv_as_array V (jv_index V response ''transactions'') of
               None \<Rightarrow> Err (TransactionNotFound ''No transactions found'')
             | Some transactions \<Rightarrow>
                 (case List.find (receipt_matches V receipt_id) transactions of
                    Some tx \<Rightarrow> Ok tx
                  | None \<Rightarrow> Err (TransactionNotFound receipt_id))))"

definition verify_vote_command :: "'v json_value \<Rightarrow> ('s, 'v) http_client \<Rightarrow> string \<Rightarrow> string \<Rightarrow> 's \<Rightarrow> 's \<times> bool outcome" where
  "verify_vote_command V C tx_hash proof_hex s =
     and_then (rpc_call V C ''get_transaction'' (jv_object V [(''hash'', jv_string V tx_hash)]) s) (\<lambda>s _.
     and_then (rpc_call V C ''verify_vote'' (jv_object V [(''tx_id'', jv_string V tx_hash), (''zk_proof'', jv_string V proof_hex)]) s)
       (\<lambda>s verification. (s, Ok (unwrap_or False (jv_as_bool V (jv_index V verification ''valid''))))))"

record ChainReport =
  chr_total_blocks :: u64
  chr_verified :: "32 word"
  chr_failed :: "32 word"

text \<open>One block: the hash of the block before, the blocks verified and the blocks that failed.\<close>

definition check_chain_block :: "'v json_value \<Rightarrow> 'v \<Rightarrow> string option \<times> 32 word \<times> 32 word \<Rightarrow> string option \<times> 32 word \<times> 32 word" where
  "check_chain_block V block = (\<lambda>(previous_hash, verified, failed).
     if previous_hash \<noteq> None \<and> jv_as_str V (jv_index V block ''previous_hash'') \<noteq> previous_hash
     then (previous_hash, verified, failed + 1)
     else
       (let block_hash = unwrap_or [] (jv_as_str V (jv_index V block ''hash''));
            tx_count = unwrap_or 0 (jv_as_u64 V (jv_index V block ''transaction_count''));
            actual_tx_count = (case jv_as_array V (jv_index V block ''transactions'') of Some a \<Rightarrow> of_nat (length a) | None \<Rightarrow> 0)
        in if tx_count \<noteq> actual_tx_count then (Some block_hash, verified, failed + 1)
           else (Some block_hash, verified + 1, failed)))"

fun check_chain_blocks ::
  "'v json_value \<Rightarrow> ('s, 'v) http_client \<Rightarrow> u64 list \<Rightarrow> string option \<times> 32 word \<times> 32 word \<Rightarrow> 's \<Rightarrow>
   's \<times> (string option \<times> 32 word \<times> 32 word) outcome" where
  "check_chain_blocks V C [] acc s = (s, Ok acc)"
| "check_chain_blocks V C (height # hs) acc s =
     and_then (rpc_call V C ''get_block_by_height'' (jv_object V [(''height'', jv_u64 V height)]) s) (\<lambda>s block.
       check_chain_blocks V C hs (check_chain_block V block acc) s)"

definition verify_chain_command ::
  "'v json_value \<Rightarrow> ('s, 'v) http_client \<Rightarrow> u64 \<Rightarrow> u64 option \<Rightarrow> 's \<Rightarrow> 's \<times> ChainReport outcome" where
  "verify_chain_command V C start_height end_height s =
     and_then (call_no_params V C ''chain_info'' s) (\<lambda>s chain_info.
       let latest_height = unwrap_or 0 (jv_as_u64 V (jv_index V chain_info ''height''));
           stop = unwrap_or latest_height end_height
       in if stop < start_height then (s, Err (InvalidBlock ''Start height must be less than or equal to end height''))
          else and_then (check_chain_blocks V C (Rpc_Chain.heights_inclusive start_height stop) (None, 0, 0) s) (\<lambda>s (_, verified, failed).
            (s, Ok \<lparr>chr_total_blocks = stop - start_height + 1, chr_verified = verified, chr_failed = failed\<rparr>)))"

record ElectionChecks =
  elc_vote_count_matches :: bool
  elc_candidates_accounted :: bool
  elc_sum_matches :: bool
  elc_percentages_sum :: bool

definition all_checks_passed :: "ElectionChecks \<Rightarrow> bool" where
  "all_checks_passed c \<longleftrightarrow> elc_vote_count_matches c \<and> elc_candidates_accounted c \<and> elc_sum_matches c \<and> elc_percentages_sum c"

definition array_of :: "'v json_value \<Rightarrow> 'v \<Rightarrow> string \<Rightarrow> 'v list" where
  "array_of V v key = unwrap_or [] (jv_as_array V (jv_index V v key))"

definition election_checks :: "'v json_value \<Rightarrow> 'v \<Rightarrow> 'v \<Rightarrow> ElectionChecks" where
  "election_checks V election results =
     (let total_votes = unwrap_or 0 (jv_as_u64 V (jv_index V results ''total_votes''));
          election_vote_count = unwrap_or 0 (jv_as_u64 V (jv_index V election ''vote_count''));
          candidate_count = length (array_of V election ''candidates'');
          result_count = length (array_of V results ''results'');
          vote_sum = sum_list (List.map_filter (\<lambda>c. jv_as_u64 V (jv_index V c ''votes'')) (array_of V results ''results''));
          percentage_sum = fold (\<lambda>p acc. f64_add acc p)
            (List.map_filter (\<lambda>c. jv_as_f64 V (jv_index V c ''percentage'')) (array_of V results ''results'')) (Fin 0)
      in \<lparr>elc_vote_count_matches = (total_votes = election_vote_count), elc_candidates_accounted = (candidate_count = result_count),
          elc_sum_matches = (vote_sum = total_votes),
          elc_percentages_sum = f64_lt (f64_abs (f64_sub percentage_sum (f64_lit 100))) (f64_lit (1 / 10))\<rparr>)"

text \<open>\<open>None\<close>: the election is not finalized and nothing is checked.\<close>

definition verify_election_command ::
  "'v json_value \<Rightarrow> ('s, 'v) http_client \<Rightarrow> string \<Rightarrow> 's \<Rightarrow> 's \<times> ElectionChecks option outcome" where
  "verify_election_command V C election_id s =
     and_then (rpc_call V C ''get_election'' (jv_object V [(''election_id'', jv_string V election_id)]) s) (\<lambda>s election.
       if \<not> unwrap_or False (jv_as_bool V (jv_index V election ''is_finalized'')) then (s, Ok None)
       else and_then (rpc_call V C ''get_election_results'' (jv_object V [(''election_id'', jv_string V election_id)]) s) (\<lambda>s results.
         (s, Ok (Some (election_checks V election results)))))"

text \<open>The number of votes, those counted as verified and those counted as failed; \<open>None\<close> if there are no votes.\<close>

definition verify_proofs_command ::
  "'v json_value \<Rightarrow> ('s, 'v) http_client \<Rightarrow> string \<Rightarrow> 's \<Rightarrow> 's \<times> (nat \<times> 32 word \<times> 32 word) option outcome" where
  "verify_proofs_command V C election_id s =
     and_then (rpc_call V C ''search_transactions''
         (jv_object V [(''election_id'', jv_string V election_id), (''tx_type'', jv_string V ''Vote''), (''limit'', jv_u64 V 10000)]) s)
       (\<lambda>s response.
         (s, case jv_as_array V (jv_index V response ''transactions'') of
               None \<Rightarrow> Err (TransactionNotFound ''No votes found for election'')
             | Some votes \<Rightarrow>
                 if votes = [] then Ok None
                 else (let good = (\<lambda>vote. jv_is_string V (jv_index V (jv_index V vote ''data'') ''encrypted_vote''))
                       in Ok (Some (length votes, of_nat (length (filter good votes)), of_nat (length (filter (\<lambda>v. \<not> good v) votes)))))))"

section \<open>Queries\<close>

definition query_block :: "'v json_value \<Rightarrow> ('s, 'v) http_client \<Rightarrow> string \<Rightarrow> 's \<Rightarrow> 's \<times> 'v outcome" where
  "query_block V C identifier s =
     (case parse_u64 identifier of
        Some height \<Rightarrow> rpc_call V C ''get_block_by_height'' (jv_object V [(''height'', jv_u64 V height)]) s
      | None \<Rightarrow> rpc_call V C ''get_block'' (jv_object V [(''hash'', jv_string V identifier)]) s)"

definition query_validators :: "'v json_value \<Rightarrow> ('s, 'v) http_client \<Rightarrow> u64 option \<Rightarrow> 's \<Rightarrow> 's \<times> 'v outcome" where
  "query_validators V C height s =
     rpc_call V C ''get_validators'' (case height of Some h \<Rightarrow> jv_object V [(''height'', jv_u64 V h)] | None \<Rightarrow> jv_object V []) s"

definition optional_field :: "string \<Rightarrow> 'v option \<Rightarrow> (string \<times> 'v) list" where
  "optional_field key v = (case v of Some x \<Rightarrow> [(key, x)] | None \<Rightarrow> [])"

definition query_search_blocks ::
  "'v json_value \<Rightarrow> ('s, 'v) http_client \<Rightarrow> u64 option \<Rightarrow> u64 option \<Rightarrow> string option \<Rightarrow> u64 option \<Rightarrow> 's \<Rightarrow> 's \<times> 'v list outcome" where
  "query_search_blocks V C start_height end_height validator limit s =
     and_then (rpc_call V C ''search_blocks''
         (jv_object V (optional_field ''start_height'' (map_option (jv_u64 V) start_height) @
            optional_field ''end_height'' (map_option (jv_u64 V) end_height) @
            optional_field ''validator'' (map_option (jv_string V) validator) @ optional_field ''limit'' (map_option (jv_u64 V) limit))) s)
       (\<lambda>s results.
         (s, case jv_as_array V (jv_index V results ''blocks'') of
               Some blocks \<Rightarrow> Ok blocks | None \<Rightarrow> Err (BlockNotFound ''No blocks found'')))"

definition query_search_transactions ::
  "'v json_value \<Rightarrow> ('s, 'v) http_client \<Rightarrow> string option \<Rightarrow> string option \<Rightarrow> u64 option \<Rightarrow> u64 option \<Rightarrow> 's \<Rightarrow> 's \<times> 'v list outcome" where
  "query_search_transactions V C kind election_id start_height limit s =
     and_then (rpc_call V C ''search_transactions''
         (jv_object V (optional_field ''tx_type'' (map_option (jv_string V) kind) @
            optional_field ''election_id'' (map_option (jv_string V) election_id) @
            optional_field ''start_height'' (map_option (jv_u64 V) start_height) @ optional_field ''limit'' (map_option (jv_u64 V) limit))) s)
       (\<lambda>s results.
         (s, case jv_as_array V (jv_index V results ''transactions'') of
               Some transactions \<Rightarrow> Ok transactions | None \<Rightarrow> Err (TransactionNotFound ''No transactions found'')))"

section \<open>Text\<close>

text \<open>\<open>truncate\<close> of the commands: a slice of bytes, which panics inside a character.\<close>

definition truncate_str :: "rust_str \<Rightarrow> nat \<Rightarrow> rust_str outcome" where
  "truncate_str s max_len =
     (if str_len s \<le> max_len then Ok s
      else if max_len \<in> set (map (\<lambda>n. str_len (take n s)) [0..<length s])
      then Ok (take (length (filter (\<lambda>n. str_len (take n s) \<le> max_len) [1..<length s + 1])) s)
      else Panic ''byte index is not a char boundary'')"

definition format_duration :: "u64 \<Rightarrow> u32 \<Rightarrow> string" where
  "format_duration secs millis =
     (if 60 < secs then show_nat (unat (secs div 60)) @ ''m '' @ show_nat (unat (secs mod 60)) @ ''s''
      else if 0 < secs then show_nat (unat secs) @ ''.'' @ show_nat (unat (millis div 100)) @ ''s''
      else show_nat (unat millis) @ ''ms'')"

section \<open>A client of a node\<close>

text \<open>The body of a reply holds the result or the error of the dispatcher, whichever there is.\<close>

definition answers_node :: "'v json_value \<Rightarrow> 'v rpc_json \<Rightarrow> 'v RpcService \<Rightarrow> ('s, 'v) http_client \<Rightarrow> bool" where
  "answers_node V J S C \<longleftrightarrow>
     (\<forall>name params s r.
        handle_request J S \<lparr>jrq_jsonrpc = ''2.0'', jrq_method = name, jrq_params = params, jrq_id = IdNumber 1\<rparr> = Ok r \<longrightarrow>
        (\<exists>body. C (rpc_request V name params) s = (s, JsonBody body) \<and> (jv_get V body ''error'' = None \<longleftrightarrow> jrs_error r = None) \<and>
           jv_get V body ''result'' = jrs_result r))"

text \<open>What both sides rely on of \<open>serde_json\<close>: the fields of an object are read back as they were written.\<close>

definition block_json_laws :: "'v json_value \<Rightarrow> 'v rpc_json \<Rightarrow> bool" where
  "block_json_laws V J \<longleftrightarrow>
     (\<forall>h. Option.bind (json_get J (jv_object V [(''height'', jv_u64 V h)]) ''height'') (json_as_u64 J) = Some h) \<and>
     (\<forall>r. \<exists>v a. json_block J r = Ok v \<and> jv_as_str V (jv_index V v ''hash'') = Some (br_hash r) \<and>
        jv_as_str V (jv_index V v ''previous_hash'') = Some (br_previous_hash r) \<and>
        jv_as_u64 V (jv_index V v ''transaction_count'') = Some (ucast (br_transaction_count r)) \<and>
        jv_as_array V (jv_index V v ''transactions'') = Some a \<and> length a = length (br_transactions r)) \<and>
     (\<forall>i. \<exists>v. json_chain_info J i = Ok v \<and> jv_as_u64 V (jv_index V v ''height'') = Some (ci_height i))"

lemma rpc_call_node:
  assumes "answers_node V J S C" and "dispatch J S name params = Ok v"
  shows "rpc_call V C name params s = (s, Ok v)"
proof -
  have "handle_request J S \<lparr>jrq_jsonrpc = ''2.0'', jrq_method = name, jrq_params = params, jrq_id = IdNumber 1\<rparr> =
      Ok \<lparr>jrs_jsonrpc = ''2.0'', jrs_result = Some v, jrs_error = None, jrs_id = IdNumber 1\<rparr>"
    using assms(2) by (simp add: handle_request_def)
  with assms(1) obtain body where "C (rpc_request V name params) s = (s, JsonBody body)" "jv_get V body ''error'' = None"
    "jv_get V body ''result'' = Some v" unfolding answers_node_def by fastforce
  then show ?thesis by (simp add: rpc_call_def)
qed

text \<open>What the node answers about the block at position \<open>i\<close>, as the client reads it.\<close>

definition shows_block :: "'v json_value \<Rightarrow> 'z externals_scheme \<Rightarrow> Block \<Rightarrow> 'v \<Rightarrow> bool" where
  "shows_block V E b v \<longleftrightarrow>
     jv_as_str V (jv_index V v ''hash'') = Some (BlockHash_to_hex E (Block_hash b)) \<and>
     jv_as_str V (jv_index V v ''previous_hash'') = Some (BlockHash_to_hex E (Block_previous_hash b)) \<and>
     jv_as_u64 V (jv_index V v ''transaction_count'') = Some (ucast (of_nat (length (blk_transactions b)) :: u32)) \<and>
     jv_as_array V (jv_index V v ''transactions'') = Some []"

lemma node_block_answer:
  fixes J :: "'v rpc_json"
  assumes "answers_node V J (node_rpc_service E ver now n) C" and "block_json_laws V J"
    and "chain_wf E' (nrs_blockchain n)" and "length (bc_blocks (nrs_blockchain n)) \<le> 2 ^ 64"
    and "i < length (bc_blocks (nrs_blockchain n))"
  shows "\<exists>v. rpc_call V C ''get_block_by_height'' (jv_object V [(''height'', jv_u64 V (of_nat i))]) s = (s, Ok v) \<and>
    shows_block V E (bc_blocks (nrs_blockchain n) ! i) v"
proof -
  let ?b = "bc_blocks (nrs_blockchain n) ! i" and ?p = "jv_object V [(''height'', jv_u64 V (of_nat i))]"
  have "get_block_by_height (nrs_blockchain n) (of_nat i) = Ok (Some ?b)"
    using assms(4,5) by (simp add: get_block_by_height_eq [OF assms(3,4)] vec_get_def unat_of_nat)
  then have svc: "svc_get_block_by_height (node_rpc_service E ver now n :: 'v RpcService) (of_nat i) = Ok (service_block_response E ?b)"
    by (simp add: node_rpc_service_def service_get_block_by_height_def)
  obtain v a where v: "json_block J (service_block_response E ?b) = Ok v" "jv_as_array V (jv_index V v ''transactions'') = Some a"
    "length a = length (br_transactions (service_block_response E ?b))"
    "jv_as_str V (jv_index V v ''hash'') = Some (br_hash (service_block_response E ?b))"
    "jv_as_str V (jv_index V v ''previous_hash'') = Some (br_previous_hash (service_block_response E ?b))"
    "jv_as_u64 V (jv_index V v ''transaction_count'') = Some (ucast (br_transaction_count (service_block_response E ?b)))"
    using assms(2) unfolding block_json_laws_def by metis
  have "dispatch J (node_rpc_service E ver now n) ''get_block_by_height'' ?p = Ok v"
    using assms(2) svc v(1)
    by (simp add: dispatch_def handle_get_block_by_height_def extract_u64_param_def block_json_laws_def handle_answer_def)
  from rpc_call_node [OF assms(1) this] v(2-6) show ?thesis
    by (auto simp: shows_block_def service_block_response_def Block_hash_def Block_previous_hash_def)
qed

lemma ucast_u32_zero: "(ucast (x :: u32) :: u64) = 0 \<longleftrightarrow> x = 0"
  by transfer (simp add: take_bit_take_bit)

lemma check_shown_block:
  assumes "shows_block V E b v" and "prev = None \<or> prev = Some (BlockHash_to_hex E (Block_previous_hash b))"
  shows "check_chain_block V v (prev, x, y) =
    (Some (BlockHash_to_hex E (Block_hash b)),
     if of_nat (length (blk_transactions b)) = (0 :: u32) then (x + 1, y) else (x, y + 1))"
  using assms by (auto simp: check_chain_block_def shows_block_def unwrap_or_def Let_def ucast_u32_zero)

lemma count_zero: "length xs < 2 ^ 32 \<Longrightarrow> (of_nat (length xs) :: u32) = 0 \<longleftrightarrow> xs = []"
  using unat_of_nat_u32 [of "length xs"] by fastforce

text \<open>The blocks of a range, by whether they hold transactions.\<close>

definition without_transactions :: "Block list \<Rightarrow> nat \<Rightarrow> nat \<Rightarrow> nat" where
  "without_transactions bs i j = length (filter (\<lambda>k. blk_transactions (bs ! k) = []) [i..<j])"

definition with_transactions :: "Block list \<Rightarrow> nat \<Rightarrow> nat \<Rightarrow> nat" where
  "with_transactions bs i j = length (filter (\<lambda>k. blk_transactions (bs ! k) \<noteq> []) [i..<j])"

lemma check_node_blocks:
  fixes J :: "'v rpc_json"
  assumes "answers_node V J (node_rpc_service E ver now n) C" and "block_json_laws V J"
    and "chain_wf E' (nrs_blockchain n)" and "length (bc_blocks (nrs_blockchain n)) \<le> 2 ^ 64"
    and "\<forall>b \<in> set (bc_blocks (nrs_blockchain n)). length (blk_transactions b) < 2 ^ 32"
    and "j \<le> length (bc_blocks (nrs_blockchain n))" and "i \<le> j"
    and "prev = None \<or> 0 < i \<and> prev = Some (BlockHash_to_hex E (Block_hash (bc_blocks (nrs_blockchain n) ! (i - 1))))"
  shows "\<exists>prev'. check_chain_blocks V C (map of_nat [i..<j]) (prev, x, y) s =
    (s, Ok (prev', x + of_nat (without_transactions (bc_blocks (nrs_blockchain n)) i j),
            y + of_nat (with_transactions (bc_blocks (nrs_blockchain n)) i j)))"
  using assms(7,8)
proof (induction "j - i" arbitrary: i prev x y)
  case 0
  then show ?case by (simp add: without_transactions_def with_transactions_def)
next
  case (Suc d)
  let ?bs = "bc_blocks (nrs_blockchain n)"
  have ij: "i < j" "d = j - Suc i" using Suc.hyps(2) by simp_all
  then have i: "i < length ?bs" using assms(6) by simp
  from node_block_answer [OF assms(1-4) i] obtain v where
    v: "rpc_call V C ''get_block_by_height'' (jv_object V [(''height'', jv_u64 V (of_nat i))]) s = (s, Ok v)" "shows_block V E (?bs ! i) v"
    by blast
  have "prev = None \<or> prev = Some (BlockHash_to_hex E (Block_previous_hash (?bs ! i)))"
    using Suc.prems(2) i assms(3) unfolding chain_wf_def blocks_wf_def chain_linked_def by metis
  note step = check_shown_block [OF v(2) this]
  have "length (blk_transactions (?bs ! i)) < 2 ^ 32" using assms(5) i by simp
  note none = count_zero [OF this]
  have split: "[i..<j] = i # [Suc i..<j]" using ij(1) by (simp add: upt_rec)
  note IH = Suc.hyps(1) [OF ij(2), of "Some (BlockHash_to_hex E (Block_hash (?bs ! i)))"]
  show ?case
  proof (cases "blk_transactions (?bs ! i) = []")
    case True
    with IH [of "x + 1" y] ij(1) show ?thesis
      by (simp add: split v(1) step none without_transactions_def with_transactions_def algebra_simps)
  next
    case False
    with IH [of x "y + 1"] ij(1) show ?thesis
      by (simp add: split v(1) step none without_transactions_def with_transactions_def algebra_simps)
  qed
qed

lemma node_chain_info:
  fixes J :: "'v rpc_json"
  assumes "answers_node V J (node_rpc_service E ver now n) C" and "block_json_laws V J"
    and "chain_wf E' (nrs_blockchain n)" and "length (bc_blocks (nrs_blockchain n)) \<le> 2 ^ 64"
  shows "\<exists>v. call_no_params V C ''chain_info'' s = (s, Ok v) \<and> jv_as_u64 V (jv_index V v ''height'') = Some (bc_height (nrs_blockchain n))"
proof -
  have "bc_blocks (nrs_blockchain n) \<noteq> []" using assms(3) by (simp add: chain_wf_def blocks_wf_def)
  then obtain i where i: "svc_chain_info (node_rpc_service E ver now n :: 'v RpcService) = Ok i" "ci_height i = bc_height (nrs_blockchain n)"
    by (simp add: node_rpc_service_def service_chain_info_def get_best_block_def vec_last_def
        get_block_by_height_eq [OF assms(3,4)] vec_get_def)
  obtain v where v: "json_chain_info J i = Ok v" "jv_as_u64 V (jv_index V v ''height'') = Some (ci_height i)"
    using assms(2) unfolding block_json_laws_def by blast
  have "dispatch J (node_rpc_service E ver now n) ''chain_info'' (jv_object V []) = Ok v"
    using i(1) v(1) by (simp add: dispatch_def handle_chain_info_def handle_answer_def)
  from rpc_call_node [OF assms(1) this] v(2) i(2) show ?thesis by (simp add: call_no_params_def)
qed

lemma map_nth_drop: "map ((!) xs) [i..<length xs] = drop i xs"
  by (intro nth_equalityI) simp_all

lemma filter_range: "length (filter (\<lambda>k. P (bs ! k)) [i..<length bs]) = length (filter P (drop i bs))"
  by (simp add: map_nth_drop [symmetric] filter_map comp_def)

section \<open>What a search misses\<close>

text \<open>The empty receipt is contained in every identifier.\<close>

lemma str_contains_empty [simp]: "str_contains s []"
  by (cases s) simp_all

lemma empty_receipt_found:
  assumes "rpc_call V C ''search_transactions'' (jv_object V [(''tx_type'', jv_string V ''Vote''), (''limit'', jv_u64 V 1000)]) s = (s', Ok r)"
    and "jv_as_array V (jv_index V r ''transactions'') = Some (tx # txs)" and "jv_as_str V (jv_index V tx ''id'') = Some i"
  shows "verify_receipt V C [] s = (s', Ok tx)"
  using assms by (simp add: verify_receipt_def receipt_matches_def)

text \<open>A limit above the maximum of the interface is cut down to it, so that the commands see at most 100 votes.\<close>

lemma search_limit_cut: "query_page (Some 10000) = 100" "query_page (Some 1000) = 100"
  by (simp_all add: query_page_def MAX_QUERY_LIMIT_def)

lemma truncate_panics: "truncate_str (ustr ''Caf'' @ [233]) 4 = Panic ''byte index is not a char boundary''"
  by code_simp

section \<open>Properties\<close>

text \<open>
  C33: The chain command on a node: for a reachable chain of at most \<open>2 ^ 31\<close> blocks, it reports as
  verified exactly the blocks from the start height on that hold no transaction and as failed exactly
  those that hold one, because the service of a node sends the number of transactions of a block but
  not the transactions. No link between blocks is reported as broken.
\<close>

theorem cli_chain_report:
  fixes J :: "'v rpc_json"
  assumes "answers_node V J (node_rpc_service E ver now n) C" and "block_json_laws V J"
    and "reachable_chain E' (nrs_blockchain n)" and "length (bc_blocks (nrs_blockchain n)) < 2 ^ 31"
    and "\<forall>b \<in> set (bc_blocks (nrs_blockchain n)). length (blk_transactions b) < 2 ^ 32"
    and "start \<le> bc_height (nrs_blockchain n)"
  shows "\<exists>r. verify_chain_command V C start None s = (s, Ok r) \<and>
    unat (chr_verified r) = length (filter (\<lambda>b. blk_transactions b = []) (drop (unat start) (bc_blocks (nrs_blockchain n)))) \<and>
    unat (chr_failed r) = length (filter (\<lambda>b. blk_transactions b \<noteq> []) (drop (unat start) (bc_blocks (nrs_blockchain n))))"
proof -
  let ?bs = "bc_blocks (nrs_blockchain n)"
  have wf: "chain_wf E' (nrs_blockchain n)" and len: "length ?bs \<le> 2 ^ 64" using reachable_chain_wf [OF assms(3)] assms(4) by simp_all
  have height: "unat (bc_height (nrs_blockchain n)) + 1 = length ?bs"
    using wf assms(4) by (simp add: chain_wf_def blocks_wf_def unat_of_nat)
  obtain v where v: "call_no_params V C ''chain_info'' s = (s, Ok v)" "jv_as_u64 V (jv_index V v ''height'') = Some (bc_height (nrs_blockchain n))"
    using node_chain_info [OF assms(1,2) wf len] by blast
  have "unat start \<le> length ?bs" using assms(6) height by (simp add: word_le_nat_alt)
  from check_node_blocks [OF assms(1,2) wf len assms(5) order_refl this, of None 0 0 s] obtain prev where
    "check_chain_blocks V C (map of_nat [unat start..<length ?bs]) (None, 0, 0) s =
      (s, Ok (prev, of_nat (without_transactions ?bs (unat start) (length ?bs)), of_nat (with_transactions ?bs (unat start) (length ?bs))))"
    by auto
  moreover have "Rpc_Chain.heights_inclusive start (bc_height (nrs_blockchain n)) = map of_nat [unat start..<length ?bs]"
    unfolding Rpc_Chain.heights_inclusive_def height ..
  ultimately have "verify_chain_command V C start None s =
      (s, Ok \<lparr>chr_total_blocks = bc_height (nrs_blockchain n) - start + 1,
        chr_verified = of_nat (without_transactions ?bs (unat start) (length ?bs)),
        chr_failed = of_nat (with_transactions ?bs (unat start) (length ?bs))\<rparr>)"
    using assms(6) by (simp add: verify_chain_command_def v unwrap_or_def not_less Let_def)
  moreover have "without_transactions ?bs (unat start) (length ?bs) < 2 ^ 32" "with_transactions ?bs (unat start) (length ?bs) < 2 ^ 32"
    using le_less_trans [OF length_filter_le, of "[unat start..<length ?bs]" "2 ^ 32"] assms(4)
    unfolding without_transactions_def with_transactions_def by simp_all
  ultimately show ?thesis
    using filter_range [of "\<lambda>b. blk_transactions b = []" ?bs "unat start"] filter_range [of "\<lambda>b. blk_transactions b \<noteq> []" ?bs "unat start"]
    by (simp add: unat_of_nat_u32 without_transactions_def with_transactions_def)
qed

text \<open>A sample of JSON values, of their two views and of a client.\<close>

datatype sample_value = SNum u64 | SStr string | SArr "sample_value list" | SObj "(string \<times> sample_value) list"

fun sample_field :: "sample_value \<Rightarrow> string \<Rightarrow> sample_value option" where
  "sample_field (SObj fs) key = map_of fs key"
| "sample_field v key = None"

fun sample_str :: "sample_value \<Rightarrow> string option" where
  "sample_str (SStr t) = Some t"
| "sample_str v = None"

fun sample_u64 :: "sample_value \<Rightarrow> u64 option" where
  "sample_u64 (SNum k) = Some k"
| "sample_u64 v = None"

fun sample_array :: "sample_value \<Rightarrow> sample_value list option" where
  "sample_array (SArr vs) = Some vs"
| "sample_array v = None"

definition sample_view :: "sample_value json_value" where
  "sample_view =
     \<lparr>jv_index = (\<lambda>v key. unwrap_or (SObj []) (sample_field v key)), jv_get = sample_field, jv_as_str = sample_str, jv_as_u64 = sample_u64,
      jv_as_bool = (\<lambda>v. None), jv_as_f64 = (\<lambda>v. None), jv_as_array = sample_array, jv_is_string = (\<lambda>v. sample_str v \<noteq> None),
      jv_object = SObj, jv_string = SStr, jv_u64 = SNum\<rparr>"

definition sample_values :: "sample_value rpc_json" where
  "sample_values =
     \<lparr>json_get = sample_field, json_as_str = sample_str, json_as_u64 = sample_u64, json_is_null = (\<lambda>v. False),
      json_object_empty = (\<lambda>v. Some (v = SObj [])), block_query_of = (\<lambda>v. Err ''unknown''), transaction_query_of = (\<lambda>v. Err ''unknown''),
      verify_request_of = (\<lambda>v. Err ''unknown''), json_node_info = (\<lambda>x. Ok (SObj [])), json_health = (\<lambda>x. Ok (SObj [])),
      json_sync_status = (\<lambda>x. Ok (SObj [])), json_chain_info = (\<lambda>i. Ok (SObj [(''height'', SNum (ci_height i))])),
      json_block = (\<lambda>r. Ok (SObj [(''hash'', SStr (br_hash r)), (''previous_hash'', SStr (br_previous_hash r)),
        (''transaction_count'', SNum (ucast (br_transaction_count r))), (''transactions'', SArr (map (\<lambda>t. SStr (tsu_id t)) (br_transactions r)))])),
      json_transaction = (\<lambda>x. Ok (SObj [])), json_blocks = (\<lambda>x. Ok (SObj [])), json_transactions = (\<lambda>x. Ok (SObj [])),
      json_vote = (\<lambda>x. Ok (SObj [])), json_election = (\<lambda>x. Ok (SObj [])), json_results = (\<lambda>x. Ok (SObj [])),
      json_submit = (\<lambda>x. Ok (SObj [])), json_verify = (\<lambda>x. Ok (SObj [])), json_validators = (\<lambda>x. Ok (SObj [])),
      json_validator = (\<lambda>x. Ok (SObj [])), json_peers = (\<lambda>x. Ok (SObj [])), json_mempool = (\<lambda>x. Ok (SObj [])),
      json_raw_transaction = (\<lambda>x. Ok (SObj []))\<rparr>"

definition sample_client :: "sample_value RpcService \<Rightarrow> (unit, sample_value) http_client" where
  "sample_client S request s =
     (case (Option.bind (sample_field request ''method'') sample_str, sample_field request ''params'') of
        (Some name, Some params) \<Rightarrow>
          (case handle_request sample_values S \<lparr>jrq_jsonrpc = ''2.0'', jrq_method = name, jrq_params = params, jrq_id = IdNumber 1\<rparr> of
             Ok r \<Rightarrow> (s, JsonBody (SObj (optional_field ''result'' (jrs_result r) @
               optional_field ''error'' (map_option (\<lambda>e. SObj [(''message'', SStr (jre_message e))]) (jrs_error r)))))
           | Err e \<Rightarrow> (s, SendFailed []) | Panic m \<Rightarrow> (s, SendFailed m))
      | _ \<Rightarrow> (s, SendFailed ''bad request''))"

lemma sample_client_answers: "answers_node sample_view sample_values S (sample_client S)"
  by (auto simp: answers_node_def sample_client_def rpc_request_def sample_view_def optional_field_def split: option.splits)

lemma sample_block_json: "block_json_laws sample_view sample_values"
  by (simp add: block_json_laws_def sample_view_def sample_values_def unwrap_or_def)

lemma sample_chain2_transactions: "map (\<lambda>b. length (blk_transactions b)) (bc_blocks sample_chain2) = [1, 0]"
proof -
  obtain b where b: "create_block sample_env 0 (GenesisBlock_new [sample_key 1] 1000) = Ok b"
    using sample_chain_new by (auto simp: Blockchain_new_Ok)
  then have chain: "bc_blocks sample_chain = [b]" by (simp add: sample_chain_def Blockchain_new_def Let_def)
  have "length (map (\<lambda>tx. registered_key (tx_type tx)) (blk_transactions b)) = length (map Some [sample_key 1])"
    using create_block_valid [OF b] by (simp add: GenesisBlock_new_def)
  moreover have "blk_transactions (sample_block b []) = []" using Block_new_fields(4) [OF sample_block_new] .
  ultimately show ?thesis using chain by (simp add: sample_chain2_def append_block_def Let_def)
qed

theorem cli_chain_report_witness:
  "\<exists>r. verify_chain_command sample_view (sample_client (node_rpc_service sample_env ''0.1.0'' 0 sample_rpc_service)) 0 None () = ((), Ok r) \<and>
     unat (chr_verified r) = 1 \<and> unat (chr_failed r) = 1"
proof -
  obtain a b where ab: "bc_blocks sample_chain2 = [a, b]" "length (blk_transactions a) = 1" "length (blk_transactions b) = 0"
    using sample_chain2_transactions by (auto simp: map_eq_Cons_conv)
  then have "\<forall>b \<in> set (bc_blocks (nrs_blockchain sample_rpc_service)). length (blk_transactions b) < 2 ^ 32"
    by (simp add: sample_rpc_service_def)
  from cli_chain_report [OF sample_client_answers sample_block_json _ _ this, of sample_env 0 sample_env "''0.1.0''" 0 "()"]
  show ?thesis
    using sample_chain2_reachable ab by (auto simp: sample_rpc_service_def)
qed

end
