(* ===== verification/Cli_Node.thy ===== *)
theory Cli_Node
  imports Cli Key_Files
begin

text \<open>
  \<open>cli/src/commands/{node,keygen,genesis}.rs\<close>: starting and stopping a node in the background, its status,
  and the files a network is set up with. Processes are the record \<open>processes\<close> over the state \<open>'w\<close>
  of the machine, whose files are a \<open>file_system\<close>. Paths are strings; what is drawn and read from the
  clock is an argument.
\<close>

section \<open>Processes\<close>

record 'w processes =
  px_files :: "'w file_system"
  px_temp_dir :: string
  px_which :: "'w \<Rightarrow> string \<Rightarrow> bool"
  px_spawn :: "'w \<Rightarrow> string \<Rightarrow> string list \<Rightarrow> 'w \<times> (u32, string) result"
  px_kill :: "'w \<Rightarrow> 32 word \<Rightarrow> 'w \<times> (unit, string) result"

text \<open>\<open>path.join(name)\<close> of a relative name\<close>

definition path_join :: "string \<Rightarrow> string \<Rightarrow> string" where
  "path_join dir name = (if dir = [] \<or> last dir = CHR ''/'' then dir @ name else dir @ ''/'' @ name)"

text \<open>\<open>s.trim()\<close> and \<open>s.split(c)\<close> of an ASCII string\<close>

definition ascii_space :: "char \<Rightarrow> bool" where
  "ascii_space c \<longleftrightarrow> (of_char c :: nat) < 128 \<and> is_whitespace (of_char c)"

definition trim_string :: "string \<Rightarrow> string" where
  "trim_string s = rev (dropWhile ascii_space (rev (dropWhile ascii_space s)))"

fun split_char :: "char \<Rightarrow> string \<Rightarrow> string list" where
  "split_char sep [] = [[]]"
| "split_char sep (c # cs) =
     (if c = sep then [] # split_char sep cs
      else (case split_char sep cs of part # rest \<Rightarrow> (c # part) # rest | [] \<Rightarrow> [[c]]))"

section \<open>The pid file\<close>

definition get_pid_file :: "'w processes \<Rightarrow> string" where
  "get_pid_file P = path_join (px_temp_dir P) ''voting-node.pid''"

definition save_pid :: "'w processes \<Rightarrow> u32 \<Rightarrow> 'w \<Rightarrow> 'w \<times> unit outcome" where
  "save_pid P pid w =
     (case fs_write_string (px_files P) w (get_pid_file P) (show_nat (unat pid)) of
        (w', r) \<Rightarrow> (w', rbind (map_err (\<lambda>e. ConfigError (''Failed to save PID: '' @ e)) r) (\<lambda>_. Ok ())))"

definition load_pid :: "'w processes \<Rightarrow> 'w \<Rightarrow> u32 outcome" where
  "load_pid P w =
     (if \<not> fs_exists (px_files P) w (get_pid_file P) then Err (ConfigError ''No running node found (PID file not found)'')
      else rbind (map_err (\<lambda>e. ConfigError (''Failed to read PID: '' @ e)) (fs_read_to_string (px_files P) w (get_pid_file P))) (\<lambda>pid_str.
        map_err (\<lambda>e. ConfigError (''Invalid PID: '' @ e)) (rbind (parse_unsigned (2 ^ 32) (trim_string pid_str)) (\<lambda>n. Ok (of_nat n)))))"

definition remove_pid :: "'w processes \<Rightarrow> 'w \<Rightarrow> 'w \<times> unit outcome" where
  "remove_pid P w =
     (if fs_exists (px_files P) w (get_pid_file P)
      then (case fs_remove_file (px_files P) w (get_pid_file P) of
              (w', r) \<Rightarrow> (w', rbind (map_err (\<lambda>e. ConfigError (''Failed to remove PID file: '' @ e)) r) (\<lambda>_. Ok ())))
      else (w, Ok ()))"

section \<open>Starting and stopping\<close>

definition find_binary :: "'w processes \<Rightarrow> 'w \<Rightarrow> string \<Rightarrow> string outcome" where
  "find_binary P w name =
     (let cargo_target = path_join ''target/release'' name; cargo_target_debug = path_join ''target/debug'' name in
      if fs_exists (px_files P) w cargo_target then Ok cargo_target
      else if fs_exists (px_files P) w cargo_target_debug then Ok cargo_target_debug
      else if px_which P w name then Ok name
      else Err (ConfigError (''Binary '' @ [CHR 0x27] @ name @ [CHR 0x27] @ '' not found. Please build the project first.'')))"

record StartOptions =
  sto_node_type :: string
  sto_genesis :: "string option"
  sto_validator_key :: "string option"
  sto_data_dir :: "string option"
  sto_enable_rpc :: bool
  sto_rpc_addr :: string
  sto_enable_metrics :: bool
  sto_metrics_addr :: string

definition binary_name :: "string \<Rightarrow> string option" where
  "binary_name node_type_lower =
     (if node_type_lower = ''validator'' then Some ''validator-node''
      else if node_type_lower = ''full'' then Some ''full-node''
      else if node_type_lower = ''light'' then Some ''light-client''
      else None)"

definition option_arg :: "string \<Rightarrow> string option \<Rightarrow> string list" where
  "option_arg name v = (case v of Some x \<Rightarrow> [name, x] | None \<Rightarrow> [])"

definition start_args :: "StartOptions \<Rightarrow> string list" where
  "start_args opt =
     option_arg ''--genesis'' (sto_genesis opt) @ option_arg ''--validator-key'' (sto_validator_key opt) @
     option_arg ''--data-dir'' (sto_data_dir opt) @
     (if sto_enable_rpc opt then [''--enable-rpc'', ''--rpc-addr'', sto_rpc_addr opt] else []) @
     (if sto_enable_metrics opt then [''--enable-metrics'', ''--metrics-addr'', sto_metrics_addr opt] else [])"

definition node_start_command :: "(string \<Rightarrow> string) \<Rightarrow> 'w processes \<Rightarrow> StartOptions \<Rightarrow> 'w \<Rightarrow> 'w \<times> u32 outcome" where
  "node_start_command to_lowercase P opt w =
     (case binary_name (to_lowercase (sto_node_type opt)) of
        None \<Rightarrow>
          (w, Err (ConfigError (''Invalid node type: '' @ sto_node_type opt @ ''. Must be '' @ [CHR 0x27] @ ''validator'' @ [CHR 0x27] @ '', '' @
              [CHR 0x27] @ ''full'' @ [CHR 0x27] @ '', or '' @ [CHR 0x27] @ ''light'' @ [CHR 0x27])))
      | Some name \<Rightarrow>
          if to_lowercase (sto_node_type opt) = ''validator'' \<and> sto_validator_key opt = None
          then (w, Err (ConfigError ''Validator nodes require --validator-key''))
          else and_then (w, find_binary P w name) (\<lambda>w binary_path.
            and_then (case px_spawn P w binary_path (start_args opt) of
                (w', r) \<Rightarrow> (w', map_err (\<lambda>e. ConfigError (''Failed to start node: '' @ e)) r)) (\<lambda>w pid.
            and_then (save_pid P pid w) (\<lambda>w _. (w, Ok pid)))))"

definition node_stop_command :: "'w processes \<Rightarrow> 'w \<Rightarrow> 'w \<times> unit outcome" where
  "node_stop_command P w =
     and_then (w, load_pid P w) (\<lambda>w pid.
     and_then (case px_kill P w pid of (w', r) \<Rightarrow> (w', map_err (\<lambda>e. ConfigError (''Failed to stop node: '' @ e)) r)) (\<lambda>w _.
     and_then (remove_pid P w) (\<lambda>w _. (w, Ok ()))))"

section \<open>Status\<close>

text \<open>The reply about the node, and about its synchronization if that call succeeds.\<close>

definition node_status_command :: "'v json_value \<Rightarrow> ('s, 'v) http_client \<Rightarrow> 's \<Rightarrow> 's \<times> ('v \<times> 'v option) outcome" where
  "node_status_command V C s =
     (case call_no_params V C ''node_info'' s of
        (s, Ok info) \<Rightarrow> (case call_no_params V C ''sync_status'' s of (s, Ok synced) \<Rightarrow> (s, Ok (info, Some synced)) | (s, _) \<Rightarrow> (s, Ok (info, None)))
      | (s, Err e) \<Rightarrow> (s, Err e)
      | (s, Panic m) \<Rightarrow> (s, Panic m))"

definition node_info_command :: "'v json_value \<Rightarrow> ('s, 'v) http_client \<Rightarrow> 's \<Rightarrow> 's \<times> ('v \<times> 'v \<times> 'v) outcome" where
  "node_info_command V C s =
     and_then (call_no_params V C ''node_info'' s) (\<lambda>s node_info.
     and_then (call_no_params V C ''chain_info'' s) (\<lambda>s chain_info.
     and_then (call_no_params V C ''health'' s) (\<lambda>s health. (s, Ok (node_info, chain_info, health)))))"

definition format_eta :: "u64 \<Rightarrow> string" where
  "format_eta seconds =
     (let hours = seconds div 3600; minutes = (seconds mod 3600) div 60; secs = seconds mod 60 in
      if 0 < hours then show_nat (unat hours) @ ''h '' @ show_nat (unat minutes) @ ''m''
      else if 0 < minutes then show_nat (unat minutes) @ ''m '' @ show_nat (unat secs) @ ''s''
      else show_nat (unat secs) @ ''s'')"

section \<open>Keys and the genesis\<close>

definition generate_keys ::
  "'w file_system \<Rightarrow> 'z key_externals_scheme \<Rightarrow> 32 bytes \<Rightarrow> rust_str \<Rightarrow> string \<Rightarrow> 'w \<Rightarrow> 'w \<times> unit outcome" where
  "generate_keys F E seed salt path w =
     and_then (KeyPair_save_to_file F E salt (KeyPair_generate E seed) path [] w) (\<lambda>w _. (w, Ok ()))"

definition show_public_key :: "'w file_system \<Rightarrow> 'z key_externals_scheme \<Rightarrow> string \<Rightarrow> 'w \<Rightarrow> string outcome" where
  "show_public_key F E path w =
     rbind (KeyPair_load_from_file F E path [] w) (\<lambda>keypair. Ok (''Public Key: '' @ cpk_to_hex E (kp_public keypair)))"

text \<open>The display of the error of a key file is the argument \<open>show_error\<close>.\<close>

definition load_public_key ::
  "(VotingError \<Rightarrow> string) \<Rightarrow> 'w file_system \<Rightarrow> 'z key_externals_scheme \<Rightarrow> 'w \<Rightarrow> string \<Rightarrow> PublicKey outcome" where
  "load_public_key show_error F E w path =
     (let path = trim_string path in
      rbind (map_err (\<lambda>e. ConfigError (''Failed to load key from '' @ path @ '': '' @ show_error e)) (KeyPair_load_from_file F E path [] w)) (\<lambda>keypair.
        Ok (PublicKey (cpk_bytes (kp_public keypair)))))"

text \<open>\<open>genesis.to_file(path)\<close> on the disk\<close>

definition genesis_to_disk ::
  "'w file_system \<Rightarrow> (GenesisBlock \<Rightarrow> (string, string) result) \<Rightarrow> GenesisBlock \<Rightarrow> string \<Rightarrow> 'w \<Rightarrow> 'w \<times> unit outcome" where
  "genesis_to_disk F to_string_pretty g path w =
     and_then (w, GenesisBlock_validate g) (\<lambda>w _.
     and_then (w, map_err (\<lambda>e. GenesisError (''Failed to serialize: '' @ e)) (to_string_pretty g)) (\<lambda>w json.
       case fs_write_string F w path json of
         (w', r) \<Rightarrow> (w', rbind (map_err (\<lambda>e. GenesisError (''Failed to write file: '' @ e)) r) (\<lambda>_. Ok ()))))"

definition generate_genesis ::
  "(VotingError \<Rightarrow> string) \<Rightarrow> 'w file_system \<Rightarrow> 'z key_externals_scheme \<Rightarrow> 'x tx_externals_scheme \<Rightarrow> (GenesisBlock \<Rightarrow> (string, string) result) \<Rightarrow>
   Timestamp \<Rightarrow> string \<Rightarrow> string \<Rightarrow> string \<Rightarrow> 'w \<Rightarrow> 'w \<times> BlockHash outcome" where
  "generate_genesis show_error F E T to_string_pretty now validator_keys chain_id out w =
     (let key_paths = split_char (CHR '','') validator_keys in
      if key_paths = [] then (w, Err (ConfigError ''At least one validator key required''))
      else and_then (w, for_collect (load_public_key show_error F E w) key_paths) (\<lambda>w public_keys.
        let genesis = builder_build now (builder_timestamp now (builder_network_name (chain_id @ '' Network'')
              (builder_chain_id chain_id (builder_add_validators public_keys GenesisBuilder_new))))
        in and_then (genesis_to_disk F to_string_pretty genesis out w) (\<lambda>w _.
             and_then (w, GenesisBlock_calculate_hash T now genesis) (\<lambda>w genesis_hash. (w, Ok genesis_hash)))))"

section \<open>The pid file holds the newest node\<close>

lemma digit_not_space: "to_digit c \<noteq> None \<Longrightarrow> \<not> ascii_space c"
  by (auto simp: to_digit_def ascii_space_def is_whitespace_def Let_def split: if_splits)

lemma trim_string_id:
  assumes "s = [] \<or> \<not> ascii_space (hd s) \<and> \<not> ascii_space (last s)"
  shows "trim_string s = s"
proof (cases "s = []")
  case False
  have "dropWhile ascii_space s = s" using False assms by (cases s) auto
  moreover have "dropWhile ascii_space (rev s) = rev s" using False assms by (cases s rule: rev_cases) auto
  ultimately show ?thesis by (simp add: trim_string_def)
qed (simp add: trim_string_def)

lemma trim_show_nat: "trim_string (show_nat n) = show_nat n"
proof -
  have "\<not> ascii_space c" if "c \<in> set (show_nat n)" for c using that show_nat_digits digit_not_space by blast
  then show ?thesis by (simp add: trim_string_id)
qed

lemma load_after_save:
  assumes "fs_laws (px_files P)" and "save_pid P pid w = (w', Ok ())"
  shows "load_pid P w' = Ok pid"
proof -
  have "fs_write_string (px_files P) w (get_pid_file P) (show_nat (unat pid)) = (w', Ok ())"
    using assms(2) by (simp add: save_pid_def write_Ok)
  then have "fs_exists (px_files P) w' (get_pid_file P)" "fs_read_to_string (px_files P) w' (get_pid_file P) = Ok (show_nat (unat pid))"
    using assms(1) unfolding fs_laws_def by blast+
  moreover have "unat pid < 2 ^ 32" using unsigned_less [of pid, where 'a = nat] by simp
  ultimately show ?thesis by (simp add: load_pid_def trim_show_nat parse_unsigned_show)
qed

lemma start_spawns:
  assumes "node_start_command to_lowercase P opt w = (w', Ok pid)"
  shows "\<exists>name path w1. binary_name (to_lowercase (sto_node_type opt)) = Some name \<and> find_binary P w name = Ok path \<and>
    px_spawn P w path (start_args opt) = (w1, Ok pid) \<and> save_pid P pid w1 = (w', Ok ())"
  using assms by (auto simp: node_start_command_def and_then_eq_pair map_err_eq_Ok split_beta split: option.splits if_splits)
    (metis prod.collapse)+

lemma start_saves:
  assumes "node_start_command to_lowercase P opt w = (w', Ok pid)"
  shows "\<exists>w1. save_pid P pid w1 = (w', Ok ())"
  using start_spawns [OF assms] by blast

lemma not_running_after_removal:
  assumes "fs_laws (px_files P)" and "remove_pid P w = (w', Ok ())"
  shows "\<not> fs_exists (px_files P) w' (get_pid_file P)"
proof (cases "fs_exists (px_files P) w (get_pid_file P)")
  case True
  then have "fs_remove_file (px_files P) w (get_pid_file P) = (w', Ok ())"
    using assms(2) by (simp add: remove_pid_def write_Ok)
  then show ?thesis using assms(1) unfolding fs_laws_def by blast
qed (use assms(2) in \<open>simp add: remove_pid_def\<close>)

text \<open>A second start overwrites the pid of the first node, which no command can stop any more.\<close>

lemma second_start_orphans:
  assumes "fs_laws (px_files P)" and "node_start_command lower P a w = (w1, Ok p)" and "node_start_command lower P b w1 = (w2, Ok q)"
  shows "load_pid P w2 = Ok q"
  using start_saves [OF assms(3)] load_after_save [OF assms(1)] by blast

lemma start_refused:
  assumes "binary_name (lower (sto_node_type opt)) = None \<or>
            lower (sto_node_type opt) = ''validator'' \<and> sto_validator_key opt = None \<or>
            (\<exists>name. binary_name (lower (sto_node_type opt)) = Some name \<and> \<not> is_ok (find_binary P w name))"
  shows "\<exists>r. node_start_command lower P opt w = (w, r) \<and> \<not> is_ok r"
proof (cases "binary_name (lower (sto_node_type opt))")
  case (Some name)
  show ?thesis
  proof (cases "lower (sto_node_type opt) = ''validator'' \<and> sto_validator_key opt = None")
    case True
    with Some show ?thesis by (simp add: node_start_command_def)
  next
    case False
    with assms Some have "\<not> is_ok (find_binary P w name)" by auto
    with Some False show ?thesis by (cases "find_binary P w name") (auto simp: node_start_command_def)
  qed
qed (simp add: node_start_command_def)

text \<open>The light node is looked for under a name that no binary of the workspace has.\<close>

lemma light_node_name: "binary_name ''light'' = Some ''light-client''"
  by (simp add: binary_name_def)

text \<open>
  C39: a start that succeeds spawns one process, from the binary of the node type with the arguments of the options, and does
  nothing else but write the number of that process to the pid file. A later stop that succeeds kills exactly that
  process and does nothing else but remove the file, after which no node is found. A start that is refused for its type,
  for a missing validator key or because no binary is found changes nothing.
\<close>

theorem node_start_stop:
  assumes "fs_laws (px_files P)"
  shows "(\<forall>w1 pid. node_start_command lower P opt w = (w1, Ok pid) \<longrightarrow>
            (\<exists>name path w0. binary_name (lower (sto_node_type opt)) = Some name \<and> find_binary P w name = Ok path \<and>
               px_spawn P w path (start_args opt) = (w0, Ok pid) \<and>
               fs_write_string (px_files P) w0 (get_pid_file P) (show_nat (unat pid)) = (w1, Ok ())) \<and>
            load_pid P w1 = Ok pid \<and>
            (\<forall>w2. node_stop_command P w1 = (w2, Ok ()) \<longrightarrow>
               (\<exists>w'. px_kill P w1 pid = (w', Ok ()) \<and>
                  (if fs_exists (px_files P) w' (get_pid_file P) then fs_remove_file (px_files P) w' (get_pid_file P) = (w2, Ok ()) else w2 = w')) \<and>
               load_pid P w2 = Err (ConfigError ''No running node found (PID file not found)''))) \<and>
         (binary_name (lower (sto_node_type opt)) = None \<or>
            lower (sto_node_type opt) = ''validator'' \<and> sto_validator_key opt = None \<or>
            (\<exists>name. binary_name (lower (sto_node_type opt)) = Some name \<and> \<not> is_ok (find_binary P w name)) \<longrightarrow>
          fst (node_start_command lower P opt w) = w \<and> \<not> is_ok (snd (node_start_command lower P opt w)))"
proof (intro conjI allI impI)
  fix w1 pid
  assume start: "node_start_command lower P opt w = (w1, Ok pid)"
  then show "\<exists>name path w0. binary_name (lower (sto_node_type opt)) = Some name \<and> find_binary P w name = Ok path \<and>
      px_spawn P w path (start_args opt) = (w0, Ok pid) \<and>
      fs_write_string (px_files P) w0 (get_pid_file P) (show_nat (unat pid)) = (w1, Ok ())"
    using start_spawns [OF start] by (simp add: save_pid_def write_Ok)
  show load: "load_pid P w1 = Ok pid" using start_saves [OF start] load_after_save [OF assms] by blast
  fix w2
  assume "node_stop_command P w1 = (w2, Ok ())"
  then obtain w' where kill: "px_kill P w1 pid = (w', Ok ())" and remove: "remove_pid P w' = (w2, Ok ())"
    using load by (auto simp: node_stop_command_def outcome_simps split: prod.split_asm)
  from not_running_after_removal [OF assms remove]
  show "load_pid P w2 = Err (ConfigError ''No running node found (PID file not found)'')" by (simp add: load_pid_def)
  show "\<exists>w'. px_kill P w1 pid = (w', Ok ()) \<and>
      (if fs_exists (px_files P) w' (get_pid_file P) then fs_remove_file (px_files P) w' (get_pid_file P) = (w2, Ok ()) else w2 = w')"
    using kill remove by (intro exI [of _ w']) (auto simp: remove_pid_def write_Ok split: if_splits)
next
  assume "binary_name (lower (sto_node_type opt)) = None \<or>
            lower (sto_node_type opt) = ''validator'' \<and> sto_validator_key opt = None \<or>
            (\<exists>name. binary_name (lower (sto_node_type opt)) = Some name \<and> \<not> is_ok (find_binary P w name))"
  from start_refused [of lower opt P w, OF this]
  show "fst (node_start_command lower P opt w) = w" "\<not> is_ok (snd (node_start_command lower P opt w))" by auto
qed

text \<open>A machine with one binary, on which every process gets the number 4711.\<close>

definition sample_machine :: "sample_disk processes" where
  "sample_machine =
     \<lparr>px_files = sample_files, px_temp_dir = ''/tmp'', px_which = (\<lambda>w name. name = ''full-node''),
      px_spawn = (\<lambda>w path args. (w, Ok 4711)), px_kill = (\<lambda>w pid. (w, if pid = 4711 then Ok () else Err ''No such process''))\<rparr>"

definition sample_options :: StartOptions where
  "sample_options =
     \<lparr>sto_node_type = ''full'', sto_genesis = Some ''genesis.json'', sto_validator_key = None, sto_data_dir = None,
      sto_enable_rpc = True, sto_rpc_addr = ''127.0.0.1:8545'', sto_enable_metrics = False, sto_metrics_addr = ''127.0.0.1:9090''\<rparr>"

theorem node_start_stop_witness:
  "\<exists>w1 w2. node_start_command (\<lambda>s. s) sample_machine sample_options (fmempty, fmempty) = (w1, Ok 4711) \<and>
     load_pid sample_machine w1 = Ok 4711 \<and> node_stop_command sample_machine w1 = (w2, Ok ()) \<and>
     load_pid sample_machine w2 = Err (ConfigError ''No running node found (PID file not found)'')"
proof -
  have laws: "fs_laws (px_files sample_machine)" by (simp add: sample_machine_def sample_fs_laws)
  have "\<exists>w1. node_start_command (\<lambda>s. s) sample_machine sample_options (fmempty, fmempty) = (w1, Ok 4711)"
    by (simp add: node_start_command_def sample_options_def binary_name_def find_binary_def sample_machine_def sample_files_def Let_def save_pid_def)
  then obtain w1 where start: "node_start_command (\<lambda>s. s) sample_machine sample_options (fmempty, fmempty) = (w1, Ok 4711)" ..
  note facts = node_start_stop [OF laws, of "\<lambda>s. s" sample_options "(fmempty, fmempty)"]
  have load: "load_pid sample_machine w1 = Ok 4711" using facts start by blast
  have "\<exists>w2. node_stop_command sample_machine w1 = (w2, Ok ())"
  proof -
    have "px_kill sample_machine w1 4711 = (w1, Ok ())" by (simp add: sample_machine_def)
    moreover have "is_ok (snd (remove_pid sample_machine w1))" by (cases w1) (simp add: remove_pid_def sample_machine_def sample_files_def)
    then obtain w2 where "remove_pid sample_machine w1 = (w2, Ok ())" by (cases "remove_pid sample_machine w1") (auto simp: is_ok_iff)
    ultimately show ?thesis using load by (auto simp: node_stop_command_def)
  qed
  then show ?thesis using facts start by blast
qed

section \<open>Setting up a network\<close>

text \<open>The file at \<open>path\<close> holds the key pair, as \<open>generate_keys\<close> writes it.\<close>

definition holds_key :: "'w file_system \<Rightarrow> 'z key_externals_scheme \<Rightarrow> 'w \<Rightarrow> string \<Rightarrow> KeyPair \<Rightarrow> bool" where
  "holds_key F E w path kp \<longleftrightarrow>
     (\<exists>salt encrypted. generated_salt E salt \<and> encrypt_with_password E salt (kp_private kp) [] = Ok encrypted \<and> fs_read F w path = Ok encrypted)"

lemma generate_keys_holds:
  assumes "fs_laws F" and "generated_salt E salt" and "generate_keys F E seed salt path w = (w', Ok ())"
  shows "holds_key F E w' path (KeyPair_generate E seed)"
proof -
  have "PrivateKey_save_to_file F E salt (kp_private (KeyPair_generate E seed)) path [] w = (w', Ok ())"
    using assms(3) by (auto simp: generate_keys_def KeyPair_save_to_file_def and_then_eq_Ok)
  with assms(1,2) show ?thesis unfolding save_Ok holds_key_def fs_laws_def by blast
qed

lemma load_public_key_holds:
  assumes "aead_laws E" and "keypair_wf E kp" and "holds_key F E w path kp" and "trim_string path = path"
  shows "load_public_key show_error F E w path = Ok (cpk_to_common (kp_public kp))"
proof -
  obtain salt encrypted where "generated_salt E salt" "encrypt_with_password E salt (kp_private kp) [] = Ok encrypted" "fs_read F w path = Ok encrypted"
    using assms(3) by (auto simp: holds_key_def)
  with decrypt_encrypt [OF assms(1)] have "PrivateKey_load_from_file F E path [] w = Ok (kp_private kp)"
    by (simp add: PrivateKey_load_from_file_def)
  with assms(2,4) show ?thesis
    by (simp add: load_public_key_def KeyPair_load_from_file_def from_private_key_def keypair_wf_def cpk_to_common_def)
qed

fun join_comma :: "string list \<Rightarrow> string" where
  "join_comma [] = []"
| "join_comma [p] = p"
| "join_comma (p # ps) = p @ CHR '','' # join_comma ps"

lemma split_char_part: "sep \<notin> set p \<Longrightarrow> split_char sep p = [p]"
  by (induction p) auto

lemma split_char_append: "sep \<notin> set p \<Longrightarrow> split_char sep (p @ sep # s) = p # split_char sep s"
  by (induction p) auto

lemma split_join: "ps \<noteq> [] \<Longrightarrow> \<forall>p \<in> set ps. CHR '','' \<notin> set p \<Longrightarrow> split_char (CHR '','') (join_comma ps) = ps"
  by (induction ps rule: join_comma.induct) (auto simp: split_char_part split_char_append)

lemma split_char_not_Nil: "split_char sep s \<noteq> []"
  by (induction s) (auto split: list.splits)

lemma for_collect_map_comp: "for_collect f (map g xs) = for_collect (f \<circ> g) xs"
  by (induction xs) simp_all

text \<open>
  \<open>serde_json\<close> reads back what it writes of a genesis with the default settings, those that \<open>generate_genesis\<close> gives it: integers,
  strings and the threshold 0.67, a short decimal. For other settings that is not documented: it writes a threshold that is
  not finite as \<open>null\<close>.
\<close>

definition genesis_json_laws :: "(GenesisBlock \<Rightarrow> (string, string) result) \<Rightarrow> (string \<Rightarrow> (GenesisBlock, string) result) \<Rightarrow> bool" where
  "genesis_json_laws to_string_pretty from_str \<longleftrightarrow>
     (\<forall>g s. gb_config g = GenesisConfig_default \<longrightarrow> to_string_pretty g = Ok s \<longrightarrow> from_str s = Ok g)"

lemma genesis_to_disk_reads:
  assumes "fs_laws F" and "genesis_json_laws to_string_pretty from_str" and "gb_config g = GenesisConfig_default"
    and "genesis_to_disk F to_string_pretty g path w = (w', Ok ())"
  shows "from_file (fs_read_to_string F w') from_str path = Ok g"
proof -
  obtain json where "GenesisBlock_validate g = Ok ()" "to_string_pretty g = Ok json" "fs_write_string F w path json = (w', Ok ())"
    using assms(4) by (auto simp: genesis_to_disk_def and_then_eq_Ok map_err_eq_Ok write_Ok)
  moreover from this(3) assms(1) have "fs_read_to_string F w' path = Ok json" unfolding fs_laws_def by blast
  ultimately show ?thesis using assms(2,3) by (simp add: from_file_def genesis_json_laws_def)
qed

text \<open>
  C38: from key files to a genesis. If the listed files hold the key pairs as \<open>generate_keys\<close> writes them and \<open>generate_genesis\<close>
  succeeds, then a node that reads the file it wrote gets a valid genesis whose validators are the public keys of these pairs,
  in the order of the list, with the given chain identifier and time, and with the hash that was reported.
\<close>

theorem genesis_from_keys:
  assumes "fs_laws F" and "aead_laws E" and "genesis_json_laws to_string_pretty from_str"
    and "keys \<noteq> []" and "\<forall>(path, kp) \<in> set keys. CHR '','' \<notin> set path \<and> trim_string path = path \<and> keypair_wf E kp \<and> holds_key F E w path kp"
    and "generate_genesis show_error F E T to_string_pretty now (join_comma (map fst keys)) chain_id out w = (w', Ok genesis_hash)"
  shows "\<exists>g. from_file (fs_read_to_string F w') from_str out = Ok g \<and> GenesisBlock_validate g = Ok () \<and>
      gb_validators g = map (\<lambda>(path, kp). cpk_to_common (kp_public kp)) keys \<and> gb_chain_id g = chain_id \<and> gb_timestamp g = now \<and>
      GenesisBlock_calculate_hash T now g = Ok genesis_hash"
proof -
  let ?g = "\<lparr>gb_validators = map (\<lambda>(path, kp). cpk_to_common (kp_public kp)) keys, gb_timestamp = now, gb_chain_id = chain_id,
    gb_network_name = chain_id @ '' Network'', gb_config = GenesisConfig_default\<rparr>"
  have split: "split_char (CHR '','') (join_comma (map fst keys)) = map fst keys"
    using assms(4,5) by (intro split_join) auto
  have "for_collect (load_public_key show_error F E w \<circ> fst) keys = Ok (map (\<lambda>(path, kp). cpk_to_common (kp_public kp)) keys)"
    using assms(5) load_public_key_holds [OF assms(2)] by (intro for_collect_total) fastforce
  then have loaded: "for_collect (load_public_key show_error F E w) (map fst keys) = Ok (map (\<lambda>(path, kp). cpk_to_common (kp_public kp)) keys)"
    by (simp add: for_collect_map_comp)
  have "genesis_to_disk F to_string_pretty ?g out w = (w', Ok ())" and hash: "GenesisBlock_calculate_hash T now ?g = Ok genesis_hash"
    using assms(4,6) by (auto simp: generate_genesis_def split loaded and_then_eq_Ok builder_build_def builder_timestamp_def
        builder_network_name_def builder_chain_id_def builder_add_validators_def GenesisBuilder_new_def Let_def)
  from genesis_to_disk_reads [OF assms(1,3) _ this(1)] have read: "from_file (fs_read_to_string F w') from_str out = Ok ?g" by simp
  then have "GenesisBlock_validate ?g = Ok ()" by (auto simp: from_file_def outcome_simps)
  with read hash show ?thesis by (intro exI [of _ ?g]) simp
qed

definition sample_genesis_text :: "GenesisBlock \<Rightarrow> (string, string) result" where
  "sample_genesis_text g =
     (if g = \<lparr>gb_validators = [PublicKey (bytes_fill 7)], gb_timestamp = 1000, gb_chain_id = ''c'', gb_network_name = ''c Network'', gb_config = GenesisConfig_default\<rparr>
      then Ok ''{}'' else Err ''unsupported'')"

definition sample_genesis_parse :: "string \<Rightarrow> (GenesisBlock, string) result" where
  "sample_genesis_parse s =
     Ok \<lparr>gb_validators = [PublicKey (bytes_fill 7)], gb_timestamp = 1000, gb_chain_id = ''c'', gb_network_name = ''c Network'', gb_config = GenesisConfig_default\<rparr>"

lemma sample_generate_keys:
  "\<exists>w. generate_keys sample_files sample_keys (bytes_fill 7) (ustr ''c2FsdA'') ''k'' (fmempty, fmempty) = (w, Ok ()) \<and>
     generated_salt sample_keys (ustr ''c2FsdA'')"
proof -
  have "is_ok (encrypt_with_password sample_keys (ustr ''c2FsdA'') (kp_private (KeyPair_generate sample_keys (bytes_fill 7))) [])"
    by (simp add: encrypt_with_password_def derive_file_key_def copy_from_slice_def sample_keys_def sample_crypto_def crypto_externals.defs)
  moreover have "generated_salt sample_keys (ustr ''c2FsdA'')"
    by (simp add: generated_salt_def b64_letter_def ustr_def sample_keys_def sample_crypto_def crypto_externals.defs)
  ultimately show ?thesis
    by (auto simp: generate_keys_def KeyPair_save_to_file_def PrivateKey_save_to_file_def is_ok_iff sample_files_def)
qed

theorem genesis_from_keys_witness:
  "\<exists>w w' genesis_hash g. generate_genesis (\<lambda>_. []) sample_files sample_keys sample_env sample_genesis_text 1000 ''k'' ''c'' ''g'' w = (w', Ok genesis_hash) \<and>
     from_file (fs_read_to_string sample_files w') sample_genesis_parse ''g'' = Ok g \<and> gb_validators g = [PublicKey (bytes_fill 7)]"
proof -
  let ?kp = "KeyPair_generate sample_keys (bytes_fill 7)"
  obtain w where w: "generate_keys sample_files sample_keys (bytes_fill 7) (ustr ''c2FsdA'') ''k'' (fmempty, fmempty) = (w, Ok ())"
    and salt: "generated_salt sample_keys (ustr ''c2FsdA'')" using sample_generate_keys by blast
  have holds: "holds_key sample_files sample_keys w ''k'' ?kp" by (rule generate_keys_holds [OF sample_fs_laws salt w])
  have trim: "trim_string ''k'' = ''k''" by (simp add: trim_string_def ascii_space_def is_whitespace_def)
  have pub: "cpk_to_common (kp_public ?kp) = PublicKey (bytes_fill 7)"
    by (simp add: KeyPair_generate_def cpk_to_common_def sample_keys_def sample_crypto_def crypto_externals.defs)
  have loaded: "load_public_key (\<lambda>_. []) sample_files sample_keys w ''k'' = Ok (PublicKey (bytes_fill 7))"
    using load_public_key_holds [OF sample_key_aead keypair_wf_generate holds trim] pub by simp
  let ?g = "\<lparr>gb_validators = [PublicKey (bytes_fill 7)], gb_timestamp = 1000, gb_chain_id = ''c'', gb_network_name = ''c Network'', gb_config = GenesisConfig_default\<rparr>"
  obtain b where "create_block sample_env 1000 ?g = Ok b" using create_block_total [OF _ sample_bincode_total, of ?g 1000] by auto
  moreover obtain t where t: "two_thirds_threshold = Fin t" "2 / 3 + 1 / 1000 \<le> t" "t \<le> 7 / 10" using two_thirds_threshold_value by blast
  then have "GenesisBlock_validate ?g = Ok ()" unfolding GenesisBlock_validate_Ok GenesisConfig_default_def t(1) by simp
  ultimately obtain w' genesis_hash where run: "generate_genesis (\<lambda>_. []) sample_files sample_keys sample_env sample_genesis_text 1000 ''k'' ''c'' ''g'' w = (w', Ok genesis_hash)"
    using loaded
    by (cases w) (auto simp: generate_genesis_def genesis_to_disk_def builder_build_def builder_timestamp_def builder_network_name_def builder_chain_id_def
        builder_add_validators_def GenesisBuilder_new_def Let_def sample_files_def sample_genesis_text_def GenesisBlock_calculate_hash_def)
  have "genesis_json_laws sample_genesis_text sample_genesis_parse"
    by (simp add: genesis_json_laws_def sample_genesis_text_def sample_genesis_parse_def)
  from genesis_from_keys [OF sample_fs_laws sample_key_aead this, of "[(''k'', ?kp)]" w "\<lambda>_. []" sample_env 1000 "''c''" "''g''" w' genesis_hash]
  obtain g where "from_file (fs_read_to_string sample_files w') sample_genesis_parse ''g'' = Ok g" "gb_validators g = [PublicKey (bytes_fill 7)]"
    using run holds trim pub by auto
  with run show ?thesis by blast
qed

end
