(* ===== verification/Cli_Display.thy ===== *)
theory Cli_Display
  imports Cli
begin

text \<open>
  What the commands of \<open>cli\<close> print: the displays of \<open>cli/src/ui.rs\<close> and the queries of \<open>cli/src/commands/query.rs\<close> that print a reply
  field by field. A screen is the list of its lines without frames, headings and padding; cutting a text at a byte inside a
  character panics. The compact and pretty forms of a JSON value and the calendar of \<open>chrono\<close> are arguments.
\<close>

section \<open>Lines\<close>

datatype display_line = Field string string | Cells "string list" | Plain string

type_synonym display_screen = "display_line list outcome"

record 'v json_display = "'v json_value" +
  jd_show :: "'v \<Rightarrow> string"
  jd_pretty :: "'v \<Rightarrow> (string, string) result"
  jd_as_object :: "'v \<Rightarrow> (string \<Rightarrow> 'v option) option"
  jd_time :: "u64 \<Rightarrow> string"

datatype DisplayFormat = FormatTable | FormatJson | FormatCompact

definition screen :: "display_screen list \<Rightarrow> display_screen" where
  "screen parts = rbind (for_collect id parts) (\<lambda>lines. Ok (concat lines))"

text \<open>\<open>&s[..max_len]\<close> on the bytes of a string.\<close>

definition continuation :: "char \<Rightarrow> bool" where
  "continuation c \<longleftrightarrow> 128 \<le> (of_char c :: nat) \<and> (of_char c :: nat) < 192"

definition truncate_bytes :: "string \<Rightarrow> nat \<Rightarrow> string outcome" where
  "truncate_bytes s max_len =
     (if length s \<le> max_len then Ok s
      else if continuation (s ! max_len) then Panic ''byte index is not a char boundary''
      else Ok (take max_len s))"

definition print_field :: "string \<Rightarrow> string \<Rightarrow> display_screen" where
  "print_field label value = Ok [Field label value]"

definition cut_field :: "string \<Rightarrow> string \<Rightarrow> nat \<Rightarrow> display_screen" where
  "cut_field label value max_len = rbind (truncate_bytes value max_len) (print_field label)"

definition yes_no :: "bool \<Rightarrow> string" where
  "yes_no b = (if b then ''Yes'' else ''No'')"

definition str_at :: "('v, 'z) json_value_scheme \<Rightarrow> string \<Rightarrow> 'v \<Rightarrow> string \<Rightarrow> string" where
  "str_at V fallback v key = unwrap_or fallback (jv_as_str V (jv_index V v key))"

definition u64_at :: "('v, 'z) json_value_scheme \<Rightarrow> 'v \<Rightarrow> string \<Rightarrow> u64" where
  "u64_at V v key = unwrap_or 0 (jv_as_u64 V (jv_index V v key))"

definition bool_at :: "('v, 'z) json_value_scheme \<Rightarrow> 'v \<Rightarrow> string \<Rightarrow> bool" where
  "bool_at V v key = unwrap_or False (jv_as_bool V (jv_index V v key))"

definition show_at :: "'v json_display \<Rightarrow> 'v \<Rightarrow> string \<Rightarrow> string" where
  "show_at V v key = jd_show V (jv_index V v key)"

definition pretty_screen :: "'v json_display \<Rightarrow> 'v \<Rightarrow> display_screen" where
  "pretty_screen V v = (case jd_pretty V v of Ok s \<Rightarrow> Ok [Plain s] | Err e \<Rightarrow> Panic e | Panic m \<Rightarrow> Panic m)"

definition format_uptime :: "u64 \<Rightarrow> string" where
  "format_uptime seconds =
     (let days = unat (seconds div 86400); hours = unat ((seconds mod 86400) div 3600);
          minutes = unat ((seconds mod 3600) div 60); secs = unat (seconds mod 60)
      in if 0 < days then show_nat days @ ''d '' @ show_nat hours @ ''h '' @ show_nat minutes @ ''m '' @ show_nat secs @ ''s''
         else if 0 < hours then show_nat hours @ ''h '' @ show_nat minutes @ ''m '' @ show_nat secs @ ''s''
         else if 0 < minutes then show_nat minutes @ ''m '' @ show_nat secs @ ''s''
         else show_nat secs @ ''s'')"

section \<open>Displays\<close>

definition display_node_info :: "'v json_display \<Rightarrow> 'v \<Rightarrow> DisplayFormat \<Rightarrow> display_screen" where
  "display_node_info V info format =
     (case format of
        FormatJson \<Rightarrow> pretty_screen V info
      | FormatTable \<Rightarrow>
          screen [print_field ''Version'' (str_at V ''N/A'' info ''version''),
            print_field ''Node Type'' (str_at V ''N/A'' info ''node_type''),
            print_field ''Network ID'' (str_at V ''N/A'' info ''network_id''),
            print_field ''Height'' (show_at V info ''height''),
            print_field ''Peers'' (show_at V info ''peer_count''),
            print_field ''Syncing'' (yes_no (bool_at V info ''syncing'')),
            print_field ''Uptime'' (format_uptime (u64_at V info ''uptime''))]
      | FormatCompact \<Rightarrow>
          Ok [Plain (''Node: '' @ str_at V ''N/A'' info ''node_type'' @ '' | Height: '' @ show_at V info ''height'' @ '' | Peers: '' @
                show_at V info ''peer_count'' @ '' | Syncing: '' @ show_at V info ''syncing'')])"

definition display_block :: "'v json_display \<Rightarrow> 'v \<Rightarrow> DisplayFormat \<Rightarrow> display_screen" where
  "display_block V block format =
     (case format of
        FormatJson \<Rightarrow> pretty_screen V block
      | FormatTable \<Rightarrow>
          screen [print_field ''Height'' (show_at V block ''height''),
            cut_field ''Hash'' (str_at V ''N/A'' block ''hash'') 60,
            cut_field ''Previous'' (str_at V ''N/A'' block ''previous_hash'') 60,
            print_field ''Timestamp'' (jd_time V (u64_at V block ''timestamp'')),
            cut_field ''Validator'' (str_at V ''N/A'' block ''validator'') 60,
            print_field ''Transactions'' (show_at V block ''transaction_count'')]
      | FormatCompact \<Rightarrow>
          rbind (truncate_bytes (str_at V ''N/A'' block ''validator'') 16) (\<lambda>validator.
            Ok [Plain (''Block '' @ show_at V block ''height'' @ '' | Txs: '' @ show_at V block ''transaction_count'' @ '' | Validator: '' @ validator)]))"

text \<open>A row of the results: rank, name, votes, percentage. The sort is stable, by falling votes.\<close>

definition percentage_at :: "('v, 'z) json_value_scheme \<Rightarrow> 'v \<Rightarrow> f64" where
  "percentage_at V candidate = unwrap_or (Fin 0) (jv_as_f64 V (jv_index V candidate ''percentage''))"

definition result_row :: "'v json_display \<Rightarrow> nat \<times> 'v \<Rightarrow> display_screen" where
  "result_row V = (\<lambda>(i, candidate).
     rbind (truncate_bytes (str_at V ''Unknown'' candidate ''candidate_name'') 23) (\<lambda>name.
       Ok [Cells [show_nat (i + 1), name, show_nat (unat (u64_at V candidate ''votes'')), show_fixed 2 (percentage_at V candidate) @ ''%'']]))"

definition ranked :: "('v, 'z) json_value_scheme \<Rightarrow> 'v list \<Rightarrow> 'v list" where
  "ranked V candidates = sort_key (\<lambda>c. - int (unat (u64_at V c ''votes''))) candidates"

definition display_election_results :: "'v json_display \<Rightarrow> 'v \<Rightarrow> DisplayFormat \<Rightarrow> display_screen" where
  "display_election_results V results format =
     (case format of
        FormatJson \<Rightarrow> pretty_screen V results
      | FormatTable \<Rightarrow>
          screen ([cut_field ''Election ID'' (str_at V ''N/A'' results ''election_id'') 60,
             print_field ''Total Votes'' (show_nat (unat (u64_at V results ''total_votes''))),
             print_field ''Finalized'' (yes_no (bool_at V results ''finalized''))] @
            (case jv_as_array V (jv_index V results ''results'') of
               Some candidate_results \<Rightarrow> map (result_row V) (enumerate 0 (ranked V candidate_results))
             | None \<Rightarrow> []))
      | FormatCompact \<Rightarrow>
          Ok (case jv_as_array V (jv_index V results ''results'') of
                Some candidate_results \<Rightarrow>
                  map (\<lambda>candidate. Plain (str_at V ''Unknown'' candidate ''candidate_name'' @ '': '' @ show_at V candidate ''votes'' @ '' votes ('' @
                    show_fixed 2 (percentage_at V candidate) @ ''%)'')) candidate_results
              | None \<Rightarrow> []))"

definition display_jurisdiction_results :: "'v json_display \<Rightarrow> string \<Rightarrow> 'v \<Rightarrow> DisplayFormat \<Rightarrow> display_screen" where
  "display_jurisdiction_results V jurisdiction results format =
     (case format of
        FormatJson \<Rightarrow> pretty_screen V results
      | FormatTable \<Rightarrow>
          screen [rbind (truncate_bytes jurisdiction 26) (\<lambda>j. Ok [Plain (''JURISDICTION RESULTS: '' @ j)]), display_election_results V results format]
      | FormatCompact \<Rightarrow>
          screen [Ok [Plain (''Jurisdiction: '' @ jurisdiction)], display_election_results V results FormatCompact])"

definition display_vote_verification :: "'v json_display \<Rightarrow> 'v \<Rightarrow> DisplayFormat \<Rightarrow> display_screen" where
  "display_vote_verification V verification format =
     (case format of
        FormatJson \<Rightarrow> pretty_screen V verification
      | FormatTable \<Rightarrow>
          screen [print_field ''Status'' (if bool_at V verification ''valid'' then [CHR 0xE2, CHR 0x9C, CHR 0x93] @ '' VALID'' else [CHR 0xE2, CHR 0x9C, CHR 0x97] @ '' INVALID''),
            print_field ''Details'' (str_at V ''N/A'' verification ''details''),
            (case jv_as_u64 V (jv_index V verification ''block_height'') of
               Some height \<Rightarrow> print_field ''Block Height'' (show_nat (unat height)) | None \<Rightarrow> Ok []),
            (case jv_as_str V (jv_index V verification ''election_id'') of
               Some election_id \<Rightarrow> cut_field ''Election ID'' election_id 60 | None \<Rightarrow> Ok [])]
      | FormatCompact \<Rightarrow>
          Ok [Plain (''Vote: '' @ (if bool_at V verification ''valid'' then ''VALID'' else ''INVALID'') @ '' | '' @
                str_at V ''N/A'' verification ''details'')])"

definition validator_row :: "'v json_display \<Rightarrow> 'v \<Rightarrow> display_screen" where
  "validator_row V validator =
     rbind (truncate_bytes (str_at V ''N/A'' validator ''address'') 24) (\<lambda>addr.
       Ok [Cells [addr, show_nat (unat (u64_at V validator ''stake'')), show_nat (unat (u64_at V validator ''blocks_produced'')),
             yes_no (bool_at V validator ''is_active'')]])"

definition display_validators :: "'v json_display \<Rightarrow> 'v \<Rightarrow> DisplayFormat \<Rightarrow> display_screen" where
  "display_validators V validators format =
     (case format of
        FormatJson \<Rightarrow> pretty_screen V validators
      | FormatTable \<Rightarrow>
          screen ([print_field ''Height'' (show_nat (unat (u64_at V validators ''height''))),
             print_field ''Total Validators'' (show_nat (unat (u64_at V validators ''total_validators'')))] @
            (case jv_as_array V (jv_index V validators ''validators'') of Some vs \<Rightarrow> map (validator_row V) vs | None \<Rightarrow> []))
      | FormatCompact \<Rightarrow>
          (case jv_as_array V (jv_index V validators ''validators'') of
             Some vs \<Rightarrow>
               screen (map (\<lambda>validator. rbind (truncate_bytes (str_at V ''N/A'' validator ''address'') 20) (\<lambda>addr.
                 Ok [Plain (addr @ '' | Stake: '' @ show_at V validator ''stake'' @ '' | Blocks: '' @ show_at V validator ''blocks_produced'')])) vs)
           | None \<Rightarrow> Ok []))"

definition display_success :: "string \<Rightarrow> display_screen" where
  "display_success message = rbind (truncate_bytes message 58) (\<lambda>s. Ok [Plain s])"

text \<open>The text of the error is an argument.\<close>

definition display_error :: "(VotingError \<Rightarrow> string) \<Rightarrow> VotingError \<Rightarrow> display_screen" where
  "display_error show_error e = display_success (show_error e)"

record DisplayedAnomaly =
  dan_anomaly_type :: string
  dan_location :: string
  dan_severity :: string
  dan_score :: f64
  dan_description :: string

definition display_anomalies :: "(DisplayedAnomaly list \<Rightarrow> (string, string) result) \<Rightarrow> DisplayedAnomaly list \<Rightarrow> DisplayFormat \<Rightarrow> display_screen" where
  "display_anomalies to_string_pretty anomalies format =
     (case format of
        FormatJson \<Rightarrow> (case to_string_pretty anomalies of Ok s \<Rightarrow> Ok [Plain s] | Err e \<Rightarrow> Panic e | Panic m \<Rightarrow> Panic m)
      | FormatTable \<Rightarrow>
          screen (map (\<lambda>anomaly.
              rbind (truncate_bytes (dan_anomaly_type anomaly) 11) (\<lambda>kind.
              rbind (truncate_bytes (dan_location anomaly) 19) (\<lambda>location.
                Ok [Cells [kind, location, dan_severity anomaly, show_fixed 2 (dan_score anomaly)]]))) anomalies @
            [Ok [Plain (''Total Anomalies: '' @ show_nat (length anomalies))]])
      | FormatCompact \<Rightarrow>
          Ok (map (\<lambda>anomaly. Plain (dan_anomaly_type anomaly @ '' at '' @ dan_location anomaly @ '' | Severity: '' @ dan_severity anomaly @
                '' | Score: '' @ show_fixed 2 (dan_score anomaly))) anomalies))"

record DisplayedStatistics =
  dst_total_votes :: u64
  dst_votes_per_second :: f64
  dst_active_elections :: nat
  dst_votes_by_jurisdiction :: "(string, u64) hashmap"
  dst_last_update_timestamp :: u64

text \<open>\<open>count as f64 / total as f64 * 100.0\<close>, 0 without votes.\<close>

definition share_of :: "u64 \<Rightarrow> u64 \<Rightarrow> f64" where
  "share_of part whole =
     (if 0 < whole then f64_mul (f64_div (f64_of_nat (unat part)) (f64_of_nat (unat whole))) (f64_lit 100) else Fin 0)"

definition jurisdiction_row :: "DisplayedStatistics \<Rightarrow> string \<Rightarrow> display_screen" where
  "jurisdiction_row stats jurisdiction =
     (let count = the (fmlookup (dst_votes_by_jurisdiction stats) jurisdiction) in
      rbind (truncate_bytes jurisdiction 30) (\<lambda>name.
        Ok [Cells [name, show_nat (unat count), show_fixed 2 (share_of count (dst_total_votes stats)) @ ''%'']]))"

text \<open>The refresh mode clears the terminal before and names the way out after the table.\<close>

definition display_vote_stats ::
  "(u64 \<Rightarrow> string) \<Rightarrow> ((string, u64) hashmap \<Rightarrow> string list) \<Rightarrow> DisplayedStatistics \<Rightarrow> bool \<Rightarrow> display_screen" where
  "display_vote_stats format_timestamp iteration stats refresh_mode =
     screen ([print_field ''Total Votes Cast'' (show_nat (unat (dst_total_votes stats))),
        print_field ''Votes Per Second'' (show_fixed 2 (dst_votes_per_second stats)),
        print_field ''Active Elections'' (show_nat (dst_active_elections stats)),
        print_field ''Last Update'' (format_timestamp (dst_last_update_timestamp stats)),
        Ok [Plain ''Jurisdiction Breakdown:'']] @
       map (jurisdiction_row stats) (iteration (dst_votes_by_jurisdiction stats)) @
       [if refresh_mode then Ok [Plain ''Press Ctrl+C to exit refresh mode''] else Ok []])"

text \<open>
  The progress bar: the numbers of filled and of empty cells, where the second subtraction wraps and \<open>repeat\<close> panics on a size
  that does not fit, and what follows the bar.
\<close>

record Progress =
  prg_filled :: nat
  prg_empty :: nat
  prg_percentage :: f64
  prg_rate :: f64
  prg_eta :: u64

definition display_verification_progress :: "u64 \<Rightarrow> u64 \<Rightarrow> f64 \<Rightarrow> Progress outcome" where
  "display_verification_progress current goal elapsed =
     (let percentage = share_of current goal;
          rate = (if f64_lt (Fin 0) elapsed then f64_div (f64_of_nat (unat current)) elapsed else Fin 0);
          eta = (if f64_lt (Fin 0) rate then of_nat (f64_to_usize (f64_div (f64_of_nat (unat (goal - current))) rate)) else 0);
          filled = f64_to_usize (f64_mul (f64_div percentage (f64_lit 100)) (f64_of_nat 50))
      in if filled \<le> 50
         then Ok \<lparr>prg_filled = filled, prg_empty = 50 - filled, prg_percentage = percentage, prg_rate = rate, prg_eta = eta\<rparr>
         else Panic ''capacity overflow'')"

section \<open>Queries\<close>

abbreviation plain_json :: "'v json_display \<Rightarrow> 'v json_value" where
  "plain_json V \<equiv> json_value.truncate V"

definition query_block_lines :: "'v json_display \<Rightarrow> 'v \<Rightarrow> display_screen" where
  "query_block_lines V block =
     screen (display_block V block FormatTable #
       (case jv_as_array V (jv_index V block ''transactions'') of
          Some transactions \<Rightarrow>
            map (\<lambda>(i, tx). rbind (truncate_bytes (str_at V ''Unknown'' tx ''tx_type'') 15) (\<lambda>kind.
              rbind (truncate_bytes (str_at V ''N/A'' tx ''id'') 33) (\<lambda>i'. Ok [Cells [show_nat (i + 1), kind, i']])))
              (enumerate 0 transactions)
        | None \<Rightarrow> []))"

definition block_query :: "'v json_display \<Rightarrow> ('s, 'v) http_client \<Rightarrow> string \<Rightarrow> 's \<Rightarrow> 's \<times> display_line list outcome" where
  "block_query V C identifier s = and_then (query_block (plain_json V) C identifier s) (\<lambda>s block. (s, query_block_lines V block))"

text \<open>The lines for the data of a transaction, by its type.\<close>

definition transaction_data :: "'v json_display \<Rightarrow> string \<Rightarrow> (string \<Rightarrow> 'v option) \<Rightarrow> display_screen list" where
  "transaction_data V kind data =
     (if kind = ''Vote'' then
        [case data ''election_id'' of Some v \<Rightarrow> cut_field ''Election ID'' (unwrap_or ''N/A'' (jv_as_str V v)) 39 | None \<Rightarrow> Ok [],
         case data ''encrypted_vote'' of Some v \<Rightarrow> cut_field ''Encrypted Vote'' (unwrap_or ''N/A'' (jv_as_str V v)) 39 | None \<Rightarrow> Ok [],
         print_field ''ZK Proof'' ''Present'']
      else if kind = ''CreateElection'' then
        (case data ''election'' of
           None \<Rightarrow> []
         | Some election \<Rightarrow>
             [case jv_get V election ''name'' of Some v \<Rightarrow> cut_field ''Election Name'' (unwrap_or ''N/A'' (jv_as_str V v)) 39 | None \<Rightarrow> Ok [],
              case jv_get V election ''start_time'' of Some v \<Rightarrow> print_field ''Start Time'' (jd_time V (unwrap_or 0 (jv_as_u64 V v))) | None \<Rightarrow> Ok [],
              case jv_get V election ''end_time'' of Some v \<Rightarrow> print_field ''End Time'' (jd_time V (unwrap_or 0 (jv_as_u64 V v))) | None \<Rightarrow> Ok []])
      else if kind = ''RegisterValidator'' then
        (case data ''validator'' of
           None \<Rightarrow> []
         | Some validator \<Rightarrow>
             [case jv_get V validator ''address'' of Some v \<Rightarrow> cut_field ''Validator Address'' (unwrap_or ''N/A'' (jv_as_str V v)) 39 | None \<Rightarrow> Ok [],
              case jv_get V validator ''stake'' of Some v \<Rightarrow> print_field ''Stake'' (jd_show V v) | None \<Rightarrow> Ok []])
      else [])"

definition transaction_lines :: "'v json_display \<Rightarrow> 'v \<Rightarrow> display_screen" where
  "transaction_lines V tx =
     screen ([cut_field ''Transaction ID'' (str_at V ''N/A'' tx ''id'') 39,
        print_field ''Type'' (str_at V ''N/A'' tx ''tx_type''),
        print_field ''Block Height'' (show_at V tx ''block_height''),
        cut_field ''Block Hash'' (str_at V ''N/A'' tx ''block_hash'') 39,
        print_field ''Timestamp'' (jd_time V (u64_at V tx ''timestamp''))] @
       (case jd_as_object V (jv_index V tx ''data'') of
          Some data \<Rightarrow> Ok [Plain ''Transaction Data:''] # transaction_data V (str_at V [] tx ''tx_type'') data
        | None \<Rightarrow> []))"

definition transaction_query :: "'v json_display \<Rightarrow> ('s, 'v) http_client \<Rightarrow> string \<Rightarrow> 's \<Rightarrow> 's \<times> display_line list outcome" where
  "transaction_query V C tx_hash s =
     and_then (rpc_call (plain_json V) C ''get_transaction'' (jv_object V [(''hash'', jv_string V tx_hash)]) s) (\<lambda>s tx.
       (s, transaction_lines V tx))"

text \<open>\<open>map[key]\<close> on a \<open>serde_json\<close> map panics without the key, other than on a value.\<close>

definition map_index :: "(string \<Rightarrow> 'v option) \<Rightarrow> string \<Rightarrow> 'v outcome" where
  "map_index m key = (case m key of Some v \<Rightarrow> Ok v | None \<Rightarrow> Panic ''no entry found for key'')"

definition jurisdiction_lines :: "'v json_display \<Rightarrow> (string \<Rightarrow> 'v option) \<Rightarrow> display_screen list" where
  "jurisdiction_lines V jurisdiction =
     [Ok [Plain ''Jurisdiction:''],
      rbind (map_index jurisdiction ''level'') (\<lambda>v. print_field ''Level'' (unwrap_or ''N/A'' (jv_as_str V v))),
      rbind (map_index jurisdiction ''name'') (\<lambda>v. cut_field ''Name'' (unwrap_or ''N/A'' (jv_as_str V v)) 39)]"

definition candidate_line :: "'v json_display \<Rightarrow> nat \<times> 'v \<Rightarrow> display_screen" where
  "candidate_line V = (\<lambda>(i, candidate).
     let name = str_at V ''Unknown'' candidate ''name'';
         party = (case jv_as_str V (jv_index V candidate ''party'') of Some p \<Rightarrow> '' ('' @ p @ '')'' | None \<Rightarrow> [])
     in rbind (truncate_bytes (name @ party) 54) (\<lambda>text. Ok [Cells [show_nat (i + 1), text]]))"

definition election_lines :: "'v json_display \<Rightarrow> 'v \<Rightarrow> display_screen" where
  "election_lines V election =
     screen ([cut_field ''Election ID'' (str_at V ''N/A'' election ''id'') 39,
        cut_field ''Name'' (str_at V ''N/A'' election ''name'') 39,
        (case jv_as_str V (jv_index V election ''description'') of Some d \<Rightarrow> cut_field ''Description'' d 39 | None \<Rightarrow> Ok []),
        print_field ''Start Time'' (jd_time V (u64_at V election ''start_time'')),
        print_field ''End Time'' (jd_time V (u64_at V election ''end_time'')),
        print_field ''Vote Count'' (show_at V election ''vote_count''),
        print_field ''Active'' (yes_no (bool_at V election ''is_active'')),
        print_field ''Finalized'' (yes_no (bool_at V election ''is_finalized'')),
        print_field ''Created at Height'' (show_at V election ''created_at_height''),
        (case jv_as_u64 V (jv_index V election ''closed_at_height'') of
           Some closed_at \<Rightarrow> print_field ''Closed at Height'' (show_nat (unat closed_at)) | None \<Rightarrow> Ok [])] @
       (case jd_as_object V (jv_index V election ''jurisdiction'') of Some j \<Rightarrow> jurisdiction_lines V j | None \<Rightarrow> []) @
       (case jv_as_array V (jv_index V election ''candidates'') of
          Some candidates \<Rightarrow> Ok [Plain ''Candidates:''] # map (candidate_line V) (enumerate 0 candidates)
        | None \<Rightarrow> []))"

definition election_query :: "'v json_display \<Rightarrow> ('s, 'v) http_client \<Rightarrow> string \<Rightarrow> 's \<Rightarrow> 's \<times> display_line list outcome" where
  "election_query V C election_id s =
     and_then (rpc_call (plain_json V) C ''get_election'' (jv_object V [(''election_id'', jv_string V election_id)]) s) (\<lambda>s election.
       (s, election_lines V election))"

definition results_query :: "'v json_display \<Rightarrow> ('s, 'v) http_client \<Rightarrow> string \<Rightarrow> 's \<Rightarrow> 's \<times> display_line list outcome" where
  "results_query V C election_id s =
     and_then (rpc_call (plain_json V) C ''get_election_results'' (jv_object V [(''election_id'', jv_string V election_id)]) s) (\<lambda>s results.
       (s, display_election_results V results FormatTable))"

definition validator_lines :: "'v json_display \<Rightarrow> 'v \<Rightarrow> display_screen" where
  "validator_lines V validator =
     screen [cut_field ''Address'' (str_at V ''N/A'' validator ''address'') 39,
       cut_field ''Public Key'' (str_at V ''N/A'' validator ''public_key'') 39,
       print_field ''Stake'' (show_at V validator ''stake''),
       print_field ''Active'' (yes_no (bool_at V validator ''is_active'')),
       print_field ''Registered Height'' (show_at V validator ''registered_at_height''),
       print_field ''Blocks Produced'' (show_at V validator ''blocks_produced''),
       (case jv_as_u64 V (jv_index V validator ''last_block_height'') of
          Some last_block \<Rightarrow> print_field ''Last Block Height'' (show_nat (unat last_block)) | None \<Rightarrow> Ok [])]"

definition validator_query :: "'v json_display \<Rightarrow> ('s, 'v) http_client \<Rightarrow> string \<Rightarrow> 's \<Rightarrow> 's \<times> display_line list outcome" where
  "validator_query V C address s =
     and_then (rpc_call (plain_json V) C ''get_validator'' (jv_object V [(''address'', jv_string V address)]) s) (\<lambda>s validator.
       (s, validator_lines V validator))"

definition chain_lines :: "'v json_display \<Rightarrow> 'v \<Rightarrow> display_screen" where
  "chain_lines V chain_info =
     screen [print_field ''Height'' (show_at V chain_info ''height''),
       cut_field ''Genesis Hash'' (str_at V ''N/A'' chain_info ''genesis_hash'') 39,
       cut_field ''Latest Block Hash'' (str_at V ''N/A'' chain_info ''latest_block_hash'') 39,
       print_field ''Latest Block Time'' (jd_time V (u64_at V chain_info ''latest_block_time'')),
       print_field ''Total Transactions'' (show_at V chain_info ''total_transactions''),
       print_field ''Total Votes'' (show_at V chain_info ''total_votes''),
       print_field ''Total Validators'' (show_at V chain_info ''total_validators''),
       print_field ''Active Validators'' (show_at V chain_info ''active_validators''),
       print_field ''Active Elections'' (show_at V chain_info ''active_elections'')]"

definition chain_query :: "'v json_display \<Rightarrow> ('s, 'v) http_client \<Rightarrow> 's \<Rightarrow> 's \<times> display_line list outcome" where
  "chain_query V C s = and_then (call_no_params (plain_json V) C ''chain_info'' s) (\<lambda>s chain_info. (s, chain_lines V chain_info))"

section \<open>What is shown\<close>

lemma truncate_bytes_Ok: "truncate_bytes s n = Ok t \<Longrightarrow> t = take n s"
  by (auto simp: truncate_bytes_def split: if_splits)

lemma truncate_bytes_ascii: "list_all (\<lambda>c. \<not> continuation c) s \<Longrightarrow> truncate_bytes s n = Ok (take n s)"
  by (auto simp: truncate_bytes_def list_all_length)

lemma for_collect_Ok_nth: "for_collect f xs = Ok ys \<Longrightarrow> length ys = length xs \<and> (\<forall>i < length xs. f (xs ! i) = Ok (ys ! i))"
proof (induction xs arbitrary: ys)
  case (Cons x xs)
  then show ?case by (fastforce simp: outcome_simps nth_Cons split: nat.split)
qed simp

lemma screen_Ok: "screen parts = Ok lines \<longleftrightarrow> (\<exists>ls. for_collect id parts = Ok ls \<and> lines = concat ls)"
  by (auto simp: screen_def outcome_simps)

lemma for_collect_append: "for_collect f (xs @ ys) = rbind (for_collect f xs) (\<lambda>as. rbind (for_collect f ys) (\<lambda>bs. Ok (as @ bs)))"
proof (induction xs)
  case Nil
  then show ?case by (cases "for_collect f ys") simp_all
next
  case (Cons x xs)
  then show ?case by (cases "f x"; cases "for_collect f xs"; cases "for_collect f ys") simp_all
qed

text \<open>The rows of the results, one for each candidate.\<close>

lemma result_rows:
  assumes "for_collect id (map (result_row V) cs) = Ok ls"
  shows "length (concat ls) = length cs \<and>
    (\<forall>i < length cs. concat ls ! i = Cells [show_nat (fst (cs ! i) + 1), take 23 (str_at V ''Unknown'' (snd (cs ! i)) ''candidate_name''),
       show_nat (unat (u64_at V (snd (cs ! i)) ''votes'')), show_fixed 2 (percentage_at V (snd (cs ! i))) @ ''%''])"
  using assms
proof (induction cs arbitrary: ls)
  case (Cons c cs)
  then obtain name ls' where "for_collect id (map (result_row V) cs) = Ok ls'" and
      "truncate_bytes (str_at V ''Unknown'' (snd c) ''candidate_name'') 23 = Ok name" and
      "ls = [Cells [show_nat (fst c + 1), name, show_nat (unat (u64_at V (snd c) ''votes'')), show_fixed 2 (percentage_at V (snd c)) @ ''%'']] # ls'"
    by (auto simp: outcome_simps result_row_def split: prod.splits)
  with Cons.IH [of ls'] truncate_bytes_Ok show ?case by (fastforce simp: nth_Cons split: nat.split)
qed simp

lemma ranked_mset: "mset (ranked V cs) = mset cs"
  by (simp add: ranked_def)

lemma ranked_sorted: "i \<le> j \<Longrightarrow> j < length cs \<Longrightarrow> u64_at V (ranked V cs ! j) ''votes'' \<le> u64_at V (ranked V cs ! i) ''votes''"
proof -
  assume ij: "i \<le> j" "j < length cs"
  have "sorted (map (\<lambda>c. - int (unat (u64_at V c ''votes''))) (ranked V cs))" by (simp add: ranked_def)
  from sorted_nth_mono [OF this, of i j] ij show ?thesis by (simp add: ranked_def word_le_def)
qed

text \<open>
  the table of results. If it is shown, it has three fields and then a row for each candidate, each once, numbered in the order of
  falling votes, with the first 23 bytes of the name, the votes and the percentage to two decimals.
\<close>

theorem results_table:
  assumes "jv_as_array V (jv_index V results ''results'') = Some cs" and "display_election_results V results FormatTable = Ok lines"
  shows "\<exists>order. mset order = mset cs \<and> length lines = 3 + length cs \<and>
    (\<forall>i j. i \<le> j \<and> j < length cs \<longrightarrow> u64_at V (order ! j) ''votes'' \<le> u64_at V (order ! i) ''votes'') \<and>
    (\<forall>i < length cs. lines ! (3 + i) = Cells [show_nat (i + 1), take 23 (str_at V ''Unknown'' (order ! i) ''candidate_name''),
       show_nat (unat (u64_at V (order ! i) ''votes'')), show_fixed 2 (percentage_at V (order ! i)) @ ''%''])"
proof -
  let ?rows = "map (result_row V) (enumerate 0 (ranked V cs))"
  obtain a b where "for_collect id [cut_field ''Election ID'' (str_at V ''N/A'' results ''election_id'') 60,
      print_field ''Total Votes'' (show_nat (unat (u64_at V results ''total_votes''))),
      print_field ''Finalized'' (yes_no (bool_at V results ''finalized''))] = Ok a" and b: "for_collect id ?rows = Ok b" and lines: "lines = concat a @ concat b"
    using assms by (auto simp: display_election_results_def screen_Ok for_collect_append outcome_simps)
  then have a: "length (concat a) = 3" by (auto simp: outcome_simps cut_field_def print_field_def)
  have n: "length (ranked V cs) = length cs" by (simp add: ranked_def)
  from result_rows [OF b] n have rows: "length (concat b) = length cs"
    "\<And>i. i < length cs \<Longrightarrow> concat b ! i = Cells [show_nat (i + 1), take 23 (str_at V ''Unknown'' (ranked V cs ! i) ''candidate_name''),
       show_nat (unat (u64_at V (ranked V cs ! i) ''votes'')), show_fixed 2 (percentage_at V (ranked V cs ! i)) @ ''%'']"
    by (auto simp: nth_enumerate_eq)
  then have "length lines = 3 + length cs" "\<And>i. i < length cs \<Longrightarrow> lines ! (3 + i) = concat b ! i"
    using a by (simp_all add: lines nth_append)
  with rows ranked_sorted ranked_mset show ?thesis by (intro exI [of _ "ranked V cs"]) auto
qed

text \<open>The bar of a verification is never too long, although it is computed in binary64.\<close>

lemma round_within:
  assumes "0 \<le> x" and "x \<le> of_int m" and "m \<le> 2 ^ 53"
  shows "\<exists>r. round64 x = Fin r \<and> 0 \<le> r \<and> r \<le> of_int m"
proof -
  have r: "0 \<le> round_rat x" "round_rat x \<le> of_int m" using round_rat_nonneg round_rat_le_int assms by blast+
  have "of_int m \<le> (2 ^ 53 :: rat)" using assms(3) by (metis of_int_le_iff of_int_numeral of_int_power)
  also have "\<dots> = pow2 53" by (simp add: pow2_def)
  also have "\<dots> < pow2 1024" by (rule pow2_less) simp
  finally show ?thesis using r by (intro exI [of _ "round_rat x"]) (simp add: round64_Fin)
qed

lemma ratio_within:
  assumes "m \<le> n" and "0 < n" and "n \<le> 2 ^ 53"
  shows "\<exists>q. f64_div (f64_of_nat m) (f64_of_nat n) = Fin q \<and> 0 \<le> q \<and> q \<le> 1"
  using round_within [of "of_nat m / of_nat n" 1] assms f64_of_nat_exact [of m] f64_of_nat_exact [of n] by simp

lemma progress_fits:
  assumes "current \<le> goal" and "unat goal \<le> 2 ^ 53"
  shows "\<exists>p. display_verification_progress current goal elapsed = Ok p \<and> prg_filled p + prg_empty p = 50"
proof -
  have lits: "f64_lit 100 = Fin 100" using f64_of_nat_exact [of 100] by (simp add: f64_lit_def f64_of_nat_def)
  have fifty: "f64_of_nat 50 = Fin 50" using f64_of_nat_exact [of 50] by simp
  obtain p where p: "share_of current goal = Fin p" "0 \<le> p" "p \<le> 100"
  proof (cases "goal = 0")
    case True
    then show ?thesis using that [of 0] by (simp add: share_of_def)
  next
    case False
    then have goal: "0 < unat goal" by (simp add: unat_gt_0)
    have cur: "unat current \<le> unat goal" using assms(1) by (simp add: word_le_nat_alt)
    obtain q where q: "f64_div (f64_of_nat (unat current)) (f64_of_nat (unat goal)) = Fin q" "0 \<le> q" "q \<le> 1"
      using ratio_within [OF cur goal assms(2)] by blast
    obtain p where "f64_mul (Fin q) (Fin 100) = Fin p" "0 \<le> p" "p \<le> 100"
      using round_within [of "q * 100" 100] q by auto
    with q False that show ?thesis by (simp add: share_of_def lits word_gt_0)
  qed
  obtain u where u: "f64_div (Fin p) (Fin 100) = Fin u" "0 \<le> u" "u \<le> 1" using round_within [of "p / 100" 1] p by auto
  obtain v where v: "f64_mul (Fin u) (Fin 50) = Fin v" "0 \<le> v" "v \<le> 50" using round_within [of "u * 50" 50] u by auto
  have "f64_to_usize (Fin v) \<le> 50" using v(2,3) by (simp add: min_le_iff_disj nat_le_iff floor_le_iff)
  then show ?thesis using p(1) u(1) v(1) by (simp add: display_verification_progress_def lits fifty Let_def)
qed

text \<open>A name whose 24th byte continues a character makes the table panic.\<close>

lemma name_cut_panics:
  assumes "23 < length (str_at V ''Unknown'' c ''candidate_name'')" and "continuation (str_at V ''Unknown'' c ''candidate_name'' ! 23)"
    and "jv_as_array V (jv_index V results ''results'') = Some [c]" and "list_all (\<lambda>x. \<not> continuation x) (str_at V ''N/A'' results ''election_id'')"
  shows "display_election_results V results FormatTable = Panic ''byte index is not a char boundary''"
  using assms
  by (simp add: display_election_results_def screen_def for_collect_append cut_field_def print_field_def truncate_bytes_ascii ranked_def
      result_row_def truncate_bytes_def [of "str_at V ''Unknown'' c ''candidate_name''"])

text \<open>An election whose jurisdiction lacks its level or its name cannot be shown.\<close>

lemma jurisdiction_panics:
  assumes "j ''level'' = None"
  shows "\<exists>m. for_collect id (jurisdiction_lines V j) = Panic m"
  using assms by (simp add: jurisdiction_lines_def map_index_def)

end
