(* ===== verification/Cli_Main.thy ===== *)
theory Cli_Main
  imports Cli_Node Cli_Display
begin

text \<open>
  \<open>cli/src/main.rs\<close>: the commands of the program \<open>voting-cli\<close> and their dispatch. Parsing the command line is \<open>clap\<close>'s; a command
  runs in one state of the machine, with its files, processes and network, and ends with an exit status.
\<close>

section \<open>Commands\<close>

datatype NodeCommands =
  NodeStart (start_node_type: string) (start_genesis: "string option") (start_validator_key: "string option") (start_rpc: bool)
    (start_rpc_addr: string) (start_metrics: bool) (start_metrics_addr: string)
| NodeStop
| NodeStatusOf string
| NodeInfoOf string

datatype QueryCommands =
  QueryBlock string string
| QueryTransaction string string
| QueryElection string string
| QueryResults string string
| QueryValidator string string
| QueryValidators "u64 option" string
| QueryChain string

datatype VerifyCommands =
  VerifyReceipt string string
| VerifyVote string string string
| VerifyChain u64 "u64 option" string
| VerifyElection string string

datatype Commands =
  GenerateKeys string
| GenerateGenesis string string string
| NodeCommand NodeCommands
| QueryCommand QueryCommands
| VerifyCommand VerifyCommands

record CommandLine =
  cl_verbose :: bool
  cl_config :: "string option"
  cl_data_dir :: "string option"
  cl_command :: Commands

text \<open>What lies outside: \<open>ce_http\<close> is the client for an endpoint; the seed, the salt and the time are those of this run.\<close>

record ('w, 'v) cli_env =
  ce_json :: "'v json_display"
  ce_http :: "string \<Rightarrow> ('w, 'v) http_client"
  ce_machine :: "'w processes"
  ce_keys :: key_externals
  ce_chain :: tx_externals
  ce_show_error :: "VotingError \<Rightarrow> string"
  ce_to_lowercase :: "string \<Rightarrow> string"
  ce_genesis_text :: "GenesisBlock \<Rightarrow> (string, string) result"
  ce_seed :: "32 bytes"
  ce_salt :: rust_str
  ce_now :: Timestamp

section \<open>Dispatch\<close>

definition finished :: "'w \<times> ('a, 'e) result \<Rightarrow> 'w \<times> (unit, 'e) result" where
  "finished = (\<lambda>(w, r). (w, rbind r (\<lambda>_. Ok ())))"

abbreviation ce_values :: "('w, 'v) cli_env \<Rightarrow> 'v json_value" where
  "ce_values X \<equiv> plain_json (ce_json X)"

fun run_node_command :: "('w, 'v) cli_env \<Rightarrow> string option \<Rightarrow> NodeCommands \<Rightarrow> 'w \<Rightarrow> 'w \<times> unit outcome" where
  "run_node_command X data_dir (NodeStart kind genesis_path key_path rpc rpc_addr metrics metrics_addr) w =
     finished (node_start_command (ce_to_lowercase X) (ce_machine X)
       \<lparr>sto_node_type = kind, sto_genesis = genesis_path, sto_validator_key = key_path, sto_data_dir = data_dir, sto_enable_rpc = rpc,
        sto_rpc_addr = rpc_addr, sto_enable_metrics = metrics, sto_metrics_addr = metrics_addr\<rparr> w)"
| "run_node_command X data_dir NodeStop w = node_stop_command (ce_machine X) w"
| "run_node_command X data_dir (NodeStatusOf rpc) w = finished (node_status_command (ce_values X) (ce_http X rpc) w)"
| "run_node_command X data_dir (NodeInfoOf rpc) w = finished (node_info_command (ce_values X) (ce_http X rpc) w)"

fun run_query_command :: "('w, 'v) cli_env \<Rightarrow> QueryCommands \<Rightarrow> 'w \<Rightarrow> 'w \<times> unit outcome" where
  "run_query_command X (QueryBlock identifier rpc) w = finished (block_query (ce_json X) (ce_http X rpc) identifier w)"
| "run_query_command X (QueryTransaction tx_hash rpc) w = finished (transaction_query (ce_json X) (ce_http X rpc) tx_hash w)"
| "run_query_command X (QueryElection i rpc) w = finished (election_query (ce_json X) (ce_http X rpc) i w)"
| "run_query_command X (QueryResults i rpc) w = finished (results_query (ce_json X) (ce_http X rpc) i w)"
| "run_query_command X (QueryValidator address rpc) w = finished (validator_query (ce_json X) (ce_http X rpc) address w)"
| "run_query_command X (QueryValidators height rpc) w =
     finished (and_then (query_validators (ce_values X) (ce_http X rpc) height w) (\<lambda>w validators.
       (w, display_validators (ce_json X) validators FormatTable)))"
| "run_query_command X (QueryChain rpc) w = finished (chain_query (ce_json X) (ce_http X rpc) w)"

fun run_verify_command :: "('w, 'v) cli_env \<Rightarrow> VerifyCommands \<Rightarrow> 'w \<Rightarrow> 'w \<times> unit outcome" where
  "run_verify_command X (VerifyReceipt receipt rpc) w = finished (verify_receipt (ce_values X) (ce_http X rpc) receipt w)"
| "run_verify_command X (VerifyVote tx_hash proof_hex rpc) w = finished (verify_vote_command (ce_values X) (ce_http X rpc) tx_hash proof_hex w)"
| "run_verify_command X (VerifyChain start_height end_height rpc) w =
     finished (verify_chain_command (ce_values X) (ce_http X rpc) start_height end_height w)"
| "run_verify_command X (VerifyElection i rpc) w = finished (verify_election_command (ce_values X) (ce_http X rpc) i w)"

definition run_command :: "('w, 'v) cli_env \<Rightarrow> CommandLine \<Rightarrow> 'w \<Rightarrow> 'w \<times> unit outcome" where
  "run_command X cli w =
     (case cl_command cli of
        GenerateKeys out \<Rightarrow> generate_keys (px_files (ce_machine X)) (ce_keys X) (ce_seed X) (ce_salt X) out w
      | GenerateGenesis validators chain_id out \<Rightarrow>
          finished (generate_genesis (ce_show_error X) (px_files (ce_machine X)) (ce_keys X) (ce_chain X) (ce_genesis_text X) (ce_now X)
            validators chain_id out w)
      | NodeCommand cmd \<Rightarrow> run_node_command X (cl_data_dir cli) cmd w
      | QueryCommand cmd \<Rightarrow> run_query_command X cmd w
      | VerifyCommand cmd \<Rightarrow> run_verify_command X cmd w)"

text \<open>The exit status: 1 after an error, 101 after a panic.\<close>

definition cli_main :: "('w, 'v) cli_env \<Rightarrow> CommandLine \<Rightarrow> 'w \<Rightarrow> 'w \<times> nat" where
  "cli_main X cli w = (case run_command X cli w of (w', Ok _) \<Rightarrow> (w', 0) | (w', Err e) \<Rightarrow> (w', 1) | (w', Panic m) \<Rightarrow> (w', 101))"

section \<open>What a command does\<close>

text \<open>Commands that only ask.\<close>

fun asks_only :: "Commands \<Rightarrow> bool" where
  "asks_only (NodeCommand (NodeStatusOf _)) = True"
| "asks_only (NodeCommand (NodeInfoOf _)) = True"
| "asks_only (QueryCommand _) = True"
| "asks_only (VerifyCommand _) = True"
| "asks_only _ = False"

lemma fst_finished [simp]: "fst (finished x) = fst x"
  by (simp add: finished_def split: prod.split)

lemma fst_and_then: "fst m = w \<Longrightarrow> (\<And>x. fst (f w x) = w) \<Longrightarrow> fst (and_then m f) = w"
  by (cases "(m, f)" rule: and_then.cases) auto

lemma fst_rpc_call: "(\<And>v w. fst (C v w) = w) \<Longrightarrow> fst (rpc_call V C name params w) = w"
proof -
  assume C: "\<And>v w. fst (C v w) = w"
  show ?thesis using C [of "rpc_request V name params" w] by (auto simp: rpc_call_def split: prod.split HttpReply.split)
qed

lemma fst_check_chain_blocks: "(\<And>v w. fst (C v w) = w) \<Longrightarrow> fst (check_chain_blocks V C hs acc w) = w"
  by (induction hs arbitrary: acc) (simp_all add: fst_and_then fst_rpc_call)

lemma fst_node_status: "(\<And>v w. fst (C v w) = w) \<Longrightarrow> fst (node_status_command V C w) = w"
proof -
  assume C: "\<And>v w. fst (C v w) = w"
  have "fst (call_no_params V C name w) = w" for name by (simp add: call_no_params_def fst_rpc_call [OF C])
  then show ?thesis by (auto simp: node_status_command_def split: prod.split result.split) (metis fst_conv)+
qed

text \<open>If the requests leave the machine alone, so do the commands that only ask.\<close>

lemma asking_changes_nothing:
  assumes "\<And>rpc v w. fst (ce_http X rpc v w) = w" and "asks_only (cl_command cli)"
  shows "fst (cli_main X cli w) = w"
proof -
  have http: "\<And>v w. fst (ce_http X rpc v w) = w" for rpc using assms(1) .
  have "fst (run_query_command X cmd w) = w" for cmd
    by (cases cmd)
      (auto simp: block_query_def transaction_query_def election_query_def results_query_def validator_query_def chain_query_def
        query_block_def query_validators_def call_no_params_def fst_rpc_call [OF http] split: option.split intro!: fst_and_then)
  moreover have "fst (run_verify_command X cmd w) = w" for cmd
    by (cases cmd)
      (auto simp: verify_receipt_def verify_vote_command_def verify_chain_command_def verify_election_command_def call_no_params_def Let_def
        fst_rpc_call [OF http] fst_check_chain_blocks [OF http] split: prod.split intro!: fst_and_then)
  moreover have "fst (node_info_command (ce_values X) (ce_http X rpc) w) = w" for rpc
    by (auto simp: node_info_command_def call_no_params_def fst_rpc_call [OF http] intro!: fst_and_then)
  ultimately have "fst (run_command X cli w) = w"
    using assms(2) by (cases "cl_command cli" rule: asks_only.cases) (simp_all add: run_command_def fst_node_status [OF http])
  then show ?thesis by (auto simp: cli_main_def split: prod.splits result.splits)
qed

text \<open>A vote that is found invalid, and a chain with failures, still give the exit status 0.\<close>

lemma failed_verification_exits_zero:
  assumes "cl_command cli = VerifyCommand (VerifyVote tx_hash proof_hex rpc)"
    and "verify_vote_command (ce_values X) (ce_http X rpc) tx_hash proof_hex w = (w', Ok False)"
  shows "cli_main X cli w = (w', 0)"
  using assms by (simp add: cli_main_def run_command_def finished_def)

lemma broken_chain_exits_zero:
  assumes "cl_command cli = VerifyCommand (VerifyChain start_height end_height rpc)"
    and "verify_chain_command (ce_values X) (ce_http X rpc) start_height end_height w = (w', Ok report)"
  shows "cli_main X cli w = (w', 0)"
  using assms by (simp add: cli_main_def run_command_def finished_def)

text \<open>The option \<open>--config\<close> is read by nothing.\<close>

lemma config_ignored: "cli_main X (cli\<lparr>cl_config := c\<rparr>) w = cli_main X cli w"
  by (cases "cl_command cli") (simp_all add: cli_main_def run_command_def)

end
