(* ===== verification/Backends.thy ===== *)
theory Backends
  imports Rust_Strings
begin

text \<open>
  The other backends of \<open>storage/src/database.rs\<close> and \<open>DatabaseFactory\<close>. The libraries \<open>rocksdb\<close> and
  \<open>sled\<close> are the records \<open>rocksdb\<close> and \<open>sled\<close> of the calls the code makes; \<open>rocks_laws\<close> and
  \<open>sled_laws\<close> say what they document, over a view of their state as a map. A value of type
  \<open>Arc<dyn Database>\<close> is one of the three databases, \<open>dyn_database\<close> dispatches on it.
\<close>

section \<open>Configuration\<close>

datatype DatabaseBackend = RocksDBBackend | SledBackend | MemoryBackend

record DatabaseConfig =
  dbc_path :: string
  dbc_backend :: DatabaseBackend
  dbc_max_open_files :: "nat option"
  dbc_cache_size :: "nat option"
  dbc_compression :: bool
  dbc_write_buffer_size :: "nat option"
  dbc_bloom_filter_bits :: "u32 option"

text \<open>The features the crate is built with.\<close>

record features =
  rocksdb_backend :: bool
  sled_backend :: bool

definition DatabaseConfig_default :: "features \<Rightarrow> DatabaseConfig" where
  "DatabaseConfig_default f =
     \<lparr>dbc_path = ''./data/db'',
      dbc_backend = (if rocksdb_backend f then RocksDBBackend else if sled_backend f then SledBackend else MemoryBackend),
      dbc_max_open_files = Some 1000, dbc_cache_size = Some (128 * 1024 * 1024), dbc_compression = True,
      dbc_write_buffer_size = Some (64 * 1024 * 1024), dbc_bloom_filter_bits = Some 10\<rparr>"

section \<open>RocksDB\<close>

record RocksOptions =
  rop_create_if_missing :: bool
  rop_block_cache :: "nat option"
  rop_zstd :: bool
  rop_write_buffer_size :: "nat option"
  rop_max_open_files :: "32 word option"

text \<open>
  \<open>rdb_iter_from r k\<close>: the entries a raw iterator visits after \<open>seek(k)\<close>, as long as it is valid. It stops being valid at the
  last entry and when reading fails; \<open>rdb_iter_status r k\<close> is what its \<open>status\<close> says then, which the code does not ask for.
\<close>

record 'r rocksdb =
  rdb_open :: "RocksOptions \<Rightarrow> string \<Rightarrow> ('r, string) result"
  rdb_get :: "'r \<Rightarrow> db_key \<Rightarrow> (db_value option, string) result"
  rdb_put :: "'r \<Rightarrow> db_key \<Rightarrow> db_value \<Rightarrow> 'r \<times> (unit, string) result"
  rdb_delete :: "'r \<Rightarrow> db_key \<Rightarrow> 'r \<times> (unit, string) result"
  rdb_write :: "'r \<Rightarrow> WriteOperation list \<Rightarrow> 'r \<times> (unit, string) result"
  rdb_iter_from :: "'r \<Rightarrow> db_key \<Rightarrow> (db_key \<times> db_value) list"
  rdb_iter_status :: "'r \<Rightarrow> db_key \<Rightarrow> (unit, string) result"
  rdb_flush :: "'r \<Rightarrow> (unit, string) result"
  rdb_property_value :: "'r \<Rightarrow> string \<Rightarrow> (string option, string) result"

record 'r RocksDBDatabase =
  rks_db :: 'r
  rks_path :: string
  rks_stats :: DatabaseStats

definition default_options :: RocksOptions where
  "default_options =
     \<lparr>rop_create_if_missing = False, rop_block_cache = None, rop_zstd = False, rop_write_buffer_size = None, rop_max_open_files = None\<rparr>"

definition rocks_new :: "'r rocksdb \<Rightarrow> RocksOptions \<Rightarrow> string \<Rightarrow> 'r RocksDBDatabase outcome" where
  "rocks_new R opts path =
     rbind (map_err (\<lambda>e. DatabaseError (''Failed to open RocksDB: '' @ e)) (rdb_open R opts path)) (\<lambda>db.
       Ok \<lparr>rks_db = db, rks_path = path, rks_stats = DatabaseStats_default\<rparr>)"

definition rocks_open :: "'r rocksdb \<Rightarrow> string \<Rightarrow> 'r RocksDBDatabase outcome" where
  "rocks_open R path = rocks_new R (default_options\<lparr>rop_create_if_missing := True\<rparr>) path"

definition rocks_options :: "DatabaseConfig \<Rightarrow> RocksOptions" where
  "rocks_options config =
     (let opts = default_options\<lparr>rop_create_if_missing := True\<rparr>;
          opts = (case dbc_cache_size config of Some n \<Rightarrow> opts\<lparr>rop_block_cache := Some n\<rparr> | None \<Rightarrow> opts);
          opts = (if dbc_compression config then opts\<lparr>rop_zstd := True\<rparr> else opts);
          opts = (case dbc_write_buffer_size config of Some n \<Rightarrow> opts\<lparr>rop_write_buffer_size := Some n\<rparr> | None \<Rightarrow> opts)
      in (case dbc_max_open_files config of Some n \<Rightarrow> opts\<lparr>rop_max_open_files := Some (of_nat n)\<rparr> | None \<Rightarrow> opts))"

definition rocks_with_config :: "'r rocksdb \<Rightarrow> string \<Rightarrow> DatabaseConfig \<Rightarrow> 'r RocksDBDatabase outcome" where
  "rocks_with_config R path config = rocks_new R (rocks_options config) path"

definition rocks_get :: "'r rocksdb \<Rightarrow> 'r RocksDBDatabase \<Rightarrow> db_key \<Rightarrow> 'r RocksDBDatabase \<times> db_value option outcome" where
  "rocks_get R d k =
     (d\<lparr>rks_stats := (rks_stats d)\<lparr>dst_read_count := dst_read_count (rks_stats d) + 1\<rparr>\<rparr>,
      map_err (\<lambda>e. DatabaseError (''Get failed: '' @ e)) (rdb_get R (rks_db d) k))"

definition rocks_put :: "'r rocksdb \<Rightarrow> 'r RocksDBDatabase \<Rightarrow> db_key \<Rightarrow> db_value \<Rightarrow> 'r RocksDBDatabase \<times> unit outcome" where
  "rocks_put R d k v =
     (case rdb_put R (rks_db d) k v of
        (db, r) \<Rightarrow>
          (d\<lparr>rks_db := db, rks_stats := (rks_stats d)\<lparr>dst_write_count := dst_write_count (rks_stats d) + 1\<rparr>\<rparr>,
           map_err (\<lambda>e. DatabaseError (''Put failed: '' @ e)) r))"

definition rocks_delete :: "'r rocksdb \<Rightarrow> 'r RocksDBDatabase \<Rightarrow> db_key \<Rightarrow> 'r RocksDBDatabase \<times> unit outcome" where
  "rocks_delete R d k =
     (case rdb_delete R (rks_db d) k of
        (db, r) \<Rightarrow>
          (d\<lparr>rks_db := db, rks_stats := (rks_stats d)\<lparr>dst_delete_count := dst_delete_count (rks_stats d) + 1\<rparr>\<rparr>,
           map_err (\<lambda>e. DatabaseError (''Delete failed: '' @ e)) r))"

definition rocks_contains :: "'r rocksdb \<Rightarrow> 'r RocksDBDatabase \<Rightarrow> db_key \<Rightarrow> bool outcome" where
  "rocks_contains R d k =
     rbind (map_err (\<lambda>e. DatabaseError (''Contains failed: '' @ e)) (rdb_get R (rks_db d) k)) (\<lambda>found. Ok (found \<noteq> None))"

text \<open>The loop over a raw iterator: it stops at the first key without the prefix.\<close>

fun iter_loop :: "db_key \<Rightarrow> (db_key \<times> db_value) list \<Rightarrow> (db_key \<times> db_value) list" where
  "iter_loop prefix [] = []"
| "iter_loop prefix ((k, v) # rest) = (if \<not> starts_with k prefix then [] else (k, v) # iter_loop prefix rest)"

definition rocks_iter_prefix :: "'r rocksdb \<Rightarrow> 'r RocksDBDatabase \<Rightarrow> db_key \<Rightarrow> (db_key \<times> db_value) list outcome" where
  "rocks_iter_prefix R d prefix = Ok (iter_loop prefix (rdb_iter_from R (rks_db d) prefix))"

definition rocks_keys_with_prefix :: "'r rocksdb \<Rightarrow> 'r RocksDBDatabase \<Rightarrow> db_key \<Rightarrow> db_key list outcome" where
  "rocks_keys_with_prefix R d prefix = Ok (map fst (iter_loop prefix (rdb_iter_from R (rks_db d) prefix)))"

definition rocks_write_batch :: "'r rocksdb \<Rightarrow> 'r RocksDBDatabase \<Rightarrow> WriteOperation list \<Rightarrow> 'r RocksDBDatabase \<times> unit outcome" where
  "rocks_write_batch R d operations =
     (case rdb_write R (rks_db d) operations of
        (db, r) \<Rightarrow> (d\<lparr>rks_db := db\<rparr>, map_err (\<lambda>e. DatabaseError (''Batch write failed: '' @ e)) r))"

definition rocks_flush :: "'r rocksdb \<Rightarrow> 'r RocksDBDatabase \<Rightarrow> unit outcome" where
  "rocks_flush R d = map_err (\<lambda>e. DatabaseError (''Flush failed: '' @ e)) (rdb_flush R (rks_db d))"

definition rocks_compact :: "'r RocksDBDatabase \<Rightarrow> unit outcome" where
  "rocks_compact d = Ok ()"

definition rocks_size :: "'r rocksdb \<Rightarrow> 'r RocksDBDatabase \<Rightarrow> u64" where
  "rocks_size R d =
     (case rdb_property_value R (rks_db d) ''rocksdb.total-sst-files-size'' of
        Ok (Some size_str) \<Rightarrow> (case parse_u64 size_str of Some n \<Rightarrow> n | None \<Rightarrow> 0)
      | _ \<Rightarrow> 0)"

definition rocks_stats :: "'r rocksdb \<Rightarrow> 'r RocksDBDatabase \<Rightarrow> DatabaseStats" where
  "rocks_stats R d = (rks_stats d)\<lparr>dst_total_size := rocks_size R d\<rparr>"

definition rocks_database :: "'r rocksdb \<Rightarrow> 'r RocksDBDatabase Database" where
  "rocks_database R =
     \<lparr>db_get = rocks_get R, db_put = rocks_put R, db_delete = rocks_delete R, db_contains = rocks_contains R,
      db_iter_prefix = rocks_iter_prefix R, db_keys_with_prefix = rocks_keys_with_prefix R,
      db_write_batch = rocks_write_batch R, db_flush = rocks_flush R, db_compact = rocks_compact,
      db_size = rocks_size R, db_stats = rocks_stats R\<rparr>"

section \<open>Sled\<close>

record SledConfig =
  slc_path :: string
  slc_cache_capacity :: "u64 option"

record 's sled =
  sdb_open :: "string \<Rightarrow> ('s, string) result"
  sdb_open_config :: "SledConfig \<Rightarrow> ('s, string) result"
  sdb_get :: "'s \<Rightarrow> db_key \<Rightarrow> (db_value option, string) result"
  sdb_insert :: "'s \<Rightarrow> db_key \<Rightarrow> db_value \<Rightarrow> 's \<times> (db_value option, string) result"
  sdb_remove :: "'s \<Rightarrow> db_key \<Rightarrow> 's \<times> (db_value option, string) result"
  sdb_contains_key :: "'s \<Rightarrow> db_key \<Rightarrow> (bool, string) result"
  sdb_scan_prefix :: "'s \<Rightarrow> db_key \<Rightarrow> (db_key \<times> db_value, string) result list"
  sdb_apply_batch :: "'s \<Rightarrow> WriteOperation list \<Rightarrow> 's \<times> (unit, string) result"
  sdb_flush :: "'s \<Rightarrow> (nat, string) result"
  sdb_size_on_disk :: "'s \<Rightarrow> (u64, string) result"
  sdb_len :: "'s \<Rightarrow> nat"

record 's SledDatabase =
  sld_db :: 's
  sld_path :: string
  sld_stats :: DatabaseStats

definition sled_new :: "string \<Rightarrow> ('s, string) result \<Rightarrow> 's SledDatabase outcome" where
  "sled_new path opened =
     rbind (map_err (\<lambda>e. DatabaseError (''Failed to open Sled: '' @ e)) opened) (\<lambda>db.
       Ok \<lparr>sld_db = db, sld_path = path, sld_stats = DatabaseStats_default\<rparr>)"

definition sled_open :: "'s sled \<Rightarrow> string \<Rightarrow> 's SledDatabase outcome" where
  "sled_open S path = sled_new path (sdb_open S path)"

definition sled_with_config :: "'s sled \<Rightarrow> string \<Rightarrow> DatabaseConfig \<Rightarrow> 's SledDatabase outcome" where
  "sled_with_config S path config =
     sled_new path (sdb_open_config S \<lparr>slc_path = path, slc_cache_capacity = map_option of_nat (dbc_cache_size config)\<rparr>)"

definition sled_get :: "'s sled \<Rightarrow> 's SledDatabase \<Rightarrow> db_key \<Rightarrow> 's SledDatabase \<times> db_value option outcome" where
  "sled_get S d k =
     (d\<lparr>sld_stats := (sld_stats d)\<lparr>dst_read_count := dst_read_count (sld_stats d) + 1\<rparr>\<rparr>,
      map_err (\<lambda>e. DatabaseError (''Get failed: '' @ e)) (sdb_get S (sld_db d) k))"

definition sled_put :: "'s sled \<Rightarrow> 's SledDatabase \<Rightarrow> db_key \<Rightarrow> db_value \<Rightarrow> 's SledDatabase \<times> unit outcome" where
  "sled_put S d k v =
     (case sdb_insert S (sld_db d) k v of
        (db, r) \<Rightarrow>
          (d\<lparr>sld_db := db, sld_stats := (sld_stats d)\<lparr>dst_write_count := dst_write_count (sld_stats d) + 1\<rparr>\<rparr>,
           rbind (map_err (\<lambda>e. DatabaseError (''Put failed: '' @ e)) r) (\<lambda>_. Ok ())))"

definition sled_delete :: "'s sled \<Rightarrow> 's SledDatabase \<Rightarrow> db_key \<Rightarrow> 's SledDatabase \<times> unit outcome" where
  "sled_delete S d k =
     (case sdb_remove S (sld_db d) k of
        (db, r) \<Rightarrow>
          (d\<lparr>sld_db := db, sld_stats := (sld_stats d)\<lparr>dst_delete_count := dst_delete_count (sld_stats d) + 1\<rparr>\<rparr>,
           rbind (map_err (\<lambda>e. DatabaseError (''Delete failed: '' @ e)) r) (\<lambda>_. Ok ())))"

definition sled_contains :: "'s sled \<Rightarrow> 's SledDatabase \<Rightarrow> db_key \<Rightarrow> bool outcome" where
  "sled_contains S d k = map_err (\<lambda>e. DatabaseError (''Contains failed: '' @ e)) (sdb_contains_key S (sld_db d) k)"

text \<open>\<open>filter_map(|result| result.ok())\<close>: entries that cannot be read are left out.\<close>

definition ok_entries :: "('a, 'e) result list \<Rightarrow> 'a list" where
  "ok_entries rs = List.map_filter (\<lambda>r. case r of Ok x \<Rightarrow> Some x | _ \<Rightarrow> None) rs"

definition sled_iter_prefix :: "'s sled \<Rightarrow> 's SledDatabase \<Rightarrow> db_key \<Rightarrow> (db_key \<times> db_value) list outcome" where
  "sled_iter_prefix S d prefix = Ok (ok_entries (sdb_scan_prefix S (sld_db d) prefix))"

definition sled_keys_with_prefix :: "'s sled \<Rightarrow> 's SledDatabase \<Rightarrow> db_key \<Rightarrow> db_key list outcome" where
  "sled_keys_with_prefix S d prefix = Ok (map fst (ok_entries (sdb_scan_prefix S (sld_db d) prefix)))"

definition sled_write_batch :: "'s sled \<Rightarrow> 's SledDatabase \<Rightarrow> WriteOperation list \<Rightarrow> 's SledDatabase \<times> unit outcome" where
  "sled_write_batch S d operations =
     (case sdb_apply_batch S (sld_db d) operations of
        (db, r) \<Rightarrow> (d\<lparr>sld_db := db\<rparr>, rbind (map_err (\<lambda>e. DatabaseError (''Batch write failed: '' @ e)) r) (\<lambda>_. Ok ())))"

definition sled_flush :: "'s sled \<Rightarrow> 's SledDatabase \<Rightarrow> unit outcome" where
  "sled_flush S d = rbind (map_err (\<lambda>e. DatabaseError (''Flush failed: '' @ e)) (sdb_flush S (sld_db d))) (\<lambda>_. Ok ())"

definition sled_compact :: "'s sled \<Rightarrow> 's SledDatabase \<Rightarrow> unit outcome" where
  "sled_compact S d = sled_flush S d"

definition sled_size :: "'s sled \<Rightarrow> 's SledDatabase \<Rightarrow> u64" where
  "sled_size S d = (case sdb_size_on_disk S (sld_db d) of Ok n \<Rightarrow> n | _ \<Rightarrow> 0)"

definition sled_stats :: "'s sled \<Rightarrow> 's SledDatabase \<Rightarrow> DatabaseStats" where
  "sled_stats S d = (sld_stats d)\<lparr>dst_total_keys := of_nat (sdb_len S (sld_db d)), dst_total_size := sled_size S d\<rparr>"

definition sled_database :: "'s sled \<Rightarrow> 's SledDatabase Database" where
  "sled_database S =
     \<lparr>db_get = sled_get S, db_put = sled_put S, db_delete = sled_delete S, db_contains = sled_contains S,
      db_iter_prefix = sled_iter_prefix S, db_keys_with_prefix = sled_keys_with_prefix S,
      db_write_batch = sled_write_batch S, db_flush = sled_flush S, db_compact = sled_compact S,
      db_size = sled_size S, db_stats = sled_stats S\<rparr>"

section \<open>The factory\<close>

datatype ('r, 's) dyn_db = RocksDb "'r RocksDBDatabase" | SledDb "'s SledDatabase" | MemoryDb MemoryDatabase

definition DatabaseFactory_create ::
  "features \<Rightarrow> 'r rocksdb \<Rightarrow> 's sled \<Rightarrow> DatabaseConfig \<Rightarrow> ('r, 's) dyn_db outcome" where
  "DatabaseFactory_create f R S config =
     (case dbc_backend config of
        RocksDBBackend \<Rightarrow>
          if rocksdb_backend f then rbind (rocks_with_config R (dbc_path config) config) (\<lambda>db. Ok (RocksDb db))
          else Err (NotImplemented ''RocksDB backend not enabled. Rebuild with --features rocksdb-backend'')
      | SledBackend \<Rightarrow>
          if sled_backend f then rbind (sled_with_config S (dbc_path config) config) (\<lambda>db. Ok (SledDb db))
          else Err (NotImplemented ''Sled backend not enabled. Rebuild with --features sled-backend'')
      | MemoryBackend \<Rightarrow> Ok (MemoryDb MemoryDatabase_new))"

definition create_memory :: "('r, 's) dyn_db" where
  "create_memory = MemoryDb MemoryDatabase_new"

definition create_sled :: "'s sled \<Rightarrow> string \<Rightarrow> ('r, 's) dyn_db outcome" where
  "create_sled S path = rbind (sled_open S path) (\<lambda>db. Ok (SledDb db))"

definition create_rocksdb :: "'r rocksdb \<Rightarrow> string \<Rightarrow> ('r, 's) dyn_db outcome" where
  "create_rocksdb R path = rbind (rocks_open R path) (\<lambda>db. Ok (RocksDb db))"

text \<open>Dynamic dispatch: a method of the trait is that of the database behind the reference.\<close>

definition on_backend ::
  "('r RocksDBDatabase Database \<Rightarrow> 'r RocksDBDatabase \<Rightarrow> 'a) \<Rightarrow> ('s SledDatabase Database \<Rightarrow> 's SledDatabase \<Rightarrow> 'a) \<Rightarrow>
   (MemoryDatabase Database \<Rightarrow> MemoryDatabase \<Rightarrow> 'a) \<Rightarrow> 'r rocksdb \<Rightarrow> 's sled \<Rightarrow>
   ((db_key, db_value) hashmap \<Rightarrow> db_key list) \<Rightarrow> ('r, 's) dyn_db \<Rightarrow> 'a" where
  "on_backend f g h R S iteration d =
     (case d of RocksDb x \<Rightarrow> f (rocks_database R) x | SledDb x \<Rightarrow> g (sled_database S) x
      | MemoryDb x \<Rightarrow> h (memory_database iteration) x)"

definition dyn_database ::
  "'r rocksdb \<Rightarrow> 's sled \<Rightarrow> ((db_key, db_value) hashmap \<Rightarrow> db_key list) \<Rightarrow> ('r, 's) dyn_db Database" where
  "dyn_database R S iteration =
     \<lparr>db_get = (\<lambda>d k. on_backend (\<lambda>D x. apfst RocksDb (db_get D x k)) (\<lambda>D x. apfst SledDb (db_get D x k))
                  (\<lambda>D x. apfst MemoryDb (db_get D x k)) R S iteration d),
      db_put = (\<lambda>d k v. on_backend (\<lambda>D x. apfst RocksDb (db_put D x k v)) (\<lambda>D x. apfst SledDb (db_put D x k v))
                  (\<lambda>D x. apfst MemoryDb (db_put D x k v)) R S iteration d),
      db_delete = (\<lambda>d k. on_backend (\<lambda>D x. apfst RocksDb (db_delete D x k)) (\<lambda>D x. apfst SledDb (db_delete D x k))
                  (\<lambda>D x. apfst MemoryDb (db_delete D x k)) R S iteration d),
      db_contains = (\<lambda>d k. on_backend (\<lambda>D x. db_contains D x k) (\<lambda>D x. db_contains D x k) (\<lambda>D x. db_contains D x k) R S iteration d),
      db_iter_prefix = (\<lambda>d p. on_backend (\<lambda>D x. db_iter_prefix D x p) (\<lambda>D x. db_iter_prefix D x p) (\<lambda>D x. db_iter_prefix D x p) R S iteration d),
      db_keys_with_prefix = (\<lambda>d p. on_backend (\<lambda>D x. db_keys_with_prefix D x p) (\<lambda>D x. db_keys_with_prefix D x p)
                  (\<lambda>D x. db_keys_with_prefix D x p) R S iteration d),
      db_write_batch = (\<lambda>d ops. on_backend (\<lambda>D x. apfst RocksDb (db_write_batch D x ops)) (\<lambda>D x. apfst SledDb (db_write_batch D x ops))
                  (\<lambda>D x. apfst MemoryDb (db_write_batch D x ops)) R S iteration d),
      db_flush = on_backend db_flush db_flush db_flush R S iteration,
      db_compact = on_backend db_compact db_compact db_compact R S iteration,
      db_size = on_backend db_size db_size db_size R S iteration,
      db_stats = on_backend db_stats db_stats db_stats R S iteration\<rparr>"

section \<open>What the libraries document\<close>

text \<open>The entries of a map in the order of their keys.\<close>

definition sorted_entries :: "(db_key, db_value) hashmap \<Rightarrow> db_key list \<Rightarrow> (db_key \<times> db_value) list" where
  "sorted_entries m ks = map (\<lambda>k. (k, the (fmlookup m k))) ks"

text \<open>
  A call that succeeds has its effect. An iterator visits the keys in ascending order from the one it is set to; it may stop
  early, but not when its status is good.
\<close>

definition rocks_laws :: "'r rocksdb \<Rightarrow> ('r \<Rightarrow> (db_key, db_value) hashmap) \<Rightarrow> bool" where
  "rocks_laws R c \<longleftrightarrow>
     (\<forall>r k x. rdb_get R r k = Ok x \<longrightarrow> x = fmlookup (c r) k) \<and>
     (\<forall>r k v r' u. rdb_put R r k v = (r', Ok u) \<longrightarrow> c r' = fmupd k v (c r)) \<and>
     (\<forall>r k r' u. rdb_delete R r k = (r', Ok u) \<longrightarrow> c r' = fmdrop k (c r)) \<and>
     (\<forall>r ops r' u. rdb_write R r ops = (r', Ok u) \<longrightarrow> c r' = fold apply_write ops (c r)) \<and>
     (\<forall>r p. let es = sorted_entries (c r) (filter (\<lambda>k. p \<le> k) (sorted_walk (c r)))
        in (\<exists>n. rdb_iter_from R r p = take n es) \<and> (rdb_iter_status R r p = Ok () \<longrightarrow> rdb_iter_from R r p = es))"

text \<open>The items of a scan are the entries with the prefix in ascending order or errors; without an error none is missing.\<close>

definition sled_laws :: "'s sled \<Rightarrow> ('s \<Rightarrow> (db_key, db_value) hashmap) \<Rightarrow> bool" where
  "sled_laws S c \<longleftrightarrow>
     (\<forall>s k x. sdb_get S s k = Ok x \<longrightarrow> x = fmlookup (c s) k) \<and>
     (\<forall>s k v s' x. sdb_insert S s k v = (s', Ok x) \<longrightarrow> c s' = fmupd k v (c s)) \<and>
     (\<forall>s k s' x. sdb_remove S s k = (s', Ok x) \<longrightarrow> c s' = fmdrop k (c s)) \<and>
     (\<forall>s k b. sdb_contains_key S s k = Ok b \<longrightarrow> b = hm_contains_key (c s) k) \<and>
     (\<forall>s ops s' u. sdb_apply_batch S s ops = (s', Ok u) \<longrightarrow> c s' = fold apply_write ops (c s)) \<and>
     (\<forall>s p. let es = sorted_entries (c s) (filter (\<lambda>k. starts_with k p) (sorted_walk (c s)))
        in (\<exists>positions. map ok_value (filter is_ok (sdb_scan_prefix S s p)) = nths es positions) \<and>
           (list_all is_ok (sdb_scan_prefix S s p) \<longrightarrow> sdb_scan_prefix S s p = map Ok es))"

text \<open>No scan of the library fails.\<close>

definition rocks_scans_good :: "'r rocksdb \<Rightarrow> bool" where
  "rocks_scans_good R \<longleftrightarrow> (\<forall>r p. rdb_iter_status R r p = Ok ())"

definition sled_scans_good :: "'s sled \<Rightarrow> bool" where
  "sled_scans_good S \<longleftrightarrow> (\<forall>s p. list_all is_ok (sdb_scan_prefix S s p))"

section \<open>Scanning a prefix\<close>

text \<open>In the lexicographic order the keys with a prefix form an interval that begins at the prefix.\<close>

lemma prefix_le: "starts_with k p \<Longrightarrow> p \<le> (k :: 'a::linorder list)"
proof (induction p arbitrary: k)
  case (Cons a p)
  then show ?case by (cases k) auto
qed simp

lemma prefix_between:
  fixes a b :: "'a::linorder list"
  shows "p \<le> a \<Longrightarrow> a \<le> b \<Longrightarrow> starts_with b p \<Longrightarrow> starts_with a p"
proof (induction p arbitrary: a b)
  case (Cons x p)
  then obtain bs where b: "b = x # bs" "starts_with bs p" by (cases b) auto
  with Cons.prems obtain as where a: "a = x # as" by (cases a) auto
  with Cons b show ?case by auto
qed simp

lemma takeWhile_prefix:
  fixes ks :: "'a::linorder list list"
  shows "sorted ks \<Longrightarrow> \<forall>k \<in> set ks. p \<le> k \<Longrightarrow> takeWhile (\<lambda>k. starts_with k p) ks = filter (\<lambda>k. starts_with k p) ks"
proof (induction ks)
  case (Cons k ks)
  show ?case
  proof (cases "starts_with k p")
    case False
    have "\<not> starts_with b p" if "b \<in> set ks" for b
      using that False prefix_between [of p k b] Cons.prems by auto
    with False show ?thesis by auto
  qed (use Cons in auto)
qed simp

lemma iter_loop_takeWhile: "iter_loop p es = takeWhile (\<lambda>e. starts_with (fst e) p) es"
  by (induction p es rule: iter_loop.induct) auto

text \<open>Hence the loop that stops at the first other key finds exactly the keys with the prefix.\<close>

lemma iter_loop_filter:
  "iter_loop p (sorted_entries m (filter (\<lambda>k. p \<le> k) (sorted_walk m))) = sorted_entries m (filter (\<lambda>k. starts_with k p) (sorted_walk m))"
proof -
  have "sorted (filter (\<lambda>k. p \<le> k) (sorted_walk m))" by (simp add: sorted_walk_def sorted_wrt_filter)
  then have "takeWhile (\<lambda>k. starts_with k p) (filter (\<lambda>k. p \<le> k) (sorted_walk m)) = filter (\<lambda>k. starts_with k p) (sorted_walk m)"
    using prefix_le by (subst takeWhile_prefix) (auto intro!: filter_cong)
  then show ?thesis by (simp add: iter_loop_takeWhile sorted_entries_def takeWhile_map comp_def)
qed

lemma map_fst_sorted_entries [simp]: "map fst (sorted_entries m ks) = ks"
  by (simp add: sorted_entries_def comp_def)

lemma ok_entries_map_Ok [simp]: "ok_entries (map Ok xs) = xs"
  by (induction xs) (simp_all add: ok_entries_def List.map_filter_def)

lemma set_sorted_entries:
  "set (sorted_entries m (filter P (sorted_walk m))) = {(k, v). fmlookup m k = Some v \<and> P k}"
  by (auto simp: sorted_entries_def sorted_walk_def fmlookup_dom_iff image_iff)

lemma set_sorted_walk: "set (sorted_walk m) = {k. hm_contains_key m k}" "distinct (sorted_walk m)"
  by (simp_all add: sorted_walk_def hm_contains_key_dom)

section \<open>The contract of every backend\<close>

text \<open>A database whose scans return the entries with a prefix, each once.\<close>

locale scanning_database = key_value_database +
  assumes iter_Ok: "legit \<Longrightarrow> db_iter_prefix D d p = Ok es \<Longrightarrow>
       set es = {(k, v). fmlookup (content d) k = Some v \<and> starts_with k p} \<and> distinct (map fst es)"

text \<open>Calls of the trait and their answers; scans are compared as sets, because a hash map has no order.\<close>

datatype db_call =
    CallGet db_key
  | CallPut db_key db_value
  | CallDelete db_key
  | CallContains db_key
  | CallKeys db_key
  | CallIter db_key
  | CallBatch "WriteOperation list"

datatype db_answer = Found "db_value option" | Written | Contained bool | FoundKeys "db_key set" | FoundEntries "(db_key \<times> db_value) set"

fun db_answer_of :: "'d Database \<Rightarrow> db_call \<Rightarrow> 'd \<Rightarrow> 'd \<times> db_answer outcome" where
  "db_answer_of D (CallGet k) d = and_then (db_get D d k) (\<lambda>d x. (d, Ok (Found x)))"
| "db_answer_of D (CallPut k v) d = and_then (db_put D d k v) (\<lambda>d _. (d, Ok Written))"
| "db_answer_of D (CallDelete k) d = and_then (db_delete D d k) (\<lambda>d _. (d, Ok Written))"
| "db_answer_of D (CallContains k) d = and_then (d, db_contains D d k) (\<lambda>d b. (d, Ok (Contained b)))"
| "db_answer_of D (CallKeys p) d = and_then (d, db_keys_with_prefix D d p) (\<lambda>d ks. (d, Ok (FoundKeys (set ks))))"
| "db_answer_of D (CallIter p) d = and_then (d, db_iter_prefix D d p) (\<lambda>d es. (d, Ok (FoundEntries (set es))))"
| "db_answer_of D (CallBatch ops) d = and_then (db_write_batch D d ops) (\<lambda>d _. (d, Ok Written))"

fun db_run :: "'d Database \<Rightarrow> db_call list \<Rightarrow> 'd \<Rightarrow> 'd \<times> db_answer list outcome" where
  "db_run D [] d = (d, Ok [])"
| "db_run D (c # cs) d = and_then (db_answer_of D c d) (\<lambda>d a. and_then (db_run D cs d) (\<lambda>d as. (d, Ok (a # as))))"

text \<open>The specification: a finite map.\<close>

fun map_answer :: "(db_key, db_value) hashmap \<Rightarrow> db_call \<Rightarrow> (db_key, db_value) hashmap \<times> db_answer" where
  "map_answer m (CallGet k) = (m, Found (fmlookup m k))"
| "map_answer m (CallPut k v) = (fmupd k v m, Written)"
| "map_answer m (CallDelete k) = (fmdrop k m, Written)"
| "map_answer m (CallContains k) = (m, Contained (hm_contains_key m k))"
| "map_answer m (CallKeys p) = (m, FoundKeys {k. hm_contains_key m k \<and> starts_with k p})"
| "map_answer m (CallIter p) = (m, FoundEntries {(k, v). fmlookup m k = Some v \<and> starts_with k p})"
| "map_answer m (CallBatch ops) = (fold apply_write ops m, Written)"

fun map_run :: "(db_key, db_value) hashmap \<Rightarrow> db_call list \<Rightarrow> (db_key, db_value) hashmap \<times> db_answer list" where
  "map_run m [] = (m, [])"
| "map_run m (c # cs) = (case map_answer m c of (m', a) \<Rightarrow> apsnd (Cons a) (map_run m' cs))"

context scanning_database
begin

lemma answer_refines:
  assumes legit and "db_answer_of D c d = (d', Ok a)"
  shows "map_answer (content d) c = (content d', a)"
proof (cases c)
  case (CallGet k)
  with assms(2) obtain x where "db_get D d k = (d', Ok x)" "a = Found x" by (auto simp: and_then_eq_pair)
  with CallGet show ?thesis using get_Ok get_content by fastforce
next
  case (CallKeys p)
  with assms show ?thesis using keys_Ok by (fastforce simp: and_then_eq_pair)
next
  case (CallIter p)
  with assms show ?thesis using iter_Ok by (fastforce simp: and_then_eq_pair)
next
  case (CallContains k)
  with assms(2) show ?thesis using contains_Ok by (fastforce simp: and_then_eq_pair)
qed (use assms(2) put_Ok delete_Ok batch_Ok in \<open>fastforce simp: and_then_eq_pair\<close>)+

lemma run_refines:
  assumes legit
  shows "db_run D cs d = (d', Ok as) \<Longrightarrow> map_run (content d) cs = (content d', as)"
proof (induction cs arbitrary: d as)
  case (Cons c cs)
  then obtain d1 a as' where 1: "db_answer_of D c d = (d1, Ok a)" "db_run D cs d1 = (d', Ok as')" "as = a # as'"
    by (auto simp: and_then_eq_pair)
  then show ?case using answer_refines [OF assms 1(1)] Cons.IH [OF 1(2)] by simp
qed simp

end

lemmas rocks_defs =
  rocks_database_def rocks_get_def rocks_put_def rocks_delete_def rocks_contains_def rocks_keys_with_prefix_def
  rocks_iter_prefix_def rocks_write_batch_def

lemmas sled_defs =
  sled_database_def sled_get_def sled_put_def sled_delete_def sled_contains_def sled_keys_with_prefix_def
  sled_iter_prefix_def sled_write_batch_def

interpretation memory_scan: scanning_database "walks iteration" "memory_database iteration" md_data
  for iteration :: "(db_key, db_value) hashmap \<Rightarrow> db_key list"
proof unfold_locales
  fix d p es
  assume "walks iteration" and "db_iter_prefix (memory_database iteration) d p = Ok es"
  then show "set es = {(k, v). fmlookup (md_data d) k = Some v \<and> starts_with k p} \<and> distinct (map fst es)"
    by (auto simp: memory_defs walks_def fmlookup_dom_iff image_iff comp_def)
qed

lemma rocks_contract: "rocks_laws R c \<Longrightarrow> scanning_database (rocks_scans_good R) (rocks_database R) (\<lambda>d. c (rks_db d))"
  by unfold_locales
    (auto simp: rocks_defs rocks_laws_def rocks_scans_good_def Let_def iter_loop_filter set_sorted_entries set_sorted_walk outcome_simps
      hm_contains_key_dom fmlookup_dom_iff split: prod.splits)

lemma sled_contract: "sled_laws S c \<Longrightarrow> scanning_database (sled_scans_good S) (sled_database S) (\<lambda>d. c (sld_db d))"
  by unfold_locales
    (auto simp: sled_defs sled_laws_def sled_scans_good_def Let_def set_sorted_entries set_sorted_walk outcome_simps split: prod.splits)

definition dyn_content ::
  "('r \<Rightarrow> (db_key, db_value) hashmap) \<Rightarrow> ('s \<Rightarrow> (db_key, db_value) hashmap) \<Rightarrow> ('r, 's) dyn_db \<Rightarrow> (db_key, db_value) hashmap" where
  "dyn_content c e d = (case d of RocksDb x \<Rightarrow> c (rks_db x) | SledDb x \<Rightarrow> e (sld_db x) | MemoryDb x \<Rightarrow> md_data x)"

text \<open>Calls through the trait object are the calls of the database behind it.\<close>

lemma and_then_apfst: "(\<And>s x. g (F s) x = apfst F (f s x)) \<Longrightarrow> and_then (apfst F m) g = apfst F (and_then m f)"
  by (cases "(m, f)" rule: and_then.cases) simp_all

lemma and_then_pure: "(\<And>s x. g (F s) x = apfst F (f s x)) \<Longrightarrow> and_then (F s, r) g = apfst F (and_then (s, r) f)"
  using and_then_apfst [of g F f "(s, r)"] by simp

lemma dyn_answer:
  "db_answer_of (dyn_database R S iteration) c (RocksDb x) = apfst RocksDb (db_answer_of (rocks_database R) c x)"
  "db_answer_of (dyn_database R S iteration) c (SledDb y) = apfst SledDb (db_answer_of (sled_database S) c y)"
  "db_answer_of (dyn_database R S iteration) c (MemoryDb z) = apfst MemoryDb (db_answer_of (memory_database iteration) c z)"
  by (cases c; simp add: dyn_database_def on_backend_def and_then_apfst and_then_pure)+

lemma dyn_run:
  "db_run (dyn_database R S iteration) cs (RocksDb x) = apfst RocksDb (db_run (rocks_database R) cs x)"
  "db_run (dyn_database R S iteration) cs (SledDb y) = apfst SledDb (db_run (sled_database S) cs y)"
  "db_run (dyn_database R S iteration) cs (MemoryDb z) = apfst MemoryDb (db_run (memory_database iteration) cs z)"
  by (induction cs arbitrary: x y z) (simp_all add: dyn_answer and_then_apfst)

text \<open>A backend whose feature is off is refused, and a configuration without features falls back to memory.\<close>

lemma factory_refuses:
  "\<not> rocksdb_backend f \<Longrightarrow> dbc_backend config = RocksDBBackend \<Longrightarrow> is_err (DatabaseFactory_create f R S config)"
  "\<not> sled_backend f \<Longrightarrow> dbc_backend config = SledBackend \<Longrightarrow> is_err (DatabaseFactory_create f R S config)"
  by (simp_all add: DatabaseFactory_create_def)

text \<open>An entry that Sled cannot read disappears from a scan without an error.\<close>

lemma unreadable_entry_skipped:
  "sdb_scan_prefix S (sld_db d) p = [Err e, Ok (k, v)] \<Longrightarrow> sled_keys_with_prefix S d p = Ok [k]"
  by (simp add: sled_keys_with_prefix_def ok_entries_def List.map_filter_def)

text \<open>The bloom filter that is configured is never set up.\<close>

lemma bloom_filter_ignored: "rocks_options (config\<lparr>dbc_bloom_filter_bits := b\<rparr>) = rocks_options config"
  by (simp add: rocks_options_def)

section \<open>Refinement\<close>

text \<open>
  Where no scan of the library fails, a sequence of calls that all succeed, whatever backend is behind the trait object, gives
  the answers of a finite map and leaves the content of that map.
\<close>

lemma backend_refines_map:
  assumes "rocks_laws R c" and "sled_laws S e" and "walks iteration"
    and "rocks_scans_good R" and "sled_scans_good S"
    and "db_run (dyn_database R S iteration) cs d = (d', Ok answers)"
  shows "map_run (dyn_content c e d) cs = (dyn_content c e d', answers)"
proof (cases d)
  case (RocksDb x)
  with assms(6) obtain x' where "db_run (rocks_database R) cs x = (x', Ok answers)" "d' = RocksDb x'"
    by (auto simp: dyn_run apfst_def map_prod_def split: prod.splits)
  with RocksDb scanning_database.run_refines [OF rocks_contract [OF assms(1)] assms(4)] show ?thesis by (simp add: dyn_content_def)
next
  case (SledDb x)
  with assms(6) obtain x' where "db_run (sled_database S) cs x = (x', Ok answers)" "d' = SledDb x'"
    by (auto simp: dyn_run apfst_def map_prod_def split: prod.splits)
  with SledDb scanning_database.run_refines [OF sled_contract [OF assms(2)] assms(5)] show ?thesis by (simp add: dyn_content_def)
next
  case (MemoryDb x)
  with assms(6) obtain x' where "db_run (memory_database iteration) cs x = (x', Ok answers)" "d' = MemoryDb x'"
    by (auto simp: dyn_run apfst_def map_prod_def split: prod.splits)
  with MemoryDb memory_scan.run_refines [OF assms(3)] show ?thesis by (simp add: dyn_content_def)
qed

text \<open>What a scan reads.\<close>

fun scan_complete :: "'r rocksdb \<Rightarrow> 's sled \<Rightarrow> ('r, 's) dyn_db \<Rightarrow> db_key \<Rightarrow> bool" where
  "scan_complete R S (RocksDb x) p = (rdb_iter_status R (rks_db x) p = Ok ())"
| "scan_complete R S (SledDb x) p = list_all is_ok (sdb_scan_prefix S (sld_db x) p)"
| "scan_complete R S (MemoryDb x) p = True"

definition prefix_entries :: "(db_key, db_value) hashmap \<Rightarrow> db_key \<Rightarrow> (db_key \<times> db_value) set" where
  "prefix_entries m p = {(k, v). fmlookup m k = Some v \<and> starts_with k p}"

lemma ok_entries_eq: "ok_entries rs = map ok_value (filter is_ok rs)"
  by (induction rs) (auto simp: ok_entries_def map_filter_simps split: result.splits)

lemma rocks_scan:
  assumes "rocks_laws R c" and es_def: "es = iter_loop p (rdb_iter_from R r p)"
  shows "set es \<subseteq> prefix_entries (c r) p \<and> distinct (map fst es) \<and> (rdb_iter_status R r p = Ok () \<longrightarrow> set es = prefix_entries (c r) p)"
proof -
  let ?all = "sorted_entries (c r) (filter (\<lambda>k. p \<le> k) (sorted_walk (c r)))"
  obtain n where law: "rdb_iter_from R r p = take n ?all" "rdb_iter_status R r p = Ok () \<longrightarrow> rdb_iter_from R r p = ?all"
    using assms(1) unfolding rocks_laws_def Let_def by blast
  have "\<exists>rest. takeWhile P xs = takeWhile P (take n xs) @ rest" for P and xs :: "(db_key \<times> db_value) list"
    by (induction xs arbitrary: n) (auto simp: take_Cons split: nat.split)
  then obtain rest where rest: "sorted_entries (c r) (filter (\<lambda>k. starts_with k p) (sorted_walk (c r))) = es @ rest"
    unfolding iter_loop_filter [symmetric] es_def law(1) iter_loop_takeWhile by blast
  have all: "set (es @ rest) = prefix_entries (c r) p" "distinct (map fst (es @ rest))"
    unfolding rest [symmetric] by (simp_all add: prefix_entries_def set_sorted_entries set_sorted_walk(2))
  moreover have "es @ rest = es" if "rdb_iter_status R r p = Ok ()"
    using that law(2) rest by (simp add: es_def iter_loop_filter)
  ultimately show ?thesis by auto
qed

lemma sled_scan:
  assumes "sled_laws S c" and es_def: "es = ok_entries (sdb_scan_prefix S s p)"
  shows "set es \<subseteq> prefix_entries (c s) p \<and> distinct (map fst es) \<and>
    (list_all is_ok (sdb_scan_prefix S s p) \<longrightarrow> set es = prefix_entries (c s) p)"
proof -
  let ?all = "sorted_entries (c s) (filter (\<lambda>k. starts_with k p) (sorted_walk (c s)))"
  have "(\<exists>positions. map ok_value (filter is_ok (sdb_scan_prefix S s p)) = nths ?all positions) \<and>
      (list_all is_ok (sdb_scan_prefix S s p) \<longrightarrow> sdb_scan_prefix S s p = map Ok ?all)"
    using assms(1) by (simp add: sled_laws_def Let_def)
  then obtain positions where law: "es = nths ?all positions" "list_all is_ok (sdb_scan_prefix S s p) \<longrightarrow> sdb_scan_prefix S s p = map Ok ?all"
    unfolding es_def ok_entries_eq by blast
  have all: "set ?all = prefix_entries (c s) p" "distinct (map fst ?all)"
    by (simp_all add: prefix_entries_def set_sorted_entries set_sorted_walk(2))
  have "distinct (map fst es)" using distinct_nthsI [OF all(2), of positions] unfolding law(1) nths_map [symmetric] .
  moreover have "set es \<subseteq> set ?all" by (simp only: law(1) set_nths_subset)
  moreover have "es = ?all" if "list_all is_ok (sdb_scan_prefix S s p)" using that law(2) by (simp add: es_def)
  ultimately show ?thesis using all(1) by auto
qed

text \<open>
  C36: scanning a prefix, whatever backend is behind the trait object. A scan always succeeds; both scans agree; every entry they
  return is one of the database under a key with the prefix, and no key comes twice. If the library could read on to the end,
  they return all of these entries. If it could not, the rest is missing and there is no error. For RocksDB the loop may
  stop at the first key without the prefix only because keys come in order.
\<close>

theorem backend_scans:
  assumes "rocks_laws R c" and "sled_laws S e" and "walks iteration"
  shows "\<exists>es. db_iter_prefix (dyn_database R S iteration) d p = Ok es \<and>
    db_keys_with_prefix (dyn_database R S iteration) d p = Ok (map fst es) \<and>
    distinct (map fst es) \<and> set es \<subseteq> prefix_entries (dyn_content c e d) p \<and>
    (scan_complete R S d p \<longrightarrow> set es = prefix_entries (dyn_content c e d) p)"
proof (cases d)
  case (RocksDb x)
  then show ?thesis using rocks_scan [OF assms(1) refl, of p "rks_db x"]
    by (simp add: dyn_database_def on_backend_def rocks_defs dyn_content_def)
next
  case (SledDb x)
  then show ?thesis using sled_scan [OF assms(2) refl, of "sld_db x" p]
    by (simp add: dyn_database_def on_backend_def sled_defs dyn_content_def)
next
  case (MemoryDb x)
  let ?es = "map (\<lambda>k. (k, the (fmlookup (md_data x) k))) (filter (\<lambda>k. starts_with k p) (iteration (md_data x)))"
  have scans: "db_iter_prefix (memory_database iteration) x p = Ok ?es" "db_keys_with_prefix (memory_database iteration) x p = Ok (map fst ?es)"
    by (simp_all add: memory_defs comp_def)
  with MemoryDb memory_scan.iter_Ok [OF assms(3) scans(1)] show ?thesis
    by (intro exI [of _ ?es]) (simp add: dyn_database_def on_backend_def dyn_content_def prefix_entries_def)
qed

text \<open>A library that keeps its content as a map and never fails.\<close>

definition sample_rocks :: "(db_key, db_value) hashmap rocksdb" where
  "sample_rocks =
     \<lparr>rdb_open = (\<lambda>_ _. Ok fmempty), rdb_get = (\<lambda>r k. Ok (fmlookup r k)), rdb_put = (\<lambda>r k v. (fmupd k v r, Ok ())),
      rdb_delete = (\<lambda>r k. (fmdrop k r, Ok ())), rdb_write = (\<lambda>r ops. (fold apply_write ops r, Ok ())),
      rdb_iter_from = (\<lambda>r p. sorted_entries r (filter (\<lambda>k. p \<le> k) (sorted_walk r))),
      rdb_iter_status = (\<lambda>_ _. Ok ()), rdb_flush = (\<lambda>_. Ok ()),
      rdb_property_value = (\<lambda>_ _. Ok (Some ''0''))\<rparr>"

definition sample_sled :: "(db_key, db_value) hashmap sled" where
  "sample_sled =
     \<lparr>sdb_open = (\<lambda>_. Ok fmempty), sdb_open_config = (\<lambda>_. Ok fmempty), sdb_get = (\<lambda>s k. Ok (fmlookup s k)),
      sdb_insert = (\<lambda>s k v. (fmupd k v s, Ok (fmlookup s k))), sdb_remove = (\<lambda>s k. (fmdrop k s, Ok (fmlookup s k))),
      sdb_contains_key = (\<lambda>s k. Ok (hm_contains_key s k)),
      sdb_scan_prefix = (\<lambda>s p. map Ok (sorted_entries s (filter (\<lambda>k. starts_with k p) (sorted_walk s)))),
      sdb_apply_batch = (\<lambda>s ops. (fold apply_write ops s, Ok ())), sdb_flush = (\<lambda>_. Ok 0), sdb_size_on_disk = (\<lambda>_. Ok 0),
      sdb_len = (\<lambda>s. length (sorted_walk s))\<rparr>"

lemma sample_backend_laws: "rocks_laws sample_rocks (\<lambda>m. m)" "sled_laws sample_sled (\<lambda>m. m)"
proof -
  show "rocks_laws sample_rocks (\<lambda>m. m)"
    by (auto simp: rocks_laws_def sample_rocks_def Let_def intro: take_all [OF le_refl, symmetric])
  have "map ok_value (filter is_ok (map Ok es :: (db_key \<times> db_value, string) result list)) = es" for es :: "(db_key \<times> db_value) list" by (simp add: filter_map comp_def)
  then have "\<exists>positions. map ok_value (filter is_ok (map Ok es :: (db_key \<times> db_value, string) result list)) = nths es positions" for es :: "(db_key \<times> db_value) list"
    using nths_all [of es UNIV] by (metis UNIV_I)
  then show "sled_laws sample_sled (\<lambda>m. m)" by (simp add: sled_laws_def sample_sled_def Let_def)
qed

definition sample_database :: "((db_key, db_value) hashmap, (db_key, db_value) hashmap) dyn_db" where
  "sample_database = RocksDb \<lparr>rks_db = fmempty, rks_path = ''./data/db'', rks_stats = DatabaseStats_default\<rparr>"

definition sample_writes :: "db_call list" where
  "sample_writes = [CallPut [1, 2] [7], CallPut [2] [8], CallBatch [Put [1] [9], Delete [2]]]"

theorem backend_scans_witness:
  "\<exists>d es. db_run (dyn_database sample_rocks sample_sled sorted_walk) sample_writes sample_database = (d, Ok [Written, Written, Written]) \<and>
     db_iter_prefix (dyn_database sample_rocks sample_sled sorted_walk) d [1] = Ok es \<and> set es = {([1], [9]), ([1, 2], [7])}"
proof -
  let ?x = "\<lparr>rks_db = fmempty, rks_path = ''./data/db'', rks_stats = DatabaseStats_default\<rparr> :: (db_key, db_value) hashmap RocksDBDatabase"
  obtain x where x: "db_run (rocks_database sample_rocks) sample_writes ?x = (x, Ok [Written, Written, Written])"
    and content: "rks_db x = fmdrop [2] (fmupd [1] [9] (fmupd [2] [8] (fmupd [1, 2] [7] fmempty)))"
    by (simp add: sample_writes_def rocks_defs sample_rocks_def)
  have run: "db_run (dyn_database sample_rocks sample_sled sorted_walk) sample_writes sample_database = (RocksDb x, Ok [Written, Written, Written])"
    unfolding sample_database_def dyn_run x by simp
  have "prefix_entries (dyn_content (\<lambda>m. m) (\<lambda>m. m) (RocksDb x)) [1] = {([1], [9]), ([1, 2], [7])}"
    by (auto simp: dyn_content_def content prefix_entries_def split: if_splits)
  moreover have "scan_complete sample_rocks sample_sled (RocksDb x) [1]" by (simp add: sample_rocks_def)
  ultimately show ?thesis using run backend_scans [OF sample_backend_laws walks_sorted_walk, of "RocksDb x" "[1]"] by auto
qed

end
