(* ===== verification/Binaries.thy ===== *)
theory Binaries
  imports Cli_Node Node_Builder
begin

text \<open>
  The programs of \<open>src/binaries\<close> and the logger of \<open>common/src/logger.rs\<close> they initialise. The arguments
  are the records that \<open>clap\<close> fills; what the libraries of a node do may depend on the disk, so they are a function
  of its state. Between the start of a node and the signal that ends it, \<open>until_signal\<close> stands for whatever
  the node does.
\<close>

section \<open>The logger\<close>

text \<open>The log file is opened for appending; the layers and the filter of \<open>tracing\<close> have no result.\<close>

definition init_logger :: "'w file_system \<Rightarrow> LoggingConfig \<Rightarrow> 'w \<Rightarrow> 'w \<times> (unit, string) result" where
  "init_logger F config w =
     (case (lgc_log_to_console config, lgc_log_to_file config) of
        (True, True) \<Rightarrow> fs_open_append F w (lgc_log_file_path config)
      | (True, False) \<Rightarrow> (w, Ok ())
      | (False, True) \<Rightarrow> fs_open_append F w (lgc_log_file_path config)
      | (False, False) \<Rightarrow> (w, Ok ()))"

section \<open>Arguments\<close>

record NodeArgs =
  arg_config :: "string option"
  arg_genesis :: "string option"
  arg_data_dir :: string
  arg_listen_addr :: string
  arg_bootstrap_peers :: "string option"
  arg_enable_rpc :: bool
  arg_rpc_addr :: string
  arg_enable_metrics :: bool
  arg_metrics_addr :: string
  arg_log_level :: string
  arg_log_to_file :: bool
  arg_log_file :: "string option"
  arg_network_id :: string

record ValidatorArgs = NodeArgs +
  arg_validator_key :: string

record FullArgs = NodeArgs +
  arg_enable_pruning :: bool
  arg_pruning_retention_days :: u64
  arg_max_peers :: nat

record LightArgs = NodeArgs +
  lar_max_peers :: nat
  lar_cache_size_mb :: nat
  lar_checkpoint_height :: "u64 option"
  lar_checkpoint_hash :: "string option"

definition parse_log_level :: "(string \<Rightarrow> string) \<Rightarrow> string \<Rightarrow> LogLevel outcome" where
  "parse_log_level to_lowercase level =
     (let l = to_lowercase level in
      if l = ''trace'' then Ok Trace
      else if l = ''debug'' then Ok Debug
      else if l = ''info'' then Ok Info
      else if l = ''warn'' then Ok Warn
      else if l = ''error'' then Ok Error
      else Err (ConfigurationError (''Invalid log level: '' @ level @ ''. Must be one of: trace, debug, info, warn, error'')))"

definition logging_config ::
  "(string \<Rightarrow> string) \<Rightarrow> (string \<Rightarrow> (SocketAddr, string) result) \<Rightarrow> string \<Rightarrow> 'z NodeArgs_scheme \<Rightarrow> LoggingConfig outcome" where
  "logging_config to_lowercase parse_addr log_name args =
     rbind (parse_log_level to_lowercase (arg_log_level args)) (\<lambda>level.
     rbind (if arg_enable_metrics args
            then (case parse_addr (arg_metrics_addr args) of Ok a \<Rightarrow> Ok (Some a) | _ \<Rightarrow> Panic ''Invalid metrics address'')
            else Ok None) (\<lambda>metrics_addr.
       Ok \<lparr>lgc_level = level, lgc_format = Pretty, lgc_log_to_file = arg_log_to_file args,
           lgc_log_file_path = (case arg_log_file args of Some p \<Rightarrow> p | None \<Rightarrow> path_join (path_join (arg_data_dir args) ''logs'') log_name),
           lgc_log_to_console = True, lgc_enable_metrics = arg_enable_metrics args, lgc_metrics_addr = metrics_addr\<rparr>))"

section \<open>The configuration of a node\<close>

definition create_dir :: "'w file_system \<Rightarrow> string \<Rightarrow> string \<Rightarrow> 'w \<Rightarrow> 'w \<times> unit outcome" where
  "create_dir F what path w =
     (case fs_create_dir_all F w path of
        (w', r) \<Rightarrow> (w', map_err (\<lambda>e. ConfigurationError (''Failed to create '' @ what @ '' directory: '' @ e)) r))"

definition create_directories :: "'w file_system \<Rightarrow> 'z NodeArgs_scheme \<Rightarrow> 'w \<Rightarrow> 'w \<times> unit outcome" where
  "create_directories F args w =
     and_then (create_dir F ''data'' (arg_data_dir args) w) (\<lambda>w _.
       if arg_log_to_file args then create_dir F ''log'' (path_join (arg_data_dir args) ''logs'') w else (w, Ok ()))"

text \<open>\<open>split(',')\<close>, and \<open>filter_map(|s| s.trim().parse().ok())\<close>\<close>

definition parse_peers :: "(string \<Rightarrow> (SocketAddr, string) result) \<Rightarrow> string \<Rightarrow> SocketAddr list" where
  "parse_peers parse_addr peers_str =
     List.map_filter (\<lambda>s. case parse_addr (trim_string s) of Ok a \<Rightarrow> Some a | _ \<Rightarrow> None) (split_char (CHR '','') peers_str)"

definition optional_peers :: "(string \<Rightarrow> (SocketAddr, string) result) \<Rightarrow> 'z NodeArgs_scheme \<Rightarrow> SocketAddr list" where
  "optional_peers parse_addr args = (case arg_bootstrap_peers args of Some peers_str \<Rightarrow> parse_peers parse_addr peers_str | None \<Rightarrow> [])"

definition required_peers :: "(string \<Rightarrow> (SocketAddr, string) result) \<Rightarrow> 'z NodeArgs_scheme \<Rightarrow> SocketAddr list outcome" where
  "required_peers parse_addr args =
     (case arg_bootstrap_peers args of
        Some peers_str \<Rightarrow>
          (let peers = parse_peers parse_addr peers_str in
           if peers = [] then Err (ConfigurationError ''Light nodes require at least one bootstrap peer'') else Ok peers)
      | None \<Rightarrow> Err (ConfigurationError ''Light nodes require bootstrap peers. Use --bootstrap-peers''))"

definition network_of ::
  "(string \<Rightarrow> (SocketAddr, string) result) \<Rightarrow> 'z NodeArgs_scheme \<Rightarrow> SocketAddr list \<Rightarrow> nat \<Rightarrow> CommonNetworkConfig outcome" where
  "network_of parse_addr args bootstrap_peers max_peers =
     rbind (map_err (\<lambda>e. ConfigurationError (''Invalid listen address: '' @ e)) (parse_addr (arg_listen_addr args))) (\<lambda>listen_addr.
       Ok \<lparr>cnc_listen_addr = listen_addr, cnc_bootstrap_peers = bootstrap_peers, cnc_max_peers = max_peers,
           cnc_connection_timeout = 30, cnc_enable_discovery = True, cnc_network_id = arg_network_id args\<rparr>)"

definition storage_of :: "'z NodeArgs_scheme \<Rightarrow> string \<Rightarrow> nat \<Rightarrow> bool \<Rightarrow> u64 \<Rightarrow> CommonStorageConfig" where
  "storage_of args blocks cache_size_mb enable_pruning pruning_days =
     \<lparr>csc_data_dir = arg_data_dir args, csc_blockchain_db_path = path_join (arg_data_dir args) blocks,
      csc_state_db_path = path_join (arg_data_dir args) ''state'', csc_enable_compression = True, csc_cache_size_mb = cache_size_mb,
      csc_enable_pruning = enable_pruning, csc_pruning_days = pruning_days\<rparr>"

definition consensus_of :: "string option \<Rightarrow> ConsensusConfig" where
  "consensus_of key_path =
     \<lparr>coc_algorithm = ProofOfAuthorityAlgorithm, coc_block_time = 10, coc_min_validators = 3, coc_finality_threshold = f64_lit (67 / 100),
      coc_is_validator = (key_path \<noteq> None), coc_validator_key_path = key_path\<rparr>"

definition rpc_of :: "(string \<Rightarrow> (SocketAddr, string) result) \<Rightarrow> 'z NodeArgs_scheme \<Rightarrow> CommonRpcConfig outcome" where
  "rpc_of parse_addr args =
     rbind (map_err (\<lambda>e. ConfigurationError (''Invalid RPC address: '' @ e)) (parse_addr (arg_rpc_addr args))) (\<lambda>listen_addr.
       Ok \<lparr>crc_enabled = arg_enable_rpc args, crc_listen_addr = listen_addr, crc_enable_cors = True, crc_cors_origins = [''*''],
           crc_request_timeout = 30, crc_max_request_size = 10 * 1024 * 1024, crc_rate_limit = 100\<rparr>)"

text \<open>The record at the end of \<open>build_config_from_args\<close>: the RPC configuration has no place in it.\<close>

definition node_config_of ::
  "NodeType \<Rightarrow> 'z NodeArgs_scheme \<Rightarrow> string option \<Rightarrow> CommonNetworkConfig \<Rightarrow> CommonStorageConfig \<Rightarrow> ConsensusConfig \<Rightarrow> NodeConfig" where
  "node_config_of node_type args key_path network_config storage_config consensus_config =
     \<lparr>ncf_node_type = node_type, ncf_network = network_config, ncf_storage = storage_config, ncf_consensus = consensus_config,
      ncf_genesis_path = arg_genesis args, ncf_validator_key_path = key_path, ncf_data_dir = arg_data_dir args,
      ncf_enable_metrics = arg_enable_metrics args,
      ncf_metrics_addr = (if arg_enable_metrics args then Some (arg_metrics_addr args) else None),
      ncf_enable_rpc = arg_enable_rpc args, ncf_rpc_addr = (if arg_enable_rpc args then Some (arg_rpc_addr args) else None),
      ncf_log_level = arg_log_level args, ncf_log_to_file = arg_log_to_file args, ncf_log_file_path = arg_log_file args\<rparr>"

definition validator_config ::
  "'w file_system \<Rightarrow> (string \<Rightarrow> (SocketAddr, string) result) \<Rightarrow> ValidatorArgs \<Rightarrow> 'w \<Rightarrow> 'w \<times> NodeConfig outcome" where
  "validator_config F parse_addr args w =
     and_then (create_directories F args w) (\<lambda>w _.
     and_then (w, network_of parse_addr args (optional_peers parse_addr args) 50) (\<lambda>w network_config.
     and_then (w, rpc_of parse_addr args) (\<lambda>w _.
       (w, Ok (node_config_of ValidatorType args (Some (arg_validator_key args)) network_config
          (storage_of args ''blockchain'' 512 False 0) (consensus_of (Some (arg_validator_key args))))))))"

definition full_config ::
  "'w file_system \<Rightarrow> (string \<Rightarrow> (SocketAddr, string) result) \<Rightarrow> FullArgs \<Rightarrow> 'w \<Rightarrow> 'w \<times> NodeConfig outcome" where
  "full_config F parse_addr args w =
     and_then (create_directories F args w) (\<lambda>w _.
     and_then (w, network_of parse_addr args (optional_peers parse_addr args) (arg_max_peers args)) (\<lambda>w network_config.
     and_then (w, rpc_of parse_addr args) (\<lambda>w _.
       (w, Ok (node_config_of FullType args None network_config
          (storage_of args ''blockchain'' 512 (arg_enable_pruning args) (arg_pruning_retention_days args)) (consensus_of None))))))"

definition light_config ::
  "'w file_system \<Rightarrow> (string \<Rightarrow> (SocketAddr, string) result) \<Rightarrow> LightArgs \<Rightarrow> 'w \<Rightarrow> 'w \<times> NodeConfig outcome" where
  "light_config F parse_addr args w =
     and_then (create_directories F args w) (\<lambda>w _.
     and_then (w, required_peers parse_addr args) (\<lambda>w bootstrap_peers.
     and_then (w, network_of parse_addr args bootstrap_peers (lar_max_peers args)) (\<lambda>w network_config.
     and_then (w, rpc_of parse_addr args) (\<lambda>w _.
       (w, Ok (node_config_of LightType args None network_config
          (storage_of args ''headers'' (lar_cache_size_mb args) True 7) (consensus_of None)))))))"

text \<open>The part of \<open>main\<close> before a node is made; \<open>build\<close> is \<open>build_config_from_args\<close>.\<close>

definition prepare ::
  "'w file_system \<Rightarrow> (string \<Rightarrow> string) \<Rightarrow> (string \<Rightarrow> (SocketAddr, string) result) \<Rightarrow> string \<Rightarrow>
   ('z NodeArgs_scheme \<Rightarrow> 'w \<Rightarrow> 'w \<times> NodeConfig outcome) \<Rightarrow> 'z NodeArgs_scheme \<Rightarrow> 'w \<Rightarrow> 'w \<times> NodeConfig outcome" where
  "prepare F to_lowercase parse_addr log_name build args w =
     and_then (w, logging_config to_lowercase parse_addr log_name args) (\<lambda>w logging.
     and_then (case init_logger F logging w of
         (w', r) \<Rightarrow> (w', map_err (\<lambda>e. ConfigurationError (''Failed to initialize logger: '' @ e)) r)) (\<lambda>w _.
     if arg_config args \<noteq> None
     then (w, Err (ConfigurationError ''Config file loading not yet implemented. Use command-line args.''))
     else and_then (build args w) (\<lambda>w config.
       and_then (w, map_err ConfigurationError (NodeConfig_validate config)) (\<lambda>w _. (w, Ok config)))))"

section \<open>The programs\<close>

definition run_node :: "('n \<Rightarrow> 'n \<times> unit outcome) \<Rightarrow> ('n \<Rightarrow> 'n) \<Rightarrow> ('n \<Rightarrow> 'n \<times> unit outcome) \<Rightarrow> 'n \<Rightarrow> 'n outcome" where
  "run_node start until_signal stop n =
     (case start n of
        (n1, Ok _) \<Rightarrow> (case stop (until_signal n1) of (n2, r) \<Rightarrow> rbind r (\<lambda>_. Ok n2))
      | (n1, Err e) \<Rightarrow> Err e
      | (n1, Panic m) \<Rightarrow> Panic m)"

definition validator_main ::
  "'w file_system \<Rightarrow> (string \<Rightarrow> string) \<Rightarrow> ('w \<Rightarrow> ('d, 'b, 'h, 't, 's) node_externals) \<Rightarrow> (string \<Rightarrow> (SocketAddr, string) result) \<Rightarrow>
   StartClock \<Rightarrow> unit outcome \<Rightarrow> (SocketAddr \<Rightarrow> Dial) \<Rightarrow>
   (('d, 'b, 'h, 't, 's) ValidatorNode \<Rightarrow> ('d, 'b, 'h, 't, 's) ValidatorNode) \<Rightarrow> ValidatorArgs \<Rightarrow> 'w \<Rightarrow>
   'w \<times> ('d, 'b, 'h, 't, 's) ValidatorNode outcome" where
  "validator_main F to_lowercase env parse_addr clock bound dial until_signal args w =
     and_then (prepare F to_lowercase parse_addr ''full-node.log'' (validator_config F parse_addr) args w) (\<lambda>w config.
       (w, rbind (ValidatorNode_new (env w) config) (run_node (validator_start (env w) clock bound dial) until_signal validator_stop)))"

definition full_main ::
  "'w file_system \<Rightarrow> (string \<Rightarrow> string) \<Rightarrow> ('w \<Rightarrow> ('d, 'b, 'h, 't, 's) node_externals) \<Rightarrow> (string \<Rightarrow> (SocketAddr, string) result) \<Rightarrow>
   StartClock \<Rightarrow> unit outcome \<Rightarrow> (SocketAddr \<Rightarrow> Dial) \<Rightarrow>
   (('d, 'b, 'h, 't, 's) FullNode \<Rightarrow> ('d, 'b, 'h, 't, 's) FullNode) \<Rightarrow> FullArgs \<Rightarrow> 'w \<Rightarrow>
   'w \<times> ('d, 'b, 'h, 't, 's) FullNode outcome" where
  "full_main F to_lowercase env parse_addr clock bound dial until_signal args w =
     and_then (prepare F to_lowercase parse_addr ''full-node.log'' (full_config F parse_addr) args w) (\<lambda>w config.
       (w, rbind (FullNode_new config) (run_node (full_start (env w) clock bound dial) until_signal full_stop)))"

definition light_main ::
  "'w file_system \<Rightarrow> (string \<Rightarrow> string) \<Rightarrow> ('w \<Rightarrow> ('d, 'b, 'h, 't, 's) node_externals) \<Rightarrow> (string \<Rightarrow> (SocketAddr, string) result) \<Rightarrow>
   StartClock \<Rightarrow> unit outcome \<Rightarrow> (SocketAddr \<Rightarrow> Dial) \<Rightarrow> (LightNode \<Rightarrow> LightNode) \<Rightarrow> LightArgs \<Rightarrow> 'w \<Rightarrow> 'w \<times> LightNode outcome" where
  "light_main F to_lowercase env parse_addr clock bound dial until_signal args w =
     and_then (prepare F to_lowercase parse_addr ''light-node.log'' (light_config F parse_addr) args w) (\<lambda>w config.
       (w, rbind (LightNode_new config) (run_node (light_start (env w) clock bound dial) until_signal light_stop)))"

section \<open>Facts\<close>

lemma prepare_Ok:
  assumes "prepare F lower parse_addr log_name build args w = (w', Ok config)"
  obtains w1 where "build args w1 = (w', Ok config)" "NodeConfig_validate config = Ok ()" "arg_config args = None"
    "is_ok (parse_log_level lower (arg_log_level args))"
proof -
  obtain logging w1 where "logging_config lower parse_addr log_name args = Ok logging" "arg_config args = None"
    and built: "and_then (build args w1) (\<lambda>w c. and_then (w, map_err ConfigurationError (NodeConfig_validate c)) (\<lambda>w _. (w, Ok c))) = (w', Ok config)"
    using assms by (auto simp: prepare_def and_then_eq_Ok split: if_split_asm)
  moreover from this(1) have "is_ok (parse_log_level lower (arg_log_level args))"
    by (auto simp: logging_config_def outcome_simps)
  ultimately show ?thesis using that by (auto simp: and_then_eq_Ok outcome_simps)
qed

lemma validate_level: "NodeConfig_validate c = Ok () \<Longrightarrow> \<exists>level. ncf_log_level c = LogLevel_display level"
  using ncb_build_Ok [of "\<lparr>ncb_config = c\<rparr>" c] by (simp add: ncb_build_def)

text \<open>
  The logger is initialised before the directories are created. If the log file cannot be opened, because its directory
  does not exist yet, the program ends without having created anything, and so does every later attempt.
\<close>

lemma logger_before_directory:
  assumes "arg_log_to_file args" and "fs_open_append F w (path_join (path_join (arg_data_dir args) ''logs'') log_name) = (w, Err e)"
    and "arg_log_file args = None" and "is_ok (logging_config lower parse_addr log_name args)"
  shows "prepare F lower parse_addr log_name build args w = (w, Err (ConfigurationError (''Failed to initialize logger: '' @ e)))"
proof -
  obtain logging where l: "logging_config lower parse_addr log_name args = Ok logging" using assms(4) by (auto simp: is_ok_iff)
  then have "lgc_log_to_file logging" "lgc_log_to_console logging" "lgc_log_file_path logging = path_join (path_join (arg_data_dir args) ''logs'') log_name"
    using assms(1,3) by (auto simp: logging_config_def outcome_simps)
  with assms(2) l show ?thesis by (simp add: prepare_def init_logger_def)
qed

text \<open>The logger accepts a level in capitals, which the configuration then refuses.\<close>

lemma capital_level:
  "parse_log_level (\<lambda>_. ''info'') ''INFO'' = Ok Info"
  "ncf_log_level c = ''INFO'' \<Longrightarrow> \<not> is_ok (NodeConfig_validate c)"
  by (simp_all add: parse_log_level_def NodeConfig_validate_def)

text \<open>The limits and the origins of the RPC configuration are dropped: only whether it is enabled and its address remain.\<close>

lemma rpc_config_dropped:
  "rpc_of parse_addr args = Ok a \<Longrightarrow> full_config F parse_addr args w = (w', Ok c) \<Longrightarrow>
   ncf_rpc_addr c = (if crc_enabled a then Some (arg_rpc_addr args) else None)"
  by (auto simp: full_config_def and_then_eq_Ok rpc_of_def node_config_of_def outcome_simps)

context node_lifecycle
begin

text \<open>A program whose node starts, and keeps running until the signal, ends well, with its node stopped.\<close>

lemma run_node_ends:
  assumes "start n = (n1, Ok ())" and "running (until_signal n1)"
  shows "\<exists>n2. run_node start until_signal stop n = Ok n2 \<and> \<not> running n2"
proof -
  obtain n2 r where "stop (until_signal n1) = (n2, r)" by (cases "stop (until_signal n1)")
  with assms stop_stops [of "until_signal n1" n2 r] show ?thesis by (simp add: run_node_def)
qed

lemma run_node_stopped:
  assumes "run_node start until_signal stop n = Ok n2" and "\<And>m. running (until_signal m) = running m"
  shows "\<not> running n2"
proof -
  obtain n1 r where s: "start n = (n1, r)" by (cases "start n")
  then have r: "r = Ok ()" using assms(1) by (cases r) (auto simp: run_node_def)
  with run_node_ends [of n n1 until_signal] s assms start_Ok show ?thesis by fastforce
qed

end

text \<open>What the command line fixes of a configuration.\<close>

definition configured :: "NodeType \<Rightarrow> 'z NodeArgs_scheme \<Rightarrow> SocketAddr list \<Rightarrow> NodeConfig \<Rightarrow> bool" where
  "configured node_type args peers c \<longleftrightarrow>
     ncf_node_type c = node_type \<and> NodeConfig_validate c = Ok () \<and> arg_config args = None \<and>
     arg_genesis args \<noteq> None \<and> ncf_genesis_path c = arg_genesis args \<and> ncf_data_dir c = arg_data_dir args \<and>
     cnc_bootstrap_peers (ncf_network c) = peers \<and> coc_is_validator (ncf_consensus c) = (node_type = ValidatorType) \<and>
     (\<exists>level. arg_log_level args = LogLevel_display level)"

lemma configured_node_config:
  assumes "NodeConfig_validate (node_config_of t args key network storage (consensus_of key')) = Ok ()"
    and "arg_config args = None" and "cnc_bootstrap_peers network = peers" and "(key' \<noteq> None) = (t = ValidatorType)"
  shows "configured t args peers (node_config_of t args key network storage (consensus_of key'))"
proof -
  from validate_level [OF assms(1)] have "\<exists>level. arg_log_level args = LogLevel_display level" by (simp add: node_config_of_def)
  moreover have "arg_genesis args \<noteq> None"
    using assms(1) by (auto simp: NodeConfig_validate_def node_config_of_def split: if_splits)
  ultimately show ?thesis using assms by (simp add: configured_def node_config_of_def consensus_of_def)
qed

lemma validator_config_configured:
  assumes "prepare F lower parse_addr log_name (validator_config F parse_addr) args w = (w', Ok c)"
  shows "configured ValidatorType args (optional_peers parse_addr args) c \<and> ncf_validator_key_path c = Some (arg_validator_key args)"
proof -
  obtain w1 where b: "validator_config F parse_addr args w1 = (w', Ok c)" and v: "NodeConfig_validate c = Ok ()" "arg_config args = None"
    by (rule prepare_Ok [OF assms])
  obtain network storage where c: "c = node_config_of ValidatorType args (Some (arg_validator_key args)) network storage (consensus_of (Some (arg_validator_key args)))"
    and "network_of parse_addr args (optional_peers parse_addr args) 50 = Ok network"
    using b by (auto simp: validator_config_def and_then_eq_Ok)
  then have "cnc_bootstrap_peers network = optional_peers parse_addr args" by (auto simp: network_of_def outcome_simps)
  then have "configured ValidatorType args (optional_peers parse_addr args) c"
    using v unfolding c by (intro configured_node_config) simp_all
  then show ?thesis by (simp add: c node_config_of_def)
qed

lemma full_config_configured:
  assumes "prepare F lower parse_addr log_name (full_config F parse_addr) args w = (w', Ok c)"
  shows "configured FullType args (optional_peers parse_addr args) c"
proof -
  obtain w1 where b: "full_config F parse_addr args w1 = (w', Ok c)" and v: "NodeConfig_validate c = Ok ()" "arg_config args = None"
    by (rule prepare_Ok [OF assms])
  obtain network storage where c: "c = node_config_of FullType args None network storage (consensus_of None)"
    and "network_of parse_addr args (optional_peers parse_addr args) (arg_max_peers args) = Ok network"
    using b by (auto simp: full_config_def and_then_eq_Ok)
  then have "cnc_bootstrap_peers network = optional_peers parse_addr args" by (auto simp: network_of_def outcome_simps)
  then show ?thesis using v unfolding c by (intro configured_node_config) simp_all
qed

lemma light_config_configured:
  assumes "prepare F lower parse_addr log_name (light_config F parse_addr) args w = (w', Ok c)"
  shows "\<exists>peers. required_peers parse_addr args = Ok peers \<and> peers \<noteq> [] \<and> configured LightType args peers c"
proof -
  obtain w1 where b: "light_config F parse_addr args w1 = (w', Ok c)" and v: "NodeConfig_validate c = Ok ()" "arg_config args = None"
    by (rule prepare_Ok [OF assms])
  obtain network storage peers where c: "c = node_config_of LightType args None network storage (consensus_of None)"
    and "network_of parse_addr args peers (lar_max_peers args) = Ok network" and peers: "required_peers parse_addr args = Ok peers"
    using b by (auto simp: light_config_def and_then_eq_Ok)
  then have "cnc_bootstrap_peers network = peers" by (auto simp: network_of_def outcome_simps)
  then have "configured LightType args peers c" using v unfolding c by (intro configured_node_config) simp_all
  moreover have "peers \<noteq> []" using peers by (auto simp: required_peers_def Let_def split: option.splits if_splits)
  ultimately show ?thesis using peers by blast
qed

text \<open>
  a program that ends without an error has built, from its arguments alone, a configuration of its own node type that
  passes the validation, with a genesis, exactly the bootstrap peers that parse, a log level in lower case and the role of a
  validator only for the validator, whose key is that of the command line; a light node has at least one peer. Its node was
  started and has been stopped.
\<close>

theorem binary_startup:
  assumes "\<forall>m. vn_running (vrun m) = vn_running m" and "\<forall>m. fn_running (frun m) = fn_running m" and "\<forall>m. ln_running (lrun m) = ln_running m"
  shows "(\<forall>w' v. validator_main F lower env parse_addr clock bound dial vrun vargs w = (w', Ok v) \<longrightarrow> \<not> vn_running v \<and>
            (\<exists>c. prepare F lower parse_addr ''full-node.log'' (validator_config F parse_addr) vargs w = (w', Ok c) \<and>
              configured ValidatorType vargs (optional_peers parse_addr vargs) c \<and> ncf_validator_key_path c = Some (arg_validator_key vargs))) \<and>
         (\<forall>w' n. full_main F lower env parse_addr clock bound dial frun fargs w = (w', Ok n) \<longrightarrow> \<not> fn_running n \<and>
            (\<exists>c. prepare F lower parse_addr ''full-node.log'' (full_config F parse_addr) fargs w = (w', Ok c) \<and>
              configured FullType fargs (optional_peers parse_addr fargs) c)) \<and>
         (\<forall>w' n. light_main F lower env parse_addr clock bound dial lrun largs w = (w', Ok n) \<longrightarrow> \<not> ln_running n \<and>
            (\<exists>c peers. prepare F lower parse_addr ''light-node.log'' (light_config F parse_addr) largs w = (w', Ok c) \<and>
              required_peers parse_addr largs = Ok peers \<and> peers \<noteq> [] \<and> configured LightType largs peers c))"
proof (intro conjI allI impI)
  fix w' v
  assume "validator_main F lower env parse_addr clock bound dial vrun vargs w = (w', Ok v)"
  then obtain c n where c: "prepare F lower parse_addr ''full-node.log'' (validator_config F parse_addr) vargs w = (w', Ok c)"
    and run: "run_node (validator_start (env w') clock bound dial) vrun validator_stop n = Ok v"
    by (auto simp: validator_main_def and_then_eq_Ok outcome_simps)
  show "\<not> vn_running v" using validator.run_node_stopped [OF run] assms(1) by blast
  show "\<exists>c. prepare F lower parse_addr ''full-node.log'' (validator_config F parse_addr) vargs w = (w', Ok c) \<and>
      configured ValidatorType vargs (optional_peers parse_addr vargs) c \<and> ncf_validator_key_path c = Some (arg_validator_key vargs)"
    using c validator_config_configured [OF c] by blast
next
  fix w' n
  assume "full_main F lower env parse_addr clock bound dial frun fargs w = (w', Ok n)"
  then obtain c m where c: "prepare F lower parse_addr ''full-node.log'' (full_config F parse_addr) fargs w = (w', Ok c)"
    and run: "run_node (full_start (env w') clock bound dial) frun full_stop m = Ok n"
    by (auto simp: full_main_def and_then_eq_Ok outcome_simps)
  show "\<not> fn_running n" using full.run_node_stopped [OF run] assms(2) by blast
  show "\<exists>c. prepare F lower parse_addr ''full-node.log'' (full_config F parse_addr) fargs w = (w', Ok c) \<and>
      configured FullType fargs (optional_peers parse_addr fargs) c"
    using c full_config_configured [OF c] by blast
next
  fix w' n
  assume "light_main F lower env parse_addr clock bound dial lrun largs w = (w', Ok n)"
  then obtain c m where c: "prepare F lower parse_addr ''light-node.log'' (light_config F parse_addr) largs w = (w', Ok c)"
    and run: "run_node (light_start (env w') clock bound dial) lrun light_stop m = Ok n"
    by (auto simp: light_main_def and_then_eq_Ok outcome_simps)
  show "\<not> ln_running n" using light.run_node_stopped [OF run] assms(3) by blast
  show "\<exists>c peers. prepare F lower parse_addr ''light-node.log'' (light_config F parse_addr) largs w = (w', Ok c) \<and>
      required_peers parse_addr largs = Ok peers \<and> peers \<noteq> [] \<and> configured LightType largs peers c"
    using c light_config_configured [OF c] by blast
qed

text \<open>A full node on the sample disk, with the libraries of the sample node.\<close>

definition sample_args :: FullArgs where
  "sample_args =
     \<lparr>arg_config = None, arg_genesis = Some ''genesis.json'', arg_data_dir = ''./data'', arg_listen_addr = ''0.0.0.0:9001'',
      arg_bootstrap_peers = None, arg_enable_rpc = True, arg_rpc_addr = ''127.0.0.1:8546'', arg_enable_metrics = False,
      arg_metrics_addr = ''127.0.0.1:9091'', arg_log_level = ''info'', arg_log_to_file = False, arg_log_file = None, arg_network_id = ''mainnet'',
      arg_enable_pruning = False, arg_pruning_retention_days = 30, arg_max_peers = 50\<rparr>"

definition sample_addr :: "string \<Rightarrow> (SocketAddr, string) result" where
  "sample_addr text = Ok (V4 (bytes_fill 0) 9001)"

lemma sample_prepare:
  "\<exists>c. prepare sample_files (\<lambda>s. s) sample_addr ''full-node.log'' (full_config sample_files sample_addr) sample_args (fmempty, fmempty) =
     ((fmempty, fmempty), Ok c) \<and> ncf_genesis_path c = Some ''genesis.json'' \<and> cnc_bootstrap_peers (ncf_network c) = []"
  by (simp add: prepare_def logging_config_def parse_log_level_def init_logger_def full_config_def create_directories_def create_dir_def
      sample_files_def network_of_def optional_peers_def rpc_of_def node_config_of_def NodeConfig_validate_def sample_args_def sample_addr_def Let_def)

lemma sample_components_start:
  assumes "make_components sample_node_env sample_clock config g = Ok c" and "cnc_bootstrap_peers (ncf_network config) = []"
  shows "\<exists>m. network_start (Ok ()) sample_dial (nco_network c) = (m, Ok ())"
  using assms
  by (auto simp: make_components_def outcome_simps NetworkManager_new_def network_start_def network_config_of_def
      NetworkConfig_default_def Transport_new_def on_discovery_def discovery_start_def on_gossip_def gossip_start_def on_sync_def sync_start_def Let_def
      PeerDiscovery_new_def GossipProtocol_new_def BlockSync_new_def)

theorem binary_startup_witness:
  "\<exists>w n. full_main sample_files (\<lambda>s. s) (\<lambda>_. sample_node_env) sample_addr sample_clock (Ok ()) sample_dial (\<lambda>n. n) sample_args (fmempty, fmempty) = (w, Ok n) \<and>
     \<not> fn_running n"
proof -
  obtain c where prep: "prepare sample_files (\<lambda>s. s) sample_addr ''full-node.log'' (full_config sample_files sample_addr) sample_args (fmempty, fmempty) =
      ((fmempty, fmempty), Ok c)" and c: "ncf_genesis_path c = Some ''genesis.json''" "cnc_bootstrap_peers (ncf_network c) = []"
    using sample_prepare by blast
  obtain k where k: "make_components sample_node_env sample_clock c (GenesisBlock_new [sample_key 1] 1000) = Ok k" using sample_make_components by blast
  have "read_genesis sample_node_env c = Ok (GenesisBlock_new [sample_key 1] 1000)"
    using sample_read_genesis c(1) by (simp add: read_genesis_def sample_node_config_def)
  moreover obtain m where "network_start (Ok ()) sample_dial (nco_network k) = (m, Ok ())" using sample_components_start [OF k c(2)] by blast
  ultimately have "\<exists>n1. full_start sample_node_env sample_clock (Ok ()) sample_dial (ok_value (FullNode_new c)) = (n1, Ok ())"
    using k by (simp add: full_start_def FullNode_new_def full_initialize_def full_on_network_def)
  then obtain n1 where "full_start sample_node_env sample_clock (Ok ()) sample_dial (ok_value (FullNode_new c)) = (n1, Ok ())" by blast
  from full.run_node_ends [OF this, of "\<lambda>n. n"] full.start_Ok [OF this] obtain n
    where "run_node (full_start sample_node_env sample_clock (Ok ()) sample_dial) (\<lambda>n. n) full_stop (ok_value (FullNode_new c)) = Ok n" by blast
  then have "full_main sample_files (\<lambda>s. s) (\<lambda>_. sample_node_env) sample_addr sample_clock (Ok ()) sample_dial (\<lambda>n. n) sample_args (fmempty, fmempty) =
      ((fmempty, fmempty), Ok n)"
    by (simp add: full_main_def prep FullNode_new_def)
  with binary_startup [of "\<lambda>n. n" "\<lambda>n. n" "\<lambda>n. n" sample_files "\<lambda>s. s" "\<lambda>_. sample_node_env" sample_addr sample_clock "Ok ()" sample_dial _ "(fmempty, fmempty)" sample_args]
  show ?thesis by blast
qed

end
