(* ===== verification/Spec2Isabelle.thy ===== *)
theory Spec2Isabelle
  imports Eligibility Threshold Verification Anonymity Signature_Serde Background_Loops Rpc_Chain Rpc_Server Analytics Patterns Cli_Main Backends Binaries
begin

text \<open>
  A verification library for the voting blockchain under \<open>src/crates\<close> and the programs under \<open>src/binaries\<close>. File names below are
  relative to \<open>src/crates\<close>.

  \<^bold>\<open>The program.\<close> Ten crates. \<open>common\<close> holds identifiers, errors, configuration and helpers. \<open>crypto\<close> wraps third-party hashing,
  signatures and encryption. \<open>blockchain-core\<close> holds transactions, blocks, the Merkle tree, the chain and the consensus (proof of
  authority, a validator set and a finality tracker). \<open>voting\<close> holds elections, voters, eligibility, ballots, the casting and
  verification of votes and an anonymity layer. \<open>storage\<close> keeps blocks and state in a key-value database behind caches and makes
  snapshots; \<open>network\<close> frames messages, gossips, finds peers and fetches blocks; \<open>node\<close> puts these together as a validator, a full
  and a light node; \<open>rpc\<close> serves a node over HTTP; \<open>cli\<close> is its client; \<open>analytics\<close> examines votes. A voter fills a ballot in a
  session, which encrypts, commits to and signs it; the vote caster accepts the submission; validators put transactions into
  blocks in turn; a chain accepts a block that links to its newest one; signatures of enough validators make the block final;
  nodes store, spread and serve the blocks.

  \<^bold>\<open>Conventions\<close> (\<open>Prelude\<close>). A fallible function yields \<open>Ok\<close>, \<open>Err\<close> or \<open>Panic\<close>; \<open>Panic\<close> is an index out of range, a failed
  \<open>unwrap\<close> or \<open>expect\<close>, or a division by zero. A method on \<open>&mut self\<close>, or on shared state behind locks, takes the state and
  yields the new state with its outcome (\<open>and_then\<close> composes them); an asynchronous method and the handling of one connection are
  one step, and interleavings are sequences of such steps. \<open>u8\<close> to \<open>u64\<close> are words, and arithmetic on them wraps, as in a release
  build. \<open>[u8; N]\<close> is a type of byte lists of length \<open>N\<close>. Hash maps and sets are finite maps and sets; the order in which one
  is walked is an argument with the law \<open>walks\<close>, or the result is a multiset. A string is the list of its bytes; where
  characters matter (\<open>Rust_Strings\<close>: UTF-8, lines, trimming, number parsing) it is the list of its code points. \<open>f64\<close> is modelled
  in \<open>Float64\<close> as rationals with infinities and NaN, each operation rounded to 53 bits ties to even with gradual underflow; the
  sign of zero is left out, since no operation used here can tell it apart.

  \<^bold>\<open>Parameters.\<close> Code that is not in the repository is an argument: records of functions for hashing, hex and bincode
  (\<open>externals\<close>, \<open>tx_externals\<close>), ciphers and ed25519 (\<open>crypto_externals\<close>, \<open>key_externals\<close>), codecs (\<open>voting_externals\<close>, \<open>storage_externals\<close>,
  \<open>network_codecs\<close>), databases (\<open>rocksdb\<close>, \<open>sled\<close>), LRU caches, JSON and HTTP (\<open>json_value\<close>, \<open>rpc_json\<close>, \<open>http_externals\<close>), files and
  processes (\<open>file_system\<close>, \<open>processes\<close>), trigonometric functions (\<open>float_functions\<close>), and clocks and random draws. What a
  theorem needs of them is a named hypothesis that states documented behaviour: \<open>hex_laws\<close>, \<open>signature_laws\<close> (a signature made with a
  key verifies under its public key), \<open>aead_laws\<close> (decryption inverts encryption, the tag has 16 bytes), \<open>ballot_codec_laws\<close>,
  \<open>election_codec_laws\<close>, \<open>block_store_codec_laws\<close>, \<open>snapshot_codec_laws\<close>, \<open>codec_laws\<close> (decoding inverts encoding), \<open>lru_laws\<close>,
  \<open>rocks_laws\<close> and \<open>sled_laws\<close> (a call that succeeds acts on a map; a scan may break off or skip entries, with an error on record), \<open>fs_laws\<close>,
  \<open>b64_laws\<close>, \<open>shuffle_laws\<close>, \<open>genesis_json_laws\<close> (for the default settings only), \<open>answers_node\<close>, \<open>encoding_returns\<close>, and that a hash is injective on the inputs at hand where a theorem is about binding. Each is satisfied by a concrete instance
  (\<open>sample_externals\<close>, \<open>sample_crypto\<close>, \<open>sample_storage\<close>, \<open>sample_node_env\<close>, \<dots>) on which the witnesses run.

  \<^bold>\<open>Theories and what they show.\<close>
  \<^item> \<open>Common_Types\<close>, \<open>Errors\<close>, \<open>Common_Utils\<close>, \<open>Config\<close>, \<open>Signature_Serde\<close>: \<open>common/src\<close> (\<open>types.rs\<close>, \<open>errors.rs\<close>, \<open>utils.rs\<close>, \<open>config.rs\<close>).
    The hexadecimal forms of all identifiers interpret the locale \<open>hex_newtype\<close> (round trip, injectivity); the retry loop ends; the
    hand-written serde implementations read back what they write.
  \<^item> \<open>Merkle\<close>, \<open>Transaction\<close>, \<open>Block\<close>: \<open>blockchain-core/src\<close>. Merkle proofs are complete and sound and the root binds the leaves of
    lists of the same length (repeating the last leaf of an odd list keeps it); identifiers and hashes determine contents.
  \<^item> \<open>Validator_Set\<close>, \<open>Finality\<close>, \<open>Proof_Of_Authority\<close>, \<open>Consensus_Engine\<close>: \<open>consensus/\<close>. The three copies of the validator set agree; a
    block is final exactly if enough distinct validators signed, stays final until its record is pruned or cleared, and two
    final blocks share more than a third of the validators, proved through the floating-point ceiling of \<open>0.67 * n\<close> for up to
    \<open>2 ^ 53\<close> validators (beyond that \<open>n as f64\<close> is inexact) other than three, for which tests and code disagree; turns rotate fairly; one producer per height. The trait is the locale \<open>consensus_mechanism\<close>.
  \<^item> \<open>Genesis\<close>, \<open>Chain\<close>: \<open>genesis.rs\<close>, \<open>chain.rs\<close>. Reachable chains (a step relation over \<open>add_block\<close>) verify, lookups are searches, the
    newest hash determines all headers; pruning breaks lookups by height. Heights are bounded by \<open>2 ^ 64\<close> where a theorem
    says so.
  \<^item> \<open>Crypto\<close>, \<open>Signatures\<close>, \<open>Encryption\<close>, \<open>Key_Files\<close>, \<open>Threshold\<close>, \<open>Zkp\<close>: \<open>crypto/src\<close>. The locales \<open>signature_scheme\<close> and \<open>sealed_box\<close> are
    the contracts the other crates rely on; a key pair survives its password-protected file and its PEM form; a threshold
    signature is backed by enough different participants.
  \<^item> \<open>Registries\<close>: the contracts the voting components share. \<open>once_only\<close>: at most one call per key succeeds, whatever else
    is called; \<open>counted_once\<close> adds a count; \<open>indexed_store\<close>: a vector with an index of positions.
  \<^item> \<open>Election\<close>, \<open>Voter\<close>, \<open>Ballot\<close>, \<open>Vote_Casting\<close>, \<open>Eligibility\<close>, \<open>Verification\<close>, \<open>Anonymity\<close>: \<open>voting/src\<close>. The tally and the winner are right
    (for fewer than \<open>2 ^ 64\<close> votes, the width of the counters); a voter votes once; a vote travels from the session to the
    record and decrypts to what the voter chose; the audits count exactly what they name, and what the verifier accepts is
    characterised, including that it accepts no submission.
  \<^item> \<open>Database\<close>, \<open>Backends\<close>, \<open>State_Store\<close>, \<open>Blockchain_Store\<close>, \<open>Cache\<close>, \<open>Snapshot\<close>, \<open>Storage_Manager\<close>, \<open>Jurisdiction\<close>, \<open>Jurisdiction_Tree\<close>:
    \<open>storage/src\<close>. The trait \<open>Database\<close> is the locale \<open>key_value_database\<close>, implemented by the map in memory and, as long as no scan fails, by RocksDB and Sled, and what a failed scan yields is stated
    apart; stores reopened on the same database answer as before, as far as they do; cached reads are the newest writes (the order in
    which \<open>Cache\<close> takes its locks is recorded there); a snapshot restores what was taken.
  \<^item> \<open>Protocol\<close>, \<open>Peer\<close>, \<open>Gossip\<close>, \<open>Sync\<close>, \<open>Discovery\<close>, \<open>Transport\<close>, \<open>Network_Manager\<close>: \<open>network/src\<close>. Messages arrive as sent and in order;
    requests for blocks tile the range, if there is a peer to ask and the batch size is not zero; the locale \<open>payload_message\<close> covers all message kinds.
  \<^item> \<open>Node\<close>, \<open>Full_Node\<close>, \<open>Validator_Node\<close>, \<open>Light_Node\<close>, \<open>Node_Builder\<close>, \<open>Background_Loops\<close>: \<open>node/src\<close>, and the tasks that \<open>network\<close> and \<open>node\<close>
    spawn. The trait \<open>Node\<close> is the locale \<open>node_lifecycle\<close>; validators with the same state make progress together and keep the
    schedule; what a light node accepts proves nothing as the code is, and \<open>Light_Node\<close> says what it would have to check. The locale
    \<open>background_service\<close> covers all six loops with a flag, under an invariant that rules out panics: whatever is interleaved, a running
    component has a task, no tick ends one, a stopped component loses its tasks at the next tick, and a start before that adds one.
  \<^item> \<open>Rpc_Types\<close>, \<open>Rpc\<close>, \<open>Rpc_Methods\<close>, \<open>Rpc_Chain\<close>, \<open>Rpc_Queries\<close>, \<open>Rpc_Server\<close>: \<open>rpc/src\<close>. Every request is answered, access is guarded by the
    key and the rate limiter, whose window is bounded, and searches return the pages they should.
  \<^item> \<open>Benford\<close>, \<open>Analytics\<close>, \<open>Fraud_Detection\<close>, \<open>Entropy\<close>, \<open>Patterns\<close>: \<open>analytics/src\<close>. Digit counts and verdicts, the turnout table, what a
    clean fraud report means, that windows and runs count every vote once, and which temporal clusters are reported. The last
    three model \<open>fraud_detection.rs\<close>, \<open>entropy.rs\<close> and \<open>patterns.rs\<close>, which no \<open>mod\<close> item names, as the files have them.
  \<^item> \<open>Cli\<close>, \<open>Cli_Node\<close>, \<open>Cli_Display\<close>, \<open>Cli_Main\<close>: \<open>cli/src\<close>. What the commands report of a node, how a node is started and stopped, that a
    genesis from key files is read back, what the displays show and when they panic, and the exit status.
  \<^item> \<open>Binaries\<close>: \<open>src/binaries\<close> and \<open>common/src/logger.rs\<close>. A program that ends without an error has run a node of its own type with a
    validated configuration made from its arguments.

  \<^bold>\<open>Termination.\<close> Loops are structural recursion or \<open>function\<close> with a termination proof (the levels of the Merkle tree, the retry
  loop, decimal numerals, UTF-8). Three loops that need not end are \<open>partial_function\<close>s into \<open>option\<close>: \<open>request_loop\<close> of \<open>Sync\<close>,
  \<open>descendants_loop\<close> and \<open>build_path_loop\<close> of \<open>Jurisdiction_Tree\<close>; that they return is proved under the conditions that make them.
  Loops of background tasks are step relations. No model uses fuel.

  \<^bold>\<open>Not modelled\<close>: what the operating system and libraries do behind the parameters; derived serde implementations, \<open>Debug\<close> forms
  and plain accessors; log output; \<open>common/src/metrics.rs\<close> (registration of Prometheus counters); benchmarks; files that no
  \<open>mod\<close> item names and that are never compiled: \<open>correlation.rs\<close>, \<open>reporting.rs\<close> and \<open>statistical.rs\<close> of \<open>analytics\<close>, and
  \<open>cli/src/commands/analytics.rs\<close>.
\<close>

end
